(* ===== verification/Usb_Prelude.thy ===== *)
theory Usb_Prelude
  imports Main "HOL-Library.Word" "HOL-Library.Monad_Syntax"
begin

text \<open>
  Shared vocabulary of the development: the machine integers of the C code, the return codes of
  the driver framework, the semantic domain of the translated functions, the checked memory
  primitives the sources call, and the list and word lemmas that the component theories use.

  Semantic domain. A C function becomes a HOL function into \<open>option\<close>: \<open>Some r\<close> means that the
  call returns normally with result \<open>r\<close> and that every memory access on the way was inside an
  allocated object; \<open>None\<close> means that there is no such execution, because the C code reads or
  writes outside an object, dereferences a null or freed pointer, or loops forever.  A theorem
  that a call is safe and returns is therefore a theorem that it yields \<open>Some\<close>.
\<close>

unbundle bit_operations_syntax

named_theorems codes \<open>classification of return codes\<close>
named_theorems cmem \<open>reads and copies on byte arrays\<close>
named_theorems obind \<open>equations for the option monad\<close>

subsection \<open>Machine integers\<close>

type_synonym u8 = "8 word"
type_synonym u16 = "16 word"
type_synonym u32 = "32 word"
type_synonym u64 = "64 word"

text \<open>Addresses of heap objects; a C pointer that may be null is a \<open>ptr option\<close>.\<close>

type_synonym ptr = nat

subsection \<open>Return codes\<close>

text \<open>
  The framework header \<open>hdf_base.h\<close> is outside the repository.  The sources rely on three facts
  about its codes: success is 0, the error codes are negative, and they differ from each other.
  An \<open>int32_t\<close> result is therefore \<open>RetVal n\<close> for an ordinary number (\<open>RetVal 0\<close> is
  \<open>HDF_SUCCESS\<close>), \<open>RetErr e\<close> for a framework error, and \<open>RetSec\<close> for the nonzero, positive
  \<open>errno_t\<close> with which the bounds-checked copy functions report a violated constraint.
\<close>

datatype hdf_err =
    HDF_FAILURE
  | HDF_ERR_NOT_SUPPORT
  | HDF_ERR_INVALID_PARAM
  | HDF_ERR_INVALID_OBJECT
  | HDF_ERR_MALLOC_FAIL
  | HDF_ERR_TIMEOUT
  | HDF_ERR_IO
  | HDF_ERR_BAD_FD
  | HDF_DEV_ERR_NO_DEVICE
  | HDF_DEV_ERR_NORANGE
  | HDF_ERR_DEVICE_BUSY

datatype ret = RetVal int | RetErr hdf_err | RetSec

abbreviation HDF_SUCCESS :: ret where
  "HDF_SUCCESS \<equiv> RetVal 0"

fun ret_neg :: "ret \<Rightarrow> bool" where
  "ret_neg (RetVal n) = (n < 0)"
| "ret_neg (RetErr e) = True"
| "ret_neg RetSec = False"

lemma ret_neg_not_success [codes, simp]: "ret_neg r \<Longrightarrow> r \<noteq> HDF_SUCCESS"
  by (cases r) auto

subsection \<open>The option monad\<close>

lemma bind_Some_iff [obind]: "(x \<bind> f = Some y) = (\<exists>a. x = Some a \<and> f a = Some y)"
  by (cases x) auto

lemma bind_None_iff [obind]: "(x \<bind> f = None) = (x = None \<or> (\<exists>a. x = Some a \<and> f a = None))"
  by (cases x) auto

definition guard_opt :: "bool \<Rightarrow> unit option" where
  "guard_opt b = (if b then Some () else None)"

lemma guard_opt_simps [simp]: "guard_opt True = Some ()" "guard_opt False = None"
  by (simp_all add: guard_opt_def)

lemma guard_opt_Some [simp]: "(guard_opt b = Some u) = b"
  by (simp add: guard_opt_def)

subsection \<open>Byte arrays\<close>

text \<open>A read of one byte through a pointer at offset \<open>i\<close> of an object.\<close>

definition rd8 :: "u8 list \<Rightarrow> nat \<Rightarrow> u8 option" where
  "rd8 b i = (if i < length b then Some (b ! i) else None)"

text \<open>A read of the \<open>n\<close> bytes at offset \<open>i\<close>.\<close>

definition rdn :: "u8 list \<Rightarrow> nat \<Rightarrow> nat \<Rightarrow> u8 list option" where
  "rdn b i n = (if i + n \<le> length b then Some (take n (drop i b)) else None)"

text \<open>A write of the bytes \<open>bs\<close> at offset \<open>i\<close>.\<close>

definition wrn :: "u8 list \<Rightarrow> nat \<Rightarrow> u8 list \<Rightarrow> u8 list option" where
  "wrn b i bs =
     (if i + length bs \<le> length b then Some (take i b @ bs @ drop (i + length bs) b) else None)"

text \<open>
  \<open>memcpy_s (dest + off, destMax, src, count)\<close> of ISO C11 K.3.7.1.1: when \<open>count\<close> exceeds
  \<open>destMax\<close> the first \<open>destMax\<close> bytes of the destination are zeroed and a nonzero code is
  returned (the flag is \<open>False\<close>); otherwise \<open>count\<close> bytes are copied, which needs both arrays to
  hold them.
\<close>

definition memcpy_s :: "u8 list \<Rightarrow> nat \<Rightarrow> nat \<Rightarrow> u8 list \<Rightarrow> nat \<Rightarrow> (bool \<times> u8 list) option" where
  "memcpy_s dest off destMax src count =
     (if destMax < count
      then do { d \<leftarrow> wrn dest off (replicate destMax 0); Some (False, d) }
      else do { bs \<leftarrow> rdn src 0 count; d \<leftarrow> wrn dest off bs; Some (True, d) })"

lemma rd8_Some [cmem]: "(rd8 b i = Some x) = (i < length b \<and> x = b ! i)"
  by (auto simp: rd8_def)

lemma rdn_Some [cmem]: "(rdn b i n = Some x) = (i + n \<le> length b \<and> x = take n (drop i b))"
  by (auto simp: rdn_def)

lemma rdn_length: "rdn b i n = Some x \<Longrightarrow> length x = n"
  by (auto simp: rdn_def split: if_splits)

lemma wrn_length: "wrn b i bs = Some b' \<Longrightarrow> length b' = length b"
  by (auto simp: wrn_def split: if_splits)

lemma wrn_Some_iff: "(\<exists>b'. wrn b i bs = Some b') = (i + length bs \<le> length b)"
  by (simp add: wrn_def)

lemma wrn_read_back: "wrn b i bs = Some b' \<Longrightarrow> rdn b' i (length bs) = Some bs"
  by (auto simp: wrn_def rdn_def split: if_splits)

lemma memcpy_s_length: "memcpy_s d off mx src n = Some (ok, d') \<Longrightarrow> length d' = length d"
  by (auto simp: memcpy_s_def obind dest: wrn_length split: if_splits)

lemma memcpy_s_ok_iff: "memcpy_s d off mx src n = Some (ok, d') \<Longrightarrow> ok = (n \<le> mx)"
  by (auto simp: memcpy_s_def obind split: if_splits)

lemma memcpy_s_safe:
  "n \<le> mx \<Longrightarrow> n \<le> length src \<Longrightarrow> off + n \<le> length d \<Longrightarrow>
   \<exists>d'. memcpy_s d off mx src n = Some (True, d') \<and> rdn d' off n = Some (take n src)"
  by (auto simp: memcpy_s_def rdn_def wrn_def)

subsection \<open>Indexed lists\<close>

lemma nth_append_drop: "i < length (drop n b) \<Longrightarrow> drop n b ! i = b ! (n + i)"
  by simp

lemma update_map_upt:
  assumes "\<And>k. k < n \<Longrightarrow> idx k \<noteq> i"
  shows "map (\<lambda>k. (xs[i := v]) ! idx k) [0..<n] = map (\<lambda>k. xs ! idx k) [0..<n]"
  using assms by (intro map_cong refl nth_list_update_neq) (metis atLeastLessThan_iff set_upt)

text \<open>The index of the first element with a property: a C search loop with \<open>break\<close>.\<close>

fun find_index :: "('a \<Rightarrow> bool) \<Rightarrow> 'a list \<Rightarrow> nat option" where
  "find_index P [] = None"
| "find_index P (x # xs) = (if P x then Some 0 else map_option Suc (find_index P xs))"

lemma find_index_None: "(find_index P xs = None) = (\<forall>x \<in> set xs. \<not> P x)"
  by (induction xs) auto

lemma find_index_Some:
  "(find_index P xs = Some i) = (i < length xs \<and> P (xs ! i) \<and> (\<forall>j < i. \<not> P (xs ! j)))"
proof (induction xs arbitrary: i)
  case (Cons x xs)
  show ?case
    by (cases i) (auto simp: Cons.IH less_Suc_eq_0_disj)
qed simp

lemma find_index_distinct:
  assumes "distinct xs" and "i < length xs"
  shows "find_index (\<lambda>x. x = xs ! i) xs = Some i"
  using assms by (auto simp: find_index_Some nth_eq_iff_index_eq)

lemma find_cong_list: "(\<And>p. p \<in> set ps \<Longrightarrow> P p = Q p) \<Longrightarrow> List.find P ps = List.find Q ps"
  by (induction ps) auto

lemma find_snoc: "List.find P (xs @ [x]) = (case List.find P xs of None \<Rightarrow> if P x then Some x else None | Some y \<Rightarrow> Some y)"
  by (induction xs) auto

subsection \<open>Loops\<close>

text \<open>
  A C loop whose body returns whether to go on.  \<open>loop_opt body s\<close> is \<open>None\<close> where an iteration is undefined or the loop does not
  end; the rule proves both that it ends and what holds then, from an invariant and a measure.
\<close>

partial_function (option) loop_opt :: "('s \<Rightarrow> (bool \<times> 's) option) \<Rightarrow> 's \<Rightarrow> 's option" where
  "loop_opt body s = do { (go, t) \<leftarrow> body s; if go then loop_opt body t else Some t }"

lemma loop_opt_rule:
  fixes m :: "'s \<Rightarrow> nat"
  assumes "I s"
    and "\<And>s. I s \<Longrightarrow> \<exists>go t. body s = Some (go, t) \<and> (if go then I t \<and> m t < m s else Q t)"
  shows "\<exists>t. loop_opt body s = Some t \<and> Q t"
  using assms(1)
proof (induction "m s" arbitrary: s rule: less_induct)
  case less
  obtain go t where b: "body s = Some (go, t)" "if go then I t \<and> m t < m s else Q t" using assms(2)[OF less.prems] by blast
  show ?case
  proof (cases go)
    case True
    then show ?thesis using less.hyps[of t] b by (subst loop_opt.simps) simp
  next
    case False
    then show ?thesis using b by (subst loop_opt.simps) simp
  qed
qed

subsection \<open>Residues\<close>

lemma mod_add_inj:
  fixes a b c m :: nat
  assumes eq: "(c + a) mod m = (c + b) mod m" and "a < m" "b < m"
  shows "a = b"
proof (rule ccontr)
  assume "a \<noteq> b"
  then consider "a < b" | "b < a" by linarith
  then show False
  proof cases
    case 1
    then have "m dvd (b - a)" using eq by (metis add_less_cancel_left diff_cancel2 add.commute
      less_imp_le mod_eq_dvd_iff_nat)
    then show False using 1 assms(3) by (auto dest: dvd_imp_le)
  next
    case 2
    then have "m dvd (a - b)" using eq by (metis add_less_cancel_left diff_cancel2 add.commute
      less_imp_le mod_eq_dvd_iff_nat)
    then show False using 2 assms(2) by (auto dest: dvd_imp_le)
  qed
qed

subsection \<open>Words\<close>

lemma and_pow2_mask:
  fixes x :: "'a::len word"
  assumes "n \<le> LENGTH('a)"
  shows "unat (x AND (2 ^ n - 1)) = unat x mod 2 ^ n"
proof -
  have "x AND (2 ^ n - 1) = take_bit n x"
    by (simp add: take_bit_eq_mask mask_eq_exp_minus_1)
  then show ?thesis
    by (simp only: unsigned_take_bit_eq) (simp add: take_bit_eq_mod)
qed

lemma unat_exp2:
  assumes "n < LENGTH('a::len)"
  shows "unat (2 ^ n :: 'a word) = 2 ^ n"
proof -
  have "(2 ^ n :: 'a word) = of_nat (2 ^ n)" by simp
  moreover have "(2::nat) ^ n < 2 ^ LENGTH('a)" using assms by simp
  ultimately show ?thesis
    by (simp only: unsigned_of_nat take_bit_nat_eq_self of_nat_id)
qed

lemma unat_of_nat_small: "n < 2 ^ LENGTH('a::len) \<Longrightarrow> unat (of_nat n :: 'a word) = n"
  by (simp only: unsigned_of_nat take_bit_nat_eq_self of_nat_id)

lemma of_nat_small_nonzero: "0 < n \<Longrightarrow> n < 2 ^ LENGTH('a::len) \<Longrightarrow> (of_nat n :: 'a word) \<noteq> 0"
  using unat_of_nat_small[where 'a = 'a and n = n] by auto

lemma ucast_of_nat_unat: "(ucast (w :: 'a::len word) :: 'b::len word) = of_nat (unat w)"
  by simp

lemma unat_add_of_nat:
  fixes x :: "'a::len word"
  shows "unat (x + of_nat k) = (unat x + k) mod 2 ^ LENGTH('a)"
  by (simp add: unat_word_ariths unsigned_of_nat take_bit_eq_mod mod_add_right_eq)

end
