(* ===== verification/Usb_Fifo.thy ===== *)
theory Usb_Fifo
  imports Usb_Prelude
begin

text \<open>
  The byte ring of \<open>usb/gadget/function/include/data_fifo.h\<close>, which buffers the data of the ACM
  gadget port.  The read and write indices are free-running 32-bit counters that wrap around; a
  slot is selected by masking with \<open>size - 1\<close>.  The theory models every helper of the header,
  states the contract of a bounded byte queue as a locale, and interprets the locale on the ring.
\<close>

subsection \<open>Data and operations\<close>

record DataFifo =
  rdIdx :: u32
  wrIdx :: u32
  fsize :: u32
  fdata :: "u8 list"

definition DataFifoInit :: "DataFifo \<Rightarrow> u32 \<Rightarrow> u8 list \<Rightarrow> DataFifo" where
  "DataFifoInit f sz data = f\<lparr>rdIdx := 0, wrIdx := 0, fsize := sz, fdata := data\<rparr>"

definition DataFifoIsInitialized :: "DataFifo \<Rightarrow> bool" where
  "DataFifoIsInitialized f = (fsize f \<noteq> 0)"

definition DataFifoReset :: "DataFifo \<Rightarrow> DataFifo" where
  "DataFifoReset f = f\<lparr>rdIdx := 0, wrIdx := 0\<rparr>"

definition DataFifoLen :: "DataFifo \<Rightarrow> u32" where
  "DataFifoLen f = wrIdx f - rdIdx f"

definition DataFifoIsEmpty :: "DataFifo \<Rightarrow> bool" where
  "DataFifoIsEmpty f = (wrIdx f = rdIdx f)"

definition DataFifoIsFull :: "DataFifo \<Rightarrow> bool" where
  "DataFifoIsFull f = (DataFifoLen f > fsize f - 1)"

definition DataFifoAvailSize :: "DataFifo \<Rightarrow> u32" where
  "DataFifoAvailSize f = fsize f - DataFifoLen f"

definition DataFifoSkip :: "DataFifo \<Rightarrow> u32 \<Rightarrow> DataFifo" where
  "DataFifoSkip f sz = f\<lparr>rdIdx := rdIdx f + sz\<rparr>"

text \<open>The slot that a free-running index selects.\<close>

definition fifo_slot :: "DataFifo \<Rightarrow> u32 \<Rightarrow> nat" where
  "fifo_slot f i = unat (i AND (fsize f - 1))"

text \<open>The loop of \<open>DataFifoWrite\<close>: \<open>buf[fifo->wrIdx++ & mask] = *data++\<close>.\<close>

fun fifo_put :: "DataFifo \<Rightarrow> u8 list \<Rightarrow> DataFifo option" where
  "fifo_put f [] = Some f"
| "fifo_put f (b # bs) =
     (let i = fifo_slot f (wrIdx f)
      in if i < length (fdata f)
         then fifo_put (f\<lparr>fdata := (fdata f)[i := b], wrIdx := wrIdx f + 1\<rparr>) bs
         else None)"

definition DataFifoWrite :: "DataFifo \<Rightarrow> u8 list \<Rightarrow> u32 \<Rightarrow> (u32 \<times> DataFifo) option" where
  "DataFifoWrite f data sz =
     (let n = min sz (DataFifoAvailSize f)
      in do { bs \<leftarrow> rdn data 0 (unat n); f' \<leftarrow> fifo_put f bs; Some (n, f') })"

text \<open>The loop of \<open>DataFifoRead\<close>: \<open>*data++ = buf[fifo->rdIdx++ & mask]\<close>.\<close>

fun fifo_get :: "DataFifo \<Rightarrow> nat \<Rightarrow> (u8 list \<times> DataFifo) option" where
  "fifo_get f 0 = Some ([], f)"
| "fifo_get f (Suc n) =
     do { b \<leftarrow> rd8 (fdata f) (fifo_slot f (rdIdx f));
          (bs, f') \<leftarrow> fifo_get (f\<lparr>rdIdx := rdIdx f + 1\<rparr>) n;
          Some (b # bs, f') }"

text \<open>The result is the count, the bytes stored at \<open>data\<close> and the fifo.\<close>

definition DataFifoRead :: "DataFifo \<Rightarrow> u32 \<Rightarrow> (u32 \<times> u8 list \<times> DataFifo) option" where
  "DataFifoRead f sz =
     (let n = min sz (DataFifoLen f)
      in do { (bs, f') \<leftarrow> fifo_get f (unat n); Some (n, bs, f') })"

subsection \<open>Invariant and abstraction\<close>

text \<open>
  The ring is used with a size that is a power of two, a buffer of at least that size, and never
  holds more than the size.
\<close>

definition fifo_inv :: "DataFifo \<Rightarrow> bool" where
  "fifo_inv f \<longleftrightarrow> (\<exists>n<32. fsize f = 2 ^ n) \<and> unat (fsize f) \<le> length (fdata f) \<and>
     DataFifoLen f \<le> fsize f"

definition fifo_contents :: "DataFifo \<Rightarrow> u8 list" where
  "fifo_contents f =
     map (\<lambda>k. fdata f ! fifo_slot f (rdIdx f + of_nat k)) [0..<unat (DataFifoLen f)]"

lemma fifo_invE:
  assumes "fifo_inv f"
  obtains n where "n < 32" "fsize f = 2 ^ n" "2 ^ n \<le> length (fdata f)"
    "unat (DataFifoLen f) \<le> 2 ^ n" "unat (fsize f) = 2 ^ n"
proof -
  from assms obtain n where n: "n < 32" "fsize f = 2 ^ n"
    by (auto simp: fifo_inv_def)
  then have "unat (fsize f) = 2 ^ n"
    by (simp add: unat_exp2)
  with n assms show thesis
    by (intro that[of n]) (auto simp: fifo_inv_def word_le_nat_alt)
qed

lemma fifo_slot_mod:
  assumes "n < 32" "fsize f = 2 ^ n"
  shows "fifo_slot f i = unat i mod 2 ^ n"
  using and_pow2_mask[of n i] assms by (simp add: fifo_slot_def)

text \<open>Slots of indices less than the size apart differ, across the 32-bit wrap-around too.\<close>

lemma fifo_slot_add:
  assumes "n < 32" "fsize f = 2 ^ n"
  shows "fifo_slot f (i + of_nat k) = (unat i + k) mod 2 ^ n"
proof -
  have "(2::nat) ^ n dvd 2 ^ 32"
    using assms(1) by (intro le_imp_power_dvd) simp
  then show ?thesis
    by (simp add: fifo_slot_mod[OF assms] unat_add_of_nat mod_mod_cancel)
qed

subsection \<open>One byte in, one byte out\<close>

lemma fifo_len_incr:
  assumes "unat (DataFifoLen f) < 2 ^ 31" and "wrIdx g = wrIdx f + 1" "rdIdx g = rdIdx f"
  shows "unat (DataFifoLen g) = Suc (unat (DataFifoLen f))"
proof -
  have "DataFifoLen g = DataFifoLen f + of_nat 1"
    using assms(2,3) by (simp add: DataFifoLen_def)
  then show ?thesis
    using assms(1) unat_add_of_nat[of "DataFifoLen f" 1] by simp
qed

lemma fifo_put_step:
  fixes f :: DataFifo and b :: u8
  assumes inv: "fifo_inv f" and room: "unat (DataFifoLen f) < unat (fsize f)"
  defines "i \<equiv> fifo_slot f (wrIdx f)"
  defines "g \<equiv> f\<lparr>fdata := (fdata f)[i := b], wrIdx := wrIdx f + 1\<rparr>"
  shows "i < length (fdata f)" and "fifo_inv g" and "fifo_contents g = fifo_contents f @ [b]"
    and "unat (DataFifoLen g) = Suc (unat (DataFifoLen f))"
proof -
  from inv obtain n where n: "n < 32" "fsize f = 2 ^ n" "2 ^ n \<le> length (fdata f)"
      "unat (fsize f) = 2 ^ n"
    by (rule fifo_invE)
  let ?L = "unat (DataFifoLen f)"
  have L: "?L < 2 ^ n" using room n(4) by simp
  also have "(2::nat) ^ n \<le> 2 ^ 31" using n(1) by (intro power_increasing) auto
  finally have L31: "?L < 2 ^ 31" .
  have w: "wrIdx f = rdIdx f + of_nat ?L" by (simp add: DataFifoLen_def)
  have slotg: "fifo_slot g = fifo_slot f" by (simp add: fifo_slot_def g_def fun_eq_iff)
  have i: "i = (unat (rdIdx f) + ?L) mod 2 ^ n"
    unfolding i_def w by (rule fifo_slot_add[OF n(1,2)])
  then have "i < 2 ^ n" by simp
  with n(3) show il: "i < length (fdata f)" by simp
  show Lg: "unat (DataFifoLen g) = Suc ?L"
    by (rule fifo_len_incr[OF L31]) (simp_all add: g_def)
  show "fifo_inv g"
    using n L Lg by (auto simp: fifo_inv_def g_def word_le_nat_alt)
  have "fifo_slot f (rdIdx f + of_nat k) \<noteq> i" if "k < ?L" for k
    using mod_add_inj[of "unat (rdIdx f)" k "2 ^ n" ?L] that L
    by (auto simp: i fifo_slot_add[OF n(1,2)])
  then have "map (\<lambda>k. (fdata f)[i := b] ! fifo_slot f (rdIdx f + of_nat k)) [0..<?L]
      = fifo_contents f"
    unfolding fifo_contents_def by (rule update_map_upt)
  moreover have "fifo_slot f (rdIdx f + of_nat ?L) = i" by (simp add: i_def w)
  ultimately show "fifo_contents g = fifo_contents f @ [b]"
    using il by (simp add: fifo_contents_def Lg slotg) (simp add: g_def)
qed

lemma fifo_get_step:
  assumes inv: "fifo_inv f" and ne: "0 < unat (DataFifoLen f)"
  defines "i \<equiv> fifo_slot f (rdIdx f)"
  defines "g \<equiv> f\<lparr>rdIdx := rdIdx f + 1\<rparr>"
  shows "i < length (fdata f)" and "fifo_inv g"
    and "fifo_contents f = fdata f ! i # fifo_contents g"
    and "unat (DataFifoLen f) = Suc (unat (DataFifoLen g))"
proof -
  from inv obtain n where n: "n < 32" "fsize f = 2 ^ n" "2 ^ n \<le> length (fdata f)"
      "unat (DataFifoLen f) \<le> 2 ^ n" "unat (fsize f) = 2 ^ n"
    by (rule fifo_invE)
  have "i < 2 ^ n" by (simp add: i_def fifo_slot_mod[OF n(1,2)])
  with n(3) show "i < length (fdata f)" by simp
  have "DataFifoLen g = DataFifoLen f - 1" by (simp add: DataFifoLen_def g_def)
  then show L: "unat (DataFifoLen f) = Suc (unat (DataFifoLen g))"
    using ne by (simp add: unat_minus_one unat_gt_0)
  show "fifo_inv g"
    using n L by (auto simp: fifo_inv_def g_def word_le_nat_alt)
  have slotg: "fifo_slot g = fifo_slot f" by (simp add: fifo_slot_def g_def fun_eq_iff)
  have idx: "rdIdx f + of_nat (Suc k) = rdIdx g + of_nat k" for k
    by (simp add: g_def)
  have "[0..<Suc m] = 0 # map Suc [0..<m]" for m
    by (simp add: map_Suc_upt upt_conv_Cons)
  then show "fifo_contents f = fdata f ! i # fifo_contents g"
    unfolding fifo_contents_def L slotg i_def by (simp add: idx o_def) (simp add: g_def add.assoc)
qed

subsection \<open>The loops\<close>

lemma fifo_contents_length [simp]: "length (fifo_contents f) = unat (DataFifoLen f)"
  by (simp add: fifo_contents_def)

lemma fifo_put_spec:
  assumes "fifo_inv f" and "unat (DataFifoLen f) + length bs \<le> unat (fsize f)"
  shows "\<exists>g. fifo_put f bs = Some g \<and> fifo_inv g \<and> fsize g = fsize f \<and> rdIdx g = rdIdx f \<and>
    fifo_contents g = fifo_contents f @ bs"
  using assms
proof (induction bs arbitrary: f)
  case Nil
  then show ?case by simp
next
  case (Cons b bs)
  let ?i = "fifo_slot f (wrIdx f)"
  let ?g = "f\<lparr>fdata := (fdata f)[?i := b], wrIdx := wrIdx f + 1\<rparr>"
  have room: "unat (DataFifoLen f) < unat (fsize f)" using Cons.prems(2) by simp
  note step = fifo_put_step[OF Cons.prems(1) room]
  have "unat (DataFifoLen ?g) + length bs \<le> unat (fsize ?g)"
    using Cons.prems(2) step(4)[of b] by simp
  from Cons.IH[OF step(2) this] step(1) step(3)[of b] show ?case by (auto simp: Let_def)
qed

lemma fifo_get_spec:
  assumes "fifo_inv f" and "n \<le> unat (DataFifoLen f)"
  shows "\<exists>g. fifo_get f n = Some (take n (fifo_contents f), g) \<and> fifo_inv g \<and>
    fsize g = fsize f \<and> wrIdx g = wrIdx f \<and> fifo_contents g = drop n (fifo_contents f)"
  using assms
proof (induction n arbitrary: f)
  case 0
  then show ?case by simp
next
  case (Suc n)
  let ?g = "f\<lparr>rdIdx := rdIdx f + 1\<rparr>"
  have ne: "0 < unat (DataFifoLen f)" using Suc.prems(2) by simp
  note step = fifo_get_step[OF Suc.prems(1) ne]
  have "n \<le> unat (DataFifoLen ?g)" using Suc.prems(2) step(4) by simp
  from Suc.IH[OF step(2) this] step(1,3) show ?case by (auto simp: rd8_def)
qed

lemma fifo_avail:
  assumes "fifo_inv f"
  shows "unat (DataFifoAvailSize f) = unat (fsize f) - length (fifo_contents f)"
  using assms by (simp add: fifo_inv_def DataFifoAvailSize_def unat_sub)

lemma unat_min_word: "unat (min a b :: 'a::len word) = min (unat a) (unat b)"
  by (simp add: min_def word_le_nat_alt)

subsection \<open>The contract of a bounded byte queue\<close>

datatype byte_op = PutBytes "u8 list" u32 | GetBytes u32

text \<open>
  A client of a byte queue: a sequence of writes and reads.  It collects the bytes that the writes
  accepted and the bytes that the reads delivered.
\<close>

fun byte_run ::
  "('q \<Rightarrow> u8 list \<Rightarrow> u32 \<Rightarrow> (u32 \<times> 'q) option) \<Rightarrow> ('q \<Rightarrow> u32 \<Rightarrow> (u32 \<times> u8 list \<times> 'q) option) \<Rightarrow>
   'q \<Rightarrow> byte_op list \<Rightarrow> (u8 list \<times> u8 list \<times> 'q) option" where
  "byte_run wr rd q [] = Some ([], [], q)"
| "byte_run wr rd q (PutBytes d n # ops) =
     do { (k, q') \<leftarrow> wr q d n;
          (acc, del, q'') \<leftarrow> byte_run wr rd q' ops;
          Some (take (unat k) d @ acc, del, q'') }"
| "byte_run wr rd q (GetBytes n # ops) =
     do { (k, bs, q') \<leftarrow> rd q n;
          (acc, del, q'') \<leftarrow> byte_run wr rd q' ops;
          Some (acc, bs @ del, q'') }"

fun op_ok :: "byte_op \<Rightarrow> bool" where
  "op_ok (PutBytes d n) = (unat n \<le> length d)"
| "op_ok (GetBytes n) = True"

locale byte_queue =
  fixes inv :: "'q \<Rightarrow> bool" and contents :: "'q \<Rightarrow> u8 list" and capacity :: "'q \<Rightarrow> nat"
    and wr :: "'q \<Rightarrow> u8 list \<Rightarrow> u32 \<Rightarrow> (u32 \<times> 'q) option"
    and rd :: "'q \<Rightarrow> u32 \<Rightarrow> (u32 \<times> u8 list \<times> 'q) option"
  assumes bounded: "inv q \<Longrightarrow> length (contents q) \<le> capacity q"
    and wr_spec: "inv q \<Longrightarrow> unat n \<le> length d \<Longrightarrow>
      \<exists>k q'. wr q d n = Some (k, q') \<and> inv q' \<and> capacity q' = capacity q \<and>
        unat k = min (unat n) (capacity q - length (contents q)) \<and>
        contents q' = contents q @ take (unat k) d"
    and rd_spec: "inv q \<Longrightarrow>
      \<exists>k q'. rd q n = Some (k, take (unat k) (contents q), q') \<and> inv q' \<and>
        capacity q' = capacity q \<and> unat k = min (unat n) (length (contents q)) \<and>
        contents q' = drop (unat k) (contents q)"
begin

lemma run_stream:
  assumes "inv q" and "list_all op_ok ops"
  shows "\<exists>acc del q'. byte_run wr rd q ops = Some (acc, del, q') \<and> inv q' \<and>
    capacity q' = capacity q \<and> del @ contents q' = contents q @ acc"
  using assms
proof (induction ops arbitrary: q)
  case Nil
  then show ?case by simp
next
  case (Cons x ops)
  show ?case
  proof (cases x)
    case (PutBytes d n)
    with Cons.prems obtain k q1 where 1: "wr q d n = Some (k, q1)" "inv q1"
        "capacity q1 = capacity q" "contents q1 = contents q @ take (unat k) d"
      using wr_spec[of q n d] by auto
    with Cons.IH[of q1] Cons.prems obtain acc del q2 where
      "byte_run wr rd q1 ops = Some (acc, del, q2)" "inv q2" "capacity q2 = capacity q1"
      "del @ contents q2 = contents q1 @ acc" by auto
    with 1 PutBytes show ?thesis by auto
  next
    case (GetBytes n)
    from Cons.prems obtain k q1 where 1: "rd q n = Some (k, take (unat k) (contents q), q1)"
        "inv q1" "capacity q1 = capacity q" "contents q1 = drop (unat k) (contents q)"
      using rd_spec[of q n] by auto
    with Cons.IH[of q1] Cons.prems obtain acc del q2 where
      "byte_run wr rd q1 ops = Some (acc, del, q2)" "inv q2" "capacity q2 = capacity q1"
      "del @ contents q2 = contents q1 @ acc" by auto
    with 1 GetBytes show ?thesis by simp
  qed
qed

lemma wr_then_rd:
  assumes "inv q" and "contents q = []" and "unat n \<le> length d" and "unat n \<le> capacity q"
  shows "\<exists>q' q''. wr q d n = Some (n, q') \<and> rd q' n = Some (n, take (unat n) d, q'') \<and>
    contents q'' = []"
proof -
  from wr_spec[OF assms(1,3)] assms(2,4) obtain k q' where
    w: "wr q d n = Some (k, q')" "inv q'" "unat k = unat n" "contents q' = take (unat k) d"
    by auto
  then have k: "k = n" by (simp add: word_unat_eq_iff)
  from rd_spec[OF w(2), of n] w(4) assms(3) obtain j q'' where
    r: "rd q' n = Some (j, take (unat j) (contents q'), q'')" "unat j = unat n"
      "contents q'' = drop (unat j) (contents q')"
    by (auto simp: k)
  then have "j = n" by (simp add: word_unat_eq_iff)
  with w r k assms(3) show ?thesis by auto
qed

end

interpretation df: byte_queue fifo_inv fifo_contents "\<lambda>f. unat (fsize f)" DataFifoWrite DataFifoRead
proof
  show "length (fifo_contents q) \<le> unat (fsize q)" if "fifo_inv q" for q
    using that by (simp add: fifo_inv_def word_le_nat_alt)
next
  fix q :: DataFifo and n :: u32 and d :: "u8 list"
  assume inv: "fifo_inv q" and n: "unat n \<le> length d"
  let ?k = "min n (DataFifoAvailSize q)"
  have k: "unat ?k = min (unat n) (unat (fsize q) - length (fifo_contents q))"
    by (simp only: unat_min_word fifo_avail[OF inv])
  have len: "unat (DataFifoLen q) \<le> unat (fsize q)"
    using inv by (simp add: fifo_inv_def word_le_nat_alt)
  have "unat (DataFifoLen q) + length (take (unat ?k) d) \<le> unat (fsize q)"
    using k len by (simp only: length_take fifo_contents_length)
  from fifo_put_spec[OF inv this] obtain g where g: "fifo_put q (take (unat ?k) d) = Some g"
      "fifo_inv g" "fsize g = fsize q" "fifo_contents g = fifo_contents q @ take (unat ?k) d"
    by auto
  have "DataFifoWrite q d n = Some (?k, g)"
    using g(1) k n by (simp add: DataFifoWrite_def rdn_def Let_def)
  with g k show
    "\<exists>k q'. DataFifoWrite q d n = Some (k, q') \<and> fifo_inv q' \<and> unat (fsize q') = unat (fsize q) \<and>
      unat k = min (unat n) (unat (fsize q) - length (fifo_contents q)) \<and>
      fifo_contents q' = fifo_contents q @ take (unat k) d"
    by (intro exI[of _ ?k] exI[of _ g]) simp
next
  fix q :: DataFifo and n :: u32
  assume inv: "fifo_inv q"
  let ?k = "min n (DataFifoLen q)"
  have k: "unat ?k = min (unat n) (length (fifo_contents q))"
    by (simp add: unat_min_word)
  have "unat ?k \<le> unat (DataFifoLen q)" using k by simp
  from fifo_get_spec[OF inv this] obtain g where g:
      "fifo_get q (unat ?k) = Some (take (unat ?k) (fifo_contents q), g)" "fifo_inv g"
      "fsize g = fsize q" "fifo_contents g = drop (unat ?k) (fifo_contents q)" by auto
  then have "DataFifoRead q n = Some (?k, take (unat ?k) (fifo_contents q), g)"
    by (simp add: DataFifoRead_def Let_def)
  with g k show
    "\<exists>k q'. DataFifoRead q n = Some (k, take (unat k) (fifo_contents q), q') \<and> fifo_inv q' \<and>
      unat (fsize q') = unat (fsize q) \<and> unat k = min (unat n) (length (fifo_contents q)) \<and>
      fifo_contents q' = drop (unat k) (fifo_contents q)"
    by (intro exI[of _ ?k] exI[of _ g]) simp
qed

subsection \<open>Properties of the ring\<close>

text \<open>
  C15. The ring loses, duplicates and reorders no byte, across any number of 32-bit index
  wrap-arounds: from any state that satisfies the invariant, any sequence of writes and reads runs
  without a memory error, keeps the invariant, and what the reads delivered followed by what is
  still buffered is what was buffered at the start followed by what the writes accepted.
\<close>

theorem DataFifo_stream:
  assumes "fifo_inv f" and "list_all op_ok ops"
  shows "\<exists>acc del f'. byte_run DataFifoWrite DataFifoRead f ops = Some (acc, del, f') \<and>
    fifo_inv f' \<and> del @ fifo_contents f' = fifo_contents f @ acc \<and>
    length (fifo_contents f') \<le> unat (fsize f)"
proof -
  from df.run_stream[OF assms] obtain acc del f' where
    "byte_run DataFifoWrite DataFifoRead f ops = Some (acc, del, f')" "fifo_inv f'"
    "unat (fsize f') = unat (fsize f)" "del @ fifo_contents f' = fifo_contents f @ acc" by auto
  moreover from this(2) have "length (fifo_contents f') \<le> unat (fsize f')" by (rule df.bounded)
  ultimately show ?thesis by auto
qed

definition fifo_example :: DataFifo where
  "fifo_example = \<lparr>rdIdx = 0xFFFFFFFE, wrIdx = 0xFFFFFFFF, fsize = 4, fdata = [1, 2, 3, 4]\<rparr>"

lemma fifo_example_inv: "fifo_inv fifo_example"
  by (auto simp: fifo_inv_def fifo_example_def DataFifoLen_def intro!: exI[of _ "2::nat"])

theorem DataFifo_stream_witness:
  "\<exists>acc del f'. byte_run DataFifoWrite DataFifoRead fifo_example
     [PutBytes [5, 6, 7, 8] 4, GetBytes 2, PutBytes [9] 1] = Some (acc, del, f') \<and> fifo_inv f' \<and>
     del @ fifo_contents f' = fifo_contents fifo_example @ acc \<and>
     length (fifo_contents f') \<le> unat (fsize fifo_example)"
  by (rule DataFifo_stream[OF fifo_example_inv]) simp

text \<open>
  A write accepts as many bytes as fit, no more and no fewer, stores them behind what is
  buffered, and never writes outside the buffer.
\<close>

theorem DataFifoWrite_accepts:
  assumes "fifo_inv f" and "unat n \<le> length d"
  shows "\<exists>k f'. DataFifoWrite f d n = Some (k, f') \<and> fifo_inv f' \<and> fsize f' = fsize f \<and>
    unat k = min (unat n) (unat (fsize f) - length (fifo_contents f)) \<and>
    fifo_contents f' = fifo_contents f @ take (unat k) d"
  using df.wr_spec[OF assms] by (auto simp: word_unat_eq_iff)

theorem DataFifoWrite_accepts_witness:
  "\<exists>k f'. DataFifoWrite fifo_example [5, 6, 7, 8] 4 = Some (k, f') \<and> fifo_inv f' \<and>
    fsize f' = fsize fifo_example \<and>
    unat k = min (unat (4::u32)) (unat (fsize fifo_example) - length (fifo_contents fifo_example)) \<and>
    fifo_contents f' = fifo_contents fifo_example @ take (unat k) [5, 6, 7, 8]"
  by (rule DataFifoWrite_accepts[OF fifo_example_inv]) simp

text \<open>The tests on the level agree with the abstract contents.\<close>

lemma DataFifoIsEmpty_contents: "DataFifoIsEmpty f = (fifo_contents f = [])"
  by (auto simp: DataFifoIsEmpty_def fifo_contents_def DataFifoLen_def unat_eq_0)

lemma DataFifoIsFull_contents:
  assumes "fifo_inv f"
  shows "DataFifoIsFull f = (length (fifo_contents f) = unat (fsize f))"
proof -
  from assms obtain n where n: "n < 32" "unat (DataFifoLen f) \<le> 2 ^ n" "unat (fsize f) = 2 ^ n"
    by (rule fifo_invE)
  then have "fsize f \<noteq> 0" by auto
  then have "unat (fsize f - 1) = unat (fsize f) - 1" by (rule unat_minus_one)
  with n show ?thesis
    by (auto simp: DataFifoIsFull_def word_less_nat_alt)
qed

lemma DataFifoInit_inv:
  assumes "n < 32" and "2 ^ n \<le> length d"
  shows "fifo_inv (DataFifoInit f (2 ^ n) d)" and "fifo_contents (DataFifoInit f (2 ^ n) d) = []"
  using assms by (auto simp: fifo_inv_def DataFifoInit_def DataFifoLen_def fifo_contents_def
      unat_exp2)

lemma DataFifoReset_inv:
  assumes "fifo_inv f"
  shows "fifo_inv (DataFifoReset f)" and "fifo_contents (DataFifoReset f) = []"
  using assms by (auto simp: fifo_inv_def DataFifoReset_def DataFifoLen_def fifo_contents_def)

lemma fifo_skip:
  assumes "fifo_inv f" and "n \<le> DataFifoLen f"
  shows "fifo_inv (DataFifoSkip f n) \<and>
    fifo_contents (DataFifoSkip f n) = drop (unat n) (fifo_contents f)"
proof -
  have get: "\<exists>bs. fifo_get g k = Some (bs, g\<lparr>rdIdx := rdIdx g + of_nat k\<rparr>)"
    if "fifo_inv g" "k \<le> unat (DataFifoLen g)" for g k
    using that
  proof (induction k arbitrary: g)
    case (Suc k)
    have ne: "0 < unat (DataFifoLen g)" using Suc.prems(2) by simp
    note step = fifo_get_step[OF Suc.prems(1) ne]
    have "k \<le> unat (DataFifoLen (g\<lparr>rdIdx := rdIdx g + 1\<rparr>))" using Suc.prems(2) step(4) by simp
    from Suc.IH[OF step(2) this] step(1) show ?case
      by (auto simp: rd8_def add.assoc)
  qed simp
  have "unat n \<le> unat (DataFifoLen f)" using assms(2) by (simp add: word_le_nat_alt)
  from get[OF assms(1) this] fifo_get_spec[OF assms(1) this] show ?thesis
    by (auto simp: DataFifoSkip_def)
qed

text \<open>
  Skipping inside the buffered data drops exactly that prefix and keeps the invariant.
\<close>

theorem DataFifoSkip_drops:
  assumes "fifo_inv f" and "n \<le> DataFifoLen f"
  shows "fifo_inv (DataFifoSkip f n) \<and>
    fifo_contents (DataFifoSkip f n) = drop (unat n) (fifo_contents f)"
  using assms by (rule fifo_skip)

theorem DataFifoSkip_drops_witness:
  "fifo_inv (DataFifoSkip fifo_example 1) \<and>
   fifo_contents (DataFifoSkip fifo_example 1) = drop (unat (1::u32)) (fifo_contents fifo_example)"
  by (rule DataFifoSkip_drops[OF fifo_example_inv]) (simp add: fifo_example_def DataFifoLen_def)

end
