(* ===== verification/Usb_Mem.thy ===== *)
theory Usb_Mem
  imports Usb_Prelude
begin

text \<open>
  The memory wrappers of \<open>usb/ddk/host/src/usb_raw_api_library.c\<close> (\<open>RawUsbMemAlloc\<close>,
  \<open>RawUsbMemCalloc\<close>, \<open>RawUsbMemFree\<close>, \<open>RawUsbMemTestTrigger\<close>) with their allocation tracker, which
  the host stack can switch on to look for leaks.

  The allocator \<open>OsalMemAlloc\<close> of the framework is a parameter: \<open>os n size\<close> says whether its
  \<open>n\<close>-th call, for \<open>size\<close> bytes, succeeds.  Addresses are numbered by the calls, so that a new
  block never has the address of an older one; \<open>live\<close> is the set of blocks not yet freed, and
  freeing a block that is not live has no defined result.  The \<open>memset_s\<close> of \<open>RawUsbMemCalloc\<close>
  can only refuse a size above the library's limit, and the function then frees the block again;
  this is covered by the allocator's refusal.
\<close>

type_synonym alloc_os = "nat \<Rightarrow> nat \<Rightarrow> bool"

text \<open>\<open>struct RawUsbRamTestList\<close>: \<open>re_self\<close> is the address of the entry itself.\<close>

record RawUsbRamTestList =
  re_self :: ptr
  re_address :: ptr
  re_size :: u32

record usbmem =
  nextAddr :: ptr
  live :: "ptr set"
  g_usbRamTestFlag :: bool
  g_usbRamTestHead :: "(ptr \<times> RawUsbRamTestList list) option"

text \<open>Size of \<open>struct RawUsbRamTestList\<close> on an LP64 target (the lock is a pointer).\<close>

definition sizeof_RamTestList :: nat where
  "sizeof_RamTestList = 40"

definition OsalMemAlloc :: "alloc_os \<Rightarrow> nat \<Rightarrow> usbmem \<Rightarrow> ptr option \<times> usbmem" where
  "OsalMemAlloc os sz m =
     (if os (nextAddr m) sz
      then (Some (nextAddr m), m\<lparr>nextAddr := nextAddr m + 1, live := insert (nextAddr m) (live m)\<rparr>)
      else (None, m\<lparr>nextAddr := nextAddr m + 1\<rparr>))"

definition OsalMemFree :: "ptr \<Rightarrow> usbmem \<Rightarrow> usbmem option" where
  "OsalMemFree p m = (if p \<in> live m then Some (m\<lparr>live := live m - {p}\<rparr>) else None)"

definition RawUsbMemTestTrigger :: "bool \<Rightarrow> usbmem \<Rightarrow> ret \<times> usbmem" where
  "RawUsbMemTestTrigger enable m = (HDF_SUCCESS, m\<lparr>g_usbRamTestFlag := enable\<rparr>)"

text \<open>The list head is allocated on first use, without a check of the result.\<close>

definition ram_head :: "alloc_os \<Rightarrow> usbmem \<Rightarrow> ((ptr \<times> RawUsbRamTestList list) \<times> usbmem) option" where
  "ram_head os m =
     (case g_usbRamTestHead m of
        Some l \<Rightarrow> Some (l, m)
      | None \<Rightarrow>
          (case OsalMemAlloc os sizeof_RamTestList m of
             (None, m') \<Rightarrow> None
           | (Some h, m') \<Rightarrow> Some ((h, []), m'\<lparr>g_usbRamTestHead := Some (h, [])\<rparr>)))"

definition RawUsbMemCalloc :: "alloc_os \<Rightarrow> nat \<Rightarrow> usbmem \<Rightarrow> (ptr option \<times> usbmem) option" where
  "RawUsbMemCalloc os sz m =
     (if sz = 0 then Some (None, m)
      else case OsalMemAlloc os sz m of
        (None, m1) \<Rightarrow> Some (None, m1)
      | (Some buf, m1) \<Rightarrow>
          if g_usbRamTestFlag m1 then
            do { ((h, es), m2) \<leftarrow> ram_head os m1;
                 (case OsalMemAlloc os sizeof_RamTestList m2 of
                    (None, m3) \<Rightarrow> Some (Some buf, m3)
                  | (Some e, m3) \<Rightarrow>
                      Some (Some buf, m3\<lparr>g_usbRamTestHead :=
                        Some (h, es @ [\<lparr>re_self = e, re_address = buf, re_size = of_nat sz\<rparr>])\<rparr>)) }
          else Some (Some buf, m1))"

definition RawUsbMemAlloc :: "alloc_os \<Rightarrow> nat \<Rightarrow> usbmem \<Rightarrow> (ptr option \<times> usbmem) option" where
  "RawUsbMemAlloc = RawUsbMemCalloc"

text \<open>The loop of \<open>RawUsbMemFree\<close> that unlinks and frees the entries of a block.\<close>

fun ram_unlink :: "ptr \<Rightarrow> RawUsbRamTestList list \<Rightarrow> usbmem \<Rightarrow> (RawUsbRamTestList list \<times> usbmem) option" where
  "ram_unlink p [] m = Some ([], m)"
| "ram_unlink p (e # es) m =
     (if re_address e = p
      then do { m1 \<leftarrow> OsalMemFree (re_self e) m; ram_unlink p es m1 }
      else do { (es', m1) \<leftarrow> ram_unlink p es m; Some (e # es', m1) })"

definition RawUsbMemFree :: "ptr option \<Rightarrow> usbmem \<Rightarrow> usbmem option" where
  "RawUsbMemFree mem m =
     (case mem of
        None \<Rightarrow> Some m
      | Some p \<Rightarrow>
          (case g_usbRamTestHead m of
             Some (h, es) \<Rightarrow>
               if g_usbRamTestFlag m then
                 do { (es', m1) \<leftarrow> ram_unlink p es m;
                      OsalMemFree p (m1\<lparr>g_usbRamTestHead := Some (h, es')\<rparr>) }
               else OsalMemFree p m
           | None \<Rightarrow> OsalMemFree p m))"

subsection \<open>Fresh addresses\<close>

definition mem_ok :: "usbmem \<Rightarrow> bool" where
  "mem_ok m \<longleftrightarrow> (\<forall>p \<in> live m. p < nextAddr m)"

text \<open>With the tracker off the wrappers are the allocator and nothing else.\<close>

lemma RawUsbMemCalloc_off:
  assumes "\<not> g_usbRamTestFlag m" and "0 < sz"
  shows "RawUsbMemCalloc os sz m = Some (OsalMemAlloc os sz m)"
  using assms by (auto simp: RawUsbMemCalloc_def OsalMemAlloc_def)

lemma RawUsbMemFree_off:
  assumes "\<not> g_usbRamTestFlag m" and "p \<in> live m"
  shows "RawUsbMemFree (Some p) m = Some (m\<lparr>live := live m - {p}\<rparr>)"
  using assms by (auto simp: RawUsbMemFree_def OsalMemFree_def split: option.splits)

subsection \<open>The allocation tracker\<close>

definition ram_entries :: "usbmem \<Rightarrow> RawUsbRamTestList list" where
  "ram_entries m = (case g_usbRamTestHead m of None \<Rightarrow> [] | Some (h, es) \<Rightarrow> es)"

definition ram_head_addr :: "usbmem \<Rightarrow> ptr list" where
  "ram_head_addr m = (case g_usbRamTestHead m of None \<Rightarrow> [] | Some (h, es) \<Rightarrow> [h])"

text \<open>What the tracker reports: the outstanding blocks with their sizes.\<close>

definition tracked :: "usbmem \<Rightarrow> (ptr \<times> u32) list" where
  "tracked m = map (\<lambda>e. (re_address e, re_size e)) (ram_entries m)"

definition ram_inv :: "usbmem \<Rightarrow> bool" where
  "ram_inv m \<longleftrightarrow> mem_ok m \<and>
     distinct (ram_head_addr m @ map re_self (ram_entries m) @ map re_address (ram_entries m)) \<and>
     set (ram_head_addr m @ map re_self (ram_entries m) @ map re_address (ram_entries m)) \<subseteq> live m"

lemma ram_unlink_spec:
  assumes "distinct (map re_self es)" "p \<notin> re_self ` set es" "re_self ` set es \<subseteq> live m"
  shows "ram_unlink p es m = Some (filter (\<lambda>e. re_address e \<noteq> p) es,
    m\<lparr>live := live m - re_self ` set (filter (\<lambda>e. re_address e = p) es)\<rparr>)"
  using assms
proof (induction es arbitrary: m)
  case Nil
  then show ?case by simp
next
  case (Cons e es)
  then have "re_self e \<notin> re_self ` set es" by simp
  with Cons.prems(3) have sub: "re_self ` set es \<subseteq> live m - {re_self e}"
    by (metis Diff_insert0 image_insert insert_subset list.simps(15) subset_Diff_insert Diff_empty)
  show ?case
  proof (cases "re_address e = p")
    case True
    let ?m = "m\<lparr>live := live m - {re_self e}\<rparr>"
    have "ram_unlink p es ?m = Some (filter (\<lambda>e. re_address e \<noteq> p) es,
        ?m\<lparr>live := live ?m - re_self ` set (filter (\<lambda>e. re_address e = p) es)\<rparr>)"
      by (rule Cons.IH) (use Cons.prems sub in auto)
    with True Cons.prems show ?thesis
      by (auto simp: OsalMemFree_def Diff_insert2[symmetric] set_diff_eq)
  next
    case False
    have "ram_unlink p es m = Some (filter (\<lambda>e. re_address e \<noteq> p) es,
        m\<lparr>live := live m - re_self ` set (filter (\<lambda>e. re_address e = p) es)\<rparr>)"
      by (rule Cons.IH) (use Cons.prems in auto)
    with False show ?thesis by simp
  qed
qed

lemma ram_calloc:
  assumes "ram_inv m" "g_usbRamTestFlag m" "0 < sz" "\<And>n k. os n k"
  shows "\<exists>p m'. RawUsbMemCalloc os sz m = Some (Some p, m') \<and> ram_inv m' \<and> g_usbRamTestFlag m' \<and>
    p \<notin> live m \<and> tracked m' = tracked m @ [(p, of_nat sz)]"
proof (cases "g_usbRamTestHead m")
  case None
  with assms show ?thesis
    by (auto simp: RawUsbMemCalloc_def OsalMemAlloc_def ram_head_def ram_inv_def mem_ok_def
        ram_entries_def ram_head_addr_def tracked_def)
next
  case (Some a)
  obtain h es where hd: "g_usbRamTestHead m = Some (h, es)" using Some by (cases a) auto
  let ?n = "nextAddr m"
  let ?e = "\<lparr>re_self = ?n + 1, re_address = ?n, re_size = of_nat sz\<rparr>"
  let ?m = "m\<lparr>nextAddr := ?n + 2, live := insert (?n + 1) (insert ?n (live m)),
    g_usbRamTestHead := Some (h, es @ [?e])\<rparr>"
  have run: "RawUsbMemCalloc os sz m = Some (Some ?n, ?m)"
    using assms hd by (simp add: RawUsbMemCalloc_def OsalMemAlloc_def ram_head_def)
  have new: "?n \<notin> live m" "?n + 1 \<notin> live m" using assms(1) by (auto simp: ram_inv_def mem_ok_def)
  have "ram_inv ?m"
    using assms(1) hd new
    by (auto simp: ram_inv_def mem_ok_def ram_entries_def ram_head_addr_def less_Suc_eq)
  with run new assms(2) hd show ?thesis
    by (intro exI[of _ ?n] exI[of _ ?m]) (simp add: tracked_def ram_entries_def)
qed

lemma ram_free:
  assumes "ram_inv m" "g_usbRamTestFlag m" "p \<in> fst ` set (tracked m)"
  shows "\<exists>m'. RawUsbMemFree (Some p) m = Some m' \<and> ram_inv m' \<and> g_usbRamTestFlag m' \<and>
    tracked m' = filter (\<lambda>x. fst x \<noteq> p) (tracked m)"
proof -
  from assms(3) obtain h es where hd: "g_usbRamTestHead m = Some (h, es)"
    by (cases "g_usbRamTestHead m") (auto simp: tracked_def ram_entries_def)
  let ?m1 = "m\<lparr>live := live m - re_self ` set (filter (\<lambda>e. re_address e = p) es)\<rparr>"
  let ?es = "filter (\<lambda>e. re_address e \<noteq> p) es"
  have p: "p \<in> re_address ` set es" using assms(3) hd by (auto simp: tracked_def ram_entries_def)
  have inv: "distinct (h # map re_self es @ map re_address es)"
      "insert h (re_self ` set es \<union> re_address ` set es) \<subseteq> live m" "mem_ok m"
    using assms(1) hd by (auto simp: ram_inv_def ram_entries_def ram_head_addr_def)
  have pn: "p \<notin> re_self ` set es" and pl: "p \<in> live m" and ph: "p \<noteq> h" using inv p by auto
  have "ram_unlink p es m = Some (?es, ?m1)"
    by (rule ram_unlink_spec) (use inv pn in auto)
  then have "RawUsbMemFree (Some p) m =
      Some (?m1\<lparr>g_usbRamTestHead := Some (h, ?es), live := live ?m1 - {p}\<rparr>)"
    using assms(2) hd pl pn by (auto simp: RawUsbMemFree_def OsalMemFree_def)
  moreover have "re_self e \<notin> re_self ` set (filter (\<lambda>e. re_address e = p) es)" if "e \<in> set ?es" for e
    using that inv(1) by (auto simp: distinct_map dest: inj_onD)
  ultimately show ?thesis
    using assms(2) inv pn ph hd
    by (auto simp: ram_inv_def mem_ok_def tracked_def ram_entries_def ram_head_addr_def
        filter_map o_def distinct_map_filter)
qed


definition ram_example :: usbmem where
  "ram_example = \<lparr>nextAddr = 10, live = {2, 3, 4},
     g_usbRamTestFlag = True, g_usbRamTestHead = Some (2, [\<lparr>re_self = 3, re_address = 4, re_size = 16\<rparr>])\<rparr>"


end
