(* ===== verification/Usb_Descriptor.thy ===== *)
theory Usb_Descriptor
  imports Usb_Mem
begin

text \<open>
  The configuration-descriptor parser of \<open>usb/ddk/host/src/usb_raw_api_library.c\<close>
  (\<open>GetInterfaceNumber\<close>, \<open>FindNextDescriptor\<close>, \<open>ParseEndpoint\<close>, \<open>ParseInterface\<close>,
  \<open>ParseConfiguration\<close>, \<open>DescToConfig\<close>) and the release of its result (\<open>ClearEndpoint\<close>,
  \<open>ClearInterface\<close>, \<open>RawClearConfiguration\<close>).

  A buffer is the byte list of the allocated object together with an offset into it.  Loops whose
  termination depends on the device's data are \<open>partial_function (option)\<close>.  Pointers to the
  arrays that the parser allocates carry the address of the block next to its contents.
\<close>

subsection \<open>Wire structures\<close>

definition USB_DDK_DT_CONFIG :: u8 where [simp]: "USB_DDK_DT_CONFIG = 2"
definition USB_DDK_DT_INTERFACE :: u8 where [simp]: "USB_DDK_DT_INTERFACE = 4"
definition USB_DDK_DT_ENDPOINT :: u8 where [simp]: "USB_DDK_DT_ENDPOINT = 5"
definition USB_DDK_DT_ENDPOINT_SIZE :: nat where [simp]: "USB_DDK_DT_ENDPOINT_SIZE = 7"
definition USB_DDK_DT_CONFIG_SIZE :: nat where [simp]: "USB_DDK_DT_CONFIG_SIZE = 9"
definition USB_DDK_DT_INTERFACE_SIZE :: nat where [simp]: "USB_DDK_DT_INTERFACE_SIZE = 9"
definition USB_DDK_DT_ENDPOINT_AUDIO_SIZE :: nat where [simp]: "USB_DDK_DT_ENDPOINT_AUDIO_SIZE = 9"
definition DESC_HEADER_LENGTH :: nat where [simp]: "DESC_HEADER_LENGTH = 2"
definition USB_MAXENDPOINTS :: nat where [simp]: "USB_MAXENDPOINTS = 32"
definition USB_MAXALTSETTING :: nat where [simp]: "USB_MAXALTSETTING = 128"
definition USB_MAXINTERFACES :: nat where [simp]: "USB_MAXINTERFACES = 32"

record UsbConfigDescriptor =
  c_bLength :: u8
  c_bDescriptorType :: u8
  c_wTotalLength :: u16
  c_bNumInterfaces :: u8
  c_bConfigurationValue :: u8
  c_iConfiguration :: u8
  c_bmAttributes :: u8
  c_bMaxPower :: u8

record UsbInterfaceDescriptor =
  i_bLength :: u8
  i_bDescriptorType :: u8
  i_bInterfaceNumber :: u8
  i_bAlternateSetting :: u8
  i_bNumEndpoints :: u8
  i_bInterfaceClass :: u8
  i_bInterfaceSubClass :: u8
  i_bInterfaceProtocol :: u8
  i_iInterface :: u8

record UsbEndpointDescriptor =
  e_bLength :: u8
  e_bDescriptorType :: u8
  e_bEndpointAddress :: u8
  e_bmAttributes :: u8
  e_wMaxPacketSize :: u16
  e_bInterval :: u8
  e_bRefresh :: u8
  e_bSynchAddress :: u8

text \<open>The packed structs as their byte images; 16-bit fields are little endian.\<close>

definition le16 :: "u8 \<Rightarrow> u8 \<Rightarrow> u16" where
  "le16 lo hi = of_nat (unat lo + 256 * unat hi)"

definition le16_bytes :: "u16 \<Rightarrow> u8 list" where
  "le16_bytes w = [of_nat (unat w mod 256), of_nat (unat w div 256)]"

definition config_of :: "u8 list \<Rightarrow> UsbConfigDescriptor" where
  "config_of d = \<lparr>c_bLength = d ! 0, c_bDescriptorType = d ! 1, c_wTotalLength = le16 (d ! 2) (d ! 3),
     c_bNumInterfaces = d ! 4, c_bConfigurationValue = d ! 5, c_iConfiguration = d ! 6,
     c_bmAttributes = d ! 7, c_bMaxPower = d ! 8\<rparr>"

definition config_bytes :: "UsbConfigDescriptor \<Rightarrow> u8 list" where
  "config_bytes c = [c_bLength c, c_bDescriptorType c] @ le16_bytes (c_wTotalLength c) @
     [c_bNumInterfaces c, c_bConfigurationValue c, c_iConfiguration c, c_bmAttributes c, c_bMaxPower c]"

definition interface_of :: "u8 list \<Rightarrow> UsbInterfaceDescriptor" where
  "interface_of d = \<lparr>i_bLength = d ! 0, i_bDescriptorType = d ! 1, i_bInterfaceNumber = d ! 2,
     i_bAlternateSetting = d ! 3, i_bNumEndpoints = d ! 4, i_bInterfaceClass = d ! 5,
     i_bInterfaceSubClass = d ! 6, i_bInterfaceProtocol = d ! 7, i_iInterface = d ! 8\<rparr>"

definition interface_bytes :: "UsbInterfaceDescriptor \<Rightarrow> u8 list" where
  "interface_bytes i = [i_bLength i, i_bDescriptorType i, i_bInterfaceNumber i, i_bAlternateSetting i,
     i_bNumEndpoints i, i_bInterfaceClass i, i_bInterfaceSubClass i, i_bInterfaceProtocol i,
     i_iInterface i]"

definition endpoint_of :: "u8 list \<Rightarrow> UsbEndpointDescriptor" where
  "endpoint_of d = \<lparr>e_bLength = d ! 0, e_bDescriptorType = d ! 1, e_bEndpointAddress = d ! 2,
     e_bmAttributes = d ! 3, e_wMaxPacketSize = le16 (d ! 4) (d ! 5), e_bInterval = d ! 6,
     e_bRefresh = d ! 7, e_bSynchAddress = d ! 8\<rparr>"

definition endpoint_bytes :: "UsbEndpointDescriptor \<Rightarrow> u8 list" where
  "endpoint_bytes e = [e_bLength e, e_bDescriptorType e, e_bEndpointAddress e, e_bmAttributes e] @
     le16_bytes (e_wMaxPacketSize e) @ [e_bInterval e, e_bRefresh e, e_bSynchAddress e]"

subsection \<open>Parsed structures\<close>

type_synonym blob = "(ptr \<times> u8 list) option"

record UsbRawEndpointDescriptor =
  endpointDescriptor :: UsbEndpointDescriptor
  ep_extra :: blob
  ep_extraLength :: int

record UsbRawInterfaceDescriptor =
  interfaceDescriptor :: UsbInterfaceDescriptor
  endPoint :: "(ptr \<times> UsbRawEndpointDescriptor list) option"
  if_extra :: blob
  if_extraLength :: int

text \<open>\<open>altsetting\<close> is the flexible array with the length it was allocated with.\<close>

record UsbRawInterface =
  ri_self :: ptr
  numAltsetting :: u8
  altsetting :: "UsbRawInterfaceDescriptor list"

record UsbRawConfigDescriptor =
  configDescriptor :: UsbConfigDescriptor
  interface :: "UsbRawInterface option list"
  cf_extra :: blob
  cf_extraLength :: int

text \<open>Sizes on an LP64 target.\<close>

definition sizeof_RawEndpoint :: nat where "sizeof_RawEndpoint = 32"
definition sizeof_RawInterfaceDescriptor :: nat where "sizeof_RawInterfaceDescriptor = 40"
definition sizeof_RawInterface :: nat where "sizeof_RawInterface = 8"
definition sizeof_RawConfig :: nat where "sizeof_RawConfig = 288"

text \<open>What \<open>calloc\<close> leaves in a fresh struct.\<close>

definition zero_endpoint :: UsbRawEndpointDescriptor where
  "zero_endpoint = \<lparr>endpointDescriptor = endpoint_of (replicate 9 0), ep_extra = None,
     ep_extraLength = 0\<rparr>"

definition zero_interface :: UsbRawInterfaceDescriptor where
  "zero_interface = \<lparr>interfaceDescriptor = interface_of (replicate 9 0), endPoint = None,
     if_extra = None, if_extraLength = 0\<rparr>"

definition zero_config :: UsbRawConfigDescriptor where
  "zero_config = \<lparr>configDescriptor = config_of (replicate 9 0),
     interface = replicate USB_MAXINTERFACES None, cf_extra = None, cf_extraLength = 0\<rparr>"

subsection \<open>Counting interfaces\<close>

record intf_scan =
  nIntf :: "u8 list"
  nAlts :: "u8 list"
  scan_num :: nat

definition scan_init :: intf_scan where
  "scan_init = \<lparr>nIntf = replicate USB_MAXINTERFACES 0, nAlts = replicate USB_MAXINTERFACES 0,
     scan_num = 0\<rparr>"

definition GetInterfaceNumberDes :: "u8 list \<Rightarrow> nat \<Rightarrow> intf_scan \<Rightarrow> intf_scan option" where
  "GetInterfaceNumberDes b off s =
     do { len \<leftarrow> rd8 b off;
          if unat len < USB_DDK_DT_INTERFACE_SIZE then Some s
          else do { inum \<leftarrow> rd8 b (off + 2);
            case find_index (\<lambda>x. x = inum) (take (scan_num s) (nIntf s)) of
              Some i \<Rightarrow>
                if unat (nAlts s ! i) < USB_MAXALTSETTING
                then Some (s\<lparr>nAlts := (nAlts s)[i := nAlts s ! i + 1]\<rparr>)
                else Some s
            | None \<Rightarrow>
                if scan_num s < USB_MAXINTERFACES
                then Some (s\<lparr>nIntf := (nIntf s)[scan_num s := inum],
                             nAlts := (nAlts s)[scan_num s := 1], scan_num := Suc (scan_num s)\<rparr>)
                else Some s } }"

function GetInterfaceNumber :: "u8 list \<Rightarrow> nat \<Rightarrow> nat \<Rightarrow> intf_scan \<Rightarrow> intf_scan option" where
  "GetInterfaceNumber b off size2 s =
     (if size2 = 0 \<or> size2 < DESC_HEADER_LENGTH then Some s
      else do { len \<leftarrow> rd8 b off;
                if unat len > size2 \<or> unat len < DESC_HEADER_LENGTH then Some s
                else do { ty \<leftarrow> rd8 b (off + 1);
                          s' \<leftarrow> (if ty = USB_DDK_DT_INTERFACE then GetInterfaceNumberDes b off s
                                else Some s);
                          GetInterfaceNumber b (off + unat len) (size2 - unat len) s' } })"
  by pat_completeness auto
termination
  by (relation "measure (\<lambda>(b, off, size2, s). size2)") auto

declare GetInterfaceNumber.simps [simp del]

subsection \<open>Skipping to the next interface or endpoint\<close>

text \<open>
  \<open>size\<close> is a \<open>size_t\<close>: subtracting a descriptor length larger than it wraps around.
\<close>

partial_function (option) FindNextDescriptor_loop :: "u8 list \<Rightarrow> nat \<Rightarrow> u64 \<Rightarrow> nat option" where
  "FindNextDescriptor_loop b off sz =
     (if sz = 0 then Some off
      else do { ty \<leftarrow> rd8 b (off + 1);
                if ty = USB_DDK_DT_INTERFACE \<or> ty = USB_DDK_DT_ENDPOINT then Some off
                else do { len \<leftarrow> rd8 b off;
                          FindNextDescriptor_loop b (off + unat len) (sz - ucast len) } })"

declare FindNextDescriptor_loop.simps [code]

definition FindNextDescriptor :: "u8 list \<Rightarrow> nat \<Rightarrow> int \<Rightarrow> int option" where
  "FindNextDescriptor b off sz =
     do { off' \<leftarrow> FindNextDescriptor_loop b off (of_int sz); Some (int off' - int off) }"

subsection \<open>Descriptors and endpoints\<close>

datatype UsbRawDescriptorType =
    USB_RAW_CONFIG_DESCRIPTOR_TYPE
  | USB_RAW_INTERFACE_DESCRIPTOR_TYPE
  | USB_RAW_ENDPOINT_DESCRIPTOR_TYPE
  | USB_RAW_AUDIO_ENDPOINT_DESCRIPTOR_TYPE

fun desc_copy_size :: "UsbRawDescriptorType \<Rightarrow> nat" where
  "desc_copy_size USB_RAW_CONFIG_DESCRIPTOR_TYPE = USB_DDK_DT_CONFIG_SIZE"
| "desc_copy_size USB_RAW_INTERFACE_DESCRIPTOR_TYPE = USB_DDK_DT_INTERFACE_SIZE"
| "desc_copy_size USB_RAW_ENDPOINT_DESCRIPTOR_TYPE = USB_DDK_DT_ENDPOINT_SIZE"
| "desc_copy_size USB_RAW_AUDIO_ENDPOINT_DESCRIPTOR_TYPE = USB_DDK_DT_ENDPOINT_AUDIO_SIZE"

text \<open>
  \<open>ParseDescriptor\<close> copies into the byte image of the destination struct, which is 9 bytes long in
  every case; the conversion of the 16-bit fields to host order is part of the views above.
\<close>

definition ParseDescriptor :: "u8 list \<Rightarrow> nat \<Rightarrow> UsbRawDescriptorType \<Rightarrow> u8 list \<Rightarrow> u8 list option" where
  "ParseDescriptor b off ty dest =
     do { (ok, dest') \<leftarrow> memcpy_s dest 0 9 (drop off b) (desc_copy_size ty); Some dest' }"

text \<open>The new block with the bytes at \<open>off\<close>, as the three copies of extra descriptors make it.\<close>

definition copy_extra :: "alloc_os \<Rightarrow> u8 list \<Rightarrow> nat \<Rightarrow> int \<Rightarrow> int \<Rightarrow> usbmem \<Rightarrow> (ret \<times> blob \<times> usbmem) option" where
  "copy_extra os b off len extraLength m =
     do { (p, m1) \<leftarrow> RawUsbMemAlloc os (nat len) m;
          case p of
            None \<Rightarrow> Some (RetErr HDF_ERR_MALLOC_FAIL, None, m1)
          | Some a \<Rightarrow>
              do { (ok, bs) \<leftarrow> memcpy_s (replicate (nat len) 0) 0 (nat (len + extraLength))
                                       (drop off b) (nat len);
                   Some (if ok then HDF_SUCCESS else RetSec, Some (a, bs), m1) } }"

definition ParseEndpoint ::
  "alloc_os \<Rightarrow> UsbRawEndpointDescriptor \<Rightarrow> u8 list \<Rightarrow> nat \<Rightarrow> int \<Rightarrow> usbmem \<Rightarrow>
   (ret \<times> UsbRawEndpointDescriptor \<times> usbmem) option" where
  "ParseEndpoint os ep b off sz m =
     (if sz < int DESC_HEADER_LENGTH then Some (RetErr HDF_ERR_IO, ep, m)
      else do { len \<leftarrow> rd8 b off; ty \<leftarrow> rd8 b (off + 1);
        if ty \<noteq> USB_DDK_DT_ENDPOINT \<or> int (unat len) > sz then Some (RetVal 0, ep, m)
        else if unat len < USB_DDK_DT_ENDPOINT_SIZE then Some (RetErr HDF_ERR_IO, ep, m)
        else do {
          img \<leftarrow> ParseDescriptor b off
                   (if unat len \<ge> USB_DDK_DT_ENDPOINT_AUDIO_SIZE
                    then USB_RAW_AUDIO_ENDPOINT_DESCRIPTOR_TYPE
                    else USB_RAW_ENDPOINT_DESCRIPTOR_TYPE)
                   (endpoint_bytes (endpointDescriptor ep));
          let ep1 = ep\<lparr>endpointDescriptor := endpoint_of img\<rparr>;
              off1 = off + unat len; sz1 = sz - int (unat len)
          in do { n \<leftarrow> FindNextDescriptor b off1 sz1;
            if n = 0 then Some (RetVal (int (unat len)), ep1, m)
            else do { (r, ex, m1) \<leftarrow> copy_extra os b off1 n (ep_extraLength ep1) m;
              if r = RetErr HDF_ERR_MALLOC_FAIL then Some (r, ep1, m1)
              else if r \<noteq> HDF_SUCCESS then Some (RetErr HDF_ERR_IO, ep1, m1)
              else Some (RetVal (int (unat len) + n),
                         ep1\<lparr>ep_extra := ex, ep_extraLength := n\<rparr>, m1) } } } })"

subsection \<open>Interfaces\<close>

definition RawParseDescriptor ::
  "int \<Rightarrow> u8 list \<Rightarrow> nat \<Rightarrow> UsbRawDescriptorType \<Rightarrow> UsbRawInterfaceDescriptor \<Rightarrow>
   (ret \<times> UsbRawInterfaceDescriptor) option" where
  "RawParseDescriptor sz b off ty ifp =
     do { img \<leftarrow> ParseDescriptor b off ty (interface_bytes (interfaceDescriptor ifp));
          let d = interface_of img; ifp1 = ifp\<lparr>interfaceDescriptor := d\<rparr>
          in if i_bDescriptorType d \<noteq> USB_DDK_DT_INTERFACE \<or> int (unat (i_bLength d)) > sz
             then Some (RetErr HDF_FAILURE, ifp1)
             else if unat (i_bLength d) < USB_DDK_DT_INTERFACE_SIZE \<or>
                     unat (i_bNumEndpoints d) > USB_MAXENDPOINTS
             then Some (RetErr HDF_ERR_IO, ifp1)
             else Some (HDF_SUCCESS, ifp1) }"

definition ParseInterfaceCopy ::
  "alloc_os \<Rightarrow> UsbRawInterfaceDescriptor \<Rightarrow> int \<Rightarrow> u8 list \<Rightarrow> nat \<Rightarrow> usbmem \<Rightarrow>
   (ret \<times> UsbRawInterfaceDescriptor \<times> usbmem) option" where
  "ParseInterfaceCopy os ifp len b off m =
     do { (r, ex, m1) \<leftarrow> copy_extra os b off len (if_extraLength ifp) m;
          if r = HDF_SUCCESS
          then Some (r, ifp\<lparr>if_extra := ex, if_extraLength := len\<rparr>, m1)
          else Some (r, ifp\<lparr>if_extra := ex\<rparr>, m1) }"

text \<open>
  The loop over the endpoint array.  It returns the last result, the interface with the array and
  the endpoint count, and the advanced position; \<open>k\<close> counts the iterations left.
\<close>

fun endpoint_loop ::
  "alloc_os \<Rightarrow> nat \<Rightarrow> nat \<Rightarrow> ret \<Rightarrow> UsbInterfaceDescriptor \<Rightarrow> UsbRawEndpointDescriptor list \<Rightarrow> u8 list \<Rightarrow>
   nat \<Rightarrow> int \<Rightarrow> usbmem \<Rightarrow>
   (ret \<times> UsbInterfaceDescriptor \<times> UsbRawEndpointDescriptor list \<times> nat \<times> int \<times> usbmem) option" where
  "endpoint_loop os 0 i r d eps b off sz m = Some (r, d, eps, off, sz, m)"
| "endpoint_loop os (Suc k) i r d eps b off sz m =
     (if \<not> i < length eps then None
      else do { (r', ep, m1) \<leftarrow> ParseEndpoint os (eps ! i) b off sz m;
           case r' of
             RetVal n \<Rightarrow>
               if n = 0
               then Some (r', d\<lparr>i_bNumEndpoints := of_nat i\<rparr>, eps[i := ep], off, sz, m1)
               else if n < 0 then Some (r', d, eps[i := ep], off, sz, m1)
               else endpoint_loop os k (Suc i) r' d (eps[i := ep]) b (off + nat n) (sz - n) m1
           | RetErr e \<Rightarrow> Some (r', d, eps[i := ep], off, sz, m1)
           | RetSec \<Rightarrow> None })"

definition ParseInterfaceEndpoint ::
  "alloc_os \<Rightarrow> UsbRawInterfaceDescriptor \<Rightarrow> u8 list \<Rightarrow> nat \<Rightarrow> int \<Rightarrow> usbmem \<Rightarrow>
   (ret \<times> UsbRawInterfaceDescriptor \<times> nat \<times> int \<times> usbmem) option" where
  "ParseInterfaceEndpoint os ifp b off sz m =
     (let n = unat (i_bNumEndpoints (interfaceDescriptor ifp))
      in if n > 0 then
           do { (p, m1) \<leftarrow> RawUsbMemCalloc os (n * sizeof_RawEndpoint) m;
                case p of
                  None \<Rightarrow> Some (RetErr HDF_ERR_MALLOC_FAIL, ifp, off, sz, m1)
                | Some a \<Rightarrow>
                    do { (r, d, eps, off', sz', m2) \<leftarrow>
                           endpoint_loop os n 0 HDF_SUCCESS (interfaceDescriptor ifp)
                             (replicate n zero_endpoint) b off sz m1;
                         Some (r, ifp\<lparr>interfaceDescriptor := d, endPoint := Some (a, eps)\<rparr>,
                               off', sz', m2) } }
         else Some (HDF_SUCCESS, ifp, off, sz, m))"

text \<open>
  The \<open>while\<close> loop of \<open>ParseInterface\<close>; \<open>off0\<close> is the start of the buffer it was called with and
  \<open>inum\<close> the variable \<open>interfaceNumber\<close>.  Storing a descriptor at an index beyond the array that
  was allocated for the interface is an out-of-bounds write.
\<close>

partial_function (option) ParseInterface_loop ::
  "alloc_os \<Rightarrow> nat \<Rightarrow> int \<Rightarrow> UsbRawInterface \<Rightarrow> u8 list \<Rightarrow> nat \<Rightarrow> int \<Rightarrow> usbmem \<Rightarrow>
   (ret \<times> UsbRawInterface \<times> usbmem) option" where
  "ParseInterface_loop os off0 inum ui b off sz m =
     (if \<not> sz \<ge> int USB_DDK_DT_INTERFACE_SIZE then Some (RetVal (int off - int off0), ui, m)
      else let idx = unat (numAltsetting ui) in
        if \<not> idx < length (altsetting ui) then None
        else do {
          (r, ifp) \<leftarrow> RawParseDescriptor sz b off USB_RAW_INTERFACE_DESCRIPTOR_TYPE (altsetting ui ! idx);
          let ui1 = ui\<lparr>altsetting := (altsetting ui)[idx := ifp]\<rparr> in
          if r = RetErr HDF_FAILURE then Some (RetVal (int off - int off0), ui1, m)
          else if r = RetErr HDF_ERR_IO then Some (r, ui1, m)
          else
            let ifp1 = ifp\<lparr>if_extra := None, if_extraLength := 0, endPoint := None\<rparr>;
                d = interfaceDescriptor ifp1;
                inum1 = (if inum = -1 then int (unat (i_bInterfaceNumber d)) else inum);
                off1 = off + unat (i_bLength d); sz1 = sz - int (unat (i_bLength d));
                put = (\<lambda>x. ui1\<lparr>numAltsetting := numAltsetting ui + 1,
                               altsetting := (altsetting ui)[idx := x]\<rparr>) in
            do { len \<leftarrow> FindNextDescriptor b off1 sz1;
                 (r2, ifp2, m2) \<leftarrow> (if len \<noteq> 0 then ParseInterfaceCopy os ifp1 len b off1 m
                                   else Some (HDF_SUCCESS, ifp1, m));
                 if r2 \<noteq> HDF_SUCCESS then Some (r2, put ifp2, m2)
                 else do {
                   (r3, ifp3, off3, sz3, m3) \<leftarrow>
                      ParseInterfaceEndpoint os ifp2 b (off1 + nat len) (sz1 - len) m2;
                   if ret_neg r3 then Some (r3, put ifp3, m3)
                   else if sz3 < int USB_DDK_DT_INTERFACE_SIZE
                   then Some (RetVal (int off3 - int off0), put ifp3, m3)
                   else do {
                     ty \<leftarrow> rd8 b (off3 + 1);
                     if ty \<noteq> USB_DDK_DT_INTERFACE
                     then Some (RetVal (int off3 - int off0), put ifp3, m3)
                     else do {
                       n \<leftarrow> rd8 b (off3 + 2);
                       if int (unat n) \<noteq> inum1
                       then Some (RetVal (int off3 - int off0), put ifp3, m3)
                       else ParseInterface_loop os off0 inum1 (put ifp3) b off3 sz3 m3 } } } } })"

declare ParseInterface_loop.simps [code]

definition ParseInterface ::
  "alloc_os \<Rightarrow> UsbRawInterface option \<Rightarrow> u8 list \<Rightarrow> nat \<Rightarrow> int \<Rightarrow> usbmem \<Rightarrow>
   (ret \<times> UsbRawInterface option \<times> usbmem) option" where
  "ParseInterface os ui b off sz m =
     (case ui of
        None \<Rightarrow> Some (RetErr HDF_DEV_ERR_NORANGE, ui, m)
      | Some u \<Rightarrow>
          if unat (numAltsetting u) > USB_MAXALTSETTING then Some (RetErr HDF_DEV_ERR_NORANGE, ui, m)
          else do { (r, u', m') \<leftarrow> ParseInterface_loop os off (-1) u b off sz m;
                    Some (r, Some u', m') })"

subsection \<open>Release\<close>

definition ClearEndpoint :: "UsbRawEndpointDescriptor \<Rightarrow> usbmem \<Rightarrow> (UsbRawEndpointDescriptor \<times> usbmem) option" where
  "ClearEndpoint ep m =
     (case ep_extra ep of
        None \<Rightarrow> Some (ep, m)
      | Some (a, bs) \<Rightarrow> do { m' \<leftarrow> RawUsbMemFree (Some a) m; Some (ep\<lparr>ep_extra := None\<rparr>, m') })"

fun clear_endpoints :: "nat \<Rightarrow> nat \<Rightarrow> UsbRawEndpointDescriptor list \<Rightarrow> usbmem \<Rightarrow> usbmem option" where
  "clear_endpoints 0 j eps m = Some m"
| "clear_endpoints (Suc k) j eps m =
     (if \<not> j < length eps then None
      else do { (ep, m1) \<leftarrow> ClearEndpoint (eps ! j) m; clear_endpoints k (Suc j) eps m1 })"

definition clear_altsetting :: "UsbRawInterfaceDescriptor \<Rightarrow> usbmem \<Rightarrow> usbmem option" where
  "clear_altsetting d m =
     do { m1 \<leftarrow> (case if_extra d of None \<Rightarrow> Some m | Some (a, bs) \<Rightarrow> RawUsbMemFree (Some a) m);
          case endPoint d of
            None \<Rightarrow> Some m1
          | Some (a, eps) \<Rightarrow>
              do { m2 \<leftarrow> clear_endpoints (unat (i_bNumEndpoints (interfaceDescriptor d))) 0 eps m1;
                   RawUsbMemFree (Some a) m2 } }"

fun clear_altsettings :: "nat \<Rightarrow> nat \<Rightarrow> UsbRawInterfaceDescriptor list \<Rightarrow> usbmem \<Rightarrow> usbmem option" where
  "clear_altsettings 0 i ds m = Some m"
| "clear_altsettings (Suc k) i ds m =
     (if \<not> i < length ds then None
      else do { m1 \<leftarrow> clear_altsetting (ds ! i) m; clear_altsettings k (Suc i) ds m1 })"

definition ClearInterface :: "UsbRawInterface option \<Rightarrow> usbmem \<Rightarrow> usbmem option" where
  "ClearInterface ui m =
     (case ui of
        None \<Rightarrow> Some m
      | Some u \<Rightarrow>
          if unat (numAltsetting u) > USB_MAXALTSETTING then Some m
          else do { m1 \<leftarrow> clear_altsettings (unat (numAltsetting u)) 0 (altsetting u) m;
                    RawUsbMemFree (Some (ri_self u)) m1 })"

fun clear_interfaces ::
  "nat \<Rightarrow> nat \<Rightarrow> UsbRawInterface option list \<Rightarrow> usbmem \<Rightarrow> (UsbRawInterface option list \<times> usbmem) option" where
  "clear_interfaces 0 i us m = Some (us, m)"
| "clear_interfaces (Suc k) i us m =
     (if \<not> i < length us then None
      else do { m1 \<leftarrow> ClearInterface (us ! i) m; clear_interfaces k (Suc i) (us[i := None]) m1 })"

definition RawClearConfiguration ::
  "UsbRawConfigDescriptor \<Rightarrow> usbmem \<Rightarrow> (UsbRawConfigDescriptor \<times> usbmem) option" where
  "RawClearConfiguration c m =
     do { (us, m1) \<leftarrow> clear_interfaces (unat (c_bNumInterfaces (configDescriptor c))) 0 (interface c) m;
          let c1 = c\<lparr>interface := us\<rparr> in
          case cf_extra c1 of
            None \<Rightarrow> Some (c1, m1)
          | Some (a, bs) \<Rightarrow> do { m2 \<leftarrow> RawUsbMemFree (Some a) m1; Some (c1\<lparr>cf_extra := None\<rparr>, m2) } }"

subsection \<open>Configurations\<close>

text \<open>
  The \<open>while\<close> loop of \<open>ParseConfigurationDes\<close>.  \<open>cur\<close> is the variable \<open>usbInterface\<close>, as an index
  into \<open>config->interface\<close>; it keeps its value when the number is not one of those counted.
\<close>

partial_function (option) ParseConfigurationDes_loop ::
  "alloc_os \<Rightarrow> UsbRawConfigDescriptor \<Rightarrow> u8 list \<Rightarrow> nat \<Rightarrow> int \<Rightarrow> nat option \<Rightarrow> u8 list \<Rightarrow> usbmem \<Rightarrow>
   (ret \<times> UsbRawConfigDescriptor \<times> usbmem) option" where
  "ParseConfigurationDes_loop os c b off sz cur nums m =
     (if \<not> sz > 0 then Some (RetVal sz, c, m)
      else do {
        n \<leftarrow> rd8 b (off + 2);
        let cur1 = (case find_index (\<lambda>x. x = n)
                          (take (unat (c_bNumInterfaces (configDescriptor c))) nums) of
                      Some i \<Rightarrow> Some i | None \<Rightarrow> cur);
            ui = (case cur1 of None \<Rightarrow> None | Some i \<Rightarrow> interface c ! i) in
        do { (r, ui', m1) \<leftarrow> ParseInterface os ui b off sz m;
          let c1 = (case cur1 of None \<Rightarrow> c | Some i \<Rightarrow> c\<lparr>interface := (interface c)[i := ui']\<rparr>) in
          case r of
            RetVal k \<Rightarrow>
              if k < 0 then do { (c2, m2) \<leftarrow> RawClearConfiguration c1 m1; Some (r, c2, m2) }
              else ParseConfigurationDes_loop os c1 b (off + nat k) (sz - k) cur1 nums m1
          | RetErr e \<Rightarrow> do { (c2, m2) \<leftarrow> RawClearConfiguration c1 m1; Some (r, c2, m2) }
          | RetSec \<Rightarrow> None } })"

declare ParseConfigurationDes_loop.simps [code]

definition ParseConfigurationDes ::
  "alloc_os \<Rightarrow> UsbRawConfigDescriptor \<Rightarrow> u8 list \<Rightarrow> nat \<Rightarrow> int \<Rightarrow> nat option \<Rightarrow> u8 list \<Rightarrow> usbmem \<Rightarrow>
   (ret \<times> UsbRawConfigDescriptor \<times> usbmem) option" where
  "ParseConfigurationDes os c b off sz cur nums m =
     do { len \<leftarrow> FindNextDescriptor b off sz;
          (r, c1, m1) \<leftarrow>
            (if len \<noteq> 0 then
               do { (r, ex, m1) \<leftarrow> copy_extra os b off len (cf_extraLength c) m;
                    Some (r, (if r = HDF_SUCCESS then c\<lparr>cf_extra := ex, cf_extraLength := len\<rparr>
                              else c\<lparr>cf_extra := ex\<rparr>), m1) }
             else Some (HDF_SUCCESS, c, m));
          if r \<noteq> HDF_SUCCESS
          then do { (c2, m2) \<leftarrow> RawClearConfiguration c1 m1; Some (r, c2, m2) }
          else ParseConfigurationDes_loop os c1 b (off + nat len) (sz - len) cur nums m1 }"

text \<open>The loop that allocates the interfaces; \<open>k\<close> counts the iterations left.\<close>

fun alloc_interfaces ::
  "alloc_os \<Rightarrow> nat \<Rightarrow> nat \<Rightarrow> u8 list \<Rightarrow> UsbRawInterface option list \<Rightarrow> usbmem \<Rightarrow>
   (bool \<times> UsbRawInterface option list \<times> usbmem) option" where
  "alloc_interfaces os 0 i alts us m = Some (True, us, m)"
| "alloc_interfaces os (Suc k) i alts us m =
     (let j = min (unat (alts ! i)) USB_MAXALTSETTING
      in do { (p, m1) \<leftarrow>
                RawUsbMemCalloc os (sizeof_RawInterface + sizeof_RawInterfaceDescriptor * j) m;
              case p of
                None \<Rightarrow> Some (False, us[i := None], m1)
              | Some a \<Rightarrow>
                  alloc_interfaces os k (Suc i) alts
                    (us[i := Some \<lparr>ri_self = a, numAltsetting = 0,
                                   altsetting = replicate j zero_interface\<rparr>]) m1 })"

definition ParseConfiguration ::
  "alloc_os \<Rightarrow> UsbRawConfigDescriptor \<Rightarrow> u8 list \<Rightarrow> int \<Rightarrow> usbmem \<Rightarrow>
   (ret \<times> UsbRawConfigDescriptor \<times> usbmem) option" where
  "ParseConfiguration os c b sz m =
     (if sz < int USB_DDK_DT_CONFIG_SIZE then Some (RetErr HDF_ERR_IO, c, m)
      else do {
        img \<leftarrow> ParseDescriptor b 0 USB_RAW_CONFIG_DESCRIPTOR_TYPE (config_bytes (configDescriptor c));
        let d = config_of img; c1 = c\<lparr>configDescriptor := d\<rparr> in
        if c_bDescriptorType d \<noteq> USB_DDK_DT_CONFIG \<or>
           unat (c_bLength d) < USB_DDK_DT_CONFIG_SIZE \<or>
           c_bLength d > (of_int sz :: u8) \<or>
           unat (c_bNumInterfaces d) > USB_MAXINTERFACES
        then Some (RetErr HDF_ERR_IO, c1, m)
        else do {
          s \<leftarrow> GetInterfaceNumber b 0 (nat sz) scan_init;
          let c2 = c1\<lparr>configDescriptor := d\<lparr>c_bNumInterfaces := of_nat (scan_num s)\<rparr>\<rparr> in
          do {
            (ok, us, m1) \<leftarrow> alloc_interfaces os (scan_num s) 0 (nAlts s) (interface c2) m;
            let c3 = c2\<lparr>interface := us\<rparr> in
            if \<not> ok then Some (RetErr HDF_ERR_MALLOC_FAIL, c3, m1)
            else ParseConfigurationDes os c3 b (unat (c_bLength d)) (sz - int (unat (c_bLength d)))
                   (if scan_num s = 0 then None else Some (scan_num s - 1)) (nIntf s) m1 } } })"

text \<open>The result carries the new \<open>*config\<close>, when one is stored, with its address.\<close>

definition DescToConfig ::
  "alloc_os \<Rightarrow> u8 list \<Rightarrow> int \<Rightarrow> usbmem \<Rightarrow> (ret \<times> (ptr \<times> UsbRawConfigDescriptor) option \<times> usbmem) option" where
  "DescToConfig os b sz m =
     do { (p, m1) \<leftarrow> RawUsbMemCalloc os sizeof_RawConfig m;
          case p of
            None \<Rightarrow> Some (RetErr HDF_ERR_MALLOC_FAIL, None, m1)
          | Some a \<Rightarrow>
              do { (r, c, m2) \<leftarrow> ParseConfiguration os zero_config b sz m1;
                   if ret_neg r then do { m3 \<leftarrow> RawUsbMemFree (Some a) m2; Some (r, None, m3) }
                   else Some (r, Some (a, c), m2) } }"

text \<open>\<open>UsbRawFreeConfigDescriptor\<close> of \<open>usb_raw_api.c\<close>: the counterpart of \<open>DescToConfig\<close>.\<close>

definition UsbRawFreeConfigDescriptor ::
  "(ptr \<times> UsbRawConfigDescriptor) option \<Rightarrow> usbmem \<Rightarrow> usbmem option" where
  "UsbRawFreeConfigDescriptor config m =
     (case config of
        None \<Rightarrow> Some m
      | Some (a, c) \<Rightarrow>
          do { (c', m1) \<leftarrow> RawClearConfiguration c m; RawUsbMemFree (Some a) m1 })"

end
