(* ===== verification/Usb_Descriptor_Roundtrip.thy ===== *)
theory Usb_Descriptor_Roundtrip
  imports Usb_Descriptor "HOL-Library.Multiset"
begin

text \<open>
  Functional correctness of the configuration parser: a wire format for well-formed configurations,
  its encoding as bytes, and the theorem that the parser recovers every configuration from its
  encoding.
\<close>

subsection \<open>Wire format\<close>

record ep_wire =
  ew_desc :: UsbEndpointDescriptor
  ew_extra :: "u8 list list"

record alt_wire =
  aw_desc :: UsbInterfaceDescriptor
  aw_extra :: "u8 list list"
  aw_eps :: "ep_wire list"

record conf_wire =
  cw_desc :: UsbConfigDescriptor
  cw_extra :: "u8 list list"
  cw_alts :: "alt_wire list"

text \<open>A class- or vendor-specific descriptor between the standard ones.\<close>

definition wf_extra :: "u8 list \<Rightarrow> bool" where
  "wf_extra d \<longleftrightarrow> 2 \<le> length d \<and> unat (d ! 0) = length d \<and> d ! 1 \<noteq> 4 \<and> d ! 1 \<noteq> 5"

definition wf_ep :: "ep_wire \<Rightarrow> bool" where
  "wf_ep e \<longleftrightarrow> e_bDescriptorType (ew_desc e) = 5 \<and>
     (e_bLength (ew_desc e) = 9 \<or>
      e_bLength (ew_desc e) = 7 \<and> e_bRefresh (ew_desc e) = 0 \<and> e_bSynchAddress (ew_desc e) = 0) \<and>
     list_all wf_extra (ew_extra e)"

definition wf_alt :: "alt_wire \<Rightarrow> bool" where
  "wf_alt a \<longleftrightarrow> i_bDescriptorType (aw_desc a) = 4 \<and> i_bLength (aw_desc a) = 9 \<and>
     unat (i_bNumEndpoints (aw_desc a)) = length (aw_eps a) \<and> length (aw_eps a) \<le> 32 \<and>
     list_all wf_extra (aw_extra a) \<and> list_all wf_ep (aw_eps a)"

definition ep_head :: "ep_wire \<Rightarrow> u8 list" where
  "ep_head e = take (unat (e_bLength (ew_desc e))) (endpoint_bytes (ew_desc e))"

definition ep_bytes :: "ep_wire \<Rightarrow> u8 list" where
  "ep_bytes e = ep_head e @ concat (ew_extra e)"

definition alt_bytes :: "alt_wire \<Rightarrow> u8 list" where
  "alt_bytes a = interface_bytes (aw_desc a) @ concat (aw_extra a) @ concat (map ep_bytes (aw_eps a))"

definition conf_bytes :: "conf_wire \<Rightarrow> u8 list" where
  "conf_bytes c = config_bytes (cw_desc c) @ concat (cw_extra c) @ concat (map alt_bytes (cw_alts c))"

abbreviation alt_num :: "alt_wire \<Rightarrow> u8" where
  "alt_num a \<equiv> i_bInterfaceNumber (aw_desc a)"

text \<open>The interface numbers in the order of their first occurrence.\<close>

fun firsts_acc :: "'a list \<Rightarrow> 'a list \<Rightarrow> 'a list" where
  "firsts_acc acc [] = acc"
| "firsts_acc acc (x # xs) = firsts_acc (if x \<in> set acc then acc else acc @ [x]) xs"

definition conf_nums :: "conf_wire \<Rightarrow> u8 list" where
  "conf_nums c = firsts_acc [] (map alt_num (cw_alts c))"

definition wf_conf :: "conf_wire \<Rightarrow> bool" where
  "wf_conf c \<longleftrightarrow> c_bDescriptorType (cw_desc c) = 2 \<and> c_bLength (cw_desc c) = 9 \<and>
     unat (c_bNumInterfaces (cw_desc c)) \<le> 32 \<and>
     list_all wf_extra (cw_extra c) \<and> list_all wf_alt (cw_alts c) \<and>
     length (conf_nums c) \<le> 32 \<and>
     list_all (\<lambda>a. count_list (map alt_num (cw_alts c)) (alt_num a) \<le> 128) (cw_alts c) \<and>
     length (conf_bytes c) < 2 ^ 31 \<and> 9 \<le> length (conf_bytes c) mod 256"

subsection \<open>What the parsed structures must hold\<close>

definition blob_rel :: "u8 list list \<Rightarrow> blob \<Rightarrow> int \<Rightarrow> bool" where
  "blob_rel ds x n \<longleftrightarrow> n = int (length (concat ds)) \<and>
     map_option snd x = (if concat ds = [] then None else Some (concat ds))"

definition ep_rel :: "ep_wire \<Rightarrow> UsbRawEndpointDescriptor \<Rightarrow> bool" where
  "ep_rel e r \<longleftrightarrow> endpointDescriptor r = ew_desc e \<and> blob_rel (ew_extra e) (ep_extra r) (ep_extraLength r)"

definition alt_rel :: "alt_wire \<Rightarrow> UsbRawInterfaceDescriptor \<Rightarrow> bool" where
  "alt_rel a r \<longleftrightarrow> interfaceDescriptor r = aw_desc a \<and>
     blob_rel (aw_extra a) (if_extra r) (if_extraLength r) \<and>
     (case endPoint r of None \<Rightarrow> aw_eps a = [] | Some (p, eps) \<Rightarrow> list_all2 ep_rel (aw_eps a) eps)"

definition conf_rel :: "conf_wire \<Rightarrow> UsbRawConfigDescriptor \<Rightarrow> bool" where
  "conf_rel c r \<longleftrightarrow>
     configDescriptor r = (cw_desc c)\<lparr>c_bNumInterfaces := of_nat (length (conf_nums c))\<rparr> \<and>
     blob_rel (cw_extra c) (cf_extra r) (cf_extraLength r) \<and>
     (\<forall>i < length (conf_nums c). \<exists>u. interface r ! i = Some u \<and>
        (let as = filter (\<lambda>a. alt_num a = conf_nums c ! i) (cw_alts c)
         in unat (numAltsetting u) = length as \<and> list_all2 alt_rel as (altsetting u)))"

subsection \<open>Byte images of the packed structs\<close>

lemma le16_roundtrip: "le16 (of_nat (unat w mod 256)) (of_nat (unat (w::u16) div 256)) = w"
proof -
  have "unat w div 256 < 256"
    using unsigned_less[where 'a = nat and w = w] by simp
  then have "unat w mod 256 + 256 * (unat w div 256) = unat w" "unat (of_nat (unat w div 256) :: u8) = unat w div 256"
    "unat (of_nat (unat w mod 256) :: u8) = unat w mod 256"
    by (simp_all add: unsigned_of_nat take_bit_eq_mod)
  then show ?thesis by (simp add: le16_def)
qed

lemma config_image [simp]: "config_of (config_bytes c) = c" "length (config_bytes c) = 9"
  by (simp_all add: config_of_def config_bytes_def le16_bytes_def le16_roundtrip)

lemma interface_image [simp]: "interface_of (interface_bytes i) = i" "length (interface_bytes i) = 9"
  by (simp_all add: interface_of_def interface_bytes_def)

lemma endpoint_image [simp]: "endpoint_of (endpoint_bytes e) = e" "length (endpoint_bytes e) = 9"
  by (simp_all add: endpoint_of_def endpoint_bytes_def le16_bytes_def le16_roundtrip)

subsection \<open>Positions in the buffer\<close>

text \<open>The unread rest of the buffer at an offset.\<close>

definition at :: "u8 list \<Rightarrow> nat \<Rightarrow> u8 list \<Rightarrow> bool" where
  "at b off xs \<longleftrightarrow> off \<le> length b \<and> drop off b = xs"

lemma at_advance: "at b off (xs @ ys) \<Longrightarrow> at b (off + length xs) ys"
proof -
  assume "at b off (xs @ ys)"
  then have off: "off \<le> length b" and eq: "drop off b = xs @ ys" by (simp_all add: at_def)
  have "length b - off = length xs + length ys" using arg_cong[OF eq, of length] by simp
  moreover have "drop (off + length xs) b = drop (length xs) (drop off b)" by (simp add: add.commute)
  ultimately show ?thesis using off by (simp add: at_def eq)
qed

lemma at_rd8: "at b off xs \<Longrightarrow> i < length xs \<Longrightarrow> rd8 b (off + i) = Some (xs ! i)"
  by (auto simp: at_def rd8_def)

lemma at_rd8_app: "at b off (xs @ ys) \<Longrightarrow> i < length xs \<Longrightarrow> rd8 b (off + i) = Some (xs ! i)"
  using at_rd8[of b off "xs @ ys" i] by (simp add: nth_append)

lemma at_rd8_app0: "at b off (xs @ ys) \<Longrightarrow> 0 < length xs \<Longrightarrow> rd8 b off = Some (xs ! 0)"
  using at_rd8_app[of b off xs ys 0] by simp

lemma at_drop: "at b off xs \<Longrightarrow> drop off b = xs"
  by (simp add: at_def)

text \<open>The rest is empty or starts with an interface or endpoint descriptor.\<close>

definition std_start :: "u8 list \<Rightarrow> bool" where
  "std_start xs \<longleftrightarrow> xs = [] \<or> 2 \<le> length xs \<and> (xs ! 1 = 4 \<or> xs ! 1 = 5)"

subsection \<open>Skipping extra descriptors\<close>

lemma FindNext_loop_extras:
  assumes "at b off (concat ds @ xs)" "list_all wf_extra ds" "std_start xs"
    "length (concat ds @ xs) < 2 ^ 63"
  shows "FindNextDescriptor_loop b off (of_nat (length (concat ds @ xs))) =
    Some (off + length (concat ds))"
  using assms
proof (induction ds arbitrary: off)
  case Nil
  show ?case
  proof (cases "xs = []")
    case True
    then show ?thesis by (simp add: FindNextDescriptor_loop.simps)
  next
    case False
    with Nil have "rd8 b (off + 1) = Some (xs ! 1)" "xs ! 1 = 4 \<or> xs ! 1 = 5"
      using at_rd8[of b off xs 1] by (auto simp: std_start_def)
    then show ?thesis
      by (subst FindNextDescriptor_loop.simps) auto
  qed
next
  case (Cons d ds)
  let ?R = "concat ds @ xs"
  have d: "2 \<le> length d" "unat (d ! 0) = length d" "d ! 1 \<noteq> 4" "d ! 1 \<noteq> 5"
    using Cons.prems(2) by (auto simp: wf_extra_def)
  have at: "at b off (d @ ?R)" using Cons.prems(1) by simp
  have r: "rd8 b off = Some (d ! 0)" "rd8 b (off + 1) = Some (d ! 1)"
    by (rule at_rd8_app0[OF at] at_rd8_app[OF at], use d(1) in linarith)+
  have nz: "(of_nat (length (d @ ?R)) :: u64) \<noteq> 0"
    by (rule of_nat_small_nonzero) (use d(1) Cons.prems(4) in auto)
  have "(ucast (d ! 0) :: u64) = of_nat (length d)"
    by (simp only: ucast_of_nat_unat d(2))
  then have sub: "(of_nat (length (d @ ?R)) :: u64) - ucast (d ! 0) = of_nat (length ?R)"
    by simp
  have "FindNextDescriptor_loop b (off + length d) (of_nat (length ?R)) =
      Some (off + length d + length (concat ds))"
    by (rule Cons.IH[OF at_advance[OF at]]) (use Cons.prems in auto)
  with r nz sub d show ?case
    by (subst FindNextDescriptor_loop.simps) (simp add: ac_simps)
qed

lemma FindNext_extras:
  assumes "at b off (concat ds @ xs)" "list_all wf_extra ds" "std_start xs"
    "length (concat ds @ xs) < 2 ^ 31"
  shows "FindNextDescriptor b off (int (length (concat ds @ xs))) = Some (int (length (concat ds)))"
  using FindNext_loop_extras[OF assms(1-3)] assms(4)
  by (simp add: FindNextDescriptor_def)

subsection \<open>Memory that the parser allocates\<close>

text \<open>The allocator always succeeds and the allocation tracker is off.\<close>

definition good :: "alloc_os \<Rightarrow> usbmem \<Rightarrow> bool" where
  "good os m \<longleftrightarrow> (\<forall>n k. os n k) \<and> \<not> g_usbRamTestFlag m"

text \<open>Between two states exactly the blocks \<open>A\<close> were allocated and none freed.\<close>

definition grows :: "usbmem \<Rightarrow> ptr list \<Rightarrow> usbmem \<Rightarrow> bool" where
  "grows m A m' \<longleftrightarrow> live m' = live m \<union> set A \<and> distinct A \<and>
     set A \<subseteq> {nextAddr m..<nextAddr m'} \<and> nextAddr m \<le> nextAddr m' \<and>
     g_usbRamTestFlag m' = g_usbRamTestFlag m"

lemma grows_refl [simp]: "grows m [] m"
  by (simp add: grows_def)

lemma grows_trans: "grows m A m1 \<Longrightarrow> grows m1 B m2 \<Longrightarrow> grows m (A @ B) m2"
  unfolding grows_def by (auto; fastforce)

lemma grows_perm: "grows m A m' \<Longrightarrow> mset A = mset B \<Longrightarrow> grows m B m'"
  unfolding grows_def by (metis mset_eq_imp_distinct_iff mset_eq_setD)

lemma grows_good: "grows m A m' \<Longrightarrow> good os m \<Longrightarrow> good os m'"
  by (simp add: grows_def good_def)

lemma good_calloc:
  assumes "good os m" "0 < n"
  shows "\<exists>a m'. RawUsbMemCalloc os n m = Some (Some a, m') \<and> grows m [a] m'"
  using assms by (auto simp: RawUsbMemCalloc_off good_def OsalMemAlloc_def grows_def)

definition blob_addrs :: "blob \<Rightarrow> ptr list" where
  "blob_addrs x = (case x of None \<Rightarrow> [] | Some (a, bs) \<Rightarrow> [a])"

lemma blob_addrs_simps [simp]: "blob_addrs None = []" "blob_addrs (Some (a, bs)) = [a]"
  by (simp_all add: blob_addrs_def)

abbreviation ep_addrs :: "UsbRawEndpointDescriptor \<Rightarrow> ptr list" where
  "ep_addrs r \<equiv> blob_addrs (ep_extra r)"

definition eps_addrs :: "UsbRawEndpointDescriptor list \<Rightarrow> ptr list" where
  "eps_addrs eps = concat (map (\<lambda>r. blob_addrs (ep_extra r)) eps)"

definition alt_addrs :: "UsbRawInterfaceDescriptor \<Rightarrow> ptr list" where
  "alt_addrs d = blob_addrs (if_extra d) @
     (case endPoint d of None \<Rightarrow> [] | Some (a, eps) \<Rightarrow> a # eps_addrs eps)"

definition iface_addrs :: "UsbRawInterface \<Rightarrow> ptr list" where
  "iface_addrs u = ri_self u # concat (map alt_addrs (altsetting u))"

definition conf_addrs :: "UsbRawConfigDescriptor \<Rightarrow> ptr list" where
  "conf_addrs c = blob_addrs (cf_extra c) @
     concat (map (\<lambda>u. case u of None \<Rightarrow> [] | Some u \<Rightarrow> iface_addrs u) (interface c))"

lemma copy_extra_run:
  assumes "at b off (xs @ ys)" "xs \<noteq> []" "good os m"
  shows "\<exists>a m'. copy_extra os b off (int (length xs)) 0 m = Some (HDF_SUCCESS, Some (a, xs), m') \<and>
    grows m [a] m'"
proof -
  obtain a m' where c: "RawUsbMemCalloc os (length xs) m = Some (Some a, m')" "grows m [a] m'"
    using good_calloc[OF assms(3), of "length xs"] assms(2) by auto
  then show ?thesis
    using at_drop[OF assms(1)]
    by (auto simp: copy_extra_def RawUsbMemAlloc_def memcpy_s_def rdn_def wrn_def)
qed

subsection \<open>Endpoints\<close>

lemma ep_head_length: "wf_ep e \<Longrightarrow> length (ep_head e) = unat (e_bLength (ew_desc e))"
  by (auto simp: ep_head_def wf_ep_def)

lemma ep_head_nth:
  "wf_ep e \<Longrightarrow> ep_head e ! 0 = e_bLength (ew_desc e) \<and> ep_head e ! 1 = 5 \<and> 7 \<le> length (ep_head e)"
  by (auto simp: ep_head_def wf_ep_def endpoint_bytes_def le16_bytes_def)

lemma ep_head_image:
  assumes "wf_ep e" "at b off (ep_head e @ xs)"
  shows "\<exists>img. ParseDescriptor b off
      (if unat (e_bLength (ew_desc e)) \<ge> USB_DDK_DT_ENDPOINT_AUDIO_SIZE
       then USB_RAW_AUDIO_ENDPOINT_DESCRIPTOR_TYPE else USB_RAW_ENDPOINT_DESCRIPTOR_TYPE)
      (endpoint_bytes (endpointDescriptor zero_endpoint)) = Some img \<and> endpoint_of img = ew_desc e"
proof (cases "e_bLength (ew_desc e) = 9")
  case True
  then have "ep_head e = endpoint_bytes (ew_desc e)" by (simp add: ep_head_def)
  with True at_drop[OF assms(2)] show ?thesis
    by (simp add: ParseDescriptor_def memcpy_s_def rdn_def wrn_def)
next
  case False
  with assms(1) have l: "e_bLength (ew_desc e) = 7" "e_bRefresh (ew_desc e) = 0" "e_bSynchAddress (ew_desc e) = 0"
    by (auto simp: wf_ep_def)
  then have h: "ep_head e = take 7 (endpoint_bytes (ew_desc e))" by (simp add: ep_head_def)
  have "endpoint_of (take 7 (endpoint_bytes (ew_desc e)) @ [0, 0]) = ew_desc e"
    using l by (cases "ew_desc e") (simp add: endpoint_of_def endpoint_bytes_def le16_bytes_def le16_roundtrip)
  moreover have "drop 7 (endpoint_bytes (endpointDescriptor zero_endpoint)) = [0, 0]"
    by (simp add: zero_endpoint_def endpoint_of_def endpoint_bytes_def le16_bytes_def)
  ultimately show ?thesis
    using l h at_drop[OF assms(2)] by (simp add: ParseDescriptor_def memcpy_s_def rdn_def wrn_def)
qed

lemma ParseEndpoint_run:
  assumes "wf_ep e" "at b off (ep_bytes e @ xs)" "std_start xs" "length (ep_bytes e @ xs) < 2 ^ 31"
    "good os m"
  shows "\<exists>r m'. ParseEndpoint os zero_endpoint b off (int (length (ep_bytes e @ xs))) m =
      Some (RetVal (int (length (ep_bytes e))), r, m') \<and> ep_rel e r \<and> grows m (ep_addrs r) m'"
proof -
  let ?n = "length (ep_head e)" and ?ds = "ew_extra e"
  let ?ys = "concat ?ds @ xs"
  have at: "at b off (ep_head e @ ?ys)" using assms(2) by (simp add: ep_bytes_def)
  have wfx: "list_all wf_extra ?ds" using assms(1) by (simp add: wf_ep_def)
  have nth: "ep_head e ! 0 = e_bLength (ew_desc e)" "ep_head e ! 1 = 5" and n: "7 \<le> ?n"
    using ep_head_nth[OF assms(1)] by auto
  have ne: "ep_head e \<noteq> []" using n by auto
  have len: "unat (e_bLength (ew_desc e)) = ?n" using ep_head_length[OF assms(1)] by simp
  have ulen: "uint (e_bLength (ew_desc e)) = int ?n" by (simp flip: len)
  have r0: "rd8 b off = Some (e_bLength (ew_desc e))" "rd8 b (off + 1) = Some 5"
    using at_rd8_app[OF at, of 0] at_rd8_app[OF at, of 1] nth n ne by auto
  obtain img where img: "ParseDescriptor b off
      (if unat (e_bLength (ew_desc e)) \<ge> USB_DDK_DT_ENDPOINT_AUDIO_SIZE
       then USB_RAW_AUDIO_ENDPOINT_DESCRIPTOR_TYPE else USB_RAW_ENDPOINT_DESCRIPTOR_TYPE)
      (endpoint_bytes (endpointDescriptor zero_endpoint)) = Some img" "endpoint_of img = ew_desc e"
    using ep_head_image[OF assms(1) at] by auto
  have at1: "at b (off + ?n) ?ys" by (rule at_advance[OF at])
  have find: "FindNextDescriptor b (off + ?n) (int (length ?ys)) = Some (int (length (concat ?ds)))"
    by (rule FindNext_extras[OF at1 wfx assms(3)]) (use assms(4) in \<open>simp add: ep_bytes_def\<close>)
  have sz: "int (length (ep_bytes e @ xs)) = int ?n + int (length ?ys)" by (simp add: ep_bytes_def)
  show ?thesis
  proof (cases "concat ?ds = []")
    case True
    then show ?thesis
      using r0 img find n sz
      by (simp add: ParseEndpoint_def Let_def len ulen ep_bytes_def ep_rel_def blob_rel_def zero_endpoint_def)
  next
    case False
    obtain a m' where c: "copy_extra os b (off + ?n) (int (length (concat ?ds))) 0 m =
        Some (HDF_SUCCESS, Some (a, concat ?ds), m')" "grows m [a] m'"
      using copy_extra_run[OF at1 False assms(5)] by auto
    have z: "ep_extraLength zero_endpoint = 0" by (simp add: zero_endpoint_def)
    show ?thesis
      unfolding sz using r0 img find n False c
      by (auto simp: ParseEndpoint_def Let_def len ulen ep_bytes_def ep_rel_def blob_rel_def z)
  qed
qed

lemma ep_bytes_long: "wf_ep e \<Longrightarrow> 7 \<le> length (ep_bytes e)"
  using ep_head_nth[of e] by (simp add: ep_bytes_def)

lemma std_start_eps:
  assumes "list_all wf_ep es" "std_start xs"
  shows "std_start (concat (map ep_bytes es) @ xs)"
proof (cases es)
  case (Cons e es')
  with assms(1) ep_head_nth[of e] ep_bytes_long[of e] show ?thesis
    by (auto simp: std_start_def ep_bytes_def nth_append)
qed (use assms in simp)

lemma endpoint_loop_run:
  assumes "list_all wf_ep es" "at b off (concat (map ep_bytes es) @ xs)" "std_start xs"
    "length (concat (map ep_bytes es) @ xs) < 2 ^ 31" "good os m"
  shows "\<exists>r rs m'. endpoint_loop os (length es) (length done) r0 d
        (done @ replicate (length es) zero_endpoint) b off
        (int (length (concat (map ep_bytes es) @ xs))) m =
      Some (r, d, done @ rs, off + length (concat (map ep_bytes es)), int (length xs), m') \<and>
      list_all2 ep_rel es rs \<and> grows m (eps_addrs rs) m' \<and> (r = r0 \<or> (\<exists>n > 0. r = RetVal n))"
  using assms
proof (induction es arbitrary: off m r0 "done")
  case Nil
  then show ?case by (simp add: eps_addrs_def)
next
  case (Cons e es)
  let ?ys = "concat (map ep_bytes es) @ xs"
  have wf: "wf_ep e" "list_all wf_ep es" using Cons.prems(1) by auto
  have at: "at b off (ep_bytes e @ ?ys)" using Cons.prems(2) by simp
  obtain r m1 where p: "ParseEndpoint os zero_endpoint b off (int (length (ep_bytes e @ ?ys))) m =
      Some (RetVal (int (length (ep_bytes e))), r, m1)" "ep_rel e r" "grows m (ep_addrs r) m1"
    using ParseEndpoint_run[OF wf(1) at std_start_eps[OF wf(2) Cons.prems(3)] _ Cons.prems(5)]
      Cons.prems(4) by auto
  have "\<exists>r' rs m'. endpoint_loop os (length es) (length (done @ [r])) (RetVal (int (length (ep_bytes e)))) d
        ((done @ [r]) @ replicate (length es) zero_endpoint) b (off + length (ep_bytes e))
        (int (length ?ys)) m1 =
      Some (r', d, (done @ [r]) @ rs, off + length (ep_bytes e) + length (concat (map ep_bytes es)),
            int (length xs), m') \<and>
      list_all2 ep_rel es rs \<and> grows m1 (eps_addrs rs) m' \<and>
      (r' = RetVal (int (length (ep_bytes e))) \<or> (\<exists>n > 0. r' = RetVal n))"
    by (rule Cons.IH[OF wf(2) at_advance[OF at] Cons.prems(3)])
      (use Cons.prems grows_good[OF p(3)] in auto)
  then obtain r' rs m' where ih: "endpoint_loop os (length es) (Suc (length done))
        (RetVal (int (length (ep_bytes e)))) d
        (done @ r # replicate (length es) zero_endpoint) b (off + length (ep_bytes e))
        (int (length ?ys)) m1 =
      Some (r', d, done @ r # rs, off + length (concat (map ep_bytes (e # es))), int (length xs), m')"
      "list_all2 ep_rel es rs" "grows m1 (eps_addrs rs) m'"
      "r' = RetVal (int (length (ep_bytes e))) \<or> (\<exists>n > 0. r' = RetVal n)"
    by (auto simp: add.assoc)
  have pos: "0 < length (ep_bytes e)" using ep_bytes_long[OF wf(1)] by linarith
  have "grows m (eps_addrs (r # rs)) m'"
    using grows_trans[OF p(3) ih(3)] by (simp add: eps_addrs_def)
  moreover have "endpoint_loop os (length (e # es)) (length done) r0 d
        (done @ replicate (length (e # es)) zero_endpoint) b off
        (int (length (ep_bytes e @ ?ys))) m =
      Some (r', d, done @ r # rs, off + length (concat (map ep_bytes (e # es))), int (length xs), m')"
    using p(1) ih(1) pos by (simp add: nth_append)
  ultimately show ?case
    using p(2) ih(2,4) pos by (intro exI[of _ r'] exI[of _ "r # rs"] exI[of _ m']) auto
qed

lemma ParseInterfaceEndpoint_run:
  assumes "list_all wf_ep es" "at b off (concat (map ep_bytes es) @ xs)" "std_start xs"
    "length (concat (map ep_bytes es) @ xs) < 2 ^ 31" "good os m"
    "unat (i_bNumEndpoints (interfaceDescriptor ifp)) = length es" "endPoint ifp = None"
  shows "\<exists>r ep m'. ParseInterfaceEndpoint os ifp b off
        (int (length (concat (map ep_bytes es) @ xs))) m =
      Some (r, ifp\<lparr>endPoint := ep\<rparr>, off + length (concat (map ep_bytes es)), int (length xs), m') \<and>
      (case ep of None \<Rightarrow> es = [] | Some (p, rs) \<Rightarrow> list_all2 ep_rel es rs) \<and>
      grows m (case ep of None \<Rightarrow> [] | Some (a, rs) \<Rightarrow> a # eps_addrs rs) m' \<and> \<not> ret_neg r"
proof (cases "es = []")
  case True
  with assms show ?thesis by (intro exI[of _ HDF_SUCCESS] exI[of _ None] exI[of _ m]) (simp add: ParseInterfaceEndpoint_def)
next
  case False
  obtain a m1 where a: "RawUsbMemCalloc os (length es * sizeof_RawEndpoint) m = Some (Some a, m1)" "grows m [a] m1"
    using good_calloc[OF assms(5), of "length es * sizeof_RawEndpoint"] False
    by (auto simp: sizeof_RawEndpoint_def)
  obtain r rs m' where l: "endpoint_loop os (length es) 0 HDF_SUCCESS (interfaceDescriptor ifp)
        (replicate (length es) zero_endpoint) b off
        (int (length (concat (map ep_bytes es) @ xs))) m1 =
      Some (r, interfaceDescriptor ifp, rs, off + length (concat (map ep_bytes es)), int (length xs), m')"
      "list_all2 ep_rel es rs" "grows m1 (eps_addrs rs) m'" "r = HDF_SUCCESS \<or> (\<exists>n > 0. r = RetVal n)"
    using endpoint_loop_run[OF assms(1-4) grows_good[OF a(2) assms(5)], of "[]" HDF_SUCCESS
        "interfaceDescriptor ifp"] by auto
  have "grows m (a # eps_addrs rs) m'" using grows_trans[OF a(2) l(3)] by simp
  with False a(1) l assms(6) show ?thesis
    by (intro exI[of _ r] exI[of _ "Some (a, rs)"] exI[of _ m']) (auto simp: ParseInterfaceEndpoint_def Let_def)
qed

subsection \<open>Interfaces\<close>

text \<open>The rest is empty or starts with an interface descriptor.\<close>

definition if_start :: "u8 list \<Rightarrow> bool" where
  "if_start xs \<longleftrightarrow> xs = [] \<or> 9 \<le> length xs \<and> xs ! 1 = 4"

lemma if_start_std: "if_start xs \<Longrightarrow> std_start xs"
  by (auto simp: if_start_def std_start_def)

lemma alt_bytes_nth:
  assumes "wf_alt a"
  shows "alt_bytes a ! 1 = 4" "alt_bytes a ! 2 = alt_num a" "9 \<le> length (alt_bytes a)" "alt_bytes a \<noteq> []"
  using assms by (auto simp: alt_bytes_def wf_alt_def nth_append) (auto simp: interface_bytes_def)

lemma RawParseDescriptor_run:
  assumes "wf_alt a" "at b off (interface_bytes (aw_desc a) @ xs)"
  shows "RawParseDescriptor (int (length (interface_bytes (aw_desc a) @ xs))) b off
      USB_RAW_INTERFACE_DESCRIPTOR_TYPE zero_interface =
    Some (HDF_SUCCESS, zero_interface\<lparr>interfaceDescriptor := aw_desc a\<rparr>)"
  using assms at_drop[OF assms(2)]
  by (simp add: RawParseDescriptor_def ParseDescriptor_def memcpy_s_def rdn_def wrn_def wf_alt_def Let_def)

lemma alt_extras_run:
  assumes "wf_alt a" "at b off (concat (aw_extra a) @ xs)" "good os m"
  shows "\<exists>x m'. (if int (length (concat (aw_extra a))) \<noteq> 0
       then ParseInterfaceCopy os (zero_interface\<lparr>interfaceDescriptor := aw_desc a\<rparr>)
              (int (length (concat (aw_extra a)))) b off m
       else Some (HDF_SUCCESS, zero_interface\<lparr>interfaceDescriptor := aw_desc a\<rparr>, m)) =
     Some (HDF_SUCCESS, zero_interface\<lparr>interfaceDescriptor := aw_desc a, if_extra := x,
       if_extraLength := int (length (concat (aw_extra a)))\<rparr>, m') \<and>
     blob_rel (aw_extra a) x (int (length (concat (aw_extra a)))) \<and> grows m (blob_addrs x) m'"
proof (cases "concat (aw_extra a) = []")
  case True
  then show ?thesis
    by (intro exI[of _ None] exI[of _ m]) (auto simp: blob_rel_def zero_interface_def)
next
  case False
  obtain p m' where c: "copy_extra os b off (int (length (concat (aw_extra a)))) 0 m =
      Some (HDF_SUCCESS, Some (p, concat (aw_extra a)), m')" "grows m [p] m'"
    using copy_extra_run[OF assms(2) False assms(3)] by auto
  with False show ?thesis
    by (intro exI[of _ "Some (p, concat (aw_extra a))"] exI[of _ m'])
      (auto simp: ParseInterfaceCopy_def blob_rel_def zero_interface_def)
qed

lemma ParseInterface_loop_once:
  assumes "9 \<le> sz" "unat (numAltsetting ui) = idx" "idx < length (altsetting ui)"
    "RawParseDescriptor sz b off USB_RAW_INTERFACE_DESCRIPTOR_TYPE (altsetting ui ! idx) =
       Some (HDF_SUCCESS, ifp)"
    "ifp\<lparr>if_extra := None, if_extraLength := 0, endPoint := None\<rparr> = ifp"
    "i_bLength (interfaceDescriptor ifp) = 9"
    "FindNextDescriptor b (off + 9) (sz - 9) = Some (int L)"
    "(if int L \<noteq> 0 then ParseInterfaceCopy os ifp (int L) b (off + 9) m
      else Some (HDF_SUCCESS, ifp, m)) = Some (HDF_SUCCESS, ifp2, m2)"
    "ParseInterfaceEndpoint os ifp2 b (off + 9 + L) (sz - 9 - int L) m2 =
       Some (r3, ifp3, off3, sz3, m3)" "\<not> ret_neg r3"
    "inum = -1 \<or> inum = int (unat (i_bInterfaceNumber (interfaceDescriptor ifp)))"
  shows "ParseInterface_loop os off0 inum ui b off sz m =
    (let ui' = ui\<lparr>numAltsetting := numAltsetting ui + 1, altsetting := (altsetting ui)[idx := ifp3]\<rparr>
     in if sz3 < 9 then Some (RetVal (int off3 - int off0), ui', m3)
        else do { ty \<leftarrow> rd8 b (off3 + 1);
                  if ty \<noteq> 4 then Some (RetVal (int off3 - int off0), ui', m3)
                  else do { n \<leftarrow> rd8 b (off3 + 2);
                    if n \<noteq> i_bInterfaceNumber (interfaceDescriptor ifp)
                    then Some (RetVal (int off3 - int off0), ui', m3)
                    else ParseInterface_loop os off0
                      (int (unat (i_bInterfaceNumber (interfaceDescriptor ifp)))) ui' b off3 sz3 m3 } })"
proof -
  have inum': "(if inum = -1 then int (unat (i_bInterfaceNumber (interfaceDescriptor ifp))) else inum) =
      int (unat (i_bInterfaceNumber (interfaceDescriptor ifp)))"
    using assms(11) by auto
  have len: "unat (i_bLength (interfaceDescriptor ifp)) = 9" using assms(6) by simp
  have eq: "(int (unat n) \<noteq> int (unat k)) = (n \<noteq> k)" for n k :: u8
    by (simp only: of_nat_eq_iff word_unat_eq_iff)
  have ueq: "(uint n = uint k) = (n = k)" for n k :: u8
    using eq[of n k] by simp
  have off: "off + 9 + nat (int L) = off + 9 + L" "int 9 = 9" by simp_all
  show ?thesis
    apply (subst ParseInterface_loop.simps)
    apply (simp only: assms(2,4,5) Let_def Option.bind.simps prod.case inum' len off assms(7) assms(8))
    using assms(1,3,9,10)
    by (simp add: ueq cong: if_cong)
qed

lemma ParseInterface_step:
  assumes a: "wf_alt a" and at: "at b off (alt_bytes a @ xs)" and xs: "if_start xs"
    and len: "length (alt_bytes a @ xs) < 2 ^ 31" and os: "good os m"
    and inum: "inum = -1 \<or> inum = int (unat (alt_num a))"
    and ui: "altsetting ui = done @ zero_interface # rest" "unat (numAltsetting ui) = length done"
  shows "\<exists>r m'. alt_rel a r \<and> grows m (alt_addrs r) m' \<and>
    ParseInterface_loop os off0 inum ui b off (int (length (alt_bytes a @ xs))) m =
    (let ui' = ui\<lparr>numAltsetting := numAltsetting ui + 1, altsetting := done @ r # rest\<rparr>;
         off' = off + length (alt_bytes a)
     in if xs \<noteq> [] \<and> xs ! 2 = alt_num a
        then ParseInterface_loop os off0 (int (unat (alt_num a))) ui' b off' (int (length xs)) m'
        else Some (RetVal (int off' - int off0), ui', m'))"
proof -
  let ?E = "concat (map ep_bytes (aw_eps a))" and ?X = "concat (aw_extra a)"
  let ?D = "interface_bytes (aw_desc a)" and ?z = "zero_interface\<lparr>interfaceDescriptor := aw_desc a\<rparr>"
  have at0: "at b off (?D @ ?X @ ?E @ xs)" using at by (simp add: alt_bytes_def)
  have at1: "at b (off + 9) (?X @ ?E @ xs)" using at_advance[OF at0] by simp
  have at2: "at b (off + 9 + length ?X) (?E @ xs)" by (rule at_advance[OF at1])
  have at3: "at b (off + 9 + length ?X + length ?E) xs" by (rule at_advance[OF at2])
  have ss: "std_start xs" by (rule if_start_std[OF xs])
  have wf: "list_all wf_extra (aw_extra a)" "list_all wf_ep (aw_eps a)" "i_bLength (aw_desc a) = 9"
    "unat (i_bNumEndpoints (aw_desc a)) = length (aw_eps a)"
    using a by (auto simp: wf_alt_def)
  have find: "FindNextDescriptor b (off + 9) (int (length (?X @ ?E @ xs))) = Some (int (length ?X))"
    by (rule FindNext_extras[OF at1 wf(1) std_start_eps[OF wf(2) ss]]) (use len in \<open>simp add: alt_bytes_def\<close>)
  obtain x m1 where x: "(if int (length ?X) \<noteq> 0 then ParseInterfaceCopy os ?z (int (length ?X)) b (off + 9) m
       else Some (HDF_SUCCESS, ?z, m)) =
     Some (HDF_SUCCESS, ?z\<lparr>if_extra := x, if_extraLength := int (length ?X)\<rparr>, m1)"
     "blob_rel (aw_extra a) x (int (length ?X))" "grows m (blob_addrs x) m1"
    using alt_extras_run[OF a at1 os] by auto
  let ?y = "?z\<lparr>if_extra := x, if_extraLength := int (length ?X)\<rparr>"
  obtain r ep m2 where e: "ParseInterfaceEndpoint os ?y b (off + 9 + length ?X) (int (length (?E @ xs))) m1 =
      Some (r, ?y\<lparr>endPoint := ep\<rparr>, off + 9 + length ?X + length ?E, int (length xs), m2)"
      "case ep of None \<Rightarrow> aw_eps a = [] | Some (p, rs) \<Rightarrow> list_all2 ep_rel (aw_eps a) rs"
      "grows m1 (case ep of None \<Rightarrow> [] | Some (a, rs) \<Rightarrow> a # eps_addrs rs) m2" "\<not> ret_neg r"
    using ParseInterfaceEndpoint_run[OF wf(2) at2 ss _ grows_good[OF x(3) os], of ?y] len wf(4)
    by (auto simp: alt_bytes_def zero_interface_def)
  let ?r = "?y\<lparr>endPoint := ep\<rparr>"
  have rel: "alt_rel a ?r" using x(2) e(2) by (simp add: alt_rel_def)
  have gr: "grows m (alt_addrs ?r) m2" using grows_trans[OF x(3) e(3)] by (simp add: alt_addrs_def)
  have parse: "RawParseDescriptor (int (length (alt_bytes a @ xs))) b off
      USB_RAW_INTERFACE_DESCRIPTOR_TYPE zero_interface = Some (HDF_SUCCESS, ?z)"
    using RawParseDescriptor_run[OF a at0] by (simp add: alt_bytes_def)
  have z: "?z\<lparr>if_extra := None, if_extraLength := 0, endPoint := None\<rparr> = ?z"
    by (simp add: zero_interface_def)
  have nxt: "xs \<noteq> [] \<Longrightarrow> rd8 b (off + 9 + length ?X + length ?E + 1) = Some 4 \<and>
      rd8 b (off + 9 + length ?X + length ?E + 2) = Some (xs ! 2) \<and> 9 \<le> length xs"
    using at_rd8[OF at3, of 1] at_rd8[OF at3, of 2] xs by (auto simp: if_start_def)
  have sz: "int (length (alt_bytes a @ xs)) - 9 = int (length (?X @ ?E @ xs))"
    "int (length (?X @ ?E @ xs)) - int (length ?X) = int (length (?E @ xs))"
    "\<not> int (length (alt_bytes a @ xs)) < 9"
    using alt_bytes_nth(3)[OF a] by (simp_all add: alt_bytes_def)
  have off: "off + length (alt_bytes a) = off + 9 + length ?X + length ?E" by (simp add: alt_bytes_def)
  let ?S = "int (length (alt_bytes a @ xs))"
  have once: "ParseInterface_loop os off0 inum ui b off ?S m =
    (let ui' = ui\<lparr>numAltsetting := numAltsetting ui + 1, altsetting := (altsetting ui)[length done := ?r]\<rparr>;
         off' = off + 9 + length ?X + length ?E
     in if int (length xs) < 9 then Some (RetVal (int off' - int off0), ui', m2)
        else do { ty \<leftarrow> rd8 b (off' + 1);
                  if ty \<noteq> 4 then Some (RetVal (int off' - int off0), ui', m2)
                  else do { n \<leftarrow> rd8 b (off' + 2);
                    if n \<noteq> i_bInterfaceNumber (interfaceDescriptor ?z)
                    then Some (RetVal (int off' - int off0), ui', m2)
                    else ParseInterface_loop os off0
                      (int (unat (i_bInterfaceNumber (interfaceDescriptor ?z)))) ui' b off'
                      (int (length xs)) m2 } })"
    unfolding Let_def
    by (rule ParseInterface_loop_once[unfolded Let_def, OF _ ui(2) _ _ z _ _ x(1) _ e(4)])
      (use sz find parse e(1) inum wf(3) ui in \<open>simp_all only: sz\<close>, use sz(3) in simp_all)
  show ?thesis
    using nxt unfolding once
    by (intro exI[of _ ?r] exI[of _ m2] conjI rel gr, cases "xs = []")
      (auto simp: off Let_def ui list_update_append)
qed

text \<open>A run of consecutive alternate settings of one interface.\<close>

lemma if_start_alts:
  assumes "list_all wf_alt as" "if_start xs"
  shows "if_start (concat (map alt_bytes as) @ xs)"
proof (cases as)
  case (Cons a as')
  with assms(1) alt_bytes_nth[of a] show ?thesis by (auto simp: if_start_def nth_append)
qed (use assms in simp)

lemma alts_nth2: "list_all wf_alt (a # as) \<Longrightarrow> (concat (map alt_bytes (a # as)) @ xs) ! 2 = alt_num a"
  using alt_bytes_nth[of a] by (auto simp: nth_append)

lemma ParseInterface_loop_run:
  assumes "list_all wf_alt (a # as)" "\<forall>x \<in> set (a # as). alt_num x = n"
    "at b off (concat (map alt_bytes (a # as)) @ xs)" "if_start xs" "xs \<noteq> [] \<longrightarrow> xs ! 2 \<noteq> n"
    "length (concat (map alt_bytes (a # as)) @ xs) < 2 ^ 31" "good os m"
    "inum = -1 \<or> inum = int (unat n)"
    "altsetting ui = done @ replicate (length (a # as) + k) zero_interface"
    "unat (numAltsetting ui) = length done" "length done + length (a # as) < 256"
  shows "\<exists>rs m'. list_all2 alt_rel (a # as) rs \<and> grows m (concat (map alt_addrs rs)) m' \<and>
    ParseInterface_loop os off0 inum ui b off (int (length (concat (map alt_bytes (a # as)) @ xs))) m =
    Some (RetVal (int (off + length (concat (map alt_bytes (a # as)))) - int off0),
      ui\<lparr>numAltsetting := numAltsetting ui + of_nat (length (a # as)),
         altsetting := done @ rs @ replicate k zero_interface\<rparr>, m')"
  using assms
proof (induction as arbitrary: a off m inum ui "done")
  case Nil
  have at: "at b off (alt_bytes a @ xs)" and ui: "altsetting ui = done @ zero_interface # replicate k zero_interface"
    using Nil by simp_all
  obtain r m' where r: "alt_rel a r" "grows m (alt_addrs r) m'"
    "ParseInterface_loop os off0 inum ui b off (int (length (alt_bytes a @ xs))) m =
    (let ui' = ui\<lparr>numAltsetting := numAltsetting ui + 1, altsetting := done @ r # replicate k zero_interface\<rparr>;
         off' = off + length (alt_bytes a)
     in if xs \<noteq> [] \<and> xs ! 2 = alt_num a
        then ParseInterface_loop os off0 (int (unat (alt_num a))) ui' b off' (int (length xs)) m'
        else Some (RetVal (int off' - int off0), ui', m'))"
    using ParseInterface_step[OF _ at Nil.prems(4) _ Nil.prems(7) _ ui Nil.prems(10), of inum off0] Nil.prems
    by auto
  then show ?case
    using Nil.prems(2,5) by (intro exI[of _ "[r]"] exI[of _ m']) (auto simp: Let_def)
next
  case (Cons a' as)
  let ?ys = "concat (map alt_bytes (a' # as)) @ xs" and ?k = "length (a' # as) + k"
  have wf: "wf_alt a" "list_all wf_alt (a' # as)" using Cons.prems(1) by auto
  have at: "at b off (alt_bytes a @ ?ys)" using Cons.prems(3) by simp
  have st: "if_start ?ys" by (rule if_start_alts[OF wf(2) Cons.prems(4)])
  have ui: "altsetting ui = done @ zero_interface # replicate ?k zero_interface" using Cons.prems(9) by simp
  have len: "length (alt_bytes a @ ?ys) < 2 ^ 31" using Cons.prems(6) by simp
  have num: "alt_num a = n" "?ys ! 2 = n" "?ys \<noteq> []"
    using Cons.prems(2) alts_nth2[OF wf(2)] alt_bytes_nth(4)[of a'] wf(2) by auto
  have inum: "inum = -1 \<or> inum = int (unat (alt_num a))" using Cons.prems(8) num by simp
  obtain r m1 where r: "alt_rel a r" "grows m (alt_addrs r) m1"
    "ParseInterface_loop os off0 inum ui b off (int (length (alt_bytes a @ ?ys))) m =
    (let ui' = ui\<lparr>numAltsetting := numAltsetting ui + 1, altsetting := done @ r # replicate ?k zero_interface\<rparr>;
         off' = off + length (alt_bytes a)
     in if ?ys \<noteq> [] \<and> ?ys ! 2 = alt_num a
        then ParseInterface_loop os off0 (int (unat (alt_num a))) ui' b off' (int (length ?ys)) m1
        else Some (RetVal (int off' - int off0), ui', m1))"
    using ParseInterface_step[OF wf(1) at st len Cons.prems(7) inum ui Cons.prems(10), of off0] by metis
  let ?ui = "ui\<lparr>numAltsetting := numAltsetting ui + 1, altsetting := done @ r # replicate ?k zero_interface\<rparr>"
  have n1: "unat (numAltsetting ?ui) = length (done @ [r])"
    using unat_add_of_nat[of "numAltsetting ui" 1] Cons.prems(10,11) by simp
  have ui1: "altsetting ?ui = (done @ [r]) @ replicate ?k zero_interface" by simp
  obtain rs m' where rs: "list_all2 alt_rel (a' # as) rs" "grows m1 (concat (map alt_addrs rs)) m'"
    "ParseInterface_loop os off0 (int (unat n)) ?ui b (off + length (alt_bytes a)) (int (length ?ys)) m1 =
    Some (RetVal (int (off + length (alt_bytes a) + length (concat (map alt_bytes (a' # as)))) - int off0),
      ?ui\<lparr>numAltsetting := numAltsetting ?ui + of_nat (length (a' # as)),
         altsetting := (done @ [r]) @ rs @ replicate k zero_interface\<rparr>, m')"
    using Cons.IH[OF wf(2) _ at_advance[OF at] Cons.prems(4,5) _ grows_good[OF r(2) Cons.prems(7)] _ ui1 n1,
        of "int (unat n)"] Cons.prems(2,6,11) by auto
  have loop: "ParseInterface_loop os off0 inum ui b off (int (length (alt_bytes a @ ?ys))) m =
      ParseInterface_loop os off0 (int (unat n)) ?ui b (off + length (alt_bytes a)) (int (length ?ys)) m1"
    using r(3) num by (simp add: Let_def)
  have S: "length (concat (map alt_bytes (a # a' # as)) @ xs) = length (alt_bytes a @ ?ys)" by simp
  have gr: "grows m (concat (map alt_addrs (r # rs))) m'" using grows_trans[OF r(2) rs(2)] by simp
  show ?case
    unfolding S loop rs(3)
    using r(1) rs(1) gr by (intro exI[of _ "r # rs"] exI[of _ m']) (simp add: add.assoc)
qed

lemma ParseInterface_run:
  assumes "list_all wf_alt (a # as)" "\<forall>x \<in> set (a # as). alt_num x = n"
    "at b off (concat (map alt_bytes (a # as)) @ xs)" "if_start xs" "xs \<noteq> [] \<longrightarrow> xs ! 2 \<noteq> n"
    "length (concat (map alt_bytes (a # as)) @ xs) < 2 ^ 31" "good os m"
    "altsetting ui = done @ replicate (length (a # as) + k) zero_interface"
    "unat (numAltsetting ui) = length done" "length done + length (a # as) \<le> 128"
  shows "\<exists>rs m'. list_all2 alt_rel (a # as) rs \<and> grows m (concat (map alt_addrs rs)) m' \<and>
    ParseInterface os (Some ui) b off (int (length (concat (map alt_bytes (a # as)) @ xs))) m =
    Some (RetVal (int (length (concat (map alt_bytes (a # as))))),
      Some (ui\<lparr>numAltsetting := numAltsetting ui + of_nat (length (a # as)),
         altsetting := done @ rs @ replicate k zero_interface\<rparr>), m')"
proof -
  obtain rs m' where "list_all2 alt_rel (a # as) rs" "grows m (concat (map alt_addrs rs)) m'"
    "ParseInterface_loop os off (-1) ui b off (int (length (concat (map alt_bytes (a # as)) @ xs))) m =
    Some (RetVal (int (off + length (concat (map alt_bytes (a # as)))) - int off),
      ui\<lparr>numAltsetting := numAltsetting ui + of_nat (length (a # as)),
         altsetting := done @ rs @ replicate k zero_interface\<rparr>, m')"
    using ParseInterface_loop_run[OF assms(1-7) _ assms(8,9), of "-1" off] assms(10) by auto
  with assms(9,10) show ?thesis
    by (intro exI[of _ rs] exI[of _ m']) (simp add: ParseInterface_def)
qed

end
