(* ===== verification/Usb_Descriptor_Config.thy ===== *)
theory Usb_Descriptor_Config
  imports Usb_Descriptor_Roundtrip
begin

text \<open>
  The configuration level of the parser: counting the interfaces and their alternate settings,
  allocating them, the loop over the interfaces, and the round-trip theorem for \<open>DescToConfig\<close>.
\<close>

subsection \<open>Counting the interfaces\<close>

text \<open>The effect of one interface descriptor on the scan, as a function of its number.\<close>

definition scan_step :: "u8 \<Rightarrow> intf_scan \<Rightarrow> intf_scan" where
  "scan_step n s =
     (case find_index (\<lambda>x. x = n) (take (scan_num s) (nIntf s)) of
        Some i \<Rightarrow> if unat (nAlts s ! i) < 128 then s\<lparr>nAlts := (nAlts s)[i := nAlts s ! i + 1]\<rparr> else s
      | None \<Rightarrow> if scan_num s < 32
                then s\<lparr>nIntf := (nIntf s)[scan_num s := n], nAlts := (nAlts s)[scan_num s := 1],
                       scan_num := Suc (scan_num s)\<rparr>
                else s)"

definition scan_desc :: "u8 list \<Rightarrow> intf_scan \<Rightarrow> intf_scan" where
  "scan_desc d s = (if d ! 1 = 4 then scan_step (d ! 2) s else s)"

definition wf_desc :: "u8 list \<Rightarrow> bool" where
  "wf_desc d \<longleftrightarrow> 2 \<le> length d \<and> unat (d ! 0) = length d \<and> (d ! 1 = 4 \<longrightarrow> 9 \<le> length d)"

lemma GetInterfaceNumber_fold:
  "at b off (concat ds) \<Longrightarrow> list_all wf_desc ds \<Longrightarrow>
   GetInterfaceNumber b off (length (concat ds)) s = Some (fold scan_desc ds s)"
proof (induction ds arbitrary: off s)
  case Nil
  then show ?case by (simp add: GetInterfaceNumber.simps)
next
  case (Cons d ds)
  have d: "2 \<le> length d" "unat (d ! 0) = length d" "d ! 1 = 4 \<longrightarrow> 9 \<le> length d"
    using Cons.prems(2) by (auto simp: wf_desc_def)
  have at: "at b off (d @ concat ds)" using Cons.prems(1) by simp
  have r: "rd8 b off = Some (d ! 0)" "rd8 b (off + 1) = Some (d ! 1)"
    "d ! 1 = 4 \<Longrightarrow> rd8 b (off + 2) = Some (d ! 2)"
    using at_rd8_app[OF at, of 0] at_rd8_app[OF at, of 1] at_rd8_app[OF at, of 2] d by fastforce+
  have des: "d ! 1 = 4 \<Longrightarrow> GetInterfaceNumberDes b off s = Some (scan_step (d ! 2) s)"
    using r d by (simp add: GetInterfaceNumberDes_def scan_step_def split: option.splits)
  have ih: "GetInterfaceNumber b (off + length d) (length (concat ds)) (scan_desc d s) =
      Some (fold scan_desc ds (scan_desc d s))"
    by (rule Cons.IH[OF at_advance[OF at]]) (use Cons.prems in simp)
  show ?case
    by (subst GetInterfaceNumber.simps) (use d r des ih in \<open>auto simp: scan_desc_def\<close>)
qed

definition ep_descs :: "ep_wire \<Rightarrow> u8 list list" where
  "ep_descs e = ep_head e # ew_extra e"

definition alt_descs :: "alt_wire \<Rightarrow> u8 list list" where
  "alt_descs a = interface_bytes (aw_desc a) # aw_extra a @ concat (map ep_descs (aw_eps a))"

definition conf_descs :: "conf_wire \<Rightarrow> u8 list list" where
  "conf_descs c = config_bytes (cw_desc c) # cw_extra c @ concat (map alt_descs (cw_alts c))"

lemma concat_ep_descs: "concat (concat (map ep_descs es)) = concat (map ep_bytes es)"
  by (induction es) (simp_all add: ep_descs_def ep_bytes_def)

lemma concat_alt_descs: "concat (concat (map alt_descs as)) = concat (map alt_bytes as)"
  by (induction as) (simp_all add: alt_descs_def alt_bytes_def concat_ep_descs)

lemma concat_conf_descs: "concat (conf_descs c) = conf_bytes c"
  by (simp add: conf_descs_def conf_bytes_def concat_alt_descs)

lemma wf_extra_desc: "list_all wf_extra ds \<Longrightarrow> list_all wf_desc ds"
  by (auto simp: list_all_iff wf_extra_def wf_desc_def)

lemma scan_skip: "(\<And>d. d \<in> set ds \<Longrightarrow> d ! 1 \<noteq> 4) \<Longrightarrow> fold scan_desc ds s = s"
  by (induction ds arbitrary: s) (auto simp: scan_desc_def)

lemma wf_ep_descs:
  assumes "wf_ep e"
  shows "list_all wf_desc (ep_descs e)" "d \<in> set (ep_descs e) \<Longrightarrow> d ! 1 \<noteq> 4"
proof -
  have "wf_desc (ep_head e)"
    using ep_head_nth[OF assms] ep_head_length[OF assms] by (auto simp: wf_desc_def)
  then show "list_all wf_desc (ep_descs e)"
    using assms wf_extra_desc by (auto simp: ep_descs_def wf_ep_def)
  show "d \<in> set (ep_descs e) \<Longrightarrow> d ! 1 \<noteq> 4"
    using assms ep_head_nth[OF assms] by (auto simp: ep_descs_def wf_ep_def list_all_iff wf_extra_def)
qed

lemma wf_alt_descs:
  assumes "wf_alt a"
  shows "list_all wf_desc (alt_descs a)" "fold scan_desc (alt_descs a) s = scan_step (alt_num a) s"
proof -
  let ?D = "interface_bytes (aw_desc a)"
  have D: "wf_desc ?D" "?D ! 1 = 4" "?D ! 2 = alt_num a"
    using assms by (auto simp: wf_alt_def wf_desc_def interface_bytes_def)
  have eps: "\<forall>e \<in> set (aw_eps a). wf_ep e" and x: "list_all wf_extra (aw_extra a)"
    using assms by (auto simp: wf_alt_def list_all_iff)
  show "list_all wf_desc (alt_descs a)"
    using D(1) wf_ep_descs(1) eps wf_extra_desc[OF x] by (auto simp: alt_descs_def list_all_iff)
  have "fold scan_desc (aw_extra a @ concat (map ep_descs (aw_eps a))) s' = s'" for s'
    by (rule scan_skip) (use x eps wf_ep_descs(2) in \<open>auto simp: list_all_iff wf_extra_def\<close>)
  then show "fold scan_desc (alt_descs a) s = scan_step (alt_num a) s"
    using D by (simp add: alt_descs_def scan_desc_def del: fold_append)
qed

lemma fold_alts_descs:
  "list_all wf_alt as \<Longrightarrow>
   fold scan_desc (concat (map alt_descs as)) s = fold scan_step (map alt_num as) s"
  by (induction as arbitrary: s) (simp_all add: wf_alt_descs)

lemma GetInterfaceNumber_conf:
  assumes "wf_conf c"
  shows "GetInterfaceNumber (conf_bytes c) 0 (length (conf_bytes c)) s =
    Some (fold scan_step (map alt_num (cw_alts c)) s)"
proof -
  let ?D = "config_bytes (cw_desc c)"
  have D: "wf_desc ?D" "?D ! 1 \<noteq> 4"
    using assms by (auto simp: wf_conf_def wf_desc_def config_bytes_def le16_bytes_def)
  have x: "list_all wf_extra (cw_extra c)" and as: "list_all wf_alt (cw_alts c)"
    using assms by (auto simp: wf_conf_def)
  have "list_all wf_desc (concat (map alt_descs (cw_alts c)))"
    using as wf_alt_descs(1) by (auto simp: list_all_iff)
  then have wf: "list_all wf_desc (conf_descs c)"
    using D(1) wf_extra_desc[OF x] by (simp add: conf_descs_def)
  have "fold scan_desc (?D # cw_extra c) s = s"
    by (rule scan_skip) (use D x in \<open>auto simp: list_all_iff wf_extra_def\<close>)
  then have "fold scan_desc (conf_descs c) s = fold scan_step (map alt_num (cw_alts c)) s"
    using fold_alts_descs[OF as, of s] by (simp add: conf_descs_def)
  moreover have "at (conf_bytes c) 0 (concat (conf_descs c))"
    by (simp add: at_def concat_conf_descs)
  ultimately show ?thesis
    using GetInterfaceNumber_fold[OF _ wf, of "conf_bytes c" 0 s] by (simp add: concat_conf_descs)
qed

text \<open>The scan records the distinct interface numbers with their multiplicities.\<close>

lemma firsts_acc_app: "firsts_acc acc (xs @ ys) = firsts_acc (firsts_acc acc xs) ys"
  by (induction xs arbitrary: acc) auto

lemma firsts_acc_set: "set (firsts_acc acc xs) = set acc \<union> set xs"
  by (induction xs arbitrary: acc) auto

lemma firsts_acc_distinct: "distinct acc \<Longrightarrow> distinct (firsts_acc acc xs)"
  by (induction xs arbitrary: acc) auto

lemma firsts_acc_length: "length acc \<le> length (firsts_acc acc xs)"
proof (induction xs arbitrary: acc)
  case (Cons x xs)
  show ?case using Cons.IH[of acc] Cons.IH[of "acc @ [x]"] by auto
qed simp

definition scan_of :: "u8 list \<Rightarrow> intf_scan" where
  "scan_of ns = (let f = firsts_acc [] ns; k = 32 - length f in
     \<lparr>nIntf = f @ replicate k 0, nAlts = map (\<lambda>x. of_nat (count_list ns x)) f @ replicate k 0,
      scan_num = length f\<rparr>)"

lemma scan_step_of:
  assumes "length (firsts_acc [] (ns @ [n])) \<le> 32" "count_list (ns @ [n]) n \<le> 128"
  shows "scan_step n (scan_of ns) = scan_of (ns @ [n])"
proof -
  let ?f = "firsts_acc [] ns"
  have dist: "distinct ?f" and set: "set ?f = set ns"
    by (simp_all add: firsts_acc_distinct firsts_acc_set)
  show ?thesis
  proof (cases "n \<in> set ?f")
    case True
    then obtain i where i: "i < length ?f" "?f ! i = n" by (auto simp: in_set_conv_nth)
    have idx: "find_index (\<lambda>x. x = n) ?f = Some i"
      using find_index_distinct[OF dist i(1)] i(2) by simp
    have cnt: "unat (of_nat (count_list ns n) :: u8) = count_list ns n"
      by (rule unat_of_nat_small) (use assms(2) in simp)
    have upd: "(map (\<lambda>x. of_nat (count_list ns x) :: u8) ?f)[i := of_nat (count_list ns n) + 1] =
        map (\<lambda>x. of_nat (count_list (ns @ [n]) x)) ?f"
      by (rule nth_equalityI)
        (use i dist in \<open>auto simp: nth_list_update nth_eq_iff_index_eq count_list_append\<close>)
    show ?thesis
      using True idx i cnt assms(2) upd
      by (simp add: scan_step_def scan_of_def Let_def firsts_acc_app nth_append list_update_append
          count_list_append)
  next
    case False
    then have idx: "find_index (\<lambda>x. x = n) ?f = None" by (auto simp: find_index_None)
    have lt: "length ?f < 32" using assms(1) False by (simp add: firsts_acc_app)
    then obtain k where k: "32 - length ?f = Suc k" by (metis Suc_diff_Suc)
    have zero: "count_list ns n = 0" using False set by (simp add: count_list_0_iff)
    have old: "map (\<lambda>x. of_nat (count_list ns x) :: u8) ?f = map (\<lambda>x. of_nat (count_list (ns @ [n]) x)) ?f"
      using False by (auto simp: count_list_append)
    have "32 - Suc (length ?f) = k" using k by simp
    with False idx lt k zero old show ?thesis
      by (simp add: scan_step_def scan_of_def Let_def firsts_acc_app list_update_append
          count_list_append)
  qed
qed

lemma scan_fold:
  assumes "length (firsts_acc [] ns) \<le> 32" "\<forall>n \<in> set ns. count_list ns n \<le> 128"
  shows "fold scan_step ns scan_init = scan_of ns"
  using assms
proof (induction ns rule: rev_induct)
  case Nil
  then show ?case by (simp add: scan_init_def scan_of_def)
next
  case (snoc n ns)
  have "length (firsts_acc [] ns) \<le> 32"
    using snoc.prems(1) firsts_acc_length[of "firsts_acc [] ns" "[n]"] by (simp only: firsts_acc_app)
  moreover have "\<forall>x \<in> set ns. count_list ns x \<le> 128"
  proof
    fix x assume "x \<in> set ns"
    then have "count_list (ns @ [n]) x \<le> 128" using snoc.prems(2) by simp
    then show "count_list ns x \<le> 128" by (simp add: count_list_append split: if_splits)
  qed
  ultimately have "fold scan_step ns scan_init = scan_of ns" by (rule snoc.IH)
  then show ?case using scan_step_of[of ns n] snoc.prems by simp
qed

subsection \<open>Allocating the interfaces\<close>

lemma alt_addrs_zero [simp]: "alt_addrs zero_interface = []"
  by (simp add: alt_addrs_def zero_interface_def)

lemma concat_alt_addrs_zero [simp]: "concat (map alt_addrs (replicate k zero_interface)) = []"
  by (induction k) simp_all

definition fresh_iface :: "nat \<Rightarrow> UsbRawInterface \<Rightarrow> bool" where
  "fresh_iface j u \<longleftrightarrow> numAltsetting u = 0 \<and> altsetting u = replicate j zero_interface"

lemma alloc_interfaces_run:
  assumes "good os m" "length pre = i" "\<forall>j < k. unat (alts ! (i + j)) \<le> 128"
  shows "\<exists>new m'. alloc_interfaces os k i alts (pre @ replicate (k + r) None) m =
      Some (True, pre @ map Some new @ replicate r None, m') \<and> length new = k \<and>
      (\<forall>j < k. fresh_iface (unat (alts ! (i + j))) (new ! j)) \<and> grows m (map ri_self new) m'"
  using assms
proof (induction k arbitrary: i pre m)
  case 0
  then show ?case by simp
next
  case (Suc k)
  let ?j = "unat (alts ! i)"
  have j: "?j \<le> 128" using Suc.prems(3) by (auto dest: spec[of _ 0])
  obtain a m1 where a: "RawUsbMemCalloc os (sizeof_RawInterface + sizeof_RawInterfaceDescriptor * ?j) m =
      Some (Some a, m1)" "grows m [a] m1"
    using good_calloc[OF Suc.prems(1), of "sizeof_RawInterface + sizeof_RawInterfaceDescriptor * ?j"]
    by (auto simp: sizeof_RawInterface_def)
  let ?u = "\<lparr>ri_self = a, numAltsetting = 0, altsetting = replicate ?j zero_interface\<rparr>"
  have "\<forall>x < k. unat (alts ! (Suc i + x)) \<le> 128" using Suc.prems(3) by (metis Suc_less_eq add_Suc_shift)
  then obtain new m' where n: "alloc_interfaces os k (Suc i) alts ((pre @ [Some ?u]) @ replicate (k + r) None) m1 =
      Some (True, (pre @ [Some ?u]) @ map Some new @ replicate r None, m')" "length new = k"
      "\<forall>x < k. fresh_iface (unat (alts ! (Suc i + x))) (new ! x)" "grows m1 (map ri_self new) m'"
    using Suc.IH[OF grows_good[OF a(2) Suc.prems(1)], of "pre @ [Some ?u]" "Suc i"] Suc.prems(2) by auto
  have "\<forall>x < Suc k. fresh_iface (unat (alts ! (i + x))) ((?u # new) ! x)"
    using n(3) by (auto simp: fresh_iface_def less_Suc_eq_0_disj)
  moreover have "grows m (map ri_self (?u # new)) m'" using grows_trans[OF a(2) n(4)] by simp
  ultimately show ?case
    using a(1) n(1,2) j Suc.prems(2)
    by (intro exI[of _ "?u # new"] exI[of _ m'])
      (simp add: min_def list_update_append)
qed

subsection \<open>The loop over the interfaces\<close>

text \<open>
  After the alternate settings \<open>pre\<close> have been parsed, the slot of interface \<open>n\<close> holds those of
  them that belong to it, followed by unused entries up to the number counted by the scan.
\<close>

definition iface_inv :: "u8 \<Rightarrow> alt_wire list \<Rightarrow> nat \<Rightarrow> UsbRawInterface \<Rightarrow> bool" where
  "iface_inv n pre tot u \<longleftrightarrow> (\<exists>rs k. altsetting u = rs @ replicate k zero_interface \<and>
     unat (numAltsetting u) = length rs \<and> length rs + k = tot \<and>
     list_all2 alt_rel (filter (\<lambda>a. alt_num a = n) pre) rs)"

definition conf_inv :: "alt_wire list \<Rightarrow> u8 list \<Rightarrow> alt_wire list \<Rightarrow> UsbRawInterface option list \<Rightarrow> bool" where
  "conf_inv alts nums pre us \<longleftrightarrow> length us = 32 \<and>
     (\<forall>i < length nums. \<exists>u. us ! i = Some u \<and>
        iface_inv (nums ! i) pre (count_list (map alt_num alts) (nums ! i)) u) \<and>
     (\<forall>i. length nums \<le> i \<longrightarrow> i < 32 \<longrightarrow> us ! i = None)"

lemma count_filter: "count_list (map f xs) n = length (filter (\<lambda>a. f a = n) xs)"
  by (induction xs) auto

lemma conf_inv_update:
  assumes "conf_inv alts nums pre us" "distinct nums" "i < length nums" "length nums \<le> 32"
    "\<forall>a \<in> set run. alt_num a = nums ! i"
    "iface_inv (nums ! i) (pre @ run) (count_list (map alt_num alts) (nums ! i)) u"
  shows "conf_inv alts nums (pre @ run) (us[i := Some u])"
proof -
  have "iface_inv (nums ! j) (pre @ run) t v = iface_inv (nums ! j) pre t v"
    if "j \<noteq> i" "j < length nums" for j t v
  proof -
    have "filter (\<lambda>a. alt_num a = nums ! j) run = []"
      using assms(2,3,5) that by (auto simp: filter_empty_conv nth_eq_iff_index_eq)
    then show ?thesis by (simp add: iface_inv_def)
  qed
  with assms show ?thesis
    by (auto simp: conf_inv_def nth_list_update)
qed

definition slot_addrs :: "UsbRawInterface option \<Rightarrow> ptr list" where
  "slot_addrs x = (case x of None \<Rightarrow> [] | Some u \<Rightarrow> iface_addrs u)"

lemma slot_addrs_simps [simp]: "slot_addrs None = []" "slot_addrs (Some u) = iface_addrs u"
  by (simp_all add: slot_addrs_def)

lemma conf_addrs_slots: "conf_addrs c = blob_addrs (cf_extra c) @ concat (map slot_addrs (interface c))"
  by (simp add: conf_addrs_def slot_addrs_def[abs_def])

lemma slot_addrs_update:
  assumes "i < length us" "mset (slot_addrs x) = mset (slot_addrs (us ! i)) + mset new"
  shows "mset (concat (map slot_addrs (us[i := x]))) = mset (concat (map slot_addrs us)) + mset new"
proof -
  have us: "us = take i us @ us ! i # drop (Suc i) us" using assms(1) by (rule id_take_nth_drop)
  have "mset (concat (map slot_addrs (take i us @ x # drop (Suc i) us))) =
      mset (concat (map slot_addrs (take i us @ us ! i # drop (Suc i) us))) + mset new"
    by (simp add: assms(2) ac_simps)
  then show ?thesis
    using us upd_conv_take_nth_drop[OF assms(1), of x] by metis
qed

lemma iface_inv_room:
  assumes inv: "iface_inv n pre (count_list (map alt_num alts) n) u"
    and alts: "alts = pre @ run @ post" and num: "\<forall>a \<in> set run. alt_num a = n"
    and cnt: "count_list (map alt_num alts) n \<le> 128"
  obtains rs k where "altsetting u = rs @ replicate (length run + k) zero_interface"
    "unat (numAltsetting u) = length rs" "length rs + length run + k = count_list (map alt_num alts) n"
    "length rs + length run \<le> 128" "list_all2 alt_rel (filter (\<lambda>a. alt_num a = n) pre) rs"
proof -
  obtain rs k where r: "altsetting u = rs @ replicate k zero_interface"
      "unat (numAltsetting u) = length rs" "length rs + k = count_list (map alt_num alts) n"
      "list_all2 alt_rel (filter (\<lambda>a. alt_num a = n) pre) rs"
    using inv by (auto simp: iface_inv_def)
  have "length rs = length (filter (\<lambda>a. alt_num a = n) pre)" using list_all2_lengthD[OF r(4)] by simp
  moreover have "filter (\<lambda>a. alt_num a = n) run = run" using num by (simp add: filter_id_conv)
  ultimately have "length run \<le> k" using r(3) alts by (simp add: count_filter)
  then obtain k' where k': "k = length run + k'" using le_Suc_ex by blast
  show thesis by (rule that[of rs k']) (use r k' cnt in auto)
qed

text \<open>One iteration of \<open>ParseConfigurationDes_loop\<close>, for a run of alternates of one interface.\<close>

lemma run_step:
  assumes inv: "conf_inv alts nums pre (interface c)" and alts: "alts = pre @ (a # as) @ post"
    and wf: "list_all wf_alt alts" and nums: "distinct nums" "length nums \<le> 32" "i < length nums"
    and num: "\<forall>x \<in> set (a # as). alt_num x = nums ! i"
    and post: "post \<noteq> [] \<longrightarrow> alt_num (post ! 0) \<noteq> nums ! i"
    and cnt: "count_list (map alt_num alts) (nums ! i) \<le> 128"
    and at: "at b off (concat (map alt_bytes ((a # as) @ post)))"
    and len: "length (concat (map alt_bytes ((a # as) @ post))) < 2 ^ 31"
    and os: "good os m" and gr: "grows m0 (conf_addrs c) m"
  shows "\<exists>u m'. ParseInterface os (interface c ! i) b off
        (int (length (concat (map alt_bytes ((a # as) @ post))))) m =
      Some (RetVal (int (length (concat (map alt_bytes (a # as))))), Some u, m') \<and>
    conf_inv alts nums (pre @ a # as) ((interface c)[i := Some u]) \<and>
    grows m0 (conf_addrs (c\<lparr>interface := (interface c)[i := Some u]\<rparr>)) m' \<and> good os m'"
proof -
  let ?run = "a # as" and ?xs = "concat (map alt_bytes post)"
  have wfr: "list_all wf_alt ?run" "list_all wf_alt post" using wf alts by auto
  obtain u where u: "interface c ! i = Some u" "iface_inv (nums ! i) pre (count_list (map alt_num alts) (nums ! i)) u"
    using inv nums(3) by (auto simp: conf_inv_def)
  obtain rs k where r: "altsetting u = rs @ replicate (length ?run + k) zero_interface"
    "unat (numAltsetting u) = length rs"
    "length rs + length ?run + k = count_list (map alt_num alts) (nums ! i)"
    "length rs + length ?run \<le> 128" "list_all2 alt_rel (filter (\<lambda>a. alt_num a = nums ! i) pre) rs"
    using iface_inv_room[OF u(2) alts num cnt] by blast
  have st: "if_start ?xs" using if_start_alts[OF wfr(2), of "[]"] by (simp add: if_start_def)
  have nx: "?xs \<noteq> [] \<longrightarrow> ?xs ! 2 \<noteq> nums ! i"
    using post alts_nth2[of "hd post" "tl post" "[]"] wfr(2) by (cases post) auto
  have at': "at b off (concat (map alt_bytes ?run) @ ?xs)" using at by simp
  obtain rs' m' where p: "list_all2 alt_rel ?run rs'" "grows m (concat (map alt_addrs rs')) m'"
    "ParseInterface os (Some u) b off (int (length (concat (map alt_bytes ?run) @ ?xs))) m =
    Some (RetVal (int (length (concat (map alt_bytes ?run)))),
      Some (u\<lparr>numAltsetting := numAltsetting u + of_nat (length ?run),
         altsetting := rs @ rs' @ replicate k zero_interface\<rparr>), m')"
    using ParseInterface_run[OF wfr(1) num at' st nx _ os r(1,2,4)] len by auto
  let ?u = "u\<lparr>numAltsetting := numAltsetting u + of_nat (length ?run),
         altsetting := rs @ rs' @ replicate k zero_interface\<rparr>"
  have l: "length rs' = length ?run" using list_all2_lengthD[OF p(1)] by simp
  have fr: "filter (\<lambda>a. alt_num a = nums ! i) ?run = ?run" using num by (simp add: filter_id_conv)
  have un: "unat (numAltsetting u + of_nat (length ?run)) = length rs + length ?run"
    using r(2,4) by (simp only: unat_add_of_nat) simp
  have "iface_inv (nums ! i) (pre @ ?run) (count_list (map alt_num alts) (nums ! i)) ?u"
    unfolding iface_inv_def
    by (rule exI[of _ "rs @ rs'"], rule exI[of _ k], simp only: filter_append fr)
      (use un r(3,5) l p(1) in \<open>auto intro: list_all2_appendI\<close>)
  then have inv': "conf_inv alts nums (pre @ ?run) ((interface c)[i := Some ?u])"
    by (rule conf_inv_update[OF inv nums(1,3,2) num])
  have "mset (slot_addrs (Some ?u)) = mset (slot_addrs (interface c ! i)) + mset (concat (map alt_addrs rs'))"
    by (simp add: u(1) iface_addrs_def r(1))
  then have "mset (concat (map slot_addrs ((interface c)[i := Some ?u]))) =
      mset (concat (map slot_addrs (interface c))) + mset (concat (map alt_addrs rs'))"
    using inv nums(2,3) by (intro slot_addrs_update) (auto simp: conf_inv_def)
  then have "grows m0 (conf_addrs (c\<lparr>interface := (interface c)[i := Some ?u]\<rparr>)) m'"
    by (intro grows_perm[OF grows_trans[OF gr p(2)]]) (simp add: conf_addrs_slots)
  with p(3) u(1) inv' grows_good[OF p(2) os] show ?thesis
    by (intro exI[of _ ?u] exI[of _ m']) simp
qed

lemma ParseConfigurationDes_loop_run:
  assumes "conf_inv alts nums pre (interface c)" "alts = pre @ post"
    "list_all wf_alt alts" "nums = firsts_acc [] (map alt_num alts)" "length nums \<le> 32"
    "\<forall>n \<in> set nums. count_list (map alt_num alts) n \<le> 128"
    "at b off (concat (map alt_bytes post))" "length (concat (map alt_bytes post)) < 2 ^ 31"
    "good os m" "grows m0 (conf_addrs c) m"
    "c_bNumInterfaces (configDescriptor c) = of_nat (length nums)" "take (length nums) tab = nums"
  shows "\<exists>us m'. ParseConfigurationDes_loop os c b off (int (length (concat (map alt_bytes post)))) cur tab m =
      Some (RetVal 0, c\<lparr>interface := us\<rparr>, m') \<and> conf_inv alts nums alts us \<and>
      grows m0 (conf_addrs (c\<lparr>interface := us\<rparr>)) m'"
  using assms
proof (induction "length post" arbitrary: post pre c off cur m rule: less_induct)
  case less
  show ?case
  proof (cases post)
    case Nil
    with less.prems show ?thesis
      by (intro exI[of _ "interface c"] exI[of _ m]) (simp add: ParseConfigurationDes_loop.simps)
  next
    case (Cons a rest)
    let ?P = "\<lambda>x. alt_num x = alt_num a"
    let ?as = "takeWhile ?P rest" and ?post = "dropWhile ?P rest"
    have post: "post = (a # ?as) @ ?post" using Cons by simp
    have dist: "distinct nums" using less.prems(4) by (simp add: firsts_acc_distinct)
    have "alt_num a \<in> set nums" using less.prems(2,4) Cons by (simp add: firsts_acc_set)
    then obtain i where i: "i < length nums" "nums ! i = alt_num a" by (auto simp: in_set_conv_nth)
    have alts: "alts = pre @ (a # ?as) @ ?post" using less.prems(2) post by simp
    have num: "\<forall>x \<in> set (a # ?as). alt_num x = nums ! i" using i by (auto dest: set_takeWhileD)
    have nx: "?post \<noteq> [] \<longrightarrow> alt_num (?post ! 0) \<noteq> nums ! i"
      using i hd_dropWhile[of ?P rest] by (auto simp: hd_conv_nth)
    have cnt: "count_list (map alt_num alts) (nums ! i) \<le> 128" using less.prems(6) i(1) by simp
    obtain u m' where p: "ParseInterface os (interface c ! i) b off (int (length (concat (map alt_bytes post)))) m =
        Some (RetVal (int (length (concat (map alt_bytes (a # ?as))))), Some u, m')"
      "conf_inv alts nums (pre @ a # ?as) ((interface c)[i := Some u])"
      "grows m0 (conf_addrs (c\<lparr>interface := (interface c)[i := Some u]\<rparr>)) m'" "good os m'"
      using run_step[OF less.prems(1) alts less.prems(3) dist less.prems(5) i(1) num nx cnt _ _ less.prems(9,10)]
        less.prems(7,8) unfolding post[symmetric] by blast
    let ?c = "c\<lparr>interface := (interface c)[i := Some u]\<rparr>"
    let ?off = "off + length (concat (map alt_bytes (a # ?as)))"
    have B: "concat (map alt_bytes post) = concat (map alt_bytes (a # ?as)) @ concat (map alt_bytes ?post)"
      by (subst post) (simp only: map_append concat_append)
    have at: "at b ?off (concat (map alt_bytes ?post))"
      by (rule at_advance) (use less.prems(7) in \<open>simp only: B\<close>)
    have L: "length (concat (map alt_bytes post)) =
        length (concat (map alt_bytes (a # ?as))) + length (concat (map alt_bytes ?post))"
      by (simp only: B length_append)
    have "\<exists>us m''. ParseConfigurationDes_loop os ?c b ?off (int (length (concat (map alt_bytes ?post)))) (Some i) tab m' =
      Some (RetVal 0, ?c\<lparr>interface := us\<rparr>, m'') \<and> conf_inv alts nums alts us \<and>
      grows m0 (conf_addrs (?c\<lparr>interface := us\<rparr>)) m''"
      by (rule less.hyps[OF _ _ _ less.prems(3-6) at _ p(4,3) _ less.prems(12)])
        (use p(2) alts less.prems(8,11) L Cons in \<open>auto intro: le_imp_less_Suc length_dropWhile_le\<close>)
    then obtain us m'' where ih: "ParseConfigurationDes_loop os ?c b ?off
        (int (length (concat (map alt_bytes ?post)))) (Some i) tab m' =
      Some (RetVal 0, c\<lparr>interface := us\<rparr>, m'')" "conf_inv alts nums alts us"
      "grows m0 (conf_addrs (c\<lparr>interface := us\<rparr>)) m''"
      by auto
    have wfa: "wf_alt a" using less.prems(2,3) Cons by simp
    have at0: "at b off (alt_bytes a @ concat (map alt_bytes rest))" using less.prems(7) Cons by simp
    have rd: "rd8 b (off + 2) = Some (alt_num a)"
      using at_rd8_app[OF at0, of 2] alt_bytes_nth[OF wfa] by fastforce
    have idx: "find_index (\<lambda>x. x = alt_num a) nums = Some i"
      using find_index_distinct[OF dist i(1)] i(2) by simp
    have N: "unat (c_bNumInterfaces (configDescriptor c)) = length nums"
      using less.prems(5,11) by (simp add: unat_of_nat_small)
    have pos: "0 < int (length (concat (map alt_bytes post)))"
      using Cons alt_bytes_nth(3)[OF wfa] by simp
    have "ParseConfigurationDes_loop os c b off (int (length (concat (map alt_bytes post)))) cur tab m =
        Some (RetVal 0, c\<lparr>interface := us\<rparr>, m'')"
      apply (subst ParseConfigurationDes_loop.simps)
      using pos rd p(1) ih(1) by (simp add: N less.prems(12) idx L Let_def nat_int_add)
    with ih show ?thesis by blast
  qed
qed

subsection \<open>The whole configuration\<close>

lemma conf_inv_init:
  assumes "length nums \<le> 32" "length new = length nums"
    "\<forall>j < length nums. fresh_iface (count_list (map alt_num alts) (nums ! j)) (new ! j)"
  shows "conf_inv alts nums [] (map Some new @ replicate (32 - length nums) None)"
  using assms by (auto simp: conf_inv_def iface_inv_def fresh_iface_def nth_append)

lemma conf_inv_final:
  assumes "conf_inv alts nums alts us" "i < length nums" "count_list (map alt_num alts) (nums ! i) \<le> 128"
  shows "\<exists>u. us ! i = Some u \<and> (let as = filter (\<lambda>a. alt_num a = nums ! i) alts
         in unat (numAltsetting u) = length as \<and> list_all2 alt_rel as (altsetting u))"
proof -
  obtain u rs k where u: "us ! i = Some u" "altsetting u = rs @ replicate k zero_interface"
     "unat (numAltsetting u) = length rs" "length rs + k = count_list (map alt_num alts) (nums ! i)"
     "list_all2 alt_rel (filter (\<lambda>a. alt_num a = nums ! i) alts) rs"
    using assms(1,2) by (auto simp: conf_inv_def iface_inv_def)
  have "k = 0" using u(4) list_all2_lengthD[OF u(5)] by (simp add: count_filter)
  with u show ?thesis by (simp add: Let_def list_all2_lengthD)
qed

lemma conf_extras_run:
  assumes "at b off (concat ds @ xs)" "list_all wf_extra ds" "if_start xs"
    "length (concat ds @ xs) < 2 ^ 31" "good os m" "cf_extra c = None" "cf_extraLength c = 0"
  shows "\<exists>x m'. ParseConfigurationDes os c b off (int (length (concat ds @ xs))) cur tab m =
      ParseConfigurationDes_loop os (c\<lparr>cf_extra := x, cf_extraLength := int (length (concat ds))\<rparr>) b
        (off + length (concat ds)) (int (length xs)) cur tab m' \<and>
      blob_rel ds x (int (length (concat ds))) \<and> grows m (blob_addrs x) m'"
proof -
  define X where "X = concat ds"
  note [simp] = X_def[symmetric]
  have find: "FindNextDescriptor b off (int (length (X @ xs))) = Some (int (length X))"
    using FindNext_extras[OF assms(1,2) if_start_std[OF assms(3)] assms(4)] by simp
  show ?thesis
  proof (cases "X = []")
    case True
    have "c\<lparr>cf_extra := None, cf_extraLength := 0\<rparr> = c" using assms(6,7) by simp
    with True find show ?thesis
      by (intro exI[of _ None] exI[of _ m]) (simp add: ParseConfigurationDes_def blob_rel_def)
  next
    case False
    then obtain a m' where "copy_extra os b off (int (length X)) 0 m =
        Some (HDF_SUCCESS, Some (a, X), m')" "grows m [a] m'"
      using copy_extra_run[OF assms(1) _ assms(5)] by auto
    with False find assms(7) show ?thesis
      by (intro exI[of _ "Some (a, X)"] exI[of _ m']) (simp add: ParseConfigurationDes_def blob_rel_def)
  qed
qed

lemma slots_init: "concat (map slot_addrs (map Some new @ replicate r None)) =
    concat (map iface_addrs new)"
  by (induction new) (simp_all add: concat_replicate_trivial)

lemma fresh_addrs:
  "(\<forall>j < length new. fresh_iface (f j) (new ! j)) \<Longrightarrow> concat (map iface_addrs new) = map ri_self new"
proof (induction new arbitrary: f)
  case (Cons u new)
  have "concat (map iface_addrs new) = map ri_self new"
    by (rule Cons.IH[of "\<lambda>j. f (Suc j)"]) (use Cons.prems in auto)
  moreover have "fresh_iface (f 0) u" using Cons.prems by (auto dest: spec[of _ 0])
  then have "iface_addrs u = [ri_self u]" by (simp add: iface_addrs_def fresh_iface_def)
  ultimately show ?case by simp
qed simp

text \<open>
  The shape of a parsed configuration that owns all its blocks: every slot in use, with full arrays.
\<close>

lemma ParseConfiguration_run:
  assumes c: "wf_conf c" and os: "good os m"
  shows "\<exists>us x n m'. ParseConfiguration os zero_config (conf_bytes c) (int (length (conf_bytes c))) m =
      Some (RetVal 0, \<lparr>configDescriptor = (cw_desc c)\<lparr>c_bNumInterfaces := of_nat (length (conf_nums c))\<rparr>,
        interface = us, cf_extra = x, cf_extraLength = n\<rparr>, m') \<and>
    conf_inv (cw_alts c) (conf_nums c) (cw_alts c) us \<and> blob_rel (cw_extra c) x n \<and>
    grows m (blob_addrs x @ concat (map slot_addrs us)) m'"
proof -
  let ?b = "conf_bytes c" and ?nums = "conf_nums c" and ?alts = "cw_alts c"
  let ?ns = "map alt_num ?alts" and ?X = "concat (cw_extra c)" and ?A = "concat (map alt_bytes (cw_alts c))"
  have wf: "c_bDescriptorType (cw_desc c) = 2" "c_bLength (cw_desc c) = 9"
    "unat (c_bNumInterfaces (cw_desc c)) \<le> 32" "list_all wf_extra (cw_extra c)" "list_all wf_alt ?alts"
    "length ?nums \<le> 32" "length ?b < 2 ^ 31" "9 \<le> length ?b mod 256"
    and cnt: "\<forall>n \<in> set ?ns. count_list ?ns n \<le> 128"
    using c by (auto simp: wf_conf_def list_all_iff)
  have nums: "?nums = firsts_acc [] ?ns" "set ?nums = set ?ns"
    by (simp_all add: conf_nums_def firsts_acc_set)
  let ?s = "scan_of ?ns"
  have scan: "GetInterfaceNumber ?b 0 (length ?b) scan_init = Some ?s"
    using GetInterfaceNumber_conf[OF c] scan_fold[of ?ns] wf(6) cnt nums(1) by simp
  have s: "scan_num ?s = length ?nums" "nIntf ?s = ?nums @ replicate (32 - length ?nums) 0"
    "nAlts ?s = map (\<lambda>x. of_nat (count_list ?ns x)) ?nums @ replicate (32 - length ?nums) 0"
    by (simp_all add: scan_of_def nums(1) Let_def)
  have alts: "unat (nAlts ?s ! j) = count_list ?ns (?nums ! j)" "count_list ?ns (?nums ! j) \<le> 128"
    if "j < length ?nums" for j
  proof -
    have "?nums ! j \<in> set ?ns" using nth_mem[OF that] nums(2) by simp
    then show "count_list ?ns (?nums ! j) \<le> 128" using cnt by blast
    then show "unat (nAlts ?s ! j) = count_list ?ns (?nums ! j)"
      using that unat_of_nat_small[where 'a = 8, of "count_list ?ns (?nums ! j)"]
      by (simp add: s(3) nth_append)
  qed
  obtain new m1 where new: "alloc_interfaces os (length ?nums) 0 (nAlts ?s) (replicate 32 None) m =
      Some (True, map Some new @ replicate (32 - length ?nums) None, m1)" "length new = length ?nums"
      "\<forall>j < length ?nums. fresh_iface (count_list ?ns (?nums ! j)) (new ! j)" "grows m (map ri_self new) m1"
    using alloc_interfaces_run[OF os, of "[]" 0 "length ?nums" "nAlts ?s" "32 - length ?nums"] alts wf(6)
    by auto
  let ?us = "map Some new @ replicate (32 - length ?nums) None"
  let ?D = "(cw_desc c)\<lparr>c_bNumInterfaces := of_nat (length ?nums)\<rparr>"
  let ?c = "\<lparr>configDescriptor = ?D, interface = ?us, cf_extra = None, cf_extraLength = 0\<rparr>"
  have b: "?b = config_bytes (cw_desc c) @ ?X @ ?A" by (simp add: conf_bytes_def)
  have at: "at ?b 9 (?X @ ?A)" by (simp add: at_def b)
  have st: "if_start ?A" using if_start_alts[OF wf(5), of "[]"] by (simp add: if_start_def)
  have L: "length (?X @ ?A) < 2 ^ 31" using wf(7) b by simp
  let ?cur = "if length ?nums = 0 then None else Some (length ?nums - 1)"
  obtain x m2 where x: "ParseConfigurationDes os ?c ?b 9 (int (length (?X @ ?A))) ?cur (nIntf ?s) m1 =
      ParseConfigurationDes_loop os (?c\<lparr>cf_extra := x, cf_extraLength := int (length ?X)\<rparr>) ?b
        (9 + length ?X) (int (length ?A)) ?cur (nIntf ?s) m2"
      "blob_rel (cw_extra c) x (int (length ?X))" "grows m1 (blob_addrs x) m2"
    using conf_extras_run[OF at wf(4) st L grows_good[OF new(4) os], of ?c ?cur "nIntf ?s"] by auto
  let ?c2 = "?c\<lparr>cf_extra := x, cf_extraLength := int (length ?X)\<rparr>"
  have slots: "concat (map slot_addrs ?us) = map ri_self new"
    using fresh_addrs[of new "\<lambda>j. count_list ?ns (?nums ! j)"] new(2,3) by (simp only: slots_init)
  have gr: "grows m (conf_addrs ?c2) m2"
    by (rule grows_perm[OF grows_trans[OF new(4) x(3)]])
      (simp only: conf_addrs_slots UsbRawConfigDescriptor.simps slots mset_append add.commute)
  have inv: "conf_inv ?alts ?nums [] (interface ?c2)"
    using conf_inv_init[OF wf(6) new(2,3)] by simp
  have g2: "good os m2" by (rule grows_good[OF x(3) grows_good[OF new(4) os]])
  have cn: "\<forall>n \<in> set ?nums. count_list ?ns n \<le> 128" using cnt nums(2) by simp
  have tk: "take (length ?nums) (nIntf ?s) = ?nums" by (simp only: s(2)) simp
  have LA: "length ?A < 2 ^ 31" using L by simp
  have "\<exists>us m'. ParseConfigurationDes_loop os ?c2 ?b (9 + length ?X) (int (length ?A)) ?cur (nIntf ?s) m2 =
      Some (RetVal 0, ?c2\<lparr>interface := us\<rparr>, m') \<and> conf_inv ?alts ?nums ?alts us \<and>
      grows m (conf_addrs (?c2\<lparr>interface := us\<rparr>)) m'"
    by (rule ParseConfigurationDes_loop_run[OF inv _ wf(5) nums(1) wf(6) cn at_advance[OF at] LA g2 gr _ tk])
      simp_all
  then obtain us m' where loop: "ParseConfigurationDes_loop os ?c2 ?b (9 + length ?X) (int (length ?A)) ?cur
        (nIntf ?s) m2 = Some (RetVal 0, ?c2\<lparr>interface := us\<rparr>, m')" "conf_inv ?alts ?nums ?alts us"
      "grows m (conf_addrs (?c2\<lparr>interface := us\<rparr>)) m'"
    by blast
  have desc: "ParseDescriptor ?b 0 USB_RAW_CONFIG_DESCRIPTOR_TYPE
      (config_bytes (configDescriptor zero_config)) = Some (config_bytes (cw_desc c))"
    by (simp add: ParseDescriptor_def memcpy_s_def rdn_def wrn_def b)
  have sz: "\<not> int (length ?b) < 9" "int (length ?b) - 9 = int (length (?X @ ?A))"
    by (simp_all add: b)
  have sz8: "\<not> (9 :: u8) > of_int (int (length ?b))"
    using wf(8) by (simp add: word_less_nat_alt unsigned_of_nat take_bit_eq_mod)
  have zc: "interface zero_config = replicate 32 None" "cf_extra zero_config = None" "cf_extraLength zero_config = 0"
    by (simp_all add: zero_config_def)
  have "ParseConfiguration os zero_config ?b (int (length ?b)) m = Some (RetVal 0, ?c2\<lparr>interface := us\<rparr>, m')"
    unfolding ParseConfiguration_def desc Option.bind.simps Let_def config_image(1)
    using sz sz8 wf(1-3) scan new(1) x(1) loop(1) s(1) zc
    by (cases "conf_nums c = []") (simp_all add: zero_config_def)
  with loop(2,3) x(2) show ?thesis
    by (auto simp: conf_addrs_slots)
qed

lemma DescToConfig_run:
  assumes c: "wf_conf c" and os: "good os m"
  shows "\<exists>a cfg m'. DescToConfig os (conf_bytes c) (int (length (conf_bytes c))) m =
      Some (RetVal 0, Some (a, cfg), m') \<and> conf_rel c cfg \<and> grows m (a # conf_addrs cfg) m' \<and>
      conf_inv (cw_alts c) (conf_nums c) (cw_alts c) (interface cfg)"
proof -
  let ?N = "length (conf_nums c)"
  obtain a m1 where a: "RawUsbMemCalloc os sizeof_RawConfig m = Some (Some a, m1)" "grows m [a] m1"
    using good_calloc[OF os, of sizeof_RawConfig] by (auto simp: sizeof_RawConfig_def)
  obtain us x n m' where p: "ParseConfiguration os zero_config (conf_bytes c) (int (length (conf_bytes c))) m1 =
      Some (RetVal 0, \<lparr>configDescriptor = (cw_desc c)\<lparr>c_bNumInterfaces := of_nat ?N\<rparr>,
        interface = us, cf_extra = x, cf_extraLength = n\<rparr>, m')"
    "conf_inv (cw_alts c) (conf_nums c) (cw_alts c) us" "blob_rel (cw_extra c) x n"
    "grows m1 (blob_addrs x @ concat (map slot_addrs us)) m'"
    using ParseConfiguration_run[OF c grows_good[OF a(2) os]] by blast
  let ?cfg = "\<lparr>configDescriptor = (cw_desc c)\<lparr>c_bNumInterfaces := of_nat ?N\<rparr>,
        interface = us, cf_extra = x, cf_extraLength = n\<rparr>"
  have cnt: "count_list (map alt_num (cw_alts c)) (conf_nums c ! i) \<le> 128" if "i < ?N" for i
  proof -
    have "conf_nums c ! i \<in> alt_num ` set (cw_alts c)"
      using nth_mem[OF that] by (simp add: conf_nums_def firsts_acc_set)
    then show ?thesis using c by (auto simp: wf_conf_def list_all_iff)
  qed
  have "conf_rel c ?cfg"
    using conf_inv_final[OF p(2)] cnt p(3) by (simp add: conf_rel_def)
  moreover have "grows m (a # conf_addrs ?cfg) m'"
    using grows_trans[OF a(2) p(4)] by (simp add: conf_addrs_slots)
  moreover have "DescToConfig os (conf_bytes c) (int (length (conf_bytes c))) m =
      Some (RetVal 0, Some (a, ?cfg), m')"
    using a(1) p(1) by (simp add: DescToConfig_def)
  ultimately show ?thesis using p(2) by (intro exI[of _ a] exI[of _ ?cfg] exI[of _ m']) simp
qed

end
