(* ===== verification/Usb_Descriptor_Release.thy ===== *)
theory Usb_Descriptor_Release
  imports Usb_Descriptor_Config
begin

text \<open>
  The release of parsed configurations (\<open>ClearEndpoint\<close>, \<open>ClearInterface\<close>,
  \<open>RawClearConfiguration\<close>): it frees every block that the parser allocated, once each, and no other.
\<close>

subsection \<open>Release of a parsed configuration\<close>

text \<open>\<open>releases f A\<close>: the function \<open>f\<close> frees exactly the blocks \<open>A\<close>.\<close>

definition releases :: "(usbmem \<Rightarrow> usbmem option) \<Rightarrow> ptr list \<Rightarrow> bool" where
  "releases f A \<longleftrightarrow> (\<forall>m. \<not> g_usbRamTestFlag m \<longrightarrow> distinct A \<longrightarrow> set A \<subseteq> live m \<longrightarrow>
     f m = Some (m\<lparr>live := live m - set A\<rparr>))"

lemma releases_nil [intro, simp]: "releases Some []"
  by (simp add: releases_def)

lemma releases_free [intro, simp]: "releases (RawUsbMemFree (Some p)) [p]"
  by (simp add: releases_def RawUsbMemFree_off)

lemma releases_bind:
  assumes "releases f A" "releases g B"
  shows "releases (\<lambda>m. f m \<bind> g) (A @ B)"
  unfolding releases_def
proof (intro allI impI)
  fix m :: usbmem
  assume m: "\<not> g_usbRamTestFlag m" "distinct (A @ B)" "set (A @ B) \<subseteq> live m"
  let ?m = "m\<lparr>live := live m - set A\<rparr>"
  have f: "f m = Some ?m" using assms(1) m by (simp add: releases_def)
  have "set B \<subseteq> live ?m" using m by auto
  then have g: "g ?m = Some (?m\<lparr>live := live ?m - set B\<rparr>)" using assms(2) m by (simp add: releases_def)
  have "live m - set A - set B = live m - set (A @ B)" by auto
  then show "f m \<bind> g = Some (m\<lparr>live := live m - set (A @ B)\<rparr>)"
    by (simp add: f g)
qed

lemma releases_perm: "releases f A \<Longrightarrow> mset A = mset B \<Longrightarrow> releases f B"
  unfolding releases_def by (metis mset_eq_imp_distinct_iff mset_eq_setD)

lemma releases_cong: "releases f A \<Longrightarrow> (\<And>m. f m = g m) \<Longrightarrow> releases g A"
  by (simp add: releases_def)

lemma releases_blob: "releases (\<lambda>m. case x of None \<Rightarrow> Some m | Some (a, bs) \<Rightarrow> RawUsbMemFree (Some a) m) (blob_addrs x)"
  by (cases x) (auto intro: releases_cong[OF releases_nil] releases_cong[OF releases_free])

lemma releases_endpoints:
  "j + k = length eps \<Longrightarrow> releases (clear_endpoints k j eps) (eps_addrs (drop j eps))"
proof (induction k arbitrary: j)
  case 0
  then show ?case by (simp add: eps_addrs_def releases_def)
next
  case (Suc k)
  then have j: "j < length eps" by simp
  have "releases (\<lambda>m. (case ep_extra (eps ! j) of None \<Rightarrow> Some m | Some (a, bs) \<Rightarrow> RawUsbMemFree (Some a) m)
      \<bind> clear_endpoints k (Suc j) eps) (blob_addrs (ep_extra (eps ! j)) @ eps_addrs (drop (Suc j) eps))"
    by (rule releases_bind[OF releases_blob Suc.IH]) (use Suc.prems in simp)
  then have "releases (clear_endpoints (Suc k) j eps)
      (blob_addrs (ep_extra (eps ! j)) @ eps_addrs (drop (Suc j) eps))"
    by (rule releases_cong) (use j in \<open>auto simp: ClearEndpoint_def obind split: option.splits bind_splits\<close>)
  then show ?case using j by (simp add: eps_addrs_def del: clear_endpoints.simps flip: Cons_nth_drop_Suc)
qed

text \<open>The array of endpoints has the length that its descriptor announces.\<close>

definition alt_shape :: "UsbRawInterfaceDescriptor \<Rightarrow> bool" where
  "alt_shape d \<longleftrightarrow> (case endPoint d of None \<Rightarrow> True
     | Some (a, eps) \<Rightarrow> unat (i_bNumEndpoints (interfaceDescriptor d)) = length eps)"

lemma releases_altsetting:
  assumes "alt_shape d"
  shows "releases (clear_altsetting d) (alt_addrs d)"
proof (cases "endPoint d")
  case None
  have "releases (\<lambda>m. (case if_extra d of None \<Rightarrow> Some m | Some (a, bs) \<Rightarrow> RawUsbMemFree (Some a) m) \<bind> Some)
      (blob_addrs (if_extra d) @ [])"
    by (rule releases_bind[OF releases_blob releases_nil])
  with None show ?thesis
    by (simp add: clear_altsetting_def[abs_def] alt_addrs_def)
next
  case (Some q)
  obtain a eps where q: "q = (a, eps)" by (cases q)
  let ?n = "unat (i_bNumEndpoints (interfaceDescriptor d))"
  have n: "?n = length eps" using assms Some q by (simp add: alt_shape_def)
  have "releases (\<lambda>m. (case if_extra d of None \<Rightarrow> Some m | Some (a, bs) \<Rightarrow> RawUsbMemFree (Some a) m) \<bind>
      (\<lambda>m. clear_endpoints ?n 0 eps m \<bind> RawUsbMemFree (Some a)))
      (blob_addrs (if_extra d) @ eps_addrs (drop 0 eps) @ [a])"
    by (intro releases_bind releases_blob releases_free releases_endpoints) (simp add: n)
  then show ?thesis
    by (rule releases_perm[OF releases_cong]) (simp_all add: Some q clear_altsetting_def alt_addrs_def)
qed

lemma releases_altsettings:
  "i + k = length ds \<Longrightarrow> list_all alt_shape ds \<Longrightarrow>
   releases (clear_altsettings k i ds) (concat (map alt_addrs (drop i ds)))"
proof (induction k arbitrary: i)
  case 0
  then show ?case by (simp add: releases_def)
next
  case (Suc k)
  then have i: "i < length ds" by simp
  have "releases (\<lambda>m. clear_altsetting (ds ! i) m \<bind> clear_altsettings k (Suc i) ds)
      (alt_addrs (ds ! i) @ concat (map alt_addrs (drop (Suc i) ds)))"
    by (rule releases_bind[OF releases_altsetting Suc.IH]) (use Suc.prems i in \<open>auto simp: list_all_length\<close>)
  then have "releases (clear_altsettings (Suc k) i ds) (alt_addrs (ds ! i) @ concat (map alt_addrs (drop (Suc i) ds)))"
    by (rule releases_cong) (use i in simp)
  then show ?case using i by (simp del: clear_altsettings.simps flip: Cons_nth_drop_Suc)
qed

lemma releases_interface:
  assumes "unat (numAltsetting u) = length (altsetting u)" "length (altsetting u) \<le> 128"
    "list_all alt_shape (altsetting u)"
  shows "releases (ClearInterface (Some u)) (iface_addrs u)"
proof -
  have "releases (\<lambda>m. clear_altsettings (unat (numAltsetting u)) 0 (altsetting u) m \<bind>
      RawUsbMemFree (Some (ri_self u))) (concat (map alt_addrs (drop 0 (altsetting u))) @ [ri_self u])"
    by (intro releases_bind releases_altsettings releases_free) (use assms in simp_all)
  then show ?thesis
    by (rule releases_perm[OF releases_cong]) (use assms(1,2) in \<open>simp_all add: ClearInterface_def iface_addrs_def\<close>)
qed

definition slot_shape :: "UsbRawInterface option \<Rightarrow> bool" where
  "slot_shape x \<longleftrightarrow> (case x of None \<Rightarrow> True | Some u \<Rightarrow>
     unat (numAltsetting u) = length (altsetting u) \<and> length (altsetting u) \<le> 128 \<and>
     list_all alt_shape (altsetting u))"

lemma releases_slot: "slot_shape x \<Longrightarrow> releases (ClearInterface x) (slot_addrs x)"
  by (cases x) (auto simp: slot_shape_def ClearInterface_def[of None]
      intro: releases_interface releases_cong[OF releases_nil])

text \<open>\<open>clear_interfaces\<close> also resets the slots; its memory effect depends on the untouched ones.\<close>

lemma clear_interfaces_run:
  assumes "i + k \<le> length us" "\<forall>j < k. slot_shape (us ! (i + j))"
    "\<not> g_usbRamTestFlag m" "distinct (concat (map slot_addrs (take k (drop i us))))"
    "set (concat (map slot_addrs (take k (drop i us)))) \<subseteq> live m"
  shows "\<exists>us'. clear_interfaces k i us m =
      Some (us', m\<lparr>live := live m - set (concat (map slot_addrs (take k (drop i us))))\<rparr>)"
  using assms
proof (induction k arbitrary: i us m)
  case (Suc k)
  let ?x = "us ! i" and ?rest = "concat (map slot_addrs (take k (drop (Suc i) us)))"
  have i: "i < length us" using Suc.prems(1) by simp
  have A: "concat (map slot_addrs (take (Suc k) (drop i us))) = slot_addrs ?x @ ?rest"
    using i by (simp flip: Cons_nth_drop_Suc)
  have x: "slot_shape ?x" using Suc.prems(2) by (auto dest: spec[of _ 0])
  let ?m = "m\<lparr>live := live m - set (slot_addrs ?x)\<rparr>"
  have c: "ClearInterface ?x m = Some ?m"
    using releases_slot[OF x] Suc.prems(3-5) unfolding A by (simp add: releases_def)
  have "\<forall>j < k. slot_shape (us[i := None] ! (Suc i + j))"
    using Suc.prems(2) by (metis add_Suc_shift less_add_Suc1 nat_neq_iff nth_list_update_neq Suc_less_eq)
  moreover have "drop (Suc i) (us[i := None]) = drop (Suc i) us" by simp
  moreover have "set ?rest \<subseteq> live ?m" using Suc.prems(4,5) unfolding A by auto
  ultimately obtain us' where "clear_interfaces k (Suc i) (us[i := None]) ?m =
      Some (us', ?m\<lparr>live := live ?m - set ?rest\<rparr>)"
    using Suc.IH[of "Suc i" "us[i := None]" ?m] Suc.prems(1,3-5) unfolding A by auto
  with c i show ?case unfolding A by (simp add: Diff_eq Int_assoc)
qed simp

lemma RawClearConfiguration_run:
  assumes "unat (c_bNumInterfaces (configDescriptor c)) = N" "N \<le> length (interface c)"
    "\<forall>i < N. slot_shape (interface c ! i)"
    "\<forall>i. N \<le> i \<longrightarrow> i < length (interface c) \<longrightarrow> interface c ! i = None"
    "\<not> g_usbRamTestFlag m" "distinct (conf_addrs c)" "set (conf_addrs c) \<subseteq> live m"
  shows "\<exists>c'. RawClearConfiguration c m = Some (c', m\<lparr>live := live m - set (conf_addrs c)\<rparr>)"
proof -
  let ?us = "interface c"
  let ?A = "concat (map slot_addrs (take N (drop 0 ?us)))"
  have "drop N ?us = replicate (length ?us - N) None"
    by (rule nth_equalityI) (use assms(2,4) in auto)
  then have "map slot_addrs ?us = map slot_addrs (take N ?us) @ replicate (length ?us - N) []"
    by (metis append_take_drop_id map_append map_replicate slot_addrs_simps(1))
  then have A: "conf_addrs c = blob_addrs (cf_extra c) @ ?A"
    by (simp add: conf_addrs_slots)
  obtain us' where "clear_interfaces N 0 ?us m = Some (us', m\<lparr>live := live m - set ?A\<rparr>)"
    using clear_interfaces_run[of 0 N ?us m] assms(2,3,5-7) unfolding A by auto
  moreover have "a \<in> live m - set ?A" if "cf_extra c = Some (a, bs)" for a bs
    using that assms(6,7) unfolding A by auto
  ultimately show ?thesis
    using assms(1,5) unfolding A
    by (cases "cf_extra c") (auto simp: RawClearConfiguration_def RawUsbMemFree_off Diff_eq Int_assoc Int_ac Let_def)
qed

lemma conf_rel_shape:
  assumes "wf_conf c" "conf_rel c cfg" "i < length (conf_nums c)"
  shows "slot_shape (interface cfg ! i)"
proof -
  let ?as = "filter (\<lambda>a. alt_num a = conf_nums c ! i) (cw_alts c)"
  obtain u where u: "interface cfg ! i = Some u" "unat (numAltsetting u) = length ?as"
      "list_all2 alt_rel ?as (altsetting u)"
    using assms(2,3) by (auto simp: conf_rel_def Let_def)
  have "conf_nums c ! i \<in> alt_num ` set (cw_alts c)"
    using nth_mem[OF assms(3)] by (simp add: conf_nums_def firsts_acc_set)
  then have "length ?as \<le> 128"
    using assms(1) by (auto simp: wf_conf_def list_all_iff count_filter)
  moreover have "list_all wf_alt ?as" using assms(1) by (auto simp: wf_conf_def list_all_iff)
  then have "list_all alt_shape (altsetting u)"
    using u(3) by (fastforce simp: list_all_length list_all2_conv_all_nth alt_rel_def alt_shape_def wf_alt_def
        dest: list_all2_lengthD split: option.splits)
  ultimately show ?thesis
    using u list_all2_lengthD[OF u(3)] by (simp add: slot_shape_def)
qed

subsection \<open>Correctness of the parser\<close>

text \<open>
  C2. Round trip of configuration descriptors: for every well-formed configuration, parsing its bytes
  returns success and a structure that holds exactly the descriptors, extra descriptors, interfaces,
  alternate settings and endpoints that were encoded, without any access outside the buffer or
  outside the blocks the parser allocated.
\<close>

theorem DescToConfig_roundtrip:
  assumes "wf_conf c" "\<forall>n k. os n k" "\<not> g_usbRamTestFlag m"
  shows "\<exists>a cfg m'. DescToConfig os (conf_bytes c) (int (length (conf_bytes c))) m =
    Some (HDF_SUCCESS, Some (a, cfg), m') \<and> conf_rel c cfg"
  using DescToConfig_run[OF assms(1), of os m] assms(2,3) by (auto simp: good_def)

definition mem_example :: usbmem where
  "mem_example = \<lparr>nextAddr = 1, live = {}, g_usbRamTestFlag = False, g_usbRamTestHead = None\<rparr>"

text \<open>A device with two interfaces, one of them with two alternates, and a vendor descriptor.\<close>

definition conf_example :: conf_wire where
  "conf_example = \<lparr>cw_desc = config_of [9, 2, 48, 0, 2, 1, 0, 0x80, 50], cw_extra = [[3, 11, 7]],
     cw_alts =
      [\<lparr>aw_desc = interface_of [9, 4, 0, 0, 0, 2, 2, 1, 0], aw_extra = [[5, 36, 0, 16, 1]], aw_eps = []\<rparr>,
       \<lparr>aw_desc = interface_of [9, 4, 1, 0, 0, 10, 0, 0, 0], aw_extra = [], aw_eps = []\<rparr>,
       \<lparr>aw_desc = interface_of [9, 4, 1, 1, 1, 10, 0, 0, 0], aw_extra = [],
        aw_eps = [\<lparr>ew_desc = endpoint_of [7, 5, 0x81, 2, 0, 2, 0, 0, 0], ew_extra = []\<rparr>]\<rparr>]\<rparr>"

lemmas wire_defs = conf_bytes_def alt_bytes_def ep_bytes_def ep_head_def config_bytes_def config_of_def
  interface_bytes_def interface_of_def endpoint_bytes_def endpoint_of_def le16_bytes_def le16_def

lemma conf_example_wf: "wf_conf conf_example"
  by (simp add: wf_conf_def wf_alt_def wf_ep_def wf_extra_def conf_nums_def conf_example_def wire_defs)

theorem DescToConfig_roundtrip_witness:
  "wf_conf conf_example \<and> (\<forall>n k :: nat. (\<lambda>n k. True) n k) \<and> \<not> g_usbRamTestFlag mem_example \<and>
   (\<exists>a cfg m'. DescToConfig (\<lambda>n k. True) (conf_bytes conf_example) (int (length (conf_bytes conf_example)))
      mem_example = Some (HDF_SUCCESS, Some (a, cfg), m') \<and> conf_rel conf_example cfg)"
  using DescToConfig_roundtrip[OF conf_example_wf, of "\<lambda>n k. True" mem_example] conf_example_wf
  by (simp add: mem_example_def)

text \<open>
  C9. No leak and no double free: a configuration that was parsed and then released leaves the heap
  with exactly the blocks it had before, and every free on the way is of a live block.
\<close>

theorem DescToConfig_no_leak:
  assumes "wf_conf c" "\<forall>n k. os n k" "\<not> g_usbRamTestFlag m" "mem_ok m"
  shows "\<exists>cfg m' m''. DescToConfig os (conf_bytes c) (int (length (conf_bytes c))) m =
    Some (HDF_SUCCESS, cfg, m') \<and> live m \<subset> live m' \<and>
    UsbRawFreeConfigDescriptor cfg m' = Some m'' \<and> live m'' = live m"
proof -
  obtain a cfg m' where p: "DescToConfig os (conf_bytes c) (int (length (conf_bytes c))) m =
      Some (RetVal 0, Some (a, cfg), m')" "conf_rel c cfg" "grows m (a # conf_addrs cfg) m'"
      "conf_inv (cw_alts c) (conf_nums c) (cw_alts c) (interface cfg)"
    using DescToConfig_run[OF assms(1), of os m] assms(2,3) by (auto simp: good_def)
  have N: "unat (c_bNumInterfaces (configDescriptor cfg)) = length (conf_nums c)" "length (conf_nums c) \<le> 32"
    using p(2) assms(1) by (simp_all add: conf_rel_def wf_conf_def unat_of_nat_small)
  have fresh: "set (a # conf_addrs cfg) \<inter> live m = {}" "distinct (a # conf_addrs cfg)"
    "live m' = live m \<union> set (a # conf_addrs cfg)" "\<not> g_usbRamTestFlag m'"
    using p(3) assms(3,4) by (fastforce simp: grows_def mem_ok_def)+
  obtain c' where c': "RawClearConfiguration cfg m' = Some (c', m'\<lparr>live := live m' - set (conf_addrs cfg)\<rparr>)"
    using RawClearConfiguration_run[OF N(1), of m'] conf_rel_shape[OF assms(1) p(2)] p(4) N(2) fresh
    by (auto simp: conf_inv_def)
  have "UsbRawFreeConfigDescriptor (Some (a, cfg)) m' =
      Some (m'\<lparr>live := live m' - set (conf_addrs cfg) - {a}\<rparr>)"
    using c' fresh by (simp add: UsbRawFreeConfigDescriptor_def RawUsbMemFree_off)
  moreover have "live m' - set (conf_addrs cfg) - {a} = live m" "live m \<subset> live m'" using fresh by auto
  ultimately show ?thesis using p(1)
    by (intro exI[of _ "Some (a, cfg)"] exI[of _ m']
        exI[of _ "m'\<lparr>live := live m' - set (conf_addrs cfg) - {a}\<rparr>"]) simp
qed

theorem DescToConfig_no_leak_witness:
  "wf_conf conf_example \<and> mem_ok mem_example \<and>
   (\<exists>cfg m' m''. DescToConfig (\<lambda>n k. True) (conf_bytes conf_example) (int (length (conf_bytes conf_example)))
      mem_example = Some (HDF_SUCCESS, cfg, m') \<and> live mem_example \<subset> live m' \<and>
    UsbRawFreeConfigDescriptor cfg m' = Some m'' \<and> live m'' = live mem_example)"
  using DescToConfig_no_leak[OF conf_example_wf, of "\<lambda>n k. True" mem_example] conf_example_wf
  by (simp add: mem_example_def mem_ok_def)

subsection \<open>Malformed descriptors\<close>

text \<open>
  A descriptor of length 0 that is neither an interface nor an endpoint makes the search loop run
  forever: the position never advances.
\<close>

lemma FindNext_stuck:
  assumes "rd8 b off = Some 0" "rd8 b (off + 1) = Some ty" "ty \<noteq> 4" "ty \<noteq> 5" "s \<noteq> 0"
  shows "FindNextDescriptor_loop b off s = None"
proof (rule ccontr)
  assume "FindNextDescriptor_loop b off s \<noteq> None"
  then obtain y where "FindNextDescriptor_loop b off s = Some y" by blast
  then have "b = b \<and> off = off \<and> s \<noteq> 0 \<longrightarrow> False"
  proof (rule FindNextDescriptor_loop.raw_induct[rotated,
      where P = "\<lambda>b' o' s y. b' = b \<and> o' = off \<and> s \<noteq> 0 \<longrightarrow> False"])
    fix f :: "u8 list \<Rightarrow> nat \<Rightarrow> u64 \<Rightarrow> nat option" and b' o' s' y'
    assume ih: "\<And>b' o' s y. f b' o' s = Some y \<Longrightarrow> b' = b \<and> o' = off \<and> s \<noteq> 0 \<longrightarrow> False"
    assume eq: "(if s' = 0 then Some o' else rd8 b' (o' + 1) \<bind>
        (\<lambda>ty. if ty = USB_DDK_DT_INTERFACE \<or> ty = USB_DDK_DT_ENDPOINT then Some o'
               else rd8 b' o' \<bind> (\<lambda>len. f b' (o' + unat len) (s' - ucast len)))) = Some y'"
    show "b' = b \<and> o' = off \<and> s' \<noteq> 0 \<longrightarrow> False"
    proof
      assume a: "b' = b \<and> o' = off \<and> s' \<noteq> 0"
      then have "f b off s' = Some y'" using eq assms(1-4) by simp
      with ih a show False by blast
    qed
  qed
  with assms(5) show False by simp
qed
lemma FindNextDescriptor_zero_length_diverges:
  assumes "rd8 b off = Some 0" "rd8 b (off + 1) = Some ty" "ty \<noteq> 4" "ty \<noteq> 5" "0 < n" "n < 2 ^ 31"
  shows "FindNextDescriptor b off (int n) = None"
  using FindNext_stuck[OF assms(1-4), of "of_nat n"] of_nat_small_nonzero[where 'a = 64, of n] assms(5,6)
  by (simp add: FindNextDescriptor_def)

text \<open>
  The count of alternate settings stops at a descriptor of length 1, while the parser skips it: the
  second alternate of this 28-byte configuration is written past the array of one entry.
\<close>

lemma ParseInterface_overflow:
  "DescToConfig (\<lambda>n k. True)
     [9, 2, 28, 0, 1, 1, 0, 0x80, 50, 9, 4, 0, 0, 0, 8, 6, 80, 0, 1, 9, 4, 0, 1, 0, 8, 6, 80, 0] 28 mem_example = None"
  by code_simp

end
