(* ===== verification/Usb_State.thy ===== *)
theory Usb_State
  imports Usb_Descriptor
begin

text \<open>
  The data of the USB host stack: the structs of \<open>usb_ddk_device.h\<close>, \<open>usb_ddk_request.h\<close>,
  \<open>usb_session.h\<close>, \<open>usb_interface_pool.h\<close> and \<open>usb_ddk_interface.h\<close> as records, a store with one
  heap per struct type, and the interface of the operating system.

  A pointer is an address; objects live in the heap of their type, and following a pointer whose
  object is not there has no result.  All blocks come from the allocation wrappers of \<open>Usb_Mem\<close>;
  freeing one removes its object.  Requests live in memory mapped from the device file, which the
  kernel hands out.

  The operating system is the argument \<open>K\<close> of the operations, a record with one field per system
  call of the sources over an abstract kernel state \<open>'k\<close>: \<open>ioctl\<close> codes, \<open>open\<close>, \<open>close\<close>, \<open>read\<close>,
  \<open>mmap\<close>, \<open>munmap\<close>, \<open>kill\<close>, threads, and the notification service.  A system call that fails
  gives the value of \<open>errno\<close>.  Calls of functions that the user of the stack registers are
  recorded in the list \<open>h_events\<close>.
\<close>

subsection \<open>Constants\<close>

definition ENOENT :: int where [simp]: "ENOENT = 2"
definition EAGAIN :: int where [simp]: "EAGAIN = 11"
definition EACCES :: int where [simp]: "EACCES = 13"
definition ENODEV :: int where [simp]: "ENODEV = 19"
definition EPIPE :: int where [simp]: "EPIPE = 32"
definition EOVERFLOW :: int where [simp]: "EOVERFLOW = 75"
definition ECONNRESET :: int where [simp]: "ECONNRESET = 104"
definition ESHUTDOWN :: int where [simp]: "ESHUTDOWN = 108"
definition EREMOTEIO :: int where [simp]: "EREMOTEIO = 121"

definition MAX_BULK_DATA_BUFFER_LENGTH :: u32 where [simp]: "MAX_BULK_DATA_BUFFER_LENGTH = 4096"
definition MAX_ISO_PACKETS_PER_URB :: int where [simp]: "MAX_ISO_PACKETS_PER_URB = 128"
definition MAX_ISO_DATA_BUFFER_LEN :: u32 where [simp]: "MAX_ISO_DATA_BUFFER_LEN = 8192"
definition URBS_PER_REQUEST :: int where [simp]: "URBS_PER_REQUEST = 64"
definition DESC_READ_LEN :: nat where [simp]: "DESC_READ_LEN = 256"
definition USB_DDK_DT_DEVICE_SIZE :: nat where [simp]: "USB_DDK_DT_DEVICE_SIZE = 18"
definition INTERFACE_POOL_ID_MAX :: int where [simp]: "INTERFACE_POOL_ID_MAX = 128"
definition MAX_OBJECT_ID :: int where [simp]: "MAX_OBJECT_ID = 0x7FFFFFFF"
definition USB_CTRL_INTERFACE_ID :: u8 where [simp]: "USB_CTRL_INTERFACE_ID = 0xFF"
definition USB_RAW_CONTROL_SETUP_SIZE :: nat where [simp]: "USB_RAW_CONTROL_SETUP_SIZE = 8"

definition USB_ADAPTER_URB_TYPE_ISO :: u8 where [simp]: "USB_ADAPTER_URB_TYPE_ISO = 0"
definition USB_ADAPTER_URB_TYPE_INTERRUPT :: u8 where [simp]: "USB_ADAPTER_URB_TYPE_INTERRUPT = 1"
definition USB_ADAPTER_URB_TYPE_CONTROL :: u8 where [simp]: "USB_ADAPTER_URB_TYPE_CONTROL = 2"
definition USB_ADAPTER_URB_TYPE_BULK :: u8 where [simp]: "USB_ADAPTER_URB_TYPE_BULK = 3"
definition USB_ADAPTER_URB_ISO_ASAP :: u32 where [simp]: "USB_ADAPTER_URB_ISO_ASAP = 2"
definition USB_ADAPTER_CAP_BULK_CONTINUATION :: u32 where [simp]: "USB_ADAPTER_CAP_BULK_CONTINUATION = 2"
definition USB_ADAPTER_CAP_NO_PACKET_SIZE_LIM :: u32 where [simp]: "USB_ADAPTER_CAP_NO_PACKET_SIZE_LIM = 4"
definition USB_ADAPTER_CAP_BULK_SCATTER_GATHER :: u32 where [simp]: "USB_ADAPTER_CAP_BULK_SCATTER_GATHER = 8"

text \<open>The values of \<open>UsbRequestType\<close>; \<open>UsbPipeType\<close> has the same four values.\<close>

definition USB_REQUEST_TYPE_CONTROL :: u8 where [simp]: "USB_REQUEST_TYPE_CONTROL = 0"
definition USB_REQUEST_TYPE_ISOCHRONOUS :: u8 where [simp]: "USB_REQUEST_TYPE_ISOCHRONOUS = 1"
definition USB_REQUEST_TYPE_BULK :: u8 where [simp]: "USB_REQUEST_TYPE_BULK = 2"
definition USB_REQUEST_TYPE_INTERRUPT :: u8 where [simp]: "USB_REQUEST_TYPE_INTERRUPT = 3"

definition USB_DDK_ENDPOINT_DIR_MASK :: u8 where [simp]: "USB_DDK_ENDPOINT_DIR_MASK = 0x80"
definition USB_DDK_ENDPOINT_NUMBER_MASK :: u8 where [simp]: "USB_DDK_ENDPOINT_NUMBER_MASK = 0x0F"
definition USB_DDK_ENDPOINT_XFERTYPE_MASK :: u8 where [simp]: "USB_DDK_ENDPOINT_XFERTYPE_MASK = 3"
definition USB_PIPE_DIRECTION_OUT :: u8 where [simp]: "USB_PIPE_DIRECTION_OUT = 0"
definition USB_PIPE_DIRECTION_IN :: u8 where [simp]: "USB_PIPE_DIRECTION_IN = 0x80"

definition UsbEndpointDirOut :: "u8 \<Rightarrow> bool" where
  "UsbEndpointDirOut ep \<longleftrightarrow> (ep AND USB_DDK_ENDPOINT_DIR_MASK) = 0"

datatype UsbRequestStatus =
    USB_REQUEST_COMPLETED
  | USB_REQUEST_COMPLETED_SHORT
  | USB_REQUEST_ERROR
  | USB_REQUEST_TIMEOUT
  | USB_REQUEST_CANCELLED
  | USB_REQUEST_STALL
  | USB_REQUEST_NO_DEVICE
  | USB_REQUEST_OVERFLOW

fun req_status_code :: "UsbRequestStatus \<Rightarrow> u32" where
  "req_status_code USB_REQUEST_COMPLETED = 0"
| "req_status_code USB_REQUEST_COMPLETED_SHORT = 1"
| "req_status_code USB_REQUEST_ERROR = 2"
| "req_status_code USB_REQUEST_TIMEOUT = 3"
| "req_status_code USB_REQUEST_CANCELLED = 4"
| "req_status_code USB_REQUEST_STALL = 5"
| "req_status_code USB_REQUEST_NO_DEVICE = 6"
| "req_status_code USB_REQUEST_OVERFLOW = 7"

datatype UsbInterfaceStatus =
    USB_INTERFACE_STATUS_NORMAL
  | USB_INTERFACE_STATUS_ADD
  | USB_INTERFACE_STATUS_REMOVE
  | USB_INTERFACE_STATUS_OTHER

datatype UsbPoolProcessStatusType =
    USB_POOL_PROCESS_RUNNING
  | USB_POOL_PROCESS_STOP
  | USB_POOL_PROCESS_STOPED

datatype UsbRequestPipeType =
    USB_REQUEST_TYPE_INVALID
  | USB_REQUEST_TYPE_DEVICE_CONTROL
  | USB_REQUEST_TYPE_PIPE_WRITE
  | USB_REQUEST_TYPE_PIPE_READ

subsection \<open>Transfer requests\<close>

record UsbIsoPacketDesc =
  pd_length :: u32
  pd_actualLength :: u32
  pd_status :: u32

text \<open>
  \<open>u_buffer\<close> is an offset into the buffer of the request; \<open>u_isoFrameDesc\<close> is the trailing
  zero-length array, with as many entries as the block of the URB has room for.
\<close>

record UsbAdapterUrb =
  u_type :: u8
  u_endPoint :: u8
  u_status :: int
  u_flags :: u32
  u_buffer :: nat
  u_bufferLength :: int
  u_actualLength :: int
  u_numberOfPackets :: int
  u_userContext :: "ptr option"
  u_isoFrameDesc :: "UsbIsoPacketDesc list"

definition zero_urb :: UsbAdapterUrb where
  "zero_urb = \<lparr>u_type = 0, u_endPoint = 0, u_status = 0, u_flags = 0, u_buffer = 0,
     u_bufferLength = 0, u_actualLength = 0, u_numberOfPackets = 0, u_userContext = None,
     u_isoFrameDesc = []\<rparr>"

text \<open>The functions that a request's \<open>callback\<close> can be; \<open>RawCallback n\<close> is one of the user.\<close>

datatype raw_callback = SyncRequestCallbackFn | UsbIoSetRequestCompletionInfoFn | RawCallback nat

text \<open>
  \<open>r_buffer\<close> is the memory from \<open>request->buffer\<close> to the end of the mapping; \<open>r_sem\<close> the value of
  the semaphore between its initialisation and its destruction; \<open>r_urbs\<close> the union of \<open>urbs\<close> and
  \<open>isoUrbs\<close>.
\<close>

record UsbHostRequest =
  r_buffer :: "u8 list"
  r_length :: u32
  r_actualLength :: int
  r_status :: UsbRequestStatus
  r_userData :: "nat option"
  r_devHandle :: "ptr option"
  r_callback :: "raw_callback option"
  r_userCallback :: "nat option"
  r_bufLen :: nat
  r_sem :: "nat option"
  r_endPoint :: u8
  r_timeout :: u32
  r_requestType :: u8
  r_bulkUrb :: "ptr option"
  r_urbs :: "ptr option"
  r_numUrbs :: int
  r_numRetired :: int
  r_reqStatus :: UsbRequestStatus
  r_isoPacketOffset :: int
  r_privateObj :: "ptr option"
  r_numIsoPackets :: int
  r_isoPacketDesc :: "UsbIsoPacketDesc list"

text \<open>Sizes on an LP64 target.\<close>

definition sizeof_UsbAdapterUrb :: nat where [simp]: "sizeof_UsbAdapterUrb = 56"
definition sizeof_UsbHostRequest :: nat where [simp]: "sizeof_UsbHostRequest = 168"
definition sizeof_UsbIsoPacketDesc :: nat where [simp]: "sizeof_UsbIsoPacketDesc = 12"
definition sizeof_UsbDeviceConfigDescriptor :: nat where [simp]: "sizeof_UsbDeviceConfigDescriptor = 16"
definition sizeof_UsbDeviceHandle :: nat where [simp]: "sizeof_UsbDeviceHandle = 40"
definition sizeof_UsbDevice :: nat where [simp]: "sizeof_UsbDevice = 152"
definition sizeof_UsbSession :: nat where [simp]: "sizeof_UsbSession = 40"
definition sizeof_UsbPipe :: nat where [simp]: "sizeof_UsbPipe = 48"
definition sizeof_UsbSdkInterface :: nat where [simp]: "sizeof_UsbSdkInterface = 96"
definition sizeof_UsbInterfacePool :: nat where [simp]: "sizeof_UsbInterfacePool = 184"
definition sizeof_UsbInterfaceHandleEntity :: nat where [simp]: "sizeof_UsbInterfaceHandleEntity = 16"
definition sizeof_UsbIfRequest :: nat where [simp]: "sizeof_UsbIfRequest = 80"
definition sizeof_ptr :: nat where [simp]: "sizeof_ptr = 8"

text \<open>\<open>struct UsbControlRequestData\<close> of the raw interface, with the bytes that \<open>data\<close> points to.\<close>

record UsbControlRequestData =
  q_requestType :: u8
  q_requestCmd :: u8
  q_value :: u16
  q_index :: u16
  q_length :: u16
  q_timeout :: u32
  q_data :: "u8 list"

record UsbRequestData =
  qd_endPoint :: u8
  qd_data :: "u8 list"
  qd_length :: u32
  qd_timeout :: u32

record UsbFillRequestData =
  f_endPoint :: u8
  f_buffer :: "u8 list option"
  f_length :: u32
  f_numIsoPackets :: int
  f_callback :: "raw_callback option"
  f_userData :: "nat option"
  f_timeout :: u32
  f_userCallback :: "nat option"

subsection \<open>Devices and sessions\<close>

text \<open>\<open>struct UsbDeviceConfigDescriptor\<close>; \<open>cd_desc\<close> is an offset into the device's descriptors.\<close>

record UsbDeviceConfigDescriptor =
  cd_desc :: "nat option"
  cd_actualLen :: nat

record UsbDevice =
  d_refcnt :: int
  d_session :: "ptr option"
  d_devHandle :: "ptr option"
  d_busNum :: u8
  d_devAddr :: u8
  d_deviceDescriptor :: "u8 list"
  d_descriptors :: "(ptr \<times> u8 list) option"
  d_descriptorsLength :: nat
  d_activeConfig :: u8
  d_configDescriptors :: "(ptr \<times> UsbDeviceConfigDescriptor list) option"
  d_privateObject :: "ptr option"

abbreviation d_bNumConfigurations :: "UsbDevice \<Rightarrow> u8" where
  "d_bNumConfigurations d \<equiv> d_deviceDescriptor d ! 17"

record UsbDeviceHandle =
  claimedInterfaces :: u64
  dh_dev :: "ptr option"
  caps :: u32
  fd :: nat

record UsbSession =
  usbDevs :: "ptr list"
  ifacePoolList :: "ptr list"
  s_refCount :: int

subsection \<open>Interface pools\<close>

record UsbPipeInfo =
  pi_interfaceId :: u8
  pi_pipeId :: u8
  pi_pipeAddress :: u8
  pi_pipeType :: u8
  pi_pipeDirection :: u8
  pi_maxPacketSize :: u16
  pi_interval :: u8

record UsbPipe =
  pp_objectId :: int
  pp_info :: UsbPipeInfo

record UsbInterfaceInfo =
  ii_interfaceIndex :: u8
  ii_altSettings :: u8
  ii_curAltSetting :: u8
  ii_pipeNum :: u8
  ii_interfaceClass :: u8
  ii_interfaceSubClass :: u8
  ii_interfaceProtocol :: u8

record UsbSdkInterface =
  if_objectId :: int
  if_info :: UsbInterfaceInfo
  if_parentObjectId :: int
  pipeList :: "ptr list"
  if_status :: UsbInterfaceStatus
  altSettingId :: u8
  if_session :: "ptr option"
  if_refCount :: int

record UsbInterfacePool =
  po_objectId :: int
  po_session :: "ptr option"
  interfaceList :: "ptr list"
  po_refCount :: int
  po_busNum :: u8
  po_devAddr :: u8
  po_ioRefCount :: int
  submitRequestQueue :: "ptr list"
  queue_sem :: nat
  ioProcessTid :: nat
  ioProcessStopStatus :: UsbPoolProcessStatusType
  po_device :: "ptr option"

record UsbInterfaceHandleEntity =
  ih_devHandle :: "ptr option"
  ih_interfaceIndex :: u8

text \<open>\<open>ci_buffer\<close> is a request with an offset into its buffer.\<close>

record UsbRequestCompInfo =
  ci_type :: UsbRequestPipeType
  ci_buffer :: "(ptr \<times> nat) option"
  ci_length :: u32
  ci_actualLength :: u32
  ci_status :: UsbRequestStatus
  ci_userData :: "nat option"

record UsbIfRequest =
  rq_objectId :: int
  compInfo :: UsbRequestCompInfo
  hostRequest :: "ptr option"
  isSyncReq :: bool

definition zero_pipe :: UsbPipe where
  "zero_pipe = \<lparr>pp_objectId = 0, pp_info = \<lparr>pi_interfaceId = 0, pi_pipeId = 0, pi_pipeAddress = 0,
     pi_pipeType = 0, pi_pipeDirection = 0, pi_maxPacketSize = 0, pi_interval = 0\<rparr>\<rparr>"

definition zero_sdk_interface :: UsbSdkInterface where
  "zero_sdk_interface = \<lparr>if_objectId = 0, if_info = \<lparr>ii_interfaceIndex = 0, ii_altSettings = 0,
     ii_curAltSetting = 0, ii_pipeNum = 0, ii_interfaceClass = 0, ii_interfaceSubClass = 0,
     ii_interfaceProtocol = 0\<rparr>, if_parentObjectId = 0, pipeList = [],
     if_status = USB_INTERFACE_STATUS_NORMAL, altSettingId = 0, if_session = None, if_refCount = 0\<rparr>"

definition zero_pool :: UsbInterfacePool where
  "zero_pool = \<lparr>po_objectId = 0, po_session = None, interfaceList = [], po_refCount = 0, po_busNum = 0,
     po_devAddr = 0, po_ioRefCount = 0, submitRequestQueue = [], queue_sem = 0, ioProcessTid = 0,
     ioProcessStopStatus = USB_POOL_PROCESS_RUNNING, po_device = None\<rparr>"

definition zero_compInfo :: UsbRequestCompInfo where
  "zero_compInfo = \<lparr>ci_type = USB_REQUEST_TYPE_INVALID, ci_buffer = None, ci_length = 0,
     ci_actualLength = 0, ci_status = USB_REQUEST_COMPLETED, ci_userData = None\<rparr>"

definition zero_if_request :: UsbIfRequest where
  "zero_if_request = \<lparr>rq_objectId = 0, compInfo = zero_compInfo, hostRequest = None, isSyncReq = False\<rparr>"

definition zero_device :: UsbDevice where
  "zero_device = \<lparr>d_refcnt = 0, d_session = None, d_devHandle = None, d_busNum = 0, d_devAddr = 0,
     d_deviceDescriptor = replicate 18 0, d_descriptors = None, d_descriptorsLength = 0,
     d_activeConfig = 0, d_configDescriptors = None, d_privateObject = None\<rparr>"

definition zero_handle :: UsbDeviceHandle where
  "zero_handle = \<lparr>claimedInterfaces = 0, dh_dev = None, caps = 0, fd = 0\<rparr>"

text \<open>A fresh anonymous mapping: \<open>cap\<close> bytes are left for the buffer.\<close>

definition zero_request :: "nat \<Rightarrow> nat \<Rightarrow> UsbHostRequest" where
  "zero_request cap npackets = \<lparr>r_buffer = replicate cap 0, r_length = 0, r_actualLength = 0,
     r_status = USB_REQUEST_COMPLETED, r_userData = None, r_devHandle = None, r_callback = None,
     r_userCallback = None, r_bufLen = 0, r_sem = None, r_endPoint = 0, r_timeout = 0,
     r_requestType = 0, r_bulkUrb = None, r_urbs = None, r_numUrbs = 0, r_numRetired = 0,
     r_reqStatus = USB_REQUEST_COMPLETED, r_isoPacketOffset = 0, r_privateObj = None,
     r_numIsoPackets = 0,
     r_isoPacketDesc = replicate npackets \<lparr>pd_length = 0, pd_actualLength = 0, pd_status = 0\<rparr>\<rparr>"

subsection \<open>The operating system\<close>

text \<open>A URB as the kernel returns it: its address, the values it writes back, and the data.\<close>

record reaped =
  rp_urb :: "ptr \<times> nat"
  rp_status :: int
  rp_actualLength :: int
  rp_frames :: "UsbIsoPacketDesc list"
  rp_data :: "u8 list"

record UsbPnpAddRemoveInfo =
  pn_devNum :: int
  pn_busNum :: int
  pn_interfaceNumber :: u8
  pn_interfaceClass :: u8
  pn_interfaceSubClass :: u8
  pn_interfaceProtocol :: u8

datatype UsbPnpNotifyServiceCmd =
    USB_PNP_NOTIFY_ADD_INTERFACE | USB_PNP_NOTIFY_REMOVE_INTERFACE | USB_PNP_NOTIFY_OTHER nat

record 'k os_env =
  k_alloc :: alloc_os
  k_open :: "u8 \<Rightarrow> u8 \<Rightarrow> 'k \<Rightarrow> (int + nat) \<times> 'k"
  k_close :: "nat \<Rightarrow> 'k \<Rightarrow> 'k"
  k_read :: "nat \<Rightarrow> nat \<Rightarrow> 'k \<Rightarrow> (int + u8 list) \<times> 'k"
  k_caps :: "nat \<Rightarrow> 'k \<Rightarrow> u32 option \<times> 'k"
  k_submit :: "nat \<Rightarrow> ptr \<times> nat \<Rightarrow> UsbAdapterUrb \<Rightarrow> 'k \<Rightarrow> int option \<times> 'k"
  k_submit_value :: "nat \<Rightarrow> UsbAdapterUrb \<Rightarrow> 'k \<Rightarrow> int option \<times> 'k"
  k_discard :: "nat \<Rightarrow> ptr \<times> nat \<Rightarrow> 'k \<Rightarrow> int option \<times> 'k"
  k_reap :: "nat \<Rightarrow> 'k \<Rightarrow> (int + reaped) \<times> 'k"
  k_control :: "nat \<Rightarrow> UsbControlRequestData \<Rightarrow> 'k \<Rightarrow> (int + u8 list) \<times> 'k"
  k_setconf :: "nat \<Rightarrow> int \<Rightarrow> 'k \<Rightarrow> int option \<times> 'k"
  k_claim :: "nat \<Rightarrow> nat \<Rightarrow> 'k \<Rightarrow> int option \<times> 'k"
  k_release :: "nat \<Rightarrow> nat \<Rightarrow> 'k \<Rightarrow> int option \<times> 'k"
  k_setintf :: "nat \<Rightarrow> u8 \<Rightarrow> u8 \<Rightarrow> 'k \<Rightarrow> int option \<times> 'k"
  k_clearhalt :: "nat \<Rightarrow> u8 \<Rightarrow> 'k \<Rightarrow> int option \<times> 'k"
  k_reset :: "nat \<Rightarrow> 'k \<Rightarrow> int option \<times> 'k"
  k_mmap :: "nat \<Rightarrow> nat \<Rightarrow> 'k \<Rightarrow> (ptr \<times> nat) option \<times> 'k"
  k_munmap :: "ptr \<Rightarrow> nat \<Rightarrow> 'k \<Rightarrow> bool \<times> 'k"
  k_seminit :: "'k \<Rightarrow> ret \<times> 'k"
  k_signal :: "'k \<Rightarrow> bool \<times> 'k"
  k_kill :: "nat \<Rightarrow> 'k \<Rightarrow> ret \<times> 'k"
  k_gettid :: "'k \<Rightarrow> nat"
  k_thread_create :: "'k \<Rightarrow> ret \<times> 'k"
  k_thread_start :: "'k \<Rightarrow> ret \<times> 'k"
  k_thread_destroy :: "'k \<Rightarrow> ret \<times> 'k"
  k_pnp :: "UsbPnpNotifyServiceCmd \<Rightarrow> UsbPnpAddRemoveInfo \<Rightarrow> 'k \<Rightarrow> (ret \<times> int option) option \<times> 'k"

subsection \<open>The store\<close>

datatype event = RawCallbackCalled nat ptr | UserCallbackCalled nat UsbRequestCompInfo

record 'k host =
  h_mem :: usbmem
  h_kern :: 'k
  h_default :: "ptr option"
  h_sessions :: "ptr \<Rightarrow> UsbSession option"
  h_devs :: "ptr \<Rightarrow> UsbDevice option"
  h_handles :: "ptr \<Rightarrow> UsbDeviceHandle option"
  h_reqs :: "ptr \<Rightarrow> UsbHostRequest option"
  h_urbs :: "ptr \<Rightarrow> UsbAdapterUrb list option"
  h_isourbs :: "ptr \<Rightarrow> ptr option list option"
  h_pools :: "ptr \<Rightarrow> UsbInterfacePool option"
  h_ifaces :: "ptr \<Rightarrow> UsbSdkInterface option"
  h_pipes :: "ptr \<Rightarrow> UsbPipe option"
  h_ifhandles :: "ptr \<Rightarrow> UsbInterfaceHandleEntity option"
  h_ifreqs :: "ptr \<Rightarrow> UsbIfRequest option"
  h_pipeIdNum :: int
  h_ifaceIdNum :: int
  h_poolIdNum :: int
  h_requestObjectId :: int
  h_events :: "event list"

definition halloc :: "'k os_env \<Rightarrow> nat \<Rightarrow> 'k host \<Rightarrow> (ptr option \<times> 'k host) option" where
  "halloc K n s =
     do { (p, m) \<leftarrow> RawUsbMemCalloc (k_alloc K) n (h_mem s); Some (p, s\<lparr>h_mem := m\<rparr>) }"

definition hfree :: "ptr option \<Rightarrow> 'k host \<Rightarrow> 'k host option" where
  "hfree q s =
     do { m \<leftarrow> RawUsbMemFree q (h_mem s);
          Some (case q of None \<Rightarrow> s\<lparr>h_mem := m\<rparr>
                | Some p \<Rightarrow> s\<lparr>h_mem := m, h_sessions := (h_sessions s)(p := None),
                     h_devs := (h_devs s)(p := None), h_handles := (h_handles s)(p := None),
                     h_urbs := (h_urbs s)(p := None), h_isourbs := (h_isourbs s)(p := None),
                     h_pools := (h_pools s)(p := None), h_ifaces := (h_ifaces s)(p := None),
                     h_pipes := (h_pipes s)(p := None), h_ifhandles := (h_ifhandles s)(p := None),
                     h_ifreqs := (h_ifreqs s)(p := None)\<rparr>) }"

abbreviation put_req :: "ptr \<Rightarrow> UsbHostRequest \<Rightarrow> 'k host \<Rightarrow> 'k host" where
  "put_req p r s \<equiv> s\<lparr>h_reqs := (h_reqs s)(p \<mapsto> r)\<rparr>"

abbreviation put_dev :: "ptr \<Rightarrow> UsbDevice \<Rightarrow> 'k host \<Rightarrow> 'k host" where
  "put_dev p r s \<equiv> s\<lparr>h_devs := (h_devs s)(p \<mapsto> r)\<rparr>"

abbreviation put_handle :: "ptr \<Rightarrow> UsbDeviceHandle \<Rightarrow> 'k host \<Rightarrow> 'k host" where
  "put_handle p r s \<equiv> s\<lparr>h_handles := (h_handles s)(p \<mapsto> r)\<rparr>"

abbreviation put_session :: "ptr \<Rightarrow> UsbSession \<Rightarrow> 'k host \<Rightarrow> 'k host" where
  "put_session p r s \<equiv> s\<lparr>h_sessions := (h_sessions s)(p \<mapsto> r)\<rparr>"

abbreviation put_pool :: "ptr \<Rightarrow> UsbInterfacePool \<Rightarrow> 'k host \<Rightarrow> 'k host" where
  "put_pool p r s \<equiv> s\<lparr>h_pools := (h_pools s)(p \<mapsto> r)\<rparr>"

abbreviation put_iface :: "ptr \<Rightarrow> UsbSdkInterface \<Rightarrow> 'k host \<Rightarrow> 'k host" where
  "put_iface p r s \<equiv> s\<lparr>h_ifaces := (h_ifaces s)(p \<mapsto> r)\<rparr>"

abbreviation put_pipe :: "ptr \<Rightarrow> UsbPipe \<Rightarrow> 'k host \<Rightarrow> 'k host" where
  "put_pipe p r s \<equiv> s\<lparr>h_pipes := (h_pipes s)(p \<mapsto> r)\<rparr>"

abbreviation put_ifreq :: "ptr \<Rightarrow> UsbIfRequest \<Rightarrow> 'k host \<Rightarrow> 'k host" where
  "put_ifreq p r s \<equiv> s\<lparr>h_ifreqs := (h_ifreqs s)(p \<mapsto> r)\<rparr>"

abbreviation set_kern :: "'k \<Rightarrow> 'k host \<Rightarrow> 'k host" where
  "set_kern k s \<equiv> s\<lparr>h_kern := k\<rparr>"

text \<open>An operating system that refuses every call, and the state before any call; examples extend them.\<close>

definition null_os :: "'k os_env" where
  "null_os = \<lparr>k_alloc = (\<lambda>n sz. True), k_open = (\<lambda>b a k. (Inl ENOENT, k)), k_close = (\<lambda>f k. k),
     k_read = (\<lambda>f n k. (Inl 5, k)), k_caps = (\<lambda>f k. (None, k)), k_submit = (\<lambda>f u x k. (Some ENODEV, k)),
     k_submit_value = (\<lambda>f x k. (Some 14, k)), k_discard = (\<lambda>f u k. (Some 22, k)),
     k_reap = (\<lambda>f k. (Inl EAGAIN, k)), k_control = (\<lambda>f q k. (Inl EPIPE, k)),
     k_setconf = (\<lambda>f c k. (Some ENODEV, k)), k_claim = (\<lambda>f n k. (Some ENODEV, k)),
     k_release = (\<lambda>f n k. (Some ENODEV, k)), k_setintf = (\<lambda>f i a k. (Some ENODEV, k)),
     k_clearhalt = (\<lambda>f e k. (Some ENODEV, k)), k_reset = (\<lambda>f k. (Some ENODEV, k)),
     k_mmap = (\<lambda>f n k. (None, k)), k_munmap = (\<lambda>p n k. (False, k)), k_seminit = (\<lambda>k. (HDF_SUCCESS, k)),
     k_signal = (\<lambda>k. (True, k)), k_kill = (\<lambda>t k. (HDF_SUCCESS, k)), k_gettid = (\<lambda>k. 1),
     k_thread_create = (\<lambda>k. (HDF_SUCCESS, k)), k_thread_start = (\<lambda>k. (HDF_SUCCESS, k)),
     k_thread_destroy = (\<lambda>k. (HDF_SUCCESS, k)), k_pnp = (\<lambda>c i k. (None, k))\<rparr>"

definition null_host :: "'k \<Rightarrow> 'k host" where
  "null_host k = \<lparr>h_mem = \<lparr>nextAddr = 100, live = {}, g_usbRamTestFlag = False, g_usbRamTestHead = None\<rparr>,
     h_kern = k, h_default = None, h_sessions = Map.empty, h_devs = Map.empty, h_handles = Map.empty,
     h_reqs = Map.empty, h_urbs = Map.empty, h_isourbs = Map.empty, h_pools = Map.empty,
     h_ifaces = Map.empty, h_pipes = Map.empty, h_ifhandles = Map.empty, h_ifreqs = Map.empty,
     h_pipeIdNum = 0, h_ifaceIdNum = 0, h_poolIdNum = 0, h_requestObjectId = 0, h_events = []\<rparr>"

text \<open>With the tracker off, allocation and release are those of the allocator.\<close>

lemma halloc_off:
  assumes "\<not> g_usbRamTestFlag (h_mem s)" "0 < n" "\<forall>i k. k_alloc K i k"
  shows "halloc K n s = Some (Some (nextAddr (h_mem s)),
    s\<lparr>h_mem := (h_mem s)\<lparr>nextAddr := nextAddr (h_mem s) + 1,
       live := insert (nextAddr (h_mem s)) (live (h_mem s))\<rparr>\<rparr>)"
  using assms by (simp add: halloc_def RawUsbMemCalloc_off OsalMemAlloc_def)

lemma hfree_off:
  assumes "\<not> g_usbRamTestFlag (h_mem s)" "p \<in> live (h_mem s)"
  shows "hfree (Some p) s = Some (s\<lparr>h_mem := (h_mem s)\<lparr>live := live (h_mem s) - {p}\<rparr>,
     h_sessions := (h_sessions s)(p := None),
     h_devs := (h_devs s)(p := None), h_handles := (h_handles s)(p := None),
     h_urbs := (h_urbs s)(p := None), h_isourbs := (h_isourbs s)(p := None),
     h_pools := (h_pools s)(p := None), h_ifaces := (h_ifaces s)(p := None),
     h_pipes := (h_pipes s)(p := None), h_ifhandles := (h_ifhandles s)(p := None),
     h_ifreqs := (h_ifreqs s)(p := None)\<rparr>)"
  using assms by (simp add: hfree_def RawUsbMemFree_off)

lemma hfree_null: "hfree None s = Some s"
  by (simp add: hfree_def RawUsbMemFree_def)

end
