(* ===== verification/Usb_Completion.thy ===== *)
theory Usb_Completion
  imports Usb_State
begin

text \<open>
  Completion of a request: \<open>SyncRequestCallback\<close> and \<open>RawHandleRequestCompletion\<close> of
  \<open>usb_raw_api_library.c\<close> and \<open>UsbIoSetRequestCompletionInfo\<close> of \<open>usb_io_manage.c\<close>, the two functions
  that the sources install as a request's \<open>callback\<close>.
\<close>

definition OsalSemPost :: "ptr \<Rightarrow> 'k host \<Rightarrow> 'k host option" where
  "OsalSemPost p s =
     do { r \<leftarrow> h_reqs s p; n \<leftarrow> r_sem r; Some (put_req p (r\<lparr>r_sem := Some (Suc n)\<rparr>) s) }"

text \<open>
  The user data of a synchronous request is the address of the local variable \<open>completed\<close> of the
  waiting function, which nothing reads; only the semaphore carries information.
\<close>

definition SyncRequestCallback :: "ptr \<Rightarrow> 'k host \<Rightarrow> 'k host option" where
  "SyncRequestCallback p s =
     do { r \<leftarrow> h_reqs s p;
          if r_userData r = None then Some s else OsalSemPost p s }"

definition UsbIoSetRequestCompletionInfo :: "ptr \<Rightarrow> 'k host \<Rightarrow> 'k host option" where
  "UsbIoSetRequestCompletionInfo p s =
     do { r \<leftarrow> h_reqs s p;
          case r_privateObj r of
            None \<Rightarrow> Some s
          | Some o' \<Rightarrow>
              do { q \<leftarrow> h_ifreqs s o';
                let ci = (compInfo q)\<lparr>
                      ci_buffer := Some (p, if (r_requestType r AND USB_DDK_ENDPOINT_XFERTYPE_MASK) = 0
                                            then USB_RAW_CONTROL_SETUP_SIZE else 0),
                      ci_length := r_length r,
                      ci_actualLength := of_int (r_actualLength r),
                      ci_status := r_status r,
                      ci_userData := r_userData r\<rparr>;
                    s1 = put_ifreq o' (q\<lparr>compInfo := ci\<rparr>) s;
                    s2 = (case r_userCallback r of
                            None \<Rightarrow> s1
                          | Some cb \<Rightarrow> s1\<lparr>h_events := h_events s1 @ [UserCallbackCalled cb ci]\<rparr>)
                in if isSyncReq q then OsalSemPost p s2 else Some s2 } }"

definition call_raw_callback :: "raw_callback \<Rightarrow> ptr \<Rightarrow> 'k host \<Rightarrow> 'k host option" where
  "call_raw_callback cb p s =
     (case cb of
        SyncRequestCallbackFn \<Rightarrow> SyncRequestCallback p s
      | UsbIoSetRequestCompletionInfoFn \<Rightarrow> UsbIoSetRequestCompletionInfo p s
      | RawCallback n \<Rightarrow> Some (s\<lparr>h_events := h_events s @ [RawCallbackCalled n p]\<rparr>))"

definition RawHandleRequestCompletion ::
  "ptr option \<Rightarrow> UsbRequestStatus \<Rightarrow> 'k host \<Rightarrow> (ret \<times> 'k host) option" where
  "RawHandleRequestCompletion request status s =
     (case request of
        None \<Rightarrow> Some (RetErr HDF_ERR_INVALID_PARAM, s)
      | Some p \<Rightarrow>
          do { r \<leftarrow> h_reqs s p;
               let s1 = put_req p (r\<lparr>r_status := status\<rparr>) s in
               case r_callback r of
                 None \<Rightarrow> Some (HDF_SUCCESS, s1)
               | Some cb \<Rightarrow> do { s2 \<leftarrow> call_raw_callback cb p s1; Some (HDF_SUCCESS, s2) } })"

end
