(* ===== verification/Usb_Adapter.thy ===== *)
theory Usb_Adapter
  imports Usb_Completion
begin

text \<open>
  The Linux adapter, \<open>usb/ddk/host/src/linux_adapter.c\<close>: opening and closing devices, reading and
  splitting their descriptors, building and submitting URBs, and handling reaped URBs.

  The address of a URB is its block with a byte offset; \<open>urbs[i]\<close> of an array of URBs is at offset
  \<open>i * sizeof(struct UsbAdapterUrb)\<close>.
\<close>

subsection \<open>Descriptors\<close>

definition OsAdapterRealloc ::
  "'k os_env \<Rightarrow> (ptr \<times> u8 list) option \<Rightarrow> nat \<Rightarrow> nat \<Rightarrow> 'k host \<Rightarrow>
   ((ptr \<times> u8 list) option \<times> 'k host) option" where
  "OsAdapterRealloc K old oldSize newSize s =
     do { (q, s1) \<leftarrow> halloc K newSize s;
          case q of
            None \<Rightarrow> Some (None, s1)
          | Some a \<Rightarrow>
              if oldSize > 0 then
                (case old of
                   None \<Rightarrow> do { s2 \<leftarrow> hfree (Some a) s1; Some (None, s2) }
                 | Some (o', src) \<Rightarrow>
                     do { (ok, bs) \<leftarrow> memcpy_s (replicate newSize 0) 0 newSize src oldSize;
                          if \<not> ok then do { s2 \<leftarrow> hfree (Some a) s1; Some (None, s2) }
                          else do { s2 \<leftarrow> hfree (Some o') s1; Some (Some (a, bs), s2) } })
              else do { s2 \<leftarrow> hfree (map_option fst old) s1; Some (Some (a, replicate newSize 0), s2) } }"

definition OsDeviceCompare :: "UsbDevice \<Rightarrow> u32 \<Rightarrow> bool" where
  "OsDeviceCompare dev searchKey \<longleftrightarrow>
     ucast (d_busNum dev) = drop_bit 8 searchKey \<and> ucast (d_devAddr dev) = searchKey AND 0xFF"

text \<open>\<open>HdfSListSearch\<close>: the first element that the comparison accepts.\<close>

fun dev_search :: "(ptr \<Rightarrow> UsbDevice option) \<Rightarrow> u32 \<Rightarrow> ptr list \<Rightarrow> ptr option option" where
  "dev_search h key [] = Some None"
| "dev_search h key (p # ps) =
     do { d \<leftarrow> h p; if OsDeviceCompare d key then Some (Some p) else dev_search h key ps }"

definition OsGetDeviceHandle :: "ptr option \<Rightarrow> u8 \<Rightarrow> u8 \<Rightarrow> 'k host \<Rightarrow> (ptr option \<times> 'k host) option" where
  "OsGetDeviceHandle session busNum usbAddr s =
     (case session of
        None \<Rightarrow> Some (None, s)
      | Some sp \<Rightarrow>
          do { ss \<leftarrow> h_sessions s sp;
               q \<leftarrow> dev_search (h_devs s) (push_bit 8 (ucast busNum) OR ucast usbAddr) (usbDevs ss);
               case q of
                 None \<Rightarrow> Some (None, s)
               | Some p \<Rightarrow>
                   do { d \<leftarrow> h_devs s p;
                        Some (d_devHandle d, put_dev p (d\<lparr>d_refcnt := d_refcnt d + 1\<rparr>) s) } })"

definition OsCallocDeviceHandle :: "'k os_env \<Rightarrow> 'k host \<Rightarrow> (ptr option \<times> 'k host) option" where
  "OsCallocDeviceHandle K s =
     do { (q, s1) \<leftarrow> halloc K sizeof_UsbDeviceHandle s;
          case q of None \<Rightarrow> Some (None, s1) | Some a \<Rightarrow> Some (Some a, put_handle a zero_handle s1) }"

definition OsAllocDevice ::
  "'k os_env \<Rightarrow> ptr option \<Rightarrow> ptr \<Rightarrow> 'k host \<Rightarrow> (ptr option \<times> 'k host) option" where
  "OsAllocDevice K session handle s =
     do { (q, s1) \<leftarrow> halloc K sizeof_UsbDevice s;
          case q of
            None \<Rightarrow> Some (None, s1)
          | Some a \<Rightarrow>
              do { h \<leftarrow> h_handles s1 handle;
                   Some (Some a, put_handle handle (h\<lparr>dh_dev := Some a\<rparr>)
                     (put_dev a (zero_device\<lparr>d_session := session, d_devHandle := Some handle\<rparr>) s1)) } }"

text \<open>
  The path has 20 characters for every bus and address, so that it fits.  The result is an error or
  the file descriptor.
\<close>

definition OsGetUsbFd :: "'k os_env \<Rightarrow> ptr option \<Rightarrow> 'k host \<Rightarrow> ((hdf_err + nat) \<times> 'k host) option" where
  "OsGetUsbFd K dev s =
     (case dev of
        None \<Rightarrow> Some (Inl HDF_ERR_INVALID_PARAM, s)
      | Some p \<Rightarrow>
          do { d \<leftarrow> h_devs s p;
               case k_open K (d_busNum d) (d_devAddr d) (h_kern s) of
                 (Inr n, k) \<Rightarrow> Some (Inr n, set_kern k s)
               | (Inl e, k) \<Rightarrow>
                   if e = ENOENT then
                     (case k_open K (d_busNum d) (d_devAddr d) k of
                        (Inr n, k') \<Rightarrow> Some (Inr n, set_kern k' s)
                      | (Inl e', k') \<Rightarrow> Some (Inl HDF_DEV_ERR_NO_DEVICE, set_kern k' s))
                   else if e = EACCES then Some (Inl HDF_ERR_BAD_FD, set_kern k s)
                   else Some (Inl HDF_FAILURE, set_kern k s) })"

text \<open>The \<open>do\<close> loop of \<open>OsReadDescriptors\<close>, entered with the current allocation length.\<close>

partial_function (option) OsReadDescriptors_loop ::
  "'k os_env \<Rightarrow> ptr \<Rightarrow> nat \<Rightarrow> nat \<Rightarrow> 'k host \<Rightarrow> (ret \<times> 'k host) option" where
  "OsReadDescriptors_loop K dev fd' allocLen s =
     do { d \<leftarrow> h_devs s dev;
          (q, s1) \<leftarrow> OsAdapterRealloc K (d_descriptors d) allocLen (allocLen + DESC_READ_LEN) s;
          case q of
            None \<Rightarrow> Some (RetErr HDF_ERR_MALLOC_FAIL, put_dev dev (d\<lparr>d_descriptors := None\<rparr>) s1)
          | Some (a, bs) \<Rightarrow>
              do { bs0 \<leftarrow> wrn bs (d_descriptorsLength d) (replicate DESC_READ_LEN 0);
                   case k_read K fd' DESC_READ_LEN (h_kern s1) of
                     (Inl e, k) \<Rightarrow>
                       Some (RetErr HDF_ERR_IO,
                             put_dev dev (d\<lparr>d_descriptors := Some (a, bs0)\<rparr>) (set_kern k s1))
                   | (Inr dat, k) \<Rightarrow>
                       do { bs1 \<leftarrow> wrn bs0 (d_descriptorsLength d) dat;
                            let n = d_descriptorsLength d + length dat;
                                s2 = put_dev dev (d\<lparr>d_descriptors := Some (a, bs1),
                                                    d_descriptorsLength := n\<rparr>) (set_kern k s1)
                            in if n = allocLen + DESC_READ_LEN
                               then OsReadDescriptors_loop K dev fd' (allocLen + DESC_READ_LEN) s2
                               else Some (HDF_SUCCESS, s2) } } }"

declare OsReadDescriptors_loop.simps [code]

definition OsReadDescriptors :: "'k os_env \<Rightarrow> ptr \<Rightarrow> 'k host \<Rightarrow> (ret \<times> 'k host) option" where
  "OsReadDescriptors K dev s =
     do { d \<leftarrow> h_devs s dev; hp \<leftarrow> d_devHandle d; h \<leftarrow> h_handles s hp;
          OsReadDescriptors_loop K dev (fd h) 0 s }"

text \<open>
  The loop of \<open>OsParseConfigDescriptors\<close> over the remaining \<open>k\<close> configurations: \<open>off\<close> is the
  position in the device's descriptors and \<open>descLen\<close> a \<open>size_t\<close>.
\<close>

fun parse_config_loop ::
  "u8 list \<Rightarrow> nat \<Rightarrow> nat \<Rightarrow> nat \<Rightarrow> u64 \<Rightarrow> UsbDeviceConfigDescriptor list \<Rightarrow>
   (ret \<times> UsbDeviceConfigDescriptor list) option" where
  "parse_config_loop bs 0 i off descLen cs = Some (HDF_SUCCESS, cs)"
| "parse_config_loop bs (Suc k) i off descLen cs =
     (if descLen < of_nat USB_DDK_DT_CONFIG_SIZE then Some (RetErr HDF_ERR_IO, cs)
      else do { len \<leftarrow> rd8 bs off; ty \<leftarrow> rd8 bs (off + 1);
        if ty \<noteq> USB_DDK_DT_CONFIG \<or> unat len < USB_DDK_DT_CONFIG_SIZE then Some (RetErr HDF_ERR_IO, cs)
        else do { lo \<leftarrow> rd8 bs (off + 2); hi \<leftarrow> rd8 bs (off + 3);
          let total = le16 lo hi;
              configLen = (if ucast total > descLen then ucast descLen else total) in
          if unat total < USB_DDK_DT_CONFIG_SIZE then Some (RetErr HDF_ERR_IO, cs)
          else if \<not> i < length cs then None
          else parse_config_loop bs k (Suc i) (off + unat configLen) (descLen - ucast configLen)
                 (cs[i := \<lparr>cd_desc = Some off, cd_actualLen = unat configLen\<rparr>]) } })"

definition OsParseConfigDescriptors :: "'k os_env \<Rightarrow> ptr \<Rightarrow> 'k host \<Rightarrow> (ret \<times> 'k host) option" where
  "OsParseConfigDescriptors K dev s =
     do { d \<leftarrow> h_devs s dev;
          (da, bs) \<leftarrow> d_descriptors d;
          numConfigs \<leftarrow> rd8 bs 17;
          if numConfigs = 0 then Some (HDF_SUCCESS, s)
          else do {
            (q, s1) \<leftarrow> halloc K (unat numConfigs * sizeof_UsbDeviceConfigDescriptor) s;
            case q of
              None \<Rightarrow> Some (RetErr HDF_ERR_MALLOC_FAIL, put_dev dev (d\<lparr>d_configDescriptors := None\<rparr>) s1)
            | Some a \<Rightarrow>
                do { (r, cs) \<leftarrow> parse_config_loop bs (unat numConfigs) 0 USB_DDK_DT_DEVICE_SIZE
                       (of_nat (d_descriptorsLength d) - of_nat USB_DDK_DT_DEVICE_SIZE)
                       (replicate (unat numConfigs) \<lparr>cd_desc = None, cd_actualLen = 0\<rparr>);
                     Some (r, put_dev dev (d\<lparr>d_configDescriptors := Some (a, cs)\<rparr>) s1) } } }"

definition OsInitDevice :: "'k os_env \<Rightarrow> ptr \<Rightarrow> u8 \<Rightarrow> u8 \<Rightarrow> 'k host \<Rightarrow> (ret \<times> 'k host) option" where
  "OsInitDevice K dev busNum devAddr s =
     do { d \<leftarrow> h_devs s dev; hp \<leftarrow> d_devHandle d;
          let s1 = put_dev dev (d\<lparr>d_busNum := busNum, d_devAddr := devAddr\<rparr>) s in
          do { (f, s2) \<leftarrow> OsGetUsbFd K (Some dev) s1;
               case f of
                 Inl e \<Rightarrow> Some (RetErr e, s2)
               | Inr n \<Rightarrow>
                   do { h \<leftarrow> h_handles s2 hp;
                     (case k_caps K n (h_kern s2) of
                       (c, k) \<Rightarrow>
                         let s3 = put_handle hp (h\<lparr>fd := n, caps := (case c of Some x \<Rightarrow> x
                                | None \<Rightarrow> USB_ADAPTER_CAP_BULK_CONTINUATION)\<rparr>) (set_kern k s2) in
                         do { d3 \<leftarrow> h_devs s3 dev;
                              (r, s4) \<leftarrow> OsReadDescriptors K dev
                                 (put_dev dev (d3\<lparr>d_descriptorsLength := 0\<rparr>) s3);
                              if r \<noteq> HDF_SUCCESS then Some (r, s4)
                              else do { (r5, s5) \<leftarrow> OsParseConfigDescriptors K dev s4;
                                if r5 \<noteq> HDF_SUCCESS then Some (r5, s5)
                                else do { d5 \<leftarrow> h_devs s5 dev; (a5, bs) \<leftarrow> d_descriptors d5;
                                  (ok, img) \<leftarrow> memcpy_s (d_deviceDescriptor d5) 0 18 bs USB_DDK_DT_DEVICE_SIZE;
                                  Some (if ok then HDF_SUCCESS else RetErr HDF_ERR_IO,
                                        put_dev dev (d5\<lparr>d_deviceDescriptor := img\<rparr>) s5) } } }) } } }"

definition OsGetActiveConfig :: "'k os_env \<Rightarrow> ptr option \<Rightarrow> nat \<Rightarrow> 'k host \<Rightarrow> (ret \<times> 'k host) option" where
  "OsGetActiveConfig K dev fd' s =
     (case dev of
        None \<Rightarrow> Some (RetErr HDF_ERR_INVALID_PARAM, s)
      | Some p \<Rightarrow>
          (case k_control K fd' \<lparr>q_requestType = USB_PIPE_DIRECTION_IN, q_requestCmd = 8, q_value = 0,
                    q_index = 0, q_length = 1, q_timeout = 1000, q_data = [0]\<rparr> (h_kern s) of
             (Inl e, k) \<Rightarrow> Some (RetErr HDF_FAILURE, set_kern k s)
           | (Inr dat, k) \<Rightarrow>
               do { cell \<leftarrow> wrn [0] 0 dat; d \<leftarrow> h_devs s p;
                    Some (HDF_SUCCESS, put_dev p (d\<lparr>d_activeConfig := cell ! 0\<rparr>) (set_kern k s)) }))"

subsection \<open>Discarding URBs\<close>

text \<open>The loop of \<open>OsFreeIsoUrbs\<close>: it stops at the first empty slot.\<close>

fun free_iso_urbs :: "nat \<Rightarrow> nat \<Rightarrow> ptr option list \<Rightarrow> 'k host \<Rightarrow> 'k host option" where
  "free_iso_urbs 0 i us s = Some s"
| "free_iso_urbs (Suc n) i us s =
     (if \<not> i < length us then None
      else case us ! i of None \<Rightarrow> Some s
           | Some u \<Rightarrow> do { s1 \<leftarrow> hfree (Some u) s; free_iso_urbs n (Suc i) us s1 })"

definition OsFreeIsoUrbs :: "ptr \<Rightarrow> 'k host \<Rightarrow> 'k host option" where
  "OsFreeIsoUrbs p s =
     do { r \<leftarrow> h_reqs s p; a \<leftarrow> r_urbs r; us \<leftarrow> h_isourbs s a;
          s1 \<leftarrow> free_iso_urbs (nat (r_numUrbs r)) 0 us s;
          s2 \<leftarrow> hfree (Some a) s1;
          Some (put_req p (r\<lparr>r_urbs := None\<rparr>) s2) }"

text \<open>
  The loop runs from \<open>last - 1\<close> down to \<open>first\<close>; \<open>n\<close> counts the iterations left.  \<open>request->urbs\<close> is
  a \<open>void *\<close>, so that \<open>&request->urbs[i]\<close> lies \<open>i\<close> bytes behind it.
\<close>

fun discard_urbs :: "'k os_env \<Rightarrow> nat \<Rightarrow> UsbHostRequest \<Rightarrow> nat \<Rightarrow> nat \<Rightarrow> 'k host \<Rightarrow> 'k host option" where
  "discard_urbs K fd' r first 0 s = Some s"
| "discard_urbs K fd' r first (Suc n) s =
     (let i = first + n in
      do { a \<leftarrow> r_urbs r;
           u \<leftarrow> (if r_requestType r = USB_REQUEST_TYPE_ISOCHRONOUS
                then do { us \<leftarrow> h_isourbs s a;
                          if i < length us then do { q \<leftarrow> us ! i; Some (q, 0) } else None }
                else Some (a, i));
           discard_urbs K fd' r first n (set_kern (snd (k_discard K fd' u (h_kern s))) s) })"

definition OsDiscardUrbs :: "'k os_env \<Rightarrow> ptr option \<Rightarrow> int \<Rightarrow> int \<Rightarrow> 'k host \<Rightarrow> 'k host option" where
  "OsDiscardUrbs K request first last' s =
     (case request of
        None \<Rightarrow> Some s
      | Some p \<Rightarrow>
          do { r \<leftarrow> h_reqs s p;
               case r_devHandle r of
                 None \<Rightarrow> Some s
               | Some hp \<Rightarrow>
                   if first > URBS_PER_REQUEST \<or> first > last' then Some s
                   else if first = last' then Some s
                   else if first < 0 then None
                   else do { h \<leftarrow> h_handles s hp;
                             discard_urbs K (fd h) r (nat first) (nat (last' - first)) s } })"

subsection \<open>Submitting requests\<close>

definition OsSubmitControlRequest :: "'k os_env \<Rightarrow> ptr option \<Rightarrow> 'k host \<Rightarrow> (ret \<times> 'k host) option" where
  "OsSubmitControlRequest K request s =
     (case request of
        None \<Rightarrow> Some (RetErr HDF_ERR_INVALID_PARAM, s)
      | Some p \<Rightarrow>
          do { r \<leftarrow> h_reqs s p;
               case r_devHandle r of
                 None \<Rightarrow> Some (RetErr HDF_ERR_INVALID_PARAM, s)
               | Some hp \<Rightarrow>
                   if r_length r > MAX_BULK_DATA_BUFFER_LENGTH then Some (RetErr HDF_ERR_INVALID_PARAM, s)
                   else do {
                     h \<leftarrow> h_handles s hp;
                     (q, s1) \<leftarrow> halloc K sizeof_UsbAdapterUrb s;
                     case q of
                       None \<Rightarrow> Some (RetErr HDF_ERR_MALLOC_FAIL, s1)
                     | Some a \<Rightarrow>
                         let urb = zero_urb\<lparr>u_type := USB_ADAPTER_URB_TYPE_CONTROL,
                                     u_endPoint := r_endPoint r, u_buffer := 0,
                                     u_bufferLength := int (unat (r_length r)), u_userContext := Some p\<rparr>;
                             s2 = put_req p (r\<lparr>r_urbs := Some a, r_numUrbs := 1\<rparr>)
                                    (s1\<lparr>h_urbs := (h_urbs s1)(a \<mapsto> [urb])\<rparr>)
                         in (case k_submit K (fd h) (a, 0) urb (h_kern s2) of
                               (None, k) \<Rightarrow> Some (HDF_SUCCESS, set_kern k s2)
                             | (Some e, k) \<Rightarrow>
                                 do { s3 \<leftarrow> hfree (Some a) (set_kern k s2);
                                      Some (RetErr (if e = ENODEV then HDF_DEV_ERR_NO_DEVICE else HDF_ERR_IO),
                                            put_req p (r\<lparr>r_urbs := None, r_numUrbs := 1\<rparr>) s3) }) } })"

text \<open>It fills the URB in place; the result is the return code with the URB.\<close>

definition OsSubmitBulkRequestHandleUrb ::
  "ptr \<Rightarrow> UsbHostRequest \<Rightarrow> UsbAdapterUrb \<Rightarrow> int \<Rightarrow> int \<Rightarrow> ret \<times> UsbAdapterUrb" where
  "OsSubmitBulkRequestHandleUrb p r urb bulkBufferLen number =
     (if bulkBufferLen = 0 then (RetErr HDF_ERR_INVALID_PARAM, urb)
      else let urb1 = urb\<lparr>u_userContext := Some p\<rparr> in
        if r_requestType r \<noteq> USB_REQUEST_TYPE_BULK \<and> r_requestType r \<noteq> USB_REQUEST_TYPE_INTERRUPT
        then (RetErr HDF_ERR_INVALID_PARAM, urb1)
        else
          let ty = (if r_requestType r = USB_REQUEST_TYPE_BULK then USB_ADAPTER_URB_TYPE_BULK
                    else USB_ADAPTER_URB_TYPE_INTERRUPT);
              len = int (unat (r_length r)) mod bulkBufferLen;
              bl = (if number = r_numUrbs r - 1
                    then (if len = 0 then bulkBufferLen else len) else bulkBufferLen)
          in (HDF_SUCCESS, urb1\<lparr>u_type := ty, u_endPoint := r_endPoint r,
                 u_buffer := nat (number * bulkBufferLen), u_bufferLength := bl\<rparr>))"

text \<open>The loop of \<open>OsSubmitBulkRequestHandle\<close>; \<open>n\<close> counts the URBs left.\<close>

fun submit_bulk_loop ::
  "'k os_env \<Rightarrow> nat \<Rightarrow> ptr \<Rightarrow> ptr \<Rightarrow> int \<Rightarrow> nat \<Rightarrow> nat \<Rightarrow> 'k host \<Rightarrow> (ret \<times> 'k host) option" where
  "submit_bulk_loop K fd' p a bulkBufferLen 0 i s = Some (HDF_SUCCESS, s)"
| "submit_bulk_loop K fd' p a bulkBufferLen (Suc n) i s =
     do { r \<leftarrow> h_reqs s p; us \<leftarrow> h_urbs s a;
          if \<not> i < length us then None
          else (case OsSubmitBulkRequestHandleUrb p r (us ! i) bulkBufferLen (int i) of
            (ret, urb) \<Rightarrow>
              let s1 = s\<lparr>h_urbs := (h_urbs s)(a \<mapsto> us[i := urb])\<rparr> in
              if ret \<noteq> HDF_SUCCESS then Some (ret, s1)
              else (case k_submit K fd' (a, i * sizeof_UsbAdapterUrb) urb (h_kern s1) of
                (None, k) \<Rightarrow> submit_bulk_loop K fd' p a bulkBufferLen n (Suc i) (set_kern k s1)
              | (Some e, k) \<Rightarrow>
                  if i = 0 then Some (RetErr HDF_ERR_IO, set_kern k s1)
                  else Some (HDF_SUCCESS,
                    put_req p (r\<lparr>r_numRetired := r_numRetired r + (r_numUrbs r - int i),
                                 r_reqStatus := (if e \<noteq> EREMOTEIO then USB_REQUEST_ERROR
                                                 else r_reqStatus r)\<rparr>) (set_kern k s1)))) }"

definition OsSubmitBulkRequestHandle ::
  "'k os_env \<Rightarrow> ptr \<Rightarrow> ptr \<Rightarrow> int \<Rightarrow> 'k host \<Rightarrow> (ret \<times> 'k host) option" where
  "OsSubmitBulkRequestHandle K p a bulkBufferLen s =
     do { r \<leftarrow> h_reqs s p; hp \<leftarrow> r_devHandle r; h \<leftarrow> h_handles s hp;
          submit_bulk_loop K (fd h) p a bulkBufferLen (nat (r_numUrbs r)) 0 s }"

text \<open>The buffer length of one URB, by the capabilities of the host controller.\<close>

definition bulk_buffer_len :: "u32 \<Rightarrow> u32 \<Rightarrow> int" where
  "bulk_buffer_len cps len =
     (if cps AND USB_ADAPTER_CAP_BULK_SCATTER_GATHER \<noteq> 0 then (if len \<noteq> 0 then int (unat len) else 1)
      else if cps AND USB_ADAPTER_CAP_BULK_CONTINUATION \<noteq> 0 then int (unat MAX_BULK_DATA_BUFFER_LENGTH)
      else if cps AND USB_ADAPTER_CAP_NO_PACKET_SIZE_LIM \<noteq> 0 then (if len \<noteq> 0 then int (unat len) else 1)
      else int (unat MAX_BULK_DATA_BUFFER_LENGTH))"

definition OsSubmitBulkRequest :: "'k os_env \<Rightarrow> ptr option \<Rightarrow> 'k host \<Rightarrow> (ret \<times> 'k host) option" where
  "OsSubmitBulkRequest K request s =
     (case request of
        None \<Rightarrow> Some (RetErr HDF_ERR_INVALID_PARAM, s)
      | Some p \<Rightarrow>
          do { r \<leftarrow> h_reqs s p;
            if r_length r > MAX_BULK_DATA_BUFFER_LENGTH \<or> r_length r \<le> 0 then Some (RetErr HDF_FAILURE, s)
            else do {
              hp \<leftarrow> r_devHandle r; h \<leftarrow> h_handles s hp;
              let bl = bulk_buffer_len (caps h) (r_length r);
                  len = int (unat (r_length r));
                  n = (if len = 0 then 1 else if len mod bl > 0 then len div bl + 1 else len div bl)
              in do {
                (q, r1, s1) \<leftarrow>
                  (if n \<noteq> 1 then
                     do { (q, s1) \<leftarrow> halloc K (nat n * sizeof_UsbAdapterUrb) s;
                          s2 \<leftarrow> hfree (r_bulkUrb r) s1;
                          Some (q, r\<lparr>r_bulkUrb := q, r_urbs := None\<rparr>,
                                (case q of None \<Rightarrow> s2
                                 | Some a \<Rightarrow> s2\<lparr>h_urbs := (h_urbs s2)(a \<mapsto> replicate (nat n) zero_urb)\<rparr>)) }
                   else Some (r_bulkUrb r, r, s));
                case q of
                  None \<Rightarrow> Some (RetErr HDF_ERR_MALLOC_FAIL, put_req p r1 s1)
                | Some a \<Rightarrow>
                    OsSubmitBulkRequestHandle K p a bl
                      (put_req p (r1\<lparr>r_urbs := Some a, r_numUrbs := n, r_numRetired := 0,
                                     r_reqStatus := USB_REQUEST_COMPLETED\<rparr>) s1) } } })"

text \<open>
  The inner loop of \<open>OsAllocIsoUrbs\<close>: \<open>n\<close> packets from index \<open>j\<close> of the URB.  A store to
  \<open>isoFrameDesc[j]\<close> needs room behind the URB.
\<close>

fun iso_fill_packets ::
  "UsbIsoPacketDesc list \<Rightarrow> nat \<Rightarrow> nat \<Rightarrow> nat \<Rightarrow> UsbAdapterUrb \<Rightarrow> UsbAdapterUrb option" where
  "iso_fill_packets ds 0 j packetIdx urb = Some urb"
| "iso_fill_packets ds (Suc n) j packetIdx urb =
     (if \<not> packetIdx < length ds then None
      else if \<not> j < length (u_isoFrameDesc urb) then None
      else let len = pd_length (ds ! packetIdx) in
        iso_fill_packets ds n (Suc j) (Suc packetIdx)
          (urb\<lparr>u_bufferLength := u_bufferLength urb + int (unat len),
               u_isoFrameDesc := (u_isoFrameDesc urb)[j := (u_isoFrameDesc urb ! j)\<lparr>pd_length := len\<rparr>]\<rparr>))"

fun alloc_iso_loop ::
  "'k os_env \<Rightarrow> ptr \<Rightarrow> ptr \<Rightarrow> nat \<Rightarrow> nat \<Rightarrow> int \<Rightarrow> nat \<Rightarrow> nat \<Rightarrow> 'k host \<Rightarrow> (ret \<times> 'k host) option" where
  "alloc_iso_loop K p a 0 i left packetIdx buf s = Some (HDF_SUCCESS, s)"
| "alloc_iso_loop K p a (Suc n) i left packetIdx buf s =
     (let numPackets = min left MAX_ISO_PACKETS_PER_URB in
      do { (q, s1) \<leftarrow> halloc K sizeof_UsbAdapterUrb s;
           case q of
             None \<Rightarrow> do { s2 \<leftarrow> OsFreeIsoUrbs p s1; Some (RetErr HDF_ERR_MALLOC_FAIL, s2) }
           | Some u \<Rightarrow>
               do { r \<leftarrow> h_reqs s1 p; us \<leftarrow> h_isourbs s1 a;
                    if \<not> i < length us then None
                    else do {
                      urb \<leftarrow> iso_fill_packets (r_isoPacketDesc r) (nat numPackets) 0 packetIdx zero_urb;
                      let urb1 = urb\<lparr>u_type := USB_ADAPTER_URB_TYPE_ISO, u_flags := USB_ADAPTER_URB_ISO_ASAP,
                                     u_endPoint := r_endPoint r, u_numberOfPackets := numPackets,
                                     u_buffer := buf, u_userContext := Some p\<rparr>
                      in alloc_iso_loop K p a n (Suc i) (left - numPackets)
                           (packetIdx + nat numPackets) (buf + nat (u_bufferLength urb1))
                           (s1\<lparr>h_isourbs := (h_isourbs s1)(a \<mapsto> us[i := Some u]),
                               h_urbs := (h_urbs s1)(u \<mapsto> [urb1])\<rparr>) } } })"

definition OsAllocIsoUrbs :: "'k os_env \<Rightarrow> ptr \<Rightarrow> int \<Rightarrow> ptr \<Rightarrow> 'k host \<Rightarrow> (ret \<times> 'k host) option" where
  "OsAllocIsoUrbs K p numUrbs a s =
     do { r \<leftarrow> h_reqs s p; alloc_iso_loop K p a (nat numUrbs) 0 (r_numIsoPackets r) 0 0 s }"

text \<open>
  The loop of \<open>OsSubmitIsoUrbs\<close>; \<open>ioctl\<close> gets the URB itself and not its address.
\<close>

fun submit_iso_loop :: "'k os_env \<Rightarrow> ptr \<Rightarrow> int \<Rightarrow> ptr \<Rightarrow> nat \<Rightarrow> nat \<Rightarrow> 'k host \<Rightarrow> (ret \<times> 'k host) option" where
  "submit_iso_loop K p numUrbs a 0 i s = Some (HDF_SUCCESS, s)"
| "submit_iso_loop K p numUrbs a (Suc n) i s =
     do { r \<leftarrow> h_reqs s p; hp \<leftarrow> r_devHandle r; h \<leftarrow> h_handles s hp; us \<leftarrow> h_isourbs s a;
          if \<not> i < length us then None
          else do { u \<leftarrow> us ! i; blk \<leftarrow> h_urbs s u;
            case k_submit_value K (fd h) (blk ! 0) (h_kern s) of
              (None, k) \<Rightarrow> submit_iso_loop K p numUrbs a n (Suc i) (set_kern k s)
            | (Some e, k) \<Rightarrow>
                let ret = RetErr (if e = ENODEV then HDF_DEV_ERR_NO_DEVICE else HDF_ERR_IO) in
                if i = 0 then do { s1 \<leftarrow> OsFreeIsoUrbs p (set_kern k s); Some (ret, s1) }
                else
                  let retired = r_numRetired r + (numUrbs - int i);
                      r1 = r\<lparr>r_reqStatus := USB_REQUEST_ERROR, r_numRetired := retired\<rparr> in
                  if retired = numUrbs
                  then do { s1 \<leftarrow> hfree (Some a) (set_kern k s);
                            Some (HDF_SUCCESS, put_req p (r1\<lparr>r_urbs := None\<rparr>) s1) }
                  else Some (HDF_SUCCESS, put_req p r1 (set_kern k s)) } }"

definition OsSubmitIsoUrbs :: "'k os_env \<Rightarrow> ptr \<Rightarrow> int \<Rightarrow> ptr \<Rightarrow> 'k host \<Rightarrow> (ret \<times> 'k host) option" where
  "OsSubmitIsoUrbs K p numUrbs a s = submit_iso_loop K p numUrbs a (nat numUrbs) 0 s"

text \<open>The check of the packet lengths: \<open>Inl\<close> for a packet that is too long, else the total.\<close>

fun iso_total :: "UsbIsoPacketDesc list \<Rightarrow> nat \<Rightarrow> nat \<Rightarrow> u32 \<Rightarrow> (unit + u32) option" where
  "iso_total ds 0 i tot = Some (Inr tot)"
| "iso_total ds (Suc n) i tot =
     (if \<not> i < length ds then None
      else if pd_length (ds ! i) > MAX_ISO_DATA_BUFFER_LEN then Some (Inl ())
      else iso_total ds n (Suc i) (tot + pd_length (ds ! i)))"

definition OsSubmitIsoRequest :: "'k os_env \<Rightarrow> ptr option \<Rightarrow> 'k host \<Rightarrow> (ret \<times> 'k host) option" where
  "OsSubmitIsoRequest K request s =
     (case request of
        None \<Rightarrow> Some (RetErr HDF_ERR_INVALID_PARAM, s)
      | Some p \<Rightarrow>
          do { r \<leftarrow> h_reqs s p;
            if r_devHandle r = None \<or> r_numIsoPackets r < 1 then Some (RetErr HDF_ERR_INVALID_PARAM, s)
            else if r_length r > MAX_ISO_DATA_BUFFER_LEN then Some (RetErr HDF_FAILURE, s)
            else do {
              t \<leftarrow> iso_total (r_isoPacketDesc r) (nat (r_numIsoPackets r)) 0 0;
              case t of
                Inl u \<Rightarrow> Some (RetErr HDF_ERR_INVALID_PARAM, s)
              | Inr totalLen \<Rightarrow>
                  if r_length r < totalLen then Some (RetErr HDF_ERR_INVALID_PARAM, s)
                  else let numUrbs = (r_numIsoPackets r + (MAX_ISO_PACKETS_PER_URB - 1)) div
                                     MAX_ISO_PACKETS_PER_URB in
                    do { (q, s1) \<leftarrow> halloc K (nat numUrbs * sizeof_ptr) s;
                         case q of
                           None \<Rightarrow> Some (RetErr HDF_ERR_MALLOC_FAIL, s1)
                         | Some a \<Rightarrow>
                             do { (ret, s2) \<leftarrow> OsAllocIsoUrbs K p numUrbs a
                                   (put_req p (r\<lparr>r_urbs := Some a, r_numUrbs := numUrbs,
                                                 r_numRetired := 0, r_isoPacketOffset := 0\<rparr>)
                                     (s1\<lparr>h_isourbs := (h_isourbs s1)(a \<mapsto> replicate (nat numUrbs) None)\<rparr>));
                                  if ret \<noteq> HDF_SUCCESS then Some (ret, s2)
                                  else OsSubmitIsoUrbs K p numUrbs a s2 } } } })"

subsection \<open>Completed URBs\<close>

definition control_status :: "int \<Rightarrow> UsbRequestStatus" where
  "control_status st =
     (if st = 0 then USB_REQUEST_COMPLETED
      else if st = - ENOENT then USB_REQUEST_CANCELLED
      else if st = - EPIPE then USB_REQUEST_STALL
      else if st = - EOVERFLOW then USB_REQUEST_OVERFLOW
      else if st = - ENODEV \<or> st = - ESHUTDOWN then USB_REQUEST_NO_DEVICE
      else USB_REQUEST_ERROR)"

definition OsControlCompletion :: "ptr \<Rightarrow> UsbAdapterUrb \<Rightarrow> 'k host \<Rightarrow> (ret \<times> 'k host) option" where
  "OsControlCompletion p urb s =
     do { r \<leftarrow> h_reqs s p;
          let r1 = r\<lparr>r_actualLength := r_actualLength r + u_actualLength urb\<rparr> in
          do { s1 \<leftarrow> hfree (r_urbs r1) (put_req p r1 s);
               RawHandleRequestCompletion (Some p)
                 (if r_reqStatus r = USB_REQUEST_CANCELLED then USB_REQUEST_CANCELLED
                  else control_status (u_status urb))
                 (put_req p (r1\<lparr>r_urbs := None\<rparr>) s1) } }"

definition iso_packet_status :: "u32 \<Rightarrow> UsbRequestStatus" where
  "iso_packet_status st =
     (if st = 0 then USB_REQUEST_COMPLETED
      else if st = of_int (- ENODEV) \<or> st = of_int (- ESHUTDOWN) then USB_REQUEST_NO_DEVICE
      else if st = of_int (- EPIPE) then USB_REQUEST_STALL
      else if st = of_int (- EOVERFLOW) then USB_REQUEST_OVERFLOW
      else USB_REQUEST_ERROR)"

text \<open>The loop of \<open>OsIsoRequestDesStatus\<close> over the packets of the URB.\<close>

fun iso_des_status :: "UsbIsoPacketDesc list \<Rightarrow> nat \<Rightarrow> nat \<Rightarrow> UsbHostRequest \<Rightarrow> UsbHostRequest option" where
  "iso_des_status fs 0 i r = Some r"
| "iso_des_status fs (Suc n) i r =
     (let o' = nat (r_isoPacketOffset r) in
      if \<not> (i < length fs \<and> o' < length (r_isoPacketDesc r)) then None
      else iso_des_status fs n (Suc i)
        (r\<lparr>r_isoPacketOffset := r_isoPacketOffset r + 1,
           r_isoPacketDesc := (r_isoPacketDesc r)[o' := (r_isoPacketDesc r ! o')\<lparr>
              pd_status := req_status_code (iso_packet_status (pd_status (fs ! i))),
              pd_actualLength := pd_actualLength (fs ! i)\<rparr>]\<rparr>))"

definition OsIsoRequestDesStatus :: "UsbHostRequest \<Rightarrow> UsbAdapterUrb \<Rightarrow> UsbHostRequest option" where
  "OsIsoRequestDesStatus r urb = iso_des_status (u_isoFrameDesc urb) (nat (u_numberOfPackets urb)) 0 r"

definition OsIsoCompletion :: "ptr \<Rightarrow> ptr \<Rightarrow> UsbAdapterUrb \<Rightarrow> 'k host \<Rightarrow> (ret \<times> 'k host) option" where
  "OsIsoCompletion p u urb s =
     do { r \<leftarrow> h_reqs s p;
          a \<leftarrow> r_urbs r; us \<leftarrow> h_isourbs s a;
          if \<not> nat (r_numUrbs r) \<le> length us then None
          else case find_index (\<lambda>x. x = Some u) (take (nat (r_numUrbs r)) us) of
            None \<Rightarrow> Some (RetErr HDF_ERR_BAD_FD, s)
          | Some i \<Rightarrow>
              do { r1 \<leftarrow> OsIsoRequestDesStatus r urb;
                   let r2 = r1\<lparr>r_numRetired := r_numRetired r1 + 1\<rparr>;
                       s2 = put_req p r2 s;
                       status = (if r_reqStatus r2 \<noteq> USB_REQUEST_COMPLETED then USB_REQUEST_ERROR
                                 else if u_status urb = - ESHUTDOWN then USB_REQUEST_NO_DEVICE
                                 else if \<not> (u_status urb = 0 \<or> u_status urb = - ENOENT \<or>
                                            u_status urb = - ECONNRESET) then USB_REQUEST_ERROR
                                 else USB_REQUEST_COMPLETED)
                   in if r_numRetired r2 = r_numUrbs r2
                      then do { s3 \<leftarrow> OsFreeIsoUrbs p s2; RawHandleRequestCompletion (Some p) status s3 }
                      else Some (RetVal 0, s2) } }"

text \<open>The return code tells whether all URBs have retired.\<close>

definition OsProcessAbnormalReap :: "UsbHostRequest \<Rightarrow> UsbAdapterUrb \<Rightarrow> (ret \<times> UsbHostRequest) option" where
  "OsProcessAbnormalReap r urb =
     do { r1 \<leftarrow>
            (if u_actualLength urb > 0 then
               do { buf \<leftarrow>
                      (if u_buffer urb \<noteq> nat (r_actualLength r) then
                         do { bs \<leftarrow> rdn (r_buffer r) (u_buffer urb) (nat (u_actualLength urb));
                              wrn (r_buffer r) (nat (r_actualLength r)) bs }
                       else Some (r_buffer r));
                    Some (r\<lparr>r_buffer := buf, r_actualLength := r_actualLength r + u_actualLength urb\<rparr>) }
             else Some r);
          Some (if r_numRetired r1 = r_numUrbs r1 then HDF_SUCCESS else RetErr HDF_ERR_IO, r1) }"

definition OsUrbStatusToRequestStatus :: "UsbHostRequest \<Rightarrow> UsbAdapterUrb \<Rightarrow> ret \<times> UsbHostRequest" where
  "OsUrbStatusToRequestStatus r urb =
     (let set = (\<lambda>st. if r_reqStatus r = USB_REQUEST_COMPLETED then r\<lparr>r_reqStatus := st\<rparr> else r) in
      if u_status urb = 0 then (HDF_SUCCESS, r)
      else if u_status urb = - ESHUTDOWN
           then (RetErr HDF_DEV_ERR_NO_DEVICE, r\<lparr>r_reqStatus := USB_REQUEST_NO_DEVICE\<rparr>)
      else if u_status urb = - EPIPE then (RetErr HDF_DEV_ERR_NO_DEVICE, set USB_REQUEST_STALL)
      else if u_status urb = - EOVERFLOW then (RetErr HDF_FAILURE, set USB_REQUEST_OVERFLOW)
      else (RetErr HDF_DEV_ERR_NO_DEVICE, set USB_REQUEST_ERROR))"

definition OsBulkCompletion ::
  "'k os_env \<Rightarrow> ptr \<Rightarrow> nat \<Rightarrow> UsbAdapterUrb \<Rightarrow> 'k host \<Rightarrow> (ret \<times> 'k host) option" where
  "OsBulkCompletion K p urbIdx urb s =
     do { r0 \<leftarrow> h_reqs s p;
          let r1 = r0\<lparr>r_numRetired := r_numRetired r0 + 1\<rparr>;
              completed = (\<lambda>r. RawHandleRequestCompletion (Some p) (r_reqStatus r) (put_req p r s));
              cancel = (\<lambda>r. if r_numRetired r = r_numUrbs r then completed r
                            else do { s1 \<leftarrow> OsDiscardUrbs K (Some p) (int urbIdx + 1) (r_numUrbs r)
                                              (put_req p r s);
                                      Some (HDF_SUCCESS, s1) })
          in if r_reqStatus r1 \<noteq> USB_REQUEST_COMPLETED then
               do { (ret, r2) \<leftarrow> OsProcessAbnormalReap r1 urb;
                    if ret = HDF_SUCCESS then completed r2 else Some (HDF_SUCCESS, put_req p r2 s) }
             else
               (case OsUrbStatusToRequestStatus
                       (r1\<lparr>r_actualLength := r_actualLength r1 + u_actualLength urb\<rparr>) urb of
                  (ret, r2) \<Rightarrow>
                    if ret = RetErr HDF_DEV_ERR_NO_DEVICE then cancel r2
                    else if ret = RetErr HDF_FAILURE then completed r2
                    else if r_numRetired r2 = r_numUrbs r2 then completed r2
                    else if u_actualLength urb < u_bufferLength urb
                    then cancel (if r_reqStatus r2 = USB_REQUEST_COMPLETED
                                 then r2\<lparr>r_reqStatus := USB_REQUEST_COMPLETED_SHORT\<rparr> else r2)
                    else Some (HDF_SUCCESS, put_req p r2 s)) }"

subsection \<open>The adapter operations\<close>

definition AdapterInit :: "ptr \<Rightarrow> 'k host \<Rightarrow> ret \<times> 'k host" where
  "AdapterInit session s = (HDF_SUCCESS, s)"

definition AdapterExit :: "ptr \<Rightarrow> 'k host \<Rightarrow> 'k host" where
  "AdapterExit session s = s"

definition AdapterOpenDevice ::
  "'k os_env \<Rightarrow> ptr option \<Rightarrow> u8 \<Rightarrow> u8 \<Rightarrow> 'k host \<Rightarrow> (ptr option \<times> 'k host) option" where
  "AdapterOpenDevice K session busNum usbAddr s =
     do { (q, s1) \<leftarrow> OsGetDeviceHandle session busNum usbAddr s;
          case q of
            Some h \<Rightarrow> Some (Some h, s1)
          | None \<Rightarrow>
              do { (q2, s2) \<leftarrow> OsCallocDeviceHandle K s1;
                   case q2 of
                     None \<Rightarrow> Some (None, s2)
                   | Some hp \<Rightarrow>
                       do { (q3, s3) \<leftarrow> OsAllocDevice K session hp s2;
                            case q3 of
                              None \<Rightarrow> do { s4 \<leftarrow> hfree (Some hp) s3; Some (None, s4) }
                            | Some dp \<Rightarrow>
                                do { (ret, s4) \<leftarrow> OsInitDevice K dp busNum usbAddr s3;
                                     if ret \<noteq> HDF_SUCCESS
                                     then do { s5 \<leftarrow> hfree (Some dp) s4; s6 \<leftarrow> hfree (Some hp) s5;
                                               Some (None, s6) }
                                     else do { d \<leftarrow> h_devs s4 dp; sp \<leftarrow> session; ss \<leftarrow> h_sessions s4 sp;
                                       Some (Some hp,
                                         put_session sp (ss\<lparr>usbDevs := dp # usbDevs ss\<rparr>)
                                           (put_dev dp (d\<lparr>d_refcnt := 1\<rparr>) s4)) } } } } }"

definition AdapterCloseDevice :: "'k os_env \<Rightarrow> ptr option \<Rightarrow> 'k host \<Rightarrow> 'k host option" where
  "AdapterCloseDevice K handle s =
     (case handle of
        None \<Rightarrow> Some s
      | Some hp \<Rightarrow>
          do { h \<leftarrow> h_handles s hp;
               case dh_dev h of
                 None \<Rightarrow> Some s
               | Some dp \<Rightarrow>
                   do { d \<leftarrow> h_devs s dp;
                        let s1 = put_dev dp (d\<lparr>d_refcnt := d_refcnt d - 1\<rparr>) s in
                        if d_refcnt d - 1 > 0 then Some s1
                        else do { sp \<leftarrow> d_session d; ss \<leftarrow> h_sessions s1 sp;
                          s2 \<leftarrow> hfree (map_option fst (d_configDescriptors d))
                                 (put_session sp (ss\<lparr>usbDevs := remove1 dp (usbDevs ss)\<rparr>) s1);
                          s3 \<leftarrow> hfree (map_option fst (d_descriptors d)) s2;
                          s4 \<leftarrow> hfree (Some dp) s3;
                          hfree (Some hp) (set_kern (k_close K (fd h) (h_kern s4)) s4) } } })"

text \<open>
  The search for the configuration with the given value: the index, or \<open>None\<close> for an access outside
  the arrays.
\<close>

fun config_search :: "u8 list \<Rightarrow> UsbDeviceConfigDescriptor list \<Rightarrow> u8 \<Rightarrow> nat \<Rightarrow> nat \<Rightarrow> nat option option" where
  "config_search bs cs v 0 i = Some None"
| "config_search bs cs v (Suc n) i =
     (if \<not> i < length cs then None
      else do { o' \<leftarrow> cd_desc (cs ! i); x \<leftarrow> rd8 bs (o' + 5);
                if v = x then Some (Some i) else config_search bs cs v n (Suc i) })"

text \<open>The result is the return code with the contents of \<open>buffer\<close> afterwards.\<close>

definition AdapterGetConfigDescriptor ::
  "ptr option \<Rightarrow> u8 \<Rightarrow> u8 list \<Rightarrow> nat \<Rightarrow> 'k host \<Rightarrow> (ret \<times> u8 list) option" where
  "AdapterGetConfigDescriptor dev configIndex buffer len s =
     (case dev of
        None \<Rightarrow> Some (RetErr HDF_ERR_INVALID_PARAM, buffer)
      | Some p \<Rightarrow>
          do { d \<leftarrow> h_devs s p;
            if configIndex > d_bNumConfigurations d then Some (RetErr HDF_ERR_INVALID_PARAM, buffer)
            else if d_bNumConfigurations d = 0 then Some (RetErr HDF_ERR_BAD_FD, buffer)
            else do { (da, bs) \<leftarrow> d_descriptors d; (ca, cs) \<leftarrow> d_configDescriptors d;
              q \<leftarrow> config_search bs cs configIndex (unat (d_bNumConfigurations d)) 0;
              case q of
                None \<Rightarrow> Some (RetErr HDF_ERR_BAD_FD, buffer)
              | Some i \<Rightarrow>
                  do { o' \<leftarrow> cd_desc (cs ! i);
                       let n = min len (cd_actualLen (cs ! i)) in
                       do { (ok, buf) \<leftarrow> memcpy_s buffer 0 n (drop o' bs) n;
                            Some (if ok then RetVal (int n) else RetErr HDF_ERR_IO, buf) } } } })"

definition AdapterGetConfiguration :: "'k os_env \<Rightarrow> ptr option \<Rightarrow> 'k host \<Rightarrow> (ret \<times> u8 \<times> 'k host) option" where
  "AdapterGetConfiguration K handle s =
     (case handle of
        None \<Rightarrow> Some (RetErr HDF_ERR_INVALID_PARAM, 0, s)
      | Some hp \<Rightarrow>
          do { h \<leftarrow> h_handles s hp;
               case dh_dev h of
                 None \<Rightarrow> Some (RetErr HDF_ERR_INVALID_PARAM, 0, s)
               | Some dp \<Rightarrow>
                   do { (ret, s1) \<leftarrow> OsGetActiveConfig K (Some dp) (fd h) s;
                        if ret \<noteq> HDF_SUCCESS then Some (ret, 0, s1)
                        else do { d \<leftarrow> h_devs s1 dp; Some (HDF_SUCCESS, d_activeConfig d, s1) } } })"

definition AdapterSetConfiguration :: "'k os_env \<Rightarrow> ptr option \<Rightarrow> int \<Rightarrow> 'k host \<Rightarrow> (ret \<times> 'k host) option" where
  "AdapterSetConfiguration K handle activeConfig s =
     (case handle of
        None \<Rightarrow> Some (RetErr HDF_ERR_INVALID_PARAM, s)
      | Some hp \<Rightarrow>
          do { h \<leftarrow> h_handles s hp;
               case dh_dev h of
                 None \<Rightarrow> Some (RetErr HDF_ERR_INVALID_PARAM, s)
               | Some dp \<Rightarrow>
                   (case k_setconf K (fd h) activeConfig (h_kern s) of
                      (Some e, k) \<Rightarrow> Some (RetErr HDF_FAILURE, set_kern k s)
                    | (None, k) \<Rightarrow>
                        do { d \<leftarrow> h_devs s dp;
                             Some (HDF_SUCCESS,
                               put_dev dp (d\<lparr>d_activeConfig :=
                                   (if activeConfig = -1 then 0 else of_int activeConfig)\<rparr>) (set_kern k s)) }) })"

text \<open>A handle and one \<open>ioctl\<close>: the common form of the next five operations.\<close>

definition handle_ioctl ::
  "(nat \<Rightarrow> 'k \<Rightarrow> int option \<times> 'k) \<Rightarrow> (int \<Rightarrow> hdf_err) \<Rightarrow> ptr option \<Rightarrow> 'k host \<Rightarrow> (ret \<times> 'k host) option" where
  "handle_ioctl call err handle s =
     (case handle of
        None \<Rightarrow> Some (RetErr HDF_ERR_INVALID_PARAM, s)
      | Some hp \<Rightarrow>
          do { h \<leftarrow> h_handles s hp;
               case call (fd h) (h_kern s) of
                 (Some e, k) \<Rightarrow> Some (RetErr (err e), set_kern k s)
               | (None, k) \<Rightarrow> Some (HDF_SUCCESS, set_kern k s) })"

definition AdapterClaimInterface :: "'k os_env \<Rightarrow> ptr option \<Rightarrow> nat \<Rightarrow> 'k host \<Rightarrow> (ret \<times> 'k host) option" where
  "AdapterClaimInterface K handle n = handle_ioctl (\<lambda>f. k_claim K f n) (\<lambda>e. HDF_FAILURE) handle"

definition AdapterReleaseInterface :: "'k os_env \<Rightarrow> ptr option \<Rightarrow> nat \<Rightarrow> 'k host \<Rightarrow> (ret \<times> 'k host) option" where
  "AdapterReleaseInterface K handle n =
     handle_ioctl (\<lambda>f. k_release K f n)
       (\<lambda>e. if e = ENODEV then HDF_DEV_ERR_NO_DEVICE else HDF_FAILURE) handle"

definition AdapterSetInterface :: "'k os_env \<Rightarrow> ptr option \<Rightarrow> u8 \<Rightarrow> u8 \<Rightarrow> 'k host \<Rightarrow> (ret \<times> 'k host) option" where
  "AdapterSetInterface K handle i alt = handle_ioctl (\<lambda>f. k_setintf K f i alt) (\<lambda>e. HDF_FAILURE) handle"

definition AdapterClearHalt :: "'k os_env \<Rightarrow> ptr option \<Rightarrow> u8 \<Rightarrow> 'k host \<Rightarrow> (ret \<times> 'k host) option" where
  "AdapterClearHalt K handle ep = handle_ioctl (\<lambda>f. k_clearhalt K f ep) (\<lambda>e. HDF_FAILURE) handle"

text \<open>The loop of \<open>AdapterResetDevice\<close> over the interface numbers from \<open>i\<close>.\<close>

fun release_claimed :: "'k os_env \<Rightarrow> ptr \<Rightarrow> nat \<Rightarrow> nat \<Rightarrow> 'k host \<Rightarrow> 'k host option" where
  "release_claimed K hp 0 i s = Some s"
| "release_claimed K hp (Suc n) i s =
     do { h \<leftarrow> h_handles s hp;
          s1 \<leftarrow> (if claimedInterfaces h AND push_bit i 1 \<noteq> 0
                then do { (r, s1) \<leftarrow> AdapterReleaseInterface K (Some hp) i s; Some s1 } else Some s);
          release_claimed K hp n (Suc i) s1 }"

definition AdapterResetDevice :: "'k os_env \<Rightarrow> ptr option \<Rightarrow> 'k host \<Rightarrow> (ret \<times> 'k host) option" where
  "AdapterResetDevice K handle s =
     (case handle of
        None \<Rightarrow> Some (RetErr HDF_ERR_INVALID_PARAM, s)
      | Some hp \<Rightarrow>
          do { s1 \<leftarrow> release_claimed K hp USB_MAXINTERFACES 0 s;
               handle_ioctl (k_reset K) (\<lambda>e. HDF_FAILURE) handle s1 })"

definition alloc_header :: "int \<Rightarrow> nat" where
  "alloc_header isoPackets = sizeof_UsbHostRequest + sizeof_UsbIsoPacketDesc * unat (of_int isoPackets :: u64)"

text \<open>
  The mapping has \<open>len\<close> bytes, rounded up to whole pages by the kernel; the request itself and its
  packet descriptors lie in front of the buffer and inside the mapping.
\<close>

definition AdapterAllocRequest ::
  "'k os_env \<Rightarrow> ptr option \<Rightarrow> int \<Rightarrow> nat \<Rightarrow> 'k host \<Rightarrow> (ptr option \<times> 'k host) option" where
  "AdapterAllocRequest K handle isoPackets len s =
     (case handle of
        None \<Rightarrow> Some (None, s)
      | Some hp \<Rightarrow>
          do { h \<leftarrow> h_handles s hp;
               case k_mmap K (fd h) len (h_kern s) of
                 (None, k) \<Rightarrow> Some (None, set_kern k s)
               | (Some (p, mapped), k) \<Rightarrow>
                   if mapped < sizeof_UsbHostRequest then None
                   else
                     let r = (zero_request (mapped - alloc_header isoPackets)
                                (min (nat isoPackets) ((mapped - sizeof_UsbHostRequest) div sizeof_UsbIsoPacketDesc)))
                              \<lparr>r_numIsoPackets := isoPackets, r_bufLen := len\<rparr> in
                     do { (q, s1) \<leftarrow> halloc K sizeof_UsbAdapterUrb (put_req p r (set_kern k s));
                          case q of
                            None \<Rightarrow> Some (None, s1)
                          | Some a \<Rightarrow>
                              Some (Some p, put_req p (r\<lparr>r_bulkUrb := Some a, r_urbs := Some a\<rparr>)
                                (s1\<lparr>h_urbs := (h_urbs s1)(a \<mapsto> [zero_urb])\<rparr>)) } })"

definition AdapterFreeRequest :: "'k os_env \<Rightarrow> ptr option \<Rightarrow> 'k host \<Rightarrow> (ret \<times> 'k host) option" where
  "AdapterFreeRequest K request s =
     (case request of
        None \<Rightarrow> Some (RetErr HDF_ERR_INVALID_PARAM, s)
      | Some p \<Rightarrow>
          do { r \<leftarrow> h_reqs s p;
               s1 \<leftarrow> hfree (r_bulkUrb r) s;
               case k_munmap K p (alloc_header (r_numIsoPackets r) + r_bufLen r) (h_kern s1) of
                 (False, k) \<Rightarrow>
                   Some (RetErr HDF_ERR_IO,
                         put_req p (r\<lparr>r_bulkUrb := None, r_urbs := None\<rparr>) (set_kern k s1))
               | (True, k) \<Rightarrow> Some (HDF_SUCCESS, (set_kern k s1)\<lparr>h_reqs := (h_reqs s1)(p := None)\<rparr>) })"

definition AdapterSubmitRequest :: "'k os_env \<Rightarrow> ptr option \<Rightarrow> 'k host \<Rightarrow> (ret \<times> 'k host) option" where
  "AdapterSubmitRequest K request s =
     (case request of
        None \<Rightarrow> Some (RetErr HDF_FAILURE, s)
      | Some p \<Rightarrow>
          do { r \<leftarrow> h_reqs s p;
               let s1 = put_req p (r\<lparr>r_actualLength := 0\<rparr>) s in
               if r_requestType r = USB_REQUEST_TYPE_CONTROL then OsSubmitControlRequest K (Some p) s1
               else if r_requestType r = USB_REQUEST_TYPE_ISOCHRONOUS then OsSubmitIsoRequest K (Some p) s1
               else if r_requestType r = USB_REQUEST_TYPE_BULK \<or> r_requestType r = USB_REQUEST_TYPE_INTERRUPT
               then OsSubmitBulkRequest K (Some p) s1
               else Some (RetErr HDF_ERR_INVALID_PARAM, s1) })"

definition AdapterCancelRequest :: "'k os_env \<Rightarrow> ptr \<Rightarrow> 'k host \<Rightarrow> (ret \<times> 'k host) option" where
  "AdapterCancelRequest K p s =
     do { r \<leftarrow> h_reqs s p;
          if r_urbs r = None then Some (RetErr HDF_ERR_BAD_FD, s)
          else do { s1 \<leftarrow> OsDiscardUrbs K (Some p) 0 (r_numUrbs r) s;
                    r1 \<leftarrow> h_reqs s1 p;
                    if \<not> (r_requestType r1 = USB_REQUEST_TYPE_BULK \<and> r_reqStatus r1 = USB_REQUEST_ERROR)
                    then Some (HDF_SUCCESS, put_req p (r1\<lparr>r_reqStatus := USB_REQUEST_CANCELLED\<rparr>) s1)
                    else Some (HDF_SUCCESS, s1) } }"

text \<open>
  What the kernel writes when it hands a URB back: status, length and packet results into the URB,
  received data into the buffer of the request.
\<close>

definition reap_writeback :: "reaped \<Rightarrow> 'k host \<Rightarrow> (ptr \<times> nat \<times> UsbAdapterUrb \<times> 'k host) option" where
  "reap_writeback x s =
     (let a = fst (rp_urb x); i = snd (rp_urb x) div sizeof_UsbAdapterUrb in
      do { us \<leftarrow> h_urbs s a;
           if \<not> i < length us then None
           else let urb = (us ! i)\<lparr>u_status := rp_status x, u_actualLength := rp_actualLength x,
                             u_isoFrameDesc := rp_frames x\<rparr> in
             do { p \<leftarrow> u_userContext urb; r \<leftarrow> h_reqs s p;
                  buf \<leftarrow> wrn (r_buffer r) (u_buffer urb) (rp_data x);
                  Some (p, i, urb, put_req p (r\<lparr>r_buffer := buf\<rparr>)
                          (s\<lparr>h_urbs := (h_urbs s)(a \<mapsto> us[i := urb])\<rparr>)) } })"

definition AdapterUrbCompleteHandle :: "'k os_env \<Rightarrow> ptr option \<Rightarrow> 'k host \<Rightarrow> (ret \<times> 'k host) option" where
  "AdapterUrbCompleteHandle K devHandle s =
     (case devHandle of
        None \<Rightarrow> Some (RetErr HDF_ERR_INVALID_PARAM, s)
      | Some hp \<Rightarrow>
          do { h \<leftarrow> h_handles s hp;
               case k_reap K (fd h) (h_kern s) of
                 (Inl e, k) \<Rightarrow>
                   Some (if e = EAGAIN then RetVal 1
                         else if e = ENODEV then RetErr HDF_DEV_ERR_NO_DEVICE else RetErr HDF_ERR_IO,
                         set_kern k s)
               | (Inr x, k) \<Rightarrow>
                   do { (p, i, urb, s1) \<leftarrow> reap_writeback x (set_kern k s);
                        r \<leftarrow> h_reqs s1 p;
                        if r_requestType r = USB_REQUEST_TYPE_CONTROL then OsControlCompletion p urb s1
                        else if r_requestType r = USB_REQUEST_TYPE_ISOCHRONOUS
                        then OsIsoCompletion p (fst (rp_urb x)) urb s1
                        else if r_requestType r = USB_REQUEST_TYPE_BULK \<or>
                                r_requestType r = USB_REQUEST_TYPE_INTERRUPT
                        then OsBulkCompletion K p i urb s1
                        else Some (RetErr HDF_FAILURE, s1) } })"

definition UsbAdapterGetTid :: "'k os_env \<Rightarrow> 'k host \<Rightarrow> nat" where
  "UsbAdapterGetTid K s = k_gettid K (h_kern s)"

definition UsbAdapterRegisterSignal :: "'k os_env \<Rightarrow> 'k host \<Rightarrow> ret \<times> 'k host" where
  "UsbAdapterRegisterSignal K s =
     (case k_signal K (h_kern s) of
        (ok, k) \<Rightarrow> (if ok then HDF_SUCCESS else RetErr HDF_ERR_IO, set_kern k s))"

text \<open>\<open>kill\<close> returns 0 or -1; the code compares the result with \<open>HDF_ERR_IO\<close>.\<close>

definition UsbAdapterKillSignal :: "'k os_env \<Rightarrow> nat \<Rightarrow> 'k host \<Rightarrow> ret \<times> 'k host" where
  "UsbAdapterKillSignal K tid s =
     (case k_kill K tid (h_kern s) of
        (r, k) \<Rightarrow> (if r = RetErr HDF_ERR_IO then RetErr HDF_ERR_IO else HDF_SUCCESS, set_kern k s))"

end
