(* ===== verification/Usb_RawLib.thy ===== *)
theory Usb_RawLib
  imports Usb_Adapter
begin

text \<open>
  The raw library, \<open>usb/ddk/host/src/usb_raw_api_library.c\<close> (sessions, devices, interfaces, filling,
  sending and cancelling requests), and the checked entry points of \<open>usb_raw_api.c\<close>.

  The table of adapter operations that \<open>UsbAdapterGetOps\<close> returns is constant and complete, so that the
  operations are called directly.  A function that blocks on the semaphore of a request takes an
  argument \<open>W\<close>: \<open>W p t s\<close> is the result of \<open>OsalSemWait\<close> on request \<open>p\<close> with timeout \<open>t\<close>, with the state that
  the other threads leave when the wait returns.
\<close>

subsection \<open>Sessions and devices\<close>

definition RawGetSession :: "ptr option \<Rightarrow> 'k host \<Rightarrow> ptr option" where
  "RawGetSession session s = (case session of Some p \<Rightarrow> Some p | None \<Rightarrow> h_default s)"

text \<open>\<open>want\<close> tells whether the caller passes a place for the session; the result carries its value.\<close>

definition RawInit :: "'k os_env \<Rightarrow> bool \<Rightarrow> 'k host \<Rightarrow> (ret \<times> ptr option \<times> 'k host) option" where
  "RawInit K want s =
     (if \<not> want \<and> h_default s \<noteq> None then
        do { p \<leftarrow> h_default s; ss \<leftarrow> h_sessions s p;
             Some (HDF_SUCCESS, None, put_session p (ss\<lparr>s_refCount := s_refCount ss + 1\<rparr>) s) }
      else do { (q, s1) \<leftarrow> halloc K sizeof_UsbSession s;
        case q of
          None \<Rightarrow> Some (RetErr HDF_ERR_MALLOC_FAIL, None, s1)
        | Some p \<Rightarrow>
            let s2 = put_session p \<lparr>usbDevs = [], ifacePoolList = [], s_refCount = 1\<rparr> s1;
                s3 = (if \<not> want \<and> h_default s2 = None then s2\<lparr>h_default := Some p\<rparr> else s2)
            in (case AdapterInit p s3 of
                  (ret, s4) \<Rightarrow>
                    if ret_neg ret then
                      do { s5 \<leftarrow> hfree (Some p) (if h_default s4 = Some p then s4\<lparr>h_default := None\<rparr> else s4);
                           Some (ret, None, s5) }
                    else Some (HDF_SUCCESS, if want then Some p else None, s4)) })"

definition RawExit :: "ptr option \<Rightarrow> 'k host \<Rightarrow> (ret \<times> 'k host) option" where
  "RawExit session s =
     (case RawGetSession session s of
        None \<Rightarrow> Some (HDF_SUCCESS, s)
      | Some p \<Rightarrow>
          do { ss \<leftarrow> h_sessions s p;
               let s1 = put_session p (ss\<lparr>s_refCount := s_refCount ss - 1\<rparr>) s in
               if s_refCount ss - 1 > 0 then Some (HDF_SUCCESS, s1)
               else let s2 = AdapterExit p s1;
                        s3 = (if h_default s2 = Some p then s2\<lparr>h_default := None\<rparr> else s2)
                    in do { s4 \<leftarrow> hfree (Some p) s3; Some (HDF_SUCCESS, s4) } })"

definition RawOpenDevice ::
  "'k os_env \<Rightarrow> ptr option \<Rightarrow> u8 \<Rightarrow> u8 \<Rightarrow> 'k host \<Rightarrow> (ptr option \<times> 'k host) option" where
  "RawOpenDevice K session busNum usbAddr s =
     (case RawGetSession session s of
        None \<Rightarrow> Some (None, s)
      | Some p \<Rightarrow> AdapterOpenDevice K (Some p) busNum usbAddr s)"

definition RawCloseDevice :: "'k os_env \<Rightarrow> ptr option \<Rightarrow> 'k host \<Rightarrow> (ret \<times> 'k host) option" where
  "RawCloseDevice K devHandle s =
     (case devHandle of
        None \<Rightarrow> Some (RetErr HDF_ERR_INVALID_PARAM, s)
      | Some hp \<Rightarrow> do { s1 \<leftarrow> AdapterCloseDevice K (Some hp) s; Some (HDF_SUCCESS, s1) })"

subsection \<open>Interfaces\<close>

definition RawClaimInterface :: "'k os_env \<Rightarrow> ptr option \<Rightarrow> int \<Rightarrow> 'k host \<Rightarrow> (ret \<times> 'k host) option" where
  "RawClaimInterface K devHandle interfaceNumber s =
     (case devHandle of
        None \<Rightarrow> Some (RetErr HDF_ERR_INVALID_PARAM, s)
      | Some hp \<Rightarrow>
          if interfaceNumber < 0 \<or> interfaceNumber \<ge> int USB_MAXINTERFACES
          then Some (RetErr HDF_ERR_INVALID_PARAM, s)
          else do { h \<leftarrow> h_handles s hp;
            if claimedInterfaces h AND push_bit (nat interfaceNumber) 1 \<noteq> 0 then Some (HDF_SUCCESS, s)
            else do { (ret, s1) \<leftarrow> AdapterClaimInterface K (Some hp) (nat interfaceNumber) s;
                      if ret = HDF_SUCCESS
                      then do { h1 \<leftarrow> h_handles s1 hp;
                                Some (ret, put_handle hp (h1\<lparr>claimedInterfaces :=
                                   claimedInterfaces h1 OR push_bit (nat interfaceNumber) 1\<rparr>) s1) }
                      else Some (ret, s1) } })"

text \<open>
  The mask \<open>~(1U << n)\<close> is a 32-bit number: its conversion to the 64 bits of \<open>claimedInterfaces\<close>
  clears the upper half.
\<close>

definition RawReleaseInterface :: "'k os_env \<Rightarrow> ptr option \<Rightarrow> int \<Rightarrow> 'k host \<Rightarrow> (ret \<times> 'k host) option" where
  "RawReleaseInterface K devHandle interfaceNumber s =
     (case devHandle of
        None \<Rightarrow> Some (RetErr HDF_ERR_INVALID_PARAM, s)
      | Some hp \<Rightarrow>
          if interfaceNumber < 0 \<or> interfaceNumber \<ge> int USB_MAXINTERFACES
          then Some (RetErr HDF_ERR_INVALID_PARAM, s)
          else do { h \<leftarrow> h_handles s hp;
            if claimedInterfaces h AND push_bit (nat interfaceNumber) 1 = 0
            then Some (RetErr HDF_ERR_BAD_FD, s)
            else do { (ret, s1) \<leftarrow> AdapterReleaseInterface K (Some hp) (nat interfaceNumber) s;
                      if ret = HDF_SUCCESS
                      then do { h1 \<leftarrow> h_handles s1 hp;
                                Some (ret, put_handle hp (h1\<lparr>claimedInterfaces :=
                                   claimedInterfaces h1 AND
                                   ucast (NOT (push_bit (nat interfaceNumber) 1 :: u32))\<rparr>) s1) }
                      else Some (ret, s1) } })"

definition RawSetInterfaceAltsetting ::
  "'k os_env \<Rightarrow> ptr option \<Rightarrow> u8 \<Rightarrow> u8 \<Rightarrow> 'k host \<Rightarrow> (ret \<times> 'k host) option" where
  "RawSetInterfaceAltsetting K devHandle interfaceNumber settingIndex =
     AdapterSetInterface K devHandle interfaceNumber settingIndex"

definition RawClearHalt :: "'k os_env \<Rightarrow> ptr option \<Rightarrow> u8 \<Rightarrow> 'k host \<Rightarrow> (ret \<times> 'k host) option" where
  "RawClearHalt K devHandle pipeAddress = AdapterClearHalt K devHandle pipeAddress"

definition RawResetDevice :: "'k os_env \<Rightarrow> ptr option \<Rightarrow> 'k host \<Rightarrow> (ret \<times> 'k host) option" where
  "RawResetDevice K devHandle = AdapterResetDevice K devHandle"

subsection \<open>Filling requests\<close>

definition AllocRequest :: "'k os_env \<Rightarrow> ptr option \<Rightarrow> int \<Rightarrow> nat \<Rightarrow> 'k host \<Rightarrow> (ptr option \<times> 'k host) option" where
  "AllocRequest K devHandle isoPackets length' = AdapterAllocRequest K devHandle isoPackets length'"

definition FreeRequest :: "'k os_env \<Rightarrow> ptr option \<Rightarrow> 'k host \<Rightarrow> (ret \<times> 'k host) option" where
  "FreeRequest K request = AdapterFreeRequest K request"

text \<open>The \<open>int32_t\<close> length becomes a \<open>size_t\<close>.\<close>

definition RawAllocRequest :: "'k os_env \<Rightarrow> ptr option \<Rightarrow> int \<Rightarrow> int \<Rightarrow> 'k host \<Rightarrow> (ptr option \<times> 'k host) option" where
  "RawAllocRequest K devHandle isoPackets length' s =
     AllocRequest K devHandle isoPackets (unat (of_int length' :: u64)) s"

definition RawFreeRequest :: "'k os_env \<Rightarrow> ptr option \<Rightarrow> 'k host \<Rightarrow> (ret \<times> 'k host) option" where
  "RawFreeRequest K request s =
     (case request of None \<Rightarrow> Some (RetErr HDF_ERR_INVALID_PARAM, s) | Some p \<Rightarrow> FreeRequest K (Some p) s)"

text \<open>
  The copy of the data of an OUT request: a null source with a positive length, like a length above
  \<open>bufLen\<close>, makes \<open>memcpy_s\<close> return a nonzero code.
\<close>

definition fill_copy :: "UsbHostRequest \<Rightarrow> u8 list option \<Rightarrow> nat \<Rightarrow> (bool \<times> UsbHostRequest) option" where
  "fill_copy r src n =
     (case src of
        None \<Rightarrow> do { (ok, b) \<leftarrow> memcpy_s (r_buffer r) 0 (r_bufLen r) [] (Suc (r_bufLen r));
                     Some (False, r\<lparr>r_buffer := b\<rparr>) }
      | Some bs \<Rightarrow> do { (ok, b) \<leftarrow> memcpy_s (r_buffer r) 0 (r_bufLen r) bs n;
                        Some (ok, r\<lparr>r_buffer := b\<rparr>) })"

definition fill_fields :: "UsbHostRequest \<Rightarrow> ptr \<Rightarrow> UsbFillRequestData \<Rightarrow> u8 \<Rightarrow> UsbHostRequest" where
  "fill_fields r hp f ty = r\<lparr>r_devHandle := Some hp, r_endPoint := f_endPoint f, r_requestType := ty,
     r_timeout := f_timeout f, r_length := f_length f, r_userData := f_userData f,
     r_callback := f_callback f, r_userCallback := f_userCallback f\<rparr>"

definition RawFillBulkRequest ::
  "ptr option \<Rightarrow> ptr option \<Rightarrow> UsbFillRequestData option \<Rightarrow> 'k host \<Rightarrow> (ret \<times> 'k host) option" where
  "RawFillBulkRequest request devHandle fillRequestData s =
     (case (request, devHandle, fillRequestData) of
        (Some p, Some hp, Some f) \<Rightarrow>
          do { r \<leftarrow> h_reqs s p;
               if UsbEndpointDirOut (f_endPoint f) then
                 (if f_buffer f = None then Some (RetErr HDF_ERR_INVALID_PARAM, s)
                  else do { (ok, r1) \<leftarrow> fill_copy r (f_buffer f) (unat (f_length f));
                            if \<not> ok then Some (RetSec, put_req p r1 s)
                            else Some (HDF_SUCCESS, put_req p (fill_fields r1 hp f USB_REQUEST_TYPE_BULK) s) })
               else Some (HDF_SUCCESS, put_req p (fill_fields r hp f USB_REQUEST_TYPE_BULK) s) }
      | _ \<Rightarrow> Some (RetErr HDF_ERR_INVALID_PARAM, s))"

text \<open>\<open>struct UsbRawControlSetup\<close> as its 8 bytes.\<close>

definition setup_bytes :: "u8 \<Rightarrow> u8 \<Rightarrow> u16 \<Rightarrow> u16 \<Rightarrow> u16 \<Rightarrow> u8 list" where
  "setup_bytes ty rq v i l = [ty, rq] @ le16_bytes v @ le16_bytes i @ le16_bytes l"

text \<open>\<open>setup\<close> is the object that starts at the pointer.\<close>

definition RawFillControlSetup :: "u8 list option \<Rightarrow> UsbControlRequestData option \<Rightarrow> (ret \<times> u8 list option) option" where
  "RawFillControlSetup setup requestData =
     (case (setup, requestData) of
        (Some b, Some q) \<Rightarrow>
          do { b' \<leftarrow> wrn b 0 (setup_bytes (q_requestType q) (q_requestCmd q) (q_value q) (q_index q) (q_length q));
               Some (HDF_SUCCESS, Some b') }
      | _ \<Rightarrow> Some (RetErr HDF_ERR_INVALID_PARAM, setup))"

definition RawFillControlRequest ::
  "ptr option \<Rightarrow> ptr option \<Rightarrow> UsbFillRequestData option \<Rightarrow> 'k host \<Rightarrow> (ret \<times> 'k host) option" where
  "RawFillControlRequest request devHandle fillRequestData s =
     (case (request, devHandle, fillRequestData) of
        (Some p, Some hp, Some f) \<Rightarrow>
          do { r \<leftarrow> h_reqs s p;
               Some (HDF_SUCCESS, put_req p (fill_fields r hp f USB_REQUEST_TYPE_CONTROL) s) }
      | _ \<Rightarrow> Some (RetErr HDF_ERR_INVALID_PARAM, s))"

definition RawFillInterruptRequest ::
  "ptr option \<Rightarrow> ptr option \<Rightarrow> UsbFillRequestData option \<Rightarrow> 'k host \<Rightarrow> (ret \<times> 'k host) option" where
  "RawFillInterruptRequest request devHandle fillRequestData s =
     (case (request, devHandle, fillRequestData) of
        (Some p, Some hp, Some f) \<Rightarrow>
          do { r \<leftarrow> h_reqs s p;
               if UsbEndpointDirOut (f_endPoint f) then
                 do { (ok, r1) \<leftarrow> fill_copy r (f_buffer f) (unat (f_length f));
                      if \<not> ok then Some (RetSec, put_req p r1 s)
                      else Some (HDF_SUCCESS, put_req p (fill_fields r1 hp f USB_REQUEST_TYPE_INTERRUPT) s) }
               else Some (HDF_SUCCESS, put_req p (fill_fields r hp f USB_REQUEST_TYPE_INTERRUPT) s) }
      | _ \<Rightarrow> Some (RetErr HDF_ERR_INVALID_PARAM, s))"

definition RawFillIsoRequest ::
  "ptr option \<Rightarrow> ptr option \<Rightarrow> UsbFillRequestData option \<Rightarrow> 'k host \<Rightarrow> (ret \<times> 'k host) option" where
  "RawFillIsoRequest request devHandle fillRequestData s =
     (case (request, devHandle, fillRequestData) of
        (Some p, Some hp, Some f) \<Rightarrow>
          let fields = (\<lambda>r. (fill_fields r hp f USB_REQUEST_TYPE_ISOCHRONOUS)\<lparr>
                              r_numIsoPackets := f_numIsoPackets f\<rparr>) in
          do { r \<leftarrow> h_reqs s p;
               if UsbEndpointDirOut (f_endPoint f) then
                 do { (ok, r1) \<leftarrow> fill_copy r (f_buffer f) (unat (f_length f));
                      if \<not> ok then Some (RetSec, put_req p r1 s)
                      else Some (HDF_SUCCESS, put_req p (fields r1) s) }
               else Some (HDF_SUCCESS, put_req p (fields r) s) }
      | _ \<Rightarrow> Some (RetErr HDF_ERR_INVALID_PARAM, s))"

subsection \<open>Submitting, cancelling and handling\<close>

definition RawSubmitRequest :: "'k os_env \<Rightarrow> ptr option \<Rightarrow> 'k host \<Rightarrow> (ret \<times> 'k host) option" where
  "RawSubmitRequest K request s =
     (case request of
        None \<Rightarrow> Some (RetErr HDF_ERR_INVALID_PARAM, s)
      | Some p \<Rightarrow> AdapterSubmitRequest K (Some p) s)"

text \<open>A null request is dereferenced by the adapter.\<close>

definition RawCancelRequest :: "'k os_env \<Rightarrow> ptr option \<Rightarrow> 'k host \<Rightarrow> (ret \<times> 'k host) option" where
  "RawCancelRequest K request s = do { p \<leftarrow> request; AdapterCancelRequest K p s }"

definition RawHandleRequest :: "'k os_env \<Rightarrow> ptr option \<Rightarrow> 'k host \<Rightarrow> (ret \<times> 'k host) option" where
  "RawHandleRequest K devHandle s = AdapterUrbCompleteHandle K devHandle s"

subsection \<open>Synchronous requests\<close>

definition wait_time :: "u32 \<Rightarrow> u32" where
  "wait_time timeout = (if timeout = 0 then 0xFFFFFFFF else timeout)"

definition sem_destroy :: "ptr \<Rightarrow> 'k host \<Rightarrow> 'k host option" where
  "sem_destroy p s = do { r \<leftarrow> h_reqs s p; Some (put_req p (r\<lparr>r_sem := None\<rparr>) s) }"

definition sem_init :: "'k os_env \<Rightarrow> ptr \<Rightarrow> 'k host \<Rightarrow> (ret \<times> 'k host) option" where
  "sem_init K p s =
     do { r \<leftarrow> h_reqs s p;
          case k_seminit K (h_kern s) of
            (ret, k) \<Rightarrow> Some (ret, if ret = HDF_SUCCESS
                                  then put_req p (r\<lparr>r_sem := Some 0\<rparr>) (set_kern k s) else set_kern k s) }"

text \<open>The wait and, on a timeout, the cancellation with its own completion.\<close>

definition wait_completion ::
  "'k os_env \<Rightarrow> (ptr \<Rightarrow> u32 \<Rightarrow> 'k host \<Rightarrow> (ret \<times> 'k host) option) \<Rightarrow> ptr \<Rightarrow> 'k host \<Rightarrow> (ret \<times> 'k host) option" where
  "wait_completion K W p s =
     do { r \<leftarrow> h_reqs s p;
          (ret, s1) \<leftarrow> W p (wait_time (r_timeout r)) s;
          if ret = RetErr HDF_ERR_TIMEOUT
          then do { (c, s2) \<leftarrow> RawCancelRequest K (Some p) s1;
                    (d, s3) \<leftarrow> RawHandleRequestCompletion (Some p) USB_REQUEST_TIMEOUT s2;
                    Some (ret, s3) }
          else Some (ret, s1) }"

fun sync_status :: "UsbRequestStatus \<Rightarrow> ret \<Rightarrow> ret" where
  "sync_status USB_REQUEST_COMPLETED done = done"
| "sync_status USB_REQUEST_TIMEOUT done = RetErr HDF_ERR_TIMEOUT"
| "sync_status USB_REQUEST_NO_DEVICE done = RetErr HDF_DEV_ERR_NO_DEVICE"
| "sync_status USB_REQUEST_STALL done = RetErr HDF_ERR_IO"
| "sync_status USB_REQUEST_OVERFLOW done = RetErr HDF_ERR_IO"
| "sync_status USB_REQUEST_ERROR done = RetErr HDF_ERR_IO"
| "sync_status USB_REQUEST_CANCELLED done = RetErr HDF_ERR_IO"
| "sync_status USB_REQUEST_COMPLETED_SHORT done = RetErr HDF_FAILURE"

text \<open>The middle component is the value stored in \<open>*requested\<close>, when one is stored.\<close>

definition HandleSyncRequestCompletion ::
  "'k os_env \<Rightarrow> (ptr \<Rightarrow> u32 \<Rightarrow> 'k host \<Rightarrow> (ret \<times> 'k host) option) \<Rightarrow> ptr \<Rightarrow> 'k host \<Rightarrow>
   (ret \<times> int option \<times> 'k host) option" where
  "HandleSyncRequestCompletion K W p s =
     do { (ret, s1) \<leftarrow> wait_completion K W p s;
          r \<leftarrow> h_reqs s1 p;
          s2 \<leftarrow> sem_destroy p s1;
          if ret \<noteq> HDF_SUCCESS \<and> ret \<noteq> RetErr HDF_ERR_TIMEOUT then Some (ret, None, s2)
          else Some (sync_status (r_status r) HDF_SUCCESS, Some (r_actualLength r), s2) }"

definition HandleSyncRequest ::
  "'k os_env \<Rightarrow> (ptr \<Rightarrow> u32 \<Rightarrow> 'k host \<Rightarrow> (ret \<times> 'k host) option) \<Rightarrow> ptr \<Rightarrow> ptr \<Rightarrow> UsbRequestData \<Rightarrow> u8 \<Rightarrow>
   'k host \<Rightarrow> (ret \<times> int option \<times> 'k host) option" where
  "HandleSyncRequest K W p hp q ty s =
     do { r \<leftarrow> h_reqs s p;
          (ok, r1) \<leftarrow> (if UsbEndpointDirOut (qd_endPoint q)
                      then fill_copy r (Some (qd_data q)) (unat (qd_length q)) else Some (True, r));
          if \<not> ok then Some (RetSec, None, put_req p r1 s)
          else do {
            (ret, s1) \<leftarrow> sem_init K p (put_req p (r1\<lparr>r_devHandle := Some hp, r_endPoint := qd_endPoint q,
               r_requestType := ty, r_timeout := qd_timeout q, r_length := qd_length q,
               r_userData := Some 0, r_callback := Some SyncRequestCallbackFn, r_userCallback := None\<rparr>) s);
            if ret \<noteq> HDF_SUCCESS then Some (ret, None, s1)
            else do { (ret2, s2) \<leftarrow> RawSubmitRequest K (Some p) s1;
                      if ret_neg ret2 then do { s3 \<leftarrow> sem_destroy p s2; Some (ret2, None, s3) }
                      else HandleSyncRequestCompletion K W p s2 } } }"

definition RawSendBulkRequest ::
  "'k os_env \<Rightarrow> (ptr \<Rightarrow> u32 \<Rightarrow> 'k host \<Rightarrow> (ret \<times> 'k host) option) \<Rightarrow> ptr option \<Rightarrow> ptr option \<Rightarrow>
   UsbRequestData option \<Rightarrow> 'k host \<Rightarrow> (ret \<times> int option \<times> 'k host) option" where
  "RawSendBulkRequest K W request devHandle requestData s =
     (case (request, devHandle, requestData) of
        (Some p, Some hp, Some q) \<Rightarrow> HandleSyncRequest K W p hp q USB_REQUEST_TYPE_BULK s
      | _ \<Rightarrow> Some (RetErr HDF_ERR_INVALID_PARAM, None, s))"

definition RawSendInterruptRequest ::
  "'k os_env \<Rightarrow> (ptr \<Rightarrow> u32 \<Rightarrow> 'k host \<Rightarrow> (ret \<times> 'k host) option) \<Rightarrow> ptr option \<Rightarrow> ptr option \<Rightarrow>
   UsbRequestData option \<Rightarrow> 'k host \<Rightarrow> (ret \<times> int option \<times> 'k host) option" where
  "RawSendInterruptRequest K W request devHandle requestData s =
     (case (request, devHandle, requestData) of
        (Some p, Some hp, Some q) \<Rightarrow> HandleSyncRequest K W p hp q USB_REQUEST_TYPE_INTERRUPT s
      | _ \<Rightarrow> Some (RetErr HDF_ERR_INVALID_PARAM, None, s))"

text \<open>
  The wait for a control request; the middle component is \<open>requestData->data\<close>.  The limit that the
  copy is given is the sum of the received and the requested length.
\<close>

definition ControlRequestCompletion ::
  "'k os_env \<Rightarrow> (ptr \<Rightarrow> u32 \<Rightarrow> 'k host \<Rightarrow> (ret \<times> 'k host) option) \<Rightarrow> ptr \<Rightarrow> UsbControlRequestData \<Rightarrow>
   'k host \<Rightarrow> (ret \<times> u8 list \<times> 'k host) option" where
  "ControlRequestCompletion K W p q s =
     do { (ret, s1) \<leftarrow> wait_completion K W p s;
          r \<leftarrow> h_reqs s1 p;
          s2 \<leftarrow> sem_destroy p s1;
          if ret \<noteq> HDF_SUCCESS \<and> ret \<noteq> RetErr HDF_ERR_TIMEOUT then Some (ret, q_data q, s2)
          else do {
            (ok, dat) \<leftarrow>
              (if (q_requestType q AND USB_DDK_ENDPOINT_DIR_MASK) = USB_PIPE_DIRECTION_IN
               then memcpy_s (q_data q) 0 (nat (r_actualLength r) + unat (q_length q))
                      (drop USB_RAW_CONTROL_SETUP_SIZE (r_buffer r)) (nat (r_actualLength r))
               else Some (True, q_data q));
            if \<not> ok then Some (RetSec, dat, s2)
            else Some (sync_status (r_status r) (RetVal (r_actualLength r)), dat, s2) } }"

definition RawSendControlRequest ::
  "'k os_env \<Rightarrow> (ptr \<Rightarrow> u32 \<Rightarrow> 'k host \<Rightarrow> (ret \<times> 'k host) option) \<Rightarrow> ptr option \<Rightarrow> ptr option \<Rightarrow>
   UsbControlRequestData option \<Rightarrow> 'k host \<Rightarrow> (ret \<times> u8 list \<times> 'k host) option" where
  "RawSendControlRequest K W request devHandle requestData s =
     (case (request, devHandle, requestData) of
        (Some p, Some hp, Some q) \<Rightarrow>
          do { r \<leftarrow> h_reqs s p;
               (r0, b0) \<leftarrow> RawFillControlSetup (Some (r_buffer r)) (Some q);
               b1 \<leftarrow> b0;
               let out = ((q_requestType q AND USB_DDK_ENDPOINT_DIR_MASK) = USB_PIPE_DIRECTION_OUT) in
               do { (ok, b2) \<leftarrow>
                      (if out \<and> q_length q > 0
                       then memcpy_s b1 USB_RAW_CONTROL_SETUP_SIZE (unat (q_length q)) (q_data q) (unat (q_length q))
                       else Some (True, b1));
                    let s1 = put_req p (r\<lparr>r_buffer := b2\<rparr>) s;
                        f = \<lparr>f_endPoint = (if out then 0 else 0x80), f_buffer = None,
                             f_length = (if out then of_nat USB_RAW_CONTROL_SETUP_SIZE + ucast (q_length q) else 0),
                             f_numIsoPackets = 0, f_callback = Some SyncRequestCallbackFn,
                             f_userData = Some 0, f_timeout = q_timeout q, f_userCallback = None\<rparr>
                    in if \<not> ok then Some (RetSec, q_data q, s1)
                       else do { (r1, s2) \<leftarrow> RawFillControlRequest (Some p) (Some hp) (Some f) s1;
                         (ret, s3) \<leftarrow> sem_init K p s2;
                         if ret \<noteq> HDF_SUCCESS then Some (ret, q_data q, s3)
                         else do { (ret2, s4) \<leftarrow> RawSubmitRequest K (Some p) s3;
                           if ret_neg ret2 then do { s5 \<leftarrow> sem_destroy p s4; Some (ret2, q_data q, s5) }
                           else ControlRequestCompletion K W p q s4 } } } }
      | _ \<Rightarrow> Some (RetErr HDF_ERR_INVALID_PARAM, (case requestData of None \<Rightarrow> [] | Some q \<Rightarrow> q_data q), s))"

subsection \<open>Descriptors and configurations\<close>

text \<open>The result carries the contents of the buffer.\<close>

definition GetConfigDescriptor ::
  "ptr option \<Rightarrow> u8 \<Rightarrow> u8 list \<Rightarrow> nat \<Rightarrow> 'k host \<Rightarrow> (ret \<times> u8 list) option" where
  "GetConfigDescriptor dev configIdx buffer sz s =
     (case dev of
        None \<Rightarrow> Some (RetErr HDF_ERR_INVALID_PARAM, buffer)
      | Some p \<Rightarrow>
          do { (ret, buf) \<leftarrow> AdapterGetConfigDescriptor (Some p) configIdx buffer sz s;
               case ret of
                 RetVal n \<Rightarrow>
                   if n < 0 then Some (ret, buf)
                   else if n < int USB_DDK_DT_CONFIG_SIZE then Some (RetErr HDF_ERR_IO, buf)
                   else Some (ret, buf)
               | _ \<Rightarrow> Some (ret, buf) })"

definition RawGetConfigDescriptor ::
  "'k os_env \<Rightarrow> ptr option \<Rightarrow> u8 \<Rightarrow> 'k host \<Rightarrow>
   (ret \<times> (ptr \<times> UsbRawConfigDescriptor) option \<times> 'k host) option" where
  "RawGetConfigDescriptor K dev configIndex s =
     (case dev of
        None \<Rightarrow> Some (RetErr HDF_ERR_INVALID_PARAM, None, s)
      | Some p \<Rightarrow>
          do { d \<leftarrow> h_devs s p;
            if configIndex > d_bNumConfigurations d then Some (RetErr HDF_ERR_BAD_FD, None, s)
            else do {
              (ret, tmp) \<leftarrow> GetConfigDescriptor (Some p) configIndex (replicate 9 0) USB_DDK_DT_CONFIG_SIZE s;
              if ret_neg ret then Some (ret, None, s)
              else let configLen = unat (c_wTotalLength (config_of tmp)) in
                do { (q, s1) \<leftarrow> halloc K configLen s;
                     case q of
                       None \<Rightarrow> Some (RetErr HDF_ERR_MALLOC_FAIL, None, s1)
                     | Some a \<Rightarrow>
                         do { (ret2, buf) \<leftarrow> GetConfigDescriptor (Some p) configIndex (replicate configLen 0) configLen s1;
                              (ret3, config, s2) \<leftarrow>
                                (case ret2 of
                                   RetVal n \<Rightarrow>
                                     if n \<ge> 0 then
                                       do { (r, c, m) \<leftarrow> DescToConfig (k_alloc K) buf n (h_mem s1);
                                            Some (r, c, s1\<lparr>h_mem := m\<rparr>) }
                                     else Some (ret2, None, s1)
                                 | _ \<Rightarrow> Some (ret2, None, s1));
                              s3 \<leftarrow> hfree (Some a) s2;
                              Some (ret3, config, s3) } } } })"

text \<open>\<open>*config\<close> is stored on success and on failure.\<close>

definition RawGetConfiguration :: "'k os_env \<Rightarrow> ptr option \<Rightarrow> 'k host \<Rightarrow> (ret \<times> int \<times> 'k host) option" where
  "RawGetConfiguration K devHandle s =
     (case devHandle of
        None \<Rightarrow> Some (RetErr HDF_ERR_INVALID_PARAM, 0, s)
      | Some hp \<Rightarrow> do { (ret, tmp, s1) \<leftarrow> AdapterGetConfiguration K (Some hp) s; Some (ret, int (unat tmp), s1) })"

definition RawSetConfiguration :: "'k os_env \<Rightarrow> ptr option \<Rightarrow> int \<Rightarrow> 'k host \<Rightarrow> (ret \<times> 'k host) option" where
  "RawSetConfiguration K devHandle configuration s =
     (if configuration < -1 \<or> configuration > 0xFF then Some (RetErr HDF_ERR_INVALID_PARAM, s)
      else AdapterSetConfiguration K devHandle configuration s)"

record UsbRawDescriptorParam =
  dp_descType :: u8
  dp_descIndex :: u8
  dp_length :: int

definition RawGetDescriptor ::
  "'k os_env \<Rightarrow> (ptr \<Rightarrow> u32 \<Rightarrow> 'k host \<Rightarrow> (ret \<times> 'k host) option) \<Rightarrow> ptr option \<Rightarrow> ptr option \<Rightarrow>
   UsbRawDescriptorParam option \<Rightarrow> u8 list option \<Rightarrow> 'k host \<Rightarrow> (ret \<times> u8 list \<times> 'k host) option" where
  "RawGetDescriptor K W request devHandle param dat s =
     (case (request, devHandle, param, dat) of
        (Some p, Some hp, Some q, Some bs) \<Rightarrow>
          RawSendControlRequest K W (Some p) (Some hp)
            (Some \<lparr>q_requestType = USB_PIPE_DIRECTION_IN, q_requestCmd = 2,
                   q_value = push_bit 8 (ucast (dp_descType q)) OR ucast (dp_descIndex q), q_index = 0,
                   q_length = of_int (dp_length q), q_timeout = 1000, q_data = bs\<rparr>) s
      | _ \<Rightarrow> Some (RetErr HDF_ERR_INVALID_PARAM, (case dat of None \<Rightarrow> [] | Some bs \<Rightarrow> bs), s))"

definition RawGetDevice :: "ptr option \<Rightarrow> 'k host \<Rightarrow> ptr option option" where
  "RawGetDevice devHandle s =
     (case devHandle of None \<Rightarrow> Some None | Some hp \<Rightarrow> do { h \<leftarrow> h_handles s hp; Some (dh_dev h) })"

text \<open>The size of the descriptor struct is 18; the result carries \<open>*desc\<close>.\<close>

definition RawGetDeviceDescriptor :: "ptr option \<Rightarrow> 'k host \<Rightarrow> (ret \<times> u8 list) option" where
  "RawGetDeviceDescriptor dev s =
     (case dev of
        None \<Rightarrow> Some (RetErr HDF_ERR_INVALID_PARAM, [])
      | Some p \<Rightarrow> do { d \<leftarrow> h_devs s p; Some (HDF_SUCCESS, d_deviceDescriptor d) })"

text \<open>The notification service: \<open>None\<close> when it or its buffers are missing.\<close>

definition RawInitPnpService ::
  "'k os_env \<Rightarrow> UsbPnpNotifyServiceCmd \<Rightarrow> UsbPnpAddRemoveInfo \<Rightarrow> 'k host \<Rightarrow> ret \<times> 'k host" where
  "RawInitPnpService K cmdType infoData s =
     (if cmdType \<noteq> USB_PNP_NOTIFY_ADD_INTERFACE \<and> cmdType \<noteq> USB_PNP_NOTIFY_REMOVE_INTERFACE
      then (RetErr HDF_ERR_INVALID_PARAM, s)
      else case k_pnp K cmdType infoData (h_kern s) of
        (None, k) \<Rightarrow> (RetErr HDF_FAILURE, set_kern k s)
      | (Some (ret, reply), k) \<Rightarrow>
          if ret \<noteq> HDF_SUCCESS then (ret, set_kern k s)
          else if reply \<noteq> Some 0x7FFFFFFF then (RetErr HDF_FAILURE, set_kern k s)
          else (HDF_SUCCESS, set_kern k s))"

end
