(* ===== verification/Usb_RawApi.thy ===== *)
theory Usb_RawApi
  imports Usb_RawLib
begin

text \<open>
  The public raw interface, \<open>usb/ddk/host/src/usb_raw_api.c\<close>: each function checks its pointers and
  calls the raw library.
\<close>

type_synonym 'k semwait = "ptr \<Rightarrow> u32 \<Rightarrow> 'k host \<Rightarrow> (ret \<times> 'k host) option"

definition UsbRawInit :: "'k os_env \<Rightarrow> bool \<Rightarrow> 'k host \<Rightarrow> (ret \<times> ptr option \<times> 'k host) option" where
  "UsbRawInit K want s = RawInit K want s"

definition UsbRawExit :: "ptr option \<Rightarrow> 'k host \<Rightarrow> (ret \<times> 'k host) option" where
  "UsbRawExit session s = RawExit session s"

definition UsbRawOpenDevice ::
  "'k os_env \<Rightarrow> ptr option \<Rightarrow> u8 \<Rightarrow> u8 \<Rightarrow> 'k host \<Rightarrow> (ptr option \<times> 'k host) option" where
  "UsbRawOpenDevice K session busNum usbAddr s = RawOpenDevice K session busNum usbAddr s"

definition UsbRawCloseDevice :: "'k os_env \<Rightarrow> ptr option \<Rightarrow> 'k host \<Rightarrow> (ret \<times> 'k host) option" where
  "UsbRawCloseDevice K devHandle s =
     (if devHandle = None then Some (RetErr HDF_ERR_INVALID_PARAM, s) else RawCloseDevice K devHandle s)"

definition UsbRawSendControlRequest ::
  "'k os_env \<Rightarrow> 'k semwait \<Rightarrow> ptr option \<Rightarrow> ptr option \<Rightarrow> UsbControlRequestData option \<Rightarrow> 'k host \<Rightarrow>
   (ret \<times> u8 list \<times> 'k host) option" where
  "UsbRawSendControlRequest K W request devHandle requestData s =
     (if request = None \<or> devHandle = None \<or> requestData = None
      then Some (RetErr HDF_ERR_INVALID_PARAM, (case requestData of None \<Rightarrow> [] | Some q \<Rightarrow> q_data q), s)
      else RawSendControlRequest K W request devHandle requestData s)"

definition UsbRawSendBulkRequest ::
  "'k os_env \<Rightarrow> 'k semwait \<Rightarrow> ptr option \<Rightarrow> ptr option \<Rightarrow> UsbRequestData option \<Rightarrow> 'k host \<Rightarrow>
   (ret \<times> int option \<times> 'k host) option" where
  "UsbRawSendBulkRequest K W request devHandle requestData s =
     (if request = None \<or> devHandle = None \<or> requestData = None
      then Some (RetErr HDF_ERR_INVALID_PARAM, None, s)
      else RawSendBulkRequest K W request devHandle requestData s)"

definition UsbRawSendInterruptRequest ::
  "'k os_env \<Rightarrow> 'k semwait \<Rightarrow> ptr option \<Rightarrow> ptr option \<Rightarrow> UsbRequestData option \<Rightarrow> 'k host \<Rightarrow>
   (ret \<times> int option \<times> 'k host) option" where
  "UsbRawSendInterruptRequest K W request devHandle requestData s =
     (if request = None \<or> devHandle = None \<or> requestData = None
      then Some (RetErr HDF_ERR_INVALID_PARAM, None, s)
      else RawSendInterruptRequest K W request devHandle requestData s)"

definition UsbRawGetConfigDescriptor ::
  "'k os_env \<Rightarrow> ptr option \<Rightarrow> u8 \<Rightarrow> 'k host \<Rightarrow>
   (ret \<times> (ptr \<times> UsbRawConfigDescriptor) option \<times> 'k host) option" where
  "UsbRawGetConfigDescriptor K rawDev configIndex s =
     (if rawDev = None then Some (RetErr HDF_ERR_INVALID_PARAM, None, s)
      else RawGetConfigDescriptor K rawDev configIndex s)"

definition UsbRawGetConfiguration :: "'k os_env \<Rightarrow> ptr option \<Rightarrow> 'k host \<Rightarrow> (ret \<times> int \<times> 'k host) option" where
  "UsbRawGetConfiguration K devHandle s =
     (if devHandle = None then Some (RetErr HDF_ERR_INVALID_PARAM, 0, s) else RawGetConfiguration K devHandle s)"

definition UsbRawSetConfiguration :: "'k os_env \<Rightarrow> ptr option \<Rightarrow> int \<Rightarrow> 'k host \<Rightarrow> (ret \<times> 'k host) option" where
  "UsbRawSetConfiguration K devHandle config s =
     (if devHandle = None then Some (RetErr HDF_ERR_INVALID_PARAM, s) else RawSetConfiguration K devHandle config s)"

definition UsbRawGetDescriptor ::
  "'k os_env \<Rightarrow> 'k semwait \<Rightarrow> ptr option \<Rightarrow> ptr option \<Rightarrow> UsbRawDescriptorParam option \<Rightarrow> u8 list option \<Rightarrow>
   'k host \<Rightarrow> (ret \<times> u8 list \<times> 'k host) option" where
  "UsbRawGetDescriptor K W request devHandle param dat s =
     (if request = None \<or> devHandle = None \<or> param = None \<or> dat = None
      then Some (RetErr HDF_ERR_INVALID_PARAM, (case dat of None \<Rightarrow> [] | Some bs \<Rightarrow> bs), s)
      else RawGetDescriptor K W request devHandle param dat s)"

definition UsbRawGetDevice :: "ptr option \<Rightarrow> 'k host \<Rightarrow> ptr option option" where
  "UsbRawGetDevice devHandle s = (if devHandle = None then Some None else RawGetDevice devHandle s)"

definition UsbRawGetDeviceDescriptor :: "ptr option \<Rightarrow> 'k host \<Rightarrow> (ret \<times> u8 list) option" where
  "UsbRawGetDeviceDescriptor rawDev s =
     (if rawDev = None then Some (RetErr HDF_ERR_INVALID_PARAM, []) else RawGetDeviceDescriptor rawDev s)"

definition UsbRawClaimInterface :: "'k os_env \<Rightarrow> ptr option \<Rightarrow> int \<Rightarrow> 'k host \<Rightarrow> (ret \<times> 'k host) option" where
  "UsbRawClaimInterface K devHandle n s =
     (if devHandle = None then Some (RetErr HDF_ERR_INVALID_PARAM, s) else RawClaimInterface K devHandle n s)"

definition UsbRawReleaseInterface :: "'k os_env \<Rightarrow> ptr option \<Rightarrow> int \<Rightarrow> 'k host \<Rightarrow> (ret \<times> 'k host) option" where
  "UsbRawReleaseInterface K devHandle n s =
     (if devHandle = None then Some (RetErr HDF_ERR_INVALID_PARAM, s) else RawReleaseInterface K devHandle n s)"

definition UsbRawResetDevice :: "'k os_env \<Rightarrow> ptr option \<Rightarrow> 'k host \<Rightarrow> (ret \<times> 'k host) option" where
  "UsbRawResetDevice K devHandle s =
     (if devHandle = None then Some (RetErr HDF_ERR_INVALID_PARAM, s) else RawResetDevice K devHandle s)"

definition UsbRawAllocRequest ::
  "'k os_env \<Rightarrow> ptr option \<Rightarrow> int \<Rightarrow> int \<Rightarrow> 'k host \<Rightarrow> (ptr option \<times> 'k host) option" where
  "UsbRawAllocRequest K devHandle isoPackets length' s =
     (if devHandle = None then Some (None, s) else RawAllocRequest K devHandle isoPackets length' s)"

definition UsbRawFreeRequest :: "'k os_env \<Rightarrow> ptr option \<Rightarrow> 'k host \<Rightarrow> (ret \<times> 'k host) option" where
  "UsbRawFreeRequest K request s =
     (if request = None then Some (RetErr HDF_ERR_INVALID_PARAM, s) else RawFreeRequest K request s)"

text \<open>
  The caller passes a \<open>struct UsbRawFillRequestData\<close>, which is cast to \<open>struct UsbFillRequestData\<close>: the
  field \<open>userCallback\<close> of the latter lies behind the former.  \<open>tail\<close> is what can be read there,
  \<open>None\<close> when nothing can.
\<close>

record UsbRawFillRequestData =
  rf_endPoint :: u8
  rf_buffer :: "u8 list option"
  rf_length :: u32
  rf_numIsoPackets :: int
  rf_callback :: "nat option"
  rf_userData :: "nat option"
  rf_timeout :: u32

definition cast_fill :: "UsbRawFillRequestData \<Rightarrow> nat option \<Rightarrow> UsbFillRequestData" where
  "cast_fill f ucb = \<lparr>f_endPoint = rf_endPoint f, f_buffer = rf_buffer f, f_length = rf_length f,
     f_numIsoPackets = rf_numIsoPackets f, f_callback = map_option RawCallback (rf_callback f),
     f_userData = rf_userData f, f_timeout = rf_timeout f, f_userCallback = ucb\<rparr>"

definition raw_fill ::
  "(ptr option \<Rightarrow> ptr option \<Rightarrow> UsbFillRequestData option \<Rightarrow> 'k host \<Rightarrow> (ret \<times> 'k host) option) \<Rightarrow>
   ptr option \<Rightarrow> ptr option \<Rightarrow> UsbRawFillRequestData option \<Rightarrow> nat option option \<Rightarrow> 'k host \<Rightarrow>
   (ret \<times> 'k host) option" where
  "raw_fill fill request devHandle fillData tail s =
     (if request = None \<or> devHandle = None then Some (RetErr HDF_ERR_INVALID_PARAM, s)
      else case fillData of
        None \<Rightarrow> Some (RetErr HDF_ERR_INVALID_PARAM, s)
      | Some f \<Rightarrow> do { ucb \<leftarrow> tail; fill request devHandle (Some (cast_fill f ucb)) s })"

definition UsbRawFillBulkRequest ::
  "ptr option \<Rightarrow> ptr option \<Rightarrow> UsbRawFillRequestData option \<Rightarrow> nat option option \<Rightarrow> 'k host \<Rightarrow>
   (ret \<times> 'k host) option" where
  "UsbRawFillBulkRequest = raw_fill RawFillBulkRequest"

definition UsbRawFillControlSetup ::
  "u8 list option \<Rightarrow> UsbControlRequestData option \<Rightarrow> (ret \<times> u8 list option) option" where
  "UsbRawFillControlSetup setup requestData =
     (if setup = None \<or> requestData = None then Some (RetErr HDF_ERR_INVALID_PARAM, setup)
      else RawFillControlSetup setup requestData)"

definition UsbRawFillControlRequest ::
  "ptr option \<Rightarrow> ptr option \<Rightarrow> UsbRawFillRequestData option \<Rightarrow> nat option option \<Rightarrow> 'k host \<Rightarrow>
   (ret \<times> 'k host) option" where
  "UsbRawFillControlRequest = raw_fill RawFillControlRequest"

definition UsbRawFillInterruptRequest ::
  "ptr option \<Rightarrow> ptr option \<Rightarrow> UsbRawFillRequestData option \<Rightarrow> nat option option \<Rightarrow> 'k host \<Rightarrow>
   (ret \<times> 'k host) option" where
  "UsbRawFillInterruptRequest = raw_fill RawFillInterruptRequest"

definition UsbRawFillIsoRequest ::
  "ptr option \<Rightarrow> ptr option \<Rightarrow> UsbRawFillRequestData option \<Rightarrow> nat option option \<Rightarrow> 'k host \<Rightarrow>
   (ret \<times> 'k host) option" where
  "UsbRawFillIsoRequest = raw_fill RawFillIsoRequest"

definition UsbRawSubmitRequest :: "'k os_env \<Rightarrow> ptr option \<Rightarrow> 'k host \<Rightarrow> (ret \<times> 'k host) option" where
  "UsbRawSubmitRequest K request s =
     (if request = None then Some (RetErr HDF_ERR_INVALID_PARAM, s) else RawSubmitRequest K request s)"

definition UsbRawCancelRequest :: "'k os_env \<Rightarrow> ptr option \<Rightarrow> 'k host \<Rightarrow> (ret \<times> 'k host) option" where
  "UsbRawCancelRequest K request s =
     (if request = None then Some (RetErr HDF_ERR_INVALID_PARAM, s) else RawCancelRequest K request s)"

definition UsbRawHandleRequests :: "'k os_env \<Rightarrow> ptr option \<Rightarrow> 'k host \<Rightarrow> (ret \<times> 'k host) option" where
  "UsbRawHandleRequests K devHandle s =
     (if devHandle = None then Some (RetErr HDF_ERR_INVALID_PARAM, s) else RawHandleRequest K devHandle s)"

end
