(* ===== verification/Usb_Pool.thy ===== *)
theory Usb_Pool
  imports Usb_RawLib
begin

text \<open>
  The objects of \<open>usb/ddk/host/src/usb_interface_pool.c\<close>: creation, search and destruction of pipes,
  interfaces and interface pools, with the request queue of a pool from \<open>usb_io_manage.c\<close>.

  The framework's doubly linked lists are lists of addresses: insertion at the tail appends, removal
  takes the first occurrence out, and iteration follows the order.
\<close>

subsection \<open>The request queue of a pool\<close>

definition UsbIoCreateQueue :: "UsbInterfacePool \<Rightarrow> ret \<times> UsbInterfacePool" where
  "UsbIoCreateQueue pool = (HDF_SUCCESS, pool\<lparr>submitRequestQueue := [], queue_sem := 0\<rparr>)"

definition UsbIoDestroyQueue :: "UsbInterfacePool \<Rightarrow> ret" where
  "UsbIoDestroyQueue pool = (if submitRequestQueue pool \<noteq> [] then RetErr HDF_FAILURE else HDF_SUCCESS)"

text \<open>Linking an entry that is already in the list destroys the list: no result.\<close>

definition UsbIoSendRequest :: "UsbInterfacePool \<Rightarrow> ptr option \<Rightarrow> (ret \<times> UsbInterfacePool) option" where
  "UsbIoSendRequest pool request =
     (case request of
        None \<Rightarrow> Some (RetErr HDF_ERR_INVALID_PARAM, pool)
      | Some p \<Rightarrow>
          if p \<in> set (submitRequestQueue pool) then None
          else Some (HDF_SUCCESS, pool\<lparr>submitRequestQueue := submitRequestQueue pool @ [p],
                                       queue_sem := Suc (queue_sem pool)\<rparr>))"

text \<open>The wait has no timeout: with the semaphore at 0 the call does not return.\<close>

definition UsbIoGetRequest :: "UsbInterfacePool \<Rightarrow> (ret \<times> ptr option \<times> UsbInterfacePool) option" where
  "UsbIoGetRequest pool =
     (case queue_sem pool of
        0 \<Rightarrow> None
      | Suc n \<Rightarrow>
          (case submitRequestQueue pool of
             [] \<Rightarrow> Some (HDF_SUCCESS, None, pool\<lparr>queue_sem := n\<rparr>)
           | p # ps \<Rightarrow> Some (HDF_SUCCESS, Some p, pool\<lparr>queue_sem := n, submitRequestQueue := ps\<rparr>)))"

subsection \<open>Pipes\<close>

definition IfFreePipeObj :: "ptr option \<Rightarrow> 'k host \<Rightarrow> (ret \<times> 'k host) option" where
  "IfFreePipeObj pipeObj s =
     (case pipeObj of
        None \<Rightarrow> Some (RetErr HDF_ERR_INVALID_PARAM, s)
      | Some p \<Rightarrow> do { s1 \<leftarrow> hfree (Some p) s; Some (HDF_SUCCESS, s1) })"

text \<open>The loop of \<open>IfDestroyPipeObj\<close>: all pipes, or the first one with the given object id.\<close>

fun destroy_pipe_loop ::
  "ptr \<Rightarrow> int option \<Rightarrow> ptr list \<Rightarrow> bool \<Rightarrow> ret \<Rightarrow> 'k host \<Rightarrow> (bool \<times> ret \<times> 'k host) option" where
  "destroy_pipe_loop ip tgt [] found ret s = Some (found, ret, s)"
| "destroy_pipe_loop ip tgt (q # qs) found ret s =
     do { pipe \<leftarrow> h_pipes s q;
          if tgt = None \<or> tgt = Some (pp_objectId pipe) then
            do { ifc \<leftarrow> h_ifaces s ip;
                 (r, s1) \<leftarrow> IfFreePipeObj (Some q)
                            (put_iface ip (ifc\<lparr>pipeList := remove1 q (pipeList ifc)\<rparr>) s);
                 if r \<noteq> HDF_SUCCESS \<or> tgt \<noteq> None then Some (True, r, s1)
                 else destroy_pipe_loop ip tgt qs True r s1 }
          else destroy_pipe_loop ip tgt qs found ret s }"

definition IfDestroyPipeObj :: "ptr option \<Rightarrow> ptr option \<Rightarrow> 'k host \<Rightarrow> (ret \<times> 'k host) option" where
  "IfDestroyPipeObj interfaceObj pipeObj s =
     (case interfaceObj of
        None \<Rightarrow> Some (RetErr HDF_FAILURE, s)
      | Some ip \<Rightarrow>
          do { ifc \<leftarrow> h_ifaces s ip;
               if pipeList ifc = [] then Some (HDF_SUCCESS, s)
               else do {
                 tgt \<leftarrow> (case pipeObj of None \<Rightarrow> Some None
                         | Some q \<Rightarrow> do { pipe \<leftarrow> h_pipes s q; Some (Some (pp_objectId pipe)) });
                 (found, ret, s1) \<leftarrow> destroy_pipe_loop ip tgt (pipeList ifc) False HDF_SUCCESS s;
                 Some (if found then ret else RetErr HDF_FAILURE, s1) } })"

definition UsbIfCreatPipeObj ::
  "'k os_env \<Rightarrow> ptr option \<Rightarrow> 'k host \<Rightarrow> (ret \<times> ptr option \<times> 'k host) option" where
  "UsbIfCreatPipeObj K interfaceObj s =
     (case interfaceObj of
        None \<Rightarrow> Some (RetErr HDF_ERR_INVALID_PARAM, None, s)
      | Some ip \<Rightarrow>
          do { (q, s1) \<leftarrow> halloc K sizeof_UsbPipe s;
               case q of
                 None \<Rightarrow> Some (RetErr HDF_ERR_MALLOC_FAIL, None, s1)
               | Some a \<Rightarrow>
                   do { ifc \<leftarrow> h_ifaces s1 ip;
                        let n = (h_pipeIdNum s1 + 1) mod INTERFACE_POOL_ID_MAX;
                            pipe = zero_pipe\<lparr>pp_objectId := n,
                                     pp_info := (pp_info zero_pipe)\<lparr>pi_interfaceId :=
                                        ii_interfaceIndex (if_info ifc)\<rparr>\<rparr>
                        in Some (HDF_SUCCESS, Some a,
                             put_iface ip (ifc\<lparr>pipeList := pipeList ifc @ [a]\<rparr>)
                               (put_pipe a pipe (s1\<lparr>h_pipeIdNum := n\<rparr>))) } })"

datatype UsbPipeQueryPara = PIPE_INDEX u8 | PIPE_DIRECTION u8

fun pipe_matches :: "UsbPipeQueryPara \<Rightarrow> UsbPipe \<Rightarrow> bool" where
  "pipe_matches (PIPE_INDEX i) p = (pi_pipeId (pp_info p) = i)"
| "pipe_matches (PIPE_DIRECTION d) p = (pi_pipeDirection (pp_info p) = d)"

text \<open>The first element of a list of objects with a property.\<close>

fun list_search :: "(ptr \<Rightarrow> 'a option) \<Rightarrow> ('a \<Rightarrow> bool) \<Rightarrow> ptr list \<Rightarrow> ptr option option" where
  "list_search h P [] = Some None"
| "list_search h P (p # ps) = do { x \<leftarrow> h p; if P x then Some (Some p) else list_search h P ps }"

definition IfFindPipeObj :: "ptr option \<Rightarrow> UsbPipeQueryPara \<Rightarrow> 'k host \<Rightarrow> ptr option option" where
  "IfFindPipeObj interfaceObj query s =
     (case interfaceObj of
        None \<Rightarrow> Some None
      | Some ip \<Rightarrow>
          do { ifc \<leftarrow> h_ifaces s ip;
               if pipeList ifc = [] \<or> if_status ifc = USB_INTERFACE_STATUS_REMOVE then Some None
               else list_search (h_pipes s) (pipe_matches query) (pipeList ifc) })"

subsection \<open>Interfaces\<close>

definition IfInterfaceObjInit :: "UsbSdkInterface \<Rightarrow> UsbSdkInterface" where
  "IfInterfaceObjInit i = i\<lparr>pipeList := [], if_refCount := 0, if_status := USB_INTERFACE_STATUS_NORMAL\<rparr>"

definition IfFreeInterfaceObj :: "ptr option \<Rightarrow> 'k host \<Rightarrow> (ret \<times> 'k host) option" where
  "IfFreeInterfaceObj interfaceObj s =
     (case interfaceObj of
        None \<Rightarrow> Some (RetErr HDF_ERR_INVALID_PARAM, s)
      | Some ip \<Rightarrow>
          do { ifc \<leftarrow> h_ifaces s ip;
               (ret, s1) \<leftarrow> IfDestroyPipeObj (Some ip) None
                  (put_iface ip (ifc\<lparr>if_objectId := 0, if_parentObjectId := 0\<rparr>) s);
               if ret \<noteq> HDF_SUCCESS then Some (ret, s1)
               else do { s2 \<leftarrow> hfree (Some ip) s1; Some (ret, s2) } })"

definition UsbIfCreatInterfaceObj ::
  "'k os_env \<Rightarrow> ptr option \<Rightarrow> 'k host \<Rightarrow> (ret \<times> ptr option \<times> 'k host) option" where
  "UsbIfCreatInterfaceObj K interfacePool s =
     (case interfacePool of
        None \<Rightarrow> Some (RetErr HDF_ERR_INVALID_PARAM, None, s)
      | Some pp \<Rightarrow>
          do { (q, s1) \<leftarrow> halloc K sizeof_UsbSdkInterface s;
               case q of
                 None \<Rightarrow> Some (RetErr HDF_ERR_MALLOC_FAIL, None, s1)
               | Some a \<Rightarrow>
                   do { pool \<leftarrow> h_pools s1 pp;
                        let n = (h_ifaceIdNum s1 + 1) mod INTERFACE_POOL_ID_MAX;
                            ifc = (IfInterfaceObjInit (zero_sdk_interface\<lparr>if_objectId := n\<rparr>))
                                    \<lparr>if_parentObjectId := po_objectId pool\<rparr>
                        in Some (HDF_SUCCESS, Some a,
                             put_pool pp (pool\<lparr>interfaceList := interfaceList pool @ [a]\<rparr>)
                               (put_iface a ifc (s1\<lparr>h_ifaceIdNum := n\<rparr>))) } })"

fun destroy_iface_loop ::
  "ptr \<Rightarrow> int option \<Rightarrow> ptr list \<Rightarrow> bool \<Rightarrow> ret \<Rightarrow> 'k host \<Rightarrow> (bool \<times> ret \<times> 'k host) option" where
  "destroy_iface_loop pp tgt [] found ret s = Some (found, ret, s)"
| "destroy_iface_loop pp tgt (q # qs) found ret s =
     do { ifc \<leftarrow> h_ifaces s q;
          if tgt = None \<or> tgt = Some (if_objectId ifc) then
            do { pool \<leftarrow> h_pools s pp;
                 (r, s1) \<leftarrow> IfFreeInterfaceObj (Some q)
                            (put_pool pp (pool\<lparr>interfaceList := remove1 q (interfaceList pool)\<rparr>) s);
                 if r \<noteq> HDF_SUCCESS \<or> tgt \<noteq> None then Some (True, r, s1)
                 else destroy_iface_loop pp tgt qs True r s1 }
          else destroy_iface_loop pp tgt qs found ret s }"

definition UsbIfDestroyInterfaceObj :: "ptr option \<Rightarrow> ptr option \<Rightarrow> 'k host \<Rightarrow> (ret \<times> 'k host) option" where
  "UsbIfDestroyInterfaceObj interfacePool interfaceObj s =
     (case interfacePool of
        None \<Rightarrow> Some (RetErr HDF_FAILURE, s)
      | Some pp \<Rightarrow>
          do { pool \<leftarrow> h_pools s pp;
               if interfaceList pool = [] then Some (HDF_SUCCESS, s)
               else do {
                 tgt \<leftarrow> (case interfaceObj of None \<Rightarrow> Some None
                         | Some q \<Rightarrow> do { ifc \<leftarrow> h_ifaces s q; Some (Some (if_objectId ifc)) });
                 (found, ret, s1) \<leftarrow> destroy_iface_loop pp tgt (interfaceList pool) False HDF_SUCCESS s;
                 Some (if found then ret else RetErr HDF_FAILURE, s1) } })"

datatype UsbInterfaceQueryPara = INTERFACE_INDEX u8 | ALT_SETTINGS u8 u8

fun query_index :: "UsbInterfaceQueryPara \<Rightarrow> u8" where
  "query_index (INTERFACE_INDEX i) = i"
| "query_index (ALT_SETTINGS i a) = i"

fun iface_matches :: "UsbInterfaceQueryPara \<Rightarrow> UsbSdkInterface \<Rightarrow> bool" where
  "iface_matches (INTERFACE_INDEX i) x =
     (ii_interfaceIndex (if_info x) = i \<and> ii_curAltSetting (if_info x) = altSettingId x)"
| "iface_matches (ALT_SETTINGS i a) x = (ii_interfaceIndex (if_info x) = i \<and> altSettingId x = a)"

text \<open>The new value of \<open>*claimFlag\<close> and of the interface.\<close>

definition IfInterfaceRefCount :: "UsbSdkInterface \<Rightarrow> u8 \<Rightarrow> bool \<Rightarrow> bool \<Rightarrow> bool \<times> UsbSdkInterface" where
  "IfInterfaceRefCount ifc interfaceIndex refCountFlag claimFlag =
     (if refCountFlag \<and> interfaceIndex \<noteq> USB_CTRL_INTERFACE_ID
      then (if_refCount ifc = 0, ifc\<lparr>if_refCount := if_refCount ifc + 1\<rparr>)
      else (claimFlag, ifc))"

definition IfFindInterfaceObj ::
  "ptr option \<Rightarrow> UsbInterfaceQueryPara \<Rightarrow> bool \<Rightarrow> bool \<Rightarrow> bool \<Rightarrow> 'k host \<Rightarrow>
   (ptr option \<times> bool \<times> 'k host) option" where
  "IfFindInterfaceObj interfacePool query refCountFlag claimFlag statusFlag s =
     (case interfacePool of
        None \<Rightarrow> Some (None, claimFlag, s)
      | Some pp \<Rightarrow>
          do { pool \<leftarrow> h_pools s pp;
               q \<leftarrow> list_search (h_ifaces s) (iface_matches query) (interfaceList pool);
               case q of
                 None \<Rightarrow> Some (None, claimFlag, s)
               | Some ip \<Rightarrow>
                   do { ifc \<leftarrow> h_ifaces s ip;
                        (case IfInterfaceRefCount ifc (query_index query) refCountFlag claimFlag of
                           (cf, ifc1) \<Rightarrow>
                             Some (if statusFlag \<and> if_status ifc1 = USB_INTERFACE_STATUS_REMOVE
                                   then None else Some ip, cf, put_iface ip ifc1 s)) } })"

subsection \<open>Interface pools\<close>

definition IfInterfacePoolInit :: "UsbInterfacePool \<Rightarrow> u8 \<Rightarrow> u8 \<Rightarrow> ret \<times> UsbInterfacePool" where
  "IfInterfacePoolInit pool busNum devAddr =
     UsbIoCreateQueue (pool\<lparr>po_session := None, interfaceList := [], po_refCount := 0, po_busNum := busNum,
        po_devAddr := devAddr, po_ioRefCount := 0, ioProcessStopStatus := USB_POOL_PROCESS_RUNNING,
        po_device := None\<rparr>)"

definition IfFreeInterfacePool :: "ptr option \<Rightarrow> 'k host \<Rightarrow> (ret \<times> 'k host) option" where
  "IfFreeInterfacePool interfacePool s =
     (case interfacePool of
        None \<Rightarrow> Some (RetErr HDF_ERR_INVALID_PARAM, s)
      | Some pp \<Rightarrow>
          do { pool \<leftarrow> h_pools s pp;
               let ret = UsbIoDestroyQueue pool in
               if ret \<noteq> HDF_SUCCESS then Some (ret, s)
               else do { (ret2, s1) \<leftarrow> UsbIfDestroyInterfaceObj (Some pp) None
                            (put_pool pp (pool\<lparr>po_objectId := 0\<rparr>) s);
                         if ret2 \<noteq> HDF_SUCCESS then Some (ret2, s1)
                         else do { s2 \<leftarrow> hfree (Some pp) s1; Some (ret2, s2) } } })"

text \<open>The loop ends at the first pool of the list with the object id.\<close>

definition IfDestroyInterfacePool :: "ptr option \<Rightarrow> 'k host \<Rightarrow> (ret \<times> 'k host) option" where
  "IfDestroyInterfacePool interfacePool s =
     (case interfacePool of
        None \<Rightarrow> Some (RetErr HDF_ERR_INVALID_PARAM, s)
      | Some pp \<Rightarrow>
          do { pool \<leftarrow> h_pools s pp;
               case po_session pool of
                 None \<Rightarrow> Some (RetErr HDF_ERR_INVALID_PARAM, s)
               | Some sp \<Rightarrow>
                   do { ss \<leftarrow> h_sessions s sp;
                        if ifacePoolList ss = [] then Some (HDF_SUCCESS, s)
                        else do {
                          q \<leftarrow> list_search (h_pools s) (\<lambda>x. po_objectId x = po_objectId pool) (ifacePoolList ss);
                          case q of
                            None \<Rightarrow> Some (RetErr HDF_FAILURE, s)
                          | Some x \<Rightarrow>
                              IfFreeInterfacePool (Some x)
                                (put_session sp (ss\<lparr>ifacePoolList := remove1 x (ifacePoolList ss)\<rparr>) s) } } })"

datatype UsbPoolQueryPara = POOL_NORMAL u8 u8 | POOL_OBJECT_ID int

fun pool_matches :: "UsbPoolQueryPara \<Rightarrow> UsbInterfacePool \<Rightarrow> bool" where
  "pool_matches (POOL_NORMAL b a) x = (po_busNum x = b \<and> po_devAddr x = a)"
| "pool_matches (POOL_OBJECT_ID i) x = (po_objectId x = i)"

definition IfFindInterfacePool ::
  "ptr option \<Rightarrow> UsbPoolQueryPara \<Rightarrow> bool \<Rightarrow> 'k host \<Rightarrow> (ptr option \<times> 'k host) option" where
  "IfFindInterfacePool session query refCountFlag s =
     (case session of
        None \<Rightarrow> Some (None, s)
      | Some sp \<Rightarrow>
          do { ss \<leftarrow> h_sessions s sp;
               q \<leftarrow> list_search (h_pools s) (pool_matches query) (ifacePoolList ss);
               case q of
                 None \<Rightarrow> Some (None, s)
               | Some pp \<Rightarrow>
                   do { pool \<leftarrow> h_pools s pp;
                        Some (Some pp, if refCountFlag
                          then put_pool pp (pool\<lparr>po_refCount := po_refCount pool + 1\<rparr>) s else s) } })"

definition UsbIfCreatInterfacePool ::
  "'k os_env \<Rightarrow> ptr option \<Rightarrow> u8 \<Rightarrow> u8 \<Rightarrow> 'k host \<Rightarrow> (ret \<times> ptr option \<times> 'k host) option" where
  "UsbIfCreatInterfacePool K session busNum devAddr s =
     do { (q, s1) \<leftarrow> halloc K sizeof_UsbInterfacePool s;
          case q of
            None \<Rightarrow> Some (RetErr HDF_ERR_MALLOC_FAIL, None, s1)
          | Some a \<Rightarrow>
              let n = (h_poolIdNum s1 + 1) mod INTERFACE_POOL_ID_MAX;
                  s2 = s1\<lparr>h_poolIdNum := n\<rparr> in
              (case IfInterfacePoolInit (zero_pool\<lparr>po_objectId := n, ioProcessTid := 0\<rparr>) busNum devAddr of
                 (ret, pool) \<Rightarrow>
                   if ret \<noteq> HDF_SUCCESS
                   then do { s3 \<leftarrow> hfree (Some a) (put_pool a pool s2); Some (RetErr HDF_ERR_IO, None, s3) }
                   else do { sp \<leftarrow> session; ss \<leftarrow> h_sessions s2 sp;
                             Some (HDF_SUCCESS, Some a,
                               put_session sp (ss\<lparr>ifacePoolList := ifacePoolList ss @ [a]\<rparr>)
                                 (put_pool a pool s2)) }) }"

text \<open>The result carries \<open>*pipeType\<close>.\<close>

definition IfGetRequestPipeType ::
  "ptr option \<Rightarrow> u8 \<Rightarrow> u8 \<Rightarrow> 'k host \<Rightarrow> (ret \<times> u8 option \<times> 'k host) option" where
  "IfGetRequestPipeType devHandle interfaceId pipeId s =
     do { hp \<leftarrow> devHandle; h \<leftarrow> h_handles s hp; dp \<leftarrow> dh_dev h; d \<leftarrow> h_devs s dp;
          case d_privateObject d of
            None \<Rightarrow> Some (RetErr HDF_ERR_BAD_FD, None, s)
          | Some pp \<Rightarrow>
              do { (iq, cf, s1) \<leftarrow> IfFindInterfaceObj (Some pp) (INTERFACE_INDEX interfaceId) False False True s;
                   case iq of
                     None \<Rightarrow> Some (RetErr HDF_ERR_BAD_FD, None, s1)
                   | Some ip \<Rightarrow>
                       do { pq \<leftarrow> IfFindPipeObj (Some ip) (PIPE_INDEX pipeId) s1;
                            case pq of
                              None \<Rightarrow> Some (RetErr HDF_ERR_BAD_FD, None, s1)
                            | Some x \<Rightarrow>
                                do { pipe \<leftarrow> h_pipes s1 x;
                                     Some (HDF_SUCCESS, Some (pi_pipeType (pp_info pipe)), s1) } } } }"

end
