(* ===== verification/Usb_Protocol.thy ===== *)
theory Usb_Protocol
  imports Usb_Pool
begin

text \<open>
  \<open>usb/ddk/host/src/usb_protocol.c\<close>: the setup packet of control requests, and the construction of the
  interface and pipe objects of a pool from a parsed configuration.

  A variable that is returned before it was assigned has no value: the result of the function is then
  undefined.
\<close>

subsection \<open>Setup packets\<close>

text \<open>
  \<open>struct UsbControlRequest\<close>; the three enumerations are the numbers that the code casts to
  \<open>uint8_t\<close>.
\<close>

record UsbControlRequest =
  x_target :: u8
  x_reqType :: u8
  x_directon :: u8
  x_request :: u8
  x_value :: u16
  x_index :: u16
  x_buffer :: "u8 list option"
  x_length :: u32

definition request_type_byte :: "u8 \<Rightarrow> u8 \<Rightarrow> u8 \<Rightarrow> u8" where
  "request_type_byte dir ty tgt = push_bit 7 dir OR push_bit 5 ty OR tgt"

text \<open>\<open>setup\<close> is the object that starts at the pointer; both enumerated cases assign the same fields.\<close>

definition UsbProtocalFillControlSetup ::
  "u8 list option \<Rightarrow> UsbControlRequest option \<Rightarrow> (ret \<times> u8 list option) option" where
  "UsbProtocalFillControlSetup setup ctrlReq =
     (case (setup, ctrlReq) of
        (Some b, Some c) \<Rightarrow>
          if x_reqType c = 0 \<or> x_reqType c = 1 \<or> x_reqType c = 2 then
            do { b' \<leftarrow> wrn b 0 (setup_bytes (request_type_byte (x_directon c) (x_reqType c) (x_target c))
                               (x_request c) (x_value c) (x_index c) (ucast (x_length c)));
                 Some (HDF_SUCCESS, Some b') }
          else Some (RetErr HDF_ERR_INVALID_PARAM, Some b)
      | _ \<Rightarrow> Some (RetErr HDF_ERR_INVALID_PARAM, setup))"

subsection \<open>Objects from descriptors\<close>

definition CreateCtrPipe :: "'k os_env \<Rightarrow> ptr option \<Rightarrow> 'k host \<Rightarrow> (ret \<times> 'k host) option" where
  "CreateCtrPipe K pool s =
     (case pool of
        None \<Rightarrow> Some (RetErr HDF_ERR_INVALID_PARAM, s)
      | Some pp \<Rightarrow>
          do { (ret, iq, s1) \<leftarrow> UsbIfCreatInterfaceObj K (Some pp) s;
               if ret \<noteq> HDF_SUCCESS then Some (RetErr HDF_ERR_MALLOC_FAIL, s1)
               else do {
                 ip \<leftarrow> iq; ifc \<leftarrow> h_ifaces s1 ip;
                 (ret2, pq, s2) \<leftarrow> UsbIfCreatPipeObj K (Some ip)
                    (put_iface ip (ifc\<lparr>altSettingId := 0, if_info := (if_info ifc)\<lparr>
                       ii_interfaceIndex := USB_CTRL_INTERFACE_ID, ii_pipeNum := 1, ii_curAltSetting := 0\<rparr>\<rparr>) s1);
                 if ret2 \<noteq> HDF_SUCCESS then Some (RetErr HDF_ERR_IO, s2)
                 else do { x \<leftarrow> pq; pipe \<leftarrow> h_pipes s2 x;
                           Some (ret2, put_pipe x (pipe\<lparr>pp_info := (pp_info pipe)\<lparr>pi_pipeId := 0,
                              pi_pipeAddress := 0, pi_pipeDirection := USB_PIPE_DIRECTION_OUT,
                              pi_pipeType := USB_REQUEST_TYPE_CONTROL\<rparr>\<rparr>) s2) } } })"

definition UsbInterfaceInit ::
  "UsbSdkInterface \<Rightarrow> UsbRawInterfaceDescriptor \<Rightarrow> UsbRawInterface \<Rightarrow> ret \<times> UsbSdkInterface" where
  "UsbInterfaceInit ifc iface altsettings =
     (let d = interfaceDescriptor iface in
      (HDF_SUCCESS, ifc\<lparr>if_info := \<lparr>ii_interfaceIndex = i_bInterfaceNumber d,
          ii_altSettings = numAltsetting altsettings, ii_curAltSetting = 0,
          ii_pipeNum = i_bNumEndpoints d, ii_interfaceClass = i_bInterfaceClass d,
          ii_interfaceSubClass = i_bInterfaceSubClass d, ii_interfaceProtocol = i_bInterfaceProtocol d\<rparr>,
        altSettingId := i_bAlternateSetting d\<rparr>))"

definition UsbPipeInit :: "UsbPipe \<Rightarrow> UsbRawEndpointDescriptor \<Rightarrow> u8 \<Rightarrow> ret \<times> UsbPipe" where
  "UsbPipeInit pipe ep id' =
     (let e = endpointDescriptor ep in
      (HDF_SUCCESS, pipe\<lparr>pp_info := (pp_info pipe)\<lparr>pi_pipeId := id',
         pi_maxPacketSize := e_wMaxPacketSize e, pi_interval := e_bInterval e,
         pi_pipeType := e_bmAttributes e AND USB_DDK_ENDPOINT_XFERTYPE_MASK,
         pi_pipeAddress := e_bEndpointAddress e AND USB_DDK_ENDPOINT_NUMBER_MASK,
         pi_pipeDirection := e_bEndpointAddress e AND USB_DDK_ENDPOINT_DIR_MASK\<rparr>\<rparr>))"

definition UsbGetInterfaceFromConfig :: "UsbRawConfigDescriptor \<Rightarrow> nat \<Rightarrow> UsbRawInterface option option" where
  "UsbGetInterfaceFromConfig config idx =
     (if unat (c_bNumInterfaces (configDescriptor config)) < idx + 1 then Some None
      else if idx < length (interface config) then Some (interface config ! idx) else None)"

definition UsbGetInterfaceDesc :: "UsbRawInterface \<Rightarrow> nat \<Rightarrow> UsbRawInterfaceDescriptor option" where
  "UsbGetInterfaceDesc altSetting settingIndex =
     (if settingIndex < length (altsetting altSetting) then Some (altsetting altSetting ! settingIndex) else None)"

text \<open>The inner \<open>None\<close> is the null pointer.\<close>

definition UsbGetEpDesc :: "UsbRawInterfaceDescriptor \<Rightarrow> nat \<Rightarrow> UsbRawEndpointDescriptor option option" where
  "UsbGetEpDesc ifDes idx =
     (if unat (i_bNumEndpoints (interfaceDescriptor ifDes)) < idx + 1 then Some None
      else do { (a, eps) \<leftarrow> endPoint ifDes;
                if idx < length eps then Some (Some (eps ! idx)) else None })"

text \<open>
  The loop of \<open>UsbProtocalCreatePipeObj\<close> with \<open>k\<close> endpoints left; \<open>ret\<close> is the variable of that name,
  \<open>None\<close> before its first assignment.
\<close>

fun create_pipe_loop ::
  "'k os_env \<Rightarrow> UsbRawInterfaceDescriptor \<Rightarrow> ptr \<Rightarrow> nat \<Rightarrow> nat \<Rightarrow> ret option \<Rightarrow> 'k host \<Rightarrow>
   (ret option \<times> 'k host) option" where
  "create_pipe_loop K ifDes ip 0 cnep ret s = Some (ret, s)"
| "create_pipe_loop K ifDes ip (Suc k) cnep ret s =
     (if unat (i_bNumEndpoints (interfaceDescriptor ifDes)) > USB_MAXENDPOINTS
      then Some (Some (RetErr HDF_DEV_ERR_NORANGE), s)
      else do { eq \<leftarrow> UsbGetEpDesc ifDes cnep;
        case eq of
          None \<Rightarrow> Some (Some (RetErr HDF_ERR_INVALID_PARAM), s)
        | Some ep \<Rightarrow>
            do { (r, pq, s1) \<leftarrow> UsbIfCreatPipeObj K (Some ip) s;
                 if r \<noteq> HDF_SUCCESS then Some (Some r, s1)
                 else do { x \<leftarrow> pq; pipe \<leftarrow> h_pipes s1 x;
                   (case UsbPipeInit pipe ep (of_nat (Suc cnep)) of
                      (r2, pipe1) \<Rightarrow>
                        if r2 \<noteq> HDF_SUCCESS then Some (Some r2, put_pipe x pipe1 s1)
                        else create_pipe_loop K ifDes ip k (Suc cnep) (Some r2) (put_pipe x pipe1 s1)) } } })"

definition UsbProtocalCreatePipeObj ::
  "'k os_env \<Rightarrow> UsbRawInterfaceDescriptor \<Rightarrow> ptr \<Rightarrow> 'k host \<Rightarrow> (ret \<times> 'k host) option" where
  "UsbProtocalCreatePipeObj K ifDes ip s =
     do { (rq, s1) \<leftarrow> create_pipe_loop K ifDes ip (unat (i_bNumEndpoints (interfaceDescriptor ifDes))) 0 None s;
          ret \<leftarrow> rq; Some (ret, s1) }"

text \<open>The inner loop over the alternate settings; \<open>False\<close> for a jump to the end.\<close>

fun create_alt_loop ::
  "'k os_env \<Rightarrow> UsbRawInterface \<Rightarrow> ptr \<Rightarrow> nat \<Rightarrow> nat \<Rightarrow> ret option \<Rightarrow> 'k host \<Rightarrow>
   (bool \<times> ret option \<times> 'k host) option" where
  "create_alt_loop K itface pp 0 j ret s = Some (True, ret, s)"
| "create_alt_loop K itface pp (Suc k) j ret s =
     do { ifDes \<leftarrow> UsbGetInterfaceDesc itface j;
          (r, iq, s1) \<leftarrow> UsbIfCreatInterfaceObj K (Some pp) s;
          if r \<noteq> HDF_SUCCESS then Some (False, Some r, s1)
          else do { ip \<leftarrow> iq; ifc \<leftarrow> h_ifaces s1 ip;
            (case UsbInterfaceInit ifc ifDes itface of
               (r2, ifc1) \<Rightarrow>
                 if r2 \<noteq> HDF_SUCCESS then Some (False, Some (RetErr HDF_ERR_IO), put_iface ip ifc1 s1)
                 else do { (r3, s2) \<leftarrow> UsbProtocalCreatePipeObj K ifDes ip (put_iface ip ifc1 s1);
                           if r3 \<noteq> HDF_SUCCESS then Some (False, Some r3, s2)
                           else create_alt_loop K itface pp k (Suc j) (Some r3) s2 }) } }"

fun create_iface_loop ::
  "'k os_env \<Rightarrow> UsbRawConfigDescriptor \<Rightarrow> ptr \<Rightarrow> nat \<Rightarrow> nat \<Rightarrow> ret option \<Rightarrow> 'k host \<Rightarrow>
   (ret option \<times> 'k host) option" where
  "create_iface_loop K config pp 0 i ret s = Some (ret, s)"
| "create_iface_loop K config pp (Suc k) i ret s =
     do { iq \<leftarrow> UsbGetInterfaceFromConfig config i;
          case iq of
            None \<Rightarrow> Some (Some (RetErr HDF_ERR_INVALID_PARAM), s)
          | Some itface \<Rightarrow>
              do { (go, ret1, s1) \<leftarrow> create_alt_loop K itface pp (unat (numAltsetting itface)) 0 ret s;
                   if \<not> go then Some (ret1, s1) else create_iface_loop K config pp k (Suc i) ret1 s1 } }"

definition UsbProtocalCreatInterfaceObj ::
  "'k os_env \<Rightarrow> UsbRawConfigDescriptor \<Rightarrow> ptr \<Rightarrow> 'k host \<Rightarrow> (ret \<times> 'k host) option" where
  "UsbProtocalCreatInterfaceObj K config pp s =
     do { (rq, s1) \<leftarrow> create_iface_loop K config pp (unat (c_bNumInterfaces (configDescriptor config))) 0 None s;
          ret \<leftarrow> rq; Some (ret, s1) }"

definition UsbProtocalParseDescriptor ::
  "'k os_env \<Rightarrow> ptr option \<Rightarrow> u8 \<Rightarrow> u8 \<Rightarrow> 'k host \<Rightarrow> (ret \<times> 'k host) option" where
  "UsbProtocalParseDescriptor K devHandle busNum devAddr s =
     (case devHandle of
        None \<Rightarrow> Some (RetErr HDF_ERR_INVALID_PARAM, s)
      | Some hp \<Rightarrow>
          do { h \<leftarrow> h_handles s hp;
            case dh_dev h of
              None \<Rightarrow> Some (RetErr HDF_ERR_INVALID_PARAM, s)
            | Some dp \<Rightarrow>
                do { d \<leftarrow> h_devs s dp;
                  if d_session d = None then Some (RetErr HDF_ERR_INVALID_PARAM, s)
                  else do {
                    (ret, pq, s1) \<leftarrow> UsbIfCreatInterfacePool K (d_session d) busNum devAddr s;
                    if ret \<noteq> HDF_SUCCESS then Some (RetErr HDF_ERR_IO, s1)
                    else do {
                      pp \<leftarrow> pq; pool \<leftarrow> h_pools s1 pp; d1 \<leftarrow> h_devs s1 dp;
                      let s2 = put_dev dp (d1\<lparr>d_privateObject := Some pp\<rparr>)
                                 (put_pool pp (pool\<lparr>po_session := d_session d1, po_device := Some dp\<rparr>) s1);
                          fail = (\<lambda>r s. do { (r', s') \<leftarrow> UsbIfDestroyInterfaceObj (Some pp) None s; Some (r, s') })
                      in do {
                        (ret3, s3) \<leftarrow> CreateCtrPipe K (Some pp) s2;
                        if ret3 \<noteq> HDF_SUCCESS then fail ret3 s3
                        else do {
                          (ret4, activeConfig, s4) \<leftarrow> RawGetConfiguration K (Some hp) s3;
                          if ret4 \<noteq> HDF_SUCCESS then fail ret4 s4
                          else do {
                            (ret5, config, s5) \<leftarrow> RawGetConfigDescriptor K (Some dp) (of_int activeConfig) s4;
                            (ret6, s6) \<leftarrow>
                              (if ret5 \<noteq> HDF_SUCCESS then Some (ret5, s5)
                               else do { (a, c) \<leftarrow> config; UsbProtocalCreatInterfaceObj K c pp s5 });
                            m \<leftarrow> UsbRawFreeConfigDescriptor config (h_mem s6);
                            if ret6 = HDF_SUCCESS then Some (ret6, s6\<lparr>h_mem := m\<rparr>)
                            else fail ret6 (s6\<lparr>h_mem := m\<rparr>) } } } } } } })"

end
