(* ===== verification/Usb_PoolApi.thy ===== *)
theory Usb_PoolApi
  imports Usb_Protocol
begin

text \<open>
  The interface-based programming interface of the host stack: the remaining functions of
  \<open>usb/ddk/host/src/usb_interface_pool.c\<close>, with \<open>UsbIoStart\<close> and \<open>UsbIoStop\<close> of \<open>usb_io_manage.c\<close>.

  As in the raw library, \<open>W\<close> stands for \<open>OsalSemWait\<close> with what the other threads do meanwhile; \<open>E\<close> is
  what they do during one \<open>OsalMSleep\<close> of \<open>UsbIoStop\<close>.
\<close>

subsection \<open>Starting and stopping the I/O threads\<close>

definition UsbIoStart :: "'k os_env \<Rightarrow> ptr option \<Rightarrow> 'k host \<Rightarrow> (ret \<times> 'k host) option" where
  "UsbIoStart K interfacePool s =
     (case interfacePool of
        None \<Rightarrow> Some (RetErr HDF_ERR_INVALID_PARAM, s)
      | Some pp \<Rightarrow>
          do { pool \<leftarrow> h_pools s pp;
               let s0 = put_pool pp (pool\<lparr>ioProcessStopStatus := USB_POOL_PROCESS_RUNNING\<rparr>) s in
               (case k_thread_create K (h_kern s0) of (r1, k1) \<Rightarrow>
                  if r1 \<noteq> HDF_SUCCESS then Some (r1, set_kern k1 s0)
                  else case k_thread_start K k1 of (r2, k2) \<Rightarrow>
                    if r2 \<noteq> HDF_SUCCESS
                    then Some (r2, set_kern (snd (k_thread_destroy K (snd (k_thread_destroy K k2)))) s0)
                    else case k_thread_create K k2 of (r3, k3) \<Rightarrow>
                      if r3 \<noteq> HDF_SUCCESS
                      then Some (r3, set_kern (snd (k_thread_destroy K (snd (k_thread_destroy K k3)))) s0)
                      else case k_thread_start K k3 of (r4, k4) \<Rightarrow>
                        if r4 \<noteq> HDF_SUCCESS
                        then Some (r4, set_kern (snd (k_thread_destroy K k4)) s0)
                        else Some (HDF_SUCCESS, set_kern k4 s0)) })"

text \<open>The wait for the receive thread: at most four sleeps.\<close>

fun io_stop_wait :: "('k host \<Rightarrow> 'k host option) \<Rightarrow> ptr \<Rightarrow> nat \<Rightarrow> 'k host \<Rightarrow> 'k host option" where
  "io_stop_wait E pp 0 s = Some s"
| "io_stop_wait E pp (Suc n) s =
     do { pool \<leftarrow> h_pools s pp;
          if ioProcessStopStatus pool = USB_POOL_PROCESS_STOPED then Some s
          else do { s1 \<leftarrow> E s; io_stop_wait E pp n s1 } }"

definition UsbIoStop ::
  "'k os_env \<Rightarrow> ('k host \<Rightarrow> 'k host option) \<Rightarrow> ptr option \<Rightarrow> 'k host \<Rightarrow> (ret \<times> 'k host) option" where
  "UsbIoStop K E interfacePool s =
     (case interfacePool of
        None \<Rightarrow> Some (RetErr HDF_ERR_INVALID_PARAM, s)
      | Some pp \<Rightarrow>
          do { pool \<leftarrow> h_pools s pp;
            case po_device pool of
              None \<Rightarrow> Some (RetErr HDF_ERR_INVALID_PARAM, s)
            | Some dp \<Rightarrow>
                do { d \<leftarrow> h_devs s dp;
                  if d_devHandle d = None then Some (RetErr HDF_ERR_INVALID_PARAM, s)
                  else
                    let s1 = (if ioProcessStopStatus pool \<noteq> USB_POOL_PROCESS_STOPED
                              then snd (UsbAdapterKillSignal K (ioProcessTid pool)
                                     (put_pool pp (pool\<lparr>ioProcessStopStatus := USB_POOL_PROCESS_STOP,
                                                        queue_sem := Suc (queue_sem pool)\<rparr>) s))
                              else s)
                    in do { s2 \<leftarrow> io_stop_wait E pp 4 s1;
                            (case k_thread_destroy K (h_kern s2) of (r, k) \<Rightarrow>
                               if r \<noteq> HDF_SUCCESS then Some (r, set_kern k s2)
                               else case k_thread_destroy K k of (r2, k2) \<Rightarrow>
                                 Some (r2, set_kern k2 s2)) } } })"

subsection \<open>Filling requests\<close>

record UsbRequestParamsData =
  pd_numIsoPackets :: int
  pd_directon :: u8
  pd_buffer :: "u8 list option"
  pd_len :: u32

text \<open>The union of the parameters, tagged by \<open>requestType\<close>.\<close>

datatype params_union = CTRL_TYPE UsbControlRequest | DATA_TYPE UsbRequestParamsData

record UsbRequestParams =
  pa_interfaceId :: u8
  pa_pipeId :: u8
  pa_pipeAddress :: u8
  pa_callback :: "nat option"
  pa_userData :: "nat option"
  pa_timeout :: u32
  pa_req :: params_union

definition fill_of :: "UsbRequestParams \<Rightarrow> u8 \<Rightarrow> u8 list option \<Rightarrow> u32 \<Rightarrow> int \<Rightarrow> UsbFillRequestData" where
  "fill_of pa ep buf len n = \<lparr>f_endPoint = ep, f_buffer = buf, f_length = len, f_numIsoPackets = n,
     f_callback = Some UsbIoSetRequestCompletionInfoFn, f_userData = pa_userData pa,
     f_timeout = pa_timeout pa, f_userCallback = pa_callback pa\<rparr>"

text \<open>The copy is given a limit that is 8 bytes above the length.\<close>

definition IfFillControlRequest ::
  "ptr \<Rightarrow> ptr option \<Rightarrow> UsbRequestParams \<Rightarrow> UsbControlRequest \<Rightarrow> 'k host \<Rightarrow> (ret \<times> 'k host) option" where
  "IfFillControlRequest p devHandle pa c s =
     do { r \<leftarrow> h_reqs s p;
          (ret, bq) \<leftarrow> UsbProtocalFillControlSetup (Some (r_buffer r)) (Some c);
          b \<leftarrow> bq;
          if ret \<noteq> HDF_SUCCESS then Some (ret, s)
          else do {
            (ok, b1) \<leftarrow>
              (if x_directon c = 0 \<and> x_length c > 0
               then (case x_buffer c of
                       None \<Rightarrow> do { (ok, b') \<leftarrow> memcpy_s b USB_RAW_CONTROL_SETUP_SIZE
                                      (USB_RAW_CONTROL_SETUP_SIZE + unat (x_length c)) []
                                      (Suc (USB_RAW_CONTROL_SETUP_SIZE + unat (x_length c))); Some (False, b') }
                     | Some src \<Rightarrow> memcpy_s b USB_RAW_CONTROL_SETUP_SIZE
                                      (USB_RAW_CONTROL_SETUP_SIZE + unat (x_length c)) src (unat (x_length c)))
               else Some (True, b));
            let s1 = put_req p (r\<lparr>r_buffer := b1\<rparr>) s;
                ep = (if x_directon c = 0 then 0 else push_bit 7 (x_directon c))
            in if \<not> ok then Some (RetSec, s1)
               else RawFillControlRequest (Some p) devHandle
                      (Some (fill_of pa ep None (of_nat USB_RAW_CONTROL_SETUP_SIZE + x_length c) 0)) s1 } }"

definition IfFillIsoRequest ::
  "ptr \<Rightarrow> ptr option \<Rightarrow> UsbRequestParams \<Rightarrow> UsbRequestParamsData \<Rightarrow> 'k host \<Rightarrow> (ret \<times> 'k host) option" where
  "IfFillIsoRequest p devHandle pa q s =
     (if devHandle = None then Some (RetErr HDF_ERR_INVALID_PARAM, s)
      else RawFillIsoRequest (Some p) devHandle
             (Some (fill_of pa (push_bit 7 (pd_directon q) OR pa_pipeAddress pa) (pd_buffer q) (pd_len q)
                      (pd_numIsoPackets q))) s)"

definition IfFillBulkRequest ::
  "ptr \<Rightarrow> ptr option \<Rightarrow> UsbRequestParams \<Rightarrow> UsbRequestParamsData \<Rightarrow> 'k host \<Rightarrow> (ret \<times> 'k host) option" where
  "IfFillBulkRequest p devHandle pa q s =
     do { r \<leftarrow> h_reqs s p;
          (ok, r1) \<leftarrow> (if pd_directon q = 0 \<and> pd_len q > 0
                      then fill_copy r (pd_buffer q) (unat (pd_len q)) else Some (True, r));
          if \<not> ok then Some (RetErr HDF_ERR_IO, put_req p r1 s)
          else Some (HDF_SUCCESS, put_req p (r1\<lparr>r_devHandle := devHandle,
                 r_endPoint := push_bit 7 (pd_directon q) OR pa_pipeAddress pa,
                 r_requestType := USB_REQUEST_TYPE_BULK, r_timeout := pa_timeout pa, r_length := pd_len q,
                 r_userData := pa_userData pa, r_callback := Some UsbIoSetRequestCompletionInfoFn,
                 r_userCallback := pa_callback pa\<rparr>) s) }"

definition IfFillInterrupteRequest ::
  "ptr \<Rightarrow> ptr option \<Rightarrow> UsbRequestParams \<Rightarrow> UsbRequestParamsData \<Rightarrow> 'k host \<Rightarrow> (ret \<times> 'k host) option" where
  "IfFillInterrupteRequest p devHandle pa q s =
     RawFillInterruptRequest (Some p) devHandle
       (Some (fill_of pa (push_bit 7 (pd_directon q) OR pa_pipeAddress pa) (pd_buffer q) (pd_len q) 0)) s"

text \<open>\<open>o'\<close> is the address of the request object, whose completion type a control request sets.\<close>

definition IfFillRequestByPipeType ::
  "ptr \<Rightarrow> u8 \<Rightarrow> ptr \<Rightarrow> ptr option \<Rightarrow> UsbRequestParams \<Rightarrow> 'k host \<Rightarrow> (ret \<times> 'k host) option" where
  "IfFillRequestByPipeType o' pipeType p devHandle pa s =
     (if pipeType = USB_REQUEST_TYPE_CONTROL then
        (case pa_req pa of
           CTRL_TYPE c \<Rightarrow>
             do { q \<leftarrow> h_ifreqs s o';
                  IfFillControlRequest p devHandle pa c
                    (put_ifreq o' (q\<lparr>compInfo := (compInfo q)\<lparr>ci_type := USB_REQUEST_TYPE_DEVICE_CONTROL\<rparr>\<rparr>) s) }
         | DATA_TYPE x \<Rightarrow> Some (RetErr HDF_ERR_INVALID_PARAM, s))
      else if pipeType = USB_REQUEST_TYPE_ISOCHRONOUS then
        (case pa_req pa of DATA_TYPE x \<Rightarrow> IfFillIsoRequest p devHandle pa x s
         | CTRL_TYPE c \<Rightarrow> Some (RetErr HDF_ERR_INVALID_PARAM, s))
      else if pipeType = USB_REQUEST_TYPE_BULK then
        (case pa_req pa of DATA_TYPE x \<Rightarrow> IfFillBulkRequest p devHandle pa x s
         | CTRL_TYPE c \<Rightarrow> Some (RetErr HDF_ERR_INVALID_PARAM, s))
      else if pipeType = USB_REQUEST_TYPE_INTERRUPT then
        (case pa_req pa of DATA_TYPE x \<Rightarrow> IfFillInterrupteRequest p devHandle pa x s
         | CTRL_TYPE c \<Rightarrow> Some (RetErr HDF_ERR_INVALID_PARAM, s))
      else Some (RetErr HDF_FAILURE, s))"

definition IfSubmitRequestToQueue :: "ptr option \<Rightarrow> 'k host \<Rightarrow> (ret \<times> 'k host) option" where
  "IfSubmitRequestToQueue requestObj s =
     (case requestObj of
        None \<Rightarrow> Some (RetErr HDF_ERR_INVALID_PARAM, s)
      | Some o' \<Rightarrow>
          do { q \<leftarrow> h_ifreqs s o';
            case hostRequest q of
              None \<Rightarrow> Some (RetErr HDF_ERR_INVALID_PARAM, s)
            | Some p \<Rightarrow>
                do { r \<leftarrow> h_reqs s p;
                  case r_devHandle r of
                    None \<Rightarrow> Some (RetErr HDF_ERR_INVALID_PARAM, s)
                  | Some hp \<Rightarrow>
                      do { h \<leftarrow> h_handles s hp;
                        case dh_dev h of
                          None \<Rightarrow> Some (RetErr HDF_ERR_INVALID_PARAM, s)
                        | Some dp \<Rightarrow>
                            do { d \<leftarrow> h_devs s dp;
                              case d_privateObject d of
                                None \<Rightarrow> Some (RetErr HDF_ERR_BAD_FD, s)
                              | Some pp \<Rightarrow>
                                  do { pool \<leftarrow> h_pools s pp;
                                       (ret, pool1) \<leftarrow> UsbIoSendRequest pool (Some p);
                                       Some (ret, put_pool pp pool1 s) } } } } })"

subsection \<open>Claiming and releasing interfaces\<close>

definition IfDestoryDevice ::
  "'k os_env \<Rightarrow> ptr option \<Rightarrow> ptr option \<Rightarrow> ptr option \<Rightarrow> bool \<Rightarrow> 'k host \<Rightarrow> (ret \<times> 'k host) option" where
  "IfDestoryDevice K session interfacePool devHandle refCountFlag s =
     (if session = None \<or> interfacePool = None \<or> devHandle = None then Some (RetErr HDF_ERR_INVALID_PARAM, s)
      else do {
        pp \<leftarrow> interfacePool; pool \<leftarrow> h_pools s pp;
        let pool1 = (if refCountFlag then pool\<lparr>po_refCount := po_refCount pool - 1\<rparr> else pool);
            s1 = put_pool pp pool1 s in
        if po_refCount pool1 > 0 then Some (HDF_SUCCESS, s1)
        else do { (ret, s2) \<leftarrow> IfDestroyInterfacePool (Some pp) s1;
                  if ret \<noteq> HDF_SUCCESS then Some (ret, s2) else RawCloseDevice K devHandle s2 } })"

text \<open>The first component is \<open>*devHandle\<close>, the second the pool.\<close>

definition IfGetInterfacePool ::
  "'k os_env \<Rightarrow> ptr \<Rightarrow> u8 \<Rightarrow> u8 \<Rightarrow> 'k host \<Rightarrow> (ptr option \<times> ptr option \<times> 'k host) option" where
  "IfGetInterfacePool K sp busNum usbAddr s =
     do { (hq, s1) \<leftarrow> RawOpenDevice K (Some sp) busNum usbAddr s;
          case hq of
            None \<Rightarrow> Some (None, None, s1)
          | Some hp \<Rightarrow>
              do { (ret, s2) \<leftarrow> UsbProtocalParseDescriptor K (Some hp) busNum usbAddr s1;
                   if ret \<noteq> HDF_SUCCESS
                   then do { (r, s3) \<leftarrow> RawCloseDevice K (Some hp) s2; Some (Some hp, None, s3) }
                   else do {
                     (pq, s3) \<leftarrow> IfFindInterfacePool (Some sp) (POOL_NORMAL busNum usbAddr) True s2;
                     ok \<leftarrow> (case pq of None \<Rightarrow> Some False
                           | Some pp \<Rightarrow> do { pool \<leftarrow> h_pools s3 pp; Some (po_device pool \<noteq> None) });
                     if ok then Some (Some hp, pq, s3)
                     else do { h \<leftarrow> h_handles s3 hp; dp \<leftarrow> dh_dev h; d \<leftarrow> h_devs s3 dp;
                               (r, s4) \<leftarrow> IfDestoryDevice K (Some sp) (d_privateObject d) (Some hp) False s3;
                               Some (Some hp, None, s4) } } } }"

definition pool_has_device :: "ptr option \<Rightarrow> 'k host \<Rightarrow> bool option" where
  "pool_has_device pq s =
     (case pq of None \<Rightarrow> Some False | Some pp \<Rightarrow> do { pool \<leftarrow> h_pools s pp; Some (po_device pool \<noteq> None) })"

definition UsbClaimInterface ::
  "'k os_env \<Rightarrow> ptr option \<Rightarrow> u8 \<Rightarrow> u8 \<Rightarrow> u8 \<Rightarrow> 'k host \<Rightarrow> (ptr option \<times> 'k host) option" where
  "UsbClaimInterface K session busNum usbAddr interfaceIndex s =
     (case RawGetSession session s of
        None \<Rightarrow> Some (None, s)
      | Some sp \<Rightarrow>
          do { (pq, s1) \<leftarrow> IfFindInterfacePool (Some sp) (POOL_NORMAL busNum usbAddr) True s;
               ok \<leftarrow> pool_has_device pq s1;
               (hq, pq2, s2) \<leftarrow> (if ok then Some (None, pq, s1)
                                 else IfGetInterfacePool K sp busNum usbAddr s1);
               ok2 \<leftarrow> pool_has_device pq2 s2;
               if \<not> ok2 then Some (None, s2)
               else do {
                 pp \<leftarrow> pq2;
                 (iq, claimFlag, s3) \<leftarrow>
                   IfFindInterfaceObj (Some pp) (INTERFACE_INDEX interfaceIndex) True False True s2;
                 case iq of
                   None \<Rightarrow> do { (r, s4) \<leftarrow> IfDestoryDevice K (Some sp) (Some pp) hq True s3; Some (None, s4) }
                 | Some ip \<Rightarrow>
                     do { (failed, hq2, s4) \<leftarrow>
                            (if interfaceIndex \<noteq> USB_CTRL_INTERFACE_ID \<and> claimFlag then
                               do { pool \<leftarrow> h_pools s3 pp; dp \<leftarrow> po_device pool; d \<leftarrow> h_devs s3 dp;
                                    (ret, s4) \<leftarrow> RawClaimInterface K (d_devHandle d) (int (unat interfaceIndex)) s3;
                                    if ret \<noteq> HDF_SUCCESS
                                    then do { ifc \<leftarrow> h_ifaces s4 ip;
                                              Some (True, d_devHandle d,
                                                put_iface ip (ifc\<lparr>if_refCount := if_refCount ifc - 1\<rparr>) s4) }
                                    else Some (False, d_devHandle d, s4) }
                             else Some (False, hq, s3));
                          if failed
                          then do { (r, s5) \<leftarrow> IfDestoryDevice K (Some sp) (Some pp) hq2 True s4; Some (None, s5) }
                          else do { ifc \<leftarrow> h_ifaces s4 ip;
                                    Some (Some ip, put_iface ip (ifc\<lparr>if_session := Some sp\<rparr>) s4) } } } })"

definition UsbReleaseInterface :: "'k os_env \<Rightarrow> ptr option \<Rightarrow> 'k host \<Rightarrow> (ret \<times> 'k host) option" where
  "UsbReleaseInterface K interfaceObj s =
     (case interfaceObj of
        None \<Rightarrow> Some (RetErr HDF_ERR_INVALID_PARAM, s)
      | Some ip \<Rightarrow>
          do { ifc \<leftarrow> h_ifaces s ip;
            case if_session ifc of
              None \<Rightarrow> Some (RetErr HDF_ERR_INVALID_PARAM, s)
            | Some sp \<Rightarrow>
                do { (pq, s1) \<leftarrow> IfFindInterfacePool (Some sp) (POOL_OBJECT_ID (if_parentObjectId ifc)) False s;
                  case pq of
                    None \<Rightarrow> Some (RetErr HDF_ERR_BAD_FD, s1)
                  | Some pp \<Rightarrow>
                      do { pool \<leftarrow> h_pools s1 pp;
                        if po_session pool = None then Some (RetErr HDF_ERR_BAD_FD, s1)
                        else do {
                          dp \<leftarrow> po_device pool; d \<leftarrow> h_devs s1 dp;
                          let idx = ii_interfaceIndex (if_info ifc);
                              dec = put_iface ip (ifc\<lparr>if_refCount := if_refCount ifc - 1\<rparr>) s1 in
                          do { (ret, s2) \<leftarrow>
                                 (if idx = USB_CTRL_INTERFACE_ID then Some (HDF_SUCCESS, s1)
                                  else if if_refCount ifc - 1 \<le> 0
                                  then RawReleaseInterface K (d_devHandle d) (int (unat idx)) dec
                                  else Some (HDF_SUCCESS, dec));
                               if ret \<noteq> HDF_SUCCESS \<and> ret \<noteq> RetErr HDF_DEV_ERR_NO_DEVICE
                               then do { ifc2 \<leftarrow> h_ifaces s2 ip;
                                         Some (ret, put_iface ip (ifc2\<lparr>if_refCount := if_refCount ifc2 + 1\<rparr>) s2) }
                               else IfDestoryDevice K (po_session pool) (Some pp) (d_devHandle d) True s2 } } } } })"

text \<open>The result of \<open>UsbClaimInterface\<close> is dereferenced without a check.\<close>

definition UsbClaimInterfaceUnforce ::
  "'k os_env \<Rightarrow> ptr option \<Rightarrow> u8 \<Rightarrow> u8 \<Rightarrow> u8 \<Rightarrow> 'k host \<Rightarrow> (ptr option \<times> 'k host) option" where
  "UsbClaimInterfaceUnforce K session busNum usbAddr interfaceIndex s =
     do { (iq, s1) \<leftarrow> UsbClaimInterface K session busNum usbAddr interfaceIndex s;
          ip \<leftarrow> iq; ifc \<leftarrow> h_ifaces s1 ip;
          if if_refCount ifc > 1
          then do { (r, s2) \<leftarrow> UsbReleaseInterface K (Some ip) s1; Some (None, s2) }
          else Some (Some ip, s1) }"

definition UsbInitHostSdk :: "'k os_env \<Rightarrow> bool \<Rightarrow> 'k host \<Rightarrow> (ret \<times> ptr option \<times> 'k host) option" where
  "UsbInitHostSdk K want s = RawInit K want s"

definition UsbExitHostSdk :: "ptr option \<Rightarrow> 'k host \<Rightarrow> (ret \<times> 'k host) option" where
  "UsbExitHostSdk session s = RawExit session s"

definition UsbAddOrRemoveInterface ::
  "'k os_env \<Rightarrow> ptr option \<Rightarrow> u8 \<Rightarrow> u8 \<Rightarrow> u8 \<Rightarrow> UsbInterfaceStatus \<Rightarrow> 'k host \<Rightarrow> (ret \<times> 'k host) option" where
  "UsbAddOrRemoveInterface K session busNum usbAddr interfaceIndex status s =
     do { (pq, s1) \<leftarrow> IfFindInterfacePool (RawGetSession session s) (POOL_NORMAL busNum usbAddr) False s;
          case pq of
            None \<Rightarrow> Some (RetErr HDF_ERR_BAD_FD, s1)
          | Some pp \<Rightarrow>
              do { pool \<leftarrow> h_pools s1 pp;
                   (iq, cf, s2) \<leftarrow> IfFindInterfaceObj (Some pp) (INTERFACE_INDEX interfaceIndex) False False False s1;
                   case iq of
                     None \<Rightarrow> Some (RetErr HDF_ERR_BAD_FD, s2)
                   | Some ip \<Rightarrow>
                       do { ifc \<leftarrow> h_ifaces s2 ip;
                            if if_status ifc = status then Some (RetErr HDF_ERR_INVALID_PARAM, s2)
                            else if status \<noteq> USB_INTERFACE_STATUS_ADD \<and> status \<noteq> USB_INTERFACE_STATUS_REMOVE
                            then Some (RetErr HDF_ERR_INVALID_PARAM, s2)
                            else
                              let cmd = (if status = USB_INTERFACE_STATUS_ADD then USB_PNP_NOTIFY_ADD_INTERFACE
                                         else USB_PNP_NOTIFY_REMOVE_INTERFACE);
                                  info = \<lparr>pn_devNum = int (unat (po_devAddr pool)), pn_busNum = int (unat (po_busNum pool)),
                                    pn_interfaceNumber = ii_interfaceIndex (if_info ifc),
                                    pn_interfaceClass = ii_interfaceClass (if_info ifc),
                                    pn_interfaceSubClass = ii_interfaceSubClass (if_info ifc),
                                    pn_interfaceProtocol = ii_interfaceProtocol (if_info ifc)\<rparr>
                              in (case RawInitPnpService K cmd info s2 of
                                    (ret, s3) \<Rightarrow>
                                      Some (ret, if ret = HDF_SUCCESS
                                        then put_iface ip (ifc\<lparr>if_status := status\<rparr>) s3 else s3)) } } }"

end
