(* ===== verification/Usb_Requests.thy ===== *)
theory Usb_Requests
  imports Usb_PoolApi
begin

text \<open>
  Interface handles and requests of \<open>usb/ddk/host/src/usb_interface_pool.c\<close> (\<open>UsbOpenInterface\<close> to
  \<open>UsbSubmitRequestSync\<close>), and the two I/O threads of \<open>usb_io_manage.c\<close>.
\<close>

subsection \<open>Interface handles\<close>

definition UsbOpenInterface :: "'k os_env \<Rightarrow> ptr option \<Rightarrow> 'k host \<Rightarrow> (ptr option \<times> 'k host) option" where
  "UsbOpenInterface K interfaceObj s =
     (case interfaceObj of
        None \<Rightarrow> Some (None, s)
      | Some ip \<Rightarrow>
          do { ifc \<leftarrow> h_ifaces s ip;
            if if_session ifc = None \<or> if_status ifc = USB_INTERFACE_STATUS_REMOVE then Some (None, s)
            else do {
              (pq, s1) \<leftarrow> IfFindInterfacePool (if_session ifc) (POOL_OBJECT_ID (if_parentObjectId ifc)) False s;
              case pq of
                None \<Rightarrow> Some (None, s1)
              | Some pp \<Rightarrow>
                  do { pool \<leftarrow> h_pools s1 pp;
                    case po_device pool of
                      None \<Rightarrow> Some (None, s1)
                    | Some dp \<Rightarrow>
                        do { d \<leftarrow> h_devs s1 dp;
                          if d_devHandle d = None then Some (None, s1)
                          else do {
                            (q, s2) \<leftarrow> halloc K sizeof_UsbInterfaceHandleEntity s1;
                            case q of
                              None \<Rightarrow> Some (None, s2)
                            | Some a \<Rightarrow>
                                let s3 = s2\<lparr>h_ifhandles := (h_ifhandles s2)(a \<mapsto>
                                      \<lparr>ih_devHandle = d_devHandle d,
                                       ih_interfaceIndex = ii_interfaceIndex (if_info ifc)\<rparr>)\<rparr> in
                                do { (ret, s4) \<leftarrow> (if po_ioRefCount pool = 0 then UsbIoStart K (Some pp) s3
                                                   else Some (HDF_SUCCESS, s3));
                                     if ret \<noteq> HDF_SUCCESS
                                     then do { s5 \<leftarrow> hfree (Some a) s4; Some (None, s5) }
                                     else do { ifc4 \<leftarrow> h_ifaces s4 ip; pool4 \<leftarrow> h_pools s4 pp;
                                       Some (Some a,
                                         put_pool pp (pool4\<lparr>po_ioRefCount := po_ioRefCount pool4 + 1\<rparr>)
                                           (put_iface ip (ifc4\<lparr>if_refCount := if_refCount ifc4 + 1\<rparr>) s4)) } } } } } } })"

definition UsbCloseInterface ::
  "'k os_env \<Rightarrow> ('k host \<Rightarrow> 'k host option) \<Rightarrow> ptr option \<Rightarrow> 'k host \<Rightarrow> (ret \<times> 'k host) option" where
  "UsbCloseInterface K E interfaceHandle s =
     (case interfaceHandle of
        None \<Rightarrow> Some (RetErr HDF_ERR_INVALID_PARAM, s)
      | Some a \<Rightarrow>
          do { ih \<leftarrow> h_ifhandles s a;
            case ih_devHandle ih of
              None \<Rightarrow> Some (RetErr HDF_ERR_INVALID_PARAM, s)
            | Some hp \<Rightarrow>
                do { h \<leftarrow> h_handles s hp;
                  case dh_dev h of
                    None \<Rightarrow> Some (RetErr HDF_ERR_INVALID_PARAM, s)
                  | Some dp \<Rightarrow>
                      do { d \<leftarrow> h_devs s dp;
                        case d_privateObject d of
                          None \<Rightarrow> Some (RetErr HDF_ERR_INVALID_PARAM, s)
                        | Some pp \<Rightarrow>
                            do { (iq, cf, s1) \<leftarrow> IfFindInterfaceObj (Some pp) (INTERFACE_INDEX (ih_interfaceIndex ih))
                                                  False False False s;
                              case iq of
                                None \<Rightarrow> Some (RetErr HDF_ERR_BAD_FD, s1)
                              | Some ip \<Rightarrow>
                                  do { pool \<leftarrow> h_pools s1 pp;
                                    let n = po_ioRefCount pool - 1;
                                        s2 = put_pool pp (pool\<lparr>po_ioRefCount := n\<rparr>) s1 in
                                    do { (ret, s3) \<leftarrow> (if n = 0 then UsbIoStop K E (Some pp) s2
                                                       else Some (HDF_SUCCESS, s2));
                                         if ret \<noteq> HDF_SUCCESS
                                         then do { pool3 \<leftarrow> h_pools s3 pp;
                                                   Some (ret, put_pool pp (pool3\<lparr>po_ioRefCount := po_ioRefCount pool3 + 1\<rparr>) s3) }
                                         else do { ifc \<leftarrow> h_ifaces s3 ip;
                                                   s4 \<leftarrow> hfree (Some a)
                                                     (put_iface ip (ifc\<lparr>if_refCount := if_refCount ifc - 1\<rparr>) s3);
                                                   Some (HDF_SUCCESS, s4) } } } } } } })"

text \<open>The loop that stores the setting in all interface objects with the index.\<close>

fun set_alt_loop :: "u8 \<Rightarrow> u8 \<Rightarrow> ptr list \<Rightarrow> 'k host \<Rightarrow> 'k host option" where
  "set_alt_loop idx alt [] s = Some s"
| "set_alt_loop idx alt (q # qs) s =
     do { ifc \<leftarrow> h_ifaces s q;
          set_alt_loop idx alt qs
            (if ii_interfaceIndex (if_info ifc) = idx
             then put_iface q (ifc\<lparr>if_info := (if_info ifc)\<lparr>ii_curAltSetting := alt\<rparr>\<rparr>) s else s) }"

text \<open>The middle component is \<open>*interfaceObj\<close>.\<close>

definition UsbSelectInterfaceSetting ::
  "'k os_env \<Rightarrow> ptr option \<Rightarrow> u8 \<Rightarrow> 'k host \<Rightarrow> (ret \<times> ptr option \<times> 'k host) option" where
  "UsbSelectInterfaceSetting K interfaceHandle settingIndex s =
     (case interfaceHandle of
        None \<Rightarrow> Some (RetErr HDF_ERR_INVALID_PARAM, None, s)
      | Some a \<Rightarrow>
          do { ih \<leftarrow> h_ifhandles s a; hp \<leftarrow> ih_devHandle ih; h \<leftarrow> h_handles s hp; dp \<leftarrow> dh_dev h; d \<leftarrow> h_devs s dp;
            case d_privateObject d of
              None \<Rightarrow> Some (RetErr HDF_ERR_BAD_FD, None, s)
            | Some pp \<Rightarrow>
                do { (ret, s1) \<leftarrow> RawSetInterfaceAltsetting K (Some hp) (ih_interfaceIndex ih) settingIndex s;
                  if ret \<noteq> HDF_SUCCESS then Some (ret, None, s1)
                  else do {
                    pool \<leftarrow> h_pools s1 pp;
                    s2 \<leftarrow> set_alt_loop (ih_interfaceIndex ih) settingIndex (interfaceList pool) s1;
                    (iq, cf, s3) \<leftarrow> IfFindInterfaceObj (Some pp) (INTERFACE_INDEX (ih_interfaceIndex ih)) False False True s2;
                    case iq of
                      None \<Rightarrow> Some (RetErr HDF_FAILURE, None, s3)
                    | Some ip \<Rightarrow>
                        do { ifc \<leftarrow> h_ifaces s3 ip;
                             Some (HDF_SUCCESS, Some ip,
                               put_iface ip (ifc\<lparr>if_session := po_session pool\<rparr>) s3) } } } })"

definition UsbGetPipeInfo ::
  "ptr option \<Rightarrow> u8 \<Rightarrow> u8 \<Rightarrow> 'k host \<Rightarrow> (ret \<times> UsbPipeInfo option \<times> 'k host) option" where
  "UsbGetPipeInfo interfaceHandle altSettingIndex pipeId s =
     (case interfaceHandle of
        None \<Rightarrow> Some (RetErr HDF_ERR_INVALID_PARAM, None, s)
      | Some a \<Rightarrow>
          do { ih \<leftarrow> h_ifhandles s a;
            case ih_devHandle ih of
              None \<Rightarrow> Some (RetErr HDF_ERR_INVALID_PARAM, None, s)
            | Some hp \<Rightarrow>
                do { h \<leftarrow> h_handles s hp;
                  case dh_dev h of
                    None \<Rightarrow> Some (RetErr HDF_ERR_INVALID_PARAM, None, s)
                  | Some dp \<Rightarrow>
                      do { d \<leftarrow> h_devs s dp;
                        case d_privateObject d of
                          None \<Rightarrow> Some (RetErr HDF_ERR_BAD_FD, None, s)
                        | Some pp \<Rightarrow>
                            do { (iq, cf, s1) \<leftarrow> IfFindInterfaceObj (Some pp)
                                   (ALT_SETTINGS (ih_interfaceIndex ih) altSettingIndex) False False True s;
                              case iq of
                                None \<Rightarrow> Some (RetErr HDF_ERR_BAD_FD, None, s1)
                              | Some ip \<Rightarrow>
                                  do { pq \<leftarrow> IfFindPipeObj (Some ip) (PIPE_INDEX pipeId) s1;
                                    case pq of
                                      None \<Rightarrow> Some (RetErr HDF_ERR_BAD_FD, None, s1)
                                    | Some x \<Rightarrow>
                                        do { pipe \<leftarrow> h_pipes s1 x;
                                             Some (HDF_SUCCESS, Some (pp_info pipe), s1) } } } } } })"

definition UsbClearInterfaceHalt :: "'k os_env \<Rightarrow> ptr option \<Rightarrow> u8 \<Rightarrow> 'k host \<Rightarrow> (ret \<times> 'k host) option" where
  "UsbClearInterfaceHalt K interfaceHandle pipeAddress s =
     (case interfaceHandle of
        None \<Rightarrow> Some (RetErr HDF_ERR_INVALID_PARAM, s)
      | Some a \<Rightarrow>
          do { ih \<leftarrow> h_ifhandles s a;
               if ih_devHandle ih = None then Some (RetErr HDF_ERR_INVALID_PARAM, s)
               else RawClearHalt K (ih_devHandle ih) pipeAddress s })"

subsection \<open>Requests\<close>

definition UsbAllocRequest :: "'k os_env \<Rightarrow> ptr option \<Rightarrow> int \<Rightarrow> int \<Rightarrow> 'k host \<Rightarrow> (ptr option \<times> 'k host) option" where
  "UsbAllocRequest K interfaceHandle isoPackets length' s =
     (case interfaceHandle of
        None \<Rightarrow> Some (None, s)
      | Some a \<Rightarrow>
          do { ih \<leftarrow> h_ifhandles s a;
            if ih_devHandle ih = None then Some (None, s)
            else do {
              (q, s1) \<leftarrow> halloc K sizeof_UsbIfRequest s;
              case q of
                None \<Rightarrow> Some (None, s1)
              | Some o' \<Rightarrow>
                  do { (rq, s2) \<leftarrow> RawAllocRequest K (ih_devHandle ih) isoPackets length' (put_ifreq o' zero_if_request s1);
                    case rq of
                      None \<Rightarrow> do { s3 \<leftarrow> hfree (Some o') s2; Some (None, s3) }
                    | Some p \<Rightarrow>
                        do { r \<leftarrow> h_reqs s2 p;
                             let n = (h_requestObjectId s2 + 1) mod MAX_OBJECT_ID in
                             Some (Some o',
                               put_ifreq o' \<lparr>rq_objectId = n,
                                  compInfo = zero_compInfo\<lparr>ci_type := USB_REQUEST_TYPE_INVALID,
                                     ci_buffer := Some (p, 0), ci_length := r_length r\<rparr>,
                                  hostRequest = Some p, isSyncReq = False\<rparr>
                                 (put_req p (r\<lparr>r_devHandle := ih_devHandle ih, r_privateObj := Some o'\<rparr>)
                                    (s2\<lparr>h_requestObjectId := n\<rparr>))) } } } })"

definition UsbFreeRequest :: "'k os_env \<Rightarrow> ptr option \<Rightarrow> 'k host \<Rightarrow> (ret \<times> 'k host) option" where
  "UsbFreeRequest K request s =
     (case request of
        None \<Rightarrow> Some (RetErr HDF_ERR_INVALID_PARAM, s)
      | Some o' \<Rightarrow>
          do { q \<leftarrow> h_ifreqs s o';
            if hostRequest q = None then Some (RetErr HDF_ERR_INVALID_PARAM, s)
            else do { (ret, s1) \<leftarrow> RawFreeRequest K (hostRequest q) s;
                      if ret \<noteq> HDF_SUCCESS then Some (ret, s1)
                      else do { s2 \<leftarrow> hfree (Some o') s1; Some (ret, s2) } } })"

definition UsbSubmitRequestAsync :: "ptr option \<Rightarrow> 'k host \<Rightarrow> (ret \<times> 'k host) option" where
  "UsbSubmitRequestAsync request s =
     (case request of
        None \<Rightarrow> Some (RetErr HDF_ERR_INVALID_PARAM, s)
      | Some o' \<Rightarrow>
          do { q \<leftarrow> h_ifreqs s o';
               IfSubmitRequestToQueue (Some o')
                 (put_ifreq o' (q\<lparr>isSyncReq := False, compInfo := zero_compInfo\<rparr>) s) })"

definition UsbFillRequest ::
  "ptr option \<Rightarrow> ptr option \<Rightarrow> UsbRequestParams option \<Rightarrow> 'k host \<Rightarrow> (ret \<times> 'k host) option" where
  "UsbFillRequest request interfaceHandle params s =
     (case (request, interfaceHandle, params) of
        (Some o', Some a, Some pa) \<Rightarrow>
          do { ih \<leftarrow> h_ifhandles s a;
            if ih_devHandle ih = None then Some (RetErr HDF_ERR_INVALID_PARAM, s)
            else do {
              q \<leftarrow> h_ifreqs s o';
              case hostRequest q of
                None \<Rightarrow> Some (RetErr HDF_ERR_INVALID_PARAM, s)
              | Some p \<Rightarrow>
                  do { (ret, ty, s1) \<leftarrow> IfGetRequestPipeType (ih_devHandle ih) (pa_interfaceId pa) (pa_pipeId pa) s;
                    if ret \<noteq> HDF_SUCCESS then Some (ret, s1)
                    else do {
                      pipeType \<leftarrow> ty;
                      (ret2, s2) \<leftarrow> IfFillRequestByPipeType o' pipeType p (ih_devHandle ih) pa s1;
                      case pa_req pa of
                        CTRL_TYPE c \<Rightarrow> Some (ret2, s2)
                      | DATA_TYPE x \<Rightarrow>
                          do { q2 \<leftarrow> h_ifreqs s2 o';
                               Some (ret2, put_ifreq o' (q2\<lparr>compInfo := (compInfo q2)\<lparr>ci_type :=
                                  (if drop_bit 7 (pa_pipeAddress pa) AND 1 = 0
                                   then USB_REQUEST_TYPE_PIPE_WRITE else USB_REQUEST_TYPE_PIPE_READ)\<rparr>\<rparr>) s2) } } } } }
      | _ \<Rightarrow> Some (RetErr HDF_ERR_INVALID_PARAM, s))"

definition UsbCancelRequest :: "'k os_env \<Rightarrow> ptr option \<Rightarrow> 'k host \<Rightarrow> (ret \<times> 'k host) option" where
  "UsbCancelRequest K request s =
     (case request of
        None \<Rightarrow> Some (RetErr HDF_ERR_INVALID_PARAM, s)
      | Some o' \<Rightarrow>
          do { q \<leftarrow> h_ifreqs s o';
            if hostRequest q = None then Some (RetErr HDF_ERR_INVALID_PARAM, s)
            else do { (ret, s1) \<leftarrow> RawCancelRequest K (hostRequest q) s;
                      if ret \<noteq> HDF_SUCCESS then Some (ret, s1)
                      else do { q1 \<leftarrow> h_ifreqs s1 o';
                                Some (HDF_SUCCESS, put_ifreq o' (q1\<lparr>compInfo := (compInfo q1)\<lparr>
                                   ci_status := USB_REQUEST_CANCELLED\<rparr>\<rparr>) s1) } } })"

definition UsbSubmitRequestSync ::
  "'k os_env \<Rightarrow> (ptr \<Rightarrow> u32 \<Rightarrow> 'k host \<Rightarrow> (ret \<times> 'k host) option) \<Rightarrow> ptr option \<Rightarrow> 'k host \<Rightarrow>
   (ret \<times> 'k host) option" where
  "UsbSubmitRequestSync K W request s =
     (case request of
        None \<Rightarrow> Some (RetErr HDF_ERR_INVALID_PARAM, s)
      | Some o' \<Rightarrow>
          do { q \<leftarrow> h_ifreqs s o';
            case hostRequest q of
              None \<Rightarrow> Some (RetErr HDF_ERR_INVALID_PARAM, s)
            | Some p \<Rightarrow>
                do { (ret, s1) \<leftarrow> sem_init K p s;
                  if ret \<noteq> HDF_SUCCESS then Some (RetErr HDF_ERR_IO, s1)
                  else do {
                    r \<leftarrow> h_reqs s1 p;
                    let w = wait_time (r_timeout r) in
                    do { (ret2, s2) \<leftarrow> IfSubmitRequestToQueue (Some o')
                           (put_ifreq o' (q\<lparr>isSyncReq := True, compInfo := (compInfo q)\<lparr>
                              ci_status := USB_REQUEST_COMPLETED\<rparr>\<rparr>) s1);
                      if ret2 \<noteq> HDF_SUCCESS then do { s3 \<leftarrow> sem_destroy p s2; Some (ret2, s3) }
                      else do {
                        (ret3, s3) \<leftarrow> W p w s2;
                        s4 \<leftarrow> (if ret3 = RetErr HDF_ERR_TIMEOUT
                              then do { (c, s4) \<leftarrow> UsbCancelRequest K (Some o') s3;
                                        (c2, s5) \<leftarrow> W p w s4;
                                        q5 \<leftarrow> h_ifreqs s5 o';
                                        Some (put_ifreq o' (q5\<lparr>compInfo := (compInfo q5)\<lparr>
                                           ci_status := USB_REQUEST_TIMEOUT\<rparr>\<rparr>) s5) }
                              else Some s3);
                        s5 \<leftarrow> sem_destroy p s4; Some (ret3, s5) } } } } })"

definition UsbMemTestTrigger :: "bool \<Rightarrow> 'k host \<Rightarrow> ret \<times> 'k host" where
  "UsbMemTestTrigger enable s =
     (case RawUsbMemTestTrigger enable (h_mem s) of (r, m) \<Rightarrow> (r, s\<lparr>h_mem := m\<rparr>))"

subsection \<open>The I/O threads\<close>

text \<open>The flag of \<open>IoCancelRequest\<close> says that the request is not to be submitted.\<close>

definition IoCancelRequest :: "'k os_env \<Rightarrow> ptr \<Rightarrow> ptr option \<Rightarrow> 'k host \<Rightarrow> (bool \<times> 'k host) option" where
  "IoCancelRequest K pp hostReq s =
     (case hostReq of
        None \<Rightarrow> Some (True, s)
      | Some p \<Rightarrow>
          do { r \<leftarrow> h_reqs s p;
            case r_privateObj r of
              None \<Rightarrow> Some (True, s)
            | Some o' \<Rightarrow>
                do { pool \<leftarrow> h_pools s pp;
                     s1 \<leftarrow> (if ioProcessStopStatus pool \<noteq> USB_POOL_PROCESS_RUNNING
                           then do { (c, s1) \<leftarrow> UsbCancelRequest K (Some o') s; Some s1 } else Some s);
                     q \<leftarrow> h_ifreqs s1 o';
                     Some (ci_status (compInfo q) = USB_REQUEST_CANCELLED, s1) } })"

text \<open>Up to \<open>n\<close> attempts; the flag tells whether one succeeded.\<close>

fun submit_retry :: "'k os_env \<Rightarrow> nat \<Rightarrow> ptr \<Rightarrow> 'k host \<Rightarrow> (bool \<times> 'k host) option" where
  "submit_retry K 0 p s = Some (False, s)"
| "submit_retry K (Suc n) p s =
     do { (ret, s1) \<leftarrow> RawSubmitRequest K (Some p) s;
          if ret \<noteq> HDF_SUCCESS then submit_retry K n p s1 else Some (True, s1) }"

text \<open>One round of the loop of \<open>IoSendProcess\<close>; the flag tells whether the thread goes on.\<close>

definition IoSendProcess_round :: "'k os_env \<Rightarrow> ptr \<Rightarrow> 'k host \<Rightarrow> (bool \<times> 'k host) option" where
  "IoSendProcess_round K pp s =
     do { pool \<leftarrow> h_pools s pp;
          (ret, rq, pool1) \<leftarrow> UsbIoGetRequest pool;
          let s1 = put_pool pp pool1 s in
          if ioProcessStopStatus pool1 \<noteq> USB_POOL_PROCESS_RUNNING then Some (False, s1)
          else if ret \<noteq> HDF_SUCCESS then Some (True, s1)
          else case rq of
            None \<Rightarrow> Some (True, s1)
          | Some p \<Rightarrow>
              do { (skip, s2) \<leftarrow> IoCancelRequest K pp (Some p) s1;
                   if skip then Some (True, s2)
                   else do { (ok, s3) \<leftarrow> submit_retry K 3 p s2;
                             if ok then Some (True, s3)
                             else do { r \<leftarrow> h_reqs s3 p;
                                       s4 \<leftarrow> UsbIoSetRequestCompletionInfo p
                                              (put_req p (r\<lparr>r_status := USB_REQUEST_ERROR\<rparr>) s3);
                                       Some (True, s4) } } } }"

text \<open>
  One round of the loop of \<open>IoAsyncReceiveProcess\<close>.  A pool without a device or handle makes the thread
  sleep and try again.
\<close>

definition IoAsyncReceiveProcess_round :: "'k os_env \<Rightarrow> ptr \<Rightarrow> 'k host \<Rightarrow> (bool \<times> 'k host) option" where
  "IoAsyncReceiveProcess_round K pp s =
     do { pool0 \<leftarrow> h_pools s pp;
          let pool = (if ioProcessTid pool0 = 0 then pool0\<lparr>ioProcessTid := UsbAdapterGetTid K s\<rparr> else pool0);
              s1 = put_pool pp pool s in
          case po_device pool of
            None \<Rightarrow> Some (True, s1)
          | Some dp \<Rightarrow>
              do { d \<leftarrow> h_devs s1 dp;
                if d_devHandle d = None then Some (True, s1)
                else do {
                  (ret, s2) \<leftarrow> RawHandleRequest K (d_devHandle d) s1;
                  pool2 \<leftarrow> h_pools s2 pp;
                  if ret_neg ret \<or> ioProcessStopStatus pool2 \<noteq> USB_POOL_PROCESS_RUNNING
                  then Some (False, put_pool pp (pool2\<lparr>ioProcessStopStatus := USB_POOL_PROCESS_STOPED,
                                                       queue_sem := Suc (queue_sem pool2)\<rparr>) s2)
                  else Some (True, s2) } } }"

end
