(* ===== verification/Usb_Claims.thy ===== *)
theory Usb_Claims
  imports Usb_RawLib
begin

text \<open>
  Claiming and releasing interfaces (\<open>RawClaimInterface\<close>, \<open>RawReleaseInterface\<close> of
  \<open>usb_raw_api_library.c\<close>): the 64-bit mask \<open>claimedInterfaces\<close> of a device handle is the set of
  interfaces that the kernel has given to the process.
\<close>

subsection \<open>The mask as a set\<close>

definition iface_set :: "u64 \<Rightarrow> nat set" where
  "iface_set w = {i. bit w i}"

lemma mask_test: "(w AND 2 ^ n = 0) = (n \<notin> iface_set w)" for w :: u64
  by (simp add: iface_set_def and_exp_eq_0_iff_not_bit)

lemma mask_insert: "n < 64 \<Longrightarrow> iface_set (w OR 2 ^ n) = insert n (iface_set w)"
  by (auto simp: iface_set_def bit_simps)

lemma mask_remove:
  assumes "iface_set w \<subseteq> {..<32}"
  shows "iface_set (w AND ucast (NOT (2 ^ n :: u32))) = iface_set w - {n}"
  using assms by (auto simp: iface_set_def bit_simps)

subsection \<open>The contract of a claim table\<close>

datatype claim_op = ClaimOp int | ReleaseOp int

text \<open>The abstract table: a call changes the set exactly when it reports success.\<close>

fun claim_spec :: "claim_op \<Rightarrow> ret \<Rightarrow> nat set \<Rightarrow> nat set" where
  "claim_spec (ClaimOp n) r c = (if r = HDF_SUCCESS then insert (nat n) c else c)"
| "claim_spec (ReleaseOp n) r c = (if r = HDF_SUCCESS then c - {nat n} else c)"

text \<open>The results that a call may have.\<close>

fun claim_allowed :: "claim_op \<Rightarrow> ret \<Rightarrow> nat set \<Rightarrow> bool" where
  "claim_allowed (ClaimOp n) r c \<longleftrightarrow>
     (if n < 0 \<or> int USB_MAXINTERFACES \<le> n then r = RetErr HDF_ERR_INVALID_PARAM
      else if nat n \<in> c then r = HDF_SUCCESS else r = HDF_SUCCESS \<or> r = RetErr HDF_FAILURE)"
| "claim_allowed (ReleaseOp n) r c \<longleftrightarrow>
     (if n < 0 \<or> int USB_MAXINTERFACES \<le> n then r = RetErr HDF_ERR_INVALID_PARAM
      else if nat n \<notin> c then r = RetErr HDF_ERR_BAD_FD
      else r = HDF_SUCCESS \<or> r = RetErr HDF_FAILURE \<or> r = RetErr HDF_DEV_ERR_NO_DEVICE)"

fun claim_trace :: "claim_op list \<Rightarrow> ret list \<Rightarrow> nat set \<Rightarrow> nat set \<Rightarrow> bool" where
  "claim_trace [] [] c c' \<longleftrightarrow> c' = c"
| "claim_trace (x # xs) (r # rs) c c' \<longleftrightarrow>
     claim_allowed x r c \<and> claim_trace xs rs (claim_spec x r c) c'"
| "claim_trace _ _ c c' \<longleftrightarrow> False"

fun claim_step ::
  "(int \<Rightarrow> 's \<Rightarrow> (ret \<times> 's) option) \<Rightarrow> (int \<Rightarrow> 's \<Rightarrow> (ret \<times> 's) option) \<Rightarrow> claim_op \<Rightarrow> 's \<Rightarrow> (ret \<times> 's) option" where
  "claim_step cl rl (ClaimOp n) s = cl n s"
| "claim_step cl rl (ReleaseOp n) s = rl n s"

fun claim_run ::
  "(int \<Rightarrow> 's \<Rightarrow> (ret \<times> 's) option) \<Rightarrow> (int \<Rightarrow> 's \<Rightarrow> (ret \<times> 's) option) \<Rightarrow> claim_op list \<Rightarrow> 's \<Rightarrow>
   (ret list \<times> 's) option" where
  "claim_run cl rl [] s = Some ([], s)"
| "claim_run cl rl (x # xs) s =
     do { (r, s1) \<leftarrow> claim_step cl rl x s; (rs, s2) \<leftarrow> claim_run cl rl xs s1; Some (r # rs, s2) }"

locale claim_table =
  fixes inv :: "'s \<Rightarrow> bool" and claims :: "'s \<Rightarrow> nat set"
    and cl :: "int \<Rightarrow> 's \<Rightarrow> (ret \<times> 's) option" and rl :: "int \<Rightarrow> 's \<Rightarrow> (ret \<times> 's) option"
  assumes claim_law: "inv s \<Longrightarrow> \<exists>r s'. cl n s = Some (r, s') \<and> inv s' \<and>
      claim_allowed (ClaimOp n) r (claims s) \<and> claims s' = claim_spec (ClaimOp n) r (claims s)"
    and release_law: "inv s \<Longrightarrow> \<exists>r s'. rl n s = Some (r, s') \<and> inv s' \<and>
      claim_allowed (ReleaseOp n) r (claims s) \<and> claims s' = claim_spec (ReleaseOp n) r (claims s)"
begin

lemma step_law:
  assumes "inv s"
  shows "\<exists>r s'. claim_step cl rl x s = Some (r, s') \<and> inv s' \<and>
    claim_allowed x r (claims s) \<and> claims s' = claim_spec x r (claims s)"
  using claim_law[OF assms] release_law[OF assms] by (cases x) fastforce+

lemma run_law:
  "inv s \<Longrightarrow> \<exists>rs s'. claim_run cl rl xs s = Some (rs, s') \<and> inv s' \<and>
     claim_trace xs rs (claims s) (claims s')"
proof (induction xs arbitrary: s)
  case (Cons x xs)
  obtain r s1 where 1: "claim_step cl rl x s = Some (r, s1)" "inv s1"
    "claim_allowed x r (claims s)" "claims s1 = claim_spec x r (claims s)"
    using step_law[OF Cons.prems] by blast
  from Cons.IH[OF 1(2)] 1 show ?case by (auto simp del: claim_allowed.simps claim_spec.simps)
qed simp

end

subsection \<open>The kernel's side\<close>

text \<open>
  What usbfs documents of the two \<open>ioctl\<close> codes: a call that succeeds adds or removes the interface,
  a call that fails changes nothing.  \<open>kc f k\<close> is the set of interfaces claimed through the file
  descriptor \<open>f\<close>.
\<close>

definition usbfs_claims :: "'k os_env \<Rightarrow> (nat \<Rightarrow> 'k \<Rightarrow> nat set) \<Rightarrow> bool" where
  "usbfs_claims K kc \<longleftrightarrow>
     (\<forall>f n k e k'. k_claim K f n k = (e, k') \<longrightarrow>
        kc f k' = (if e = None then insert n (kc f k) else kc f k)) \<and>
     (\<forall>f n k e k'. k_release K f n k = (e, k') \<longrightarrow>
        kc f k' = (if e = None then kc f k - {n} else kc f k))"

lemma usbfs_claimD:
  assumes "usbfs_claims K kc" "k_claim K f n k = (e, k')"
  shows "kc f k' = (if e = None then insert n (kc f k) else kc f k)"
  using assms unfolding usbfs_claims_def by blast

lemma usbfs_releaseD:
  assumes "usbfs_claims K kc" "k_release K f n k = (e, k')"
  shows "kc f k' = (if e = None then kc f k - {n} else kc f k)"
  using assms unfolding usbfs_claims_def by blast

definition claims_agree :: "(nat \<Rightarrow> 'k \<Rightarrow> nat set) \<Rightarrow> ptr \<Rightarrow> 'k host \<Rightarrow> bool" where
  "claims_agree kc hp s \<longleftrightarrow>
     (case h_handles s hp of None \<Rightarrow> False
      | Some h \<Rightarrow> iface_set (claimedInterfaces h) = kc (fd h) (h_kern s) \<and>
                  iface_set (claimedInterfaces h) \<subseteq> {..<USB_MAXINTERFACES})"

definition claimed :: "ptr \<Rightarrow> 'k host \<Rightarrow> nat set" where
  "claimed hp s = (case h_handles s hp of None \<Rightarrow> {} | Some h \<Rightarrow> iface_set (claimedInterfaces h))"

lemma claim_keeps:
  assumes "usbfs_claims K kc" "claims_agree kc hp s"
  shows "\<exists>r s'. RawClaimInterface K (Some hp) n s = Some (r, s') \<and> claims_agree kc hp s' \<and>
    claim_allowed (ClaimOp n) r (claimed hp s) \<and> claimed hp s' = claim_spec (ClaimOp n) r (claimed hp s)"
proof -
  obtain h where h: "h_handles s hp = Some h" "iface_set (claimedInterfaces h) = kc (fd h) (h_kern s)"
    "iface_set (claimedInterfaces h) \<subseteq> {..<32}"
    using assms by (auto simp: claims_agree_def split: option.splits)
  obtain e k where k: "k_claim K (fd h) (nat n) (h_kern s) = (e, k)" by fastforce
  with h usbfs_claimD[OF assms(1) k] show ?thesis
    by (cases e) (auto simp: RawClaimInterface_def AdapterClaimInterface_def handle_ioctl_def
      claims_agree_def claimed_def mask_test mask_insert)
qed

lemma release_keeps:
  assumes "usbfs_claims K kc" "claims_agree kc hp s"
  shows "\<exists>r s'. RawReleaseInterface K (Some hp) n s = Some (r, s') \<and> claims_agree kc hp s' \<and>
    claim_allowed (ReleaseOp n) r (claimed hp s) \<and> claimed hp s' = claim_spec (ReleaseOp n) r (claimed hp s)"
proof -
  obtain h where h: "h_handles s hp = Some h" "iface_set (claimedInterfaces h) = kc (fd h) (h_kern s)"
    "iface_set (claimedInterfaces h) \<subseteq> {..<32}"
    using assms by (auto simp: claims_agree_def split: option.splits)
  obtain e k where k: "k_release K (fd h) (nat n) (h_kern s) = (e, k)" by fastforce
  with h usbfs_releaseD[OF assms(1) k] show ?thesis
    by (cases e) (auto simp: RawReleaseInterface_def AdapterReleaseInterface_def handle_ioctl_def
      claims_agree_def claimed_def mask_test mask_remove)
qed

interpretation raw: claim_table "\<lambda>s. usbfs_claims K kc \<and> claims_agree kc hp s" "claimed hp"
  "RawClaimInterface K (Some hp)" "RawReleaseInterface K (Some hp)" for K kc hp
proof
  fix s n
  assume "usbfs_claims K kc \<and> claims_agree kc hp s"
  then show "\<exists>r s'. RawClaimInterface K (Some hp) n s = Some (r, s') \<and>
      (usbfs_claims K kc \<and> claims_agree kc hp s') \<and> claim_allowed (ClaimOp n) r (claimed hp s) \<and>
      claimed hp s' = claim_spec (ClaimOp n) r (claimed hp s)"
    and "\<exists>r s'. RawReleaseInterface K (Some hp) n s = Some (r, s') \<and>
      (usbfs_claims K kc \<and> claims_agree kc hp s') \<and> claim_allowed (ReleaseOp n) r (claimed hp s) \<and>
      claimed hp s' = claim_spec (ReleaseOp n) r (claimed hp s)"
    using claim_keeps[of K kc hp s n] release_keeps[of K kc hp s n] by blast+
qed

text \<open>
  C4. The mask \<open>claimedInterfaces\<close> of a device handle is a faithful image of the interfaces the
  kernel has granted: from a state where the two agree, every sequence of \<open>RawClaimInterface\<close> and
  \<open>RawReleaseInterface\<close> calls returns, keeps them equal, and its results and final set are those of a set
  with insertion and removal: an interface number outside 0..31 is refused, claiming an interface that is
  already claimed succeeds, releasing one that is not claimed gives \<open>HDF_ERR_BAD_FD\<close>, and the set
  changes exactly when success is reported.
\<close>

theorem RawClaimInterface_refines_set:
  assumes "usbfs_claims K kc" "claims_agree kc hp s"
  shows "\<exists>rs s'. claim_run (RawClaimInterface K (Some hp)) (RawReleaseInterface K (Some hp)) ops s = Some (rs, s') \<and>
    claims_agree kc hp s' \<and> claim_trace ops rs (claimed hp s) (claimed hp s')"
  using raw.run_law[of K kc hp s ops] assms by blast

definition claims_os :: "nat set os_env" where
  "claims_os = null_os\<lparr>k_claim := (\<lambda>f n k. if n = 7 then (Some 16, k) else (None, insert n k)),
     k_release := (\<lambda>f n k. (None, k - {n})), k_reset := (\<lambda>f k. (None, k))\<rparr>"

definition claims_host :: "nat set host" where
  "claims_host = put_handle 1 (zero_handle\<lparr>claimedInterfaces := 1, dh_dev := Some 2, fd := 3\<rparr>) (null_host {0})"

lemma claims_example:
  "usbfs_claims claims_os (\<lambda>f k. k)" "claims_agree (\<lambda>f k. k) 1 claims_host" "claimed 1 claims_host = {0}"
proof -
  have *: "iface_set 1 = {0}" by (auto simp: iface_set_def bit_simps)
  have "k_claim claims_os = (\<lambda>f n k. if n = 7 then (Some 16, k) else (None, insert n k))"
    "k_release claims_os = (\<lambda>f n k. (None, k - {n}))"
    by (simp_all add: claims_os_def)
  then show "usbfs_claims claims_os (\<lambda>f k. k)" by (simp add: usbfs_claims_def)
  have "h_handles claims_host 1 = Some (zero_handle\<lparr>claimedInterfaces := 1, dh_dev := Some 2, fd := 3\<rparr>)"
    "h_kern claims_host = {0}"
    by (simp_all add: claims_host_def null_host_def)
  with * show "claims_agree (\<lambda>f k. k) 1 claims_host" "claimed 1 claims_host = {0}"
    by (simp_all add: claims_agree_def claimed_def)
qed

theorem RawClaimInterface_refines_set_witness:
  "usbfs_claims claims_os (\<lambda>f k. k) \<and> claims_agree (\<lambda>f k. k) 1 claims_host \<and>
   (\<exists>rs s'. claim_run (RawClaimInterface claims_os (Some 1)) (RawReleaseInterface claims_os (Some 1))
        [ClaimOp 3, ReleaseOp 0, ReleaseOp 9, ClaimOp 7] claims_host = Some (rs, s') \<and>
      claims_agree (\<lambda>f k. k) 1 s' \<and>
      claim_trace [ClaimOp 3, ReleaseOp 0, ReleaseOp 9, ClaimOp 7] rs (claimed 1 claims_host) (claimed 1 s'))"
  using claims_example RawClaimInterface_refines_set[of claims_os "\<lambda>f k. k" 1 claims_host] by blast

subsection \<open>Resetting a device\<close>

text \<open>
  \<open>AdapterResetDevice\<close> gives every claimed interface back to the kernel but leaves the mask as it is.
\<close>

lemma release_claimed_run:
  assumes "usbfs_claims K kc" "\<forall>f n k. fst (k_release K f n k) = None" "h_handles s hp = Some h"
  shows "\<exists>k'. release_claimed K hp n i s = Some (set_kern k' s) \<and>
    kc (fd h) k' = kc (fd h) (h_kern s) - (iface_set (claimedInterfaces h) \<inter> {i..<i + n})"
  using assms(3)
proof (induction n arbitrary: i s)
  case (Suc n)
  show ?case
  proof (cases "i \<in> iface_set (claimedInterfaces h)")
    case True
    obtain k where k: "k_release K (fd h) i (h_kern s) = (None, k)"
      using assms(2) by (metis prod.collapse)
    obtain k' where "release_claimed K hp n (Suc i) (set_kern k s) = Some (set_kern k' (set_kern k s))"
      "kc (fd h) k' = kc (fd h) k - (iface_set (claimedInterfaces h) \<inter> {Suc i..<Suc i + n})"
      using Suc.IH[of "set_kern k s" "Suc i"] Suc.prems by auto
    moreover have "{i..<i + Suc n} = insert i {Suc i..<Suc i + n}" by auto
    ultimately show ?thesis
      using True Suc.prems k usbfs_releaseD[OF assms(1) k]
      by (intro exI[of _ k']) (simp add: mask_test AdapterReleaseInterface_def handle_ioctl_def, blast)
  next
    case False
    obtain k' where "release_claimed K hp n (Suc i) s = Some (set_kern k' s)"
      "kc (fd h) k' = kc (fd h) (h_kern s) - (iface_set (claimedInterfaces h) \<inter> {Suc i..<Suc i + n})"
      using Suc.IH[of s "Suc i"] Suc.prems by auto
    moreover have "{i..<i + Suc n} = insert i {Suc i..<Suc i + n}" by auto
    ultimately show ?thesis
      using False Suc.prems by (intro exI[of _ k']) (simp add: mask_test)
  qed
qed (auto intro!: exI[where x = "h_kern _"])

lemma AdapterResetDevice_stale_mask:
  assumes "usbfs_claims K kc" "claims_agree kc hp s" "\<forall>f n k. fst (k_release K f n k) = None"
    and "\<forall>f k. k_reset K f k = (None, k)"
  shows "\<exists>s' h. AdapterResetDevice K (Some hp) s = Some (HDF_SUCCESS, s') \<and> h_handles s' hp = Some h \<and>
    kc (fd h) (h_kern s') = {} \<and> claimed hp s' = claimed hp s"
proof -
  obtain h where h: "h_handles s hp = Some h" "iface_set (claimedInterfaces h) = kc (fd h) (h_kern s)"
    "iface_set (claimedInterfaces h) \<subseteq> {..<32}"
    using assms by (auto simp: claims_agree_def split: option.splits)
  obtain k' where k': "release_claimed K hp 32 0 s = Some (set_kern k' s)"
    "kc (fd h) k' = kc (fd h) (h_kern s) - (iface_set (claimedInterfaces h) \<inter> {0..<0 + 32})"
    using release_claimed_run[OF assms(1,3) h(1)] by blast
  then have "kc (fd h) k' = {}" using h(2,3) by auto
  with h k'(1) assms(4) show ?thesis
    by (simp add: AdapterResetDevice_def handle_ioctl_def claimed_def)
qed

end
