(* ===== verification/Usb_Transfer.thy ===== *)
theory Usb_Transfer
  imports Usb_RawLib
begin

text \<open>
  Transfers through the Linux adapter, from the submission of a request to its completion:
  \<open>OsSubmitBulkRequest\<close> and \<open>OsBulkCompletion\<close>, \<open>OsSubmitControlRequest\<close> and \<open>OsControlCompletion\<close>,
  and the synchronous requests of the raw library on top of them.
\<close>

subsection \<open>Bulk and interrupt requests\<close>

definition data_type :: "UsbHostRequest \<Rightarrow> bool" where
  "data_type r \<longleftrightarrow> r_requestType r = USB_REQUEST_TYPE_BULK \<or> r_requestType r = USB_REQUEST_TYPE_INTERRUPT"

text \<open>A request that can be submitted: it belongs to an open device and has its URB.\<close>

definition bulk_ready :: "ptr \<Rightarrow> UsbHostRequest \<Rightarrow> ptr \<Rightarrow> UsbAdapterUrb \<Rightarrow> ptr \<Rightarrow> UsbDeviceHandle \<Rightarrow> 'k host \<Rightarrow> bool" where
  "bulk_ready p r a u hp h s \<longleftrightarrow>
     h_reqs s p = Some r \<and> r_bulkUrb r = Some a \<and> h_urbs s a = Some [u] \<and>
     r_devHandle r = Some hp \<and> h_handles s hp = Some h \<and> data_type r \<and>
     0 < r_length r \<and> r_length r \<le> MAX_BULK_DATA_BUFFER_LENGTH"

definition bulk_urb :: "ptr \<Rightarrow> UsbHostRequest \<Rightarrow> UsbAdapterUrb \<Rightarrow> UsbAdapterUrb" where
  "bulk_urb p r u = u\<lparr>u_userContext := Some p,
     u_type := (if r_requestType r = USB_REQUEST_TYPE_BULK then USB_ADAPTER_URB_TYPE_BULK
                else USB_ADAPTER_URB_TYPE_INTERRUPT),
     u_endPoint := r_endPoint r, u_buffer := 0, u_bufferLength := int (unat (r_length r))\<rparr>"

definition bulk_submitted :: "ptr \<Rightarrow> UsbHostRequest \<Rightarrow> ptr \<Rightarrow> UsbAdapterUrb \<Rightarrow> 'k \<Rightarrow> 'k host \<Rightarrow> 'k host" where
  "bulk_submitted p r a u k s = s\<lparr>h_kern := k, h_urbs := (h_urbs s)(a \<mapsto> [bulk_urb p r u]),
     h_reqs := (h_reqs s)(p \<mapsto> r\<lparr>r_actualLength := 0, r_urbs := Some a, r_numUrbs := 1, r_numRetired := 0,
                                 r_reqStatus := USB_REQUEST_COMPLETED\<rparr>)\<rparr>"

text \<open>No capability of the controller makes a request of at most 4096 bytes need a second URB.\<close>

lemma bulk_urb_count:
  assumes "0 < len" "len \<le> MAX_BULK_DATA_BUFFER_LENGTH"
    and n_def: "n = int (unat len)" and bl_def: "bl = bulk_buffer_len c len"
  shows "(if n = 0 then 1 else if n mod bl > 0 then n div bl + 1 else n div bl) = 1"
    and "bl \<noteq> 0" and "(if n mod bl = 0 then bl else n mod bl) = n"
proof -
  have u: "0 < unat len" "unat len \<le> 4096"
    using assms(1,2) by (simp_all add: word_less_nat_alt word_le_nat_alt)
  have n: "0 < n" "n \<le> 4096" unfolding n_def using u by linarith+
  moreover have nz: "len \<noteq> 0" using assms(1) by auto
  ultimately have "bl = n \<or> bl = 4096"
    by (auto simp: bl_def bulk_buffer_len_def n_def)
  with n show "(if n = 0 then 1 else if n mod bl > 0 then n div bl + 1 else n div bl) = 1"
    and "bl \<noteq> 0" and "(if n mod bl = 0 then bl else n mod bl) = n"
    by (cases "n = 4096"; auto)+
qed

lemma submit_bulk:
  assumes "bulk_ready p r a u hp h s"
  shows "AdapterSubmitRequest K (Some p) s =
    (case k_submit K (fd h) (a, 0) (bulk_urb p r u) (h_kern s) of
       (None, k) \<Rightarrow> Some (HDF_SUCCESS, bulk_submitted p r a u k s)
     | (Some e, k) \<Rightarrow> Some (RetErr HDF_ERR_IO, bulk_submitted p r a u k s))"
proof -
  note cnt = bulk_urb_count[where len = "r_length r" and c = "caps h"]
  have len: "0 < r_length r" "r_length r \<le> MAX_BULK_DATA_BUFFER_LENGTH"
    using assms by (simp_all add: bulk_ready_def)
  then have g: "\<not> r_length r > MAX_BULK_DATA_BUFFER_LENGTH" "\<not> r_length r \<le> 0" by auto
  have ready: "h_reqs s p = Some r" "r_bulkUrb r = Some a" "h_urbs s a = Some [u]" "r_devHandle r = Some hp"
    "h_handles s hp = Some h"
    using assms by (simp_all add: bulk_ready_def)
  consider "r_requestType r = 2" | "r_requestType r = 3" using assms by (auto simp: bulk_ready_def data_type_def)
  then show ?thesis
  proof cases
    case 1
    with ready g cnt[OF len refl refl] show ?thesis
      by (simp add: AdapterSubmitRequest_def OsSubmitBulkRequest_def Let_def
        OsSubmitBulkRequestHandle_def OsSubmitBulkRequestHandleUrb_def bulk_submitted_def bulk_urb_def
        split: option.splits prod.splits cong: if_cong)
  next
    case 2
    with ready g cnt[OF len refl refl] show ?thesis
      by (simp add: AdapterSubmitRequest_def OsSubmitBulkRequest_def Let_def
        OsSubmitBulkRequestHandle_def OsSubmitBulkRequestHandleUrb_def bulk_submitted_def bulk_urb_def
        split: option.splits prod.splits cong: if_cong)
  qed
qed

text \<open>The status that a request gets from the status of its URB.\<close>

definition bulk_status :: "int \<Rightarrow> UsbRequestStatus" where
  "bulk_status st =
     (if st = 0 then USB_REQUEST_COMPLETED
      else if st = - ESHUTDOWN then USB_REQUEST_NO_DEVICE
      else if st = - EPIPE then USB_REQUEST_STALL
      else if st = - EOVERFLOW then USB_REQUEST_OVERFLOW
      else USB_REQUEST_ERROR)"

text \<open>A request whose only URB is with the kernel.\<close>

definition bulk_pending :: "ptr \<Rightarrow> UsbHostRequest \<Rightarrow> ptr \<Rightarrow> UsbAdapterUrb \<Rightarrow> 'k host \<Rightarrow> bool" where
  "bulk_pending p r a u s \<longleftrightarrow>
     h_reqs s p = Some r \<and> data_type r \<and> r_numUrbs r = 1 \<and> r_numRetired r = 0 \<and> r_actualLength r = 0 \<and>
     h_urbs s a = Some [u] \<and> u_userContext u = Some p \<and> u_buffer u = 0"

definition reaped_urb :: "reaped \<Rightarrow> UsbAdapterUrb \<Rightarrow> UsbAdapterUrb" where
  "reaped_urb x u = u\<lparr>u_status := rp_status x, u_actualLength := rp_actualLength x, u_isoFrameDesc := rp_frames x\<rparr>"

definition received :: "u8 list \<Rightarrow> u8 list \<Rightarrow> u8 list" where
  "received bs buf = bs @ drop (length bs) buf"

definition bulk_finish :: "reaped \<Rightarrow> UsbHostRequest \<Rightarrow> UsbHostRequest" where
  "bulk_finish x r = r\<lparr>r_buffer := received (rp_data x) (r_buffer r), r_actualLength := rp_actualLength x,
     r_numRetired := 1, r_reqStatus := (if r_reqStatus r = USB_REQUEST_COMPLETED
                                        then bulk_status (rp_status x) else r_reqStatus r)\<rparr>"

lemma bulk_submitted_pending:
  "bulk_ready p r a u hp h s \<Longrightarrow>
   bulk_pending p (r\<lparr>r_actualLength := 0, r_urbs := Some a, r_numUrbs := 1, r_numRetired := 0,
                     r_reqStatus := USB_REQUEST_COMPLETED\<rparr>) a (bulk_urb p r u) (bulk_submitted p r a u k s)"
  by (simp add: bulk_ready_def bulk_pending_def bulk_submitted_def bulk_urb_def data_type_def)

lemma reap_bulk:
  assumes "bulk_pending p r a u s" "h_handles s hp = Some h" "k_reap K (fd h) (h_kern s) = (Inr x, k)"
    "rp_urb x = (a, 0)" "length (rp_data x) \<le> length (r_buffer r)" "0 \<le> rp_actualLength x"
  shows "AdapterUrbCompleteHandle K (Some hp) s =
    RawHandleRequestCompletion (Some p) (r_reqStatus (bulk_finish x r))
      (put_req p (bulk_finish x r) (s\<lparr>h_kern := k, h_urbs := (h_urbs s)(a \<mapsto> [reaped_urb x u])\<rparr>))"
proof -
  let ?r = "r\<lparr>r_buffer := received (rp_data x) (r_buffer r)\<rparr>"
  let ?s = "put_req p ?r (s\<lparr>h_kern := k, h_urbs := (h_urbs s)(a \<mapsto> [reaped_urb x u])\<rparr>)"
  have rw: "reap_writeback x (set_kern k s) = Some (p, 0, reaped_urb x u, ?s)"
    using assms by (simp add: reap_writeback_def bulk_pending_def wrn_def received_def reaped_urb_def Let_def)
  have "OsBulkCompletion K p 0 (reaped_urb x u) ?s =
    RawHandleRequestCompletion (Some p) (r_reqStatus (bulk_finish x r)) (put_req p (bulk_finish x r) ?s)"
    using assms(1,6)
    by (cases r) (auto simp: OsBulkCompletion_def bulk_pending_def OsProcessAbnormalReap_def Let_def bulk_finish_def
        OsUrbStatusToRequestStatus_def reaped_urb_def bulk_status_def)
  then show ?thesis
    using assms(1-3) rw by (auto simp: AdapterUrbCompleteHandle_def bulk_pending_def data_type_def)
qed

text \<open>The kernel finishes the URB of the request: it reports it once, with at most the data that fit.\<close>

definition kernel_finishes :: "'k os_env \<Rightarrow> nat \<Rightarrow> ptr \<Rightarrow> UsbHostRequest \<Rightarrow> reaped \<Rightarrow> 'k \<Rightarrow> 'k \<Rightarrow> bool" where
  "kernel_finishes K f a r x k k' \<longleftrightarrow> k_reap K f k = (Inr x, k') \<and> rp_urb x = (a, 0) \<and>
     length (rp_data x) \<le> length (r_buffer r) \<and> 0 \<le> rp_actualLength x"

text \<open>
  C3. A bulk or interrupt request of 1 to 4096 bytes travels as one URB that covers the whole
  buffer, whatever the capabilities of the controller: when the kernel accepts that URB and later hands it back, the
  request completes exactly once (its callback is called once) with the status that belongs to the
  URB's status, the URB's actual length, and the received bytes at the start of its buffer.
\<close>

theorem bulk_transfer_completes:
  assumes "bulk_ready p r a u hp h s"
    and "k_submit K (fd h) (a, 0) (bulk_urb p r u) (h_kern s) = (None, k1)"
    and "kernel_finishes K (fd h) a r x k2 k3"
    and "r_callback r = Some (RawCallback cb)"
  shows "\<exists>s1 s2 r2. AdapterSubmitRequest K (Some p) s = Some (HDF_SUCCESS, s1) \<and> h_kern s1 = k1 \<and>
    AdapterUrbCompleteHandle K (Some hp) (set_kern k2 s1) = Some (HDF_SUCCESS, s2) \<and> h_reqs s2 p = Some r2 \<and>
    r_status r2 = bulk_status (rp_status x) \<and> r_actualLength r2 = rp_actualLength x \<and>
    r_buffer r2 = received (rp_data x) (r_buffer r) \<and>
    h_events s2 = h_events s @ [RawCallbackCalled cb p]"
proof -
  let ?s1 = "bulk_submitted p r a u k1 s"
  let ?r1 = "r\<lparr>r_actualLength := 0, r_urbs := Some a, r_numUrbs := 1, r_numRetired := 0,
    r_reqStatus := USB_REQUEST_COMPLETED\<rparr>"
  have 1: "AdapterSubmitRequest K (Some p) s = Some (HDF_SUCCESS, ?s1)"
    using submit_bulk[OF assms(1)] assms(2) by simp
  have pend: "bulk_pending p ?r1 a (bulk_urb p r u) (set_kern k2 ?s1)"
    using bulk_submitted_pending[OF assms(1), of k1] by (simp add: bulk_pending_def)
  have 2: "AdapterUrbCompleteHandle K (Some hp) (set_kern k2 ?s1) =
    RawHandleRequestCompletion (Some p) (r_reqStatus (bulk_finish x ?r1))
      (put_req p (bulk_finish x ?r1) (set_kern k2 ?s1\<lparr>h_kern := k3,
         h_urbs := (h_urbs (set_kern k2 ?s1))(a \<mapsto> [reaped_urb x (bulk_urb p r u)])\<rparr>))"
    by (rule reap_bulk[OF pend])
      (use assms in \<open>auto simp: kernel_finishes_def bulk_submitted_def bulk_ready_def\<close>)
  show ?thesis
    using 1 2 assms(4)
    by (auto simp: RawHandleRequestCompletion_def call_raw_callback_def bulk_finish_def bulk_submitted_def)
qed

text \<open>A kernel that accepts every URB and returns the one at \<open>a\<close> with three bytes; its state counts calls.\<close>

definition transfer_reaped :: "ptr \<Rightarrow> reaped" where
  "transfer_reaped a = \<lparr>rp_urb = (a, 0), rp_status = 0, rp_actualLength = 3, rp_frames = [], rp_data = [1, 2, 3]\<rparr>"

definition transfer_os :: "ptr \<Rightarrow> nat os_env" where
  "transfer_os a = null_os\<lparr>k_submit := (\<lambda>f u x k. (None, k + 1)), k_discard := (\<lambda>f u k. (None, k + 1)),
     k_reap := (\<lambda>f k. (Inr (transfer_reaped a), k + 1))\<rparr>"

definition transfer_req :: "u8 \<Rightarrow> UsbHostRequest" where
  "transfer_req ty = (zero_request 16 0)\<lparr>r_length := 8, r_devHandle := Some 1, r_callback := Some (RawCallback 5),
     r_requestType := ty, r_endPoint := 0x81, r_bulkUrb := Some 7, r_urbs := Some 7, r_bufLen := 16\<rparr>"

definition transfer_host :: "UsbHostRequest \<Rightarrow> UsbAdapterUrb \<Rightarrow> nat host" where
  "transfer_host r u = (null_host 0)\<lparr>h_handles := [1 \<mapsto> zero_handle\<lparr>dh_dev := Some 2, fd := 3\<rparr>],
     h_reqs := [50 \<mapsto> r], h_urbs := [7 \<mapsto> [u]]\<rparr>"

lemma transfer_os_simps [simp]:
  "k_submit (transfer_os a) f u x k = (None, k + 1)" "k_discard (transfer_os a) f u k = (None, k + 1)"
  "k_reap (transfer_os a) f k = (Inr (transfer_reaped a), k + 1)"
  "k_seminit (transfer_os a) k = (HDF_SUCCESS, k)" "k_alloc (transfer_os a) i n"
  by (simp_all add: transfer_os_def null_os_def)

lemma transfer_host_simps [simp]:
  "h_handles (transfer_host r u) = [1 \<mapsto> zero_handle\<lparr>dh_dev := Some 2, fd := 3\<rparr>]"
  "h_reqs (transfer_host r u) = [50 \<mapsto> r]" "h_urbs (transfer_host r u) = [7 \<mapsto> [u]]"
  "h_kern (transfer_host r u) = 0" "h_events (transfer_host r u) = []"
  "h_mem (transfer_host r u) = \<lparr>nextAddr = 100, live = {}, g_usbRamTestFlag = False, g_usbRamTestHead = None\<rparr>"
  by (simp_all add: transfer_host_def null_host_def)

lemma transfer_finishes: "length (r_buffer r) \<ge> 3 \<Longrightarrow> kernel_finishes (transfer_os a) f a r (transfer_reaped a) k (k + 1)"
  by (simp add: kernel_finishes_def transfer_reaped_def)

theorem bulk_transfer_completes_witness:
  "bulk_ready 50 (transfer_req 2) 7 zero_urb 1 (zero_handle\<lparr>dh_dev := Some 2, fd := 3\<rparr>)
     (transfer_host (transfer_req 2) zero_urb) \<and>
   (\<exists>s1 s2 r2. AdapterSubmitRequest (transfer_os 7) (Some 50) (transfer_host (transfer_req 2) zero_urb) =
        Some (HDF_SUCCESS, s1) \<and> h_kern s1 = 1 \<and>
    AdapterUrbCompleteHandle (transfer_os 7) (Some 1) (set_kern 4 s1) = Some (HDF_SUCCESS, s2) \<and>
    h_reqs s2 50 = Some r2 \<and> r_status r2 = USB_REQUEST_COMPLETED \<and> r_actualLength r2 = 3 \<and>
    r_buffer r2 = received [1, 2, 3] (replicate 16 0) \<and> h_events s2 = [RawCallbackCalled 5 50])"
proof -
  let ?h = "zero_handle\<lparr>dh_dev := Some 2, fd := 3\<rparr>"
  let ?s = "transfer_host (transfer_req 2) zero_urb"
  have 1: "bulk_ready 50 (transfer_req 2) 7 zero_urb 1 ?h ?s"
    by (simp add: bulk_ready_def data_type_def) (simp add: transfer_req_def)
  have "kernel_finishes (transfer_os 7) (fd ?h) 7 (transfer_req 2) (transfer_reaped 7) 4 5"
    using transfer_finishes[of "transfer_req 2" 7 "fd ?h" 4] by (simp add: transfer_req_def zero_request_def)
  from bulk_transfer_completes[OF 1 _ this, of 1 5] 1 show ?thesis
    by (simp add: transfer_req_def zero_request_def transfer_reaped_def bulk_status_def)
qed

subsection \<open>Cancelling\<close>

text \<open>
  C12. Cancelling a submitted bulk or interrupt request asks the kernel to discard exactly its URB,
  and when the kernel hands the URB back, with whatever status, the request completes once as
  \<open>USB_REQUEST_CANCELLED\<close>, with the length transferred until then.
\<close>

theorem bulk_cancel_completes:
  assumes "bulk_pending p r a u s" "r_urbs r = Some a" "r_devHandle r = Some hp" "h_handles s hp = Some h"
    and "r_reqStatus r = USB_REQUEST_COMPLETED"
    and "k_discard K (fd h) (a, 0) (h_kern s) = (e, k1)"
    and "kernel_finishes K (fd h) a r x k2 k3"
    and "r_callback r = Some (RawCallback cb)"
  shows "\<exists>s1 s2 r2. AdapterCancelRequest K p s = Some (HDF_SUCCESS, s1) \<and> h_kern s1 = k1 \<and>
    AdapterUrbCompleteHandle K (Some hp) (set_kern k2 s1) = Some (HDF_SUCCESS, s2) \<and> h_reqs s2 p = Some r2 \<and>
    r_status r2 = USB_REQUEST_CANCELLED \<and> r_actualLength r2 = rp_actualLength x \<and>
    h_events s2 = h_events s @ [RawCallbackCalled cb p]"
proof -
  let ?r1 = "r\<lparr>r_reqStatus := USB_REQUEST_CANCELLED\<rparr>"
  let ?s1 = "put_req p ?r1 (set_kern k1 s)"
  have 1: "AdapterCancelRequest K p s = Some (HDF_SUCCESS, ?s1)"
    using assms(1-6)
    by (auto simp: AdapterCancelRequest_def OsDiscardUrbs_def bulk_pending_def data_type_def Let_def)
  have pend: "bulk_pending p ?r1 a u (set_kern k2 ?s1)"
    using assms(1) by (simp add: bulk_pending_def data_type_def)
  have 2: "AdapterUrbCompleteHandle K (Some hp) (set_kern k2 ?s1) =
    RawHandleRequestCompletion (Some p) (r_reqStatus (bulk_finish x ?r1))
      (put_req p (bulk_finish x ?r1) (set_kern k2 ?s1\<lparr>h_kern := k3,
         h_urbs := (h_urbs (set_kern k2 ?s1))(a \<mapsto> [reaped_urb x u])\<rparr>))"
    by (rule reap_bulk[OF pend]) (use assms(4,7) in \<open>auto simp: kernel_finishes_def\<close>)
  show ?thesis
    using 1 2 assms(8)
    by (auto simp: RawHandleRequestCompletion_def call_raw_callback_def bulk_finish_def)
qed

theorem bulk_cancel_completes_witness:
  "\<exists>s1 s2 r2. AdapterCancelRequest (transfer_os 7) 50
       (transfer_host (transfer_req 2\<lparr>r_numUrbs := 1\<rparr>) (zero_urb\<lparr>u_userContext := Some 50\<rparr>)) =
     Some (HDF_SUCCESS, s1) \<and> h_kern s1 = 1 \<and>
    AdapterUrbCompleteHandle (transfer_os 7) (Some 1) (set_kern 4 s1) = Some (HDF_SUCCESS, s2) \<and>
    h_reqs s2 50 = Some r2 \<and> r_status r2 = USB_REQUEST_CANCELLED \<and> r_actualLength r2 = 3 \<and>
    h_events s2 = [RawCallbackCalled 5 50]"
proof -
  let ?r = "transfer_req 2\<lparr>r_numUrbs := 1\<rparr>"
  let ?s = "transfer_host ?r (zero_urb\<lparr>u_userContext := Some 50\<rparr>)"
  have 1: "bulk_pending 50 ?r 7 (zero_urb\<lparr>u_userContext := Some 50\<rparr>) ?s"
    by (simp add: bulk_pending_def data_type_def) (simp add: transfer_req_def zero_request_def zero_urb_def)
  have "kernel_finishes (transfer_os 7) 3 7 ?r (transfer_reaped 7) 4 5"
    using transfer_finishes[of ?r 7 3 4] by (simp add: transfer_req_def zero_request_def)
  then show ?thesis
    using bulk_cancel_completes[OF 1, of 1 "zero_handle\<lparr>dh_dev := Some 2, fd := 3\<rparr>" "transfer_os 7" None 1
        "transfer_reaped 7" 4 5 5]
    by (simp add: transfer_req_def zero_request_def transfer_reaped_def)
qed

subsection \<open>Control requests\<close>

text \<open>The store of the allocator: memory is available and the tracker is off.\<close>

definition mem_avail :: "'k os_env \<Rightarrow> 'k host \<Rightarrow> bool" where
  "mem_avail K s \<longleftrightarrow> \<not> g_usbRamTestFlag (h_mem s) \<and> (\<forall>i n. k_alloc K i n) \<and> mem_ok (h_mem s)"

definition ctrl_ready :: "ptr \<Rightarrow> UsbHostRequest \<Rightarrow> ptr \<Rightarrow> UsbDeviceHandle \<Rightarrow> 'k host \<Rightarrow> bool" where
  "ctrl_ready p r hp h s \<longleftrightarrow>
     h_reqs s p = Some r \<and> r_requestType r = USB_REQUEST_TYPE_CONTROL \<and> r_devHandle r = Some hp \<and>
     h_handles s hp = Some h \<and> r_length r \<le> MAX_BULK_DATA_BUFFER_LENGTH"

definition ctrl_urb :: "ptr \<Rightarrow> UsbHostRequest \<Rightarrow> UsbAdapterUrb" where
  "ctrl_urb p r = zero_urb\<lparr>u_type := USB_ADAPTER_URB_TYPE_CONTROL, u_endPoint := r_endPoint r, u_buffer := 0,
     u_bufferLength := int (unat (r_length r)), u_userContext := Some p\<rparr>"

definition ctrl_submitted :: "ptr \<Rightarrow> UsbHostRequest \<Rightarrow> 'k \<Rightarrow> 'k host \<Rightarrow> 'k host" where
  "ctrl_submitted p r k s = (let a = nextAddr (h_mem s) in
     s\<lparr>h_kern := k, h_mem := (h_mem s)\<lparr>nextAddr := a + 1, live := insert a (live (h_mem s))\<rparr>,
       h_urbs := (h_urbs s)(a \<mapsto> [ctrl_urb p r]),
       h_reqs := (h_reqs s)(p \<mapsto> r\<lparr>r_actualLength := 0, r_urbs := Some a, r_numUrbs := 1\<rparr>)\<rparr>)"

lemma submit_ctrl:
  assumes "mem_avail K s" "ctrl_ready p r hp h s"
    and "k_submit K (fd h) (nextAddr (h_mem s), 0) (ctrl_urb p r) (h_kern s) = (None, k)"
  shows "AdapterSubmitRequest K (Some p) s = Some (HDF_SUCCESS, ctrl_submitted p r k s)"
proof -
  have "\<not> r_length r > MAX_BULK_DATA_BUFFER_LENGTH" using assms by (auto simp: ctrl_ready_def)
  then show ?thesis
    using assms by (simp add: AdapterSubmitRequest_def OsSubmitControlRequest_def halloc_off mem_avail_def
      ctrl_ready_def ctrl_urb_def ctrl_submitted_def Let_def)
qed

definition ctrl_finish :: "reaped \<Rightarrow> UsbHostRequest \<Rightarrow> UsbHostRequest" where
  "ctrl_finish x r = r\<lparr>r_buffer := received (rp_data x) (r_buffer r), r_actualLength := rp_actualLength x,
     r_urbs := None, r_numUrbs := 1\<rparr>"

lemma reap_ctrl:
  assumes "mem_avail K s" "ctrl_ready p r hp h s" "kernel_finishes K (fd h) (nextAddr (h_mem s)) r x k2 k3"
  shows "\<exists>s2. AdapterUrbCompleteHandle K (Some hp) (set_kern k2 (ctrl_submitted p r k1 s)) =
      RawHandleRequestCompletion (Some p)
        (if r_reqStatus r = USB_REQUEST_CANCELLED then USB_REQUEST_CANCELLED else control_status (rp_status x)) s2 \<and>
      h_reqs s2 p = Some (ctrl_finish x r) \<and> h_events s2 = h_events s \<and> h_kern s2 = k3 \<and>
      live (h_mem s2) = live (h_mem s) \<and> h_urbs s2 (nextAddr (h_mem s)) = None \<and>
      (\<forall>q. q \<noteq> p \<longrightarrow> h_reqs s2 q = h_reqs s q)"
proof -
  let ?a = "nextAddr (h_mem s)"
  let ?u = "reaped_urb x (ctrl_urb p r)"
  let ?r = "r\<lparr>r_actualLength := 0, r_urbs := Some ?a, r_numUrbs := 1,
     r_buffer := received (rp_data x) (r_buffer r)\<rparr>"
  let ?s = "put_req p ?r ((ctrl_submitted p r k1 s)\<lparr>h_kern := k3, h_urbs := (h_urbs s)(?a \<mapsto> [?u])\<rparr>)"
  have fin: "k_reap K (fd h) k2 = (Inr x, k3)" "rp_urb x = (?a, 0)"
    "length (rp_data x) \<le> length (r_buffer r)" "0 \<le> rp_actualLength x"
    using assms(3) by (simp_all add: kernel_finishes_def)
  have fresh: "?a \<notin> live (h_mem s)" using assms(1) by (auto simp: mem_avail_def mem_ok_def)
  have rw: "reap_writeback x (set_kern k3 (ctrl_submitted p r k1 s)) = Some (p, 0, ?u, ?s)"
    using fin by (simp add: reap_writeback_def ctrl_submitted_def wrn_def received_def reaped_urb_def
        ctrl_urb_def Let_def)
  have run: "AdapterUrbCompleteHandle K (Some hp) (set_kern k2 (ctrl_submitted p r k1 s)) =
     OsControlCompletion p ?u ?s"
    using assms(2) fin(1) rw
    by (simp add: AdapterUrbCompleteHandle_def ctrl_ready_def ctrl_submitted_def Let_def)
  have st: "u_status ?u = rp_status x" by (simp add: reaped_urb_def)
  have fr: "ctrl_finish x r = ?r\<lparr>r_actualLength := rp_actualLength x, r_urbs := None\<rparr>"
    by (cases r) (simp add: ctrl_finish_def)
  obtain s3 where s3: "hfree (Some ?a) (put_req p (?r\<lparr>r_actualLength := rp_actualLength x\<rparr>) ?s) = Some s3"
    "h_events s3 = h_events s" "h_kern s3 = k3" "live (h_mem s3) = live (h_mem s)" "h_urbs s3 ?a = None"
    "\<forall>q. q \<noteq> p \<longrightarrow> h_reqs s3 q = h_reqs s q"
    using assms(1) fresh by (simp add: hfree_off mem_avail_def ctrl_submitted_def Let_def)
  have "OsControlCompletion p ?u ?s = RawHandleRequestCompletion (Some p)
        (if r_reqStatus r = USB_REQUEST_CANCELLED then USB_REQUEST_CANCELLED else control_status (rp_status x))
        (put_req p (ctrl_finish x r) s3)"
    using s3(1) st by (simp add: OsControlCompletion_def Let_def fr) (simp add: reaped_urb_def)
  with run s3 show ?thesis by (intro exI[of _ "put_req p (ctrl_finish x r) s3"]) simp
qed

text \<open>
  C10. A control request of at most 4096 bytes is sent as one URB with the whole buffer; when the
  kernel hands it back, the request completes exactly once with the status that belongs to the
  URB's status, its length and the received bytes, and the memory of the URB is released.  (The request
  must not carry a cancellation from an earlier use.)
\<close>

theorem control_transfer_completes:
  assumes "mem_avail K s" "ctrl_ready p r hp h s" "a = nextAddr (h_mem s)"
    and "k_submit K (fd h) (a, 0) (ctrl_urb p r) (h_kern s) = (None, k1)"
    and "kernel_finishes K (fd h) a r x k2 k3"
    and "r_callback r = Some (RawCallback cb)" "r_reqStatus r \<noteq> USB_REQUEST_CANCELLED"
  shows "\<exists>s1 s2 r2. AdapterSubmitRequest K (Some p) s = Some (HDF_SUCCESS, s1) \<and> h_kern s1 = k1 \<and>
    AdapterUrbCompleteHandle K (Some hp) (set_kern k2 s1) = Some (HDF_SUCCESS, s2) \<and> h_reqs s2 p = Some r2 \<and>
    r_status r2 = control_status (rp_status x) \<and> r_actualLength r2 = rp_actualLength x \<and>
    r_buffer r2 = received (rp_data x) (r_buffer r) \<and>
    h_events s2 = h_events s @ [RawCallbackCalled cb p] \<and>
    live (h_mem s2) = live (h_mem s) \<and> h_urbs s2 a = None"
proof -
  have 1: "AdapterSubmitRequest K (Some p) s = Some (HDF_SUCCESS, ctrl_submitted p r k1 s)"
    using submit_ctrl[OF assms(1,2)] assms(3,4) by simp
  then show ?thesis
    using reap_ctrl[OF assms(1,2), of x k2 k3 k1] assms(3,5-7)
    by (auto simp: RawHandleRequestCompletion_def call_raw_callback_def ctrl_finish_def ctrl_submitted_def Let_def)
qed

theorem control_transfer_completes_witness:
  "\<exists>s1 s2 r2. AdapterSubmitRequest (transfer_os 100) (Some 50) (transfer_host (transfer_req 0) zero_urb) =
        Some (HDF_SUCCESS, s1) \<and> h_kern s1 = 1 \<and>
    AdapterUrbCompleteHandle (transfer_os 100) (Some 1) (set_kern 4 s1) = Some (HDF_SUCCESS, s2) \<and>
    h_reqs s2 50 = Some r2 \<and> r_status r2 = USB_REQUEST_COMPLETED \<and> r_actualLength r2 = 3 \<and>
    r_buffer r2 = received [1, 2, 3] (replicate 16 0) \<and> h_events s2 = [RawCallbackCalled 5 50] \<and>
    live (h_mem s2) = {} \<and> h_urbs s2 100 = None"
proof -
  let ?s = "transfer_host (transfer_req 0) zero_urb"
  have 1: "mem_avail (transfer_os 100) ?s" by (simp add: mem_avail_def mem_ok_def)
  have 2: "ctrl_ready 50 (transfer_req 0) 1 (zero_handle\<lparr>dh_dev := Some 2, fd := 3\<rparr>) ?s"
    by (simp add: ctrl_ready_def) (simp add: transfer_req_def)
  have "kernel_finishes (transfer_os 100) 3 100 (transfer_req 0) (transfer_reaped 100) 4 5"
    using transfer_finishes[of "transfer_req 0" 100 3 4] by (simp add: transfer_req_def zero_request_def)
  then show ?thesis
    using control_transfer_completes[OF 1 2, of 100 1 "transfer_reaped 100" 4 5 5]
    by (simp add: transfer_req_def zero_request_def transfer_reaped_def control_status_def)
qed

text \<open>
  A cancelled control request stays cancelled: neither the submission nor the completion resets
  \<open>reqStatus\<close>, so that a later transfer with the same request that succeeds is reported as cancelled.
\<close>

lemma control_stale_cancel:
  assumes "mem_avail K s" "ctrl_ready p r hp h s" "a = nextAddr (h_mem s)"
    and "k_submit K (fd h) (a, 0) (ctrl_urb p r) (h_kern s) = (None, k1)"
    and "kernel_finishes K (fd h) a r x k2 k3" "rp_status x = 0"
    and "r_callback r = Some (RawCallback cb)" "r_reqStatus r = USB_REQUEST_CANCELLED"
  shows "\<exists>s1 s2 r2. AdapterSubmitRequest K (Some p) s = Some (HDF_SUCCESS, s1) \<and>
    AdapterUrbCompleteHandle K (Some hp) (set_kern k2 s1) = Some (HDF_SUCCESS, s2) \<and> h_reqs s2 p = Some r2 \<and>
    r_status r2 = USB_REQUEST_CANCELLED \<and> r_reqStatus r2 = USB_REQUEST_CANCELLED"
proof -
  have 1: "AdapterSubmitRequest K (Some p) s = Some (HDF_SUCCESS, ctrl_submitted p r k1 s)"
    using submit_ctrl[OF assms(1,2)] assms(3,4) by simp
  then show ?thesis
    using reap_ctrl[OF assms(1,2), of x k2 k3 k1] assms(3,5-8)
    by (auto simp: RawHandleRequestCompletion_def call_raw_callback_def ctrl_finish_def)
qed

subsection \<open>Synchronous requests\<close>

text \<open>
  The wait of a synchronous request while the receiving thread handles one URB of the device: the
  semaphore is taken when the completion posted it, and the wait times out otherwise.
\<close>

definition reap_wait :: "'k os_env \<Rightarrow> ptr \<Rightarrow> ptr \<Rightarrow> u32 \<Rightarrow> 'k host \<Rightarrow> (ret \<times> 'k host) option" where
  "reap_wait K hp p t s =
     do { (ret, s1) \<leftarrow> AdapterUrbCompleteHandle K (Some hp) s;
          r \<leftarrow> h_reqs s1 p; n \<leftarrow> r_sem r;
          case n of 0 \<Rightarrow> Some (RetErr HDF_ERR_TIMEOUT, s1)
          | Suc m \<Rightarrow> Some (HDF_SUCCESS, put_req p (r\<lparr>r_sem := Some m\<rparr>) s1) }"

text \<open>The buffer after the data of an OUT request have been copied in.\<close>

definition loaded :: "UsbRequestData \<Rightarrow> u8 list \<Rightarrow> u8 list" where
  "loaded q buf = (if UsbEndpointDirOut (qd_endPoint q)
     then take (unat (qd_length q)) (qd_data q) @ drop (unat (qd_length q)) buf else buf)"

definition sync_request :: "UsbRequestData \<Rightarrow> u8 \<Rightarrow> ptr \<Rightarrow> UsbHostRequest \<Rightarrow> UsbHostRequest" where
  "sync_request q ty hp r = r\<lparr>r_buffer := loaded q (r_buffer r), r_devHandle := Some hp, r_endPoint := qd_endPoint q,
     r_requestType := ty, r_timeout := qd_timeout q, r_length := qd_length q,
     r_userData := Some 0, r_callback := Some SyncRequestCallbackFn, r_userCallback := None, r_sem := Some 0\<rparr>"

text \<open>What the caller of a synchronous request provides.\<close>

definition sync_args :: "UsbRequestData \<Rightarrow> UsbHostRequest \<Rightarrow> bool" where
  "sync_args q r \<longleftrightarrow> 0 < qd_length q \<and> qd_length q \<le> MAX_BULK_DATA_BUFFER_LENGTH \<and>
     r_bufLen r \<le> length (r_buffer r) \<and>
     (UsbEndpointDirOut (qd_endPoint q) \<longrightarrow>
        unat (qd_length q) \<le> length (qd_data q) \<and> unat (qd_length q) \<le> r_bufLen r)"

lemma sync_fill:
  assumes "sync_args q r"
  shows "(if UsbEndpointDirOut (qd_endPoint q) then fill_copy r (Some (qd_data q)) (unat (qd_length q))
          else Some (True, r)) = Some (True, r\<lparr>r_buffer := loaded q (r_buffer r)\<rparr>)"
  using assms by (auto simp: sync_args_def fill_copy_def memcpy_s_def loaded_def rdn_def wrn_def min_def)

lemma sync_submit:
  assumes "sync_args q r" "h_reqs s p = Some r" "r_bulkUrb r = Some a" "h_urbs s a = Some [u]"
    and "h_handles s hp = Some h" "ty = USB_REQUEST_TYPE_BULK \<or> ty = USB_REQUEST_TYPE_INTERRUPT"
    and "k_seminit K (h_kern s) = (HDF_SUCCESS, k0)"
    and "k_submit K (fd h) (a, 0) (bulk_urb p (sync_request q ty hp r) u) k0 = (None, k1)"
  shows "HandleSyncRequest K W p hp q ty s = HandleSyncRequestCompletion K W p
    (bulk_submitted p (sync_request q ty hp r) a u k1 s)"
proof -
  let ?r = "sync_request q ty hp r"
  have ready: "bulk_ready p ?r a u hp h (put_req p ?r (set_kern k0 s))"
    using assms by (auto simp: bulk_ready_def sync_request_def data_type_def sync_args_def)
  have "bulk_submitted p ?r a u k1 (put_req p ?r (set_kern k0 s)) = bulk_submitted p ?r a u k1 s"
    by (simp add: bulk_submitted_def)
  then have "RawSubmitRequest K (Some p) (put_req p ?r (set_kern k0 s)) =
      Some (HDF_SUCCESS, bulk_submitted p ?r a u k1 s)"
    using submit_bulk[OF ready, of K] assms(8) by (simp add: RawSubmitRequest_def)
  then show ?thesis
    using assms(2,7) sync_fill[OF assms(1)]
    by (simp add: HandleSyncRequest_def sem_init_def sync_request_def)
qed

text \<open>
  A synchronous bulk request delivers: when the kernel accepts the URB and the receiving thread
  handles its completion during the wait, \<open>RawSendBulkRequest\<close> returns success exactly for URB status 0
  and the error of the table otherwise, reports the URB's actual length as the number of bytes
  transferred, leaves the received bytes at the start of the request's buffer (for an OUT request behind the data
  that were copied in), and leaves no semaphore behind.
\<close>

theorem RawSendBulkRequest_delivers:
  assumes "sync_args q r" "h_reqs s p = Some r" "r_bulkUrb r = Some a" "h_urbs s a = Some [u]"
    and "h_handles s hp = Some h" "k_seminit K (h_kern s) = (HDF_SUCCESS, k0)"
    and "k_submit K (fd h) (a, 0) (bulk_urb p (sync_request q USB_REQUEST_TYPE_BULK hp r) u) k0 = (None, k1)"
    and "kernel_finishes K (fd h) a (sync_request q USB_REQUEST_TYPE_BULK hp r) x k1 k2"
  shows "\<exists>s' r'. RawSendBulkRequest K (reap_wait K hp) (Some p) (Some hp) (Some q) s =
      Some (sync_status (bulk_status (rp_status x)) HDF_SUCCESS, Some (rp_actualLength x), s') \<and>
    h_reqs s' p = Some r' \<and> r_buffer r' = received (rp_data x) (loaded q (r_buffer r)) \<and> r_sem r' = None"
proof -
  let ?r = "sync_request q USB_REQUEST_TYPE_BULK hp r"
  let ?r1 = "?r\<lparr>r_actualLength := 0, r_urbs := Some a, r_numUrbs := 1, r_numRetired := 0,
    r_reqStatus := USB_REQUEST_COMPLETED\<rparr>"
  let ?s1 = "bulk_submitted p ?r a u k1 s"
  have 1: "RawSendBulkRequest K (reap_wait K hp) (Some p) (Some hp) (Some q) s =
      HandleSyncRequestCompletion K (reap_wait K hp) p ?s1"
    using sync_submit[OF assms(1-5), of USB_REQUEST_TYPE_BULK] assms(6,7) by (simp add: RawSendBulkRequest_def)
  have "bulk_ready p ?r a u hp h (put_req p ?r s)"
    using assms by (auto simp: bulk_ready_def sync_request_def data_type_def sync_args_def)
  from bulk_submitted_pending[OF this, of k1] have pend: "bulk_pending p ?r1 a (bulk_urb p ?r u) ?s1"
    by (simp add: bulk_submitted_def)
  have "AdapterUrbCompleteHandle K (Some hp) ?s1 =
    RawHandleRequestCompletion (Some p) (r_reqStatus (bulk_finish x ?r1))
      (put_req p (bulk_finish x ?r1) (?s1\<lparr>h_kern := k2,
         h_urbs := (h_urbs ?s1)(a \<mapsto> [reaped_urb x (bulk_urb p ?r u)])\<rparr>))"
    by (rule reap_bulk[OF pend])
      (use assms in \<open>auto simp: kernel_finishes_def bulk_submitted_def sync_request_def\<close>)
  with 1 show ?thesis
    by (simp add: HandleSyncRequestCompletion_def wait_completion_def reap_wait_def sem_destroy_def
        RawHandleRequestCompletion_def call_raw_callback_def SyncRequestCallback_def OsalSemPost_def
        bulk_finish_def sync_request_def bulk_submitted_def)
qed

definition sync_data :: UsbRequestData where
  "sync_data = \<lparr>qd_endPoint = 1, qd_data = [9, 8, 7, 6], qd_length = 4, qd_timeout = 100\<rparr>"

theorem RawSendBulkRequest_delivers_witness:
  "\<exists>s' r'. RawSendBulkRequest (transfer_os 7) (reap_wait (transfer_os 7) 1) (Some 50) (Some 1) (Some sync_data)
       (transfer_host (transfer_req 0) zero_urb) = Some (HDF_SUCCESS, Some 3, s') \<and>
    h_reqs s' 50 = Some r' \<and> r_buffer r' = [1, 2, 3, 6] @ replicate 12 0 \<and> r_sem r' = None"
proof -
  let ?s = "transfer_host (transfer_req 0) zero_urb"
  let ?r = "sync_request sync_data USB_REQUEST_TYPE_BULK 1 (transfer_req 0)"
  have args: "sync_args sync_data (transfer_req 0)"
    by (simp add: sync_args_def sync_data_def transfer_req_def zero_request_def)
  have out: "UsbEndpointDirOut 1" by (simp add: UsbEndpointDirOut_def)
  have buf: "loaded sync_data (replicate 16 0) = [9, 8, 7, 6] @ replicate 12 0"
    using out by (simp add: loaded_def sync_data_def)
  then have "3 \<le> length (r_buffer ?r)" by (simp add: sync_request_def transfer_req_def zero_request_def)
  then have "kernel_finishes (transfer_os 7) 3 7 ?r (transfer_reaped 7) 1 2"
    using transfer_finishes[of ?r 7 3 1] by (simp only: one_add_one)
  then show ?thesis
    using RawSendBulkRequest_delivers[OF args, of ?s 50 7 zero_urb 1 "zero_handle\<lparr>dh_dev := Some 2, fd := 3\<rparr>"
        "transfer_os 7" 0 1 "transfer_reaped 7" 2] buf
    by (simp add: transfer_req_def zero_request_def transfer_reaped_def bulk_status_def received_def)
qed

subsection \<open>Synchronous control requests\<close>

definition is_out :: "UsbControlRequestData \<Rightarrow> bool" where
  "is_out q \<longleftrightarrow> (q_requestType q AND USB_DDK_ENDPOINT_DIR_MASK) = USB_PIPE_DIRECTION_OUT"

definition setup_of :: "UsbControlRequestData \<Rightarrow> u8 list" where
  "setup_of q = setup_bytes (q_requestType q) (q_requestCmd q) (q_value q) (q_index q) (q_length q)"

lemma setup_of_length [simp]: "length (setup_of q) = 8"
  by (simp add: setup_of_def setup_bytes_def le16_bytes_def)

text \<open>The buffer of a control request: the setup packet, the data of an OUT request, the rest.\<close>

definition ctrl_buffer :: "UsbControlRequestData \<Rightarrow> u8 list \<Rightarrow> u8 list" where
  "ctrl_buffer q buf =
     (let n = (if is_out q then unat (q_length q) else 0)
      in setup_of q @ take n (q_data q) @ drop (8 + n) buf)"

definition ctrl_request :: "UsbControlRequestData \<Rightarrow> ptr \<Rightarrow> UsbHostRequest \<Rightarrow> UsbHostRequest" where
  "ctrl_request q hp r = r\<lparr>r_buffer := ctrl_buffer q (r_buffer r), r_devHandle := Some hp,
     r_endPoint := (if is_out q then 0 else 0x80), r_requestType := USB_REQUEST_TYPE_CONTROL,
     r_timeout := q_timeout q, r_length := (if is_out q then 8 + ucast (q_length q) else 0),
     r_userData := Some 0, r_callback := Some SyncRequestCallbackFn, r_userCallback := None, r_sem := Some 0\<rparr>"

definition ctrl_args :: "UsbControlRequestData \<Rightarrow> UsbHostRequest \<Rightarrow> bool" where
  "ctrl_args q r \<longleftrightarrow> 8 + unat (q_length q) \<le> length (r_buffer r) \<and> unat (q_length q) \<le> 4088 \<and>
     unat (q_length q) \<le> length (q_data q)"

lemma ctrl_length_ok:
  assumes "ctrl_args q r"
  shows "\<not> r_length (ctrl_request q hp r) > MAX_BULK_DATA_BUFFER_LENGTH"
proof -
  have "unat (ucast (q_length q) :: u32) = unat (q_length q)"
    using assms by (simp only: ucast_of_nat_unat ctrl_args_def) (rule unat_of_nat_small, simp)
  then have "unat (8 + ucast (q_length q) :: u32) \<le> 4096"
    using assms by (simp add: ctrl_args_def unat_word_ariths)
  then show ?thesis by (auto simp: ctrl_request_def word_less_nat_alt)
qed

lemma ctrl_load:
  assumes "ctrl_args q r"
  shows "RawFillControlSetup (Some (r_buffer r)) (Some q) =
      Some (HDF_SUCCESS, Some (setup_of q @ drop 8 (r_buffer r)))"
    and "is_out q \<Longrightarrow> 0 < q_length q \<Longrightarrow>
      memcpy_s (setup_of q @ drop 8 (r_buffer r)) 8 (unat (q_length q)) (q_data q) (unat (q_length q)) =
      Some (True, ctrl_buffer q (r_buffer r))"
    and "\<not> (is_out q \<and> 0 < q_length q) \<Longrightarrow> setup_of q @ drop 8 (r_buffer r) = ctrl_buffer q (r_buffer r)"
proof -
  show "RawFillControlSetup (Some (r_buffer r)) (Some q) =
      Some (HDF_SUCCESS, Some (setup_of q @ drop 8 (r_buffer r)))"
    using assms by (simp add: RawFillControlSetup_def wrn_def ctrl_args_def setup_of_def[symmetric])
  show "memcpy_s (setup_of q @ drop 8 (r_buffer r)) 8 (unat (q_length q)) (q_data q) (unat (q_length q)) =
      Some (True, ctrl_buffer q (r_buffer r))" if "is_out q" "0 < q_length q"
    using assms that by (auto simp: memcpy_s_def rdn_def wrn_def ctrl_args_def ctrl_buffer_def min_def Let_def add.commute)
  show "setup_of q @ drop 8 (r_buffer r) = ctrl_buffer q (r_buffer r)" if "\<not> (is_out q \<and> 0 < q_length q)"
    using that by (cases "q_length q = 0") (auto simp: ctrl_buffer_def word_gt_0)
qed

lemma ctrl_send:
  assumes "ctrl_args q r" "h_reqs s p = Some r" "k_seminit K (h_kern s) = (HDF_SUCCESS, k0)"
  shows "RawSendControlRequest K W (Some p) (Some hp) (Some q) s =
    do { (ret, s4) \<leftarrow> RawSubmitRequest K (Some p) (put_req p (ctrl_request q hp r) (set_kern k0 s));
         if ret_neg ret then do { s5 \<leftarrow> sem_destroy p s4; Some (ret, q_data q, s5) }
         else ControlRequestCompletion K W p q s4 }"
proof -
  have "ctrl_request q hp r = (fill_fields (r\<lparr>r_buffer := ctrl_buffer q (r_buffer r)\<rparr>) hp
      \<lparr>f_endPoint = (if is_out q then 0 else 0x80), f_buffer = None,
       f_length = (if is_out q then of_nat USB_RAW_CONTROL_SETUP_SIZE + ucast (q_length q) else 0),
       f_numIsoPackets = 0, f_callback = Some SyncRequestCallbackFn,
       f_userData = Some 0, f_timeout = q_timeout q, f_userCallback = None\<rparr> USB_REQUEST_TYPE_CONTROL)\<lparr>r_sem := Some 0\<rparr>"
    by (cases r) (simp add: ctrl_request_def fill_fields_def)
  note req = this
  show ?thesis
  proof (cases "is_out q \<and> 0 < q_length q")
    case True
    with req assms(2,3) show ?thesis
      by (simp add: RawSendControlRequest_def is_out_def[symmetric, simplified] ctrl_load[OF assms(1)]
          RawFillControlRequest_def sem_init_def Let_def)
  next
    case False
    with req assms(2,3) show ?thesis
      by (auto simp: RawSendControlRequest_def is_out_def[symmetric, simplified] ctrl_load[OF assms(1)]
          RawFillControlRequest_def sem_init_def Let_def cong: if_cong)
  qed
qed


definition ctrl_data :: UsbControlRequestData where
  "ctrl_data = \<lparr>q_requestType = 0x21, q_requestCmd = 0x20, q_value = 0x0102, q_index = 3, q_length = 2, q_timeout = 100,
     q_data = [5, 6]\<rparr>"


text \<open>
  An IN control request is submitted with buffer length 0, since only the OUT branch sets the
  length: a kernel that, as usbfs does, refuses a control URB too short for the setup packet refuses all
  of them.
\<close>

lemma RawSendControlRequest_in_refused:
  assumes "mem_avail K s" "ctrl_args q r" "\<not> is_out q" "h_reqs s p = Some r" "h_handles s hp = Some h"
    and "k_seminit K (h_kern s) = (HDF_SUCCESS, k0)"
    and "\<forall>f b u k. u_bufferLength u < 8 \<longrightarrow> k_submit K f b u k = (Some 22, k)"
  shows "\<exists>s'. RawSendControlRequest K W (Some p) (Some hp) (Some q) s = Some (RetErr HDF_ERR_IO, q_data q, s')"
proof -
  let ?r = "ctrl_request q hp r"
  have l: "r_length ?r = 0" "r_devHandle ?r = Some hp" "r_requestType ?r = 0"
    using assms(3) by (simp_all add: ctrl_request_def)
  then have u: "u_bufferLength (ctrl_urb p ?r) = 0" by (simp add: ctrl_urb_def)
  let ?a = "nextAddr (h_mem s)"
  have "k_submit K (fd h) (?a, 0) (ctrl_urb p ?r) k0 = (Some 22, k0)" using assms(7) u by simp
  with l assms(1,5) have "\<exists>s1. RawSubmitRequest K (Some p) (put_req p ?r (set_kern k0 s)) = Some (RetErr HDF_ERR_IO, s1) \<and>
      h_reqs s1 p \<noteq> None"
    by (simp add: RawSubmitRequest_def AdapterSubmitRequest_def OsSubmitControlRequest_def halloc_off hfree_off
        mem_avail_def Let_def ctrl_urb_def)
  then show ?thesis by (auto simp: ctrl_send[OF assms(2,4,6)] sem_destroy_def)
qed

end
