(* ===== verification/Usb_Device_Desc.thy ===== *)
theory Usb_Device_Desc
  imports Usb_RawLib Usb_Descriptor_Release
begin

text \<open>
  From the descriptor file of a device to its parsed configurations: \<open>OsReadDescriptors\<close>,
  \<open>OsParseConfigDescriptors\<close>, \<open>AdapterOpenDevice\<close> and \<open>AdapterGetConfigDescriptor\<close> of the adapter, and
  \<open>RawGetConfigDescriptor\<close> of the raw library.
\<close>

subsection \<open>Frames\<close>

text \<open>Nothing below the address \<open>b\<close> has changed, except possibly the device \<open>dev\<close>.\<close>

definition same_below :: "ptr \<Rightarrow> ptr \<Rightarrow> 'k host \<Rightarrow> 'k host \<Rightarrow> bool" where
  "same_below b dev s s' \<longleftrightarrow>
     (\<forall>q < b. h_sessions s' q = h_sessions s q \<and> h_handles s' q = h_handles s q \<and>
        (q \<noteq> dev \<longrightarrow> h_devs s' q = h_devs s q)) \<and> h_reqs s' = h_reqs s \<and> h_default s' = h_default s"

lemma same_below_refl [simp]: "same_below b dev s s"
  by (simp add: same_below_def)

lemma same_below_trans [trans]:
  "same_below b dev s s1 \<Longrightarrow> same_below b dev s1 s2 \<Longrightarrow> same_below b dev s s2"
  by (simp add: same_below_def)

text \<open>Allocation works, and the tracker is off.\<close>

definition roomy :: "'k os_env \<Rightarrow> 'k host \<Rightarrow> bool" where
  "roomy K s \<longleftrightarrow> \<not> g_usbRamTestFlag (h_mem s) \<and> (\<forall>i n. k_alloc K i n) \<and> mem_ok (h_mem s)"

subsection \<open>Reading the descriptor file\<close>

text \<open>
  The descriptor file behind a file descriptor: a \<open>read\<close> of \<open>n\<close> bytes returns the next \<open>n\<close> bytes of
  the contents, or what is left of them; \<open>pos\<close> is the file position.
\<close>

definition reads_file :: "'k os_env \<Rightarrow> nat \<Rightarrow> u8 list \<Rightarrow> ('k \<Rightarrow> nat) \<Rightarrow> bool" where
  "reads_file K f content pos \<longleftrightarrow> (\<forall>n k. pos k \<le> length content \<longrightarrow>
     (\<exists>k'. k_read K f n k = (Inr (take n (drop (pos k) content)), k') \<and>
           pos k' = pos k + length (take n (drop (pos k) content))))"

lemma reads_fileD:
  assumes "reads_file K f content pos" "pos k \<le> length content"
  shows "\<exists>k'. k_read K f n k = (Inr (take n (drop (pos k) content)), k') \<and>
    pos k' = pos k + length (take n (drop (pos k) content))"
  using assms unfolding reads_file_def by blast

definition read_inv :: "ptr \<Rightarrow> nat \<Rightarrow> u8 list \<Rightarrow> ('k \<Rightarrow> nat) \<Rightarrow> ptr \<Rightarrow> 'k host \<Rightarrow> bool" where
  "read_inv dev A content pos b s \<longleftrightarrow>
     (case h_devs s dev of None \<Rightarrow> False
      | Some d \<Rightarrow> d_descriptorsLength d = A \<and>
          (case d_descriptors d of None \<Rightarrow> A = 0
           | Some (a, bs) \<Rightarrow> bs = take A content \<and> b \<le> a \<and> a \<in> live (h_mem s))) \<and>
     A \<le> length content \<and> pos (h_kern s) = A \<and> dev < b \<and> b \<le> nextAddr (h_mem s)"

text \<open>The result of the loop: the whole file, padded with zero bytes.\<close>

definition read_done :: "ptr \<Rightarrow> UsbDevice \<Rightarrow> u8 list \<Rightarrow> ('k \<Rightarrow> nat) \<Rightarrow> ptr \<Rightarrow> 'k host \<Rightarrow> 'k host \<Rightarrow> bool" where
  "read_done dev d content pos b s s' \<longleftrightarrow>
     (\<exists>a pad. h_devs s' dev = Some (d\<lparr>d_descriptors := Some (a, content @ replicate pad 0),
                                      d_descriptorsLength := length content\<rparr>) \<and>
        0 < pad \<and> (length content + pad) mod DESC_READ_LEN = 0 \<and> b \<le> a \<and>
        live (h_mem s') = insert a {q \<in> live (h_mem s). q < b}) \<and>
     same_below b dev s s' \<and> mem_ok (h_mem s') \<and> \<not> g_usbRamTestFlag (h_mem s') \<and>
     b \<le> nextAddr (h_mem s') \<and> pos (h_kern s') = length content"

lemma realloc_run:
  assumes "roomy K s" "read_inv dev A content pos b s" "h_devs s dev = Some d"
    and "live (h_mem s) \<subseteq> {..<b} \<union> set_option (map_option fst (d_descriptors d))"
  shows "\<exists>a s1. OsAdapterRealloc K (d_descriptors d) A (A + 256) s =
      Some (Some (a, take A content @ replicate 256 0), s1) \<and> a = nextAddr (h_mem s) \<and>
      nextAddr (h_mem s1) = a + 1 \<and> live (h_mem s1) = insert a {q \<in> live (h_mem s). q < b} \<and>
      \<not> g_usbRamTestFlag (h_mem s1) \<and> h_kern s1 = h_kern s \<and> h_devs s1 dev = h_devs s dev \<and>
      same_below b dev s s1"
proof (cases "d_descriptors d")
  case None
  then have A: "A = 0" using assms by (auto simp: read_inv_def)
  have "{q \<in> live (h_mem s). q < b} = live (h_mem s)" using assms(4) None by auto
  then show ?thesis
    using assms(1) None A
    by (simp add: OsAdapterRealloc_def halloc_off roomy_def hfree_null same_below_def)
next
  case (Some ob)
  then obtain a0 where ob: "d_descriptors d = Some (a0, take A content)" "b \<le> a0" "a0 \<in> live (h_mem s)"
    and A: "A \<le> length content" and dev: "dev < b" "b \<le> nextAddr (h_mem s)"
    using assms(2,3) by (cases ob) (auto simp: read_inv_def)
  let ?a = "nextAddr (h_mem s)"
  have a0: "a0 < ?a" using assms(1) ob(3) by (auto simp: roomy_def mem_ok_def)
  have live: "insert ?a (live (h_mem s)) - {a0} = insert ?a {q \<in> live (h_mem s). q < b}"
    using assms(4) ob(1,2) a0 by auto
  have cp: "memcpy_s (replicate (A + 256) 0) 0 (A + 256) (take A content) A =
      Some (True, take A content @ replicate 256 0)"
    using A by (simp add: memcpy_s_def rdn_def wrn_def)
  let ?s1 = "s\<lparr>h_mem := (h_mem s)\<lparr>nextAddr := ?a + 1, live := insert ?a (live (h_mem s))\<rparr>\<rparr>"
  have al: "halloc K (A + 256) s = Some (Some ?a, ?s1)"
    using assms(1) by (simp add: halloc_off roomy_def)
  have fr: "\<exists>s2. hfree (Some a0) ?s1 = Some s2 \<and> nextAddr (h_mem s2) = ?a + 1 \<and>
      live (h_mem s2) = insert ?a {q \<in> live (h_mem s). q < b} \<and> \<not> g_usbRamTestFlag (h_mem s2) \<and>
      h_kern s2 = h_kern s \<and> h_devs s2 dev = h_devs s dev \<and> same_below b dev s s2"
    using assms(1) ob dev live by (simp add: hfree_off roomy_def same_below_def)
  show ?thesis
  proof (cases "A > 0")
    case True
    then show ?thesis using al fr cp ob(1) by (auto simp: OsAdapterRealloc_def simp del: replicate_add)
  next
    case False
    then show ?thesis using al fr ob(1) by (auto simp: OsAdapterRealloc_def)
  qed
qed

text \<open>One iteration of the loop.\<close>

definition read_step :: "ptr \<Rightarrow> UsbDevice \<Rightarrow> nat \<Rightarrow> u8 list \<Rightarrow> ptr \<Rightarrow> u8 list \<Rightarrow> 'k \<Rightarrow> 'k host \<Rightarrow> 'k host" where
  "read_step dev d A content a dat k s1 = put_dev dev
     (d\<lparr>d_descriptors := Some (a, take A content @ dat @ replicate (256 - length dat) 0),
        d_descriptorsLength := A + length dat\<rparr>) (set_kern k s1)"

lemma read_iteration:
  assumes "roomy K s" "reads_file K f content pos" "read_inv dev A content pos b s" "h_devs s dev = Some d"
    and "live (h_mem s) \<subseteq> {..<b} \<union> set_option (map_option fst (d_descriptors d))"
  defines "dat \<equiv> take 256 (drop A content)"
  shows "\<exists>a s1 k. a = nextAddr (h_mem s) \<and> nextAddr (h_mem s1) = a + 1 \<and>
    live (h_mem s1) = insert a {q \<in> live (h_mem s). q < b} \<and> \<not> g_usbRamTestFlag (h_mem s1) \<and>
    same_below b dev s s1 \<and> pos k = A + length dat \<and>
    OsReadDescriptors_loop K dev f A s =
      (if A + length dat = A + 256 then OsReadDescriptors_loop K dev f (A + 256) (read_step dev d A content a dat k s1)
       else Some (HDF_SUCCESS, read_step dev d A content a dat k s1))"
proof -
  obtain a s1 where 1: "OsAdapterRealloc K (d_descriptors d) A (A + 256) s =
      Some (Some (a, take A content @ replicate 256 0), s1)" "a = nextAddr (h_mem s)"
      "nextAddr (h_mem s1) = a + 1" "live (h_mem s1) = insert a {q \<in> live (h_mem s). q < b}"
      "\<not> g_usbRamTestFlag (h_mem s1)" "h_kern s1 = h_kern s" "same_below b dev s s1"
    using realloc_run[OF assms(1,3,4,5)] by blast
  have A: "A \<le> length content" "pos (h_kern s) = A" "d_descriptorsLength d = A"
    using assms(3,4) by (auto simp: read_inv_def)
  obtain k where k: "k_read K f 256 (h_kern s1) = (Inr dat, k)" "pos k = A + length dat"
    using reads_fileD[OF assms(2), of "h_kern s" 256] A 1(6) by (auto simp: dat_def)
  have "length dat \<le> 256" by (simp add: dat_def)
  then have w: "wrn (take A content @ replicate 256 0) A (replicate 256 0) = Some (take A content @ replicate 256 0)"
    "wrn (take A content @ replicate 256 0) A dat = Some (take A content @ dat @ replicate (256 - length dat) 0)"
    using A(1) by (simp_all add: wrn_def)
  have "OsReadDescriptors_loop K dev f A s =
      (if A + length dat = A + 256 then OsReadDescriptors_loop K dev f (A + 256) (read_step dev d A content a dat k s1)
       else Some (HDF_SUCCESS, read_step dev d A content a dat k s1))"
    using assms(4) 1(1) k(1) w A(3)
    by (subst OsReadDescriptors_loop.simps) (simp add: Let_def read_step_def cong: if_cong)
  with 1 k(2) show ?thesis by blast
qed

lemma read_done_trans:
  assumes "read_done dev (d\<lparr>d_descriptors := x, d_descriptorsLength := n\<rparr>) content pos b s2 s'"
    and "same_below b dev s s2" "{q \<in> live (h_mem s2). q < b} = {q \<in> live (h_mem s). q < b}"
  shows "read_done dev d content pos b s s'"
  using assms same_below_trans[OF assms(2), of s'] by (simp add: read_done_def)

lemma read_loop:
  "roomy K s \<Longrightarrow> reads_file K f content pos \<Longrightarrow> read_inv dev A content pos b s \<Longrightarrow> h_devs s dev = Some d \<Longrightarrow>
   live (h_mem s) \<subseteq> {..<b} \<union> set_option (map_option fst (d_descriptors d)) \<Longrightarrow> A mod 256 = 0 \<Longrightarrow>
   \<exists>s'. OsReadDescriptors_loop K dev f A s = Some (HDF_SUCCESS, s') \<and> read_done dev d content pos b s s'"
proof (induction "length content - A" arbitrary: A s d rule: less_induct)
  case less
  let ?dat = "take 256 (drop A content)"
  obtain a s1 k where it: "a = nextAddr (h_mem s)" "nextAddr (h_mem s1) = a + 1"
    "live (h_mem s1) = insert a {q \<in> live (h_mem s). q < b}" "\<not> g_usbRamTestFlag (h_mem s1)"
    "same_below b dev s s1" "pos k = A + length ?dat"
    "OsReadDescriptors_loop K dev f A s =
      (if A + length ?dat = A + 256 then OsReadDescriptors_loop K dev f (A + 256) (read_step dev d A content a ?dat k s1)
       else Some (HDF_SUCCESS, read_step dev d A content a ?dat k s1))"
    using read_iteration[OF less.prems(1-5)] by blast
  let ?s2 = "read_step dev d A content a ?dat k s1"
  have A: "A \<le> length content" "dev < b" "b \<le> a" using less.prems(3) it(1) by (auto simp: read_inv_def)
  have ok: "mem_ok (h_mem s1)" using it(1-3) less.prems(1) by (auto simp: mem_ok_def roomy_def)
  have sb: "same_below b dev s ?s2" using it(5) by (simp add: same_below_def read_step_def)
  show ?case
  proof (cases "length ?dat = 256")
    case True
    let ?d2 = "d\<lparr>d_descriptors := Some (a, take (A + 256) content), d_descriptorsLength := A + 256\<rparr>"
    have dev2: "h_devs ?s2 dev = Some ?d2" using True by (simp add: read_step_def take_add)
    have inv2: "read_inv dev (A + 256) content pos b ?s2"
      using dev2 True it(2,3,6) A by (auto simp: read_inv_def) (auto simp: read_step_def)
    have "256 \<le> length content - A" using True by simp
    then have dec: "length content - (A + 256) < length content - A" by linarith
    have room: "roomy K ?s2" using less.prems(1) ok it(4) by (simp add: roomy_def read_step_def)
    have lv: "live (h_mem ?s2) \<subseteq> {..<b} \<union> set_option (map_option fst (d_descriptors ?d2))"
      using it(3) by (auto simp: read_step_def)
    have "\<exists>s'. OsReadDescriptors_loop K dev f (A + 256) ?s2 = Some (HDF_SUCCESS, s') \<and>
        read_done dev ?d2 content pos b ?s2 s'"
      by (rule less.hyps[OF dec room less.prems(2) inv2 dev2 lv]) (use less.prems(6) in simp)
    moreover have "live (h_mem ?s2) = insert a {q \<in> live (h_mem s). q < b}" using it(3) by (simp add: read_step_def)
    then have "{q \<in> live (h_mem ?s2). q < b} = {q \<in> live (h_mem s). q < b}" using A(3) by auto
    ultimately show ?thesis
      using it(7) True read_done_trans[OF _ sb] by auto
  next
    case False
    then have len: "length ?dat = length content - A" "length ?dat < 256" by auto
    let ?pad = "256 - length ?dat"
    have "take A content @ ?dat = content" using len by (metis append_take_drop_id take_all_iff length_drop less_imp_le)
    then have dev2: "h_devs ?s2 dev = Some (d\<lparr>d_descriptors := Some (a, content @ replicate ?pad 0),
          d_descriptorsLength := length content\<rparr>)"
      using len A(1) by (simp add: read_step_def)
    have "length content + ?pad = A + 256" using len A(1) by linarith
    then have "(length content + ?pad) mod 256 = 0" using less.prems(6) by simp
    then have "read_done dev d content pos b s ?s2"
      unfolding read_done_def
      using dev2 len sb ok it(2,3,4,6) A
      by (intro conjI exI[of _ a] exI[of _ ?pad]) (auto simp: read_step_def)
    then show ?thesis using it(7) False by auto
  qed
qed

subsection \<open>Splitting the configurations\<close>

text \<open>Consecutive configuration descriptors from \<open>off\<close> on, inside the first \<open>lim\<close> bytes.\<close>

fun tiles :: "u8 list \<Rightarrow> nat \<Rightarrow> nat \<Rightarrow> UsbDeviceConfigDescriptor list \<Rightarrow> bool" where
  "tiles bs off lim [] \<longleftrightarrow> True"
| "tiles bs off lim (c # cs) \<longleftrightarrow> cd_desc c = Some off \<and> bs ! (off + 1) = USB_DDK_DT_CONFIG \<and>
     cd_actualLen c = min (unat (le16 (bs ! (off + 2)) (bs ! (off + 3)))) (lim - off) \<and>
     USB_DDK_DT_CONFIG_SIZE \<le> cd_actualLen c \<and> off + cd_actualLen c \<le> lim \<and>
     tiles bs (off + cd_actualLen c) lim cs"

lemma config_len:
  fixes tot :: u16 and d :: u64
  defines "n \<equiv> (if ucast tot > d then ucast d else tot :: u16)"
  shows "unat n = min (unat tot) (unat d)" "unat (d - ucast n) = unat d - unat n"
proof -
  have t: "unat (ucast tot :: u64) = unat tot"
    using unsigned_less[where 'a = nat and w = tot]
    by (simp only: ucast_of_nat_unat) (rule unat_of_nat_small, simp)
  show 1: "unat n = min (unat tot) (unat d)"
  proof (cases "ucast tot > d")
    case True
    then have "unat d < unat tot" using t by (simp add: word_less_nat_alt)
    moreover have "unat tot < 65536" using unsigned_less[where 'a = nat and w = tot] by simp
    ultimately have "unat (ucast d :: u16) = unat d"
      by (simp only: ucast_of_nat_unat) (rule unat_of_nat_small, simp)
    with True \<open>unat d < unat tot\<close> show ?thesis by (simp add: n_def)
  next
    case False
    then show ?thesis using t by (simp add: n_def word_less_nat_alt)
  qed
  have "unat n < 65536" using unsigned_less[where 'a = nat and w = n] by simp
  then have "unat (ucast n :: u64) = unat n"
    by (simp only: ucast_of_nat_unat) (rule unat_of_nat_small, simp)
  then show "unat (d - ucast n) = unat d - unat n"
    using 1 by (simp add: unat_sub word_le_nat_alt)
qed

lemma parse_config_safe:
  "off + unat dl \<le> length bs \<Longrightarrow> i + k \<le> length cs \<Longrightarrow>
   \<exists>r cs'. parse_config_loop bs k i off dl cs = Some (r, cs') \<and> length cs' = length cs \<and>
     take i cs' = take i cs \<and> (r = HDF_SUCCESS \<or> r = RetErr HDF_ERR_IO) \<and>
     (r = HDF_SUCCESS \<longrightarrow> tiles bs off (off + unat dl) (take k (drop i cs')))"
proof (induction k arbitrary: i off dl cs)
  case (Suc k)
  show ?case
  proof (cases "dl < 9")
    case True
    then show ?thesis by simp
  next
    case False
    then have dl: "9 \<le> unat dl" by (simp add: word_less_nat_alt)
    have rd: "rd8 bs off = Some (bs ! off)" "rd8 bs (off + 1) = Some (bs ! (off + 1))"
      "rd8 bs (off + 2) = Some (bs ! (off + 2))" "rd8 bs (off + 3) = Some (bs ! (off + 3))"
      using Suc.prems(1) dl by (simp_all add: rd8_def)
    let ?t = "le16 (bs ! (off + 2)) (bs ! (off + 3))"
    let ?n = "if ucast ?t > dl then ucast dl else ?t"
    show ?thesis
    proof (cases "bs ! (off + 1) \<noteq> USB_DDK_DT_CONFIG \<or> unat (bs ! off) < 9 \<or> unat ?t < 9")
      case True
      then show ?thesis using False rd by (auto simp: Let_def)
    next
      case ok: False
      note n = config_len[where tot = ?t and d = dl]
      let ?c = "\<lparr>cd_desc = Some off, cd_actualLen = unat ?n\<rparr>"
      obtain r cs' where ih: "parse_config_loop bs k (Suc i) (off + unat ?n) (dl - ucast ?n) (cs[i := ?c]) = Some (r, cs')"
        "length cs' = length cs" "take (Suc i) cs' = take (Suc i) (cs[i := ?c])"
        "r = HDF_SUCCESS \<or> r = RetErr HDF_ERR_IO"
        "r = HDF_SUCCESS \<longrightarrow> tiles bs (off + unat ?n) (off + unat dl) (take k (drop (Suc i) cs'))"
        using Suc.IH[of "off + unat ?n" "dl - ucast ?n" "Suc i" "cs[i := ?c]"] Suc.prems n by auto
      have i: "i < length cs'" using Suc.prems(2) ih(2) by simp
      have "cs' ! i = take (Suc i) cs' ! i" by simp
      also have "\<dots> = ?c" using i ih(2) by (simp add: ih(3))
      finally have "drop i cs' = ?c # drop (Suc i) cs'" using i by (simp add: Cons_nth_drop_Suc[symmetric])
      moreover have "take i cs' = take i cs"
        using arg_cong[OF ih(3), of "take i"] by simp
      moreover have "parse_config_loop bs (Suc k) i off dl cs = Some (r, cs')"
        using ih(1) False ok rd i ih(2) by (cases "ucast ?t > dl") (simp_all add: Let_def)
      ultimately show ?thesis using ih(2,4,5) ok n dl by (auto simp: min_def)
    qed
  qed
qed simp

text \<open>The image of the descriptor file that a device holds: the contents with zero padding.\<close>

definition file_image :: "u8 list \<Rightarrow> u8 list \<Rightarrow> bool" where
  "file_image content bs \<longleftrightarrow> (\<exists>pad. bs = content @ replicate pad 0 \<and> 0 < pad \<and>
     (length content + pad) mod DESC_READ_LEN = 0)"

lemma file_image_length: "file_image content bs \<Longrightarrow> 256 \<le> length bs \<and> length content \<le> length bs"
  by (auto simp: file_image_def dest: dvd_imp_le)

text \<open>The slices that \<open>OsParseConfigDescriptors\<close> stores for the configurations of the image.\<close>

definition split_ok :: "u8 list \<Rightarrow> u8 list \<Rightarrow> (ptr \<times> UsbDeviceConfigDescriptor list) option \<Rightarrow> bool" where
  "split_ok content bs cd \<longleftrightarrow>
     (case cd of None \<Rightarrow> bs ! 17 = 0
      | Some (ca, cs) \<Rightarrow> length cs = unat (bs ! 17) \<and> 18 \<le> length content \<and> tiles bs 18 (length content) cs)"

text \<open>Every image of the file splits without an error.\<close>

definition splits :: "u8 list \<Rightarrow> bool" where
  "splits content \<longleftrightarrow> (\<forall>bs. file_image content bs \<longrightarrow> bs ! 17 \<noteq> 0 \<longrightarrow>
     (\<exists>cs. parse_config_loop bs (unat (bs ! 17)) 0 18 (of_nat (length content) - of_nat 18)
        (replicate (unat (bs ! 17)) \<lparr>cd_desc = None, cd_actualLen = 0\<rparr>) = Some (HDF_SUCCESS, cs)))"

lemma parse_configs_run:
  assumes "roomy K s" "h_devs s dev = Some d" "d_descriptors d = Some (a, bs)" "file_image content bs"
    and "d_descriptorsLength d = length content" "length content < 2 ^ 64" "d_configDescriptors d = None"
    and "dev < b" "b \<le> nextAddr (h_mem s)"
  shows "\<exists>r cd s'. OsParseConfigDescriptors K dev s = Some (r, s') \<and>
    h_devs s' dev = Some (d\<lparr>d_configDescriptors := cd\<rparr>) \<and> (r = HDF_SUCCESS \<longrightarrow> split_ok content bs cd) \<and>
    (splits content \<longrightarrow> r = HDF_SUCCESS) \<and>
    (cd = None \<longrightarrow> h_mem s' = h_mem s) \<and>
    (\<forall>ca cs. cd = Some (ca, cs) \<longrightarrow> ca = nextAddr (h_mem s) \<and> nextAddr (h_mem s') = ca + 1 \<and>
       live (h_mem s') = insert ca (live (h_mem s))) \<and>
    \<not> g_usbRamTestFlag (h_mem s') \<and> same_below b dev s s' \<and> h_kern s' = h_kern s"
proof -
  have len: "256 \<le> length bs" "length content \<le> length bs" using file_image_length[OF assms(4)] by auto
  have n17: "rd8 bs 17 = Some (bs ! 17)" using len by (simp add: rd8_def)
  show ?thesis
  proof (cases "bs ! 17 = 0")
    case True
    then have "OsParseConfigDescriptors K dev s = Some (HDF_SUCCESS, s)"
      using assms(2,3) n17 by (simp add: OsParseConfigDescriptors_def)
    moreover have "d = d\<lparr>d_configDescriptors := None\<rparr>" using assms(7) by (cases d) simp
    ultimately show ?thesis
      using True assms(1,2) by (intro exI[of _ HDF_SUCCESS] exI[of _ None] exI[of _ s]) (simp add: split_ok_def roomy_def)
  next
    case False
    have n18: "18 \<le> length content"
    proof (rule ccontr)
      assume "\<not> ?thesis"
      then have "bs ! 17 = 0" using assms(4) len by (auto simp: file_image_def nth_append)
      with False show False by contradiction
    qed
    let ?n = "unat (bs ! 17)"
    let ?dl = "of_nat (length content) - of_nat 18 :: u64"
    have "?dl = of_nat (length content - 18)" using n18 by simp
    then have dl: "unat ?dl = length content - 18"
      using assms(6) by (simp only:) (rule unat_of_nat_small, simp)
    let ?cs = "replicate ?n \<lparr>cd_desc = None, cd_actualLen = 0\<rparr>"
    obtain r cs' where p: "parse_config_loop bs ?n 0 18 ?dl ?cs = Some (r, cs')" "length cs' = ?n"
      "r = HDF_SUCCESS \<longrightarrow> tiles bs 18 (length content) cs'"
      using parse_config_safe[of 18 ?dl bs 0 ?n ?cs] dl n18 len by auto
    have succ: "splits content \<longrightarrow> r = HDF_SUCCESS"
      using p(1) assms(4) False unfolding splits_def by fastforce
    have pos: "0 < ?n * sizeof_UsbDeviceConfigDescriptor" using False by (simp add: unat_gt_0)
    let ?a = "nextAddr (h_mem s)"
    let ?s1 = "s\<lparr>h_mem := (h_mem s)\<lparr>nextAddr := ?a + 1, live := insert ?a (live (h_mem s))\<rparr>\<rparr>"
    have "halloc K (?n * sizeof_UsbDeviceConfigDescriptor) s = Some (Some ?a, ?s1)"
      using assms(1) pos by (simp add: halloc_off roomy_def)
    then have run: "OsParseConfigDescriptors K dev s =
        Some (r, put_dev dev (d\<lparr>d_configDescriptors := Some (?a, cs')\<rparr>) ?s1)"
      using assms(2,3,5) n17 False p(1) by (simp add: OsParseConfigDescriptors_def)
    show ?thesis
      by (rule exI[of _ r], rule exI[of _ "Some (?a, cs')"],
          rule exI[of _ "put_dev dev (d\<lparr>d_configDescriptors := Some (?a, cs')\<rparr>) ?s1"])
        (use run p(2,3) succ n18 assms(1,8) in \<open>auto simp: split_ok_def roomy_def same_below_def\<close>)
  qed
qed

subsection \<open>Opening a device\<close>

text \<open>
  The kernel has the device: its file opens with file descriptor \<open>f\<close>, and after the query of the
  capabilities the file is at its start.
\<close>

definition device_file :: "'k os_env \<Rightarrow> u8 \<Rightarrow> u8 \<Rightarrow> nat \<Rightarrow> u8 list \<Rightarrow> ('k \<Rightarrow> nat) \<Rightarrow> 'k \<Rightarrow> bool" where
  "device_file K bus addr f content pos k \<longleftrightarrow> reads_file K f content pos \<and> length content < 2 ^ 64 \<and>
     (\<exists>k1. k_open K bus addr k = (Inr f, k1) \<and> pos (snd (k_caps K f k1)) = 0)"

text \<open>The device object of an opened device.\<close>

definition device_ok :: "ptr \<Rightarrow> ptr \<Rightarrow> u8 \<Rightarrow> u8 \<Rightarrow> u8 list \<Rightarrow> UsbDevice \<Rightarrow> bool" where
  "device_ok sp hp bus addr content d \<longleftrightarrow> d_session d = Some sp \<and> d_devHandle d = Some hp \<and>
     d_busNum d = bus \<and> d_devAddr d = addr \<and> d_descriptorsLength d = length content \<and>
     (\<exists>a bs. d_descriptors d = Some (a, bs) \<and> file_image content bs \<and> d_deviceDescriptor d = take 18 bs \<and>
        split_ok content bs (d_configDescriptors d) \<and> map_option fst (d_configDescriptors d) \<noteq> Some a)"

text \<open>The blocks that belong to a device.\<close>

definition device_blocks :: "UsbDevice \<Rightarrow> ptr set" where
  "device_blocks d = set_option (map_option fst (d_descriptors d)) \<union> set_option (map_option fst (d_configDescriptors d))"

lemma init_device_run:
  assumes "roomy K s" "device_file K bus addr f content pos (h_kern s)"
    and "h_devs s dp = Some (zero_device\<lparr>d_session := Some sp, d_devHandle := Some hp\<rparr>)" "h_handles s hp = Some h"
    and "b = nextAddr (h_mem s)" "dp < b" "hp < b"
  shows "\<exists>r s' d. OsInitDevice K dp bus addr s = Some (r, s') \<and> h_devs s' dp = Some d \<and>
    (r = HDF_SUCCESS \<longrightarrow> device_ok sp hp bus addr content d) \<and> (splits content \<longrightarrow> r = HDF_SUCCESS) \<and>
    live (h_mem s') = live (h_mem s) \<union> device_blocks d \<and> device_blocks d \<subseteq> {b..} \<and>
    (\<exists>c. h_handles s' hp = Some (h\<lparr>fd := f, caps := c\<rparr>)) \<and> \<not> g_usbRamTestFlag (h_mem s') \<and> mem_ok (h_mem s') \<and>
    (\<forall>q < b. h_sessions s' q = h_sessions s q \<and> (q \<noteq> hp \<longrightarrow> h_handles s' q = h_handles s q) \<and>
        (q \<noteq> dp \<longrightarrow> h_devs s' q = h_devs s q)) \<and> h_reqs s' = h_reqs s \<and> h_default s' = h_default s"
proof -
  let ?d0 = "zero_device\<lparr>d_session := Some sp, d_devHandle := Some hp, d_busNum := bus, d_devAddr := addr\<rparr>"
  obtain k1 where k1: "k_open K bus addr (h_kern s) = (Inr f, k1)" "pos (snd (k_caps K f k1)) = 0"
    and rf: "reads_file K f content pos" and lc: "length content < 2 ^ 64"
    using assms(2) by (auto simp: device_file_def)
  obtain c k2 where k2: "k_caps K f k1 = (c, k2)" by fastforce
  let ?h = "h\<lparr>fd := f, caps := (case c of Some x \<Rightarrow> x | None \<Rightarrow> USB_ADAPTER_CAP_BULK_CONTINUATION)\<rparr>"
  let ?s1 = "put_dev dp ?d0 (put_handle hp ?h (set_kern k2 s))"
  have dd: "?d0\<lparr>d_descriptorsLength := 0\<rparr> = ?d0" by (simp add: zero_device_def)
  have fresh: "live (h_mem s) \<subseteq> {..<b}" using assms(1,5) by (auto simp: roomy_def mem_ok_def)
  have room1: "roomy K ?s1" using assms(1) by (simp add: roomy_def)
  have inv1: "read_inv dp 0 content pos b ?s1"
    using assms(5,6) k1(2) k2 by (simp add: read_inv_def zero_device_def)
  obtain s2 where s2: "OsReadDescriptors_loop K dp f 0 ?s1 = Some (HDF_SUCCESS, s2)"
    "read_done dp ?d0 content pos b ?s1 s2"
    using read_loop[OF room1 rf inv1, of ?d0] fresh by auto
  then obtain a pad where d2: "h_devs s2 dp = Some (?d0\<lparr>d_descriptors := Some (a, content @ replicate pad 0),
       d_descriptorsLength := length content\<rparr>)" "0 < pad" "(length content + pad) mod DESC_READ_LEN = 0" "b \<le> a"
    "live (h_mem s2) = insert a {q \<in> live (h_mem s). q < b}"
    and sb2: "same_below b dp ?s1 s2" and m2: "mem_ok (h_mem s2)" "\<not> g_usbRamTestFlag (h_mem s2)" "b \<le> nextAddr (h_mem s2)"
    unfolding read_done_def by auto
  let ?bs = "content @ replicate pad 0"
  let ?d2 = "?d0\<lparr>d_descriptors := Some (a, ?bs), d_descriptorsLength := length content\<rparr>"
  have img: "file_image content ?bs" using d2(2,3) by (auto simp: file_image_def)
  have live2: "live (h_mem s2) = insert a (live (h_mem s))" using d2(5) fresh by auto
  have room2: "roomy K s2" using assms(1) m2 by (simp add: roomy_def)
  obtain r cd s3 where p: "OsParseConfigDescriptors K dp s2 = Some (r, s3)"
    "h_devs s3 dp = Some (?d2\<lparr>d_configDescriptors := cd\<rparr>)" "r = HDF_SUCCESS \<longrightarrow> split_ok content ?bs cd"
    and succ: "splits content \<longrightarrow> r = HDF_SUCCESS" and p2:
    "cd = None \<longrightarrow> h_mem s3 = h_mem s2"
    "\<forall>ca cs. cd = Some (ca, cs) \<longrightarrow> ca = nextAddr (h_mem s2) \<and> nextAddr (h_mem s3) = ca + 1 \<and>
       live (h_mem s3) = insert ca (live (h_mem s2))"
    "\<not> g_usbRamTestFlag (h_mem s3)" "same_below b dp s2 s3"
    using parse_configs_run[OF room2 d2(1) _ img _ lc, of a b] assms(6) m2(3) by (auto simp: zero_device_def)
  let ?B = "device_blocks (?d2\<lparr>d_configDescriptors := cd\<rparr>)"
  have B: "?B = insert a (set_option (map_option fst cd))" by (simp add: device_blocks_def)
  have live3: "live (h_mem s3) = live (h_mem s) \<union> ?B \<and> ?B \<subseteq> {b..} \<and> mem_ok (h_mem s3)"
  proof (cases cd)
    case None
    then show ?thesis using p2(1) live2 d2(4) m2(1) B by simp
  next
    case (Some x)
    obtain ca cs where x: "cd = Some (ca, cs)" using Some by (cases x) auto
    have "mem_ok (h_mem s3)" using p2(2) x m2(1) by (auto simp: mem_ok_def)
    then show ?thesis using p2(2) x live2 d2(4) m2(3) B by (simp add: insert_commute)
  qed
  have init: "OsInitDevice K dp bus addr s = (if r \<noteq> HDF_SUCCESS then Some (r, s3)
     else Some (HDF_SUCCESS, put_dev dp (?d2\<lparr>d_configDescriptors := cd, d_deviceDescriptor := take 18 ?bs\<rparr>) s3))"
  proof -
    have "memcpy_s (d_deviceDescriptor (?d2\<lparr>d_configDescriptors := cd\<rparr>)) 0 18 ?bs 18 = Some (True, take 18 ?bs)"
      using file_image_length[OF img] by (simp add: memcpy_s_def rdn_def wrn_def zero_device_def)
    then show ?thesis
      using assms(3,4) k1 k2 s2(1) p(1,2) dd
      by (simp add: OsInitDevice_def OsGetUsbFd_def OsReadDescriptors_def Let_def)
  qed
  have frame: "\<forall>q < b. h_sessions s3 q = h_sessions s q \<and> (q \<noteq> hp \<longrightarrow> h_handles s3 q = h_handles s q) \<and>
        (q \<noteq> dp \<longrightarrow> h_devs s3 q = h_devs s q)" "h_reqs s3 = h_reqs s" "h_default s3 = h_default s"
      "h_handles s3 hp = Some ?h"
    using same_below_trans[OF sb2 p2(4)] assms(7) by (auto simp: same_below_def)
  show ?thesis
  proof (cases "r = HDF_SUCCESS")
    case False
    then show ?thesis
      using init p(2) p2(3) live3 frame succ by (intro exI[of _ r] exI[of _ s3] exI[of _ "?d2\<lparr>d_configDescriptors := cd\<rparr>"]) auto
  next
    case True
    let ?d3 = "?d2\<lparr>d_configDescriptors := cd, d_deviceDescriptor := take 18 ?bs\<rparr>"
    have "device_blocks ?d3 = device_blocks (?d2\<lparr>d_configDescriptors := cd\<rparr>)" by (simp add: device_blocks_def)
    moreover have "map_option fst cd \<noteq> Some a"
      using p2(2) live2 m2(1) by (auto simp: mem_ok_def)
    then have "device_ok sp hp bus addr content ?d3"
      using True img p(3) by (simp add: device_ok_def)
    ultimately show ?thesis
      using True init p2(3) live3 frame succ
      by (intro exI[of _ r] exI[of _ "put_dev dp ?d3 s3"] exI[of _ ?d3]) auto
  qed
qed

text \<open>The search key packs bus number and address without loss.\<close>

lemma OsDeviceCompare_iff:
  "OsDeviceCompare d (push_bit 8 (ucast bus) OR ucast addr) \<longleftrightarrow> d_busNum d = bus \<and> d_devAddr d = addr"
proof -
  let ?k = "push_bit 8 (ucast bus) OR ucast addr :: u32"
  have 1: "drop_bit 8 ?k = ucast bus"
    by (rule bit_eqI) (auto simp: bit_simps dest: bit_imp_le_length)
  have 2: "?k AND 0xFF = ucast addr"
  proof (rule bit_eqI)
    fix n
    assume n: "possible_bit TYPE(u32) n"
    have "bit (0xFF :: u32) n \<longleftrightarrow> n < 8"
      using n bit_mask_iff[where 'a = u32 and m = 8 and n = n] by (simp add: mask_eq_exp_minus_1)
    then show "bit (?k AND 0xFF) n = bit (ucast addr :: u32) n"
      using n by (auto simp: bit_simps dest: bit_imp_le_length)
  qed
  have u: "unat (ucast x :: u32) = unat x" for x :: u8
    using unsigned_less[where 'a = nat and w = x]
    by (simp only: ucast_of_nat_unat) (rule unat_of_nat_small, simp)
  have inj: "(ucast x :: u32) = ucast y \<longleftrightarrow> x = y" for x y :: u8
    by (metis u unsigned_word_eqI)
  show ?thesis
    unfolding OsDeviceCompare_def 1 2 by (simp add: inj)
qed

definition not_open :: "u8 \<Rightarrow> u8 \<Rightarrow> UsbSession \<Rightarrow> 'k host \<Rightarrow> bool" where
  "not_open bus addr ss s \<longleftrightarrow>
     list_all (\<lambda>p. case h_devs s p of None \<Rightarrow> False | Some d \<Rightarrow> (d_busNum d, d_devAddr d) \<noteq> (bus, addr)) (usbDevs ss)"

lemma dev_search_not_open:
  "list_all (\<lambda>p. case H p of None \<Rightarrow> False | Some d \<Rightarrow> (d_busNum d, d_devAddr d) \<noteq> (bus, addr)) ps \<Longrightarrow>
   dev_search H (push_bit 8 (ucast bus) OR ucast addr) ps = Some None"
  by (induction ps) (auto simp: OsDeviceCompare_iff split: option.splits)

text \<open>What opening a device leaves behind; \<open>hp\<close> and \<open>dp\<close> are its two new objects.\<close>

definition opened :: "ptr \<Rightarrow> UsbSession \<Rightarrow> u8 \<Rightarrow> u8 \<Rightarrow> nat \<Rightarrow> u8 list \<Rightarrow> ptr \<Rightarrow> 'k host \<Rightarrow> 'k host \<Rightarrow> bool" where
  "opened sp ss bus addr f content hp s s' \<longleftrightarrow>
     (\<exists>dp h d. h_handles s' hp = Some h \<and> dh_dev h = Some dp \<and> fd h = f \<and> claimedInterfaces h = 0 \<and>
        h_devs s' dp = Some d \<and> d_refcnt d = 1 \<and> device_ok sp hp bus addr content d \<and>
        h_sessions s' sp = Some (ss\<lparr>usbDevs := dp # usbDevs ss\<rparr>) \<and>
        live (h_mem s') = live (h_mem s) \<union> {hp, dp} \<union> device_blocks d \<and>
        distinct [hp, dp] \<and> {hp, dp} \<union> device_blocks d \<subseteq> {nextAddr (h_mem s)..} \<and> {hp, dp} \<inter> device_blocks d = {})"

lemma open_device_run:
  assumes "roomy K s" "h_sessions s sp = Some ss" "sp < nextAddr (h_mem s)" "not_open bus addr ss s"
    and "device_file K bus addr f content pos (h_kern s)"
  shows "\<exists>q s'. AdapterOpenDevice K (Some sp) bus addr s = Some (q, s') \<and> roomy K s' \<and>
    (splits content \<longrightarrow> q \<noteq> None) \<and>
    (case q of None \<Rightarrow> h_sessions s' sp = Some ss | Some hp \<Rightarrow> opened sp ss bus addr f content hp s s')"
proof -
  let ?hp = "nextAddr (h_mem s)"
  let ?dp = "?hp + 1"
  let ?d0 = "zero_device\<lparr>d_session := Some sp, d_devHandle := Some ?hp\<rparr>"
  let ?s3 = "put_handle ?hp (zero_handle\<lparr>dh_dev := Some ?dp\<rparr>) (put_dev ?dp ?d0
     (s\<lparr>h_mem := (h_mem s)\<lparr>nextAddr := ?hp + 2, live := insert ?dp (insert ?hp (live (h_mem s)))\<rparr>\<rparr>))"
  have os: "\<not> g_usbRamTestFlag (h_mem s)" "\<forall>i n. k_alloc K i n" "mem_ok (h_mem s)" using assms(1) by (simp_all add: roomy_def)
  have room3: "roomy K ?s3" using os by (auto simp: roomy_def mem_ok_def)
  have 1: "OsGetDeviceHandle (Some sp) bus addr s = Some (None, s)"
    using assms(2,4) dev_search_not_open by (auto simp: OsGetDeviceHandle_def not_open_def)
  have 2: "OsCallocDeviceHandle K s = Some (Some ?hp, put_handle ?hp zero_handle
      (s\<lparr>h_mem := (h_mem s)\<lparr>nextAddr := ?hp + 1, live := insert ?hp (live (h_mem s))\<rparr>\<rparr>))" (is "_ = Some (_, ?s2)")
    using os by (simp add: OsCallocDeviceHandle_def halloc_off)
  have 3: "OsAllocDevice K (Some sp) ?hp ?s2 = Some (Some ?dp, ?s3)"
    using os by (simp add: OsAllocDevice_def halloc_off)
  have pre: "device_file K bus addr f content pos (h_kern ?s3)" "h_devs ?s3 ?dp = Some ?d0"
    "h_handles ?s3 ?hp = Some (zero_handle\<lparr>dh_dev := Some ?dp\<rparr>)" "?hp + 2 = nextAddr (h_mem ?s3)"
    "?dp < ?hp + 2" "?hp < ?hp + 2"
    using assms(5) by simp_all
  obtain r s4 d where r: "OsInitDevice K ?dp bus addr ?s3 = Some (r, s4)" "h_devs s4 ?dp = Some d"
    "r = HDF_SUCCESS \<longrightarrow> device_ok sp ?hp bus addr content d" "splits content \<longrightarrow> r = HDF_SUCCESS"
    "live (h_mem s4) = live (h_mem ?s3) \<union> device_blocks d" "device_blocks d \<subseteq> {?hp + 2..}"
    "\<exists>c. h_handles s4 ?hp = Some (zero_handle\<lparr>dh_dev := Some ?dp\<rparr>\<lparr>fd := f, caps := c\<rparr>)"
    "\<not> g_usbRamTestFlag (h_mem s4)" "mem_ok (h_mem s4)"
    "\<forall>q < ?hp + 2. h_sessions s4 q = h_sessions ?s3 q"
    using init_device_run[OF room3 pre] by (elim exE conjE) (rule that, assumption+, blast+)
  have sess: "h_sessions s4 sp = Some ss" using r(10) assms(2,3) by simp
  have ne: "?hp \<noteq> ?dp" "sp \<noteq> ?hp" "sp \<noteq> ?dp" using assms(3) by auto
  show ?thesis
  proof (cases "r = HDF_SUCCESS")
    case True
    then have "AdapterOpenDevice K (Some sp) bus addr s = Some (Some ?hp,
       put_session sp (ss\<lparr>usbDevs := ?dp # usbDevs ss\<rparr>) (put_dev ?dp (d\<lparr>d_refcnt := 1\<rparr>) s4))"
      (is "_ = Some (_, ?s5)")
      using 1 2 3 r(1,2) sess by (simp add: AdapterOpenDevice_def)
    moreover have "opened sp ss bus addr f content ?hp s ?s5"
      unfolding opened_def
      using True r(3,5-7) ne by (intro exI[of _ ?dp]) (auto simp: device_ok_def device_blocks_def zero_handle_def)
    ultimately show ?thesis using r(8,9) os by (auto simp: roomy_def)
  next
    case False
    have "?dp \<in> live (h_mem s4)" "?hp \<in> live (h_mem s4)" using r(5) by auto
    then have "\<exists>s6. AdapterOpenDevice K (Some sp) bus addr s = Some (None, s6) \<and>
        h_sessions s6 sp = Some ss \<and> roomy K s6"
      using 1 2 3 r(1,8,9) sess False os ne
      by (auto simp: AdapterOpenDevice_def hfree_off roomy_def mem_ok_def)
    then show ?thesis using False r(4) by fastforce
  qed
qed

subsection \<open>Closing a device\<close>

lemma close_shared:
  assumes "h_handles s hp = Some h" "dh_dev h = Some dp" "h_devs s dp = Some d" "1 < d_refcnt d"
  shows "AdapterCloseDevice K (Some hp) s = Some (put_dev dp (d\<lparr>d_refcnt := d_refcnt d - 1\<rparr>) s)"
  using assms by (simp add: AdapterCloseDevice_def Let_def)

lemma close_final:
  assumes "roomy K s1" "opened sp ss bus addr f content hp s s1" "mem_ok (h_mem s)" "sp < nextAddr (h_mem s)"
  shows "\<exists>s2. AdapterCloseDevice K (Some hp) s1 = Some s2 \<and> live (h_mem s2) = live (h_mem s) \<and>
    h_sessions s2 sp = Some ss \<and> h_kern s2 = k_close K f (h_kern s1)"
proof -
  obtain dp h d where o: "h_handles s1 hp = Some h" "dh_dev h = Some dp" "fd h = f" "h_devs s1 dp = Some d"
    "d_refcnt d = 1" "device_ok sp hp bus addr content d" "h_sessions s1 sp = Some (ss\<lparr>usbDevs := dp # usbDevs ss\<rparr>)"
    "live (h_mem s1) = live (h_mem s) \<union> {hp, dp} \<union> device_blocks d" "hp \<noteq> dp"
    "{hp, dp} \<union> device_blocks d \<subseteq> {nextAddr (h_mem s)..}" "{hp, dp} \<inter> device_blocks d = {}"
    using assms(2) by (auto simp: opened_def)
  obtain a bs where a: "d_descriptors d = Some (a, bs)" "map_option fst (d_configDescriptors d) \<noteq> Some a" "d_session d = Some sp"
    using o(6) by (auto simp: device_ok_def)
  have off: "\<not> g_usbRamTestFlag (h_mem s1)" using assms(1) by (simp add: roomy_def)
  have old: "live (h_mem s) \<subseteq> {..<nextAddr (h_mem s)}" using assms(3) by (auto simp: mem_ok_def)
  have ss: "remove1 dp (dp # usbDevs ss) = usbDevs ss" by simp
  have spne: "sp \<noteq> hp" "sp \<noteq> dp" "sp \<noteq> a" using assms(4) o(10) a(1) by (auto simp: device_blocks_def)
  show ?thesis
  proof (cases "d_configDescriptors d")
    case None
    then have "live (h_mem s1) = live (h_mem s) \<union> {hp, dp, a}" "a \<noteq> hp" "a \<noteq> dp"
      using o(8,11) a(1) by (auto simp: device_blocks_def)
    moreover have "(live (h_mem s) \<union> {hp, dp, a}) - {a} - {dp} - {hp} = live (h_mem s)"
      using old o(10) a(1) by (auto simp: device_blocks_def)
    ultimately show ?thesis
      using o(1-5,7,9) a(1,3) None off spne
      by (simp add: AdapterCloseDevice_def Let_def hfree_null hfree_off)
  next
    case (Some x)
    then obtain ca cs where x: "d_configDescriptors d = Some (ca, cs)" by (cases x) auto
    have ne: "ca \<noteq> a" "ca \<noteq> hp" "ca \<noteq> dp" "a \<noteq> hp" "a \<noteq> dp" "sp \<noteq> ca"
      using a(1,2) x o(10,11) assms(4) by (auto simp: device_blocks_def)
    have "live (h_mem s1) = live (h_mem s) \<union> {hp, dp, a, ca}"
      using o(8) a(1) x by (auto simp: device_blocks_def)
    moreover have "(live (h_mem s) \<union> {hp, dp, a, ca}) - {ca} - {a} - {dp} - {hp} = live (h_mem s)"
      using old o(10) a(1) x by (auto simp: device_blocks_def)
    ultimately show ?thesis
      using o(1-5,7,9) a(1,3) x off spne ne
      by (simp add: AdapterCloseDevice_def Let_def hfree_off)
  qed
qed

subsection \<open>Properties\<close>

text \<open>
  C5. Opening a device is safe for every descriptor file: whatever bytes the device presents (and
  however many), \<open>AdapterOpenDevice\<close> returns, without an access outside a buffer.  Either the result is
  a null handle and the list of devices is unchanged, or the new device is in the list with reference count 1, holds the
  whole file, and its configurations are consecutive slices of the file, each with the configuration type, at
  least 9 bytes, and a length that is the smaller of its total length and what is left of the file.
\<close>

theorem AdapterOpenDevice_any_file:
  assumes "roomy K s" "h_sessions s sp = Some ss" "sp < nextAddr (h_mem s)" "not_open bus addr ss s"
    and "device_file K bus addr f content pos (h_kern s)"
  shows "\<exists>q s'. AdapterOpenDevice K (Some sp) bus addr s = Some (q, s') \<and>
    (case q of None \<Rightarrow> h_sessions s' sp = Some ss | Some hp \<Rightarrow> opened sp ss bus addr f content hp s s')"
  using open_device_run[OF assms] by blast

text \<open>A kernel with one device file; its state is the file position.\<close>

definition file_os :: "u8 list \<Rightarrow> nat os_env" where
  "file_os content = null_os\<lparr>k_open := (\<lambda>b a k. (Inr 3, 0)), k_close := (\<lambda>f k. 77),
     k_read := (\<lambda>f n k. (Inr (take n (drop k content)), k + length (take n (drop k content))))\<rparr>"

definition file_host :: "nat host" where
  "file_host = put_session 1 \<lparr>usbDevs = [], ifacePoolList = [], s_refCount = 1\<rparr> (null_host 0)"

lemma file_example:
  "roomy (file_os content) file_host" "h_sessions file_host 1 = Some \<lparr>usbDevs = [], ifacePoolList = [], s_refCount = 1\<rparr>"
  "1 < nextAddr (h_mem file_host)" "not_open bus addr \<lparr>usbDevs = [], ifacePoolList = [], s_refCount = 1\<rparr> file_host"
  "mem_ok (h_mem file_host)"
  "length content < 2 ^ 64 \<Longrightarrow> device_file (file_os content) bus addr 3 content (\<lambda>k. k) (h_kern file_host)"
  by (simp_all add: file_os_def file_host_def null_host_def null_os_def roomy_def mem_ok_def not_open_def
      device_file_def reads_file_def)

theorem AdapterOpenDevice_any_file_witness:
  "\<exists>q s'. AdapterOpenDevice (file_os [18, 1, 0, 2]) (Some 1) 1 2 file_host = Some (q, s') \<and>
    (case q of None \<Rightarrow> h_sessions s' 1 = Some \<lparr>usbDevs = [], ifacePoolList = [], s_refCount = 1\<rparr>
     | Some hp \<Rightarrow> opened 1 \<lparr>usbDevs = [], ifacePoolList = [], s_refCount = 1\<rparr> 1 2 3 [18, 1, 0, 2] hp file_host s')"
  by (rule AdapterOpenDevice_any_file[OF file_example(1-4) file_example(6)]) simp

text \<open>
  C13. Device handles are shared and counted: a second open of the same bus and address gives the same
  handle and allocates nothing, the first close keeps the device open, and the last close closes the file,
  takes the device off the list and releases all that the first open had allocated.
\<close>

theorem AdapterOpenDevice_close_balance:
  assumes "roomy K s" "h_sessions s sp = Some ss" "sp < nextAddr (h_mem s)" "not_open bus addr ss s"
    and "device_file K bus addr f content pos (h_kern s)"
    and "AdapterOpenDevice K (Some sp) bus addr s = Some (Some hp, s1)"
  shows "\<exists>s2 s3 s4. AdapterOpenDevice K (Some sp) bus addr s1 = Some (Some hp, s2) \<and>
    live (h_mem s2) = live (h_mem s1) \<and>
    AdapterCloseDevice K (Some hp) s2 = Some s3 \<and> opened sp ss bus addr f content hp s s3 \<and>
    AdapterCloseDevice K (Some hp) s3 = Some s4 \<and> live (h_mem s4) = live (h_mem s) \<and>
    h_sessions s4 sp = Some ss \<and> h_kern s4 = k_close K f (h_kern s3)"
proof -
  have o: "opened sp ss bus addr f content hp s s1" and r1: "roomy K s1"
    using open_device_run[OF assms(1-5)] assms(6) by auto
  obtain dp d s2 where s2: "AdapterOpenDevice K (Some sp) bus addr s1 = Some (Some hp, s2)"
    "h_devs s1 dp = Some d" "d_refcnt d = 1" "s2 = put_dev dp (d\<lparr>d_refcnt := 2\<rparr>) s1"
    "\<exists>h. h_handles s1 hp = Some h \<and> dh_dev h = Some dp"
  proof -
    obtain dp h d where x: "h_handles s1 hp = Some h" "dh_dev h = Some dp" "h_devs s1 dp = Some d" "d_refcnt d = 1"
      "device_ok sp hp bus addr content d" "h_sessions s1 sp = Some (ss\<lparr>usbDevs := dp # usbDevs ss\<rparr>)"
      using o by (auto simp: opened_def)
    then have "AdapterOpenDevice K (Some sp) bus addr s1 = Some (Some hp, put_dev dp (d\<lparr>d_refcnt := 2\<rparr>) s1)"
      by (simp add: AdapterOpenDevice_def OsGetDeviceHandle_def OsDeviceCompare_iff device_ok_def)
    with x that show thesis by blast
  qed
  obtain h where h: "h_handles s1 hp = Some h" "dh_dev h = Some dp" using s2(5) by blast
  have "AdapterCloseDevice K (Some hp) s2 = Some (put_dev dp (d\<lparr>d_refcnt := 2, d_refcnt := 2 - 1\<rparr>) s2)"
    using close_shared[of s2 hp h dp "d\<lparr>d_refcnt := 2\<rparr>" K] h s2(4) by simp
  moreover have "put_dev dp (d\<lparr>d_refcnt := 2, d_refcnt := 2 - 1\<rparr>) s2 = s1"
    using s2(2-4) by (cases d) (simp add: fun_upd_idem)
  ultimately show ?thesis
    using s2(1,4) o close_final[OF r1 o _ assms(3)] assms(1) by (auto simp: roomy_def)
qed

theorem AdapterOpenDevice_close_balance_witness:
  "\<exists>hp s1 s2 s3 s4. AdapterOpenDevice (file_os []) (Some 1) 1 2 file_host = Some (Some hp, s1) \<and>
    AdapterOpenDevice (file_os []) (Some 1) 1 2 s1 = Some (Some hp, s2) \<and> live (h_mem s2) = live (h_mem s1) \<and>
    AdapterCloseDevice (file_os []) (Some hp) s2 = Some s3 \<and>
    AdapterCloseDevice (file_os []) (Some hp) s3 = Some s4 \<and> live (h_mem s4) = {} \<and> h_kern s4 = 77"
proof -
  have "splits []" by (auto simp: splits_def file_image_def)
  moreover have df: "device_file (file_os []) 1 2 3 [] (\<lambda>k. k) (h_kern file_host)"
    by (rule file_example(6)) simp
  ultimately obtain hp s1 where o: "AdapterOpenDevice (file_os []) (Some 1) 1 2 file_host = Some (Some hp, s1)"
    using open_device_run[OF file_example(1-4) df] by fastforce
  have "live (h_mem file_host) = {}" "\<And>f k. k_close (file_os []) f k = 77"
    by (simp_all add: file_host_def null_host_def file_os_def)
  then show ?thesis
    using AdapterOpenDevice_close_balance[OF file_example(1-4) df o] o by auto
qed

end
