(* ===== verification/Usb_Device_Config.thy ===== *)
theory Usb_Device_Config
  imports Usb_Device_Desc
begin

text \<open>
  Configurations of an opened device by their value: \<open>AdapterGetConfigDescriptor\<close> and
  \<open>RawGetConfigDescriptor\<close>, for devices with arbitrary descriptor files and for devices whose files
  encode well-formed configurations.
\<close>

subsection \<open>Searching a configuration\<close>

definition slice_ok :: "u8 list \<Rightarrow> UsbDeviceConfigDescriptor \<Rightarrow> bool" where
  "slice_ok bs c \<longleftrightarrow> (case cd_desc c of None \<Rightarrow> False
     | Some off \<Rightarrow> 9 \<le> cd_actualLen c \<and> off + cd_actualLen c \<le> length bs)"

definition slice_value :: "u8 list \<Rightarrow> UsbDeviceConfigDescriptor \<Rightarrow> u8" where
  "slice_value bs c = bs ! (the (cd_desc c) + 5)"

lemma tiles_slices: "tiles bs off lim cs \<Longrightarrow> lim \<le> length bs \<Longrightarrow> list_all (slice_ok bs) cs"
  by (induction cs arbitrary: off) (auto simp: slice_ok_def)

lemma config_search_slices:
  "list_all (slice_ok bs) cs \<Longrightarrow> i + n = length cs \<Longrightarrow>
   config_search bs cs v n i = Some (map_option ((+) i) (find_index (\<lambda>c. slice_value bs c = v) (drop i cs)))"
proof (induction n arbitrary: i)
  case 0
  then show ?case by simp
next
  case (Suc n)
  then have i: "i < length cs" by simp
  then have "slice_ok bs (cs ! i)" using Suc.prems(1) by (simp add: list_all_length)
  then obtain off where off: "cd_desc (cs ! i) = Some off" "off + 5 < length bs"
    by (auto simp: slice_ok_def split: option.splits)
  have dr: "drop i cs = cs ! i # drop (Suc i) cs" using i by (simp add: Cons_nth_drop_Suc)
  show ?case
    using off i Suc.IH[of "Suc i"] Suc.prems
    by (auto simp: dr rd8_def slice_value_def option.map_comp o_def)
qed

lemma file_image_nth: "file_image content bs \<Longrightarrow> i < length content \<Longrightarrow> bs ! i = content ! i"
  by (auto simp: file_image_def nth_append)

text \<open>The slices of an opened device, as many as its descriptor says.\<close>

lemma device_slices:
  assumes "device_ok sp hp bus addr content d" "d_bNumConfigurations d \<noteq> 0"
  obtains a bs ca cs where "d_descriptors d = Some (a, bs)" "d_configDescriptors d = Some (ca, cs)"
    "length cs = unat (d_bNumConfigurations d)" "list_all (slice_ok bs) cs" "file_image content bs"
    "tiles bs 18 (length content) cs"
proof -
  obtain a bs where b: "d_descriptors d = Some (a, bs)" "file_image content bs" "d_deviceDescriptor d = take 18 bs"
    "split_ok content bs (d_configDescriptors d)"
    using assms(1) by (auto simp: device_ok_def)
  have n: "d_bNumConfigurations d = bs ! 17" using b(3) by simp
  then obtain ca cs where c: "d_configDescriptors d = Some (ca, cs)" "length cs = unat (bs ! 17)"
    "tiles bs 18 (length content) cs"
    using b(4) assms(2) by (auto simp: split_ok_def split: option.splits)
  have "list_all (slice_ok bs) cs" using tiles_slices[OF c(3)] file_image_length[OF b(2)] by simp
  with b c n show thesis by (intro that) auto
qed

text \<open>The specification: the first slice with the value, cut to the buffer.\<close>

definition config_result ::
  "UsbDevice \<Rightarrow> u8 list \<Rightarrow> UsbDeviceConfigDescriptor list \<Rightarrow> u8 \<Rightarrow> u8 list \<Rightarrow> nat \<Rightarrow> ret \<times> u8 list" where
  "config_result d bs cs v buffer len =
     (if v > d_bNumConfigurations d then (RetErr HDF_ERR_INVALID_PARAM, buffer)
      else if d_bNumConfigurations d = 0 then (RetErr HDF_ERR_BAD_FD, buffer)
      else case find_index (\<lambda>c. slice_value bs c = v) cs of
        None \<Rightarrow> (RetErr HDF_ERR_BAD_FD, buffer)
      | Some i \<Rightarrow> let n = min len (cd_actualLen (cs ! i)) in
          (RetVal (int n), take n (drop (the (cd_desc (cs ! i))) bs) @ drop n buffer))"

lemma get_config_run:
  assumes "h_devs s dp = Some d" "device_ok sp hp bus addr content d" "len \<le> length buffer"
    and "d_descriptors d = Some (a, bs)" "cs = (case d_configDescriptors d of None \<Rightarrow> [] | Some (ca, cs) \<Rightarrow> cs)"
  shows "AdapterGetConfigDescriptor (Some dp) v buffer len s = Some (config_result d bs cs v buffer len)"
proof (cases "v > d_bNumConfigurations d \<or> d_bNumConfigurations d = 0")
  case True
  then show ?thesis using assms(1) by (auto simp: AdapterGetConfigDescriptor_def config_result_def)
next
  case False
  then have "d_bNumConfigurations d \<noteq> 0" by simp
  then obtain ca where c: "d_configDescriptors d = Some (ca, cs)"
    "length cs = unat (d_bNumConfigurations d)" "list_all (slice_ok bs) cs"
    using assms(4,5) by (elim device_slices[OF assms(2)]) auto
  have srch: "config_search bs cs v (unat (d_bNumConfigurations d)) 0 =
      Some (find_index (\<lambda>c. slice_value bs c = v) cs)"
    using config_search_slices[OF c(3), of 0 "unat (d_bNumConfigurations d)" v] c(2)
    by (cases "find_index (\<lambda>c. slice_value bs c = v) cs") simp_all
  show ?thesis
  proof (cases "find_index (\<lambda>c. slice_value bs c = v) cs")
    case None
    then show ?thesis
      using False assms(1,4) c(1) srch by (simp add: AdapterGetConfigDescriptor_def config_result_def)
  next
    case (Some i)
    then have "slice_ok bs (cs ! i)" using c(3) by (auto simp: find_index_Some list_all_length)
    then obtain off where off: "cd_desc (cs ! i) = Some off" "off + cd_actualLen (cs ! i) \<le> length bs"
      by (auto simp: slice_ok_def split: option.splits)
    let ?n = "min len (cd_actualLen (cs ! i))"
    have "memcpy_s buffer 0 ?n (drop off bs) ?n = Some (True, take ?n (drop off bs) @ drop ?n buffer)"
      using off(2) assms(3) by (auto simp: memcpy_s_def rdn_def wrn_def)
    then show ?thesis
      using False assms(1,4) c(1) srch Some off(1)
      by (simp add: AdapterGetConfigDescriptor_def config_result_def Let_def)
  qed
qed

subsection \<open>Devices with well-formed configurations\<close>

definition wire_conf :: "conf_wire \<Rightarrow> bool" where
  "wire_conf c \<longleftrightarrow> wf_conf c \<and> length (conf_bytes c) < 65536 \<and>
     c_wTotalLength (cw_desc c) = of_nat (length (conf_bytes c))"

definition wire_device :: "u8 list \<Rightarrow> conf_wire list \<Rightarrow> bool" where
  "wire_device dd cs \<longleftrightarrow> length dd = 18 \<and> dd ! 17 = of_nat (length cs) \<and> length cs < 256 \<and> list_all wire_conf cs"

definition device_bytes :: "u8 list \<Rightarrow> conf_wire list \<Rightarrow> u8 list" where
  "device_bytes dd cs = dd @ concat (map conf_bytes cs)"

fun slices :: "nat \<Rightarrow> conf_wire list \<Rightarrow> UsbDeviceConfigDescriptor list" where
  "slices off [] = []"
| "slices off (c # cs) = \<lparr>cd_desc = Some off, cd_actualLen = length (conf_bytes c)\<rparr> #
     slices (off + length (conf_bytes c)) cs"

lemma slices_length [simp]: "length (slices off cs) = length cs"
  by (induction cs arbitrary: off) auto

lemma conf_bytes_head:
  assumes "at bs off (conf_bytes c @ rest)"
  shows "rd8 bs off = Some (c_bLength (cw_desc c))" "rd8 bs (off + 1) = Some (c_bDescriptorType (cw_desc c))"
    "rd8 bs (off + 2) = Some (of_nat (unat (c_wTotalLength (cw_desc c)) mod 256))"
    "rd8 bs (off + 3) = Some (of_nat (unat (c_wTotalLength (cw_desc c)) div 256))"
    "rd8 bs (off + 5) = Some (c_bConfigurationValue (cw_desc c))"
proof -
  let ?d = "config_bytes (cw_desc c)"
  have a: "at bs off (?d @ (concat (cw_extra c) @ concat (map alt_bytes (cw_alts c)) @ rest))"
    using assms by (simp add: conf_bytes_def)
  have "length ?d = 9" by simp
  with a at_rd8_app0[OF a] show "rd8 bs off = Some (c_bLength (cw_desc c))"
    by (simp add: config_bytes_def)
  show "rd8 bs (off + 1) = Some (c_bDescriptorType (cw_desc c))"
    "rd8 bs (off + 2) = Some (of_nat (unat (c_wTotalLength (cw_desc c)) mod 256))"
    "rd8 bs (off + 3) = Some (of_nat (unat (c_wTotalLength (cw_desc c)) div 256))"
    "rd8 bs (off + 5) = Some (c_bConfigurationValue (cw_desc c))"
    using at_rd8_app[OF a, of 1] at_rd8_app[OF a, of 2] at_rd8_app[OF a, of 3] at_rd8_app[OF a, of 5]
    by (simp_all add: config_bytes_def le16_bytes_def)
qed

lemma parse_config_wire:
  "at bs off (concat (map conf_bytes cs) @ rest) \<Longrightarrow> list_all wire_conf cs \<Longrightarrow>
   unat dl = length (concat (map conf_bytes cs)) \<Longrightarrow> length xs = i + length cs \<Longrightarrow>
   parse_config_loop bs (length cs) i off dl xs = Some (HDF_SUCCESS, take i xs @ slices off cs)"
proof (induction cs arbitrary: off dl xs i)
  case Nil
  then show ?case by simp
next
  case (Cons c cs)
  let ?L = "length (conf_bytes c)"
  let ?t = "c_wTotalLength (cw_desc c)"
  have a: "at bs off (conf_bytes c @ (concat (map conf_bytes cs) @ rest))" using Cons.prems(1) by simp
  have c: "wf_conf c" "?L < 65536" "?t = of_nat ?L" using Cons.prems(2) by (simp_all add: wire_conf_def)
  have t: "unat ?t = ?L" using c(2,3) by (simp only:) (rule unat_of_nat_small, simp)
  have le: "le16 (of_nat (?L mod 256)) (of_nat (?L div 256)) = ?t" using le16_roundtrip[of ?t] t by simp
  have L: "9 \<le> ?L" by (simp add: conf_bytes_def)
  have dl: "?L \<le> unat dl" "unat dl - ?L = length (concat (map conf_bytes cs))" using Cons.prems(3) by simp_all
  have n: "\<not> ucast ?t > dl"
  proof -
    have "unat (ucast ?t :: u64) = ?L" using c(2) t by (simp only: ucast_of_nat_unat) (rule unat_of_nat_small, simp)
    then show ?thesis using dl(1) by (simp add: word_less_nat_alt)
  qed
  have d2: "unat (dl - ucast ?t) = length (concat (map conf_bytes cs))"
    using config_len(2)[where tot = ?t and d = dl] n t dl(2) by simp
  have "\<not> dl < 9" using L dl(1) by (simp add: word_less_nat_alt)
  moreover have "c_bDescriptorType (cw_desc c) = 2" "c_bLength (cw_desc c) = 9" using c(1) by (simp_all add: wf_conf_def)
  ultimately have "parse_config_loop bs (Suc (length cs)) i off dl xs =
      parse_config_loop bs (length cs) (Suc i) (off + ?L) (dl - ucast ?t)
        (xs[i := \<lparr>cd_desc = Some off, cd_actualLen = ?L\<rparr>])"
    using conf_bytes_head[OF a] n t L Cons.prems(4) le by (simp add: Let_def)
  also have "\<dots> = Some (HDF_SUCCESS, take (Suc i) (xs[i := \<lparr>cd_desc = Some off, cd_actualLen = ?L\<rparr>]) @ slices (off + ?L) cs)"
    by (rule Cons.IH) (use at_advance[OF a] Cons.prems(2,4) d2 in simp_all)
  also have "take (Suc i) (xs[i := \<lparr>cd_desc = Some off, cd_actualLen = ?L\<rparr>]) =
      take i xs @ [\<lparr>cd_desc = Some off, cd_actualLen = ?L\<rparr>]"
    using Cons.prems(4) by (simp add: take_Suc_conv_app_nth)
  finally show ?case by simp
qed

lemma slices_nth:
  "at bs off (concat (map conf_bytes cs) @ rest) \<Longrightarrow> j < length cs \<Longrightarrow>
   \<exists>o' r'. slices off cs ! j = \<lparr>cd_desc = Some o', cd_actualLen = length (conf_bytes (cs ! j))\<rparr> \<and>
     at bs o' (conf_bytes (cs ! j) @ r')"
proof (induction cs arbitrary: off j)
  case (Cons c cs)
  have a: "at bs off (conf_bytes c @ (concat (map conf_bytes cs) @ rest))" using Cons.prems(1) by simp
  show ?case
  proof (cases j)
    case 0
    then show ?thesis using a by auto
  next
    case (Suc k)
    then show ?thesis using Cons.IH[OF at_advance[OF a], of k] Cons.prems(2) by simp
  qed
qed simp

lemma slices_value:
  assumes "at bs off (concat (map conf_bytes cs) @ rest)" "j < length cs"
  shows "slice_value bs (slices off cs ! j) = c_bConfigurationValue (cw_desc (cs ! j))"
proof -
  obtain o' r' where o: "slices off cs ! j = \<lparr>cd_desc = Some o', cd_actualLen = length (conf_bytes (cs ! j))\<rparr>"
    "at bs o' (conf_bytes (cs ! j) @ r')"
    using slices_nth[OF assms] by blast
  show ?thesis using conf_bytes_head(5)[OF o(2)] o(1) by (simp add: slice_value_def rd8_Some)
qed

lemma slices_find:
  assumes "at bs off (concat (map conf_bytes cs) @ rest)" "j < length cs"
    and "distinct (map (\<lambda>c. c_bConfigurationValue (cw_desc c)) cs)"
  shows "find_index (\<lambda>c. slice_value bs c = c_bConfigurationValue (cw_desc (cs ! j))) (slices off cs) = Some j"
  unfolding find_index_Some
  using assms by (auto simp: slices_value distinct_conv_nth)

text \<open>The image of a well-formed device file.\<close>

lemma wire_image:
  assumes "wire_device dd cs" "file_image (device_bytes dd cs) bs"
  shows "\<exists>rest. at bs 18 (concat (map conf_bytes cs) @ rest)" "bs ! 17 = of_nat (length cs)"
proof -
  obtain pad where b: "bs = (dd @ concat (map conf_bytes cs)) @ replicate pad 0"
    using assms(2) by (auto simp: file_image_def device_bytes_def)
  have "length dd = 18" "dd ! 17 = of_nat (length cs)" using assms(1) by (simp_all add: wire_device_def)
  then show "\<exists>rest. at bs 18 (concat (map conf_bytes cs) @ rest)" "bs ! 17 = of_nat (length cs)"
    by (auto simp: b at_def nth_append)
qed

lemma wire_num:
  assumes "wire_device dd cs"
  shows "unat (of_nat (length cs) :: u8) = length cs"
  using assms by (intro unat_of_nat_small) (simp add: wire_device_def)

lemma wire_dl:
  assumes "wire_device dd cs" "length (device_bytes dd cs) < 2 ^ 64"
  shows "unat (of_nat (length (device_bytes dd cs)) - of_nat 18 :: u64) = length (concat (map conf_bytes cs))"
proof -
  have "length (device_bytes dd cs) = 18 + length (concat (map conf_bytes cs))"
    using assms(1) by (simp add: device_bytes_def wire_device_def)
  then have "(of_nat (length (device_bytes dd cs)) - of_nat 18 :: u64) = of_nat (length (concat (map conf_bytes cs)))"
    by (simp only: of_nat_add add_diff_cancel_left')
  also have "unat \<dots> = length (concat (map conf_bytes cs))"
    using assms by (intro unat_of_nat_small) (simp add: device_bytes_def wire_device_def)
  finally show ?thesis .
qed

lemma wire_parse:
  assumes "wire_device dd cs" "length (device_bytes dd cs) < 2 ^ 64" "file_image (device_bytes dd cs) bs"
  shows "parse_config_loop bs (unat (bs ! 17)) 0 18 (of_nat (length (device_bytes dd cs)) - of_nat 18)
      (replicate (unat (bs ! 17)) \<lparr>cd_desc = None, cd_actualLen = 0\<rparr>) = Some (HDF_SUCCESS, slices 18 cs)"
proof -
  obtain rest where a: "at bs 18 (concat (map conf_bytes cs) @ rest)" using wire_image(1)[OF assms(1,3)] by blast
  have n: "unat (bs ! 17) = length cs" using wire_image(2)[OF assms(1,3)] wire_num[OF assms(1)] by simp
  have w: "list_all wire_conf cs" using assms(1) by (simp add: wire_device_def)
  show ?thesis
    using parse_config_wire[OF a w wire_dl[OF assms(1,2)], of "replicate (length cs) \<lparr>cd_desc = None, cd_actualLen = 0\<rparr>" 0] n
    by simp
qed

lemma wire_splits:
  assumes "wire_device dd cs" "length (device_bytes dd cs) < 2 ^ 64"
  shows "splits (device_bytes dd cs)"
  unfolding splits_def using wire_parse[OF assms] by blast

lemma tiles_wire:
  "at bs off (concat (map conf_bytes cs) @ rest) \<Longrightarrow> list_all wire_conf cs \<Longrightarrow>
   tiles bs off (off + length (concat (map conf_bytes cs))) xs \<Longrightarrow> length xs = length cs \<Longrightarrow> xs = slices off cs"
proof (induction cs arbitrary: off xs)
  case (Cons c cs)
  let ?L = "length (conf_bytes c)"
  let ?t = "c_wTotalLength (cw_desc c)"
  have a: "at bs off (conf_bytes c @ (concat (map conf_bytes cs) @ rest))" using Cons.prems(1) by simp
  have c: "?L < 65536" "?t = of_nat ?L" using Cons.prems(2) by (simp_all add: wire_conf_def)
  have t: "unat ?t = ?L" using c by (simp only:) (rule unat_of_nat_small, simp)
  obtain x ys where xs: "xs = x # ys" using Cons.prems(4) by (cases xs) auto
  have "le16 (bs ! (off + 2)) (bs ! (off + 3)) = ?t"
    using conf_bytes_head(3,4)[OF a] le16_roundtrip[of ?t] by (simp add: rd8_Some)
  then have x: "cd_desc x = Some off" "cd_actualLen x = ?L"
    using Cons.prems(3) xs t by auto
  have "ys = slices (off + ?L) cs"
    by (rule Cons.IH) (use at_advance[OF a] Cons.prems(2-4) xs x(2) in \<open>simp_all add: add.assoc\<close>)
  then show ?case using xs x by (cases x) simp
qed simp

text \<open>The slices of an opened well-formed device.\<close>

lemma wire_device_slices:
  assumes "wire_device dd cs" "cs \<noteq> []" "device_ok sp hp bus addr (device_bytes dd cs) d"
  obtains a bs ca rest where "d_descriptors d = Some (a, bs)" "d_configDescriptors d = Some (ca, slices 18 cs)"
    "at bs 18 (concat (map conf_bytes cs) @ rest)" "d_bNumConfigurations d = of_nat (length cs)"
proof -
  obtain a bs where b: "d_descriptors d = Some (a, bs)" "file_image (device_bytes dd cs) bs" "d_deviceDescriptor d = take 18 bs"
    using assms(3) by (auto simp: device_ok_def)
  have n: "d_bNumConfigurations d = of_nat (length cs)" using b(3) wire_image(2)[OF assms(1) b(2)] by simp
  have nz: "d_bNumConfigurations d \<noteq> 0"
    unfolding n using assms(1,2) by (intro of_nat_small_nonzero) (auto simp: wire_device_def)
  obtain rest where r: "at bs 18 (concat (map conf_bytes cs) @ rest)" using wire_image(1)[OF assms(1) b(2)] by blast
  obtain ca xs where x: "d_configDescriptors d = Some (ca, xs)" "length xs = unat (d_bNumConfigurations d)"
    "tiles bs 18 (length (device_bytes dd cs)) xs"
    by (rule device_slices[OF assms(3) nz]) (use b(1) in auto)
  have len: "length (device_bytes dd cs) = 18 + length (concat (map conf_bytes cs))"
    using assms(1) by (simp add: device_bytes_def wire_device_def)
  have "xs = slices 18 cs"
    by (rule tiles_wire[OF r]) (use assms(1) x(2,3) len n wire_num[OF assms(1)] in \<open>simp_all add: wire_device_def\<close>)
  with b(1) x(1) r n that show thesis by blast
qed

lemma wire_get_config:
  assumes "wire_device dd cs" "device_ok sp hp bus addr (device_bytes dd cs) d" "h_devs s dp = Some d"
    and "j < length cs" "distinct (map (\<lambda>c. c_bConfigurationValue (cw_desc c)) cs)"
    and "v = c_bConfigurationValue (cw_desc (cs ! j))" "unat v \<le> length cs"
    and "len \<le> length buffer" "len \<le> length (conf_bytes (cs ! j))"
  shows "AdapterGetConfigDescriptor (Some dp) v buffer len s =
    Some (RetVal (int len), take len (conf_bytes (cs ! j)) @ drop len buffer)"
proof -
  have ne: "cs \<noteq> []" using assms(4) by auto
  obtain a bs ca rest where b: "d_descriptors d = Some (a, bs)" "d_configDescriptors d = Some (ca, slices 18 cs)"
    "at bs 18 (concat (map conf_bytes cs) @ rest)" "d_bNumConfigurations d = of_nat (length cs)"
    by (rule wire_device_slices[OF assms(1) ne assms(2)])
  have nz: "d_bNumConfigurations d \<noteq> 0"
    unfolding b(4) using assms(1) ne by (intro of_nat_small_nonzero) (auto simp: wire_device_def)
  have le: "\<not> v > d_bNumConfigurations d"
    using assms(7) wire_num[OF assms(1)] by (simp add: b(4) word_less_nat_alt)
  obtain o' r' where o: "slices 18 cs ! j = \<lparr>cd_desc = Some o', cd_actualLen = length (conf_bytes (cs ! j))\<rparr>"
    "at bs o' (conf_bytes (cs ! j) @ r')"
    using slices_nth[OF b(3) assms(4)] by blast
  have "find_index (\<lambda>c. slice_value bs c = v) (slices 18 cs) = Some j"
    unfolding assms(6) by (rule slices_find[OF b(3) assms(4,5)])
  then show ?thesis
    using get_config_run[OF assms(3,2,8) b(1), of "slices 18 cs" v] b(2) nz le o assms(9) at_drop[OF o(2)]
    by (simp add: config_result_def Let_def)
qed

lemma wire_raw_get_config:
  assumes "roomy K s" "wire_device dd cs" "device_ok sp hp bus addr (device_bytes dd cs) d" "h_devs s dp = Some d"
    and "j < length cs" "distinct (map (\<lambda>c. c_bConfigurationValue (cw_desc c)) cs)"
    and "v = c_bConfigurationValue (cw_desc (cs ! j))" "unat v \<le> length cs"
  shows "\<exists>a cfg s'. RawGetConfigDescriptor K (Some dp) v s = Some (HDF_SUCCESS, Some (a, cfg), s') \<and>
    conf_rel (cs ! j) cfg"
proof -
  let ?c = "cs ! j"
  let ?L = "length (conf_bytes ?c)"
  have c: "wf_conf ?c" "?L < 65536" "c_wTotalLength (cw_desc ?c) = of_nat ?L"
    using assms(2,5) by (auto simp: wire_device_def wire_conf_def list_all_length)
  have L: "9 \<le> ?L" by (simp add: conf_bytes_def)
  have ne: "cs \<noteq> []" using assms(5) by auto
  note get = wire_get_config[OF assms(2,3) _ assms(5,6,7,8)]
  have "take 9 (conf_bytes ?c) = config_bytes (cw_desc ?c)" by (simp add: conf_bytes_def)
  then have g1: "AdapterGetConfigDescriptor (Some dp) v (replicate 9 0) 9 s = Some (RetVal 9, config_bytes (cw_desc ?c))"
    using get[OF assms(4), of 9 "replicate 9 0"] L by simp
  have t: "unat (c_wTotalLength (config_of (config_bytes (cw_desc ?c)))) = ?L"
    using c(2,3) by (simp only: config_image) (rule unat_of_nat_small, simp)
  let ?a = "nextAddr (h_mem s)"
  let ?s1 = "s\<lparr>h_mem := (h_mem s)\<lparr>nextAddr := ?a + 1, live := insert ?a (live (h_mem s))\<rparr>\<rparr>"
  have al: "halloc K ?L s = Some (Some ?a, ?s1)" using assms(1) L by (subst halloc_off) (auto simp: roomy_def)
  have g2: "AdapterGetConfigDescriptor (Some dp) v (replicate ?L 0) ?L ?s1 = Some (RetVal (int ?L), conf_bytes ?c)"
    using get[of ?s1 dp ?L "replicate ?L 0"] assms(4) by simp
  have gd: "good (k_alloc K) (h_mem ?s1)" using assms(1) by (simp add: good_def roomy_def)
  obtain b cfg m' where p: "DescToConfig (k_alloc K) (conf_bytes ?c) (int ?L) (h_mem ?s1) =
      Some (RetVal 0, Some (b, cfg), m')" "conf_rel ?c cfg" "grows (h_mem ?s1) (b # conf_addrs cfg) m'"
    using DescToConfig_run[OF c(1) gd] by blast
  obtain bs where num: "d_bNumConfigurations d = of_nat (length cs)"
    by (rule wire_device_slices[OF assms(2) ne assms(3)]) auto
  have le: "\<not> v > d_bNumConfigurations d"
    using assms(8) wire_num[OF assms(2)] by (simp add: num word_less_nat_alt)
  have "\<exists>s3. hfree (Some ?a) (?s1\<lparr>h_mem := m'\<rparr>) = Some s3"
    using p(3) assms(1) by (subst hfree_off) (auto simp: grows_def roomy_def)
  then show ?thesis
    using assms(4) le g1 g2 t al p(1,2) L
    by (auto simp: RawGetConfigDescriptor_def GetConfigDescriptor_def Let_def)
qed

subsection \<open>Properties\<close>

text \<open>
  C14. The configuration of an opened device is found safely whatever its descriptor file holds:
  \<open>AdapterGetConfigDescriptor\<close> returns the first slice of the file with the requested configuration
  value, cut to the length of the buffer, and the documented error codes when the value exceeds the number of
  configurations, when there is none, or when no slice has the value.
\<close>

theorem AdapterGetConfigDescriptor_finds:
  assumes "h_devs s dp = Some d" "device_ok sp hp bus addr content d" "len \<le> length buffer"
  shows "\<exists>a bs cs. d_descriptors d = Some (a, bs) \<and> file_image content bs \<and>
    cs = (case d_configDescriptors d of None \<Rightarrow> [] | Some (ca, cs) \<Rightarrow> cs) \<and>
    AdapterGetConfigDescriptor (Some dp) v buffer len s = Some (config_result d bs cs v buffer len)"
proof -
  obtain a bs where "d_descriptors d = Some (a, bs)" "file_image content bs"
    using assms(2) by (auto simp: device_ok_def)
  then show ?thesis using get_config_run[OF assms] by blast
qed


definition conf_device :: conf_wire where
  "conf_device = conf_example\<lparr>cw_desc := config_of [9, 2, 51, 0, 2, 1, 0, 0x80, 50]\<rparr>"

definition dev_desc :: "u8 list" where
  "dev_desc = [18, 1, 0, 2, 0, 0, 0, 64, 1, 2, 3, 4, 0, 1, 1, 2, 3, 1]"

lemma conf_device_wire: "wire_device dev_desc [conf_device]" "length (device_bytes dev_desc [conf_device]) = 69"
    "c_bConfigurationValue (cw_desc conf_device) = 1"
proof -
  have len: "length (conf_bytes conf_device) = 51"
    by (simp add: conf_device_def conf_example_def wire_defs)
  moreover have "wf_conf conf_device"
    by (simp add: wf_conf_def wf_alt_def wf_ep_def wf_extra_def conf_nums_def conf_device_def conf_example_def wire_defs)
  moreover have "c_wTotalLength (cw_desc conf_device) = 51" by (simp add: conf_device_def wire_defs)
  ultimately show "wire_device dev_desc [conf_device]" "length (device_bytes dev_desc [conf_device]) = 69"
    by (simp_all add: wire_device_def wire_conf_def dev_desc_def device_bytes_def)
  show "c_bConfigurationValue (cw_desc conf_device) = 1" by (simp add: conf_device_def wire_defs)
qed

lemma conf_device_file: "device_file (file_os (device_bytes dev_desc [conf_device])) 1 2 3
    (device_bytes dev_desc [conf_device]) (\<lambda>k. k) (h_kern file_host)"
  by (rule file_example(6)) (simp add: conf_device_wire(2))


theorem AdapterGetConfigDescriptor_finds_witness:
  "\<exists>(s1 :: nat host) hp dp d a bs cs. h_devs s1 dp = Some d \<and>
    device_ok 1 hp 1 2 (device_bytes dev_desc [conf_device]) d \<and> d_descriptors d = Some (a, bs) \<and>
    AdapterGetConfigDescriptor (Some dp) 1 (replicate 9 0) 9 s1 = Some (config_result d bs cs 1 (replicate 9 0) 9)"
proof -
  let ?K = "file_os (device_bytes dev_desc [conf_device])"
  have "splits (device_bytes dev_desc [conf_device])"
    by (rule wire_splits[OF conf_device_wire(1)]) (simp add: conf_device_wire(2))
  then obtain hp s1 where o: "AdapterOpenDevice ?K (Some 1) 1 2 file_host = Some (Some hp, s1)"
    "opened 1 \<lparr>usbDevs = [], ifacePoolList = [], s_refCount = 1\<rparr> 1 2 3 (device_bytes dev_desc [conf_device]) hp file_host s1"
    using open_device_run[OF file_example(1-4) conf_device_file] by fastforce
  then obtain dp d where d: "h_devs s1 dp = Some d" "device_ok 1 hp 1 2 (device_bytes dev_desc [conf_device]) d"
    by (auto simp: opened_def)
  from AdapterGetConfigDescriptor_finds[OF d, of 9 "replicate 9 0" 1]
  obtain a bs cs where "d_descriptors d = Some (a, bs)"
    "AdapterGetConfigDescriptor (Some dp) 1 (replicate 9 0) 9 s1 = Some (config_result d bs cs 1 (replicate 9 0) 9)"
    by auto
  with d show ?thesis by blast
qed

text \<open>
  The limit on the value is real: values need not be numbered from 1, and a device with one configuration
  of value 2 is never given its configuration.
\<close>

lemma config_value_above_count:
  assumes "h_devs s dp = Some d" "d_bNumConfigurations d = 1"
  shows "AdapterGetConfigDescriptor (Some dp) 2 buffer len s = Some (RetErr HDF_ERR_INVALID_PARAM, buffer)"
    and "RawGetConfigDescriptor K (Some dp) 2 s = Some (RetErr HDF_ERR_BAD_FD, None, s)"
  using assms by (simp_all add: AdapterGetConfigDescriptor_def RawGetConfigDescriptor_def)

end
