(* ===== verification/Usb_Io.thy ===== *)
theory Usb_Io
  imports Usb_Requests Usb_Transfer
begin

text \<open>
  The I/O threads of an interface pool (\<open>usb/ddk/host/src/usb_io_manage.c\<close>): the sending thread takes
  requests off the queue of the pool and submits them, the receiving thread completes the URBs that the kernel hands
  back.  The steps of clients, threads and kernel interleave in any order.
\<close>

subsection \<open>The kernel's side\<close>

text \<open>
  \<open>kp k\<close> maps the address of every URB that the kernel holds to the length of its buffer.  What usbfs
  documents of submitting and reaping: an accepted URB is held until it is reaped, a refused
  one is not held, a reaped one was held and has at most as many bytes as its buffer; and, while the
  device stays connected, reaping fails only because nothing is finished.
\<close>

type_synonym 'k urb_view = "'k \<Rightarrow> ptr \<times> nat \<Rightarrow> int option"

definition usbfs_urbs :: "'k os_env \<Rightarrow> 'k urb_view \<Rightarrow> bool" where
  "usbfs_urbs K kp \<longleftrightarrow>
     (\<forall>f a u k e k'. k_submit K f a u k = (e, k') \<longrightarrow>
        kp k' = (if e = None then (kp k)(a \<mapsto> u_bufferLength u) else kp k)) \<and>
     (\<forall>f k e k'. k_reap K f k = (Inl e, k') \<longrightarrow> e = EAGAIN \<and> kp k' = kp k) \<and>
     (\<forall>f k x k'. k_reap K f k = (Inr x, k') \<longrightarrow> kp k' = (kp k)(rp_urb x := None) \<and>
        (\<exists>n. kp k (rp_urb x) = Some n \<and> int (length (rp_data x)) \<le> n \<and> 0 \<le> rp_actualLength x))"

lemma usbfs_submitD:
  assumes "usbfs_urbs K kp" "k_submit K f a u k = (e, k')"
  shows "kp k' = (if e = None then (kp k)(a \<mapsto> u_bufferLength u) else kp k)"
  using assms unfolding usbfs_urbs_def by blast

lemma usbfs_reap_errD:
  assumes "usbfs_urbs K kp" "k_reap K f k = (Inl e, k')"
  shows "e = EAGAIN \<and> kp k' = kp k"
  using assms unfolding usbfs_urbs_def by blast

lemma usbfs_reapD:
  assumes "usbfs_urbs K kp" "k_reap K f k = (Inr x, k')"
  shows "kp k' = (kp k)(rp_urb x := None) \<and>
    (\<exists>n. kp k (rp_urb x) = Some n \<and> int (length (rp_data x)) \<le> n \<and> 0 \<le> rp_actualLength x)"
  using assms unfolding usbfs_urbs_def by blast

subsection \<open>The objects of a pool\<close>

text \<open>The fixed objects: requests of clients with their host requests, URBs and callbacks, and the device.\<close>

record io_cfg =
  c_objs :: "ptr list"
  c_req :: "ptr \<Rightarrow> ptr"
  c_urb :: "ptr \<Rightarrow> ptr"
  c_cb :: "ptr \<Rightarrow> nat"
  c_pool :: ptr
  c_dev :: ptr
  c_handle :: ptr

definition cfg_ok :: "io_cfg \<Rightarrow> bool" where
  "cfg_ok c \<longleftrightarrow> inj_on (c_req c) (set (c_objs c)) \<and> inj_on (c_urb c) (set (c_objs c)) \<and>
     inj_on (c_cb c) (set (c_objs c))"

text \<open>A request that is filled for a bulk or interrupt transfer.\<close>

definition req_ok :: "io_cfg \<Rightarrow> ptr \<Rightarrow> UsbHostRequest \<Rightarrow> bool" where
  "req_ok c ob r \<longleftrightarrow> r_privateObj r = Some ob \<and> r_devHandle r = Some (c_handle c) \<and>
     r_bulkUrb r = Some (c_urb c ob) \<and> data_type r \<and> 0 < r_length r \<and> r_length r \<le> MAX_BULK_DATA_BUFFER_LENGTH \<and>
     unat (r_length r) \<le> length (r_buffer r) \<and> r_callback r = Some UsbIoSetRequestCompletionInfoFn \<and>
     r_userCallback r = Some (c_cb c ob)"

definition obj_ok :: "io_cfg \<Rightarrow> ptr \<Rightarrow> 'k host \<Rightarrow> bool" where
  "obj_ok c ob s \<longleftrightarrow> (\<exists>q r u. h_ifreqs s ob = Some q \<and> hostRequest q = Some (c_req c ob) \<and> \<not> isSyncReq q \<and>
     h_reqs s (c_req c ob) = Some r \<and> req_ok c ob r \<and> h_urbs s (c_urb c ob) = Some [u])"

definition pool_ok :: "io_cfg \<Rightarrow> 'k host \<Rightarrow> bool" where
  "pool_ok c s \<longleftrightarrow> (\<exists>pool d h. h_pools s (c_pool c) = Some pool \<and> ioProcessStopStatus pool = USB_POOL_PROCESS_RUNNING \<and>
     po_device pool = Some (c_dev c) \<and> h_devs s (c_dev c) = Some d \<and> d_devHandle d = Some (c_handle c) \<and>
     d_privateObject d = Some (c_pool c) \<and> h_handles s (c_handle c) = Some h \<and> dh_dev h = Some (c_dev c) \<and>
     queue_sem pool = length (submitRequestQueue pool) \<and> distinct (submitRequestQueue pool) \<and>
     set (submitRequestQueue pool) \<subseteq> c_req c ` set (c_objs c))"

subsection \<open>Where a request is\<close>

definition queue_of :: "io_cfg \<Rightarrow> 'k host \<Rightarrow> ptr list" where
  "queue_of c s = (case h_pools s (c_pool c) of None \<Rightarrow> [] | Some pool \<Rightarrow> submitRequestQueue pool)"

definition queued :: "io_cfg \<Rightarrow> ptr \<Rightarrow> 'k host \<Rightarrow> bool" where
  "queued c ob s \<longleftrightarrow> c_req c ob \<in> set (queue_of c s)"

definition inflight :: "io_cfg \<Rightarrow> 'k urb_view \<Rightarrow> ptr \<Rightarrow> 'k host \<Rightarrow> bool" where
  "inflight c kp ob s \<longleftrightarrow> kp (h_kern s) (c_urb c ob, 0) \<noteq> None"

text \<open>The callbacks that a client has seen.\<close>

definition is_callback :: "nat \<Rightarrow> event \<Rightarrow> bool" where
  "is_callback cb e \<longleftrightarrow> (case e of UserCallbackCalled n ci \<Rightarrow> n = cb | RawCallbackCalled n p \<Rightarrow> False)"

definition callbacks :: "io_cfg \<Rightarrow> ptr \<Rightarrow> 'k host \<Rightarrow> nat" where
  "callbacks c ob s = length (filter (is_callback (c_cb c ob)) (h_events s))"

text \<open>A queued request is not marked as cancelled; the URB of a request in flight is set up for it.\<close>

definition place_ok :: "io_cfg \<Rightarrow> 'k urb_view \<Rightarrow> ptr \<Rightarrow> 'k host \<Rightarrow> bool" where
  "place_ok c kp ob s \<longleftrightarrow>
     (queued c ob s \<longrightarrow> (\<exists>q. h_ifreqs s ob = Some q \<and> ci_status (compInfo q) \<noteq> USB_REQUEST_CANCELLED)) \<and>
     (inflight c kp ob s \<longrightarrow> (\<exists>r u. bulk_pending (c_req c ob) r (c_urb c ob) u s \<and>
        kp (h_kern s) (c_urb c ob, 0) = Some (int (unat (r_length r))))) \<and>
     \<not> (queued c ob s \<and> inflight c kp ob s)"

definition tally :: "io_cfg \<Rightarrow> 'k urb_view \<Rightarrow> ptr list \<Rightarrow> ptr \<Rightarrow> 'k host \<Rightarrow> bool" where
  "tally c kp subs ob s \<longleftrightarrow>
     count_list subs ob = callbacks c ob s + of_bool (queued c ob s) + of_bool (inflight c kp ob s)"

definition io_inv :: "io_cfg \<Rightarrow> 'k urb_view \<Rightarrow> ptr list \<Rightarrow> 'k host \<Rightarrow> bool" where
  "io_inv c kp subs s \<longleftrightarrow> pool_ok c s \<and>
     (\<forall>ob \<in> set (c_objs c). obj_ok c ob s \<and> place_ok c kp ob s \<and> tally c kp subs ob s) \<and>
     dom (kp (h_kern s)) \<subseteq> (\<lambda>ob. (c_urb c ob, 0)) ` set (c_objs c)"

subsection \<open>Submitting\<close>

text \<open>
  The effect of a step on one object and on all others: \<open>others\<close> says that nothing that the invariant
  reads of an object other than \<open>ob\<close> has changed.
\<close>

definition others :: "io_cfg \<Rightarrow> 'k urb_view \<Rightarrow> ptr \<Rightarrow> 'k host \<Rightarrow> 'k host \<Rightarrow> bool" where
  "others c kp ob s s' \<longleftrightarrow> (\<forall>x \<in> set (c_objs c). x \<noteq> ob \<longrightarrow>
     h_ifreqs s' x = h_ifreqs s x \<and> h_reqs s' (c_req c x) = h_reqs s (c_req c x) \<and>
     h_urbs s' (c_urb c x) = h_urbs s (c_urb c x) \<and> queued c x s' = queued c x s \<and>
     kp (h_kern s') (c_urb c x, 0) = kp (h_kern s) (c_urb c x, 0) \<and> callbacks c x s' = callbacks c x s)"

lemma io_inv_step:
  assumes "io_inv c kp subs s" "ob \<in> set (c_objs c)" "others c kp ob s s'" "pool_ok c s'"
    and "obj_ok c ob s'" "place_ok c kp ob s'" "tally c kp subs' ob s'"
    and "\<forall>x. x \<noteq> ob \<longrightarrow> count_list subs' x = count_list subs x"
    and "dom (kp (h_kern s')) \<subseteq> insert (c_urb c ob, 0) (dom (kp (h_kern s)))"
  shows "io_inv c kp subs' s'"
proof -
  have "obj_ok c x s' \<and> place_ok c kp x s' \<and> tally c kp subs' x s'" if x: "x \<in> set (c_objs c)" "x \<noteq> ob" for x
  proof -
    have o: "obj_ok c x s" "place_ok c kp x s" "tally c kp subs x s" using assms(1) x by (simp_all add: io_inv_def)
    have e: "h_ifreqs s' x = h_ifreqs s x" "h_reqs s' (c_req c x) = h_reqs s (c_req c x)"
      "h_urbs s' (c_urb c x) = h_urbs s (c_urb c x)" "queued c x s' = queued c x s"
      "kp (h_kern s') (c_urb c x, 0) = kp (h_kern s) (c_urb c x, 0)" "callbacks c x s' = callbacks c x s"
      using assms(3) x by (simp_all add: others_def)
    show ?thesis
      using o e assms(8) x(2) by (simp add: obj_ok_def place_ok_def tally_def inflight_def bulk_pending_def)
  qed
  moreover have "insert (c_urb c ob, 0) (dom (kp (h_kern s))) \<subseteq> (\<lambda>ob. (c_urb c ob, 0)) ` set (c_objs c)"
    using assms(1,2) by (simp add: io_inv_def)
  then have "dom (kp (h_kern s')) \<subseteq> (\<lambda>ob. (c_urb c ob, 0)) ` set (c_objs c)" using assms(9) by (rule subset_trans[rotated])
  ultimately show ?thesis
    using assms(4-7) by (auto simp: io_inv_def simp del: dom_def)
qed

lemma submit_step:
  assumes "io_inv c kp subs s" "ob \<in> set (c_objs c)" "cfg_ok c" "count_list subs ob = callbacks c ob s"
  shows "\<exists>s'. UsbSubmitRequestAsync (Some ob) s = Some (HDF_SUCCESS, s') \<and> io_inv c kp (subs @ [ob]) s' \<and>
    queue_of c s' = queue_of c s @ [c_req c ob]"
proof -
  obtain pool d h where p: "h_pools s (c_pool c) = Some pool" "ioProcessStopStatus pool = USB_POOL_PROCESS_RUNNING"
     "po_device pool = Some (c_dev c)" "h_devs s (c_dev c) = Some d" "d_devHandle d = Some (c_handle c)"
     "d_privateObject d = Some (c_pool c)" "h_handles s (c_handle c) = Some h" "dh_dev h = Some (c_dev c)"
     "queue_sem pool = length (submitRequestQueue pool)" "distinct (submitRequestQueue pool)"
     "set (submitRequestQueue pool) \<subseteq> c_req c ` set (c_objs c)"
    using assms(1) by (auto simp: io_inv_def pool_ok_def)
  obtain q r u where q: "h_ifreqs s ob = Some q" "hostRequest q = Some (c_req c ob)" "\<not> isSyncReq q"
     "h_reqs s (c_req c ob) = Some r" "req_ok c ob r" "h_urbs s (c_urb c ob) = Some [u]"
    using assms(1,2) by (auto simp: io_inv_def obj_ok_def)
  have idle: "\<not> queued c ob s" "\<not> inflight c kp ob s"
    using assms(1,2,4) by (auto simp: io_inv_def tally_def)
  let ?pool = "pool\<lparr>submitRequestQueue := submitRequestQueue pool @ [c_req c ob], queue_sem := Suc (queue_sem pool)\<rparr>"
  let ?s = "put_pool (c_pool c) ?pool (put_ifreq ob (q\<lparr>isSyncReq := False, compInfo := zero_compInfo\<rparr>) s)"
  have nq: "c_req c ob \<notin> set (submitRequestQueue pool)" using idle(1) p(1) by (simp add: queued_def queue_of_def)
  have run: "UsbSubmitRequestAsync (Some ob) s = Some (HDF_SUCCESS, ?s)"
    using p q nq by (simp add: UsbSubmitRequestAsync_def IfSubmitRequestToQueue_def UsbIoSendRequest_def req_ok_def)
  have "io_inv c kp (subs @ [ob]) ?s"
  proof (rule io_inv_step[OF assms(1,2)])
    show "others c kp ob s ?s"
      using assms(2,3) p(1) by (auto simp: others_def queued_def queue_of_def callbacks_def cfg_ok_def dest: inj_onD)
    show "pool_ok c ?s"
      using p nq assms(2) by (auto simp: pool_ok_def)
    show "obj_ok c ob ?s" using q by (simp add: obj_ok_def)
    show "place_ok c kp ob ?s"
      using idle(2) by (simp add: place_ok_def inflight_def zero_compInfo_def)
    show "tally c kp (subs @ [ob]) ob ?s"
      using assms(4) idle p(1) by (simp add: tally_def callbacks_def queued_def queue_of_def inflight_def)
  qed auto
  moreover have "queue_of c ?s = queue_of c s @ [c_req c ob]" using p(1) by (simp add: queue_of_def)
  ultimately show ?thesis using run by blast
qed

subsection \<open>The sending thread\<close>

lemma bulk_submitted_twice:
  "bulk_submitted p (r\<lparr>r_actualLength := 0, r_urbs := Some a, r_numUrbs := 1, r_numRetired := 0,
       r_reqStatus := USB_REQUEST_COMPLETED\<rparr>) a (bulk_urb p r u) k' (bulk_submitted p r a u k s) =
   bulk_submitted p r a u k' s"
  by (cases r) (simp add: bulk_submitted_def bulk_urb_def)

lemma bulk_submitted_ready:
  "bulk_ready p r a u hp h s \<Longrightarrow>
   bulk_ready p (r\<lparr>r_actualLength := 0, r_urbs := Some a, r_numUrbs := 1, r_numRetired := 0,
     r_reqStatus := USB_REQUEST_COMPLETED\<rparr>) a (bulk_urb p r u) hp h (bulk_submitted p r a u k s)"
  by (simp add: bulk_ready_def bulk_submitted_def data_type_def)

lemma submitted_length:
  "r_length (r\<lparr>r_actualLength := x, r_urbs := a, r_numUrbs := m, r_numRetired := n, r_reqStatus := st\<rparr>) = r_length r"
  by simp

text \<open>Up to \<open>n\<close> attempts: the kernel holds the URB afterwards exactly if one of them succeeded.\<close>

lemma submit_retry_run:
  assumes "usbfs_urbs K kp"
  shows "bulk_ready p r a u hp h s \<Longrightarrow>
    \<exists>ok k'. submit_retry K (Suc n) p s = Some (ok, bulk_submitted p r a u k' s) \<and>
      kp k' = (if ok then (kp (h_kern s))((a, 0) \<mapsto> int (unat (r_length r))) else kp (h_kern s))"
proof (induction n arbitrary: r u s)
  case 0
  obtain e k where k: "k_submit K (fd h) (a, 0) (bulk_urb p r u) (h_kern s) = (e, k)" by fastforce
  have "u_bufferLength (bulk_urb p r u) = int (unat (r_length r))" by (simp add: bulk_urb_def)
  then show ?case
    using submit_bulk[OF 0, of K] k usbfs_submitD[OF assms k]
    by (cases e) (auto simp: RawSubmitRequest_def)
next
  case (Suc n)
  obtain e k where k: "k_submit K (fd h) (a, 0) (bulk_urb p r u) (h_kern s) = (e, k)" by fastforce
  show ?case
  proof (cases e)
    case None
    have "u_bufferLength (bulk_urb p r u) = int (unat (r_length r))" by (simp add: bulk_urb_def)
    then show ?thesis
      using submit_bulk[OF Suc.prems, of K] k usbfs_submitD[OF assms k] None by (auto simp: RawSubmitRequest_def)
  next
    case (Some e')
    let ?s = "bulk_submitted p r a u k s"
    have "RawSubmitRequest K (Some p) s = Some (RetErr HDF_ERR_IO, ?s)"
      using submit_bulk[OF Suc.prems, of K] k Some by (simp add: RawSubmitRequest_def)
    then have step: "submit_retry K (Suc (Suc n)) p s = submit_retry K (Suc n) p ?s"
      by (subst submit_retry.simps(2)) simp
    have kp: "kp (h_kern ?s) = kp (h_kern s)"
      using usbfs_submitD[OF assms k] Some by (simp add: bulk_submitted_def)
    obtain ok k' where ih: "submit_retry K (Suc n) p ?s = Some (ok, bulk_submitted p r a u k' s)"
      "kp k' = (if ok then (kp (h_kern ?s))((a, 0) \<mapsto> int (unat (r_length r))) else kp (h_kern ?s))"
      using Suc.IH[OF bulk_submitted_ready[OF Suc.prems, of k]]
      unfolding bulk_submitted_twice submitted_length by blast
    show ?thesis
      by (rule exI[of _ ok], rule exI[of _ k']) (simp only: step ih kp simp_thms)
  qed
qed

text \<open>The completion of a request object: one callback.\<close>

lemma completion_info_run:
  assumes "h_reqs s p = Some r" "req_ok c ob r" "h_ifreqs s ob = Some q" "\<not> isSyncReq q"
  shows "\<exists>ci. UsbIoSetRequestCompletionInfo p s = Some ((put_ifreq ob (q\<lparr>compInfo := ci\<rparr>) s)\<lparr>h_events :=
    h_events s @ [UserCallbackCalled (c_cb c ob) ci]\<rparr>) \<and> ci_status ci = r_status r"
proof -
  let ?ci = "(compInfo q)\<lparr>ci_buffer := Some (p, if (r_requestType r AND USB_DDK_ENDPOINT_XFERTYPE_MASK) = 0
      then USB_RAW_CONTROL_SETUP_SIZE else 0), ci_length := r_length r, ci_actualLength := of_int (r_actualLength r),
      ci_status := r_status r, ci_userData := r_userData r\<rparr>"
  show ?thesis
    by (rule exI[of _ ?ci]) (use assms in \<open>simp add: UsbIoSetRequestCompletionInfo_def req_ok_def Let_def\<close>)
qed

lemma callbacks_snoc:
  assumes "cfg_ok c" "ob \<in> set (c_objs c)" "x \<in> set (c_objs c)" "h_events s' = h_events s @ [UserCallbackCalled (c_cb c ob) ci]"
  shows "callbacks c x s' = callbacks c x s + of_bool (x = ob)"
  using assms by (auto simp: callbacks_def is_callback_def cfg_ok_def dest: inj_onD)

lemma send_step:
  assumes "usbfs_urbs K kp" "cfg_ok c" "io_inv c kp subs s" "queue_of c s \<noteq> []"
  shows "\<exists>s'. IoSendProcess_round K (c_pool c) s = Some (True, s') \<and> io_inv c kp subs s' \<and>
    queue_of c s' = tl (queue_of c s)"
proof -
  obtain pool d h where p: "h_pools s (c_pool c) = Some pool" "ioProcessStopStatus pool = USB_POOL_PROCESS_RUNNING"
     "po_device pool = Some (c_dev c)" "h_devs s (c_dev c) = Some d" "d_devHandle d = Some (c_handle c)"
     "d_privateObject d = Some (c_pool c)" "h_handles s (c_handle c) = Some h" "dh_dev h = Some (c_dev c)"
     "queue_sem pool = length (submitRequestQueue pool)" "distinct (submitRequestQueue pool)"
     "set (submitRequestQueue pool) \<subseteq> c_req c ` set (c_objs c)"
    using assms(3) by (auto simp: io_inv_def pool_ok_def)
  obtain ob ps where ob: "submitRequestQueue pool = c_req c ob # ps" "ob \<in> set (c_objs c)"
    using assms(4) p(1,11) by (cases "submitRequestQueue pool") (auto simp: queue_of_def)
  let ?p = "c_req c ob" and ?a = "c_urb c ob"
  obtain q r u where q: "h_ifreqs s ob = Some q" "hostRequest q = Some ?p" "\<not> isSyncReq q"
     "h_reqs s ?p = Some r" "req_ok c ob r" "h_urbs s ?a = Some [u]"
    using assms(3) ob(2) by (auto simp: io_inv_def obj_ok_def)
  have qd: "queued c ob s" using ob(1) p(1) by (simp add: queued_def queue_of_def)
  then have nc: "ci_status (compInfo q) \<noteq> USB_REQUEST_CANCELLED" and ni: "\<not> inflight c kp ob s"
    and tl: "count_list subs ob = Suc (callbacks c ob s)"
    using assms(3) ob(2) q(1) by (auto simp: io_inv_def place_ok_def tally_def)
  let ?pool = "pool\<lparr>queue_sem := length ps, submitRequestQueue := ps\<rparr>"
  let ?s1 = "put_pool (c_pool c) ?pool s"
  have ready: "bulk_ready ?p r ?a u (c_handle c) h ?s1"
    using q(4-6) p(7) by (simp add: bulk_ready_def req_ok_def)
  obtain ok k' where k': "submit_retry K 3 ?p ?s1 = Some (ok, bulk_submitted ?p r ?a u k' ?s1)"
      "kp k' = (if ok then (kp (h_kern s))((?a, 0) \<mapsto> int (unat (r_length r))) else kp (h_kern s))"
    using submit_retry_run[OF assms(1) ready, of 2] by (auto simp: numeral_3_eq_3 numeral_2_eq_2)
  let ?s2 = "bulk_submitted ?p r ?a u k' ?s1"
  have round: "IoSendProcess_round K (c_pool c) s =
     (if ok then Some (True, ?s2)
      else do { r2 \<leftarrow> h_reqs ?s2 ?p;
                s4 \<leftarrow> UsbIoSetRequestCompletionInfo ?p (put_req ?p (r2\<lparr>r_status := USB_REQUEST_ERROR\<rparr>) ?s2);
                Some (True, s4) })"
    using p(1,2,9) ob(1) q(1,4,5) nc k'(1)
    by (simp add: IoSendProcess_round_def UsbIoGetRequest_def IoCancelRequest_def req_ok_def Let_def)
  have inj: "c_req c x \<noteq> ?p" "c_urb c x \<noteq> ?a" if "x \<in> set (c_objs c)" "x \<noteq> ob" for x
    using assms(2) that ob(2) by (auto simp: cfg_ok_def dest: inj_onD)
  have oth: "others c kp ob s ?s2"
    using inj k'(2) p(1) ob(1) by (auto simp: others_def bulk_submitted_def queued_def queue_of_def callbacks_def)
  have po: "pool_ok c ?s2"
    using p ob(1) by (auto simp: pool_ok_def bulk_submitted_def)
  have nq: "\<not> queued c ob ?s2"
    using p(10) ob(1) by (simp add: queued_def queue_of_def bulk_submitted_def)
  let ?r = "r\<lparr>r_actualLength := 0, r_urbs := Some ?a, r_numUrbs := 1, r_numRetired := 0,
     r_reqStatus := USB_REQUEST_COMPLETED\<rparr>"
  have qs2: "queue_of c ?s2 = tl (queue_of c s)" using p(1) ob(1) by (simp add: queue_of_def bulk_submitted_def)
  have s2: "h_reqs ?s2 ?p = Some ?r" "h_ifreqs ?s2 ob = Some q" "h_urbs ?s2 ?a = Some [bulk_urb ?p r u]"
     "h_kern ?s2 = k'" "h_events ?s2 = h_events s"
    using q(1) by (simp_all add: bulk_submitted_def)
  have rok: "req_ok c ob ?r" using q(5) by (simp add: req_ok_def data_type_def)
  show ?thesis
  proof (cases ok)
    case True
    have "io_inv c kp subs ?s2"
    proof (rule io_inv_step[OF assms(3) ob(2) oth po])
      show "obj_ok c ob ?s2" using s2 rok q(2,3) by (auto simp: obj_ok_def)
      have "bulk_pending ?p ?r ?a (bulk_urb ?p r u) ?s2" by (rule bulk_submitted_pending[OF ready])
      then show "place_ok c kp ob ?s2" using nq True k'(2) s2(4) by (auto simp: place_ok_def)
      show "tally c kp subs ob ?s2"
        using tl nq True k'(2) s2(4,5) by (simp add: tally_def inflight_def callbacks_def)
      show "dom (kp (h_kern ?s2)) \<subseteq> insert (?a, 0) (dom (kp (h_kern s)))" using True k'(2) s2(4) by auto
    qed simp
    then show ?thesis using round True qs2 by simp
  next
    case False
    let ?s3 = "put_req ?p (?r\<lparr>r_status := USB_REQUEST_ERROR\<rparr>) ?s2"
    obtain ci where ci: "UsbIoSetRequestCompletionInfo ?p ?s3 = Some ((put_ifreq ob (q\<lparr>compInfo := ci\<rparr>) ?s3)\<lparr>h_events :=
        h_events ?s3 @ [UserCallbackCalled (c_cb c ob) ci]\<rparr>)" (is "_ = Some ?s4")
      using completion_info_run[of ?s3 ?p "?r\<lparr>r_status := USB_REQUEST_ERROR\<rparr>" c ob q] rok s2(2) q(3)
      by (auto simp: req_ok_def data_type_def)
    have cb: "callbacks c x ?s4 = callbacks c x s + of_bool (x = ob)" if "x \<in> set (c_objs c)" for x
      by (rule callbacks_snoc[OF assms(2) ob(2) that]) (simp add: s2(5))
    have "io_inv c kp subs ?s4"
    proof (rule io_inv_step[OF assms(3) ob(2)])
      show "others c kp ob s ?s4" using oth inj cb by (auto simp: others_def queued_def queue_of_def)
      show "pool_ok c ?s4" using po by (simp add: pool_ok_def)
      show "obj_ok c ob ?s4" using s2 rok q(2,3) by (auto simp: obj_ok_def req_ok_def data_type_def)
      have "\<not> queued c ob ?s4" "\<not> inflight c kp ob ?s4"
        using nq ni False k'(2) s2(4) by (simp_all add: queued_def queue_of_def inflight_def)
      then show "place_ok c kp ob ?s4" "tally c kp subs ob ?s4"
        using tl cb[OF ob(2)] by (simp_all add: place_ok_def tally_def)
      show "dom (kp (h_kern ?s4)) \<subseteq> insert (?a, 0) (dom (kp (h_kern s)))" using False k'(2) s2(4) by auto
    qed simp
    moreover have "queue_of c ?s4 = tl (queue_of c s)" using qs2 by (simp add: queue_of_def)
    ultimately show ?thesis using round False s2(1) ci by simp
  qed
qed

subsection \<open>The receiving thread\<close>

lemma io_inv_pool:
  assumes "io_inv c kp subs s" "h_pools s (c_pool c) = Some pool" "kp k = kp (h_kern s)"
  shows "io_inv c kp subs (set_kern k (put_pool (c_pool c) (pool\<lparr>ioProcessTid := t\<rparr>) s))"
proof -
  let ?s = "set_kern k (put_pool (c_pool c) (pool\<lparr>ioProcessTid := t\<rparr>) s)"
  have "pool_ok c ?s" using assms(1,2) by (auto simp: io_inv_def pool_ok_def)
  moreover have "queued c x ?s = queued c x s" "inflight c kp x ?s = inflight c kp x s" for x
    using assms(2,3) by (simp_all add: queued_def queue_of_def inflight_def)
  ultimately show ?thesis
    using assms(1,3) by (simp add: io_inv_def obj_ok_def place_ok_def tally_def callbacks_def bulk_pending_def)
qed

lemma bulk_finish_ok:
  assumes "req_ok c ob r" "length (rp_data x) \<le> length (r_buffer r)"
  shows "req_ok c ob ((bulk_finish x r)\<lparr>r_status := st\<rparr>)"
  using assms by (simp add: req_ok_def bulk_finish_def received_def data_type_def)

lemma reap_step:
  assumes "usbfs_urbs K kp" "cfg_ok c" "io_inv c kp subs s" "h_handles s (c_handle c) = Some h"
    and "k_reap K (fd h) (h_kern s) = (Inr x, k)"
  shows "\<exists>s'. AdapterUrbCompleteHandle K (Some (c_handle c)) s = Some (HDF_SUCCESS, s') \<and>
    io_inv c kp subs s' \<and> h_pools s' = h_pools s \<and> h_kern s' = k"
proof -
  obtain n where kx: "kp k = (kp (h_kern s))(rp_urb x := None)" "kp (h_kern s) (rp_urb x) = Some n"
     "int (length (rp_data x)) \<le> n" "0 \<le> rp_actualLength x"
    using usbfs_reapD[OF assms(1,5)] by auto
  have "rp_urb x \<in> dom (kp (h_kern s))" using kx(2) by auto
  then obtain ob where ob: "ob \<in> set (c_objs c)" "rp_urb x = (c_urb c ob, 0)"
    using assms(3) by (auto simp: io_inv_def)
  let ?p = "c_req c ob" and ?a = "c_urb c ob"
  have inf: "inflight c kp ob s" using kx(2) ob(2) by (simp add: inflight_def)
  obtain q r u where q: "h_ifreqs s ob = Some q" "hostRequest q = Some ?p" "\<not> isSyncReq q"
     "h_reqs s ?p = Some r" "req_ok c ob r" "h_urbs s ?a = Some [u]"
    using assms(3) ob(1) by (auto simp: io_inv_def obj_ok_def)
  have pl: "place_ok c kp ob s" "tally c kp subs ob s" using assms(3) ob(1) by (simp_all add: io_inv_def)
  have pend: "bulk_pending ?p r ?a u s" and n: "n = int (unat (r_length r))"
    using pl(1) inf q(4,6) kx(2) ob(2) by (auto simp: place_ok_def bulk_pending_def)
  have nq: "\<not> queued c ob s" and tl: "count_list subs ob = Suc (callbacks c ob s)"
    using pl inf by (auto simp: place_ok_def tally_def)
  have "unat (r_length r) \<le> length (r_buffer r)" using q(5) by (simp add: req_ok_def)
  moreover have "length (rp_data x) \<le> unat (r_length r)" using kx(3) unfolding n by (simp only: of_nat_le_iff)
  ultimately have len: "length (rp_data x) \<le> length (r_buffer r)" by (rule order_trans[rotated])
  let ?st = "r_reqStatus (bulk_finish x r)"
  let ?r = "(bulk_finish x r)\<lparr>r_status := ?st\<rparr>"
  let ?s1 = "s\<lparr>h_kern := k, h_urbs := (h_urbs s)(?a \<mapsto> [reaped_urb x u])\<rparr>"
  let ?s2 = "put_req ?p ?r ?s1"
  have rok: "req_ok c ob ?r" by (rule bulk_finish_ok[OF q(5) len])
  obtain ci where ci: "UsbIoSetRequestCompletionInfo ?p ?s2 = Some ((put_ifreq ob (q\<lparr>compInfo := ci\<rparr>) ?s2)\<lparr>h_events :=
      h_events ?s2 @ [UserCallbackCalled (c_cb c ob) ci]\<rparr>)" (is "_ = Some ?s3")
    using completion_info_run[OF _ rok, of ?s2 ?p q] q(1,3) by auto
  have "r_callback (bulk_finish x r) = Some UsbIoSetRequestCompletionInfoFn"
    using q(5) by (simp add: bulk_finish_def req_ok_def)
  then have run: "AdapterUrbCompleteHandle K (Some (c_handle c)) s = Some (HDF_SUCCESS, ?s3)"
    using reap_bulk[OF pend assms(4,5) ob(2) len kx(4)] ci
    by (simp add: RawHandleRequestCompletion_def call_raw_callback_def)
  have inj: "c_req c y \<noteq> ?p" "c_urb c y \<noteq> ?a" if "y \<in> set (c_objs c)" "y \<noteq> ob" for y
    using assms(2) that ob(1) by (auto simp: cfg_ok_def dest: inj_onD)
  have cb: "callbacks c y ?s3 = callbacks c y s + of_bool (y = ob)" if "y \<in> set (c_objs c)" for y
    by (rule callbacks_snoc[OF assms(2) ob(1) that]) simp
  have "io_inv c kp subs ?s3"
  proof (rule io_inv_step[OF assms(3) ob(1)])
    show "others c kp ob s ?s3" using inj cb kx(1) ob(2) by (auto simp: others_def queued_def queue_of_def)
    show "pool_ok c ?s3" using assms(3) by (simp add: io_inv_def pool_ok_def)
    show "obj_ok c ob ?s3" using rok q(2,3) by (auto simp: obj_ok_def)
    have "\<not> queued c ob ?s3" "\<not> inflight c kp ob ?s3"
      using nq kx(1) ob(2) by (simp_all add: queued_def queue_of_def inflight_def)
    then show "place_ok c kp ob ?s3" "tally c kp subs ob ?s3"
      using tl cb[OF ob(1)] by (simp_all add: place_ok_def tally_def)
    show "dom (kp (h_kern ?s3)) \<subseteq> insert (?a, 0) (dom (kp (h_kern s)))" using kx(1) by auto
  qed simp
  with run show ?thesis by auto
qed

lemma receive_step:
  assumes "usbfs_urbs K kp" "cfg_ok c" "io_inv c kp subs s"
  shows "\<exists>s'. IoAsyncReceiveProcess_round K (c_pool c) s = Some (True, s') \<and> io_inv c kp subs s' \<and>
    queue_of c s' = queue_of c s \<and>
    (\<exists>f. h_kern s' = snd (k_reap K f (h_kern s)))"
proof -
  obtain pool d h where p: "h_pools s (c_pool c) = Some pool" "ioProcessStopStatus pool = USB_POOL_PROCESS_RUNNING"
     "po_device pool = Some (c_dev c)" "h_devs s (c_dev c) = Some d" "d_devHandle d = Some (c_handle c)"
     "h_handles s (c_handle c) = Some h"
    using assms(3) by (auto simp: io_inv_def pool_ok_def)
  let ?pool = "if ioProcessTid pool = 0 then pool\<lparr>ioProcessTid := UsbAdapterGetTid K s\<rparr> else pool"
  have "?pool = pool\<lparr>ioProcessTid := ioProcessTid ?pool\<rparr>" by (cases pool) simp
  then obtain t where t: "?pool = pool\<lparr>ioProcessTid := t\<rparr>" by blast
  let ?s1 = "put_pool (c_pool c) (pool\<lparr>ioProcessTid := t\<rparr>) s"
  have inv1: "io_inv c kp subs ?s1" using io_inv_pool[OF assms(3) p(1) refl, of t] by simp
  have rnd: "IoAsyncReceiveProcess_round K (c_pool c) s =
     do { (ret, s2) \<leftarrow> RawHandleRequest K (Some (c_handle c)) ?s1;
          pool2 \<leftarrow> h_pools s2 (c_pool c);
          if ret_neg ret \<or> ioProcessStopStatus pool2 \<noteq> USB_POOL_PROCESS_RUNNING
          then Some (False, put_pool (c_pool c) (pool2\<lparr>ioProcessStopStatus := USB_POOL_PROCESS_STOPED,
                                                       queue_sem := Suc (queue_sem pool2)\<rparr>) s2)
          else Some (True, s2) }"
    using p t by (simp add: IoAsyncReceiveProcess_round_def Let_def)
  show ?thesis
  proof (cases "k_reap K (fd h) (h_kern s)")
    case (Pair y k)
    show ?thesis
    proof (cases y)
      case (Inl e)
      then have e: "e = EAGAIN" "kp k = kp (h_kern s)" using usbfs_reap_errD[OF assms(1)] Pair by auto
      then have "RawHandleRequest K (Some (c_handle c)) ?s1 = Some (RetVal 1, set_kern k ?s1)"
        using Pair Inl p(6) by (simp add: RawHandleRequest_def AdapterUrbCompleteHandle_def)
      then show ?thesis
        using rnd p(1,2) io_inv_pool[OF assms(3) p(1) e(2), of t] Pair by (auto simp: queue_of_def intro: exI[of _ "fd h"])
    next
      case (Inr x)
      then obtain s' where "AdapterUrbCompleteHandle K (Some (c_handle c)) ?s1 = Some (HDF_SUCCESS, s')"
          "io_inv c kp subs s'" "h_pools s' = h_pools ?s1" "h_kern s' = k"
        using reap_step[OF assms(1,2) inv1, of h x k] p(6) Pair by auto
      then show ?thesis
        using rnd p(1,2) Pair by (auto simp: RawHandleRequest_def queue_of_def intro: exI[of _ "fd h"])
    qed
  qed
qed

subsection \<open>Runs\<close>

text \<open>
  The states that clients, threads and kernel can reach, with the request objects that have been
  submitted so far.  A client submits a request again only when it has seen the callback of
  each earlier submission.
\<close>

inductive io_reach :: "'k os_env \<Rightarrow> 'k urb_view \<Rightarrow> io_cfg \<Rightarrow> 'k host \<Rightarrow> ptr list \<Rightarrow> 'k host \<Rightarrow> bool"
  for K kp c s0 where
  start: "io_reach K kp c s0 [] s0"
| submit: "io_reach K kp c s0 subs s \<Longrightarrow> ob \<in> set (c_objs c) \<Longrightarrow> count_list subs ob = callbacks c ob s \<Longrightarrow>
     UsbSubmitRequestAsync (Some ob) s = Some (ret, s') \<Longrightarrow> io_reach K kp c s0 (subs @ [ob]) s'"
| send: "io_reach K kp c s0 subs s \<Longrightarrow> IoSendProcess_round K (c_pool c) s = Some (go, s') \<Longrightarrow>
     io_reach K kp c s0 subs s'"
| receive: "io_reach K kp c s0 subs s \<Longrightarrow> IoAsyncReceiveProcess_round K (c_pool c) s = Some (go, s') \<Longrightarrow>
     io_reach K kp c s0 subs s'"
| kernel: "io_reach K kp c s0 subs s \<Longrightarrow> kp k' = kp (h_kern s) \<Longrightarrow> io_reach K kp c s0 subs (set_kern k' s)"

lemma send_blocked:
  assumes "io_inv c kp subs s" "queue_of c s = []"
  shows "IoSendProcess_round K (c_pool c) s = None"
  using assms by (auto simp: io_inv_def pool_ok_def queue_of_def IoSendProcess_round_def UsbIoGetRequest_def)

lemma io_inv_kernel:
  assumes "io_inv c kp subs s" "kp k = kp (h_kern s)"
  shows "io_inv c kp subs (set_kern k s)"
proof -
  have "queued c x (set_kern k s) = queued c x s" "inflight c kp x (set_kern k s) = inflight c kp x s" for x
    using assms(2) by (simp_all add: queued_def queue_of_def inflight_def)
  then show ?thesis
    using assms by (simp add: io_inv_def pool_ok_def obj_ok_def place_ok_def tally_def callbacks_def bulk_pending_def)
qed

lemma io_reach_inv:
  assumes "usbfs_urbs K kp" "cfg_ok c" "io_inv c kp [] s0" "io_reach K kp c s0 subs s"
  shows "io_inv c kp subs s"
  using assms(4)
proof (induction rule: io_reach.induct)
  case start
  show ?case by (rule assms(3))
next
  case (submit subs s ob ret s')
  then show ?case using submit_step[OF submit.IH submit.hyps(2) assms(2) submit.hyps(3)] by auto
next
  case (send subs s go s')
  then have "queue_of c s \<noteq> []" using send_blocked[OF send.IH, of K] by auto
  then show ?case using send_step[OF assms(1,2) send.IH] send.hyps(2) by auto
next
  case (receive subs s go s')
  then show ?case using receive_step[OF assms(1,2) receive.IH] by auto
next
  case (kernel subs s k')
  then show ?case by (intro io_inv_kernel)
qed

text \<open>
  The starting states: the threads run, nothing is queued, the kernel holds no URB and no callback has been called.
\<close>

definition io_start :: "io_cfg \<Rightarrow> 'k urb_view \<Rightarrow> 'k host \<Rightarrow> bool" where
  "io_start c kp s \<longleftrightarrow> cfg_ok c \<and> pool_ok c s \<and> queue_of c s = [] \<and> kp (h_kern s) = Map.empty \<and>
     (\<forall>ob \<in> set (c_objs c). obj_ok c ob s \<and> callbacks c ob s = 0)"

lemma io_start_inv: "io_start c kp s \<Longrightarrow> io_inv c kp [] s"
  by (simp add: io_start_def io_inv_def place_ok_def tally_def queued_def inflight_def)

lemma io_reach_start:
  assumes "usbfs_urbs K kp" "io_start c kp s0" "io_reach K kp c s0 subs s"
  shows "cfg_ok c" "io_inv c kp subs s"
  using assms io_reach_inv[OF assms(1) _ io_start_inv[OF assms(2)] assms(3)] by (auto simp: io_start_def)

subsection \<open>Draining\<close>

text \<open>\<open>n\<close> rounds of a thread.\<close>

primrec rounds :: "('s \<Rightarrow> (bool \<times> 's) option) \<Rightarrow> nat \<Rightarrow> 's \<Rightarrow> 's option" where
  "rounds f 0 s = Some s"
| "rounds f (Suc n) s = do { (go, s1) \<leftarrow> f s; if go then rounds f n s1 else None }"

lemma send_rounds:
  assumes "usbfs_urbs K kp" "cfg_ok c"
  shows "io_inv c kp subs s \<Longrightarrow> length (queue_of c s) = n \<Longrightarrow>
    \<exists>s'. rounds (IoSendProcess_round K (c_pool c)) n s = Some s' \<and> io_inv c kp subs s' \<and> queue_of c s' = []"
proof (induction n arbitrary: s)
  case 0
  then show ?case by simp
next
  case (Suc n)
  then have "queue_of c s \<noteq> []" by auto
  then obtain s1 where s1: "IoSendProcess_round K (c_pool c) s = Some (True, s1)" "io_inv c kp subs s1"
    "queue_of c s1 = tl (queue_of c s)" using send_step[OF assms Suc.prems(1)] by blast
  then show ?case using Suc.IH[OF s1(2)] Suc.prems(2) by simp
qed

text \<open>A kernel that has finished every URB it holds.\<close>

definition all_finished :: "'k os_env \<Rightarrow> 'k urb_view \<Rightarrow> bool" where
  "all_finished K kp \<longleftrightarrow> (\<forall>f k. kp k \<noteq> Map.empty \<longrightarrow> (\<exists>x k'. k_reap K f k = (Inr x, k')))"

lemma reap_shrinks:
  assumes "usbfs_urbs K kp" "all_finished K kp" "card (dom (kp k)) = Suc n" "k' = snd (k_reap K f k)"
  shows "card (dom (kp k')) = n"
proof -
  have "kp k \<noteq> Map.empty" using assms(3) by auto
  then obtain x k1 where "k_reap K f k = (Inr x, k1)" using assms(2) unfolding all_finished_def by blast
  then have x: "k_reap K f k = (Inr x, k')" using assms(4) by simp
  have "kp k' = (kp k)(rp_urb x := None)" "rp_urb x \<in> dom (kp k)" using usbfs_reapD[OF assms(1) x] by auto
  then show ?thesis using assms(3) by simp
qed

lemma receive_rounds:
  assumes "usbfs_urbs K kp" "cfg_ok c" "all_finished K kp"
  shows "io_inv c kp subs s \<Longrightarrow> queue_of c s = [] \<Longrightarrow> card (dom (kp (h_kern s))) = n \<Longrightarrow>
    \<exists>s'. rounds (IoAsyncReceiveProcess_round K (c_pool c)) n s = Some s' \<and> io_inv c kp subs s' \<and>
      queue_of c s' = [] \<and> kp (h_kern s') = Map.empty"
proof (induction n arbitrary: s)
  case 0
  have "finite (dom (kp (h_kern s)))" using 0(1) finite_subset unfolding io_inv_def by blast
  then show ?case using 0 by simp
next
  case (Suc n)
  obtain s1 where s1: "IoAsyncReceiveProcess_round K (c_pool c) s = Some (True, s1)" "io_inv c kp subs s1"
    "queue_of c s1 = queue_of c s" "\<exists>f. h_kern s1 = snd (k_reap K f (h_kern s))"
    using receive_step[OF assms(1,2) Suc.prems(1)] by blast
  then have "card (dom (kp (h_kern s1))) = n" using reap_shrinks[OF assms(1,3) Suc.prems(3)] by blast
  then show ?case using Suc.IH[OF s1(2)] s1(1,3) Suc.prems(2) by simp
qed

lemma io_quiet:
  assumes "io_inv c kp subs s" "queue_of c s = []" "kp (h_kern s) = Map.empty" "ob \<in> set (c_objs c)"
  shows "callbacks c ob s = count_list subs ob"
  using assms by (simp add: io_inv_def tally_def queued_def inflight_def)

subsection \<open>A device with two requests\<close>

text \<open>
  A kernel that keeps the URBs it holds in a list, refuses negative lengths, and finishes them in order
  with up to three bytes.
\<close>

type_synonym urb_list = "((ptr \<times> nat) \<times> nat) list"

definition list_reap :: "urb_list \<Rightarrow> (int + reaped) \<times> urb_list" where
  "list_reap k = (case k of [] \<Rightarrow> (Inl EAGAIN, [])
     | (a, n) # k' \<Rightarrow> (Inr \<lparr>rp_urb = a, rp_status = 0, rp_actualLength = int (min n 3), rp_frames = [],
          rp_data = replicate (min n 3) 7\<rparr>, filter (\<lambda>e. fst e \<noteq> a) k'))"

definition list_os :: "urb_list os_env" where
  "list_os = null_os\<lparr>k_submit := (\<lambda>f a u k. if u_bufferLength u < 0 then (Some 22, k)
     else (None, (a, nat (u_bufferLength u)) # k)), k_reap := (\<lambda>f. list_reap)\<rparr>"

definition list_view :: "urb_list urb_view" where
  "list_view k a = map_option int (map_of k a)"

definition two_cfg :: io_cfg where
  "two_cfg = \<lparr>c_objs = [10, 11], c_req = (\<lambda>ob. ob + 10), c_urb = (\<lambda>ob. ob + 20), c_cb = (\<lambda>ob. ob),
     c_pool = 40, c_dev = 41, c_handle = 42\<rparr>"

definition two_req :: "nat \<Rightarrow> UsbHostRequest" where
  "two_req ob = (zero_request 16 0)\<lparr>r_length := 8, r_devHandle := Some 42, r_privateObj := Some ob,
     r_callback := Some UsbIoSetRequestCompletionInfoFn, r_userCallback := Some ob, r_requestType := 2,
     r_endPoint := 0x81, r_bulkUrb := Some (ob + 20), r_bufLen := 16\<rparr>"

definition two_host :: "urb_list host" where
  "two_host = (null_host [])\<lparr>
     h_pools := [40 \<mapsto> zero_pool\<lparr>ioProcessStopStatus := USB_POOL_PROCESS_RUNNING, po_device := Some 41\<rparr>],
     h_devs := [41 \<mapsto> zero_device\<lparr>d_devHandle := Some 42, d_privateObject := Some 40\<rparr>],
     h_handles := [42 \<mapsto> zero_handle\<lparr>dh_dev := Some 41, fd := 3\<rparr>],
     h_ifreqs := [10 \<mapsto> zero_if_request\<lparr>hostRequest := Some 20\<rparr>, 11 \<mapsto> zero_if_request\<lparr>hostRequest := Some 21\<rparr>],
     h_reqs := [20 \<mapsto> two_req 10, 21 \<mapsto> two_req 11], h_urbs := [30 \<mapsto> [zero_urb], 31 \<mapsto> [zero_urb]]\<rparr>"

lemma map_of_drop_key: "map_of (filter (\<lambda>e. fst e \<noteq> a) k) = (map_of k)(a := None)"
  by (induction k) auto

lemma list_os_simps:
  "k_submit list_os f a u k = (if u_bufferLength u < 0 then (Some 22, k) else (None, (a, nat (u_bufferLength u)) # k))"
  "k_reap list_os f = list_reap"
  by (simp_all add: list_os_def)

lemma list_usbfs: "usbfs_urbs list_os list_view"
proof -
  have "(if u_bufferLength u < 0 then (Some 22, k) else (None, (a, nat (u_bufferLength u)) # k)) = (e, k') \<Longrightarrow>
    list_view k' = (if e = None then (list_view k)(a \<mapsto> u_bufferLength u) else list_view k)" for a u k e k'
    by (auto simp: list_view_def fun_eq_iff split: if_splits)
  moreover have "list_reap k = (Inl e, k') \<Longrightarrow> e = EAGAIN \<and> list_view k' = list_view k" for k e k'
    by (auto simp: list_reap_def split: list.splits)
  moreover have "list_reap k = (Inr x, k') \<Longrightarrow> list_view k' = (list_view k)(rp_urb x := None) \<and>
     (\<exists>n. list_view k (rp_urb x) = Some n \<and> int (length (rp_data x)) \<le> n \<and> 0 \<le> rp_actualLength x)" for k x k'
    by (auto simp: list_reap_def list_view_def map_of_drop_key fun_eq_iff split: list.splits)
  ultimately show ?thesis unfolding usbfs_urbs_def list_os_simps by blast
qed

lemma list_finishes: "all_finished list_os list_view"
  by (auto simp: all_finished_def list_os_simps list_reap_def list_view_def fun_eq_iff split: list.splits)

lemma two_start: "io_start two_cfg list_view two_host"
proof -
  have "cfg_ok two_cfg" by (simp add: cfg_ok_def two_cfg_def)
  moreover have "pool_ok two_cfg two_host" "queue_of two_cfg two_host = []" "list_view (h_kern two_host) = Map.empty"
    by (simp_all add: pool_ok_def queue_of_def two_cfg_def two_host_def null_host_def zero_pool_def zero_device_def
        zero_handle_def list_view_def fun_eq_iff)
  moreover have "obj_ok two_cfg ob two_host \<and> callbacks two_cfg ob two_host = 0" if "ob = 10 \<or> ob = 11" for ob
    using that
    by (auto simp: obj_ok_def callbacks_def req_ok_def two_cfg_def two_host_def null_host_def two_req_def
        zero_request_def zero_if_request_def data_type_def MAX_BULK_DATA_BUFFER_LENGTH_def)
  ultimately show ?thesis by (simp add: io_start_def two_cfg_def)
qed

text \<open>Both requests can be submitted, one after the other.\<close>

lemma two_reach: "\<exists>s. io_reach list_os list_view two_cfg two_host [10, 11] s"
proof -
  note start = io_start_inv[OF two_start]
  have cfg: "cfg_ok two_cfg" "10 \<in> set (c_objs two_cfg)" "11 \<in> set (c_objs two_cfg)"
    using two_start by (simp_all add: io_start_def two_cfg_def)
  have "count_list [] 10 = callbacks two_cfg 10 two_host" using two_start cfg(2) by (simp add: io_start_def)
  then obtain s1 where s1: "UsbSubmitRequestAsync (Some 10) two_host = Some (HDF_SUCCESS, s1)"
    "io_inv two_cfg list_view ([] @ [10]) s1" using submit_step[OF start cfg(2,1)] by blast
  then have r1: "io_reach list_os list_view two_cfg two_host ([] @ [10]) s1"
    using io_reach.submit[OF io_reach.start cfg(2)] \<open>count_list [] 10 = _\<close> by blast
  have "tally two_cfg list_view ([] @ [10]) 11 s1" using s1(2) cfg(3) by (simp add: io_inv_def)
  then have c1: "count_list ([] @ [10]) (11 :: nat) = callbacks two_cfg 11 s1" by (simp add: tally_def)
  then obtain s2 where "UsbSubmitRequestAsync (Some 11) s1 = Some (HDF_SUCCESS, s2)"
    using submit_step[OF s1(2) cfg(3,1)] by blast
  then show ?thesis using io_reach.submit[OF r1 cfg(3) c1] by auto
qed

subsection \<open>Properties\<close>

text \<open>
  C1. Every submission of an asynchronous request is accounted for exactly once.  In whatever order clients
  submit, the two threads run their rounds and the kernel works, at every moment the number of
  times a request object has been submitted is the number of callbacks its client has seen, plus one if
  the request waits in the queue of the pool, plus one if the kernel holds its URB; and it is
  never in the queue and in flight at once.
\<close>

theorem io_exactly_once:
  assumes "usbfs_urbs K kp" "io_start c kp s0" "io_reach K kp c s0 subs s" "ob \<in> set (c_objs c)"
  shows "count_list subs ob = callbacks c ob s + of_bool (queued c ob s) + of_bool (inflight c kp ob s) \<and>
    \<not> (queued c ob s \<and> inflight c kp ob s)"
  using io_reach_start[OF assms(1-3)] assms(4) by (auto simp: io_inv_def tally_def place_ok_def)

theorem io_exactly_once_witness:
  "\<exists>s. io_reach list_os list_view two_cfg two_host [10, 11] s \<and>
     callbacks two_cfg 10 s + of_bool (queued two_cfg 10 s) + of_bool (inflight two_cfg list_view 10 s) = 1"
proof -
  obtain s where s: "io_reach list_os list_view two_cfg two_host [10, 11] s" using two_reach by blast
  have "10 \<in> set (c_objs two_cfg)" by (simp add: two_cfg_def)
  from io_exactly_once[OF list_usbfs two_start s this]
  have "callbacks two_cfg 10 s + of_bool (queued two_cfg 10 s) + of_bool (inflight two_cfg list_view 10 s) = 1" by simp
  with s show ?thesis by blast
qed

text \<open>
  C8. The threads never fail and never get stuck on a connected device: in every reachable state the
  receiving thread's round returns and goes on; the sending thread's does too whenever the queue has a
  request (and it waits exactly when the queue is empty); and a client that has seen the callbacks of all its
  earlier submissions can submit again with success.
\<close>

theorem io_threads_progress:
  assumes "usbfs_urbs K kp" "io_start c kp s0" "io_reach K kp c s0 subs s"
  shows "(\<exists>s'. IoAsyncReceiveProcess_round K (c_pool c) s = Some (True, s')) \<and>
    (if queue_of c s = [] then IoSendProcess_round K (c_pool c) s = None
     else \<exists>s'. IoSendProcess_round K (c_pool c) s = Some (True, s') \<and> queue_of c s' = tl (queue_of c s)) \<and>
    (\<forall>ob \<in> set (c_objs c). count_list subs ob = callbacks c ob s \<longrightarrow>
       (\<exists>s'. UsbSubmitRequestAsync (Some ob) s = Some (HDF_SUCCESS, s') \<and> queue_of c s' = queue_of c s @ [c_req c ob]))"
proof (intro conjI ballI impI)
  note inv = io_reach_start[OF assms]
  show "\<exists>s'. IoAsyncReceiveProcess_round K (c_pool c) s = Some (True, s')"
    using receive_step[OF assms(1) inv] by blast
  show "if queue_of c s = [] then IoSendProcess_round K (c_pool c) s = None
     else \<exists>s'. IoSendProcess_round K (c_pool c) s = Some (True, s') \<and> queue_of c s' = tl (queue_of c s)"
    using send_blocked[OF inv(2)] send_step[OF assms(1) inv] by auto
  show "\<exists>s'. UsbSubmitRequestAsync (Some ob) s = Some (HDF_SUCCESS, s') \<and> queue_of c s' = queue_of c s @ [c_req c ob]"
    if "ob \<in> set (c_objs c)" "count_list subs ob = callbacks c ob s" for ob
    using submit_step[OF inv(2) that(1) inv(1) that(2)] by blast
qed

theorem io_threads_progress_witness:
  "\<exists>s s'. io_reach list_os list_view two_cfg two_host [10, 11] s \<and>
     IoAsyncReceiveProcess_round list_os 40 s = Some (True, s')"
proof -
  obtain s where s: "io_reach list_os list_view two_cfg two_host [10, 11] s" using two_reach by blast
  have "c_pool two_cfg = 40" by (simp add: two_cfg_def)
  with io_threads_progress[OF list_usbfs two_start s] s show ?thesis by metis
qed

text \<open>
  C7. Every submitted request is completed: from any reachable state, once the kernel has finished its URBs, as
  many rounds of the sending thread as requests are queued and then as many rounds of the receiving
  thread as URBs are held lead to a state in which every submission has had its callback.
\<close>

theorem io_drains:
  assumes "usbfs_urbs K kp" "io_start c kp s0" "io_reach K kp c s0 subs s" "all_finished K kp"
  shows "\<exists>s1 s2. rounds (IoSendProcess_round K (c_pool c)) (length (queue_of c s)) s = Some s1 \<and>
    rounds (IoAsyncReceiveProcess_round K (c_pool c)) (card (dom (kp (h_kern s1)))) s1 = Some s2 \<and>
    (\<forall>ob \<in> set (c_objs c). callbacks c ob s2 = count_list subs ob)"
proof -
  note inv = io_reach_start[OF assms(1-3)]
  obtain s1 where s1: "rounds (IoSendProcess_round K (c_pool c)) (length (queue_of c s)) s = Some s1"
    "io_inv c kp subs s1" "queue_of c s1 = []" using send_rounds[OF assms(1) inv refl] by blast
  obtain s2 where s2: "rounds (IoAsyncReceiveProcess_round K (c_pool c)) (card (dom (kp (h_kern s1)))) s1 = Some s2"
    "io_inv c kp subs s2" "queue_of c s2 = []" "kp (h_kern s2) = Map.empty"
    using receive_rounds[OF assms(1) inv(1) assms(4) s1(2,3) refl] by blast
  show ?thesis
    by (rule exI[of _ s1], rule exI[of _ s2]) (use s1(1) s2 io_quiet[OF s2(2-4)] in simp)
qed

theorem io_drains_witness:
  "\<exists>s s1 s2. io_reach list_os list_view two_cfg two_host [10, 11] s \<and>
     rounds (IoSendProcess_round list_os 40) (length (queue_of two_cfg s)) s = Some s1 \<and>
     rounds (IoAsyncReceiveProcess_round list_os 40) (card (dom (list_view (h_kern s1)))) s1 = Some s2 \<and>
     callbacks two_cfg 10 s2 = 1 \<and> callbacks two_cfg 11 s2 = 1"
proof -
  obtain s where s: "io_reach list_os list_view two_cfg two_host [10, 11] s" using two_reach by blast
  have c: "c_pool two_cfg = 40" "set (c_objs two_cfg) = {10, 11}" by (simp_all add: two_cfg_def)
  obtain s1 s2 where r: "rounds (IoSendProcess_round list_os 40) (length (queue_of two_cfg s)) s = Some s1"
     "rounds (IoAsyncReceiveProcess_round list_os 40) (card (dom (list_view (h_kern s1)))) s1 = Some s2"
     "\<forall>ob \<in> {10, 11}. callbacks two_cfg ob s2 = count_list [10, 11] ob"
    using io_drains[OF list_usbfs two_start s list_finishes, unfolded c] by blast
  from r(3) have "callbacks two_cfg 10 s2 = 1" "callbacks two_cfg 11 s2 = 1" by simp_all
  with s r(1,2) show ?thesis by blast
qed

end
