(* ===== verification/Usbfn_State.thy ===== *)
theory Usbfn_State
  imports Usb_Mem Usb_Descriptor
begin

text \<open>
  The data of the device side of the development kit (\<open>usb/ddk/device\<close>): the description of a device
  that a client hands in, the objects of the device and I/O managers, the store with one heap per
  kind of object, and the system calls, which are the fields of the parameter \<open>K\<close>.
\<close>

subsection \<open>Description of a device\<close>

text \<open>
  C strings are lists of bytes without their terminating zero; a descriptor is the block of bytes it
  points to, which starts with \<open>struct UsbDescriptorHeader\<close>; an array that ends with a null
  pointer is the list of its entries, and \<open>None\<close> where the pointer to the array itself may be null.
\<close>

type_synonym descs = "u8 list list"

record UsbFnStrings =
  us_language :: u16
  us_strings :: "u8 list list"

record UsbFnFunction =
  fn_enable :: bool
  funcName :: string
  fn_strings :: "UsbFnStrings list"
  fsDescriptors :: "descs option"
  hsDescriptors :: "descs option"
  ssDescriptors :: "descs option"
  sspDescriptors :: "descs option"

record UsbFnConfiguration =
  configurationValue :: u8
  iConfiguration :: u8
  fc_attributes :: u8
  maxPower :: u16
  fc_functions :: "UsbFnFunction list"

record UsbDeviceDescriptor =
  v_bLength :: u8
  v_bDescriptorType :: u8
  v_bcdUSB :: u16
  v_bDeviceClass :: u8
  v_bDeviceSubClass :: u8
  v_bDeviceProtocol :: u8
  v_bMaxPacketSize0 :: u8
  v_idVendor :: u16
  v_idProduct :: u16
  v_bcdDevice :: u16
  v_iManufacturer :: u8
  v_iProduct :: u8
  v_iSerialNumber :: u8
  v_bNumConfigurations :: u8

text \<open>
  A description that was read from the resource tree, with the addresses of its structs and tables: a struct is a record with the address of its block, a table of
  pointers the address of its block with the structs it points to, without the null pointer at its end.
\<close>

record hcs_strings =
  hs_at :: ptr
  hs_language :: u16
  hs_table :: ptr
  hs_list :: "(u8 \<times> string) list"

type_synonym hcs_strtab = "ptr \<times> hcs_strings list"

type_synonym hcs_descs = "ptr \<times> (ptr \<times> u8 list) list"

record hcs_function =
  hf_at :: ptr
  hf_name :: string
  hf_strings :: hcs_strtab
  hf_fs :: "hcs_descs option"
  hf_hs :: "hcs_descs option"
  hf_ss :: "hcs_descs option"
  hf_ssp :: "hcs_descs option"

record hcs_config =
  hc_at :: ptr
  hc_value :: u8
  hc_index :: u8
  hc_attributes :: u8
  hc_maxPower :: u16
  hc_functions :: "ptr \<times> hcs_function list"

record hcs_device =
  hd_at :: ptr
  hd_desc :: "ptr \<times> UsbDeviceDescriptor"
  hd_strings :: hcs_strtab
  hd_configs :: "ptr \<times> hcs_config list"

text \<open>\<open>fn_blocks\<close> has the structs of a description that the configuration manager has read.\<close>

record UsbFnDeviceDesc =
  deviceDesc :: "UsbDeviceDescriptor option"
  deviceStrings :: "UsbFnStrings list option"
  fn_configs :: "UsbFnConfiguration list option"
  fn_blocks :: "hcs_device option"

text \<open>The bytes of a C string.\<close>

definition bytes_of :: "string \<Rightarrow> u8 list" where
  "bytes_of t = map (\<lambda>c. of_nat (of_char c)) t"

text \<open>The union of \<open>struct UsbFnDescriptorData\<close>: a node of the resource tree, or a description.\<close>

datatype UsbFnDescData = DescProp nat | DescDesc "UsbFnDeviceDesc option"

record UsbFnDescriptorData =
  fd_data :: UsbFnDescData
  functionMask :: u8

subsection \<open>Requests and events\<close>

datatype UsbFnRequestType = REQUEST_TYPE_INVALID | REQUEST_TYPE_PIPE_WRITE | REQUEST_TYPE_PIPE_READ

datatype UsbPipeDirection = PIPE_DIRECTION_OUT | PIPE_DIRECTION_IN

text \<open>\<open>q_complete\<close> and \<open>q_context\<close> identify the client's callback and its data.\<close>

record UsbFnRequest =
  q_obj :: "ptr option"
  q_buf :: ptr
  q_length :: u32
  q_type :: UsbFnRequestType
  q_status :: int
  q_actual :: u32
  q_complete :: "nat option"
  q_context :: "nat option"

text \<open>The list that a request is linked into: of an element of an array of functions, or of a handle.\<close>

datatype req_owner = InFunc ptr nat | InHandle ptr

record ReqList =
  rl_req :: UsbFnRequest
  rl_entry :: req_owner
  rl_pipe :: u8
  rl_fd :: int
  rl_buf :: ptr
  rl_bufLen :: u32
  rl_handle :: ptr

record UsbFnPipeInfo =
  xp_id :: u8
  xp_type :: u8
  xp_dir :: UsbPipeDirection
  xp_maxPacketSize :: u16
  xp_interval :: u8

record IoData =
  io_aio :: u32
  io_read :: u32
  io_len :: u32
  io_timeout :: u32
  io_buf :: ptr

record UsbFnReqEvent =
  re_buf :: ptr
  re_actual :: u32
  re_status :: int

record UsbFnCtrlRequest =
  cr_reqType :: u8
  cr_request :: u8
  cr_value :: u16
  cr_index :: u16
  cr_length :: u16

record UsbFnCtrlEvent =
  ce_setup :: UsbFnCtrlRequest
  ce_type :: u8

datatype UsbEp0Event = EP0_INVALID | EP0_CTRL_EVENT UsbFnCtrlEvent | EP0_IO_COMPLETED UsbFnReqEvent

text \<open>
  \<open>struct UsbFnEventAll\<close>.  Only the first \<open>ep0Num\<close> and \<open>epNum\<close> entries of its arrays are used, so
  that the counters are the lengths of the lists; \<open>ev_numEvent\<close> is an \<open>uint8_t\<close>.
\<close>

record UsbFnEventAll =
  ev_ep0 :: "int list"
  ev_ep0Event :: "UsbEp0Event list"
  ev_epx :: "int list"
  ev_reqEvent :: "ptr option list"
  ev_numEvent :: "u8 list"

subsection \<open>Objects of the managers\<close>

text \<open>An element of an array is named by the address of the array and its index.\<close>

type_synonym elem = "ptr \<times> nat"

record UsbHandleMgr =
  numFd :: nat
  hm_fds :: "int list"
  hm_intfMgr :: "elem option"
  hm_reqEntry :: "ptr list"
  hm_reqEvent :: "ptr option list"

record UsbFnFuncMgr =
  fm_object :: "ptr option"
  fm_fd :: int
  fm_name :: string
  fm_callback :: "nat option"
  fm_eventMask :: u32
  fm_context :: "nat option"
  fm_reqEntry :: "ptr list"

record UsbFnInterfaceInfo =
  xi_index :: u8
  xi_numPipes :: u8
  xi_interfaceClass :: u8
  xi_subclass :: u8
  xi_protocol :: u8
  xi_configIndex :: u8

record UsbFnInterfaceMgr =
  im_object :: "ptr option"
  im_info :: UsbFnInterfaceInfo
  im_funcMgr :: "elem option"
  im_handle :: "ptr option"
  startEpId :: u8
  isOpen :: bool

record UsbFnDeviceMgr =
  dm_objectId :: int
  dm_numInterfaces :: u8
  numFunc :: u8
  dm_funcMgr :: "ptr option"
  dm_name :: string
  dm_udcName :: string
  devState :: nat
  dm_interfaceMgr :: "ptr option"
  dm_node :: "nat option"
  dm_des :: "UsbFnDeviceDesc option"
  dm_running :: bool

definition MAX_REQUEST :: nat where "MAX_REQUEST = 64"
definition MAX_NAMELEN :: nat where "MAX_NAMELEN = 64"
definition MAX_EP :: nat where "MAX_EP = 16"
definition MAX_EP0_NUM :: nat where "MAX_EP0_NUM = 5"
definition MAX_BUFLEN :: u32 where "MAX_BUFLEN = 2048"
definition OPEN_CNT :: nat where "OPEN_CNT = 30"

definition FUNCTION_GENERIC :: string where "FUNCTION_GENERIC = ''f_generic''"
definition FUNCTION_GENERIC_ECM :: string where "FUNCTION_GENERIC_ECM = ''f_generic.e''"
definition FUNCTION_GENERIC_ACM :: string where "FUNCTION_GENERIC_ACM = ''f_generic.a''"
definition FUNCTION_ACM_MASK :: u8 where "FUNCTION_ACM_MASK = 1"
definition FUNCTION_ECM_MASK :: u8 where "FUNCTION_ECM_MASK = 2"

text \<open>\<open>strncmp (s, p, strlen (p)) == 0\<close>.\<close>

definition has_prefix :: "string \<Rightarrow> string \<Rightarrow> bool" where
  "has_prefix p s \<longleftrightarrow> take (length p) s = p"

definition zero_reqEvent :: UsbFnReqEvent where
  "zero_reqEvent = \<lparr>re_buf = 0, re_actual = 0, re_status = 0\<rparr>"

definition zero_ctrlEvent :: UsbFnCtrlEvent where
  "zero_ctrlEvent = \<lparr>ce_setup = \<lparr>cr_reqType = 0, cr_request = 0, cr_value = 0, cr_index = 0, cr_length = 0\<rparr>, ce_type = 0\<rparr>"

definition zero_fnRequest :: UsbFnRequest where
  "zero_fnRequest = \<lparr>q_obj = None, q_buf = 0, q_length = 0, q_type = REQUEST_TYPE_INVALID, q_status = 0,
     q_actual = 0, q_complete = None, q_context = None\<rparr>"

definition zero_handleMgr :: UsbHandleMgr where
  "zero_handleMgr = \<lparr>numFd = 0, hm_fds = replicate MAX_EP 0, hm_intfMgr = None, hm_reqEntry = [],
     hm_reqEvent = replicate MAX_EP None\<rparr>"

definition zero_funcMgr :: UsbFnFuncMgr where
  "zero_funcMgr = \<lparr>fm_object = None, fm_fd = 0, fm_name = [], fm_callback = None, fm_eventMask = 0,
     fm_context = None, fm_reqEntry = []\<rparr>"

definition zero_interfaceMgr :: UsbFnInterfaceMgr where
  "zero_interfaceMgr = \<lparr>im_object = None, im_info = \<lparr>xi_index = 0, xi_numPipes = 0, xi_interfaceClass = 0,
     xi_subclass = 0, xi_protocol = 0, xi_configIndex = 0\<rparr>, im_funcMgr = None, im_handle = None,
     startEpId = 0, isOpen = False\<rparr>"

definition zero_deviceMgr :: UsbFnDeviceMgr where
  "zero_deviceMgr = \<lparr>dm_objectId = 0, dm_numInterfaces = 0, numFunc = 0, dm_funcMgr = None, dm_name = [],
     dm_udcName = [], devState = 0, dm_interfaceMgr = None, dm_node = None, dm_des = None, dm_running = False\<rparr>"

text \<open>An entry of the list of properties; the callbacks are identified by numbers.\<close>

record UsbFnCfgPropMgr =
  pc_intf :: elem
  pc_name :: string
  pc_value :: string
  pc_isDevProp :: bool
  pc_getProp :: "nat option"
  pc_setProp :: "nat option"

subsection \<open>System calls\<close>

text \<open>
  The kernel and the thread library: each field takes the kernel's state and returns its result with the
  new state.  \<open>fo_open\<close>, \<open>fo_close\<close>, \<open>fo_write\<close>, \<open>fo_munmap\<close> and the \<open>ioctl\<close>s return the C result.
  \<open>fo_poll\<close> returns the result with, per descriptor, whether input and output are ready;
  \<open>fo_read_ctrl\<close>, \<open>fo_ep0_event\<close> and \<open>fo_read_req\<close> return \<open>None\<close> when the call fails and leaves the buffer as
  it is, and \<open>fo_read_req\<close> otherwise the events read.  The fields from \<open>fo_opendir\<close> to \<open>fo_delfn\<close> are the calls on
  the configuration file system: \<open>fo_opendir\<close> returns the names in a directory, \<open>fo_fopen\<close>, \<open>fo_fwrite\<close> and
  \<open>fo_fclose\<close> whether the call succeeds (a file is named by its path; the flag of \<open>fo_fopen\<close> is the mode \<open>w\<close>), and
  \<open>fo_fread\<close> the bytes that were read.  \<open>fo_drs\<close> is the interface to the resource tree, if there is one.
\<close>

text \<open>
  \<open>struct DeviceResourceIface\<close> of the driver framework, which reads the resource tree: nodes are numbers, and
  \<open>None\<close> stands for a result other than \<open>HDF_SUCCESS\<close> and for a null pointer.
\<close>

record drs_ops =
  dr_uint8 :: "nat \<Rightarrow> string \<Rightarrow> u8 option"
  dr_elemNum :: "nat \<Rightarrow> string \<Rightarrow> int"
  dr_strElem :: "nat \<Rightarrow> string \<Rightarrow> nat \<Rightarrow> string option"
  dr_child :: "nat \<Rightarrow> string \<Rightarrow> nat option"
  dr_string :: "nat \<Rightarrow> string \<Rightarrow> string option"
  dr_uint16 :: "nat \<Rightarrow> string \<Rightarrow> u16 option"
  dr_uint32 :: "nat \<Rightarrow> string \<Rightarrow> u32 option"
  dr_uint8s :: "nat \<Rightarrow> string \<Rightarrow> nat \<Rightarrow> u8 list option"

record 'k fn_os =
  fo_alloc :: alloc_os
  fo_open :: "string \<Rightarrow> 'k \<Rightarrow> int \<times> 'k"
  fo_close :: "int \<Rightarrow> 'k \<Rightarrow> int \<times> 'k"
  fo_queue_init :: "int \<Rightarrow> 'k \<Rightarrow> int \<times> 'k"
  fo_queue_del :: "int \<Rightarrow> 'k \<Rightarrow> int \<times> 'k"
  fo_release_buf :: "int \<Rightarrow> ptr \<Rightarrow> u32 \<Rightarrow> 'k \<Rightarrow> int \<times> 'k"
  fo_endpoint_io :: "bool \<Rightarrow> int \<Rightarrow> IoData \<Rightarrow> 'k \<Rightarrow> int \<times> 'k"
  fo_cancel :: "int \<Rightarrow> IoData \<Rightarrow> 'k \<Rightarrow> int \<times> 'k"
  fo_req_status :: "int \<Rightarrow> IoData \<Rightarrow> 'k \<Rightarrow> int \<times> 'k"
  fo_mmap :: "int \<Rightarrow> u32 \<Rightarrow> 'k \<Rightarrow> ptr \<times> 'k"
  fo_munmap :: "ptr \<Rightarrow> u32 \<Rightarrow> 'k \<Rightarrow> int \<times> 'k"
  fo_ep_desc :: "int \<Rightarrow> 'k \<Rightarrow> UsbEndpointDescriptor option \<times> 'k"
  fo_poll :: "int list \<Rightarrow> int \<Rightarrow> 'k \<Rightarrow> (int \<times> (nat \<Rightarrow> bool \<times> bool)) \<times> 'k"
  fo_read_ctrl :: "int \<Rightarrow> 'k \<Rightarrow> UsbFnCtrlEvent option \<times> 'k"
  fo_ep0_event :: "int \<Rightarrow> 'k \<Rightarrow> UsbFnReqEvent option \<times> 'k"
  fo_read_req :: "int \<Rightarrow> nat \<Rightarrow> 'k \<Rightarrow> UsbFnReqEvent list option \<times> 'k"
  fo_write :: "int \<Rightarrow> u8 list \<Rightarrow> 'k \<Rightarrow> int \<times> 'k"
  fo_opendir :: "string \<Rightarrow> 'k \<Rightarrow> string list option \<times> 'k"
  fo_isdir :: "string \<Rightarrow> 'k \<Rightarrow> bool \<times> 'k"
  fo_mkdir :: "string \<Rightarrow> 'k \<Rightarrow> int \<times> 'k"
  fo_rmdir :: "string \<Rightarrow> 'k \<Rightarrow> int \<times> 'k"
  fo_remove :: "string \<Rightarrow> 'k \<Rightarrow> int \<times> 'k"
  fo_symlink :: "string \<Rightarrow> string \<Rightarrow> 'k \<Rightarrow> int \<times> 'k"
  fo_fopen :: "string \<Rightarrow> bool \<Rightarrow> 'k \<Rightarrow> bool \<times> 'k"
  fo_fwrite :: "string \<Rightarrow> string \<Rightarrow> 'k \<Rightarrow> bool \<times> 'k"
  fo_fread :: "string \<Rightarrow> nat \<Rightarrow> 'k \<Rightarrow> string \<times> 'k"
  fo_fclose :: "string \<Rightarrow> 'k \<Rightarrow> bool \<times> 'k"
  fo_system :: "string \<Rightarrow> 'k \<Rightarrow> 'k"
  fo_newfn :: "int \<Rightarrow> string \<Rightarrow> 'k \<Rightarrow> int \<times> 'k"
  fo_delfn :: "int \<Rightarrow> string \<Rightarrow> 'k \<Rightarrow> int \<times> 'k"
  fo_thread_create :: "'k \<Rightarrow> ret \<times> 'k"
  fo_thread_start :: "'k \<Rightarrow> ret \<times> 'k"
  fo_thread_destroy :: "'k \<Rightarrow> ret \<times> 'k"
  fo_drs :: "drs_ops option"

subsection \<open>The store\<close>

text \<open>The calls of client callbacks, in order.\<close>

datatype fn_event =
    CompleteCalled nat u8 ptr u32 int
  | EventCalled nat UsbFnCtrlRequest u8 "nat option"
  | PropCalled nat elem string string

text \<open>\<open>g_devEntry\<close> and \<open>g_cfgEntry\<close> are \<open>None\<close> before the list head is initialised.\<close>

record 'k gadget =
  g_mem :: usbmem
  g_kern :: 'k
  g_fdevs :: "ptr \<Rightarrow> UsbFnDeviceMgr option"
  g_intfs :: "ptr \<Rightarrow> UsbFnInterfaceMgr list option"
  g_funcs :: "ptr \<Rightarrow> UsbFnFuncMgr list option"
  g_fhandles :: "ptr \<Rightarrow> UsbHandleMgr option"
  g_freqs :: "ptr \<Rightarrow> ReqList option"
  g_revents :: "ptr \<Rightarrow> UsbFnReqEvent list option"
  g_devEntry :: "ptr list option"
  g_log :: "fn_event list"
  g_props :: "ptr \<Rightarrow> UsbFnCfgPropMgr option"
  g_cfgEntry :: "ptr list option"

abbreviation put_fdev :: "ptr \<Rightarrow> UsbFnDeviceMgr \<Rightarrow> 'k gadget \<Rightarrow> 'k gadget" where
  "put_fdev p d s \<equiv> s\<lparr>g_fdevs := (g_fdevs s)(p \<mapsto> d)\<rparr>"

abbreviation put_fhandle :: "ptr \<Rightarrow> UsbHandleMgr \<Rightarrow> 'k gadget \<Rightarrow> 'k gadget" where
  "put_fhandle p d s \<equiv> s\<lparr>g_fhandles := (g_fhandles s)(p \<mapsto> d)\<rparr>"

abbreviation put_freq :: "ptr \<Rightarrow> ReqList \<Rightarrow> 'k gadget \<Rightarrow> 'k gadget" where
  "put_freq p d s \<equiv> s\<lparr>g_freqs := (g_freqs s)(p \<mapsto> d)\<rparr>"

abbreviation set_fkern :: "'k \<Rightarrow> 'k gadget \<Rightarrow> 'k gadget" where
  "set_fkern k s \<equiv> s\<lparr>g_kern := k\<rparr>"

text \<open>Reading and writing an element of an array of interfaces or functions.\<close>

definition get_intf :: "elem \<Rightarrow> 'k gadget \<Rightarrow> UsbFnInterfaceMgr option" where
  "get_intf e s = do { xs \<leftarrow> g_intfs s (fst e); if snd e < length xs then Some (xs ! snd e) else None }"

definition put_intf :: "elem \<Rightarrow> UsbFnInterfaceMgr \<Rightarrow> 'k gadget \<Rightarrow> 'k gadget" where
  "put_intf e x s = (case g_intfs s (fst e) of None \<Rightarrow> s
     | Some xs \<Rightarrow> s\<lparr>g_intfs := (g_intfs s)(fst e \<mapsto> xs[snd e := x])\<rparr>)"

definition get_func :: "elem \<Rightarrow> 'k gadget \<Rightarrow> UsbFnFuncMgr option" where
  "get_func e s = do { xs \<leftarrow> g_funcs s (fst e); if snd e < length xs then Some (xs ! snd e) else None }"

definition put_func :: "elem \<Rightarrow> UsbFnFuncMgr \<Rightarrow> 'k gadget \<Rightarrow> 'k gadget" where
  "put_func e x s = (case g_funcs s (fst e) of None \<Rightarrow> s
     | Some xs \<Rightarrow> s\<lparr>g_funcs := (g_funcs s)(fst e \<mapsto> xs[snd e := x])\<rparr>)"

subsection \<open>Memory\<close>

text \<open>
  \<open>UsbFnMemCalloc\<close> and \<open>UsbFnMemFree\<close> of \<open>adapter_if.c\<close>: as the wrappers of the host, but neither the size
  nor the allocation of the tracker's entry is checked.
\<close>

definition UsbFnMemCalloc :: "alloc_os \<Rightarrow> nat \<Rightarrow> usbmem \<Rightarrow> (ptr option \<times> usbmem) option" where
  "UsbFnMemCalloc os sz m =
     (case OsalMemAlloc os sz m of
        (None, m1) \<Rightarrow> Some (None, m1)
      | (Some buf, m1) \<Rightarrow>
          if g_usbRamTestFlag m1 then
            do { ((h, es), m2) \<leftarrow> ram_head os m1;
                 (case OsalMemAlloc os sizeof_RamTestList m2 of
                    (None, m3) \<Rightarrow> None
                  | (Some e, m3) \<Rightarrow>
                      Some (Some buf, m3\<lparr>g_usbRamTestHead :=
                        Some (h, es @ [\<lparr>re_self = e, re_address = buf, re_size = of_nat sz\<rparr>])\<rparr>)) }
          else Some (Some buf, m1))"

definition UsbFnMemAlloc :: "alloc_os \<Rightarrow> nat \<Rightarrow> usbmem \<Rightarrow> (ptr option \<times> usbmem) option" where
  "UsbFnMemAlloc = UsbFnMemCalloc"

definition UsbFnMemFree :: "ptr option \<Rightarrow> usbmem \<Rightarrow> usbmem option" where
  "UsbFnMemFree mem m =
     (case mem of
        None \<Rightarrow> Some m
      | Some p \<Rightarrow>
          (case g_usbRamTestHead m of
             Some (h, es) \<Rightarrow>
               if g_usbRamTestFlag m then
                 do { (es', m1) \<leftarrow> ram_unlink p es m;
                      OsalMemFree p (m1\<lparr>g_usbRamTestHead := Some (h, es')\<rparr>) }
               else OsalMemFree p m
           | None \<Rightarrow> OsalMemFree p m))"

definition UsbFnAdpMemTestTrigger :: "bool \<Rightarrow> 'k gadget \<Rightarrow> ret \<times> 'k gadget" where
  "UsbFnAdpMemTestTrigger enable s = (HDF_SUCCESS, s\<lparr>g_mem := (g_mem s)\<lparr>g_usbRamTestFlag := enable\<rparr>\<rparr>)"

text \<open>Allocation and release in the store: a freed block disappears from every heap.\<close>

definition galloc :: "'k fn_os \<Rightarrow> nat \<Rightarrow> 'k gadget \<Rightarrow> (ptr option \<times> 'k gadget) option" where
  "galloc K n s = do { (p, m) \<leftarrow> UsbFnMemCalloc (fo_alloc K) n (g_mem s); Some (p, s\<lparr>g_mem := m\<rparr>) }"

definition gfree :: "ptr option \<Rightarrow> 'k gadget \<Rightarrow> 'k gadget option" where
  "gfree q s =
     do { m \<leftarrow> UsbFnMemFree q (g_mem s);
          Some (case q of None \<Rightarrow> s\<lparr>g_mem := m\<rparr>
                | Some p \<Rightarrow> s\<lparr>g_mem := m, g_fdevs := (g_fdevs s)(p := None), g_intfs := (g_intfs s)(p := None),
                     g_funcs := (g_funcs s)(p := None), g_fhandles := (g_fhandles s)(p := None),
                     g_freqs := (g_freqs s)(p := None), g_revents := (g_revents s)(p := None), g_props := (g_props s)(p := None)\<rparr>) }"

lemma galloc_off:
  assumes "\<not> g_usbRamTestFlag (g_mem s)"
  shows "galloc K n s =
    (if fo_alloc K (nextAddr (g_mem s)) n
     then Some (Some (nextAddr (g_mem s)), s\<lparr>g_mem := (g_mem s)\<lparr>nextAddr := nextAddr (g_mem s) + 1,
        live := insert (nextAddr (g_mem s)) (live (g_mem s))\<rparr>\<rparr>)
     else Some (None, s\<lparr>g_mem := (g_mem s)\<lparr>nextAddr := nextAddr (g_mem s) + 1\<rparr>\<rparr>))"
  using assms by (simp add: galloc_def UsbFnMemCalloc_def OsalMemAlloc_def)

lemma gfree_off:
  assumes "\<not> g_usbRamTestFlag (g_mem s)" "p \<in> live (g_mem s)"
  shows "gfree (Some p) s = Some (s\<lparr>g_mem := (g_mem s)\<lparr>live := live (g_mem s) - {p}\<rparr>,
     g_fdevs := (g_fdevs s)(p := None), g_intfs := (g_intfs s)(p := None),
     g_funcs := (g_funcs s)(p := None), g_fhandles := (g_fhandles s)(p := None),
     g_freqs := (g_freqs s)(p := None), g_revents := (g_revents s)(p := None), g_props := (g_props s)(p := None)\<rparr>)"
  using assms by (simp add: gfree_def UsbFnMemFree_def OsalMemFree_def split: option.splits)

lemma gfree_null [simp]: "gfree None s = Some s"
  by (simp add: gfree_def UsbFnMemFree_def)

text \<open>Allocation succeeds and the tracker is off.\<close>

definition mem_quiet :: "'k fn_os \<Rightarrow> 'k gadget \<Rightarrow> bool" where
  "mem_quiet K s \<longleftrightarrow> \<not> g_usbRamTestFlag (g_mem s) \<and> mem_ok (g_mem s) \<and> (\<forall>i n. fo_alloc K i n)"

text \<open>A temporary block: allocated, used for one call, released.\<close>

lemma galloc_gfree:
  assumes "mem_quiet K s"
  obtains a s1 s2 where "galloc K n s = Some (Some a, s1)" "g_kern s1 = g_kern s"
    "gfree (Some a) (set_fkern k s1) = Some s2" "g_kern s2 = k" "live (g_mem s2) = live (g_mem s)" "mem_quiet K s2"
proof -
  let ?a = "nextAddr (g_mem s)"
  have a: "?a \<notin> live (g_mem s)" using assms by (auto simp: mem_quiet_def mem_ok_def)
  have al: "galloc K n s = Some (Some ?a, s\<lparr>g_mem := (g_mem s)\<lparr>nextAddr := ?a + 1, live := insert ?a (live (g_mem s))\<rparr>\<rparr>)"
    (is "_ = Some (_, ?s1)") using assms by (simp add: mem_quiet_def galloc_off)
  obtain s2 where fr: "gfree (Some ?a) (set_fkern k ?s1) = Some s2"
    "g_mem s2 = (g_mem s)\<lparr>nextAddr := ?a + 1, live := insert ?a (live (g_mem s)) - {?a}\<rparr>" "g_kern s2 = k"
    using assms by (simp add: mem_quiet_def gfree_off)
  have lv: "insert ?a (live (g_mem s)) - {?a} = live (g_mem s)" using a by auto
  have "mem_quiet K s2" using assms fr(2) lv by (auto simp: mem_quiet_def mem_ok_def less_Suc_eq)
  then show ?thesis using that[OF al _ fr(1,3)] fr(2) lv by simp
qed

subsection \<open>Examples\<close>

text \<open>An operating system that refuses every call, and the state before any call; examples extend them.\<close>

definition null_fn_os :: "'k fn_os" where
  "null_fn_os = \<lparr>fo_alloc = (\<lambda>n sz. True), fo_open = (\<lambda>f k. (-1, k)), fo_close = (\<lambda>f k. (-1, k)),
     fo_queue_init = (\<lambda>f k. (-1, k)), fo_queue_del = (\<lambda>f k. (-1, k)), fo_release_buf = (\<lambda>f b n k. (-1, k)),
     fo_endpoint_io = (\<lambda>r f d k. (-1, k)), fo_cancel = (\<lambda>f d k. (-1, k)), fo_req_status = (\<lambda>f d k. (-1, k)),
     fo_mmap = (\<lambda>f n k. (2 ^ 64 - 1, k)), fo_munmap = (\<lambda>a n k. (-1, k)), fo_ep_desc = (\<lambda>f k. (None, k)),
     fo_poll = (\<lambda>fs t k. ((-1, \<lambda>i. (False, False)), k)), fo_read_ctrl = (\<lambda>f k. (None, k)),
     fo_ep0_event = (\<lambda>f k. (None, k)), fo_read_req = (\<lambda>f n k. (None, k)), fo_write = (\<lambda>f b k. (-1, k)),
     fo_opendir = (\<lambda>p k. (None, k)), fo_isdir = (\<lambda>p k. (False, k)), fo_mkdir = (\<lambda>p k. (-1, k)), fo_rmdir = (\<lambda>p k. (-1, k)),
     fo_remove = (\<lambda>p k. (-1, k)), fo_symlink = (\<lambda>p q k. (-1, k)), fo_fopen = (\<lambda>p w k. (False, k)), fo_fwrite = (\<lambda>p b k. (False, k)),
     fo_fread = (\<lambda>p n k. ([], k)), fo_fclose = (\<lambda>p k. (False, k)), fo_system = (\<lambda>c k. k), fo_newfn = (\<lambda>f n k. (-1, k)), fo_delfn = (\<lambda>f n k. (-1, k)),
     fo_thread_create = (\<lambda>k. (RetErr HDF_FAILURE, k)), fo_thread_start = (\<lambda>k. (RetErr HDF_FAILURE, k)),
     fo_thread_destroy = (\<lambda>k. (RetErr HDF_FAILURE, k)), fo_drs = None\<rparr>"

definition null_gadget :: "'k \<Rightarrow> 'k gadget" where
  "null_gadget k = \<lparr>g_mem = \<lparr>nextAddr = 100, live = {}, g_usbRamTestFlag = False, g_usbRamTestHead = None\<rparr>,
     g_kern = k, g_fdevs = Map.empty, g_intfs = Map.empty, g_funcs = Map.empty, g_fhandles = Map.empty,
     g_freqs = Map.empty, g_revents = Map.empty, g_devEntry = None, g_log = [], g_props = Map.empty, g_cfgEntry = None\<rparr>"

subsection \<open>Numbers in names\<close>

text \<open>The conversion \<open>%d\<close> of a number that is not negative.\<close>

fun dec_string :: "nat \<Rightarrow> string" where
  "dec_string n = (if n < 10 then [char_of (48 + n)] else dec_string (n div 10) @ [char_of (48 + n mod 10)])"

declare dec_string.simps [simp del]

text \<open>\<open>snprintf_s\<close> and \<open>sprintf_s\<close> into a buffer of \<open>n\<close> bytes fail when the text does not fit.\<close>

definition fits :: "nat \<Rightarrow> string \<Rightarrow> bool" where
  "fits n t \<longleftrightarrow> length t < n"

end
