(* ===== verification/Usbfn_Adapter.thy ===== *)
theory Usbfn_Adapter
  imports Usbfn_State
begin

text \<open>
  The Linux adapter of the device side (\<open>usb/ddk/device/src/adapter_if.c\<close>): opening, closing and using
  endpoint files, polling for events, and the two blocks of bytes that describe a function to the
  function file system.  The part that builds the device in the configuration file system is a
  field of \<open>K\<close>.
\<close>

text \<open>A file descriptor or a negative error code: callers look only at the sign of a code.\<close>

definition fd_of :: "ret \<Rightarrow> int" where
  "fd_of r = (case r of RetVal n \<Rightarrow> n | RetErr e \<Rightarrow> -1 | RetSec \<Rightarrow> -1)"

subsection \<open>Endpoint files\<close>

fun open_retry :: "'k fn_os \<Rightarrow> nat \<Rightarrow> string \<Rightarrow> int \<Rightarrow> 'k \<Rightarrow> int \<times> 'k" where
  "open_retry K 0 name ep k = (ep, k)"
| "open_retry K (Suc n) name ep k =
     (case fo_open K name k of (e, k1) \<Rightarrow> if e > 0 then (e, k1) else open_retry K n name e k1)"

definition UsbFnAdapterOpenPipe :: "'k fn_os \<Rightarrow> string \<Rightarrow> int \<Rightarrow> 'k gadget \<Rightarrow> ret \<times> 'k gadget" where
  "UsbFnAdapterOpenPipe K interfaceName epIndex s =
     (if epIndex < 0 then (RetErr HDF_ERR_INVALID_PARAM, s)
      else let epName = ''/dev/functionfs/'' @ interfaceName @ ''.ep'' @ dec_string (nat epIndex) in
        if \<not> fits MAX_NAMELEN epName then (RetErr HDF_ERR_IO, s)
        else case open_retry K OPEN_CNT epName (-1) (g_kern s) of
          (ep, k) \<Rightarrow> if ep < 0 then (RetErr HDF_DEV_ERR_NO_DEVICE, set_fkern k s) else (RetVal ep, set_fkern k s))"

definition UsbFnAdapterClosePipe :: "'k fn_os \<Rightarrow> int \<Rightarrow> 'k gadget \<Rightarrow> ret \<times> 'k gadget" where
  "UsbFnAdapterClosePipe K ep s =
     (if ep \<le> 0 then (RetErr HDF_ERR_INVALID_PARAM, s)
      else case fo_close K ep (g_kern s) of (r, k) \<Rightarrow> (RetVal r, set_fkern k s))"

definition UsbFnAdapterGetPipeInfo ::
  "'k fn_os \<Rightarrow> int \<Rightarrow> UsbFnPipeInfo \<Rightarrow> 'k gadget \<Rightarrow> ret \<times> UsbFnPipeInfo \<times> 'k gadget" where
  "UsbFnAdapterGetPipeInfo K ep info s =
     (if ep \<le> 0 then (RetErr HDF_ERR_INVALID_PARAM, info, s)
      else case fo_ep_desc K ep (g_kern s) of
        (None, k) \<Rightarrow> (RetErr HDF_ERR_IO, info, set_fkern k s)
      | (Some d, k) \<Rightarrow>
          (HDF_SUCCESS, info\<lparr>xp_type := e_bmAttributes d,
             xp_dir := (if e_bEndpointAddress d AND 0x80 \<noteq> 0 then PIPE_DIRECTION_IN else PIPE_DIRECTION_OUT),
             xp_maxPacketSize := e_wMaxPacketSize d, xp_interval := e_bInterval d\<rparr>, set_fkern k s))"

definition UsbFnAdapterQueueInit :: "'k fn_os \<Rightarrow> int \<Rightarrow> 'k gadget \<Rightarrow> ret \<times> 'k gadget" where
  "UsbFnAdapterQueueInit K ep s =
     (if ep \<le> 0 then (RetErr HDF_ERR_INVALID_PARAM, s)
      else case fo_queue_init K ep (g_kern s) of (r, k) \<Rightarrow> (RetVal r, set_fkern k s))"

definition UsbFnAdapterQueueDel :: "'k fn_os \<Rightarrow> int \<Rightarrow> 'k gadget \<Rightarrow> ret \<times> 'k gadget" where
  "UsbFnAdapterQueueDel K ep s =
     (if ep \<le> 0 then (RetErr HDF_ERR_INVALID_PARAM, s)
      else case fo_queue_del K ep (g_kern s) of (r, k) \<Rightarrow> (RetVal r, set_fkern k s))"

definition UsbFnAdapterReleaseBuf :: "'k fn_os \<Rightarrow> int \<Rightarrow> ptr \<Rightarrow> u32 \<Rightarrow> 'k gadget \<Rightarrow> ret \<times> 'k gadget" where
  "UsbFnAdapterReleaseBuf K ep buf sz s =
     (if ep \<le> 0 then (RetErr HDF_ERR_INVALID_PARAM, s)
      else case fo_release_buf K ep buf sz (g_kern s) of (r, k) \<Rightarrow> (RetVal r, set_fkern k s))"

definition UsbFnAdapterPipeIo :: "'k fn_os \<Rightarrow> int \<Rightarrow> IoData \<Rightarrow> 'k gadget \<Rightarrow> ret \<times> 'k gadget" where
  "UsbFnAdapterPipeIo K ep ioData s =
     (if ep \<le> 0 then (RetErr HDF_ERR_INVALID_PARAM, s)
      else case fo_endpoint_io K (io_read ioData \<noteq> 0) ep ioData (g_kern s) of (r, k) \<Rightarrow> (RetVal r, set_fkern k s))"

definition UsbFnAdapterCancelIo :: "'k fn_os \<Rightarrow> int \<Rightarrow> IoData \<Rightarrow> 'k gadget \<Rightarrow> ret \<times> 'k gadget" where
  "UsbFnAdapterCancelIo K ep ioData s =
     (if ep \<le> 0 then (RetErr HDF_ERR_INVALID_PARAM, s)
      else case fo_cancel K ep ioData (g_kern s) of (r, k) \<Rightarrow> (RetVal r, set_fkern k s))"

definition UsbFnAdapterRequestGetStatus :: "'k fn_os \<Rightarrow> int \<Rightarrow> IoData \<Rightarrow> 'k gadget \<Rightarrow> ret \<times> 'k gadget" where
  "UsbFnAdapterRequestGetStatus K ep ioData s =
     (if ep \<le> 0 then (RetErr HDF_ERR_INVALID_PARAM, s)
      else case fo_req_status K ep ioData (g_kern s) of (r, k) \<Rightarrow> (RetVal r, set_fkern k s))"

text \<open>A failed \<open>mmap\<close> returns an address that is not null.\<close>

definition UsbFnAdapterMapAddr :: "'k fn_os \<Rightarrow> int \<Rightarrow> u32 \<Rightarrow> 'k gadget \<Rightarrow> ptr option \<times> 'k gadget" where
  "UsbFnAdapterMapAddr K ep len s =
     (if ep \<le> 0 then (None, s)
      else case fo_mmap K ep len (g_kern s) of (a, k) \<Rightarrow> (Some a, set_fkern k s))"

definition UsbFnAdapterUnmapAddr :: "'k fn_os \<Rightarrow> ptr \<Rightarrow> u32 \<Rightarrow> 'k gadget \<Rightarrow> ret \<times> 'k gadget" where
  "UsbFnAdapterUnmapAddr K mapAddr len s =
     (if mapAddr = 0 then (RetErr HDF_ERR_INVALID_PARAM, s)
      else case fo_munmap K mapAddr len (g_kern s) of (r, k) \<Rightarrow> (RetVal r, set_fkern k s))"

subsection \<open>Events\<close>

text \<open>The loop of \<open>Ep0Event\<close> from index \<open>i\<close> on.\<close>

fun Ep0Event ::
  "'k fn_os \<Rightarrow> (nat \<Rightarrow> bool \<times> bool) \<Rightarrow> nat \<Rightarrow> int list \<Rightarrow> UsbEp0Event list \<Rightarrow> 'k \<Rightarrow> UsbEp0Event list \<times> 'k" where
  "Ep0Event K rv i (f # fs) (e # es) k =
     (case (if fst (rv i)
            then (case fo_read_ctrl K f k of
                    (c, k1) \<Rightarrow> (EP0_CTRL_EVENT (case c of None \<Rightarrow> zero_ctrlEvent | Some x \<Rightarrow> x), k1))
            else if snd (rv i)
            then (case fo_ep0_event K f k of
                    (c, k1) \<Rightarrow> (EP0_IO_COMPLETED (case c of None \<Rightarrow> zero_reqEvent | Some x \<Rightarrow> x), k1))
            else (e, k)) of
        (e', k1) \<Rightarrow> (case Ep0Event K rv (Suc i) fs es k1 of (es', k2) \<Rightarrow> (e' # es', k2)))"
| "Ep0Event K rv i fs es k = (es, k)"

text \<open>
  The loop of \<open>EpEvent\<close>; \<open>i\<close> is the index into the poll array.  A failed \<open>read\<close> is the \<open>size_t\<close> image of
  \<open>-1\<close>, divided by the 16 bytes of an event and cut to \<open>uint8_t\<close>.
\<close>

fun EpEvent ::
  "'k fn_os \<Rightarrow> (nat \<Rightarrow> bool \<times> bool) \<Rightarrow> nat \<Rightarrow> int list \<Rightarrow> ptr option list \<Rightarrow> u8 list \<Rightarrow> 'k gadget \<Rightarrow>
   (u8 list \<times> 'k gadget) option" where
  "EpEvent K rv i (f # fs) (q # qs) (n # ns) s =
     do { (n', s1) \<leftarrow>
            (if fst (rv i) then
               do { a \<leftarrow> q; old \<leftarrow> g_revents s a;
                    case fo_read_req K f MAX_REQUEST (g_kern s) of
                      (None, k) \<Rightarrow> Some (of_nat ((2 ^ 64 - 1) div 16), set_fkern k s)
                    | (Some evs, k) \<Rightarrow>
                        let new = take MAX_REQUEST evs in
                        Some (of_nat (length new), s\<lparr>g_kern := k,
                                g_revents := (g_revents s)(a \<mapsto> new @ drop (length new) old)\<rparr>) }
             else Some (n, s));
          (ns', s2) \<leftarrow> EpEvent K rv (Suc i) fs qs ns s1;
          Some (n' # ns', s2) }"
| "EpEvent K rv i fs qs ns s = Some (ns, s)"

text \<open>An entry of the poll array has 8 bytes.\<close>

definition UsbFnAdapterPollEvent ::
  "'k fn_os \<Rightarrow> UsbFnEventAll \<Rightarrow> int \<Rightarrow> 'k gadget \<Rightarrow> (ret \<times> UsbFnEventAll \<times> 'k gadget) option" where
  "UsbFnAdapterPollEvent K event timeout s =
     (let n0 = length (ev_ep0 event); n = n0 + length (ev_epx event) in
      if n = 0 then Some (RetErr HDF_ERR_INVALID_PARAM, event, s)
      else do { (p, s1) \<leftarrow> galloc K (n * 8) s;
        case p of
          None \<Rightarrow> Some (RetErr HDF_ERR_MALLOC_FAIL, event, s1)
        | Some pfds \<Rightarrow>
            if list_ex (\<lambda>f. f \<le> 0) (ev_ep0 event @ ev_epx event)
            then do { s2 \<leftarrow> gfree (Some pfds) s1; Some (RetErr HDF_ERR_INVALID_PARAM, event, s2) }
            else case fo_poll K (ev_ep0 event @ ev_epx event) timeout (g_kern s1) of
              ((r, rv), k) \<Rightarrow>
                let s2 = set_fkern k s1 in
                if r = 0 then do { s3 \<leftarrow> gfree (Some pfds) s2; Some (RetErr HDF_ERR_TIMEOUT, event, s3) }
                else if r < 0 then do { s3 \<leftarrow> gfree (Some pfds) s2; Some (RetErr HDF_ERR_IO, event, s3) }
                else case Ep0Event K rv 0 (ev_ep0 event) (ev_ep0Event event) (g_kern s2) of
                  (e0, k3) \<Rightarrow>
                    do { (ns, s4) \<leftarrow> EpEvent K rv n0 (ev_epx event) (ev_reqEvent event) (ev_numEvent event)
                                       (set_fkern k3 s2);
                         s5 \<leftarrow> gfree (Some pfds) s4;
                         Some (HDF_SUCCESS, event\<lparr>ev_ep0Event := e0, ev_numEvent := ns\<rparr>, s5) } })"

subsection \<open>The descriptors of a function\<close>

definition le32_bytes :: "u32 \<Rightarrow> u8 list" where
  "le32_bytes w = [ucast w, ucast (drop_bit 8 w), ucast (drop_bit 16 w), ucast (drop_bit 24 w)]"

record UsbFunctionfsDescsHeadV2 =
  fh_magic :: u32
  fh_length :: u32
  fh_flags :: u32

definition FUNCTIONFS_STRINGS_MAGIC :: u32 where "FUNCTIONFS_STRINGS_MAGIC = 2"
definition FUNCTIONFS_DESCRIPTORS_MAGIC_V2 :: u32 where "FUNCTIONFS_DESCRIPTORS_MAGIC_V2 = 3"
definition FUNCTIONFS_HAS_FS_DESC :: u32 where "FUNCTIONFS_HAS_FS_DESC = 1"
definition FUNCTIONFS_HAS_HS_DESC :: u32 where "FUNCTIONFS_HAS_HS_DESC = 2"
definition FUNCTIONFS_HAS_SS_DESC :: u32 where "FUNCTIONFS_HAS_SS_DESC = 4"

text \<open>One counting loop of \<open>GetCountAndHead\<close>: the number of descriptors and the sum of their lengths.\<close>

fun count_descs :: "descs \<Rightarrow> u32 \<Rightarrow> u32 \<Rightarrow> (u32 \<times> u32) option" where
  "count_descs [] n len = Some (n, len)"
| "count_descs (d # ds) n len = do { b \<leftarrow> rd8 d 0; count_descs ds (n + 1) (len + ucast b) }"

definition GetCountAndHead ::
  "UsbFnFunction \<Rightarrow> (UsbFunctionfsDescsHeadV2 \<times> u32 \<times> u32 \<times> u32) option" where
  "GetCountAndHead f =
     do { fs \<leftarrow> fsDescriptors f; hs \<leftarrow> hsDescriptors f; ss \<leftarrow> ssDescriptors f;
          (fsCount, len1) \<leftarrow> count_descs fs 0 0;
          (hsCount, len2) \<leftarrow> count_descs hs 0 len1;
          (ssCount, lenDes) \<leftarrow> count_descs ss 0 len2;
          let lenCount = (if fsCount \<noteq> 0 then 4 else 0) + (if hsCount \<noteq> 0 then 4 else 0) + (if ssCount \<noteq> 0 then 4 else 0);
              flags = (if fsCount \<noteq> 0 then FUNCTIONFS_HAS_FS_DESC else 0) OR
                      (if hsCount \<noteq> 0 then FUNCTIONFS_HAS_HS_DESC else 0) OR
                      (if ssCount \<noteq> 0 then FUNCTIONFS_HAS_SS_DESC else 0)
          in Some (\<lparr>fh_magic = FUNCTIONFS_DESCRIPTORS_MAGIC_V2, fh_length = 12 + lenCount + lenDes, fh_flags = flags\<rparr>,
                   fsCount, hsCount, ssCount) }"

text \<open>One of the three blocks of \<open>CopyCount\<close>.\<close>

definition copy_one :: "u32 \<Rightarrow> u8 list \<Rightarrow> nat \<Rightarrow> (bool \<times> u8 list \<times> nat) option" where
  "copy_one c dec off =
     (if c \<noteq> 0 then do { (ok, d) \<leftarrow> memcpy_s dec off 4 (le32_bytes c) 4;
                          Some (ok, d, if ok then off + 4 else off) }
      else Some (True, dec, off))"

definition CopyCount :: "u8 list \<Rightarrow> nat \<Rightarrow> u32 \<Rightarrow> u32 \<Rightarrow> u32 \<Rightarrow> (ret \<times> u8 list \<times> nat) option" where
  "CopyCount dec off fsCount hsCount ssCount =
     do { (ok1, d1, o1) \<leftarrow> copy_one fsCount dec off;
          if \<not> ok1 then Some (RetErr HDF_FAILURE, d1, o1)
          else do { (ok2, d2, o2) \<leftarrow> copy_one hsCount d1 o1;
            if \<not> ok2 then Some (RetErr HDF_FAILURE, d2, o2)
            else do { (ok3, d3, o3) \<leftarrow> copy_one ssCount d2 o2;
              if \<not> ok3 then Some (RetErr HDF_FAILURE, d3, o3) else Some (HDF_SUCCESS, d3, o3) } } }"

fun WriteFuncDescriptors :: "descs \<Rightarrow> u8 list \<Rightarrow> nat \<Rightarrow> (ret \<times> u8 list \<times> nat) option" where
  "WriteFuncDescriptors [] dec off = Some (HDF_SUCCESS, dec, off)"
| "WriteFuncDescriptors (h # hs) dec off =
     do { b \<leftarrow> rd8 h 0;
          (ok, d) \<leftarrow> memcpy_s dec off (unat b) h (unat b);
          if ok then WriteFuncDescriptors hs d (off + unat b) else Some (RetErr HDF_FAILURE, d, off) }"

text \<open>The block without the strings: \<open>None\<close> within the result where one of the copies is refused.\<close>

definition fill_descs ::
  "UsbFnFunction \<Rightarrow> UsbFunctionfsDescsHeadV2 \<Rightarrow> u32 \<Rightarrow> u32 \<Rightarrow> u32 \<Rightarrow> u8 list option option" where
  "fill_descs f h fsCount hsCount ssCount =
     do { fs \<leftarrow> fsDescriptors f; hs \<leftarrow> hsDescriptors f; ss \<leftarrow> ssDescriptors f;
          (ok, d0) \<leftarrow> memcpy_s (replicate (unat (fh_length h)) 0) 0 (unat (fh_length h))
                         (le32_bytes (fh_magic h) @ le32_bytes (fh_length h) @ le32_bytes (fh_flags h)) 12;
          if \<not> ok then Some None
          else do { (r1, d1, o1) \<leftarrow> CopyCount d0 12 fsCount hsCount ssCount;
            if r1 \<noteq> HDF_SUCCESS then Some None
            else do { (r2, d2, o2) \<leftarrow> WriteFuncDescriptors fs d1 o1;
              if r2 \<noteq> HDF_SUCCESS then Some None
              else do { (r3, d3, o3) \<leftarrow> WriteFuncDescriptors hs d2 o2;
                if r3 \<noteq> HDF_SUCCESS then Some None
                else do { (r4, d4, o4) \<leftarrow> WriteFuncDescriptors ss d3 o3;
                  if r4 \<noteq> HDF_SUCCESS then Some None else Some (Some d4) } } } } }"

subsection \<open>The strings of a function\<close>

record UsbFunctionfsStringsHead =
  sh_magic :: u32
  sh_length :: u32
  sh_str_count :: u32
  sh_lang_count :: u32

text \<open>
  The loops of \<open>GetHeaderStr\<close>: number of languages, sum of the lengths with their terminating zeros, and
  the number of strings of the last language, which is not set when there is no language.
\<close>

fun header_loop :: "UsbFnStrings list \<Rightarrow> u32 \<Rightarrow> u32 \<Rightarrow> u32 option \<Rightarrow> u32 \<times> u32 \<times> u32 option" where
  "header_loop [] langs len cnt = (langs, len, cnt)"
| "header_loop (u # us) langs len cnt =
     header_loop us (langs + 1) (foldl (\<lambda>l x. l + of_nat (length x) + 1) len (us_strings u))
       (Some (of_nat (length (us_strings u))))"

definition GetHeaderStr :: "UsbFnStrings list \<Rightarrow> UsbFunctionfsStringsHead option" where
  "GetHeaderStr strings =
     (case header_loop strings 0 0 None of
        (langs, len, cnt) \<Rightarrow>
          do { c \<leftarrow> cnt; Some \<lparr>sh_magic = FUNCTIONFS_STRINGS_MAGIC, sh_length = 16 + langs * 2 + len,
                             sh_str_count = c, sh_lang_count = langs\<rparr> })"

text \<open>The inner loop of \<open>UsbFnWriteStrings\<close>: it stops at an empty string; a missing string is a null pointer.\<close>

fun write_strs :: "nat \<Rightarrow> u8 list list \<Rightarrow> u8 list \<Rightarrow> nat \<Rightarrow> (bool \<times> u8 list \<times> nat) option" where
  "write_strs 0 xs str off = Some (True, str, off)"
| "write_strs (Suc n) [] str off = None"
| "write_strs (Suc n) (x # xs) str off =
     (if x = [] then Some (True, str, off)
      else do { (ok, d) \<leftarrow> memcpy_s str off (length str - off) x (length x);
                if ok then write_strs n xs d (off + length x + 1) else Some (False, d, off + length x + 1) })"

fun write_langs :: "nat \<Rightarrow> nat \<Rightarrow> UsbFnStrings list \<Rightarrow> u8 list \<Rightarrow> nat \<Rightarrow> (bool \<times> u8 list \<times> nat) option" where
  "write_langs 0 n us str off = Some (True, str, off)"
| "write_langs (Suc k) n [] str off = None"
| "write_langs (Suc k) n (u # us) str off =
     do { (ok, d) \<leftarrow> memcpy_s str off (length str - off) (le16_bytes (us_language u)) 2;
          if \<not> ok then Some (False, d, off)
          else do { (ok2, d2, off2) \<leftarrow> write_strs n (us_strings u) d (off + 2);
            if ok2 then write_langs k n us d2 off2 else Some (False, d2, off2) } }"

definition UsbFnWriteStrings :: "'k fn_os \<Rightarrow> int \<Rightarrow> UsbFnStrings list \<Rightarrow> 'k gadget \<Rightarrow> (ret \<times> 'k gadget) option" where
  "UsbFnWriteStrings K ep0 strings s =
     do { h \<leftarrow> GetHeaderStr strings;
          (p, s1) \<leftarrow> galloc K (unat (sh_length h)) s;
          case p of
            None \<Rightarrow> Some (RetErr HDF_ERR_MALLOC_FAIL, s1)
          | Some a \<Rightarrow>
              do { (ok, d0) \<leftarrow> memcpy_s (replicate (unat (sh_length h)) 0) 0 (unat (sh_length h))
                      (le32_bytes (sh_magic h) @ le32_bytes (sh_length h) @ le32_bytes (sh_str_count h) @
                       le32_bytes (sh_lang_count h)) 16;
                   (ok2, d, off) \<leftarrow> (if ok then write_langs (unat (sh_lang_count h)) (unat (sh_str_count h)) strings d0 16
                                    else Some (False, d0, 0));
                   if \<not> ok2 then do { s2 \<leftarrow> gfree (Some a) s1; Some (RetErr HDF_FAILURE, s2) }
                   else case fo_write K ep0 d (g_kern s1) of
                     (n, k) \<Rightarrow> do { s2 \<leftarrow> gfree (Some a) (set_fkern k s1);
                                    Some (if n < 0 then RetErr HDF_FAILURE else HDF_SUCCESS, s2) } } }"

definition UsbFnAdapterCreatPipes :: "'k fn_os \<Rightarrow> int \<Rightarrow> UsbFnFunction \<Rightarrow> 'k gadget \<Rightarrow> (ret \<times> 'k gadget) option" where
  "UsbFnAdapterCreatPipes K ep0 f s =
     do { (h, fsCount, hsCount, ssCount) \<leftarrow> GetCountAndHead f;
          (p, s1) \<leftarrow> galloc K (unat (fh_length h)) s;
          case p of
            None \<Rightarrow> Some (RetErr HDF_ERR_MALLOC_FAIL, s1)
          | Some a \<Rightarrow>
              do { dec \<leftarrow> fill_descs f h fsCount hsCount ssCount;
                   case dec of
                     None \<Rightarrow> Some (RetErr HDF_FAILURE, s1)
                   | Some d \<Rightarrow>
                       (case fo_write K ep0 d (g_kern s1) of
                          (n, k) \<Rightarrow>
                            do { s2 \<leftarrow> gfree (Some a) (set_fkern k s1);
                                 if n < 0 then Some (RetErr HDF_ERR_IO, s2)
                                 else UsbFnWriteStrings K ep0 (fn_strings f) s2 }) } }"

end
