(* ===== verification/Usbfn_Functionfs.thy ===== *)
theory Usbfn_Functionfs
  imports Usbfn_Adapter
begin

text \<open>
  What the adapter writes to the control endpoint of a new function: the block of descriptors and the
  block of strings have exactly the format that the function file system reads.
\<close>

subsection \<open>The format\<close>

text \<open>A descriptor whose first byte is its length.\<close>

definition desc_ok :: "u8 list \<Rightarrow> bool" where
  "desc_ok d \<longleftrightarrow> d \<noteq> [] \<and> unat (d ! 0) = length d"

definition speed_count :: "descs \<Rightarrow> u8 list" where
  "speed_count ds = (if ds = [] then [] else le32_bytes (of_nat (length ds)))"

definition descs_body :: "descs \<Rightarrow> descs \<Rightarrow> descs \<Rightarrow> u8 list" where
  "descs_body fs hs ss = speed_count fs @ speed_count hs @ speed_count ss @ concat fs @ concat hs @ concat ss"

definition descs_flags :: "descs \<Rightarrow> descs \<Rightarrow> descs \<Rightarrow> u32" where
  "descs_flags fs hs ss = (if fs = [] then 0 else 1) OR (if hs = [] then 0 else 2) OR (if ss = [] then 0 else 4)"

text \<open>Magic number, length of the whole block, flags; counts; descriptors.\<close>

definition descs_block :: "descs \<Rightarrow> descs \<Rightarrow> descs \<Rightarrow> u8 list" where
  "descs_block fs hs ss =
     le32_bytes 3 @ le32_bytes (of_nat (12 + length (descs_body fs hs ss))) @ le32_bytes (descs_flags fs hs ss) @
     descs_body fs hs ss"

definition lang_block :: "UsbFnStrings \<Rightarrow> u8 list" where
  "lang_block u = le16_bytes (us_language u) @ concat (map (\<lambda>x. x @ [0]) (us_strings u))"

text \<open>Magic number, length of the whole block, number of strings, number of languages; the strings by language.\<close>

definition strings_block :: "nat \<Rightarrow> UsbFnStrings list \<Rightarrow> u8 list" where
  "strings_block n us =
     (let body = concat (map lang_block us) in
      le32_bytes 2 @ le32_bytes (of_nat (16 + length body)) @ le32_bytes (of_nat n) @ le32_bytes (of_nat (length us)) @ body)"

definition descs_ok :: "descs \<Rightarrow> descs \<Rightarrow> descs \<Rightarrow> bool" where
  "descs_ok fs hs ss \<longleftrightarrow> (\<forall>d \<in> set fs \<union> set hs \<union> set ss. desc_ok d) \<and> 12 + length (descs_body fs hs ss) < 2 ^ 32"

text \<open>Every language has the same number of strings, none of them empty.\<close>

definition strings_ok :: "nat \<Rightarrow> UsbFnStrings list \<Rightarrow> bool" where
  "strings_ok n us \<longleftrightarrow> us \<noteq> [] \<and> (\<forall>u \<in> set us. length (us_strings u) = n \<and> [] \<notin> set (us_strings u)) \<and>
     length (strings_block n us) < 2 ^ 32"

lemma le32_bytes_length [simp]: "length (le32_bytes w) = 4"
  by (simp add: le32_bytes_def)

lemma le16_bytes_length [simp]: "length (le16_bytes w) = 2"
  by (simp add: le16_bytes_def)

subsection \<open>Filling a zeroed buffer from the front\<close>

lemma memcpy_front:
  assumes "length p = off" "length x \<le> mx" "length x \<le> n" "c = length x"
  shows "memcpy_s (p @ replicate n 0) off mx x c = Some (True, p @ x @ replicate (n - length x) 0)"
  using assms by (simp add: memcpy_s_def rdn_def wrn_def)

lemma copy_one_front:
  assumes "length p = off" "length (speed_count ds) \<le> n" "length ds < 2 ^ 32"
  shows "copy_one (of_nat (length ds)) (p @ replicate n 0) off =
    Some (True, p @ speed_count ds @ replicate (n - length (speed_count ds)) 0, off + length (speed_count ds))"
proof (cases "ds = []")
  case False
  define c :: u32 where "c = of_nat (length ds)"
  have c: "c \<noteq> 0" unfolding c_def using assms(3) False by (intro of_nat_small_nonzero) simp_all
  have sc: "speed_count ds = le32_bytes c" using False by (simp only: speed_count_def c_def if_False)
  have "4 \<le> n" using assms(2) unfolding sc by simp
  then have "memcpy_s (p @ replicate n 0) off 4 (le32_bytes c) 4 =
      Some (True, p @ le32_bytes c @ replicate (n - length (le32_bytes c)) 0)"
    by (intro memcpy_front assms(1)) simp_all
  then show ?thesis unfolding sc c_def[symmetric] using c by (simp add: copy_one_def)
qed (simp add: copy_one_def speed_count_def)

lemma WriteFuncDescriptors_front:
  assumes "\<forall>d \<in> set ds. desc_ok d" "length p = off" "length (concat ds) \<le> n"
  shows "WriteFuncDescriptors ds (p @ replicate n 0) off =
    Some (HDF_SUCCESS, p @ concat ds @ replicate (n - length (concat ds)) 0, off + length (concat ds))"
  using assms
proof (induction ds arbitrary: p off n)
  case (Cons d ds)
  have d: "d \<noteq> []" "unat (d ! 0) = length d" using Cons.prems(1) by (simp_all add: desc_ok_def)
  have "memcpy_s (p @ replicate n 0) off (length d) d (length d) = Some (True, p @ d @ replicate (n - length d) 0)"
    using Cons.prems by (intro memcpy_front) auto
  then show ?case
    using Cons.IH[of "p @ d" "off + length d" "n - length d"] Cons.prems d
    by (simp add: rd8_def)
qed simp

lemma write_strs_front:
  assumes "[] \<notin> set xs" "length p = off" "length (concat (map (\<lambda>x. x @ [0]) xs)) \<le> n"
  shows "write_strs (length xs) xs (p @ replicate n 0) off =
    Some (True, p @ concat (map (\<lambda>x. x @ [0]) xs) @ replicate (n - length (concat (map (\<lambda>x. x @ [0]) xs))) 0,
      off + length (concat (map (\<lambda>x. x @ [0]) xs)))"
  using assms
proof (induction xs arbitrary: p off n)
  case (Cons x xs)
  have "memcpy_s (p @ replicate n 0) off n x (length x) = Some (True, p @ x @ replicate (n - length x) 0)"
    using Cons.prems by (intro memcpy_front) auto
  moreover have "x @ replicate (n - length x) 0 = (x @ [0]) @ replicate (n - Suc (length x)) 0"
    using Cons.prems(3) by (simp flip: replicate_Suc)
  ultimately show ?case
    using Cons.IH[of "p @ x @ [0]" "off + length x + 1" "n - Suc (length x)"] Cons.prems
    by auto
qed simp

lemma write_langs_front:
  assumes "\<forall>u \<in> set us. length (us_strings u) = m \<and> [] \<notin> set (us_strings u)" "length p = off"
    and "length (concat (map lang_block us)) \<le> n"
  shows "write_langs (length us) m us (p @ replicate n 0) off =
    Some (True, p @ concat (map lang_block us) @ replicate (n - length (concat (map lang_block us))) 0,
      off + length (concat (map lang_block us)))"
  using assms
proof (induction us arbitrary: p off n)
  case (Cons u us)
  let ?l = "le16_bytes (us_language u)" and ?x = "concat (map (\<lambda>x. x @ [0]) (us_strings u))"
  have lb: "lang_block u = ?l @ ?x" by (simp add: lang_block_def)
  have n: "2 + length ?x + length (concat (map lang_block us)) \<le> n"
    using Cons.prems(3) lb by simp
  have "memcpy_s (p @ replicate n 0) off n ?l 2 = Some (True, p @ ?l @ replicate (n - length ?l) 0)"
    using n by (intro memcpy_front Cons.prems(2)) simp_all
  then have 1: "memcpy_s (p @ replicate n 0) off n ?l 2 = Some (True, p @ ?l @ replicate (n - 2) 0)"
    unfolding le16_bytes_length .
  have "[] \<notin> set (us_strings u)" "length (us_strings u) = m" using Cons.prems(1) by simp_all
  moreover have "length (p @ ?l) = off + 2" "length ?x \<le> n - 2" using Cons.prems(2) n by simp_all
  ultimately have 2: "write_strs m (us_strings u) (p @ ?l @ replicate (n - 2) 0) (off + 2) =
      Some (True, p @ ?l @ ?x @ replicate (n - 2 - length ?x) 0, off + 2 + length ?x)"
    using write_strs_front[of "us_strings u" "p @ ?l" "off + 2" "n - 2"] by simp
  have ih: "\<forall>u \<in> set us. length (us_strings u) = m \<and> [] \<notin> set (us_strings u)"
    "length (p @ ?l @ ?x) = off + 2 + length ?x" "length (concat (map lang_block us)) \<le> n - 2 - length ?x"
    using Cons.prems(1,2) n by simp_all
  have 3: "write_langs (length us) m us (p @ ?l @ ?x @ replicate (n - 2 - length ?x) 0) (off + 2 + length ?x) =
      Some (True, p @ ?l @ ?x @ concat (map lang_block us) @
        replicate (n - 2 - length ?x - length (concat (map lang_block us))) 0,
        off + 2 + length ?x + length (concat (map lang_block us)))"
    using Cons.IH[OF ih] by (simp only: append_assoc)
  have l: "length (p @ replicate n 0) - off = n" using Cons.prems(2) by simp
  show ?case
    unfolding length_Cons write_langs.simps l 1 by (simp add: 2[simplified] 3[simplified] lb)
qed simp

subsection \<open>The headers\<close>

lemma count_descs_eq:
  assumes "\<forall>d \<in> set ds. desc_ok d"
  shows "count_descs ds n len = Some (n + of_nat (length ds), len + of_nat (length (concat ds)))"
  using assms
proof (induction ds arbitrary: n len)
  case (Cons d ds)
  have "d \<noteq> []" "(ucast (d ! 0) :: u32) = of_nat (length d)"
    using Cons.prems by (simp_all only: ucast_of_nat_unat) (simp_all add: desc_ok_def)
  then show ?case using Cons by (simp add: rd8_def algebra_simps)
qed simp

lemma descs_len: "length ds \<le> length (concat ds)" if "\<forall>d \<in> set ds. desc_ok d"
  using that by (induction ds) (auto simp: desc_ok_def neq_Nil_conv)

lemma speed_count_length: "length (speed_count ds) = (if ds = [] then 0 else 4)"
  by (simp add: speed_count_def)

lemma count_nonzero: "((of_nat (length ds) :: u32) \<noteq> 0) = (ds \<noteq> [])" if "length ds < 2 ^ 32"
  using of_nat_small_nonzero[of "length ds", where 'a = 32] that by auto

lemma descs_small:
  assumes "descs_ok fs hs ss"
  shows "length fs < 2 ^ 32" "length hs < 2 ^ 32" "length ss < 2 ^ 32"
  using assms descs_len[of fs] descs_len[of hs] descs_len[of ss] by (auto simp: descs_ok_def descs_body_def)

lemma GetCountAndHead_eq:
  assumes "fsDescriptors f = Some fs" "hsDescriptors f = Some hs" "ssDescriptors f = Some ss" "descs_ok fs hs ss"
  shows "GetCountAndHead f = Some (\<lparr>fh_magic = 3, fh_length = of_nat (12 + length (descs_body fs hs ss)),
    fh_flags = descs_flags fs hs ss\<rparr>, of_nat (length fs), of_nat (length hs), of_nat (length ss))"
proof -
  have ok: "\<forall>d \<in> set fs. desc_ok d" "\<forall>d \<in> set hs. desc_ok d" "\<forall>d \<in> set ss. desc_ok d"
    using assms(4) by (simp_all add: descs_ok_def)
  note nz = descs_small[OF assms(4), THEN count_nonzero]
  have len: "(of_nat (length (descs_body fs hs ss)) :: u32) =
      (if fs \<noteq> [] then 4 else 0) + (if hs \<noteq> [] then 4 else 0) + (if ss \<noteq> [] then 4 else 0) +
      (of_nat (length (concat fs)) + of_nat (length (concat hs)) + of_nat (length (concat ss)))"
    unfolding descs_body_def length_append speed_count_length of_nat_add by (simp add: add.assoc)
  show ?thesis
    using assms(1-3) nz len
    by (simp add: GetCountAndHead_def count_descs_eq[OF ok(1)] count_descs_eq[OF ok(2)] count_descs_eq[OF ok(3)]
        descs_flags_def FUNCTIONFS_DESCRIPTORS_MAGIC_V2_def FUNCTIONFS_HAS_FS_DESC_def FUNCTIONFS_HAS_HS_DESC_def
        FUNCTIONFS_HAS_SS_DESC_def Let_def)
qed

lemma CopyCount_front:
  assumes "length fs < 2 ^ 32" "length hs < 2 ^ 32" "length ss < 2 ^ 32" "length p = off"
    and "length (speed_count fs @ speed_count hs @ speed_count ss) \<le> n"
  shows "CopyCount (p @ replicate n 0) off (of_nat (length fs)) (of_nat (length hs)) (of_nat (length ss)) =
    Some (HDF_SUCCESS, (p @ speed_count fs @ speed_count hs @ speed_count ss) @
      replicate (n - length (speed_count fs @ speed_count hs @ speed_count ss)) 0,
      off + length (speed_count fs @ speed_count hs @ speed_count ss))"
proof -
  let ?c1 = "speed_count fs" and ?c2 = "speed_count hs" and ?c3 = "speed_count ss"
  have c1: "copy_one (of_nat (length fs)) (p @ replicate n 0) off =
      Some (True, (p @ ?c1) @ replicate (n - length ?c1) 0, off + length ?c1)"
    using copy_one_front[OF assms(4) _ assms(1), of n] assms(5) by simp
  have c2: "copy_one (of_nat (length hs)) ((p @ ?c1) @ replicate (n - length ?c1) 0) (off + length ?c1) =
      Some (True, (p @ ?c1 @ ?c2) @ replicate (n - length ?c1 - length ?c2) 0, off + length ?c1 + length ?c2)"
    using copy_one_front[OF _ _ assms(2), of "p @ ?c1"] assms(4,5) by simp
  have c3: "copy_one (of_nat (length ss)) ((p @ ?c1 @ ?c2) @ replicate (n - length ?c1 - length ?c2) 0)
        (off + length ?c1 + length ?c2) =
      Some (True, (p @ ?c1 @ ?c2 @ ?c3) @ replicate (n - length ?c1 - length ?c2 - length ?c3) 0,
        off + length ?c1 + length ?c2 + length ?c3)"
    using copy_one_front[OF _ _ assms(3), of "p @ ?c1 @ ?c2"] assms(4,5) by simp
  show ?thesis
    unfolding CopyCount_def c1 bind.bind_lunit prod.case c2 c3 by (simp add: add.assoc)
qed

lemma fill_descs_eq:
  assumes "fsDescriptors f = Some fs" "hsDescriptors f = Some hs" "ssDescriptors f = Some ss" "descs_ok fs hs ss"
    and "h = \<lparr>fh_magic = 3, fh_length = of_nat (12 + length (descs_body fs hs ss)), fh_flags = descs_flags fs hs ss\<rparr>"
  shows "fill_descs f h (of_nat (length fs)) (of_nat (length hs)) (of_nat (length ss)) = Some (Some (descs_block fs hs ss))"
proof -
  let ?c = "speed_count fs @ speed_count hs @ speed_count ss" and ?n = "length (descs_body fs hs ss)"
  define p where "p = le32_bytes (fh_magic h) @ le32_bytes (fh_length h) @ le32_bytes (fh_flags h)"
  have ok: "\<forall>d \<in> set fs. desc_ok d" "\<forall>d \<in> set hs. desc_ok d" "\<forall>d \<in> set ss. desc_ok d"
    using assms(4) by (simp_all add: descs_ok_def)
  have len: "unat (fh_length h) = 12 + ?n"
    using assms(4) unfolding assms(5) UsbFunctionfsDescsHeadV2.simps by (intro unat_of_nat_small) (simp add: descs_ok_def)
  have n: "?n = length ?c + (length (concat fs) + (length (concat hs) + length (concat ss)))"
    by (simp add: descs_body_def)
  have p: "length p = 12" by (simp add: p_def)
  have hd: "memcpy_s (replicate (12 + ?n) 0) 0 (12 + ?n) p 12 = Some (True, p @ replicate ?n 0)"
    using p by (simp add: memcpy_s_def rdn_def wrn_def)
  have "length ?c \<le> ?n" unfolding n by simp
  note cc = CopyCount_front[OF descs_small[OF assms(4)] p this]
  let ?q = "p @ ?c" and ?m = "?n - length ?c" and ?o = "12 + length ?c"
  have q: "length ?q = ?o" "length (concat fs) + (length (concat hs) + length (concat ss)) = ?m" using p n by simp_all
  have w1: "WriteFuncDescriptors fs (?q @ replicate ?m 0) ?o =
      Some (HDF_SUCCESS, (?q @ concat fs) @ replicate (?m - length (concat fs)) 0, ?o + length (concat fs))"
    using WriteFuncDescriptors_front[OF ok(1) q(1), of ?m] q(2) by simp
  have w2: "WriteFuncDescriptors hs ((?q @ concat fs) @ replicate (?m - length (concat fs)) 0) (?o + length (concat fs)) =
      Some (HDF_SUCCESS, (?q @ concat fs @ concat hs) @ replicate (?m - length (concat fs) - length (concat hs)) 0,
        ?o + length (concat fs) + length (concat hs))"
    using WriteFuncDescriptors_front[OF ok(2), of "?q @ concat fs"] q by simp
  have w3: "WriteFuncDescriptors ss ((?q @ concat fs @ concat hs) @ replicate (?m - length (concat fs) - length (concat hs)) 0)
        (?o + length (concat fs) + length (concat hs)) =
      Some (HDF_SUCCESS, ?q @ concat fs @ concat hs @ concat ss, ?o + length (concat fs) + length (concat hs) + length (concat ss))"
    using WriteFuncDescriptors_front[OF ok(3), of "?q @ concat fs @ concat hs"] q by simp
  have blk: "?q @ concat fs @ concat hs @ concat ss = descs_block fs hs ss"
    by (simp add: p_def assms(5) descs_block_def descs_body_def)
  show ?thesis
    unfolding fill_descs_def assms(1-3) len p_def[symmetric] hd bind.bind_lunit prod.case
    by (simp only: cc w1 w2 w3 bind.bind_lunit prod.case if_True if_False not_True_eq_False not_False_eq_True blk simp_thms)
qed

text \<open>The strings.\<close>

lemma strs_len: "foldl (\<lambda>l x. l + of_nat (length x) + 1) (len :: u32) xs = len + of_nat (length (concat (map (\<lambda>x. x @ [0]) xs)))"
  by (induction xs arbitrary: len) (simp_all add: algebra_simps)

lemma header_loop_eq:
  assumes "\<forall>u \<in> set us. length (us_strings u) = m"
  shows "header_loop us langs len cnt = (langs + of_nat (length us),
    len + of_nat (length (concat (map (\<lambda>u. concat (map (\<lambda>x. x @ [0 :: u8]) (us_strings u))) us))),
    if us = [] then cnt else Some (of_nat m))"
  using assms
proof (induction us arbitrary: langs len cnt)
  case (Cons u us)
  then show ?case by (simp add: strs_len)
qed simp

lemma langs_length: "length (concat (map lang_block us)) =
    2 * length us + length (concat (map (\<lambda>u. concat (map (\<lambda>x. x @ [0]) (us_strings u))) us))"
  by (induction us) (simp_all add: lang_block_def)

lemma GetHeaderStr_eq:
  assumes "strings_ok n us"
  shows "GetHeaderStr us = Some \<lparr>sh_magic = 2, sh_length = of_nat (length (strings_block n us)), sh_str_count = of_nat n,
    sh_lang_count = of_nat (length us)\<rparr>"
proof -
  have h: "\<forall>u \<in> set us. length (us_strings u) = n" "us \<noteq> []" using assms by (simp_all add: strings_ok_def)
  have "length (strings_block n us) =
      16 + 2 * length us + length (concat (map (\<lambda>u. concat (map (\<lambda>x. x @ [0 :: u8]) (us_strings u))) us))"
    by (simp add: strings_block_def Let_def langs_length)
  then have "(of_nat (length (strings_block n us)) :: u32) = 16 + of_nat (length us) * 2 +
      of_nat (length (concat (map (\<lambda>u. concat (map (\<lambda>x. x @ [0 :: u8]) (us_strings u))) us)))"
    by (simp add: mult.commute)
  then show ?thesis
    using h by (simp add: GetHeaderStr_def header_loop_eq[OF h(1)] FUNCTIONFS_STRINGS_MAGIC_def)
qed

lemma strings_counts:
  assumes "strings_ok n us"
  shows "n < 2 ^ 32" "length us < 2 ^ 32"
proof -
  obtain u vs where us: "us = u # vs" "length (us_strings u) = n" using assms by (auto simp: strings_ok_def neq_Nil_conv)
  have "length xs \<le> length (concat (map (\<lambda>x. x @ [0 :: u8]) xs))" for xs by (induction xs) auto
  from this[of "us_strings u"] have "n \<le> length (lang_block u)" using us(2) by (simp add: lang_block_def)
  moreover have "length (lang_block u) \<le> length (concat (map lang_block us))" using us(1) by simp
  moreover have "length us \<le> length (concat (map lang_block us))" by (simp add: langs_length)
  moreover have "16 + length (concat (map lang_block us)) < 2 ^ 32"
    using assms by (simp add: strings_ok_def strings_block_def Let_def)
  ultimately show "n < 2 ^ 32" "length us < 2 ^ 32" by linarith+
qed

subsection \<open>Writing a function\<close>

text \<open>The effect of a call once the block is known: a temporary block of its size, and one write.\<close>

definition send_block :: "'k fn_os \<Rightarrow> int \<Rightarrow> u8 list \<Rightarrow> hdf_err \<Rightarrow> 'k gadget \<Rightarrow> (ret \<times> 'k gadget) option" where
  "send_block K ep0 b e s =
     do { (p, s1) \<leftarrow> galloc K (length b) s;
          case p of
            None \<Rightarrow> Some (RetErr HDF_ERR_MALLOC_FAIL, s1)
          | Some a \<Rightarrow> (case fo_write K ep0 b (g_kern s1) of
              (n, k) \<Rightarrow> do { s2 \<leftarrow> gfree (Some a) (set_fkern k s1); Some (if n < 0 then RetErr e else HDF_SUCCESS, s2) }) }"

lemma UsbFnWriteStrings_eq:
  assumes "strings_ok m us"
  shows "UsbFnWriteStrings K ep0 us s = send_block K ep0 (strings_block m us) HDF_FAILURE s"
proof -
  let ?b = "strings_block m us" and ?body = "concat (map lang_block us)"
  have lb: "length ?b = 16 + length ?body" by (simp add: strings_block_def Let_def)
  have len: "unat (of_nat (length ?b) :: u32) = 16 + length ?body"
    using unat_of_nat_small[of "length ?b", where 'a = 32] assms(1) by (simp add: strings_ok_def strings_block_def Let_def)
  have cnt: "unat (of_nat m :: u32) = m" "unat (of_nat (length us) :: u32) = length us"
    using strings_counts[OF assms(1)] by (simp_all add: unat_of_nat_small)
  define p where "p = le32_bytes 2 @ le32_bytes (of_nat (length ?b)) @ le32_bytes (of_nat m) @ le32_bytes (of_nat (length us))"
  have p: "length p = 16" by (simp add: p_def)
  have hd: "memcpy_s (replicate (16 + length ?body) 0) 0 (16 + length ?body) p 16 = Some (True, p @ replicate (length ?body) 0)"
    using p by (simp add: memcpy_s_def rdn_def wrn_def)
  have "\<forall>u \<in> set us. length (us_strings u) = m \<and> [] \<notin> set (us_strings u)" using assms(1) by (simp add: strings_ok_def)
  from write_langs_front[OF this p order_refl]
  have wl: "write_langs (length us) m us (p @ replicate (length ?body) 0) 16 = Some (True, p @ ?body, 16 + length ?body)" by simp
  have blk: "p @ ?body = ?b" by (simp add: p_def strings_block_def Let_def)
  show ?thesis
    unfolding UsbFnWriteStrings_def GetHeaderStr_eq[OF assms(1)] UsbFunctionfsStringsHead.simps len cnt p_def[symmetric]
      bind.bind_lunit hd prod.case if_True wl blk
    unfolding send_block_def lb by (simp cong: option.case_cong)
qed

lemma UsbFnAdapterCreatPipes_eq:
  assumes "fsDescriptors f = Some fs" "hsDescriptors f = Some hs" "ssDescriptors f = Some ss" "descs_ok fs hs ss"
    and "strings_ok m (fn_strings f)"
  shows "UsbFnAdapterCreatPipes K ep0 f s =
    do { (r, s1) \<leftarrow> send_block K ep0 (descs_block fs hs ss) HDF_ERR_IO s;
         if r \<noteq> HDF_SUCCESS then Some (r, s1) else send_block K ep0 (strings_block m (fn_strings f)) HDF_FAILURE s1 }"
proof -
  let ?n = "12 + length (descs_body fs hs ss)"
  have lb: "length (descs_block fs hs ss) = ?n" by (simp add: descs_block_def)
  have len: "unat (of_nat ?n :: u32) = ?n" using assms(4) unfolding descs_ok_def by (intro unat_of_nat_small) simp
  show ?thesis
    unfolding UsbFnAdapterCreatPipes_def GetCountAndHead_eq[OF assms(1-4)] UsbFunctionfsDescsHeadV2.simps len
      bind.bind_lunit prod.case fill_descs_eq[OF assms(1-4) refl] option.case UsbFnWriteStrings_eq[OF assms(5)]
      send_block_def[of K ep0 "descs_block fs hs ss"] lb
    by (auto simp: obind split: option.splits prod.splits bind_splits)
qed

lemma send_block_quiet:
  assumes "mem_quiet K s" "fo_write K ep0 b (g_kern s) = (n, k)"
  shows "\<exists>s'. send_block K ep0 b e s = Some (if n < 0 then RetErr e else HDF_SUCCESS, s') \<and> g_kern s' = k \<and>
    live (g_mem s') = live (g_mem s) \<and> mem_quiet K s'"
proof -
  obtain a s1 s2 where "galloc K (length b) s = Some (Some a, s1)" "g_kern s1 = g_kern s"
    "gfree (Some a) (set_fkern k s1) = Some s2" "g_kern s2 = k" "live (g_mem s2) = live (g_mem s)" "mem_quiet K s2"
    by (rule galloc_gfree[OF assms(1)])
  then show ?thesis using assms(2) by (simp add: send_block_def)
qed

lemma CreatPipes_quiet:
  assumes "mem_quiet K s" "fsDescriptors f = Some fs" "hsDescriptors f = Some hs" "ssDescriptors f = Some ss"
    and "descs_ok fs hs ss" "strings_ok n (fn_strings f)"
    and "fo_write K ep0 (descs_block fs hs ss) (g_kern s) = (r1, k1)"
    and "fo_write K ep0 (strings_block n (fn_strings f)) k1 = (r2, k2)"
  shows "\<exists>s'. UsbFnAdapterCreatPipes K ep0 f s =
      Some (if r1 < 0 then RetErr HDF_ERR_IO else if r2 < 0 then RetErr HDF_FAILURE else HDF_SUCCESS, s') \<and>
    g_kern s' = (if r1 < 0 then k1 else k2) \<and> live (g_mem s') = live (g_mem s) \<and> mem_quiet K s'"
proof -
  obtain s1 where s1: "send_block K ep0 (descs_block fs hs ss) HDF_ERR_IO s = Some (if r1 < 0 then RetErr HDF_ERR_IO else HDF_SUCCESS, s1)"
    "g_kern s1 = k1" "live (g_mem s1) = live (g_mem s)" "mem_quiet K s1"
    using send_block_quiet[OF assms(1,7)] by blast
  obtain s2 where "send_block K ep0 (strings_block n (fn_strings f)) HDF_FAILURE s1 = Some (if r2 < 0 then RetErr HDF_FAILURE else HDF_SUCCESS, s2)"
    "g_kern s2 = k2" "live (g_mem s2) = live (g_mem s1)" "mem_quiet K s2"
    using send_block_quiet[OF s1(4), of ep0 "strings_block n (fn_strings f)" r2 k2] assms(8) s1(2) by auto
  then show ?thesis using s1 by (simp add: UsbFnAdapterCreatPipes_eq[OF assms(2-6)])
qed

text \<open>
  C25. A new function is described to the kernel exactly: the adapter writes the descriptors of the three
  speeds as one block whose header gives its length, the speeds present and their
  counts, then the strings as a second block with the number of languages and strings, and
  nothing else; both blocks fit the memory allocated for them to the byte, the memory is
  released, and a write that the kernel refuses is reported.
\<close>

theorem UsbFnAdapterCreatPipes_writes:
  assumes "mem_quiet K s" "fsDescriptors f = Some fs" "hsDescriptors f = Some hs" "ssDescriptors f = Some ss"
    and "descs_ok fs hs ss" "strings_ok n (fn_strings f)"
    and "fo_write K ep0 (descs_block fs hs ss) (g_kern s) = (r1, k1)"
    and "fo_write K ep0 (strings_block n (fn_strings f)) k1 = (r2, k2)"
  shows "\<exists>s'. UsbFnAdapterCreatPipes K ep0 f s =
      Some (if r1 < 0 then RetErr HDF_ERR_IO else if r2 < 0 then RetErr HDF_FAILURE else HDF_SUCCESS, s') \<and>
    g_kern s' = (if r1 < 0 then k1 else k2) \<and> live (g_mem s') = live (g_mem s)"
  using CreatPipes_quiet[OF assms] by blast

text \<open>A kernel that records what is written, and a function with descriptors for two speeds.\<close>

definition log_os :: "u8 list list fn_os" where
  "log_os = null_fn_os\<lparr>fo_write := (\<lambda>f b k. (int (length b), k @ [b]))\<rparr>"

definition ex_fs :: descs where "ex_fs = [[9, 4, 0, 0, 1, 2, 2, 1, 0], [7, 5, 0x81, 3, 8, 0, 10]]"
definition ex_hs :: descs where "ex_hs = [[9, 4, 0, 0, 0, 2, 2, 1, 0]]"
definition ex_us :: "UsbFnStrings list" where
  "ex_us = [\<lparr>us_language = 0x409, us_strings = [[65, 66], [67]]\<rparr>, \<lparr>us_language = 0x407, us_strings = [[68], [69, 70]]\<rparr>]"

definition ex_func :: UsbFnFunction where
  "ex_func = \<lparr>fn_enable = True, funcName = ''f_generic.a'', fn_strings = ex_us, fsDescriptors = Some ex_fs,
     hsDescriptors = Some ex_hs, ssDescriptors = Some [], sspDescriptors = None\<rparr>"

theorem UsbFnAdapterCreatPipes_writes_witness:
  "\<exists>s'. UsbFnAdapterCreatPipes log_os 3 ex_func (null_gadget []) = Some (HDF_SUCCESS, s') \<and>
     g_kern s' = [descs_block ex_fs ex_hs [], strings_block 2 ex_us] \<and> live (g_mem s') = {}"
proof -
  have 1: "mem_quiet log_os (null_gadget [])"
    by (simp add: mem_quiet_def log_os_def null_fn_os_def null_gadget_def mem_ok_def)
  have 2: "descs_ok ex_fs ex_hs []"
    by (simp add: descs_ok_def desc_ok_def ex_fs_def ex_hs_def descs_body_def speed_count_def)
  have 3: "strings_ok 2 (fn_strings ex_func)"
    by (simp add: strings_ok_def ex_func_def ex_us_def strings_block_def lang_block_def Let_def)
  have 4: "fo_write log_os f b k = (int (length b), k @ [b])" for f b k by (simp add: log_os_def)
  show ?thesis
    using UsbFnAdapterCreatPipes_writes[OF 1 _ _ _ 2 3 4 4, of 3]
    by (simp add: ex_func_def null_gadget_def)
qed

text \<open>
  An empty string ends the strings of its language without its terminating zero, so that the next
  language is written one byte early and the block no longer has the format.
\<close>

lemma empty_string_shifts:
  "write_langs 2 1 [\<lparr>us_language = 0x409, us_strings = [[]]\<rparr>, \<lparr>us_language = 0x407, us_strings = [[65]]\<rparr>] (replicate 7 0) 0 =
     Some (True, [9, 4, 7, 4, 65, 0, 0], 6)"
  "lang_block \<lparr>us_language = 0x409, us_strings = [[]]\<rparr> @ lang_block \<lparr>us_language = 0x407, us_strings = [[65]]\<rparr> =
     [9, 4, 0, 7, 4, 65, 0]"
  by code_simp+

end
