(* ===== verification/Usbfn_Io.thy ===== *)
theory Usbfn_Io
  imports Usbfn_Adapter
begin

text \<open>
  The I/O manager of the device side (\<open>usb/ddk/device/src/usbfn_io_mgr.c\<close>): opening and closing the
  endpoints of an interface, and the requests that transfer data over them.
\<close>

text \<open>Sizes of the structs on an LP64 target.\<close>

definition sizeof_ReqList :: nat where "sizeof_ReqList = 112"
definition sizeof_ReqEvents :: nat where "sizeof_ReqEvents = 16 * MAX_REQUEST"
definition sizeof_HandleMgr :: nat where "sizeof_HandleMgr = 224"

definition zero_pipeInfo :: UsbFnPipeInfo where
  "zero_pipeInfo = \<lparr>xp_id = 0, xp_type = 0, xp_dir = PIPE_DIRECTION_OUT, xp_maxPacketSize = 0, xp_interval = 0\<rparr>"

subsection \<open>Requests\<close>

definition ReqToIoData :: "ptr option \<Rightarrow> u32 \<Rightarrow> u32 \<Rightarrow> 'k gadget \<Rightarrow> (ret \<times> IoData) option" where
  "ReqToIoData req aio timeout s =
     (let zero = \<lparr>io_aio = 0, io_read = 0, io_len = 0, io_timeout = 0, io_buf = 0\<rparr> in
      case req of
        None \<Rightarrow> Some (RetErr HDF_ERR_INVALID_PARAM, zero)
      | Some p \<Rightarrow>
          do { r \<leftarrow> g_freqs s p;
               Some (HDF_SUCCESS, zero\<lparr>io_aio := aio,
                       io_read := (if q_type (rl_req r) = REQUEST_TYPE_PIPE_READ then 1 else 0),
                       io_buf := rl_buf r, io_len := q_length (rl_req r), io_timeout := timeout\<rparr>) })"

definition OpenEp0AndMapAddr :: "'k fn_os \<Rightarrow> elem \<Rightarrow> 'k gadget \<Rightarrow> (ret \<times> 'k gadget) option" where
  "OpenEp0AndMapAddr K e s =
     do { f \<leftarrow> get_func e s;
          case UsbFnAdapterOpenPipe K (fm_name f) 0 s of
            (r, s1) \<Rightarrow>
              let s2 = put_func e (f\<lparr>fm_fd := fd_of r\<rparr>) s1 in
              if fd_of r \<le> 0 then Some (RetErr HDF_ERR_IO, s2)
              else case UsbFnAdapterQueueInit K (fd_of r) s2 of
                (r2, s3) \<Rightarrow> Some (if r2 \<noteq> HDF_SUCCESS then RetErr HDF_ERR_IO else HDF_SUCCESS, s3) }"

definition UsbFnIoMgrInterfaceGetPipeInfo ::
  "'k fn_os \<Rightarrow> elem option \<Rightarrow> u8 \<Rightarrow> UsbFnPipeInfo \<Rightarrow> 'k gadget \<Rightarrow> (ret \<times> UsbFnPipeInfo \<times> 'k gadget) option" where
  "UsbFnIoMgrInterfaceGetPipeInfo K intf pipeId info s =
     (case intf of
        None \<Rightarrow> Some (RetErr HDF_ERR_INVALID_PARAM, info, s)
      | Some e \<Rightarrow>
          do { im \<leftarrow> get_intf e s;
            if pipeId \<ge> xi_numPipes (im_info im) then Some (RetErr HDF_ERR_INVALID_PARAM, info, s)
            else if isOpen im then
              do { hp \<leftarrow> im_handle im; h \<leftarrow> g_fhandles s hp;
                   if \<not> unat pipeId < length (hm_fds h) then None
                   else case UsbFnAdapterGetPipeInfo K (hm_fds h ! unat pipeId) info s of
                     (r, info1, s1) \<Rightarrow>
                       if r \<noteq> HDF_SUCCESS then Some (RetErr HDF_ERR_DEVICE_BUSY, info1, s1)
                       else Some (r, info1\<lparr>xp_id := pipeId\<rparr>, s1) }
            else
              do { fe \<leftarrow> im_funcMgr im; fm \<leftarrow> get_func fe s;
                   case UsbFnAdapterOpenPipe K (fm_name fm) (int (unat (startEpId im) + unat pipeId)) s of
                     (r0, s1) \<Rightarrow>
                       if fd_of r0 \<le> 0 then Some (RetErr HDF_ERR_IO, info, s1)
                       else case UsbFnAdapterGetPipeInfo K (fd_of r0) info s1 of
                         (r, info1, s2) \<Rightarrow>
                           let s3 = snd (UsbFnAdapterClosePipe K (fd_of r0) s2) in
                           if r \<noteq> HDF_SUCCESS then Some (RetErr HDF_ERR_DEVICE_BUSY, info1, s3)
                           else Some (r, info1\<lparr>xp_id := pipeId\<rparr>, s3) } })"

text \<open>After an error the direction is still that of the zeroed struct.\<close>

definition GetReqType :: "'k fn_os \<Rightarrow> ptr \<Rightarrow> u8 \<Rightarrow> 'k gadget \<Rightarrow> (UsbFnRequestType \<times> 'k gadget) option" where
  "GetReqType K hp pipe s =
     (if pipe > 0 then
        do { h \<leftarrow> g_fhandles s hp; e \<leftarrow> hm_intfMgr h;
             (r, info, s1) \<leftarrow> UsbFnIoMgrInterfaceGetPipeInfo K (Some e) (pipe - 1) zero_pipeInfo s;
             Some (case xp_dir info of PIPE_DIRECTION_IN \<Rightarrow> REQUEST_TYPE_PIPE_WRITE
                   | PIPE_DIRECTION_OUT \<Rightarrow> REQUEST_TYPE_PIPE_READ, s1) }
      else Some (REQUEST_TYPE_INVALID, s))"

text \<open>\<open>DListInsertTail\<close> and \<open>DListRemove\<close> of a request.\<close>

definition link_req :: "ptr \<Rightarrow> req_owner \<Rightarrow> 'k gadget \<Rightarrow> 'k gadget option" where
  "link_req p ow s =
     (case ow of
        InHandle hp \<Rightarrow> do { h \<leftarrow> g_fhandles s hp; Some (put_fhandle hp (h\<lparr>hm_reqEntry := hm_reqEntry h @ [p]\<rparr>) s) }
      | InFunc a i \<Rightarrow> do { f \<leftarrow> get_func (a, i) s; Some (put_func (a, i) (f\<lparr>fm_reqEntry := fm_reqEntry f @ [p]\<rparr>) s) })"

definition unlink_req :: "ptr \<Rightarrow> req_owner \<Rightarrow> 'k gadget \<Rightarrow> 'k gadget option" where
  "unlink_req p ow s =
     (case ow of
        InHandle hp \<Rightarrow> do { h \<leftarrow> g_fhandles s hp; Some (put_fhandle hp (h\<lparr>hm_reqEntry := remove1 p (hm_reqEntry h)\<rparr>) s) }
      | InFunc a i \<Rightarrow> do { f \<leftarrow> get_func (a, i) s; Some (put_func (a, i) (f\<lparr>fm_reqEntry := remove1 p (fm_reqEntry f)\<rparr>) s) })"

text \<open>The file of a pipe, opened on first use for the control pipe; \<open>None\<close> in the result where there is none.\<close>

definition request_ep :: "'k fn_os \<Rightarrow> UsbHandleMgr \<Rightarrow> elem \<Rightarrow> u8 \<Rightarrow> 'k gadget \<Rightarrow> (int option \<times> 'k gadget) option" where
  "request_ep K h fe pipe s =
     (if pipe = 0 then
        do { fm \<leftarrow> get_func fe s;
             if fm_fd fm \<le> 0 then
               do { (r, s1) \<leftarrow> OpenEp0AndMapAddr K fe s;
                    if r \<noteq> HDF_SUCCESS then Some (None, s1)
                    else do { fm1 \<leftarrow> get_func fe s1; Some (Some (fm_fd fm1), s1) } }
             else Some (Some (fm_fd fm), s) }
      else if unat pipe \<le> MAX_EP then
        (if unat pipe - 1 < length (hm_fds h) then Some (Some (hm_fds h ! (unat pipe - 1)), s) else None)
      else Some (None, s))"

definition UsbFnIoMgrRequestAlloc ::
  "'k fn_os \<Rightarrow> ptr \<Rightarrow> u8 \<Rightarrow> u32 \<Rightarrow> 'k gadget \<Rightarrow> (ptr option \<times> 'k gadget) option" where
  "UsbFnIoMgrRequestAlloc K hp pipe len s =
     do { h \<leftarrow> g_fhandles s hp; e \<leftarrow> hm_intfMgr h; im \<leftarrow> get_intf e s; fe \<leftarrow> im_funcMgr im;
          (epo, s1) \<leftarrow> request_ep K h fe pipe s;
          case epo of
            None \<Rightarrow> Some (None, s1)
          | Some ep \<Rightarrow>
              (case UsbFnAdapterMapAddr K ep len s1 of
                 (None, s2) \<Rightarrow> Some (None, s2)
               | (Some a, s2) \<Rightarrow>
                   do { (p, s3) \<leftarrow> galloc K sizeof_ReqList s2;
                        case p of
                          None \<Rightarrow> Some (None, s3)
                        | Some rp \<Rightarrow>
                            let ow = (if pipe = 0 then InFunc (fst fe) (snd fe) else InHandle hp) in
                            do { s4 \<leftarrow> link_req rp ow s3;
                                 (ty, s5) \<leftarrow> GetReqType K hp pipe s4;
                                 Some (Some rp, put_freq rp \<lparr>rl_req = zero_fnRequest\<lparr>q_length := len, q_obj := im_object im,
                                            q_buf := a, q_type := ty\<rparr>,
                                         rl_entry = ow, rl_pipe = pipe, rl_fd = ep, rl_buf = a, rl_bufLen = len,
                                         rl_handle = hp\<rparr> s5) } }) }"

definition UsbFnIoMgrRequestFree :: "'k fn_os \<Rightarrow> ptr option \<Rightarrow> 'k gadget \<Rightarrow> (ret \<times> 'k gadget) option" where
  "UsbFnIoMgrRequestFree K req s =
     (case req of
        None \<Rightarrow> Some (RetErr HDF_ERR_INVALID_PARAM, s)
      | Some p \<Rightarrow>
          do { r \<leftarrow> g_freqs s p;
               case UsbFnAdapterUnmapAddr K (q_buf (rl_req r)) (rl_bufLen r) s of
                 (r1, s1) \<Rightarrow>
                   if r1 \<noteq> HDF_SUCCESS then Some (RetErr HDF_ERR_DEVICE_BUSY, s1)
                   else case UsbFnAdapterReleaseBuf K (rl_fd r) (q_buf (rl_req r)) (rl_bufLen r) s1 of
                     (r2, s2) \<Rightarrow>
                       if r2 \<noteq> HDF_SUCCESS then Some (RetErr HDF_ERR_INVALID_PARAM, s2)
                       else do { s3 \<leftarrow> unlink_req p (rl_entry r) s2;
                                 s4 \<leftarrow> gfree (Some p) s3;
                                 Some (HDF_SUCCESS, s4) } })"

definition UsbFnIoMgrRequestSubmitAsync :: "'k fn_os \<Rightarrow> ptr option \<Rightarrow> 'k gadget \<Rightarrow> (ret \<times> 'k gadget) option" where
  "UsbFnIoMgrRequestSubmitAsync K req s =
     (case req of
        None \<Rightarrow> Some (RetErr HDF_ERR_INVALID_PARAM, s)
      | Some p \<Rightarrow>
          do { (r1, io) \<leftarrow> ReqToIoData req 1 0 s;
               if r1 \<noteq> HDF_SUCCESS then Some (RetErr HDF_ERR_IO, s)
               else do { r \<leftarrow> g_freqs s p; Some (UsbFnAdapterPipeIo K (rl_fd r) io s) } })"

definition UsbFnIoMgrRequestCancel :: "'k fn_os \<Rightarrow> ptr option \<Rightarrow> 'k gadget \<Rightarrow> (ret \<times> 'k gadget) option" where
  "UsbFnIoMgrRequestCancel K req s =
     (case req of
        None \<Rightarrow> Some (RetErr HDF_ERR_INVALID_PARAM, s)
      | Some p \<Rightarrow>
          do { (r1, io) \<leftarrow> ReqToIoData req 1 0 s;
               if r1 \<noteq> HDF_SUCCESS then Some (RetErr HDF_ERR_IO, s)
               else do { r \<leftarrow> g_freqs s p; Some (UsbFnAdapterCancelIo K (rl_fd r) io s) } })"

text \<open>The status that is stored is minus the adapter's result, which is the second component.\<close>

definition UsbFnIoMgrRequestGetStatus ::
  "'k fn_os \<Rightarrow> ptr option \<Rightarrow> 'k gadget \<Rightarrow> (ret \<times> ret option \<times> 'k gadget) option" where
  "UsbFnIoMgrRequestGetStatus K req s =
     (case req of
        None \<Rightarrow> Some (RetErr HDF_ERR_INVALID_PARAM, None, s)
      | Some p \<Rightarrow>
          do { (r1, io) \<leftarrow> ReqToIoData req 1 0 s;
               if r1 \<noteq> HDF_SUCCESS then Some (RetErr HDF_ERR_IO, None, s)
               else do { r \<leftarrow> g_freqs s p;
                 case UsbFnAdapterRequestGetStatus K (rl_fd r) io s of
                   (r2, s1) \<Rightarrow> Some (HDF_SUCCESS, Some r2, s1) } })"

definition UsbFnIoMgrRequestSubmitSync :: "'k fn_os \<Rightarrow> ptr option \<Rightarrow> u32 \<Rightarrow> 'k gadget \<Rightarrow> (ret \<times> 'k gadget) option" where
  "UsbFnIoMgrRequestSubmitSync K req timeout s =
     (case req of
        None \<Rightarrow> Some (RetErr HDF_ERR_INVALID_PARAM, s)
      | Some p \<Rightarrow>
          do { (r1, io) \<leftarrow> ReqToIoData req 0 timeout s;
               if r1 \<noteq> HDF_SUCCESS then Some (RetErr HDF_ERR_IO, s)
               else do { r \<leftarrow> g_freqs s p;
                 case UsbFnAdapterPipeIo K (rl_fd r) io s of
                   (r2, s1) \<Rightarrow>
                     if fd_of r2 > 0
                     then Some (HDF_SUCCESS, put_freq p (r\<lparr>rl_req := (rl_req r)\<lparr>q_status := 0,
                                                 q_actual := of_int (fd_of r2)\<rparr>\<rparr>) s1)
                     else Some (r2, s1) } })"

subsection \<open>Interfaces\<close>

fun free_events :: "ptr option list \<Rightarrow> 'k gadget \<Rightarrow> 'k gadget option" where
  "free_events [] s = Some s"
| "free_events (p # ps) s = do { s1 \<leftarrow> gfree p s; free_events ps s1 }"

text \<open>The loop of \<open>HandleInit\<close> from endpoint \<open>i\<close> on, \<open>n\<close> endpoints to go.\<close>

fun handle_init_loop ::
  "'k fn_os \<Rightarrow> ptr \<Rightarrow> string \<Rightarrow> u8 \<Rightarrow> nat \<Rightarrow> nat \<Rightarrow> 'k gadget \<Rightarrow> (ret \<times> 'k gadget) option" where
  "handle_init_loop K hp nm start 0 i s = Some (HDF_SUCCESS, s)"
| "handle_init_loop K hp nm start (Suc n) i s =
     (case UsbFnAdapterOpenPipe K nm (int (unat start + i)) s of
        (r, s1) \<Rightarrow>
          do { h \<leftarrow> g_fhandles s1 hp;
               if \<not> i < length (hm_fds h) then None
               else
                 let s2 = put_fhandle hp (h\<lparr>hm_fds := (hm_fds h)[i := fd_of r]\<rparr>) s1 in
                 if fd_of r \<le> 0 then Some (RetErr HDF_ERR_IO, s2)
                 else case UsbFnAdapterQueueInit K (fd_of r) s2 of
                   (r2, s3) \<Rightarrow>
                     if r2 \<noteq> HDF_SUCCESS then Some (RetErr HDF_ERR_IO, s3)
                     else do { (p, s4) \<leftarrow> galloc K sizeof_ReqEvents s3;
                               h1 \<leftarrow> g_fhandles s4 hp;
                               case p of
                                 None \<Rightarrow> do { s5 \<leftarrow> free_events (take i (hm_reqEvent h1))
                                                     (put_fhandle hp (h1\<lparr>hm_reqEvent := (hm_reqEvent h1)[i := None]\<rparr>) s4);
                                             Some (RetErr HDF_ERR_IO, s5) }
                               | Some a \<Rightarrow>
                                   handle_init_loop K hp nm start n (Suc i)
                                     (put_fhandle hp (h1\<lparr>hm_reqEvent := (hm_reqEvent h1)[i := Some a]\<rparr>)
                                        (s4\<lparr>g_revents := (g_revents s4)(a \<mapsto> replicate MAX_REQUEST zero_reqEvent)\<rparr>)) } })"

definition HandleInit :: "'k fn_os \<Rightarrow> ptr \<Rightarrow> elem \<Rightarrow> 'k gadget \<Rightarrow> (ret \<times> 'k gadget) option" where
  "HandleInit K hp e s =
     do { h \<leftarrow> g_fhandles s hp; im \<leftarrow> get_intf e s;
          let n = unat (xi_numPipes (im_info im));
              s1 = put_fhandle hp (h\<lparr>hm_reqEntry := [], numFd := n\<rparr>) s in
          if n = 0 then Some (HDF_SUCCESS, put_fhandle hp (h\<lparr>hm_reqEntry := [], numFd := n, hm_intfMgr := Some e\<rparr>) s1)
          else do { fe \<leftarrow> im_funcMgr im; fm \<leftarrow> get_func fe s;
            (r, s2) \<leftarrow> handle_init_loop K hp (fm_name fm) (startEpId im) n 0 s1;
            if r \<noteq> HDF_SUCCESS then Some (r, s2)
            else do { h2 \<leftarrow> g_fhandles s2 hp; Some (HDF_SUCCESS, put_fhandle hp (h2\<lparr>hm_intfMgr := Some e\<rparr>) s2) } } }"

definition UsbFnIoMgrInterfaceOpen ::
  "'k fn_os \<Rightarrow> elem option \<Rightarrow> 'k gadget \<Rightarrow> (ptr option \<times> 'k gadget) option" where
  "UsbFnIoMgrInterfaceOpen K intf s =
     (case intf of
        None \<Rightarrow> Some (None, s)
      | Some e \<Rightarrow>
          do { im \<leftarrow> get_intf e s;
               if isOpen im then Some (None, s)
               else do { (p, s1) \<leftarrow> galloc K sizeof_HandleMgr s;
                 case p of
                   None \<Rightarrow> Some (None, s1)
                 | Some hp \<Rightarrow>
                     do { (r, s2) \<leftarrow> HandleInit K hp e (put_fhandle hp zero_handleMgr s1);
                          if r \<noteq> HDF_SUCCESS then do { s3 \<leftarrow> gfree (Some hp) s2; Some (None, s3) }
                          else do { im2 \<leftarrow> get_intf e s2;
                            Some (Some hp, put_intf e (im2\<lparr>isOpen := True, im_handle := Some hp\<rparr>) s2) } } } })"

text \<open>The loop of \<open>UsbFnIoMgrInterfaceClose\<close>: an error leaves the rest of the endpoints open.\<close>

fun close_loop :: "'k fn_os \<Rightarrow> ptr \<Rightarrow> nat \<Rightarrow> nat \<Rightarrow> 'k gadget \<Rightarrow> (ret \<times> 'k gadget) option" where
  "close_loop K hp 0 i s = Some (HDF_SUCCESS, s)"
| "close_loop K hp (Suc n) i s =
     do { h \<leftarrow> g_fhandles s hp;
          if \<not> i < length (hm_fds h) then None
          else case UsbFnAdapterQueueDel K (hm_fds h ! i) s of
            (r1, s1) \<Rightarrow>
              if r1 \<noteq> HDF_SUCCESS then Some (RetErr HDF_ERR_DEVICE_BUSY, s1)
              else case UsbFnAdapterClosePipe K (hm_fds h ! i) s1 of
                (r2, s2) \<Rightarrow>
                  if r2 \<noteq> HDF_SUCCESS then Some (RetErr HDF_ERR_DEVICE_BUSY, s2)
                  else do { s3 \<leftarrow> gfree (hm_reqEvent h ! i) (put_fhandle hp (h\<lparr>hm_fds := (hm_fds h)[i := -1]\<rparr>) s2);
                            close_loop K hp n (Suc i) s3 } }"

definition UsbFnIoMgrInterfaceClose :: "'k fn_os \<Rightarrow> ptr option \<Rightarrow> 'k gadget \<Rightarrow> (ret \<times> 'k gadget) option" where
  "UsbFnIoMgrInterfaceClose K handle s =
     (case handle of
        None \<Rightarrow> Some (RetErr HDF_ERR_INVALID_PARAM, s)
      | Some hp \<Rightarrow>
          do { h \<leftarrow> g_fhandles s hp;
               case hm_intfMgr h of
                 None \<Rightarrow> Some (RetErr HDF_ERR_INVALID_PARAM, s)
               | Some e \<Rightarrow>
                   do { im \<leftarrow> get_intf e s;
                        if \<not> isOpen im then Some (RetErr HDF_ERR_INVALID_PARAM, s)
                        else do { (r, s1) \<leftarrow> close_loop K hp (numFd h) 0 s;
                          if r \<noteq> HDF_SUCCESS then Some (r, s1)
                          else do { s2 \<leftarrow> gfree (Some hp) s1;
                            im2 \<leftarrow> get_intf e s2;
                            Some (HDF_SUCCESS, put_intf e (im2\<lparr>isOpen := False, im_handle := None\<rparr>) s2) } } } })"

end
