(* ===== verification/Usbfn_Configfs.thy ===== *)
theory Usbfn_Configfs
  imports Usbfn_Adapter
begin

text \<open>
  The part of the Linux adapter (\<open>usb/ddk/device/src/adapter_if.c\<close>) that builds a device in the configuration
  file system: directories, property files, strings and links, the interfaces of the generic functions, and the
  file that binds the device to a controller.
\<close>

subsection \<open>Names and numbers\<close>

definition CONFIGFS_DIR :: string where "CONFIGFS_DIR = ''/config/usb_gadget''"
definition USBFN_DEV :: string where "USBFN_DEV = ''/dev/usbfn''"
definition FFS_ADB :: string where "FFS_ADB = ''/config/usb_gadget/g1/functions/ffs.adb''"
definition FFS_CONFIG :: string where "FFS_CONFIG = ''/config/usb_gadget/g1/configs/b.1/f1''"
definition MAX_PATHLEN :: nat where "MAX_PATHLEN = 128"

text \<open>The conversion \<open>%x\<close>.\<close>

definition hex_digit :: "nat \<Rightarrow> char" where
  "hex_digit n = char_of (if n < 10 then 48 + n else 87 + n)"

fun hex_string :: "nat \<Rightarrow> string" where
  "hex_string n = (if n < 16 then [hex_digit n] else hex_string (n div 16) @ [hex_digit (n mod 16)])"

declare hex_string.simps [simp del]

definition slash :: string where "slash = ''/''"

definition join_path :: "string list \<Rightarrow> string" where
  "join_path xs = concat (map (\<lambda>x. slash @ x) xs)"

text \<open>The path of a file of a device: \<open>"%s/%s/..."\<close> with \<open>CONFIGFS_DIR\<close> and the name of the device.\<close>

definition dev_path :: "string \<Rightarrow> string list \<Rightarrow> string" where
  "dev_path dev xs = CONFIGFS_DIR @ join_path (dev # xs)"

text \<open>A string of a description as the text that is written.\<close>

definition text_of :: "u8 list \<Rightarrow> string" where
  "text_of b = map (\<lambda>x. char_of (unat x)) b"

text \<open>
  \<open>strings[i]->strings[index].s\<close>: the array ends with an entry whose pointer is null, so that any index
  outside the list is an invalid access.
\<close>

definition string_at :: "UsbFnStrings \<Rightarrow> nat \<Rightarrow> string option" where
  "string_at u i = (if i < length (us_strings u) then Some (text_of (us_strings u ! i)) else None)"

subsection \<open>Files and directories\<close>

definition IsDirExist :: "'k fn_os \<Rightarrow> string \<Rightarrow> 'k \<Rightarrow> bool \<times> 'k" where
  "IsDirExist K path k = (case fo_opendir K path k of (d, k1) \<Rightarrow> (d \<noteq> None, k1))"

definition IsDir :: "'k fn_os \<Rightarrow> string \<Rightarrow> 'k \<Rightarrow> bool \<times> 'k" where
  "IsDir K path k = fo_isdir K path k"

definition IsSpecialDir :: "string \<Rightarrow> bool" where
  "IsSpecialDir path \<longleftrightarrow> path = ''.'' \<or> path = ''..''"

text \<open>
  The loop of \<open>DeleteFile\<close> closes the directory when it meets the first entry that is not special, and then goes on
  reading from it.
\<close>

definition DeleteFile :: "'k fn_os \<Rightarrow> string \<Rightarrow> 'k \<Rightarrow> 'k option" where
  "DeleteFile K path k =
     (case IsDir K path k of
        (False, k1) \<Rightarrow> Some k1
      | (True, k1) \<Rightarrow>
          (case fo_opendir K path k1 of
             (None, k2) \<Rightarrow> Some k2
           | (Some names, k2) \<Rightarrow> if list_all IsSpecialDir names then Some k2 else None))"

definition IsDeviceDirExist :: "'k fn_os \<Rightarrow> string \<Rightarrow> 'k \<Rightarrow> bool \<times> 'k" where
  "IsDeviceDirExist K dev k =
     (if \<not> fits MAX_PATHLEN (dev_path dev []) then (False, k) else IsDirExist K (dev_path dev []) k)"

definition UsbFnWriteFile :: "'k fn_os \<Rightarrow> string \<Rightarrow> string \<Rightarrow> 'k \<Rightarrow> ret \<times> 'k" where
  "UsbFnWriteFile K path str k =
     (if str = [] then (HDF_SUCCESS, k)
      else case fo_fopen K path True k of
        (False, k1) \<Rightarrow> (RetErr HDF_ERR_BAD_FD, k1)
      | (True, k1) \<Rightarrow>
          (case fo_fwrite K path str k1 of
             (w, k2) \<Rightarrow> (case fo_fclose K path k2 of
               (c, k3) \<Rightarrow> (if w \<and> c then HDF_SUCCESS else RetErr HDF_FAILURE, k3))))"

definition UsbFnWriteProp :: "'k fn_os \<Rightarrow> string \<Rightarrow> string \<Rightarrow> u32 \<Rightarrow> 'k \<Rightarrow> ret \<times> 'k" where
  "UsbFnWriteProp K dev propName propValue k =
     (if \<not> fits MAX_PATHLEN (dev_path dev [propName]) then (RetErr HDF_ERR_IO, k)
      else UsbFnWriteFile K (dev_path dev [propName]) (''0x'' @ hex_string (unat propValue)) k)"

text \<open>A directory that is made unless it is there; \<open>False\<close> where that fails.\<close>

definition ensure_dir :: "'k fn_os \<Rightarrow> string \<Rightarrow> 'k \<Rightarrow> bool \<times> 'k" where
  "ensure_dir K path k =
     (case IsDirExist K path k of
        (True, k1) \<Rightarrow> (True, k1)
      | (False, k1) \<Rightarrow> (case fo_mkdir K path k1 of (r, k2) \<Rightarrow> (r = 0, k2)))"

text \<open>The common body of \<open>UsbFnWriteConfString\<close> and \<open>UsbFnWriteDesString\<close>: a file in a directory of strings.\<close>

definition write_string :: "'k fn_os \<Rightarrow> string \<Rightarrow> string \<Rightarrow> string \<Rightarrow> 'k \<Rightarrow> ret \<times> 'k" where
  "write_string K dir name val k =
     (if \<not> fits MAX_PATHLEN dir then (RetErr HDF_ERR_IO, k)
      else case ensure_dir K dir k of
        (False, k1) \<Rightarrow> (RetErr HDF_ERR_IO, k1)
      | (True, k1) \<Rightarrow>
          if \<not> fits MAX_PATHLEN (dir @ join_path [name]) then (RetErr HDF_ERR_IO, k1)
          else UsbFnWriteFile K (dir @ join_path [name]) val k1)"

definition lang_name :: "u16 \<Rightarrow> string" where
  "lang_name lang = ''0x'' @ hex_string (unat lang)"

definition conf_name :: "u8 \<Rightarrow> string" where
  "conf_name v = ''b.'' @ dec_string (unat v)"

definition UsbFnWriteConfString :: "'k fn_os \<Rightarrow> string \<Rightarrow> u8 \<Rightarrow> u16 \<Rightarrow> string \<Rightarrow> 'k \<Rightarrow> ret \<times> 'k" where
  "UsbFnWriteConfString K dev configVal lang stringValue k =
     write_string K (dev_path dev [''configs'', conf_name configVal, ''strings'', lang_name lang]) ''configuration'' stringValue k"

definition UsbFnWriteDesString :: "'k fn_os \<Rightarrow> string \<Rightarrow> u16 \<Rightarrow> string \<Rightarrow> string \<Rightarrow> 'k \<Rightarrow> ret \<times> 'k" where
  "UsbFnWriteDesString K dev lang stringName stringValue k =
     write_string K (dev_path dev [''strings'', lang_name lang]) stringName stringValue k"

definition UsbFnAdapterCreateFunc :: "'k fn_os \<Rightarrow> string \<Rightarrow> string \<Rightarrow> 'k \<Rightarrow> ret \<times> 'k" where
  "UsbFnAdapterCreateFunc K configPath funcPath k =
     (case fo_mkdir K funcPath k of
        (r, k1) \<Rightarrow>
          if r \<noteq> 0 then (RetErr HDF_ERR_IO, k1)
          else case fo_symlink K funcPath configPath k1 of
            (r2, k2) \<Rightarrow> (if r2 \<noteq> 0 then RetErr HDF_ERR_IO else HDF_SUCCESS, k2))"

subsection \<open>The controller\<close>

text \<open>
  \<open>UsbFnReadFile\<close> into the buffer \<open>str\<close> (with its terminating zeros): the bytes read replace its front, and must
  fit into it.
\<close>

definition UsbFnReadFile :: "'k fn_os \<Rightarrow> string \<Rightarrow> string \<Rightarrow> nat \<Rightarrow> 'k \<Rightarrow> (ret \<times> string \<times> 'k) option" where
  "UsbFnReadFile K path str len k =
     (case fo_fopen K path False k of
        (False, k1) \<Rightarrow> Some (RetErr HDF_ERR_BAD_FD, str, k1)
      | (True, k1) \<Rightarrow>
          (case fo_fread K path len k1 of
             (bs, k2) \<Rightarrow>
               let new = take len bs in
               if length str < length new then None
               else case fo_fclose K path k2 of
                 (c, k3) \<Rightarrow> Some (if c then HDF_SUCCESS else RetErr HDF_FAILURE, new @ drop (length new) str, k3)))"

definition cstr :: "string \<Rightarrow> string" where
  "cstr b = takeWhile (\<lambda>c. c \<noteq> CHR 0x00) b"

text \<open>The loop that reads the name of the controller back, at most \<open>n\<close> times.\<close>

fun udc_loop :: "'k fn_os \<Rightarrow> string \<Rightarrow> string \<Rightarrow> nat \<Rightarrow> string \<Rightarrow> 'k \<Rightarrow> (bool \<times> string \<times> 'k) option" where
  "udc_loop K path udc 0 buf k = Some (False, buf, k)"
| "udc_loop K path udc (Suc n) buf k =
     do { (r, buf1, k1) \<leftarrow> UsbFnReadFile K path buf (length udc) k;
          if udc = cstr buf1 then Some (True, buf1, k1) else udc_loop K path udc n buf1 k1 }"

definition UsbFnAdapterWriteUDC :: "'k fn_os \<Rightarrow> string \<Rightarrow> string \<Rightarrow> bool \<Rightarrow> 'k \<Rightarrow> (ret \<times> 'k) option" where
  "UsbFnAdapterWriteUDC K dev udc enable k =
     (case IsDeviceDirExist K dev k of
        (False, k1) \<Rightarrow> Some (RetErr HDF_ERR_INVALID_PARAM, k1)
      | (True, k1) \<Rightarrow>
          let path = dev_path dev [''UDC''] in
          if \<not> fits MAX_PATHLEN path then Some (RetErr HDF_ERR_IO, k1)
          else if enable then
            (case UsbFnWriteFile K path udc k1 of
               (w, k2) \<Rightarrow>
                 do { (found, buf, k3) \<leftarrow> udc_loop K path udc OPEN_CNT (replicate MAX_NAMELEN (CHR 0x00)) k2;
                      if found then Some (HDF_SUCCESS, k3)
                      else Some (if udc \<noteq> cstr buf then RetErr HDF_ERR_IO else HDF_SUCCESS, k3) })
          else
            let cmd = ''echo '' @ [CHR 0x22, CHR 0x22] @ '' > '' @ path in
            if \<not> fits MAX_PATHLEN cmd then Some (RetErr HDF_ERR_IO, k1)
            else Some (HDF_SUCCESS, fo_system K cmd k1))"

definition UsbFnAdapterWaitUDC :: "'k fn_os \<Rightarrow> string \<Rightarrow> string \<Rightarrow> 'k \<Rightarrow> (ret \<times> 'k) option" where
  "UsbFnAdapterWaitUDC K dev udc k =
     (case IsDeviceDirExist K dev k of
        (False, k1) \<Rightarrow> Some (RetErr HDF_ERR_INVALID_PARAM, k1)
      | (True, k1) \<Rightarrow>
          let path = dev_path dev [''UDC''] in
          if \<not> fits MAX_PATHLEN path then Some (RetErr HDF_ERR_IO, k1)
          else do { (found, buf, k2) \<leftarrow> udc_loop K path udc (2 * OPEN_CNT) (replicate MAX_NAMELEN (CHR 0x00)) k1;
                    Some (if found then HDF_SUCCESS else RetErr HDF_ERR_IO, k2) })"

subsection \<open>Interfaces of generic functions\<close>

definition UsbFnAdapterOpenFn :: "'k fn_os \<Rightarrow> 'k \<Rightarrow> int \<times> 'k" where
  "UsbFnAdapterOpenFn K k = open_retry K OPEN_CNT USBFN_DEV (-1) k"

definition UsbFnAdapterClosefn :: "'k fn_os \<Rightarrow> int \<Rightarrow> 'k \<Rightarrow> ret \<times> 'k" where
  "UsbFnAdapterClosefn K fd k =
     (if fd \<le> 0 then (RetErr HDF_ERR_INVALID_PARAM, k) else case fo_close K fd k of (r, k1) \<Rightarrow> (RetVal r, k1))"

text \<open>The two functions differ only in the \<open>ioctl\<close>; a failure leaves the file open.\<close>

definition fn_ioctl :: "'k fn_os \<Rightarrow> (int \<Rightarrow> string \<Rightarrow> 'k \<Rightarrow> int \<times> 'k) \<Rightarrow> string \<Rightarrow> 'k \<Rightarrow> ret \<times> 'k" where
  "fn_ioctl K io name k =
     (if name = [] then (RetErr HDF_ERR_INVALID_PARAM, k)
      else case UsbFnAdapterOpenFn K k of
        (fd, k1) \<Rightarrow>
          if fd \<le> 0 then (RetErr HDF_ERR_IO, k1)
          else if \<not> fits MAX_NAMELEN name then (RetErr HDF_ERR_IO, k1)
          else case io fd name k1 of
            (r, k2) \<Rightarrow> if r \<noteq> 0 then (RetErr HDF_ERR_IO, k2) else UsbFnAdapterClosefn K fd k2)"

definition UsbFnAdapterCreatInterface :: "'k fn_os \<Rightarrow> string \<Rightarrow> 'k \<Rightarrow> ret \<times> 'k" where
  "UsbFnAdapterCreatInterface K name k = fn_ioctl K (fo_newfn K) name k"

definition UsbFnAdapterDelInterface :: "'k fn_os \<Rightarrow> string \<Rightarrow> 'k \<Rightarrow> ret \<times> 'k" where
  "UsbFnAdapterDelInterface K name k = fn_ioctl K (fo_delfn K) name k"

subsection \<open>The description of the device\<close>

fun write_props :: "'k fn_os \<Rightarrow> string \<Rightarrow> (string \<times> u32) list \<Rightarrow> 'k \<Rightarrow> ret \<times> 'k" where
  "write_props K dev [] k = (HDF_SUCCESS, k)"
| "write_props K dev ((n, v) # ps) k =
     (case UsbFnWriteProp K dev n v k of
        (r, k1) \<Rightarrow> if r \<noteq> HDF_SUCCESS then (RetErr HDF_ERR_INVALID_PARAM, k1) else write_props K dev ps k1)"

definition device_ids :: "UsbDeviceDescriptor \<Rightarrow> (string \<times> u32) list" where
  "device_ids d = [(''idVendor'', ucast (v_idVendor d)), (''idProduct'', ucast (v_idProduct d)), (''bcdUSB'', ucast (v_bcdUSB d)),
     (''bcdDevice'', ucast (v_bcdDevice d)), (''bDeviceClass'', ucast (v_bDeviceClass d)), (''bDeviceSubClass'', ucast (v_bDeviceSubClass d)),
     (''bDeviceProtocol'', ucast (v_bDeviceProtocol d)), (''bMaxPacketSize0'', ucast (v_bMaxPacketSize0 d))]"

definition WriteDeviceId :: "'k fn_os \<Rightarrow> string \<Rightarrow> UsbDeviceDescriptor \<Rightarrow> 'k \<Rightarrow> ret \<times> 'k" where
  "WriteDeviceId K dev d k = write_props K dev (device_ids d) k"

text \<open>The strings of one language, by name and index.\<close>

fun write_des_strings :: "'k fn_os \<Rightarrow> string \<Rightarrow> UsbFnStrings \<Rightarrow> (string \<times> u8) list \<Rightarrow> 'k \<Rightarrow> (ret \<times> 'k) option" where
  "write_des_strings K dev u [] k = Some (HDF_SUCCESS, k)"
| "write_des_strings K dev u ((n, i) # xs) k =
     do { t \<leftarrow> string_at u (unat i);
          case UsbFnWriteDesString K dev (us_language u) n t k of
            (r, k1) \<Rightarrow> if r \<noteq> HDF_SUCCESS then Some (RetErr HDF_ERR_INVALID_PARAM, k1) else write_des_strings K dev u xs k1 }"

fun write_des_langs :: "'k fn_os \<Rightarrow> string \<Rightarrow> (string \<times> u8) list \<Rightarrow> UsbFnStrings list \<Rightarrow> 'k \<Rightarrow> (ret \<times> 'k) option" where
  "write_des_langs K dev xs [] k = Some (HDF_SUCCESS, k)"
| "write_des_langs K dev xs (u # us) k =
     do { (r, k1) \<leftarrow> write_des_strings K dev u xs k;
          if r \<noteq> HDF_SUCCESS then Some (r, k1) else write_des_langs K dev xs us k1 }"

definition device_strings :: "UsbDeviceDescriptor \<Rightarrow> (string \<times> u8) list" where
  "device_strings d = [(''manufacturer'', v_iManufacturer d), (''product'', v_iProduct d), (''serialnumber'', v_iSerialNumber d)]"

definition WriteDeviceDescriptor :: "'k fn_os \<Rightarrow> string \<Rightarrow> UsbDeviceDescriptor \<Rightarrow> UsbFnStrings list \<Rightarrow> 'k \<Rightarrow> (ret \<times> 'k) option" where
  "WriteDeviceDescriptor K dev d us k =
     (case WriteDeviceId K dev d k of
        (r, k1) \<Rightarrow> if r \<noteq> HDF_SUCCESS then Some (RetErr HDF_ERR_INVALID_PARAM, k1)
          else write_des_langs K dev (device_strings d) us k1)"

definition CreatDeviceDir :: "'k fn_os \<Rightarrow> string \<Rightarrow> 'k \<Rightarrow> ret \<times> 'k" where
  "CreatDeviceDir K dev k =
     (if \<not> fits MAX_PATHLEN (dev_path dev []) then (RetErr HDF_ERR_IO, k)
      else case ensure_dir K (dev_path dev []) k of (ok, k1) \<Rightarrow> (if ok then HDF_SUCCESS else RetErr HDF_ERR_IO, k1))"

definition WriteConfPowerAttributes :: "'k fn_os \<Rightarrow> string \<Rightarrow> UsbFnConfiguration \<Rightarrow> u8 \<Rightarrow> 'k \<Rightarrow> ret \<times> 'k" where
  "WriteConfPowerAttributes K dev c confVal k =
     (let dir = dev_path dev [''configs'', conf_name confVal] in
      if \<not> fits MAX_PATHLEN dir then (RetErr HDF_ERR_IO, k)
      else case ensure_dir K dir k of
        (False, k1) \<Rightarrow> (RetErr HDF_ERR_IO, k1)
      | (True, k1) \<Rightarrow>
          let path = dir @ join_path [''MaxPower''] in
          if \<not> fits MAX_PATHLEN path then (RetErr HDF_ERR_IO, k1)
          else case UsbFnWriteFile K path (dec_string (unat (maxPower c))) k1 of
            (r, k2) \<Rightarrow>
              if ret_neg r then (RetErr HDF_ERR_INVALID_PARAM, k2)
              else let path2 = dir @ join_path [''bmAttributes''] in
                if \<not> fits MAX_PATHLEN path2 then (RetErr HDF_ERR_IO, k2)
                else case UsbFnWriteFile K path2 (''0x'' @ hex_string (unat (fc_attributes c))) k2 of
                  (r2, k3) \<Rightarrow> (if ret_neg r2 then RetErr HDF_ERR_INVALID_PARAM else HDF_SUCCESS, k3))"

subsection \<open>Functions\<close>

definition CreatKernelFunc :: "'k fn_os \<Rightarrow> string \<Rightarrow> UsbFnFunction \<Rightarrow> u8 \<Rightarrow> 'k \<Rightarrow> ret \<times> 'k" where
  "CreatKernelFunc K dev f confVal k =
     (let funcPath = dev_path dev [''functions'', funcName f];
          configPath = dev_path dev [''configs'', conf_name confVal, funcName f] in
      if \<not> fits MAX_PATHLEN funcPath then (RetErr HDF_ERR_IO, k)
      else if \<not> fits MAX_PATHLEN configPath then (RetErr HDF_ERR_IO, k)
      else case UsbFnAdapterCreateFunc K configPath funcPath k of
        (r, k1) \<Rightarrow> (if r \<noteq> HDF_SUCCESS then RetErr HDF_ERR_IO else r, k1))"

text \<open>The number of the configuration is written out here.\<close>

definition CleanConfigFs :: "'k fn_os \<Rightarrow> string \<Rightarrow> string \<Rightarrow> 'k \<Rightarrow> 'k" where
  "CleanConfigFs K dev name k =
     (let link = dev_path dev [''configs'', ''b.1'', name]; func = dev_path dev [''functions'', name] in
      if \<not> fits MAX_PATHLEN link then k
      else case fo_remove K link k of
        (r, k1) \<Rightarrow> if \<not> fits MAX_PATHLEN func then k1 else snd (fo_remove K func k1))"

definition CreatFunc :: "'k fn_os \<Rightarrow> string \<Rightarrow> UsbFnFunction \<Rightarrow> u8 \<Rightarrow> 'k gadget \<Rightarrow> (ret \<times> 'k gadget) option" where
  "CreatFunc K dev f confVal s =
     (case CreatKernelFunc K dev f confVal (g_kern s) of
        (r, k1) \<Rightarrow>
          let s1 = set_fkern k1 s in
          if ret_neg r then Some (RetErr HDF_ERR_IO, s1)
          else if \<not> fits MAX_NAMELEN (funcName f) then Some (RetErr HDF_ERR_IO, s1)
          else case UsbFnAdapterCreatInterface K (funcName f) k1 of
            (r2, k2) \<Rightarrow>
              if r2 \<noteq> HDF_SUCCESS then Some (RetErr HDF_ERR_IO, set_fkern (CleanConfigFs K dev (funcName f) k2) s)
              else case UsbFnAdapterOpenPipe K (funcName f) 0 (set_fkern k2 s) of
                (r3, s3) \<Rightarrow>
                  if fd_of r3 \<le> 0 then Some (RetErr HDF_ERR_IO, set_fkern (CleanConfigFs K dev (funcName f) (g_kern s3)) s3)
                  else do { (r4, s4) \<leftarrow> UsbFnAdapterCreatPipes K (fd_of r3) f s3;
                    if r4 \<noteq> HDF_SUCCESS then Some (RetErr HDF_ERR_IO, s4)
                    else case UsbFnAdapterClosePipe K (fd_of r3) s4 of
                      (r5, s5) \<Rightarrow> Some (if r5 \<noteq> HDF_SUCCESS then RetErr HDF_ERR_IO else HDF_SUCCESS, s5) })"

text \<open>The four parts of \<open>DelConfigDevice\<close> that are entered while the path fits.\<close>

fun delete_dirs :: "'k fn_os \<Rightarrow> string \<Rightarrow> string list \<Rightarrow> 'k \<Rightarrow> 'k option" where
  "delete_dirs K dev [] k =
     (if \<not> fits MAX_PATHLEN (dev_path dev []) then Some k else Some (snd (fo_rmdir K (dev_path dev []) k)))"
| "delete_dirs K dev (d # ds) k =
     (if \<not> fits MAX_PATHLEN (dev_path dev [d]) then Some k
      else do { k1 \<leftarrow> DeleteFile K (dev_path dev [d]) k; delete_dirs K dev ds k1 })"

definition DelConfigDevice :: "'k fn_os \<Rightarrow> string \<Rightarrow> 'k \<Rightarrow> 'k option" where
  "DelConfigDevice K dev k = delete_dirs K dev [''configs'', ''functions'', ''strings''] k"

definition CleanFunction :: "'k fn_os \<Rightarrow> string \<Rightarrow> string \<Rightarrow> 'k \<Rightarrow> 'k" where
  "CleanFunction K dev name k =
     (case UsbFnAdapterDelInterface K name k of
        (r, k1) \<Rightarrow> if r \<noteq> HDF_SUCCESS then k1 else CleanConfigFs K dev name k1)"

fun clean_names :: "'k fn_os \<Rightarrow> string \<Rightarrow> string list \<Rightarrow> 'k \<Rightarrow> 'k" where
  "clean_names K dev [] k = k"
| "clean_names K dev (n # ns) k =
     clean_names K dev ns (if has_prefix FUNCTION_GENERIC n then CleanFunction K dev n k else k)"

definition UsbFnAdapterCleanDevice :: "'k fn_os \<Rightarrow> string \<Rightarrow> 'k \<Rightarrow> 'k" where
  "UsbFnAdapterCleanDevice K dev k =
     (let path = dev_path dev [''functions''] @ slash in
      if \<not> fits MAX_PATHLEN path then k
      else case fo_opendir K path k of
        (None, k1) \<Rightarrow> k1
      | (Some names, k1) \<Rightarrow> clean_names K dev names k1)"

subsection \<open>Devices\<close>

fun del_funcs :: "'k fn_os \<Rightarrow> string \<Rightarrow> UsbFnFunction list \<Rightarrow> 'k \<Rightarrow> 'k" where
  "del_funcs K dev [] k = k"
| "del_funcs K dev (f # fs) k =
     del_funcs K dev fs
       (if \<not> has_prefix FUNCTION_GENERIC (funcName f) then CleanConfigFs K dev (funcName f) k
        else if \<not> fn_enable f then k
        else CleanFunction K dev (funcName f) k)"

fun del_configs :: "'k fn_os \<Rightarrow> string \<Rightarrow> UsbFnConfiguration list \<Rightarrow> 'k \<Rightarrow> 'k" where
  "del_configs K dev [] k = k"
| "del_configs K dev (c # cs) k = del_configs K dev cs (del_funcs K dev (fc_functions c) k)"

definition UsbFnAdapterDelDevice :: "'k fn_os \<Rightarrow> string \<Rightarrow> string \<Rightarrow> UsbFnDeviceDesc \<Rightarrow> 'k \<Rightarrow> (ret \<times> 'k) option" where
  "UsbFnAdapterDelDevice K dev udc des k =
     do { (r, k1) \<leftarrow> UsbFnAdapterWriteUDC K dev udc False k;
          if ret_neg r then Some (r, k1)
          else do { cs \<leftarrow> fn_configs des;
            let k2 = del_configs K dev cs k1 in
            if dev \<noteq> ''g1'' then do { k3 \<leftarrow> DelConfigDevice K dev k2; Some (HDF_SUCCESS, k3) }
            else Some (HDF_SUCCESS, k2) } }"

definition EnableDevice :: "'k fn_os \<Rightarrow> string \<Rightarrow> string \<Rightarrow> UsbFnDeviceDesc \<Rightarrow> 'k \<Rightarrow> (ret \<times> 'k) option" where
  "EnableDevice K udc dev des k =
     do { (r, k1) \<leftarrow> UsbFnAdapterWriteUDC K dev ''none'' False k;
          (r2, k2) \<leftarrow> UsbFnAdapterWaitUDC K dev udc k1;
          if r2 = HDF_SUCCESS then Some (HDF_SUCCESS, k2)
          else do { (r3, k3) \<leftarrow> UsbFnAdapterWriteUDC K dev udc True k2;
            if r3 \<noteq> HDF_SUCCESS then do { (r4, k4) \<leftarrow> UsbFnAdapterDelDevice K dev udc des k3; Some (r3, k4) }
            else Some (r3, k3) } }"

text \<open>The result of \<open>CreateFun\<close> is \<open>None\<close> where the function returns \<open>false\<close> and leaves \<open>ret\<close> as it is.\<close>

definition CreateFun :: "'k fn_os \<Rightarrow> UsbFnFunction \<Rightarrow> string \<Rightarrow> u8 \<Rightarrow> 'k gadget \<Rightarrow> (ret option \<times> 'k gadget) option" where
  "CreateFun K f dev confVal s =
     (if \<not> has_prefix FUNCTION_GENERIC (funcName f)
      then (case CreatKernelFunc K dev f confVal (g_kern s) of (r, k) \<Rightarrow> Some (Some r, set_fkern k s))
      else if \<not> fn_enable f then Some (None, s)
      else do { (r, s1) \<leftarrow> CreatFunc K dev f confVal s; Some (Some r, s1) })"

fun write_conf_strings :: "'k fn_os \<Rightarrow> string \<Rightarrow> UsbFnConfiguration \<Rightarrow> UsbFnStrings list \<Rightarrow> 'k \<Rightarrow> (ret \<times> 'k) option" where
  "write_conf_strings K dev c [] k = Some (HDF_SUCCESS, k)"
| "write_conf_strings K dev c (u # us) k =
     do { t \<leftarrow> string_at u (unat (iConfiguration c));
          case UsbFnWriteConfString K dev (configurationValue c) (us_language u) t k of
            (r, k1) \<Rightarrow> if ret_neg r then Some (RetErr HDF_ERR_INVALID_PARAM, k1) else write_conf_strings K dev c us k1 }"

fun create_fns :: "'k fn_os \<Rightarrow> string \<Rightarrow> string \<Rightarrow> u8 \<Rightarrow> UsbFnFunction list \<Rightarrow> 'k gadget \<Rightarrow> (ret \<times> 'k gadget) option" where
  "create_fns K udc dev confVal [] s = Some (HDF_SUCCESS, s)"
| "create_fns K udc dev confVal (f # fs) s =
     do { (ro, s1) \<leftarrow> CreateFun K f dev confVal s;
          case ro of
            None \<Rightarrow> create_fns K udc dev confVal fs s1
          | Some r \<Rightarrow>
              if ret_neg r then
                do { (ra, k2) \<leftarrow> UsbFnAdapterWriteUDC K dev ''none'' False (g_kern s1);
                     (rb, k3) \<leftarrow> UsbFnAdapterWriteUDC K dev udc True k2;
                     Some (RetErr HDF_ERR_INVALID_PARAM, set_fkern k3 s1) }
              else create_fns K udc dev confVal fs s1 }"

fun create_confs ::
  "'k fn_os \<Rightarrow> string \<Rightarrow> string \<Rightarrow> UsbFnStrings list \<Rightarrow> UsbFnConfiguration list \<Rightarrow> 'k gadget \<Rightarrow> (ret \<times> 'k gadget) option" where
  "create_confs K udc dev us [] s = Some (HDF_SUCCESS, s)"
| "create_confs K udc dev us (c # cs) s =
     (case WriteConfPowerAttributes K dev c (configurationValue c) (g_kern s) of
        (r, k1) \<Rightarrow>
          if r \<noteq> HDF_SUCCESS then Some (RetErr HDF_ERR_IO, set_fkern k1 s)
          else do { (r2, k2) \<leftarrow> write_conf_strings K dev c us k1;
            if r2 \<noteq> HDF_SUCCESS then Some (r2, set_fkern k2 s)
            else do { (r3, s3) \<leftarrow> create_fns K udc dev (configurationValue c) (fc_functions c) (set_fkern k2 s);
              if r3 \<noteq> HDF_SUCCESS then Some (r3, s3) else create_confs K udc dev us cs s3 } })"

definition UsbFnAdapterCreateDevice ::
  "'k fn_os \<Rightarrow> string \<Rightarrow> string \<Rightarrow> UsbFnDeviceDesc \<Rightarrow> 'k gadget \<Rightarrow> (ret \<times> 'k gadget) option" where
  "UsbFnAdapterCreateDevice K udc dev des s =
     (let k1 = UsbFnAdapterCleanDevice K dev (snd (fo_symlink K FFS_ADB FFS_CONFIG (g_kern s))) in
      case CreatDeviceDir K dev k1 of
        (r, k2) \<Rightarrow>
          if r \<noteq> HDF_SUCCESS then Some (RetErr HDF_ERR_IO, set_fkern k2 s)
          else do { d \<leftarrow> deviceDesc des; us \<leftarrow> deviceStrings des;
            (r2, k3) \<leftarrow> WriteDeviceDescriptor K dev d us k2;
            if r2 \<noteq> HDF_SUCCESS then Some (RetErr HDF_ERR_IO, set_fkern k3 s)
            else do { cs \<leftarrow> fn_configs des;
              (r3, s3) \<leftarrow> create_confs K udc dev us cs (set_fkern k3 s);
              if r3 \<noteq> HDF_SUCCESS then Some (r3, s3)
              else do { (r4, k4) \<leftarrow> EnableDevice K udc dev des (g_kern s3); Some (r4, set_fkern k4 s3) } } })"

end
