(* ===== verification/Usbfn_Props.thy ===== *)
theory Usbfn_Props
  imports Usbfn_Configfs
begin

text \<open>
  Properties of an interface, the second half of the configuration manager
  (\<open>usb/ddk/device/src/usbfn_cfg_mgr.c\<close>): a list of named values per interface, on top of the fields of the
  device descriptor and of the properties in the resource tree.  A change of a descriptor field is passed on
  to the configuration file system.
\<close>

subsection \<open>Names\<close>

definition MAX_LEN :: nat where "MAX_LEN = 64"
definition sizeof_CfgPropMgr :: nat where "sizeof_CfgPropMgr = 176"

abbreviation DESC_TYPE :: string where "DESC_TYPE \<equiv> ''bDescriptorType''"
abbreviation USBDEV_CLASS :: string where "USBDEV_CLASS \<equiv> ''bDeviceClass''"
abbreviation USBDEV_SUBCLASS :: string where "USBDEV_SUBCLASS \<equiv> ''bDeviceSubClass''"
abbreviation USBDEV_PROTOCOL :: string where "USBDEV_PROTOCOL \<equiv> ''bDeviceProtocol''"
abbreviation USBDEV_MAXSIZE :: string where "USBDEV_MAXSIZE \<equiv> ''bMaxPacketSize0''"
abbreviation USBDEV_MANUFACTURER :: string where "USBDEV_MANUFACTURER \<equiv> ''manufacturer''"
abbreviation USBDEV_PRODUCT :: string where "USBDEV_PRODUCT \<equiv> ''product''"
abbreviation USBDEV_SERIALNUM :: string where "USBDEV_SERIALNUM \<equiv> ''serialnumber''"
abbreviation USBDEV_NUMCFG :: string where "USBDEV_NUMCFG \<equiv> ''numConfigurations''"
abbreviation USBDEV_BCD :: string where "USBDEV_BCD \<equiv> ''bcdUSB''"
abbreviation USBDEV_VENDOR :: string where "USBDEV_VENDOR \<equiv> ''idVendor''"
abbreviation USBDEV_IDPRODUCT :: string where "USBDEV_IDPRODUCT \<equiv> ''idProduct''"
abbreviation USBDEV_BCDDEVICE :: string where "USBDEV_BCDDEVICE \<equiv> ''bcdDevice''"

text \<open>\<open>struct UsbFnRegistInfo\<close>.\<close>

record UsbFnRegistInfo =
  ri_name :: "string option"
  ri_value :: "string"
  ri_getProp :: "nat option"
  ri_setProp :: "nat option"

subsection \<open>The list of properties\<close>

text \<open>The search loop of \<open>IsPropRegisted\<close> and \<open>UsbfnCfgMgrFindPropMgr\<close>.\<close>

fun find_prop :: "'k gadget \<Rightarrow> elem \<Rightarrow> string \<Rightarrow> ptr list \<Rightarrow> ptr option option" where
  "find_prop s intf name [] = Some None"
| "find_prop s intf name (p # ps) =
     do { e \<leftarrow> g_props s p;
          if pc_intf e = intf \<and> name = pc_name e then Some (Some p) else find_prop s intf name ps }"

definition cfg_list :: "'k gadget \<Rightarrow> ptr list" where
  "cfg_list s = (case g_cfgEntry s of None \<Rightarrow> [] | Some ps \<Rightarrow> ps)"

definition UsbfnCfgMgrFindPropMgr :: "elem \<Rightarrow> string \<Rightarrow> 'k gadget \<Rightarrow> ptr option option" where
  "UsbfnCfgMgrFindPropMgr intf name s = find_prop s intf name (cfg_list s)"

definition IsPropRegisted :: "elem \<Rightarrow> string \<Rightarrow> 'k gadget \<Rightarrow> bool option" where
  "IsPropRegisted intf name s = map_option (\<lambda>q. q \<noteq> None) (find_prop s intf name (cfg_list s))"

text \<open>The list head is initialised on first use.\<close>

definition init_cfg :: "'k gadget \<Rightarrow> 'k gadget" where
  "init_cfg s = s\<lparr>g_cfgEntry := Some (cfg_list s)\<rparr>"

definition UsbFnCfgMgrUnRegisterAllProp :: "'k gadget \<Rightarrow> 'k gadget" where
  "UsbFnCfgMgrUnRegisterAllProp s = s\<lparr>g_cfgEntry := None\<rparr>"

subsection \<open>Fields of the device descriptor\<close>

text \<open>\<open>Some None\<close> where the name is not that of a field, \<open>None\<close> where \<open>intf->object\<close> is a dangling pointer.\<close>

definition IsDevDescPropAndGetValue :: "elem \<Rightarrow> string \<Rightarrow> 'k gadget \<Rightarrow> u16 option option" where
  "IsDevDescPropAndGetValue intf name s =
     do { im \<leftarrow> get_intf intf s;
          case im_object im of
            None \<Rightarrow> Some None
          | Some dp \<Rightarrow>
              do { m \<leftarrow> g_fdevs s dp;
                   Some (case Option.bind (dm_des m) deviceDesc of
                     None \<Rightarrow> None
                   | Some d \<Rightarrow>
                       if name = USBDEV_CLASS then Some (ucast (v_bDeviceClass d))
                       else if name = USBDEV_SUBCLASS then Some (ucast (v_bDeviceSubClass d))
                       else if name = USBDEV_PROTOCOL then Some (ucast (v_bDeviceProtocol d))
                       else if name = USBDEV_MAXSIZE then Some (ucast (v_bMaxPacketSize0 d))
                       else if name = USBDEV_MANUFACTURER then Some (ucast (v_iManufacturer d))
                       else if name = USBDEV_PRODUCT then Some (ucast (v_iProduct d))
                       else if name = USBDEV_SERIALNUM then Some (ucast (v_iSerialNumber d))
                       else if name = USBDEV_NUMCFG then Some (ucast (v_bNumConfigurations d))
                       else if name = USBDEV_BCD then Some (v_bcdUSB d)
                       else if name = USBDEV_VENDOR then Some (v_idVendor d)
                       else if name = USBDEV_IDPRODUCT then Some (v_idProduct d)
                       else if name = USBDEV_BCDDEVICE then Some (v_bcdDevice d)
                       else None) } }"

definition IsDevDescProp :: "string \<Rightarrow> bool" where
  "IsDevDescProp name \<longleftrightarrow> name \<in> set [USBDEV_SUBCLASS, DESC_TYPE, USBDEV_CLASS, USBDEV_PROTOCOL, USBDEV_MAXSIZE,
     USBDEV_MANUFACTURER, USBDEV_PRODUCT, USBDEV_SERIALNUM, USBDEV_NUMCFG, USBDEV_BCD, USBDEV_VENDOR, USBDEV_IDPRODUCT,
     USBDEV_BCDDEVICE]"

subsection \<open>Properties in the resource tree\<close>

text \<open>The loop over \<open>propList\<close>, \<open>n\<close> elements from index \<open>i\<close> on.\<close>

fun prop_list_loop :: "drs_ops \<Rightarrow> nat \<Rightarrow> string \<Rightarrow> nat \<Rightarrow> nat \<Rightarrow> string option" where
  "prop_list_loop D node name 0 i = None"
| "prop_list_loop D node name (Suc n) i =
     do { child \<leftarrow> dr_strElem D node ''propList'' i;
          pn \<leftarrow> dr_child D node child;
          nm \<leftarrow> dr_string D pn ''name'';
          if nm = name then dr_string D pn ''value'' else prop_list_loop D node name n (Suc i) }"

definition UsbFnCfgGetPropValueFromPropList :: "drs_ops \<Rightarrow> UsbFnInterfaceInfo \<Rightarrow> nat \<Rightarrow> string \<Rightarrow> string option" where
  "UsbFnCfgGetPropValueFromPropList D info node name =
     do { configNum \<leftarrow> dr_uint8 D node ''configNum'';
          interfaceNum \<leftarrow> dr_uint8 D node ''interfaceNum'';
          if xi_index info \<noteq> interfaceNum \<or> xi_configIndex info \<noteq> configNum then None
          else let n = dr_elemNum D node ''propList'' in
            if n \<le> 0 then None else prop_list_loop D node name (nat n) 0 }"

fun prop_table_loop :: "drs_ops \<Rightarrow> UsbFnInterfaceInfo \<Rightarrow> nat \<Rightarrow> string \<Rightarrow> nat \<Rightarrow> nat \<Rightarrow> string option" where
  "prop_table_loop D info node name 0 i = None"
| "prop_table_loop D info node name (Suc n) i =
     do { child \<leftarrow> dr_strElem D node ''propTable'' i;
          ln \<leftarrow> dr_child D node child;
          case UsbFnCfgGetPropValueFromPropList D info ln name of
            Some v \<Rightarrow> Some v
          | None \<Rightarrow> prop_table_loop D info node name n (Suc i) }"

definition UsbFnCfgGetPropValueFromHcs :: "drs_ops \<Rightarrow> UsbFnInterfaceInfo \<Rightarrow> nat \<Rightarrow> string \<Rightarrow> string option" where
  "UsbFnCfgGetPropValueFromHcs D info node name =
     (let n = dr_elemNum D node ''propTable'' in if n \<le> 0 then None else prop_table_loop D info node name (nat n) 0)"

definition UsbFnCfgFindPropFromHcs :: "'k fn_os \<Rightarrow> elem \<Rightarrow> string \<Rightarrow> 'k gadget \<Rightarrow> string option option" where
  "UsbFnCfgFindPropFromHcs K intf name s =
     do { im \<leftarrow> get_intf intf s;
          case im_object im of
            None \<Rightarrow> Some None
          | Some dp \<Rightarrow>
              do { m \<leftarrow> g_fdevs s dp;
                   Some (case (dm_node m, fo_drs K) of
                     (Some node, Some D) \<Rightarrow>
                       Option.bind (dr_child D node ''custom_prop'') (\<lambda>c. UsbFnCfgGetPropValueFromHcs D (im_info im) c name)
                   | _ \<Rightarrow> None) } }"

subsection \<open>Passing a change on\<close>

definition UsbFnCfgChangeUdcName :: "'k fn_os \<Rightarrow> UsbFnDeviceMgr \<Rightarrow> 'k \<Rightarrow> (ret \<times> 'k) option" where
  "UsbFnCfgChangeUdcName K m k =
     do { (r, k1) \<leftarrow> UsbFnAdapterWriteUDC K (dm_name m) (dm_udcName m) False k;
          if r \<noteq> HDF_SUCCESS then Some (RetErr HDF_FAILURE, k1)
          else do { (r2, k2) \<leftarrow> UsbFnAdapterWriteUDC K (dm_name m) (dm_udcName m) True k1;
            Some (if r2 \<noteq> HDF_SUCCESS then RetErr HDF_FAILURE else HDF_SUCCESS, k2) } }"

fun change_strings :: "'k fn_os \<Rightarrow> string \<Rightarrow> nat \<Rightarrow> string \<Rightarrow> UsbFnStrings list \<Rightarrow> 'k \<Rightarrow> (ret \<times> 'k) option" where
  "change_strings K dev i name [] k = Some (HDF_SUCCESS, k)"
| "change_strings K dev i name (u # us) k =
     do { t \<leftarrow> string_at u i;
          case UsbFnWriteDesString K dev (us_language u) name t k of
            (r, k1) \<Rightarrow> if r \<noteq> HDF_SUCCESS then Some (RetErr HDF_FAILURE, k1) else change_strings K dev i name us k1 }"

definition UsbFnCfgChangeStrings :: "'k fn_os \<Rightarrow> UsbFnDeviceMgr \<Rightarrow> nat \<Rightarrow> string \<Rightarrow> 'k \<Rightarrow> (ret \<times> 'k) option" where
  "UsbFnCfgChangeStrings K m i name k =
     (case Option.bind (dm_des m) deviceStrings of
        None \<Rightarrow> Some (RetErr HDF_FAILURE, k)
      | Some us \<Rightarrow> change_strings K (dm_name m) i name us k)"

text \<open>\<open>sscanf_s (value, "%x", &data)\<close>: white space, a sign, the prefix \<open>0x\<close> and hexadecimal digits.\<close>

definition hex_value :: "char \<Rightarrow> nat option" where
  "hex_value c = (let n = of_char c :: nat in
     if 48 \<le> n \<and> n \<le> 57 then Some (n - 48) else if 97 \<le> n \<and> n \<le> 102 then Some (n - 87)
     else if 65 \<le> n \<and> n \<le> 70 then Some (n - 55) else None)"

fun hex_prefix :: "nat \<Rightarrow> string \<Rightarrow> nat" where
  "hex_prefix acc [] = acc"
| "hex_prefix acc (c # cs) = (case hex_value c of None \<Rightarrow> acc | Some d \<Rightarrow> hex_prefix (16 * acc + d) cs)"

definition is_space :: "char \<Rightarrow> bool" where
  "is_space c \<longleftrightarrow> (let n = of_char c :: nat in n = 32 \<or> (9 \<le> n \<and> n \<le> 13))"

definition scan_hex :: "string \<Rightarrow> u32 option" where
  "scan_hex t =
     (let a = dropWhile is_space t;
          neg = (a \<noteq> [] \<and> hd a = CHR ''-'');
          b = (if a \<noteq> [] \<and> (hd a = CHR ''-'' \<or> hd a = CHR ''+'') then tl a else a);
          c = (if take 2 b = ''0x'' \<or> take 2 b = ''0X'' then drop 2 b else b) in
      if c = [] \<or> hex_value (hd c) = None then None
      else Some (if neg then - of_nat (hex_prefix 0 c) else of_nat (hex_prefix 0 c)))"

definition UsbFnCfgChangeDevceDes :: "'k fn_os \<Rightarrow> elem \<Rightarrow> string \<Rightarrow> string \<Rightarrow> 'k gadget \<Rightarrow> (ret \<times> 'k gadget) option" where
  "UsbFnCfgChangeDevceDes K intf name val s =
     do { im \<leftarrow> get_intf intf s;
          case im_object im of
            None \<Rightarrow> Some (RetErr HDF_FAILURE, s)
          | Some dp \<Rightarrow>
              do { m \<leftarrow> g_fdevs s dp;
                   if Option.bind (dm_des m) deviceDesc = None \<or> Option.bind (dm_des m) deviceStrings = None
                   then Some (RetErr HDF_FAILURE, s)
                   else case scan_hex val of
                     None \<Rightarrow> Some (RetErr HDF_FAILURE, s)
                   | Some data \<Rightarrow>
                       do { (r, k1) \<leftarrow>
                              (if name = USBDEV_MANUFACTURER \<or> name = USBDEV_PRODUCT \<or> name = USBDEV_SERIALNUM
                               then UsbFnCfgChangeStrings K m (unat data) name (g_kern s)
                               else Some (UsbFnWriteProp K (dm_name m) name data (g_kern s)));
                            if r \<noteq> HDF_SUCCESS then Some (RetErr HDF_ERR_INVALID_PARAM, set_fkern k1 s)
                            else do { (r2, k2) \<leftarrow> UsbFnCfgChangeUdcName K m k1;
                              Some (if r2 \<noteq> HDF_SUCCESS then RetErr HDF_FAILURE else HDF_SUCCESS, set_fkern k2 s) } } } }"

subsection \<open>Registering, reading and writing\<close>

text \<open>\<open>snprintf_s\<close> into a field of \<open>MAX_LEN\<close> bytes: what does not fit is cut off and reported.\<close>

definition cut :: "string \<Rightarrow> string" where
  "cut t = take (MAX_LEN - 1) t"

definition put_prop :: "ptr \<Rightarrow> UsbFnCfgPropMgr \<Rightarrow> 'k gadget \<Rightarrow> 'k gadget" where
  "put_prop p e s = s\<lparr>g_props := (g_props s)(p \<mapsto> e)\<rparr>"

definition UsbFnCfgMgrRegisterProp :: "'k fn_os \<Rightarrow> elem option \<Rightarrow> UsbFnRegistInfo option \<Rightarrow> 'k gadget \<Rightarrow> (ret \<times> 'k gadget) option" where
  "UsbFnCfgMgrRegisterProp K intf info s =
     (case (intf, info) of
        (Some e, Some ri) \<Rightarrow>
          (case ri_name ri of
             None \<Rightarrow> Some (RetErr HDF_FAILURE, s)
           | Some name \<Rightarrow>
               let s0 = init_cfg s; isDevProp = IsDevDescProp name in
               do { isRegist \<leftarrow> IsPropRegisted e name s0;
                    (po, s1) \<leftarrow> (if isRegist then
                                   if \<not> isDevProp then Some (None, s0)
                                   else do { q \<leftarrow> UsbfnCfgMgrFindPropMgr e name s0; Some (q, s0) }
                                 else galloc K sizeof_CfgPropMgr s0);
                    case po of
                      None \<Rightarrow> Some (RetErr HDF_FAILURE, s1)
                    | Some p \<Rightarrow>
                        do { old \<leftarrow> (if isRegist then g_props s1 p
                                      else Some \<lparr>pc_intf = e, pc_name = [], pc_value = [], pc_isDevProp = False,
                                             pc_getProp = None, pc_setProp = None\<rparr>);
                          let e1 = old\<lparr>pc_isDevProp := isDevProp, pc_intf := e, pc_name := cut name\<rparr> in
                          if \<not> fits MAX_LEN name then Some (RetErr HDF_FAILURE, put_prop p e1 s1)
                          else let e2 = e1\<lparr>pc_value := cut (ri_value ri)\<rparr> in
                            if \<not> fits MAX_LEN (ri_value ri) then Some (RetErr HDF_FAILURE, put_prop p e2 s1)
                            else let s2 = put_prop p (e2\<lparr>pc_getProp := ri_getProp ri, pc_setProp := ri_setProp ri\<rparr>) s1 in
                              Some (HDF_SUCCESS, if isRegist then s2 else s2\<lparr>g_cfgEntry := Some (cfg_list s2 @ [p])\<rparr>) } })
      | _ \<Rightarrow> Some (RetErr HDF_FAILURE, s))"

text \<open>
  \<open>memcpy_s (value, strlen (t), t, strlen (t))\<close> into the caller's buffer: the terminating zero is not copied, and
  the size of the buffer is not known to the callee.
\<close>

definition copy_out :: "string \<Rightarrow> string \<Rightarrow> string option" where
  "copy_out buf t = (if length t \<le> length buf then Some (t @ drop (length t) buf) else None)"

definition UsbFnCfgMgrGetProp :: "'k fn_os \<Rightarrow> elem option \<Rightarrow> string option \<Rightarrow> string \<Rightarrow> 'k gadget \<Rightarrow> (ret \<times> string \<times> 'k gadget) option" where
  "UsbFnCfgMgrGetProp K intf name buf s =
     (case (intf, name) of
        (Some e, Some nm) \<Rightarrow>
          let s0 = init_cfg s in
          do { q \<leftarrow> UsbfnCfgMgrFindPropMgr e nm s0;
               case q of
                 None \<Rightarrow>
                   do { vo \<leftarrow> IsDevDescPropAndGetValue e nm s0;
                        case vo of
                          Some v \<Rightarrow> do { b \<leftarrow> copy_out buf (hex_string (unat v)); Some (HDF_SUCCESS, b, s0) }
                        | None \<Rightarrow>
                            do { h \<leftarrow> UsbFnCfgFindPropFromHcs K e nm s0;
                                 case h of
                                   None \<Rightarrow> Some (RetErr HDF_FAILURE, buf, s0)
                                 | Some t \<Rightarrow> do { b \<leftarrow> copy_out buf t; Some (HDF_SUCCESS, b, s0) } } }
               | Some p \<Rightarrow>
                   do { x \<leftarrow> g_props s0 p;
                        b \<leftarrow> copy_out buf (pc_value x);
                        Some (HDF_SUCCESS, b, case pc_getProp x of None \<Rightarrow> s0
                          | Some c \<Rightarrow> s0\<lparr>g_log := g_log s0 @ [PropCalled c e nm (pc_value x)]\<rparr>) } }
      | _ \<Rightarrow> Some (RetErr HDF_FAILURE, buf, s))"

definition UsbFnCfgMgrSetProp :: "'k fn_os \<Rightarrow> elem option \<Rightarrow> string option \<Rightarrow> string \<Rightarrow> 'k gadget \<Rightarrow> (ret \<times> 'k gadget) option" where
  "UsbFnCfgMgrSetProp K intf name val s =
     (case (intf, name) of
        (Some e, Some nm) \<Rightarrow>
          let s0 = init_cfg s; deviceProp = IsDevDescProp nm;
              ri = Some \<lparr>ri_name = Some nm, ri_value = val, ri_getProp = None, ri_setProp = None\<rparr> in
          do { q \<leftarrow> UsbfnCfgMgrFindPropMgr e nm s0;
               case q of
                 None \<Rightarrow>
                   if \<not> deviceProp then
                     do { h \<leftarrow> UsbFnCfgFindPropFromHcs K e nm s0;
                          if h \<noteq> None then UsbFnCfgMgrRegisterProp K intf ri s0 else Some (RetErr HDF_FAILURE, s0) }
                   else
                     do { (r, s1) \<leftarrow> UsbFnCfgMgrRegisterProp K intf ri s0;
                          if r \<noteq> HDF_SUCCESS then Some (RetErr HDF_FAILURE, s1)
                          else do { (r2, s2) \<leftarrow> UsbFnCfgChangeDevceDes K e nm val s1;
                            Some (if r2 \<noteq> HDF_SUCCESS then RetErr HDF_FAILURE else HDF_SUCCESS, s2) } }
               | Some p \<Rightarrow>
                   do { x \<leftarrow> g_props s0 p;
                        let s1 = put_prop p (x\<lparr>pc_value := cut val\<rparr>) s0 in
                        if \<not> fits MAX_LEN val then Some (RetErr HDF_FAILURE, s1)
                        else do { (r2, s2) \<leftarrow> (if deviceProp then UsbFnCfgChangeDevceDes K e nm val s1 else Some (HDF_SUCCESS, s1));
                          if r2 \<noteq> HDF_SUCCESS then Some (RetErr HDF_FAILURE, s2)
                          else Some (HDF_SUCCESS, case pc_setProp x of None \<Rightarrow> s2
                            | Some c \<Rightarrow> s2\<lparr>g_log := g_log s2 @ [PropCalled c e nm (cut val)]\<rparr>) } } }
      | _ \<Rightarrow> Some (RetErr HDF_FAILURE, s))"

end
