(* ===== verification/Usbfn_Hcs.thy ===== *)
theory Usbfn_Hcs
  imports Usbfn_Props
begin

text \<open>
  The configuration manager (\<open>usb/ddk/device/src/usbfn_cfg_mgr.c\<close>), first part: reading the description of a device from the resource tree into newly
  allocated structs, and releasing it.  The error paths free what the source frees, which is not always what was allocated.
  The pointers that the static functions check are never null: their callers pass the results of successful calls.  The number of elements of an
  attribute is below \<open>INT_MAX\<close>.
\<close>

subsection \<open>Tables\<close>

text \<open>Sizes on an LP64 target, for the allocator.\<close>

definition sizeof_pointer :: nat where "sizeof_pointer = 8"
definition sizeof_DevDesc :: nat where "sizeof_DevDesc = 18"
definition sizeof_String :: nat where "sizeof_String = 16"
definition sizeof_FnStrings :: nat where "sizeof_FnStrings = 16"
definition sizeof_FnFunction :: nat where "sizeof_FnFunction = 56"
definition sizeof_FnConfig :: nat where "sizeof_FnConfig = 16"
definition sizeof_FnDeviceDesc :: nat where "sizeof_FnDeviceDesc = 24"

text \<open>Releasing blocks one after the other.\<close>

fun free_ptrs :: "ptr option list \<Rightarrow> 'k gadget \<Rightarrow> 'k gadget option" where
  "free_ptrs [] s = Some s"
| "free_ptrs (p # ps) s = do { s1 \<leftarrow> gfree p s; free_ptrs ps s1 }"

text \<open>
  The tables are all filled in the same way: a block for one pointer per element and a null pointer, then a loop whose body \<open>f\<close> makes the entry for an
  index or fails, in which case the error path \<open>undo\<close> releases some of the entries made so far.
\<close>

fun fill_loop :: "(nat \<Rightarrow> 'k gadget \<Rightarrow> ('e option \<times> 'k gadget) option) \<Rightarrow> nat \<Rightarrow> nat \<Rightarrow> 'e list \<Rightarrow> 'k gadget \<Rightarrow> (bool \<times> 'e list \<times> 'k gadget) option" where
  "fill_loop f 0 i acc s = Some (True, acc, s)"
| "fill_loop f (Suc n) i acc s =
     do { (r, s1) \<leftarrow> f i s;
          case r of None \<Rightarrow> Some (False, acc, s1) | Some e \<Rightarrow> fill_loop f n (Suc i) (acc @ [e]) s1 }"

definition fill_table :: "'k fn_os \<Rightarrow> int \<Rightarrow> (nat \<Rightarrow> 'k gadget \<Rightarrow> ('e option \<times> 'k gadget) option) \<Rightarrow> (ptr \<Rightarrow> 'e list \<Rightarrow> 'k gadget \<Rightarrow> 'k gadget option) \<Rightarrow>
    'k gadget \<Rightarrow> ((ptr \<times> 'e list) option \<times> 'k gadget) option" where
  "fill_table K n f undo s =
     (if n \<le> 0 then Some (None, s)
      else do { (p, s1) \<leftarrow> galloc K (nat (n + 1) * sizeof_pointer) s;
        case p of
          None \<Rightarrow> Some (None, s1)
        | Some a \<Rightarrow>
            do { (ok, es, s2) \<leftarrow> fill_loop f (nat n) 0 [] s1;
                 if ok then Some (Some (a, es), s2) else do { s3 \<leftarrow> undo a es s2; Some (None, s3) } } })"

text \<open>The body of a loop that first allocates a struct for the entry and then reads it from the node of the element.\<close>

definition read_entry :: "'k fn_os \<Rightarrow> nat \<Rightarrow> (nat \<Rightarrow> nat option) \<Rightarrow> (nat \<Rightarrow> ptr \<Rightarrow> 'k gadget \<Rightarrow> ('e option \<times> 'k gadget) option) \<Rightarrow>
    nat \<Rightarrow> 'k gadget \<Rightarrow> ('e option \<times> 'k gadget) option" where
  "read_entry K sz child parse i s =
     do { (p, s1) \<leftarrow> galloc K sz s;
          case p of
            None \<Rightarrow> Some (None, s1)
          | Some a \<Rightarrow> (case child i of None \<Rightarrow> Some (None, s1) | Some c \<Rightarrow> parse c a s1) }"

text \<open>The error paths release the entries from the last to the first, and then the table.\<close>

definition free_back :: "(ptr \<times> ptr list) \<Rightarrow> 'k gadget \<Rightarrow> 'k gadget option" where
  "free_back t s = do { s1 \<leftarrow> free_ptrs (rev (map Some (snd t))) s; gfree (Some (fst t)) s1 }"

subsection \<open>The device descriptor\<close>

definition USB_DDK_DT_DEVICE :: u8 where "USB_DDK_DT_DEVICE = 1"

definition UsbFnCfgMgrParseDevDesc :: "drs_ops \<Rightarrow> nat \<Rightarrow> UsbDeviceDescriptor option" where
  "UsbFnCfgMgrParseDevDesc D n =
     do { len \<leftarrow> dr_uint8 D n ''bLength'';
          if unat len \<noteq> sizeof_DevDesc then None
          else do {
            ty \<leftarrow> dr_uint8 D n DESC_TYPE; cl \<leftarrow> dr_uint8 D n USBDEV_CLASS; sc \<leftarrow> dr_uint8 D n USBDEV_SUBCLASS; pr \<leftarrow> dr_uint8 D n USBDEV_PROTOCOL;
            mx \<leftarrow> dr_uint8 D n USBDEV_MAXSIZE; mf \<leftarrow> dr_uint8 D n USBDEV_MANUFACTURER; pd \<leftarrow> dr_uint8 D n USBDEV_PRODUCT;
            sn \<leftarrow> dr_uint8 D n USBDEV_SERIALNUM; nc \<leftarrow> dr_uint8 D n USBDEV_NUMCFG;
            if ty \<noteq> USB_DDK_DT_DEVICE then None
            else do {
              bcd \<leftarrow> dr_uint16 D n USBDEV_BCD; vid \<leftarrow> dr_uint16 D n USBDEV_VENDOR; pid \<leftarrow> dr_uint16 D n USBDEV_IDPRODUCT; dev \<leftarrow> dr_uint16 D n USBDEV_BCDDEVICE;
              Some \<lparr>v_bLength = len, v_bDescriptorType = ty, v_bcdUSB = bcd, v_bDeviceClass = cl, v_bDeviceSubClass = sc, v_bDeviceProtocol = pr,
                v_bMaxPacketSize0 = mx, v_idVendor = vid, v_idProduct = pid, v_bcdDevice = dev, v_iManufacturer = mf, v_iProduct = pd, v_iSerialNumber = sn,
                v_bNumConfigurations = nc\<rparr> } } }"

text \<open>A node that an attribute of another names: \<open>GetString\<close> or \<open>GetStringArrayElem\<close> followed by \<open>GetChildNode\<close>.\<close>

definition node_of :: "drs_ops \<Rightarrow> nat \<Rightarrow> string \<Rightarrow> nat option" where
  "node_of D n name = Option.bind (dr_string D n name) (dr_child D n)"

definition elem_node :: "drs_ops \<Rightarrow> nat \<Rightarrow> string \<Rightarrow> nat \<Rightarrow> nat option" where
  "elem_node D n name i = Option.bind (dr_strElem D n name i) (dr_child D n)"

definition UsbFnCfgMgrParseUsbFnDevDesc :: "'k fn_os \<Rightarrow> nat \<Rightarrow> 'k gadget \<Rightarrow> ((ptr \<times> UsbDeviceDescriptor) option \<times> 'k gadget) option" where
  "UsbFnCfgMgrParseUsbFnDevDesc K node s =
     (case Option.bind (fo_drs K) (\<lambda>D. map_option (Pair D) (node_of D node ''usb_dev_desc'')) of
        None \<Rightarrow> Some (None, s)
      | Some (D, n) \<Rightarrow>
          do { (p, s1) \<leftarrow> galloc K sizeof_DevDesc s;
               case p of
                 None \<Rightarrow> Some (None, s1)
               | Some a \<Rightarrow>
                   (case UsbFnCfgMgrParseDevDesc D n of
                      Some d \<Rightarrow> Some (Some (a, d), s1)
                    | None \<Rightarrow> do { s2 \<leftarrow> gfree (Some a) s1; Some (None, s2) }) })"

subsection \<open>Strings\<close>

text \<open>The loop over \<open>stringList\<close>, \<open>n\<close> elements from index \<open>i\<close> on.\<close>

fun string_list_loop :: "drs_ops \<Rightarrow> nat \<Rightarrow> nat \<Rightarrow> nat \<Rightarrow> (u8 \<times> string) list option" where
  "string_list_loop D node 0 i = Some []"
| "string_list_loop D node (Suc n) i =
     do { c \<leftarrow> elem_node D node ''stringList'' i;
          x \<leftarrow> dr_uint8 D c ''id''; t \<leftarrow> dr_string D c ''str'';
          rest \<leftarrow> string_list_loop D node n (Suc i);
          Some ((x, t) # rest) }"

definition UsbFnCfgMgrParseString :: "'k fn_os \<Rightarrow> drs_ops \<Rightarrow> nat \<Rightarrow> 'k gadget \<Rightarrow> ((u16 \<times> ptr \<times> (u8 \<times> string) list) option \<times> 'k gadget) option" where
  "UsbFnCfgMgrParseString K D node s =
     (case dr_uint16 D node ''language'' of
        None \<Rightarrow> Some (None, s)
      | Some lang \<Rightarrow>
          let n = dr_elemNum D node ''stringList'' in
          if n \<le> 0 then Some (None, s)
          else do { (p, s1) \<leftarrow> galloc K (nat (n + 1) * sizeof_String) s;
            case p of
              None \<Rightarrow> Some (None, s1)
            | Some t \<Rightarrow>
                (case string_list_loop D node (nat n) 0 of
                   Some xs \<Rightarrow> Some (Some (lang, t, xs), s1)
                 | None \<Rightarrow> do { s2 \<leftarrow> gfree (Some t) s1; Some (None, s2) }) })"

text \<open>An entry whose strings cannot be read is not released, nor are the tables of the entries before it.\<close>

definition strings_entry :: "'k fn_os \<Rightarrow> drs_ops \<Rightarrow> nat \<Rightarrow> ptr \<Rightarrow> 'k gadget \<Rightarrow> (hcs_strings option \<times> 'k gadget) option" where
  "strings_entry K D c a s =
     do { (r, s1) \<leftarrow> UsbFnCfgMgrParseString K D c s;
          Some (map_option (\<lambda>(lang, t, xs). \<lparr>hs_at = a, hs_language = lang, hs_table = t, hs_list = xs\<rparr>) r, s1) }"

definition UsbFnCfgMgrParseStrings :: "'k fn_os \<Rightarrow> drs_ops \<Rightarrow> nat \<Rightarrow> 'k gadget \<Rightarrow> (hcs_strtab option \<times> 'k gadget) option" where
  "UsbFnCfgMgrParseStrings K D node s =
     fill_table K (dr_elemNum D node ''stringTabList'') (read_entry K sizeof_FnStrings (elem_node D node ''stringTabList'') (strings_entry K D))
       (\<lambda>a es. free_back (a, map hs_at es)) s"

definition UsbFnCfgMgrParseUsbFnDevStrings :: "'k fn_os \<Rightarrow> nat \<Rightarrow> 'k gadget \<Rightarrow> (hcs_strtab option \<times> 'k gadget) option" where
  "UsbFnCfgMgrParseUsbFnDevStrings K node s =
     (case Option.bind (fo_drs K) (\<lambda>D. map_option (Pair D) (node_of D node ''usb_dev_string'')) of
        None \<Rightarrow> Some (None, s)
      | Some (D, n) \<Rightarrow> UsbFnCfgMgrParseStrings K D n s)"

subsection \<open>Descriptors\<close>

text \<open>
  A descriptor is read into a block of as many bytes as the attribute \<open>bLength\<close> says: the structs of the source are packed and little-endian, and a field
  at an offset outside the block is not valid.  The flag of a result stands for \<open>HDF_SUCCESS\<close>.  \<open>read_fields\<close> is a chain of \<open>GetUint8\<close> calls with the offsets of the
  fields they fill.
\<close>

fun read_fields :: "drs_ops \<Rightarrow> nat \<Rightarrow> (string \<times> nat) list \<Rightarrow> u8 list \<Rightarrow> (bool \<times> u8 list) option" where
  "read_fields D n [] b = Some (True, b)"
| "read_fields D n ((name, off) # fs) b =
     (if length b \<le> off then None
      else case dr_uint8 D n name of
        None \<Rightarrow> Some (False, b)
      | Some v \<Rightarrow> do { b1 \<leftarrow> wrn b off [v]; read_fields D n fs b1 })"

text \<open>Going on after a success, and \<open>GetUint16\<close> and \<open>GetUint32\<close> into a local variable.\<close>

definition and_then :: "(bool \<times> u8 list) option \<Rightarrow> (u8 list \<Rightarrow> (bool \<times> u8 list) option) \<Rightarrow> (bool \<times> u8 list) option" where
  "and_then x f = do { (ok, b) \<leftarrow> x; if ok then f b else Some (False, b) }"

definition with_value :: "'v option \<Rightarrow> ('v \<Rightarrow> (bool \<times> u8 list) option) \<Rightarrow> u8 list \<Rightarrow> (bool \<times> u8 list) option" where
  "with_value x f b = (case x of None \<Rightarrow> Some (False, b) | Some v \<Rightarrow> f v)"

definition store_field :: "nat \<Rightarrow> u8 list \<Rightarrow> u8 list \<Rightarrow> (bool \<times> u8 list) option" where
  "store_field off bs b = map_option (Pair True) (wrn b off bs)"

abbreviation DESC_LENGTH :: string where "DESC_LENGTH \<equiv> ''bLength''"

definition UsbFnCfgMgrParseAccocInterfaceDesc :: "drs_ops \<Rightarrow> nat \<Rightarrow> u8 list \<Rightarrow> (bool \<times> u8 list) option" where
  "UsbFnCfgMgrParseAccocInterfaceDesc D n b =
     read_fields D n [(DESC_LENGTH, 0), (DESC_TYPE, 1), (''bFirstInterface'', 2), (''bInterfaceCount'', 3), (''bFunctionClass'', 4), (''bFunctionSubClass'', 5),
       (''bFunctionProtocol'', 6), (''iFunction'', 7)] b"

definition UsbFnCfgMgrParseInterfaceDesc :: "drs_ops \<Rightarrow> nat \<Rightarrow> u8 list \<Rightarrow> (bool \<times> u8 list) option" where
  "UsbFnCfgMgrParseInterfaceDesc D n b =
     read_fields D n [(DESC_LENGTH, 0), (DESC_TYPE, 1), (''bInterfaceNumber'', 2), (''bAlternateSetting'', 3), (''bNumEndpoints'', 4), (''bInterfaceClass'', 5),
       (''bInterfaceSubClass'', 6), (''bInterfaceProtocol'', 7), (''iInterface'', 8)] b"

definition UsbFnCfgMgrParseEndpointDesc :: "drs_ops \<Rightarrow> nat \<Rightarrow> u8 list \<Rightarrow> (bool \<times> u8 list) option" where
  "UsbFnCfgMgrParseEndpointDesc D n b =
     and_then (read_fields D n [(DESC_LENGTH, 0), (DESC_TYPE, 1), (''bEndpointAddress'', 2), (''bmAttributes'', 3)] b) (\<lambda>b1.
       with_value (dr_uint16 D n ''wMaxPacketSize'') (\<lambda>v.
         and_then (read_fields D n [(''bInterval'', 6)] b1) (\<lambda>b2.
           and_then (store_field 4 (le16_bytes v) b2) (\<lambda>b3.
             do { len \<leftarrow> rd8 b3 0;
                  if len = of_nat USB_DDK_DT_ENDPOINT_AUDIO_SIZE then read_fields D n [(''bRefresh'', 7), (''bSynchAddress'', 8)] b3
                  else Some (True, b3) }))) b1)"

definition UsbFnCfgMgrParseStringDesc :: "drs_ops \<Rightarrow> nat \<Rightarrow> u8 list \<Rightarrow> (bool \<times> u8 list) option" where
  "UsbFnCfgMgrParseStringDesc D n b =
     and_then (read_fields D n [(DESC_LENGTH, 0), (DESC_TYPE, 1)] b) (\<lambda>b1.
       with_value (dr_uint16 D n ''wData'') (\<lambda>v. store_field 2 (le16_bytes v) b1) b1)"

definition UsbFnCfgMgrParseSspIsocEndpointDesc :: "drs_ops \<Rightarrow> nat \<Rightarrow> u8 list \<Rightarrow> (bool \<times> u8 list) option" where
  "UsbFnCfgMgrParseSspIsocEndpointDesc D n b =
     and_then (read_fields D n [(DESC_LENGTH, 0), (DESC_TYPE, 1)] b) (\<lambda>b1.
       with_value (dr_uint16 D n ''wReseved'') (\<lambda>v.
         with_value (dr_uint32 D n ''dwBytesPerInterval'') (\<lambda>x.
           and_then (store_field 2 (le16_bytes v) b1) (store_field 4 (le32_bytes x))) b1) b1)"

definition UsbFnCfgMgrParseSsEndpointDesc :: "drs_ops \<Rightarrow> nat \<Rightarrow> u8 list \<Rightarrow> (bool \<times> u8 list) option" where
  "UsbFnCfgMgrParseSsEndpointDesc D n b =
     and_then (read_fields D n [(DESC_LENGTH, 0), (DESC_TYPE, 1), (''bMaxBurst'', 2), (''bmAttributes'', 3)] b) (\<lambda>b1.
       with_value (dr_uint16 D n ''wBytesPerInterval'') (\<lambda>v. store_field 4 (le16_bytes v) b1) b1)"

definition UsbFnCfgMgrParseQualifierDesc :: "drs_ops \<Rightarrow> nat \<Rightarrow> u8 list \<Rightarrow> (bool \<times> u8 list) option" where
  "UsbFnCfgMgrParseQualifierDesc D n b =
     and_then (read_fields D n [(DESC_LENGTH, 0), (DESC_TYPE, 1), (''bDeviceClass'', 4), (''bDeviceSubClass'', 5), (''bDeviceProtocol'', 6),
         (''bMaxPacketSize0'', 7), (''bNumConfigurations'', 8)] b) (\<lambda>b1.
       with_value (dr_uint16 D n ''bcdUSB'') (\<lambda>v. store_field 2 (le16_bytes v) b1) b1)"

text \<open>The long form reads the attribute of the device qualifier, \<open>bcdUSB\<close>, for the field \<open>bcdOTG\<close>.\<close>

definition UsbFnCfgMgrParseOtgDesc :: "drs_ops \<Rightarrow> nat \<Rightarrow> u8 list \<Rightarrow> u8 \<Rightarrow> (bool \<times> u8 list) option" where
  "UsbFnCfgMgrParseOtgDesc D n b len =
     and_then (read_fields D n [(DESC_LENGTH, 0), (DESC_TYPE, 1), (''bmAttributes'', 2)] b) (\<lambda>b1.
       if len = 5 then with_value (dr_uint16 D n ''bcdUSB'') (\<lambda>v. store_field 3 (le16_bytes v) b1) b1 else Some (True, b1))"

definition UsbFnCfgMgrParseDebugDesc :: "drs_ops \<Rightarrow> nat \<Rightarrow> u8 list \<Rightarrow> (bool \<times> u8 list) option" where
  "UsbFnCfgMgrParseDebugDesc D n b =
     read_fields D n [(DESC_LENGTH, 0), (DESC_TYPE, 1), (''bDebugInEndpoint'', 2), (''bDebugOutEndpoint'', 3)] b"

definition UsbFnCfgMgrParseSecurityDesc :: "drs_ops \<Rightarrow> nat \<Rightarrow> u8 list \<Rightarrow> (bool \<times> u8 list) option" where
  "UsbFnCfgMgrParseSecurityDesc D n b =
     and_then (read_fields D n [(DESC_LENGTH, 0), (DESC_TYPE, 1), (''bNumEncryptionTypes'', 4)] b) (\<lambda>b1.
       with_value (dr_uint16 D n ''wTotalLength'') (\<lambda>v. store_field 2 (le16_bytes v) b1) b1)"

text \<open>\<open>GetUint8Array\<close> fills the first bytes of the block.\<close>

definition UsbFnCfgMgrParseOtherDesc :: "drs_ops \<Rightarrow> nat \<Rightarrow> u8 list \<Rightarrow> u8 \<Rightarrow> (bool \<times> u8 list) option" where
  "UsbFnCfgMgrParseOtherDesc D n b len =
     with_value (dr_uint8s D n ''desc_data'' (unat len)) (\<lambda>bs.
       and_then (store_field 0 bs b) (\<lambda>b1. do { x \<leftarrow> rd8 b1 0; Some (x = len, b1) })) b"

definition UsbFnCfgMgrParseDescriptor :: "drs_ops \<Rightarrow> nat \<Rightarrow> u8 list \<Rightarrow> u8 \<Rightarrow> u8 \<Rightarrow> (bool \<times> u8 list) option" where
  "UsbFnCfgMgrParseDescriptor D n b ty len =
     (if ty = 4 then UsbFnCfgMgrParseInterfaceDesc D n b
      else if ty = 5 then UsbFnCfgMgrParseEndpointDesc D n b
      else if ty = 3 then UsbFnCfgMgrParseStringDesc D n b
      else if ty = 0x0B then UsbFnCfgMgrParseAccocInterfaceDesc D n b
      else if ty = 0x31 then UsbFnCfgMgrParseSspIsocEndpointDesc D n b
      else if ty = 0x30 then UsbFnCfgMgrParseSsEndpointDesc D n b
      else if ty = 6 then UsbFnCfgMgrParseQualifierDesc D n b
      else if ty = 9 then UsbFnCfgMgrParseOtgDesc D n b len
      else if ty = 0x0A then UsbFnCfgMgrParseDebugDesc D n b
      else if ty = 0x0C then UsbFnCfgMgrParseSecurityDesc D n b
      else if ty = 0x0E then UsbFnCfgMgrParseSecurityDesc D n b
      else UsbFnCfgMgrParseOtherDesc D n b len)"

definition UsbFnCfgMgrParseDesc :: "'k fn_os \<Rightarrow> drs_ops \<Rightarrow> nat \<Rightarrow> 'k gadget \<Rightarrow> ((ptr \<times> u8 list) option \<times> 'k gadget) option" where
  "UsbFnCfgMgrParseDesc K D n s =
     (case (dr_uint8 D n DESC_LENGTH, dr_uint8 D n DESC_TYPE) of
        (Some len, Some ty) \<Rightarrow>
          do { (p, s1) \<leftarrow> galloc K (unat len) s;
               case p of
                 None \<Rightarrow> Some (None, s1)
               | Some a \<Rightarrow>
                   do { (ok, b) \<leftarrow> UsbFnCfgMgrParseDescriptor D n (replicate (unat len) 0) ty len;
                        if ok then Some (Some (a, b), s1) else do { s2 \<leftarrow> gfree (Some a) s1; Some (None, s2) } } }
      | _ \<Rightarrow> Some (None, s))"

definition UsbFnCfgMgrParseFunDesc :: "'k fn_os \<Rightarrow> drs_ops \<Rightarrow> nat \<Rightarrow> string \<Rightarrow> 'k gadget \<Rightarrow> (hcs_descs option \<times> 'k gadget) option" where
  "UsbFnCfgMgrParseFunDesc K D node name s =
     fill_table K (dr_elemNum D node name)
       (\<lambda>i s. case elem_node D node name i of None \<Rightarrow> Some (None, s) | Some c \<Rightarrow> UsbFnCfgMgrParseDesc K D c s)
       (\<lambda>a ds. free_back (a, map fst ds)) s"

subsection \<open>Functions and configurations\<close>

text \<open>A function at \<open>a\<close>: a list of descriptors that cannot be read is left out.\<close>

definition UsbFnCfgMgrParseUsbFnFunction :: "'k fn_os \<Rightarrow> drs_ops \<Rightarrow> nat \<Rightarrow> ptr \<Rightarrow> 'k gadget \<Rightarrow> (hcs_function option \<times> 'k gadget) option" where
  "UsbFnCfgMgrParseUsbFnFunction K D node a s =
     (case dr_string D node ''funcName'' of
        None \<Rightarrow> Some (None, s)
      | Some name \<Rightarrow>
          do { (ss, s1) \<leftarrow> UsbFnCfgMgrParseStrings K D node s;
               case ss of
                 None \<Rightarrow> Some (None, s1)
               | Some tab \<Rightarrow>
                   do { (fs, s2) \<leftarrow> UsbFnCfgMgrParseFunDesc K D node ''fsDescList'' s1;
                        (hs, s3) \<leftarrow> UsbFnCfgMgrParseFunDesc K D node ''hsDescList'' s2;
                        (sd, s4) \<leftarrow> UsbFnCfgMgrParseFunDesc K D node ''ssDescList'' s3;
                        (sp, s5) \<leftarrow> UsbFnCfgMgrParseFunDesc K D node ''sspDescList'' s4;
                        Some (Some \<lparr>hf_at = a, hf_name = name, hf_strings = tab, hf_fs = fs, hf_hs = hs, hf_ss = sd, hf_ssp = sp\<rparr>, s5) } })"

text \<open>The error path does not release the first function: its loop ends at index 1.\<close>

definition UsbFnCfgMgrParseUsbFnFunctions :: "'k fn_os \<Rightarrow> drs_ops \<Rightarrow> nat \<Rightarrow> 'k gadget \<Rightarrow> ((ptr \<times> hcs_function list) option \<times> 'k gadget) option" where
  "UsbFnCfgMgrParseUsbFnFunctions K D node s =
     fill_table K (dr_elemNum D node ''functionList'')
       (read_entry K sizeof_FnFunction (elem_node D node ''functionList'') (UsbFnCfgMgrParseUsbFnFunction K D))
       (\<lambda>a fs. free_back (a, map hf_at (tl fs))) s"

definition UsbFnCfgMgrParseUsbFnConfiguration :: "'k fn_os \<Rightarrow> drs_ops \<Rightarrow> nat \<Rightarrow> ptr \<Rightarrow> 'k gadget \<Rightarrow> (hcs_config option \<times> 'k gadget) option" where
  "UsbFnCfgMgrParseUsbFnConfiguration K D node a s =
     (case do { v \<leftarrow> dr_uint8 D node ''configurationValue''; i \<leftarrow> dr_uint8 D node ''iConfiguration''; t \<leftarrow> dr_uint8 D node ''attributes'';
                m \<leftarrow> dr_uint16 D node ''maxPower''; Some (v, i, t, m) } of
        None \<Rightarrow> Some (None, s)
      | Some (v, i, t, m) \<Rightarrow>
          do { (fs, s1) \<leftarrow> UsbFnCfgMgrParseUsbFnFunctions K D node s;
               Some (map_option (\<lambda>f. \<lparr>hc_at = a, hc_value = v, hc_index = i, hc_attributes = t, hc_maxPower = m, hc_functions = f\<rparr>) fs, s1) })"

text \<open>
  The error path releases the strings of the device, as many of them as configurations were read, instead of the configurations: the table has a null pointer behind its
  last entry, and what is behind that must not be read.
\<close>

definition undo_configs :: "hcs_strtab \<Rightarrow> ptr \<Rightarrow> hcs_config list \<Rightarrow> 'k gadget \<Rightarrow> 'k gadget option" where
  "undo_configs strs a cs s =
     (if length (snd strs) + 1 < length cs then None
      else do { s1 \<leftarrow> free_ptrs (rev (take (length cs) (map (Some \<circ> hs_at) (snd strs) @ [None]))) s; gfree (Some (fst strs)) s1 })"

definition UsbFnCfgMgrParseUsbFnCfgLists :: "'k fn_os \<Rightarrow> drs_ops \<Rightarrow> nat \<Rightarrow> hcs_strtab \<Rightarrow> 'k gadget \<Rightarrow> ((ptr \<times> hcs_config list) option \<times> 'k gadget) option" where
  "UsbFnCfgMgrParseUsbFnCfgLists K D node strs s =
     fill_table K (dr_elemNum D node ''configList'')
       (read_entry K sizeof_FnConfig (elem_node D node ''configList'') (UsbFnCfgMgrParseUsbFnConfiguration K D))
       (undo_configs strs) s"

definition UsbFnCfgMgrParseUsbFnConfigurations :: "'k fn_os \<Rightarrow> nat \<Rightarrow> hcs_strtab \<Rightarrow> 'k gadget \<Rightarrow> ((ptr \<times> hcs_config list) option \<times> 'k gadget) option" where
  "UsbFnCfgMgrParseUsbFnConfigurations K node strs s =
     (case Option.bind (fo_drs K) (\<lambda>D. map_option (Pair D) (node_of D node ''usb_configuration'')) of
        None \<Rightarrow> Some (None, s)
      | Some (D, n) \<Rightarrow> UsbFnCfgMgrParseUsbFnCfgLists K D n strs s)"

definition UsbFnCfgMgrGetInstanceFromHCS :: "'k fn_os \<Rightarrow> nat option \<Rightarrow> 'k gadget \<Rightarrow> (hcs_device option \<times> 'k gadget) option" where
  "UsbFnCfgMgrGetInstanceFromHCS K node s =
     (case node of
        None \<Rightarrow> Some (None, s)
      | Some n \<Rightarrow>
          do { (p, s1) \<leftarrow> galloc K sizeof_FnDeviceDesc s;
               case p of
                 None \<Rightarrow> Some (None, s1)
               | Some a \<Rightarrow>
                   do { (dd, s2) \<leftarrow> UsbFnCfgMgrParseUsbFnDevDesc K n s1;
                        case dd of
                          None \<Rightarrow> Some (None, s2)
                        | Some desc \<Rightarrow>
                            do { (ss, s3) \<leftarrow> UsbFnCfgMgrParseUsbFnDevStrings K n s2;
                                 (cs, s4) \<leftarrow> (case ss of None \<Rightarrow> Some (None, s3) | Some tab \<Rightarrow> UsbFnCfgMgrParseUsbFnConfigurations K n tab s3);
                                 case (ss, cs) of
                                   (Some tab, Some cfgs) \<Rightarrow> Some (Some \<lparr>hd_at = a, hd_desc = desc, hd_strings = tab, hd_configs = cfgs\<rparr>, s4)
                                 | _ \<Rightarrow> do { s5 \<leftarrow> gfree (Some (fst desc)) s4; s6 \<leftarrow> gfree (Some a) s5; Some (None, s6) } } } })"

text \<open>
  The description as the other parts read it: the fields of the structs, with \<open>enable\<close> as the zeroed block has it.
\<close>

definition hcs_strings_of :: "hcs_strtab \<Rightarrow> UsbFnStrings list" where
  "hcs_strings_of t = map (\<lambda>h. \<lparr>us_language = hs_language h, us_strings = map (bytes_of \<circ> snd) (hs_list h)\<rparr>) (snd t)"

definition hcs_descs_of :: "hcs_descs option \<Rightarrow> descs option" where
  "hcs_descs_of d = map_option (map snd \<circ> snd) d"

definition hcs_function_of :: "hcs_function \<Rightarrow> UsbFnFunction" where
  "hcs_function_of f = \<lparr>fn_enable = False, funcName = hf_name f, fn_strings = hcs_strings_of (hf_strings f), fsDescriptors = hcs_descs_of (hf_fs f),
     hsDescriptors = hcs_descs_of (hf_hs f), ssDescriptors = hcs_descs_of (hf_ss f), sspDescriptors = hcs_descs_of (hf_ssp f)\<rparr>"

definition hcs_config_of :: "hcs_config \<Rightarrow> UsbFnConfiguration" where
  "hcs_config_of c = \<lparr>configurationValue = hc_value c, iConfiguration = hc_index c, fc_attributes = hc_attributes c, maxPower = hc_maxPower c,
     fc_functions = map hcs_function_of (snd (hc_functions c))\<rparr>"

definition description_of :: "hcs_device \<Rightarrow> UsbFnDeviceDesc" where
  "description_of h = \<lparr>deviceDesc = Some (snd (hd_desc h)), deviceStrings = Some (hcs_strings_of (hd_strings h)),
     fn_configs = Some (map hcs_config_of (snd (hd_configs h))), fn_blocks = Some h\<rparr>"

subsection \<open>Release\<close>

text \<open>
  The index of the loops is an \<open>int8_t\<close>: with more than 127 entries it becomes negative before the null pointer is found.  The tables of strings,
  \<open>hs_table\<close>, are not released.
\<close>

definition free_table :: "ptr \<Rightarrow> ptr list \<Rightarrow> 'k gadget \<Rightarrow> 'k gadget option" where
  "free_table a ps s = (if 127 < length ps then None else do { s1 \<leftarrow> free_ptrs (map Some ps) s; gfree (Some a) s1 })"

definition UsbFnCfgMgrFreeFnStrings :: "hcs_strtab \<Rightarrow> 'k gadget \<Rightarrow> 'k gadget option" where
  "UsbFnCfgMgrFreeFnStrings tab s = free_table (fst tab) (map hs_at (snd tab)) s"

definition UsbFnCfgMgrFreeFuncDescHead :: "hcs_descs \<Rightarrow> 'k gadget \<Rightarrow> 'k gadget option" where
  "UsbFnCfgMgrFreeFuncDescHead ds s = free_table (fst ds) (map fst (snd ds)) s"

definition free_descs :: "hcs_descs option \<Rightarrow> 'k gadget \<Rightarrow> 'k gadget option" where
  "free_descs d s = (case d of None \<Rightarrow> Some s | Some ds \<Rightarrow> UsbFnCfgMgrFreeFuncDescHead ds s)"

fun free_functions :: "hcs_function list \<Rightarrow> 'k gadget \<Rightarrow> 'k gadget option" where
  "free_functions [] s = Some s"
| "free_functions (f # fs) s =
     do { s1 \<leftarrow> UsbFnCfgMgrFreeFnStrings (hf_strings f) s;
          s2 \<leftarrow> free_descs (hf_fs f) s1; s3 \<leftarrow> free_descs (hf_hs f) s2; s4 \<leftarrow> free_descs (hf_ss f) s3; s5 \<leftarrow> free_descs (hf_ssp f) s4;
          s6 \<leftarrow> gfree (Some (hf_at f)) s5;
          free_functions fs s6 }"

definition UsbFnCfgMgrFreeFunctions :: "ptr \<times> hcs_function list \<Rightarrow> 'k gadget \<Rightarrow> 'k gadget option" where
  "UsbFnCfgMgrFreeFunctions fs s =
     (if 127 < length (snd fs) then None else do { s1 \<leftarrow> free_functions (snd fs) s; gfree (Some (fst fs)) s1 })"

fun free_configs :: "hcs_config list \<Rightarrow> 'k gadget \<Rightarrow> 'k gadget option" where
  "free_configs [] s = Some s"
| "free_configs (c # cs) s =
     do { s1 \<leftarrow> UsbFnCfgMgrFreeFunctions (hc_functions c) s; s2 \<leftarrow> gfree (Some (hc_at c)) s1; free_configs cs s2 }"

definition UsbFnCfgMgrFreeConfigs :: "ptr \<times> hcs_config list \<Rightarrow> 'k gadget \<Rightarrow> 'k gadget option" where
  "UsbFnCfgMgrFreeConfigs cs s =
     (if 127 < length (snd cs) then None else do { s1 \<leftarrow> free_configs (snd cs) s; gfree (Some (fst cs)) s1 })"

definition UsbFnCfgMgrFreeUsbFnDeviceDesc :: "hcs_device option \<Rightarrow> 'k gadget \<Rightarrow> 'k gadget option" where
  "UsbFnCfgMgrFreeUsbFnDeviceDesc fnDevDesc s =
     (case fnDevDesc of
        None \<Rightarrow> Some s
      | Some d \<Rightarrow>
          do { s1 \<leftarrow> gfree (Some (fst (hd_desc d))) s;
               s2 \<leftarrow> UsbFnCfgMgrFreeFnStrings (hd_strings d) s1;
               s3 \<leftarrow> UsbFnCfgMgrFreeConfigs (hd_configs d) s2;
               gfree (Some (hd_at d)) s3 })"

end
