(* ===== verification/Usbfn_Dev.thy ===== *)
theory Usbfn_Dev
  imports Usbfn_Io Usbfn_Hcs
begin

text \<open>
  The device manager of the device side (\<open>usb/ddk/device/src/usbfn_dev_mgr.c\<close>): the table of interfaces
  built from a description, the list of devices, and the thread that polls the endpoints and
  hands events and completed requests to the clients.
\<close>

definition sizeof_InterfaceMgr :: nat where "sizeof_InterfaceMgr = 40"
definition sizeof_FuncMgr :: nat where "sizeof_FuncMgr = 120"
definition sizeof_DeviceMgr :: nat where "sizeof_DeviceMgr = 224"
definition MAX_LIST :: nat where "MAX_LIST = 32"

subsection \<open>The table of interfaces\<close>

text \<open>
  What the loops of \<open>CreateInterface\<close> work on: the two arrays and the static counters \<open>g_intfCnt\<close>,
  \<open>g_epCnt\<close>, \<open>g_fnCntOld\<close>, with \<open>fnCnt\<close>.
\<close>

record ci_state =
  ci_funcs :: "UsbFnFuncMgr list"
  ci_intfs :: "UsbFnInterfaceMgr list"
  g_intfCnt :: nat
  g_epCnt :: u32
  g_fnCntOld :: nat
  ci_fnCnt :: nat

definition GetInterfaceInfo :: "ptr \<Rightarrow> ptr \<Rightarrow> u8 \<Rightarrow> u8 \<Rightarrow> u8 list \<Rightarrow> ci_state \<Rightarrow> ci_state option" where
  "GetInterfaceInfo dev fa numIntf cfgVal d c =
     (let c1 = (if g_fnCntOld c \<noteq> ci_fnCnt c then c\<lparr>g_fnCntOld := ci_fnCnt c, g_epCnt := 1\<rparr> else c) in
      do { ty \<leftarrow> rd8 d 1;
           if ty \<noteq> USB_DDK_DT_INTERFACE then Some c1
           else do { n \<leftarrow> rd8 d 4;
             if n = 0 then Some c1
             else if g_intfCnt c1 \<ge> unat numIntf then Some c1
             else if \<not> g_intfCnt c1 < length (ci_intfs c1) then None
             else do { num \<leftarrow> rd8 d 2; cl \<leftarrow> rd8 d 5; sub \<leftarrow> rd8 d 6; pr \<leftarrow> rd8 d 7;
               let i = g_intfCnt c1; old = ci_intfs c1 ! i;
                   new = old\<lparr>im_info := \<lparr>xi_index = num, xi_numPipes = n, xi_interfaceClass = cl, xi_subclass = sub,
                                     xi_protocol = pr, xi_configIndex = cfgVal\<rparr>,
                             im_object := Some dev, im_funcMgr := Some (fa, ci_fnCnt c1),
                             startEpId := ucast (g_epCnt c1)\<rparr>
               in Some (c1\<lparr>ci_intfs := (ci_intfs c1)[i := new], g_epCnt := g_epCnt c1 + ucast n,
                           g_intfCnt := Suc i\<rparr>) } } })"

fun create_descs :: "ptr \<Rightarrow> ptr \<Rightarrow> u8 \<Rightarrow> u8 \<Rightarrow> descs \<Rightarrow> ci_state \<Rightarrow> ci_state option" where
  "create_descs dev fa numIntf cfgVal [] c = Some c"
| "create_descs dev fa numIntf cfgVal (d # ds) c =
     do { c1 \<leftarrow> GetInterfaceInfo dev fa numIntf cfgVal d c; create_descs dev fa numIntf cfgVal ds c1 }"

text \<open>The functions of the generic driver that are enabled.\<close>

definition generic_func :: "UsbFnFunction \<Rightarrow> bool" where
  "generic_func f \<longleftrightarrow> has_prefix FUNCTION_GENERIC (funcName f) \<and> fn_enable f"

text \<open>The flag is \<open>False\<close> where the copy of a name fails and the function returns.\<close>

fun create_funcs ::
  "ptr \<Rightarrow> ptr \<Rightarrow> u8 \<Rightarrow> u8 \<Rightarrow> UsbFnFunction list \<Rightarrow> ci_state \<Rightarrow> (bool \<times> ci_state) option" where
  "create_funcs dev fa numIntf cfgVal [] c = Some (True, c)"
| "create_funcs dev fa numIntf cfgVal (f # fs) c =
     (if \<not> generic_func f then create_funcs dev fa numIntf cfgVal fs c
      else let n = ci_fnCnt c in
        if \<not> n < length (ci_funcs c) then None
        else let fm = (ci_funcs c ! n)\<lparr>fm_reqEntry := [], fm_object := Some dev\<rparr> in
          if \<not> fits MAX_NAMELEN (funcName f) then Some (False, c\<lparr>ci_funcs := (ci_funcs c)[n := fm]\<rparr>)
          else do { ds \<leftarrow> fsDescriptors f;
                    c1 \<leftarrow> create_descs dev fa numIntf cfgVal ds
                            (c\<lparr>ci_funcs := (ci_funcs c)[n := fm\<lparr>fm_name := funcName f\<rparr>]\<rparr>);
                    create_funcs dev fa numIntf cfgVal fs (c1\<lparr>ci_fnCnt := Suc n\<rparr>) })"

fun create_configs :: "ptr \<Rightarrow> ptr \<Rightarrow> u8 \<Rightarrow> UsbFnConfiguration list \<Rightarrow> ci_state \<Rightarrow> ci_state option" where
  "create_configs dev fa numIntf [] c = Some c"
| "create_configs dev fa numIntf (g # gs) c =
     do { (ok, c1) \<leftarrow> create_funcs dev fa numIntf (configurationValue g) (fc_functions g) c;
          if ok then create_configs dev fa numIntf gs c1 else Some c1 }"

definition CreateInterface :: "UsbFnDeviceDesc \<Rightarrow> ptr \<Rightarrow> 'k gadget \<Rightarrow> 'k gadget option" where
  "CreateInterface des dev s =
     do { d \<leftarrow> g_fdevs s dev; fa \<leftarrow> dm_funcMgr d; ia \<leftarrow> dm_interfaceMgr d;
          fs \<leftarrow> g_funcs s fa; is \<leftarrow> g_intfs s ia; gs \<leftarrow> fn_configs des;
          c \<leftarrow> create_configs dev fa (dm_numInterfaces d) gs
                 \<lparr>ci_funcs = fs, ci_intfs = is, g_intfCnt = 0, g_epCnt = 1, g_fnCntOld = 0, ci_fnCnt = 0\<rparr>;
          Some (s\<lparr>g_funcs := (g_funcs s)(fa \<mapsto> ci_funcs c), g_intfs := (g_intfs s)(ia \<mapsto> ci_intfs c)\<rparr>) }"

fun GetInterfaceNum :: "descs \<Rightarrow> u32 \<Rightarrow> u32 option" where
  "GetInterfaceNum [] num = Some num"
| "GetInterfaceNum (d # ds) num =
     do { ty \<leftarrow> rd8 d 1;
          if ty = USB_DDK_DT_INTERFACE
          then do { n \<leftarrow> rd8 d 4; GetInterfaceNum ds (if n > 0 then num + 1 else num) }
          else GetInterfaceNum ds num }"

text \<open>The counting loops of \<open>AllocInterfaceAndFuncMgr\<close>; both counters are \<open>uint8_t\<close>.\<close>

fun count_funcs :: "UsbFnFunction list \<Rightarrow> u8 \<times> u8 \<Rightarrow> (u8 \<times> u8) option" where
  "count_funcs [] c = Some c"
| "count_funcs (f # fs) (nf, ni) =
     (if \<not> generic_func f then count_funcs fs (nf, ni)
      else do { ds \<leftarrow> fsDescriptors f; k \<leftarrow> GetInterfaceNum ds 0; count_funcs fs (nf + 1, ni + ucast k) })"

fun count_configs :: "UsbFnConfiguration list \<Rightarrow> u8 \<times> u8 \<Rightarrow> (u8 \<times> u8) option" where
  "count_configs [] c = Some c"
| "count_configs (g # gs) c = do { c1 \<leftarrow> count_funcs (fc_functions g) c; count_configs gs c1 }"

definition AllocInterfaceAndFuncMgr :: "'k fn_os \<Rightarrow> ptr \<Rightarrow> UsbFnDeviceDesc \<Rightarrow> 'k gadget \<Rightarrow> (ret \<times> 'k gadget) option" where
  "AllocInterfaceAndFuncMgr K dev des s =
     do { d \<leftarrow> g_fdevs s dev; gs \<leftarrow> fn_configs des;
          (nf, ni) \<leftarrow> count_configs gs (numFunc d, dm_numInterfaces d);
          let d1 = d\<lparr>numFunc := nf, dm_numInterfaces := ni\<rparr> in
          if ni = 0 then Some (RetErr HDF_ERR_IO, put_fdev dev d1 s)
          else do { (p, s1) \<leftarrow> galloc K (unat ni * sizeof_InterfaceMgr) (put_fdev dev d1 s);
            case p of
              None \<Rightarrow> Some (RetErr HDF_ERR_IO, s1)
            | Some ia \<Rightarrow>
                let s2 = put_fdev dev (d1\<lparr>dm_interfaceMgr := Some ia\<rparr>)
                           (s1\<lparr>g_intfs := (g_intfs s1)(ia \<mapsto> replicate (unat ni) zero_interfaceMgr)\<rparr>) in
                do { (q, s3) \<leftarrow> galloc K (unat nf * sizeof_FuncMgr) s2;
                     case q of
                       None \<Rightarrow> do { s4 \<leftarrow> gfree (Some ia) s3; Some (RetErr HDF_ERR_IO, s4) }
                     | Some fa \<Rightarrow>
                         Some (HDF_SUCCESS, put_fdev dev (d1\<lparr>dm_interfaceMgr := Some ia, dm_funcMgr := Some fa\<rparr>)
                           (s3\<lparr>g_funcs := (g_funcs s3)(fa \<mapsto> replicate (unat nf) zero_funcMgr)\<rparr>)) } } }"

subsection \<open>Devices\<close>

definition FindEmptyId :: "'k gadget \<Rightarrow> int option" where
  "FindEmptyId s =
     (case g_devEntry s of
        None \<Rightarrow> Some 1
      | Some ps \<Rightarrow>
          if ps = [] then Some 1
          else do { ids \<leftarrow> those (map (\<lambda>p. map_option dm_objectId (g_fdevs s p)) ps);
                    Some (case List.find (\<lambda>i. int i \<notin> set ids) [1..<MAX_LIST] of None \<Rightarrow> -1 | Some i \<Rightarrow> int i) })"

definition CreatDev :: "'k fn_os \<Rightarrow> string \<Rightarrow> UsbFnDeviceDesc \<Rightarrow> ptr \<Rightarrow> 'k gadget \<Rightarrow> (ret \<times> 'k gadget) option" where
  "CreatDev K udcName des dev s =
     do { devCnt \<leftarrow> FindEmptyId s;
          if devCnt < 0 then Some (RetErr HDF_ERR_IO, s)
          else do { d \<leftarrow> g_fdevs s dev;
            let nm = ''g'' @ dec_string (nat devCnt);
                d1 = d\<lparr>dm_objectId := devCnt, dm_name := nm\<rparr> in
            if \<not> fits MAX_NAMELEN udcName then Some (RetErr HDF_ERR_IO, put_fdev dev d1 s)
            else let s1 = put_fdev dev (d1\<lparr>dm_udcName := udcName\<rparr>) s in
              do { (r, s2) \<leftarrow> UsbFnAdapterCreateDevice K udcName nm des s1;
                   Some (if r \<noteq> HDF_SUCCESS then RetErr HDF_ERR_IO else HDF_SUCCESS, s2) } } }"

definition StartThreadIo :: "'k fn_os \<Rightarrow> 'k gadget \<Rightarrow> ret \<times> 'k gadget" where
  "StartThreadIo K s =
     (case fo_thread_create K (g_kern s) of
        (r, k) \<Rightarrow> if r \<noteq> HDF_SUCCESS then (RetErr HDF_ERR_DEVICE_BUSY, set_fkern k s)
          else case fo_thread_start K k of
            (r2, k2) \<Rightarrow> (if r2 \<noteq> HDF_SUCCESS then RetErr HDF_ERR_DEVICE_BUSY else HDF_SUCCESS, set_fkern k2 s))"

definition UsbFnMgrDeviceCreate ::
  "'k fn_os \<Rightarrow> string option \<Rightarrow> UsbFnDeviceDesc option \<Rightarrow> nat option \<Rightarrow> 'k gadget \<Rightarrow> (ptr option \<times> 'k gadget) option" where
  "UsbFnMgrDeviceCreate K udcName des node s =
     (case (udcName, des) of
        (Some udc, Some ds) \<Rightarrow>
          do { (p, s1) \<leftarrow> galloc K sizeof_DeviceMgr s;
               case p of
                 None \<Rightarrow> Some (None, s1)
               | Some dev \<Rightarrow>
                   do { (r, s2) \<leftarrow> CreatDev K udc ds dev (put_fdev dev zero_deviceMgr s1);
                        if r \<noteq> HDF_SUCCESS then do { s3 \<leftarrow> gfree (Some dev) s2; Some (None, s3) }
                        else do { (r2, s3) \<leftarrow> AllocInterfaceAndFuncMgr K dev ds s2;
                          if r2 \<noteq> HDF_SUCCESS then do { s4 \<leftarrow> gfree (Some dev) s3; Some (None, s4) }
                          else do { s4 \<leftarrow> CreateInterface ds dev s3;
                            d \<leftarrow> g_fdevs s4 dev;
                            let s5 = put_fdev dev (d\<lparr>dm_node := node, dm_des := Some ds, dm_running := True\<rparr>)
                                  (s4\<lparr>g_devEntry := Some (case g_devEntry s4 of None \<Rightarrow> [dev] | Some ps \<Rightarrow> ps @ [dev])\<rparr>) in
                            case StartThreadIo K s5 of
                              (r3, s6) \<Rightarrow>
                                if r3 \<noteq> HDF_SUCCESS then
                                  do { s7 \<leftarrow> gfree (dm_interfaceMgr d) s6; s8 \<leftarrow> gfree (dm_funcMgr d) s7;
                                       s9 \<leftarrow> gfree (Some dev) s8; Some (None, s9) }
                                else Some (Some dev, s6) } } } }
      | _ \<Rightarrow> Some (None, s))"

text \<open>
  The wait of \<open>UsbFnMgrDeviceRemove\<close> for the polling thread: at most 21 times a sleep, during which \<open>E\<close> is what
  the other threads do.
\<close>

fun remove_wait :: "('k gadget \<Rightarrow> 'k gadget) \<Rightarrow> nat \<Rightarrow> ptr \<Rightarrow> 'k gadget \<Rightarrow> 'k gadget option" where
  "remove_wait E 0 dev s = Some s"
| "remove_wait E (Suc n) dev s =
     do { d \<leftarrow> g_fdevs s dev; if dm_running d then Some s else remove_wait E n dev (E s) }"

definition UsbFnMgrDeviceRemove ::
  "'k fn_os \<Rightarrow> ('k gadget \<Rightarrow> 'k gadget) \<Rightarrow> ptr option \<Rightarrow> 'k gadget \<Rightarrow> (ret \<times> 'k gadget) option" where
  "UsbFnMgrDeviceRemove K E fnDevice s =
     (case fnDevice of
        None \<Rightarrow> Some (RetErr HDF_ERR_INVALID_PARAM, s)
      | Some dev \<Rightarrow>
          do { d \<leftarrow> g_fdevs s dev;
               s1 \<leftarrow> remove_wait E 21 dev (put_fdev dev (d\<lparr>dm_running := False\<rparr>) s);
               case fo_thread_destroy K (g_kern s1) of
                 (r, k) \<Rightarrow>
                   if r \<noteq> HDF_SUCCESS then Some (r, set_fkern k s1)
                   else do { d1 \<leftarrow> g_fdevs s1 dev; ds \<leftarrow> dm_des d1;
                     (r2, k2) \<leftarrow> UsbFnAdapterDelDevice K (dm_name d1) (dm_udcName d1) ds k;
                         let s2 = set_fkern k2 s1 in
                         if r2 \<noteq> HDF_SUCCESS then Some (r2, s2)
                         else do { ps \<leftarrow> g_devEntry s2;
                           s3 \<leftarrow> gfree (dm_funcMgr d1) (UsbFnCfgMgrUnRegisterAllProp (s2\<lparr>g_devEntry := Some (remove1 dev ps)\<rparr>));
                           s4 \<leftarrow> gfree (dm_interfaceMgr d1) s3;
                           s5 \<leftarrow> (if dm_node d1 = None then Some s4
                                else do { h \<leftarrow> fn_blocks ds; UsbFnCfgMgrFreeUsbFnDeviceDesc (Some h) s4 });
                           s6 \<leftarrow> gfree (Some dev) s5;
                           Some (HDF_SUCCESS, s6) } } })"

fun find_device :: "string \<Rightarrow> ptr list \<Rightarrow> 'k gadget \<Rightarrow> ptr option option" where
  "find_device udc [] s = Some None"
| "find_device udc (p # ps) s =
     do { d \<leftarrow> g_fdevs s p; if dm_udcName d = udc then Some (Some p) else find_device udc ps s }"

definition UsbFnMgrDeviceGet :: "string option \<Rightarrow> 'k gadget \<Rightarrow> ptr option option" where
  "UsbFnMgrDeviceGet udcName s =
     (case (udcName, g_devEntry s) of
        (Some udc, Some ps) \<Rightarrow> find_device udc ps s
      | _ \<Rightarrow> Some None)"

definition UsbFnMgrDeviceGetState :: "ptr option \<Rightarrow> 'k gadget \<Rightarrow> (ret \<times> nat option) option" where
  "UsbFnMgrDeviceGetState fnDevice s =
     (case fnDevice of
        None \<Rightarrow> Some (RetErr HDF_ERR_INVALID_PARAM, None)
      | Some dev \<Rightarrow> do { d \<leftarrow> g_fdevs s dev; Some (HDF_SUCCESS, Some (devState d)) })"

definition UsbFnMgrDeviceGetInterface :: "ptr option \<Rightarrow> u8 \<Rightarrow> 'k gadget \<Rightarrow> elem option option" where
  "UsbFnMgrDeviceGetInterface fnDevice interfaceIndex s =
     (case fnDevice of
        None \<Rightarrow> Some None
      | Some dev \<Rightarrow>
          do { d \<leftarrow> g_fdevs s dev;
               if interfaceIndex \<ge> dm_numInterfaces d then Some None
               else do { ia \<leftarrow> dm_interfaceMgr d; Some (Some (ia, unat interfaceIndex)) } })"

subsection \<open>The polling thread\<close>

fun collect_ep0 :: "UsbFnFuncMgr list \<Rightarrow> UsbFnEventAll \<Rightarrow> UsbFnEventAll option" where
  "collect_ep0 [] ev = Some ev"
| "collect_ep0 (f # fs) ev =
     (if fm_fd f > 0 \<and> fm_callback f \<noteq> None then
        (if length (ev_ep0 ev) < MAX_EP0_NUM
         then collect_ep0 fs (ev\<lparr>ev_ep0 := ev_ep0 ev @ [fm_fd f], ev_ep0Event := ev_ep0Event ev @ [EP0_INVALID]\<rparr>)
         else None)
      else collect_ep0 fs ev)"

fun collect_fds :: "int list \<Rightarrow> ptr option list \<Rightarrow> UsbFnEventAll \<Rightarrow> UsbFnEventAll option" where
  "collect_fds (f # fs) (q # qs) ev =
     (if f \<le> 0 then collect_fds fs qs ev
      else if length (ev_epx ev) < MAX_EP
      then collect_fds fs qs (ev\<lparr>ev_epx := ev_epx ev @ [f], ev_reqEvent := ev_reqEvent ev @ [q],
                                ev_numEvent := ev_numEvent ev @ [0]\<rparr>)
      else None)"
| "collect_fds fs qs ev = Some ev"

fun collect_eps :: "UsbFnInterfaceMgr list \<Rightarrow> 'k gadget \<Rightarrow> UsbFnEventAll \<Rightarrow> UsbFnEventAll option" where
  "collect_eps [] s ev = Some ev"
| "collect_eps (im # ims) s ev =
     (case (isOpen im, im_handle im) of
        (True, Some hp) \<Rightarrow>
          do { h \<leftarrow> g_fhandles s hp;
               if numFd h \<le> length (hm_fds h) then
                 do { ev1 \<leftarrow> collect_fds (take (numFd h) (hm_fds h)) (take (numFd h) (hm_reqEvent h)) ev;
                      collect_eps ims s ev1 }
               else None }
      | _ \<Rightarrow> collect_eps ims s ev)"

definition zero_eventAll :: UsbFnEventAll where
  "zero_eventAll = \<lparr>ev_ep0 = [], ev_ep0Event = [], ev_epx = [], ev_reqEvent = [], ev_numEvent = []\<rparr>"

text \<open>The arrays of a device, which have the lengths that its counters say.\<close>

definition dev_funcs :: "UsbFnDeviceMgr \<Rightarrow> 'k gadget \<Rightarrow> UsbFnFuncMgr list option" where
  "dev_funcs d s =
     (if numFunc d = 0 then Some []
      else do { fa \<leftarrow> dm_funcMgr d; fs \<leftarrow> g_funcs s fa; if unat (numFunc d) \<le> length fs then Some (take (unat (numFunc d)) fs) else None })"

definition dev_intfs :: "UsbFnDeviceMgr \<Rightarrow> 'k gadget \<Rightarrow> UsbFnInterfaceMgr list option" where
  "dev_intfs d s =
     (if dm_numInterfaces d = 0 then Some []
      else do { ia \<leftarrow> dm_interfaceMgr d; is \<leftarrow> g_intfs s ia;
                if unat (dm_numInterfaces d) \<le> length is then Some (take (unat (dm_numInterfaces d)) is) else None })"

definition CollectEventHandle :: "ptr \<Rightarrow> 'k gadget \<Rightarrow> UsbFnEventAll option" where
  "CollectEventHandle dev s =
     do { d \<leftarrow> g_fdevs s dev; fs \<leftarrow> dev_funcs d s; is \<leftarrow> dev_intfs d s;
          ev \<leftarrow> collect_ep0 fs zero_eventAll; collect_eps is s ev }"

text \<open>The body of \<open>HandleEp0IoEvent\<close> and \<open>HandleEpsIoEvent\<close>: the first request of a list with the buffer.\<close>

fun deliver :: "ptr list \<Rightarrow> UsbFnReqEvent \<Rightarrow> 'k gadget \<Rightarrow> 'k gadget option" where
  "deliver [] ev s = Some s"
| "deliver (p # ps) ev s =
     do { r \<leftarrow> g_freqs s p;
          if rl_buf r = re_buf ev then
            let q = (rl_req r)\<lparr>q_actual := re_actual ev, q_status := - re_status ev\<rparr>;
                s1 = put_freq p (r\<lparr>rl_req := q\<rparr>) s in
            Some (case q_complete q of
                    None \<Rightarrow> s1
                  | Some cb \<Rightarrow> s1\<lparr>g_log := g_log s1 @ [CompleteCalled cb (rl_pipe r) p (q_actual q) (q_status q)]\<rparr>)
          else deliver ps ev s }"

definition HandleEp0IoEvent :: "elem \<Rightarrow> UsbFnReqEvent \<Rightarrow> 'k gadget \<Rightarrow> 'k gadget option" where
  "HandleEp0IoEvent fe ev s = do { f \<leftarrow> get_func fe s; deliver (fm_reqEntry f) ev s }"

definition HandleEpsIoEvent :: "UsbFnReqEvent \<Rightarrow> ptr \<Rightarrow> 'k gadget \<Rightarrow> 'k gadget option" where
  "HandleEpsIoEvent ev hp s = do { h \<leftarrow> g_fhandles s hp; deliver (hm_reqEntry h) ev s }"

text \<open>A shift of \<open>1\<close> by 31 or more is undefined for \<open>int\<close>.\<close>

definition HandleEp0CtrlEvent :: "elem \<Rightarrow> UsbFnCtrlEvent \<Rightarrow> 'k gadget \<Rightarrow> 'k gadget option" where
  "HandleEp0CtrlEvent fe ev s =
     do { f \<leftarrow> get_func fe s;
          if \<not> unat (ce_type ev) < 31 then None
          else if fm_eventMask f AND push_bit (unat (ce_type ev)) 1 = 0 then Some s
          else do { dev \<leftarrow> fm_object f; d \<leftarrow> g_fdevs s dev;
            let s1 = put_fdev dev (d\<lparr>devState := unat (ce_type ev)\<rparr>) s in
            Some (case fm_callback f of
                    None \<Rightarrow> s1
                  | Some cb \<Rightarrow> s1\<lparr>g_log := g_log s1 @ [EventCalled cb (ce_setup ev) (ce_type ev) (fm_context f)]\<rparr>) } }"

text \<open>The last function of the device where none has the file.\<close>

definition GetFuncMgr :: "ptr \<Rightarrow> int \<Rightarrow> 'k gadget \<Rightarrow> elem option option" where
  "GetFuncMgr dev ep0 s =
     do { d \<leftarrow> g_fdevs s dev; fs \<leftarrow> dev_funcs d s;
          if fs = [] then Some None
          else do { fa \<leftarrow> dm_funcMgr d;
            Some (Some (fa, case find_index (\<lambda>f. fm_fd f = ep0) fs of None \<Rightarrow> length fs - 1 | Some i \<Rightarrow> i)) } }"

text \<open>The last open handle where none has the file.\<close>

fun handle_loop :: "UsbFnInterfaceMgr list \<Rightarrow> int \<Rightarrow> ptr option \<Rightarrow> 'k gadget \<Rightarrow> ptr option option" where
  "handle_loop [] epx lst s = Some lst"
| "handle_loop (im # ims) epx lst s =
     (if \<not> isOpen im then handle_loop ims epx lst s
      else do { hp \<leftarrow> im_handle im; h \<leftarrow> g_fhandles s hp;
        if \<not> numFd h \<le> length (hm_fds h) then None
        else if epx \<in> set (take (numFd h) (hm_fds h)) then Some (Some hp)
        else handle_loop ims epx (Some hp) s })"

definition GetHandleMgr :: "ptr \<Rightarrow> int \<Rightarrow> 'k gadget \<Rightarrow> ptr option option" where
  "GetHandleMgr dev epx s = do { d \<leftarrow> g_fdevs s dev; is \<leftarrow> dev_intfs d s; handle_loop is epx None s }"

fun HandleEp0Event :: "ptr \<Rightarrow> int list \<Rightarrow> UsbEp0Event list \<Rightarrow> 'k gadget \<Rightarrow> 'k gadget option" where
  "HandleEp0Event dev (f # fs) (e # es) s =
     do { fe \<leftarrow> GetFuncMgr dev f s;
          case fe of
            None \<Rightarrow> Some s
          | Some x \<Rightarrow>
              do { s1 \<leftarrow> (case e of EP0_INVALID \<Rightarrow> Some s
                        | EP0_CTRL_EVENT c \<Rightarrow> HandleEp0CtrlEvent x c s
                        | EP0_IO_COMPLETED r \<Rightarrow> HandleEp0IoEvent x r s);
                   HandleEp0Event dev fs es s1 } }"
| "HandleEp0Event dev fs es s = Some s"

text \<open>The events of one endpoint: \<open>n\<close> more from index \<open>j\<close> of the array at \<open>a\<close>.\<close>

fun handle_events :: "ptr \<Rightarrow> ptr option \<Rightarrow> nat \<Rightarrow> nat \<Rightarrow> 'k gadget \<Rightarrow> 'k gadget option" where
  "handle_events hp q 0 j s = Some s"
| "handle_events hp q (Suc n) j s =
     do { a \<leftarrow> q; evs \<leftarrow> g_revents s a;
          if j < length evs then do { s1 \<leftarrow> HandleEpsIoEvent (evs ! j) hp s; handle_events hp q n (Suc j) s1 }
          else None }"

fun handle_eps :: "ptr \<Rightarrow> int list \<Rightarrow> ptr option list \<Rightarrow> u8 list \<Rightarrow> 'k gadget \<Rightarrow> 'k gadget option" where
  "handle_eps dev (f # fs) (q # qs) (n # ns) s =
     do { hp \<leftarrow> GetHandleMgr dev f s;
          s1 \<leftarrow> (case hp of None \<Rightarrow> Some s | Some h \<Rightarrow> handle_events h q (unat n) 0 s);
          handle_eps dev fs qs ns s1 }"
| "handle_eps dev fs qs ns s = Some s"

text \<open>
  One round of the loop of \<open>UsbFnEventProcess\<close>; the flag says whether the loop goes on.  On leaving it the
  thread tells the one that removes the device by setting \<open>running\<close>.
\<close>

definition UsbFnEventProcess_round :: "'k fn_os \<Rightarrow> ptr \<Rightarrow> 'k gadget \<Rightarrow> (bool \<times> 'k gadget) option" where
  "UsbFnEventProcess_round K dev s =
     do { d \<leftarrow> g_fdevs s dev;
          if \<not> dm_running d then Some (False, put_fdev dev (d\<lparr>dm_running := True\<rparr>) s)
          else do { ev \<leftarrow> CollectEventHandle dev s;
            if length (ev_ep0 ev) + length (ev_epx ev) = 0 then Some (True, s)
            else do { (r, ev1, s1) \<leftarrow> UsbFnAdapterPollEvent K ev 100 s;
              d1 \<leftarrow> g_fdevs s1 dev;
              if r \<noteq> HDF_SUCCESS then
                (if \<not> dm_running d1 then Some (False, put_fdev dev (d1\<lparr>dm_running := True\<rparr>) s1) else Some (True, s1))
              else do { s2 \<leftarrow> HandleEp0Event dev (ev_ep0 ev1) (ev_ep0Event ev1) s1;
                        s3 \<leftarrow> handle_eps dev (ev_epx ev1) (ev_reqEvent ev1) (ev_numEvent ev1) s2;
                        Some (True, s3) } } } }"

subsection \<open>Events of an interface\<close>

definition UsbFnMgrStartRecvEvent ::
  "'k fn_os \<Rightarrow> elem \<Rightarrow> u32 \<Rightarrow> nat option \<Rightarrow> nat option \<Rightarrow> 'k gadget \<Rightarrow> (ret \<times> 'k gadget) option" where
  "UsbFnMgrStartRecvEvent K e eventMask callback context s =
     do { im \<leftarrow> get_intf e s; fe \<leftarrow> im_funcMgr im; fm \<leftarrow> get_func fe s;
          if fm_callback fm \<noteq> None then Some (RetErr HDF_ERR_INVALID_PARAM, s)
          else let s1 = put_func fe (fm\<lparr>fm_context := context, fm_eventMask := eventMask, fm_callback := callback\<rparr>) s in
            if fm_fd fm \<le> 0 then
              do { (r, s2) \<leftarrow> OpenEp0AndMapAddr K fe s1;
                   Some (if r \<noteq> HDF_SUCCESS then RetErr HDF_ERR_IO else HDF_SUCCESS, s2) }
            else Some (HDF_SUCCESS, s1) }"

definition UsbFnStopRecvEvent :: "'k fn_os \<Rightarrow> elem \<Rightarrow> 'k gadget \<Rightarrow> (ret \<times> 'k gadget) option" where
  "UsbFnStopRecvEvent K e s =
     do { im \<leftarrow> get_intf e s; fe \<leftarrow> im_funcMgr im; fm \<leftarrow> get_func fe s;
          case UsbFnAdapterQueueDel K (fm_fd fm) s of
            (r, s1) \<Rightarrow>
              if r \<noteq> HDF_SUCCESS then Some (RetErr HDF_ERR_DEVICE_BUSY, s1)
              else case UsbFnAdapterClosePipe K (fm_fd fm) s1 of
                (r2, s2) \<Rightarrow>
                  if r2 \<noteq> HDF_SUCCESS then Some (RetErr HDF_ERR_DEVICE_BUSY, s2)
                  else Some (HDF_SUCCESS, put_func fe (fm\<lparr>fm_fd := -1, fm_callback := None\<rparr>) s2) }"

end
