(* ===== verification/Usbfn_Sdk.thy ===== *)
theory Usbfn_Sdk
  imports Usbfn_Dev
begin

text \<open>
  The entry points of the device side (\<open>usb/ddk/device/src/usbfn_sdk_if.c\<close>): checking and adapting the
  description of a device, and the checked calls of the device and I/O managers.
\<close>

subsection \<open>Descriptions\<close>

text \<open>The number of functions of the last configuration is what \<open>j\<close> is after the loops.\<close>

definition IsDescriptorOk :: "UsbFnDeviceDesc option \<Rightarrow> ret" where
  "IsDescriptorOk des =
     (case des of
        None \<Rightarrow> RetErr HDF_ERR_INVALID_PARAM
      | Some d \<Rightarrow>
          (case (deviceDesc d, deviceStrings d, fn_configs d) of
             (Some dd, Some strs, Some gs) \<Rightarrow>
               if strs = [] then RetErr HDF_ERR_INVALID_PARAM
               else if list_ex (\<lambda>g. list_ex (\<lambda>f. fsDescriptors f = None) (fc_functions g)) gs
               then RetErr HDF_ERR_INVALID_PARAM
               else if gs = [] \<or> fc_functions (last gs) = [] then RetErr HDF_ERR_INVALID_PARAM
               else HDF_SUCCESS
           | _ \<Rightarrow> RetErr HDF_ERR_INVALID_PARAM))"

definition USB_DDK_DT_INTERFACE_ASSOCIATION :: u8 where "USB_DDK_DT_INTERFACE_ASSOCIATION = 0x0B"
definition USB_DDK_DT_CS_INTERFACE :: u8 where "USB_DDK_DT_CS_INTERFACE = 0x24"
definition USB_DDK_CDC_UNION_TYPE :: u8 where "USB_DDK_CDC_UNION_TYPE = 0x06"

text \<open>A write of one byte into a descriptor.\<close>

definition set_byte :: "u8 list \<Rightarrow> nat \<Rightarrow> u8 \<Rightarrow> u8 list option" where
  "set_byte d i b = (if i < length d then Some (d[i := b]) else None)"

definition ChangeDescriptorDoSwitch :: "u8 list \<Rightarrow> u8 \<Rightarrow> (u8 list \<times> u8) option" where
  "ChangeDescriptorDoSwitch d intfIndex =
     do { ty \<leftarrow> rd8 d 1;
          if ty = USB_DDK_DT_INTERFACE_ASSOCIATION then do { d1 \<leftarrow> set_byte d 2 0; Some (d1, intfIndex) }
          else if ty = USB_DDK_DT_INTERFACE then do { d1 \<leftarrow> set_byte d 2 intfIndex; Some (d1, intfIndex + 1) }
          else if ty = USB_DDK_DT_CS_INTERFACE then
            do { len \<leftarrow> rd8 d 0;
                 if len = 5 then
                   do { sub \<leftarrow> rd8 d 2;
                        if sub = USB_DDK_CDC_UNION_TYPE
                        then do { d1 \<leftarrow> set_byte d 3 0; d2 \<leftarrow> set_byte d1 4 1; Some (d2, intfIndex) }
                        else Some (d, intfIndex) }
                 else Some (d, intfIndex) }
          else Some (d, intfIndex) }"

fun change_loop :: "descs \<Rightarrow> u8 \<Rightarrow> descs option" where
  "change_loop [] i = Some []"
| "change_loop (d # ds) i =
     do { (d1, i1) \<leftarrow> ChangeDescriptorDoSwitch d i; ds1 \<leftarrow> change_loop ds i1; Some (d1 # ds1) }"

text \<open>The loop counts in an \<open>int8_t\<close>: it leaves the array after 128 descriptors.\<close>

definition UsbFnChangeDescriptor :: "descs option \<Rightarrow> descs option option" where
  "UsbFnChangeDescriptor descriptors =
     (case descriptors of
        None \<Rightarrow> Some None
      | Some ds \<Rightarrow> if length ds < 128 then do { ds1 \<leftarrow> change_loop ds 0; Some (Some ds1) } else None)"

definition UsbFnChangeDescInfo :: "u8 \<Rightarrow> UsbFnFunction \<Rightarrow> UsbFnFunction option" where
  "UsbFnChangeDescInfo msk f =
     (if FUNCTION_ECM_MASK AND msk \<noteq> 0 then Some f
      else do { fs \<leftarrow> UsbFnChangeDescriptor (fsDescriptors f); hs \<leftarrow> UsbFnChangeDescriptor (hsDescriptors f);
                ss \<leftarrow> UsbFnChangeDescriptor (ssDescriptors f); sp \<leftarrow> UsbFnChangeDescriptor (sspDescriptors f);
                Some (f\<lparr>fsDescriptors := fs, hsDescriptors := hs, ssDescriptors := ss, sspDescriptors := sp\<rparr>) })"

definition DoChangeFunction :: "u8 \<Rightarrow> UsbFnFunction \<Rightarrow> UsbFnFunction option" where
  "DoChangeFunction msk f0 =
     (let f = f0\<lparr>fn_enable := True\<rparr> in
      if has_prefix FUNCTION_GENERIC_ACM (funcName f) then
        (if msk AND FUNCTION_ACM_MASK \<noteq> 0 then UsbFnChangeDescInfo msk f else Some (f\<lparr>fn_enable := False\<rparr>))
      else if has_prefix FUNCTION_GENERIC_ECM (funcName f) then
        (if msk AND FUNCTION_ECM_MASK \<noteq> 0 then Some f else Some (f\<lparr>fn_enable := False\<rparr>))
      else Some f)"

fun change_funcs :: "u8 \<Rightarrow> UsbFnFunction list \<Rightarrow> UsbFnFunction list option" where
  "change_funcs msk [] = Some []"
| "change_funcs msk (f # fs) = do { f1 \<leftarrow> DoChangeFunction msk f; fs1 \<leftarrow> change_funcs msk fs; Some (f1 # fs1) }"

fun change_configs :: "u8 \<Rightarrow> UsbFnConfiguration list \<Rightarrow> UsbFnConfiguration list option" where
  "change_configs msk [] = Some []"
| "change_configs msk (g # gs) =
     do { fs \<leftarrow> change_funcs msk (fc_functions g); gs1 \<leftarrow> change_configs msk gs; Some (g\<lparr>fc_functions := fs\<rparr> # gs1) }"

definition UsbFnChangeFunction :: "UsbFnDeviceDesc \<Rightarrow> u8 \<Rightarrow> UsbFnDeviceDesc option" where
  "UsbFnChangeFunction des msk =
     do { gs \<leftarrow> fn_configs des; gs1 \<leftarrow> change_configs msk gs; Some (des\<lparr>fn_configs := Some gs1\<rparr>) }"

subsection \<open>Devices\<close>

definition UsbFnCreateDevice ::
  "'k fn_os \<Rightarrow> string option \<Rightarrow> UsbFnDescriptorData option \<Rightarrow> 'k gadget \<Rightarrow> (ptr option \<times> 'k gadget) option" where
  "UsbFnCreateDevice K udcName descriptor s =
     (case (udcName, descriptor) of
        (Some udc, Some dd) \<Rightarrow>
          do { old \<leftarrow> UsbFnMgrDeviceGet (Some udc) s;
               if old \<noteq> None then Some (None, s)
               else case fd_data dd of
                 DescProp node \<Rightarrow>
                   do { (x, s1) \<leftarrow> UsbFnCfgMgrGetInstanceFromHCS K (Some node) s;
                        case x of
                          None \<Rightarrow> Some (None, s1)
                        | Some h \<Rightarrow>
                            do { des1 \<leftarrow> UsbFnChangeFunction (description_of h) (functionMask dd);
                                 if IsDescriptorOk (Some des1) \<noteq> HDF_SUCCESS then Some (None, s1)
                                 else UsbFnMgrDeviceCreate K (Some udc) (Some des1) (Some node) s1 } }
               | DescDesc des \<Rightarrow>
                   if IsDescriptorOk des \<noteq> HDF_SUCCESS then Some (None, s)
                   else UsbFnMgrDeviceCreate K (Some udc) des None s }
      | _ \<Rightarrow> Some (None, s))"

definition UsbFnRemoveDevice ::
  "'k fn_os \<Rightarrow> ('k gadget \<Rightarrow> 'k gadget) \<Rightarrow> ptr option \<Rightarrow> 'k gadget \<Rightarrow> (ret \<times> 'k gadget) option" where
  "UsbFnRemoveDevice K E fnDevice s =
     (if fnDevice = None then Some (RetErr HDF_ERR_INVALID_PARAM, s) else UsbFnMgrDeviceRemove K E fnDevice s)"

definition UsbFnGetDevice :: "string option \<Rightarrow> 'k gadget \<Rightarrow> ptr option option" where
  "UsbFnGetDevice udcName s = (if udcName = None then Some None else UsbFnMgrDeviceGet udcName s)"

definition UsbFnGetDeviceState :: "ptr option \<Rightarrow> 'k gadget \<Rightarrow> (ret \<times> nat option) option" where
  "UsbFnGetDeviceState fnDevice s =
     (if fnDevice = None then Some (RetErr HDF_ERR_INVALID_PARAM, None) else UsbFnMgrDeviceGetState fnDevice s)"

definition UsbFnGetInterface :: "ptr option \<Rightarrow> u8 \<Rightarrow> 'k gadget \<Rightarrow> elem option option" where
  "UsbFnGetInterface fnDevice interfaceIndex s =
     (if fnDevice = None then Some None else UsbFnMgrDeviceGetInterface fnDevice interfaceIndex s)"

subsection \<open>Interfaces\<close>

definition UsbFnStartRecvInterfaceEvent ::
  "'k fn_os \<Rightarrow> elem option \<Rightarrow> u32 \<Rightarrow> nat option \<Rightarrow> nat option \<Rightarrow> 'k gadget \<Rightarrow> (ret \<times> 'k gadget) option" where
  "UsbFnStartRecvInterfaceEvent K intf eventMask callback context s =
     (case intf of
        None \<Rightarrow> Some (RetErr HDF_ERR_INVALID_PARAM, s)
      | Some e \<Rightarrow> if eventMask = 0 \<or> callback = None then Some (RetErr HDF_ERR_INVALID_PARAM, s)
                  else UsbFnMgrStartRecvEvent K e eventMask callback context s)"

definition UsbFnStopRecvInterfaceEvent :: "'k fn_os \<Rightarrow> elem option \<Rightarrow> 'k gadget \<Rightarrow> (ret \<times> 'k gadget) option" where
  "UsbFnStopRecvInterfaceEvent K intf s =
     (case intf of None \<Rightarrow> Some (RetErr HDF_ERR_INVALID_PARAM, s) | Some e \<Rightarrow> UsbFnStopRecvEvent K e s)"

definition UsbFnOpenInterface :: "'k fn_os \<Rightarrow> elem option \<Rightarrow> 'k gadget \<Rightarrow> (ptr option \<times> 'k gadget) option" where
  "UsbFnOpenInterface K intf s = (if intf = None then Some (None, s) else UsbFnIoMgrInterfaceOpen K intf s)"

definition UsbFnCloseInterface :: "'k fn_os \<Rightarrow> ptr option \<Rightarrow> 'k gadget \<Rightarrow> (ret \<times> 'k gadget) option" where
  "UsbFnCloseInterface K handle s =
     (if handle = None then Some (RetErr HDF_ERR_INVALID_PARAM, s) else UsbFnIoMgrInterfaceClose K handle s)"

definition UsbFnGetInterfacePipeInfo ::
  "'k fn_os \<Rightarrow> elem option \<Rightarrow> u8 \<Rightarrow> UsbFnPipeInfo option \<Rightarrow> 'k gadget \<Rightarrow> (ret \<times> UsbFnPipeInfo option \<times> 'k gadget) option" where
  "UsbFnGetInterfacePipeInfo K intf pipeId info s =
     (case (info, intf) of
        (Some i, Some e) \<Rightarrow>
          do { (r, i1, s1) \<leftarrow> UsbFnIoMgrInterfaceGetPipeInfo K (Some e) pipeId i s; Some (r, Some i1, s1) }
      | _ \<Rightarrow> Some (RetErr HDF_ERR_INVALID_PARAM, info, s))"

subsection \<open>Properties\<close>

definition UsbFnRegistInterfaceProp :: "'k fn_os \<Rightarrow> elem option \<Rightarrow> UsbFnRegistInfo option \<Rightarrow> 'k gadget \<Rightarrow> (ret \<times> 'k gadget) option" where
  "UsbFnRegistInterfaceProp K intf info s =
     (if info = None \<or> intf = None then Some (RetErr HDF_ERR_INVALID_PARAM, s) else UsbFnCfgMgrRegisterProp K intf info s)"

definition UsbFnGetInterfaceProp :: "'k fn_os \<Rightarrow> elem option \<Rightarrow> string option \<Rightarrow> string option \<Rightarrow> 'k gadget \<Rightarrow> (ret \<times> string option \<times> 'k gadget) option" where
  "UsbFnGetInterfaceProp K intf name val s =
     (case val of
        None \<Rightarrow> Some (RetErr HDF_ERR_INVALID_PARAM, None, s)
      | Some buf \<Rightarrow>
          if name = None \<or> intf = None then Some (RetErr HDF_ERR_INVALID_PARAM, val, s)
          else do { (r, b, s1) \<leftarrow> UsbFnCfgMgrGetProp K intf name buf s; Some (r, Some b, s1) })"

definition UsbFnSetInterfaceProp :: "'k fn_os \<Rightarrow> elem option \<Rightarrow> string option \<Rightarrow> string \<Rightarrow> 'k gadget \<Rightarrow> (ret \<times> 'k gadget) option" where
  "UsbFnSetInterfaceProp K intf name val s =
     (if name = None \<or> intf = None then Some (RetErr HDF_ERR_INVALID_PARAM, s) else UsbFnCfgMgrSetProp K intf name val s)"

subsection \<open>Requests\<close>

definition UsbFnAllocRequest :: "'k fn_os \<Rightarrow> ptr option \<Rightarrow> u8 \<Rightarrow> u32 \<Rightarrow> 'k gadget \<Rightarrow> (ptr option \<times> 'k gadget) option" where
  "UsbFnAllocRequest K handle pipe len s =
     (case handle of
        None \<Rightarrow> Some (None, s)
      | Some hp \<Rightarrow>
          if len > MAX_BUFLEN \<or> len = 0 then Some (None, s)
          else do { h \<leftarrow> g_fhandles s hp;
            if unat pipe \<ge> numFd h then Some (None, s) else UsbFnIoMgrRequestAlloc K hp (pipe + 1) len s })"

definition UsbFnAllocCtrlRequest :: "'k fn_os \<Rightarrow> ptr option \<Rightarrow> u32 \<Rightarrow> 'k gadget \<Rightarrow> (ptr option \<times> 'k gadget) option" where
  "UsbFnAllocCtrlRequest K handle len s =
     (case handle of
        None \<Rightarrow> Some (None, s)
      | Some hp \<Rightarrow> if len > MAX_BUFLEN \<or> len = 0 then Some (None, s) else UsbFnIoMgrRequestAlloc K hp 0 len s)"

definition UsbFnFreeRequest :: "'k fn_os \<Rightarrow> ptr option \<Rightarrow> 'k gadget \<Rightarrow> (ret \<times> 'k gadget) option" where
  "UsbFnFreeRequest K req s =
     (if req = None then Some (RetErr HDF_ERR_INVALID_PARAM, s) else UsbFnIoMgrRequestFree K req s)"

definition UsbFnGetRequestStatus ::
  "'k fn_os \<Rightarrow> ptr option \<Rightarrow> 'k gadget \<Rightarrow> (ret \<times> ret option \<times> 'k gadget) option" where
  "UsbFnGetRequestStatus K req s =
     (if req = None then Some (RetErr HDF_ERR_INVALID_PARAM, None, s) else UsbFnIoMgrRequestGetStatus K req s)"

definition UsbFnSubmitRequestAsync :: "'k fn_os \<Rightarrow> ptr option \<Rightarrow> 'k gadget \<Rightarrow> (ret \<times> 'k gadget) option" where
  "UsbFnSubmitRequestAsync K req s =
     (if req = None then Some (RetErr HDF_ERR_INVALID_PARAM, s) else UsbFnIoMgrRequestSubmitAsync K req s)"

definition UsbFnCancelRequest :: "'k fn_os \<Rightarrow> ptr option \<Rightarrow> 'k gadget \<Rightarrow> (ret \<times> 'k gadget) option" where
  "UsbFnCancelRequest K req s =
     (if req = None then Some (RetErr HDF_ERR_INVALID_PARAM, s) else UsbFnIoMgrRequestCancel K req s)"

definition UsbFnSubmitRequestSync :: "'k fn_os \<Rightarrow> ptr option \<Rightarrow> u32 \<Rightarrow> 'k gadget \<Rightarrow> (ret \<times> 'k gadget) option" where
  "UsbFnSubmitRequestSync K req timeout s =
     (if req = None then Some (RetErr HDF_ERR_INVALID_PARAM, s) else UsbFnIoMgrRequestSubmitSync K req timeout s)"

definition UsbFnMemTestTrigger :: "bool \<Rightarrow> 'k gadget \<Rightarrow> ret \<times> 'k gadget" where
  "UsbFnMemTestTrigger enable s = UsbFnAdpMemTestTrigger enable s"

end
