(* ===== verification/Usbfn_Open.thy ===== *)
theory Usbfn_Open
  imports Usbfn_Sdk
begin

text \<open>
  Opening and closing an interface: no fault whatever the kernel answers, and a balance of memory and
  files where it answers well.
\<close>

subsection \<open>Frames\<close>

text \<open>The objects at the addresses \<open>L\<close>, the list of devices and the calls of clients are the same.\<close>

definition frame :: "ptr set \<Rightarrow> 'k gadget \<Rightarrow> 'k gadget \<Rightarrow> bool" where
  "frame L s t \<longleftrightarrow> (\<forall>p \<in> L. g_fdevs t p = g_fdevs s p \<and> g_intfs t p = g_intfs s p \<and> g_funcs t p = g_funcs s p \<and>
     g_fhandles t p = g_fhandles s p \<and> g_freqs t p = g_freqs s p \<and> g_revents t p = g_revents s p \<and> g_props t p = g_props s p) \<and>
     g_devEntry t = g_devEntry s \<and> g_log t = g_log s"

lemma frame_refl [simp]: "frame L s s"
  by (simp add: frame_def)

lemma frame_trans: "frame L s t \<Longrightarrow> frame L t u \<Longrightarrow> frame L s u"
  by (simp add: frame_def)

lemma frame_kern [simp]: "frame L s (set_fkern k t) = frame L s t" "frame L (set_fkern k s) t = frame L s t"
  by (simp_all add: frame_def)

lemma frame_mem [simp]: "frame L s (t\<lparr>g_mem := m\<rparr>) = frame L s t"
  by (simp add: frame_def)

lemma frame_handle: "\<forall>p \<in> L. f p = g_fhandles t p \<Longrightarrow> frame L s (t\<lparr>g_fhandles := f\<rparr>) = frame L s t"
  by (auto simp: frame_def)

lemma frame_revents: "\<forall>p \<in> L. f p = g_revents t p \<Longrightarrow> frame L s (t\<lparr>g_revents := f\<rparr>) = frame L s t"
  by (auto simp: frame_def)

lemma frame_get:
  assumes "frame L s t"
  shows "fst e \<in> L \<Longrightarrow> get_intf e t = get_intf e s" "fst e \<in> L \<Longrightarrow> get_func e t = get_func e s"
  using assms by (auto simp: frame_def get_intf_def get_func_def)

text \<open>The tracker is off and addresses are fresh; allocation may fail.\<close>

definition calm :: "'k gadget \<Rightarrow> bool" where
  "calm s \<longleftrightarrow> \<not> g_usbRamTestFlag (g_mem s) \<and> mem_ok (g_mem s)"

lemma calm_simps [simp]: "calm (set_fkern k s) = calm s" "calm (s\<lparr>g_fhandles := f\<rparr>) = calm s" "calm (s\<lparr>g_revents := e\<rparr>) = calm s"
    "calm (s\<lparr>g_intfs := x\<rparr>) = calm s" "calm (s\<lparr>g_freqs := y\<rparr>) = calm s"
  by (simp_all add: calm_def)

lemma galloc_frame:
  assumes "calm s"
  obtains s1 where "galloc K n s = Some (None, s1)" "calm s1" "live (g_mem s1) = live (g_mem s)"
      "\<forall>L t. frame L t s1 = frame L t s" "g_kern s1 = g_kern s" "g_fhandles s1 = g_fhandles s" "g_revents s1 = g_revents s"
  | a s1 where "galloc K n s = Some (Some a, s1)" "calm s1" "live (g_mem s1) = insert a (live (g_mem s))" "a \<notin> live (g_mem s)"
      "\<forall>L t. frame L t s1 = frame L t s" "g_kern s1 = g_kern s" "g_fhandles s1 = g_fhandles s" "g_revents s1 = g_revents s"
proof (cases "fo_alloc K (nextAddr (g_mem s)) n")
  case True
  let ?a = "nextAddr (g_mem s)"
  let ?s = "s\<lparr>g_mem := (g_mem s)\<lparr>nextAddr := ?a + 1, live := insert ?a (live (g_mem s))\<rparr>\<rparr>"
  have "galloc K n s = Some (Some ?a, ?s)" using assms True by (simp add: calm_def galloc_off)
  moreover have "calm ?s" "?a \<notin> live (g_mem s)" using assms by (auto simp: calm_def mem_ok_def)
  ultimately show ?thesis using that(2)[of ?a ?s] by simp
next
  case False
  let ?s = "s\<lparr>g_mem := (g_mem s)\<lparr>nextAddr := nextAddr (g_mem s) + 1\<rparr>\<rparr>"
  have "galloc K n s = Some (None, ?s)" using assms False by (simp add: calm_def galloc_off)
  moreover have "calm ?s" using assms by (auto simp: calm_def mem_ok_def)
  ultimately show ?thesis using that(1)[of ?s] by simp
qed

lemma galloc_cases:
  assumes "calm s"
  obtains m where "galloc K n s = Some (None, s\<lparr>g_mem := m\<rparr>)" "calm (s\<lparr>g_mem := m\<rparr>)" "live m = live (g_mem s)" "\<exists>a n. \<not> fo_alloc K a n"
  | a m where "galloc K n s = Some (Some a, s\<lparr>g_mem := m\<rparr>)" "calm (s\<lparr>g_mem := m\<rparr>)" "live m = insert a (live (g_mem s))" "a \<notin> live (g_mem s)"
proof (cases "fo_alloc K (nextAddr (g_mem s)) n")
  case True
  let ?a = "nextAddr (g_mem s)"
  let ?m = "(g_mem s)\<lparr>nextAddr := ?a + 1, live := insert ?a (live (g_mem s))\<rparr>"
  have "?a \<notin> live (g_mem s)" using assms by (auto simp: calm_def mem_ok_def)
  then show ?thesis using assms True that(2)[of ?a ?m] by (auto simp: galloc_off calm_def mem_ok_def less_Suc_eq)
next
  case False
  then show ?thesis
    using assms that(1)[of "(g_mem s)\<lparr>nextAddr := nextAddr (g_mem s) + 1\<rparr>"] by (auto simp: galloc_off calm_def mem_ok_def less_Suc_eq)
qed

lemma gfree_frame:
  assumes "calm s" "p \<in> live (g_mem s)"
  obtains s1 where "gfree (Some p) s = Some s1" "calm s1" "live (g_mem s1) = live (g_mem s) - {p}"
    "\<forall>L t. p \<notin> L \<longrightarrow> frame L t s1 = frame L t s" "g_kern s1 = g_kern s" "g_fhandles s1 = (g_fhandles s)(p := None)"
    "g_revents s1 = (g_revents s)(p := None)"
proof -
  let ?s = "s\<lparr>g_mem := (g_mem s)\<lparr>live := live (g_mem s) - {p}\<rparr>,
     g_fdevs := (g_fdevs s)(p := None), g_intfs := (g_intfs s)(p := None),
     g_funcs := (g_funcs s)(p := None), g_fhandles := (g_fhandles s)(p := None),
     g_freqs := (g_freqs s)(p := None), g_revents := (g_revents s)(p := None), g_props := (g_props s)(p := None)\<rparr>"
  have "gfree (Some p) s = Some ?s" using assms by (simp add: calm_def gfree_off)
  moreover have "calm ?s" using assms by (auto simp: calm_def mem_ok_def)
  moreover have "frame L t ?s = frame L t s" if "p \<notin> L" for L t
  proof -
    have "x \<noteq> p" if "x \<in> L" for x using that \<open>p \<notin> L\<close> by blast
    then show ?thesis by (simp add: frame_def cong: ball_cong)
  qed
  ultimately show ?thesis using that[of ?s] by simp
qed

subsection \<open>Files\<close>

lemma kern_id: "set_fkern (g_kern s) s = s"
  by simp

lemma OpenPipe_run: "\<exists>k. UsbFnAdapterOpenPipe K nm i s = (fst (UsbFnAdapterOpenPipe K nm i s), set_fkern k s)"
  using kern_id[of s] unfolding UsbFnAdapterOpenPipe_def Let_def by (auto split: prod.split intro: exI[of _ "g_kern s"])

lemma QueueInit_run: "\<exists>k. UsbFnAdapterQueueInit K ep s = (fst (UsbFnAdapterQueueInit K ep s), set_fkern k s)"
  using kern_id[of s] by (auto simp: UsbFnAdapterQueueInit_def split: prod.split intro: exI[of _ "g_kern s"])

subsection \<open>Opening\<close>

text \<open>
  The handle at \<open>hp\<close> while its endpoints are opened, \<open>evs\<close> the event arrays so far; \<open>L\<close> are the blocks from before.
\<close>

definition in_opening :: "nat \<Rightarrow> ptr set \<Rightarrow> 'k gadget \<Rightarrow> ptr \<Rightarrow> ptr list \<Rightarrow> 'k gadget \<Rightarrow> bool" where
  "in_opening N L s0 hp evs s \<longleftrightarrow> calm s \<and> frame L s0 s \<and> live (g_mem s) = L \<union> insert hp (set evs) \<and> distinct evs \<and>
     hp \<notin> L \<and> hp \<notin> set evs \<and> set evs \<inter> L = {} \<and>
     (\<forall>a \<in> set evs. \<exists>es. g_revents s a = Some es \<and> length es = MAX_REQUEST) \<and>
     (\<exists>h. g_fhandles s hp = Some h \<and> numFd h = N \<and> hm_reqEntry h = [] \<and> length (hm_fds h) = MAX_EP \<and> length (hm_reqEvent h) = MAX_EP \<and>
        (\<forall>f \<in> set (take (length evs) (hm_fds h)). 0 < f) \<and> take (length evs) (hm_reqEvent h) = map Some evs)"

text \<open>What is left after a failure: everything from before, and the handle.\<close>

definition failed :: "ptr set \<Rightarrow> 'k gadget \<Rightarrow> ptr \<Rightarrow> 'k gadget \<Rightarrow> bool" where
  "failed L s0 hp s \<longleftrightarrow> calm s \<and> frame L s0 s \<and> L \<subseteq> live (g_mem s) \<and> hp \<in> live (g_mem s) \<and> hp \<notin> L"

lemma in_opening_kern: "in_opening N L s0 hp evs (set_fkern k s) = in_opening N L s0 hp evs s"
  by (simp add: in_opening_def)

lemma in_opening_failed: "in_opening N L s0 hp evs s \<Longrightarrow> failed L s0 hp s"
  by (auto simp: in_opening_def failed_def)

lemma free_events_run:
  assumes "calm s" "frame L s0 s" "distinct evs" "set evs \<subseteq> live (g_mem s)" "set evs \<inter> L = {}"
  shows "\<exists>s'. free_events (map Some evs) s = Some s' \<and> calm s' \<and> frame L s0 s' \<and> live (g_mem s') = live (g_mem s) - set evs"
  using assms
proof (induction evs arbitrary: s)
  case (Cons a evs)
  have "a \<in> live (g_mem s)" "a \<notin> L" using Cons.prems(4,5) by auto
  obtain s1 where s1: "gfree (Some a) s = Some s1" "calm s1" "live (g_mem s1) = live (g_mem s) - {a}"
    "\<forall>L t. a \<notin> L \<longrightarrow> frame L t s1 = frame L t s" using gfree_frame[OF Cons.prems(1) \<open>a \<in> live _\<close>] by metis
  have "frame L s0 s1" using s1(4) \<open>a \<notin> L\<close> Cons.prems(2) by simp
  moreover have "set evs \<subseteq> live (g_mem s1)" "set evs \<inter> L = {}" "distinct evs" using Cons.prems(3-5) s1(3) by auto
  ultimately obtain s' where "free_events (map Some evs) s1 = Some s'" "calm s'" "frame L s0 s'"
    "live (g_mem s') = live (g_mem s1) - set evs" using Cons.IH[OF s1(2)] by blast
  then show ?case using s1(1,3) by auto
qed simp

lemma handle_init_run:
  assumes "in_opening N L s0 hp evs s" "i = length evs" "i + n \<le> MAX_EP"
  shows "\<exists>r s'. handle_init_loop K hp nm start n i s = Some (r, s') \<and>
    (if r = HDF_SUCCESS then (\<exists>evs'. length evs' = i + n \<and> in_opening N L s0 hp evs' s') else failed L s0 hp s')"
  using assms
proof (induction n arbitrary: i evs s)
  case 0
  then show ?case by auto
next
  case (Suc n)
  obtain r k where op: "UsbFnAdapterOpenPipe K nm (int (unat start + i)) s = (r, set_fkern k s)"
    using OpenPipe_run[of K nm "int (unat start + i)" s] by blast
  let ?f = "fd_of r"
  obtain h where h: "g_fhandles s hp = Some h" "length (hm_fds h) = MAX_EP" "length (hm_reqEvent h) = MAX_EP"
    "\<forall>f \<in> set (take (length evs) (hm_fds h)). 0 < f" "take (length evs) (hm_reqEvent h) = map Some evs"
    "numFd h = N" "hm_reqEntry h = []"
    using Suc.prems(1) by (auto simp: in_opening_def)
  have i: "i < length (hm_fds h)" "i < length (hm_reqEvent h)" using Suc.prems(3) h(2,3) by simp_all
  let ?h = "h\<lparr>hm_fds := (hm_fds h)[i := ?f]\<rparr>"
  let ?s2 = "put_fhandle hp ?h (set_fkern k s)"
  have o2: "in_opening N L s0 hp evs ?s2"
    using Suc.prems(1,2) h by (auto simp: in_opening_def frame_handle)
  show ?case
  proof (cases "?f \<le> 0")
    case True
    then show ?thesis using op h(1) i(1) in_opening_failed[OF o2] by (simp add: Let_def)
  next
    case f: False
    obtain q k2 where qi: "UsbFnAdapterQueueInit K ?f ?s2 = (q, set_fkern k2 ?s2)"
      using QueueInit_run[of K ?f ?s2] by blast
    let ?s3 = "set_fkern k2 ?s2"
    have o3: "in_opening N L s0 hp evs ?s3" using o2 by (simp only: in_opening_kern)
    show ?thesis
    proof (cases "q = HDF_SUCCESS")
      case False
      then show ?thesis using op h(1) i(1) f qi in_opening_failed[OF o3] by (simp add: Let_def)
    next
      case True
      have c3: "calm ?s3" using o3 by (simp add: in_opening_def)
      have run: "handle_init_loop K hp nm start (Suc n) i s =
          do { (p, s4) \<leftarrow> galloc K sizeof_ReqEvents ?s3; h1 \<leftarrow> g_fhandles s4 hp;
               case p of
                 None \<Rightarrow> do { s5 \<leftarrow> free_events (take i (hm_reqEvent h1))
                                    (put_fhandle hp (h1\<lparr>hm_reqEvent := (hm_reqEvent h1)[i := None]\<rparr>) s4);
                            Some (RetErr HDF_ERR_IO, s5) }
               | Some a \<Rightarrow> handle_init_loop K hp nm start n (Suc i)
                     (put_fhandle hp (h1\<lparr>hm_reqEvent := (hm_reqEvent h1)[i := Some a]\<rparr>)
                        (s4\<lparr>g_revents := (g_revents s4)(a \<mapsto> replicate MAX_REQUEST zero_reqEvent)\<rparr>)) }"
        using op h(1) i(1) f qi True by (simp add: Let_def)
      show ?thesis
      proof (cases rule: galloc_frame[OF c3, of K sizeof_ReqEvents])
        case (1 s4)
        let ?s = "put_fhandle hp (?h\<lparr>hm_reqEvent := (hm_reqEvent h)[i := None]\<rparr>) s4"
        have ev: "calm ?s" "frame L s0 ?s" "distinct evs" "set evs \<subseteq> live (g_mem ?s)" "set evs \<inter> L = {}"
          using o3 1(2,3,4) by (auto simp: in_opening_def frame_handle calm_def)
        obtain s5 where s5: "free_events (map Some evs) ?s = Some s5" "calm s5" "frame L s0 s5"
            "live (g_mem s5) = live (g_mem ?s) - set evs"
          using free_events_run[OF ev] by blast
        have "failed L s0 hp s5" using o3 s5(2-4) 1(3) by (auto simp: in_opening_def failed_def)
        then show ?thesis using run 1(1,6) s5(1) h(5) Suc.prems(2) by simp
      next
        case (2 a s4)
        let ?h4 = "?h\<lparr>hm_reqEvent := (hm_reqEvent h)[i := Some a]\<rparr>"
        let ?s = "put_fhandle hp ?h4 (s4\<lparr>g_revents := (g_revents s4)(a \<mapsto> replicate MAX_REQUEST zero_reqEvent)\<rparr>)"
        have a: "a \<notin> L" "a \<noteq> hp" "a \<notin> set evs" using 2(4) o3 by (auto simp: in_opening_def)
        have ne: "\<forall>p \<in> L. p \<noteq> hp \<and> p \<noteq> a" using a o3 by (auto simp: in_opening_def)
        have A: "calm ?s" "frame L s0 ?s"
          using 2(2,5) o3 ne by (simp_all add: in_opening_def frame_handle frame_revents)
        have B: "live (g_mem ?s) = L \<union> insert hp (set (evs @ [a]))" "distinct (evs @ [a])" "hp \<notin> set (evs @ [a])"
          "set (evs @ [a]) \<inter> L = {}" "hp \<notin> L"
          using 2(3) o3 a by (auto simp: in_opening_def)
        have C: "\<exists>es. g_revents ?s x = Some es \<and> length es = MAX_REQUEST" if "x \<in> set (evs @ [a])" for x
          using that o3 2(8) a(3) by (auto simp: in_opening_def)
        have D: "take (length (evs @ [a])) (hm_reqEvent ?h4) = map Some (evs @ [a])"
          "\<forall>f \<in> set (take (length (evs @ [a])) (hm_fds ?h4)). 0 < f"
          using h f i Suc.prems(2) by (simp_all add: take_Suc_conv_app_nth)
        have oa: "in_opening N L s0 hp (evs @ [a]) ?s"
          unfolding in_opening_def using A B C D h(2,3,6,7) by simp
        have run2: "handle_init_loop K hp nm start (Suc n) i s = handle_init_loop K hp nm start n (Suc i) ?s"
          unfolding run 2(1) by (simp add: 2(7) del: handle_init_loop.simps)
        have "Suc i = length (evs @ [a])" "Suc i + n \<le> MAX_EP" using Suc.prems(2,3) by simp_all
        from Suc.IH[OF oa this] show ?thesis by (simp only: run2 add_Suc_shift)
      qed
    qed
  qed
qed

text \<open>An interface that can be opened.\<close>

definition openable :: "elem \<Rightarrow> UsbFnInterfaceMgr \<Rightarrow> 'k gadget \<Rightarrow> bool" where
  "openable e im s \<longleftrightarrow> calm s \<and> get_intf e s = Some im \<and> \<not> isOpen im \<and> fst e \<in> live (g_mem s) \<and>
     unat (xi_numPipes (im_info im)) \<le> MAX_EP \<and>
     (\<exists>fe fm. im_funcMgr im = Some fe \<and> fst fe \<in> live (g_mem s) \<and> get_func fe s = Some fm)"

text \<open>
  An open interface: the handle \<open>hp\<close> with the event arrays \<open>evs\<close>; all other objects from before are as in \<open>s0\<close>.
\<close>

definition intf_opened :: "'k gadget \<Rightarrow> elem \<Rightarrow> UsbFnInterfaceMgr \<Rightarrow> ptr \<Rightarrow> ptr list \<Rightarrow> 'k gadget \<Rightarrow> bool" where
  "intf_opened s0 e im hp evs s \<longleftrightarrow> (\<exists>h t. in_opening (length evs) (live (g_mem s0)) s0 hp evs t \<and>
     length evs = unat (xi_numPipes (im_info im)) \<and> g_fhandles t hp = Some h \<and> hm_intfMgr h = Some e \<and>
     s = put_intf e (im\<lparr>isOpen := True, im_handle := Some hp\<rparr>) t)"

lemma in_opening_handle:
  assumes "in_opening N L s0 hp evs s" "g_fhandles s hp = Some h"
  shows "in_opening N L s0 hp evs (put_fhandle hp (h\<lparr>hm_intfMgr := x\<rparr>) s)"
  using assms by (auto simp: in_opening_def frame_handle)

lemma HandleInit_run:
  assumes "openable e im s0" "calm s" "frame (live (g_mem s0)) s0 s" "live (g_mem s) = insert hp (live (g_mem s0))"
    and "hp \<notin> live (g_mem s0)" "g_fhandles s hp = Some zero_handleMgr"
  shows "\<exists>r s'. HandleInit K hp e s = Some (r, s') \<and>
    (if r = HDF_SUCCESS then (\<exists>evs h. length evs = unat (xi_numPipes (im_info im)) \<and>
        in_opening (length evs) (live (g_mem s0)) s0 hp evs s' \<and> g_fhandles s' hp = Some h \<and> hm_intfMgr h = Some e)
     else failed (live (g_mem s0)) s0 hp s')"
proof -
  let ?L = "live (g_mem s0)" and ?n = "unat (xi_numPipes (im_info im))"
  obtain fe fm where f: "im_funcMgr im = Some fe" "get_func fe s0 = Some fm" "fst fe \<in> ?L" "fst e \<in> ?L" "get_intf e s0 = Some im"
    "?n \<le> MAX_EP" using assms(1) by (auto simp: openable_def)
  have g: "get_intf e s = Some im" "get_func fe s = Some fm" using frame_get[OF assms(3)] f by auto
  let ?h = "zero_handleMgr\<lparr>hm_reqEntry := [], numFd := ?n\<rparr>"
  let ?s = "put_fhandle hp ?h s"
  have "in_opening ?n ?L s0 hp [] ?s"
    using assms(2-5) by (auto simp: in_opening_def frame_handle zero_handleMgr_def)
  from handle_init_run[OF this, of 0 ?n K "fm_name fm" "startEpId im"] f(6)
  obtain r s' where r: "handle_init_loop K hp (fm_name fm) (startEpId im) ?n 0 ?s = Some (r, s')"
    "if r = HDF_SUCCESS then (\<exists>evs'. length evs' = ?n \<and> in_opening ?n ?L s0 hp evs' s') else failed ?L s0 hp s'" unfolding add_0 by auto
  show ?thesis
  proof (cases "r = HDF_SUCCESS")
    case False
    then have "?n \<noteq> 0" using r(1) by (cases ?n) auto
    then show ?thesis using False r g f(1) assms(6) by (simp add: HandleInit_def Let_def)
  next
    case True
    then obtain evs where evs: "length evs = ?n" "in_opening ?n ?L s0 hp evs s'" using r(2) by auto
    then obtain h where h: "g_fhandles s' hp = Some h" by (auto simp: in_opening_def)
    have "HandleInit K hp e s = Some (HDF_SUCCESS, put_fhandle hp (h\<lparr>hm_intfMgr := Some e\<rparr>) s')"
    proof (cases "?n = 0")
      case True
      then have "s' = ?s" using r(1) by simp
      then show ?thesis using True g h assms(6) by (auto simp: HandleInit_def Let_def)
    next
      case False
      then show ?thesis using True r(1) g f(1) h assms(6) by (simp add: HandleInit_def Let_def)
    qed
    then show ?thesis using in_opening_handle[OF evs(2) h] evs(1) by auto
  qed
qed

lemma open_run:
  assumes "openable e im s"
  shows "\<exists>r s'. UsbFnOpenInterface K (Some e) s = Some (r, s') \<and>
    (case r of None \<Rightarrow> openable e im s' \<and> frame (live (g_mem s)) s s' \<and> live (g_mem s) \<subseteq> live (g_mem s')
     | Some hp \<Rightarrow> \<exists>evs. intf_opened s e im hp evs s')"
proof -
  let ?L = "live (g_mem s)"
  have s: "calm s" "get_intf e s = Some im" "\<not> isOpen im" "fst e \<in> ?L" using assms by (simp_all add: openable_def)
  have still: "openable e im s'" if "calm s'" "frame ?L s s'" "?L \<subseteq> live (g_mem s')" for s'
    using assms frame_get[OF that(2)] that(1,3) by (auto simp: openable_def)
  show ?thesis
  proof (cases rule: galloc_frame[OF s(1), of K sizeof_HandleMgr])
    case (1 s1)
    have "frame ?L s s1" using 1(4) by simp
    then show ?thesis using s still[of s1] 1 by (simp add: UsbFnOpenInterface_def UsbFnIoMgrInterfaceOpen_def)
  next
    case (2 hp s1)
    let ?s1 = "put_fhandle hp zero_handleMgr s1"
    have ne: "\<forall>p \<in> ?L. p \<noteq> hp" using 2(4) by auto
    have fr: "frame ?L s ?s1" using 2(5) ne by (simp add: frame_handle)
    obtain r s2 where h: "HandleInit K hp e ?s1 = Some (r, s2)"
      "if r = HDF_SUCCESS then (\<exists>evs h. length evs = unat (xi_numPipes (im_info im)) \<and>
         in_opening (length evs) ?L s hp evs s2 \<and> g_fhandles s2 hp = Some h \<and> hm_intfMgr h = Some e)
       else failed ?L s hp s2"
      using HandleInit_run[OF assms _ fr _ 2(4), of K] 2(2,3) by auto
    show ?thesis
    proof (cases "r = HDF_SUCCESS")
      case True
      then obtain evs h' where o: "length evs = unat (xi_numPipes (im_info im))" "in_opening (length evs) ?L s hp evs s2"
        "g_fhandles s2 hp = Some h'" "hm_intfMgr h' = Some e" using h(2) by auto
      have "get_intf e s2 = Some im" using frame_get(1)[of ?L s s2 e] o(2) s(2,4) by (simp add: in_opening_def)
      then have "UsbFnOpenInterface K (Some e) s = Some (Some hp, put_intf e (im\<lparr>isOpen := True, im_handle := Some hp\<rparr>) s2)"
        using s 2(1) h(1) True by (simp add: UsbFnOpenInterface_def UsbFnIoMgrInterfaceOpen_def)
      moreover have "intf_opened s e im hp evs (put_intf e (im\<lparr>isOpen := True, im_handle := Some hp\<rparr>) s2)"
        unfolding intf_opened_def using o by blast
      ultimately show ?thesis by auto
    next
      case False
      then have fl: "calm s2" "frame ?L s s2" "?L \<subseteq> live (g_mem s2)" "hp \<in> live (g_mem s2)" using h(2) by (simp_all add: failed_def)
      obtain s3 where s3: "gfree (Some hp) s2 = Some s3" "calm s3" "live (g_mem s3) = live (g_mem s2) - {hp}"
        "\<forall>L t. hp \<notin> L \<longrightarrow> frame L t s3 = frame L t s2" using gfree_frame[OF fl(1,4)] by metis
      have "frame ?L s s3" "?L \<subseteq> live (g_mem s3)" using s3(3,4) fl(2,3) 2(4) by auto
      then show ?thesis
        using still[OF s3(2)] s 2(1) h(1) False s3(1) by (simp add: UsbFnOpenInterface_def UsbFnIoMgrInterfaceOpen_def)
    qed
  qed
qed

text \<open>
  C27. Opening an interface is safe whatever the kernel and the allocator answer: the call returns and touches
  nothing of what was there before.  Where it returns no handle the interface is still
  closed.  Where it returns one, the interface is open with it; the handle has one file per
  endpoint, all of them valid, each with room for 64 events, and no request; and its
  memory is new.
\<close>

theorem UsbFnOpenInterface_total:
  assumes "openable e im s"
  shows "\<exists>r s'. UsbFnOpenInterface K (Some e) s = Some (r, s') \<and>
    (case r of None \<Rightarrow> openable e im s' \<and> frame (live (g_mem s)) s s' \<and> live (g_mem s) \<subseteq> live (g_mem s')
     | Some hp \<Rightarrow> \<exists>evs. intf_opened s e im hp evs s')"
  using assms by (rule open_run)

subsection \<open>An example\<close>

text \<open>A kernel whose calls succeed, and an interface with two endpoints of the function at address 2.\<close>

definition ex_os :: "unit fn_os" where
  "ex_os = null_fn_os\<lparr>fo_open := (\<lambda>f k. (7, k)), fo_close := (\<lambda>f k. (0, k)), fo_queue_init := (\<lambda>f k. (0, k)),
     fo_queue_del := (\<lambda>f k. (0, k))\<rparr>"

definition ex_intf :: UsbFnInterfaceMgr where
  "ex_intf = zero_interfaceMgr\<lparr>im_info := (im_info zero_interfaceMgr)\<lparr>xi_numPipes := 2\<rparr>, startEpId := 1, im_funcMgr := Some (2, 0)\<rparr>"

definition ex_gadget :: "unit gadget" where
  "ex_gadget = (null_gadget ())\<lparr>g_mem := \<lparr>nextAddr = 100, live = {1, 2}, g_usbRamTestFlag = False, g_usbRamTestHead = None\<rparr>,
     g_intfs := [1 \<mapsto> [ex_intf]], g_funcs := [2 \<mapsto> [zero_funcMgr\<lparr>fm_name := ''f_generic.a''\<rparr>]]\<rparr>"

lemma ex_openable: "openable (1, 0) ex_intf ex_gadget"
  by (simp add: openable_def calm_def mem_ok_def ex_gadget_def ex_intf_def get_intf_def get_func_def MAX_EP_def
      zero_interfaceMgr_def null_gadget_def)

lemma ex_open_pipe: "i = 1 \<or> i = 2 \<Longrightarrow> UsbFnAdapterOpenPipe ex_os ''f_generic.a'' i s = (RetVal 7, s)"
proof -
  have "open_retry ex_os OPEN_CNT n (-1) k = (7, k)" for n k
    using open_retry.simps(2)[of ex_os 29] by (simp add: OPEN_CNT_def ex_os_def)
  moreover assume "i = 1 \<or> i = 2"
  then have "length (dec_string (nat i)) = 1" by (auto simp: dec_string.simps)
  then have "fits MAX_NAMELEN (''/dev/functionfs/'' @ ''f_generic.a'' @ ''.ep'' @ dec_string (nat i))"
    by (simp add: fits_def MAX_NAMELEN_def)
  ultimately show ?thesis
    using \<open>i = 1 \<or> i = 2\<close> by (auto simp: UsbFnAdapterOpenPipe_def simp del: append_Cons)
qed

lemma ex_queue_init: "UsbFnAdapterQueueInit ex_os 7 s = (HDF_SUCCESS, s)"
  by (simp add: UsbFnAdapterQueueInit_def ex_os_def)

lemma ex_alloc: "fo_alloc ex_os a n"
  by (simp add: ex_os_def null_fn_os_def)

lemma init_two: "handle_init_loop K hp nm st 2 i s = handle_init_loop K hp nm st (Suc (Suc 0)) i s"
  by (simp only: numeral_2_eq_2)

lemma ex_opens: "\<exists>s'. UsbFnOpenInterface ex_os (Some (1, 0)) ex_gadget = Some (Some 100, s')"
  by (simp add: UsbFnOpenInterface_def UsbFnIoMgrInterfaceOpen_def HandleInit_def ex_gadget_def ex_intf_def get_intf_def get_func_def
      galloc_off ex_alloc null_gadget_def zero_interfaceMgr_def zero_handleMgr_def MAX_EP_def fd_of_def zero_funcMgr_def
      ex_open_pipe ex_queue_init init_two Let_def put_intf_def)

lemma ex_opened:
  "\<exists>hp s' evs. UsbFnOpenInterface ex_os (Some (1, 0)) ex_gadget = Some (Some hp, s') \<and> intf_opened ex_gadget (1, 0) ex_intf hp evs s'"
  using open_run[OF ex_openable, of ex_os] ex_opens by auto

theorem UsbFnOpenInterface_total_witness:
  "openable (1, 0) ex_intf ex_gadget \<and> (\<exists>hp s' evs. UsbFnOpenInterface ex_os (Some (1, 0)) ex_gadget = Some (Some hp, s') \<and>
     intf_opened ex_gadget (1, 0) ex_intf hp evs s')"
proof -
  obtain r s' where r: "UsbFnOpenInterface ex_os (Some (1, 0)) ex_gadget = Some (r, s')"
    "case r of None \<Rightarrow> openable (1, 0) ex_intf s' \<and> frame (live (g_mem ex_gadget)) ex_gadget s' \<and> live (g_mem ex_gadget) \<subseteq> live (g_mem s')
     | Some hp \<Rightarrow> \<exists>evs. intf_opened ex_gadget (1, 0) ex_intf hp evs s'"
    using UsbFnOpenInterface_total[OF ex_openable, of ex_os] by blast
  have "r = Some 100" using r(1) ex_opens by auto
  then show ?thesis using r ex_openable by auto
qed

subsection \<open>Closing\<close>

text \<open>A kernel whose files can be closed.\<close>

definition closes :: "'k fn_os \<Rightarrow> bool" where
  "closes K \<longleftrightarrow> (\<forall>f k. 0 < f \<longrightarrow> fst (fo_queue_del K f k) = 0 \<and> fst (fo_close K f k) = 0)"

lemma closes_run:
  assumes "closes K" "0 < f"
  shows "\<exists>k. UsbFnAdapterQueueDel K f s = (HDF_SUCCESS, set_fkern k s)"
    and "\<exists>k. UsbFnAdapterClosePipe K f s = (HDF_SUCCESS, set_fkern k s)"
  using assms by (auto simp: UsbFnAdapterClosePipe_def UsbFnAdapterQueueDel_def closes_def split: prod.split dest: prod_eqI)
     (metis fst_conv)+

text \<open>The handle while its endpoints are closed: \<open>evs\<close> are the event arrays that are left, from endpoint \<open>i\<close> on.\<close>

definition in_closing :: "ptr set \<Rightarrow> 'k gadget \<Rightarrow> ptr \<Rightarrow> nat \<Rightarrow> ptr list \<Rightarrow> 'k gadget \<Rightarrow> bool" where
  "in_closing L s0 hp i evs s \<longleftrightarrow> calm s \<and> frame L s0 s \<and> live (g_mem s) = L \<union> insert hp (set evs) \<and> distinct evs \<and>
     hp \<notin> L \<and> hp \<notin> set evs \<and> set evs \<inter> L = {} \<and>
     (\<exists>h. g_fhandles s hp = Some h \<and> i + length evs \<le> length (hm_fds h) \<and>
        (\<forall>j < length evs. 0 < hm_fds h ! (i + j) \<and> hm_reqEvent h ! (i + j) = Some (evs ! j)))"

lemma in_closing_kern: "in_closing L s0 hp i evs (set_fkern k s) = in_closing L s0 hp i evs s"
  by (simp add: in_closing_def)

lemma close_loop_run:
  assumes "closes K" "in_closing L s0 hp i evs s"
  shows "\<exists>s'. close_loop K hp (length evs) i s = Some (HDF_SUCCESS, s') \<and> in_closing L s0 hp (i + length evs) [] s'"
  using assms(2)
proof (induction evs arbitrary: i s)
  case Nil
  then show ?case by simp
next
  case (Cons a evs)
  obtain h where h: "g_fhandles s hp = Some h" "i + Suc (length evs) \<le> length (hm_fds h)"
    "\<forall>j < Suc (length evs). 0 < hm_fds h ! (i + j) \<and> hm_reqEvent h ! (i + j) = Some ((a # evs) ! j)"
    using Cons.prems by (auto simp: in_closing_def)
  have f: "0 < hm_fds h ! i" "hm_reqEvent h ! i = Some a" using h(3)[rule_format, of 0] by simp_all
  obtain k where k: "UsbFnAdapterQueueDel K (hm_fds h ! i) s = (HDF_SUCCESS, set_fkern k s)" using closes_run(1)[OF assms(1) f(1)] by blast
  obtain k2 where k2: "UsbFnAdapterClosePipe K (hm_fds h ! i) (set_fkern k s) = (HDF_SUCCESS, set_fkern k2 (set_fkern k s))"
    using closes_run(2)[OF assms(1) f(1)] by blast
  let ?h = "h\<lparr>hm_fds := (hm_fds h)[i := -1]\<rparr>"
  let ?s = "put_fhandle hp ?h (set_fkern k2 s)"
  have c: "calm ?s" "a \<in> live (g_mem ?s)" "a \<notin> L" "a \<noteq> hp" "\<forall>p \<in> L. p \<noteq> hp"
    using Cons.prems by (auto simp: in_closing_def)
  obtain s3 where s3: "gfree (Some a) ?s = Some s3" "calm s3" "live (g_mem s3) = live (g_mem ?s) - {a}"
    "\<forall>L t. a \<notin> L \<longrightarrow> frame L t s3 = frame L t ?s" "g_fhandles s3 = (g_fhandles ?s)(a := None)"
    using gfree_frame[OF c(1,2)] by metis
  have "frame L s0 s3" using s3(4) c Cons.prems by (simp add: in_closing_def frame_handle)
  moreover have "live (g_mem s3) = L \<union> insert hp (set evs)" "distinct evs" "hp \<notin> L" "hp \<notin> set evs" "set evs \<inter> L = {}"
    using Cons.prems s3(3) by (auto simp: in_closing_def)
  moreover have "0 < hm_fds ?h ! (Suc i + j) \<and> hm_reqEvent ?h ! (Suc i + j) = Some (evs ! j)" if "j < length evs" for j
    using h(3)[rule_format, of "Suc j"] that by simp
  ultimately have "in_closing L s0 hp (Suc i) evs s3"
    using s3(2,5) c(4) h(2) by (simp add: in_closing_def)
  from Cons.IH[OF this] show ?case
    using h(1,2) k k2 f s3(1) by simp
qed

lemma put_intf_simps [simp]:
  "g_mem (put_intf e x s) = g_mem s" "g_fhandles (put_intf e x s) = g_fhandles s" "calm (put_intf e x s) = calm s"
  "get_func fe (put_intf e x s) = get_func fe s"
  by (simp_all add: put_intf_def get_func_def split: option.split)

lemma put_intf_frame: "frame L s t \<Longrightarrow> frame (L - {fst e}) s (put_intf e x t)"
  by (auto simp: put_intf_def frame_def split: option.split)

lemma frame_mono: "frame L s t \<Longrightarrow> M \<subseteq> L \<Longrightarrow> frame M s t"
  by (auto simp: frame_def)

lemma get_put_intf: "get_intf e s = Some y \<Longrightarrow> get_intf e (put_intf e x s) = Some x"
  by (auto simp: get_intf_def put_intf_def obind split: option.split if_splits)

lemma in_opening_length: "in_opening N L s0 hp evs s \<Longrightarrow> length evs \<le> MAX_EP"
  by (auto simp: in_opening_def dest: arg_cong[of "take _ _" _ length])

text \<open>
  C28. Closing balances opening.  Where the kernel closes its files, closing an interface that was opened
  succeeds, releases the handle and all event arrays and nothing else, and leaves the interface
  as it was before it was opened, ready to be opened again; all other objects are untouched.
\<close>

theorem UsbFnCloseInterface_balance:
  assumes "openable e im s" "im_handle im = None" "intf_opened s e im hp evs s1" "closes K"
  shows "\<exists>s2. UsbFnCloseInterface K (Some hp) s1 = Some (HDF_SUCCESS, s2) \<and> live (g_mem s2) = live (g_mem s) \<and>
    get_intf e s2 = Some im \<and> frame (live (g_mem s) - {fst e}) s s2 \<and> openable e im s2"
proof -
  let ?L = "live (g_mem s)" and ?im = "im\<lparr>isOpen := True, im_handle := Some hp\<rparr>"
  obtain h t where t: "in_opening (length evs) ?L s hp evs t" "g_fhandles t hp = Some h" "hm_intfMgr h = Some e" "s1 = put_intf e ?im t"
    using assms(3) by (auto simp: intf_opened_def)
  have s: "get_intf e s = Some im" "fst e \<in> ?L" using assms(1) by (simp_all add: openable_def)
  have frt: "frame ?L s t" using t(1) by (simp add: in_opening_def)
  have nf: "numFd h = length evs" "\<forall>f \<in> set (take (length evs) (hm_fds h)). 0 < f" "length evs \<le> length (hm_fds h)"
    "take (length evs) (hm_reqEvent h) = map Some evs"
    using t(1,2) in_opening_length[OF t(1)] by (auto simp: in_opening_def)
  have e1: "get_intf e s1 = Some ?im" using get_put_intf[of e t im] frame_get(1)[OF frt s(2)] s(1) t(4) by simp
  have "hm_reqEvent h ! j = Some (evs ! j)" if "j < length evs" for j
    using arg_cong[OF nf(4), of "\<lambda>xs. xs ! j"] that by simp
  moreover have "0 < hm_fds h ! j" if "j < length evs" for j using nf(2,3) that by (auto simp: set_conv_nth)
  ultimately have "in_closing ?L s1 hp 0 evs s1"
    using t nf(3) by (simp add: in_closing_def in_opening_def)
  then obtain s2 where s2: "close_loop K hp (length evs) 0 s1 = Some (HDF_SUCCESS, s2)" "in_closing ?L s1 hp (length evs) [] s2"
    using close_loop_run[OF assms(4), of ?L s1 hp 0 evs s1] by auto
  have c: "calm s2" "hp \<in> live (g_mem s2)" "hp \<notin> ?L" "live (g_mem s2) = insert hp ?L" "frame ?L s1 s2"
    using s2(2) by (auto simp: in_closing_def)
  obtain s3 where s3: "gfree (Some hp) s2 = Some s3" "calm s3" "live (g_mem s3) = live (g_mem s2) - {hp}"
    "\<forall>L t. hp \<notin> L \<longrightarrow> frame L t s3 = frame L t s2" using gfree_frame[OF c(1,2)] by metis
  have fr3: "frame ?L s1 s3" using s3(4) c(3,5) by simp
  have e3: "get_intf e s3 = Some ?im" using frame_get(1)[OF fr3 s(2)] e1 by simp
  have im: "?im\<lparr>isOpen := False, im_handle := None\<rparr> = im" using assms(1,2) by (cases im) (simp add: openable_def)
  have run: "UsbFnCloseInterface K (Some hp) s1 = Some (HDF_SUCCESS, put_intf e im s3)"
    using t(2-4) e1 s2(1) s3(1) e3 nf(1) im by (simp add: UsbFnCloseInterface_def UsbFnIoMgrInterfaceClose_def)
  have "frame (?L - {fst e}) s s1" unfolding t(4) by (rule put_intf_frame[OF frt])
  moreover have "frame (?L - {fst e}) s1 (put_intf e im s3)" by (rule put_intf_frame[OF fr3])
  ultimately have fr: "frame (?L - {fst e}) s (put_intf e im s3)" by (rule frame_trans)
  have lv: "live (g_mem (put_intf e im s3)) = ?L" using s3(3) c(3,4) by auto
  have fn: "get_func fe s3 = get_func fe s" if "fst fe \<in> ?L" for fe
    using frame_get(2)[OF fr3 that] frame_get(2)[OF frt that] t(4) by simp
  have op: "openable e im (put_intf e im s3)"
    using assms(1) s3(2) lv get_put_intf[OF e3, of im] fn by (auto simp: openable_def)
  show ?thesis using run lv get_put_intf[OF e3, of im] fr op by blast
qed

lemma ex_closes: "closes ex_os"
  by (simp add: closes_def ex_os_def)

theorem UsbFnCloseInterface_balance_witness:
  "\<exists>hp s1 s2. UsbFnOpenInterface ex_os (Some (1, 0)) ex_gadget = Some (Some hp, s1) \<and>
    UsbFnCloseInterface ex_os (Some hp) s1 = Some (HDF_SUCCESS, s2) \<and> live (g_mem s2) = {1, 2}"
proof -
  obtain hp s1 evs where o: "UsbFnOpenInterface ex_os (Some (1, 0)) ex_gadget = Some (Some hp, s1)"
      "intf_opened ex_gadget (1, 0) ex_intf hp evs s1"
    using ex_opened by blast
  have "im_handle ex_intf = None" by (simp add: ex_intf_def zero_interfaceMgr_def)
  from UsbFnCloseInterface_balance[OF ex_openable this o(2) ex_closes]
  obtain s2 where "UsbFnCloseInterface ex_os (Some hp) s1 = Some (HDF_SUCCESS, s2)" "live (g_mem s2) = live (g_mem ex_gadget)" by blast
  then show ?thesis using o(1) by (auto simp: ex_gadget_def)
qed

end
