(* ===== verification/Usbfn_Events.thy ===== *)
theory Usbfn_Events
  imports Usbfn_Open
begin

text \<open>
  One round of the polling thread of a device: every event that the kernel reports reaches exactly the
  function or the request it is for, in the order of the endpoints.
\<close>

subsection \<open>What the events mean\<close>

text \<open>An event with its addressee: a function, or a list of requests one of which has the buffer.\<close>

datatype job = Ctrl UsbFnFuncMgr UsbFnCtrlEvent | Io "ptr list" UsbFnReqEvent

type_synonym freqs = "ptr \<Rightarrow> ReqList option"

definition addressee :: "freqs \<Rightarrow> ptr list \<Rightarrow> UsbFnReqEvent \<Rightarrow> ptr option" where
  "addressee m ps ev = List.find (\<lambda>p. map_option rl_buf (m p) = Some (re_buf ev)) ps"

definition accepts :: "UsbFnFuncMgr \<Rightarrow> UsbFnCtrlEvent \<Rightarrow> bool" where
  "accepts f c \<longleftrightarrow> fm_eventMask f AND push_bit (unat (ce_type c)) 1 \<noteq> 0"

text \<open>The calls of clients, the state of the requests and the state of the device after a job.\<close>

fun job_log :: "freqs \<Rightarrow> job \<Rightarrow> fn_event list" where
  "job_log m (Ctrl f c) =
     (if accepts f c then (case fm_callback f of None \<Rightarrow> [] | Some cb \<Rightarrow> [EventCalled cb (ce_setup c) (ce_type c) (fm_context f)]) else [])"
| "job_log m (Io ps ev) =
     (case addressee m ps ev of
        None \<Rightarrow> []
      | Some p \<Rightarrow>
          (case map_option (q_complete \<circ> rl_req) (m p) of
             Some (Some cb) \<Rightarrow> [CompleteCalled cb (the (map_option rl_pipe (m p))) p (re_actual ev) (- re_status ev)]
           | _ \<Rightarrow> []))"

fun job_freqs :: "job \<Rightarrow> freqs \<Rightarrow> freqs" where
  "job_freqs (Ctrl f c) m = m"
| "job_freqs (Io ps ev) m =
     (case addressee m ps ev of
        None \<Rightarrow> m
      | Some p \<Rightarrow> m(p := map_option (\<lambda>r. r\<lparr>rl_req := (rl_req r)\<lparr>q_actual := re_actual ev, q_status := - re_status ev\<rparr>\<rparr>) (m p)))"

fun job_dev :: "job \<Rightarrow> nat \<Rightarrow> nat" where
  "job_dev (Ctrl f c) n = (if accepts f c then unat (ce_type c) else n)"
| "job_dev (Io ps ev) n = n"

definition after :: "ptr \<Rightarrow> UsbFnDeviceMgr \<Rightarrow> 'k gadget \<Rightarrow> job list \<Rightarrow> 'k gadget" where
  "after dev d s js = s\<lparr>g_fdevs := (g_fdevs s)(dev \<mapsto> d\<lparr>devState := fold job_dev js (devState d)\<rparr>),
     g_freqs := fold job_freqs js (g_freqs s), g_log := g_log s @ concat (map (job_log (g_freqs s)) js)\<rparr>"

lemma job_keeps:
  "map_option rl_buf (job_freqs j m p) = map_option rl_buf (m p)"
  "map_option rl_pipe (job_freqs j m p) = map_option rl_pipe (m p)"
  "map_option (q_complete \<circ> rl_req) (job_freqs j m p) = map_option (q_complete \<circ> rl_req) (m p)"
  by (cases j; auto simp: option.map_comp o_def split: option.split)+

lemma jobs_keep:
  "map_option rl_buf (fold job_freqs js m p) = map_option rl_buf (m p)"
  "map_option rl_pipe (fold job_freqs js m p) = map_option rl_pipe (m p)"
  "map_option (q_complete \<circ> rl_req) (fold job_freqs js m p) = map_option (q_complete \<circ> rl_req) (m p)"
  by (induction js arbitrary: m) (simp_all add: job_keeps)

lemma addressee_jobs: "addressee (fold job_freqs js m) = addressee m"
  by (intro ext) (simp add: addressee_def jobs_keep)

lemma job_log_jobs: "job_log (fold job_freqs js m) j = job_log m j"
  by (cases j) (simp_all add: addressee_jobs jobs_keep cong: option.case_cong)

lemma jobs_dom: "(fold job_freqs js m p = None) = (m p = None)"
  using jobs_keep(1)[of js m p] by (cases "fold job_freqs js m p"; cases "m p") auto

lemma after_simps [simp]:
  "g_funcs (after dev d s js) = g_funcs s" "g_intfs (after dev d s js) = g_intfs s" "g_fhandles (after dev d s js) = g_fhandles s"
  "g_revents (after dev d s js) = g_revents s" "g_freqs (after dev d s js) = fold job_freqs js (g_freqs s)"
  "g_log (after dev d s js) = g_log s @ concat (map (job_log (g_freqs s)) js)"
  "g_fdevs (after dev d s js) dev = Some (d\<lparr>devState := fold job_dev js (devState d)\<rparr>)"
  "g_mem (after dev d s js) = g_mem s"
  by (simp_all add: after_def)

lemma after_nil: "g_fdevs s dev = Some d \<Longrightarrow> after dev d s [] = s"
  by (simp add: after_def fun_upd_idem)

subsection \<open>Delivery\<close>

lemma deliver_find:
  assumes "\<forall>p \<in> set ps. g_freqs s p \<noteq> None"
  shows "deliver ps ev s = Some (s\<lparr>g_freqs := job_freqs (Io ps ev) (g_freqs s), g_log := g_log s @ job_log (g_freqs s) (Io ps ev)\<rparr>)"
  using assms
proof (induction ps)
  case Nil
  then show ?case by (simp add: addressee_def)
next
  case (Cons p ps)
  then obtain r where "g_freqs s p = Some r" by auto
  then show ?case
    using Cons by (auto simp: addressee_def Let_def fun_upd_def split: option.split)
qed

lemma deliver_after:
  assumes "\<forall>p \<in> set ps. g_freqs s p \<noteq> None"
  shows "deliver ps ev (after dev d s js) = Some (after dev d s (js @ [Io ps ev]))"
proof -
  have "\<forall>p \<in> set ps. g_freqs (after dev d s js) p \<noteq> None" using assms by (simp add: jobs_dom)
  from deliver_find[OF this, of ev] show ?thesis
    by (simp add: after_def job_log_jobs del: job_log.simps job_freqs.simps)
qed

lemma ctrl_after:
  assumes "get_func fe s = Some f" "fm_object f = Some dev" "unat (ce_type c) < 31"
  shows "HandleEp0CtrlEvent fe c (after dev d s js) = Some (after dev d s (js @ [Ctrl f c]))"
proof -
  have "get_func fe (after dev d s js) = Some f" using assms(1) by (simp add: get_func_def)
  then show ?thesis
    using assms(2,3) by (auto simp: HandleEp0CtrlEvent_def accepts_def Let_def after_def split: option.split)
qed

subsection \<open>The endpoints of a device\<close>

text \<open>The functions that want events, and the endpoints of the open interfaces: file, handle and array of events.\<close>

definition active :: "UsbFnFuncMgr \<Rightarrow> bool" where
  "active f \<longleftrightarrow> fm_fd f > 0 \<and> fm_callback f \<noteq> None"

definition handle_eps_of :: "ptr \<Rightarrow> UsbHandleMgr \<Rightarrow> (int \<times> ptr \<times> ptr option) list" where
  "handle_eps_of hp h = map (\<lambda>(f, q). (f, hp, q)) (filter (\<lambda>(f, q). 0 < f) (zip (take (numFd h) (hm_fds h)) (take (numFd h) (hm_reqEvent h))))"

fun eps_of :: "UsbFnInterfaceMgr list \<Rightarrow> 'k gadget \<Rightarrow> (int \<times> ptr \<times> ptr option) list" where
  "eps_of [] s = []"
| "eps_of (im # ims) s =
     (case (isOpen im, im_handle im) of
        (True, Some hp) \<Rightarrow> (case g_fhandles s hp of Some h \<Rightarrow> handle_eps_of hp h | None \<Rightarrow> [])
      | _ \<Rightarrow> []) @ eps_of ims s"

text \<open>An open interface has a handle with arrays for its files.\<close>

definition intf_ok :: "'k gadget \<Rightarrow> UsbFnInterfaceMgr \<Rightarrow> bool" where
  "intf_ok s im \<longleftrightarrow> (isOpen im \<longrightarrow> (\<exists>hp h. im_handle im = Some hp \<and> g_fhandles s hp = Some h \<and>
     numFd h \<le> length (hm_fds h) \<and> length (hm_reqEvent h) = length (hm_fds h) \<and> (\<forall>p \<in> set (hm_reqEntry h). g_freqs s p \<noteq> None)))"

definition eps_event :: "(int \<times> ptr \<times> ptr option) list \<Rightarrow> UsbFnEventAll \<Rightarrow> UsbFnEventAll" where
  "eps_event es ev = ev\<lparr>ev_epx := ev_epx ev @ map fst es, ev_reqEvent := ev_reqEvent ev @ map (snd \<circ> snd) es,
     ev_numEvent := ev_numEvent ev @ replicate (length es) 0\<rparr>"

lemma collect_ep0_run:
  assumes "length (ev_ep0 ev) + length (filter active fs) \<le> MAX_EP0_NUM"
  shows "collect_ep0 fs ev = Some (ev\<lparr>ev_ep0 := ev_ep0 ev @ map fm_fd (filter active fs),
     ev_ep0Event := ev_ep0Event ev @ replicate (length (filter active fs)) EP0_INVALID\<rparr>)"
  using assms
proof (induction fs arbitrary: ev)
  case (Cons f fs)
  show ?case
  proof (cases "active f")
    case True
    then show ?thesis
      using Cons.prems Cons.IH[of "ev\<lparr>ev_ep0 := ev_ep0 ev @ [fm_fd f], ev_ep0Event := ev_ep0Event ev @ [EP0_INVALID]\<rparr>"]
      by (simp add: active_def)
  next
    case False
    then have "\<not> (fm_fd f > 0 \<and> fm_callback f \<noteq> None)" by (simp add: active_def)
    then show ?thesis using Cons.prems Cons.IH[of ev] False by auto
  qed
qed simp

lemma collect_fds_run:
  assumes "length (ev_epx ev) + length (filter (\<lambda>(f, q). 0 < f) (zip fs qs)) \<le> MAX_EP"
  shows "collect_fds fs qs ev = Some (eps_event (map (\<lambda>(f, q). (f, hp, q)) (filter (\<lambda>(f, q). 0 < f) (zip fs qs))) ev)"
  using assms
proof (induction fs qs ev rule: collect_fds.induct)
  case (1 f fs q qs ev)
  then show ?case by (cases "f \<le> 0") (simp_all add: eps_event_def)
qed (simp_all add: eps_event_def)

lemma collect_eps_run:
  assumes "\<forall>im \<in> set ims. intf_ok s im" "length (ev_epx ev) + length (eps_of ims s) \<le> MAX_EP"
  shows "collect_eps ims s ev = Some (eps_event (eps_of ims s) ev)"
  using assms
proof (induction ims arbitrary: ev)
  case Nil
  then show ?case by (simp add: eps_event_def)
next
  case (Cons im ims)
  show ?case
  proof (cases "isOpen im")
    case True
    then obtain hp h where h: "im_handle im = Some hp" "g_fhandles s hp = Some h" "numFd h \<le> length (hm_fds h)"
      using Cons.prems(1) by (auto simp: intf_ok_def)
    let ?ev = "eps_event (handle_eps_of hp h) ev"
    have "collect_fds (take (numFd h) (hm_fds h)) (take (numFd h) (hm_reqEvent h)) ev = Some ?ev"
      using collect_fds_run[of ev "take (numFd h) (hm_fds h)" "take (numFd h) (hm_reqEvent h)" hp] Cons.prems(2) True h
      by (simp add: handle_eps_of_def)
    moreover have "collect_eps ims s ?ev = Some (eps_event (eps_of ims s) ?ev)"
      using Cons.IH[of ?ev] Cons.prems True h by (simp add: eps_event_def)
    moreover have "eps_event (eps_of ims s) ?ev = eps_event (handle_eps_of hp h @ eps_of ims s) ev"
      by (simp add: eps_event_def replicate_add)
    ultimately show ?thesis using True h by simp
  next
    case False
    then show ?thesis using Cons.prems Cons.IH[of ev] by simp
  qed
qed

lemma eps_pos: "(f, hp, q) \<in> set (eps_of ims s) \<Longrightarrow> 0 < f"
  by (induction ims) (auto simp: handle_eps_of_def split: option.splits bool.splits)

lemma eps_unique: "distinct (map fst es) \<Longrightarrow> (f, x) \<in> set es \<Longrightarrow> (f, y) \<in> set es \<Longrightarrow> x = y"
  by (rule eq_key_imp_eq_value)

lemma handle_eps_mem:
  assumes "f \<in> set (take (numFd h) (hm_fds h))" "length (hm_reqEvent h) = length (hm_fds h)" "0 < f"
  shows "\<exists>q. (f, hp, q) \<in> set (handle_eps_of hp h)"
proof -
  have "f \<in> fst ` set (zip (take (numFd h) (hm_fds h)) (take (numFd h) (hm_reqEvent h)))"
    using assms(1,2) by (metis length_take list.set_map map_fst_zip)
  then show ?thesis using assms(3) by (force simp: handle_eps_of_def)
qed

text \<open>The handle of a file.\<close>

lemma handle_loop_run:
  assumes "\<forall>im \<in> set ims. intf_ok s im" "distinct (map fst (eps_of ims s))" "(f, hp, q) \<in> set (eps_of ims s)"
  shows "handle_loop ims f lst s = Some (Some hp)"
  using assms
proof (induction ims arbitrary: lst)
  case (Cons im ims)
  show ?case
  proof (cases "isOpen im")
    case True
    then obtain hp' h where h: "im_handle im = Some hp'" "g_fhandles s hp' = Some h" "numFd h \<le> length (hm_fds h)"
        "length (hm_reqEvent h) = length (hm_fds h)"
      using Cons.prems(1) by (auto simp: intf_ok_def)
    have eps: "eps_of (im # ims) s = handle_eps_of hp' h @ eps_of ims s" using True h by simp
    show ?thesis
    proof (cases "f \<in> set (take (numFd h) (hm_fds h))")
      case f: True
      obtain q' where "(f, hp', q') \<in> set (handle_eps_of hp' h)"
        using handle_eps_mem[OF f h(4) eps_pos[OF Cons.prems(3)]] by blast
      then have "(f, hp', q') \<in> set (eps_of (im # ims) s)" by (simp only: eps set_append Un_iff) simp
      from eps_unique[OF Cons.prems(2) this Cons.prems(3)] have "hp' = hp" by simp
      then show ?thesis using True h f by simp
    next
      case False
      then have "(f, hp, q) \<notin> set (handle_eps_of hp' h)" by (auto simp: handle_eps_of_def dest: set_zip_leftD)
      then have "(f, hp, q) \<in> set (eps_of ims s)" using Cons.prems(3)[unfolded eps] by simp
      then show ?thesis using True False h Cons.IH[of "Some hp'"] Cons.prems(1,2) eps by simp
    qed
  next
    case False
    then show ?thesis using Cons.prems Cons.IH by simp
  qed
qed simp

subsection \<open>Functions\<close>

definition active_fds :: "UsbFnFuncMgr list \<Rightarrow> int list" where
  "active_fds fs = filter (\<lambda>f. 0 < f) (map fm_fd fs)"

text \<open>A device that can be polled: no two endpoints share a file, and there is room for all.\<close>

definition pollable :: "ptr \<Rightarrow> UsbFnDeviceMgr \<Rightarrow> UsbFnFuncMgr list \<Rightarrow> UsbFnInterfaceMgr list \<Rightarrow> 'k gadget \<Rightarrow> bool" where
  "pollable dev d fs is s \<longleftrightarrow> g_fdevs s dev = Some d \<and> dev_funcs d s = Some fs \<and> dev_intfs d s = Some is \<and>
     distinct (active_fds fs) \<and> length (filter active fs) \<le> MAX_EP0_NUM \<and>
     (\<forall>f \<in> set fs. fm_object f = Some dev \<and> (\<forall>p \<in> set (fm_reqEntry f). g_freqs s p \<noteq> None)) \<and>
     (\<forall>im \<in> set is. intf_ok s im) \<and> distinct (map fst (eps_of is s)) \<and> length (eps_of is s) \<le> MAX_EP"

lemma dev_tables_after [simp]:
  "dev_funcs (d\<lparr>devState := n\<rparr>) (after dev d' s js) = dev_funcs d s" "dev_intfs (d\<lparr>devState := n\<rparr>) (after dev d' s js) = dev_intfs d s"
  by (simp_all add: dev_funcs_def dev_intfs_def cong: if_cong)

lemma distinct_filter_inj:
  "distinct (filter P (map g xs)) \<Longrightarrow> x \<in> set xs \<Longrightarrow> y \<in> set xs \<Longrightarrow> g x = g y \<Longrightarrow> P (g x) \<Longrightarrow> x = y"
  by (induction xs) (auto split: if_splits, metis imageI)

lemma GetFuncMgr_run:
  assumes "pollable dev d fs is s" "f \<in> set fs" "active f"
  shows "\<exists>fe. GetFuncMgr dev (fm_fd f) (after dev d s js) = Some (Some fe) \<and> get_func fe s = Some f"
proof -
  have fs: "dev_funcs d s = Some fs" "distinct (active_fds fs)" using assms(1) by (simp_all add: pollable_def)
  have ne: "fs \<noteq> []" using assms(2) by auto
  have "\<exists>x \<in> set fs. fm_fd x = fm_fd f" using assms(2) by auto
  then obtain i where i: "find_index (\<lambda>x. fm_fd x = fm_fd f) fs = Some i"
    by (cases "find_index (\<lambda>x. fm_fd x = fm_fd f) fs") (auto simp: find_index_None)
  then have ix: "i < length fs" "fm_fd (fs ! i) = fm_fd f" by (simp_all add: find_index_Some)
  have "fs ! i = f"
    using distinct_filter_inj[OF fs(2)[unfolded active_fds_def], of "fs ! i" f] ix assms(2,3) by (simp add: active_def)
  moreover obtain fa xs where fa: "dm_funcMgr d = Some fa" "g_funcs s fa = Some xs" "unat (numFunc d) \<le> length xs" "fs = take (unat (numFunc d)) xs"
    using fs(1) ne by (auto simp: dev_funcs_def split: if_splits option.splits bind_splits)
  ultimately have "get_func (fa, i) s = Some f" using ix(1) by (auto simp: get_func_def)
  moreover have "GetFuncMgr dev (fm_fd f) (after dev d s js) = Some (Some (fa, i))"
    using fs(1) ne i fa(1) by (simp add: GetFuncMgr_def)
  ultimately show ?thesis by blast
qed

text \<open>The jobs of the control endpoints.\<close>

fun ep0_job :: "UsbFnFuncMgr \<times> UsbEp0Event \<Rightarrow> job list" where
  "ep0_job (f, EP0_INVALID) = []"
| "ep0_job (f, EP0_CTRL_EVENT c) = [Ctrl f c]"
| "ep0_job (f, EP0_IO_COMPLETED r) = [Io (fm_reqEntry f) r]"

definition ctrl_ok :: "UsbEp0Event \<Rightarrow> bool" where
  "ctrl_ok e \<longleftrightarrow> (\<forall>c. e = EP0_CTRL_EVENT c \<longrightarrow> unat (ce_type c) < 31)"

lemma HandleEp0Event_run:
  assumes "pollable dev d fs is s" "set gs \<subseteq> {f \<in> set fs. active f}" "length es = length gs" "list_all ctrl_ok es"
  shows "HandleEp0Event dev (map fm_fd gs) es (after dev d s js) = Some (after dev d s (js @ concat (map ep0_job (zip gs es))))"
  using assms(2-4)
proof (induction gs arbitrary: es js)
  case (Cons g gs)
  then obtain e es' where es: "es = e # es'" "length es' = length gs" by (cases es) auto
  obtain fe where fe: "GetFuncMgr dev (fm_fd g) (after dev d s js) = Some (Some fe)" "get_func fe s = Some g"
    using GetFuncMgr_run[OF assms(1), of g js] Cons.prems(1) by auto
  have g: "fm_object g = Some dev" "\<forall>p \<in> set (fm_reqEntry g). g_freqs s p \<noteq> None"
    using Cons.prems(1) assms(1) by (auto simp: pollable_def)
  have fe2: "get_func fe (after dev d s js) = Some g" using fe(2) by (simp add: get_func_def)
  have "(case e of EP0_INVALID \<Rightarrow> Some (after dev d s js) | EP0_CTRL_EVENT c \<Rightarrow> HandleEp0CtrlEvent fe c (after dev d s js)
     | EP0_IO_COMPLETED r \<Rightarrow> HandleEp0IoEvent fe r (after dev d s js)) = Some (after dev d s (js @ ep0_job (g, e)))"
    using ctrl_after[OF fe(2) g(1)] deliver_after[OF g(2)] fe2 Cons.prems(3) es(1)
    by (auto simp: HandleEp0IoEvent_def ctrl_ok_def split: UsbEp0Event.split)
  then show ?case using Cons.IH[OF _ es(2), of "js @ ep0_job (g, e)"] Cons.prems(1,3) es(1) fe(1) by simp
qed simp

text \<open>The jobs of the data endpoints.\<close>

definition entries :: "'k gadget \<Rightarrow> ptr \<Rightarrow> ptr list" where
  "entries s hp = (case g_fhandles s hp of None \<Rightarrow> [] | Some h \<Rightarrow> hm_reqEntry h)"

definition ep_jobs :: "'k gadget \<Rightarrow> (int \<times> ptr \<times> ptr option) list \<Rightarrow> UsbFnReqEvent list list \<Rightarrow> job list" where
  "ep_jobs s es evss = concat (map (\<lambda>((f, hp, q), evs). map (Io (entries s hp)) evs) (zip es evss))"

lemma handle_events_run:
  assumes "g_revents s a = Some (pre @ evs @ rest)" "g_fhandles s hp = Some h" "\<forall>p \<in> set (hm_reqEntry h). g_freqs s p \<noteq> None"
  shows "handle_events hp (Some a) (length evs) (length pre) (after dev d s js) = Some (after dev d s (js @ map (Io (entries s hp)) evs))"
  using assms(1)
proof (induction evs arbitrary: pre js)
  case (Cons e evs)
  have "HandleEpsIoEvent e hp (after dev d s js) = Some (after dev d s (js @ [Io (entries s hp) e]))"
    using deliver_after[OF assms(3)] assms(2) by (simp add: HandleEpsIoEvent_def entries_def)
  then show ?case using Cons.IH[of "pre @ [e]" "js @ [Io (entries s hp) e]"] Cons.prems by simp
qed simp

lemma eps_handle:
  assumes "\<forall>im \<in> set ims. intf_ok s im" "(f, hp, q) \<in> set (eps_of ims s)"
  shows "\<exists>h. g_fhandles s hp = Some h \<and> (\<forall>p \<in> set (hm_reqEntry h). g_freqs s p \<noteq> None)"
  using assms by (induction ims) (auto simp: handle_eps_of_def intf_ok_def split: option.splits bool.splits)

lemma handle_loop_after: "handle_loop ims f lst (after dev d s js) = handle_loop ims f lst s"
  by (induction ims arbitrary: lst) (simp_all cong: if_cong)

lemma handle_eps_run:
  assumes "pollable dev d fs is s" "set es \<subseteq> set (eps_of is s)" "length evss = length es" "\<forall>evs \<in> set evss. length evs < 256"
    and "\<forall>((f, hp, q), evs) \<in> set (zip es evss). \<exists>a rest. q = Some a \<and> g_revents s a = Some (evs @ rest)"
  shows "handle_eps dev (map fst es) (map (snd \<circ> snd) es) (map (of_nat \<circ> length) evss) (after dev d s js) =
    Some (after dev d s (js @ ep_jobs s es evss))"
  using assms(2-5)
proof (induction es arbitrary: evss js)
  case Nil
  then show ?case by (simp add: ep_jobs_def)
next
  case (Cons e es)
  obtain f hp q where e: "e = (f, hp, q)" by (cases e)
  obtain evs evss' where evss: "evss = evs # evss'" "length evss' = length es" using Cons.prems(2) by (cases evss) auto
  obtain a rest where a: "q = Some a" "g_revents s a = Some ([] @ evs @ rest)" using Cons.prems(4) e evss(1) by auto
  have ok: "dev_intfs d s = Some is" "\<forall>im \<in> set is. intf_ok s im" "distinct (map fst (eps_of is s))" using assms(1) by (simp_all add: pollable_def)
  have mem: "(f, hp, q) \<in> set (eps_of is s)" using Cons.prems(1) e by simp
  obtain h where h: "g_fhandles s hp = Some h" "\<forall>p \<in> set (hm_reqEntry h). g_freqs s p \<noteq> None" using eps_handle[OF ok(2) mem] by blast
  have "handle_loop is f None (after dev d s js) = Some (Some hp)" using handle_loop_run[OF ok(2,3) mem] by (simp add: handle_loop_after)
  then have "GetHandleMgr dev f (after dev d s js) = Some (Some hp)" using ok(1) by (simp add: GetHandleMgr_def)
  moreover have "unat (of_nat (length evs) :: u8) = length evs" using Cons.prems(3) evss(1) by (simp add: unat_of_nat)
  ultimately show ?case
    using handle_events_run[OF a(2) h, of dev d js] Cons.IH[OF _ evss(2), of "js @ map (Io (entries s hp)) evs"] Cons.prems(1,3,4) evss(1) e a(1)
    by (simp add: ep_jobs_def)
qed

subsection \<open>Polling\<close>

text \<open>
  The function file system: events of the control endpoint have a type of its enumeration, and a \<open>read\<close> on an
  endpoint that has events succeeds with at most as many as asked for.
\<close>

definition ffs_reads :: "'k fn_os \<Rightarrow> bool" where
  "ffs_reads K \<longleftrightarrow> (\<forall>f k. case fst (fo_read_ctrl K f k) of None \<Rightarrow> True | Some c \<Rightarrow> unat (ce_type c) < 31) \<and>
     (\<forall>f n k. \<exists>evs. fst (fo_read_req K f n k) = Some evs \<and> length evs \<le> n)"

text \<open>The events that the kernel hands out for the data endpoints.\<close>

definition read_one :: "'k fn_os \<Rightarrow> (nat \<Rightarrow> bool \<times> bool) \<Rightarrow> nat \<Rightarrow> int \<Rightarrow> 'k \<Rightarrow> UsbFnReqEvent list \<times> 'k" where
  "read_one K rv i f k = (if fst (rv i) then (case fo_read_req K f MAX_REQUEST k of (x, k1) \<Rightarrow> (the x, k1)) else ([], k))"

fun read_eps :: "'k fn_os \<Rightarrow> (nat \<Rightarrow> bool \<times> bool) \<Rightarrow> nat \<Rightarrow> int list \<Rightarrow> 'k \<Rightarrow> UsbFnReqEvent list list \<times> 'k" where
  "read_eps K rv i [] k = ([], k)"
| "read_eps K rv i (f # fs) k =
     (case read_one K rv i f k of (evs, k1) \<Rightarrow> (case read_eps K rv (Suc i) fs k1 of (evss, k2) \<Rightarrow> (evs # evss, k2)))"

lemma ep0_read_ok:
  assumes "ffs_reads K" "fo_read_ctrl K f k = (c, k1)"
  shows "ctrl_ok (EP0_CTRL_EVENT (case c of None \<Rightarrow> zero_ctrlEvent | Some x \<Rightarrow> x))"
proof -
  have "case c of None \<Rightarrow> True | Some c \<Rightarrow> unat (ce_type c) < 31" using assms by (metis ffs_reads_def fst_conv)
  then show ?thesis by (simp add: ctrl_ok_def zero_ctrlEvent_def split: option.splits)
qed

lemma Ep0Event_run:
  assumes "ffs_reads K" "list_all ctrl_ok es" "Ep0Event K rv i fs es k = (es', k')"
  shows "length es' = length es \<and> list_all ctrl_ok es'"
  using assms(1,2,3)
proof (induction K rv i fs es k arbitrary: es' k' rule: Ep0Event.induct)
  case (1 K rv i f fs e es k)
  obtain e1 k1 where e1: "(if fst (rv i) then (case fo_read_ctrl K f k of (c, k1) \<Rightarrow> (EP0_CTRL_EVENT (case c of None \<Rightarrow> zero_ctrlEvent | Some x \<Rightarrow> x), k1))
            else if snd (rv i) then (case fo_ep0_event K f k of (c, k1) \<Rightarrow> (EP0_IO_COMPLETED (case c of None \<Rightarrow> zero_reqEvent | Some x \<Rightarrow> x), k1))
            else (e, k)) = (e1, k1)" by (meson surj_pair)
  obtain es1 k2 where es1: "Ep0Event K rv (Suc i) fs es k1 = (es1, k2)" by (meson surj_pair)
  have "ctrl_ok e1" using e1 "1.prems"(2) ep0_read_ok[OF "1.prems"(1), of f k]
    by (auto split: if_splits prod.splits) (auto simp: ctrl_ok_def)
  moreover have "length es1 = length es \<and> list_all ctrl_ok es1" using "1.IH"[OF e1[symmetric] "1.prems"(1) _ es1] "1.prems"(2) by simp
  moreover have "es' = e1 # es1" using "1.prems"(3) e1 es1 by simp
  ultimately show ?case by simp
qed simp_all

lemma read_eps_run:
  assumes "ffs_reads K" "read_eps K rv i fs k = (evss, k')"
  shows "length evss = length fs \<and> (\<forall>evs \<in> set evss. length evs \<le> MAX_REQUEST)"
  using assms(2)
proof (induction fs arbitrary: i k evss)
  case (Cons f fs)
  obtain evs k1 evss' where r: "read_one K rv i f k = (evs, k1)" "read_eps K rv (Suc i) fs k1 = (evss', k')" "evss = evs # evss'"
    using Cons.prems by (auto split: prod.splits)
  obtain l where "fst (fo_read_req K f MAX_REQUEST k) = Some l" "length l \<le> MAX_REQUEST" using assms(1) by (metis ffs_reads_def)
  then have "length evs \<le> MAX_REQUEST" using r(1) by (auto simp: read_one_def split: if_splits prod.splits)
  then show ?case using Cons.IH[OF r(2)] r(3) by simp
qed simp

lemma EpEvent_step:
  assumes "ffs_reads K" "g_revents s a = Some l" "read_one K rv i f (g_kern s) = (evs, k1)"
  shows "(if fst (rv i) then
            do { a \<leftarrow> Some a; old \<leftarrow> g_revents s a;
                 case fo_read_req K f MAX_REQUEST (g_kern s) of
                   (None, k) \<Rightarrow> Some (of_nat ((2 ^ 64 - 1) div 16), set_fkern k s)
                 | (Some evs, k) \<Rightarrow>
                     let new = take MAX_REQUEST evs in
                     Some (of_nat (length new), s\<lparr>g_kern := k, g_revents := (g_revents s)(a \<mapsto> new @ drop (length new) old)\<rparr>) }
          else Some (0 :: u8, s)) =
     Some (of_nat (length evs), s\<lparr>g_kern := k1, g_revents := (g_revents s)(a \<mapsto> evs @ drop (length evs) l)\<rparr>)"
proof (cases "fst (rv i)")
  case True
  obtain x where "fst (fo_read_req K f MAX_REQUEST (g_kern s)) = Some x" "length x \<le> MAX_REQUEST" using assms(1) by (metis ffs_reads_def)
  then have "fo_read_req K f MAX_REQUEST (g_kern s) = (Some x, k1)" "x = evs" "take MAX_REQUEST evs = evs"
    using assms(3) True by (auto simp: read_one_def split: prod.splits)
  then show ?thesis using True assms(2) by simp
next
  case False
  then have "evs = []" "k1 = g_kern s" using assms(3) by (simp_all add: read_one_def)
  then show ?thesis using False assms(2) by (simp add: fun_upd_idem)
qed

lemma EpEvent_run:
  assumes "ffs_reads K" "\<forall>e \<in> set es. \<exists>a l. snd (snd e) = Some a \<and> g_revents s a = Some l"
    and "distinct (map (snd \<circ> snd) es)" "read_eps K rv i (map fst es) (g_kern s) = (evss, k)"
  shows "\<exists>g. EpEvent K rv i (map fst es) (map (snd \<circ> snd) es) (replicate (length es) 0) s =
      Some (map (of_nat \<circ> length) evss, s\<lparr>g_kern := k, g_revents := g\<rparr>) \<and>
    (\<forall>((f, hp, q), evs) \<in> set (zip es evss). \<exists>a rest. q = Some a \<and> g a = Some (evs @ rest)) \<and>
    (\<forall>a. Some a \<notin> (snd \<circ> snd) ` set es \<longrightarrow> g a = g_revents s a)"
  using assms(2-4)
proof (induction es arbitrary: i s evss)
  case Nil
  then show ?case by (intro exI[of _ "g_revents s"]) simp
next
  case (Cons e es)
  obtain f hp q where e: "e = (f, hp, q)" by (cases e)
  obtain a l where a: "q = Some a" "g_revents s a = Some l" using Cons.prems(1) e by auto
  obtain evs k1 evss' where r: "read_one K rv i f (g_kern s) = (evs, k1)" "read_eps K rv (Suc i) (map fst es) k1 = (evss', k)" "evss = evs # evss'"
    using Cons.prems(3) e by (auto split: prod.splits)
  let ?s = "s\<lparr>g_kern := k1, g_revents := (g_revents s)(a \<mapsto> evs @ drop (length evs) l)\<rparr>"
  have "\<exists>b l. snd (snd x) = Some b \<and> g_revents ?s b = Some l" if x: "x \<in> set es" for x
  proof -
    obtain b l' where "snd (snd x) = Some b" "g_revents s b = Some l'" using Cons.prems(1) x by (meson list.set_intros(2))
    then show ?thesis by (cases "b = a") auto
  qed
  then have "\<forall>e \<in> set es. \<exists>a l. snd (snd e) = Some a \<and> g_revents ?s a = Some l" by blast
  moreover have "distinct (map (snd \<circ> snd) es)" using Cons.prems(2) by (simp add: o_def)
  moreover have "read_eps K rv (Suc i) (map fst es) (g_kern ?s) = (evss', k)" using r(2) by simp
  ultimately obtain g where g: "EpEvent K rv (Suc i) (map fst es) (map (snd \<circ> snd) es) (replicate (length es) 0) ?s =
      Some (map (of_nat \<circ> length) evss', ?s\<lparr>g_kern := k, g_revents := g\<rparr>)"
    "\<forall>((f, hp, q), evs) \<in> set (zip es evss'). \<exists>a rest. q = Some a \<and> g a = Some (evs @ rest)"
    "\<forall>a. Some a \<notin> (snd \<circ> snd) ` set es \<longrightarrow> g a = g_revents ?s a"
    using Cons.IH[of ?s "Suc i" evss'] by blast
  have ga: "g a = Some (evs @ drop (length evs) l)" using g(3) Cons.prems(2) e a(1) by auto
  have "?s\<lparr>g_kern := k, g_revents := g\<rparr> = s\<lparr>g_kern := k, g_revents := g\<rparr>" by simp
  then have "EpEvent K rv i (map fst (e # es)) (map (snd \<circ> snd) (e # es)) (replicate (length (e # es)) 0) s =
      Some (map (of_nat \<circ> length) evss, s\<lparr>g_kern := k, g_revents := g\<rparr>)"
    using EpEvent_step[OF assms(1) a(2) r(1)] g(1) e a(1) r(3) by simp
  moreover have "\<forall>((f, hp, q), evs) \<in> set (zip (e # es) evss). \<exists>a rest. q = Some a \<and> g a = Some (evs @ rest)"
    using g(2) ga e a(1) r(3) by auto
  moreover have "\<forall>x. Some x \<notin> (snd \<circ> snd) ` set (e # es) \<longrightarrow> g x = g_revents s x" using g(3) e a(1) by auto
  ultimately show ?case by blast
qed

text \<open>Objects lie in live blocks.\<close>

definition heap_ok :: "'k gadget \<Rightarrow> bool" where
  "heap_ok s \<longleftrightarrow> (\<forall>p. p \<notin> live (g_mem s) \<longrightarrow> g_fdevs s p = None \<and> g_intfs s p = None \<and> g_funcs s p = None \<and>
     g_fhandles s p = None \<and> g_freqs s p = None \<and> g_revents s p = None \<and> g_props s p = None)"

text \<open>The state after a poll: memory is balanced, and only the event arrays have changed.\<close>

definition polled :: "'k gadget \<Rightarrow> 'k \<Rightarrow> (ptr \<Rightarrow> UsbFnReqEvent list option) \<Rightarrow> 'k gadget" where
  "polled s k g = s\<lparr>g_mem := (g_mem s)\<lparr>nextAddr := nextAddr (g_mem s) + 1\<rparr>, g_kern := k, g_revents := g\<rparr>"

lemma free_pollfds:
  assumes "calm s" "heap_ok s" "a = nextAddr (g_mem s)" "g a = None"
  shows "gfree (Some a) (s\<lparr>g_mem := (g_mem s)\<lparr>nextAddr := a + 1, live := insert a (live (g_mem s))\<rparr>, g_kern := k, g_revents := g\<rparr>) = Some (polled s k g)"
proof -
  have a: "a \<notin> live (g_mem s)" using assms(1,3) by (auto simp: calm_def mem_ok_def)
  then have "g_fdevs s a = None" "g_intfs s a = None" "g_funcs s a = None" "g_fhandles s a = None" "g_freqs s a = None" "g_props s a = None" "insert a (live (g_mem s)) - {a} = live (g_mem s)"
    using assms(2) by (auto simp: heap_ok_def)
  then show ?thesis
    using assms(1,3,4) by (simp add: gfree_off calm_def polled_def fun_upd_idem)
qed

definition poll_inv :: "ptr \<Rightarrow> UsbFnDeviceMgr \<Rightarrow> UsbFnFuncMgr list \<Rightarrow> UsbFnInterfaceMgr list \<Rightarrow> 'k gadget \<Rightarrow> bool" where
  "poll_inv dev d fs is s \<longleftrightarrow> pollable dev d fs is s \<and> calm s \<and> heap_ok s \<and>
     (\<forall>e \<in> set (eps_of is s). \<exists>a l. snd (snd e) = Some a \<and> g_revents s a = Some l) \<and> distinct (map (snd \<circ> snd) (eps_of is s))"

text \<open>What the kernel answers in a round, as jobs.\<close>

definition round_jobs :: "'k fn_os \<Rightarrow> UsbFnFuncMgr list \<Rightarrow> UsbFnInterfaceMgr list \<Rightarrow> 'k gadget \<Rightarrow> job list" where
  "round_jobs K fs is s =
     (let gs = filter active fs; es = eps_of is s; fds = map fm_fd gs @ map fst es in
      if fds = [] \<or> \<not> fo_alloc K (nextAddr (g_mem s)) (length fds * 8) then []
      else case fo_poll K fds 100 (g_kern s) of
        ((r, rv), k) \<Rightarrow>
          if r \<le> 0 then []
          else case Ep0Event K rv 0 (map fm_fd gs) (replicate (length gs) EP0_INVALID) k of
            (e0, k1) \<Rightarrow> concat (map ep0_job (zip gs e0)) @ ep_jobs s es (fst (read_eps K rv (length gs) (map fst es) k1)))"

lemma polled_tables [simp]:
  "eps_of is (polled s k g) = eps_of is s" "intf_ok (polled s k g) = intf_ok s" "dev_funcs d (polled s k g) = dev_funcs d s"
  "dev_intfs d (polled s k g) = dev_intfs d s"
  by (induction "is") (auto simp: polled_def intf_ok_def dev_funcs_def dev_intfs_def fun_eq_iff split: option.splits bool.splits)

lemma after_tables [simp]:
  "eps_of is (after dev d s js) = eps_of is s" "intf_ok (after dev d s js) = intf_ok s"
  by (induction "is") (auto simp: intf_ok_def jobs_dom fun_eq_iff split: option.splits bool.splits)

lemma polled_fields [simp]:
  "g_fdevs (polled s k g) = g_fdevs s" "g_intfs (polled s k g) = g_intfs s" "g_funcs (polled s k g) = g_funcs s"
  "g_fhandles (polled s k g) = g_fhandles s" "g_freqs (polled s k g) = g_freqs s" "g_log (polled s k g) = g_log s" "g_props (polled s k g) = g_props s"
  "g_revents (polled s k g) = g" "live (g_mem (polled s k g)) = live (g_mem s)" "g_devEntry (polled s k g) = g_devEntry s"
  by (simp_all add: polled_def)

lemma calm_polled: "calm s \<Longrightarrow> calm (polled s k g)"
  by (auto simp: calm_def mem_ok_def polled_def)

lemma poll_inv_polled:
  assumes "poll_inv dev d fs is s" "\<forall>e \<in> set (eps_of is s). \<exists>a l. snd (snd e) = Some a \<and> g a = Some l"
    and "\<forall>p. p \<notin> live (g_mem s) \<longrightarrow> g p = None"
  shows "poll_inv dev d fs is (polled s k g)"
  using assms by (simp add: poll_inv_def pollable_def heap_ok_def calm_polled)

lemma heap_ok_after: "heap_ok s \<Longrightarrow> g_fdevs s dev = Some d \<Longrightarrow> heap_ok (after dev d s js)"
  by (auto simp: heap_ok_def after_def jobs_dom)

lemma poll_inv_after:
  assumes "poll_inv dev d fs is s"
  shows "poll_inv dev (d\<lparr>devState := fold job_dev js (devState d)\<rparr>) fs is (after dev d s js)"
  using assms by (simp add: poll_inv_def pollable_def heap_ok_after calm_def jobs_dom)

lemma CollectEventHandle_run:
  assumes "pollable dev d fs is s"
  shows "CollectEventHandle dev s = Some \<lparr>ev_ep0 = map fm_fd (filter active fs), ev_ep0Event = replicate (length (filter active fs)) EP0_INVALID,
     ev_epx = map fst (eps_of is s), ev_reqEvent = map (snd \<circ> snd) (eps_of is s), ev_numEvent = replicate (length (eps_of is s)) 0\<rparr>"
  using assms collect_ep0_run[of zero_eventAll fs] collect_eps_run[of "is" s]
  by (simp add: CollectEventHandle_def pollable_def zero_eventAll_def eps_event_def)

lemma zip_all:
  assumes "length evss = length es" "\<forall>((f, hp, q), evs) \<in> set (zip es evss). \<exists>a rest. q = Some a \<and> g a = Some (evs @ rest)"
  shows "\<forall>e \<in> set es. \<exists>a l. snd (snd e) = Some a \<and> g a = Some l"
proof
  fix e assume "e \<in> set es"
  then obtain evs where "(e, evs) \<in> set (zip es evss)" using assms(1) by (metis in_set_impl_in_set_zip1)
  then show "\<exists>a l. snd (snd e) = Some a \<and> g a = Some l" using assms(2) by (cases e) fastforce
qed

lemma poll_files_pos: "\<not> list_ex (\<lambda>f. f \<le> 0) (map fm_fd (filter active fs) @ map fst (eps_of is s))"
  using eps_pos[of _ _ _ "is" s] by (auto simp: list_ex_iff active_def not_le)

lemma poll_run:
  assumes "poll_inv dev d fs is s" "ffs_reads K"
    and ev: "ev = \<lparr>ev_ep0 = map fm_fd (filter active fs), ev_ep0Event = replicate (length (filter active fs)) EP0_INVALID,
     ev_epx = map fst (eps_of is s), ev_reqEvent = map (snd \<circ> snd) (eps_of is s), ev_numEvent = replicate (length (eps_of is s)) 0\<rparr>"
    and ne: "map fm_fd (filter active fs) @ map fst (eps_of is s) \<noteq> []" (is "?fds \<noteq> []")
  shows "\<exists>r ev' k g. UsbFnAdapterPollEvent K ev 100 s = Some (r, ev', polled s k g) \<and> poll_inv dev d fs is (polled s k g) \<and>
    (if r \<noteq> HDF_SUCCESS then round_jobs K fs is s = []
     else \<exists>e0 evss. ev' = ev\<lparr>ev_ep0Event := e0, ev_numEvent := map (of_nat \<circ> length) evss\<rparr> \<and>
       length e0 = length (filter active fs) \<and> list_all ctrl_ok e0 \<and> length evss = length (eps_of is s) \<and>
       (\<forall>evs \<in> set evss. length evs < 256) \<and> (\<forall>((f, hp, q), evs) \<in> set (zip (eps_of is s) evss). \<exists>a rest. q = Some a \<and> g a = Some (evs @ rest)) \<and>
       round_jobs K fs is s = concat (map ep0_job (zip (filter active fs) e0)) @ ep_jobs s (eps_of is s) evss)"
proof -
  let ?gs = "filter active fs" and ?es = "eps_of is s" and ?a = "nextAddr (g_mem s)"
  let ?s1 = "s\<lparr>g_mem := (g_mem s)\<lparr>nextAddr := ?a + 1, live := insert ?a (live (g_mem s))\<rparr>\<rparr>"
  have c: "calm s" "heap_ok s" "\<not> g_usbRamTestFlag (g_mem s)" using assms(1) by (simp_all add: poll_inv_def calm_def)
  have arr: "\<forall>e \<in> set ?es. \<exists>a l. snd (snd e) = Some a \<and> g_revents s a = Some l" "distinct (map (snd \<circ> snd) ?es)" using assms(1) by (simp_all add: poll_inv_def)
  have a: "?a \<notin> live (g_mem s)" using c(1) by (auto simp: calm_def mem_ok_def)
  have none: "g_revents s ?a = None" "\<forall>p. p \<notin> live (g_mem s) \<longrightarrow> g_revents s p = None" using a c(2) by (simp_all add: heap_ok_def)
  have same: "poll_inv dev d fs is (polled s k (g_revents s))" for k by (rule poll_inv_polled[OF assms(1) arr(1) none(2)])
  have len: "length ?gs + length ?es = length ?fds" "length ?fds \<noteq> 0" using ne by simp_all
  show ?thesis
  proof (cases "fo_alloc K ?a (length ?fds * 8)")
    case False
    then have "UsbFnAdapterPollEvent K ev 100 s = Some (RetErr HDF_ERR_MALLOC_FAIL, ev, polled s (g_kern s) (g_revents s))"
      using c(3) ne ev by (simp add: UsbFnAdapterPollEvent_def galloc_off polled_def Let_def)
    moreover have "round_jobs K fs is s = []" using False by (simp add: round_jobs_def Let_def)
    ultimately show ?thesis using same by (intro exI[of _ "RetErr HDF_ERR_MALLOC_FAIL"]) auto
  next
    case al: True
    obtain r rv k where p: "fo_poll K ?fds 100 (g_kern s) = ((r, rv), k)" by (metis surj_pair)
    have fr: "gfree (Some ?a) (?s1\<lparr>g_kern := k, g_revents := g\<rparr>) = Some (polled s k g)" if "g ?a = None" for g k
      using free_pollfds[OF c(1,2) refl, of g] that by simp
    note fr1 = fr[of "g_revents s" k, OF none(1)]
    show ?thesis
    proof (cases "r \<le> 0")
      case True
      let ?r = "if r = 0 then RetErr HDF_ERR_TIMEOUT else RetErr HDF_ERR_IO"
      have "UsbFnAdapterPollEvent K ev 100 s = Some (?r, ev, polled s k (g_revents s))"
        using c(3) ne ev al p True poll_files_pos[of fs "is" s] fr1
        by (simp add: UsbFnAdapterPollEvent_def galloc_off Let_def)
      moreover have "round_jobs K fs is s = []" using True p by (simp add: round_jobs_def Let_def)
      ultimately show ?thesis using same by (intro exI[of _ ?r]) auto
    next
      case False
      obtain e0 k1 where e0: "Ep0Event K rv 0 (map fm_fd ?gs) (replicate (length ?gs) EP0_INVALID) k = (e0, k1)" by (meson surj_pair)
      obtain evss k2 where rd: "read_eps K rv (length ?gs) (map fst ?es) k1 = (evss, k2)" by (meson surj_pair)
      have e0ok: "length e0 = length ?gs" "list_all ctrl_ok e0"
        using Ep0Event_run[OF assms(2) _ e0] by (simp_all add: ctrl_ok_def list_all_iff)
      have evok: "length evss = length ?es" "\<forall>evs \<in> set evss. length evs < 256"
        using read_eps_run[OF assms(2) rd] by (auto simp: MAX_REQUEST_def)
      let ?s2 = "set_fkern k1 ?s1"
      obtain g where g: "EpEvent K rv (length ?gs) (map fst ?es) (map (snd \<circ> snd) ?es) (replicate (length ?es) 0) ?s2 =
          Some (map (of_nat \<circ> length) evss, ?s2\<lparr>g_kern := k2, g_revents := g\<rparr>)"
        "\<forall>((f, hp, q), evs) \<in> set (zip ?es evss). \<exists>a rest. q = Some a \<and> g a = Some (evs @ rest)"
        "\<forall>a. Some a \<notin> (snd \<circ> snd) ` set ?es \<longrightarrow> g a = g_revents s a"
        using EpEvent_run[OF assms(2), of ?es ?s2 rv "length ?gs" evss k2] arr rd by auto
      have gn: "g p = None" if n: "g_revents s p = None" for p
      proof -
        have "snd (snd e) \<noteq> Some p" if "e \<in> set ?es" for e using bspec[OF arr(1) that] n by auto
        then have "Some p \<notin> (snd \<circ> snd) ` set ?es" by (metis comp_apply imageE)
        then show ?thesis using g(3) n by simp
      qed
      have "UsbFnAdapterPollEvent K ev 100 s = Some (HDF_SUCCESS, ev\<lparr>ev_ep0Event := e0, ev_numEvent := map (of_nat \<circ> length) evss\<rparr>, polled s k2 g)"
        using c(3) ne ev al p False poll_files_pos[of fs "is" s] e0 g(1) fr[of g k2, OF gn[OF none(1)]]
        by (simp add: UsbFnAdapterPollEvent_def galloc_off Let_def)
      moreover have "round_jobs K fs is s = concat (map ep0_job (zip ?gs e0)) @ ep_jobs s ?es evss"
        using ne al p False e0 rd by (auto simp: round_jobs_def Let_def)
      moreover have "poll_inv dev d fs is (polled s k2 g)"
        using poll_inv_polled[OF assms(1) zip_all[OF evok(1) g(2)]] gn none(2) by blast
      ultimately show ?thesis using e0ok evok g(2) by (intro exI[of _ HDF_SUCCESS]) auto
    qed
  qed
qed

lemma ep_jobs_polled: "ep_jobs (polled s k g) es evss = ep_jobs s es evss"
  by (simp add: ep_jobs_def entries_def)


text \<open>
  A device with one function, whose interface has one endpoint with file 8 and two requests; the kernel reports the completion of
  the second.
\<close>

definition ex_req :: "ptr \<Rightarrow> nat \<Rightarrow> ReqList" where
  "ex_req b cb = \<lparr>rl_req = zero_fnRequest\<lparr>q_complete := Some cb\<rparr>, rl_entry = InHandle 4, rl_pipe = 1, rl_fd = 8, rl_buf = b, rl_bufLen = 64,
     rl_handle = 4\<rparr>"

definition ex_dev :: UsbFnDeviceMgr where
  "ex_dev = zero_deviceMgr\<lparr>dm_numInterfaces := 1, numFunc := 1, dm_funcMgr := Some 2, dm_interfaceMgr := Some 3, dm_running := True\<rparr>"

definition ex_fm :: UsbFnFuncMgr where
  "ex_fm = zero_funcMgr\<lparr>fm_object := Some 1, fm_fd := 7, fm_callback := Some 50, fm_eventMask := 255\<rparr>"

definition ex_im :: UsbFnInterfaceMgr where
  "ex_im = zero_interfaceMgr\<lparr>isOpen := True, im_handle := Some 4\<rparr>"

definition ex_hm :: UsbHandleMgr where
  "ex_hm = \<lparr>numFd = 1, hm_fds = [8], hm_intfMgr = Some (3, 0), hm_reqEntry = [6, 7], hm_reqEvent = [Some 5]\<rparr>"

definition ex_polled :: "unit gadget" where
  "ex_polled = (null_gadget ())\<lparr>g_mem := \<lparr>nextAddr = 100, live = {1, 2, 3, 4, 5, 6, 7}, g_usbRamTestFlag = False, g_usbRamTestHead = None\<rparr>,
     g_fdevs := [1 \<mapsto> ex_dev], g_funcs := [2 \<mapsto> [ex_fm]], g_intfs := [3 \<mapsto> [ex_im]], g_fhandles := [4 \<mapsto> ex_hm],
     g_revents := [5 \<mapsto> [zero_reqEvent]], g_freqs := [6 \<mapsto> ex_req 1000 60, 7 \<mapsto> ex_req 2000 70]\<rparr>"

definition ex_poll_os :: "unit fn_os" where
  "ex_poll_os = null_fn_os\<lparr>fo_poll := (\<lambda>fs t k. ((1, \<lambda>i. (True, False)), k)),
     fo_read_ctrl := (\<lambda>f k. (Some (zero_ctrlEvent\<lparr>ce_type := 2\<rparr>), k)),
     fo_read_req := (\<lambda>f n k. (Some (if n = 0 then [] else [\<lparr>re_buf = 2000, re_actual = 12, re_status = 0\<rparr>]), k))\<rparr>"

lemma ex_eps: "eps_of [ex_im] ex_polled = [(8, 4, Some 5)]"
  by (simp add: ex_im_def ex_polled_def ex_hm_def handle_eps_of_def)

lemma ex_poll_inv: "poll_inv 1 ex_dev [ex_fm] [ex_im] ex_polled"
  unfolding poll_inv_def pollable_def ex_eps
  by (auto simp: ex_polled_def ex_dev_def ex_fm_def ex_im_def ex_hm_def dev_funcs_def dev_intfs_def active_fds_def active_def MAX_EP0_NUM_def
      MAX_EP_def intf_ok_def calm_def mem_ok_def heap_ok_def zero_funcMgr_def null_gadget_def split: if_splits)

lemma ex_reads: "ffs_reads ex_poll_os"
  by (auto simp: ffs_reads_def ex_poll_os_def zero_ctrlEvent_def)

lemma ex_jobs: "round_jobs ex_poll_os [ex_fm] [ex_im] ex_polled =
   [Ctrl ex_fm (zero_ctrlEvent\<lparr>ce_type := 2\<rparr>), Io [6, 7] \<lparr>re_buf = 2000, re_actual = 12, re_status = 0\<rparr>]"
proof -
  have "active ex_fm" by (simp add: active_def ex_fm_def)
  moreover have "entries ex_polled 4 = [6, 7]" by (simp add: entries_def ex_polled_def ex_hm_def)
  moreover have "fo_alloc ex_poll_os a n" for a n by (simp add: ex_poll_os_def null_fn_os_def)
  moreover have "fo_poll ex_poll_os xs t k = ((1, \<lambda>i. (True, False)), k)"
    "fo_read_ctrl ex_poll_os f k = (Some (zero_ctrlEvent\<lparr>ce_type := 2\<rparr>), k)"
    "fo_read_req ex_poll_os f MAX_REQUEST k = (Some [\<lparr>re_buf = 2000, re_actual = 12, re_status = 0\<rparr>], k)" for xs t f k
    by (simp_all add: ex_poll_os_def MAX_REQUEST_def)
  ultimately show ?thesis unfolding round_jobs_def Let_def ex_eps by (simp add: read_one_def ep_jobs_def)
qed


end
