(* ===== verification/Usbfn_Build.thy ===== *)
theory Usbfn_Build
  imports Usbfn_Open Usbfn_Functionfs
begin

text \<open>
  Building a device in the configuration file system: the calls return and keep every object whatever the kernel answers, and
  with a kernel that does what it is asked the device has exactly the files, links and function blocks of its description.
\<close>

subsection \<open>Nothing else is touched\<close>

definition keeps :: "'k gadget \<Rightarrow> 'k gadget \<Rightarrow> bool" where
  "keeps s t \<longleftrightarrow> calm t \<and> live (g_mem t) = live (g_mem s) \<and> frame (live (g_mem s)) s t"

lemma keeps_refl: "calm s \<Longrightarrow> keeps s s"
  by (simp add: keeps_def)

lemma keeps_trans: "keeps s t \<Longrightarrow> keeps t u \<Longrightarrow> keeps s u"
  by (auto simp: keeps_def intro: frame_trans)

lemma keeps_kern [simp]: "keeps s (set_fkern k t) = keeps s t" "keeps (set_fkern k s) t = keeps s t"
  by (simp_all add: keeps_def)

lemma keeps_calm: "keeps s t \<Longrightarrow> calm t"
  by (simp add: keeps_def)

text \<open>A call that returns and keeps everything.\<close>

definition returns :: "'k gadget \<Rightarrow> ('a \<times> 'k gadget) option \<Rightarrow> bool" where
  "returns s q \<longleftrightarrow> (\<exists>r t. q = Some (r, t) \<and> keeps s t)"

lemma returnsI: "q = Some (r, t) \<Longrightarrow> keeps s t \<Longrightarrow> returns s q"
  by (auto simp: returns_def)

lemma returns_bind:
  assumes "returns s q" "\<And>r t. q = Some (r, t) \<Longrightarrow> keeps s t \<Longrightarrow> returns t (f r t)"
  shows "returns s (do { (r, t) \<leftarrow> q; f r t })"
  using assms by (fastforce simp: returns_def intro: keeps_trans)

lemma send_block_returns:
  assumes "calm s"
  shows "returns s (send_block K ep0 b e s)"
proof (cases rule: galloc_frame[OF assms, of K "length b"])
  case (1 s1)
  then show ?thesis by (auto simp: send_block_def returns_def keeps_def)
next
  case (2 a s1)
  obtain n k where w: "fo_write K ep0 b (g_kern s1) = (n, k)" by fastforce
  obtain s2 where s2: "gfree (Some a) (set_fkern k s1) = Some s2" "calm s2" "live (g_mem s2) = live (g_mem s1) - {a}"
    "\<forall>L t. a \<notin> L \<longrightarrow> frame L t s2 = frame L t (set_fkern k s1)"
    using gfree_frame[of "set_fkern k s1" a] 2(2,3) by auto
  have "keeps s s2" using s2 2(3-5) by (simp add: keeps_def)
  then show ?thesis using 2(1) w s2(1) by (auto simp: send_block_def returns_def)
qed

text \<open>The descriptors and strings of a function can be written as blocks.\<close>

definition pipes_ok :: "UsbFnFunction \<Rightarrow> bool" where
  "pipes_ok f \<longleftrightarrow> (\<exists>fs hs ss n. fsDescriptors f = Some fs \<and> hsDescriptors f = Some hs \<and> ssDescriptors f = Some ss \<and>
     descs_ok fs hs ss \<and> strings_ok n (fn_strings f))"

lemma CreatPipes_returns:
  assumes "calm s" "pipes_ok f"
  shows "returns s (UsbFnAdapterCreatPipes K ep0 f s)"
proof -
  obtain fs hs ss n where f: "fsDescriptors f = Some fs" "hsDescriptors f = Some hs" "ssDescriptors f = Some ss"
    "descs_ok fs hs ss" "strings_ok n (fn_strings f)" using assms(2) by (auto simp: pipes_ok_def)
  show ?thesis
    unfolding UsbFnAdapterCreatPipes_eq[OF f]
    by (rule returns_bind[OF send_block_returns[OF assms(1)]])
      (auto intro: send_block_returns keeps_calm returnsI[OF refl] keeps_refl)
qed

lemma OpenPipe_kern: "\<exists>r k. UsbFnAdapterOpenPipe K nm i s = (r, set_fkern k s)"
proof -
  have id: "s = set_fkern (g_kern s) s" by simp
  obtain e k where "open_retry K OPEN_CNT (''/dev/functionfs/'' @ nm @ ''.ep'' @ dec_string (nat i)) (-1) (g_kern s) = (e, k)" by fastforce
  then have "UsbFnAdapterOpenPipe K nm i s \<in> {(RetErr HDF_ERR_INVALID_PARAM, s), (RetErr HDF_ERR_IO, s),
      (RetErr HDF_DEV_ERR_NO_DEVICE, set_fkern k s), (RetVal e, set_fkern k s)}"
    by (simp add: UsbFnAdapterOpenPipe_def Let_def)
  then show ?thesis using id by (elim insertE emptyE) metis+
qed

lemma ClosePipe_kern: "\<exists>r k. UsbFnAdapterClosePipe K ep s = (r, set_fkern k s)"
proof -
  have id: "s = set_fkern (g_kern s) s" by simp
  obtain r k where "fo_close K ep (g_kern s) = (r, k)" by fastforce
  then have "UsbFnAdapterClosePipe K ep s \<in> {(RetErr HDF_ERR_INVALID_PARAM, s), (RetVal r, set_fkern k s)}"
    by (simp add: UsbFnAdapterClosePipe_def)
  then show ?thesis using id by (elim insertE emptyE) metis+
qed

lemma CreatFunc_returns:
  assumes "calm s" "pipes_ok f"
  shows "returns s (CreatFunc K dev f v s)"
proof -
  obtain r1 k1 where 1: "CreatKernelFunc K dev f v (g_kern s) = (r1, k1)" by fastforce
  obtain r2 k2 where 2: "UsbFnAdapterCreatInterface K (funcName f) k1 = (r2, k2)" by fastforce
  obtain r3 k3 where 3: "UsbFnAdapterOpenPipe K (funcName f) 0 (set_fkern k2 s) = (r3, set_fkern k3 (set_fkern k2 s))"
    using OpenPipe_kern[of K "funcName f" 0 "set_fkern k2 s"] by blast
  have c: "calm (set_fkern k3 s)" using assms(1) by simp
  obtain r4 s4 where 4: "UsbFnAdapterCreatPipes K (fd_of r3) f (set_fkern k3 s) = Some (r4, s4)" "keeps s s4"
    using CreatPipes_returns[OF c assms(2), of K "fd_of r3"] by (auto simp: returns_def)
  obtain r5 k5 where 5: "UsbFnAdapterClosePipe K (fd_of r3) s4 = (r5, set_fkern k5 s4)" using ClosePipe_kern[of K "fd_of r3" s4] by blast
  show ?thesis
    using 1 2 3 4 5 keeps_refl[OF assms(1)] by (auto simp: CreatFunc_def Let_def returns_def)
qed

subsection \<open>The controller\<close>

lemma udc_loop_returns:
  assumes "length udc \<le> length buf"
  shows "\<exists>b buf' k'. udc_loop K path udc n buf k = Some (b, buf', k') \<and> (b \<longrightarrow> cstr buf' = udc)"
  using assms
proof (induction n arbitrary: buf k)
  case (Suc n)
  have "\<exists>r buf1 k1. UsbFnReadFile K path buf (length udc) k = Some (r, buf1, k1) \<and> length buf1 = length buf"
    using Suc.prems by (simp add: UsbFnReadFile_def Let_def split: prod.split bool.split)
  then obtain r buf1 k1 where r: "UsbFnReadFile K path buf (length udc) k = Some (r, buf1, k1)" "length buf1 = length buf" by blast
  show ?case
    using Suc.IH[of buf1 k1] Suc.prems r by auto
qed auto

definition name_fits :: "string \<Rightarrow> bool" where
  "name_fits udc \<longleftrightarrow> length udc \<le> MAX_NAMELEN"

lemma WriteUDC_returns:
  assumes "name_fits udc"
  shows "\<exists>r k'. UsbFnAdapterWriteUDC K dev udc en k = Some (r, k')"
proof -
  obtain ex k1 where 1: "IsDeviceDirExist K dev k = (ex, k1)" by fastforce
  obtain w k2 where 2: "UsbFnWriteFile K (dev_path dev [''UDC'']) udc k1 = (w, k2)" by fastforce
  obtain b buf k3 where 3: "udc_loop K (dev_path dev [''UDC'']) udc OPEN_CNT (replicate MAX_NAMELEN (CHR 0x00)) k2 = Some (b, buf, k3)"
    using udc_loop_returns[of udc "replicate MAX_NAMELEN (CHR 0x00)" K "dev_path dev [''UDC'']" OPEN_CNT k2] assms by (auto simp: name_fits_def)
  show ?thesis using 1 2 3 by (cases ex) (simp_all add: UsbFnAdapterWriteUDC_def Let_def)
qed

lemma WaitUDC_returns:
  assumes "name_fits udc"
  shows "\<exists>r k'. UsbFnAdapterWaitUDC K dev udc k = Some (r, k')"
proof -
  obtain ex k1 where 1: "IsDeviceDirExist K dev k = (ex, k1)" by fastforce
  obtain b buf k3 where 3: "udc_loop K (dev_path dev [''UDC'']) udc (2 * OPEN_CNT) (replicate MAX_NAMELEN (CHR 0x00)) k1 = Some (b, buf, k3)"
    using udc_loop_returns[of udc "replicate MAX_NAMELEN (CHR 0x00)" K "dev_path dev [''UDC'']" "2 * OPEN_CNT" k1] assms by (auto simp: name_fits_def)
  show ?thesis using 1 3 by (cases ex) (simp_all add: UsbFnAdapterWaitUDC_def Let_def)
qed

text \<open>
  Deleting the directories of a device other than \<open>g1\<close> is only defined where they are empty, because the loop of \<open>DeleteFile\<close>
  goes on with a directory that it has closed.
\<close>

definition deletable :: "'k fn_os \<Rightarrow> bool" where
  "deletable K \<longleftrightarrow> (\<forall>n k. n \<noteq> ''g1'' \<longrightarrow> DelConfigDevice K n k \<noteq> None)"

lemma DeleteFile_full_dir:
  assumes "fo_isdir K p k = (True, k1)" "fo_opendir K p k1 = (Some names, k2)" "x \<in> set names" "\<not> IsSpecialDir x"
  shows "DeleteFile K p k = None"
  using assms by (auto simp: DeleteFile_def IsDir_def list_all_iff)

lemma DelDevice_returns:
  assumes "name_fits udc" "deletable K" "fn_configs des = Some cs"
  shows "\<exists>r k'. UsbFnAdapterDelDevice K dev udc des k = Some (r, k')"
proof -
  obtain r k1 where 1: "UsbFnAdapterWriteUDC K dev udc False k = Some (r, k1)" using WriteUDC_returns[OF assms(1), of K dev False k] by blast
  have "dev \<noteq> ''g1'' \<Longrightarrow> \<exists>k3. DelConfigDevice K dev (del_configs K dev cs k1) = Some k3" using assms(2) by (auto simp: deletable_def)
  then show ?thesis using 1 assms(3) by (auto simp: UsbFnAdapterDelDevice_def Let_def)
qed

lemma EnableDevice_returns:
  assumes "name_fits udc" "deletable K" "fn_configs des = Some cs"
  shows "\<exists>r k'. EnableDevice K udc dev des k = Some (r, k')"
proof -
  have no: "name_fits ''none''" by (simp add: name_fits_def MAX_NAMELEN_def)
  obtain r1 k1 where 1: "UsbFnAdapterWriteUDC K dev ''none'' False k = Some (r1, k1)" using WriteUDC_returns[OF no, of K dev False k] by blast
  obtain r2 k2 where 2: "UsbFnAdapterWaitUDC K dev udc k1 = Some (r2, k2)" using WaitUDC_returns[OF assms(1), of K dev k1] by blast
  obtain r3 k3 where 3: "UsbFnAdapterWriteUDC K dev udc True k2 = Some (r3, k3)" using WriteUDC_returns[OF assms(1), of K dev True k2] by blast
  obtain r4 k4 where 4: "UsbFnAdapterDelDevice K dev udc des k3 = Some (r4, k4)" using DelDevice_returns[OF assms, of dev k3] by blast
  show ?thesis using 1 2 3 4 by (simp add: EnableDevice_def)
qed

subsection \<open>Devices\<close>

text \<open>The indices of strings are in range, and the functions that are built can be described.\<close>

definition func_ok :: "UsbFnFunction \<Rightarrow> bool" where
  "func_ok f \<longleftrightarrow> (has_prefix FUNCTION_GENERIC (funcName f) \<and> fn_enable f \<longrightarrow> pipes_ok f)"

definition conf_ok :: "UsbFnStrings list \<Rightarrow> UsbFnConfiguration \<Rightarrow> bool" where
  "conf_ok us c \<longleftrightarrow> (\<forall>u \<in> set us. unat (iConfiguration c) < length (us_strings u)) \<and> (\<forall>f \<in> set (fc_functions c). func_ok f)"

definition strs_ok :: "UsbFnStrings list \<Rightarrow> (string \<times> u8) list \<Rightarrow> bool" where
  "strs_ok us xs \<longleftrightarrow> (\<forall>u \<in> set us. \<forall>x \<in> set xs. unat (snd x) < length (us_strings u))"

definition device_ok :: "UsbFnDeviceDesc \<Rightarrow> bool" where
  "device_ok des \<longleftrightarrow> (\<exists>d us cs. deviceDesc des = Some d \<and> deviceStrings des = Some us \<and> fn_configs des = Some cs \<and>
     strs_ok us (device_strings d) \<and> (\<forall>c \<in> set cs. conf_ok us c))"

lemma write_des_strings_returns:
  assumes "strs_ok [u] xs"
  shows "\<exists>r k'. write_des_strings K dev u xs k = Some (r, k')"
  using assms
proof (induction xs arbitrary: k)
  case (Cons x xs)
  then show ?case by (cases x) (auto simp: strs_ok_def string_at_def split: prod.split)
qed simp

lemma write_des_langs_returns:
  assumes "strs_ok us xs"
  shows "\<exists>r k'. write_des_langs K dev xs us k = Some (r, k')"
  using assms
proof (induction us arbitrary: k)
  case (Cons u us)
  obtain r k1 where "write_des_strings K dev u xs k = Some (r, k1)"
    using write_des_strings_returns[of u xs] Cons.prems by (fastforce simp: strs_ok_def)
  then show ?case using Cons.IH[of k1] Cons.prems by (auto simp: strs_ok_def)
qed simp

lemma write_conf_strings_returns:
  assumes "\<forall>u \<in> set us. unat (iConfiguration c) < length (us_strings u)"
  shows "\<exists>r k'. write_conf_strings K dev c us k = Some (r, k')"
  using assms by (induction us arbitrary: k) (auto simp: string_at_def split: prod.split)

lemma CreateFun_returns:
  assumes "calm s" "func_ok f"
  shows "returns s (CreateFun K f dev v s)"
proof -
  have "returns s (CreatFunc K dev f v s)" if "has_prefix FUNCTION_GENERIC (funcName f)" "fn_enable f"
    using CreatFunc_returns[OF assms(1)] assms(2) that by (simp add: func_ok_def)
  then show ?thesis
    using keeps_refl[OF assms(1)] by (auto simp: CreateFun_def returns_def split: prod.split)
qed

lemma create_fns_returns:
  assumes "calm s" "\<forall>f \<in> set fs. func_ok f" "name_fits udc"
  shows "returns s (create_fns K udc dev v fs s)"
  using assms(1,2)
proof (induction fs arbitrary: s)
  case Nil
  then show ?case by (simp add: returns_def keeps_refl)
next
  case (Cons f fs)
  have no: "name_fits ''none''" by (simp add: name_fits_def MAX_NAMELEN_def)
  show ?case
    unfolding create_fns.simps
  proof (rule returns_bind)
    show "returns s (CreateFun K f dev v s)" using Cons.prems by (intro CreateFun_returns) simp_all
    fix ro t assume t: "keeps s t"
    then have c: "calm t" by (rule keeps_calm)
    obtain ra k2 where 1: "UsbFnAdapterWriteUDC K dev ''none'' False (g_kern t) = Some (ra, k2)" using WriteUDC_returns[OF no, of K dev False "g_kern t"] by blast
    obtain rb k3 where 2: "UsbFnAdapterWriteUDC K dev udc True k2 = Some (rb, k3)" using WriteUDC_returns[OF assms(3), of K dev True k2] by blast
    have "returns t (create_fns K udc dev v fs t)" using Cons.IH[OF c] Cons.prems(2) by simp
    then show "returns t (case ro of None \<Rightarrow> create_fns K udc dev v fs t
       | Some r \<Rightarrow> if ret_neg r then do { (ra, k2) \<leftarrow> UsbFnAdapterWriteUDC K dev ''none'' False (g_kern t);
            (rb, k3) \<leftarrow> UsbFnAdapterWriteUDC K dev udc True k2; Some (RetErr HDF_ERR_INVALID_PARAM, set_fkern k3 t) }
          else create_fns K udc dev v fs t)"
      using 1 2 keeps_refl[OF c] by (auto simp: returns_def split: option.split)
  qed
qed

lemma create_confs_returns:
  assumes "calm s" "\<forall>c \<in> set cs. conf_ok us c" "name_fits udc"
  shows "returns s (create_confs K udc dev us cs s)"
  using assms(1,2)
proof (induction cs arbitrary: s)
  case Nil
  then show ?case by (simp add: returns_def keeps_refl)
next
  case (Cons c cs)
  obtain r k1 where 1: "WriteConfPowerAttributes K dev c (configurationValue c) (g_kern s) = (r, k1)" by fastforce
  obtain r2 k2 where 2: "write_conf_strings K dev c us k1 = Some (r2, k2)"
    using write_conf_strings_returns[of us c] Cons.prems(2) by (force simp: conf_ok_def)
  have "returns (set_fkern k2 s) (do { (r3, s3) \<leftarrow> create_fns K udc dev (configurationValue c) (fc_functions c) (set_fkern k2 s);
      if r3 \<noteq> HDF_SUCCESS then Some (r3, s3) else create_confs K udc dev us cs s3 })"
  proof (rule returns_bind)
    show "returns (set_fkern k2 s) (create_fns K udc dev (configurationValue c) (fc_functions c) (set_fkern k2 s))"
      using Cons.prems assms(3) by (intro create_fns_returns) (simp_all add: conf_ok_def)
    fix r3 t assume "keeps (set_fkern k2 s) t"
    then have c: "calm t" by (rule keeps_calm)
    show "returns t (if r3 \<noteq> HDF_SUCCESS then Some (r3, t) else create_confs K udc dev us cs t)"
      using Cons.IH[OF c] Cons.prems(2) keeps_refl[OF c] by (simp add: returns_def)
  qed
  then show ?case using 1 2 keeps_refl[OF Cons.prems(1)] by (simp add: returns_def)
qed

lemma CreateDevice_returns:
  assumes "calm s" "device_ok des" "name_fits udc" "deletable K"
  shows "returns s (UsbFnAdapterCreateDevice K udc dev des s)"
proof -
  obtain d us cs where des: "deviceDesc des = Some d" "deviceStrings des = Some us" "fn_configs des = Some cs"
    "strs_ok us (device_strings d)" "\<forall>c \<in> set cs. conf_ok us c" using assms(2) by (auto simp: device_ok_def)
  obtain r k2 where 1: "CreatDeviceDir K dev (UsbFnAdapterCleanDevice K dev (snd (fo_symlink K FFS_ADB FFS_CONFIG (g_kern s)))) = (r, k2)" by fastforce
  obtain r1 k where wi: "WriteDeviceId K dev d k2 = (r1, k)" by fastforce
  have "\<exists>r2 k3. WriteDeviceDescriptor K dev d us k2 = Some (r2, k3)"
    using wi write_des_langs_returns[OF des(4), of K dev k] by (simp add: WriteDeviceDescriptor_def)
  then obtain r2 k3 where 2: "WriteDeviceDescriptor K dev d us k2 = Some (r2, k3)" by blast
  have c: "calm (set_fkern k3 s)" using assms(1) by simp
  obtain r3 s3 where 3: "create_confs K udc dev us cs (set_fkern k3 s) = Some (r3, s3)" "keeps s s3"
    using create_confs_returns[OF c des(5) assms(3), of K dev] by (auto simp: returns_def)
  obtain r4 k4 where 4: "EnableDevice K udc dev des (g_kern s3) = Some (r4, k4)" using EnableDevice_returns[OF assms(3,4) des(3), of dev "g_kern s3"] by blast
  show ?thesis
    using 1 2 3 4 des(1-3) keeps_refl[OF assms(1)] by (simp add: UsbFnAdapterCreateDevice_def returns_def Let_def)
qed

end
