(* ===== verification/Usbfn_Table.thy ===== *)
theory Usbfn_Table
  imports Usbfn_Sdk
begin

text \<open>
  The table of interfaces that the device manager builds from a description: the static counters of
  \<open>CreateInterface\<close> implement the numbering of endpoints within a function, and the room that
  \<open>AllocInterfaceAndFuncMgr\<close> counts is exactly what is filled.
\<close>

subsection \<open>Reference\<close>

text \<open>Descriptors that are long enough for what is read of them.\<close>

definition wf_fdesc :: "u8 list \<Rightarrow> bool" where
  "wf_fdesc d \<longleftrightarrow> 2 \<le> length d \<and> (d ! 1 = USB_DDK_DT_INTERFACE \<longrightarrow> 9 \<le> length d)"

definition is_intf :: "u8 list \<Rightarrow> bool" where
  "is_intf d \<longleftrightarrow> d ! 1 = USB_DDK_DT_INTERFACE \<and> d ! 4 \<noteq> 0"

text \<open>The enabled generic functions with the value of their configuration, in order.\<close>

definition generics :: "UsbFnConfiguration list \<Rightarrow> (u8 \<times> UsbFnFunction) list" where
  "generics gs = concat (map (\<lambda>g. map (Pair (configurationValue g)) (filter generic_func (fc_functions g))) gs)"

definition func_descs :: "UsbFnFunction \<Rightarrow> descs" where
  "func_descs f = (case fsDescriptors f of None \<Rightarrow> [] | Some ds \<Rightarrow> ds)"

definition intf_entry :: "ptr \<Rightarrow> ptr \<Rightarrow> u8 \<Rightarrow> nat \<Rightarrow> nat \<Rightarrow> u8 list \<Rightarrow> UsbFnInterfaceMgr" where
  "intf_entry dev fa cfg n ep d = zero_interfaceMgr\<lparr>
     im_info := \<lparr>xi_index = d ! 2, xi_numPipes = d ! 4, xi_interfaceClass = d ! 5, xi_subclass = d ! 6,
       xi_protocol = d ! 7, xi_configIndex = cfg\<rparr>,
     im_object := Some dev, im_funcMgr := Some (fa, n), startEpId := of_nat ep\<rparr>"

text \<open>The interfaces of function \<open>n\<close>: endpoints are numbered through the function, from \<open>ep\<close> on.\<close>

fun func_intfs :: "ptr \<Rightarrow> ptr \<Rightarrow> u8 \<Rightarrow> nat \<Rightarrow> nat \<Rightarrow> descs \<Rightarrow> UsbFnInterfaceMgr list" where
  "func_intfs dev fa cfg n ep [] = []"
| "func_intfs dev fa cfg n ep (d # ds) =
     (if is_intf d then intf_entry dev fa cfg n ep d # func_intfs dev fa cfg n (ep + unat (d ! 4)) ds
      else func_intfs dev fa cfg n ep ds)"

definition intf_table :: "ptr \<Rightarrow> ptr \<Rightarrow> nat \<Rightarrow> (u8 \<times> UsbFnFunction) list \<Rightarrow> UsbFnInterfaceMgr list" where
  "intf_table dev fa n xs = concat (map (\<lambda>(i, v, f). func_intfs dev fa v i 1 (func_descs f)) (enumerate n xs))"

definition func_entry :: "ptr \<Rightarrow> UsbFnFunction \<Rightarrow> UsbFnFuncMgr" where
  "func_entry dev f = zero_funcMgr\<lparr>fm_reqEntry := [], fm_object := Some dev, fm_name := funcName f\<rparr>"

definition func_table :: "ptr \<Rightarrow> (u8 \<times> UsbFnFunction) list \<Rightarrow> UsbFnFuncMgr list" where
  "func_table dev xs = map (func_entry dev \<circ> snd) xs"

definition gen_ok :: "u8 \<times> UsbFnFunction \<Rightarrow> bool" where
  "gen_ok x \<longleftrightarrow> fsDescriptors (snd x) \<noteq> None \<and> (\<forall>d \<in> set (func_descs (snd x)). wf_fdesc d) \<and> fits MAX_NAMELEN (funcName (snd x))"

lemma func_intfs_length: "length (func_intfs dev fa cfg n ep ds) = length (filter is_intf ds)"
  by (induction ds arbitrary: ep) simp_all

lemma wf_rd:
  assumes "wf_fdesc d"
  shows "rd8 d 1 = Some (d ! 1)" "d ! 1 = USB_DDK_DT_INTERFACE \<Longrightarrow> i < 9 \<Longrightarrow> rd8 d i = Some (d ! i)"
  using assms by (auto simp: wf_fdesc_def rd8_def)

lemma ucast8_of_nat: "(ucast (of_nat n :: u32) :: u8) = of_nat n"
proof (rule unsigned_word_eqI)
  show "unat (ucast (of_nat n :: u32) :: u8) = unat (of_nat n :: u8)"
    by (simp only: unsigned_ucast_eq unsigned_of_nat of_nat_id take_bit_take_bit) simp
qed

subsection \<open>Filling the arrays\<close>

text \<open>The counters within a function.\<close>

lemma GetInterfaceInfo_eq:
  assumes "wf_fdesc d" "g_fnCntOld c = ci_fnCnt c" "ci_intfs c = di @ replicate m zero_interfaceMgr"
    and "g_intfCnt c = length di" "unat numIntf = length di + m" "g_epCnt c = of_nat ep" "is_intf d \<longrightarrow> 0 < m"
  shows "GetInterfaceInfo dev fa numIntf cfg d c = Some (if is_intf d
    then c\<lparr>ci_intfs := di @ intf_entry dev fa cfg (ci_fnCnt c) ep d # replicate (m - 1) zero_interfaceMgr,
           g_epCnt := of_nat (ep + unat (d ! 4)), g_intfCnt := Suc (length di)\<rparr>
    else c)"
proof (cases "is_intf d")
  case False
  then show ?thesis
    using assms(2) wf_rd(1)[OF assms(1)] wf_rd(2)[OF assms(1), of 4]
    by (auto simp: GetInterfaceInfo_def is_intf_def Let_def)
next
  case True
  then obtain m' where m: "m = Suc m'" using assms(7) gr0_conv_Suc by auto
  have ty: "d ! 1 = USB_DDK_DT_INTERFACE" "d ! 4 \<noteq> 0" using True by (simp_all add: is_intf_def)
  note se = ucast8_of_nat[of ep]
  have ad: "(of_nat ep :: u32) + ucast (d ! 4) = of_nat (ep + unat (d ! 4))"
    by (simp only: ucast_of_nat_unat of_nat_add)
  show ?thesis
    using True assms(2-6) ty m se ad wf_rd(1)[OF assms(1)] wf_rd(2)[OF assms(1) ty(1)]
    by (simp add: GetInterfaceInfo_def Let_def intf_entry_def nth_append list_update_append)
qed

fun ep_after :: "nat \<Rightarrow> descs \<Rightarrow> nat" where
  "ep_after ep [] = ep"
| "ep_after ep (d # ds) = ep_after (if is_intf d then ep + unat (d ! 4) else ep) ds"

lemma create_descs_eq:
  assumes "\<forall>d \<in> set ds. wf_fdesc d" "g_fnCntOld c = ci_fnCnt c" "ci_intfs c = di @ replicate m zero_interfaceMgr"
    and "g_intfCnt c = length di" "unat numIntf = length di + m" "g_epCnt c = of_nat ep" "length (filter is_intf ds) \<le> m"
  shows "create_descs dev fa numIntf cfg ds c = Some (c\<lparr>
    ci_intfs := di @ func_intfs dev fa cfg (ci_fnCnt c) ep ds @ replicate (m - length (filter is_intf ds)) zero_interfaceMgr,
    g_epCnt := of_nat (ep_after ep ds), g_intfCnt := length di + length (filter is_intf ds)\<rparr>)"
  using assms
proof (induction ds arbitrary: c di m ep)
  case Nil
  then show ?case by (cases c) simp
next
  case (Cons d ds)
  have d: "wf_fdesc d" "\<forall>d \<in> set ds. wf_fdesc d" "is_intf d \<longrightarrow> 0 < m" using Cons.prems(1,7) by auto
  note info = GetInterfaceInfo_eq[OF d(1) Cons.prems(2-6) d(3)]
  show ?case
  proof (cases "is_intf d")
    case True
    let ?e = "intf_entry dev fa cfg (ci_fnCnt c) ep d"
    let ?c = "c\<lparr>ci_intfs := di @ ?e # replicate (m - 1) zero_interfaceMgr,
           g_epCnt := of_nat (ep + unat (d ! 4)), g_intfCnt := Suc (length di)\<rparr>"
    have "ci_intfs ?c = (di @ [?e]) @ replicate (m - 1) zero_interfaceMgr" "g_intfCnt ?c = length (di @ [?e])"
      "g_fnCntOld ?c = ci_fnCnt ?c" "unat numIntf = length (di @ [?e]) + (m - 1)" "g_epCnt ?c = of_nat (ep + unat (d ! 4))"
      "length (filter is_intf ds) \<le> m - 1"
      using Cons.prems True d(3) by auto
    note ih = Cons.IH[OF d(2) this(3,1,2,4,5,6)]
    have "create_descs dev fa numIntf cfg (d # ds) c = create_descs dev fa numIntf cfg ds ?c"
      unfolding create_descs.simps info using True by (simp only: if_True bind.bind_lunit)
    with ih True show ?thesis by simp
  next
    case False
    then show ?thesis using info Cons.IH[OF d(2) Cons.prems(2-6)] Cons.prems(7) by simp
  qed
qed

text \<open>Between functions: the counter of endpoints is reset by the first descriptor of the next function.\<close>

definition between :: "ci_state \<Rightarrow> bool" where
  "between c \<longleftrightarrow> g_fnCntOld c \<le> ci_fnCnt c \<and> (g_fnCntOld c = ci_fnCnt c \<longrightarrow> g_epCnt c = 1)"

definition begin_func :: "ci_state \<Rightarrow> ci_state" where
  "begin_func c = (if g_fnCntOld c \<noteq> ci_fnCnt c then c\<lparr>g_fnCntOld := ci_fnCnt c, g_epCnt := 1\<rparr> else c)"

lemma GetInterfaceInfo_begin: "GetInterfaceInfo dev fa numIntf cfg d (begin_func c) = GetInterfaceInfo dev fa numIntf cfg d c"
  by (simp add: GetInterfaceInfo_def begin_func_def Let_def)

lemma create_descs_begin:
  "ds \<noteq> [] \<Longrightarrow> create_descs dev fa numIntf cfg ds (begin_func c) = create_descs dev fa numIntf cfg ds c"
  by (cases ds) (simp_all add: GetInterfaceInfo_begin)

lemma create_descs_func:
  assumes "\<forall>d \<in> set ds. wf_fdesc d" "between c" "ci_intfs c = di @ replicate m zero_interfaceMgr"
    and "g_intfCnt c = length di" "unat numIntf = length di + m" "length (filter is_intf ds) \<le> m"
  shows "\<exists>c'. create_descs dev fa numIntf cfg ds c = Some c' \<and> ci_funcs c' = ci_funcs c \<and> ci_fnCnt c' = ci_fnCnt c \<and>
    ci_intfs c' = (di @ func_intfs dev fa cfg (ci_fnCnt c) 1 ds) @ replicate (m - length (filter is_intf ds)) zero_interfaceMgr \<and>
    g_intfCnt c' = length (di @ func_intfs dev fa cfg (ci_fnCnt c) 1 ds) \<and> g_fnCntOld c' \<le> ci_fnCnt c'"
proof (cases "ds = []")
  case True
  then show ?thesis using assms by (simp add: between_def)
next
  case False
  have b: "g_fnCntOld (begin_func c) = ci_fnCnt (begin_func c)" "ci_intfs (begin_func c) = di @ replicate m zero_interfaceMgr"
    "g_intfCnt (begin_func c) = length di" "g_epCnt (begin_func c) = of_nat 1"
    "ci_funcs (begin_func c) = ci_funcs c" "ci_fnCnt (begin_func c) = ci_fnCnt c"
    using assms(2-4) by (auto simp: begin_func_def between_def)
  show ?thesis
    using create_descs_eq[OF assms(1) b(1-3) assms(5) b(4) assms(6), of dev fa cfg] b(1,5,6)
      create_descs_begin[OF False, of dev fa numIntf cfg c]
    by (simp add: func_intfs_length)
qed

lemma intf_table_Cons: "intf_table dev fa n ((v, f) # xs) = func_intfs dev fa v n 1 (func_descs f) @ intf_table dev fa (Suc n) xs"
  by (simp add: intf_table_def)

lemma intf_table_append: "intf_table dev fa n (xs @ ys) = intf_table dev fa n xs @ intf_table dev fa (n + length xs) ys"
  by (simp add: intf_table_def enumerate_append_eq)

lemma intf_table_Nil [simp]: "intf_table dev fa n [] = []"
  by (simp add: intf_table_def)

text \<open>What is filled, and what is left, before function \<open>n\<close>.\<close>

definition filled :: "ptr \<Rightarrow> ptr \<Rightarrow> u8 \<Rightarrow> UsbFnFuncMgr list \<Rightarrow> nat \<Rightarrow> UsbFnInterfaceMgr list \<Rightarrow> nat \<Rightarrow> ci_state \<Rightarrow> bool" where
  "filled dev fa numIntf df mf di mi c \<longleftrightarrow> ci_funcs c = df @ replicate mf zero_funcMgr \<and> ci_fnCnt c = length df \<and>
     ci_intfs c = di @ replicate mi zero_interfaceMgr \<and> g_intfCnt c = length di \<and> unat numIntf = length di + mi \<and> between c"

lemma create_funcs_eq:
  assumes "filled dev fa numIntf df mf di mi c" "xs = map (Pair cfg) (filter generic_func fs)" "\<forall>x \<in> set xs. gen_ok x"
    and "length xs \<le> mf" "length (intf_table dev fa (length df) xs) \<le> mi"
  shows "\<exists>c'. create_funcs dev fa numIntf cfg fs c = Some (True, c') \<and>
    filled dev fa numIntf (df @ func_table dev xs) (mf - length xs)
      (di @ intf_table dev fa (length df) xs) (mi - length (intf_table dev fa (length df) xs)) c'"
  using assms
proof (induction fs arbitrary: c df mf di mi xs)
  case Nil
  then show ?case by (simp add: func_table_def)
next
  case (Cons f fs)
  show ?case
  proof (cases "generic_func f")
    case False
    then show ?thesis using Cons.IH[OF Cons.prems(1) _ Cons.prems(3-5)] Cons.prems(2) by simp
  next
    case True
    define ys where "ys = map (Pair cfg) (filter generic_func fs)"
    have xs: "xs = (cfg, f) # ys" using Cons.prems(2) True by (simp add: ys_def)
    let ?ds = "func_descs f"
    have ok: "fsDescriptors f = Some ?ds" "\<forall>d \<in> set ?ds. wf_fdesc d" "fits MAX_NAMELEN (funcName f)" "\<forall>x \<in> set ys. gen_ok x"
      using Cons.prems(3) xs by (auto simp: gen_ok_def func_descs_def split: option.splits)
    obtain mf' where mf: "mf = Suc mf'" using Cons.prems(4) xs by (cases mf) auto
    let ?c = "c\<lparr>ci_funcs := df @ func_entry dev f # replicate mf' zero_funcMgr\<rparr>"
    let ?t = "func_intfs dev fa cfg (length df) 1 ?ds"
    have fl: "between ?c" "ci_intfs ?c = di @ replicate mi zero_interfaceMgr" "g_intfCnt ?c = length di"
       "unat numIntf = length di + mi" "ci_fnCnt ?c = length df"
      using Cons.prems(1) by (simp_all add: filled_def between_def)
    have room: "length (filter is_intf ?ds) \<le> mi" "length (intf_table dev fa (Suc (length df)) ys) \<le> mi - length (filter is_intf ?ds)"
      using Cons.prems(5) by (simp_all add: xs intf_table_Cons func_intfs_length)
    obtain c1 where c1: "create_descs dev fa numIntf cfg ?ds ?c = Some c1" "ci_funcs c1 = ci_funcs ?c" "ci_fnCnt c1 = length df"
      "ci_intfs c1 = (di @ ?t) @ replicate (mi - length (filter is_intf ?ds)) zero_interfaceMgr"
      "g_intfCnt c1 = length (di @ ?t)" "g_fnCntOld c1 \<le> ci_fnCnt c1"
      using create_descs_func[OF ok(2) fl(1-4) room(1), of dev fa cfg] fl(5) by auto
    have step: "create_funcs dev fa numIntf cfg (f # fs) c =
        create_funcs dev fa numIntf cfg fs (c1\<lparr>ci_fnCnt := Suc (length df)\<rparr>)"
      using True ok(1,3) c1(1,3) Cons.prems(1) mf
      by (simp add: filled_def nth_append list_update_append func_entry_def Let_def)
    have "filled dev fa numIntf (df @ [func_entry dev f]) mf' (di @ ?t) (mi - length (filter is_intf ?ds))
        (c1\<lparr>ci_fnCnt := Suc (length df)\<rparr>)"
      using c1 fl(4) room(1) by (simp add: filled_def between_def func_intfs_length)
    from Cons.IH[OF this ys_def ok(4)] step room(2) Cons.prems(4) show ?thesis
      by (simp add: xs mf func_table_def intf_table_Cons func_intfs_length)
  qed
qed

lemma create_configs_eq:
  assumes "filled dev fa numIntf df mf di mi c" "\<forall>x \<in> set (generics gs). gen_ok x"
    and "length (generics gs) \<le> mf" "length (intf_table dev fa (length df) (generics gs)) \<le> mi"
  shows "\<exists>c'. create_configs dev fa numIntf gs c = Some c' \<and>
    ci_funcs c' = df @ func_table dev (generics gs) @ replicate (mf - length (generics gs)) zero_funcMgr \<and>
    ci_intfs c' = di @ intf_table dev fa (length df) (generics gs) @
      replicate (mi - length (intf_table dev fa (length df) (generics gs))) zero_interfaceMgr"
  using assms
proof (induction gs arbitrary: c df mf di mi)
  case Nil
  then show ?case by (simp add: generics_def func_table_def filled_def)
next
  case (Cons g gs)
  define xs where "xs = map (Pair (configurationValue g)) (filter generic_func (fc_functions g))"
  have gen: "generics (g # gs) = xs @ generics gs" by (simp add: generics_def xs_def)
  have fl: "length (func_table dev xs) = length xs" by (simp add: func_table_def)
  let ?t = "intf_table dev fa (length df) xs"
  have pre: "\<forall>x \<in> set xs. gen_ok x" "length xs \<le> mf" "length ?t \<le> mi"
    using Cons.prems(2-4) by (auto simp: gen intf_table_append)
  obtain c1 where c1: "create_funcs dev fa numIntf (configurationValue g) (fc_functions g) c = Some (True, c1)"
    "filled dev fa numIntf (df @ func_table dev xs) (mf - length xs) (di @ ?t) (mi - length ?t) c1"
    using create_funcs_eq[OF Cons.prems(1) xs_def pre] by blast
  have "\<forall>x \<in> set (generics gs). gen_ok x" "length (generics gs) \<le> mf - length xs"
    "length (intf_table dev fa (length (df @ func_table dev xs)) (generics gs)) \<le> mi - length ?t"
    using Cons.prems(2-4) by (auto simp: gen intf_table_append fl)
  from Cons.IH[OF c1(2) this] c1(1) show ?case
    by (simp add: gen intf_table_append fl) (simp add: func_table_def)
qed

subsection \<open>The room that is counted\<close>

definition intf_count :: "(u8 \<times> UsbFnFunction) list \<Rightarrow> nat" where
  "intf_count xs = sum_list (map (\<lambda>x. length (filter is_intf (func_descs (snd x)))) xs)"

lemma intf_table_length: "length (intf_table dev fa n xs) = intf_count xs"
proof (induction xs arbitrary: n)
  case (Cons x xs)
  then show ?case by (cases x) (simp add: intf_table_Cons func_intfs_length intf_count_def)
qed (simp add: intf_count_def)

lemma GetInterfaceNum_eq:
  assumes "\<forall>d \<in> set ds. wf_fdesc d"
  shows "GetInterfaceNum ds num = Some (num + of_nat (length (filter is_intf ds)))"
  using assms
proof (induction ds arbitrary: num)
  case (Cons d ds)
  then have "wf_fdesc d" by simp
  note rd = wf_rd(1)[OF this] wf_rd(2)[OF this, of 4]
  show ?case
    using Cons rd by (cases "d ! 1 = USB_DDK_DT_INTERFACE") (auto simp: is_intf_def word_gt_0 add.assoc)
qed simp

lemma count_funcs_eq:
  assumes "xs = map (Pair cfg) (filter generic_func fs)" "\<forall>x \<in> set xs. gen_ok x"
  shows "count_funcs fs (nf, ni) = Some (nf + of_nat (length xs), ni + of_nat (intf_count xs))"
  using assms
proof (induction fs arbitrary: nf ni xs)
  case (Cons f fs)
  show ?case
  proof (cases "generic_func f")
    case True
    define ys where "ys = map (Pair cfg) (filter generic_func fs)"
    have xs: "xs = (cfg, f) # ys" using Cons.prems(1) True by (simp add: ys_def)
    have ok: "fsDescriptors f = Some (func_descs f)" "\<forall>d \<in> set (func_descs f). wf_fdesc d" "\<forall>x \<in> set ys. gen_ok x"
      using Cons.prems(2) xs by (auto simp: gen_ok_def func_descs_def split: option.splits)
    show ?thesis
      using True ok(1) Cons.IH[OF ys_def ok(3)] GetInterfaceNum_eq[OF ok(2), of 0]
        ucast8_of_nat[of "length (filter is_intf (func_descs f))"]
      by (simp add: xs intf_count_def add.assoc)
  qed (use Cons in simp)
qed (simp add: intf_count_def)

lemma count_configs_eq:
  assumes "\<forall>x \<in> set (generics gs). gen_ok x"
  shows "count_configs gs (nf, ni) = Some (nf + of_nat (length (generics gs)), ni + of_nat (intf_count (generics gs)))"
  using assms
proof (induction gs arbitrary: nf ni)
  case (Cons g gs)
  define xs where "xs = map (Pair (configurationValue g)) (filter generic_func (fc_functions g))"
  have gen: "generics (g # gs) = xs @ generics gs" by (simp add: generics_def xs_def)
  show ?case
    using count_funcs_eq[OF xs_def, of nf ni] Cons by (simp add: gen intf_count_def add.assoc)
qed (simp add: generics_def intf_count_def)

subsection \<open>Properties\<close>

definition table_ok :: "UsbFnConfiguration list \<Rightarrow> bool" where
  "table_ok gs \<longleftrightarrow> (\<forall>x \<in> set (generics gs). gen_ok x) \<and> length (generics gs) < 256 \<and>
     0 < intf_count (generics gs) \<and> intf_count (generics gs) < 256"

text \<open>Filling the arrays of a device that are still zero.\<close>

lemma CreateInterface_fill:
  assumes "g_fdevs s dev = Some d" "dm_funcMgr d = Some fa" "dm_interfaceMgr d = Some ia" "fn_configs des = Some gs" "table_ok gs"
    and "dm_numInterfaces d = of_nat (intf_count (generics gs))"
    and "g_intfs s ia = Some (replicate (intf_count (generics gs)) zero_interfaceMgr)" "g_funcs s fa = Some (replicate (length (generics gs)) zero_funcMgr)"
  shows "CreateInterface des dev s = Some (s\<lparr>g_funcs := (g_funcs s)(fa \<mapsto> func_table dev (generics gs)),
     g_intfs := (g_intfs s)(ia \<mapsto> intf_table dev fa 0 (generics gs))\<rparr>)"
proof -
  let ?xs = "generics gs" and ?ni = "of_nat (intf_count (generics gs)) :: u8"
  let ?c = "\<lparr>ci_funcs = replicate (length ?xs) zero_funcMgr, ci_intfs = replicate (intf_count ?xs) zero_interfaceMgr, g_intfCnt = 0,
     g_epCnt = 1, g_fnCntOld = 0, ci_fnCnt = 0\<rparr>"
  have n: "unat ?ni = intf_count ?xs" using assms(5) by (intro unat_of_nat_small) (simp add: table_ok_def)
  have "filled dev fa ?ni [] (length ?xs) [] (intf_count ?xs) ?c" using n by (simp add: filled_def between_def)
  from create_configs_eq[OF this, of gs] obtain c where "create_configs dev fa ?ni gs ?c = Some c"
    "ci_funcs c = func_table dev ?xs" "ci_intfs c = intf_table dev fa 0 ?xs"
    using assms(5) by (auto simp: intf_table_length table_ok_def)
  then show ?thesis using assms by (simp add: CreateInterface_def)
qed

text \<open>
  C26. The table of interfaces is the one the description says.  For every description whose descriptors are
  complete, with at most 255 generic functions and at most 255 interfaces, the room that is counted and
  allocated is filled exactly: one entry per interface descriptor with endpoints of an enabled generic
  function, in order, with its data, its configuration, its function, and as first endpoint one plus the number of
  endpoints of the earlier interfaces of the same function; and one entry per function.
  Nothing is written outside the arrays.
\<close>

theorem CreateInterface_table:
  assumes "mem_quiet K s" "g_fdevs s dev = Some d" "numFunc d = 0" "dm_numInterfaces d = 0" "fn_configs des = Some gs" "table_ok gs"
  shows "\<exists>s1 s2 ia fa. AllocInterfaceAndFuncMgr K dev des s = Some (HDF_SUCCESS, s1) \<and> CreateInterface des dev s1 = Some s2 \<and>
    g_fdevs s2 dev = Some (d\<lparr>numFunc := of_nat (length (generics gs)), dm_numInterfaces := of_nat (intf_count (generics gs)),
       dm_interfaceMgr := Some ia, dm_funcMgr := Some fa\<rparr>) \<and>
    g_intfs s2 ia = Some (intf_table dev fa 0 (generics gs)) \<and> g_funcs s2 fa = Some (func_table dev (generics gs))"
proof -
  let ?xs = "generics gs"
  define nf :: u8 where "nf = of_nat (length ?xs)"
  define ni :: u8 where "ni = of_nat (intf_count ?xs)"
  have ok: "\<forall>x \<in> set ?xs. gen_ok x" using assms(6) by (simp add: table_ok_def)
  have n: "unat nf = length ?xs" "unat ni = intf_count ?xs"
    unfolding nf_def ni_def using assms(6) by (intro unat_of_nat_small; simp add: table_ok_def)+
  then have ni0: "ni \<noteq> 0" using assms(6) by (auto simp: table_ok_def)
  let ?ia = "nextAddr (g_mem s)" and ?fa = "nextAddr (g_mem s) + 1"
  let ?d = "d\<lparr>numFunc := nf, dm_numInterfaces := ni, dm_interfaceMgr := Some ?ia, dm_funcMgr := Some ?fa\<rparr>"
  have cnt: "count_configs gs (numFunc d, dm_numInterfaces d) = Some (nf, ni)"
    using count_configs_eq[OF ok, of 0 0] assms(3,4) by (simp add: nf_def ni_def)
  obtain s1 where al: "AllocInterfaceAndFuncMgr K dev des s = Some (HDF_SUCCESS, s1)" "g_fdevs s1 dev = Some ?d"
    "g_intfs s1 ?ia = Some (replicate (unat ni) zero_interfaceMgr)" "g_funcs s1 ?fa = Some (replicate (unat nf) zero_funcMgr)"
    using assms(1,2,5) cnt ni0 by (simp add: AllocInterfaceAndFuncMgr_def galloc_off mem_quiet_def Let_def)
  have "CreateInterface des dev s1 = Some (s1\<lparr>g_funcs := (g_funcs s1)(?fa \<mapsto> func_table dev ?xs),
     g_intfs := (g_intfs s1)(?ia \<mapsto> intf_table dev ?fa 0 ?xs)\<rparr>)"
    using CreateInterface_fill[OF al(2), of ?fa ?ia des gs] al(3,4) assms(5,6) n ni_def by simp
  then show ?thesis using al(1,2) unfolding nf_def ni_def by auto
qed

text \<open>A device with a serial function of two interfaces and a second function that is not enabled.\<close>

definition ex_acm :: UsbFnFunction where
  "ex_acm = \<lparr>fn_enable = True, funcName = ''f_generic.a'', fn_strings = [\<lparr>us_language = 0x409, us_strings = [[65]]\<rparr>], fsDescriptors =
     Some [[8, 11, 4, 2, 2, 2, 1, 0], [9, 4, 7, 0, 1, 2, 2, 1, 0], [5, 36, 6, 7, 8], [7, 5, 0x81, 3, 8, 0, 10],
           [9, 4, 8, 0, 2, 10, 0, 0, 0], [7, 5, 0x82, 2, 0, 2, 0], [7, 5, 0x02, 2, 0, 2, 0]],
     hsDescriptors = Some [], ssDescriptors = Some [], sspDescriptors = None\<rparr>"

definition ex_configs :: "UsbFnConfiguration list" where
  "ex_configs = [\<lparr>configurationValue = 1, iConfiguration = 0, fc_attributes = 0xC0, maxPower = 500,
     fc_functions = [ex_acm\<lparr>funcName := ''f_generic.e'', fn_enable := False\<rparr>, ex_acm]\<rparr>]"

definition ex_des :: UsbFnDeviceDesc where
  "ex_des = \<lparr>deviceDesc = None, deviceStrings = None, fn_configs = Some ex_configs, fn_blocks = None\<rparr>"

lemma ex_generics: "generics ex_configs = [(1, ex_acm)]"
  by (simp add: generics_def ex_configs_def generic_func_def has_prefix_def FUNCTION_GENERIC_def ex_acm_def)

lemma ex_table_ok: "table_ok ex_configs"
  unfolding table_ok_def ex_generics
  by (simp add: gen_ok_def func_descs_def ex_acm_def wf_fdesc_def intf_count_def is_intf_def fits_def MAX_NAMELEN_def)

theorem CreateInterface_table_witness:
  "\<exists>s1 s2 ia fa is. AllocInterfaceAndFuncMgr null_fn_os 5 ex_des ((null_gadget ())\<lparr>g_fdevs := [5 \<mapsto> zero_deviceMgr]\<rparr>) = Some (HDF_SUCCESS, s1) \<and>
    CreateInterface ex_des 5 s1 = Some s2 \<and> g_intfs s2 ia = Some is \<and> map startEpId is = [1, 2] \<and>
    map (xi_index \<circ> im_info) is = [7, 8] \<and> g_funcs s2 fa = Some [func_entry 5 ex_acm]"
proof -
  let ?s = "(null_gadget ())\<lparr>g_fdevs := [5 \<mapsto> zero_deviceMgr]\<rparr>"
  have "mem_quiet null_fn_os ?s" by (simp add: mem_quiet_def null_fn_os_def null_gadget_def mem_ok_def)
  from CreateInterface_table[OF this, of 5 zero_deviceMgr ex_des ex_configs] ex_table_ok
  obtain s1 s2 ia fa where s: "AllocInterfaceAndFuncMgr null_fn_os 5 ex_des ?s = Some (HDF_SUCCESS, s1)"
    "CreateInterface ex_des 5 s1 = Some s2" "g_intfs s2 ia = Some (intf_table 5 fa 0 (generics ex_configs))"
    "g_funcs s2 fa = Some (func_table 5 (generics ex_configs))"
    by (auto simp: zero_deviceMgr_def ex_des_def)
  moreover have "map startEpId (intf_table 5 fa 0 (generics ex_configs)) = [1, 2]"
    "map (xi_index \<circ> im_info) (intf_table 5 fa 0 (generics ex_configs)) = [7, 8]"
    unfolding ex_generics by (simp_all add: intf_table_Cons func_descs_def ex_acm_def is_intf_def intf_entry_def)
  moreover have "func_table 5 (generics ex_configs) = [func_entry 5 ex_acm]"
    unfolding ex_generics by (simp add: func_table_def)
  ultimately show ?thesis
    by (intro exI[of _ s1] exI[of _ s2] exI[of _ ia] exI[of _ fa] exI[of _ "intf_table 5 fa 0 (generics ex_configs)"]) simp
qed

subsection \<open>Renumbering\<close>

text \<open>Descriptors long enough for the bytes that are changed.\<close>

definition wf_change :: "u8 list \<Rightarrow> bool" where
  "wf_change d \<longleftrightarrow> 3 \<le> length d \<and> (d ! 1 = USB_DDK_DT_CS_INTERFACE \<and> d ! 0 = 5 \<longrightarrow> 5 \<le> length d)"

definition intf_numbers :: "descs \<Rightarrow> u8 list" where
  "intf_numbers ds = map (\<lambda>d. d ! 2) (filter (\<lambda>d. d ! 1 = USB_DDK_DT_INTERFACE) ds)"

text \<open>The bytes that a change never touches: length, type, and everything from the sixth byte on.\<close>

definition shape :: "u8 list \<Rightarrow> nat \<times> u8 \<times> u8 \<times> u8 list" where
  "shape d = (length d, d ! 0, d ! 1, drop 5 d)"

lemmas dt_defs = USB_DDK_DT_INTERFACE_ASSOCIATION_def USB_DDK_DT_CS_INTERFACE_def USB_DDK_CDC_UNION_TYPE_def

lemma change_one:
  assumes "wf_change d"
  obtains d' where "ChangeDescriptorDoSwitch d i = Some (d', if d ! 1 = USB_DDK_DT_INTERFACE then i + 1 else i)"
    "shape d' = shape d" "d ! 1 = USB_DDK_DT_INTERFACE \<longrightarrow> d' ! 2 = i"
    "ChangeDescriptorDoSwitch d' i = Some (d', if d ! 1 = USB_DDK_DT_INTERFACE then i + 1 else i)"
proof -
  have l: "3 \<le> length d" "d \<noteq> []" using assms by (auto simp: wf_change_def)
  have r: "rd8 d 1 = Some (d ! 1)" "rd8 d 0 = Some (d ! 0)" "rd8 d 2 = Some (d ! 2)" using l by (simp_all add: rd8_def)
  consider "d ! 1 = USB_DDK_DT_INTERFACE_ASSOCIATION" | "d ! 1 = USB_DDK_DT_INTERFACE"
    | "d ! 1 = USB_DDK_DT_CS_INTERFACE" "d ! 0 = 5" "d ! 2 = USB_DDK_CDC_UNION_TYPE"
    | "d ! 1 \<noteq> USB_DDK_DT_INTERFACE_ASSOCIATION" "d ! 1 \<noteq> USB_DDK_DT_INTERFACE"
      "\<not> (d ! 1 = USB_DDK_DT_CS_INTERFACE \<and> d ! 0 = 5 \<and> d ! 2 = USB_DDK_CDC_UNION_TYPE)" by blast
  then show thesis
  proof cases
    case 1
    then show ?thesis
      using that[of "d[2 := 0]"] l assms
      by (simp add: ChangeDescriptorDoSwitch_def rd8_def set_byte_def wf_change_def shape_def dt_defs)
  next
    case 2
    then show ?thesis
      using that[of "d[2 := i]"] l assms
      by (simp add: ChangeDescriptorDoSwitch_def rd8_def set_byte_def wf_change_def shape_def dt_defs)
  next
    case 3
    have "d[3 := 0, 4 := 1, 3 := 0, 4 := 1] = d[3 := 0, 4 := 1]"
      by (subst list_update_swap[of 4 3]) simp_all
    with 3 show ?thesis
      using that[of "d[3 := 0, 4 := 1]"] l assms
      by (simp add: ChangeDescriptorDoSwitch_def rd8_def set_byte_def wf_change_def shape_def dt_defs)
  next
    case 4
    then have "ChangeDescriptorDoSwitch d i = Some (d, i)" using r by (auto simp: ChangeDescriptorDoSwitch_def)
    then show ?thesis using that[of d] 4 assms by simp
  qed
qed

lemma change_loop_run:
  assumes "\<forall>d \<in> set ds. wf_change d"
  shows "\<exists>ds'. change_loop ds i = Some ds' \<and> map shape ds' = map shape ds \<and> change_loop ds' i = Some ds' \<and>
    intf_numbers ds' = map (\<lambda>j. i + of_nat j) [0..<length (intf_numbers ds)]"
  using assms
proof (induction ds arbitrary: i)
  case Nil
  then show ?case by (simp add: intf_numbers_def)
next
  case (Cons d ds)
  let ?i = "if d ! 1 = USB_DDK_DT_INTERFACE then i + 1 else i"
  have "wf_change d" using Cons.prems by simp
  then obtain d' where d': "ChangeDescriptorDoSwitch d i = Some (d', ?i)" "shape d' = shape d"
      "d ! 1 = USB_DDK_DT_INTERFACE \<longrightarrow> d' ! 2 = i" "ChangeDescriptorDoSwitch d' i = Some (d', ?i)"
    by (rule change_one[where i = i])
  obtain ds' where ds': "change_loop ds ?i = Some ds'" "map shape ds' = map shape ds" "change_loop ds' ?i = Some ds'"
      "intf_numbers ds' = map (\<lambda>j. ?i + of_nat j) [0..<length (intf_numbers ds)]"
    using Cons.IH[of ?i] Cons.prems by auto
  have ty: "d' ! 1 = d ! 1" using d'(2) by (simp add: shape_def)
  have "[0..<Suc n] = 0 # map Suc [0..<n]" for n by (simp add: upt_conv_Cons map_Suc_upt del: upt_Suc)
  then have "intf_numbers (d' # ds') = map (\<lambda>j. i + of_nat j) [0..<length (intf_numbers (d # ds))]"
    using ds'(4) d'(3) ty by (simp add: intf_numbers_def add.assoc del: upt_Suc)
  then show ?case using d'(1,2,4) ds'(1-3) by (intro exI[of _ "d' # ds'"]) simp
qed



end
