(* ===== verification/Usbfn_Tree.thy ===== *)
theory Usbfn_Tree
  imports Usbfn_Build Usbfn_Table
begin

text \<open>
  What the configuration file system holds after a device has been built in it, for a kernel that does what it is asked.
\<close>

subsection \<open>A kernel that does what it is asked\<close>

datatype cfs_op =
    Wrote string string
  | Linked string string
  | Ran string
  | NewFunction string
  | Sent "u8 list"

definition clear_cmd :: "string \<Rightarrow> string" where
  "clear_cmd path = ''echo '' @ [CHR 0x22, CHR 0x22] @ '' > '' @ path"

text \<open>The content of a file after some operations.\<close>

definition content :: "string \<Rightarrow> cfs_op list \<Rightarrow> string" where
  "content p ops = foldl (\<lambda>c x. case x of Wrote q d \<Rightarrow> if q = p then d else c | Ran cmd \<Rightarrow> if cmd = clear_cmd p then [] else c | _ \<Rightarrow> c) [] ops"

lemma content_snoc:
  "content p (ops @ [Wrote p d]) = d" "content p (ops @ [Ran (clear_cmd p)]) = []"
  by (simp_all add: content_def)

text \<open>
  \<open>tr\<close> are the operations so far and \<open>dirs\<close> the directories that exist.  Reading a file gives its content; a directory lists no
  generic function that is left over from before.
\<close>

definition step :: "('k \<Rightarrow> cfs_op list) \<Rightarrow> ('k \<Rightarrow> string set) \<Rightarrow> 'k \<Rightarrow> cfs_op list \<Rightarrow> 'k \<Rightarrow> bool" where
  "step tr dirs k ops k' \<longleftrightarrow> tr k' = tr k @ ops \<and> dirs k \<subseteq> dirs k'"

definition obliging :: "'k fn_os \<Rightarrow> ('k \<Rightarrow> cfs_op list) \<Rightarrow> ('k \<Rightarrow> string set) \<Rightarrow> bool" where
  "obliging K tr dirs \<longleftrightarrow>
     (\<forall>p k. \<exists>d k'. fo_opendir K p k = (d, k') \<and> (d \<noteq> None \<longleftrightarrow> p \<in> dirs k) \<and> step tr dirs k [] k' \<and>
        (\<forall>names. d = Some names \<longrightarrow> (\<forall>n \<in> set names. \<not> has_prefix FUNCTION_GENERIC n))) \<and>
     (\<forall>p k. \<exists>k'. fo_mkdir K p k = (0, k') \<and> step tr dirs k [] k' \<and> p \<in> dirs k') \<and>
     (\<forall>p q k. \<exists>k'. fo_symlink K p q k = (0, k') \<and> step tr dirs k [Linked p q] k') \<and>
     (\<forall>p w k. \<exists>k'. fo_fopen K p w k = (True, k') \<and> step tr dirs k [] k') \<and>
     (\<forall>p d k. \<exists>k'. fo_fwrite K p d k = (True, k') \<and> step tr dirs k [Wrote p d] k') \<and>
     (\<forall>p n k. \<exists>k'. fo_fread K p n k = (take n (content p (tr k)), k') \<and> step tr dirs k [] k') \<and>
     (\<forall>p k. \<exists>k'. fo_fclose K p k = (True, k') \<and> step tr dirs k [] k') \<and>
     (\<forall>c k. step tr dirs k [Ran c] (fo_system K c k)) \<and>
     (\<forall>f n k. \<exists>k'. fo_newfn K f n k = (0, k') \<and> step tr dirs k [NewFunction n] k') \<and>
     (\<forall>p k. \<exists>f k'. fo_open K p k = (f, k') \<and> 0 < f \<and> step tr dirs k [] k') \<and>
     (\<forall>f k. \<exists>k'. fo_close K f k = (0, k') \<and> step tr dirs k [] k') \<and>
     (\<forall>f b k. \<exists>n k'. fo_write K f b k = (n, k') \<and> 0 \<le> n \<and> step tr dirs k [Sent b] k')"

lemma step_trans: "step tr dirs k a k1 \<Longrightarrow> step tr dirs k1 b k2 \<Longrightarrow> step tr dirs k (a @ b) k2"
  by (auto simp: step_def)

lemma step_refl: "step tr dirs k [] k"
  by (simp add: step_def)

lemma step_nil: "step tr dirs k [] k1 \<Longrightarrow> step tr dirs k1 b k2 \<Longrightarrow> step tr dirs k b k2"
  using step_trans[of tr dirs k "[]" k1 b k2] by simp

lemma step_in: "step tr dirs k a k1 \<Longrightarrow> p \<in> dirs k \<Longrightarrow> p \<in> dirs k1"
  by (auto simp: step_def)

lemma obliging_ops:
  assumes "obliging K tr dirs"
  shows "\<exists>d k'. fo_opendir K p k = (d, k') \<and> (d \<noteq> None \<longleftrightarrow> p \<in> dirs k) \<and> step tr dirs k [] k' \<and>
      (\<forall>names. d = Some names \<longrightarrow> (\<forall>n \<in> set names. \<not> has_prefix FUNCTION_GENERIC n))"
    and "\<exists>k'. fo_mkdir K p k = (0, k') \<and> step tr dirs k [] k' \<and> p \<in> dirs k'"
    and "\<exists>k'. fo_symlink K p q k = (0, k') \<and> step tr dirs k [Linked p q] k'"
    and "\<exists>k'. fo_fopen K p w k = (True, k') \<and> step tr dirs k [] k'"
    and "\<exists>k'. fo_fwrite K p d k = (True, k') \<and> step tr dirs k [Wrote p d] k'"
    and "\<exists>k'. fo_fread K p m k = (take m (content p (tr k)), k') \<and> step tr dirs k [] k'"
    and "\<exists>k'. fo_fclose K p k = (True, k') \<and> step tr dirs k [] k'"
    and "step tr dirs k [Ran c] (fo_system K c k)"
    and "\<exists>k'. fo_newfn K f n k = (0, k') \<and> step tr dirs k [NewFunction n] k'"
    and "\<exists>f k'. fo_open K p k = (f, k') \<and> 0 < f \<and> step tr dirs k [] k'"
    and "\<exists>k'. fo_close K f k = (0, k') \<and> step tr dirs k [] k'"
    and "\<exists>n k'. fo_write K f b k = (n, k') \<and> 0 \<le> n \<and> step tr dirs k [Sent b] k'"
  using assms unfolding obliging_def by simp_all

text \<open>A call on the kernel that succeeds and does \<open>ops\<close>.\<close>

definition did :: "('k \<Rightarrow> cfs_op list) \<Rightarrow> ('k \<Rightarrow> string set) \<Rightarrow> 'k \<Rightarrow> cfs_op list \<Rightarrow> ret \<times> 'k \<Rightarrow> bool" where
  "did tr dirs k ops q \<longleftrightarrow> (\<exists>k'. q = (HDF_SUCCESS, k') \<and> step tr dirs k ops k')"

lemma didE:
  assumes "did tr dirs k ops q"
  obtains k' where "q = (HDF_SUCCESS, k')" "step tr dirs k ops k'"
  using assms by (auto simp: did_def)

lemma did_nil: "step tr dirs k [] k1 \<Longrightarrow> did tr dirs k1 ops q \<Longrightarrow> did tr dirs k ops q"
  by (auto simp: did_def intro: step_nil)

lemma did_append: "step tr dirs k a k1 \<Longrightarrow> did tr dirs k1 b q \<Longrightarrow> did tr dirs k (a @ b) q"
  by (auto simp: did_def intro: step_trans)

subsection \<open>Files\<close>

definition wr :: "string \<Rightarrow> string \<Rightarrow> cfs_op list" where
  "wr p d = (if d = [] then [] else [Wrote p d])"

lemma IsDirExist_did:
  assumes "obliging K tr dirs"
  shows "\<exists>k'. IsDirExist K p k = (p \<in> dirs k, k') \<and> step tr dirs k [] k'"
  using obliging_ops(1)[OF assms, of p k] by (auto simp: IsDirExist_def)

lemma ensure_dir_did:
  assumes "obliging K tr dirs"
  shows "\<exists>k'. ensure_dir K p k = (True, k') \<and> step tr dirs k [] k' \<and> p \<in> dirs k'"
proof -
  obtain k1 where 1: "IsDirExist K p k = (p \<in> dirs k, k1)" "step tr dirs k [] k1" using IsDirExist_did[OF assms, of p k] by blast
  obtain k2 where 2: "fo_mkdir K p k1 = (0, k2)" "step tr dirs k1 [] k2" "p \<in> dirs k2" using obliging_ops(2)[OF assms, of p k1] by blast
  show ?thesis
    using 1 2 step_nil[OF 1(2) 2(2)] step_in[OF 1(2)] by (cases "p \<in> dirs k") (auto simp: ensure_dir_def)
qed

lemma WriteFile_did:
  assumes "obliging K tr dirs"
  shows "did tr dirs k (wr p d) (UsbFnWriteFile K p d k)"
proof -
  obtain k1 where 1: "fo_fopen K p True k = (True, k1)" "step tr dirs k [] k1" using obliging_ops(4)[OF assms, of p True k] by blast
  obtain k2 where 2: "fo_fwrite K p d k1 = (True, k2)" "step tr dirs k1 [Wrote p d] k2" using obliging_ops(5)[OF assms, of p d k1] by blast
  obtain k3 where 3: "fo_fclose K p k2 = (True, k3)" "step tr dirs k2 [] k3" using obliging_ops(7)[OF assms, of p k2] by blast
  have "step tr dirs k [Wrote p d] k3" using step_trans[OF step_nil[OF 1(2) 2(2)] 3(2)] by simp
  then show ?thesis using 1 2 3 by (simp add: UsbFnWriteFile_def did_def wr_def step_refl)
qed

lemma WriteProp_did:
  assumes "obliging K tr dirs" "fits MAX_PATHLEN (dev_path dev [n])"
  shows "did tr dirs k [Wrote (dev_path dev [n]) (''0x'' @ hex_string (unat v))] (UsbFnWriteProp K dev n v k)"
  using WriteFile_did[OF assms(1), of k "dev_path dev [n]" "''0x'' @ hex_string (unat v)"] assms(2)
  by (simp add: UsbFnWriteProp_def wr_def)

lemma write_string_did:
  assumes "obliging K tr dirs" "fits MAX_PATHLEN dir" "fits MAX_PATHLEN (dir @ join_path [n])"
  shows "did tr dirs k (wr (dir @ join_path [n]) v) (write_string K dir n v k)"
proof -
  obtain k1 where 1: "ensure_dir K dir k = (True, k1)" "step tr dirs k [] k1" using ensure_dir_did[OF assms(1), of dir k] by blast
  show ?thesis
    using did_nil[OF 1(2) WriteFile_did[OF assms(1)]] 1(1) assms(2,3) by (simp add: write_string_def)
qed

subsection \<open>Lengths of paths\<close>

lemma dec_length: "n < 10 ^ Suc m \<Longrightarrow> length (dec_string n) \<le> Suc m"
proof (induction m arbitrary: n)
  case 0
  then show ?case by (subst dec_string.simps) simp
next
  case (Suc m)
  then have "length (dec_string (n div 10)) \<le> Suc m" by (intro Suc.IH) (simp add: less_mult_imp_div_less)
  then show ?case by (subst dec_string.simps) simp
qed

lemma hex_length: "n < 16 ^ Suc m \<Longrightarrow> length (hex_string n) \<le> Suc m"
proof (induction m arbitrary: n)
  case 0
  then show ?case by (subst hex_string.simps) simp
next
  case (Suc m)
  then have "length (hex_string (n div 16)) \<le> Suc m" by (intro Suc.IH) (simp add: less_mult_imp_div_less)
  then show ?case by (subst hex_string.simps) simp
qed

lemma name_lengths: "length (conf_name v) \<le> 5" "length (lang_name l) \<le> 6"
proof -
  have "unat v < 2 ^ 8" "unat l < 2 ^ 16" using unsigned_less[of v] unsigned_less[of l] by simp_all
  then show "length (conf_name v) \<le> 5" "length (lang_name l) \<le> 6"
    using dec_length[of "unat v" 2] hex_length[of "unat l" 3] by (simp_all add: conf_name_def lang_name_def)
qed

lemma path_length: "length (dev_path dev xs) = 18 + length (join_path (dev # xs))"
  by (simp add: dev_path_def CONFIGFS_DIR_def)

lemma join_length [simp]: "length (join_path []) = 0" "length (join_path (x # xs)) = 1 + length x + length (join_path xs)"
  by (simp_all add: join_path_def slash_def)

lemmas path_fits = fits_def MAX_PATHLEN_def path_length join_length

subsection \<open>The description of a device\<close>

definition ids_trace :: "string \<Rightarrow> (string \<times> u32) list \<Rightarrow> cfs_op list" where
  "ids_trace dev ps = map (\<lambda>(n, v). Wrote (dev_path dev [n]) (''0x'' @ hex_string (unat v))) ps"

definition lang_trace :: "string \<Rightarrow> (string \<times> u8) list \<Rightarrow> UsbFnStrings \<Rightarrow> cfs_op list" where
  "lang_trace dev xs u = concat (map (\<lambda>(n, i). wr (dev_path dev [''strings'', lang_name (us_language u)] @ join_path [n])
     (text_of (us_strings u ! unat i))) xs)"

lemma write_props_did:
  assumes "obliging K tr dirs" "\<forall>x \<in> set ps. fits MAX_PATHLEN (dev_path dev [fst x])"
  shows "did tr dirs k (ids_trace dev ps) (write_props K dev ps k)"
  using assms(2)
proof (induction ps arbitrary: k)
  case Nil
  then show ?case by (simp add: did_def ids_trace_def step_refl)
next
  case (Cons x ps)
  obtain n v where x: "x = (n, v)" by fastforce
  obtain k1 where 1: "UsbFnWriteProp K dev n v k = (HDF_SUCCESS, k1)" "step tr dirs k [Wrote (dev_path dev [n]) (''0x'' @ hex_string (unat v))] k1"
    using WriteProp_did[OF assms(1), of dev n k v] Cons.prems x by (auto elim: didE)
  show ?case
    using did_append[OF 1(2) Cons.IH] 1(1) Cons.prems x by (simp add: ids_trace_def)
qed

lemma write_des_strings_did:
  assumes "obliging K tr dirs" "strs_ok [u] xs" "length dev \<le> 3" "\<forall>x \<in> set xs. length (fst x) \<le> 20"
  shows "\<exists>q. write_des_strings K dev u xs k = Some q \<and> did tr dirs k (lang_trace dev xs u) q"
  using assms(2,4)
proof (induction xs arbitrary: k)
  case Nil
  then show ?case by (simp add: did_def lang_trace_def step_refl)
next
  case (Cons x xs)
  obtain n i where x: "x = (n, i)" by fastforce
  let ?dir = "dev_path dev [''strings'', lang_name (us_language u)]" and ?t = "text_of (us_strings u ! unat i)"
  have i: "string_at u (unat i) = Some ?t" using Cons.prems(1) x by (simp add: strs_ok_def string_at_def)
  have "fits MAX_PATHLEN ?dir" "fits MAX_PATHLEN (?dir @ join_path [n])"
    using name_lengths(2)[of "us_language u"] assms(3) Cons.prems(2) x by (simp_all add: path_fits)
  then obtain k1 where 1: "UsbFnWriteDesString K dev (us_language u) n ?t k = (HDF_SUCCESS, k1)" "step tr dirs k (wr (?dir @ join_path [n]) ?t) k1"
    using write_string_did[OF assms(1), of ?dir n k ?t] by (auto simp: UsbFnWriteDesString_def elim: didE)
  obtain q where "write_des_strings K dev u xs k1 = Some q" "did tr dirs k1 (lang_trace dev xs u) q"
    using Cons.IH[of k1] Cons.prems by (auto simp: strs_ok_def)
  then show ?case using did_append[OF 1(2)] 1(1) i x by (simp add: lang_trace_def)
qed

lemma write_des_langs_did:
  assumes "obliging K tr dirs" "strs_ok us xs" "length dev \<le> 3" "\<forall>x \<in> set xs. length (fst x) \<le> 20"
  shows "\<exists>q. write_des_langs K dev xs us k = Some q \<and> did tr dirs k (concat (map (lang_trace dev xs) us)) q"
  using assms(2)
proof (induction us arbitrary: k)
  case Nil
  then show ?case by (simp add: did_def step_refl)
next
  case (Cons u us)
  obtain q1 where q1: "write_des_strings K dev u xs k = Some q1" "did tr dirs k (lang_trace dev xs u) q1"
    using write_des_strings_did[OF assms(1) _ assms(3,4), of u k] Cons.prems by (auto simp: strs_ok_def)
  obtain k1 where 1: "q1 = (HDF_SUCCESS, k1)" "step tr dirs k (lang_trace dev xs u) k1" using q1(2) by (rule didE)
  obtain q where "write_des_langs K dev xs us k1 = Some q" "did tr dirs k1 (concat (map (lang_trace dev xs) us)) q"
    using Cons.IH[of k1] Cons.prems by (auto simp: strs_ok_def)
  then show ?case using did_append[OF 1(2)] 1(1) q1(1) by simp
qed

definition desc_trace :: "string \<Rightarrow> UsbDeviceDescriptor \<Rightarrow> UsbFnStrings list \<Rightarrow> cfs_op list" where
  "desc_trace dev d us = ids_trace dev (device_ids d) @ concat (map (lang_trace dev (device_strings d)) us)"

lemma WriteDeviceDescriptor_did:
  assumes "obliging K tr dirs" "strs_ok us (device_strings d)" "length dev \<le> 3"
  shows "\<exists>q. WriteDeviceDescriptor K dev d us k = Some q \<and> did tr dirs k (desc_trace dev d us) q"
proof -
  have "\<forall>x \<in> set (device_ids d). fits MAX_PATHLEN (dev_path dev [fst x])" using assms(3) by (simp add: device_ids_def path_fits)
  then obtain k1 where 1: "WriteDeviceId K dev d k = (HDF_SUCCESS, k1)" "step tr dirs k (ids_trace dev (device_ids d)) k1"
    using write_props_did[OF assms(1), of "device_ids d" dev k] by (auto simp: WriteDeviceId_def elim: didE)
  have "\<forall>x \<in> set (device_strings d). length (fst x) \<le> 20" by (simp add: device_strings_def)
  then obtain q where "write_des_langs K dev (device_strings d) us k1 = Some q" "did tr dirs k1 (concat (map (lang_trace dev (device_strings d)) us)) q"
    using write_des_langs_did[OF assms(1,2,3), of k1] by blast
  then show ?thesis using did_append[OF 1(2)] 1(1) by (simp add: WriteDeviceDescriptor_def desc_trace_def)
qed

subsection \<open>Configurations\<close>

definition conf_dir :: "string \<Rightarrow> UsbFnConfiguration \<Rightarrow> string" where
  "conf_dir dev c = dev_path dev [''configs'', conf_name (configurationValue c)]"

definition power_trace :: "string \<Rightarrow> UsbFnConfiguration \<Rightarrow> cfs_op list" where
  "power_trace dev c = [Wrote (conf_dir dev c @ join_path [''MaxPower'']) (dec_string (unat (maxPower c))),
     Wrote (conf_dir dev c @ join_path [''bmAttributes'']) (''0x'' @ hex_string (unat (fc_attributes c)))]"

definition conf_strings_trace :: "string \<Rightarrow> UsbFnConfiguration \<Rightarrow> UsbFnStrings list \<Rightarrow> cfs_op list" where
  "conf_strings_trace dev c us = concat (map (\<lambda>u. wr (dev_path dev [''configs'', conf_name (configurationValue c), ''strings'',
     lang_name (us_language u)] @ join_path [''configuration'']) (text_of (us_strings u ! unat (iConfiguration c)))) us)"

lemma dec_nonempty: "dec_string n \<noteq> []"
  by (subst dec_string.simps) simp

lemma Power_did:
  assumes "obliging K tr dirs" "length dev \<le> 3"
  shows "did tr dirs k (power_trace dev c) (WriteConfPowerAttributes K dev c (configurationValue c) k)"
proof -
  let ?d = "conf_dir dev c"
  have f: "fits MAX_PATHLEN ?d" "fits MAX_PATHLEN (?d @ join_path [''MaxPower''])" "fits MAX_PATHLEN (?d @ join_path [''bmAttributes''])"
    using name_lengths(1)[of "configurationValue c"] assms(2) by (simp_all add: conf_dir_def path_fits)
  obtain k1 where 1: "ensure_dir K ?d k = (True, k1)" "step tr dirs k [] k1" using ensure_dir_did[OF assms(1), of ?d k] by blast
  let ?a = "Wrote (?d @ join_path [''MaxPower'']) (dec_string (unat (maxPower c)))"
  let ?b = "Wrote (?d @ join_path [''bmAttributes'']) (''0x'' @ hex_string (unat (fc_attributes c)))"
  obtain k2 where 2: "UsbFnWriteFile K (?d @ join_path [''MaxPower'']) (dec_string (unat (maxPower c))) k1 = (HDF_SUCCESS, k2)" "step tr dirs k1 [?a] k2"
    using WriteFile_did[OF assms(1), of k1 "?d @ join_path [''MaxPower'']" "dec_string (unat (maxPower c))"] by (auto simp: wr_def dec_nonempty elim: didE)
  obtain k3 where 3: "UsbFnWriteFile K (?d @ join_path [''bmAttributes'']) (''0x'' @ hex_string (unat (fc_attributes c))) k2 = (HDF_SUCCESS, k3)" "step tr dirs k2 [?b] k3"
    using WriteFile_did[OF assms(1), of k2 "?d @ join_path [''bmAttributes'']" "''0x'' @ hex_string (unat (fc_attributes c))"] by (auto simp: wr_def elim: didE)
  have "step tr dirs k ([?a] @ [?b]) k3" using step_trans[OF step_nil[OF 1(2) 2(2)] 3(2)] .
  then show ?thesis
    using 1(1) 2(1) 3(1) f by (simp add: WriteConfPowerAttributes_def Let_def did_def power_trace_def flip: conf_dir_def)
qed

lemma conf_strings_did:
  assumes "obliging K tr dirs" "\<forall>u \<in> set us. unat (iConfiguration c) < length (us_strings u)" "length dev \<le> 3"
  shows "\<exists>q. write_conf_strings K dev c us k = Some q \<and> did tr dirs k (conf_strings_trace dev c us) q"
  using assms(2)
proof (induction us arbitrary: k)
  case Nil
  then show ?case by (simp add: did_def conf_strings_trace_def step_refl)
next
  case (Cons u us)
  let ?dir = "dev_path dev [''configs'', conf_name (configurationValue c), ''strings'', lang_name (us_language u)]"
  let ?t = "text_of (us_strings u ! unat (iConfiguration c))"
  have "fits MAX_PATHLEN ?dir" "fits MAX_PATHLEN (?dir @ join_path [''configuration''])"
    using name_lengths(1)[of "configurationValue c"] name_lengths(2)[of "us_language u"] assms(3) by (simp_all add: path_fits)
  then obtain k1 where 1: "UsbFnWriteConfString K dev (configurationValue c) (us_language u) ?t k = (HDF_SUCCESS, k1)"
    "step tr dirs k (wr (?dir @ join_path [''configuration'']) ?t) k1"
    using write_string_did[OF assms(1), of ?dir "''configuration''" k ?t] by (auto simp: UsbFnWriteConfString_def elim: didE)
  obtain q where "write_conf_strings K dev c us k1 = Some q" "did tr dirs k1 (conf_strings_trace dev c us) q"
    using Cons.IH[of k1] Cons.prems by auto
  then show ?case
    using did_append[OF 1(2)] 1(1) Cons.prems by (simp add: conf_strings_trace_def string_at_def)
qed

subsection \<open>Functions\<close>

definition link_trace :: "string \<Rightarrow> u8 \<Rightarrow> UsbFnFunction \<Rightarrow> cfs_op" where
  "link_trace dev v f = Linked (dev_path dev [''functions'', funcName f]) (dev_path dev [''configs'', conf_name v, funcName f])"

definition func_blocks :: "UsbFnFunction \<Rightarrow> cfs_op list" where
  "func_blocks f = (case (fsDescriptors f, hsDescriptors f, ssDescriptors f) of
     (Some fs, Some hs, Some ss) \<Rightarrow> [Sent (descs_block fs hs ss), Sent (strings_block (length (us_strings (hd (fn_strings f)))) (fn_strings f))]
   | _ \<Rightarrow> [])"

definition func_trace :: "string \<Rightarrow> u8 \<Rightarrow> UsbFnFunction \<Rightarrow> cfs_op list" where
  "func_trace dev v f =
     (if \<not> has_prefix FUNCTION_GENERIC (funcName f) then [link_trace dev v f]
      else if \<not> fn_enable f then []
      else link_trace dev v f # NewFunction (funcName f) # func_blocks f)"

definition short_name :: "UsbFnFunction \<Rightarrow> bool" where
  "short_name f \<longleftrightarrow> length (funcName f) \<le> 43"

lemma CreatKernelFunc_did:
  assumes "obliging K tr dirs" "short_name f" "length dev \<le> 3"
  shows "did tr dirs k [link_trace dev v f] (CreatKernelFunc K dev f v k)"
proof -
  let ?p = "dev_path dev [''functions'', funcName f]" and ?q = "dev_path dev [''configs'', conf_name v, funcName f]"
  have f: "fits MAX_PATHLEN ?p" "fits MAX_PATHLEN ?q"
    using name_lengths(1)[of v] assms(2,3) by (simp_all add: path_fits short_name_def)
  obtain k1 where 1: "fo_mkdir K ?p k = (0, k1)" "step tr dirs k [] k1" using obliging_ops(2)[OF assms(1), of ?p k] by blast
  obtain k2 where 2: "fo_symlink K ?p ?q k1 = (0, k2)" "step tr dirs k1 [Linked ?p ?q] k2" using obliging_ops(3)[OF assms(1), of ?p ?q k1] by blast
  show ?thesis
    using 1(1) 2(1) f step_nil[OF 1(2) 2(2)] by (simp add: CreatKernelFunc_def UsbFnAdapterCreateFunc_def Let_def did_def link_trace_def)
qed

lemma open_retry_did:
  assumes "obliging K tr dirs"
  shows "\<exists>f k'. open_retry K OPEN_CNT p e k = (f, k') \<and> 0 < f \<and> step tr dirs k [] k'"
proof -
  have n: "OPEN_CNT = Suc 29" by (simp add: OPEN_CNT_def)
  obtain f k' where "fo_open K p k = (f, k')" "0 < f" "step tr dirs k [] k'" using obliging_ops(10)[OF assms, of p k] by blast
  then show ?thesis unfolding n open_retry.simps by simp
qed

lemma CreatInterface_did:
  assumes "obliging K tr dirs" "n \<noteq> []" "length n \<le> 43"
  shows "did tr dirs k [NewFunction n] (UsbFnAdapterCreatInterface K n k)"
proof -
  obtain f k1 where 1: "open_retry K OPEN_CNT USBFN_DEV (-1) k = (f, k1)" "0 < f" "step tr dirs k [] k1" using open_retry_did[OF assms(1), of USBFN_DEV "-1" k] by blast
  obtain k2 where 2: "fo_newfn K f n k1 = (0, k2)" "step tr dirs k1 [NewFunction n] k2" using obliging_ops(9)[OF assms(1), of f n k1] by blast
  obtain k3 where 3: "fo_close K f k2 = (0, k3)" "step tr dirs k2 [] k3" using obliging_ops(11)[OF assms(1), of f k2] by blast
  have "step tr dirs k [NewFunction n] k3" using step_trans[OF step_nil[OF 1(3) 2(2)] 3(2)] by simp
  then show ?thesis
    using 1(1,2) 2(1) 3(1) assms(2,3)
    by (simp add: UsbFnAdapterCreatInterface_def fn_ioctl_def UsbFnAdapterOpenFn_def UsbFnAdapterClosefn_def fits_def MAX_NAMELEN_def did_def)
qed

lemma strings_first: "strings_ok n us \<Longrightarrow> length (us_strings (hd us)) = n"
  by (cases us) (auto simp: strings_ok_def)

lemma CreatPipes_did:
  assumes "obliging K tr dirs" "mem_quiet K s" "pipes_ok f"
  shows "\<exists>t. UsbFnAdapterCreatPipes K ep f s = Some (HDF_SUCCESS, t) \<and> mem_quiet K t \<and> step tr dirs (g_kern s) (func_blocks f) (g_kern t)"
proof -
  obtain fs hs ss n where f: "fsDescriptors f = Some fs" "hsDescriptors f = Some hs" "ssDescriptors f = Some ss"
    "descs_ok fs hs ss" "strings_ok n (fn_strings f)" using assms(3) by (auto simp: pipes_ok_def)
  obtain r1 k1 where 1: "fo_write K ep (descs_block fs hs ss) (g_kern s) = (r1, k1)" "0 \<le> r1" "step tr dirs (g_kern s) [Sent (descs_block fs hs ss)] k1"
    using obliging_ops(12)[OF assms(1), of ep "descs_block fs hs ss" "g_kern s"] by blast
  obtain r2 k2 where 2: "fo_write K ep (strings_block n (fn_strings f)) k1 = (r2, k2)" "0 \<le> r2" "step tr dirs k1 [Sent (strings_block n (fn_strings f))] k2"
    using obliging_ops(12)[OF assms(1), of ep "strings_block n (fn_strings f)" k1] by blast
  obtain t where "UsbFnAdapterCreatPipes K ep f s = Some (HDF_SUCCESS, t)" "g_kern t = k2" "mem_quiet K t"
    using CreatPipes_quiet[OF assms(2) f 1(1) 2(1)] 1(2) 2(2) by auto
  then show ?thesis
    using step_trans[OF 1(3) 2(3)] f strings_first[OF f(5)] by (simp add: func_blocks_def)
qed

lemma CreatFunc_did:
  assumes "obliging K tr dirs" "mem_quiet K s" "pipes_ok f" "short_name f" "funcName f \<noteq> []" "length dev \<le> 3"
  shows "\<exists>t. CreatFunc K dev f v s = Some (HDF_SUCCESS, t) \<and> mem_quiet K t \<and>
    step tr dirs (g_kern s) (link_trace dev v f # NewFunction (funcName f) # func_blocks f) (g_kern t)"
proof -
  let ?n = "funcName f"
  have len: "fits MAX_NAMELEN ?n" "fits MAX_NAMELEN (''/dev/functionfs/'' @ ?n @ ''.ep'' @ dec_string (nat 0))"
    using assms(4) by (simp_all add: short_name_def fits_def MAX_NAMELEN_def dec_string.simps)
  obtain k1 where 1: "CreatKernelFunc K dev f v (g_kern s) = (HDF_SUCCESS, k1)" "step tr dirs (g_kern s) [link_trace dev v f] k1"
    using CreatKernelFunc_did[OF assms(1,4,6), of "g_kern s" v] by (rule didE)
  obtain k2 where 2: "UsbFnAdapterCreatInterface K ?n k1 = (HDF_SUCCESS, k2)" "step tr dirs k1 [NewFunction ?n] k2"
    using CreatInterface_did[OF assms(1,5), of k1] assms(4) by (auto simp: short_name_def elim: didE)
  obtain fd k3 where 3: "open_retry K OPEN_CNT (''/dev/functionfs/'' @ ?n @ ''.ep'' @ dec_string (nat 0)) (-1) k2 = (fd, k3)" "0 < fd" "step tr dirs k2 [] k3"
    using open_retry_did[OF assms(1)] by blast
  have "mem_quiet K (set_fkern k3 s)" using assms(2) by (simp add: mem_quiet_def)
  then obtain t where t: "UsbFnAdapterCreatPipes K fd f (set_fkern k3 s) = Some (HDF_SUCCESS, t)" "mem_quiet K t" "step tr dirs k3 (func_blocks f) (g_kern t)"
    using CreatPipes_did[OF assms(1) _ assms(3), of "set_fkern k3 s" fd] by auto
  obtain k5 where 5: "fo_close K fd (g_kern t) = (0, k5)" "step tr dirs (g_kern t) [] k5" using obliging_ops(11)[OF assms(1), of fd "g_kern t"] by blast
  have op: "UsbFnAdapterOpenPipe K ?n 0 (set_fkern k2 s) = (RetVal fd, set_fkern k3 s)"
    using 3(1,2) len(2) by (simp add: UsbFnAdapterOpenPipe_def Let_def)
  have "CreatFunc K dev f v s = Some (HDF_SUCCESS, set_fkern k5 t)"
    using 1(1) 2(1) op t(1) 5(1) 3(2) len(1) by (simp add: CreatFunc_def Let_def fd_of_def UsbFnAdapterClosePipe_def)
  moreover have "step tr dirs (g_kern s) ([link_trace dev v f] @ ([NewFunction ?n] @ (func_blocks f @ []))) k5"
    using step_trans[OF 1(2) step_trans[OF 2(2) step_nil[OF 3(3) step_trans[OF t(3) 5(2)]]]] .
  ultimately show ?thesis using t(2) by (intro exI[of _ "set_fkern k5 t"]) (simp add: mem_quiet_def)
qed

lemma generic_nonempty: "has_prefix FUNCTION_GENERIC n \<Longrightarrow> n \<noteq> []"
  by (auto simp: has_prefix_def FUNCTION_GENERIC_def)

lemma create_fns_did:
  assumes "obliging K tr dirs" "mem_quiet K s" "\<forall>f \<in> set fs. func_ok f \<and> short_name f" "length dev \<le> 3"
  shows "\<exists>t. create_fns K udc dev v fs s = Some (HDF_SUCCESS, t) \<and> mem_quiet K t \<and>
    step tr dirs (g_kern s) (concat (map (func_trace dev v) fs)) (g_kern t)"
  using assms(2,3)
proof (induction fs arbitrary: s)
  case Nil
  then show ?case by (simp add: step_refl)
next
  case (Cons f fs)
  have sn: "short_name f" "func_ok f" using Cons.prems(2) by simp_all
  have "\<exists>ro t. CreateFun K f dev v s = Some (ro, t) \<and> (ro = None \<or> ro = Some HDF_SUCCESS) \<and> mem_quiet K t \<and>
      step tr dirs (g_kern s) (func_trace dev v f) (g_kern t)"
  proof (cases "has_prefix FUNCTION_GENERIC (funcName f)")
    case False
    obtain k1 where "CreatKernelFunc K dev f v (g_kern s) = (HDF_SUCCESS, k1)" "step tr dirs (g_kern s) [link_trace dev v f] k1"
      using CreatKernelFunc_did[OF assms(1) sn(1) assms(4)] by (rule didE)
    then show ?thesis using False Cons.prems(1) by (simp add: CreateFun_def func_trace_def mem_quiet_def)
  next
    case True
    show ?thesis
    proof (cases "fn_enable f")
      case en: True
      then obtain t where "CreatFunc K dev f v s = Some (HDF_SUCCESS, t)" "mem_quiet K t"
        "step tr dirs (g_kern s) (link_trace dev v f # NewFunction (funcName f) # func_blocks f) (g_kern t)"
        using CreatFunc_did[OF assms(1) Cons.prems(1) _ sn(1) generic_nonempty[OF True] assms(4), of v] sn(2) True by (auto simp: func_ok_def)
      then show ?thesis using True en by (simp add: CreateFun_def func_trace_def)
    qed (use True Cons.prems(1) in \<open>simp add: CreateFun_def func_trace_def step_refl\<close>)
  qed
  then obtain ro t where t: "CreateFun K f dev v s = Some (ro, t)" "ro = None \<or> ro = Some HDF_SUCCESS" "mem_quiet K t"
    "step tr dirs (g_kern s) (func_trace dev v f) (g_kern t)" by blast
  obtain u where u: "create_fns K udc dev v fs t = Some (HDF_SUCCESS, u)" "mem_quiet K u"
    "step tr dirs (g_kern t) (concat (map (func_trace dev v) fs)) (g_kern u)" using Cons.IH[OF t(3)] Cons.prems(2) by auto
  have "create_fns K udc dev v (f # fs) s = Some (HDF_SUCCESS, u)" using t(1,2) u(1) by auto
  then show ?case using u(2) step_trans[OF t(4) u(3)] by auto
qed

definition conf_trace :: "string \<Rightarrow> UsbFnStrings list \<Rightarrow> UsbFnConfiguration \<Rightarrow> cfs_op list" where
  "conf_trace dev us c = power_trace dev c @ conf_strings_trace dev c us @ concat (map (func_trace dev (configurationValue c)) (fc_functions c))"

lemma create_confs_did:
  assumes "obliging K tr dirs" "mem_quiet K s" "\<forall>c \<in> set cs. conf_ok us c \<and> (\<forall>f \<in> set (fc_functions c). short_name f)" "length dev \<le> 3"
  shows "\<exists>t. create_confs K udc dev us cs s = Some (HDF_SUCCESS, t) \<and> mem_quiet K t \<and>
    step tr dirs (g_kern s) (concat (map (conf_trace dev us) cs)) (g_kern t)"
  using assms(2,3)
proof (induction cs arbitrary: s)
  case Nil
  then show ?case by (simp add: step_refl)
next
  case (Cons c cs)
  obtain k1 where 1: "WriteConfPowerAttributes K dev c (configurationValue c) (g_kern s) = (HDF_SUCCESS, k1)" "step tr dirs (g_kern s) (power_trace dev c) k1"
    using Power_did[OF assms(1,4)] by (rule didE)
  obtain q where q: "write_conf_strings K dev c us k1 = Some q" "did tr dirs k1 (conf_strings_trace dev c us) q"
    using conf_strings_did[OF assms(1) _ assms(4), of us c k1] Cons.prems(2) by (auto simp: conf_ok_def)
  obtain k2 where 2: "q = (HDF_SUCCESS, k2)" "step tr dirs k1 (conf_strings_trace dev c us) k2" using q(2) by (rule didE)
  have "mem_quiet K (set_fkern k2 s)" using Cons.prems(1) by (simp add: mem_quiet_def)
  then obtain t where t: "create_fns K udc dev (configurationValue c) (fc_functions c) (set_fkern k2 s) = Some (HDF_SUCCESS, t)" "mem_quiet K t"
    "step tr dirs k2 (concat (map (func_trace dev (configurationValue c)) (fc_functions c))) (g_kern t)"
    using create_fns_did[OF assms(1) _ _ assms(4), of "set_fkern k2 s" "fc_functions c" udc "configurationValue c"] Cons.prems(2) by (auto simp: conf_ok_def)
  obtain u where u: "create_confs K udc dev us cs t = Some (HDF_SUCCESS, u)" "mem_quiet K u" "step tr dirs (g_kern t) (concat (map (conf_trace dev us) cs)) (g_kern u)"
    using Cons.IH[OF t(2)] Cons.prems(2) by auto
  have "step tr dirs (g_kern s) ((power_trace dev c @ conf_strings_trace dev c us @ concat (map (func_trace dev (configurationValue c)) (fc_functions c))) @
      concat (map (conf_trace dev us) cs)) (g_kern u)"
    using step_trans[OF step_trans[OF 1(2) step_trans[OF 2(2) t(3)]] u(3)] .
  then show ?case using 1(1) q(1) 2(1) t(1) u(1,2) by (simp add: conf_trace_def[of dev us c])
qed

subsection \<open>The device\<close>

lemma clean_names_none: "\<forall>n \<in> set names. \<not> has_prefix FUNCTION_GENERIC n \<Longrightarrow> clean_names K dev names k = k"
  by (induction names) auto

lemma CleanDevice_did:
  assumes "obliging K tr dirs"
  shows "step tr dirs k [] (UsbFnAdapterCleanDevice K dev k)"
proof -
  let ?p = "dev_path dev [''functions''] @ slash"
  obtain d k' where "fo_opendir K ?p k = (d, k')" "step tr dirs k [] k'" "\<forall>names. d = Some names \<longrightarrow> (\<forall>n \<in> set names. \<not> has_prefix FUNCTION_GENERIC n)"
    using obliging_ops(1)[OF assms, of ?p k] by blast
  then show ?thesis by (cases d) (simp_all add: UsbFnAdapterCleanDevice_def Let_def step_refl clean_names_none)
qed

lemma ReadFile_did:
  assumes "obliging K tr dirs" "length (take n (content p (tr k))) \<le> length buf"
  shows "\<exists>k'. UsbFnReadFile K p buf n k = Some (HDF_SUCCESS, take n (content p (tr k)) @ drop (length (take n (content p (tr k)))) buf, k') \<and> step tr dirs k [] k'"
proof -
  obtain k1 where 1: "fo_fopen K p False k = (True, k1)" "step tr dirs k [] k1" using obliging_ops(4)[OF assms(1), of p False k] by blast
  obtain k2 where 2: "fo_fread K p n k1 = (take n (content p (tr k1)), k2)" "step tr dirs k1 [] k2" using obliging_ops(6)[OF assms(1), of p n k1] by blast
  obtain k3 where 3: "fo_fclose K p k2 = (True, k3)" "step tr dirs k2 [] k3" using obliging_ops(7)[OF assms(1), of p k2] by blast
  have "tr k1 = tr k" using 1(2) by (simp add: step_def)
  then show ?thesis
    using 1 2 3 assms(2) step_nil[OF 1(2) step_nil[OF 2(2) 3(2)]] by (auto simp: UsbFnReadFile_def Let_def)
qed

text \<open>While the file is empty the controller is not there; once its name is written it is found at once.\<close>

lemma udc_loop_empty:
  assumes "obliging K tr dirs" "content p (tr k) = []" "udc \<noteq> []" "cstr buf = []"
  shows "\<exists>k'. udc_loop K p udc n buf k = Some (False, buf, k') \<and> step tr dirs k [] k'"
  using assms(2)
proof (induction n arbitrary: k)
  case 0
  then show ?case by (simp add: step_refl)
next
  case (Suc n)
  obtain k1 where 1: "UsbFnReadFile K p buf (length udc) k = Some (HDF_SUCCESS, buf, k1)" "step tr dirs k [] k1"
    using ReadFile_did[OF assms(1), of "length udc" p k buf] Suc.prems by auto
  then have "content p (tr k1) = []" using Suc.prems by (simp add: step_def)
  then obtain k2 where "udc_loop K p udc n buf k1 = Some (False, buf, k2)" "step tr dirs k1 [] k2" using Suc.IH by blast
  then show ?case using 1 assms(3,4) step_nil[OF 1(2)] by auto
qed

definition udc_ok :: "string \<Rightarrow> bool" where
  "udc_ok udc \<longleftrightarrow> udc \<noteq> [] \<and> CHR 0x00 \<notin> set udc \<and> length udc \<le> MAX_NAMELEN"

lemma cstr_padded: "CHR 0x00 \<notin> set t \<Longrightarrow> cstr (t @ replicate n (CHR 0x00)) = t"
proof -
  have "takeWhile (\<lambda>c. c \<noteq> CHR 0x00) (replicate n (CHR 0x00)) = []" by (cases n) simp_all
  moreover assume "CHR 0x00 \<notin> set t"
  then have "\<And>c. c \<in> set t \<Longrightarrow> c \<noteq> CHR 0x00" by metis
  ultimately show ?thesis by (simp add: cstr_def takeWhile_append2)
qed

lemma udc_loop_found:
  assumes "obliging K tr dirs" "content p (tr k) = udc" "udc_ok udc"
  shows "\<exists>b k'. udc_loop K p udc OPEN_CNT (replicate MAX_NAMELEN (CHR 0x00)) k = Some (True, b, k') \<and> step tr dirs k [] k'"
proof -
  have n: "OPEN_CNT = Suc 29" by (simp add: OPEN_CNT_def)
  let ?b = "udc @ replicate (MAX_NAMELEN - length udc) (CHR 0x00)"
  obtain k1 where "UsbFnReadFile K p (replicate MAX_NAMELEN (CHR 0x00)) (length udc) k = Some (HDF_SUCCESS, ?b, k1)" "step tr dirs k [] k1"
    using ReadFile_did[OF assms(1), of "length udc" p k "replicate MAX_NAMELEN (CHR 0x00)"] assms(2,3) by (auto simp: udc_ok_def)
  moreover have "cstr ?b = udc" using assms(3) by (simp add: cstr_padded udc_ok_def)
  ultimately show ?thesis unfolding n udc_loop.simps by simp
qed

definition udc_trace :: "string \<Rightarrow> string \<Rightarrow> cfs_op list" where
  "udc_trace udc dev = [Ran (clear_cmd (dev_path dev [''UDC''])), Wrote (dev_path dev [''UDC'']) udc]"

lemma DeviceDir_did:
  assumes "obliging K tr dirs" "length dev \<le> 3" "dev_path dev [] \<in> dirs k"
  shows "\<exists>k'. IsDeviceDirExist K dev k = (True, k') \<and> step tr dirs k [] k'"
proof -
  have "fits MAX_PATHLEN (dev_path dev [])" using assms(2) by (simp add: path_fits)
  then show ?thesis using IsDirExist_did[OF assms(1), of "dev_path dev []" k] assms(3) by (simp add: IsDeviceDirExist_def)
qed

lemma EnableDevice_did:
  assumes "obliging K tr dirs" "length dev \<le> 3" "udc_ok udc" "dev_path dev [] \<in> dirs k"
  shows "\<exists>q. EnableDevice K udc dev des k = Some q \<and> did tr dirs k (udc_trace udc dev) q"
proof -
  let ?p = "dev_path dev [''UDC'']" and ?z = "replicate MAX_NAMELEN (CHR 0x00)"
  have f: "fits MAX_PATHLEN ?p" "fits MAX_PATHLEN (clear_cmd ?p)" using assms(2) by (simp_all add: path_fits clear_cmd_def)
  obtain k1 where 1: "IsDeviceDirExist K dev k = (True, k1)" "step tr dirs k [] k1" using DeviceDir_did[OF assms(1,2,4)] by blast
  define k2 where "k2 = fo_system K (clear_cmd ?p) k1"
  have 2: "step tr dirs k1 [Ran (clear_cmd ?p)] k2" unfolding k2_def by (rule obliging_ops(8)[OF assms(1)])
  have a: "UsbFnAdapterWriteUDC K dev ''none'' False k = Some (HDF_SUCCESS, k2)"
    using 1(1) f by (simp add: UsbFnAdapterWriteUDC_def Let_def k2_def clear_cmd_def)
  have s2: "step tr dirs k [Ran (clear_cmd ?p)] k2" by (rule step_nil[OF 1(2) 2])
  obtain k3 where 3: "IsDeviceDirExist K dev k2 = (True, k3)" "step tr dirs k2 [] k3" using DeviceDir_did[OF assms(1,2) step_in[OF s2 assms(4)]] by blast
  have "content ?p (tr k3) = []" using 3(2) 2 by (simp add: step_def content_snoc)
  moreover have "cstr ?z = []" by (simp add: cstr_def MAX_NAMELEN_def)
  ultimately obtain k4 where 4: "udc_loop K ?p udc (2 * OPEN_CNT) ?z k3 = Some (False, ?z, k4)" "step tr dirs k3 [] k4"
    using udc_loop_empty[OF assms(1), of ?p k3 udc ?z "2 * OPEN_CNT"] assms(3) by (auto simp: udc_ok_def)
  have b: "UsbFnAdapterWaitUDC K dev udc k2 = Some (RetErr HDF_ERR_IO, k4)" using 3(1) 4(1) f by (simp add: UsbFnAdapterWaitUDC_def Let_def)
  have s4: "step tr dirs k [Ran (clear_cmd ?p)] k4" using step_trans[OF s2 step_nil[OF 3(2) 4(2)]] by simp
  obtain k5 where 5: "IsDeviceDirExist K dev k4 = (True, k5)" "step tr dirs k4 [] k5" using DeviceDir_did[OF assms(1,2) step_in[OF s4 assms(4)]] by blast
  obtain k6 where 6: "UsbFnWriteFile K ?p udc k5 = (HDF_SUCCESS, k6)" "step tr dirs k5 [Wrote ?p udc] k6"
    using WriteFile_did[OF assms(1), of k5 ?p udc] assms(3) by (auto simp: wr_def udc_ok_def elim: didE)
  have "content ?p (tr k6) = udc" using 6(2) by (simp add: step_def content_snoc)
  then obtain buf k7 where 7: "udc_loop K ?p udc OPEN_CNT ?z k6 = Some (True, buf, k7)" "step tr dirs k6 [] k7" using udc_loop_found[OF assms(1) _ assms(3)] by blast
  have "UsbFnAdapterWriteUDC K dev udc True k4 = Some (HDF_SUCCESS, k7)" using 5(1) 6(1) 7(1) f by (simp add: UsbFnAdapterWriteUDC_def Let_def)
  moreover have "step tr dirs k ([Ran (clear_cmd ?p)] @ [Wrote ?p udc]) k7"
    using step_trans[OF s4 step_nil[OF 5(2) step_trans[OF 6(2) 7(2)]]] by simp
  ultimately show ?thesis using a b by (simp add: EnableDevice_def did_def udc_trace_def)
qed

definition device_trace :: "string \<Rightarrow> string \<Rightarrow> UsbFnDeviceDesc \<Rightarrow> cfs_op list" where
  "device_trace udc dev des =
     (case (deviceDesc des, deviceStrings des, fn_configs des) of
        (Some d, Some us, Some cs) \<Rightarrow> Linked FFS_ADB FFS_CONFIG # desc_trace dev d us @ concat (map (conf_trace dev us) cs) @ udc_trace udc dev
      | _ \<Rightarrow> [])"

definition short_names :: "UsbFnDeviceDesc \<Rightarrow> bool" where
  "short_names des \<longleftrightarrow> (\<forall>cs. fn_configs des = Some cs \<longrightarrow> (\<forall>c \<in> set cs. \<forall>f \<in> set (fc_functions c). short_name f))"

lemma CreateDevice_did:
  assumes "obliging K tr dirs" "mem_quiet K s" "device_ok des" "short_names des" "udc_ok udc" "length dev \<le> 3"
  shows "\<exists>t. UsbFnAdapterCreateDevice K udc dev des s = Some (HDF_SUCCESS, t) \<and> tr (g_kern t) = tr (g_kern s) @ device_trace udc dev des"
proof -
  obtain d us cs where des: "deviceDesc des = Some d" "deviceStrings des = Some us" "fn_configs des = Some cs"
    "strs_ok us (device_strings d)" "\<forall>c \<in> set cs. conf_ok us c" using assms(3) by (auto simp: device_ok_def)
  obtain k0 where 0: "fo_symlink K FFS_ADB FFS_CONFIG (g_kern s) = (0, k0)" "step tr dirs (g_kern s) [Linked FFS_ADB FFS_CONFIG] k0"
    using obliging_ops(3)[OF assms(1)] by blast
  define k1 where "k1 = UsbFnAdapterCleanDevice K dev k0"
  have 1: "step tr dirs k0 [] k1" unfolding k1_def by (rule CleanDevice_did[OF assms(1)])
  obtain k2 where e: "ensure_dir K (dev_path dev []) k1 = (True, k2)" "step tr dirs k1 [] k2" "dev_path dev [] \<in> dirs k2"
    using ensure_dir_did[OF assms(1), of "dev_path dev []" k1] by blast
  then have 2: "CreatDeviceDir K dev k1 = (HDF_SUCCESS, k2)" using assms(6) by (simp add: CreatDeviceDir_def path_fits)
  obtain q where q: "WriteDeviceDescriptor K dev d us k2 = Some q" "did tr dirs k2 (desc_trace dev d us) q"
    using WriteDeviceDescriptor_did[OF assms(1) des(4) assms(6), of k2] by blast
  obtain k3 where 3: "q = (HDF_SUCCESS, k3)" "step tr dirs k2 (desc_trace dev d us) k3" using q(2) by (rule didE)
  have c: "\<forall>c \<in> set cs. conf_ok us c \<and> (\<forall>f \<in> set (fc_functions c). short_name f)" using des(3,5) assms(4) by (simp add: short_names_def)
  have "mem_quiet K (set_fkern k3 s)" using assms(2) by (simp add: mem_quiet_def)
  then obtain t where t: "create_confs K udc dev us cs (set_fkern k3 s) = Some (HDF_SUCCESS, t)" "step tr dirs k3 (concat (map (conf_trace dev us) cs)) (g_kern t)"
    using create_confs_did[OF assms(1) _ c assms(6), of "set_fkern k3 s" udc] by auto
  have "dev_path dev [] \<in> dirs (g_kern t)" using step_in[OF t(2) step_in[OF 3(2) e(3)]] .
  then obtain q4 where q4: "EnableDevice K udc dev des (g_kern t) = Some q4" "did tr dirs (g_kern t) (udc_trace udc dev) q4"
    using EnableDevice_did[OF assms(1,6,5)] by blast
  obtain k4 where 4: "q4 = (HDF_SUCCESS, k4)" "step tr dirs (g_kern t) (udc_trace udc dev) k4" using q4(2) by (rule didE)
  have "step tr dirs (g_kern s) ([Linked FFS_ADB FFS_CONFIG] @ desc_trace dev d us @ concat (map (conf_trace dev us) cs) @ udc_trace udc dev) k4"
    using step_trans[OF 0(2) step_nil[OF 1 step_nil[OF e(2) step_trans[OF 3(2) step_trans[OF t(2) 4(2)]]]]] .
  then have "tr k4 = tr (g_kern s) @ device_trace udc dev des" using des(1-3) by (simp add: step_def device_trace_def)
  moreover have "UsbFnAdapterCreateDevice K udc dev des s = Some (HDF_SUCCESS, set_fkern k4 t)"
    using 0(1) 2 q(1) 3(1) t(1) q4(1) 4(1) des(1-3) by (simp add: UsbFnAdapterCreateDevice_def Let_def k1_def)
  ultimately show ?thesis by (intro exI[of _ "set_fkern k4 t"]) simp
qed


subsection \<open>An example\<close>

text \<open>A kernel that records the operations and the directories.\<close>

definition tree_os :: "(cfs_op list \<times> string set) fn_os" where
  "tree_os = null_fn_os\<lparr>fo_opendir := (\<lambda>p k. (if p \<in> snd k then Some [] else None, k)), fo_mkdir := (\<lambda>p k. (0, (fst k, insert p (snd k)))),
     fo_symlink := (\<lambda>p q k. (0, (fst k @ [Linked p q], snd k))), fo_fopen := (\<lambda>p w k. (True, k)),
     fo_fwrite := (\<lambda>p d k. (True, (fst k @ [Wrote p d], snd k))), fo_fread := (\<lambda>p n k. (take n (content p (fst k)), k)),
     fo_fclose := (\<lambda>p k. (True, k)), fo_system := (\<lambda>c k. (fst k @ [Ran c], snd k)), fo_newfn := (\<lambda>f n k. (0, (fst k @ [NewFunction n], snd k))),
     fo_open := (\<lambda>p k. (3, k)), fo_close := (\<lambda>f k. (0, k)), fo_write := (\<lambda>f b k. (int (length b), (fst k @ [Sent b], snd k)))\<rparr>"

definition ex_full_des :: UsbFnDeviceDesc where
  "ex_full_des = ex_des\<lparr>deviceDesc := Some \<lparr>v_bLength = 18, v_bDescriptorType = 1, v_bcdUSB = 0x200, v_bDeviceClass = 0, v_bDeviceSubClass = 0,
     v_bDeviceProtocol = 0, v_bMaxPacketSize0 = 64, v_idVendor = 0x12D1, v_idProduct = 0x5000, v_bcdDevice = 0x223, v_iManufacturer = 1,
     v_iProduct = 2, v_iSerialNumber = 0, v_bNumConfigurations = 1\<rparr>,
     deviceStrings := Some [\<lparr>us_language = 0x409, us_strings = [[], [77], [80]]\<rparr>]\<rparr>"

lemma tree_obliging: "obliging tree_os fst snd"
  by (auto simp: obliging_def tree_os_def null_fn_os_def step_def)

lemma tree_deletable: "deletable tree_os"
  by (simp add: deletable_def DelConfigDevice_def DeleteFile_def IsDir_def tree_os_def null_fn_os_def)

lemma tree_quiet: "mem_quiet tree_os (null_gadget k)"
  by (simp add: mem_quiet_def tree_os_def null_fn_os_def null_gadget_def mem_ok_def)

lemma ex_acm_pipes: "pipes_ok ex_acm"
proof -
  have "strings_ok 1 (fn_strings ex_acm)" by (simp add: ex_acm_def strings_ok_def strings_block_def lang_block_def Let_def)
  moreover have "descs_ok (the (fsDescriptors ex_acm)) [] []" by (simp add: ex_acm_def descs_ok_def desc_ok_def descs_body_def speed_count_def)
  ultimately show ?thesis by (auto simp: pipes_ok_def) (auto simp: ex_acm_def)
qed

lemma ex_device_ok: "device_ok ex_full_des" "short_names ex_full_des"
  using ex_acm_pipes
  by (simp_all add: device_ok_def short_names_def ex_full_des_def ex_des_def ex_configs_def strs_ok_def device_strings_def conf_ok_def func_ok_def short_name_def)
    (simp_all add: ex_acm_def)


end
