(* ===== verification/Usbfn_Hcs_Read.thy ===== *)
theory Usbfn_Hcs_Read
  imports Usbfn_Open
begin

text \<open>
  What the configuration manager reads is what the resource tree says, and what a release gives back.
\<close>

subsection \<open>Descriptors in the tree\<close>

text \<open>The fields of the descriptors in the order of their bytes, by the type and the length of the descriptor; other types are plain bytes.\<close>

datatype desc_field = F8 string | F16 string | F32 string

definition desc_layout :: "u8 \<Rightarrow> u8 \<Rightarrow> desc_field list option" where
  "desc_layout ty len =
     map_option (append [F8 ''bLength'', F8 ''bDescriptorType''])
     (if ty = 4 then Some [F8 ''bInterfaceNumber'', F8 ''bAlternateSetting'', F8 ''bNumEndpoints'', F8 ''bInterfaceClass'', F8 ''bInterfaceSubClass'',
          F8 ''bInterfaceProtocol'', F8 ''iInterface'']
      else if ty = 5 then Some ([F8 ''bEndpointAddress'', F8 ''bmAttributes'', F16 ''wMaxPacketSize'', F8 ''bInterval''] @
          (if len = 9 then [F8 ''bRefresh'', F8 ''bSynchAddress''] else []))
      else if ty = 3 then Some [F16 ''wData'']
      else if ty = 0x0B then Some [F8 ''bFirstInterface'', F8 ''bInterfaceCount'', F8 ''bFunctionClass'', F8 ''bFunctionSubClass'', F8 ''bFunctionProtocol'', F8 ''iFunction'']
      else if ty = 0x31 then Some [F16 ''wReseved'', F32 ''dwBytesPerInterval'']
      else if ty = 0x30 then Some [F8 ''bMaxBurst'', F8 ''bmAttributes'', F16 ''wBytesPerInterval'']
      else if ty = 6 then Some [F16 ''bcdUSB'', F8 ''bDeviceClass'', F8 ''bDeviceSubClass'', F8 ''bDeviceProtocol'', F8 ''bMaxPacketSize0'', F8 ''bNumConfigurations'']
      else if ty = 9 then Some (F8 ''bmAttributes'' # (if len = 5 then [F16 ''bcdUSB''] else []))
      else if ty = 0x0A then Some [F8 ''bDebugInEndpoint'', F8 ''bDebugOutEndpoint'']
      else if ty = 0x0C \<or> ty = 0x0E then Some [F16 ''wTotalLength'', F8 ''bNumEncryptionTypes'']
      else None)"

fun field_bytes :: "drs_ops \<Rightarrow> nat \<Rightarrow> desc_field \<Rightarrow> u8 list option" where
  "field_bytes D n (F8 name) = map_option (\<lambda>v. [v]) (dr_uint8 D n name)"
| "field_bytes D n (F16 name) = map_option le16_bytes (dr_uint16 D n name)"
| "field_bytes D n (F32 name) = map_option le32_bytes (dr_uint32 D n name)"

fun spell :: "drs_ops \<Rightarrow> nat \<Rightarrow> desc_field list \<Rightarrow> u8 list option" where
  "spell D n [] = Some []"
| "spell D n (f # fs) = do { x \<leftarrow> field_bytes D n f; r \<leftarrow> spell D n fs; Some (x @ r) }"

text \<open>The bytes that a node of the tree describes: its fields, padded with zeros to its length.\<close>

definition desc_spelled :: "drs_ops \<Rightarrow> nat \<Rightarrow> u8 \<Rightarrow> u8 \<Rightarrow> u8 list \<Rightarrow> bool" where
  "desc_spelled D n ty len b \<longleftrightarrow> dr_uint8 D n ''bLength'' = Some len \<and> dr_uint8 D n ''bDescriptorType'' = Some ty \<and> length b = unat len \<and>
     (case desc_layout ty len of
        Some fs \<Rightarrow> (case spell D n fs of None \<Rightarrow> False | Some bs \<Rightarrow> length bs \<le> unat len \<and> b = bs @ replicate (unat len - length bs) 0)
      | None \<Rightarrow> dr_uint8s D n ''desc_data'' (unat len) = Some b \<and> b \<noteq> [] \<and> hd b = len)"

lemma le16_len [simp]: "length (le16_bytes v) = 2"
  by (simp add: le16_bytes_def)

lemma le32_len [simp]: "length (le32_bytes v) = 4"
  by (simp add: le32_bytes_def)

text \<open>A run of byte fields at consecutive offsets.\<close>

fun runs :: "nat \<Rightarrow> string list \<Rightarrow> (string \<times> nat) list" where
  "runs i [] = []"
| "runs i (x # xs) = (x, i) # runs (Suc i) xs"

lemma read_run:
  assumes "spell D n (map F8 names) = Some vs" "length pre = i"
  shows "read_fields D n (runs i names) (pre @ replicate (length names) 0 @ suf) = Some (True, pre @ vs @ suf)"
  using assms
proof (induction names arbitrary: i pre vs)
  case (Cons x xs)
  from Cons.prems(1) obtain v r where v: "dr_uint8 D n x = Some v" "spell D n (map F8 xs) = Some r" "vs = v # r"
    by (auto simp: bind_eq_Some_conv)
  have "read_fields D n (runs (Suc i) xs) ((pre @ [v]) @ replicate (length xs) 0 @ suf) = Some (True, (pre @ [v]) @ r @ suf)"
    using Cons.prems(2) by (intro Cons.IH[OF v(2)]) simp
  then show ?case using v Cons.prems(2) by (simp add: wrn_def)
qed simp

lemma spell_len: "spell D n (map F8 names) = Some vs \<Longrightarrow> length vs = length names"
  by (induction names arbitrary: vs) (auto simp: bind_eq_Some_conv)

lemma spell_append: "spell D n (xs @ ys) = do { a \<leftarrow> spell D n xs; b \<leftarrow> spell D n ys; Some (a @ b) }"
  by (induction xs) (simp_all add: bind_assoc)

lemma spell_head:
  assumes "spell D n (F8 ''bLength'' # F8 ''bDescriptorType'' # fs) = Some bs"
  obtains l ty r where "dr_uint8 D n ''bLength'' = Some l" "dr_uint8 D n ''bDescriptorType'' = Some ty" "spell D n fs = Some r" "bs = l # ty # r"
  using assms by (auto simp: bind_eq_Some_conv)

text \<open>The types that consist of byte fields only.\<close>

lemma read_bytes:
  assumes "spell D n (map F8 names) = Some bs" "fs = runs 0 names"
  shows "read_fields D n fs (replicate (length bs + k) 0) = Some (True, bs @ replicate k 0)"
  using read_run[OF assms(1), of "[]" 0 "replicate k 0"] spell_len[OF assms(1)] assms(2) by (simp add: replicate_add)

lemmas parse_defs = with_value_def and_then_def store_field_def wrn_def rd8_def

lemma parse_interface:
  assumes "spell D n (map F8 [''bLength'', ''bDescriptorType'', ''bInterfaceNumber'', ''bAlternateSetting'', ''bNumEndpoints'', ''bInterfaceClass'', ''bInterfaceSubClass'',
          ''bInterfaceProtocol'', ''iInterface'']) = Some bs"
  shows "UsbFnCfgMgrParseInterfaceDesc D n (replicate (length bs + k) 0) = Some (True, bs @ replicate k 0)"
  unfolding UsbFnCfgMgrParseInterfaceDesc_def by (rule read_bytes[OF assms]) simp

lemma parse_assoc:
  assumes "spell D n (map F8 [''bLength'', ''bDescriptorType'', ''bFirstInterface'', ''bInterfaceCount'', ''bFunctionClass'', ''bFunctionSubClass'', ''bFunctionProtocol'', ''iFunction'']) = Some bs"
  shows "UsbFnCfgMgrParseAccocInterfaceDesc D n (replicate (length bs + k) 0) = Some (True, bs @ replicate k 0)"
  unfolding UsbFnCfgMgrParseAccocInterfaceDesc_def by (rule read_bytes[OF assms]) simp

lemma parse_debug:
  assumes "spell D n (map F8 [''bLength'', ''bDescriptorType'', ''bDebugInEndpoint'', ''bDebugOutEndpoint'']) = Some bs"
  shows "UsbFnCfgMgrParseDebugDesc D n (replicate (length bs + k) 0) = Some (True, bs @ replicate k 0)"
  unfolding UsbFnCfgMgrParseDebugDesc_def by (rule read_bytes[OF assms]) simp

lemma parse_endpoint:
  assumes "spell D n ([F8 ''bLength'', F8 ''bDescriptorType'', F8 ''bEndpointAddress'', F8 ''bmAttributes'', F16 ''wMaxPacketSize'', F8 ''bInterval''] @
          (if dr_uint8 D n ''bLength'' = Some 9 then [F8 ''bRefresh'', F8 ''bSynchAddress''] else [])) = Some bs"
  shows "UsbFnCfgMgrParseEndpointDesc D n (replicate (length bs + k) 0) = Some (True, bs @ replicate k 0)"
proof -
  obtain l ty a m x i r where v: "dr_uint8 D n ''bLength'' = Some l" "dr_uint8 D n ''bDescriptorType'' = Some ty" "dr_uint8 D n ''bEndpointAddress'' = Some a"
    "dr_uint8 D n ''bmAttributes'' = Some m" "dr_uint16 D n ''wMaxPacketSize'' = Some x" "dr_uint8 D n ''bInterval'' = Some i"
    "spell D n (if l = 9 then [F8 ''bRefresh'', F8 ''bSynchAddress''] else []) = Some r" "bs = [l, ty, a, m] @ le16_bytes x @ [i] @ r"
    using assms by (auto simp: bind_eq_Some_conv)
  have z: "replicate (length bs + k) (0 :: u8) = [0, 0, 0, 0, 0, 0, 0] @ replicate (length r + k) 0" unfolding v(8) by simp
  obtain x1 x2 where x: "le16_bytes x = [x1, x2]" by (simp add: le16_bytes_def)
  show ?thesis
  proof (cases "l = 9")
    case True
    then obtain f y where "dr_uint8 D n ''bRefresh'' = Some f" "dr_uint8 D n ''bSynchAddress'' = Some y" "r = [f, y]" using v(7) by (auto simp: bind_eq_Some_conv)
    then show ?thesis using True v(1-6) x unfolding z v(8) by (simp add: UsbFnCfgMgrParseEndpointDesc_def parse_defs)
  next
    case False
    then have "r = []" using v(7) by simp
    then show ?thesis using False v(1-6) x unfolding z v(8) by (simp add: UsbFnCfgMgrParseEndpointDesc_def parse_defs)
  qed
qed

lemma parse_string:
  assumes "spell D n [F8 ''bLength'', F8 ''bDescriptorType'', F16 ''wData''] = Some bs"
  shows "UsbFnCfgMgrParseStringDesc D n (replicate (length bs + k) 0) = Some (True, bs @ replicate k 0)"
proof -
  obtain l ty x where v: "dr_uint8 D n ''bLength'' = Some l" "dr_uint8 D n ''bDescriptorType'' = Some ty" "dr_uint16 D n ''wData'' = Some x" "bs = [l, ty] @ le16_bytes x"
    using assms by (auto simp: bind_eq_Some_conv)
  have z: "replicate (length bs + k) (0 :: u8) = [0, 0, 0, 0] @ replicate k 0" unfolding v(4) by (simp add: replicate_add numeral_eq_Suc)
  obtain x1 x2 where x: "le16_bytes x = [x1, x2]" by (simp add: le16_bytes_def)
  show ?thesis using v(1-3) x unfolding z v(4) by (simp add: UsbFnCfgMgrParseStringDesc_def parse_defs)
qed

lemma parse_ssp:
  assumes "spell D n [F8 ''bLength'', F8 ''bDescriptorType'', F16 ''wReseved'', F32 ''dwBytesPerInterval''] = Some bs"
  shows "UsbFnCfgMgrParseSspIsocEndpointDesc D n (replicate (length bs + k) 0) = Some (True, bs @ replicate k 0)"
proof -
  obtain l ty x y where v: "dr_uint8 D n ''bLength'' = Some l" "dr_uint8 D n ''bDescriptorType'' = Some ty" "dr_uint16 D n ''wReseved'' = Some x"
    "dr_uint32 D n ''dwBytesPerInterval'' = Some y" "bs = [l, ty] @ le16_bytes x @ le32_bytes y" using assms by (auto simp: bind_eq_Some_conv)
  have z: "replicate (length bs + k) (0 :: u8) = [0, 0, 0, 0, 0, 0, 0, 0] @ replicate k 0" unfolding v(5) by (simp add: replicate_add numeral_eq_Suc)
  obtain x1 x2 where x: "le16_bytes x = [x1, x2]" by (simp add: le16_bytes_def)
  obtain y1 y2 y3 y4 where y: "le32_bytes y = [y1, y2, y3, y4]" by (simp add: le32_bytes_def)
  show ?thesis using v(1-4) x y unfolding z v(5) by (simp add: UsbFnCfgMgrParseSspIsocEndpointDesc_def parse_defs)
qed

lemma parse_ss:
  assumes "spell D n [F8 ''bLength'', F8 ''bDescriptorType'', F8 ''bMaxBurst'', F8 ''bmAttributes'', F16 ''wBytesPerInterval''] = Some bs"
  shows "UsbFnCfgMgrParseSsEndpointDesc D n (replicate (length bs + k) 0) = Some (True, bs @ replicate k 0)"
proof -
  obtain l ty a m x where v: "dr_uint8 D n ''bLength'' = Some l" "dr_uint8 D n ''bDescriptorType'' = Some ty" "dr_uint8 D n ''bMaxBurst'' = Some a"
    "dr_uint8 D n ''bmAttributes'' = Some m" "dr_uint16 D n ''wBytesPerInterval'' = Some x" "bs = [l, ty, a, m] @ le16_bytes x" using assms by (auto simp: bind_eq_Some_conv)
  have z: "replicate (length bs + k) (0 :: u8) = [0, 0, 0, 0, 0, 0] @ replicate k 0" unfolding v(6) by (simp add: replicate_add numeral_eq_Suc)
  obtain x1 x2 where x: "le16_bytes x = [x1, x2]" by (simp add: le16_bytes_def)
  show ?thesis using v(1-5) x unfolding z v(6) by (simp add: UsbFnCfgMgrParseSsEndpointDesc_def parse_defs)
qed

lemma parse_qualifier:
  assumes "spell D n [F8 ''bLength'', F8 ''bDescriptorType'', F16 ''bcdUSB'', F8 ''bDeviceClass'', F8 ''bDeviceSubClass'', F8 ''bDeviceProtocol'', F8 ''bMaxPacketSize0'',
      F8 ''bNumConfigurations''] = Some bs"
  shows "UsbFnCfgMgrParseQualifierDesc D n (replicate (length bs + k) 0) = Some (True, bs @ replicate k 0)"
proof -
  obtain l ty x a b c d e where v: "dr_uint8 D n ''bLength'' = Some l" "dr_uint8 D n ''bDescriptorType'' = Some ty" "dr_uint16 D n ''bcdUSB'' = Some x"
    "dr_uint8 D n ''bDeviceClass'' = Some a" "dr_uint8 D n ''bDeviceSubClass'' = Some b" "dr_uint8 D n ''bDeviceProtocol'' = Some c"
    "dr_uint8 D n ''bMaxPacketSize0'' = Some d" "dr_uint8 D n ''bNumConfigurations'' = Some e" "bs = [l, ty] @ le16_bytes x @ [a, b, c, d, e]"
    using assms by (auto simp: bind_eq_Some_conv)
  have z: "replicate (length bs + k) (0 :: u8) = [0, 0, 0, 0, 0, 0, 0, 0, 0] @ replicate k 0" unfolding v(9) by (simp add: replicate_add numeral_eq_Suc)
  obtain x1 x2 where x: "le16_bytes x = [x1, x2]" by (simp add: le16_bytes_def)
  show ?thesis using v(1-8) x unfolding z v(9) by (simp add: UsbFnCfgMgrParseQualifierDesc_def parse_defs)
qed

lemma parse_security:
  assumes "spell D n [F8 ''bLength'', F8 ''bDescriptorType'', F16 ''wTotalLength'', F8 ''bNumEncryptionTypes''] = Some bs"
  shows "UsbFnCfgMgrParseSecurityDesc D n (replicate (length bs + k) 0) = Some (True, bs @ replicate k 0)"
proof -
  obtain l ty x a where v: "dr_uint8 D n ''bLength'' = Some l" "dr_uint8 D n ''bDescriptorType'' = Some ty" "dr_uint16 D n ''wTotalLength'' = Some x"
    "dr_uint8 D n ''bNumEncryptionTypes'' = Some a" "bs = [l, ty] @ le16_bytes x @ [a]" using assms by (auto simp: bind_eq_Some_conv)
  have z: "replicate (length bs + k) (0 :: u8) = [0, 0, 0, 0, 0] @ replicate k 0" unfolding v(5) by (simp add: replicate_add numeral_eq_Suc)
  obtain x1 x2 where x: "le16_bytes x = [x1, x2]" by (simp add: le16_bytes_def)
  show ?thesis using v(1-4) x unfolding z v(5) by (simp add: UsbFnCfgMgrParseSecurityDesc_def parse_defs)
qed

lemma parse_otg:
  assumes "spell D n ([F8 ''bLength'', F8 ''bDescriptorType'', F8 ''bmAttributes''] @ (if len = 5 then [F16 ''bcdUSB''] else [])) = Some bs"
  shows "UsbFnCfgMgrParseOtgDesc D n (replicate (length bs + k) 0) len = Some (True, bs @ replicate k 0)"
proof -
  obtain l ty a r where v: "dr_uint8 D n ''bLength'' = Some l" "dr_uint8 D n ''bDescriptorType'' = Some ty" "dr_uint8 D n ''bmAttributes'' = Some a"
    "spell D n (if len = 5 then [F16 ''bcdUSB''] else []) = Some r" "bs = [l, ty, a] @ r" using assms by (auto simp: bind_eq_Some_conv)
  have z: "replicate (length bs + k) (0 :: u8) = [0, 0, 0] @ replicate (length r + k) 0" unfolding v(5) by simp
  show ?thesis
  proof (cases "len = 5")
    case True
    then obtain x where "dr_uint16 D n ''bcdUSB'' = Some x" "r = le16_bytes x" using v(4) by (auto simp: bind_eq_Some_conv)
    moreover obtain x1 x2 where "le16_bytes x = [x1, x2]" by (simp add: le16_bytes_def)
    ultimately show ?thesis using True v(1-3) unfolding z v(5) by (simp add: UsbFnCfgMgrParseOtgDesc_def parse_defs)
  next
    case False
    then show ?thesis using v(1-4) unfolding z v(5) by (simp add: UsbFnCfgMgrParseOtgDesc_def parse_defs)
  qed
qed

lemmas parse_each = parse_interface parse_endpoint parse_string parse_assoc parse_ssp parse_ss parse_qualifier parse_otg parse_debug parse_security

lemma ParseDescriptor_spelled:
  assumes "desc_spelled D n ty len b"
  shows "UsbFnCfgMgrParseDescriptor D n (replicate (unat len) 0) ty len = Some (True, b)"
proof (cases "desc_layout ty len")
  case None
  have ty: "ty \<noteq> 4" "ty \<noteq> 5" "ty \<noteq> 3" "ty \<noteq> 0x0B" "ty \<noteq> 0x31" "ty \<noteq> 0x30" "ty \<noteq> 6" "ty \<noteq> 9" "ty \<noteq> 0x0A" "ty \<noteq> 0x0C" "ty \<noteq> 0x0E"
    using None by (auto simp: desc_layout_def)
  have "b ! 0 = len" "b \<noteq> []" "length b = unat len" "dr_uint8s D n ''desc_data'' (unat len) = Some b"
    using assms None by (auto simp: desc_spelled_def hd_conv_nth)
  then show ?thesis
    by (simp add: UsbFnCfgMgrParseDescriptor_def ty UsbFnCfgMgrParseOtherDesc_def with_value_def and_then_def store_field_def wrn_def rd8_def)
next
  case (Some fs)
  obtain bs where sp: "spell D n fs = Some bs" "length bs \<le> unat len" "b = bs @ replicate (unat len - length bs) 0" "dr_uint8 D n ''bLength'' = Some len"
    using assms Some by (auto simp: desc_spelled_def split: option.splits)
  obtain k where bs: "spell D n fs = Some bs" "b = bs @ replicate k 0" "unat len = length bs + k" "dr_uint8 D n ''bLength'' = Some len"
    using sp le_add_diff_inverse[OF sp(2)] that[of "unat len - length bs"] by simp
  consider "ty = 4" | "ty = 5" | "ty = 3" | "ty = 0x0B" | "ty = 0x31" | "ty = 0x30" | "ty = 6" | "ty = 9" | "ty = 0x0A" | "ty = 0x0C" | "ty = 0x0E"
    using Some by (auto simp: desc_layout_def split: if_splits)
  then show ?thesis using Some bs(1,4) unfolding bs(2,3)
    by cases (simp_all add: UsbFnCfgMgrParseDescriptor_def desc_layout_def parse_each)
qed

subsection \<open>The device in the tree\<close>

text \<open>What a struct with its blocks says, compared with the tree attribute by attribute; the addresses play no role.\<close>

definition at_elem :: "drs_ops \<Rightarrow> nat \<Rightarrow> string \<Rightarrow> (nat \<Rightarrow> 'e \<Rightarrow> bool) \<Rightarrow> nat \<Rightarrow> 'e \<Rightarrow> bool" where
  "at_elem D n name R i x = (case elem_node D n name i of None \<Rightarrow> False | Some c \<Rightarrow> R c x)"

definition reads_elems :: "drs_ops \<Rightarrow> nat \<Rightarrow> string \<Rightarrow> (nat \<Rightarrow> 'e \<Rightarrow> bool) \<Rightarrow> 'e list \<Rightarrow> bool" where
  "reads_elems D n name R xs \<longleftrightarrow> xs \<noteq> [] \<and> dr_elemNum D n name = int (length xs) \<and> (\<forall>i<length xs. at_elem D n name R i (xs ! i))"

definition reads_text :: "drs_ops \<Rightarrow> nat \<Rightarrow> u8 \<times> string \<Rightarrow> bool" where
  "reads_text D n x \<longleftrightarrow> dr_uint8 D n ''id'' = Some (fst x) \<and> dr_string D n ''str'' = Some (snd x)"

definition reads_strings :: "drs_ops \<Rightarrow> nat \<Rightarrow> hcs_strings \<Rightarrow> bool" where
  "reads_strings D n h \<longleftrightarrow> dr_uint16 D n ''language'' = Some (hs_language h) \<and> reads_elems D n ''stringList'' (reads_text D) (hs_list h)"

definition reads_strtab :: "drs_ops \<Rightarrow> nat \<Rightarrow> hcs_strtab \<Rightarrow> bool" where
  "reads_strtab D n t \<longleftrightarrow> reads_elems D n ''stringTabList'' (reads_strings D) (snd t)"

definition reads_desc :: "drs_ops \<Rightarrow> nat \<Rightarrow> ptr \<times> u8 list \<Rightarrow> bool" where
  "reads_desc D n d \<longleftrightarrow>
     (case (dr_uint8 D n ''bLength'', dr_uint8 D n ''bDescriptorType'') of (Some len, Some ty) \<Rightarrow> desc_spelled D n ty len (snd d) | _ \<Rightarrow> False)"

definition reads_descs :: "drs_ops \<Rightarrow> nat \<Rightarrow> string \<Rightarrow> hcs_descs option \<Rightarrow> bool" where
  "reads_descs D n name d \<longleftrightarrow> (case d of None \<Rightarrow> dr_elemNum D n name \<le> 0 | Some ds \<Rightarrow> reads_elems D n name (reads_desc D) (snd ds))"

definition reads_function :: "drs_ops \<Rightarrow> nat \<Rightarrow> hcs_function \<Rightarrow> bool" where
  "reads_function D n f \<longleftrightarrow> dr_string D n ''funcName'' = Some (hf_name f) \<and> reads_strtab D n (hf_strings f) \<and>
     reads_descs D n ''fsDescList'' (hf_fs f) \<and> reads_descs D n ''hsDescList'' (hf_hs f) \<and> reads_descs D n ''ssDescList'' (hf_ss f) \<and> reads_descs D n ''sspDescList'' (hf_ssp f)"

definition reads_config :: "drs_ops \<Rightarrow> nat \<Rightarrow> hcs_config \<Rightarrow> bool" where
  "reads_config D n c \<longleftrightarrow> dr_uint8 D n ''configurationValue'' = Some (hc_value c) \<and> dr_uint8 D n ''iConfiguration'' = Some (hc_index c) \<and>
     dr_uint8 D n ''attributes'' = Some (hc_attributes c) \<and> dr_uint16 D n ''maxPower'' = Some (hc_maxPower c) \<and>
     reads_elems D n ''functionList'' (reads_function D) (snd (hc_functions c))"

definition reads_devdesc :: "drs_ops \<Rightarrow> nat \<Rightarrow> UsbDeviceDescriptor \<Rightarrow> bool" where
  "reads_devdesc D n d \<longleftrightarrow> v_bLength d = 18 \<and> v_bDescriptorType d = 1 \<and>
     (\<forall>(name, v) \<in> set [(''bLength'', v_bLength d), (''bDescriptorType'', v_bDescriptorType d), (''bDeviceClass'', v_bDeviceClass d), (''bDeviceSubClass'', v_bDeviceSubClass d),
        (''bDeviceProtocol'', v_bDeviceProtocol d), (''bMaxPacketSize0'', v_bMaxPacketSize0 d), (''manufacturer'', v_iManufacturer d), (''product'', v_iProduct d),
        (''serialnumber'', v_iSerialNumber d), (''numConfigurations'', v_bNumConfigurations d)]. dr_uint8 D n name = Some v) \<and>
     (\<forall>(name, v) \<in> set [(''bcdUSB'', v_bcdUSB d), (''idVendor'', v_idVendor d), (''idProduct'', v_idProduct d), (''bcdDevice'', v_bcdDevice d)].
        dr_uint16 D n name = Some v)"

definition reads_device :: "drs_ops \<Rightarrow> nat \<Rightarrow> hcs_device \<Rightarrow> bool" where
  "reads_device D n d \<longleftrightarrow>
     (case (node_of D n ''usb_dev_desc'', node_of D n ''usb_dev_string'', node_of D n ''usb_configuration'') of
        (Some x, Some y, Some z) \<Rightarrow> reads_devdesc D x (snd (hd_desc d)) \<and> reads_strtab D y (hd_strings d) \<and> reads_elems D z ''configList'' (reads_config D) (snd (hd_configs d))
      | _ \<Rightarrow> False)"

text \<open>A struct without its addresses, to say that two of them have the same content.\<close>

definition bare_strings :: "hcs_strings \<Rightarrow> hcs_strings" where
  "bare_strings h = h\<lparr>hs_at := 0, hs_table := 0\<rparr>"

definition bare_tab :: "('e \<Rightarrow> 'e) \<Rightarrow> ptr \<times> 'e list \<Rightarrow> ptr \<times> 'e list" where
  "bare_tab g t = (0, map g (snd t))"

definition bare_descs :: "hcs_descs option \<Rightarrow> hcs_descs option" where
  "bare_descs = map_option (bare_tab (apfst (\<lambda>_. 0)))"

definition bare_function :: "hcs_function \<Rightarrow> hcs_function" where
  "bare_function f = \<lparr>hf_at = 0, hf_name = hf_name f, hf_strings = bare_tab bare_strings (hf_strings f), hf_fs = bare_descs (hf_fs f), hf_hs = bare_descs (hf_hs f),
     hf_ss = bare_descs (hf_ss f), hf_ssp = bare_descs (hf_ssp f)\<rparr>"

definition bare_config :: "hcs_config \<Rightarrow> hcs_config" where
  "bare_config c = c\<lparr>hc_at := 0, hc_functions := bare_tab bare_function (hc_functions c)\<rparr>"

definition bare_device :: "hcs_device \<Rightarrow> hcs_device" where
  "bare_device d = \<lparr>hd_at = 0, hd_desc = (0, snd (hd_desc d)), hd_strings = bare_tab bare_strings (hd_strings d), hd_configs = bare_tab bare_config (hd_configs d)\<rparr>"

text \<open>The blocks of a struct, in the order of their allocation.\<close>

definition tab_blocks :: "('e \<Rightarrow> ptr list) \<Rightarrow> ptr \<times> 'e list \<Rightarrow> ptr list" where
  "tab_blocks B t = fst t # concat (map B (snd t))"

definition strings_blocks :: "hcs_strings \<Rightarrow> ptr list" where
  "strings_blocks h = [hs_at h, hs_table h]"

definition descs_blocks :: "hcs_descs option \<Rightarrow> ptr list" where
  "descs_blocks d = (case d of None \<Rightarrow> [] | Some ds \<Rightarrow> tab_blocks (\<lambda>x. [fst x]) ds)"

definition function_blocks :: "hcs_function \<Rightarrow> ptr list" where
  "function_blocks f = hf_at f # tab_blocks strings_blocks (hf_strings f) @ descs_blocks (hf_fs f) @ descs_blocks (hf_hs f) @ descs_blocks (hf_ss f) @ descs_blocks (hf_ssp f)"

definition config_blocks :: "hcs_config \<Rightarrow> ptr list" where
  "config_blocks c = hc_at c # tab_blocks function_blocks (hc_functions c)"

definition hcs_blocks :: "hcs_device \<Rightarrow> ptr list" where
  "hcs_blocks d = hd_at d # fst (hd_desc d) # tab_blocks strings_blocks (hd_strings d) @ tab_blocks config_blocks (hd_configs d)"

end
