(* ===== verification/Usbfn_Hcs_Device.thy ===== *)
theory Usbfn_Hcs_Device
  imports Usbfn_Hcs_Read
begin

text \<open>
  Reading a device that the tree describes: the structs have the content of the tree and consist of new blocks; a release gives the blocks back, the tables of
  strings apart.
\<close>

subsection \<open>New blocks\<close>

definition owns :: "'k gadget \<Rightarrow> 'k gadget \<Rightarrow> ptr list \<Rightarrow> bool" where
  "owns s s' ps \<longleftrightarrow> (\<exists>m. s' = s\<lparr>g_mem := m\<rparr>) \<and> calm s' \<and> live (g_mem s') = live (g_mem s) \<union> set ps \<and> distinct ps \<and> set ps \<inter> live (g_mem s) = {}"

lemma owns_calm: "owns s s' ps \<Longrightarrow> calm s'"
  by (simp add: owns_def)

lemma owns_refl [simp]: "owns s s [] \<longleftrightarrow> calm s"
  by (auto simp: owns_def intro: exI[of _ "g_mem s"])

lemma owns_trans: "owns s s1 ps \<Longrightarrow> owns s1 s2 qs \<Longrightarrow> owns s s2 (ps @ qs)"
  by (auto simp: owns_def)

lemma owns_cons: "owns s s1 [p] \<Longrightarrow> owns s1 s2 qs \<Longrightarrow> owns s s2 (p # qs)"
  using owns_trans[of s s1 "[p]" s2 qs] by simp

lemma alloc_owns:
  assumes "calm s" "\<forall>a n. fo_alloc K a n"
  obtains a s1 where "galloc K n s = Some (Some a, s1)" "owns s s1 [a]"
  using assms(1)
proof (cases rule: galloc_cases[of s K n])
  case (2 a m)
  have "owns s (s\<lparr>g_mem := m\<rparr>) [a]" using 2 by (auto simp: owns_def)
  then show ?thesis using 2 that by blast
qed (use assms in auto)

subsection \<open>Tables\<close>

lemma fill_loop_reads:
  assumes "\<And>i s. i < length xs \<Longrightarrow> calm s \<Longrightarrow> \<exists>e s1. f (k + i) s = Some (Some e, s1) \<and> g e = g (xs ! i) \<and> owns s s1 (B e)" "calm s"
  shows "\<exists>es s1. fill_loop f (length xs) k acc s = Some (True, acc @ es, s1) \<and> map g es = map g xs \<and> owns s s1 (concat (map B es))"
  using assms
proof (induction xs arbitrary: k acc s)
  case (Cons x xs)
  obtain e s1 where e: "f k s = Some (Some e, s1)" "g e = g x" "owns s s1 (B e)" using Cons.prems(1)[of 0 s] Cons.prems(2) by auto
  have "\<exists>es s2. fill_loop f (length xs) (Suc k) (acc @ [e]) s1 = Some (True, (acc @ [e]) @ es, s2) \<and> map g es = map g xs \<and> owns s1 s2 (concat (map B es))"
    using Cons.prems(1)[of "Suc i" for i] by (intro Cons.IH owns_calm[OF e(3)]) auto
  then obtain es s2 where "fill_loop f (length xs) (Suc k) (acc @ [e]) s1 = Some (True, (acc @ [e]) @ es, s2)" "map g es = map g xs" "owns s1 s2 (concat (map B es))"
    by blast
  then show ?case using e owns_trans[OF e(3)] by (intro exI[of _ "e # es"] exI[of _ s2]) simp
qed simp

lemma fill_table_reads:
  assumes "calm s" "\<forall>a n. fo_alloc K a n" "xs \<noteq> []" "num = int (length xs)"
    and "\<And>i s. i < length xs \<Longrightarrow> calm s \<Longrightarrow> \<exists>e s1. f i s = Some (Some e, s1) \<and> g e = g (xs ! i) \<and> owns s s1 (B e)"
  shows "\<exists>t s1. fill_table K num f undo s = Some (Some t, s1) \<and> map g (snd t) = map g xs \<and> owns s s1 (tab_blocks B t)"
proof -
  obtain a s1 where a: "galloc K (nat (num + 1) * sizeof_pointer) s = Some (Some a, s1)" "owns s s1 [a]" by (rule alloc_owns[OF assms(1,2)])
  obtain es s2 where "fill_loop f (length xs) 0 [] s1 = Some (True, [] @ es, s2)" "map g es = map g xs" "owns s1 s2 (concat (map B es))"
    using fill_loop_reads[of xs f 0 g B s1 "[]"] assms(5) owns_calm[OF a(2)] by auto
  then show ?thesis using a assms(3,4) owns_cons[OF a(2)] by (intro exI[of _ "(a, es)"] exI[of _ s2]) (simp add: fill_table_def tab_blocks_def)
qed

text \<open>The elements of a list of the tree, each with a block of its own.\<close>

lemma elems_table:
  assumes "calm s" "\<forall>a n. fo_alloc K a n" "reads_elems D n name R xs"
    and "\<And>c x a s. calm s \<Longrightarrow> R c x \<Longrightarrow> \<exists>e s1. parse c a s = Some (Some e, s1) \<and> g e = g x \<and> (\<exists>ps. owns s s1 ps \<and> B e = a # ps)"
  shows "\<exists>t s1. fill_table K (dr_elemNum D n name) (read_entry K sz (elem_node D n name) parse) undo s = Some (Some t, s1) \<and> map g (snd t) = map g xs \<and>
    owns s s1 (tab_blocks B t)"
proof (rule fill_table_reads[OF assms(1,2)])
  show "xs \<noteq> []" "dr_elemNum D n name = int (length xs)" using assms(3) by (simp_all add: reads_elems_def)
next
  fix i and s :: "'a gadget"
  assume i: "i < length xs" and "calm s"
  obtain c where c: "elem_node D n name i = Some c" "R c (xs ! i)" using assms(3) i by (auto simp: reads_elems_def at_elem_def split: option.splits)
  obtain a s1 where a: "galloc K sz s = Some (Some a, s1)" "owns s s1 [a]" by (rule alloc_owns[OF \<open>calm s\<close> assms(2)])
  obtain e s2 ps where "parse c a s1 = Some (Some e, s2)" "g e = g (xs ! i)" "owns s1 s2 ps" "B e = a # ps" using assms(4)[OF owns_calm[OF a(2)] c(2)] by blast
  then show "\<exists>e s1. read_entry K sz (elem_node D n name) parse i s = Some (Some e, s1) \<and> g e = g (xs ! i) \<and> owns s s1 (B e)"
    using a c(1) owns_cons[OF a(2)] by (simp add: read_entry_def)
qed

subsection \<open>Strings\<close>

lemma string_list_loop_reads:
  assumes "\<forall>i<length xs. at_elem D n ''stringList'' (reads_text D) (k + i) (xs ! i)"
  shows "string_list_loop D n (length xs) k = Some xs"
  using assms
proof (induction xs arbitrary: k)
  case (Cons x xs)
  have "string_list_loop D n (length xs) (Suc k) = Some xs" using Cons.prems by (intro Cons.IH) auto
  moreover have "at_elem D n ''stringList'' (reads_text D) k x" using Cons.prems by force
  ultimately show ?case by (cases x) (auto simp: at_elem_def reads_text_def split: option.splits)
qed simp

lemma strings_entry_reads:
  assumes "calm s" "\<forall>a n. fo_alloc K a n" "reads_strings D c x"
  shows "\<exists>e s1. strings_entry K D c a s = Some (Some e, s1) \<and> bare_strings e = bare_strings x \<and> (\<exists>ps. owns s s1 ps \<and> strings_blocks e = a # ps)"
proof -
  have x: "dr_uint16 D c ''language'' = Some (hs_language x)" "hs_list x \<noteq> []" "dr_elemNum D c ''stringList'' = int (length (hs_list x))"
    "string_list_loop D c (length (hs_list x)) 0 = Some (hs_list x)"
    using assms(3) string_list_loop_reads[of "hs_list x" D c 0] by (simp_all add: reads_strings_def reads_elems_def)
  obtain t s1 where "galloc K (nat (dr_elemNum D c ''stringList'' + 1) * sizeof_String) s = Some (Some t, s1)" "owns s s1 [t]" by (rule alloc_owns[OF assms(1,2)])
  then show ?thesis using x by (simp add: strings_entry_def UsbFnCfgMgrParseString_def strings_blocks_def bare_strings_def)
qed

lemma ParseStrings_reads:
  assumes "calm s" "\<forall>a n. fo_alloc K a n" "reads_strtab D n t"
  shows "\<exists>t' s1. UsbFnCfgMgrParseStrings K D n s = Some (Some t', s1) \<and> bare_tab bare_strings t' = bare_tab bare_strings t \<and> owns s s1 (tab_blocks strings_blocks t')"
proof -
  have t: "reads_elems D n ''stringTabList'' (reads_strings D) (snd t)" using assms(3) by (simp add: reads_strtab_def)
  show ?thesis unfolding UsbFnCfgMgrParseStrings_def bare_tab_def prod.inject
    using elems_table[OF assms(1,2) t strings_entry_reads[OF _ assms(2)]] by simp
qed

subsection \<open>Descriptors, functions and configurations\<close>

lemma ParseDesc_reads:
  assumes "calm s" "\<forall>a n. fo_alloc K a n" "reads_desc D c x"
  shows "\<exists>e s1. UsbFnCfgMgrParseDesc K D c s = Some (Some e, s1) \<and> apfst (\<lambda>_. 0) e = apfst (\<lambda>_. 0) x \<and> owns s s1 [fst e]"
proof -
  obtain len ty where d: "dr_uint8 D c ''bLength'' = Some len" "dr_uint8 D c ''bDescriptorType'' = Some ty" "desc_spelled D c ty len (snd x)"
    using assms(3) by (auto simp: reads_desc_def split: option.splits)
  obtain a s1 where "galloc K (unat len) s = Some (Some a, s1)" "owns s s1 [a]" by (rule alloc_owns[OF assms(1,2)])
  then show ?thesis using d ParseDescriptor_spelled[OF d(3)] by (cases x) (simp add: UsbFnCfgMgrParseDesc_def)
qed

lemma ParseFunDesc_reads:
  assumes "calm s" "\<forall>a n. fo_alloc K a n" "reads_descs D n name d"
  shows "\<exists>d' s1. UsbFnCfgMgrParseFunDesc K D n name s = Some (d', s1) \<and> bare_descs d' = bare_descs d \<and> owns s s1 (descs_blocks d')"
proof (cases d)
  case None
  then show ?thesis using assms(1,3) by (simp add: reads_descs_def UsbFnCfgMgrParseFunDesc_def fill_table_def bare_descs_def descs_blocks_def)
next
  case (Some ds)
  let ?f = "\<lambda>i s. case elem_node D n name i of None \<Rightarrow> Some (None, s) | Some c \<Rightarrow> UsbFnCfgMgrParseDesc K D c s"
  have ds: "snd ds \<noteq> []" "dr_elemNum D n name = int (length (snd ds))" "\<forall>i<length (snd ds). at_elem D n name (reads_desc D) i (snd ds ! i)"
    using assms(3) Some by (simp_all add: reads_descs_def reads_elems_def)
  have "\<exists>e s1. ?f i s = Some (Some e, s1) \<and> apfst (\<lambda>_. 0) e = apfst (\<lambda>_. 0) (snd ds ! i) \<and> owns s s1 [fst e]"
    if i: "i < length (snd ds)" and s: "calm s" for i and s :: "'a gadget"
  proof -
    obtain c where c: "elem_node D n name i = Some c" "reads_desc D c (snd ds ! i)" using ds(3) i by (auto simp: at_elem_def split: option.splits)
    show ?thesis using ParseDesc_reads[OF s assms(2) c(2)] c(1) by simp
  qed
  from fill_table_reads[OF assms(1,2) ds(1,2) this, where undo = "\<lambda>a es. free_back (a, map fst es)"] show ?thesis
    by (force simp: UsbFnCfgMgrParseFunDesc_def Some bare_descs_def bare_tab_def descs_blocks_def)
qed

lemma ParseUsbFnFunction_reads:
  assumes "calm s" "\<forall>a n. fo_alloc K a n" "reads_function D c x"
  shows "\<exists>e s1. UsbFnCfgMgrParseUsbFnFunction K D c a s = Some (Some e, s1) \<and> bare_function e = bare_function x \<and> (\<exists>ps. owns s s1 ps \<and> function_blocks e = a # ps)"
proof -
  note f = assms(3)[unfolded reads_function_def]
  obtain t s1 where 1: "UsbFnCfgMgrParseStrings K D c s = Some (Some t, s1)" "bare_tab bare_strings t = bare_tab bare_strings (hf_strings x)"
    "owns s s1 (tab_blocks strings_blocks t)" using ParseStrings_reads[OF assms(1,2)] f by blast
  obtain d2 s2 where 2: "UsbFnCfgMgrParseFunDesc K D c ''fsDescList'' s1 = Some (d2, s2)" "bare_descs d2 = bare_descs (hf_fs x)" "owns s1 s2 (descs_blocks d2)"
    using ParseFunDesc_reads[OF owns_calm[OF 1(3)] assms(2)] f by blast
  obtain d3 s3 where 3: "UsbFnCfgMgrParseFunDesc K D c ''hsDescList'' s2 = Some (d3, s3)" "bare_descs d3 = bare_descs (hf_hs x)" "owns s2 s3 (descs_blocks d3)"
    using ParseFunDesc_reads[OF owns_calm[OF 2(3)] assms(2)] f by blast
  obtain d4 s4 where 4: "UsbFnCfgMgrParseFunDesc K D c ''ssDescList'' s3 = Some (d4, s4)" "bare_descs d4 = bare_descs (hf_ss x)" "owns s3 s4 (descs_blocks d4)"
    using ParseFunDesc_reads[OF owns_calm[OF 3(3)] assms(2)] f by blast
  obtain d5 s5 where 5: "UsbFnCfgMgrParseFunDesc K D c ''sspDescList'' s4 = Some (d5, s5)" "bare_descs d5 = bare_descs (hf_ssp x)" "owns s4 s5 (descs_blocks d5)"
    using ParseFunDesc_reads[OF owns_calm[OF 4(3)] assms(2)] f by blast
  have o: "owns s s5 (tab_blocks strings_blocks t @ descs_blocks d2 @ descs_blocks d3 @ descs_blocks d4 @ descs_blocks d5)"
    using owns_trans[OF 1(3) owns_trans[OF 2(3) owns_trans[OF 3(3) owns_trans[OF 4(3) 5(3)]]]] .
  show ?thesis using f 1(1,2) 2(1,2) 3(1,2) 4(1,2) 5(1,2) o by (simp add: UsbFnCfgMgrParseUsbFnFunction_def bare_function_def function_blocks_def)
qed

lemma ParseUsbFnConfiguration_reads:
  assumes "calm s" "\<forall>a n. fo_alloc K a n" "reads_config D c x"
  shows "\<exists>e s1. UsbFnCfgMgrParseUsbFnConfiguration K D c a s = Some (Some e, s1) \<and> bare_config e = bare_config x \<and> (\<exists>ps. owns s s1 ps \<and> config_blocks e = a # ps)"
proof -
  note r = assms(3)[unfolded reads_config_def]
  have fs: "reads_elems D c ''functionList'' (reads_function D) (snd (hc_functions x))" using r by blast
  have "\<exists>t s1. UsbFnCfgMgrParseUsbFnFunctions K D c s = Some (Some t, s1) \<and> map bare_function (snd t) = map bare_function (snd (hc_functions x)) \<and>
      owns s s1 (tab_blocks function_blocks t)"
    unfolding UsbFnCfgMgrParseUsbFnFunctions_def by (rule elems_table[OF assms(1,2) fs]) (rule ParseUsbFnFunction_reads[OF _ assms(2)])
  then show ?thesis using r by (elim exE conjE) (simp add: UsbFnCfgMgrParseUsbFnConfiguration_def bare_config_def bare_tab_def config_blocks_def)
qed

subsection \<open>The device\<close>

lemma ParseDevDesc_reads: "reads_devdesc D n d \<Longrightarrow> UsbFnCfgMgrParseDevDesc D n = Some d"
  by (cases d) (simp add: reads_devdesc_def UsbFnCfgMgrParseDevDesc_def sizeof_DevDesc_def USB_DDK_DT_DEVICE_def)

lemma GetInstance_reads:
  assumes "calm s" "\<forall>a n. fo_alloc K a n" "fo_drs K = Some D" "reads_device D n d0"
  shows "\<exists>d s'. UsbFnCfgMgrGetInstanceFromHCS K (Some n) s = Some (Some d, s') \<and> bare_device d = bare_device d0 \<and> owns s s' (hcs_blocks d)"
proof -
  obtain x y z where n: "node_of D n ''usb_dev_desc'' = Some x" "node_of D n ''usb_dev_string'' = Some y" "node_of D n ''usb_configuration'' = Some z"
    and r: "reads_devdesc D x (snd (hd_desc d0))" "reads_strtab D y (hd_strings d0)" "reads_elems D z ''configList'' (reads_config D) (snd (hd_configs d0))"
    using assms(4) by (auto simp: reads_device_def split: option.splits)
  obtain a s1 where 1: "galloc K sizeof_FnDeviceDesc s = Some (Some a, s1)" "owns s s1 [a]" by (rule alloc_owns[OF assms(1,2)])
  obtain b s2 where 2: "galloc K sizeof_DevDesc s1 = Some (Some b, s2)" "owns s1 s2 [b]" by (rule alloc_owns[OF owns_calm[OF 1(2)] assms(2)])
  obtain t s3 where 3: "UsbFnCfgMgrParseStrings K D y s2 = Some (Some t, s3)" "bare_tab bare_strings t = bare_tab bare_strings (hd_strings d0)"
    "owns s2 s3 (tab_blocks strings_blocks t)" using ParseStrings_reads[OF owns_calm[OF 2(2)] assms(2) r(2)] by blast
  have "\<exists>c s4. UsbFnCfgMgrParseUsbFnCfgLists K D z t s3 = Some (Some c, s4) \<and> map bare_config (snd c) = map bare_config (snd (hd_configs d0)) \<and>
      owns s3 s4 (tab_blocks config_blocks c)"
    unfolding UsbFnCfgMgrParseUsbFnCfgLists_def by (rule elems_table[OF owns_calm[OF 3(3)] assms(2) r(3)]) (rule ParseUsbFnConfiguration_reads[OF _ assms(2)])
  then obtain c s4 where 4: "UsbFnCfgMgrParseUsbFnCfgLists K D z t s3 = Some (Some c, s4)" "map bare_config (snd c) = map bare_config (snd (hd_configs d0))"
    "owns s3 s4 (tab_blocks config_blocks c)" by blast
  have o: "owns s s4 (a # b # tab_blocks strings_blocks t @ tab_blocks config_blocks c)"
    using owns_cons[OF 1(2) owns_cons[OF 2(2) owns_trans[OF 3(3) 4(3)]]] .
  show ?thesis using n 1(1) 2(1) 3(1,2) 4(1,2) o ParseDevDesc_reads[OF r(1)] assms(3)
    by (simp add: UsbFnCfgMgrGetInstanceFromHCS_def UsbFnCfgMgrParseUsbFnDevDesc_def UsbFnCfgMgrParseUsbFnDevStrings_def UsbFnCfgMgrParseUsbFnConfigurations_def
        bare_device_def bare_tab_def hcs_blocks_def)
qed

end
