(* ===== verification/Usbfn_Hcs_Free.thy ===== *)
theory Usbfn_Hcs_Free
  imports Usbfn_Hcs_Device "HOL-Library.Multiset"
begin

text \<open>
  The release of a device that was read: every block is freed once, except the tables of strings, which stay allocated.
\<close>

subsection \<open>Releasing blocks\<close>

definition frees :: "('k gadget \<Rightarrow> 'k gadget option) \<Rightarrow> ptr list \<Rightarrow> bool" where
  "frees f ps \<longleftrightarrow> (\<forall>s. calm s \<and> distinct ps \<and> set ps \<subseteq> live (g_mem s) \<longrightarrow> (\<exists>s'. f s = Some s' \<and> calm s' \<and> live (g_mem s') = live (g_mem s) - set ps \<and> frame (- set ps) s s'))"

lemma frees_skip: "frees Some []"
  by (simp add: frees_def)

lemma frees_one: "frees (gfree (Some p)) [p]"
  by (auto simp: frees_def calm_def gfree_off mem_ok_def frame_def)

lemma frees_seq:
  assumes "frees f ps" "frees g qs"
  shows "frees (\<lambda>s. do { s1 \<leftarrow> f s; g s1 }) (ps @ qs)"
  unfolding frees_def
proof (intro allI impI)
  fix s :: "'a gadget"
  assume s: "calm s \<and> distinct (ps @ qs) \<and> set (ps @ qs) \<subseteq> live (g_mem s)"
  then obtain s1 where s1: "f s = Some s1" "calm s1" "live (g_mem s1) = live (g_mem s) - set ps" "frame (- set ps) s s1"
    using assms(1) by (auto simp: frees_def)
  have "set qs \<subseteq> live (g_mem s1)" "distinct qs" using s s1(3) by auto
  then obtain s2 where "g s1 = Some s2" "calm s2" "live (g_mem s2) = live (g_mem s1) - set qs" "frame (- set qs) s1 s2"
    using assms(2) s1(2) by (auto simp: frees_def)
  then show "\<exists>s'. (do { s1 \<leftarrow> f s; g s1 }) = Some s' \<and> calm s' \<and> live (g_mem s') = live (g_mem s) - set (ps @ qs) \<and> frame (- set (ps @ qs)) s s'"
    using s1 by (auto simp: frame_def)
qed

lemma frees_cons: "frees g qs \<Longrightarrow> frees (\<lambda>s. do { s1 \<leftarrow> gfree (Some p) s; g s1 }) (p # qs)"
  using frees_seq[OF frees_one] by simp

lemma frees_ptrs: "frees (free_ptrs (map Some ps)) ps"
proof (induction ps)
  case Nil
  show ?case using frees_skip by (simp add: frees_def)
next
  case (Cons p ps)
  then show ?case using frees_cons by simp
qed

subsection \<open>The blocks that are released, and those that are not\<close>

definition strtab_freed :: "hcs_strtab \<Rightarrow> ptr list" where
  "strtab_freed t = map hs_at (snd t) @ [fst t]"

definition descs_freed :: "hcs_descs option \<Rightarrow> ptr list" where
  "descs_freed d = (case d of None \<Rightarrow> [] | Some ds \<Rightarrow> map fst (snd ds) @ [fst ds])"

definition function_freed :: "hcs_function \<Rightarrow> ptr list" where
  "function_freed f = strtab_freed (hf_strings f) @ descs_freed (hf_fs f) @ descs_freed (hf_hs f) @ descs_freed (hf_ss f) @ descs_freed (hf_ssp f) @ [hf_at f]"

definition config_freed :: "hcs_config \<Rightarrow> ptr list" where
  "config_freed c = concat (map function_freed (snd (hc_functions c))) @ [fst (hc_functions c), hc_at c]"

definition device_freed :: "hcs_device \<Rightarrow> ptr list" where
  "device_freed d = fst (hd_desc d) # strtab_freed (hd_strings d) @ concat (map config_freed (snd (hd_configs d))) @ [fst (hd_configs d), hd_at d]"

definition strtab_lost :: "hcs_strtab \<Rightarrow> ptr list" where
  "strtab_lost t = map hs_table (snd t)"

definition function_lost :: "hcs_function \<Rightarrow> ptr list" where
  "function_lost f = strtab_lost (hf_strings f)"

definition config_lost :: "hcs_config \<Rightarrow> ptr list" where
  "config_lost c = concat (map function_lost (snd (hc_functions c)))"

definition device_lost :: "hcs_device \<Rightarrow> ptr list" where
  "device_lost d = strtab_lost (hd_strings d) @ concat (map config_lost (snd (hd_configs d)))"

text \<open>Tables that the \<open>int8_t\<close> index of the release can walk.\<close>

definition small_descs :: "hcs_descs option \<Rightarrow> bool" where
  "small_descs d = (case d of None \<Rightarrow> True | Some ds \<Rightarrow> length (snd ds) \<le> 127)"

definition small_function :: "hcs_function \<Rightarrow> bool" where
  "small_function f \<longleftrightarrow> length (snd (hf_strings f)) \<le> 127 \<and> small_descs (hf_fs f) \<and> small_descs (hf_hs f) \<and> small_descs (hf_ss f) \<and> small_descs (hf_ssp f)"

definition small_config :: "hcs_config \<Rightarrow> bool" where
  "small_config c \<longleftrightarrow> length (snd (hc_functions c)) \<le> 127 \<and> list_all small_function (snd (hc_functions c))"

definition small_device :: "hcs_device \<Rightarrow> bool" where
  "small_device d \<longleftrightarrow> length (snd (hd_strings d)) \<le> 127 \<and> length (snd (hd_configs d)) \<le> 127 \<and> list_all small_config (snd (hd_configs d))"

subsection \<open>The release functions\<close>

lemma free_table_frees: "length ps \<le> 127 \<Longrightarrow> frees (free_table a ps) (ps @ [a])"
  using frees_seq[OF frees_ptrs[of ps] frees_one[of a]] by (simp add: free_table_def[abs_def])

lemma FreeFnStrings_frees: "length (snd t) \<le> 127 \<Longrightarrow> frees (UsbFnCfgMgrFreeFnStrings t) (strtab_freed t)"
  using free_table_frees[of "map hs_at (snd t)" "fst t"] by (simp add: UsbFnCfgMgrFreeFnStrings_def[abs_def] strtab_freed_def)

lemma free_descs_frees: "small_descs d \<Longrightarrow> frees (free_descs d) (descs_freed d)"
  using free_table_frees[of "map fst (snd (the d))" "fst (the d)"] frees_skip
  by (cases d) (simp_all add: free_descs_def[abs_def] UsbFnCfgMgrFreeFuncDescHead_def[abs_def] descs_freed_def small_descs_def)

lemma free_functions_frees: "list_all small_function fs \<Longrightarrow> frees (free_functions fs) (concat (map function_freed fs))"
proof (induction fs)
  case Nil
  show ?case using frees_skip by (simp add: frees_def)
next
  case (Cons f fs)
  have sm: "length (snd (hf_strings f)) \<le> 127" "small_descs (hf_fs f)" "small_descs (hf_hs f)" "small_descs (hf_ss f)" "small_descs (hf_ssp f)"
    using Cons.prems by (simp_all add: small_function_def)
  have "list_all small_function fs" using Cons.prems by simp
  from frees_seq[OF FreeFnStrings_frees[OF sm(1)] frees_seq[OF free_descs_frees[OF sm(2)] frees_seq[OF free_descs_frees[OF sm(3)]
        frees_seq[OF free_descs_frees[OF sm(4)] frees_seq[OF free_descs_frees[OF sm(5)] frees_cons[OF Cons.IH[OF this]]]]]]]
  show ?case by (simp add: function_freed_def)
qed

lemma free_configs_frees: "list_all small_config cs \<Longrightarrow> frees (free_configs cs) (concat (map config_freed cs))"
proof (induction cs)
  case Nil
  show ?case using frees_skip by (simp add: frees_def)
next
  case (Cons c cs)
  have sm: "length (snd (hc_functions c)) \<le> 127" "list_all small_function (snd (hc_functions c))" using Cons.prems by (simp_all add: small_config_def)
  have "list_all small_config cs" using Cons.prems by simp
  from frees_seq[OF free_functions_frees[OF sm(2)] frees_cons[OF frees_cons[OF Cons.IH[OF this]]]] sm(1)
  show ?case by (simp add: UsbFnCfgMgrFreeFunctions_def config_freed_def)
qed

lemma FreeUsbFnDeviceDesc_frees:
  assumes "small_device d"
  shows "frees (UsbFnCfgMgrFreeUsbFnDeviceDesc (Some d)) (device_freed d)"
proof -
  have sm: "length (snd (hd_strings d)) \<le> 127" "length (snd (hd_configs d)) \<le> 127" "list_all small_config (snd (hd_configs d))"
    using assms by (simp_all add: small_device_def)
  from frees_cons[OF frees_seq[OF FreeFnStrings_frees[OF sm(1)] frees_seq[OF free_configs_frees[OF sm(3)] frees_cons[OF frees_one]]]] sm(2)
  show ?thesis by (simp add: UsbFnCfgMgrFreeUsbFnDeviceDesc_def[abs_def] UsbFnCfgMgrFreeConfigs_def device_freed_def)
qed

subsection \<open>Every block is either released or lost\<close>

lemma split_concat: "(\<And>x. mset (B x) = mset (F x) + mset (L x)) \<Longrightarrow> mset (concat (map B xs)) = mset (concat (map F xs)) + mset (concat (map L xs))"
  by (induction xs) simp_all

lemma strtab_split: "mset (tab_blocks strings_blocks t) = mset (strtab_freed t) + mset (strtab_lost t)"
proof -
  have "mset (concat (map strings_blocks xs)) = mset (map hs_at xs) + mset (map hs_table xs)" for xs by (induction xs) (simp_all add: strings_blocks_def)
  then show ?thesis by (simp add: tab_blocks_def strtab_freed_def strtab_lost_def)
qed

lemma descs_split: "mset (descs_blocks d) = mset (descs_freed d)"
  by (cases d) (simp_all add: descs_blocks_def descs_freed_def tab_blocks_def)

lemma function_split: "mset (function_blocks f) = mset (function_freed f) + mset (function_lost f)"
  by (simp add: function_blocks_def function_freed_def function_lost_def strtab_split descs_split)

lemma config_split: "mset (config_blocks c) = mset (config_freed c) + mset (config_lost c)"
  using split_concat[of function_blocks function_freed function_lost] by (simp add: config_blocks_def config_freed_def config_lost_def tab_blocks_def function_split)

lemma device_split: "mset (hcs_blocks d) = mset (device_freed d) + mset (device_lost d)"
  using split_concat[of config_blocks config_freed config_lost, OF config_split]
  by (simp add: hcs_blocks_def device_freed_def device_lost_def strtab_split) (simp add: tab_blocks_def)

lemma device_parts: "set (hcs_blocks d) = set (device_freed d) \<union> set (device_lost d)"
    "distinct (hcs_blocks d) \<longleftrightarrow> distinct (device_freed d @ device_lost d)"
  using device_split[of d] mset_eq_setD[of "hcs_blocks d" "device_freed d @ device_lost d"]
    mset_eq_imp_distinct_iff[of "hcs_blocks d" "device_freed d @ device_lost d"] by simp_all

text \<open>The size of the tables is part of the content.\<close>

lemma small_bare: "small_device (bare_device d) = small_device d"
proof -
  have 1: "small_descs (bare_descs x) = small_descs x" for x by (cases x) (simp_all add: small_descs_def bare_descs_def bare_tab_def)
  have 2: "small_function (bare_function f) = small_function f" for f by (simp add: small_function_def bare_function_def 1) (simp add: bare_tab_def)
  have 3: "small_config (bare_config c) = small_config c" for c by (simp add: small_config_def bare_config_def bare_tab_def list.pred_map o_def 2)
  show ?thesis by (simp add: small_device_def bare_device_def bare_tab_def list.pred_map o_def 3)
qed

lemma lost_bare: "length (device_lost (bare_device d)) = length (device_lost d)"
proof -
  have 1: "length (function_lost (bare_function f)) = length (function_lost f)" for f by (simp add: function_lost_def strtab_lost_def bare_function_def bare_tab_def)
  have 2: "length (config_lost (bare_config c)) = length (config_lost c)" for c by (simp add: config_lost_def bare_config_def bare_tab_def length_concat o_def 1)
  show ?thesis by (simp add: device_lost_def strtab_lost_def bare_device_def bare_tab_def length_concat o_def 2)
qed

lemma read_then_free:
  assumes "calm s" "\<forall>a n. fo_alloc K a n" "fo_drs K = Some D" "reads_device D n d0" "small_device d0"
  shows "\<exists>d s1 s2. UsbFnCfgMgrGetInstanceFromHCS K (Some n) s = Some (Some d, s1) \<and> UsbFnCfgMgrFreeUsbFnDeviceDesc (Some d) s1 = Some s2 \<and>
    live (g_mem s2) = live (g_mem s) \<union> set (device_lost d) \<and> set (device_lost d) \<inter> live (g_mem s) = {} \<and>
    card (set (device_lost d)) = length (device_lost d0)"
proof -
  obtain d s1 where d: "UsbFnCfgMgrGetInstanceFromHCS K (Some n) s = Some (Some d, s1)" "bare_device d = bare_device d0" "owns s s1 (hcs_blocks d)"
    using GetInstance_reads[OF assms(1-4)] by blast
  have sm: "small_device d" "length (device_lost d) = length (device_lost d0)" using assms(5) d(2) small_bare lost_bare by metis+
  have o: "calm s1" "live (g_mem s1) = live (g_mem s) \<union> (set (device_freed d) \<union> set (device_lost d))" "distinct (device_freed d @ device_lost d)"
    "(set (device_freed d) \<union> set (device_lost d)) \<inter> live (g_mem s) = {}"
    using d(3) by (simp_all add: owns_def device_parts)
  have "\<exists>s2. UsbFnCfgMgrFreeUsbFnDeviceDesc (Some d) s1 = Some s2 \<and> calm s2 \<and> live (g_mem s2) = live (g_mem s1) - set (device_freed d)"
    using FreeUsbFnDeviceDesc_frees[OF sm(1)] o unfolding frees_def by auto
  then obtain s2 where s2: "UsbFnCfgMgrFreeUsbFnDeviceDesc (Some d) s1 = Some s2" "live (g_mem s2) = live (g_mem s1) - set (device_freed d)" by blast
  have "live (g_mem s2) = live (g_mem s) \<union> set (device_lost d)" unfolding s2(2) o(2) using o(3,4) by auto
  then show ?thesis using d(1) s2(1) o(3,4) sm(2) distinct_card[of "device_lost d"] by auto
qed

end
