(* ===== verification/Usbfn_Hcs_Bounds.thy ===== *)
theory Usbfn_Hcs_Bounds
  imports Usbfn_Hcs_Free
begin

text \<open>
  The block of a descriptor is as long as its attribute \<open>bLength\<close> says.  The parsers do not compare it with the fields they fill: here is exactly when they
  write behind the block.
\<close>

subsection \<open>Descriptors that are too short\<close>

lemma short_run:
  assumes "spell D n (map F8 names) = Some vs" "length pre = i" "k < length names"
  shows "read_fields D n (runs i names) (pre @ replicate k 0) = None"
  using assms
proof (induction names arbitrary: i pre vs k)
  case (Cons x xs)
  from Cons.prems(1) obtain v r where v: "dr_uint8 D n x = Some v" "spell D n (map F8 xs) = Some r" by (auto simp: bind_eq_Some_conv)
  show ?case
  proof (cases k)
    case (Suc j)
    have "read_fields D n (runs (Suc i) xs) ((pre @ [v]) @ replicate j 0) = None" using Cons.prems(2,3) Suc by (intro Cons.IH[OF v(2)]) simp_all
    then show ?thesis using v Cons.prems(2) Suc by (simp add: wrn_def)
  qed (use Cons.prems in simp)
qed simp

lemma short_bytes:
  assumes "spell D n (map F8 names) = Some bs" "k < length bs" "fs = runs 0 names"
  shows "read_fields D n fs (replicate k 0) = None"
  using short_run[OF assms(1), of "[]" 0 k] spell_len[OF assms(1)] assms(2,3) by simp

lemma short_interface:
  assumes "spell D n (map F8 [''bLength'', ''bDescriptorType'', ''bInterfaceNumber'', ''bAlternateSetting'', ''bNumEndpoints'', ''bInterfaceClass'', ''bInterfaceSubClass'',
          ''bInterfaceProtocol'', ''iInterface'']) = Some bs" "k < length bs"
  shows "UsbFnCfgMgrParseInterfaceDesc D n (replicate k 0) = None"
  unfolding UsbFnCfgMgrParseInterfaceDesc_def by (rule short_bytes[OF assms]) simp

lemma short_assoc:
  assumes "spell D n (map F8 [''bLength'', ''bDescriptorType'', ''bFirstInterface'', ''bInterfaceCount'', ''bFunctionClass'', ''bFunctionSubClass'', ''bFunctionProtocol'', ''iFunction'']) = Some bs"
    "k < length bs"
  shows "UsbFnCfgMgrParseAccocInterfaceDesc D n (replicate k 0) = None"
  unfolding UsbFnCfgMgrParseAccocInterfaceDesc_def by (rule short_bytes[OF assms]) simp

lemma short_debug:
  assumes "spell D n (map F8 [''bLength'', ''bDescriptorType'', ''bDebugInEndpoint'', ''bDebugOutEndpoint'']) = Some bs" "k < length bs"
  shows "UsbFnCfgMgrParseDebugDesc D n (replicate k 0) = None"
  unfolding UsbFnCfgMgrParseDebugDesc_def by (rule short_bytes[OF assms]) simp

lemma short_string:
  assumes "spell D n [F8 ''bLength'', F8 ''bDescriptorType'', F16 ''wData''] = Some bs" "k < length bs"
  shows "UsbFnCfgMgrParseStringDesc D n (replicate k 0) = None"
proof -
  have "k = 0 \<or> k = 1 \<or> k = 2 \<or> k = 3" using assms by (auto simp: bind_eq_Some_conv)
  then show ?thesis using assms(1) by (elim disjE) (auto simp: bind_eq_Some_conv UsbFnCfgMgrParseStringDesc_def parse_defs numeral_eq_Suc)
qed

lemma short_ssp:
  assumes "spell D n [F8 ''bLength'', F8 ''bDescriptorType'', F16 ''wReseved'', F32 ''dwBytesPerInterval''] = Some bs" "k < length bs"
  shows "UsbFnCfgMgrParseSspIsocEndpointDesc D n (replicate k 0) = None"
proof -
  have "k = 0 \<or> k = 1 \<or> k = 2 \<or> k = 3 \<or> k = 4 \<or> k = 5 \<or> k = 6 \<or> k = 7" using assms by (auto simp: bind_eq_Some_conv)
  then show ?thesis using assms(1) by (elim disjE) (auto simp: bind_eq_Some_conv UsbFnCfgMgrParseSspIsocEndpointDesc_def parse_defs numeral_eq_Suc)
qed

lemma short_ss:
  assumes "spell D n [F8 ''bLength'', F8 ''bDescriptorType'', F8 ''bMaxBurst'', F8 ''bmAttributes'', F16 ''wBytesPerInterval''] = Some bs" "k < length bs"
  shows "UsbFnCfgMgrParseSsEndpointDesc D n (replicate k 0) = None"
proof -
  have "k = 0 \<or> k = 1 \<or> k = 2 \<or> k = 3 \<or> k = 4 \<or> k = 5" using assms by (auto simp: bind_eq_Some_conv)
  then show ?thesis using assms(1) by (elim disjE) (auto simp: bind_eq_Some_conv UsbFnCfgMgrParseSsEndpointDesc_def parse_defs numeral_eq_Suc)
qed

lemma short_qualifier:
  assumes "spell D n [F8 ''bLength'', F8 ''bDescriptorType'', F16 ''bcdUSB'', F8 ''bDeviceClass'', F8 ''bDeviceSubClass'', F8 ''bDeviceProtocol'', F8 ''bMaxPacketSize0'',
      F8 ''bNumConfigurations''] = Some bs" "k < length bs"
  shows "UsbFnCfgMgrParseQualifierDesc D n (replicate k 0) = None"
proof -
  have "k = 0 \<or> k = 1 \<or> k = 2 \<or> k = 3 \<or> k = 4 \<or> k = 5 \<or> k = 6 \<or> k = 7 \<or> k = 8" using assms by (auto simp: bind_eq_Some_conv)
  then show ?thesis using assms(1) by (elim disjE) (auto simp: bind_eq_Some_conv UsbFnCfgMgrParseQualifierDesc_def parse_defs numeral_eq_Suc)
qed

lemma short_security:
  assumes "spell D n [F8 ''bLength'', F8 ''bDescriptorType'', F16 ''wTotalLength'', F8 ''bNumEncryptionTypes''] = Some bs" "k < length bs"
  shows "UsbFnCfgMgrParseSecurityDesc D n (replicate k 0) = None"
proof -
  have "k = 0 \<or> k = 1 \<or> k = 2 \<or> k = 3 \<or> k = 4" using assms by (auto simp: bind_eq_Some_conv)
  then show ?thesis using assms(1) by (elim disjE) (auto simp: bind_eq_Some_conv UsbFnCfgMgrParseSecurityDesc_def parse_defs numeral_eq_Suc)
qed

lemma short_otg:
  assumes "spell D n ([F8 ''bLength'', F8 ''bDescriptorType'', F8 ''bmAttributes''] @ (if len = 5 then [F16 ''bcdUSB''] else [])) = Some bs" "k < length bs" 
  shows "UsbFnCfgMgrParseOtgDesc D n (replicate k 0) len = None"
proof -
  have "k = 0 \<or> k = 1 \<or> k = 2 \<or> ((k = 3 \<or> k = 4) \<and> len = 5)" using assms by (auto simp: bind_eq_Some_conv split: if_splits)
  then show ?thesis using assms(1) by (elim disjE conjE) (auto simp: bind_eq_Some_conv UsbFnCfgMgrParseOtgDesc_def parse_defs numeral_eq_Suc)
qed

lemma short_endpoint:
  assumes "spell D n ([F8 ''bLength'', F8 ''bDescriptorType'', F8 ''bEndpointAddress'', F8 ''bmAttributes'', F16 ''wMaxPacketSize'', F8 ''bInterval''] @
          (if dr_uint8 D n ''bLength'' = Some 9 then [F8 ''bRefresh'', F8 ''bSynchAddress''] else [])) = Some bs" "k < length bs"
  shows "UsbFnCfgMgrParseEndpointDesc D n (replicate k 0) = None"
proof -
  have "k = 0 \<or> k = 1 \<or> k = 2 \<or> k = 3 \<or> k = 4 \<or> k = 5 \<or> k = 6 \<or> (k = 7 \<or> k = 8) \<and> dr_uint8 D n ''bLength'' = Some 9"
    using assms by (auto simp: bind_eq_Some_conv split: if_splits)
  moreover have "\<exists>x1 x2. le16_bytes v = [x1, x2]" for v by (simp add: le16_bytes_def)
  ultimately show ?thesis using assms(1)
    by (elim disjE conjE) (auto simp: bind_eq_Some_conv UsbFnCfgMgrParseEndpointDesc_def parse_defs numeral_eq_Suc)
qed

lemmas short_each = short_interface short_endpoint short_string short_assoc short_ssp short_ss short_qualifier short_otg short_debug short_security

lemma ParseDescriptor_short:
  assumes "desc_layout ty len = Some fs" "spell D n fs = Some bs" "dr_uint8 D n ''bLength'' = Some len" "unat len < length bs"
  shows "UsbFnCfgMgrParseDescriptor D n (replicate (unat len) 0) ty len = None"
proof -
  consider "ty = 4" | "ty = 5" | "ty = 3" | "ty = 0x0B" | "ty = 0x31" | "ty = 0x30" | "ty = 6" | "ty = 9" | "ty = 0x0A" | "ty = 0x0C" | "ty = 0x0E"
    using assms(1) by (auto simp: desc_layout_def split: if_splits)
  then show ?thesis using assms by cases (simp_all add: UsbFnCfgMgrParseDescriptor_def desc_layout_def short_each)
qed

lemma ParseDesc_cases:
  assumes "calm s" "\<forall>a n. fo_alloc K a n" "dr_uint8 D n ''bLength'' = Some len" "dr_uint8 D n ''bDescriptorType'' = Some ty"
    and "desc_layout ty len = Some fs" "spell D n fs = Some bs"
  shows "if unat len < length bs then UsbFnCfgMgrParseDesc K D n s = None
    else \<exists>a s'. UsbFnCfgMgrParseDesc K D n s = Some (Some (a, bs @ replicate (unat len - length bs) 0), s') \<and> owns s s' [a]"
proof -
  obtain a s1 where a: "galloc K (unat len) s = Some (Some a, s1)" "owns s s1 [a]" by (rule alloc_owns[OF assms(1,2)])
  show ?thesis
  proof (cases "unat len < length bs")
    case True
    then show ?thesis using a assms(3,4) ParseDescriptor_short[OF assms(5,6,3)] by (simp add: UsbFnCfgMgrParseDesc_def)
  next
    case False
    then have "desc_spelled D n ty len (bs @ replicate (unat len - length bs) 0)" using assms by (simp add: desc_spelled_def)
    from ParseDescriptor_spelled[OF this] show ?thesis using a assms(3,4) False by (simp add: UsbFnCfgMgrParseDesc_def)
  qed
qed

end
