(* ===== verification/Usbfn_Hcs_Sample.thy ===== *)
theory Usbfn_Hcs_Sample
  imports Usbfn_Hcs_Bounds
begin

text \<open>
  A resource tree for the examples, and the device that it describes.
\<close>

subsection \<open>A small device\<close>

text \<open>A tree with one configuration and one function, which has an interface and an endpoint; the length of the descriptor at node 10 is too small.\<close>

definition hcs_sample :: drs_ops where
  "hcs_sample = \<lparr>
     dr_uint8 = curry (map_of [((1, ''bLength''), 18), ((1, ''bDescriptorType''), 1), ((1, ''bDeviceClass''), 0), ((1, ''bDeviceSubClass''), 0), ((1, ''bDeviceProtocol''), 0),
       ((1, ''bMaxPacketSize0''), 64), ((1, ''manufacturer''), 0), ((1, ''product''), 1), ((1, ''serialnumber''), 0), ((1, ''numConfigurations''), 1),
       ((5, ''id''), 1), ((11, ''id''), 2), ((6, ''configurationValue''), 1), ((6, ''iConfiguration''), 0), ((6, ''attributes''), 0xC0),
       ((8, ''bLength''), 9), ((8, ''bDescriptorType''), 4), ((8, ''bInterfaceNumber''), 0), ((8, ''bAlternateSetting''), 0), ((8, ''bNumEndpoints''), 1),
       ((8, ''bInterfaceClass''), 2), ((8, ''bInterfaceSubClass''), 2), ((8, ''bInterfaceProtocol''), 1), ((8, ''iInterface''), 5),
       ((9, ''bLength''), 7), ((9, ''bDescriptorType''), 5), ((9, ''bEndpointAddress''), 0x81), ((9, ''bmAttributes''), 3), ((9, ''bInterval''), 9),
       ((10, ''bLength''), 4), ((10, ''bDescriptorType''), 5), ((10, ''bEndpointAddress''), 0x81), ((10, ''bmAttributes''), 3), ((10, ''bInterval''), 9)]),
     dr_elemNum = (\<lambda>n name. case map_of [((2, ''stringTabList''), 1), ((4, ''stringList''), 2), ((3, ''configList''), 1), ((6, ''functionList''), 1),
       ((7, ''stringTabList''), 1), ((7, ''fsDescList''), 2), ((7, ''hsDescList''), 1), ((7, ''ssDescList''), 1)] (n, name) of None \<Rightarrow> 0 | Some k \<Rightarrow> k),
     dr_strElem = (\<lambda>n name i. map_of [((2, ''stringTabList'', 0), ''t''), ((4, ''stringList'', 0), ''u''), ((4, ''stringList'', 1), ''v''), ((3, ''configList'', 0), ''x''), ((6, ''functionList'', 0), ''f''),
       ((7, ''stringTabList'', 0), ''t''), ((7, ''fsDescList'', 0), ''i''), ((7, ''fsDescList'', 1), ''e''),
       ((7, ''hsDescList'', 0), ''i''), ((7, ''ssDescList'', 0), ''i'')] (n, name, i)),
     dr_child = curry (map_of [((0, ''d''), 1), ((0, ''s''), 2), ((0, ''c''), 3), ((2, ''t''), 4), ((4, ''u''), 5), ((4, ''v''), 11), ((3, ''x''), 6), ((6, ''f''), 7), ((7, ''t''), 4),
       ((7, ''i''), 8), ((7, ''e''), 9)]),
     dr_string = curry (map_of [((0, ''usb_dev_desc''), ''d''), ((0, ''usb_dev_string''), ''s''), ((0, ''usb_configuration''), ''c''), ((5, ''str''), ''HW''), ((11, ''str''), ''HDC''),
       ((7, ''funcName''), ''f_generic.x'')]),
     dr_uint16 = curry (map_of [((1, ''bcdUSB''), 0x0200), ((1, ''idVendor''), 0x12D1), ((1, ''idProduct''), 0x5000), ((1, ''bcdDevice''), 0x0223),
       ((4, ''language''), 0x0409), ((6, ''maxPower''), 500), ((9, ''wMaxPacketSize''), 10), ((10, ''wMaxPacketSize''), 10)]),
     dr_uint32 = (\<lambda>_ _. None),
     dr_uint8s = (\<lambda>_ _ _. None)\<rparr>"

definition sample_strings :: hcs_strtab where
  "sample_strings = (0, [\<lparr>hs_at = 0, hs_language = 0x0409, hs_table = 0, hs_list = [(1, ''HW''), (2, ''HDC'')]\<rparr>])"

definition sample_function :: hcs_function where
  "sample_function = \<lparr>hf_at = 0, hf_name = ''f_generic.x'', hf_strings = sample_strings,
     hf_fs = Some (0, [(0, [9, 4, 0, 0, 1, 2, 2, 1, 5]), (0, [7, 5, 0x81, 3, 10, 0, 9])]), hf_hs = Some (0, [(0, [9, 4, 0, 0, 1, 2, 2, 1, 5])]),
     hf_ss = Some (0, [(0, [9, 4, 0, 0, 1, 2, 2, 1, 5])]), hf_ssp = None\<rparr>"

definition sample_config :: hcs_config where
  "sample_config = \<lparr>hc_at = 0, hc_value = 1, hc_index = 0, hc_attributes = 0xC0, hc_maxPower = 500, hc_functions = (0, [sample_function])\<rparr>"

definition sample_device :: hcs_device where
  "sample_device = \<lparr>hd_at = 0, hd_desc = (0, \<lparr>v_bLength = 18, v_bDescriptorType = 1, v_bcdUSB = 0x0200, v_bDeviceClass = 0, v_bDeviceSubClass = 0, v_bDeviceProtocol = 0,
       v_bMaxPacketSize0 = 64, v_idVendor = 0x12D1, v_idProduct = 0x5000, v_bcdDevice = 0x0223, v_iManufacturer = 0, v_iProduct = 1, v_iSerialNumber = 0,
       v_bNumConfigurations = 1\<rparr>), hd_strings = sample_strings, hd_configs = (0, [sample_config])\<rparr>"

lemma sample_elems: "elem_node hcs_sample 2 ''stringTabList'' 0 = Some 4" "elem_node hcs_sample 4 ''stringList'' 0 = Some 5" "elem_node hcs_sample 3 ''configList'' 0 = Some 6"
    "elem_node hcs_sample 6 ''functionList'' 0 = Some 7" "elem_node hcs_sample 7 ''stringTabList'' 0 = Some 4" "elem_node hcs_sample 7 ''fsDescList'' 0 = Some 8"
    "elem_node hcs_sample 7 ''fsDescList'' (Suc 0) = Some 9" "elem_node hcs_sample 7 ''hsDescList'' 0 = Some 8" "elem_node hcs_sample 7 ''ssDescList'' 0 = Some 8"
    "elem_node hcs_sample 4 ''stringList'' (Suc 0) = Some 11"
  by (simp_all add: elem_node_def hcs_sample_def curry_def)

lemma sample_table: "reads_strings hcs_sample 4 \<lparr>hs_at = 0, hs_language = 0x0409, hs_table = 0, hs_list = [(1, ''HW''), (2, ''HDC'')]\<rparr>"
  by (simp add: reads_strings_def reads_elems_def at_elem_def All_less_Suc sample_elems reads_text_def) (simp add: hcs_sample_def curry_def)

lemma sample_descs: "reads_desc hcs_sample 8 (0, [9, 4, 0, 0, 1, 2, 2, 1, 5])" "reads_desc hcs_sample 9 (0, [7, 5, 0x81, 3, 10, 0, 9])"
  by (simp_all add: reads_desc_def desc_spelled_def desc_layout_def hcs_sample_def curry_def le16_bytes_def)

lemma sample_reads_function: "reads_function hcs_sample 7 sample_function"
proof -
  have "reads_strtab hcs_sample 7 sample_strings"
    by (simp add: reads_strtab_def reads_elems_def at_elem_def sample_elems sample_strings_def sample_table) (simp add: hcs_sample_def)
  moreover have "reads_descs hcs_sample 7 ''fsDescList'' (hf_fs sample_function)" "reads_descs hcs_sample 7 ''hsDescList'' (hf_hs sample_function)"
    "reads_descs hcs_sample 7 ''ssDescList'' (hf_ss sample_function)"
    by (simp_all add: reads_descs_def reads_elems_def at_elem_def sample_function_def All_less_Suc sample_elems sample_descs) (simp_all add: hcs_sample_def)
  moreover have "reads_descs hcs_sample 7 ''sspDescList'' None" "dr_string hcs_sample 7 ''funcName'' = Some ''f_generic.x''"
    by (simp_all add: reads_descs_def hcs_sample_def curry_def)
  ultimately show ?thesis by (simp add: reads_function_def sample_function_def)
qed

lemma sample_reads_config: "reads_config hcs_sample 6 sample_config"
  by (simp add: reads_config_def reads_elems_def at_elem_def sample_config_def sample_elems sample_reads_function) (simp add: hcs_sample_def curry_def)

lemma sample_reads: "reads_device hcs_sample 0 sample_device"
proof -
  have "node_of hcs_sample 0 ''usb_dev_desc'' = Some 1" "node_of hcs_sample 0 ''usb_dev_string'' = Some 2" "node_of hcs_sample 0 ''usb_configuration'' = Some 3"
    by (simp_all add: node_of_def hcs_sample_def curry_def)
  moreover have "reads_strtab hcs_sample 2 sample_strings"
    by (simp add: reads_strtab_def reads_elems_def at_elem_def sample_elems sample_strings_def sample_table) (simp add: hcs_sample_def)
  moreover have "reads_elems hcs_sample 3 ''configList'' (reads_config hcs_sample) [sample_config]"
    by (simp add: reads_elems_def at_elem_def sample_elems sample_reads_config) (simp add: hcs_sample_def)
  ultimately show ?thesis by (simp add: reads_device_def sample_device_def) (simp add: reads_devdesc_def hcs_sample_def curry_def)
qed

end
