(* ===== verification/Usbfn_Devices.thy ===== *)
theory Usbfn_Devices
  imports Usbfn_Tree Usbfn_Hcs_Sample
begin

text \<open>
  The list of devices: creating a device registers it under its controller with an unused number, looking it up finds it, and
  removing it gives everything back.
\<close>

subsection \<open>Numbers of devices\<close>

text \<open>The devices of the list, with their numbers and controllers.\<close>

definition dev_list :: "'k gadget \<Rightarrow> ptr list" where
  "dev_list s = (case g_devEntry s of None \<Rightarrow> [] | Some ps \<Rightarrow> ps)"

definition dev_of :: "'k gadget \<Rightarrow> ptr \<Rightarrow> UsbFnDeviceMgr" where
  "dev_of s p = the (g_fdevs s p)"

definition used_ids :: "'k gadget \<Rightarrow> int set" where
  "used_ids s = (\<lambda>p. dm_objectId (dev_of s p)) ` set (dev_list s)"

definition registry :: "'k gadget \<Rightarrow> bool" where
  "registry s \<longleftrightarrow> distinct (dev_list s) \<and> (\<forall>p \<in> set (dev_list s). g_fdevs s p \<noteq> None \<and> p \<in> live (g_mem s)) \<and>
     inj_on (\<lambda>p. dm_objectId (dev_of s p)) (set (dev_list s)) \<and> inj_on (\<lambda>p. dm_udcName (dev_of s p)) (set (dev_list s))"

lemma those_devs:
  assumes "\<forall>p \<in> set ps. g_fdevs s p \<noteq> None"
  shows "those (map (\<lambda>p. map_option dm_objectId (g_fdevs s p)) ps) = Some (map (\<lambda>p. dm_objectId (dev_of s p)) ps)"
  using assms by (induction ps) (auto simp: dev_of_def)

text \<open>The smallest number that is free, if there is one below 32.\<close>

definition least_free :: "int set \<Rightarrow> int \<Rightarrow> bool" where
  "least_free ids n \<longleftrightarrow> (if n = -1 then {1..31} \<subseteq> ids else 1 \<le> n \<and> n \<le> 31 \<and> n \<notin> ids \<and> (\<forall>m. 1 \<le> m \<and> m < n \<longrightarrow> m \<in> ids))"

lemma find_free:
  assumes "P = (\<lambda>i. int i \<notin> ids)"
  shows "least_free ids (case List.find P [1..<MAX_LIST] of None \<Rightarrow> -1 | Some i \<Rightarrow> int i)"
proof (cases "List.find P [1..<MAX_LIST]")
  case None
  have "m \<in> ids" if "1 \<le> m" "m \<le> 31" for m
  proof -
    have "nat m \<in> set [1..<MAX_LIST]" using that by (auto simp: MAX_LIST_def)
    then have "\<not> P (nat m)" using None by (simp add: find_None_iff)
    then show ?thesis using that assms by simp
  qed
  then show ?thesis using None by (auto simp: least_free_def)
next
  case (Some i)
  then obtain j where j: "j < length [1..<MAX_LIST]" "P ([1..<MAX_LIST] ! j)" "i = [1..<MAX_LIST] ! j" "\<forall>k < j. \<not> P ([1..<MAX_LIST] ! k)"
    by (auto simp: find_Some_iff)
  then have i: "i = Suc j" "j < 31" by (simp_all add: MAX_LIST_def)
  have "m \<in> ids" if "1 \<le> m" "m < int i" for m
  proof -
    have "nat (m - 1) < j" using that i by auto
    then have "\<not> P ([1..<MAX_LIST] ! nat (m - 1))" using j(4) by blast
    moreover have "[1..<MAX_LIST] ! nat (m - 1) = nat m" using that i by (subst nth_upt) (auto simp: MAX_LIST_def)
    ultimately show ?thesis using that assms by simp
  qed
  then show ?thesis using Some i j(2,3) assms by (auto simp: least_free_def)
qed

lemma FindEmptyId_run:
  assumes "registry s"
  shows "\<exists>n. FindEmptyId s = Some n \<and> least_free (used_ids s) n"
proof (cases "dev_list s = []")
  case True
  then have "FindEmptyId s = Some 1" "used_ids s = {}" by (auto simp: FindEmptyId_def dev_list_def used_ids_def split: option.splits)
  then show ?thesis by (auto simp: least_free_def)
next
  case False
  then have "g_devEntry s = Some (dev_list s)" by (auto simp: dev_list_def split: option.splits)
  moreover have "those (map (\<lambda>p. map_option dm_objectId (g_fdevs s p)) (dev_list s)) = Some (map (\<lambda>p. dm_objectId (dev_of s p)) (dev_list s))"
    using those_devs[of "dev_list s" s] assms by (simp add: registry_def)
  ultimately show ?thesis using False find_free[OF refl, of "used_ids s"] by (simp add: FindEmptyId_def used_ids_def)
qed

subsection \<open>Looking up\<close>

definition devmap :: "'k gadget \<Rightarrow> string \<Rightarrow> ptr option" where
  "devmap s u = List.find (\<lambda>p. dm_udcName (dev_of s p) = u) (dev_list s)"

lemma find_device_run:
  assumes "\<forall>p \<in> set ps. g_fdevs s p \<noteq> None"
  shows "find_device u ps s = Some (List.find (\<lambda>p. dm_udcName (dev_of s p) = u) ps)"
  using assms by (induction ps) (auto simp: dev_of_def)

lemma UsbFnMgrDeviceGet_run: "registry s \<Longrightarrow> UsbFnMgrDeviceGet (Some u) s = Some (devmap s u)"
  by (auto simp: UsbFnMgrDeviceGet_def devmap_def dev_list_def registry_def find_device_run split: option.splits)

subsection \<open>Creating\<close>

text \<open>Nothing stands in the way of a new device: memory, the kernel, the length of the name, and a free number.\<close>

definition id_name :: "int \<Rightarrow> string" where
  "id_name n = ''g'' @ dec_string (nat n)"

definition grants :: "'k fn_os \<Rightarrow> string \<Rightarrow> UsbFnDeviceDesc \<Rightarrow> 'k gadget \<Rightarrow> bool" where
  "grants K udc des s \<longleftrightarrow> (\<forall>a n. fo_alloc K a n) \<and> fits MAX_NAMELEN udc \<and> \<not> {1..31} \<subseteq> used_ids s \<and>
     (\<forall>n \<in> {1..31}. \<forall>t. calm t \<longrightarrow> (\<exists>t'. UsbFnAdapterCreateDevice K udc (id_name n) des t = Some (HDF_SUCCESS, t')))"

lemma calm_fields [simp]: "calm (s\<lparr>g_fdevs := x\<rparr>) = calm s" "calm (s\<lparr>g_funcs := y\<rparr>) = calm s" "calm (s\<lparr>g_devEntry := z\<rparr>) = calm s"
  by (simp_all add: calm_def)

lemma frame_put [simp]:
  "p \<notin> L \<Longrightarrow> frame L s (t\<lparr>g_fdevs := (g_fdevs t)(p := x)\<rparr>) = frame L s t"
  "p \<notin> L \<Longrightarrow> frame L s (t\<lparr>g_intfs := (g_intfs t)(p := y)\<rparr>) = frame L s t"
  "p \<notin> L \<Longrightarrow> frame L s (t\<lparr>g_funcs := (g_funcs t)(p := z)\<rparr>) = frame L s t"
  by (auto simp: frame_def)

lemma FindEmptyId_cong:
  assumes "g_devEntry t = g_devEntry s" "\<forall>p \<in> set (dev_list s). g_fdevs t p = g_fdevs s p"
  shows "FindEmptyId t = FindEmptyId s"
proof -
  have "map (\<lambda>p. map_option dm_objectId (g_fdevs t p)) (dev_list s) = map (\<lambda>p. map_option dm_objectId (g_fdevs s p)) (dev_list s)"
    using assms(2) by simp
  from arg_cong[OF this, of those] assms(1) show ?thesis by (auto simp: FindEmptyId_def dev_list_def split: option.splits)
qed

lemma CreatDev_run:
  assumes "registry s" "g_devEntry t = g_devEntry s" "\<forall>p \<in> set (dev_list s). g_fdevs t p = g_fdevs s p" "g_fdevs t dev = Some d"
    and "calm t" "device_ok des" "deletable K"
  shows "\<exists>r t' d'. CreatDev K udc des dev t = Some (r, t') \<and> keeps (put_fdev dev d' t) t' \<and>
    (if r = HDF_SUCCESS then (\<exists>n. n \<noteq> -1 \<and> least_free (used_ids s) n \<and>
       d' = d\<lparr>dm_objectId := n, dm_name := id_name n, dm_udcName := udc\<rparr>) else \<not> grants K udc des s)"
proof -
  obtain n where n: "FindEmptyId t = Some n" "least_free (used_ids s) n"
    using FindEmptyId_run[OF assms(1)] FindEmptyId_cong[OF assms(2,3)] by auto
  have id: "put_fdev dev d t = t" using assms(4) by (simp add: fun_upd_idem)
  have c: "calm (put_fdev dev x t)" for x using assms(5) by simp
  show ?thesis
  proof (cases "n = -1")
    case True
    then have "CreatDev K udc des dev t = Some (RetErr HDF_ERR_IO, t)" using n(1) by (simp add: CreatDev_def)
    moreover have "\<not> grants K udc des s" using n(2) True by (simp add: grants_def least_free_def)
    ultimately show ?thesis using keeps_refl[OF assms(5)] id by (intro exI[of _ "RetErr HDF_ERR_IO"] exI[of _ t] exI[of _ d]) simp
  next
    case False
    then have pos: "1 \<le> n" "n \<le> 31" using n(2) by (simp_all add: least_free_def)
    let ?d = "d\<lparr>dm_objectId := n, dm_name := id_name n\<rparr>"
    show ?thesis
    proof (cases "fits MAX_NAMELEN udc")
      case fit: True
      let ?t = "put_fdev dev (?d\<lparr>dm_udcName := udc\<rparr>) t"
      have "name_fits udc" using fit by (simp add: fits_def name_fits_def)
      then obtain r t' where r: "UsbFnAdapterCreateDevice K udc (id_name n) des ?t = Some (r, t')" "keeps ?t t'"
        using CreateDevice_returns[OF c assms(6) _ assms(7), of udc "?d\<lparr>dm_udcName := udc\<rparr>" "id_name n"] by (auto simp: returns_def)
      have "CreatDev K udc des dev t = Some (if r \<noteq> HDF_SUCCESS then RetErr HDF_ERR_IO else HDF_SUCCESS, t')"
        using n(1) pos fit assms(4) r(1) by (simp add: CreatDev_def Let_def id_name_def)
      moreover have "\<not> grants K udc des s" if "r \<noteq> HDF_SUCCESS"
      proof
        assume "grants K udc des s"
        then obtain t2 where "UsbFnAdapterCreateDevice K udc (id_name n) des ?t = Some (HDF_SUCCESS, t2)" using pos c unfolding grants_def by (meson atLeastAtMost_iff)
        then show False using that r(1) by simp
      qed
      ultimately show ?thesis using r(2) n(2) False
        by (intro exI[of _ "if r \<noteq> HDF_SUCCESS then RetErr HDF_ERR_IO else HDF_SUCCESS"] exI[of _ t'] exI[of _ "?d\<lparr>dm_udcName := udc\<rparr>"]) auto
    next
      case no: False
      then have "CreatDev K udc des dev t = Some (RetErr HDF_ERR_IO, put_fdev dev ?d t)"
        using n pos assms(4) by (simp add: CreatDev_def Let_def id_name_def)
      moreover have "\<not> grants K udc des s" using no by (simp add: grants_def)
      ultimately show ?thesis using keeps_refl[OF c] by (intro exI[of _ "RetErr HDF_ERR_IO"] exI[of _ "put_fdev dev ?d t"] exI[of _ ?d]) simp
    qed
  qed
qed

text \<open>The device with its two arrays, as they are before the arrays are filled.\<close>

definition with_arrays :: "ptr \<Rightarrow> UsbFnDeviceMgr \<Rightarrow> ptr \<Rightarrow> ptr \<Rightarrow> UsbFnConfiguration list \<Rightarrow> usbmem \<Rightarrow> 'k gadget \<Rightarrow> 'k gadget" where
  "with_arrays dev d ia fa gs m s = s\<lparr>g_mem := m,
     g_fdevs := (g_fdevs s)(dev \<mapsto> d\<lparr>numFunc := of_nat (length (generics gs)), dm_numInterfaces := of_nat (intf_count (generics gs)),
        dm_interfaceMgr := Some ia, dm_funcMgr := Some fa\<rparr>),
     g_intfs := (g_intfs s)(ia \<mapsto> replicate (intf_count (generics gs)) zero_interfaceMgr),
     g_funcs := (g_funcs s)(fa \<mapsto> replicate (length (generics gs)) zero_funcMgr)\<rparr>"

lemma AllocInterfaceAndFuncMgr_run:
  assumes "calm s" "g_fdevs s dev = Some d" "numFunc d = 0" "dm_numInterfaces d = 0" "fn_configs des = Some gs" "table_ok gs" "dev \<in> live (g_mem s)"
  shows "\<exists>r t. AllocInterfaceAndFuncMgr K dev des s = Some (r, t) \<and>
    (if r = HDF_SUCCESS then \<exists>ia fa m. t = with_arrays dev d ia fa gs m s \<and> calm t \<and> ia \<notin> live (g_mem s) \<and> fa \<notin> live (g_mem s) \<and> ia \<noteq> fa \<and>
        live m = insert fa (insert ia (live (g_mem s)))
     else (\<exists>a n. \<not> fo_alloc K a n) \<and> calm t \<and> live (g_mem t) = live (g_mem s) \<and> (\<forall>L s0. dev \<notin> L \<and> L \<subseteq> live (g_mem s) \<longrightarrow> frame L s0 s \<longrightarrow> frame L s0 t))"
proof -
  let ?xs = "generics gs"
  define nf :: u8 where "nf = of_nat (length ?xs)"
  define ni :: u8 where "ni = of_nat (intf_count ?xs)"
  have n: "unat nf = length ?xs" "unat ni = intf_count ?xs"
    unfolding nf_def ni_def using assms(6) by (intro unat_of_nat_small; simp add: table_ok_def)+
  then have ni0: "ni \<noteq> 0" using assms(6) by (auto simp: table_ok_def)
  have cnt: "count_configs gs (0, 0) = Some (nf, ni)"
    using count_configs_eq[of gs 0 0] assms(6) by (simp add: nf_def ni_def table_ok_def)
  let ?d1 = "d\<lparr>numFunc := nf, dm_numInterfaces := ni\<rparr>"
  let ?s = "put_fdev dev ?d1 s"
  have c: "calm ?s" using assms(1) by simp
  show ?thesis
  proof (cases rule: galloc_cases[OF c, of K "unat ni * sizeof_InterfaceMgr"])
    case (1 m)
    then show ?thesis using assms(2-5) cnt ni0 by (simp add: AllocInterfaceAndFuncMgr_def Let_def)
  next
    case (2 ia m)
    let ?s2 = "put_fdev dev (?d1\<lparr>dm_interfaceMgr := Some ia\<rparr>) (?s\<lparr>g_mem := m, g_intfs := (g_intfs s)(ia \<mapsto> replicate (unat ni) zero_interfaceMgr)\<rparr>)"
    have c2: "calm ?s2" using 2(2) by (simp add: calm_def)
    show ?thesis
    proof (cases rule: galloc_cases[OF c2, of K "unat nf * sizeof_FuncMgr"])
      case al: (1 m')
      have "gfree (Some ia) (?s2\<lparr>g_mem := m'\<rparr>) = Some (?s2\<lparr>g_mem := m'\<lparr>live := live m' - {ia}\<rparr>, g_fdevs := (g_fdevs ?s2)(ia := None),
         g_intfs := (g_intfs ?s2)(ia := None), g_funcs := (g_funcs s)(ia := None), g_fhandles := (g_fhandles s)(ia := None),
         g_freqs := (g_freqs s)(ia := None), g_revents := (g_revents s)(ia := None), g_props := (g_props s)(ia := None)\<rparr>)" (is "_ = Some ?t")
        using al(2,3) 2(3) by (simp add: gfree_off calm_def)
      then have "AllocInterfaceAndFuncMgr K dev des s = Some (RetErr HDF_ERR_IO, ?t)"
        using assms(2-5) cnt ni0 2(1) al(1) by (simp add: AllocInterfaceAndFuncMgr_def Let_def)
      moreover have "calm ?t" using al(2) by (auto simp: calm_def mem_ok_def)
      moreover have "live (g_mem ?t) = live (g_mem s)" using al(3) 2(3,4) by auto
      moreover have "frame L s0 ?t" if "dev \<notin> L" "L \<subseteq> live (g_mem s)" "frame L s0 s" for L s0
        using that 2(4) by (auto simp: frame_def)
      ultimately show ?thesis using al(4) by (intro exI[of _ "RetErr HDF_ERR_IO"] exI[of _ ?t]) simp
    next
      case al: (2 fa m')
      have "AllocInterfaceAndFuncMgr K dev des s = Some (HDF_SUCCESS, with_arrays dev d ia fa gs m' s)"
        using assms(2-5) cnt ni0 2(1) al(1) n by (simp add: AllocInterfaceAndFuncMgr_def Let_def with_arrays_def nf_def ni_def)
      moreover have "calm (with_arrays dev d ia fa gs m' s)" using al(2) by (simp add: calm_def with_arrays_def)
      ultimately show ?thesis using 2(3,4) al(3,4) by (intro exI[of _ HDF_SUCCESS]) auto
    qed
  qed
qed

definition threads_start :: "'k fn_os \<Rightarrow> bool" where
  "threads_start K \<longleftrightarrow> (\<forall>k. fst (fo_thread_create K k) = HDF_SUCCESS \<and> fst (fo_thread_start K k) = HDF_SUCCESS)"

text \<open>A kernel that lets a device go.\<close>

definition removes :: "'k fn_os \<Rightarrow> string \<Rightarrow> UsbFnDeviceDesc \<Rightarrow> bool" where
  "removes K udc des \<longleftrightarrow> (\<forall>k. fst (fo_thread_destroy K k) = HDF_SUCCESS) \<and>
     (\<forall>n \<in> {1..31}. \<forall>k. \<exists>k'. UsbFnAdapterDelDevice K (id_name n) udc des k = Some (HDF_SUCCESS, k'))"

lemma StartThreadIo_run: "threads_start K \<Longrightarrow> \<exists>k. StartThreadIo K s = (HDF_SUCCESS, set_fkern k s)"
  by (auto simp: StartThreadIo_def threads_start_def split: prod.split) (metis fst_conv)+

text \<open>
  \<open>created s udc des node dev t\<close>: the state \<open>t\<close> is \<open>s\<close> with the new device \<open>dev\<close> at the end of the list, in new memory, with
  the smallest unused number, its tables filled, and its thread running.
\<close>

definition created :: "'k gadget \<Rightarrow> string \<Rightarrow> UsbFnDeviceDesc \<Rightarrow> nat option \<Rightarrow> ptr \<Rightarrow> 'k gadget \<Rightarrow> bool" where
  "created s udc des node dev t \<longleftrightarrow> (\<exists>ia fa d gs.
     calm t \<and> live (g_mem t) = live (g_mem s) \<union> {dev, ia, fa} \<and> distinct [dev, ia, fa] \<and> {dev, ia, fa} \<inter> live (g_mem s) = {} \<and>
     frame (live (g_mem s)) s (t\<lparr>g_devEntry := g_devEntry s\<rparr>) \<and> g_devEntry t = Some (dev_list s @ [dev]) \<and> g_fdevs t dev = Some d \<and>
     dm_udcName d = udc \<and> dm_des d = Some des \<and> dm_node d = node \<and> dm_running d \<and> dm_objectId d \<noteq> -1 \<and> least_free (used_ids s) (dm_objectId d) \<and>
     dm_name d = id_name (dm_objectId d) \<and> dm_funcMgr d = Some fa \<and> dm_interfaceMgr d = Some ia \<and> fn_configs des = Some gs \<and>
     numFunc d = of_nat (length (generics gs)) \<and> dm_numInterfaces d = of_nat (intf_count (generics gs)) \<and>
     g_funcs t fa = Some (func_table dev (generics gs)) \<and> g_intfs t ia = Some (intf_table dev fa 0 (generics gs)))"

lemma gfree_new:
  assumes "calm t" "frame L s t" "dev \<in> live (g_mem t)" "dev \<notin> L"
  shows "\<exists>t'. gfree (Some dev) t = Some t' \<and> calm t' \<and> live (g_mem t') = live (g_mem t) - {dev} \<and> frame L s t'"
  using gfree_frame[OF assms(1,3)] assms(2,4) by metis

text \<open>The end of the call, when the device is complete: its thread is started, or everything is freed.\<close>

definition start_dev :: "'k fn_os \<Rightarrow> ptr \<Rightarrow> 'k gadget \<Rightarrow> (ptr option \<times> 'k gadget) option" where
  "start_dev K dev x = do { d \<leftarrow> g_fdevs x dev;
     case StartThreadIo K x of
       (r, s1) \<Rightarrow>
         if r \<noteq> HDF_SUCCESS then
           do { s2 \<leftarrow> gfree (dm_interfaceMgr d) s1; s3 \<leftarrow> gfree (dm_funcMgr d) s2; s4 \<leftarrow> gfree (Some dev) s3; Some (None, s4) }
         else Some (Some dev, s1) }"

lemma UsbFnMgrDeviceCreate_run:
  assumes "calm s" "registry s" "fn_configs des = Some gs" "table_ok gs" "device_ok des" "deletable K"
  shows "(\<exists>t. UsbFnMgrDeviceCreate K (Some udc) (Some des) node s = Some (None, t) \<and>
      \<not> grants K udc des s \<and> calm t \<and> live (g_mem t) = live (g_mem s) \<and> frame (live (g_mem s)) s t) \<or>
    (\<exists>dev x. UsbFnMgrDeviceCreate K (Some udc) (Some des) node s = start_dev K dev x \<and> created s udc des node dev x)"
proof (cases rule: galloc_cases[OF assms(1), of K sizeof_DeviceMgr])
  case (1 m)
  then show ?thesis by (simp add: UsbFnMgrDeviceCreate_def grants_def)
next
  case (2 dev m)
  let ?L = "live (g_mem s)" and ?t = "put_fdev dev zero_deviceMgr (s\<lparr>g_mem := m\<rparr>)"
  have ne: "\<forall>p \<in> set (dev_list s). p \<noteq> dev" using 2(4) assms(2) by (auto simp: registry_def)
  then have pre: "g_devEntry ?t = g_devEntry s" "\<forall>p \<in> set (dev_list s). g_fdevs ?t p = g_fdevs s p" "g_fdevs ?t dev = Some zero_deviceMgr" by auto
  have c: "calm ?t" using 2(2) by simp
  obtain r u d where cd: "CreatDev K udc des dev ?t = Some (r, u)" "keeps (put_fdev dev d ?t) u"
    "if r = HDF_SUCCESS then (\<exists>n. n \<noteq> -1 \<and> least_free (used_ids s) n \<and>
       d = zero_deviceMgr\<lparr>dm_objectId := n, dm_name := id_name n, dm_udcName := udc\<rparr>) else \<not> grants K udc des s"
    using CreatDev_run[OF assms(2) pre c assms(5,6), of udc] by blast
  have nd: "\<forall>p \<in> ?L. p \<noteq> dev" using 2(4) by auto
  have u: "calm u" "frame ?L s u" "dev \<in> live (g_mem u)" "g_fdevs u dev = Some d" "live (g_mem u) = insert dev ?L" "g_devEntry u = g_devEntry s"
    using cd(2) 2(3) nd by (auto simp: keeps_def frame_def)
  show ?thesis
  proof (cases "r = HDF_SUCCESS")
    case False
    from gfree_new[OF u(1-3) 2(4)] obtain t' where "gfree (Some dev) u = Some t'" "calm t'" "live (g_mem t') = live (g_mem u) - {dev}" "frame ?L s t'" by blast
    then show ?thesis using 2 cd False u(5) by (simp add: UsbFnMgrDeviceCreate_def)
  next
    case True
    then obtain n where n: "n \<noteq> -1" "least_free (used_ids s) n" "d = zero_deviceMgr\<lparr>dm_objectId := n, dm_name := id_name n, dm_udcName := udc\<rparr>"
      using cd(3) by auto
    have z: "numFunc d = 0" "dm_numInterfaces d = 0" using n(3) by (simp_all add: zero_deviceMgr_def)
    obtain r2 v where al: "AllocInterfaceAndFuncMgr K dev des u = Some (r2, v)"
      "if r2 = HDF_SUCCESS then \<exists>ia fa m'. v = with_arrays dev d ia fa gs m' u \<and> calm v \<and> ia \<notin> live (g_mem u) \<and> fa \<notin> live (g_mem u) \<and> ia \<noteq> fa \<and>
          live m' = insert fa (insert ia (live (g_mem u)))
       else (\<exists>a n. \<not> fo_alloc K a n) \<and> calm v \<and> live (g_mem v) = live (g_mem u) \<and> (\<forall>L s0. dev \<notin> L \<and> L \<subseteq> live (g_mem u) \<longrightarrow> frame L s0 u \<longrightarrow> frame L s0 v)"
      using AllocInterfaceAndFuncMgr_run[OF u(1,4) z assms(3,4) u(3), of K] by blast
    show ?thesis
    proof (cases "r2 = HDF_SUCCESS")
      case False
      then have v: "calm v" "live (g_mem v) = insert dev ?L" "frame ?L s v" "\<not> grants K udc des s" using al(2) u(2,5) nd by (auto simp: grants_def)
      from gfree_new[OF v(1,3) _ 2(4)] v(2) obtain t' where "gfree (Some dev) v = Some t'" "calm t'" "live (g_mem t') = live (g_mem v) - {dev}" "frame ?L s t'" by auto
      then show ?thesis using 2(1,4) cd(1) True al(1) False v(2,4) by (simp add: UsbFnMgrDeviceCreate_def)
    next
      case ok: True
      then obtain ia fa m' where v: "v = with_arrays dev d ia fa gs m' u" "calm v" "ia \<notin> live (g_mem u)" "fa \<notin> live (g_mem u)" "ia \<noteq> fa"
        "live m' = insert fa (insert ia (live (g_mem u)))" using al(2) by auto
      let ?d = "d\<lparr>numFunc := of_nat (length (generics gs)), dm_numInterfaces := of_nat (intf_count (generics gs)), dm_interfaceMgr := Some ia, dm_funcMgr := Some fa\<rparr>"
      let ?w = "v\<lparr>g_funcs := (g_funcs v)(fa \<mapsto> func_table dev (generics gs)), g_intfs := (g_intfs v)(ia \<mapsto> intf_table dev fa 0 (generics gs))\<rparr>"
      have ci: "CreateInterface des dev v = Some ?w"
        using CreateInterface_fill[of v dev ?d fa ia des gs] assms(3,4) unfolding v(1) by (simp add: with_arrays_def)
      have wd: "g_fdevs ?w dev = Some ?d" "g_devEntry ?w = g_devEntry s" unfolding v(1) using u(6) by (simp_all add: with_arrays_def)
      let ?x = "put_fdev dev (?d\<lparr>dm_node := node, dm_des := Some des, dm_running := True\<rparr>) (?w\<lparr>g_devEntry := Some (dev_list s @ [dev])\<rparr>)"
      have le: "(case g_devEntry s of None \<Rightarrow> [dev] | Some ps \<Rightarrow> ps @ [dev]) = dev_list s @ [dev]" by (simp add: dev_list_def split: option.split)
      have run: "UsbFnMgrDeviceCreate K (Some udc) (Some des) node s = start_dev K dev ?x"
        using 2(1) cd(1) True al(1) ok ci wd le by (simp add: UsbFnMgrDeviceCreate_def start_dev_def Let_def split: prod.split)
      have nl: "\<forall>p \<in> ?L. p \<noteq> dev \<and> p \<noteq> ia \<and> p \<noteq> fa" using 2(4) v(3,4) u(5) by auto
      then have "frame ?L s (?x\<lparr>g_devEntry := g_devEntry s\<rparr>)"
        using u(2) unfolding v(1) by (simp add: frame_def with_arrays_def)
      moreover have "calm (?x)" using v(2) by simp
      moreover have "live (g_mem (?x)) = ?L \<union> {dev, ia, fa}" "distinct [dev, ia, fa]" "{dev, ia, fa} \<inter> ?L = {}"
        using v(3-6) u(5) 2(4) unfolding v(1) by (auto simp: with_arrays_def)
      ultimately have "created s udc des node dev (?x)"
        unfolding created_def using n assms(3)
        by (intro exI[of _ ia] exI[of _ fa] exI[of _ "?d\<lparr>dm_node := node, dm_des := Some des, dm_running := True\<rparr>"] exI[of _ gs]) simp
      then show ?thesis using run by auto
    qed
  qed
qed

lemma created_kern: "created s udc des node dev (set_fkern k x) = created s udc des node dev x"
  by (simp add: created_def frame_def)

text \<open>With a thread library that starts threads, the call returns the complete device.\<close>

lemma device_create_run:
  assumes "calm s" "registry s" "fn_configs des = Some gs" "table_ok gs" "device_ok des" "deletable K" "threads_start K"
  shows "\<exists>r t. UsbFnMgrDeviceCreate K (Some udc) (Some des) node s = Some (r, t) \<and>
    (case r of None \<Rightarrow> \<not> grants K udc des s \<and> calm t \<and> live (g_mem t) = live (g_mem s) \<and> frame (live (g_mem s)) s t | Some dev \<Rightarrow> created s udc des node dev t)"
proof (rule disjE[OF UsbFnMgrDeviceCreate_run[OF assms(1-6), of udc node]], goal_cases)
  case 2
  then obtain dev x where x: "UsbFnMgrDeviceCreate K (Some udc) (Some des) node s = start_dev K dev x" "created s udc des node dev x" by blast
  obtain k where "StartThreadIo K x = (HDF_SUCCESS, set_fkern k x)" using StartThreadIo_run[OF assms(7)] by blast
  moreover obtain d where "g_fdevs x dev = Some d" using x(2) by (auto simp: created_def)
  ultimately show ?case using x created_kern[of s udc des node dev k x] by (simp add: start_dev_def)
qed auto

text \<open>Where the polling thread cannot be started, the device is freed but stays in the list.\<close>

lemma start_dev_fails:
  assumes "created s udc des node dev x" "StartThreadIo K x = (r, set_fkern k x)" "r \<noteq> HDF_SUCCESS"
  shows "\<exists>t. start_dev K dev x = Some (None, t) \<and> dev_list t = dev_list s @ [dev] \<and> g_fdevs t dev = None"
proof -
  obtain ia fa d where c: "calm x" "live (g_mem x) = live (g_mem s) \<union> {dev, ia, fa}" "distinct [dev, ia, fa]" "{dev, ia, fa} \<inter> live (g_mem s) = {}"
    "g_devEntry x = Some (dev_list s @ [dev])" "g_fdevs x dev = Some d" "dm_funcMgr d = Some fa" "dm_interfaceMgr d = Some ia"
    using assms(1) by (auto simp: created_def)
  have "\<not> g_usbRamTestFlag (g_mem x)" using c(1) by (simp add: calm_def)
  then show ?thesis using c(2-8) assms(2,3) by (auto simp: start_dev_def gfree_off dev_list_def)
qed

text \<open>States that agree on the devices of the list have the same registry.\<close>

lemma registry_cong:
  assumes "dev_list t = dev_list s" "\<forall>p \<in> set (dev_list s). g_fdevs t p = g_fdevs s p" "set (dev_list s) \<subseteq> live (g_mem t)" "registry s"
  shows "registry t \<and> devmap t = devmap s"
proof
  have d: "dev_of t p = dev_of s p" if "p \<in> set (dev_list s)" for p using assms(2) that by (simp add: dev_of_def)
  then show "registry t" using assms by (auto simp: registry_def inj_on_def)
  show "devmap t = devmap s" unfolding devmap_def assms(1) using d by (intro ext find_cong_list) simp
qed

lemma created_registry:
  assumes "registry s" "devmap s udc = None" "created s udc des node dev t"
  shows "registry t \<and> devmap t = (devmap s)(udc \<mapsto> dev)"
proof -
  obtain ia fa d where c: "live (g_mem t) = live (g_mem s) \<union> {dev, ia, fa}" "dev \<notin> live (g_mem s)" "frame (live (g_mem s)) s (t\<lparr>g_devEntry := g_devEntry s\<rparr>)"
    "g_devEntry t = Some (dev_list s @ [dev])" "g_fdevs t dev = Some d" "dm_udcName d = udc" "dm_objectId d \<noteq> -1" "least_free (used_ids s) (dm_objectId d)"
    using assms(3) by (auto simp: created_def)
  have l: "dev_list t = dev_list s @ [dev]" using c(4) by (simp add: dev_list_def)
  have d: "dev_of t p = dev_of s p" "g_fdevs t p = g_fdevs s p" "p \<noteq> dev" if "p \<in> set (dev_list s)" for p
    using that assms(1) c(2,3) by (auto simp: registry_def frame_def dev_of_def)
  have id: "dm_objectId d \<notin> (\<lambda>p. dm_objectId (dev_of t p)) ` set (dev_list s)"
    using c(7,8) d(1) by (auto simp: least_free_def used_ids_def)
  have nm: "udc \<notin> (\<lambda>p. dm_udcName (dev_of t p)) ` set (dev_list s)"
    using assms(2) d(1) by (auto simp: devmap_def find_None_iff)
  have "dev_of t dev = d" using c(5) by (simp add: dev_of_def)
  then have "inj_on (\<lambda>p. dm_objectId (dev_of t p)) (set (dev_list t))" "inj_on (\<lambda>p. dm_udcName (dev_of t p)) (set (dev_list t))"
    using assms(1) d(1,3) id nm c(6) by (auto simp: l registry_def inj_on_def image_iff)
  then have "registry t" using assms(1) l c(1,5) d(2,3) by (auto simp: registry_def)
  moreover have "devmap t u = ((devmap s)(udc \<mapsto> dev)) u" for u
  proof -
    have "List.find (\<lambda>p. dm_udcName (dev_of t p) = u) (dev_list s) = devmap s u"
      unfolding devmap_def using d(1) by (intro find_cong_list) simp
    then show ?thesis using assms(2) \<open>dev_of t dev = d\<close> c(6) by (auto simp: devmap_def l find_snoc split: option.split)
  qed
  ultimately show ?thesis by blast
qed

lemma create_run:
  assumes "calm s" "registry s" "IsDescriptorOk (Some des) = HDF_SUCCESS" "fn_configs des = Some gs" "table_ok gs" "threads_start K"
    and "device_ok des" "deletable K"
  shows "\<exists>r t. UsbFnCreateDevice K (Some udc) (Some \<lparr>fd_data = DescDesc (Some des), functionMask = m\<rparr>) s = Some (r, t) \<and>
    (case r of None \<Rightarrow> (devmap s udc = None \<longrightarrow> \<not> grants K udc des s) \<and> calm t \<and> live (g_mem t) = live (g_mem s) \<and> frame (live (g_mem s)) s t
     | Some dev \<Rightarrow> devmap s udc = None \<and> created s udc des None dev t)"
proof (cases "devmap s udc")
  case None
  obtain r t where r: "UsbFnMgrDeviceCreate K (Some udc) (Some des) None s = Some (r, t)"
    "case r of None \<Rightarrow> \<not> grants K udc des s \<and> calm t \<and> live (g_mem t) = live (g_mem s) \<and> frame (live (g_mem s)) s t | Some dev \<Rightarrow> created s udc des None dev t"
    using device_create_run[OF assms(1,2,4,5,7,8,6), of udc None] by blast
  then show ?thesis
    using None UsbFnMgrDeviceGet_run[OF assms(2), of udc] assms(3)
    by (intro exI[of _ r] exI[of _ t]) (auto simp: UsbFnCreateDevice_def split: option.splits)
next
  case (Some dev)
  then show ?thesis using UsbFnMgrDeviceGet_run[OF assms(2), of udc] assms(1) by (simp add: UsbFnCreateDevice_def)
qed

text \<open>
  C21. Creating a device registers it.  For every valid description, whose strings and descriptors fit the blocks written for them
  (\<open>device_ok\<close>), and whatever the kernel and the allocator answer, as long as threads can be started and the directory of a device
  that is cleaned up has no entries of its own (\<open>deletable\<close>: \<open>DeleteFile\<close> faults on one), the call returns.  Where it returns no device, the controller has one already or something is refused (memory, the
  kernel, a name that is too long, no free number), and every object and the set of live blocks are as before, and so is what the
  lookup finds.  Where it returns one, no device was registered for the controller before; the new one is at the end of the list with the
  smallest unused number, its tables filled from the description; and the lookup finds it for its controller and all others as before.
  No two devices ever have the same number or controller.
\<close>

theorem UsbFnCreateDevice_registers:
  assumes "calm s" "registry s" "IsDescriptorOk (Some des) = HDF_SUCCESS" "fn_configs des = Some gs" "table_ok gs" "threads_start K"
    and "device_ok des" "deletable K"
  shows "\<exists>r t. UsbFnCreateDevice K (Some udc) (Some \<lparr>fd_data = DescDesc (Some des), functionMask = m\<rparr>) s = Some (r, t) \<and> calm t \<and> registry t \<and>
    (case r of
       None \<Rightarrow> (UsbFnGetDevice (Some udc) s = Some None \<longrightarrow> \<not> grants K udc des s) \<and>
         live (g_mem t) = live (g_mem s) \<and> frame (live (g_mem s)) s t \<and> (\<forall>u. UsbFnGetDevice (Some u) t = UsbFnGetDevice (Some u) s)
     | Some dev \<Rightarrow> UsbFnGetDevice (Some udc) s = Some None \<and> created s udc des None dev t \<and>
         (\<forall>u. UsbFnGetDevice (Some u) t = (if u = udc then Some (Some dev) else UsbFnGetDevice (Some u) s)))"
proof -
  obtain r t where r: "UsbFnCreateDevice K (Some udc) (Some \<lparr>fd_data = DescDesc (Some des), functionMask = m\<rparr>) s = Some (r, t)"
    "case r of None \<Rightarrow> (devmap s udc = None \<longrightarrow> \<not> grants K udc des s) \<and> calm t \<and> live (g_mem t) = live (g_mem s) \<and> frame (live (g_mem s)) s t
     | Some dev \<Rightarrow> devmap s udc = None \<and> created s udc des None dev t"
    using create_run[OF assms, of udc m] by blast
  have get: "UsbFnGetDevice (Some u) x = Some (devmap x u)" if "registry x" for u x
    using UsbFnMgrDeviceGet_run[OF that] by (simp add: UsbFnGetDevice_def)
  show ?thesis
  proof (cases r)
    case None
    then have t: "calm t" "live (g_mem t) = live (g_mem s)" "frame (live (g_mem s)) s t" "devmap s udc = None \<longrightarrow> \<not> grants K udc des s" using r(2) by simp_all
    from t(2,3) have "registry t \<and> devmap t = devmap s"
      using assms(2) by (intro registry_cong) (auto simp: frame_def dev_list_def registry_def)
    then show ?thesis using None r(1) t get[of t] get[OF assms(2)] by simp
  next
    case (Some dev)
    then have t: "devmap s udc = None" "created s udc des None dev t" using r(2) by simp_all
    then have "calm t" by (auto simp: created_def)
    then show ?thesis using Some r(1) t created_registry[OF assms(2) t] get[of t] get[OF assms(2)] by simp
  qed
qed

subsection \<open>An example\<close>

definition ex_dev_os :: "(cfs_op list \<times> string set) fn_os" where
  "ex_dev_os = tree_os\<lparr>fo_opendir := (\<lambda>p k. (Some [], k)), fo_mkdir := (\<lambda>p k. (0, k)),
     fo_thread_create := (\<lambda>k. (HDF_SUCCESS, k)), fo_thread_start := (\<lambda>k. (HDF_SUCCESS, k)), fo_thread_destroy := (\<lambda>k. (HDF_SUCCESS, k)), fo_drs := Some hcs_sample\<rparr>"

abbreviation ex_start :: "(cfs_op list \<times> string set) gadget" where
  "ex_start \<equiv> null_gadget ([], {})"

lemma ex_des_ok: "IsDescriptorOk (Some ex_full_des) = HDF_SUCCESS" "fn_configs ex_full_des = Some ex_configs"
  by (simp_all add: IsDescriptorOk_def ex_full_des_def ex_des_def ex_configs_def ex_acm_def)

lemma ex_null: "calm ex_start" "registry ex_start" "devmap ex_start u = None" "dev_list ex_start = []"
  by (simp_all add: calm_def mem_ok_def registry_def dev_list_def devmap_def null_gadget_def)

lemma ex_dev_obliging: "obliging ex_dev_os fst (\<lambda>k. UNIV)"
  by (auto simp: obliging_def ex_dev_os_def tree_os_def null_fn_os_def step_def)

lemma ex_dev_deletable: "deletable ex_dev_os"
  by (simp add: deletable_def DelConfigDevice_def DeleteFile_def IsDir_def ex_dev_os_def tree_os_def null_fn_os_def)

lemma ex_dev_alloc: "fo_alloc ex_dev_os a n"
  by (simp add: ex_dev_os_def tree_os_def null_fn_os_def)

lemma id_name_length: "n \<in> {1..31} \<Longrightarrow> length (id_name n) \<le> 3"
  using dec_length[of "nat n" 1] by (simp add: id_name_def nat_less_iff)

lemma ex_threads: "threads_start ex_dev_os"
  by (simp add: threads_start_def ex_dev_os_def)

lemma ex_udc_ok: "udc_ok ''udc''"
  by (simp add: udc_ok_def MAX_NAMELEN_def)

lemma ex_creates:
  assumes "n \<in> {1..31}" "calm t" "device_ok des" "short_names des"
  shows "\<exists>t'. UsbFnAdapterCreateDevice ex_dev_os ''udc'' (id_name n) des t = Some (HDF_SUCCESS, t')"
proof -
  have "mem_quiet ex_dev_os t" using assms(2) ex_dev_alloc by (simp add: calm_def mem_quiet_def)
  then show ?thesis using CreateDevice_did[OF ex_dev_obliging _ assms(3,4) ex_udc_ok id_name_length[OF assms(1)]] by blast
qed

lemma ex_removes:
  assumes "fn_configs des = Some gs"
  shows "removes ex_dev_os ''udc'' des"
proof -
  have "\<exists>k'. UsbFnAdapterDelDevice ex_dev_os (id_name n) ''udc'' des k = Some (HDF_SUCCESS, k')" if n: "n \<in> {1..31}" for n k
  proof -
    let ?d = "id_name n"
    have "fits MAX_PATHLEN (dev_path ?d [''UDC''])" "fits MAX_PATHLEN (clear_cmd (dev_path ?d [''UDC'']))" "fits MAX_PATHLEN (dev_path ?d [])"
      using id_name_length[OF n] by (simp_all add: path_fits clear_cmd_def)
    then have "\<exists>k1. UsbFnAdapterWriteUDC ex_dev_os ?d ''udc'' False k = Some (HDF_SUCCESS, k1)"
      by (simp add: UsbFnAdapterWriteUDC_def IsDeviceDirExist_def IsDirExist_def Let_def clear_cmd_def) (simp add: ex_dev_os_def)
    then obtain k1 where 1: "UsbFnAdapterWriteUDC ex_dev_os ?d ''udc'' False k = Some (HDF_SUCCESS, k1)" by blast
    have "\<exists>k3. DelConfigDevice ex_dev_os ?d k2 = Some k3" if "?d \<noteq> ''g1''" for k2 using ex_dev_deletable that unfolding deletable_def by blast
    from this[of "del_configs ex_dev_os ?d gs k1"] show ?thesis
      using 1 assms by (cases "?d = ''g1''") (auto simp: UsbFnAdapterDelDevice_def Let_def)
  qed
  moreover have "\<forall>k. fst (fo_thread_destroy ex_dev_os k) = HDF_SUCCESS" by (simp add: ex_dev_os_def)
  ultimately show ?thesis by (simp add: removes_def)
qed

lemma ex_grants_any: "dev_list s = [] \<Longrightarrow> device_ok des \<Longrightarrow> short_names des \<Longrightarrow> grants ex_dev_os ''udc'' des s"
  using ex_creates ex_dev_alloc by (simp add: grants_def fits_def MAX_NAMELEN_def used_ids_def)

lemma ex_grants: "grants ex_dev_os ''udc'' ex_full_des ex_start"
  by (rule ex_grants_any[OF ex_null(4) ex_device_ok])

lemma ex_created:
  "\<exists>dev t. UsbFnCreateDevice ex_dev_os (Some ''udc'') (Some \<lparr>fd_data = DescDesc (Some ex_full_des), functionMask = 0\<rparr>) ex_start = Some (Some dev, t) \<and>
     created ex_start ''udc'' ex_full_des None dev t"
  using create_run[OF ex_null(1,2) ex_des_ok ex_table_ok ex_threads ex_device_ok(1) ex_dev_deletable, of "''udc''" 0] ex_grants ex_null(3)[of "''udc''"]
  by (auto split: option.splits)

theorem UsbFnCreateDevice_registers_witness:
  "\<exists>dev t. UsbFnCreateDevice ex_dev_os (Some ''udc'') (Some \<lparr>fd_data = DescDesc (Some ex_full_des), functionMask = 0\<rparr>) ex_start = Some (Some dev, t) \<and>
     UsbFnGetDevice (Some ''udc'') t = Some (Some dev) \<and> UsbFnGetDevice (Some ''other'') t = Some None"
proof -
  have g: "UsbFnGetDevice (Some u) ex_start = Some None" for u
    by (simp add: UsbFnGetDevice_def UsbFnMgrDeviceGet_def null_gadget_def)
  from UsbFnCreateDevice_registers[OF ex_null(1,2) ex_des_ok ex_table_ok ex_threads ex_device_ok(1) ex_dev_deletable, of "''udc''" 0]
  obtain r t where r: "UsbFnCreateDevice ex_dev_os (Some ''udc'') (Some \<lparr>fd_data = DescDesc (Some ex_full_des), functionMask = 0\<rparr>) ex_start = Some (r, t)"
    "case r of None \<Rightarrow> \<not> grants ex_dev_os ''udc'' ex_full_des ex_start
     | Some dev \<Rightarrow> \<forall>u. UsbFnGetDevice (Some u) t = (if u = ''udc'' then Some (Some dev) else UsbFnGetDevice (Some u) ex_start)"
    using g[of "''udc''"] by (auto split: option.splits)
  then obtain dev where "r = Some dev" using ex_grants by (cases r) auto
  then show ?thesis using r g by auto
qed

text \<open>
  Where the polling thread cannot be started, the device is freed but stays in the list: the next lookup reads freed memory.
\<close>

lemma thread_failure_dangles:
  "\<exists>t. UsbFnCreateDevice (ex_dev_os\<lparr>fo_thread_start := (\<lambda>k. (RetErr HDF_FAILURE, k))\<rparr>) (Some ''udc'')
       (Some \<lparr>fd_data = DescDesc (Some ex_full_des), functionMask = 0\<rparr>) ex_start = Some (None, t) \<and> UsbFnGetDevice (Some ''udc'') t = None"
proof -
  define K where "K = ex_dev_os\<lparr>fo_thread_start := (\<lambda>k. (RetErr HDF_FAILURE, k))\<rparr>"
  have ob: "obliging K fst (\<lambda>k. UNIV)" by (auto simp: K_def obliging_def ex_dev_os_def tree_os_def null_fn_os_def step_def)
  have del: "deletable K" by (simp add: K_def deletable_def DelConfigDevice_def DeleteFile_def IsDir_def ex_dev_os_def tree_os_def null_fn_os_def)
  have al: "fo_alloc K a n" for a n using ex_dev_alloc by (simp add: K_def)
  have "\<exists>t'. UsbFnAdapterCreateDevice K ''udc'' (id_name n) ex_full_des t = Some (HDF_SUCCESS, t')" if "n \<in> {1..31}" "calm t" for n t
    using CreateDevice_did[OF ob _ ex_device_ok ex_udc_ok id_name_length[OF that(1)], of t] al that(2) by (auto simp: mem_quiet_def calm_def)
  then have g: "grants K ''udc'' ex_full_des ex_start"
    using al by (simp add: grants_def fits_def MAX_NAMELEN_def used_ids_def ex_null)
  then obtain dev x where x: "UsbFnMgrDeviceCreate K (Some ''udc'') (Some ex_full_des) None ex_start = start_dev K dev x"
    "created ex_start ''udc'' ex_full_des None dev x"
    using UsbFnMgrDeviceCreate_run[OF ex_null(1,2) ex_des_ok(2) ex_table_ok ex_device_ok(1) del, of "''udc''" None] by blast
  have "StartThreadIo K x = (RetErr HDF_ERR_DEVICE_BUSY, set_fkern (g_kern x) x)" by (simp add: StartThreadIo_def K_def ex_dev_os_def)
  then obtain t where t: "start_dev K dev x = Some (None, t)" "dev_list t = [dev]" "g_fdevs t dev = None"
    using start_dev_fails[OF x(2)] unfolding ex_null(4) by fastforce
  have "g_devEntry t = Some [dev]" using t(2) by (auto simp: dev_list_def split: option.splits)
  then have "UsbFnGetDevice (Some ''udc'') t = None" using t(3) by (simp add: UsbFnGetDevice_def UsbFnMgrDeviceGet_def)
  moreover have "UsbFnMgrDeviceGet (Some ''udc'') ex_start = Some None" by (simp add: UsbFnMgrDeviceGet_def null_gadget_def)
  then have "UsbFnCreateDevice K (Some ''udc'') (Some \<lparr>fd_data = DescDesc (Some ex_full_des), functionMask = 0\<rparr>) ex_start = Some (None, t)"
    using x(1) t(1) ex_des_ok(1) by (simp add: UsbFnCreateDevice_def)
  ultimately show ?thesis unfolding K_def by blast
qed

subsection \<open>Removing\<close>

text \<open>What the polling thread does while another thread sleeps: one round.\<close>

definition poll_thread :: "'k fn_os \<Rightarrow> ptr \<Rightarrow> 'k gadget \<Rightarrow> 'k gadget" where
  "poll_thread K dev s = (case UsbFnEventProcess_round K dev s of None \<Rightarrow> s | Some (go, s') \<Rightarrow> s')"

text \<open>The handshake: the thread sees that it has to stop and says so by setting the flag again.\<close>

lemma remove_wait_run:
  assumes "g_fdevs s dev = Some d" "\<not> dm_running d"
  shows "remove_wait (poll_thread K dev) 21 dev s = Some (put_fdev dev (d\<lparr>dm_running := True\<rparr>) s)"
proof -
  have "poll_thread K dev s = put_fdev dev (d\<lparr>dm_running := True\<rparr>) s"
    using assms by (simp add: poll_thread_def UsbFnEventProcess_round_def)
  moreover have "21 = Suc (Suc 19)" by simp
  ultimately show ?thesis using assms by (simp only: remove_wait.simps) simp
qed

lemma removes_run:
  assumes "removes K udc des"
  shows "\<exists>k'. fo_thread_destroy K k = (HDF_SUCCESS, k')"
  using assms by (auto simp: removes_def prod_eq_iff)

lemma gfree_listed:
  assumes "calm t" "p \<in> live (g_mem t)" "p \<notin> L" "frame L s (t\<lparr>g_devEntry := e\<rparr>)"
  shows "\<exists>t'. gfree (Some p) t = Some t' \<and> calm t' \<and> live (g_mem t') = live (g_mem t) - {p} \<and> g_devEntry t' = g_devEntry t \<and>
    g_kern t' = g_kern t \<and> frame L s (t'\<lparr>g_devEntry := e\<rparr>)"
proof -
  have "\<forall>q \<in> L. q \<noteq> p" using assms(3) by auto
  then show ?thesis using assms(1,2,4) by (simp add: gfree_off calm_def mem_ok_def frame_def)
qed

text \<open>
  The blocks of the description that the removal releases: those of a description that was read from the resource tree.  \<open>held\<close>: they are
  live and no devices, and the tables are not too long to be walked.
\<close>

definition read_blocks :: "nat option \<Rightarrow> UsbFnDeviceDesc \<Rightarrow> ptr list" where
  "read_blocks node des = (case (node, fn_blocks des) of (Some n, Some h) \<Rightarrow> device_freed h | _ \<Rightarrow> [])"

definition held :: "nat option \<Rightarrow> UsbFnDeviceDesc \<Rightarrow> 'k gadget \<Rightarrow> bool" where
  "held node des s \<longleftrightarrow> (node \<noteq> None \<longrightarrow> fn_blocks des \<noteq> None \<and> small_device (the (fn_blocks des))) \<and>
     distinct (read_blocks node des) \<and> set (read_blocks node des) \<subseteq> live (g_mem s) - set (dev_list s)"

lemma held_given [simp]: "held None des s"
  by (simp add: held_def read_blocks_def)

lemma read_blocks_given [simp]: "read_blocks None des = []"
  by (simp add: read_blocks_def)

lemma free_read_blocks:
  assumes "held node des s" "calm t" "set (read_blocks node des) \<subseteq> live (g_mem t)"
  shows "\<exists>t'. (if node = None then Some t else do { h \<leftarrow> fn_blocks des; UsbFnCfgMgrFreeUsbFnDeviceDesc (Some h) t }) = Some t' \<and> calm t' \<and>
    live (g_mem t') = live (g_mem t) - set (read_blocks node des) \<and> frame (- set (read_blocks node des)) t t'"
proof (cases node)
  case (Some n)
  then obtain h where h: "fn_blocks des = Some h" "small_device h" using assms(1) by (auto simp: held_def)
  have r: "read_blocks node des = device_freed h" using Some h(1) by (simp add: read_blocks_def)
  show ?thesis using FreeUsbFnDeviceDesc_frees[OF h(2), unfolded frees_def, rule_format, of t] Some h(1) assms unfolding r held_def by simp
qed (use assms in simp)

lemma remove_run:
  assumes "registry s" "devmap s udc = None" "created s udc des node dev t" "removes K udc des" "held node des s"
  shows "\<exists>t'. UsbFnRemoveDevice K (poll_thread K dev) (Some dev) t = Some (HDF_SUCCESS, t') \<and> live (g_mem t') = live (g_mem s) - set (read_blocks node des) \<and>
    frame (live (g_mem s) - set (read_blocks node des)) s (t'\<lparr>g_devEntry := g_devEntry s\<rparr>) \<and> dev_list t' = dev_list s \<and> calm t' \<and> registry t' \<and>
    (\<forall>u. UsbFnGetDevice (Some u) t' = UsbFnGetDevice (Some u) s)"
proof -
  let ?L = "live (g_mem s)"
  let ?R = "set (read_blocks node des)"
  have R: "?R \<subseteq> ?L" "?R \<inter> set (dev_list s) = {}" using assms(5) by (auto simp: held_def)
  obtain ia fa d where c: "calm t" "live (g_mem t) = ?L \<union> {dev, ia, fa}" "distinct [dev, ia, fa]" "{dev, ia, fa} \<inter> ?L = {}"
    "frame ?L s (t\<lparr>g_devEntry := g_devEntry s\<rparr>)" "g_devEntry t = Some (dev_list s @ [dev])" "g_fdevs t dev = Some d" "dm_des d = Some des"
    "dm_funcMgr d = Some fa" "dm_interfaceMgr d = Some ia" "dm_running d" "dm_udcName d = udc" "dm_name d = id_name (dm_objectId d)"
    "dm_objectId d \<in> {1..31}" "dm_node d = node" using assms(3) by (auto simp: created_def least_free_def)
  have nl: "\<forall>p \<in> ?L. p \<noteq> dev \<and> p \<noteq> ia \<and> p \<noteq> fa" using c(4) by auto
  let ?t = "put_fdev dev (d\<lparr>dm_running := True\<rparr>) (put_fdev dev (d\<lparr>dm_running := False\<rparr>) t)"
  have w: "remove_wait (poll_thread K dev) 21 dev (put_fdev dev (d\<lparr>dm_running := False\<rparr>) t) = Some ?t"
    using remove_wait_run[of "put_fdev dev (d\<lparr>dm_running := False\<rparr>) t" dev "d\<lparr>dm_running := False\<rparr>"] by simp
  obtain k1 where k1: "fo_thread_destroy K (g_kern t) = (HDF_SUCCESS, k1)" using removes_run[OF assms(4)] by blast
  obtain k2 where k2: "UsbFnAdapterDelDevice K (dm_name d) (dm_udcName d) des k1 = Some (HDF_SUCCESS, k2)"
    using assms(4) c(14) unfolding removes_def c(12,13) by blast
  have nd: "dev \<notin> set (dev_list s)" using assms(1) c(4) by (auto simp: registry_def)
  then have rm: "remove1 dev (dev_list s @ [dev]) = dev_list s" by (simp add: remove1_append)
  let ?u = "?t\<lparr>g_kern := k2, g_devEntry := Some (dev_list s), g_cfgEntry := None\<rparr>"
  have u: "calm ?u" "frame ?L s (?u\<lparr>g_devEntry := g_devEntry s\<rparr>)" "live (g_mem ?u) = ?L \<union> {dev, ia, fa}"
    using c(1,2,5) nl by (auto simp: frame_def calm_def)
  obtain u1 where u1: "gfree (Some fa) ?u = Some u1" "calm u1" "live (g_mem u1) = live (g_mem ?u) - {fa}" "g_devEntry u1 = Some (dev_list s)"
    "frame ?L s (u1\<lparr>g_devEntry := g_devEntry s\<rparr>)"
    using gfree_listed[OF u(1) _ _ u(2), of fa] u(3) c(4) by auto
  obtain u2 where u2: "gfree (Some ia) u1 = Some u2" "calm u2" "live (g_mem u2) = live (g_mem u1) - {ia}" "g_devEntry u2 = Some (dev_list s)"
    "frame ?L s (u2\<lparr>g_devEntry := g_devEntry s\<rparr>)"
    using gfree_listed[OF u1(2) _ _ u1(5), of ia] u1(3,4) u(3) c(3,4) by auto
  have l2: "live (g_mem u2) = ?L \<union> {dev}" using u2(3) u1(3) u(3) c(3,4) by auto
  then have "?R \<subseteq> live (g_mem u2)" using R(1) by auto
  from free_read_blocks[OF assms(5) u2(2) this] obtain u3 where f3:
    "(if node = None then Some u2 else do { h \<leftarrow> fn_blocks des; UsbFnCfgMgrFreeUsbFnDeviceDesc (Some h) u2 }) = Some u3" "calm u3"
    "live (g_mem u3) = live (g_mem u2) - ?R" "frame (- ?R) u2 u3" by blast
  have "dev \<notin> ?R" using R(1) c(4) by auto
  then have u3: "dev \<in> live (g_mem u3)" "frame (?L - ?R) s (u3\<lparr>g_devEntry := g_devEntry s\<rparr>)" "g_devEntry u3 = Some (dev_list s)"
    using f3(3,4) l2 u2(4,5) by (auto simp: frame_def)
  obtain v where v: "gfree (Some dev) u3 = Some v" "calm v" "live (g_mem v) = live (g_mem u3) - {dev}" "g_devEntry v = Some (dev_list s)"
    "frame (?L - ?R) s (v\<lparr>g_devEntry := g_devEntry s\<rparr>)"
    using gfree_listed[OF f3(2) u3(1) _ u3(2)] u3(3) c(4) by auto
  have run: "UsbFnRemoveDevice K (poll_thread K dev) (Some dev) t = Some (HDF_SUCCESS, v)"
    using c(6-10) c(15) w k1 k2 rm u1(1) u2(1) f3(1) v(1) by (simp add: UsbFnRemoveDevice_def UsbFnMgrDeviceRemove_def UsbFnCfgMgrUnRegisterAllProp_def)
  have lv: "live (g_mem v) = ?L - ?R" using v(3) f3(3) l2 c(4) by auto
  have dl: "dev_list v = dev_list s" using v(4) by (simp add: dev_list_def)
  have "registry v \<and> devmap v = devmap s"
    using dl lv v(5) assms(1) R(2) by (intro registry_cong) (auto simp: frame_def registry_def)
  then have "UsbFnGetDevice (Some u) v = UsbFnGetDevice (Some u) s" for u
    using UsbFnMgrDeviceGet_run[of v] UsbFnMgrDeviceGet_run[OF assms(1)] by (simp add: UsbFnGetDevice_def)
  then show ?thesis using run lv dl v(2,5) \<open>registry v \<and> _\<close> by blast
qed

text \<open>
  C22. Removing a device balances creating it: with a kernel that lets the device go, the call waits until the polling thread has
  noticed, takes the device out of the list, and releases exactly the memory that its creation took, and with it the blocks of a description that was read from the
  resource tree (\<open>read_blocks\<close>; none for a description that the client handed in); every other object and
  device is as it was before the creation, and the lookup no longer finds the device.
\<close>

theorem UsbFnRemoveDevice_balance:
  assumes "registry s" "devmap s udc = None" "created s udc des node dev t" "removes K udc des" "held node des s"
  shows "\<exists>t'. UsbFnRemoveDevice K (poll_thread K dev) (Some dev) t = Some (HDF_SUCCESS, t') \<and> live (g_mem t') = live (g_mem s) - set (read_blocks node des) \<and>
    frame (live (g_mem s) - set (read_blocks node des)) s (t'\<lparr>g_devEntry := g_devEntry s\<rparr>) \<and> dev_list t' = dev_list s \<and> calm t' \<and> registry t' \<and>
    (\<forall>u. UsbFnGetDevice (Some u) t' = UsbFnGetDevice (Some u) s)"
  by (rule remove_run[OF assms])

theorem UsbFnRemoveDevice_balance_witness:
  "\<exists>dev t t'. UsbFnCreateDevice ex_dev_os (Some ''udc'') (Some \<lparr>fd_data = DescDesc (Some ex_full_des), functionMask = 0\<rparr>) ex_start = Some (Some dev, t) \<and>
     UsbFnRemoveDevice ex_dev_os (poll_thread ex_dev_os dev) (Some dev) t = Some (HDF_SUCCESS, t') \<and> live (g_mem t') = {} \<and> dev_list t' = []"
proof -
  obtain dev t where c: "UsbFnCreateDevice ex_dev_os (Some ''udc'') (Some \<lparr>fd_data = DescDesc (Some ex_full_des), functionMask = 0\<rparr>) ex_start = Some (Some dev, t)"
    "created ex_start ''udc'' ex_full_des None dev t" using ex_created by blast
  from UsbFnRemoveDevice_balance[OF ex_null(2,3) c(2) ex_removes[OF ex_des_ok(2)] held_given]
  obtain t' where "UsbFnRemoveDevice ex_dev_os (poll_thread ex_dev_os dev) (Some dev) t = Some (HDF_SUCCESS, t')"
    "live (g_mem t') = live (g_mem ex_start)" "dev_list t' = []" unfolding ex_null(4) by auto
  then show ?thesis using c(1) by (auto simp: null_gadget_def)
qed

end
