(* ===== verification/Usbfn_Hcs_Create.thy ===== *)
theory Usbfn_Hcs_Create
  imports Usbfn_Devices
begin

text \<open>
  The configuration manager with the device manager: reading a description from the resource tree, creating a device from it, and removing the device.
\<close>

subsection \<open>Descriptions with the same content\<close>

lemma description_bare: "(description_of (bare_device d))\<lparr>fn_blocks := None\<rparr> = (description_of d)\<lparr>fn_blocks := None\<rparr>"
proof -
  have 1: "hcs_strings_of (bare_tab bare_strings t) = hcs_strings_of t" for t by (simp add: hcs_strings_of_def bare_tab_def bare_strings_def)
  have 2: "hcs_descs_of (bare_descs x) = hcs_descs_of x" for x by (cases x) (simp_all add: hcs_descs_of_def bare_descs_def bare_tab_def)
  have 3: "hcs_function_of (bare_function f) = hcs_function_of f" for f by (simp add: hcs_function_of_def bare_function_def 1 2)
  have 4: "hcs_config_of (bare_config c) = hcs_config_of c" for c by (simp add: hcs_config_of_def bare_config_def bare_tab_def 3)
  show ?thesis by (simp add: description_of_def bare_device_def 1) (simp add: bare_tab_def 4)
qed

lemma description_same:
  assumes "bare_device d = bare_device d0"
  shows "description_of d = (description_of d0)\<lparr>fn_blocks := Some d\<rparr>"
proof -
  have "(description_of d)\<lparr>fn_blocks := None\<rparr> = (description_of d0)\<lparr>fn_blocks := None\<rparr>" using description_bare[of d] description_bare[of d0] assms by simp
  then show ?thesis by (simp add: description_of_def)
qed

lemma ChangeFunction_blocks: "UsbFnChangeFunction (des\<lparr>fn_blocks := b\<rparr>) m = map_option (\<lambda>d. d\<lparr>fn_blocks := b\<rparr>) (UsbFnChangeFunction des m)"
  by (cases "fn_configs des"; cases "change_configs m (the (fn_configs des))") (simp_all add: UsbFnChangeFunction_def)

lemma blocks_irrelevant:
  "IsDescriptorOk (Some (des\<lparr>fn_blocks := b\<rparr>)) = IsDescriptorOk (Some des)" "device_ok (des\<lparr>fn_blocks := b\<rparr>) = device_ok des"
  "removes K udc (des\<lparr>fn_blocks := b\<rparr>) = removes K udc des"
  by (simp_all add: IsDescriptorOk_def device_ok_def removes_def UsbFnAdapterDelDevice_def cong: if_cong)

lemma grants_blocks: "grants K udc (des\<lparr>fn_blocks := b\<rparr>) s = grants K udc des s"
proof -
  have "EnableDevice K udc dev (des\<lparr>fn_blocks := b\<rparr>) k = EnableDevice K udc dev des k" for dev k
    by (simp add: EnableDevice_def UsbFnAdapterDelDevice_def cong: if_cong)
  then have "UsbFnAdapterCreateDevice K udc dev (des\<lparr>fn_blocks := b\<rparr>) t = UsbFnAdapterCreateDevice K udc dev des t" for dev t
    by (simp add: UsbFnAdapterCreateDevice_def cong: if_cong)
  then show ?thesis by (simp add: grants_def)
qed

subsection \<open>Creation\<close>

text \<open>What is asked of a tree and of the system for a device of the tree to be created.\<close>

definition tree_ready :: "'k fn_os \<Rightarrow> nat \<Rightarrow> u8 \<Rightarrow> hcs_device \<Rightarrow> UsbFnDeviceDesc \<Rightarrow> bool" where
  "tree_ready K node m d0 des \<longleftrightarrow> (\<forall>a n. fo_alloc K a n) \<and> (\<exists>D. fo_drs K = Some D \<and> reads_device D node d0) \<and> small_device d0 \<and>
     UsbFnChangeFunction (description_of d0) m = Some des \<and> IsDescriptorOk (Some des) = HDF_SUCCESS \<and> (\<exists>gs. fn_configs des = Some gs \<and> table_ok gs) \<and>
     device_ok des \<and> threads_start K \<and> deletable K"

lemma owns_registry:
  assumes "registry s" "owns s s1 ps"
  shows "registry s1 \<and> devmap s1 = devmap s" "dev_list s1 = dev_list s" "set ps \<inter> set (dev_list s) = {}"
proof -
  have "dev_list s1 = dev_list s" "\<forall>p. g_fdevs s1 p = g_fdevs s p" "live (g_mem s1) = live (g_mem s) \<union> set ps" "set ps \<inter> live (g_mem s) = {}"
    using assms(2) by (auto simp: owns_def dev_list_def)
  then show "registry s1 \<and> devmap s1 = devmap s" "dev_list s1 = dev_list s" "set ps \<inter> set (dev_list s) = {}"
    using assms(1) by - (intro registry_cong, auto simp: registry_def)
qed

lemma tree_create:
  assumes "calm s" "registry s" "devmap s udc = None" "tree_ready K node m d0 des0"
  shows "\<exists>d s1 r t. owns s s1 (hcs_blocks d) \<and> bare_device d = bare_device d0 \<and>
    UsbFnCreateDevice K (Some udc) (Some \<lparr>fd_data = DescProp node, functionMask = m\<rparr>) s = Some (r, t) \<and>
    (case r of None \<Rightarrow> \<not> grants K udc (des0\<lparr>fn_blocks := Some d\<rparr>) s1 \<and> calm t \<and> live (g_mem t) = live (g_mem s1) \<and> frame (live (g_mem s1)) s1 t
     | Some dev \<Rightarrow> created s1 udc (des0\<lparr>fn_blocks := Some d\<rparr>) (Some node) dev t)"
proof -
  obtain D gs where k: "\<forall>a n. fo_alloc K a n" "fo_drs K = Some D" "reads_device D node d0" "UsbFnChangeFunction (description_of d0) m = Some des0"
    "IsDescriptorOk (Some des0) = HDF_SUCCESS" "fn_configs des0 = Some gs" "table_ok gs" "device_ok des0" "threads_start K" "deletable K"
    using assms(4) by (auto simp: tree_ready_def)
  obtain d s1 where d: "UsbFnCfgMgrGetInstanceFromHCS K (Some node) s = Some (Some d, s1)" "bare_device d = bare_device d0" "owns s s1 (hcs_blocks d)"
    using GetInstance_reads[OF assms(1) k(1-3)] by blast
  let ?des = "des0\<lparr>fn_blocks := Some d\<rparr>"
  have ch: "UsbFnChangeFunction (description_of d) m = Some ?des" using k(4) by (simp add: description_same[OF d(2)] ChangeFunction_blocks)
  have "registry s1" using owns_registry[OF assms(2) d(3)] by blast
  then obtain r t where r: "UsbFnMgrDeviceCreate K (Some udc) (Some ?des) (Some node) s1 = Some (r, t)"
    "case r of None \<Rightarrow> \<not> grants K udc ?des s1 \<and> calm t \<and> live (g_mem t) = live (g_mem s1) \<and> frame (live (g_mem s1)) s1 t | Some dev \<Rightarrow> created s1 udc ?des (Some node) dev t"
    using device_create_run[OF owns_calm[OF d(3)], of ?des gs K udc "Some node"] k by (auto simp: blocks_irrelevant)
  have "UsbFnCreateDevice K (Some udc) (Some \<lparr>fd_data = DescProp node, functionMask = m\<rparr>) s = Some (r, t)"
    using UsbFnMgrDeviceGet_run[OF assms(2), of udc] assms(3) d(1) ch r(1) k(5) by (simp add: UsbFnCreateDevice_def blocks_irrelevant)
  then show ?thesis using d(2,3) r(2) by blast
qed

lemma tree_remove:
  assumes "registry s" "devmap s udc = None" "owns s s1 (hcs_blocks d)" "small_device d" "created s1 udc (des0\<lparr>fn_blocks := Some d\<rparr>) (Some node) dev t"
    and "removes K udc des0"
  shows "\<exists>t'. UsbFnRemoveDevice K (poll_thread K dev) (Some dev) t = Some (HDF_SUCCESS, t') \<and> live (g_mem t') = live (g_mem s) \<union> set (device_lost d) \<and>
    frame (live (g_mem s)) s (t'\<lparr>g_devEntry := g_devEntry s\<rparr>) \<and> calm t' \<and> registry t' \<and> (\<forall>u. UsbFnGetDevice (Some u) t' = UsbFnGetDevice (Some u) s)"
proof -
  let ?des = "des0\<lparr>fn_blocks := Some d\<rparr>"
  note reg = owns_registry[OF assms(1,3)]
  have o: "live (g_mem s1) = live (g_mem s) \<union> (set (device_freed d) \<union> set (device_lost d))" "distinct (device_freed d @ device_lost d)"
    "(set (device_freed d) \<union> set (device_lost d)) \<inter> live (g_mem s) = {}" "\<exists>m. s1 = s\<lparr>g_mem := m\<rparr>"
    using assms(3) by (simp_all add: owns_def device_parts)
  have rb: "read_blocks (Some node) ?des = device_freed d" by (simp add: read_blocks_def)
  have h: "held (Some node) ?des s1" using assms(4) o reg(2,3) unfolding held_def rb by (auto simp: device_parts)
  obtain t' where t': "UsbFnRemoveDevice K (poll_thread K dev) (Some dev) t = Some (HDF_SUCCESS, t')" "live (g_mem t') = live (g_mem s1) - set (device_freed d)"
    "frame (live (g_mem s1) - set (device_freed d)) s1 (t'\<lparr>g_devEntry := g_devEntry s1\<rparr>)" "calm t'" "registry t'"
    "\<forall>u. UsbFnGetDevice (Some u) t' = UsbFnGetDevice (Some u) s1"
    using remove_run[OF _ _ assms(5) _ h, of K] reg(1) assms(2,6) unfolding rb blocks_irrelevant by auto
  have lv: "live (g_mem t') = live (g_mem s) \<union> set (device_lost d)" unfolding t'(2) o(1) using o(2,3) by auto
  moreover have "frame (live (g_mem s)) s (t'\<lparr>g_devEntry := g_devEntry s\<rparr>)" using t'(2,3) o(4) lv by (auto simp: frame_def)
  moreover have "UsbFnGetDevice (Some u) s1 = UsbFnGetDevice (Some u) s" for u
    using UsbFnMgrDeviceGet_run[of s1] UsbFnMgrDeviceGet_run[OF assms(1)] reg(1) by (simp add: UsbFnGetDevice_def)
  ultimately show ?thesis using t'(1,4-6) by auto
qed

lemma owns_lost: "owns s s1 (hcs_blocks d) \<Longrightarrow> set (device_lost d) \<inter> live (g_mem s) = {}" "owns s s1 (hcs_blocks d) \<Longrightarrow> card (set (device_lost d)) = length (device_lost d)"
  by (auto simp: owns_def device_parts distinct_card)


subsection \<open>An example\<close>

lemma blocks_bare: "length (hcs_blocks (bare_device d)) = length (hcs_blocks d)"
proof -
  have 1: "length (tab_blocks strings_blocks (bare_tab bare_strings t)) = length (tab_blocks strings_blocks t)" for t
    by (simp add: tab_blocks_def bare_tab_def length_concat o_def strings_blocks_def)
  have 2: "length (descs_blocks (bare_descs x)) = length (descs_blocks x)" for x by (cases x) (simp_all add: descs_blocks_def bare_descs_def bare_tab_def tab_blocks_def length_concat o_def)
  have 3: "length (function_blocks (bare_function f)) = length (function_blocks f)" for f by (simp add: function_blocks_def bare_function_def 1 2)
  have 4: "length (config_blocks (bare_config c)) = length (config_blocks c)" for c
    by (simp add: config_blocks_def bare_config_def tab_blocks_def bare_tab_def length_concat o_def 3)
  show ?thesis by (simp add: hcs_blocks_def bare_device_def 1) (simp add: tab_blocks_def bare_tab_def length_concat o_def 4)
qed

lemma sample_blocks: "length (hcs_blocks sample_device) = 19"
  by (simp add: hcs_blocks_def sample_device_def tab_blocks_def sample_strings_def strings_blocks_def sample_config_def config_blocks_def sample_function_def function_blocks_def
      descs_blocks_def)

lemma sample_lost: "length (device_lost sample_device) = 2" "small_device sample_device"
  by (simp_all add: device_lost_def small_device_def sample_device_def strtab_lost_def sample_strings_def sample_config_def config_lost_def function_lost_def sample_function_def
      small_config_def small_function_def small_descs_def)

definition sample_read :: UsbFnFunction where
  "sample_read = \<lparr>fn_enable = True, funcName = ''f_generic.x'', fn_strings = [\<lparr>us_language = 0x409, us_strings = [[72, 87], [72, 68, 67]]\<rparr>],
     fsDescriptors = Some [[9, 4, 0, 0, 1, 2, 2, 1, 5], [7, 5, 0x81, 3, 10, 0, 9]], hsDescriptors = Some [[9, 4, 0, 0, 1, 2, 2, 1, 5]],
     ssDescriptors = Some [[9, 4, 0, 0, 1, 2, 2, 1, 5]], sspDescriptors = None\<rparr>"

definition sample_configs :: "UsbFnConfiguration list" where
  "sample_configs = [\<lparr>configurationValue = 1, iConfiguration = 0, fc_attributes = 0xC0, maxPower = 500, fc_functions = [sample_read]\<rparr>]"

definition sample_des :: UsbFnDeviceDesc where
  "sample_des = (description_of sample_device)\<lparr>fn_configs := Some sample_configs\<rparr>"

lemma sample_change: "UsbFnChangeFunction (description_of sample_device) 0 = Some sample_des"
  by (simp add: UsbFnChangeFunction_def description_of_def sample_des_def sample_device_def sample_config_def hcs_config_of_def sample_configs_def DoChangeFunction_def
      hcs_function_of_def sample_function_def sample_read_def hcs_strings_of_def sample_strings_def bytes_of_def hcs_descs_of_def has_prefix_def FUNCTION_GENERIC_ACM_def FUNCTION_GENERIC_ECM_def)

lemma sample_fields: "fn_configs sample_des = Some sample_configs" "deviceDesc sample_des = Some (snd (hd_desc sample_device))"
    "deviceStrings sample_des = Some [\<lparr>us_language = 0x409, us_strings = [[72, 87], [72, 68, 67]]\<rparr>]"
  by (simp_all add: sample_des_def description_of_def sample_device_def hcs_strings_of_def sample_strings_def bytes_of_def)

lemma sample_pipes: "pipes_ok sample_read"
proof -
  have "strings_ok 2 (fn_strings sample_read)" by (simp add: sample_read_def strings_ok_def strings_block_def lang_block_def Let_def)
  moreover have "descs_ok (the (fsDescriptors sample_read)) (the (hsDescriptors sample_read)) (the (ssDescriptors sample_read))"
    by (simp add: sample_read_def descs_ok_def desc_ok_def descs_body_def speed_count_def)
  ultimately show ?thesis by (auto simp: pipes_ok_def) (auto simp: sample_read_def)
qed

lemma sample_ok: "device_ok sample_des" "short_names sample_des" "IsDescriptorOk (Some sample_des) = HDF_SUCCESS" "table_ok sample_configs"
proof -
  show "device_ok sample_des" using sample_pipes
    by (simp add: device_ok_def sample_fields strs_ok_def conf_ok_def func_ok_def sample_configs_def) (simp add: device_strings_def sample_device_def)
  show "short_names sample_des" by (simp add: short_names_def sample_fields sample_configs_def short_name_def sample_read_def)
  show "IsDescriptorOk (Some sample_des) = HDF_SUCCESS" by (simp add: IsDescriptorOk_def sample_fields sample_configs_def sample_read_def)
  have "generics sample_configs = [(1, sample_read)]"
    by (simp add: generics_def sample_configs_def generic_func_def has_prefix_def FUNCTION_GENERIC_def sample_read_def)
  then show "table_ok sample_configs"
    by (simp add: table_ok_def gen_ok_def func_descs_def sample_read_def wf_fdesc_def intf_count_def is_intf_def fits_def MAX_NAMELEN_def)
qed

lemma sample_ready: "tree_ready ex_dev_os 0 0 sample_device sample_des"
proof -
  have "fo_drs ex_dev_os = Some hcs_sample" by (simp add: ex_dev_os_def)
  then show ?thesis using ex_dev_alloc sample_reads sample_lost(2) sample_change sample_ok sample_fields(1) ex_threads ex_dev_deletable by (simp add: tree_ready_def)
qed

subsection \<open>Properties\<close>

text \<open>
  C18. Reading a device from the resource tree.  Where the tree describes the device \<open>d0\<close>, attribute by attribute, list by list and descriptor by descriptor, and memory is available, the call returns a
  device with exactly this content, made of new blocks that are all different; nothing else of the state changes.
\<close>

theorem UsbFnCfgMgrGetInstanceFromHCS_reads:
  assumes "calm s" "\<forall>a n. fo_alloc K a n" "fo_drs K = Some D" "reads_device D n d0"
  shows "\<exists>d s'. UsbFnCfgMgrGetInstanceFromHCS K (Some n) s = Some (Some d, s') \<and> bare_device d = bare_device d0 \<and> owns s s' (hcs_blocks d)"
  by (rule GetInstance_reads[OF assms])

theorem UsbFnCfgMgrGetInstanceFromHCS_reads_witness:
  "\<exists>d s'. UsbFnCfgMgrGetInstanceFromHCS ex_dev_os (Some 0) ex_start = Some (Some d, s') \<and> bare_device d = bare_device sample_device \<and> length (hcs_blocks d) = 19 \<and>
     card (live (g_mem s')) = 19"
proof -
  have "\<forall>a n. fo_alloc ex_dev_os a n" "fo_drs ex_dev_os = Some hcs_sample" using ex_dev_alloc by (auto simp: ex_dev_os_def)
  from UsbFnCfgMgrGetInstanceFromHCS_reads[OF ex_null(1) this sample_reads] obtain d s' where
    d: "UsbFnCfgMgrGetInstanceFromHCS ex_dev_os (Some 0) ex_start = Some (Some d, s')" "bare_device d = bare_device sample_device" "owns ex_start s' (hcs_blocks d)" by blast
  have "length (hcs_blocks d) = 19"
    using blocks_bare[of d] blocks_bare[of sample_device] d(2) by (simp add: sample_blocks)
  moreover have "live (g_mem s') = set (hcs_blocks d)" "distinct (hcs_blocks d)" using d(3) by (simp_all add: owns_def null_gadget_def)
  ultimately show ?thesis using d(1,2) distinct_card by fastforce
qed

text \<open>
  C19. The block of a descriptor.  Where the attributes that a descriptor of a known type needs are in the tree, and memory is available, the descriptor is read correctly exactly
  if its attribute \<open>bLength\<close> covers its fields: the block then has the fields in their order, padded with zeros.  Otherwise the parser writes behind the end of the block: the length is not checked.
\<close>

theorem UsbFnCfgMgrParseDesc_bounds:
  assumes "calm s" "\<forall>a n. fo_alloc K a n" "dr_uint8 D n ''bLength'' = Some len" "dr_uint8 D n ''bDescriptorType'' = Some ty"
    and "desc_layout ty len = Some fs" "spell D n fs = Some bs"
  shows "if unat len < length bs then UsbFnCfgMgrParseDesc K D n s = None
    else \<exists>a s'. UsbFnCfgMgrParseDesc K D n s = Some (Some (a, bs @ replicate (unat len - length bs) 0), s') \<and> owns s s' [a]"
  by (rule ParseDesc_cases[OF assms])

theorem UsbFnCfgMgrParseDesc_bounds_witness:
  "UsbFnCfgMgrParseDesc ex_dev_os hcs_sample 10 ex_start = None \<and>
   (\<exists>a s'. UsbFnCfgMgrParseDesc ex_dev_os hcs_sample 9 ex_start = Some (Some (a, [7, 5, 0x81, 3, 10, 0, 9]), s'))"
proof -
  let ?fs = "[F8 ''bLength'', F8 ''bDescriptorType'', F8 ''bEndpointAddress'', F8 ''bmAttributes'', F16 ''wMaxPacketSize'', F8 ''bInterval'']"
  have al: "\<forall>a n. fo_alloc ex_dev_os a n" using ex_dev_alloc by blast
  have 10: "dr_uint8 hcs_sample 10 ''bLength'' = Some 4" "dr_uint8 hcs_sample 10 ''bDescriptorType'' = Some 5" "desc_layout 5 4 = Some ?fs"
    "spell hcs_sample 10 ?fs = Some [4, 5, 0x81, 3, 10, 0, 9]" by (simp_all add: hcs_sample_def curry_def desc_layout_def le16_bytes_def)
  have 9: "dr_uint8 hcs_sample 9 ''bLength'' = Some 7" "dr_uint8 hcs_sample 9 ''bDescriptorType'' = Some 5" "desc_layout 5 7 = Some ?fs"
    "spell hcs_sample 9 ?fs = Some [7, 5, 0x81, 3, 10, 0, 9]" by (simp_all add: hcs_sample_def curry_def desc_layout_def le16_bytes_def)
  show ?thesis using UsbFnCfgMgrParseDesc_bounds[OF ex_null(1) al 10] UsbFnCfgMgrParseDesc_bounds[OF ex_null(1) al 9] by auto
qed

text \<open>
  C17. The life of a device of the resource tree, through the configuration manager, the device manager and the adapter.  Where the tree describes a device that can be created, creating it by the node of the
  tree returns.  Where a device is returned, removing it releases all memory that was taken for the device and for its description,
  except one block per table of strings, which the configuration manager forgets; every older object is as before, and the lookup finds what it found before.  Where no device is returned, the
  whole description stays allocated.
\<close>

theorem UsbFnCreateDevice_tree_life:
  assumes "calm s" "registry s" "devmap s udc = None" "tree_ready K node m d0 des" "removes K udc des"
  shows "\<exists>d r t. UsbFnCreateDevice K (Some udc) (Some \<lparr>fd_data = DescProp node, functionMask = m\<rparr>) s = Some (r, t) \<and> bare_device d = bare_device d0 \<and>
    set (hcs_blocks d) \<inter> live (g_mem s) = {} \<and> card (set (device_lost d)) = length (device_lost d0) \<and>
    (case r of
       None \<Rightarrow> \<not> grants K udc des s \<and> live (g_mem t) = live (g_mem s) \<union> set (hcs_blocks d)
     | Some dev \<Rightarrow> \<exists>t'. UsbFnRemoveDevice K (poll_thread K dev) (Some dev) t = Some (HDF_SUCCESS, t') \<and> live (g_mem t') = live (g_mem s) \<union> set (device_lost d) \<and>
         frame (live (g_mem s)) s (t'\<lparr>g_devEntry := g_devEntry s\<rparr>) \<and> calm t' \<and> registry t' \<and> (\<forall>u. UsbFnGetDevice (Some u) t' = UsbFnGetDevice (Some u) s))"
proof -
  obtain d s1 r t where d: "owns s s1 (hcs_blocks d)" "bare_device d = bare_device d0"
    "UsbFnCreateDevice K (Some udc) (Some \<lparr>fd_data = DescProp node, functionMask = m\<rparr>) s = Some (r, t)"
    "case r of None \<Rightarrow> \<not> grants K udc (des\<lparr>fn_blocks := Some d\<rparr>) s1 \<and> calm t \<and> live (g_mem t) = live (g_mem s1) \<and> frame (live (g_mem s1)) s1 t
     | Some dev \<Rightarrow> created s1 udc (des\<lparr>fn_blocks := Some d\<rparr>) (Some node) dev t" using tree_create[OF assms(1-4)] by blast
  have sm: "small_device d" using assms(4) d(2) small_bare by (metis tree_ready_def)
  have own: "set (hcs_blocks d) \<inter> live (g_mem s) = {}" "live (g_mem s1) = live (g_mem s) \<union> set (hcs_blocks d)" "\<exists>x. s1 = s\<lparr>g_mem := x\<rparr>"
    using d(1) by (auto simp: owns_def)
  have gr: "grants K udc des s1 = grants K udc des s" using own(3) by (elim exE) (simp add: grants_def used_ids_def dev_list_def dev_of_def)
  have "card (set (device_lost d)) = length (device_lost d0)" using owns_lost(2)[OF d(1)] lost_bare d(2) by metis
  then show ?thesis
    using d own(1,2) gr tree_remove[OF assms(2,3) d(1) sm _ assms(5)] by (intro exI[of _ d] exI[of _ r] exI[of _ t]) (auto simp: grants_blocks split: option.splits)
qed

theorem UsbFnCreateDevice_tree_life_witness:
  "\<exists>dev t t'. UsbFnCreateDevice ex_dev_os (Some ''udc'') (Some \<lparr>fd_data = DescProp 0, functionMask = 0\<rparr>) ex_start = Some (Some dev, t) \<and>
     UsbFnRemoveDevice ex_dev_os (poll_thread ex_dev_os dev) (Some dev) t = Some (HDF_SUCCESS, t') \<and> card (live (g_mem t')) = 2 \<and>
     UsbFnGetDevice (Some ''udc'') t' = UsbFnGetDevice (Some ''udc'') ex_start"
proof -
  have "grants ex_dev_os ''udc'' sample_des ex_start" by (rule ex_grants_any[OF ex_null(4) sample_ok(1,2)])
  then obtain d dev t t' where d: "UsbFnCreateDevice ex_dev_os (Some ''udc'') (Some \<lparr>fd_data = DescProp 0, functionMask = 0\<rparr>) ex_start = Some (Some dev, t)"
    "card (set (device_lost d)) = length (device_lost sample_device)" "UsbFnRemoveDevice ex_dev_os (poll_thread ex_dev_os dev) (Some dev) t = Some (HDF_SUCCESS, t')"
    "live (g_mem t') = live (g_mem ex_start) \<union> set (device_lost d)" "\<forall>u. UsbFnGetDevice (Some u) t' = UsbFnGetDevice (Some u) ex_start"
    using UsbFnCreateDevice_tree_life[OF ex_null(1-3) sample_ready ex_removes[OF sample_fields(1)]] by (auto split: option.splits)
  then show ?thesis by (auto simp: null_gadget_def sample_lost)
qed

end
