(* ===== verification/Usbfn_Registry.thy ===== *)
theory Usbfn_Registry
  imports Usbfn_Open
begin

text \<open>
  The list of properties is a map from interface and name to a value.  The contract of such a store is a locale; the interpretation
  shows that the calls of the configuration manager provide it.
\<close>

subsection \<open>The contract\<close>

text \<open>
  A store of named values with several ways to write one: \<open>put\<close> is \<open>None\<close> where the value is refused; a value that is accepted is what the
  key has from then on, and no other key is changed.
\<close>

fun puts :: "('how \<Rightarrow> 'key \<Rightarrow> 'val \<Rightarrow> 's \<Rightarrow> 's option) \<Rightarrow> ('how \<times> 'key \<times> 'val) list \<Rightarrow> 's \<Rightarrow> 's option" where
  "puts put [] s = Some s"
| "puts put ((h, k, v) # xs) s = do { t \<leftarrow> put h k v s; puts put xs t }"

locale value_store =
  fixes inv :: "'s \<Rightarrow> bool" and view :: "'s \<Rightarrow> 'key \<Rightarrow> 'val option" and put :: "'how \<Rightarrow> 'key \<Rightarrow> 'val \<Rightarrow> 's \<Rightarrow> 's option"
  assumes put_inv: "inv s \<Longrightarrow> put h k v s = Some t \<Longrightarrow> inv t"
    and put_view: "inv s \<Longrightarrow> put h k v s = Some t \<Longrightarrow> view t = (view s)(k \<mapsto> v)"
begin

lemma puts_view: "inv s \<Longrightarrow> puts put xs s = Some t \<Longrightarrow> inv t \<and> view t = view s ++ map_of (rev (map snd xs))"
proof (induction xs arbitrary: s)
  case (Cons x xs)
  obtain h k v where x: "x = (h, k, v)" by (cases x)
  with Cons.prems obtain u where u: "put h k v s = Some u" "puts put xs u = Some t" by (auto split: bind_splits)
  have "inv u" "view u = (view s)(k \<mapsto> v)" using put_inv[OF Cons.prems(1) u(1)] put_view[OF Cons.prems(1) u(1)] .
  then show ?case using Cons.IH[OF _ u(2)] x by (simp add: map_add_def fun_eq_iff map_of_append split: option.split)
qed simp

lemma puts_last:
  assumes "inv s" "puts put (xs @ (h, k, v) # ys) s = Some t" "k \<notin> (fst \<circ> snd) ` set ys"
  shows "view t k = Some v"
proof -
  have "map_of (rev (map snd ys)) k = None" using assms(3) by (auto simp: map_of_eq_None_iff image_iff)
  then show ?thesis using puts_view[OF assms(1,2)] by (simp add: map_add_def)
qed

lemma puts_other:
  assumes "inv s" "puts put xs s = Some t" "k \<notin> (fst \<circ> snd) ` set xs"
  shows "view t k = view s k"
proof -
  have "map_of (rev (map snd xs)) k = None" using assms(3) by (auto simp: map_of_eq_None_iff image_iff)
  then show ?thesis using puts_view[OF assms(1,2)] by (simp add: map_add_def)
qed

end

subsection \<open>The list\<close>

definition prop_key :: "'k gadget \<Rightarrow> ptr \<Rightarrow> elem \<times> string" where
  "prop_key s p = (let e = the (g_props s p) in (pc_intf e, pc_name e))"

definition prop_inv :: "'k gadget \<Rightarrow> bool" where
  "prop_inv s \<longleftrightarrow> calm s \<and> distinct (cfg_list s) \<and> (\<forall>p \<in> set (cfg_list s). g_props s p \<noteq> None \<and> p \<in> live (g_mem s)) \<and>
     inj_on (prop_key s) (set (cfg_list s))"

definition entry_at :: "'k gadget \<Rightarrow> elem \<times> string \<Rightarrow> ptr option" where
  "entry_at s x = List.find (\<lambda>p. prop_key s p = x) (cfg_list s)"

definition propmap :: "'k gadget \<Rightarrow> elem \<times> string \<Rightarrow> string option" where
  "propmap s x = map_option (\<lambda>p. pc_value (the (g_props s p))) (entry_at s x)"

lemma find_prop_run:
  assumes "\<forall>p \<in> set ps. g_props s p \<noteq> None"
  shows "find_prop s e n ps = Some (List.find (\<lambda>p. prop_key s p = (e, n)) ps)"
  using assms by (induction ps) (auto simp: prop_key_def Let_def)

lemma init_cfg_simps [simp]:
  "cfg_list (init_cfg s) = cfg_list s" "g_props (init_cfg s) = g_props s" "g_mem (init_cfg s) = g_mem s" "get_intf e (init_cfg s) = get_intf e s"
  "g_fdevs (init_cfg s) = g_fdevs s" "calm (init_cfg s) = calm s" "g_kern (init_cfg s) = g_kern s"
  by (simp_all add: init_cfg_def cfg_list_def get_intf_def calm_def split: option.split)

lemma prop_view_cong:
  assumes "cfg_list t = cfg_list s" "g_props t = g_props s"
  shows "prop_key t = prop_key s" "entry_at t = entry_at s" "propmap t = propmap s"
  using assms by (simp_all add: prop_key_def entry_at_def propmap_def fun_eq_iff)

lemma init_cfg_view [simp]: "propmap (init_cfg s) = propmap s" "prop_inv (init_cfg s) = prop_inv s" "entry_at (init_cfg s) = entry_at s"
  using prop_view_cong[of "init_cfg s" s] by (simp_all add: prop_inv_def)

lemma FindPropMgr_run: "prop_inv s \<Longrightarrow> UsbfnCfgMgrFindPropMgr e n s = Some (entry_at s (e, n))"
  by (simp add: UsbfnCfgMgrFindPropMgr_def entry_at_def find_prop_run prop_inv_def)

lemma IsPropRegisted_run: "prop_inv s \<Longrightarrow> IsPropRegisted e n s = Some (entry_at s (e, n) \<noteq> None)"
  by (simp add: IsPropRegisted_def entry_at_def find_prop_run prop_inv_def)

lemma entry_at_Some:
  assumes "prop_inv s" "entry_at s x = Some p"
  shows "p \<in> set (cfg_list s)" "prop_key s p = x" "\<exists>e. g_props s p = Some e \<and> pc_intf e = fst x \<and> pc_name e = snd x"
proof -
  show 1: "p \<in> set (cfg_list s)" "prop_key s p = x" using assms(2) by (auto simp: entry_at_def find_Some_iff)
  then obtain e where "g_props s p = Some e" using assms(1) by (auto simp: prop_inv_def)
  then show "\<exists>e. g_props s p = Some e \<and> pc_intf e = fst x \<and> pc_name e = snd x" using 1(2) by (auto simp: prop_key_def Let_def)
qed

text \<open>Changing the value of an entry, and adding one at the end.\<close>

lemma put_prop_old:
  assumes "prop_inv s" "entry_at s x = Some p" "pc_intf e = fst x" "pc_name e = snd x"
  shows "prop_inv (put_prop p e s)" "propmap (put_prop p e s) = (propmap s)(x \<mapsto> pc_value e)"
proof -
  let ?t = "put_prop p e s"
  have p: "p \<in> set (cfg_list s)" "prop_key s p = x" using entry_at_Some[OF assms(1,2)] by auto
  have l: "cfg_list ?t = cfg_list s" by (simp add: put_prop_def cfg_list_def)
  have k: "prop_key ?t q = prop_key s q" for q using p(2) assms(3,4) by (cases "q = p") (auto simp: prop_key_def put_prop_def Let_def)
  then have kk: "prop_key ?t = prop_key s" by blast
  have "calm ?t" "\<forall>q \<in> set (cfg_list s). g_props ?t q \<noteq> None \<and> q \<in> live (g_mem ?t)" "g_mem ?t = g_mem s"
    using assms(1) by (auto simp: prop_inv_def put_prop_def calm_def)
  then show "prop_inv ?t" using assms(1) unfolding prop_inv_def l kk by simp
  have gp: "g_props ?t q = (if q = p then Some e else g_props s q)" for q by (simp add: put_prop_def)
  have en: "entry_at ?t = entry_at s" by (simp add: entry_at_def l kk fun_eq_iff)
  have "propmap ?t y = ((propmap s)(x \<mapsto> pc_value e)) y" for y
  proof (cases "y = x")
    case True
    then show ?thesis using assms(2) by (simp add: propmap_def en gp)
  next
    case False
    have "q \<noteq> p" if "entry_at s y = Some q" for q using entry_at_Some(2)[OF assms(1) that] p(2) False by auto
    then show ?thesis using False by (cases "entry_at s y") (auto simp: propmap_def en gp)
  qed
  then show "propmap ?t = (propmap s)(x \<mapsto> pc_value e)" by blast
qed

lemma put_prop_new:
  assumes "prop_inv s" "entry_at s x = None" "p \<in> live (g_mem s)" "p \<notin> set (cfg_list s)" "pc_intf e = fst x" "pc_name e = snd x"
  shows "prop_inv (put_prop p e s\<lparr>g_cfgEntry := Some (cfg_list s @ [p])\<rparr>)"
    "propmap (put_prop p e s\<lparr>g_cfgEntry := Some (cfg_list s @ [p])\<rparr>) = (propmap s)(x \<mapsto> pc_value e)"
proof -
  let ?t = "put_prop p e s\<lparr>g_cfgEntry := Some (cfg_list s @ [p])\<rparr>"
  have l: "cfg_list ?t = cfg_list s @ [p]" by (simp add: cfg_list_def)
  have pr: "g_props ?t q = g_props s q" "prop_key ?t q = prop_key s q" if "q \<in> set (cfg_list s)" for q
    using that assms(4) by (auto simp: put_prop_def prop_key_def)
  have pk: "prop_key ?t p = x" "g_props ?t p = Some e" using assms(5,6) by (auto simp: put_prop_def prop_key_def Let_def)
  have none: "\<forall>q \<in> set (cfg_list s). prop_key s q \<noteq> x" using assms(2) by (auto simp: entry_at_def find_None_iff)
  have m: "g_mem ?t = g_mem s" "calm ?t = calm s" by (simp_all add: put_prop_def calm_def)
  have "inj_on (prop_key ?t) (set (cfg_list s))"
    using assms(1) pr(2) by (simp add: prop_inv_def cong: inj_on_cong)
  then have "inj_on (prop_key ?t) (set (cfg_list ?t))"
    using none pr(2) pk(1) unfolding l set_append by (auto simp: inj_on_insert image_iff)
  moreover have "\<forall>q \<in> set (cfg_list ?t). g_props ?t q \<noteq> None \<and> q \<in> live (g_mem ?t)"
    using assms(1,3) pr(1) pk(2) m(1) unfolding l prop_inv_def by auto
  moreover have "distinct (cfg_list ?t)" using assms(1,4) unfolding l prop_inv_def by simp
  ultimately show "prop_inv ?t" using assms(1) m(2) unfolding prop_inv_def by simp
  have "propmap ?t y = ((propmap s)(x \<mapsto> pc_value e)) y" for y
  proof -
    have f: "List.find (\<lambda>q. prop_key ?t q = y) (cfg_list s) = entry_at s y" unfolding entry_at_def using pr(2) by (intro find_cong_list) simp
    show ?thesis
    proof (cases "entry_at s y")
      case None
      then have "entry_at ?t y = (if x = y then Some p else None)" using f pk(1) unfolding entry_at_def[of ?t] l by (simp add: find_snoc)
      then show ?thesis using None pk(2) by (simp add: propmap_def)
    next
      case (Some q)
      then have q: "q \<in> set (cfg_list s)" "y \<noteq> x" using entry_at_Some[OF assms(1) Some] none by auto
      have "entry_at ?t y = Some q" using f Some unfolding entry_at_def[of ?t] l by (simp add: find_snoc)
      then show ?thesis using Some q pr(1)[OF q(1)] by (simp add: propmap_def)
    qed
  qed
  then show "propmap ?t = (propmap s)(x \<mapsto> pc_value e)" by blast
qed

subsection \<open>The calls\<close>

text \<open>What a property call may touch besides the list: the kernel, the allocator and the log of callbacks.\<close>

definition prop_frame :: "'k gadget \<Rightarrow> 'k gadget \<Rightarrow> bool" where
  "prop_frame s t \<longleftrightarrow> g_fdevs t = g_fdevs s \<and> g_intfs t = g_intfs s"

lemma prop_frame_intf: "prop_frame s t \<Longrightarrow> get_intf e t = get_intf e s"
  by (simp add: prop_frame_def get_intf_def)

lemma ChangeDevceDes_kern: "UsbFnCfgChangeDevceDes K e n v s = Some (r, t) \<Longrightarrow> t = set_fkern (g_kern t) s"
  by (auto simp: UsbFnCfgChangeDevceDes_def split: option.splits if_splits bind_splits prod.splits)

definition same_props :: "'k gadget \<Rightarrow> 'k gadget \<Rightarrow> bool" where
  "same_props s t \<longleftrightarrow> propmap t = propmap s \<and> prop_inv t = prop_inv s \<and> prop_frame s t"

lemma kern_log_same [simp]: "same_props s (s\<lparr>g_log := l\<rparr>)" "same_props s (set_fkern k s)"
  using prop_view_cong[of "s\<lparr>g_log := l\<rparr>" s] prop_view_cong[of "set_fkern k s" s]
  by (simp_all add: same_props_def cfg_list_def prop_inv_def prop_frame_def calm_def)

lemma same_refl [simp]: "same_props s s"
  by (simp add: same_props_def prop_frame_def)

lemma same_trans: "same_props s t \<Longrightarrow> same_props t u \<Longrightarrow> same_props s u"
  by (simp add: same_props_def prop_frame_def)

lemma ChangeDevceDes_same: "UsbFnCfgChangeDevceDes K e n v s = Some (r, t) \<Longrightarrow> same_props s t"
  using ChangeDevceDes_kern kern_log_same(2) by metis

lemma cut_fits: "fits MAX_LEN t \<Longrightarrow> cut t = t"
  by (simp add: cut_def fits_def MAX_LEN_def)

definition new_prop :: "elem \<Rightarrow> string \<Rightarrow> UsbFnRegistInfo \<Rightarrow> UsbFnCfgPropMgr" where
  "new_prop e n ri = \<lparr>pc_intf = e, pc_name = n, pc_value = ri_value ri, pc_isDevProp = IsDevDescProp n, pc_getProp = ri_getProp ri,
     pc_setProp = ri_setProp ri\<rparr>"

lemma new_prop_simps [simp]: "pc_intf (new_prop e n ri) = e" "pc_name (new_prop e n ri) = n" "pc_value (new_prop e n ri) = ri_value ri"
  by (simp_all add: new_prop_def)

lemma RegisterProp_accepts:
  assumes "prop_inv s" "UsbFnCfgMgrRegisterProp K (Some e) (Some ri) s = Some (HDF_SUCCESS, t)" "ri_name ri = Some n"
  shows "prop_inv t" "propmap t = (propmap s)((e, n) \<mapsto> ri_value ri)" "prop_frame s t" "fits MAX_LEN (ri_value ri)"
proof -
  let ?s = "init_cfg s"
  have i: "prop_inv ?s" "calm ?s" using assms(1) by (simp, simp add: prop_inv_def)
  note run = assms(2)[unfolded UsbFnCfgMgrRegisterProp_def Let_def, simplified assms(3) prod.case option.case IsPropRegisted_run[OF i(1)] FindPropMgr_run[OF i(1)]]
  have fit: "fits MAX_LEN n" "fits MAX_LEN (ri_value ri)"
    using run by (auto split: bind_splits if_splits option.splits)
  have "prop_inv t \<and> propmap t = (propmap ?s)((e, n) \<mapsto> ri_value ri) \<and> prop_frame s t"
  proof (cases "entry_at ?s (e, n)")
    case None
    from galloc_cases[OF i(2), of K sizeof_CfgPropMgr] show ?thesis
    proof cases
      case 1
      then show ?thesis using run None by simp
    next
      case (2 p m)
      let ?m = "?s\<lparr>g_mem := m\<rparr>"
      have v: "cfg_list ?m = cfg_list ?s" "entry_at ?m = entry_at ?s" "propmap ?m = propmap ?s" "prop_key ?m = prop_key ?s"
        using prop_view_cong[of ?m ?s] by (simp_all add: cfg_list_def)
      have "prop_inv ?m" using i(1) 2 v by (auto simp: prop_inv_def)
      moreover have "p \<notin> set (cfg_list ?m)" using i(1) 2 v by (auto simp: prop_inv_def)
      moreover have "t = put_prop p (new_prop e n ri) ?m\<lparr>g_cfgEntry := Some (cfg_list ?m @ [p])\<rparr>"
        using run None 2 fit v by (simp add: cut_fits new_prop_def put_prop_def cfg_list_def)
      ultimately show ?thesis
        using put_prop_new[of ?m "(e, n)" p "new_prop e n ri"] None 2 v by (simp add: prop_frame_def put_prop_def init_cfg_def)
    qed
  next
    case (Some p)
    from entry_at_Some(3)[OF i(1) Some] obtain q where "g_props ?s p = Some q" by blast
    then have "t = put_prop p (new_prop e n ri) ?s"
      using run Some fit by (cases q) (auto simp: cut_fits new_prop_def split: if_splits)
    then show ?thesis using put_prop_old[OF i(1) Some, of "new_prop e n ri"] by (simp add: prop_frame_def put_prop_def init_cfg_def)
  qed
  then show "prop_inv t" "propmap t = (propmap s)((e, n) \<mapsto> ri_value ri)" "prop_frame s t" "fits MAX_LEN (ri_value ri)" using fit by auto
qed

lemma SetProp_accepts:
  assumes "prop_inv s" "UsbFnCfgMgrSetProp K (Some e) (Some n) v s = Some (HDF_SUCCESS, t)"
  shows "prop_inv t" "propmap t = (propmap s)((e, n) \<mapsto> v)" "prop_frame s t" "fits MAX_LEN v"
proof -
  let ?s = "init_cfg s" and ?ri = "\<lparr>ri_name = Some n, ri_value = v, ri_getProp = None, ri_setProp = None\<rparr>"
  have i: "prop_inv ?s" using assms(1) by simp
  have f: "prop_frame s u = prop_frame ?s u" for u by (simp add: prop_frame_def init_cfg_def)
  note run = assms(2)[unfolded UsbFnCfgMgrSetProp_def Let_def, simplified prod.case option.case FindPropMgr_run[OF i]]
  have "prop_inv t \<and> propmap t = (propmap ?s)((e, n) \<mapsto> v) \<and> prop_frame ?s t \<and> fits MAX_LEN v"
  proof (cases "entry_at ?s (e, n)")
    case None
    have "\<exists>u. UsbFnCfgMgrRegisterProp K (Some e) (Some ?ri) ?s = Some (HDF_SUCCESS, u) \<and> same_props u t"
      using run None by (auto split: bind_splits if_splits intro: ChangeDevceDes_same)
    then obtain u where u: "UsbFnCfgMgrRegisterProp K (Some e) (Some ?ri) ?s = Some (HDF_SUCCESS, u)" "same_props u t" by blast
    then show ?thesis using RegisterProp_accepts[OF i u(1)] by (simp add: same_props_def prop_frame_def)
  next
    case (Some p)
    from entry_at_Some(3)[OF i Some] obtain q where q: "g_props ?s p = Some q" "pc_intf q = e" "pc_name q = n" by auto
    let ?u = "put_prop p (q\<lparr>pc_value := v\<rparr>) ?s"
    have fit: "fits MAX_LEN v" using run Some q by (auto split: if_splits)
    have "same_props ?u t"
      using run Some q fit by (auto simp: cut_fits split: bind_splits if_splits option.splits dest!: ChangeDevceDes_same intro: same_trans[OF _ kern_log_same(1)])
    then show ?thesis using put_prop_old[OF i Some, of "q\<lparr>pc_value := v\<rparr>"] q fit by (simp add: same_props_def prop_frame_def put_prop_def)
  qed
  then show "prop_inv t" "propmap t = (propmap s)((e, n) \<mapsto> v)" "prop_frame s t" "fits MAX_LEN v" using f by auto
qed


text \<open>What is read: the registered value, or else what the descriptor and the resource tree say of an interface without properties.\<close>

definition answer :: "(ret \<times> string option \<times> 'k gadget) option \<Rightarrow> (ret \<times> string option) option" where
  "answer x = map_option (\<lambda>(r, b, u). (r, b)) x"

definition prop_default :: "'k fn_os \<Rightarrow> elem \<Rightarrow> string \<Rightarrow> string \<Rightarrow> 'k gadget \<Rightarrow> (ret \<times> string option) option" where
  "prop_default K e n buf s = answer (UsbFnGetInterfaceProp K (Some e) (Some n) (Some buf) (s\<lparr>g_cfgEntry := None\<rparr>))"

lemma frame_reads:
  assumes "prop_frame s t"
  shows "IsDevDescPropAndGetValue e n t = IsDevDescPropAndGetValue e n s" "UsbFnCfgFindPropFromHcs K e n t = UsbFnCfgFindPropFromHcs K e n s"
proof -
  have f: "g_fdevs t = g_fdevs s" using assms by (simp add: prop_frame_def)
  show "IsDevDescPropAndGetValue e n t = IsDevDescPropAndGetValue e n s" "UsbFnCfgFindPropFromHcs K e n t = UsbFnCfgFindPropFromHcs K e n s"
    unfolding IsDevDescPropAndGetValue_def UsbFnCfgFindPropFromHcs_def prop_frame_intf[OF assms] f by (rule refl)+
qed

lemma Get_default:
  assumes "prop_frame s t" "UsbfnCfgMgrFindPropMgr e n (init_cfg s) = Some None" "UsbfnCfgMgrFindPropMgr e n (init_cfg t) = Some None"
  shows "answer (UsbFnGetInterfaceProp K (Some e) (Some n) (Some buf) t) = answer (UsbFnGetInterfaceProp K (Some e) (Some n) (Some buf) s)"
proof -
  have f: "prop_frame (init_cfg s) (init_cfg t)" using assms(1) by (simp add: prop_frame_def init_cfg_def)
  show ?thesis using assms(2,3) frame_reads[OF f]
    by (auto simp: UsbFnGetInterfaceProp_def UsbFnCfgMgrGetProp_def Let_def answer_def split: option.split bind_split)
qed

lemma Get_answers:
  assumes "prop_inv s"
  shows "answer (UsbFnGetInterfaceProp K (Some e) (Some n) (Some buf) s) =
    (case propmap s (e, n) of Some v \<Rightarrow> map_option (\<lambda>b. (HDF_SUCCESS, Some b)) (copy_out buf v) | None \<Rightarrow> prop_default K e n buf s)"
proof -
  have i: "prop_inv (init_cfg s)" using assms by simp
  show ?thesis
  proof (cases "entry_at s (e, n)")
    case None
    have "prop_frame (s\<lparr>g_cfgEntry := None\<rparr>) s" by (simp add: prop_frame_def)
    moreover have "UsbfnCfgMgrFindPropMgr e n (init_cfg (s\<lparr>g_cfgEntry := None\<rparr>)) = Some None" by (simp add: UsbfnCfgMgrFindPropMgr_def cfg_list_def init_cfg_def)
    moreover have "UsbfnCfgMgrFindPropMgr e n (init_cfg s) = Some None" using FindPropMgr_run[OF i] None by simp
    ultimately show ?thesis using None Get_default[of "s\<lparr>g_cfgEntry := None\<rparr>" s e n K buf] by (simp add: propmap_def prop_default_def)
  next
    case (Some p)
    from entry_at_Some(3)[OF assms Some] obtain q where "g_props s p = Some q" by blast
    then show ?thesis using FindPropMgr_run[OF i] Some
      by (cases "copy_out buf (pc_value q)") (auto simp: UsbFnGetInterfaceProp_def UsbFnCfgMgrGetProp_def Let_def answer_def propmap_def)
  qed
qed

lemma default_cong: "prop_frame s t \<Longrightarrow> prop_default K e n buf t = prop_default K e n buf s"
  unfolding prop_default_def
  by (rule Get_default) (simp_all add: prop_frame_def UsbfnCfgMgrFindPropMgr_def cfg_list_def init_cfg_def)

subsection \<open>The calls provide the contract\<close>

text \<open>The two calls that write a value, with the callbacks that are registered.\<close>

datatype prop_how = Registered "nat option" "nat option" | Assigned

definition prop_write :: "'k fn_os \<Rightarrow> prop_how \<Rightarrow> elem \<times> string \<Rightarrow> string \<Rightarrow> 'k gadget \<Rightarrow> (ret \<times> 'k gadget) option" where
  "prop_write K h x v s = (case h of
      Registered g st \<Rightarrow> UsbFnRegistInterfaceProp K (Some (fst x)) (Some \<lparr>ri_name = Some (snd x), ri_value = v, ri_getProp = g, ri_setProp = st\<rparr>) s
    | Assigned \<Rightarrow> UsbFnSetInterfaceProp K (Some (fst x)) (Some (snd x)) v s)"

definition accepted :: "'k fn_os \<Rightarrow> prop_how \<Rightarrow> elem \<times> string \<Rightarrow> string \<Rightarrow> 'k gadget \<Rightarrow> 'k gadget option" where
  "accepted K h x v s = do { (r, t) \<leftarrow> prop_write K h x v s; if r = HDF_SUCCESS then Some t else None }"

lemma accepted_run:
  assumes "prop_inv s" "accepted K h x v s = Some t"
  shows "prop_inv t" "propmap t = (propmap s)(x \<mapsto> v)" "prop_frame s t" "fits MAX_LEN v"
proof -
  obtain e n where x: "x = (e, n)" by fastforce
  have "prop_inv t \<and> propmap t = (propmap s)(x \<mapsto> v) \<and> prop_frame s t \<and> fits MAX_LEN v"
  proof (cases h)
    case (Registered g st)
    then have "UsbFnCfgMgrRegisterProp K (Some e) (Some \<lparr>ri_name = Some n, ri_value = v, ri_getProp = g, ri_setProp = st\<rparr>) s = Some (HDF_SUCCESS, t)"
      using assms(2) x by (auto simp: accepted_def prop_write_def UsbFnRegistInterfaceProp_def split: bind_splits if_splits)
    from RegisterProp_accepts[OF assms(1) this] x show ?thesis by simp
  next
    case Assigned
    then have "UsbFnCfgMgrSetProp K (Some e) (Some n) v s = Some (HDF_SUCCESS, t)"
      using assms(2) x by (auto simp: accepted_def prop_write_def UsbFnSetInterfaceProp_def split: bind_splits if_splits)
    from SetProp_accepts[OF assms(1) this] x show ?thesis by simp
  qed
  then show "prop_inv t" "propmap t = (propmap s)(x \<mapsto> v)" "prop_frame s t" "fits MAX_LEN v" by auto
qed

interpretation props: value_store prop_inv propmap "accepted K" for K :: "'k fn_os"
  by unfold_locales (auto dest: accepted_run)

lemma puts_frame: "prop_inv s \<Longrightarrow> puts (accepted K) xs s = Some t \<Longrightarrow> prop_frame s t"
proof (induction xs arbitrary: s)
  case (Cons x xs)
  obtain h k v where "x = (h, k, v)" by (cases x)
  with Cons.prems obtain u where u: "accepted K h k v s = Some u" "puts (accepted K) xs u = Some t" by (auto split: bind_splits)
  then show ?case using accepted_run[OF Cons.prems(1) u(1)] Cons.IH[OF _ u(2)] by (simp add: prop_frame_def)
qed (simp add: prop_frame_def)

lemma puts_fit: "prop_inv s \<Longrightarrow> puts (accepted K) xs s = Some t \<Longrightarrow> (h, k, v) \<in> set xs \<Longrightarrow> fits MAX_LEN v"
proof (induction xs arbitrary: s)
  case (Cons x xs)
  obtain h' k' v' where x: "x = (h', k', v')" by (cases x)
  with Cons.prems obtain u where u: "accepted K h' k' v' s = Some u" "puts (accepted K) xs u = Some t" by (auto split: bind_splits)
  then show ?case using accepted_run[OF Cons.prems(1) u(1)] Cons.IH[OF _ u(2)] Cons.prems(3) x by auto
qed simp

lemma copy_out_zeroed: "fits MAX_LEN v \<Longrightarrow> copy_out (replicate MAX_LEN c) v = Some (v @ replicate (MAX_LEN - length v) c)"
  by (simp add: copy_out_def fits_def)

lemma read_back:
  assumes "prop_inv s" "puts (accepted K) (xs @ (h, (e, n), v) # ys) s = Some t" "(e, n) \<notin> (fst \<circ> snd) ` set ys"
  shows "answer (UsbFnGetInterfaceProp K (Some e) (Some n) (Some (replicate MAX_LEN c)) t) = Some (HDF_SUCCESS, Some (v @ replicate (MAX_LEN - length v) c))"
proof -
  have "prop_inv t" using props.puts_view[OF assms(1,2)] by blast
  moreover have "fits MAX_LEN v" using puts_fit[OF assms(1,2), of h "(e, n)" v] by simp
  ultimately show ?thesis using props.puts_last[OF assms] by (simp add: Get_answers copy_out_zeroed)
qed

lemma read_other:
  assumes "prop_inv s" "puts (accepted K) xs s = Some t" "(e, n) \<notin> (fst \<circ> snd) ` set xs"
  shows "answer (UsbFnGetInterfaceProp K (Some e) (Some n) (Some buf) t) = answer (UsbFnGetInterfaceProp K (Some e) (Some n) (Some buf) s)"
proof -
  have "prop_inv t" using props.puts_view[OF assms(1,2)] by blast
  then show ?thesis using props.puts_other[OF assms] default_cong[OF puts_frame[OF assms(1,2)], of K e n buf] assms(1)
    by (simp add: Get_answers split: option.split)
qed

text \<open>
  C24. The properties of an interface are a map from interface and name to a value.  After any sequence of calls to
  \<open>UsbFnRegistInterfaceProp\<close> and \<open>UsbFnSetInterfaceProp\<close> that were accepted, whatever the kernel answered and including those that also change a
  field of the device descriptor in the configuration file system, \<open>UsbFnGetInterfaceProp\<close> into a buffer of \<open>MAX_LEN\<close> bytes returns exactly
  the value written last under that interface and name, leaving the rest of the buffer alone, and a name that was not written is
  answered as before the sequence, from an older value, the descriptor or the resource tree.
\<close>

theorem UsbFnInterfaceProp_roundtrip:
  assumes "prop_inv s" "puts (accepted K) xs s = Some t"
  shows "prop_inv t \<and>
    (\<forall>ys h e n v zs c. xs = ys @ (h, (e, n), v) # zs \<longrightarrow> (e, n) \<notin> (fst \<circ> snd) ` set zs \<longrightarrow>
      answer (UsbFnGetInterfaceProp K (Some e) (Some n) (Some (replicate MAX_LEN c)) t) = Some (HDF_SUCCESS, Some (v @ replicate (MAX_LEN - length v) c))) \<and>
    (\<forall>e n buf. (e, n) \<notin> (fst \<circ> snd) ` set xs \<longrightarrow>
      answer (UsbFnGetInterfaceProp K (Some e) (Some n) (Some buf) t) = answer (UsbFnGetInterfaceProp K (Some e) (Some n) (Some buf) s))"
  using props.puts_view[OF assms] read_back[OF assms(1)] read_other[OF assms] assms(2) by blast

lemma empty_props: "prop_inv (null_gadget k)"
  by (simp add: prop_inv_def null_gadget_def cfg_list_def calm_def mem_ok_def)

definition ex_calls :: "(prop_how \<times> (elem \<times> string) \<times> string) list" where
  "ex_calls = [(Registered None None, ((1, 0), ''ab''), ''x''), (Registered None (Some 7), ((1, 0), ''c''), ''y''), (Assigned, ((1, 0), ''c''), ''zz'')]"

lemma ex_calls_run: "\<exists>t. puts (accepted null_fn_os) ex_calls (null_gadget ()) = Some t"
  by (simp add: ex_calls_def accepted_def prop_write_def UsbFnRegistInterfaceProp_def UsbFnSetInterfaceProp_def UsbFnCfgMgrRegisterProp_def UsbFnCfgMgrSetProp_def
     IsPropRegisted_def UsbfnCfgMgrFindPropMgr_def init_cfg_def cfg_list_def null_gadget_def IsDevDescProp_def galloc_off null_fn_os_def fits_def MAX_LEN_def cut_def
     put_prop_def Let_def)

theorem UsbFnInterfaceProp_roundtrip_witness:
  "\<exists>t. puts (accepted null_fn_os) ex_calls (null_gadget ()) = Some t \<and>
    answer (UsbFnGetInterfaceProp null_fn_os (Some (1, 0)) (Some ''c'') (Some (replicate MAX_LEN (CHR 0x00))) t) = Some (HDF_SUCCESS, Some (''zz'' @ replicate 62 (CHR 0x00))) \<and>
    answer (UsbFnGetInterfaceProp null_fn_os (Some (1, 0)) (Some ''ab'') (Some (replicate MAX_LEN (CHR 0x00))) t) = Some (HDF_SUCCESS, Some (''x'' @ replicate 63 (CHR 0x00)))"
proof -
  obtain t where t: "puts (accepted null_fn_os) ex_calls (null_gadget ()) = Some t" using ex_calls_run by blast
  note R = UsbFnInterfaceProp_roundtrip[OF empty_props t, THEN conjunct2, THEN conjunct1, rule_format]
  have "answer (UsbFnGetInterfaceProp null_fn_os (Some (1, 0)) (Some ''c'') (Some (replicate MAX_LEN (CHR 0x00))) t) = Some (HDF_SUCCESS, Some (''zz'' @ replicate 62 (CHR 0x00)))"
    using R[of "take 2 ex_calls" Assigned "(1, 0)" "''c''" "''zz''" "[]" "CHR 0x00"] by (simp add: ex_calls_def MAX_LEN_def)
  moreover have "answer (UsbFnGetInterfaceProp null_fn_os (Some (1, 0)) (Some ''ab'') (Some (replicate MAX_LEN (CHR 0x00))) t) = Some (HDF_SUCCESS, Some (''x'' @ replicate 63 (CHR 0x00)))"
    using R[of "[]" "Registered None None" "(1, 0)" "''ab''" "''x''" "drop 1 ex_calls" "CHR 0x00"] by (simp add: ex_calls_def MAX_LEN_def)
  ultimately show ?thesis using t by blast
qed

text \<open>
  A field of the descriptor that names a string is changed by an index, which is not compared with the number of strings: one past the end is read
  all the same.
\<close>

lemma string_index_unchecked:
  assumes "length (us_strings u) \<le> i"
  shows "change_strings K dev i name (u # us) k = None"
  using assms by (simp add: string_at_def)

end
