(* ===== verification/Acm_State.thy ===== *)
theory Acm_State
  imports Usbfn_Sdk Usb_Fifo
begin

text \<open>
  The data of the serial function (\<open>usb/gadget/function/acm/cdcacm.c\<close>, \<open>usb/gadget/function/include/cdcacm.h\<close>), a client of the device side
  that offers a host a serial line over a control interface, a notification pipe and two bulk pipes.  Its objects live in
  heaps of their own beside the store of the development kit; the bytes of the buffers that the kernel shares with the
  function are a map from the address of a buffer.
\<close>

subsection \<open>Constants\<close>

definition QUEUE_SIZE :: int where "QUEUE_SIZE = 8"
definition CTRL_REQUEST_NUM :: nat where "CTRL_REQUEST_NUM = 2"
definition WRITE_BUF_SIZE :: u32 where "WRITE_BUF_SIZE = 8192"
definition READ_BUF_SIZE :: u32 where "READ_BUF_SIZE = 8192"
definition PORT_RATE :: u32 where "PORT_RATE = 9600"
definition DATA_BIT :: u8 where "DATA_BIT = 8"
definition PENDING_FLAG :: int where "PENDING_FLAG = 0"
definition USB_MAX_PACKET_SIZE :: nat where "USB_MAX_PACKET_SIZE = 0x40"

definition SERIAL_STATE_DCD :: u16 where "SERIAL_STATE_DCD = 1"
definition SERIAL_STATE_DSR :: u16 where "SERIAL_STATE_DSR = 2"
definition SERIAL_STATE_BREAK :: u16 where "SERIAL_STATE_BREAK = 4"

text \<open>The status of a request of the device side is a number: these are its values in \<open>UsbRequestStatus\<close>.\<close>

definition STATUS_COMPLETED :: int where "STATUS_COMPLETED = 0"
definition STATUS_NO_DEVICE :: int where "STATUS_NO_DEVICE = 6"

definition USB_DDK_CDC_REQ_SET_LINE_CODING :: u8 where "USB_DDK_CDC_REQ_SET_LINE_CODING = 0x20"
definition USB_DDK_CDC_REQ_GET_LINE_CODING :: u8 where "USB_DDK_CDC_REQ_GET_LINE_CODING = 0x21"
definition USB_DDK_CDC_REQ_SET_CONTROL_LINE_STATE :: u8 where "USB_DDK_CDC_REQ_SET_CONTROL_LINE_STATE = 0x22"
definition USB_DDK_CDC_NOTIFY_SERIAL_STATE :: u8 where "USB_DDK_CDC_NOTIFY_SERIAL_STATE = 0x20"
definition USB_DDK_CDC_SUBCLASS_ACM :: u8 where "USB_DDK_CDC_SUBCLASS_ACM = 2"
definition USB_PIPE_TYPE_BULK :: u8 where "USB_PIPE_TYPE_BULK = 2"
definition USB_PIPE_TYPE_INTERRUPT :: u8 where "USB_PIPE_TYPE_INTERRUPT = 3"

lemmas acm_consts = QUEUE_SIZE_def CTRL_REQUEST_NUM_def WRITE_BUF_SIZE_def READ_BUF_SIZE_def PORT_RATE_def DATA_BIT_def PENDING_FLAG_def
  USB_MAX_PACKET_SIZE_def SERIAL_STATE_DCD_def SERIAL_STATE_DSR_def SERIAL_STATE_BREAK_def STATUS_COMPLETED_def STATUS_NO_DEVICE_def
  USB_DDK_CDC_REQ_SET_LINE_CODING_def USB_DDK_CDC_REQ_GET_LINE_CODING_def USB_DDK_CDC_REQ_SET_CONTROL_LINE_STATE_def
  USB_DDK_CDC_NOTIFY_SERIAL_STATE_def USB_DDK_CDC_SUBCLASS_ACM_def USB_PIPE_TYPE_BULK_def USB_PIPE_TYPE_INTERRUPT_def

subsection \<open>Structs\<close>

record UsbCdcLineCoding =
  dwDTERate :: u32
  bCharFormat :: u8
  bParityType :: u8
  bDataBits :: u8

text \<open>Its seven bytes, packed and little-endian.\<close>

definition sizeof_LineCoding :: nat where "sizeof_LineCoding = 7"

definition coding_bytes :: "UsbCdcLineCoding \<Rightarrow> u8 list" where
  "coding_bytes c = le32_bytes (dwDTERate c) @ [bCharFormat c, bParityType c, bDataBits c]"

definition le32_of :: "u8 list \<Rightarrow> u32" where
  "le32_of b = ucast (b ! 0) OR push_bit 8 (ucast (b ! 1)) OR push_bit 16 (ucast (b ! 2)) OR push_bit 24 (ucast (b ! 3))"

definition coding_of :: "u8 list \<Rightarrow> UsbCdcLineCoding" where
  "coding_of b = \<lparr>dwDTERate = le32_of b, bCharFormat = b ! 4, bParityType = b ! 5, bDataBits = b ! 6\<rparr>"

text \<open>
  The rings keep their bytes; the address of the block that holds them is in \<open>sp_readData\<close> and \<open>sp_writeData\<close>.  The lists are the
  requests in the order in which they are linked.  A lock is held or not: locking it again waits forever.
\<close>

record UsbSerial =
  sp_acm :: "ptr option"
  sp_lineCoding :: UsbCdcLineCoding
  sp_lock :: bool
  sp_readPool :: "ptr list"
  sp_readQueue :: "ptr list"
  sp_readStarted :: int
  sp_readAllocated :: int
  sp_readFifo :: DataFifo
  sp_readData :: "ptr option"
  sp_writePool :: "ptr list"
  sp_writeStarted :: int
  sp_writeAllocated :: int
  sp_writeFifo :: DataFifo
  sp_writeData :: "ptr option"
  sp_writeBusy :: bool
  sp_suspended :: bool
  sp_startDelayed :: bool
  sp_refCount :: int

record UsbAcmPipe =
  ap_id :: u8
  ap_maxPacketSize :: u16

record UsbAcmInterface =
  ai_fn :: "elem option"
  ai_handle :: "ptr option"

text \<open>\<open>ac_notify\<close> says whether \<open>notify\<close> points to \<open>g_acmNotifyMethod\<close>, the only table there is.\<close>

record UsbAcmDevice =
  ac_device :: "ptr option"
  ac_fnDev :: "ptr option"
  ac_ctrlIface :: UsbAcmInterface
  ac_dataIface :: UsbAcmInterface
  ac_notifyPipe :: UsbAcmPipe
  ac_dataInPipe :: UsbAcmPipe
  ac_dataOutPipe :: UsbAcmPipe
  ac_ctrlPool :: "ptr list"
  ac_ctrlReqNum :: int
  ac_notifyReq :: "ptr option"
  ac_lock :: bool
  ac_pending :: bool
  ac_initFlag :: bool
  ac_enableEvtCnt :: u32
  ac_udcName :: "string option"
  ac_port :: "ptr option"
  ac_lineCoding :: UsbCdcLineCoding
  ac_serialState :: u16
  ac_handshakeBits :: u16
  ac_notify :: bool

record CtrlInfo =
  ci_request :: u8
  ci_acm :: "ptr option"

definition zero_coding :: UsbCdcLineCoding where
  "zero_coding = \<lparr>dwDTERate = 0, bCharFormat = 0, bParityType = 0, bDataBits = 0\<rparr>"

definition zero_fifo :: DataFifo where
  "zero_fifo = \<lparr>rdIdx = 0, wrIdx = 0, fsize = 0, fdata = []\<rparr>"

definition zero_serial :: UsbSerial where
  "zero_serial = \<lparr>sp_acm = None, sp_lineCoding = zero_coding, sp_lock = False, sp_readPool = [], sp_readQueue = [], sp_readStarted = 0,
     sp_readAllocated = 0, sp_readFifo = zero_fifo, sp_readData = None, sp_writePool = [], sp_writeStarted = 0, sp_writeAllocated = 0,
     sp_writeFifo = zero_fifo, sp_writeData = None, sp_writeBusy = False, sp_suspended = False, sp_startDelayed = False, sp_refCount = 0\<rparr>"

definition zero_acm :: UsbAcmDevice where
  "zero_acm = \<lparr>ac_device = None, ac_fnDev = None, ac_ctrlIface = \<lparr>ai_fn = None, ai_handle = None\<rparr>,
     ac_dataIface = \<lparr>ai_fn = None, ai_handle = None\<rparr>, ac_notifyPipe = \<lparr>ap_id = 0, ap_maxPacketSize = 0\<rparr>,
     ac_dataInPipe = \<lparr>ap_id = 0, ap_maxPacketSize = 0\<rparr>, ac_dataOutPipe = \<lparr>ap_id = 0, ap_maxPacketSize = 0\<rparr>, ac_ctrlPool = [],
     ac_ctrlReqNum = 0, ac_notifyReq = None, ac_lock = False, ac_pending = False, ac_initFlag = False, ac_enableEvtCnt = 0,
     ac_udcName = None, ac_port = None, ac_lineCoding = zero_coding, ac_serialState = 0, ac_handshakeBits = 0, ac_notify = False\<rparr>"

text \<open>Sizes on an LP64 target, for the allocator.\<close>

definition sizeof_Serial :: nat where "sizeof_Serial = 200"
definition sizeof_Acm :: nat where "sizeof_Acm = 240"
definition sizeof_CtrlInfo :: nat where "sizeof_CtrlInfo = 16"

subsection \<open>The driver framework\<close>

text \<open>
  Services of the framework: message buffers (\<open>HdfSBuf\<close>) as a type \<open>'b\<close> with their reading and writing calls, locks, the
  interface descriptor, the resource tree, time, and the conversions of floating point.  A speed is the bits of a
  \<open>float\<close>: \<open>he_speed n t0 t1\<close> is the number of megabytes per second of \<open>n\<close> bytes between two times, and \<open>he_scale\<close> multiplies it by 10000 and converts it.
\<close>

type_synonym timeval = "int \<times> int"

record 'b hdf_env =
  he_readString :: "'b \<Rightarrow> string option \<times> 'b"
  he_readBuffer :: "'b \<Rightarrow> u8 list option \<times> 'b"
  he_writeString :: "string \<Rightarrow> 'b \<Rightarrow> bool \<times> 'b"
  he_writeBuffer :: "u8 list \<Rightarrow> 'b \<Rightarrow> bool \<times> 'b"
  he_writeFloat :: "u32 \<Rightarrow> 'b \<Rightarrow> bool \<times> 'b"
  he_writeUint32 :: "u32 \<Rightarrow> 'b \<Rightarrow> bool \<times> 'b"
  he_mutexInit :: "ptr \<Rightarrow> ret"
  he_setDesc :: ret
  he_checkDesc :: "'b \<Rightarrow> bool \<times> 'b"
  he_iface :: bool
  he_udcName :: "string option"
  he_default_udc :: string
  he_time :: "nat \<Rightarrow> timeval"
  he_speed :: "u64 \<Rightarrow> timeval \<Rightarrow> timeval \<Rightarrow> u32"
  he_scale :: "u32 \<Rightarrow> u32"

subsection \<open>The store\<close>

text \<open>
  \<open>w_buf a i\<close> is the byte \<open>i\<close> of the shared buffer at \<open>a\<close>.  \<open>w_sent\<close> is no variable of the program: it records every request that
  was handed to the development kit with the bytes of its buffer at that time and whether it was accepted.  \<open>w_clock\<close> counts the
  calls of \<open>gettimeofday\<close>.  The fields from \<open>w_inFifo\<close> on are the static variables.
\<close>

record 'k acmw =
  w_g :: "'k gadget"
  w_buf :: "ptr \<Rightarrow> nat \<Rightarrow> u8"
  w_acms :: "ptr \<Rightarrow> UsbAcmDevice option"
  w_ports :: "ptr \<Rightarrow> UsbSerial option"
  w_ctrls :: "ptr \<Rightarrow> CtrlInfo option"
  w_service :: "ptr option"
  w_sent :: "(ptr \<times> u8 list \<times> bool) list"
  w_clock :: nat
  w_inFifo :: int
  w_isStartRead :: bool
  w_isReadDone :: bool
  w_readCnt :: u64
  w_readTimeStart :: timeval
  w_readTimeEnd :: timeval
  w_readSpeed :: u32
  w_isGetReadTimeStart :: bool
  w_req :: "ptr option list"
  w_isWriteDone :: bool
  w_writeCnt :: u64
  w_timeStart :: timeval
  w_timeEnd :: timeval
  w_speed :: u32
  w_isGetWriteTimeStart :: bool

abbreviation put_port :: "ptr \<Rightarrow> UsbSerial \<Rightarrow> 'k acmw \<Rightarrow> 'k acmw" where
  "put_port p x w \<equiv> w\<lparr>w_ports := (w_ports w)(p \<mapsto> x)\<rparr>"

abbreviation put_acm :: "ptr \<Rightarrow> UsbAcmDevice \<Rightarrow> 'k acmw \<Rightarrow> 'k acmw" where
  "put_acm p x w \<equiv> w\<lparr>w_acms := (w_acms w)(p \<mapsto> x)\<rparr>"

abbreviation put_ctrl :: "ptr \<Rightarrow> CtrlInfo \<Rightarrow> 'k acmw \<Rightarrow> 'k acmw" where
  "put_ctrl p x w \<equiv> w\<lparr>w_ctrls := (w_ctrls w)(p \<mapsto> x)\<rparr>"

abbreviation get_req :: "ptr \<Rightarrow> 'k acmw \<Rightarrow> ReqList option" where
  "get_req q w \<equiv> g_freqs (w_g w) q"

definition upd_req :: "ptr \<Rightarrow> (UsbFnRequest \<Rightarrow> UsbFnRequest) \<Rightarrow> 'k acmw \<Rightarrow> 'k acmw option" where
  "upd_req q f w = do { r \<leftarrow> get_req q w; Some (w\<lparr>w_g := put_freq q (r\<lparr>rl_req := f (rl_req r)\<rparr>) (w_g w)\<rparr>) }"

text \<open>\<open>OsalMemCalloc\<close> and \<open>OsalMemFree\<close>, which do not go through the tracker of the development kit.\<close>

definition walloc :: "'k fn_os \<Rightarrow> nat \<Rightarrow> 'k acmw \<Rightarrow> ptr option \<times> 'k acmw" where
  "walloc K n w = (case OsalMemAlloc (fo_alloc K) n (g_mem (w_g w)) of (p, m) \<Rightarrow> (p, w\<lparr>w_g := (w_g w)\<lparr>g_mem := m\<rparr>\<rparr>))"

definition wfree :: "ptr option \<Rightarrow> 'k acmw \<Rightarrow> 'k acmw option" where
  "wfree q w = (case q of None \<Rightarrow> Some w
     | Some p \<Rightarrow> do { m \<leftarrow> OsalMemFree p (g_mem (w_g w));
                      Some (w\<lparr>w_g := (w_g w)\<lparr>g_mem := m\<rparr>, w_acms := (w_acms w)(p := None), w_ports := (w_ports w)(p := None),
                             w_ctrls := (w_ctrls w)(p := None)\<rparr>) })"

text \<open>Reading and writing the buffer of a request.\<close>

definition buf_bytes :: "ptr \<Rightarrow> nat \<Rightarrow> 'k acmw \<Rightarrow> u8 list" where
  "buf_bytes a n w = map (w_buf w a) [0..<n]"

definition store_bytes :: "ptr \<Rightarrow> u8 list \<Rightarrow> 'k acmw \<Rightarrow> 'k acmw" where
  "store_bytes a bs w = w\<lparr>w_buf := (w_buf w)(a := \<lambda>i. if i < length bs then bs ! i else w_buf w a i)\<rparr>"

definition store_req :: "ptr \<Rightarrow> u8 list \<Rightarrow> 'k acmw \<Rightarrow> 'k acmw option" where
  "store_req q bs w = do { r \<leftarrow> get_req q w;
     if length bs \<le> unat (rl_bufLen r) then Some (store_bytes (q_buf (rl_req r)) bs w) else None }"

text \<open>\<open>UsbFnSubmitRequestAsync\<close>, with a record of what is handed over.\<close>

definition acm_submit :: "'k fn_os \<Rightarrow> ptr \<Rightarrow> 'k acmw \<Rightarrow> (ret \<times> 'k acmw) option" where
  "acm_submit K q w =
     do { r \<leftarrow> get_req q w;
          (ret, g) \<leftarrow> UsbFnSubmitRequestAsync K (Some q) (w_g w);
          Some (ret, w\<lparr>w_g := g, w_sent := w_sent w @ [(q, buf_bytes (q_buf (rl_req r)) (unat (q_length (rl_req r))) w, ret = HDF_SUCCESS)]\<rparr>) }"

text \<open>\<open>OsalMutexLock\<close> and \<open>OsalMutexUnlock\<close> on a port and on a device.\<close>

definition lock_port :: "ptr \<Rightarrow> 'k acmw \<Rightarrow> 'k acmw option" where
  "lock_port p w = do { s \<leftarrow> w_ports w p; if sp_lock s then None else Some (put_port p (s\<lparr>sp_lock := True\<rparr>) w) }"

definition unlock_port :: "ptr \<Rightarrow> 'k acmw \<Rightarrow> 'k acmw option" where
  "unlock_port p w = do { s \<leftarrow> w_ports w p; Some (put_port p (s\<lparr>sp_lock := False\<rparr>) w) }"

definition lock_acm :: "ptr \<Rightarrow> 'k acmw \<Rightarrow> 'k acmw option" where
  "lock_acm a w = do { d \<leftarrow> w_acms w a; if ac_lock d then None else Some (put_acm a (d\<lparr>ac_lock := True\<rparr>) w) }"

definition unlock_acm :: "ptr \<Rightarrow> 'k acmw \<Rightarrow> 'k acmw option" where
  "unlock_acm a w = do { d \<leftarrow> w_acms w a; Some (put_acm a (d\<lparr>ac_lock := False\<rparr>) w) }"

end
