(* ===== verification/Acm_Serial.thy ===== *)
theory Acm_Serial
  imports Acm_State
begin

text \<open>
  The port of the serial function (\<open>usb/gadget/function/acm/cdcacm.c\<close>): moving bytes between the rings and the requests, the
  completion callbacks, starting the stream, notifications of the serial state, opening, closing, reading and writing.  The
  \<open>while\<close> loops are \<open>loop_opt\<close> of their body.
\<close>

text \<open>\<open>req->length = n; UsbFnSubmitRequestAsync(req);\<close>\<close>

definition send_with :: "'k fn_os \<Rightarrow> ptr \<Rightarrow> u32 \<Rightarrow> 'k acmw \<Rightarrow> (ret \<times> 'k acmw) option" where
  "send_with K q n w = do { v \<leftarrow> upd_req q (\<lambda>r. r\<lparr>q_length := n\<rparr>) w; acm_submit K q v }"

subsection \<open>Sending\<close>

text \<open>One iteration of the loop of \<open>UsbSerialStartTx\<close>, on the result so far and the store.\<close>

definition start_tx_body :: "'k fn_os \<Rightarrow> ptr \<Rightarrow> ret \<times> 'k acmw \<Rightarrow> (bool \<times> (ret \<times> 'k acmw)) option" where
  "start_tx_body K p = (\<lambda>(ret, w).
     do { s \<leftarrow> w_ports w p;
          if sp_writeBusy s \<or> sp_writePool s = [] then Some (False, (ret, w))
          else if sp_writeStarted s \<ge> QUEUE_SIZE then Some (False, (ret, w))
          else let q = hd (sp_writePool s) in
            do { a \<leftarrow> sp_acm s; d \<leftarrow> w_acms w a;
                 (len, bs, f) \<leftarrow> DataFifoRead (sp_writeFifo s) (ucast (ap_maxPacketSize (ac_dataInPipe d)));
                 w1 \<leftarrow> store_req q bs (put_port p (s\<lparr>sp_writeFifo := f\<rparr>) w);
                 if len = 0 then Some (False, (ret, w1))
                 else
                   let s2 = s\<lparr>sp_writeFifo := f, sp_writePool := tl (sp_writePool s)\<rparr> in
                   do { (r, w3) \<leftarrow> send_with K q len (put_port p (s2\<lparr>sp_writeBusy := True\<rparr>) w1);
                        s3 \<leftarrow> w_ports w3 p;
                        let s4 = s3\<lparr>sp_writeBusy := False\<rparr> in
                        if r \<noteq> HDF_SUCCESS
                        then Some (False, (r, put_port p (s4\<lparr>sp_writePool := sp_writePool s4 @ [q]\<rparr>) w3))
                        else let s5 = s4\<lparr>sp_writeStarted := sp_writeStarted s4 + 1\<rparr> in
                          Some (sp_acm s5 \<noteq> None, (r, put_port p s5 w3)) } } })"

definition UsbSerialStartTx :: "'k fn_os \<Rightarrow> ptr option \<Rightarrow> 'k acmw \<Rightarrow> (ret \<times> 'k acmw) option" where
  "UsbSerialStartTx K port w =
     (case port of
        None \<Rightarrow> Some (RetErr HDF_FAILURE, w)
      | Some p \<Rightarrow>
          do { s \<leftarrow> w_ports w p;
               if sp_acm s = None then Some (HDF_SUCCESS, w)
               else loop_opt (start_tx_body K p) (RetErr HDF_FAILURE, w) })"

subsection \<open>Receiving\<close>

definition start_rx_body :: "'k fn_os \<Rightarrow> ptr \<Rightarrow> 'k acmw \<Rightarrow> (bool \<times> 'k acmw) option" where
  "start_rx_body K p w =
     do { s \<leftarrow> w_ports w p;
          if sp_readPool s = [] then Some (False, w)
          else if sp_readStarted s \<ge> QUEUE_SIZE then Some (False, w)
          else let q = hd (sp_readPool s); s1 = s\<lparr>sp_readPool := tl (sp_readPool s)\<rparr> in
            do { a \<leftarrow> sp_acm s; d \<leftarrow> w_acms w a;
                 (r, w2) \<leftarrow> send_with K q (ucast (ap_maxPacketSize (ac_dataOutPipe d))) (put_port p s1 w);
                 s2 \<leftarrow> w_ports w2 p;
                 if r \<noteq> HDF_SUCCESS then Some (False, put_port p (s2\<lparr>sp_readPool := sp_readPool s2 @ [q]\<rparr>) w2)
                 else let s3 = s2\<lparr>sp_readStarted := sp_readStarted s2 + 1\<rparr> in
                   Some (sp_acm s3 \<noteq> None, put_port p s3 w2) } }"

definition UsbSerialStartRx :: "'k fn_os \<Rightarrow> ptr \<Rightarrow> 'k acmw \<Rightarrow> (int \<times> 'k acmw) option" where
  "UsbSerialStartRx K p w =
     do { w1 \<leftarrow> loop_opt (start_rx_body K p) w; s \<leftarrow> w_ports w1 p; Some (sp_readStarted s, w1) }"

text \<open>The bytes of a completed request on their way into the ring.\<close>

definition rx_into_fifo :: "'k acmw \<Rightarrow> ReqList \<Rightarrow> DataFifo \<Rightarrow> DataFifo option" where
  "rx_into_fifo w r f =
     (let size = q_actual (rl_req r) in
      if w_inFifo w \<noteq> 0 \<and> size \<noteq> 0 then
        let f1 = (if DataFifoIsFull f then DataFifoSkip f size else f) in
        map_option snd (DataFifoWrite f1 (buf_bytes (q_buf (rl_req r)) (unat (rl_bufLen r)) w) size)
      else Some f)"

definition rx_push_body :: "ptr \<Rightarrow> bool \<times> 'k acmw \<Rightarrow> (bool \<times> (bool \<times> 'k acmw)) option" where
  "rx_push_body p = (\<lambda>(disconnect, w).
     do { s \<leftarrow> w_ports w p;
          if sp_readQueue s = [] then Some (False, (disconnect, w))
          else let q = hd (sp_readQueue s) in
            do { r \<leftarrow> get_req q w;
                 f \<leftarrow> rx_into_fifo w r (sp_readFifo s);
                 Some (True, (disconnect \<or> q_status (rl_req r) = STATUS_NO_DEVICE,
                   put_port p (s\<lparr>sp_readFifo := f, sp_readQueue := tl (sp_readQueue s), sp_readPool := sp_readPool s @ [q],
                     sp_readStarted := sp_readStarted s - 1\<rparr>) w)) } })"

definition UsbSerialRxPush :: "'k fn_os \<Rightarrow> ptr \<Rightarrow> 'k acmw \<Rightarrow> 'k acmw option" where
  "UsbSerialRxPush K p w =
     do { (disconnect, w1) \<leftarrow> loop_opt (rx_push_body p) (False, w);
          s \<leftarrow> w_ports w1 p;
          if \<not> disconnect \<and> sp_acm s \<noteq> None then map_option snd (UsbSerialStartRx K p w1) else Some w1 }"

subsection \<open>Releasing requests\<close>

text \<open>\<open>UsbSerialFreeRequests\<close> is called on the pool for reading or the pool for writing, with its counter.\<close>

datatype pool_sel = ReadPool | WritePool

definition pool_of :: "pool_sel \<Rightarrow> UsbSerial \<Rightarrow> ptr list" where
  "pool_of c s = (case c of ReadPool \<Rightarrow> sp_readPool s | WritePool \<Rightarrow> sp_writePool s)"

definition take_pool :: "pool_sel \<Rightarrow> UsbSerial \<Rightarrow> UsbSerial" where
  "take_pool c s = (case c of ReadPool \<Rightarrow> s\<lparr>sp_readPool := tl (sp_readPool s)\<rparr> | WritePool \<Rightarrow> s\<lparr>sp_writePool := tl (sp_writePool s)\<rparr>)"

definition count_down :: "pool_sel \<Rightarrow> UsbSerial \<Rightarrow> UsbSerial" where
  "count_down c s = (case c of ReadPool \<Rightarrow> s\<lparr>sp_readAllocated := sp_readAllocated s - 1\<rparr>
     | WritePool \<Rightarrow> s\<lparr>sp_writeAllocated := sp_writeAllocated s - 1\<rparr>)"

definition free_body :: "'k fn_os \<Rightarrow> ptr \<Rightarrow> pool_sel \<Rightarrow> 'k acmw \<Rightarrow> (bool \<times> 'k acmw) option" where
  "free_body K p c w =
     do { s \<leftarrow> w_ports w p;
          case pool_of c s of
            [] \<Rightarrow> Some (False, w)
          | q # qs \<Rightarrow>
              do { (r, g) \<leftarrow> UsbFnFreeRequest K (Some q) (w_g w);
                   Some (True, put_port p (count_down c (take_pool c s)) (w\<lparr>w_g := g\<rparr>)) } }"

definition UsbSerialFreeRequests :: "'k fn_os \<Rightarrow> ptr \<Rightarrow> pool_sel \<Rightarrow> 'k acmw \<Rightarrow> 'k acmw option" where
  "UsbSerialFreeRequests K p c w = loop_opt (free_body K p c) w"

subsection \<open>Completion callbacks\<close>

text \<open>\<open>gettimeofday\<close>.\<close>

definition now :: "'b hdf_env \<Rightarrow> 'k acmw \<Rightarrow> timeval \<times> 'k acmw" where
  "now H w = (he_time H (w_clock w), w\<lparr>w_clock := w_clock w + 1\<rparr>)"

text \<open>The statistics at the start of \<open>UsbSerialReadComplete\<close>.\<close>

definition count_read :: "'b hdf_env \<Rightarrow> UsbFnRequest \<Rightarrow> 'k acmw \<Rightarrow> 'k acmw" where
  "count_read H r w =
     (if \<not> w_isReadDone w \<and> w_isStartRead w \<and> q_status r = STATUS_COMPLETED then
        let w0 = w\<lparr>w_readCnt := w_readCnt w + ucast (q_actual r)\<rparr> in
        if \<not> w_isGetReadTimeStart w0 then
          case now H (w0\<lparr>w_isGetReadTimeStart := True\<rparr>) of (t, w') \<Rightarrow> w'\<lparr>w_readTimeStart := t\<rparr>
        else w0
      else w)"

definition UsbSerialReadComplete :: "'b hdf_env \<Rightarrow> 'k fn_os \<Rightarrow> ptr \<Rightarrow> 'k acmw \<Rightarrow> 'k acmw option" where
  "UsbSerialReadComplete H K q w =
     do { r \<leftarrow> get_req q w; p \<leftarrow> q_context (rl_req r);
          w2 \<leftarrow> lock_port p (count_read H (rl_req r) w);
          s \<leftarrow> w_ports w2 p;
          w3 \<leftarrow> UsbSerialRxPush K p (put_port p (s\<lparr>sp_readQueue := sp_readQueue s @ [q]\<rparr>) w2);
          unlock_port p w3 }"

definition UsbSerialWriteComplete :: "'k fn_os \<Rightarrow> ptr \<Rightarrow> 'k acmw \<Rightarrow> 'k acmw option" where
  "UsbSerialWriteComplete K q w =
     do { r \<leftarrow> get_req q w; p \<leftarrow> q_context (rl_req r);
          w1 \<leftarrow> lock_port p w;
          s \<leftarrow> w_ports w1 p;
          let w2 = put_port p (s\<lparr>sp_writePool := sp_writePool s @ [q], sp_writeStarted := sp_writeStarted s - 1\<rparr>) w1 in
          do { w3 \<leftarrow> (if q_status (rl_req r) = STATUS_COMPLETED then map_option snd (UsbSerialStartTx K (Some p) w2) else Some w2);
               unlock_port p w3 } }"

text \<open>Numbers of the callbacks that requests carry.\<close>

definition cb_ReadComplete :: nat where "cb_ReadComplete = 1"
definition cb_WriteComplete :: nat where "cb_WriteComplete = 2"
definition cb_CtrlComplete :: nat where "cb_CtrlComplete = 3"
definition cb_NotifyComplete :: nat where "cb_NotifyComplete = 4"
definition cb_WriteSpeedComplete :: nat where "cb_WriteSpeedComplete = 5"
definition cb_AcmEvent :: nat where "cb_AcmEvent = 6"

subsection \<open>Allocating requests and rings\<close>

fun UsbSerialAllocReadRequests :: "'k fn_os \<Rightarrow> ptr \<Rightarrow> nat \<Rightarrow> 'k acmw \<Rightarrow> (ret \<times> 'k acmw) option" where
  "UsbSerialAllocReadRequests K p 0 w = Some (HDF_SUCCESS, w)"
| "UsbSerialAllocReadRequests K p (Suc n) w =
     do { s \<leftarrow> w_ports w p; a \<leftarrow> sp_acm s; d \<leftarrow> w_acms w a;
          (qo, g) \<leftarrow> UsbFnAllocRequest K (ai_handle (ac_dataIface d)) (ap_id (ac_dataOutPipe d)) (ucast (ap_maxPacketSize (ac_dataOutPipe d))) (w_g w);
          case qo of
            None \<Rightarrow> Some (if sp_readPool s = [] then RetErr HDF_FAILURE else HDF_SUCCESS, w\<lparr>w_g := g\<rparr>)
          | Some q \<Rightarrow>
              do { w1 \<leftarrow> upd_req q (\<lambda>r. r\<lparr>q_complete := Some cb_ReadComplete, q_context := Some p\<rparr>) (w\<lparr>w_g := g\<rparr>);
                   UsbSerialAllocReadRequests K p n
                     (put_port p (s\<lparr>sp_readPool := sp_readPool s @ [q], sp_readAllocated := sp_readAllocated s + 1\<rparr>) w1) } }"

fun UsbSerialAllocWriteRequests :: "'k fn_os \<Rightarrow> ptr \<Rightarrow> nat \<Rightarrow> 'k acmw \<Rightarrow> (ret \<times> 'k acmw) option" where
  "UsbSerialAllocWriteRequests K p 0 w = Some (HDF_SUCCESS, w)"
| "UsbSerialAllocWriteRequests K p (Suc n) w =
     do { s \<leftarrow> w_ports w p; a \<leftarrow> sp_acm s; d \<leftarrow> w_acms w a;
          (qo, g) \<leftarrow> UsbFnAllocRequest K (ai_handle (ac_dataIface d)) (ap_id (ac_dataInPipe d)) (ucast (ap_maxPacketSize (ac_dataInPipe d))) (w_g w);
          case qo of
            None \<Rightarrow> Some (if sp_writePool s = [] then RetErr HDF_FAILURE else HDF_SUCCESS, w\<lparr>w_g := g\<rparr>)
          | Some q \<Rightarrow>
              do { w1 \<leftarrow> upd_req q (\<lambda>r. r\<lparr>q_complete := Some cb_WriteComplete, q_context := Some p\<rparr>) (w\<lparr>w_g := g\<rparr>);
                   UsbSerialAllocWriteRequests K p n
                     (put_port p (s\<lparr>sp_writePool := sp_writePool s @ [q], sp_writeAllocated := sp_writeAllocated s + 1\<rparr>) w1) } }"

text \<open>The end of \<open>UsbSerialStartIo\<close>: the result of \<open>UsbSerialStartTx\<close> is not used.\<close>

definition start_stream :: "'k fn_os \<Rightarrow> ptr \<Rightarrow> 'k acmw \<Rightarrow> (ret \<times> 'k acmw) option" where
  "start_stream K p w =
     do { (started, w1) \<leftarrow> UsbSerialStartRx K p w;
          if started \<noteq> 0 then do { (r, w2) \<leftarrow> UsbSerialStartTx K (Some p) w1; Some (HDF_SUCCESS, w2) }
          else do { w2 \<leftarrow> UsbSerialFreeRequests K p ReadPool w1;
                    w3 \<leftarrow> UsbSerialFreeRequests K p WritePool w2;
                    Some (RetErr HDF_ERR_IO, w3) } }"

definition UsbSerialStartIo :: "'k fn_os \<Rightarrow> ptr \<Rightarrow> 'k acmw \<Rightarrow> (ret \<times> 'k acmw) option" where
  "UsbSerialStartIo K p w =
     do { s \<leftarrow> w_ports w p;
          (r1, w1) \<leftarrow> (if sp_readAllocated s = 0 then UsbSerialAllocReadRequests K p (nat QUEUE_SIZE) w else Some (HDF_SUCCESS, w));
          if r1 \<noteq> HDF_SUCCESS then Some (r1, w1)
          else do { s1 \<leftarrow> w_ports w1 p;
            (r2, w2) \<leftarrow> (if sp_writeAllocated s1 = 0 then UsbSerialAllocWriteRequests K p (nat QUEUE_SIZE) w1 else Some (HDF_SUCCESS, w1));
            if r2 \<noteq> HDF_SUCCESS then do { w3 \<leftarrow> UsbSerialFreeRequests K p ReadPool w2; Some (r2, w3) }
            else start_stream K p w2 } }"

text \<open>
  \<open>UsbSerialAllocFifo\<close> and \<open>UsbSerialFreeFifo\<close> on a ring and the address of its block.  A new block has the bytes that happen to be at its
  address.
\<close>

definition UsbSerialAllocFifo ::
  "'k fn_os \<Rightarrow> DataFifo \<times> ptr option \<Rightarrow> u32 \<Rightarrow> 'k acmw \<Rightarrow> ret \<times> (DataFifo \<times> ptr option) \<times> 'k acmw" where
  "UsbSerialAllocFifo K fa sz w =
     (if DataFifoIsInitialized (fst fa) then (HDF_SUCCESS, fa, w)
      else case walloc K (unat sz) w of
        (None, w1) \<Rightarrow> (RetErr HDF_ERR_MALLOC_FAIL, fa, w1)
      | (Some a, w1) \<Rightarrow> (HDF_SUCCESS, (DataFifoInit (fst fa) sz (buf_bytes a (unat sz) w), Some a), w1))"

definition UsbSerialFreeFifo :: "DataFifo \<times> ptr option \<Rightarrow> 'k acmw \<Rightarrow> ((DataFifo \<times> ptr option) \<times> 'k acmw) option" where
  "UsbSerialFreeFifo fa w = do { w1 \<leftarrow> wfree (snd fa) w; Some ((DataFifoInit (fst fa) 0 [], None), w1) }"

text \<open>Both rings of a port, in the order of \<open>UsbSerialOpen\<close> and \<open>AcmEnable\<close>.\<close>

definition alloc_fifos :: "'k fn_os \<Rightarrow> ptr \<Rightarrow> 'k acmw \<Rightarrow> (ret \<times> 'k acmw) option" where
  "alloc_fifos K p w =
     do { s \<leftarrow> w_ports w p;
          case UsbSerialAllocFifo K (sp_writeFifo s, sp_writeData s) WRITE_BUF_SIZE w of
            (r, (f, a), w1) \<Rightarrow>
              let s1 = s\<lparr>sp_writeFifo := f, sp_writeData := a\<rparr> in
              if r \<noteq> HDF_SUCCESS then Some (r, put_port p s1 w1)
              else case UsbSerialAllocFifo K (sp_readFifo s1, sp_readData s1) READ_BUF_SIZE (put_port p s1 w1) of
                (r2, (f2, a2), w2) \<Rightarrow> Some (r2, put_port p (s1\<lparr>sp_readFifo := f2, sp_readData := a2\<rparr>) w2) }"

end
