(* ===== verification/Acm_Port.thy ===== *)
theory Acm_Port
  imports Acm_Serial
begin

text \<open>
  The second part of the serial function: notifications of the serial state, opening and closing the port, reading and writing, the
  line coding and the properties, and the two measurements of speed.
\<close>

subsection \<open>Notifications\<close>

definition notification_bytes :: "u8 \<Rightarrow> u16 \<Rightarrow> u16 \<Rightarrow> u8 list \<Rightarrow> u8 list" where
  "notification_bytes type value index data =
     [0x80 OR 0x20 OR 0x01, type] @ le16_bytes value @ le16_bytes index @ le16_bytes (of_nat (length data)) @ data"

definition AcmSendNotifyRequest :: "'k fn_os \<Rightarrow> ptr \<Rightarrow> u8 \<Rightarrow> u16 \<Rightarrow> u8 list \<Rightarrow> 'k acmw \<Rightarrow> (ret \<times> 'k acmw) option" where
  "AcmSendNotifyRequest K a type value data w =
     do { d \<leftarrow> w_acms w a;
          case ac_notifyReq d of
            None \<Rightarrow> Some (RetErr HDF_FAILURE, w)
          | Some q \<Rightarrow>
              do { r \<leftarrow> get_req q w;
                   if q_buf (rl_req r) = 0 then Some (RetErr HDF_FAILURE, w)
                   else do { w1 \<leftarrow> upd_req q (\<lambda>r. r\<lparr>q_length := of_nat (8 + length data)\<rparr>)
                                     (put_acm a (d\<lparr>ac_notifyReq := None, ac_pending := False\<rparr>) w);
                     e \<leftarrow> ai_fn (ac_ctrlIface d); im \<leftarrow> get_intf e (w_g w1);
                     w2 \<leftarrow> store_req q (notification_bytes type value (ucast (xi_index (im_info im))) data) w1;
                     (ret, w3) \<leftarrow> acm_submit K q w2;
                     d3 \<leftarrow> w_acms w3 a;
                     Some (ret, if ret \<noteq> HDF_SUCCESS then put_acm a (d3\<lparr>ac_notifyReq := Some q\<rparr>) w3 else w3) } } }"

definition AcmNotifySerialState :: "'k fn_os \<Rightarrow> ptr \<Rightarrow> 'k acmw \<Rightarrow> (ret \<times> 'k acmw) option" where
  "AcmNotifySerialState K a w =
     do { w1 \<leftarrow> lock_acm a w;
          d \<leftarrow> w_acms w1 a;
          (ret, w2) \<leftarrow> (if ac_notifyReq d \<noteq> None
                         then AcmSendNotifyRequest K a USB_DDK_CDC_NOTIFY_SERIAL_STATE 0 (le16_bytes (ac_serialState d)) w1
                         else Some (HDF_SUCCESS, put_acm a (d\<lparr>ac_pending := True\<rparr>) w1));
          w3 \<leftarrow> unlock_acm a w2;
          Some (ret, w3) }"

definition AcmConnect :: "'k fn_os \<Rightarrow> ptr option \<Rightarrow> 'k acmw \<Rightarrow> 'k acmw option" where
  "AcmConnect K acm w =
     (case acm of
        None \<Rightarrow> Some w
      | Some a \<Rightarrow>
          do { d \<leftarrow> w_acms w a;
               map_option snd (AcmNotifySerialState K a
                 (put_acm a (d\<lparr>ac_serialState := ac_serialState d OR (SERIAL_STATE_DSR OR SERIAL_STATE_DCD)\<rparr>) w)) })"

definition AcmDisconnect :: "'k fn_os \<Rightarrow> ptr option \<Rightarrow> 'k acmw \<Rightarrow> 'k acmw option" where
  "AcmDisconnect K acm w =
     (case acm of
        None \<Rightarrow> Some w
      | Some a \<Rightarrow>
          do { d \<leftarrow> w_acms w a;
               map_option snd (AcmNotifySerialState K a
                 (put_acm a (d\<lparr>ac_serialState := ac_serialState d AND NOT (SERIAL_STATE_DSR OR SERIAL_STATE_DCD)\<rparr>) w)) })"

definition AcmSendBreak :: "'k fn_os \<Rightarrow> ptr option \<Rightarrow> int \<Rightarrow> 'k acmw \<Rightarrow> (ret \<times> 'k acmw) option" where
  "AcmSendBreak K acm duration w =
     (case acm of
        None \<Rightarrow> Some (RetErr HDF_FAILURE, w)
      | Some a \<Rightarrow>
          do { d \<leftarrow> w_acms w a;
               let st = ac_serialState d AND NOT SERIAL_STATE_BREAK in
               AcmNotifySerialState K a
                 (put_acm a (d\<lparr>ac_serialState := (if duration \<noteq> 0 then st OR SERIAL_STATE_BREAK else st)\<rparr>) w) })"

definition AcmNotifyComplete :: "'k fn_os \<Rightarrow> ptr \<Rightarrow> 'k acmw \<Rightarrow> 'k acmw option" where
  "AcmNotifyComplete K q w =
     do { r \<leftarrow> get_req q w;
          case q_context (rl_req r) of
            None \<Rightarrow> Some w
          | Some a \<Rightarrow>
              do { w1 \<leftarrow> lock_acm a w;
                   d \<leftarrow> w_acms w1 a;
                   w2 \<leftarrow> unlock_acm a (put_acm a (d\<lparr>ac_notifyReq := Some q\<rparr>) w1);
                   if q_status (rl_req r) = PENDING_FLAG \<and> ac_pending d then map_option snd (AcmNotifySerialState K a w2)
                   else Some w2 } }"

text \<open>\<open>if (acm->notify && acm->notify->Connect) acm->notify->Connect(acm);\<close>\<close>

definition notify_connect :: "'k fn_os \<Rightarrow> ptr \<Rightarrow> 'k acmw \<Rightarrow> 'k acmw option" where
  "notify_connect K a w = do { d \<leftarrow> w_acms w a; if ac_notify d then AcmConnect K (Some a) w else Some w }"

definition notify_disconnect :: "'k fn_os \<Rightarrow> ptr \<Rightarrow> 'k acmw \<Rightarrow> 'k acmw option" where
  "notify_disconnect K a w = do { d \<leftarrow> w_acms w a; if ac_notify d then AcmDisconnect K (Some a) w else Some w }"

subsection \<open>Opening and closing\<close>

text \<open>The part of \<open>UsbSerialOpen\<close> under the lock; every way out goes to the same label.\<close>

definition serial_open :: "'k fn_os \<Rightarrow> ptr \<Rightarrow> 'k acmw \<Rightarrow> 'k acmw option" where
  "serial_open K p w =
     do { (r, w1) \<leftarrow> alloc_fifos K p w;
          if r \<noteq> HDF_SUCCESS then Some w1
          else do { s \<leftarrow> w_ports w1 p;
            case sp_acm s of
              None \<Rightarrow> Some w1
            | Some a \<Rightarrow>
                if \<not> sp_suspended s then
                  do { (r2, w2) \<leftarrow> UsbSerialStartIo K p w1;
                       if r2 \<noteq> HDF_SUCCESS then Some w2 else notify_connect K a w2 }
                else Some (put_port p (s\<lparr>sp_startDelayed := True\<rparr>) w1) } }"

definition UsbSerialOpen :: "'k fn_os \<Rightarrow> ptr option \<Rightarrow> 'k acmw \<Rightarrow> (ret \<times> 'k acmw) option" where
  "UsbSerialOpen K port w =
     (case port of
        None \<Rightarrow> Some (RetErr HDF_ERR_INVALID_PARAM, w)
      | Some p \<Rightarrow>
          do { w1 \<leftarrow> lock_port p (w\<lparr>w_inFifo := 1\<rparr>);
               w2 \<leftarrow> serial_open K p w1;
               w3 \<leftarrow> unlock_port p w2;
               Some (HDF_SUCCESS, w3) })"

definition UsbSerialClose :: "'k fn_os \<Rightarrow> ptr option \<Rightarrow> 'k acmw \<Rightarrow> (ret \<times> 'k acmw) option" where
  "UsbSerialClose K port w =
     (case port of
        None \<Rightarrow> Some (RetErr HDF_ERR_INVALID_PARAM, w)
      | Some p \<Rightarrow>
          do { w1 \<leftarrow> lock_port p w;
               s \<leftarrow> w_ports w1 p;
               w2 \<leftarrow> (case sp_acm s of Some a \<Rightarrow> if \<not> sp_suspended s then notify_disconnect K a w1 else Some w1 | None \<Rightarrow> Some w1);
               s2 \<leftarrow> w_ports w2 p;
               w3 \<leftarrow> unlock_port p (put_port p (s2\<lparr>sp_writeFifo := DataFifoReset (sp_writeFifo s2),
                       sp_readFifo := DataFifoReset (sp_readFifo s2), sp_startDelayed := False\<rparr>) w2);
               Some (HDF_SUCCESS, w3) })"

subsection \<open>Reading and writing\<close>

text \<open>
  The loop of \<open>UsbSerialRead\<close>: byte \<open>i\<close> of the buffer, \<open>n\<close> to go.  It ends after all bytes or after a zero byte that is not the first, at a zero byte that
  is the first, or with an error.
\<close>

datatype read_end = ReadDone | ReadZero | ReadError

fun serial_read_loop :: "nat \<Rightarrow> nat \<Rightarrow> DataFifo \<Rightarrow> (read_end \<times> u8 list \<times> DataFifo) option" where
  "serial_read_loop 0 i f = Some (ReadDone, [], f)"
| "serial_read_loop (Suc n) i f =
     do { (len, bs, f1) \<leftarrow> DataFifoRead f 1;
          if len = 0 then Some (ReadError, [], f1)
          else let b = hd bs in
            if b = 0 then Some (if i = 0 then ReadZero else ReadDone, [b], f1)
            else do { (e, cs, f2) \<leftarrow> serial_read_loop n (Suc i) f1; Some (e, b # cs, f2) } }"

text \<open>A C string as characters: the bytes before the first zero.\<close>

definition chars_of :: "u8 list \<Rightarrow> string" where
  "chars_of bs = map (\<lambda>b. char_of (unat b)) (takeWhile (\<lambda>b. b \<noteq> 0) bs)"

definition UsbSerialRead :: "'b hdf_env \<Rightarrow> 'k fn_os \<Rightarrow> ptr \<Rightarrow> 'b \<Rightarrow> 'k acmw \<Rightarrow> (ret \<times> 'b \<times> 'k acmw) option" where
  "UsbSerialRead H K p reply w =
     do { w1 \<leftarrow> lock_port p w;
          s \<leftarrow> w_ports w1 p;
          if DataFifoIsEmpty (sp_readFifo s) then do { w2 \<leftarrow> unlock_port p w1; Some (HDF_SUCCESS, reply, w2) }
          else let fifoLen = DataFifoLen (sp_readFifo s) in
            case walloc K (unat (fifoLen + 1)) w1 of
              (None, w2) \<Rightarrow> do { w3 \<leftarrow> unlock_port p w2; Some (RetErr HDF_ERR_MALLOC_FAIL, reply, w3) }
            | (Some buf, w2) \<Rightarrow>
                do { (e, bs, f) \<leftarrow> serial_read_loop (unat fifoLen) 0 (sp_readFifo s);
                     let w3 = put_port p (s\<lparr>sp_readFifo := f\<rparr>) w2;
                         (ret, reply1) = (case e of ReadError \<Rightarrow> (RetErr HDF_ERR_IO, reply) | ReadZero \<Rightarrow> (HDF_SUCCESS, reply)
                           | ReadDone \<Rightarrow> (case he_writeString H (chars_of bs) reply of
                               (ok, b) \<Rightarrow> (if ok then HDF_SUCCESS else RetErr HDF_ERR_IO, b))) in
                     do { w4 \<leftarrow> (if sp_acm s \<noteq> None then map_option snd (UsbSerialStartRx K p w3) else Some w3);
                          w5 \<leftarrow> wfree (Some buf) w4;
                          w6 \<leftarrow> unlock_port p w5;
                          Some (ret, reply1, w6) } } }"

text \<open>The early returns leave the lock held.\<close>

definition UsbSerialWrite :: "'b hdf_env \<Rightarrow> 'k fn_os \<Rightarrow> ptr \<Rightarrow> 'b \<Rightarrow> 'k acmw \<Rightarrow> (ret \<times> 'b \<times> 'k acmw) option" where
  "UsbSerialWrite H K p data w =
     do { w1 \<leftarrow> lock_port p w;
          case he_readString H data of
            (None, data1) \<Rightarrow> Some (RetErr HDF_ERR_IO, data1, w1)
          | (Some tmp, data1) \<Rightarrow>
              let str = bytes_of (cstr tmp) in
              case walloc K (length str + 1) w1 of
                (None, w2) \<Rightarrow> Some (RetErr HDF_ERR_IO, data1, w2)
              | (Some buf, w2) \<Rightarrow>
                  do { s \<leftarrow> w_ports w2 p;
                       (n, f) \<leftarrow> DataFifoWrite (sp_writeFifo s) str (of_nat (length str));
                       let w3 = put_port p (s\<lparr>sp_writeFifo := f\<rparr>) w2 in
                       do { w4 \<leftarrow> (if sp_acm s \<noteq> None then map_option snd (UsbSerialStartTx K (Some p) w3) else Some w3);
                            w5 \<leftarrow> unlock_port p w4;
                            w6 \<leftarrow> wfree (Some buf) w5;
                            Some (RetVal (sint n), data1, w6) } } }"

subsection \<open>Line coding and properties\<close>

definition UsbSerialGetBaudrate :: "'b hdf_env \<Rightarrow> ptr \<Rightarrow> 'b \<Rightarrow> 'k acmw \<Rightarrow> (ret \<times> 'b \<times> 'k acmw) option" where
  "UsbSerialGetBaudrate H p reply w =
     do { s \<leftarrow> w_ports w p;
          case he_writeBuffer H (le32_bytes (dwDTERate (sp_lineCoding s))) reply of
            (ok, b) \<Rightarrow> Some (if ok then HDF_SUCCESS else RetErr HDF_ERR_IO, b, w) }"

text \<open>The size of the buffer is not looked at: a buffer of less than four bytes is overrun.\<close>

definition UsbSerialSetBaudrate :: "'b hdf_env \<Rightarrow> ptr \<Rightarrow> 'b \<Rightarrow> 'k acmw \<Rightarrow> (ret \<times> 'b \<times> 'k acmw) option" where
  "UsbSerialSetBaudrate H p data w =
     (case he_readBuffer H data of
        (None, b) \<Rightarrow> Some (RetErr HDF_ERR_IO, b, w)
      | (Some bs, b) \<Rightarrow>
          if length bs < 4 then None
          else let rate = le32_of bs in
            do { s \<leftarrow> w_ports w p;
                 let w1 = put_port p (s\<lparr>sp_lineCoding := (sp_lineCoding s)\<lparr>dwDTERate := rate\<rparr>\<rparr>) w in
                 case sp_acm s of
                   None \<Rightarrow> Some (HDF_SUCCESS, b, w1)
                 | Some a \<Rightarrow> do { d \<leftarrow> w_acms w1 a;
                     Some (HDF_SUCCESS, b, put_acm a (d\<lparr>ac_lineCoding := (ac_lineCoding d)\<lparr>dwDTERate := rate\<rparr>\<rparr>) w1) } })"

definition UsbSerialGetProp :: "'b hdf_env \<Rightarrow> 'k fn_os \<Rightarrow> ptr \<Rightarrow> 'b \<Rightarrow> 'b \<Rightarrow> 'k acmw \<Rightarrow> (ret \<times> 'b \<times> 'b \<times> 'k acmw) option" where
  "UsbSerialGetProp H K a data reply w =
     do { d \<leftarrow> w_acms w a;
          case he_readString H data of
            (None, data1) \<Rightarrow> Some (RetErr HDF_ERR_IO, data1, reply, w)
          | (Some name, data1) \<Rightarrow>
              do { (r, bo, g) \<leftarrow> UsbFnGetInterfaceProp K (ai_fn (ac_ctrlIface d)) (Some (cstr name)) (Some (replicate USB_MAX_PACKET_SIZE (CHR 0x00))) (w_g w);
                   let w1 = w\<lparr>w_g := g\<rparr> in
                   if r \<noteq> HDF_SUCCESS then Some (RetErr HDF_ERR_IO, data1, reply, w1)
                   else do { buf \<leftarrow> bo;
                     if CHR 0x00 \<notin> set buf then None
                     else case he_writeString H (cstr buf) reply of
                       (ok, reply1) \<Rightarrow> Some (if ok then HDF_SUCCESS else RetErr HDF_ERR_IO, data1, reply1, w1) } } }"

definition UsbSerialSetProp :: "'b hdf_env \<Rightarrow> 'k fn_os \<Rightarrow> ptr \<Rightarrow> 'b \<Rightarrow> 'k acmw \<Rightarrow> (ret \<times> 'b \<times> 'k acmw) option" where
  "UsbSerialSetProp H K a data w =
     do { d \<leftarrow> w_acms w a;
          case he_readString H data of
            (None, data1) \<Rightarrow> Some (RetErr HDF_ERR_IO, data1, w)
          | (Some name, data1) \<Rightarrow>
              (case he_readString H data1 of
                 (None, data2) \<Rightarrow> Some (RetErr HDF_ERR_IO, data2, w)
               | (Some val, data2) \<Rightarrow>
                   if \<not> fits USB_MAX_PACKET_SIZE (cstr val) then Some (RetErr HDF_FAILURE, data2, w)
                   else do { (r, g) \<leftarrow> UsbFnSetInterfaceProp K (ai_fn (ac_ctrlIface d)) (Some (cstr name)) (cstr val) (w_g w);
                     Some (if r \<noteq> HDF_SUCCESS then RetErr HDF_ERR_IO else HDF_SUCCESS, data2, w\<lparr>w_g := g\<rparr>) }) }"

definition cb_PropAGet :: nat where "cb_PropAGet = 7"
definition cb_PropASet :: nat where "cb_PropASet = 8"

definition UsbSerialRegistProp :: "'b hdf_env \<Rightarrow> 'k fn_os \<Rightarrow> ptr \<Rightarrow> 'b \<Rightarrow> 'k acmw \<Rightarrow> (ret \<times> 'b \<times> 'k acmw) option" where
  "UsbSerialRegistProp H K a data w =
     do { d \<leftarrow> w_acms w a;
          case he_readString H data of
            (None, data1) \<Rightarrow> Some (RetErr HDF_ERR_IO, data1, w)
          | (Some name, data1) \<Rightarrow>
              (case he_readString H data1 of
                 (None, data2) \<Rightarrow> Some (RetErr HDF_ERR_IO, data2, w)
               | (Some val, data2) \<Rightarrow>
                   do { (r, g) \<leftarrow> UsbFnRegistInterfaceProp K (ai_fn (ac_ctrlIface d))
                                    (Some \<lparr>ri_name = Some (cstr name), ri_value = cstr val, ri_getProp = Some cb_PropAGet, ri_setProp = Some cb_PropASet\<rparr>) (w_g w);
                        Some (if r \<noteq> HDF_SUCCESS then RetErr HDF_ERR_IO else HDF_SUCCESS, data2, w\<lparr>w_g := g\<rparr>) }) }"

subsection \<open>Measuring the speed of writing\<close>

definition UsbSerialWriteSpeedComplete :: "'b hdf_env \<Rightarrow> 'k fn_os \<Rightarrow> ptr \<Rightarrow> 'k acmw \<Rightarrow> 'k acmw option" where
  "UsbSerialWriteSpeedComplete H K q w =
     do { r \<leftarrow> get_req q w;
          if q_status (rl_req r) \<noteq> STATUS_COMPLETED then Some w
          else
            let w0 = w\<lparr>w_writeCnt := w_writeCnt w + ucast (q_actual (rl_req r))\<rparr>;
                w1 = (if \<not> w_isGetWriteTimeStart w0 then
                        case now H (w0\<lparr>w_isGetWriteTimeStart := True\<rparr>) of (t, w') \<Rightarrow> w'\<lparr>w_timeStart := t\<rparr>
                      else w0) in
            if w_isWriteDone w1 then do { (x, g) \<leftarrow> UsbFnFreeRequest K (Some q) (w_g w1); Some (w1\<lparr>w_g := g\<rparr>) }
            else do { w2 \<leftarrow> store_req q (replicate (unat (q_length (rl_req r))) 97) w1;
                      map_option snd (acm_submit K q w2) } }"

definition WRITE_SPEED_REQ_NUM :: nat where "WRITE_SPEED_REQ_NUM = 8"

text \<open>
  \<open>SpeedThread\<close>: the requests it starts with (\<open>n\<close> to go from index \<open>i\<close> on), and the two values it computes: in every round of its
  waiting loop, and when the measurement is over.
\<close>

fun speed_requests :: "'k fn_os \<Rightarrow> ptr \<Rightarrow> nat \<Rightarrow> nat \<Rightarrow> 'k acmw \<Rightarrow> (ret \<times> 'k acmw) option" where
  "speed_requests K p 0 i w = Some (HDF_SUCCESS, w)"
| "speed_requests K p (Suc n) i w =
     do { s \<leftarrow> w_ports w p; a \<leftarrow> sp_acm s; d \<leftarrow> w_acms w a;
          let mps = ap_maxPacketSize (ac_dataInPipe d) in
          do { (qo, g) \<leftarrow> UsbFnAllocRequest K (ai_handle (ac_dataIface d)) (ap_id (ac_dataInPipe d)) (ucast mps) (w_g w);
               if \<not> i < length (w_req w) then None
               else let w1 = w\<lparr>w_g := g, w_req := (w_req w)[i := qo]\<rparr> in
                 case qo of
                   None \<Rightarrow> Some (RetErr HDF_FAILURE, w1)
                 | Some q \<Rightarrow>
                     do { w2 \<leftarrow> upd_req q (\<lambda>r. r\<lparr>q_complete := Some cb_WriteSpeedComplete, q_context := Some p, q_length := ucast mps\<rparr>) w1;
                          w3 \<leftarrow> store_req q (replicate (unat mps) 97) w2;
                          (x, w4) \<leftarrow> acm_submit K q w3;
                          speed_requests K p n (Suc i) w4 } } }"

definition SpeedThread_start :: "'k fn_os \<Rightarrow> ptr \<Rightarrow> 'k acmw \<Rightarrow> (ret \<times> 'k acmw) option" where
  "SpeedThread_start K p w =
     speed_requests K p WRITE_SPEED_REQ_NUM 0 (w\<lparr>w_writeCnt := 0, w_isWriteDone := False, w_isGetWriteTimeStart := False, w_speed := 0\<rparr>)"

definition SpeedThread_round :: "'b hdf_env \<Rightarrow> 'k acmw \<Rightarrow> 'k acmw" where
  "SpeedThread_round H w =
     (if w_writeCnt w = 0 then w
      else case now H w of (t, w1) \<Rightarrow> w1\<lparr>w_speed := he_speed H (w_writeCnt w1) (w_timeStart w1) t\<rparr>)"

definition SpeedThread_end :: "'b hdf_env \<Rightarrow> 'k acmw \<Rightarrow> 'k acmw" where
  "SpeedThread_end H w = w\<lparr>w_speed := he_speed H (w_writeCnt w) (w_timeStart w) (w_timeEnd w)\<rparr>"

definition start_thread :: "'k fn_os \<Rightarrow> 'k acmw \<Rightarrow> ret \<times> 'k acmw" where
  "start_thread K w =
     (case fo_thread_create K (g_kern (w_g w)) of
        (r, k1) \<Rightarrow>
          if r \<noteq> HDF_SUCCESS then (RetErr HDF_ERR_DEVICE_BUSY, w\<lparr>w_g := set_fkern k1 (w_g w)\<rparr>)
          else case fo_thread_start K k1 of
            (r2, k2) \<Rightarrow> (if r2 \<noteq> HDF_SUCCESS then RetErr HDF_ERR_DEVICE_BUSY else HDF_SUCCESS, w\<lparr>w_g := set_fkern k2 (w_g w)\<rparr>))"

definition StartThreadSpeed :: "'k fn_os \<Rightarrow> 'k acmw \<Rightarrow> ret \<times> 'k acmw" where
  "StartThreadSpeed K w = start_thread K w"

definition UsbSerialGetTempSpeed :: "'b hdf_env \<Rightarrow> 'b \<Rightarrow> 'k acmw \<Rightarrow> ret \<times> 'b" where
  "UsbSerialGetTempSpeed H reply w =
     (case he_writeFloat H (w_speed w) reply of (ok, b) \<Rightarrow> (if ok then HDF_SUCCESS else RetErr HDF_FAILURE, b))"

definition UsbSerialGetTempSpeedInt :: "'b hdf_env \<Rightarrow> 'b \<Rightarrow> 'k acmw \<Rightarrow> ret \<times> 'b" where
  "UsbSerialGetTempSpeedInt H reply w =
     (case he_writeUint32 H (he_scale H (w_speed w)) reply of (ok, b) \<Rightarrow> (if ok then HDF_SUCCESS else RetErr HDF_FAILURE, b))"

definition UsbSerialSpeedDone :: "'b hdf_env \<Rightarrow> 'k acmw \<Rightarrow> ret \<times> 'k acmw" where
  "UsbSerialSpeedDone H w = (case now H w of (t, w1) \<Rightarrow> (HDF_SUCCESS, w1\<lparr>w_timeEnd := t, w_isWriteDone := True\<rparr>))"

definition UsbSerialSpeed :: "'k fn_os \<Rightarrow> 'k acmw \<Rightarrow> ret \<times> 'k acmw" where
  "UsbSerialSpeed K w = (HDF_SUCCESS, snd (StartThreadSpeed K w))"

subsection \<open>Measuring the speed of reading\<close>

definition SpeedReadThread_start :: "'k acmw \<Rightarrow> 'k acmw" where
  "SpeedReadThread_start w = w\<lparr>w_readCnt := 0, w_isReadDone := False, w_readSpeed := 0, w_isGetReadTimeStart := False\<rparr>"

definition SpeedReadThread_round :: "'b hdf_env \<Rightarrow> 'k acmw \<Rightarrow> 'k acmw" where
  "SpeedReadThread_round H w =
     (if w_readCnt w = 0 then w
      else case now H w of (t, w1) \<Rightarrow> w1\<lparr>w_readSpeed := he_speed H (w_readCnt w1) (w_readTimeStart w1) t\<rparr>)"

definition SpeedReadThread_end :: "'b hdf_env \<Rightarrow> 'k acmw \<Rightarrow> 'k acmw" where
  "SpeedReadThread_end H w = w\<lparr>w_readSpeed := he_speed H (w_readCnt w) (w_readTimeStart w) (w_readTimeEnd w)\<rparr>"

definition StartThreadReadSpeed :: "'k fn_os \<Rightarrow> 'k acmw \<Rightarrow> ret \<times> 'k acmw" where
  "StartThreadReadSpeed K w = start_thread K w"

definition UsbSerialGetTempReadSpeed :: "'b hdf_env \<Rightarrow> 'b \<Rightarrow> 'k acmw \<Rightarrow> ret \<times> 'b" where
  "UsbSerialGetTempReadSpeed H reply w =
     (case he_writeFloat H (w_readSpeed w) reply of (ok, b) \<Rightarrow> (if ok then HDF_SUCCESS else RetErr HDF_FAILURE, b))"

definition UsbSerialGetTempReadSpeedInt :: "'b hdf_env \<Rightarrow> 'b \<Rightarrow> 'k acmw \<Rightarrow> ret \<times> 'b" where
  "UsbSerialGetTempReadSpeedInt H reply w =
     (case he_writeUint32 H (he_scale H (w_readSpeed w)) reply of (ok, b) \<Rightarrow> (if ok then HDF_SUCCESS else RetErr HDF_FAILURE, b))"

definition UsbSerialReadSpeedDone :: "'b hdf_env \<Rightarrow> 'k acmw \<Rightarrow> ret \<times> 'k acmw" where
  "UsbSerialReadSpeedDone H w =
     (case now H w of (t, w1) \<Rightarrow> (HDF_SUCCESS, w1\<lparr>w_readTimeEnd := t, w_isReadDone := True, w_isStartRead := False\<rparr>))"

definition UsbSerialReadSpeedStart :: "'k fn_os \<Rightarrow> 'k acmw \<Rightarrow> ret \<times> 'k acmw" where
  "UsbSerialReadSpeedStart K w = StartThreadReadSpeed K (w\<lparr>w_inFifo := 0, w_isStartRead := True\<rparr>)"

end
