(* ===== verification/Ecm_State.thy ===== *)
theory Ecm_State
  imports Acm_Port
begin

text \<open>
  The data of the network function (\<open>usb/gadget/function/ecm/cdcecm.c\<close>, \<open>usb/gadget/function/include/cdcecm.h\<close>), a second client of the device side, which offers a
  host an Ethernet link over a control interface, a notification pipe and two bulk pipes.  It runs beside the serial function on the same development kit: its store
  is the store of the serial function (\<open>ew_base\<close>), of which it uses the kit, the shared buffers and the record of submissions, with heaps of its own.
\<close>

subsection \<open>Constants\<close>

definition ECM_STATUS_BYTECOUNT :: u32 where "ECM_STATUS_BYTECOUNT = 16"
definition ECM_BIT :: u32 where "ECM_BIT = 9728000"
definition USB_DDK_CDC_NOTIFY_NETWORK_CONNECTION :: u8 where "USB_DDK_CDC_NOTIFY_NETWORK_CONNECTION = 0"
definition USB_DDK_CDC_NOTIFY_SPEED_CHANGE :: u8 where "USB_DDK_CDC_NOTIFY_SPEED_CHANGE = 0x2A"
definition USB_DDK_CDC_SET_ETHERNET_PACKET_FILTER :: u8 where "USB_DDK_CDC_SET_ETHERNET_PACKET_FILTER = 0x43"
definition USB_DDK_CDC_SUBCLASS_ETHERNET :: u8 where "USB_DDK_CDC_SUBCLASS_ETHERNET = 6"

text \<open>Sizes on an LP64 target, for the allocator.\<close>

definition sizeof_Ecm :: nat where "sizeof_Ecm = 240"
definition sizeof_EcmDevice :: nat where "sizeof_EcmDevice = 200"

subsection \<open>Structs\<close>

datatype EcmNotifyState = ECM_NOTIFY_NONE | ECM_NOTIFY_CONNECT | ECM_NOTIFY_SPEED

text \<open>The locks of a port that are held are a set.\<close>

datatype ecm_lock = EcmLock | LockRW | LockReadFifo | LockWriteFifo

record UsbEcm =
  ep_ecm :: "ptr option"
  ep_locks :: "ecm_lock set"
  ep_readPool :: "ptr list"
  ep_readQueue :: "ptr list"
  ep_readStarted :: int
  ep_readAllocated :: int
  ep_readFifo :: DataFifo
  ep_readData :: "ptr option"
  ep_writePool :: "ptr list"
  ep_writeStarted :: int
  ep_writeAllocated :: int
  ep_writeFifo :: DataFifo
  ep_writeData :: "ptr option"
  ep_writeBusy :: bool
  ep_refCount :: int

record UsbEcmPipe =
  ecp_id :: u8
  ecp_maxPacketSize :: u16

record UsbEcmInterface =
  eci_fn :: "elem option"
  eci_handle :: "ptr option"

record UsbEcmDevice =
  ed_device :: "ptr option"
  ed_fnDev :: "ptr option"
  ed_ctrlIface :: UsbEcmInterface
  ed_dataIface :: UsbEcmInterface
  ed_notifyPipe :: UsbEcmPipe
  ed_dataInPipe :: UsbEcmPipe
  ed_dataOutPipe :: UsbEcmPipe
  ed_ctrlId :: u8
  ed_dataId :: u8
  ed_udcName :: "string option"
  ed_port :: "ptr option"
  ed_notifyReq :: "ptr option"
  ed_ep0Req :: "ptr option"
  ed_notifyState :: EcmNotifyState
  ed_isOpen :: bool
  ed_initFlag :: bool

definition zero_ecm :: UsbEcm where
  "zero_ecm = \<lparr>ep_ecm = None, ep_locks = {}, ep_readPool = [], ep_readQueue = [], ep_readStarted = 0, ep_readAllocated = 0, ep_readFifo = zero_fifo, ep_readData = None,
     ep_writePool = [], ep_writeStarted = 0, ep_writeAllocated = 0, ep_writeFifo = zero_fifo, ep_writeData = None, ep_writeBusy = False, ep_refCount = 0\<rparr>"

definition zero_ecmDevice :: UsbEcmDevice where
  "zero_ecmDevice = \<lparr>ed_device = None, ed_fnDev = None, ed_ctrlIface = \<lparr>eci_fn = None, eci_handle = None\<rparr>, ed_dataIface = \<lparr>eci_fn = None, eci_handle = None\<rparr>,
     ed_notifyPipe = \<lparr>ecp_id = 0, ecp_maxPacketSize = 0\<rparr>, ed_dataInPipe = \<lparr>ecp_id = 0, ecp_maxPacketSize = 0\<rparr>, ed_dataOutPipe = \<lparr>ecp_id = 0, ecp_maxPacketSize = 0\<rparr>,
     ed_ctrlId = 0, ed_dataId = 0, ed_udcName = None, ed_port = None, ed_notifyReq = None, ed_ep0Req = None, ed_notifyState = ECM_NOTIFY_NONE, ed_isOpen = False,
     ed_initFlag = False\<rparr>"

subsection \<open>The store\<close>

record 'k ecmw =
  ew_base :: "'k acmw"
  ew_ecms :: "ptr \<Rightarrow> UsbEcmDevice option"
  ew_ports :: "ptr \<Rightarrow> UsbEcm option"
  ew_service :: "ptr option"

abbreviation put_eport :: "ptr \<Rightarrow> UsbEcm \<Rightarrow> 'k ecmw \<Rightarrow> 'k ecmw" where
  "put_eport p x w \<equiv> w\<lparr>ew_ports := (ew_ports w)(p \<mapsto> x)\<rparr>"

abbreviation put_ecm :: "ptr \<Rightarrow> UsbEcmDevice \<Rightarrow> 'k ecmw \<Rightarrow> 'k ecmw" where
  "put_ecm p x w \<equiv> w\<lparr>ew_ecms := (ew_ecms w)(p \<mapsto> x)\<rparr>"

abbreviation ecm_req :: "ptr \<Rightarrow> 'k ecmw \<Rightarrow> ReqList option" where
  "ecm_req q w \<equiv> get_req q (ew_base w)"

text \<open>Operations of the shared part, and calls of the kit, with and without a result.\<close>

definition on_base :: "('k acmw \<Rightarrow> 'k acmw option) \<Rightarrow> 'k ecmw \<Rightarrow> 'k ecmw option" where
  "on_base f w = do { b \<leftarrow> f (ew_base w); Some (w\<lparr>ew_base := b\<rparr>) }"

definition on_base_ret :: "('k acmw \<Rightarrow> ('r \<times> 'k acmw) option) \<Rightarrow> 'k ecmw \<Rightarrow> ('r \<times> 'k ecmw) option" where
  "on_base_ret f w = do { (r, b) \<leftarrow> f (ew_base w); Some (r, w\<lparr>ew_base := b\<rparr>) }"

definition kit :: "('k gadget \<Rightarrow> ('r \<times> 'k gadget) option) \<Rightarrow> 'k ecmw \<Rightarrow> ('r \<times> 'k ecmw) option" where
  "kit f w = do { (r, g) \<leftarrow> f (w_g (ew_base w)); Some (r, w\<lparr>ew_base := (ew_base w)\<lparr>w_g := g\<rparr>\<rparr>) }"

definition ecm_alloc :: "'k fn_os \<Rightarrow> nat \<Rightarrow> 'k ecmw \<Rightarrow> ptr option \<times> 'k ecmw" where
  "ecm_alloc K n w = (case walloc K n (ew_base w) of (p, b) \<Rightarrow> (p, w\<lparr>ew_base := b\<rparr>))"

definition ecm_free :: "ptr option \<Rightarrow> 'k ecmw \<Rightarrow> 'k ecmw option" where
  "ecm_free q w = do { b \<leftarrow> wfree q (ew_base w);
     Some (case q of None \<Rightarrow> w\<lparr>ew_base := b\<rparr>
       | Some p \<Rightarrow> w\<lparr>ew_base := b, ew_ecms := (ew_ecms w)(p := None), ew_ports := (ew_ports w)(p := None)\<rparr>) }"

text \<open>\<open>OsalMutexLock\<close> and \<open>OsalMutexUnlock\<close> on a lock of a port: locking it again waits forever.\<close>

definition ecm_take :: "ecm_lock \<Rightarrow> ptr \<Rightarrow> 'k ecmw \<Rightarrow> 'k ecmw option" where
  "ecm_take l p w = do { s \<leftarrow> ew_ports w p; if l \<in> ep_locks s then None else Some (put_eport p (s\<lparr>ep_locks := insert l (ep_locks s)\<rparr>) w) }"

definition ecm_give :: "ecm_lock \<Rightarrow> ptr \<Rightarrow> 'k ecmw \<Rightarrow> 'k ecmw option" where
  "ecm_give l p w = do { s \<leftarrow> ew_ports w p; Some (put_eport p (s\<lparr>ep_locks := ep_locks s - {l}\<rparr>) w) }"

end
