(* ===== verification/Ecm_Port.thy ===== *)
theory Ecm_Port
  imports Ecm_State
begin

text \<open>
  The port of the network function (\<open>usb/gadget/function/ecm/cdcecm.c\<close>): moving bytes between the rings and the requests, the completion callbacks, starting the stream,
  opening, closing, reading and writing.  The \<open>while\<close> loops are \<open>loop_opt\<close> of their body.
\<close>

subsection \<open>Sending\<close>

text \<open>The bytes of a packet on their way from the ring into the buffer of a request, under the lock of the ring.\<close>

definition ecm_tx_fill :: "ptr \<Rightarrow> ptr \<Rightarrow> 'k ecmw \<Rightarrow> (u32 \<times> 'k ecmw) option" where
  "ecm_tx_fill p q w =
     do { w1 \<leftarrow> ecm_take LockWriteFifo p w;
          s \<leftarrow> ew_ports w1 p; a \<leftarrow> ep_ecm s; d \<leftarrow> ew_ecms w1 a;
          (len, bs, f) \<leftarrow> DataFifoRead (ep_writeFifo s) (ucast (ecp_maxPacketSize (ed_dataInPipe d)));
          w2 \<leftarrow> on_base (store_req q bs) (put_eport p (s\<lparr>ep_writeFifo := f\<rparr>) w1);
          w3 \<leftarrow> ecm_give LockWriteFifo p w2;
          Some (len, w3) }"

definition ecm_tx_body :: "'k fn_os \<Rightarrow> ptr \<Rightarrow> 'k ecmw \<Rightarrow> (bool \<times> 'k ecmw) option" where
  "ecm_tx_body K p w =
     do { s \<leftarrow> ew_ports w p;
          if ep_writeBusy s \<or> ep_writePool s = [] then Some (False, w)
          else if ep_writeStarted s \<ge> QUEUE_SIZE then Some (False, w)
          else let q = hd (ep_writePool s) in
            do { (len, w1) \<leftarrow> ecm_tx_fill p q w;
                 if len = 0 then Some (False, w1)
                 else do { s1 \<leftarrow> ew_ports w1 p;
                   (r, w2) \<leftarrow> on_base_ret (send_with K q len) (put_eport p (s1\<lparr>ep_writePool := tl (ep_writePool s1), ep_writeBusy := True\<rparr>) w1);
                   s2 \<leftarrow> ew_ports w2 p;
                   let s3 = s2\<lparr>ep_writeBusy := False\<rparr> in
                   if r \<noteq> HDF_SUCCESS then Some (False, put_eport p (s3\<lparr>ep_writePool := ep_writePool s3 @ [q]\<rparr>) w2)
                   else let s4 = s3\<lparr>ep_writeStarted := ep_writeStarted s3 + 1\<rparr> in
                     Some (ep_ecm s4 \<noteq> None, put_eport p s4 w2) } } }"

definition UsbEcmStartTx :: "'k fn_os \<Rightarrow> ptr \<Rightarrow> 'k ecmw \<Rightarrow> (ret \<times> 'k ecmw) option" where
  "UsbEcmStartTx K p w =
     do { s \<leftarrow> ew_ports w p;
          if ep_ecm s = None then Some (HDF_SUCCESS, w)
          else do { w1 \<leftarrow> loop_opt (ecm_tx_body K p) w; Some (HDF_SUCCESS, w1) } }"

subsection \<open>Receiving\<close>

definition ecm_rx_body :: "'k fn_os \<Rightarrow> ptr \<Rightarrow> 'k ecmw \<Rightarrow> (bool \<times> 'k ecmw) option" where
  "ecm_rx_body K p w =
     do { s \<leftarrow> ew_ports w p;
          if ep_readPool s = [] then Some (False, w)
          else if ep_readStarted s \<ge> QUEUE_SIZE then Some (False, w)
          else let q = hd (ep_readPool s) in
            do { a \<leftarrow> ep_ecm s; d \<leftarrow> ew_ecms w a;
                 (r, w1) \<leftarrow> on_base_ret (send_with K q (ucast (ecp_maxPacketSize (ed_dataOutPipe d)))) (put_eport p (s\<lparr>ep_readPool := tl (ep_readPool s)\<rparr>) w);
                 s1 \<leftarrow> ew_ports w1 p;
                 if r \<noteq> HDF_SUCCESS then Some (False, put_eport p (s1\<lparr>ep_readPool := ep_readPool s1 @ [q]\<rparr>) w1)
                 else let s2 = s1\<lparr>ep_readStarted := ep_readStarted s1 + 1\<rparr> in
                   Some (ep_ecm s2 \<noteq> None, put_eport p s2 w1) } }"

definition UsbEcmStartRx :: "'k fn_os \<Rightarrow> ptr \<Rightarrow> 'k ecmw \<Rightarrow> (int \<times> 'k ecmw) option" where
  "UsbEcmStartRx K p w = do { w1 \<leftarrow> loop_opt (ecm_rx_body K p) w; s \<leftarrow> ew_ports w1 p; Some (ep_readStarted s, w1) }"

text \<open>The bytes of a completed request on their way into the ring, under the lock of the ring.\<close>

definition ecm_rx_store :: "ptr \<Rightarrow> ReqList \<Rightarrow> 'k ecmw \<Rightarrow> 'k ecmw option" where
  "ecm_rx_store p r w =
     (let size = q_actual (rl_req r) in
      if size \<noteq> 0 \<and> q_status (rl_req r) = 0 then
        do { w1 \<leftarrow> ecm_take LockReadFifo p w;
             s \<leftarrow> ew_ports w1 p;
             let f = (if DataFifoIsFull (ep_readFifo s) then DataFifoSkip (ep_readFifo s) size else ep_readFifo s) in
             do { (n, f1) \<leftarrow> DataFifoWrite f (buf_bytes (q_buf (rl_req r)) (unat (rl_bufLen r)) (ew_base w1)) size;
                  ecm_give LockReadFifo p (put_eport p (s\<lparr>ep_readFifo := f1\<rparr>) w1) } }
      else Some w)"

definition ecm_push_body :: "ptr \<Rightarrow> bool \<times> 'k ecmw \<Rightarrow> (bool \<times> (bool \<times> 'k ecmw)) option" where
  "ecm_push_body p = (\<lambda>(disconnect, w).
     do { s \<leftarrow> ew_ports w p;
          if ep_readQueue s = [] then Some (False, (disconnect, w))
          else let q = hd (ep_readQueue s) in
            do { r \<leftarrow> ecm_req q w;
                 w1 \<leftarrow> ecm_rx_store p r w;
                 s1 \<leftarrow> ew_ports w1 p;
                 Some (True, (disconnect \<or> q_status (rl_req r) = STATUS_NO_DEVICE,
                   put_eport p (s1\<lparr>ep_readQueue := tl (ep_readQueue s1), ep_readPool := ep_readPool s1 @ [q], ep_readStarted := ep_readStarted s1 - 1\<rparr>) w1)) } })"

definition UsbEcmRxPush :: "'k fn_os \<Rightarrow> ptr \<Rightarrow> 'k ecmw \<Rightarrow> 'k ecmw option" where
  "UsbEcmRxPush K p w =
     do { (disconnect, w1) \<leftarrow> loop_opt (ecm_push_body p) (False, w);
          s \<leftarrow> ew_ports w1 p;
          if \<not> disconnect \<and> ep_ecm s \<noteq> None then map_option snd (UsbEcmStartRx K p w1) else Some w1 }"

subsection \<open>Releasing requests\<close>

text \<open>\<open>UsbEcmFreeRequests\<close> is called on the pool for reading or the pool for writing, with its counter.\<close>

definition ecm_pool :: "pool_sel \<Rightarrow> UsbEcm \<Rightarrow> ptr list" where
  "ecm_pool c s = (case c of ReadPool \<Rightarrow> ep_readPool s | WritePool \<Rightarrow> ep_writePool s)"

definition ecm_unpool :: "pool_sel \<Rightarrow> UsbEcm \<Rightarrow> UsbEcm" where
  "ecm_unpool c s = (case c of ReadPool \<Rightarrow> s\<lparr>ep_readPool := tl (ep_readPool s), ep_readAllocated := ep_readAllocated s - 1\<rparr>
     | WritePool \<Rightarrow> s\<lparr>ep_writePool := tl (ep_writePool s), ep_writeAllocated := ep_writeAllocated s - 1\<rparr>)"

definition ecm_free_body :: "'k fn_os \<Rightarrow> ptr \<Rightarrow> pool_sel \<Rightarrow> 'k ecmw \<Rightarrow> (bool \<times> 'k ecmw) option" where
  "ecm_free_body K p c w =
     do { s \<leftarrow> ew_ports w p;
          case ecm_pool c s of
            [] \<Rightarrow> Some (False, w)
          | q # qs \<Rightarrow> do { (r, w1) \<leftarrow> kit (UsbFnFreeRequest K (Some q)) w; Some (True, put_eport p (ecm_unpool c s) w1) } }"

definition UsbEcmFreeRequests :: "'k fn_os \<Rightarrow> ptr \<Rightarrow> pool_sel \<Rightarrow> 'k ecmw \<Rightarrow> 'k ecmw option" where
  "UsbEcmFreeRequests K p c w = loop_opt (ecm_free_body K p c) w"

subsection \<open>Completion callbacks\<close>

definition UsbEcmReadComplete :: "'k fn_os \<Rightarrow> ptr \<Rightarrow> 'k ecmw \<Rightarrow> 'k ecmw option" where
  "UsbEcmReadComplete K q w =
     do { r \<leftarrow> ecm_req q w; p \<leftarrow> q_context (rl_req r);
          w1 \<leftarrow> ecm_take EcmLock p w;
          s \<leftarrow> ew_ports w1 p;
          w2 \<leftarrow> UsbEcmRxPush K p (put_eport p (s\<lparr>ep_readQueue := ep_readQueue s @ [q]\<rparr>) w1);
          ecm_give EcmLock p w2 }"

definition UsbEcmWriteComplete :: "'k fn_os \<Rightarrow> ptr \<Rightarrow> 'k ecmw \<Rightarrow> 'k ecmw option" where
  "UsbEcmWriteComplete K q w =
     do { r \<leftarrow> ecm_req q w; p \<leftarrow> q_context (rl_req r);
          w1 \<leftarrow> ecm_take EcmLock p w;
          s \<leftarrow> ew_ports w1 p;
          let w2 = put_eport p (s\<lparr>ep_writePool := ep_writePool s @ [q], ep_writeStarted := ep_writeStarted s - 1\<rparr>) w1 in
          do { w3 \<leftarrow> (if q_status (rl_req r) = STATUS_COMPLETED then map_option snd (UsbEcmStartTx K p w2) else Some w2);
               ecm_give EcmLock p w3 } }"

text \<open>Numbers of the callbacks that requests and events carry.\<close>

definition cb_EcmReadComplete :: nat where "cb_EcmReadComplete = 11"
definition cb_EcmWriteComplete :: nat where "cb_EcmWriteComplete = 12"
definition cb_EcmNotifyComplete :: nat where "cb_EcmNotifyComplete = 13"
definition cb_EcmEvent :: nat where "cb_EcmEvent = 14"

subsection \<open>Starting the stream\<close>

fun UsbEcmAllocReadRequests :: "'k fn_os \<Rightarrow> ptr \<Rightarrow> nat \<Rightarrow> 'k ecmw \<Rightarrow> (ret \<times> 'k ecmw) option" where
  "UsbEcmAllocReadRequests K p 0 w = Some (HDF_SUCCESS, w)"
| "UsbEcmAllocReadRequests K p (Suc n) w =
     do { s \<leftarrow> ew_ports w p; a \<leftarrow> ep_ecm s; d \<leftarrow> ew_ecms w a;
          (qo, w1) \<leftarrow> kit (UsbFnAllocRequest K (eci_handle (ed_dataIface d)) (ecp_id (ed_dataOutPipe d)) (ucast (ecp_maxPacketSize (ed_dataOutPipe d)))) w;
          case qo of
            None \<Rightarrow> Some (if ep_readPool s = [] then RetErr HDF_FAILURE else HDF_SUCCESS, w1)
          | Some q \<Rightarrow>
              do { w2 \<leftarrow> on_base (upd_req q (\<lambda>r. r\<lparr>q_complete := Some cb_EcmReadComplete, q_context := Some p\<rparr>)) w1;
                   UsbEcmAllocReadRequests K p n (put_eport p (s\<lparr>ep_readPool := ep_readPool s @ [q], ep_readAllocated := ep_readAllocated s + 1\<rparr>) w2) } }"

fun UsbEcmAllocWriteRequests :: "'k fn_os \<Rightarrow> ptr \<Rightarrow> nat \<Rightarrow> 'k ecmw \<Rightarrow> (ret \<times> 'k ecmw) option" where
  "UsbEcmAllocWriteRequests K p 0 w = Some (HDF_SUCCESS, w)"
| "UsbEcmAllocWriteRequests K p (Suc n) w =
     do { s \<leftarrow> ew_ports w p; a \<leftarrow> ep_ecm s; d \<leftarrow> ew_ecms w a;
          (qo, w1) \<leftarrow> kit (UsbFnAllocRequest K (eci_handle (ed_dataIface d)) (ecp_id (ed_dataInPipe d)) (ucast (ecp_maxPacketSize (ed_dataInPipe d)))) w;
          case qo of
            None \<Rightarrow> Some (if ep_writePool s = [] then RetErr HDF_FAILURE else HDF_SUCCESS, w1)
          | Some q \<Rightarrow>
              do { w2 \<leftarrow> on_base (upd_req q (\<lambda>r. r\<lparr>q_complete := Some cb_EcmWriteComplete, q_context := Some p\<rparr>)) w1;
                   UsbEcmAllocWriteRequests K p n (put_eport p (s\<lparr>ep_writePool := ep_writePool s @ [q], ep_writeAllocated := ep_writeAllocated s + 1\<rparr>) w2) } }"

text \<open>The end of \<open>UsbEcmStartIo\<close>: the result of \<open>UsbEcmStartTx\<close> is not used.\<close>

definition ecm_start_stream :: "'k fn_os \<Rightarrow> ptr \<Rightarrow> 'k ecmw \<Rightarrow> (ret \<times> 'k ecmw) option" where
  "ecm_start_stream K p w =
     do { (started, w1) \<leftarrow> UsbEcmStartRx K p w;
          if started \<noteq> 0 then do { (r, w2) \<leftarrow> UsbEcmStartTx K p w1; Some (HDF_SUCCESS, w2) }
          else do { w2 \<leftarrow> UsbEcmFreeRequests K p ReadPool w1; w3 \<leftarrow> UsbEcmFreeRequests K p WritePool w2; Some (RetErr HDF_ERR_IO, w3) } }"

definition UsbEcmStartIo :: "'k fn_os \<Rightarrow> ptr \<Rightarrow> 'k ecmw \<Rightarrow> (ret \<times> 'k ecmw) option" where
  "UsbEcmStartIo K p w =
     do { s \<leftarrow> ew_ports w p;
          (r1, w1) \<leftarrow> (if ep_readAllocated s = 0 then UsbEcmAllocReadRequests K p (nat QUEUE_SIZE) w else Some (HDF_SUCCESS, w));
          if r1 \<noteq> HDF_SUCCESS then Some (r1, w1)
          else do { s1 \<leftarrow> ew_ports w1 p;
            (r2, w2) \<leftarrow> (if ep_writeAllocated s1 = 0 then UsbEcmAllocWriteRequests K p (nat QUEUE_SIZE) w1 else Some (HDF_SUCCESS, w1));
            if r2 \<noteq> HDF_SUCCESS then do { w3 \<leftarrow> UsbEcmFreeRequests K p ReadPool w2; Some (r2, w3) }
            else ecm_start_stream K p w2 } }"

subsection \<open>Opening and closing\<close>

definition UsbEcmAllocFifo :: "'k fn_os \<Rightarrow> DataFifo \<times> ptr option \<Rightarrow> u32 \<Rightarrow> 'k ecmw \<Rightarrow> ret \<times> (DataFifo \<times> ptr option) \<times> 'k ecmw" where
  "UsbEcmAllocFifo K fa sz w =
     (if DataFifoIsInitialized (fst fa) then (HDF_SUCCESS, fa, w)
      else case ecm_alloc K (unat sz) w of
        (None, w1) \<Rightarrow> (RetErr HDF_ERR_MALLOC_FAIL, fa, w1)
      | (Some a, w1) \<Rightarrow> (HDF_SUCCESS, (DataFifoInit (fst fa) sz (buf_bytes a (unat sz) (ew_base w)), Some a), w1))"

definition UsbEcmFreeFifo :: "DataFifo \<times> ptr option \<Rightarrow> 'k ecmw \<Rightarrow> ((DataFifo \<times> ptr option) \<times> 'k ecmw) option" where
  "UsbEcmFreeFifo fa w = do { w1 \<leftarrow> ecm_free (snd fa) w; Some ((DataFifoInit (fst fa) 0 [], None), w1) }"

definition ecm_alloc_fifos :: "'k fn_os \<Rightarrow> ptr \<Rightarrow> 'k ecmw \<Rightarrow> (ret \<times> 'k ecmw) option" where
  "ecm_alloc_fifos K p w =
     do { s \<leftarrow> ew_ports w p;
          case UsbEcmAllocFifo K (ep_writeFifo s, ep_writeData s) WRITE_BUF_SIZE w of
            (r, (f, a), w1) \<Rightarrow>
              let s1 = s\<lparr>ep_writeFifo := f, ep_writeData := a\<rparr> in
              if r \<noteq> HDF_SUCCESS then Some (r, put_eport p s1 w1)
              else case UsbEcmAllocFifo K (ep_readFifo s1, ep_readData s1) READ_BUF_SIZE (put_eport p s1 w1) of
                (r2, (f2, a2), w2) \<Rightarrow> Some (r2, put_eport p (s1\<lparr>ep_readFifo := f2, ep_readData := a2\<rparr>) w2) }"

text \<open>The part of \<open>UsbEcmOpen\<close> under the lock; every way out goes to the same label.\<close>

definition ecm_open :: "'k fn_os \<Rightarrow> ptr \<Rightarrow> 'k ecmw \<Rightarrow> 'k ecmw option" where
  "ecm_open K p w =
     do { (r, w1) \<leftarrow> ecm_alloc_fifos K p w;
          if r \<noteq> HDF_SUCCESS then Some w1
          else do { s \<leftarrow> ew_ports w1 p;
            let w2 = put_eport p (s\<lparr>ep_writeFifo := DataFifoReset (ep_writeFifo s), ep_readFifo := DataFifoReset (ep_readFifo s), ep_refCount := ep_refCount s + 1\<rparr>) w1 in
            if ep_refCount s \<noteq> 0 then Some w2
            else if ep_ecm s \<noteq> None then map_option snd (UsbEcmStartIo K p w2)
            else Some w2 } }"

definition UsbEcmOpen :: "'k fn_os \<Rightarrow> ptr option \<Rightarrow> 'k ecmw \<Rightarrow> (ret \<times> 'k ecmw) option" where
  "UsbEcmOpen K port w =
     (case port of
        None \<Rightarrow> Some (RetErr HDF_ERR_INVALID_PARAM, w)
      | Some p \<Rightarrow> do { w1 \<leftarrow> ecm_take EcmLock p w; w2 \<leftarrow> ecm_open K p w1; w3 \<leftarrow> ecm_give EcmLock p w2; Some (HDF_SUCCESS, w3) })"

definition UsbEcmClose :: "ptr option \<Rightarrow> 'k ecmw \<Rightarrow> (ret \<times> 'k ecmw) option" where
  "UsbEcmClose port w =
     (case port of
        None \<Rightarrow> Some (RetErr HDF_ERR_INVALID_PARAM, w)
      | Some p \<Rightarrow>
          do { w1 \<leftarrow> ecm_take EcmLock p w;
               s \<leftarrow> ew_ports w1 p;
               w2 \<leftarrow> ecm_give EcmLock p (put_eport p (if ep_refCount s \<noteq> 1 then s\<lparr>ep_refCount := ep_refCount s - 1\<rparr>
                        else s\<lparr>ep_writeFifo := DataFifoReset (ep_writeFifo s), ep_readFifo := DataFifoReset (ep_readFifo s), ep_refCount := 0\<rparr>) w1);
               Some (HDF_SUCCESS, w2) })"

subsection \<open>Reading and writing\<close>

text \<open>The two locks that \<open>UsbEcmRead\<close> takes and gives back together.\<close>

definition ecm_take2 :: "ptr \<Rightarrow> 'k ecmw \<Rightarrow> 'k ecmw option" where
  "ecm_take2 p w = do { w1 \<leftarrow> ecm_take EcmLock p w; ecm_take LockReadFifo p w1 }"

definition ecm_give2 :: "ptr \<Rightarrow> 'k ecmw \<Rightarrow> 'k ecmw option" where
  "ecm_give2 p w = do { w1 \<leftarrow> ecm_give LockReadFifo p w; ecm_give EcmLock p w1 }"

definition UsbEcmRead :: "'b hdf_env \<Rightarrow> 'k fn_os \<Rightarrow> ptr \<Rightarrow> 'b \<Rightarrow> 'k ecmw \<Rightarrow> (ret \<times> 'b \<times> 'k ecmw) option" where
  "UsbEcmRead H K p reply w =
     do { w1 \<leftarrow> ecm_take2 p w;
          s \<leftarrow> ew_ports w1 p;
          if DataFifoIsEmpty (ep_readFifo s) then do { w2 \<leftarrow> ecm_give2 p w1; Some (HDF_SUCCESS, reply, w2) }
          else let fifoLen = DataFifoLen (ep_readFifo s) in
            case ecm_alloc K (unat fifoLen + 4) w1 of
              (None, w2) \<Rightarrow> do { w3 \<leftarrow> ecm_give2 p w2; Some (RetErr HDF_ERR_MALLOC_FAIL, reply, w3) }
            | (Some buf, w2) \<Rightarrow>
                do { (len, bs, f) \<leftarrow> DataFifoRead (ep_readFifo s) fifoLen;
                     w3 \<leftarrow> ecm_give LockReadFifo p (put_eport p (s\<lparr>ep_readFifo := f\<rparr>) w2);
                     let (ret, reply1) = (if len = 0 then (RetErr HDF_ERR_IO, reply)
                           else case he_writeBuffer H bs reply of (ok, b) \<Rightarrow> (if ok then HDF_SUCCESS else RetErr HDF_ERR_IO, b)) in
                     do { w4 \<leftarrow> (if ep_ecm s \<noteq> None then map_option snd (UsbEcmStartRx K p w3) else Some w3);
                          w5 \<leftarrow> ecm_free (Some buf) w4;
                          w6 \<leftarrow> ecm_give EcmLock p w5;
                          Some (ret, reply1, w6) } } }"

text \<open>The ring is written under its own lock; an empty message writes nothing.\<close>

definition ecm_fill_ring :: "ptr \<Rightarrow> u8 list \<Rightarrow> 'k ecmw \<Rightarrow> 'k ecmw option" where
  "ecm_fill_ring p buf w =
     (if buf = [] then Some w
      else do { w1 \<leftarrow> ecm_take LockWriteFifo p w;
                s \<leftarrow> ew_ports w1 p;
                (n, f) \<leftarrow> DataFifoWrite (ep_writeFifo s) buf (of_nat (length buf));
                ecm_give LockWriteFifo p (put_eport p (s\<lparr>ep_writeFifo := f\<rparr>) w1) })"

definition UsbEcmWrite :: "'b hdf_env \<Rightarrow> 'k fn_os \<Rightarrow> ptr \<Rightarrow> 'b \<Rightarrow> 'k ecmw \<Rightarrow> (ret \<times> 'b \<times> 'k ecmw) option" where
  "UsbEcmWrite H K p data w =
     (case he_readBuffer H data of
        (None, data1) \<Rightarrow> Some (RetErr HDF_ERR_IO, data1, w)
      | (Some buf, data1) \<Rightarrow>
          do { w1 \<leftarrow> ecm_take EcmLock p w;
               w2 \<leftarrow> ecm_fill_ring p buf w1;
               s \<leftarrow> ew_ports w2 p;
               w3 \<leftarrow> (if ep_ecm s \<noteq> None then map_option snd (UsbEcmStartTx K p w2) else Some w2);
               w4 \<leftarrow> ecm_give EcmLock p w3;
               Some (HDF_SUCCESS, data1, w4) })"

end
