(* ===== verification/Acm_Function.thy ===== *)
theory Acm_Function
  imports Acm_Port
begin

text \<open>
  The third part of the serial function: control requests, events of the device, finding and opening the interfaces, setting up and
  tearing down, and the dispatch of commands.
\<close>

subsection \<open>Control requests\<close>

definition AcmCtrlComplete :: "ptr option \<Rightarrow> 'k acmw \<Rightarrow> 'k acmw option" where
  "AcmCtrlComplete req w =
     (case req of
        None \<Rightarrow> Some w
      | Some q \<Rightarrow>
          do { r \<leftarrow> get_req q w;
               case q_context (rl_req r) of
                 None \<Rightarrow> Some w
               | Some c \<Rightarrow>
                   do { ci \<leftarrow> w_ctrls w c; a \<leftarrow> ci_acm ci; d \<leftarrow> w_acms w a;
                        let back = (\<lambda>d. Some (put_acm a (d\<lparr>ac_ctrlPool := ac_ctrlPool d @ [q]\<rparr>) w)) in
                        if q_status (rl_req r) \<noteq> STATUS_COMPLETED then back d
                        else if ci_request ci = USB_DDK_CDC_REQ_SET_LINE_CODING \<and> unat (q_actual (rl_req r)) = sizeof_LineCoding then
                          if unat (rl_bufLen r) < sizeof_LineCoding then None
                          else back (d\<lparr>ac_lineCoding := coding_of (buf_bytes (q_buf (rl_req r)) sizeof_LineCoding w)\<rparr>)
                        else back d } })"

text \<open>The loop of \<open>AcmAllocCtrlRequests\<close>; the flag says whether it ran to its end.\<close>

fun alloc_ctrl_loop :: "'k fn_os \<Rightarrow> ptr \<Rightarrow> nat \<Rightarrow> 'k acmw \<Rightarrow> (bool \<times> 'k acmw) option" where
  "alloc_ctrl_loop K a 0 w = Some (True, w)"
| "alloc_ctrl_loop K a (Suc n) w =
     (case walloc K sizeof_CtrlInfo w of
        (None, w1) \<Rightarrow> Some (False, w1)
      | (Some c, w1) \<Rightarrow>
          let w2 = put_ctrl c \<lparr>ci_request = 0, ci_acm = Some a\<rparr> w1 in
          do { d \<leftarrow> w_acms w2 a;
               (qo, g) \<leftarrow> UsbFnAllocCtrlRequest K (ai_handle (ac_ctrlIface d)) (of_nat (sizeof_LineCoding + sizeof_LineCoding)) (w_g w2);
               case qo of
                 None \<Rightarrow> Some (False, w2\<lparr>w_g := g\<rparr>)
               | Some q \<Rightarrow>
                   do { w3 \<leftarrow> upd_req q (\<lambda>r. r\<lparr>q_complete := Some cb_CtrlComplete, q_context := Some c\<rparr>) (w2\<lparr>w_g := g\<rparr>);
                        alloc_ctrl_loop K a n (put_acm a (d\<lparr>ac_ctrlPool := ac_ctrlPool d @ [q], ac_ctrlReqNum := ac_ctrlReqNum d + 1\<rparr>) w3) } })"

definition AcmAllocCtrlRequests :: "'k fn_os \<Rightarrow> ptr \<Rightarrow> nat \<Rightarrow> 'k acmw \<Rightarrow> (ret \<times> 'k acmw) option" where
  "AcmAllocCtrlRequests K a num w =
     do { d \<leftarrow> w_acms w a;
          (done, w1) \<leftarrow> alloc_ctrl_loop K a num (put_acm a (d\<lparr>ac_ctrlPool := [], ac_ctrlReqNum := 0\<rparr>) w);
          d1 \<leftarrow> w_acms w1 a;
          Some (if done \<or> ac_ctrlPool d1 \<noteq> [] then HDF_SUCCESS else RetErr HDF_FAILURE, w1) }"

definition free_ctrl_body :: "'k fn_os \<Rightarrow> ptr \<Rightarrow> 'k acmw \<Rightarrow> (bool \<times> 'k acmw) option" where
  "free_ctrl_body K a w =
     do { d \<leftarrow> w_acms w a;
          case ac_ctrlPool d of
            [] \<Rightarrow> Some (False, w)
          | q # qs \<Rightarrow>
              do { r \<leftarrow> get_req q w;
                   w1 \<leftarrow> wfree (q_context (rl_req r)) (put_acm a (d\<lparr>ac_ctrlPool := qs\<rparr>) w);
                   (x, g) \<leftarrow> UsbFnFreeRequest K (Some q) (w_g w1);
                   d2 \<leftarrow> w_acms w1 a;
                   Some (True, put_acm a (d2\<lparr>ac_ctrlReqNum := ac_ctrlReqNum d2 - 1\<rparr>) (w1\<lparr>w_g := g\<rparr>)) } }"

definition AcmFreeCtrlRequests :: "'k fn_os \<Rightarrow> ptr \<Rightarrow> 'k acmw \<Rightarrow> 'k acmw option" where
  "AcmFreeCtrlRequests K a w = loop_opt (free_ctrl_body K a) w"

definition AcmAllocNotifyRequest :: "'k fn_os \<Rightarrow> ptr \<Rightarrow> 'k acmw \<Rightarrow> (ret \<times> 'k acmw) option" where
  "AcmAllocNotifyRequest K a w =
     do { d \<leftarrow> w_acms w a;
          (qo, g) \<leftarrow> UsbFnAllocRequest K (ai_handle (ac_ctrlIface d)) (ap_id (ac_notifyPipe d)) 16 (w_g w);
          let w1 = put_acm a (d\<lparr>ac_notifyReq := qo\<rparr>) (w\<lparr>w_g := g\<rparr>) in
          case qo of
            None \<Rightarrow> Some (RetErr HDF_FAILURE, w1)
          | Some q \<Rightarrow> do { w2 \<leftarrow> upd_req q (\<lambda>r. r\<lparr>q_complete := Some cb_NotifyComplete, q_context := Some a\<rparr>) w1; Some (HDF_SUCCESS, w2) } }"

definition AcmFreeNotifyRequest :: "'k fn_os \<Rightarrow> ptr \<Rightarrow> 'k acmw \<Rightarrow> 'k acmw option" where
  "AcmFreeNotifyRequest K a w =
     do { d \<leftarrow> w_acms w a;
          (r, g) \<leftarrow> UsbFnFreeRequest K (ac_notifyReq d) (w_g w);
          Some (if r \<noteq> HDF_SUCCESS then w\<lparr>w_g := g\<rparr> else put_acm a (d\<lparr>ac_notifyReq := None\<rparr>) (w\<lparr>w_g := g\<rparr>)) }"

subsection \<open>Events\<close>

text \<open>A ring that cannot be allocated leaves the lock held.\<close>

definition AcmEnable :: "'k fn_os \<Rightarrow> ptr \<Rightarrow> 'k acmw \<Rightarrow> (ret \<times> 'k acmw) option" where
  "AcmEnable K a w =
     do { d \<leftarrow> w_acms w a;
          case ac_port d of
            None \<Rightarrow> Some (RetErr HDF_FAILURE, w)
          | Some p \<Rightarrow>
              do { w1 \<leftarrow> lock_port p w;
                   s \<leftarrow> w_ports w1 p;
                   (r, w2) \<leftarrow> alloc_fifos K p (put_acm a (d\<lparr>ac_lineCoding := sp_lineCoding s\<rparr>) (put_port p (s\<lparr>sp_acm := Some a\<rparr>) w1));
                   if r \<noteq> HDF_SUCCESS then Some (RetErr HDF_FAILURE, w2)
                   else do { (r2, w3) \<leftarrow> UsbSerialStartIo K p w2;
                     w4 \<leftarrow> notify_connect K a w3;
                     w5 \<leftarrow> unlock_port p w4;
                     Some (HDF_SUCCESS, w5) } } }"

definition AcmDisable :: "ptr \<Rightarrow> 'k acmw \<Rightarrow> (ret \<times> 'k acmw) option" where
  "AcmDisable a w =
     do { d \<leftarrow> w_acms w a;
          case ac_port d of
            None \<Rightarrow> Some (RetErr HDF_FAILURE, w)
          | Some p \<Rightarrow>
              do { w1 \<leftarrow> lock_port p w;
                   s \<leftarrow> w_ports w1 p;
                   ((f, x), w2) \<leftarrow> UsbSerialFreeFifo (sp_writeFifo s, sp_writeData s) w1;
                   ((f2, x2), w3) \<leftarrow> UsbSerialFreeFifo (sp_readFifo s, sp_readData s) w2;
                   w4 \<leftarrow> unlock_port p (put_port p (s\<lparr>sp_lineCoding := ac_lineCoding d, sp_writeFifo := f, sp_writeData := x,
                           sp_readFifo := f2, sp_readData := x2\<rparr>) w3);
                   Some (HDF_SUCCESS, w4) } }"

definition AcmGetCtrlReq :: "ptr \<Rightarrow> 'k acmw \<Rightarrow> (ptr option \<times> 'k acmw) option" where
  "AcmGetCtrlReq a w =
     do { d \<leftarrow> w_acms w a;
          Some (case ac_ctrlPool d of [] \<Rightarrow> (None, w) | q # qs \<Rightarrow> (Some q, put_acm a (d\<lparr>ac_ctrlPool := qs\<rparr>) w)) }"

text \<open>The switch of \<open>AcmSetup\<close>: the length of the answer.\<close>

definition setup_answer :: "ptr \<Rightarrow> ptr \<Rightarrow> UsbFnCtrlRequest \<Rightarrow> 'k acmw \<Rightarrow> (nat \<times> 'k acmw) option" where
  "setup_answer a q setup w =
     do { d \<leftarrow> w_acms w a;
          if cr_request setup = USB_DDK_CDC_REQ_SET_LINE_CODING
          then Some (if unat (cr_length setup) \<noteq> sizeof_LineCoding then 0 else unat (cr_length setup), w)
          else if cr_request setup = USB_DDK_CDC_REQ_GET_LINE_CODING then
            let n = min (unat (cr_length setup)) sizeof_LineCoding in
            do { d1 \<leftarrow> (if dwDTERate (ac_lineCoding d) = 0
                          then do { p \<leftarrow> ac_port d; s \<leftarrow> w_ports w p; Some (d\<lparr>ac_lineCoding := sp_lineCoding s\<rparr>) } else Some d);
                 w1 \<leftarrow> store_req q (take n (coding_bytes (ac_lineCoding d1))) (put_acm a d1 w);
                 Some (n, w1) }
          else if cr_request setup = USB_DDK_CDC_REQ_SET_CONTROL_LINE_STATE
          then Some (0, put_acm a (d\<lparr>ac_handshakeBits := cr_value setup\<rparr>) w)
          else Some (0, w) }"

definition AcmSetup :: "'k fn_os \<Rightarrow> ptr option \<Rightarrow> UsbFnCtrlRequest option \<Rightarrow> 'k acmw \<Rightarrow> 'k acmw option" where
  "AcmSetup K acm setup w =
     (case (acm, setup) of
        (Some a, Some st) \<Rightarrow>
          do { (qo, w1) \<leftarrow> AcmGetCtrlReq a w;
               case qo of
                 None \<Rightarrow> Some w1
               | Some q \<Rightarrow>
                   do { (n, w2) \<leftarrow> setup_answer a q st w1;
                        r \<leftarrow> get_req q w2; c \<leftarrow> q_context (rl_req r); ci \<leftarrow> w_ctrls w2 c;
                        w3 \<leftarrow> upd_req q (\<lambda>r. r\<lparr>q_length := of_nat n\<rparr>) (put_ctrl c (ci\<lparr>ci_request := cr_request st\<rparr>) w2);
                        map_option snd (acm_submit K q w3) } }
      | _ \<Rightarrow> Some w)"

definition AcmSuspend :: "ptr \<Rightarrow> 'k acmw \<Rightarrow> 'k acmw option" where
  "AcmSuspend a w =
     do { d \<leftarrow> w_acms w a;
          case ac_port d of
            None \<Rightarrow> Some w
          | Some p \<Rightarrow>
              do { w1 \<leftarrow> lock_port p w;
                   s \<leftarrow> w_ports w1 p;
                   unlock_port p (put_port p (s\<lparr>sp_suspended := True\<rparr>) w1) } }"

definition AcmResume :: "'k fn_os \<Rightarrow> ptr \<Rightarrow> 'k acmw \<Rightarrow> 'k acmw option" where
  "AcmResume K a w =
     do { d \<leftarrow> w_acms w a;
          case ac_port d of
            None \<Rightarrow> Some w
          | Some p \<Rightarrow>
              do { w1 \<leftarrow> lock_port p w;
                   s \<leftarrow> w_ports w1 p;
                   let w2 = put_port p (s\<lparr>sp_suspended := False\<rparr>) w1 in
                   if \<not> sp_startDelayed s then unlock_port p w2
                   else do { (r, w3) \<leftarrow> UsbSerialStartIo K p w2;
                     w4 \<leftarrow> notify_connect K a w3;
                     s4 \<leftarrow> w_ports w4 p;
                     unlock_port p (put_port p (s4\<lparr>sp_startDelayed := False\<rparr>) w4) } } }"

record UsbFnEvent =
  fe_setup :: "UsbFnCtrlRequest option"
  fe_type :: nat
  fe_context :: "ptr option"

text \<open>The types of events, in the order of \<open>UsbFnDeviceState\<close>.\<close>

definition USBFN_STATE_ENABLE :: nat where "USBFN_STATE_ENABLE = 2"
definition USBFN_STATE_DISABLE :: nat where "USBFN_STATE_DISABLE = 3"
definition USBFN_STATE_SETUP :: nat where "USBFN_STATE_SETUP = 4"
definition USBFN_STATE_SUSPEND :: nat where "USBFN_STATE_SUSPEND = 5"
definition USBFN_STATE_RESUME :: nat where "USBFN_STATE_RESUME = 6"

definition UsbAcmEventCallback :: "'k fn_os \<Rightarrow> UsbFnEvent option \<Rightarrow> 'k acmw \<Rightarrow> 'k acmw option" where
  "UsbAcmEventCallback K event w =
     (case event of
        None \<Rightarrow> Some w
      | Some ev \<Rightarrow>
          (case fe_context ev of
             None \<Rightarrow> Some w
           | Some a \<Rightarrow>
               if fe_type ev = USBFN_STATE_ENABLE then map_option snd (AcmEnable K a w)
               else if fe_type ev = USBFN_STATE_DISABLE then
                 do { (r, w1) \<leftarrow> AcmDisable a w; d \<leftarrow> w_acms w1 a; Some (put_acm a (d\<lparr>ac_enableEvtCnt := 0\<rparr>) w1) }
               else if fe_type ev = USBFN_STATE_SETUP then AcmSetup K (Some a) (fe_setup ev) w
               else if fe_type ev = USBFN_STATE_SUSPEND then AcmSuspend a w
               else if fe_type ev = USBFN_STATE_RESUME then AcmResume K a w
               else Some w))"

subsection \<open>Interfaces and pipes\<close>

definition note_pipe :: "UsbAcmInterface \<Rightarrow> UsbFnPipeInfo \<Rightarrow> UsbAcmDevice \<Rightarrow> UsbAcmDevice" where
  "note_pipe iface info d =
     (let pipe = \<lparr>ap_id = xp_id info, ap_maxPacketSize = xp_maxPacketSize info\<rparr> in
      if xp_type info = USB_PIPE_TYPE_INTERRUPT then d\<lparr>ac_notifyPipe := pipe, ac_ctrlIface := iface\<rparr>
      else if xp_type info = USB_PIPE_TYPE_BULK then
        if xp_dir info = PIPE_DIRECTION_IN then d\<lparr>ac_dataInPipe := pipe, ac_dataIface := iface\<rparr> else d\<lparr>ac_dataOutPipe := pipe\<rparr>
      else d)"

fun parse_pipes :: "'k fn_os \<Rightarrow> ptr \<Rightarrow> UsbAcmInterface \<Rightarrow> nat \<Rightarrow> nat \<Rightarrow> 'k acmw \<Rightarrow> (ret \<times> 'k acmw) option" where
  "parse_pipes K a iface 0 i w = Some (HDF_SUCCESS, w)"
| "parse_pipes K a iface (Suc n) i w =
     do { (r, io, g) \<leftarrow> UsbFnGetInterfacePipeInfo K (ai_fn iface) (of_nat i) (Some zero_pipeInfo) (w_g w);
          let w1 = w\<lparr>w_g := g\<rparr> in
          if r \<noteq> HDF_SUCCESS then Some (r, w1)
          else do { info \<leftarrow> io; d \<leftarrow> w_acms w1 a; parse_pipes K a iface n (Suc i) (put_acm a (note_pipe iface info d) w1) } }"

definition AcmParseEachPipe :: "'k fn_os \<Rightarrow> ptr \<Rightarrow> UsbAcmInterface \<Rightarrow> 'k acmw \<Rightarrow> (ret \<times> 'k acmw) option" where
  "AcmParseEachPipe K a iface w =
     do { e \<leftarrow> ai_fn iface; im \<leftarrow> get_intf e (w_g w); parse_pipes K a iface (unat (xi_numPipes (im_info im))) 0 w }"

definition AcmParseAcmIface :: "'k fn_os \<Rightarrow> ptr \<Rightarrow> elem \<Rightarrow> 'k acmw \<Rightarrow> (ret \<times> 'k acmw) option" where
  "AcmParseAcmIface K a e w =
     do { (ho, g) \<leftarrow> UsbFnOpenInterface K (Some e) (w_g w);
          let w1 = w\<lparr>w_g := g\<rparr> in
          if ho = None then Some (RetErr HDF_FAILURE, w1)
          else do { (r, w2) \<leftarrow> AcmParseEachPipe K a \<lparr>ai_fn = Some e, ai_handle = ho\<rparr> w1;
            Some (if r \<noteq> HDF_SUCCESS then RetErr HDF_FAILURE else HDF_SUCCESS, w2) } }"

fun parse_ifaces :: "'k fn_os \<Rightarrow> ptr \<Rightarrow> ptr \<Rightarrow> nat \<Rightarrow> nat \<Rightarrow> 'k acmw \<Rightarrow> (ret \<times> 'k acmw) option" where
  "parse_ifaces K a dev 0 i w = Some (RetErr HDF_FAILURE, w)"
| "parse_ifaces K a dev (Suc n) i w =
     do { eo \<leftarrow> UsbFnGetInterface (Some dev) (of_nat i) (w_g w);
          case eo of
            None \<Rightarrow> Some (RetErr HDF_FAILURE, w)
          | Some e \<Rightarrow>
              do { im \<leftarrow> get_intf e (w_g w);
                   if xi_subclass (im_info im) = USB_DDK_CDC_SUBCLASS_ACM then
                     do { (r, w1) \<leftarrow> AcmParseAcmIface K a e w;
                          eo2 \<leftarrow> UsbFnGetInterface (Some dev) (of_nat (Suc i)) (w_g w1);
                          case eo2 of
                            None \<Rightarrow> Some (RetErr HDF_FAILURE, w1)
                          | Some e2 \<Rightarrow> do { (r2, w2) \<leftarrow> AcmParseAcmIface K a e2 w1; Some (HDF_SUCCESS, w2) } }
                   else parse_ifaces K a dev n (Suc i) w } }"

definition AcmParseEachIface :: "'k fn_os \<Rightarrow> ptr \<Rightarrow> ptr option \<Rightarrow> 'k acmw \<Rightarrow> (ret \<times> 'k acmw) option" where
  "AcmParseEachIface K a fnDev w =
     (case fnDev of
        None \<Rightarrow> Some (RetErr HDF_FAILURE, w)
      | Some dev \<Rightarrow> do { m \<leftarrow> g_fdevs (w_g w) dev; parse_ifaces K a dev (unat (dm_numInterfaces m)) 0 w })"

text \<open>The name of the controller is read from the resource tree, which sets it to the default where it has none.\<close>

definition AcmCreateFuncDevice :: "'b hdf_env \<Rightarrow> 'k fn_os \<Rightarrow> ptr \<Rightarrow> 'k acmw \<Rightarrow> (ret \<times> 'k acmw) option" where
  "AcmCreateFuncDevice H K a w =
     do { d \<leftarrow> w_acms w a; dev \<leftarrow> ac_device d;
          let udc = (case he_udcName H of Some u \<Rightarrow> u | None \<Rightarrow> he_default_udc H);
              w1 = put_acm a (d\<lparr>ac_udcName := Some udc\<rparr>) w in
          do { fo \<leftarrow> UsbFnGetDevice (Some udc) (w_g w1);
               case fo of
                 None \<Rightarrow> Some (RetErr HDF_FAILURE, w1)
               | Some fd \<Rightarrow>
                   do { (r, w2) \<leftarrow> AcmParseEachIface K a (Some fd) w1;
                        if r \<noteq> HDF_SUCCESS then Some (RetErr HDF_FAILURE, w2)
                        else do { d2 \<leftarrow> w_acms w2 a; Some (HDF_SUCCESS, put_acm a (d2\<lparr>ac_fnDev := Some fd\<rparr>) w2) } } } }"

definition AcmReleaseFuncDevice :: "'k fn_os \<Rightarrow> ptr \<Rightarrow> 'k acmw \<Rightarrow> (ret \<times> 'k acmw) option" where
  "AcmReleaseFuncDevice K a w =
     do { d \<leftarrow> w_acms w a;
          if ac_fnDev d = None then Some (RetErr HDF_FAILURE, w)
          else do { w1 \<leftarrow> AcmFreeCtrlRequests K a w;
            w2 \<leftarrow> AcmFreeNotifyRequest K a w1;
            (r1, g1) \<leftarrow> UsbFnCloseInterface K (ai_handle (ac_ctrlIface d)) (w_g w2);
            (r2, g2) \<leftarrow> UsbFnCloseInterface K (ai_handle (ac_dataIface d)) g1;
            (r3, g3) \<leftarrow> UsbFnStopRecvInterfaceEvent K (ai_fn (ac_ctrlIface d)) g2;
            Some (HDF_SUCCESS, w2\<lparr>w_g := g3\<rparr>) } }"

subsection \<open>Setting up and tearing down\<close>

definition new_serial :: UsbSerial where
  "new_serial = zero_serial\<lparr>sp_lineCoding := \<lparr>dwDTERate = PORT_RATE, bCharFormat = 0, bParityType = 0, bDataBits = DATA_BIT\<rparr>\<rparr>"

definition UsbSerialAlloc :: "'b hdf_env \<Rightarrow> 'k fn_os \<Rightarrow> ptr \<Rightarrow> 'k acmw \<Rightarrow> (ret \<times> 'k acmw) option" where
  "UsbSerialAlloc H K a w =
     (case walloc K sizeof_Serial w of
        (None, w1) \<Rightarrow> Some (RetErr HDF_FAILURE, w1)
      | (Some p, w1) \<Rightarrow>
          if he_mutexInit H p \<noteq> HDF_SUCCESS then Some (RetErr HDF_FAILURE, put_port p zero_serial w1)
          else do { d \<leftarrow> w_acms w1 a; Some (HDF_SUCCESS, put_acm a (d\<lparr>ac_port := Some p\<rparr>) (put_port p new_serial w1)) })"

definition UsbSerialFree :: "ptr \<Rightarrow> 'k acmw \<Rightarrow> 'k acmw option" where
  "UsbSerialFree a w = do { d \<leftarrow> w_acms w a; case ac_port d of None \<Rightarrow> Some w | Some p \<Rightarrow> wfree (Some p) w }"

text \<open>The steps of \<open>UsbSerialInit\<close> after which it goes to its label \<open>ERR\<close>.\<close>

definition init_steps :: "'b hdf_env \<Rightarrow> 'k fn_os \<Rightarrow> ptr \<Rightarrow> 'k acmw \<Rightarrow> (ret \<times> 'k acmw) option" where
  "init_steps H K a w =
     do { (r1, w1) \<leftarrow> UsbSerialAlloc H K a w;
          if r1 \<noteq> HDF_SUCCESS then Some (r1, w1)
          else do { (r2, w2) \<leftarrow> AcmAllocCtrlRequests K a CTRL_REQUEST_NUM w1;
            if r2 \<noteq> HDF_SUCCESS then Some (r2, w2)
            else do { (r3, w3) \<leftarrow> AcmAllocNotifyRequest K a w2;
              if r3 \<noteq> HDF_SUCCESS then Some (r3, w3)
              else do { d \<leftarrow> w_acms w3 a;
                (r4, g) \<leftarrow> UsbFnStartRecvInterfaceEvent K (ai_fn (ac_ctrlIface d)) 0xff (Some cb_AcmEvent) (Some a) (w_g w3);
                Some (r4, w3\<lparr>w_g := g\<rparr>) } } } }"

definition UsbSerialInit :: "'b hdf_env \<Rightarrow> 'k fn_os \<Rightarrow> ptr option \<Rightarrow> 'k acmw \<Rightarrow> (ret \<times> 'k acmw) option" where
  "UsbSerialInit H K acm w =
     (case acm of
        None \<Rightarrow> Some (RetErr HDF_FAILURE, w)
      | Some a \<Rightarrow>
          do { d \<leftarrow> w_acms w a;
               if ac_initFlag d then Some (RetErr HDF_FAILURE, w)
               else if \<not> he_iface H then Some (RetErr HDF_FAILURE, w)
               else do { (r, w1) \<leftarrow> AcmCreateFuncDevice H K a w;
                 if r \<noteq> HDF_SUCCESS then Some (RetErr HDF_FAILURE, w1)
                 else do { (r2, w2) \<leftarrow> init_steps H K a w1;
                   if r2 \<noteq> HDF_SUCCESS then
                     do { w3 \<leftarrow> UsbSerialFree a w2; (x, w4) \<leftarrow> AcmReleaseFuncDevice K a w3; Some (r2, w4) }
                   else do { d2 \<leftarrow> w_acms w2 a; Some (HDF_SUCCESS, put_acm a (d2\<lparr>ac_notify := True, ac_initFlag := True\<rparr>) w2) } } } })"

definition UsbSerialRelease :: "'k fn_os \<Rightarrow> ptr option \<Rightarrow> 'k acmw \<Rightarrow> (ret \<times> 'k acmw) option" where
  "UsbSerialRelease K acm w =
     (case acm of
        None \<Rightarrow> Some (RetErr HDF_FAILURE, w)
      | Some a \<Rightarrow>
          do { d \<leftarrow> w_acms w a;
               if \<not> ac_initFlag d then Some (RetErr HDF_FAILURE, w)
               else do { (r, w1) \<leftarrow> AcmReleaseFuncDevice K a w;
                 w2 \<leftarrow> UsbSerialFree a w1;
                 d2 \<leftarrow> w_acms w2 a;
                 Some (HDF_SUCCESS, put_acm a (d2\<lparr>ac_initFlag := False\<rparr>) w2) } })"

definition AcmDriverBind :: "'b hdf_env \<Rightarrow> 'k fn_os \<Rightarrow> ptr option \<Rightarrow> 'k acmw \<Rightarrow> (ret \<times> 'k acmw) option" where
  "AcmDriverBind H K device w =
     (if device = None then Some (RetErr HDF_ERR_INVALID_OBJECT, w)
      else case walloc K sizeof_Acm w of
        (None, w1) \<Rightarrow> Some (RetErr HDF_FAILURE, w1)
      | (Some a, w1) \<Rightarrow>
          let w2 = put_acm a zero_acm w1 in
          if he_mutexInit H a \<noteq> HDF_SUCCESS \<or> he_setDesc H \<noteq> HDF_SUCCESS then
            do { w3 \<leftarrow> wfree (Some a) w2; Some (RetErr HDF_FAILURE, w3) }
          else Some (HDF_SUCCESS, put_acm a (zero_acm\<lparr>ac_device := device\<rparr>) w2\<lparr>w_service := Some a\<rparr>))"

definition AcmDriverInit :: "ptr option \<Rightarrow> 'k acmw \<Rightarrow> ret \<times> 'k acmw" where
  "AcmDriverInit device w = (HDF_SUCCESS, w)"

definition AcmDeviceDestroy :: "ptr option \<Rightarrow> 'k acmw \<Rightarrow> 'k acmw option" where
  "AcmDeviceDestroy acm w = wfree acm w"

definition AcmDriverRelease :: "ptr option \<Rightarrow> 'k acmw \<Rightarrow> 'k acmw option" where
  "AcmDriverRelease device w =
     (if device = None \<or> w_service w = None then Some w else AcmDeviceDestroy (w_service w) w)"

subsection \<open>Commands\<close>

text \<open>The commands of \<open>enum UsbSerialCmd\<close>, in its order, and the two that are numbered from 100.\<close>

datatype UsbSerialCmd =
    USB_SERIAL_OPEN | USB_SERIAL_CLOSE | USB_SERIAL_READ | USB_SERIAL_WRITE | USB_SERIAL_GET_BAUDRATE | USB_SERIAL_SET_BAUDRATE
  | USB_SERIAL_SET_PROP | USB_SERIAL_GET_PROP | USB_SERIAL_REGIST_PROP | USB_SERIAL_WRITE_SPEED | USB_SERIAL_WRITE_GET_TEMP_SPEED
  | USB_SERIAL_WRITE_SPEED_DONE | USB_SERIAL_WRITE_GET_TEMP_SPEED_UINT32 | USB_SERIAL_READ_SPEED | USB_SERIAL_READ_GET_TEMP_SPEED
  | USB_SERIAL_READ_SPEED_DONE | USB_SERIAL_READ_GET_TEMP_SPEED_UINT32 | USB_SERIAL_INIT | USB_SERIAL_RELEASE

definition serial_cmds :: "UsbSerialCmd list" where
  "serial_cmds = [USB_SERIAL_OPEN, USB_SERIAL_CLOSE, USB_SERIAL_READ, USB_SERIAL_WRITE, USB_SERIAL_GET_BAUDRATE, USB_SERIAL_SET_BAUDRATE,
     USB_SERIAL_SET_PROP, USB_SERIAL_GET_PROP, USB_SERIAL_REGIST_PROP, USB_SERIAL_WRITE_SPEED, USB_SERIAL_WRITE_GET_TEMP_SPEED,
     USB_SERIAL_WRITE_SPEED_DONE, USB_SERIAL_WRITE_GET_TEMP_SPEED_UINT32, USB_SERIAL_READ_SPEED, USB_SERIAL_READ_GET_TEMP_SPEED,
     USB_SERIAL_READ_SPEED_DONE, USB_SERIAL_READ_GET_TEMP_SPEED_UINT32]"

definition cmd_of :: "int \<Rightarrow> UsbSerialCmd option" where
  "cmd_of c = (if c = 100 then Some USB_SERIAL_INIT else if c = 101 then Some USB_SERIAL_RELEASE
     else if 0 \<le> c \<and> nat c < length serial_cmds then Some (serial_cmds ! nat c) else None)"

definition AcmSerialCmd ::
  "'b hdf_env \<Rightarrow> 'k fn_os \<Rightarrow> ptr \<Rightarrow> int \<Rightarrow> ptr \<Rightarrow> 'b \<Rightarrow> 'b \<Rightarrow> 'k acmw \<Rightarrow> (ret \<times> 'b \<times> 'b \<times> 'k acmw) option" where
  "AcmSerialCmd H K a cmd p data reply w =
     (let plain = map_option (\<lambda>(r, w1). (r, data, reply, w1));
          out = map_option (\<lambda>(r, b, w1). (r, data, b, w1));
          inp = map_option (\<lambda>(r, b, w1). (r, b, reply, w1)) in
      case cmd_of cmd of
        Some USB_SERIAL_OPEN \<Rightarrow> plain (UsbSerialOpen K (Some p) w)
      | Some USB_SERIAL_CLOSE \<Rightarrow> plain (UsbSerialClose K (Some p) w)
      | Some USB_SERIAL_READ \<Rightarrow> out (UsbSerialRead H K p reply w)
      | Some USB_SERIAL_WRITE \<Rightarrow> inp (UsbSerialWrite H K p data w)
      | Some USB_SERIAL_GET_BAUDRATE \<Rightarrow> out (UsbSerialGetBaudrate H p reply w)
      | Some USB_SERIAL_SET_BAUDRATE \<Rightarrow> inp (UsbSerialSetBaudrate H p data w)
      | Some USB_SERIAL_SET_PROP \<Rightarrow> inp (UsbSerialSetProp H K a data w)
      | Some USB_SERIAL_GET_PROP \<Rightarrow> UsbSerialGetProp H K a data reply w
      | Some USB_SERIAL_REGIST_PROP \<Rightarrow> inp (UsbSerialRegistProp H K a data w)
      | Some USB_SERIAL_WRITE_SPEED \<Rightarrow> plain (Some (UsbSerialSpeed K w))
      | Some USB_SERIAL_WRITE_GET_TEMP_SPEED \<Rightarrow> (case UsbSerialGetTempSpeed H reply w of (r, b) \<Rightarrow> Some (r, data, b, w))
      | Some USB_SERIAL_WRITE_SPEED_DONE \<Rightarrow> plain (Some (UsbSerialSpeedDone H w))
      | Some USB_SERIAL_WRITE_GET_TEMP_SPEED_UINT32 \<Rightarrow> (case UsbSerialGetTempSpeedInt H reply w of (r, b) \<Rightarrow> Some (r, data, b, w))
      | Some USB_SERIAL_READ_SPEED \<Rightarrow> plain (Some (UsbSerialReadSpeedStart K w))
      | Some USB_SERIAL_READ_GET_TEMP_SPEED \<Rightarrow> (case UsbSerialGetTempReadSpeed H reply w of (r, b) \<Rightarrow> Some (r, data, b, w))
      | Some USB_SERIAL_READ_SPEED_DONE \<Rightarrow> plain (Some (UsbSerialReadSpeedDone H w))
      | Some USB_SERIAL_READ_GET_TEMP_SPEED_UINT32 \<Rightarrow> (case UsbSerialGetTempReadSpeedInt H reply w of (r, b) \<Rightarrow> Some (r, data, b, w))
      | _ \<Rightarrow> Some (RetErr HDF_ERR_NOT_SUPPORT, data, reply, w))"

text \<open>\<open>client\<close> is the device of the client; the service of the device is the serial function.\<close>

definition AcmDeviceDispatch ::
  "'b hdf_env \<Rightarrow> 'k fn_os \<Rightarrow> ptr option \<Rightarrow> int \<Rightarrow> 'b \<Rightarrow> 'b \<Rightarrow> 'k acmw \<Rightarrow> (ret \<times> 'b \<times> 'b \<times> 'k acmw) option" where
  "AcmDeviceDispatch H K client cmd data reply w =
     (if client = None then Some (RetErr HDF_ERR_INVALID_OBJECT, data, reply, w)
      else case w_service w of
        None \<Rightarrow> Some (RetErr HDF_ERR_INVALID_OBJECT, data, reply, w)
      | Some a \<Rightarrow>
          case he_checkDesc H data of
            (False, data1) \<Rightarrow> Some (RetErr HDF_ERR_INVALID_PARAM, data1, reply, w)
          | (True, data1) \<Rightarrow>
              (case cmd_of cmd of
                 Some USB_SERIAL_INIT \<Rightarrow> map_option (\<lambda>(r, w1). (r, data1, reply, w1)) (UsbSerialInit H K (Some a) w)
               | Some USB_SERIAL_RELEASE \<Rightarrow> map_option (\<lambda>(r, w1). (r, data1, reply, w1)) (UsbSerialRelease K (Some a) w)
               | _ \<Rightarrow> do { d \<leftarrow> w_acms w a;
                           case ac_port d of
                             None \<Rightarrow> Some (RetErr HDF_ERR_IO, data1, reply, w)
                           | Some p \<Rightarrow> AcmSerialCmd H K a cmd p data1 reply w }))"

end
