(* ===== verification/Ecm_Function.thy ===== *)
theory Ecm_Function
  imports Ecm_Port Acm_Function
begin

text \<open>
  The second part of the network function: notifications of the connection and its speed, control requests, events of the device, finding and opening the interfaces, setting
  up and tearing down, and the dispatch of commands.
\<close>

subsection \<open>Notifications\<close>

definition EcmBitrate :: u32 where "EcmBitrate = ECM_BIT"

text \<open>The message for a state, with the state after it; in the state \<open>ECM_NOTIFY_NONE\<close> there is none.\<close>

definition ecm_message :: "UsbEcmDevice \<Rightarrow> (u8 list \<times> EcmNotifyState) option" where
  "ecm_message d =
     (case ed_notifyState d of
        ECM_NOTIFY_NONE \<Rightarrow> None
      | ECM_NOTIFY_CONNECT \<Rightarrow>
          Some (notification_bytes USB_DDK_CDC_NOTIFY_NETWORK_CONNECTION (if ed_isOpen d then 1 else 0) (ucast (ed_ctrlId d)) [], ECM_NOTIFY_SPEED)
      | ECM_NOTIFY_SPEED \<Rightarrow>
          Some (notification_bytes USB_DDK_CDC_NOTIFY_SPEED_CHANGE 0 (ucast (ed_ctrlId d)) (le32_bytes EcmBitrate @ le32_bytes EcmBitrate), ECM_NOTIFY_NONE))"

definition EcmDoNotify :: "'k fn_os \<Rightarrow> ptr \<Rightarrow> 'k ecmw \<Rightarrow> 'k ecmw option" where
  "EcmDoNotify K a w =
     do { d \<leftarrow> ew_ecms w a;
          case ed_notifyReq d of
            None \<Rightarrow> Some w
          | Some q \<Rightarrow>
              do { r \<leftarrow> ecm_req q w;
                   let d1 = d\<lparr>ed_isOpen := True\<rparr> in
                   if q_buf (rl_req r) = 0 then Some (put_ecm a d1 w)
                   else case ecm_message d1 of
                     None \<Rightarrow> Some (put_ecm a d1 w)
                   | Some (bs, st) \<Rightarrow>
                       do { w1 \<leftarrow> on_base (store_req q bs) (put_ecm a (d1\<lparr>ed_notifyState := st, ed_notifyReq := None\<rparr>) w);
                            (ret, w2) \<leftarrow> on_base_ret (send_with K q (of_nat (length bs))) w1;
                            d2 \<leftarrow> ew_ecms w2 a;
                            Some (if ret_neg ret then put_ecm a (d2\<lparr>ed_notifyReq := Some q\<rparr>) w2 else w2) } } }"

definition EcmNotify :: "'k fn_os \<Rightarrow> ptr \<Rightarrow> 'k ecmw \<Rightarrow> 'k ecmw option" where
  "EcmNotify K a w = do { d \<leftarrow> ew_ecms w a; EcmDoNotify K a (put_ecm a (d\<lparr>ed_notifyState := ECM_NOTIFY_CONNECT\<rparr>) w) }"

definition EcmNotifyComplete :: "'k fn_os \<Rightarrow> ptr \<Rightarrow> 'k ecmw \<Rightarrow> 'k ecmw option" where
  "EcmNotifyComplete K q w =
     do { r \<leftarrow> ecm_req q w; a \<leftarrow> q_context (rl_req r); d \<leftarrow> ew_ecms w a;
          let w1 = put_ecm a (d\<lparr>ed_notifyReq := Some q\<rparr>) w in
          if q_status (rl_req r) = 0 then EcmDoNotify K a w1 else Some w1 }"

subsection \<open>Control requests\<close>

definition EcmSetup :: "'k fn_os \<Rightarrow> ptr \<Rightarrow> UsbFnCtrlRequest \<Rightarrow> 'k ecmw \<Rightarrow> (int \<times> 'k ecmw) option" where
  "EcmSetup K a ctrl w =
     do { d \<leftarrow> ew_ecms w a;
          let value = uint (cr_value ctrl) in
          if cr_reqType ctrl = 0x00 OR 0x20 OR 0x01 \<and> cr_request ctrl = USB_DDK_CDC_SET_ETHERNET_PACKET_FILTER \<and> cr_length ctrl = 0 \<and> cr_index ctrl = ucast (ed_ctrlId d) then
            do { q \<leftarrow> ed_ep0Req d;
                 w1 \<leftarrow> on_base (upd_req q (\<lambda>r. r\<lparr>q_length := 0\<rparr>)) w;
                 (ret, w2) \<leftarrow> kit (UsbFnSubmitRequestSync K (Some q) 0) w1;
                 Some (value, w2) }
          else Some (value, w) }"

subsection \<open>Events\<close>

definition EcmEnable :: "'k fn_os \<Rightarrow> ptr \<Rightarrow> 'k ecmw \<Rightarrow> (ret \<times> 'k ecmw) option" where
  "EcmEnable K a w =
     do { d \<leftarrow> ew_ecms w a;
          case ed_port d of
            None \<Rightarrow> Some (RetErr HDF_FAILURE, w)
          | Some p \<Rightarrow>
              do { w1 \<leftarrow> ecm_take EcmLock p w;
                   s \<leftarrow> ew_ports w1 p;
                   let w2 = put_eport p (s\<lparr>ep_ecm := Some a\<rparr>) w1 in
                   do { w3 \<leftarrow> (if ep_refCount s \<noteq> 0 then map_option snd (UsbEcmStartIo K p w2) else Some w2);
                        w4 \<leftarrow> EcmNotify K a w3;
                        w5 \<leftarrow> ecm_give EcmLock p w4;
                        Some (HDF_SUCCESS, w5) } } }"

definition EcmDisable :: "ptr \<Rightarrow> 'k ecmw \<Rightarrow> 'k ecmw option" where
  "EcmDisable a w =
     do { d \<leftarrow> ew_ecms w a;
          case ed_port d of
            None \<Rightarrow> Some w
          | Some p \<Rightarrow>
              do { w1 \<leftarrow> ecm_take EcmLock p w;
                   s \<leftarrow> ew_ports w1 p;
                   w2 \<leftarrow> (if ep_refCount s = 0 then
                            do { ((f, x), w3) \<leftarrow> UsbEcmFreeFifo (ep_writeFifo s, ep_writeData s) w1;
                                 ((f2, x2), w4) \<leftarrow> UsbEcmFreeFifo (ep_readFifo s, ep_readData s) w3;
                                 Some (put_eport p (s\<lparr>ep_writeFifo := f, ep_writeData := x, ep_readFifo := f2, ep_readData := x2\<rparr>) w4) }
                          else Some w1);
                   ecm_give EcmLock p w2 } }"

definition UsbEcmEventCallback :: "'k fn_os \<Rightarrow> UsbFnEvent option \<Rightarrow> 'k ecmw \<Rightarrow> 'k ecmw option" where
  "UsbEcmEventCallback K event w =
     (case event of
        None \<Rightarrow> Some w
      | Some ev \<Rightarrow>
          (case fe_context ev of
             None \<Rightarrow> Some w
           | Some a \<Rightarrow>
               if fe_type ev = USBFN_STATE_ENABLE then map_option snd (EcmEnable K a w)
               else if fe_type ev = USBFN_STATE_DISABLE then EcmDisable a w
               else if fe_type ev = USBFN_STATE_SETUP then
                 (case fe_setup ev of None \<Rightarrow> Some w | Some st \<Rightarrow> map_option snd (EcmSetup K a st w))
               else Some w))"

definition EcmAllocNotifyRequest :: "'k fn_os \<Rightarrow> ptr \<Rightarrow> 'k ecmw \<Rightarrow> (ret \<times> 'k ecmw) option" where
  "EcmAllocNotifyRequest K a w =
     do { d \<leftarrow> ew_ecms w a;
          (qo, w1) \<leftarrow> kit (UsbFnAllocRequest K (eci_handle (ed_ctrlIface d)) (ecp_id (ed_notifyPipe d)) ECM_STATUS_BYTECOUNT) w;
          let w2 = put_ecm a (d\<lparr>ed_notifyReq := qo\<rparr>) w1 in
          case qo of
            None \<Rightarrow> Some (RetErr HDF_FAILURE, w2)
          | Some q \<Rightarrow> do { w3 \<leftarrow> on_base (upd_req q (\<lambda>r. r\<lparr>q_complete := Some cb_EcmNotifyComplete, q_context := Some a\<rparr>)) w2; Some (HDF_SUCCESS, w3) } }"

definition EcmAllocEp0Request :: "'k fn_os \<Rightarrow> ptr \<Rightarrow> 'k ecmw \<Rightarrow> (ret \<times> 'k ecmw) option" where
  "EcmAllocEp0Request K a w =
     do { d \<leftarrow> ew_ecms w a;
          (qo, w1) \<leftarrow> kit (UsbFnAllocCtrlRequest K (eci_handle (ed_ctrlIface d)) ECM_STATUS_BYTECOUNT) w;
          Some (if qo = None then RetErr HDF_FAILURE else HDF_SUCCESS, put_ecm a (d\<lparr>ed_ep0Req := qo\<rparr>) w1) }"

subsection \<open>Interfaces and pipes\<close>

definition ecm_note_pipe :: "UsbEcmInterface \<Rightarrow> UsbFnPipeInfo \<Rightarrow> UsbEcmDevice \<Rightarrow> UsbEcmDevice" where
  "ecm_note_pipe iface info d =
     (let pipe = \<lparr>ecp_id = xp_id info, ecp_maxPacketSize = xp_maxPacketSize info\<rparr> in
      if xp_type info = USB_PIPE_TYPE_INTERRUPT then d\<lparr>ed_notifyPipe := pipe, ed_ctrlIface := iface\<rparr>
      else if xp_type info = USB_PIPE_TYPE_BULK then
        if xp_dir info = PIPE_DIRECTION_IN then d\<lparr>ed_dataInPipe := pipe, ed_dataIface := iface\<rparr> else d\<lparr>ed_dataOutPipe := pipe\<rparr>
      else d)"

fun ecm_parse_pipes :: "'k fn_os \<Rightarrow> ptr \<Rightarrow> UsbEcmInterface \<Rightarrow> nat \<Rightarrow> nat \<Rightarrow> 'k ecmw \<Rightarrow> (ret \<times> 'k ecmw) option" where
  "ecm_parse_pipes K a iface 0 i w = Some (HDF_SUCCESS, w)"
| "ecm_parse_pipes K a iface (Suc n) i w =
     do { (r, io, g) \<leftarrow> UsbFnGetInterfacePipeInfo K (eci_fn iface) (of_nat i) (Some zero_pipeInfo) (w_g (ew_base w));
          let w1 = w\<lparr>ew_base := (ew_base w)\<lparr>w_g := g\<rparr>\<rparr> in
          if r \<noteq> HDF_SUCCESS then Some (RetErr HDF_FAILURE, w1)
          else do { info \<leftarrow> io; d \<leftarrow> ew_ecms w1 a; ecm_parse_pipes K a iface n (Suc i) (put_ecm a (ecm_note_pipe iface info d) w1) } }"

definition EcmParseEachPipe :: "'k fn_os \<Rightarrow> ptr \<Rightarrow> UsbEcmInterface \<Rightarrow> 'k ecmw \<Rightarrow> (ret \<times> 'k ecmw) option" where
  "EcmParseEachPipe K a iface w =
     do { e \<leftarrow> eci_fn iface; im \<leftarrow> get_intf e (w_g (ew_base w)); ecm_parse_pipes K a iface (unat (xi_numPipes (im_info im))) 0 w }"

definition EcmParseEcmIface :: "'k fn_os \<Rightarrow> ptr \<Rightarrow> elem \<Rightarrow> 'k ecmw \<Rightarrow> (ret \<times> 'k ecmw) option" where
  "EcmParseEcmIface K a e w =
     do { (ho, w1) \<leftarrow> kit (UsbFnOpenInterface K (Some e)) w;
          if ho = None then Some (RetErr HDF_FAILURE, w1)
          else do { (r, w2) \<leftarrow> EcmParseEachPipe K a \<lparr>eci_fn = Some e, eci_handle = ho\<rparr> w1;
            Some (if r \<noteq> HDF_SUCCESS then RetErr HDF_FAILURE else HDF_SUCCESS, w2) } }"

fun ecm_parse_ifaces :: "'k fn_os \<Rightarrow> ptr \<Rightarrow> ptr \<Rightarrow> nat \<Rightarrow> nat \<Rightarrow> 'k ecmw \<Rightarrow> (ret \<times> 'k ecmw) option" where
  "ecm_parse_ifaces K a dev 0 i w = Some (RetErr HDF_FAILURE, w)"
| "ecm_parse_ifaces K a dev (Suc n) i w =
     do { eo \<leftarrow> UsbFnGetInterface (Some dev) (of_nat i) (w_g (ew_base w));
          case eo of
            None \<Rightarrow> Some (RetErr HDF_FAILURE, w)
          | Some e \<Rightarrow>
              do { im \<leftarrow> get_intf e (w_g (ew_base w));
                   if xi_subclass (im_info im) = USB_DDK_CDC_SUBCLASS_ETHERNET then
                     do { (r, w1) \<leftarrow> EcmParseEcmIface K a e w;
                          eo2 \<leftarrow> UsbFnGetInterface (Some dev) (of_nat (Suc i)) (w_g (ew_base w1));
                          case eo2 of
                            None \<Rightarrow> Some (RetErr HDF_FAILURE, w1)
                          | Some e2 \<Rightarrow> do { (r2, w2) \<leftarrow> EcmParseEcmIface K a e2 w1; Some (HDF_SUCCESS, w2) } }
                   else ecm_parse_ifaces K a dev n (Suc i) w } }"

definition EcmParseEachIface :: "'k fn_os \<Rightarrow> ptr \<Rightarrow> ptr \<Rightarrow> 'k ecmw \<Rightarrow> (ret \<times> 'k ecmw) option" where
  "EcmParseEachIface K a dev w = do { m \<leftarrow> g_fdevs (w_g (ew_base w)) dev; ecm_parse_ifaces K a dev (unat (dm_numInterfaces m)) 0 w }"

text \<open>The name of the controller is read from the resource tree, which sets it to the default where it has none.\<close>

definition EcmCreateFuncDevice :: "'b hdf_env \<Rightarrow> 'k fn_os \<Rightarrow> ptr \<Rightarrow> 'k ecmw \<Rightarrow> (ret \<times> 'k ecmw) option" where
  "EcmCreateFuncDevice H K a w =
     do { d \<leftarrow> ew_ecms w a; dev \<leftarrow> ed_device d;
          let udc = (case he_udcName H of Some u \<Rightarrow> u | None \<Rightarrow> he_default_udc H);
              w1 = put_ecm a (d\<lparr>ed_udcName := Some udc\<rparr>) w in
          do { fo \<leftarrow> UsbFnGetDevice (Some udc) (w_g (ew_base w1));
               case fo of
                 None \<Rightarrow> Some (RetErr HDF_FAILURE, w1)
               | Some fd \<Rightarrow>
                   do { (r2, w2) \<leftarrow> EcmParseEachIface K a fd w1;
                        if r2 \<noteq> HDF_SUCCESS then Some (r2, w2)
                        else do { (r3, w3) \<leftarrow> EcmAllocEp0Request K a w2;
                          if r3 \<noteq> HDF_SUCCESS then Some (r3, w3)
                          else do { (r4, w4) \<leftarrow> EcmAllocNotifyRequest K a w3;
                            if r4 \<noteq> HDF_SUCCESS then Some (r4, w4)
                            else do { d4 \<leftarrow> ew_ecms w4 a;
                              (r5, w5) \<leftarrow> kit (UsbFnStartRecvInterfaceEvent K (eci_fn (ed_ctrlIface d4)) 0xff (Some cb_EcmEvent) (Some a)) w4;
                              if r5 \<noteq> HDF_SUCCESS then Some (r5, w5)
                              else Some (HDF_SUCCESS, put_ecm a (d4\<lparr>ed_fnDev := Some fd\<rparr>) w5) } } } } } }"

definition EcmReleaseFuncDevice :: "'k fn_os \<Rightarrow> ptr \<Rightarrow> 'k ecmw \<Rightarrow> (ret \<times> 'k ecmw) option" where
  "EcmReleaseFuncDevice K a w =
     do { d \<leftarrow> ew_ecms w a;
          if ed_fnDev d = None then Some (RetErr HDF_FAILURE, w)
          else do { (r1, w1) \<leftarrow> kit (UsbFnCloseInterface K (eci_handle (ed_ctrlIface d))) w;
            (r2, w2) \<leftarrow> kit (UsbFnCloseInterface K (eci_handle (ed_dataIface d))) w1;
            (r3, w3) \<leftarrow> kit (UsbFnStopRecvInterfaceEvent K (eci_fn (ed_ctrlIface d))) w2;
            Some (HDF_SUCCESS, w3) } }"

subsection \<open>Setting up and tearing down\<close>

text \<open>The four locks of a port are made one after the other.\<close>

definition UsbEcmAlloc :: "'b hdf_env \<Rightarrow> 'k fn_os \<Rightarrow> ptr \<Rightarrow> 'k ecmw \<Rightarrow> (ret \<times> 'k ecmw) option" where
  "UsbEcmAlloc H K a w =
     (case ecm_alloc K sizeof_Ecm w of
        (None, w1) \<Rightarrow> Some (RetErr HDF_FAILURE, w1)
      | (Some p, w1) \<Rightarrow>
          if list_ex (\<lambda>i. he_mutexInit H (p + i) \<noteq> HDF_SUCCESS) [0, 1, 2, 3] then
            do { w2 \<leftarrow> ecm_free (Some p) w1; Some (RetErr HDF_FAILURE, w2) }
          else do { d \<leftarrow> ew_ecms w1 a; Some (HDF_SUCCESS, put_ecm a (d\<lparr>ed_port := Some p\<rparr>) (put_eport p zero_ecm w1)) })"

definition EcmDriverBind :: "'b hdf_env \<Rightarrow> 'k fn_os \<Rightarrow> ptr option \<Rightarrow> 'k ecmw \<Rightarrow> (ret \<times> 'k ecmw) option" where
  "EcmDriverBind H K device w =
     (if device = None then Some (RetErr HDF_ERR_INVALID_OBJECT, w)
      else case ecm_alloc K sizeof_EcmDevice w of
        (None, w1) \<Rightarrow> Some (RetErr HDF_FAILURE, w1)
      | (Some a, w1) \<Rightarrow>
          if he_mutexInit H a \<noteq> HDF_SUCCESS \<or> he_setDesc H \<noteq> HDF_SUCCESS then
            do { w2 \<leftarrow> ecm_free (Some a) w1; Some (RetErr HDF_FAILURE, w2) }
          else Some (HDF_SUCCESS, (put_ecm a (zero_ecmDevice\<lparr>ed_dataId := 1, ed_device := device\<rparr>) w1)\<lparr>ew_service := Some a\<rparr>))"

text \<open>A failure behind \<open>UsbEcmAlloc\<close> leaves the port in place.\<close>

definition EcmInit :: "'b hdf_env \<Rightarrow> 'k fn_os \<Rightarrow> ptr option \<Rightarrow> 'k ecmw \<Rightarrow> (ret \<times> 'k ecmw) option" where
  "EcmInit H K device w =
     (if device = None then Some (RetErr HDF_ERR_INVALID_OBJECT, w)
      else case ew_service w of
        None \<Rightarrow> Some (RetErr HDF_FAILURE, w)
      | Some a \<Rightarrow>
          do { d \<leftarrow> ew_ecms w a;
               if ed_initFlag d \<or> \<not> he_iface H then Some (RetErr HDF_FAILURE, w)
               else do { (r1, w1) \<leftarrow> UsbEcmAlloc H K a w;
                 if r1 \<noteq> HDF_SUCCESS then Some (RetErr HDF_FAILURE, w1)
                 else do { (r2, w2) \<leftarrow> EcmCreateFuncDevice H K a w1;
                   if r2 \<noteq> HDF_SUCCESS then Some (RetErr HDF_FAILURE, w2)
                   else do { d2 \<leftarrow> ew_ecms w2 a; Some (r2, put_ecm a (d2\<lparr>ed_initFlag := True\<rparr>) w2) } } } })"

definition EcmRelease :: "'k fn_os \<Rightarrow> ptr option \<Rightarrow> 'k ecmw \<Rightarrow> (ret \<times> 'k ecmw) option" where
  "EcmRelease K device w =
     (if device = None then Some (RetErr HDF_FAILURE, w)
      else case ew_service w of
        None \<Rightarrow> Some (RetErr HDF_FAILURE, w)
      | Some a \<Rightarrow>
          do { d \<leftarrow> ew_ecms w a;
               if \<not> ed_initFlag d then Some (RetErr HDF_FAILURE, w)
               else do { (r, w1) \<leftarrow> EcmReleaseFuncDevice K a w;
                 w2 \<leftarrow> ecm_free (ed_port d) w1;
                 d2 \<leftarrow> ew_ecms w2 a;
                 Some (HDF_SUCCESS, put_ecm a (d2\<lparr>ed_port := None, ed_initFlag := False\<rparr>) w2) } })"

definition EcmDriverInit :: "ptr option \<Rightarrow> 'k ecmw \<Rightarrow> ret \<times> 'k ecmw" where
  "EcmDriverInit device w = (RetVal 0, w)"

definition EcmDriverRelease :: "ptr option \<Rightarrow> 'k ecmw \<Rightarrow> 'k ecmw option" where
  "EcmDriverRelease device w = (if device = None \<or> ew_service w = None then Some w else ecm_free (ew_service w) w)"

subsection \<open>Commands\<close>

datatype UsbEcmCmd = USB_ECM_OPEN | USB_ECM_CLOSE | USB_ECM_READ | USB_ECM_WRITE | USB_ECM_INIT | USB_ECM_RELEASE

definition ecm_cmd_of :: "int \<Rightarrow> UsbEcmCmd option" where
  "ecm_cmd_of c = (if c = 0 then Some USB_ECM_OPEN else if c = 1 then Some USB_ECM_CLOSE else if c = 2 then Some USB_ECM_READ else if c = 3 then Some USB_ECM_WRITE
     else if c = 100 then Some USB_ECM_INIT else if c = 101 then Some USB_ECM_RELEASE else None)"

text \<open>The second switch, under the lock \<open>lockRW\<close>.\<close>

definition ecm_port_cmd :: "'b hdf_env \<Rightarrow> 'k fn_os \<Rightarrow> ptr \<Rightarrow> int \<Rightarrow> 'b \<Rightarrow> 'b \<Rightarrow> 'k ecmw \<Rightarrow> (ret \<times> 'b \<times> 'b \<times> 'k ecmw) option" where
  "ecm_port_cmd H K p cmd data reply w =
     (case ecm_cmd_of cmd of
        Some USB_ECM_OPEN \<Rightarrow> map_option (\<lambda>(r, w1). (r, data, reply, w1)) (UsbEcmOpen K (Some p) w)
      | Some USB_ECM_CLOSE \<Rightarrow> map_option (\<lambda>(r, w1). (r, data, reply, w1)) (UsbEcmClose (Some p) w)
      | Some USB_ECM_READ \<Rightarrow> map_option (\<lambda>(r, b, w1). (r, data, b, w1)) (UsbEcmRead H K p reply w)
      | Some USB_ECM_WRITE \<Rightarrow> map_option (\<lambda>(r, b, w1). (r, b, reply, w1)) (UsbEcmWrite H K p data w)
      | _ \<Rightarrow> Some (RetErr HDF_ERR_NOT_SUPPORT, data, reply, w))"

text \<open>\<open>client\<close> is the device of the client; the service of the device is the network function.\<close>

definition EcmDeviceDispatch :: "'b hdf_env \<Rightarrow> 'k fn_os \<Rightarrow> ptr option \<Rightarrow> int \<Rightarrow> 'b \<Rightarrow> 'b \<Rightarrow> 'k ecmw \<Rightarrow> (ret \<times> 'b \<times> 'b \<times> 'k ecmw) option" where
  "EcmDeviceDispatch H K client cmd data reply w =
     (if client = None then Some (RetErr HDF_ERR_INVALID_OBJECT, data, reply, w)
      else case ew_service w of
        None \<Rightarrow> Some (RetErr HDF_ERR_INVALID_OBJECT, data, reply, w)
      | Some a \<Rightarrow>
          case he_checkDesc H data of
            (False, data1) \<Rightarrow> Some (RetErr HDF_ERR_INVALID_PARAM, data1, reply, w)
          | (True, data1) \<Rightarrow>
              (case ecm_cmd_of cmd of
                 Some USB_ECM_INIT \<Rightarrow> map_option (\<lambda>(r, w1). (r, data1, reply, w1)) (EcmInit H K client w)
               | Some USB_ECM_RELEASE \<Rightarrow> map_option (\<lambda>(r, w1). (r, data1, reply, w1)) (EcmRelease K client w)
               | _ \<Rightarrow> do { d \<leftarrow> ew_ecms w a;
                           case ed_port d of
                             None \<Rightarrow> Some (RetErr HDF_ERR_IO, data1, reply, w)
                           | Some p \<Rightarrow>
                               do { w1 \<leftarrow> ecm_take LockRW p w;
                                    (r, x, y, w2) \<leftarrow> ecm_port_cmd H K p cmd data1 reply w1;
                                    w3 \<leftarrow> ecm_give LockRW p w2;
                                    Some (r, x, y, w3) } }))"

end
