(* ===== verification/Acm_Stream.thy ===== *)
theory Acm_Stream
  imports Acm_Function
begin

text \<open>
  What the serial function sends: the bytes that a client wrote leave in order, in packets, and the requests are never lost.
\<close>

subsection \<open>Rings that may not be allocated\<close>

text \<open>A ring in use, or one that has no block.\<close>

definition ring_ok :: "DataFifo \<Rightarrow> bool" where
  "ring_ok f \<longleftrightarrow> fifo_inv f \<or> (fsize f = 0 \<and> rdIdx f = wrIdx f)"

lemma ring_read:
  assumes "ring_ok f"
  obtains n g where "DataFifoRead f m = Some (n, take (unat n) (fifo_contents f), g)" "ring_ok g" "fsize g = fsize f"
    "unat n = min (unat m) (length (fifo_contents f))" "fifo_contents g = drop (unat n) (fifo_contents f)"
proof (cases "fifo_inv f")
  case True
  from df.rd_spec[OF this, of m] that show ?thesis by (auto simp: ring_ok_def word_unat_eq_iff)
next
  case False
  then have "DataFifoLen f = 0" using assms by (simp add: ring_ok_def DataFifoLen_def)
  then show ?thesis using that[of 0 f] assms by (simp add: DataFifoRead_def fifo_contents_def)
qed

lemma ring_write:
  assumes "ring_ok f" "unat m \<le> length d"
  obtains n g where "DataFifoWrite f d m = Some (n, g)" "ring_ok g" "fsize g = fsize f" "unat n \<le> unat m"
    "unat n = min (unat m) (unat (fsize f) - length (fifo_contents f))" "fifo_contents g = fifo_contents f @ take (unat n) d"
proof (cases "fifo_inv f")
  case True
  from df.wr_spec[OF this assms(2)] that show ?thesis by (auto simp: ring_ok_def word_unat_eq_iff)
next
  case False
  then have z: "DataFifoLen f = 0" "fsize f = 0" using assms by (auto simp: ring_ok_def DataFifoLen_def)
  then have "DataFifoAvailSize f = 0" by (simp add: DataFifoAvailSize_def)
  then show ?thesis using that[of 0 f] assms z by (simp add: DataFifoWrite_def fifo_contents_def rdn_def)
qed

subsection \<open>Submitting\<close>

text \<open>A request but for its length, which is all that the loops change of it.\<close>

definition req_core :: "ReqList \<Rightarrow> ReqList" where
  "req_core r = r\<lparr>rl_req := (rl_req r)\<lparr>q_length := 0\<rparr>\<rparr>"

text \<open>What moving data leaves alone.\<close>

definition quiet :: "'k acmw \<Rightarrow> 'k acmw \<Rightarrow> bool" where
  "quiet w v \<longleftrightarrow> w_acms v = w_acms w \<and> w_ctrls v = w_ctrls w \<and> w_service v = w_service w \<and> w_inFifo v = w_inFifo w \<and>
     (\<exists>k fr. w_g v = (w_g w)\<lparr>g_kern := k, g_freqs := fr\<rparr>) \<and> (\<forall>q. map_option req_core (get_req q v) = map_option req_core (get_req q w))"

lemma gadget_self [simp]: "\<exists>k fr. (g :: 'k gadget) = g\<lparr>g_kern := k, g_freqs := fr\<rparr>"
  by (rule exI[of _ "g_kern g"], rule exI[of _ "g_freqs g"]) simp

lemma quiet_refl [simp]: "quiet w w"
  by (simp add: quiet_def)

lemma quiet_trans:
  assumes "quiet u v" "quiet v w"
  shows "quiet u w"
proof -
  have "\<exists>k fr. w_g w = (w_g u)\<lparr>g_kern := k, g_freqs := fr\<rparr>"
    using assms by (fastforce simp: quiet_def)
  then show ?thesis using assms by (simp add: quiet_def)
qed

lemma quiet_req:
  assumes "quiet w v" "get_req q w = Some r"
  obtains r' where "get_req q v = Some r'" "req_core r' = req_core r"
  using assms by (cases "get_req q v") (auto simp: quiet_def dest: spec[of _ q])

lemma req_core_fields:
  assumes "req_core r = req_core r'"
  shows "rl_bufLen r = rl_bufLen r'" "q_context (rl_req r) = q_context (rl_req r')" "q_status (rl_req r) = q_status (rl_req r')"
    "q_actual (rl_req r) = q_actual (rl_req r')" "q_buf (rl_req r) = q_buf (rl_req r')" "q_complete (rl_req r) = q_complete (rl_req r')"
proof -
  have "rl_bufLen (req_core r) = rl_bufLen (req_core r')" "rl_req (req_core r) = rl_req (req_core r')" using assms by simp_all
  then have "(rl_req r)\<lparr>q_length := 0\<rparr> = (rl_req r')\<lparr>q_length := 0\<rparr>" "rl_bufLen r = rl_bufLen r'" by (simp_all add: req_core_def)
  then show "rl_bufLen r = rl_bufLen r'" "q_context (rl_req r) = q_context (rl_req r')" "q_status (rl_req r) = q_status (rl_req r')"
    "q_actual (rl_req r) = q_actual (rl_req r')" "q_buf (rl_req r) = q_buf (rl_req r')" "q_complete (rl_req r) = q_complete (rl_req r')"
    by (cases "rl_req r"; cases "rl_req r'"; simp)+
qed

lemma PipeIo_kern: "\<exists>ret k. UsbFnAdapterPipeIo K ep io s = (ret, set_fkern k s)"
proof (cases "ep \<le> 0")
  case True
  then have "UsbFnAdapterPipeIo K ep io s = (RetErr HDF_ERR_INVALID_PARAM, set_fkern (g_kern s) s)" by (simp add: UsbFnAdapterPipeIo_def)
  then show ?thesis by blast
qed (auto simp: UsbFnAdapterPipeIo_def split: prod.split)

lemma submit_run:
  assumes "get_req q w = Some r"
  obtains ret k where "acm_submit K q w = Some (ret, w\<lparr>w_g := set_fkern k (w_g w),
     w_sent := w_sent w @ [(q, buf_bytes (q_buf (rl_req r)) (unat (q_length (rl_req r))) w, ret = HDF_SUCCESS)]\<rparr>)"
proof -
  obtain ret k where "UsbFnSubmitRequestAsync K (Some q) (w_g w) = Some (ret, set_fkern k (w_g w))"
    using assms PipeIo_kern by (fastforce simp: UsbFnSubmitRequestAsync_def UsbFnIoMgrRequestSubmitAsync_def ReqToIoData_def Let_def)
  then show ?thesis using that[of ret k] assms by (simp add: acm_submit_def)
qed

lemma send_with_run:
  assumes "get_req q w = Some r"
  obtains ret v where "send_with K q n w = Some (ret, v)" "quiet w v" "w_ports v = w_ports w" "w_buf v = w_buf w"
    "w_sent v = w_sent w @ [(q, buf_bytes (q_buf (rl_req r)) (unat n) w, ret = HDF_SUCCESS)]"
proof -
  let ?u = "w\<lparr>w_g := put_freq q (r\<lparr>rl_req := (rl_req r)\<lparr>q_length := n\<rparr>\<rparr>) (w_g w)\<rparr>"
  have u: "get_req q ?u = Some (r\<lparr>rl_req := (rl_req r)\<lparr>q_length := n\<rparr>\<rparr>)" by simp
  obtain ret k where s: "acm_submit K q ?u = Some (ret, ?u\<lparr>w_g := set_fkern k (w_g ?u),
     w_sent := w_sent w @ [(q, buf_bytes (q_buf (rl_req r)) (unat n) ?u, ret = HDF_SUCCESS)]\<rparr>)" (is "_ = Some (ret, ?v)")
    using submit_run[OF u, of K] by auto
  have "\<exists>k fr. w_g ?v = (w_g w)\<lparr>g_kern := k, g_freqs := fr\<rparr>"
    by (rule exI[of _ k], rule exI[of _ "(g_freqs (w_g w))(q \<mapsto> r\<lparr>rl_req := (rl_req r)\<lparr>q_length := n\<rparr>\<rparr>)"]) simp
  then have "quiet w ?v" using assms unfolding quiet_def by (simp add: req_core_def)
  moreover have "send_with K q n w = Some (ret, ?v)" using assms s by (simp add: send_with_def upd_req_def)
  ultimately show ?thesis using that[of ret ?v] by (simp add: buf_bytes_def)
qed

subsection \<open>The sending loop\<close>

text \<open>The largest packet of the pipe to the host.\<close>

definition packet :: "'k acmw \<Rightarrow> UsbSerial \<Rightarrow> nat" where
  "packet w s = (case Option.bind (sp_acm s) (w_acms w) of None \<Rightarrow> 0 | Some d \<Rightarrow> unat (ap_maxPacketSize (ac_dataInPipe d)))"

text \<open>A request of the port with room for \<open>n\<close> bytes.\<close>

definition req_ok :: "'k acmw \<Rightarrow> ptr \<Rightarrow> nat \<Rightarrow> ptr \<Rightarrow> bool" where
  "req_ok w p n q \<longleftrightarrow> (\<exists>r. get_req q w = Some r \<and> q_context (rl_req r) = Some p \<and> n \<le> unat (rl_bufLen r))"

lemma quiet_req_ok: "quiet w v \<Longrightarrow> req_ok w p n q \<Longrightarrow> req_ok v p n q"
  unfolding req_ok_def by (metis quiet_req req_core_fields(1,2))

text \<open>
  The requests for writing are in the pool, or among those that the kernel has, \<open>F\<close>; nothing is in both, and the counters say how many
  there are.
\<close>

definition tx_port :: "'k acmw \<Rightarrow> ptr \<Rightarrow> ptr set \<Rightarrow> UsbSerial \<Rightarrow> bool" where
  "tx_port w p F s \<longleftrightarrow> \<not> sp_writeBusy s \<and> ring_ok (sp_writeFifo s) \<and> finite F \<and> distinct (sp_writePool s) \<and> set (sp_writePool s) \<inter> F = {} \<and>
     sp_writeStarted s = int (card F) \<and> sp_writeStarted s \<le> QUEUE_SIZE \<and> sp_writeAllocated s = int (card F + length (sp_writePool s)) \<and>
     (\<forall>q \<in> set (sp_writePool s) \<union> F. req_ok w p (packet w s) q) \<and> (\<forall>a. sp_acm s = Some a \<longrightarrow> w_acms w a \<noteq> None)"

text \<open>The requests of a list of packets that were accepted, and the bytes of all packets.\<close>

definition taken :: "(ptr \<times> u8 list \<times> bool) list \<Rightarrow> ptr set" where
  "taken pk = {q. \<exists>bs. (q, bs, True) \<in> set pk}"

definition payload :: "(ptr \<times> u8 list \<times> bool) list \<Rightarrow> u8 list" where
  "payload pk = concat (map (fst \<circ> snd) pk)"

lemma taken_simps [simp]: "taken [] = {}" "taken (xs @ ys) = taken xs \<union> taken ys" "taken [(q, bs, ok)] = (if ok then {q} else {})"
  by (auto simp: taken_def)

lemma payload_simps [simp]: "payload [] = []" "payload (xs @ ys) = payload xs @ payload ys" "payload [(q, bs, ok)] = bs"
  by (simp_all add: payload_def)

text \<open>A port but for the part that belongs to writing.\<close>

definition tx_rest :: "UsbSerial \<Rightarrow> UsbSerial" where
  "tx_rest s = s\<lparr>sp_writeFifo := zero_fifo, sp_writePool := [], sp_writeStarted := 0, sp_writeBusy := False\<rparr>"

lemma tx_rest_fields:
  assumes "tx_rest t = tx_rest s"
  shows "sp_acm t = sp_acm s" "sp_lock t = sp_lock s" "sp_readPool t = sp_readPool s" "sp_readQueue t = sp_readQueue s" "sp_readStarted t = sp_readStarted s"
    "sp_readFifo t = sp_readFifo s" "sp_readAllocated t = sp_readAllocated s" "sp_writeAllocated t = sp_writeAllocated s" "sp_suspended t = sp_suspended s"
    "sp_readData t = sp_readData s" "sp_writeData t = sp_writeData s" "sp_lineCoding t = sp_lineCoding s" "sp_startDelayed t = sp_startDelayed s"
  using assms by (cases s, cases t, simp add: tx_rest_def)+

text \<open>The store after packets were sent: only the ring, the pool and the counter of the port have changed.\<close>

definition tx_sent :: "ptr \<Rightarrow> 'k acmw \<Rightarrow> UsbSerial \<Rightarrow> 'k acmw \<Rightarrow> UsbSerial \<Rightarrow> (ptr \<times> u8 list \<times> bool) list \<Rightarrow> bool" where
  "tx_sent p w s v t pk \<longleftrightarrow> quiet w v \<and> w_ports v = (w_ports w)(p \<mapsto> t) \<and>
     tx_rest t = tx_rest s \<and>
     set (sp_writePool t) \<subseteq> set (sp_writePool s) \<and> fsize (sp_writeFifo t) = fsize (sp_writeFifo s) \<and> w_sent v = w_sent w @ pk \<and>
     payload pk @ fifo_contents (sp_writeFifo t) = fifo_contents (sp_writeFifo s) \<and>
     (\<forall>(q, bs, ok) \<in> set pk. q \<in> set (sp_writePool s) \<and> bs \<noteq> [] \<and> length bs \<le> packet w s)"

lemma unat_packet [simp]: "unat (ucast (m :: u16) :: u32) = unat m"
proof -
  have "unat m < 2 ^ 16" using unsigned_less[of m] by simp
  then show ?thesis by (simp add: unsigned_ucast_eq take_bit_nat_eq_self)
qed

lemma buf_store [simp]: "buf_bytes a (length bs) (store_bytes a bs w) = bs"
  by (rule nth_equalityI) (simp_all add: buf_bytes_def store_bytes_def)

lemma quiet_store: "quiet w (store_bytes a bs w)"
  by (simp add: quiet_def store_bytes_def)

lemma store_fields [simp]: "w_ports (store_bytes a bs w) = w_ports w" "w_sent (store_bytes a bs w) = w_sent w" "w_g (store_bytes a bs w) = w_g w"
  "w_acms (store_bytes a bs w) = w_acms w"
  by (simp_all add: store_bytes_def)

lemma quiet_port [simp]: "quiet w (v\<lparr>w_ports := x\<rparr>) = quiet w v" "quiet (w\<lparr>w_ports := x\<rparr>) v = quiet w v"
  by (simp_all add: quiet_def)

lemma quiet_packet: "quiet w v \<Longrightarrow> sp_acm t = sp_acm s \<Longrightarrow> packet v t = packet w s"
  by (simp add: packet_def quiet_def)

text \<open>Why the loop stops: no request is free, enough are under way, there is nothing to send, or the kernel refused a packet.\<close>

definition tx_idle :: "nat \<Rightarrow> UsbSerial \<Rightarrow> (ptr \<times> u8 list \<times> bool) list \<Rightarrow> bool" where
  "tx_idle n t pk \<longleftrightarrow> sp_writePool t = [] \<or> sp_writeStarted t = QUEUE_SIZE \<or> n = 0 \<or> fifo_contents (sp_writeFifo t) = [] \<or> (\<exists>x \<in> set pk. \<not> snd (snd x))"

lemma tx_idle_append: "tx_idle n t pk' \<Longrightarrow> tx_idle n t (pk @ pk')"
  by (auto simp: tx_idle_def)

text \<open>The invariant after a step that changes the pool and the requests on their way.\<close>

lemma tx_port_step:
  assumes "tx_port w p F s" "quiet w v" "sp_acm t = sp_acm s" "\<not> sp_writeBusy t" "ring_ok (sp_writeFifo t)"
    and "sp_writeAllocated t = sp_writeAllocated s" "finite G" "distinct (sp_writePool t)" "set (sp_writePool t) \<inter> G = {}"
    and "set (sp_writePool t) \<union> G = set (sp_writePool s) \<union> F" "sp_writeStarted t = int (card G)" "sp_writeStarted t \<le> QUEUE_SIZE"
  shows "tx_port v p G t"
proof -
  have "card (set (sp_writePool t) \<union> G) = card (set (sp_writePool s) \<union> F)" using assms(10) by simp
  then have "card G + length (sp_writePool t) = card F + length (sp_writePool s)"
    using assms(1,7,8,9) by (simp add: tx_port_def card_Un_disjoint distinct_card)
  moreover have "req_ok v p (packet v t) q" if "q \<in> set (sp_writePool t) \<union> G" for q
    using that assms(1,10) quiet_req_ok[OF assms(2)] quiet_packet[OF assms(2,3)] by (simp add: tx_port_def)
  ultimately show ?thesis using assms by (simp add: tx_port_def quiet_def)
qed

lemma tx_step:
  assumes "w_ports w p = Some s" "tx_port w p F s" "sp_acm s = Some a"
  shows "\<exists>go r' v t pk. start_tx_body K p (r, w) = Some (go, (r', v)) \<and> tx_sent p w s v t pk \<and> tx_port v p (F \<union> taken pk) t \<and>
    (if go then length (sp_writePool t) < length (sp_writePool s) \<and> (\<forall>x \<in> set pk. snd (snd x))
     else tx_idle (packet w s) t pk)"
proof (cases "sp_writePool s = [] \<or> sp_writeStarted s \<ge> QUEUE_SIZE")
  case True
  then have "start_tx_body K p (r, w) = Some (False, (r, w))" using assms(1,2) by (auto simp: start_tx_body_def tx_port_def)
  moreover have "tx_sent p w s w s []" using assms(1) by (auto simp: tx_sent_def)
  moreover have "tx_port w p (F \<union> taken []) s" "tx_idle (packet w s) s []" using assms(2) True by (auto simp: tx_port_def tx_idle_def)
  ultimately show ?thesis by fastforce
next
  case False
  then obtain q qs where pool: "sp_writePool s = q # qs" by (cases "sp_writePool s") auto
  obtain d where d: "w_acms w a = Some d" using assms(2,3) by (auto simp: tx_port_def)
  have pk: "packet w s = unat (ap_maxPacketSize (ac_dataInPipe d))" using assms(3) d by (simp add: packet_def)
  obtain rq where rq: "get_req q w = Some rq" "packet w s \<le> unat (rl_bufLen rq)" using assms(2) pool by (auto simp: tx_port_def req_ok_def)
  have "ring_ok (sp_writeFifo s)" using assms(2) by (simp add: tx_port_def)
  from ring_read[OF this, of "ucast (ap_maxPacketSize (ac_dataInPipe d))"]
  obtain n f where f: "DataFifoRead (sp_writeFifo s) (ucast (ap_maxPacketSize (ac_dataInPipe d))) = Some (n, take (unat n) (fifo_contents (sp_writeFifo s)), f)"
    "ring_ok f" "fsize f = fsize (sp_writeFifo s)" "unat n = min (packet w s) (length (fifo_contents (sp_writeFifo s)))"
    "fifo_contents f = drop (unat n) (fifo_contents (sp_writeFifo s))"
    unfolding unat_packet pk[symmetric] by blast
  let ?bs = "take (unat n) (fifo_contents (sp_writeFifo s))"
  let ?w1 = "store_bytes (q_buf (rl_req rq)) ?bs (put_port p (s\<lparr>sp_writeFifo := f\<rparr>) w)"
  have st: "store_req q ?bs (put_port p (s\<lparr>sp_writeFifo := f\<rparr>) w) = Some ?w1" using rq f(4) by (simp add: store_req_def)
  have q1: "quiet w ?w1" using quiet_store[of "put_port p (s\<lparr>sp_writeFifo := f\<rparr>) w"] by simp
  note body = start_tx_body_def Let_def assms(1,3) d pool f(1) st
  have busy: "\<not> sp_writeBusy s" using assms(2) by (simp add: tx_port_def)
  show ?thesis
  proof (cases "n = 0")
    case True
    let ?t = "s\<lparr>sp_writeFifo := f\<rparr>"
    have "start_tx_body K p (r, w) = Some (False, (r, ?w1))" using False busy True st by (simp add: body)
    moreover have "tx_sent p w s ?w1 ?t []" using q1 f(3,5) True by (simp add: tx_sent_def tx_rest_def)
    moreover have "tx_port ?w1 p (F \<union> taken []) ?t" using assms(2) q1 f(2) by (intro tx_port_step[OF assms(2) q1]) (simp_all add: tx_port_def)
    moreover have "tx_idle (packet w s) ?t []" using True f(4,5) by (simp add: tx_idle_def min_def del: fifo_contents_length split: if_splits)
    ultimately show ?thesis by fastforce
  next
    case n0: False
    let ?u = "put_port p (s\<lparr>sp_writeFifo := f, sp_writePool := qs, sp_writeBusy := True\<rparr>) ?w1"
    have u: "get_req q ?u = Some rq" using rq by simp
    have b: "buf_bytes (q_buf (rl_req rq)) (unat n) ?u = ?bs" using f(4) buf_store[of "q_buf (rl_req rq)" ?bs] by (simp add: buf_bytes_def)
    from send_with_run[OF u, of K n] obtain ret v where v: "send_with K q n ?u = Some (ret, v)" "quiet ?u v" "w_ports v = w_ports ?u"
      "w_sent v = w_sent ?u @ [(q, buf_bytes (q_buf (rl_req rq)) (unat n) ?u, ret = HDF_SUCCESS)]" by blast
    have q2: "quiet w v" using quiet_trans[OF q1] v(2) by simp
    have qF: "q \<notin> F" "q \<notin> set qs" using assms(2) pool by (auto simp: tx_port_def)
    let ?t = "if ret = HDF_SUCCESS then s\<lparr>sp_writeFifo := f, sp_writePool := qs, sp_writeBusy := False, sp_writeStarted := sp_writeStarted s + 1\<rparr>
      else s\<lparr>sp_writeFifo := f, sp_writeBusy := False, sp_writePool := qs @ [q]\<rparr>"
    let ?v = "put_port p ?t v" and ?pk = "[(q, ?bs, ret = HDF_SUCCESS)]"
    have vp: "w_ports v p = Some (s\<lparr>sp_writeFifo := f, sp_writePool := qs, sp_writeBusy := True\<rparr>)" using v(3) by simp
    have "start_tx_body K p (r, w) = Some (ret = HDF_SUCCESS, (ret, ?v))"
      using False busy n0 v(1) vp by (simp add: body)
    moreover have bs: "?bs \<noteq> []" "length ?bs \<le> packet w s"
      using n0 f(4) by (auto simp: unat_gt_0[symmetric] simp del: fifo_contents_length)
    moreover have "tx_sent p w s ?v ?t ?pk"
      using q2 v(3,4) f(3,5) bs pool unfolding b by (simp add: tx_sent_def tx_rest_def subset_insertI)
    moreover have "tx_port ?v p (F \<union> taken ?pk) ?t"
      using assms(2) q2 f(2) pool qF False busy by (intro tx_port_step[OF assms(2)]) (auto simp: tx_port_def)
    moreover have "if ret = HDF_SUCCESS then length (sp_writePool ?t) < length (sp_writePool s) \<and> (\<forall>x \<in> set ?pk. snd (snd x)) else tx_idle (packet w s) ?t ?pk"
      using pool by (simp add: tx_idle_def)
    ultimately show ?thesis by blast
  qed
qed

lemma tx_sent_trans:
  assumes "tx_sent p w s u m pk" "tx_sent p u m v t pk'"
  shows "tx_sent p w s v t (pk @ pk')"
proof -
  have q: "quiet w u" "quiet u v" "sp_acm m = sp_acm s" using assms tx_rest_fields(1)[of m s] by (simp_all add: tx_sent_def)
  have "packet u m = packet w s" by (rule quiet_packet[OF q(1,3)])
  moreover have "quiet w v" by (rule quiet_trans[OF q(1,2)])
  ultimately show ?thesis using assms by (auto simp: tx_sent_def)
qed

lemma StartTx_run:
  assumes "w_ports w p = Some s" "tx_port w p F s"
  obtains r v t pk where "UsbSerialStartTx K (Some p) w = Some (r, v)" "tx_sent p w s v t pk" "tx_port v p (F \<union> taken pk) t"
    "sp_acm s \<noteq> None \<longrightarrow> tx_idle (packet w s) t pk"
proof (cases "sp_acm s")
  case None
  then have "UsbSerialStartTx K (Some p) w = Some (HDF_SUCCESS, w)" "tx_sent p w s w s []" using assms(1) by (auto simp: UsbSerialStartTx_def tx_sent_def)
  then show ?thesis using that[of HDF_SUCCESS w s "[]"] assms(2) None by simp
next
  case (Some a)
  define I where "I = (\<lambda>(r :: ret, v). \<exists>t pk. tx_sent p w s v t pk \<and> tx_port v p (F \<union> taken pk) t)"
  define Q where "Q = (\<lambda>(r :: ret, v). \<exists>t pk. tx_sent p w s v t pk \<and> tx_port v p (F \<union> taken pk) t \<and> tx_idle (packet w s) t pk)"
  have "I (RetErr HDF_FAILURE, w)" using assms by (auto simp: I_def tx_sent_def intro!: exI[of _ s] exI[of _ "[]"])
  moreover have "\<exists>go y. start_tx_body K p x = Some (go, y) \<and> (if go then I y \<and> length (sp_writePool (the (w_ports (snd y) p))) < length (sp_writePool (the (w_ports (snd x) p))) else Q y)"
    if ix: "I x" for x
  proof -
    obtain r u m pk where x: "x = (r, u)" "tx_sent p w s u m pk" "tx_port u p (F \<union> taken pk) m" using ix by (cases x) (auto simp: I_def)
    have m: "w_ports u p = Some m" "sp_acm m = Some a" "quiet w u" using x(2) Some tx_rest_fields(1)[of m s] by (simp_all add: tx_sent_def)
    from tx_step[OF m(1) x(3) m(2), of K r] obtain go r' v t pk' where st: "start_tx_body K p (r, u) = Some (go, (r', v))" "tx_sent p u m v t pk'"
      "tx_port v p (F \<union> taken pk \<union> taken pk') t"
      "if go then length (sp_writePool t) < length (sp_writePool m) \<and> (\<forall>x \<in> set pk'. snd (snd x))
       else tx_idle (packet u m) t pk'" by blast
    have tr: "tx_sent p w s v t (pk @ pk')" by (rule tx_sent_trans[OF x(2) st(2)])
    have pt: "tx_port v p (F \<union> taken (pk @ pk')) t" using st(3) by (simp add: Un_assoc)
    have i: "I (r', v)" unfolding I_def using tr pt by blast
    have vt: "w_ports v p = Some t" using st(2) by (simp add: tx_sent_def)
    have "packet u m = packet w s" using quiet_packet[OF m(3)] m(2) Some by simp
    then have "Q (r', v)" if "\<not> go" unfolding Q_def prod.case using st(4) that tr pt by (intro exI[of _ t] exI[of _ "pk @ pk'"]) (simp add: tx_idle_append)
    then show ?thesis using st(1,4) i vt m(1) x(1) by (intro exI[of _ go] exI[of _ "(r', v)"]) auto
  qed
  ultimately have "\<exists>y. loop_opt (start_tx_body K p) (RetErr HDF_FAILURE, w) = Some y \<and> Q y"
    by (rule loop_opt_rule[where m = "\<lambda>x. length (sp_writePool (the (w_ports (snd x) p)))"])
  then obtain r v t pk where "loop_opt (start_tx_body K p) (RetErr HDF_FAILURE, w) = Some (r, v)" "tx_sent p w s v t pk" "tx_port v p (F \<union> taken pk) t"
    "tx_idle (packet w s) t pk" by (auto simp: Q_def)
  then show ?thesis using that[of r v t pk] assms(1) Some by (simp add: UsbSerialStartTx_def)
qed

end
