(* ===== verification/Acm_Receive.thy ===== *)
theory Acm_Receive
  imports Acm_Stream
begin

text \<open>What the serial function receives: requests for reading circulate, and the bytes that arrive go into the ring.\<close>

subsection \<open>Starting to read\<close>

text \<open>The requests for reading are in the pool, in the queue of those that have completed, or with the kernel (\<open>G\<close>).\<close>

definition rx_port :: "'k acmw \<Rightarrow> ptr \<Rightarrow> ptr set \<Rightarrow> UsbSerial \<Rightarrow> bool" where
  "rx_port w p G s \<longleftrightarrow> finite G \<and> distinct (sp_readPool s @ sp_readQueue s) \<and> set (sp_readPool s @ sp_readQueue s) \<inter> G = {} \<and>
     sp_readStarted s = int (card G + length (sp_readQueue s)) \<and> sp_readStarted s \<le> QUEUE_SIZE \<and>
     sp_readAllocated s = int (card G + length (sp_readQueue s) + length (sp_readPool s)) \<and>
     (\<forall>q \<in> set (sp_readPool s @ sp_readQueue s) \<union> G. req_ok w p 0 q) \<and> (\<forall>a. sp_acm s = Some a \<longrightarrow> w_acms w a \<noteq> None)"

definition rx_rest :: "UsbSerial \<Rightarrow> UsbSerial" where
  "rx_rest s = s\<lparr>sp_readPool := [], sp_readStarted := 0\<rparr>"

lemma rx_rest_fields:
  assumes "rx_rest t = rx_rest s"
  shows "sp_acm t = sp_acm s" "sp_lock t = sp_lock s" "sp_writePool t = sp_writePool s" "sp_readQueue t = sp_readQueue s" "sp_writeStarted t = sp_writeStarted s"
    "sp_readFifo t = sp_readFifo s" "sp_readAllocated t = sp_readAllocated s" "sp_writeAllocated t = sp_writeAllocated s" "sp_suspended t = sp_suspended s"
    "sp_readData t = sp_readData s" "sp_writeData t = sp_writeData s" "sp_writeFifo t = sp_writeFifo s" "sp_writeBusy t = sp_writeBusy s"
  using assms by (cases s, cases t, simp add: rx_rest_def)+

definition rx_sent :: "ptr \<Rightarrow> 'k acmw \<Rightarrow> UsbSerial \<Rightarrow> 'k acmw \<Rightarrow> UsbSerial \<Rightarrow> (ptr \<times> u8 list \<times> bool) list \<Rightarrow> bool" where
  "rx_sent p w s v t pk \<longleftrightarrow> quiet w v \<and> w_buf v = w_buf w \<and> w_ports v = (w_ports w)(p \<mapsto> t) \<and> rx_rest t = rx_rest s \<and>
     set (sp_readPool t) \<subseteq> set (sp_readPool s) \<and> w_sent v = w_sent w @ pk \<and> (\<forall>x \<in> set pk. fst x \<in> set (sp_readPool s))"

lemma rx_sent_refl: "w_ports w p = Some s \<Longrightarrow> rx_sent p w s w s []"
  by (auto simp: rx_sent_def)

lemma rx_sent_trans:
  assumes "rx_sent p w s u m pk" "rx_sent p u m v t pk'"
  shows "rx_sent p w s v t (pk @ pk')"
proof -
  have "quiet w v" using assms quiet_trans[of w u v] by (simp add: rx_sent_def)
  then show ?thesis using assms by (auto simp: rx_sent_def)
qed

lemma rx_port_step:
  assumes "rx_port w p G s" "quiet w v" "sp_acm t = sp_acm s" "sp_readAllocated t = sp_readAllocated s" "finite H"
    and "distinct (sp_readPool t @ sp_readQueue t)" "set (sp_readPool t @ sp_readQueue t) \<inter> H = {}"
    and "set (sp_readPool t @ sp_readQueue t) \<union> H = set (sp_readPool s @ sp_readQueue s) \<union> G"
    and "sp_readStarted t = int (card H + length (sp_readQueue t))" "sp_readStarted t \<le> QUEUE_SIZE"
  shows "rx_port v p H t"
proof -
  have "card (set (sp_readPool t @ sp_readQueue t) \<union> H) = card (set (sp_readPool s @ sp_readQueue s) \<union> G)" using assms(8) by simp
  moreover have "card (set (sp_readPool t @ sp_readQueue t) \<union> H) = length (sp_readPool t @ sp_readQueue t) + card H"
    using assms(5,6,7) by (simp only: card_Un_disjoint finite_set distinct_card)
  moreover have "card (set (sp_readPool s @ sp_readQueue s) \<union> G) = length (sp_readPool s @ sp_readQueue s) + card G"
    using assms(1) unfolding rx_port_def by (simp only: card_Un_disjoint finite_set distinct_card)
  ultimately have "card H + length (sp_readQueue t) + length (sp_readPool t) = card G + length (sp_readQueue s) + length (sp_readPool s)" by simp
  moreover have "req_ok v p 0 q" if "q \<in> set (sp_readPool t @ sp_readQueue t) \<union> H" for q
  proof -
    have "q \<in> set (sp_readPool s @ sp_readQueue s) \<union> G" using that assms(8) by blast
    then show ?thesis using assms(1) quiet_req_ok[OF assms(2)] unfolding rx_port_def by blast
  qed
  ultimately show ?thesis using assms unfolding rx_port_def by (auto simp: quiet_def)
qed

lemma rx_step:
  assumes "w_ports w p = Some s" "rx_port w p G s" "sp_acm s = Some a"
  shows "\<exists>go v t pk. start_rx_body K p w = Some (go, v) \<and> rx_sent p w s v t pk \<and> rx_port v p (G \<union> taken pk) t \<and>
    (go \<longrightarrow> length (sp_readPool t) < length (sp_readPool s))"
proof (cases "sp_readPool s = [] \<or> sp_readStarted s \<ge> QUEUE_SIZE")
  case True
  then have "start_rx_body K p w = Some (False, w)" using assms(1) by (auto simp: start_rx_body_def)
  then show ?thesis using rx_sent_refl[OF assms(1)] assms(2) by fastforce
next
  case False
  then obtain q qs where pool: "sp_readPool s = q # qs" by (cases "sp_readPool s") auto
  obtain d where d: "w_acms w a = Some d" using assms(2,3) by (auto simp: rx_port_def)
  let ?u = "put_port p (s\<lparr>sp_readPool := qs\<rparr>) w"
  obtain rq where "get_req q ?u = Some rq" using assms(2) pool by (auto simp: rx_port_def req_ok_def)
  from send_with_run[OF this, of K "ucast (ap_maxPacketSize (ac_dataOutPipe d))"] obtain ret v bs where
    v: "send_with K q (ucast (ap_maxPacketSize (ac_dataOutPipe d))) ?u = Some (ret, v)" "quiet ?u v" "w_ports v = w_ports ?u" "w_buf v = w_buf ?u"
      "w_sent v = w_sent ?u @ [(q, bs, ret = HDF_SUCCESS)]" by blast
  have qG: "q \<notin> G" "q \<notin> set qs" using assms(2) pool by (auto simp: rx_port_def)
  let ?t = "if ret = HDF_SUCCESS then s\<lparr>sp_readPool := qs, sp_readStarted := sp_readStarted s + 1\<rparr> else s\<lparr>sp_readPool := qs @ [q]\<rparr>"
  let ?pk = "[(q, bs, ret = HDF_SUCCESS)]"
  have "start_rx_body K p w = Some (ret = HDF_SUCCESS, put_port p ?t v)"
    using False assms(1,3) d pool v(1,3) by (simp add: start_rx_body_def Let_def)
  moreover have "rx_sent p w s (put_port p ?t v) ?t ?pk" using v(2-5) pool by (simp add: rx_sent_def rx_rest_def subset_insertI)
  moreover have "rx_port (put_port p ?t v) p (G \<union> taken ?pk) ?t"
    using assms(2) v(2) pool qG False by (intro rx_port_step[OF assms(2)]) (auto simp: rx_port_def)
  moreover have "ret = HDF_SUCCESS \<longrightarrow> length (sp_readPool ?t) < length (sp_readPool s)" using pool by simp
  ultimately show ?thesis by blast
qed

lemma StartRx_run:
  assumes "w_ports w p = Some s" "rx_port w p G s" "sp_acm s = Some a"
  obtains v t pk where "UsbSerialStartRx K p w = Some (sp_readStarted t, v)" "rx_sent p w s v t pk" "rx_port v p (G \<union> taken pk) t"
proof -
  define I where "I = (\<lambda>v. \<exists>t pk. rx_sent p w s v t pk \<and> rx_port v p (G \<union> taken pk) t)"
  have "I w" unfolding I_def using rx_sent_refl[OF assms(1)] assms(2) by (intro exI[of _ s] exI[of _ "[]"]) simp
  moreover have "\<exists>go v. start_rx_body K p u = Some (go, v) \<and>
      (if go then I v \<and> length (sp_readPool (the (w_ports v p))) < length (sp_readPool (the (w_ports u p))) else I v)" if iu: "I u" for u
  proof -
    obtain m pk where m: "rx_sent p w s u m pk" "rx_port u p (G \<union> taken pk) m" using iu by (auto simp: I_def)
    have mp: "w_ports u p = Some m" "sp_acm m = Some a" using m(1) rx_rest_fields(1)[of m s] assms(3) by (simp_all add: rx_sent_def)
    from rx_step[OF mp(1) m(2) mp(2), of K] obtain go v t pk' where st: "start_rx_body K p u = Some (go, v)" "rx_sent p u m v t pk'"
      "rx_port v p (G \<union> taken pk \<union> taken pk') t" "go \<longrightarrow> length (sp_readPool t) < length (sp_readPool m)" by blast
    have "I v" unfolding I_def using rx_sent_trans[OF m(1) st(2)] st(3) by (intro exI[of _ t] exI[of _ "pk @ pk'"]) (simp add: Un_assoc)
    moreover have "w_ports v p = Some t" using st(2) by (simp add: rx_sent_def)
    ultimately show ?thesis using st(1,4) mp(1) by (intro exI[of _ go] exI[of _ v]) simp
  qed
  ultimately have "\<exists>v. loop_opt (start_rx_body K p) w = Some v \<and> I v"
    by (rule loop_opt_rule[where m = "\<lambda>v. length (sp_readPool (the (w_ports v p)))"])
  then obtain v t pk where "loop_opt (start_rx_body K p) w = Some v" "rx_sent p w s v t pk" "rx_port v p (G \<union> taken pk) t" by (auto simp: I_def)
  then show ?thesis using that[of t v pk] by (simp add: UsbSerialStartRx_def rx_sent_def)
qed

subsection \<open>Bytes that arrive\<close>

text \<open>
  A full ring gives up as many of its oldest bytes as arrive; otherwise what does not fit is lost.
\<close>

definition rx_contents :: "nat \<Rightarrow> u8 list \<Rightarrow> u8 list \<Rightarrow> u8 list" where
  "rx_contents cap c d = (if 0 < cap \<and> length c = cap then drop (length d) c @ d else c @ take (cap - length c) d)"

text \<open>The bytes that a completed request carries.\<close>

definition received :: "'k acmw \<Rightarrow> ReqList \<Rightarrow> u8 list" where
  "received w r = buf_bytes (q_buf (rl_req r)) (unat (q_actual (rl_req r))) w"

definition arrives :: "nat \<Rightarrow> ReqList \<Rightarrow> bool" where
  "arrives cap r \<longleftrightarrow> unat (q_actual (rl_req r)) \<le> unat (rl_bufLen r) \<and> (0 < cap \<longrightarrow> unat (q_actual (rl_req r)) \<le> cap)"

lemma skip_size [simp]: "fsize (DataFifoSkip f n) = fsize f"
  by (simp add: DataFifoSkip_def)

lemma take_buf: "n \<le> m \<Longrightarrow> take n (buf_bytes a m w) = buf_bytes a n w"
  by (simp add: buf_bytes_def take_map)

lemma rx_into_fifo_run:
  assumes "ring_ok f" "arrives (unat (fsize f)) r"
  obtains g where "rx_into_fifo w r f = Some g" "ring_ok g" "fsize g = fsize f"
    "fifo_contents g = (if w_inFifo w \<noteq> 0 then rx_contents (unat (fsize f)) (fifo_contents f) (received w r) else fifo_contents f)"
proof (cases "w_inFifo w \<noteq> 0 \<and> q_actual (rl_req r) \<noteq> 0")
  case False
  then have "rx_into_fifo w r f = Some f" by (auto simp: rx_into_fifo_def Let_def)
  moreover have "w_inFifo w = 0 \<or> received w r = []" using False by (auto simp: received_def buf_bytes_def)
  ultimately show ?thesis using that[of f] assms(1) by (auto simp: rx_contents_def)
next
  case True
  let ?n = "q_actual (rl_req r)" and ?c = "fifo_contents f" and ?cap = "unat (fsize f)"
  let ?f1 = "if DataFifoIsFull f then DataFifoSkip f ?n else f"
  let ?d = "buf_bytes (q_buf (rl_req r)) (unat (rl_bufLen r)) w"
  have full: "DataFifoIsFull f \<longleftrightarrow> 0 < ?cap \<and> length ?c = ?cap"
  proof (cases "fifo_inv f")
    case True
    then show ?thesis using DataFifoIsFull_contents[OF True] by (auto elim: fifo_invE)
  next
    case False
    then have "DataFifoLen f = 0" "fsize f = 0" using assms(1) by (auto simp: ring_ok_def DataFifoLen_def)
    then show ?thesis by (simp add: DataFifoIsFull_def)
  qed
  have f1: "ring_ok ?f1" "fsize ?f1 = fsize f" "fifo_contents ?f1 = (if DataFifoIsFull f then drop (unat ?n) ?c else ?c)"
  proof -
    have "fifo_inv f \<and> ?n \<le> DataFifoLen f" if "DataFifoIsFull f"
    proof -
      have "fifo_inv f" using that full assms(1) by (auto simp: ring_ok_def)
      then show ?thesis using that full assms(2) by (auto simp: arrives_def word_le_nat_alt)
    qed
    then show "ring_ok ?f1" "fsize ?f1 = fsize f" "fifo_contents ?f1 = (if DataFifoIsFull f then drop (unat ?n) ?c else ?c)"
      using fifo_skip[of f ?n] assms(1) by (auto simp: ring_ok_def)
  qed
  have "unat ?n \<le> length ?d" using assms(2) by (simp add: arrives_def buf_bytes_def)
  from ring_write[OF f1(1) this] obtain k g where g: "DataFifoWrite ?f1 ?d ?n = Some (k, g)" "ring_ok g" "fsize g = fsize ?f1" "unat k \<le> unat ?n"
    "unat k = min (unat ?n) (unat (fsize ?f1) - length (fifo_contents ?f1))" "fifo_contents g = fifo_contents ?f1 @ take (unat k) ?d" by blast
  have rk: "take (unat k) ?d = take (unat k) (received w r)" "length (received w r) = unat ?n"
    using g(4) assms(2) by (simp_all add: received_def take_buf arrives_def) (simp add: buf_bytes_def)
  have "rx_into_fifo w r f = Some g" using True g(1) by (simp add: rx_into_fifo_def Let_def)
  moreover have "fifo_contents g = rx_contents ?cap ?c (received w r)"
  proof (cases "DataFifoIsFull f")
    case True
    then have "fifo_inv f" using full assms(1) by (auto simp: ring_ok_def)
    then have "unat ?n \<le> ?cap" using assms(2) by (auto simp: arrives_def elim: fifo_invE)
    moreover have "length ?c = ?cap" "0 < ?cap" using True full by auto
    ultimately have "unat k = unat ?n" using g(5) True f1(2) unfolding f1(3) by (simp del: fifo_contents_length)
    then show ?thesis using g(6) True full rk f1(3) by (simp add: rx_contents_def del: fifo_contents_length)
  next
    case False
    then show ?thesis using g(5,6) full rk by (auto simp: rx_contents_def min_def simp del: fifo_contents_length)
  qed
  ultimately show ?thesis using that[of g] g(2,3) f1(2) True by simp
qed

fun rx_fold :: "'k acmw \<Rightarrow> nat \<Rightarrow> u8 list \<Rightarrow> ptr list \<Rightarrow> u8 list" where
  "rx_fold w cap c [] = c"
| "rx_fold w cap c (q # qs) = rx_fold w cap (if w_inFifo w \<noteq> 0 then rx_contents cap c (received w (the (get_req q w))) else c) qs"

lemma rx_fold_cong: "w_inFifo v = w_inFifo w \<Longrightarrow> w_buf v = w_buf w \<Longrightarrow> w_g v = w_g w \<Longrightarrow> rx_fold v cap c qs = rx_fold w cap c qs"
  by (induction qs arbitrary: c) (simp_all add: received_def buf_bytes_def)

definition gone :: "'k acmw \<Rightarrow> ptr \<Rightarrow> bool" where
  "gone w q \<longleftrightarrow> q_status (rl_req (the (get_req q w))) = STATUS_NO_DEVICE"

lemma rx_push_loop:
  assumes "w_ports w p = Some s" "sp_readQueue s = qs" "ring_ok (sp_readFifo s)"
    and "\<forall>q \<in> set qs. \<exists>r. get_req q w = Some r \<and> arrives (unat (fsize (sp_readFifo s))) r"
  shows "\<exists>f. loop_opt (rx_push_body p) (disc, w) = Some (disc \<or> (\<exists>q \<in> set qs. gone w q),
      put_port p (s\<lparr>sp_readFifo := f, sp_readQueue := [], sp_readPool := sp_readPool s @ qs, sp_readStarted := sp_readStarted s - int (length qs)\<rparr>) w) \<and>
    ring_ok f \<and> fsize f = fsize (sp_readFifo s) \<and> fifo_contents f = rx_fold w (unat (fsize (sp_readFifo s))) (fifo_contents (sp_readFifo s)) qs"
  using assms
proof (induction qs arbitrary: w s disc)
  case Nil
  have s: "s\<lparr>sp_readFifo := sp_readFifo s, sp_readQueue := [], sp_readPool := sp_readPool s @ [], sp_readStarted := sp_readStarted s - int (length [])\<rparr> = s"
    using Nil(2) by (cases s) simp
  have "loop_opt (rx_push_body p) (disc, w) = Some (disc, w)" using Nil by (subst loop_opt.simps) (simp add: rx_push_body_def)
  moreover have "put_port p s w = w" using Nil(1) by (simp add: fun_upd_idem)
  ultimately show ?case using Nil(3) by (intro exI[of _ "sp_readFifo s"]) (simp only: s, simp)
next
  case (Cons q qs)
  obtain r where r: "get_req q w = Some r" "arrives (unat (fsize (sp_readFifo s))) r" using Cons.prems(4) by auto
  from rx_into_fifo_run[OF Cons.prems(3) r(2), of w] obtain g where g: "rx_into_fifo w r (sp_readFifo s) = Some g" "ring_ok g" "fsize g = fsize (sp_readFifo s)"
    "fifo_contents g = (if w_inFifo w \<noteq> 0 then rx_contents (unat (fsize (sp_readFifo s))) (fifo_contents (sp_readFifo s)) (received w r) else fifo_contents (sp_readFifo s))" by blast
  let ?s = "s\<lparr>sp_readFifo := g, sp_readQueue := qs, sp_readPool := sp_readPool s @ [q], sp_readStarted := sp_readStarted s - 1\<rparr>"
  let ?w = "put_port p ?s w"
  have st: "rx_push_body p (disc, w) = Some (True, (disc \<or> gone w q, ?w))"
    using Cons.prems r(1) g(1) by (simp add: rx_push_body_def Let_def gone_def)
  have "\<exists>f. loop_opt (rx_push_body p) (disc \<or> gone w q, ?w) = Some ((disc \<or> gone w q) \<or> (\<exists>q \<in> set qs. gone ?w q),
      put_port p (?s\<lparr>sp_readFifo := f, sp_readQueue := [], sp_readPool := sp_readPool ?s @ qs, sp_readStarted := sp_readStarted ?s - int (length qs)\<rparr>) ?w) \<and>
    ring_ok f \<and> fsize f = fsize (sp_readFifo ?s) \<and> fifo_contents f = rx_fold ?w (unat (fsize (sp_readFifo ?s))) (fifo_contents (sp_readFifo ?s)) qs"
    using Cons.prems g by (intro Cons.IH) auto
  moreover have "rx_fold ?w c d qs = rx_fold w c d qs" for c d by (rule rx_fold_cong) simp_all
  moreover have "gone ?w = gone w" by (simp add: gone_def fun_eq_iff)
  moreover have "loop_opt (rx_push_body p) (disc, w) = loop_opt (rx_push_body p) (disc \<or> gone w q, ?w)" using st by (subst loop_opt.simps) simp
  ultimately obtain f where f: "loop_opt (rx_push_body p) (disc, w) = Some ((disc \<or> gone w q) \<or> (\<exists>q \<in> set qs. gone w q),
      put_port p (?s\<lparr>sp_readFifo := f, sp_readQueue := [], sp_readPool := sp_readPool ?s @ qs, sp_readStarted := sp_readStarted ?s - int (length qs)\<rparr>) ?w)"
    "ring_ok f" "fsize f = fsize g" "fifo_contents f = rx_fold w (unat (fsize g)) (fifo_contents g) qs" by auto
  have e: "put_port p (?s\<lparr>sp_readFifo := f, sp_readQueue := [], sp_readPool := sp_readPool ?s @ qs, sp_readStarted := sp_readStarted ?s - int (length qs)\<rparr>) ?w =
    put_port p (s\<lparr>sp_readFifo := f, sp_readQueue := [], sp_readPool := sp_readPool s @ q # qs, sp_readStarted := sp_readStarted s - int (length (q # qs))\<rparr>) w"
    by (simp add: diff_diff_eq)
  have d: "((disc \<or> gone w q) \<or> (\<exists>q \<in> set qs. gone w q)) = (disc \<or> (\<exists>q \<in> set (q # qs). gone w q))" by auto
  have "fifo_contents f = rx_fold w (unat (fsize (sp_readFifo s))) (fifo_contents (sp_readFifo s)) (q # qs)" using f(4) g(3,4) r(1) by simp
  then show ?case using f(1)[unfolded e d] f(2) f(3)[unfolded g(3)] by blast
qed

subsection \<open>A request for reading completes\<close>

text \<open>The part of the port that receiving leaves alone.\<close>

definition tx_part :: "UsbSerial \<Rightarrow> UsbSerial" where
  "tx_part s = s\<lparr>sp_readPool := [], sp_readStarted := 0, sp_readQueue := [], sp_readFifo := zero_fifo\<rparr>"

lemma tx_part_fields:
  assumes "tx_part t = tx_part s"
  shows "sp_acm t = sp_acm s" "sp_lock t = sp_lock s" "sp_writePool t = sp_writePool s" "sp_writeStarted t = sp_writeStarted s" "sp_writeFifo t = sp_writeFifo s"
    "sp_readAllocated t = sp_readAllocated s" "sp_writeAllocated t = sp_writeAllocated s" "sp_suspended t = sp_suspended s" "sp_writeBusy t = sp_writeBusy s"
  using assms by (cases s, cases t, simp add: tx_part_def)+

lemma rx_rest_part: "rx_rest t = rx_rest s \<Longrightarrow> tx_part t = tx_part s"
  by (cases s, cases t, simp add: tx_part_def rx_rest_def)

lemma RxPush_run:
  assumes "w_ports w p = Some s" "rx_port w p G s" "ring_ok (sp_readFifo s)"
    and "\<forall>q \<in> set (sp_readQueue s). \<exists>r. get_req q w = Some r \<and> arrives (unat (fsize (sp_readFifo s))) r"
  obtains v t pk where "UsbSerialRxPush K p w = Some v" "w_ports v = (w_ports w)(p \<mapsto> t)" "quiet w v" "w_buf v = w_buf w" "w_sent v = w_sent w @ pk"
    "rx_port v p (G \<union> taken pk) t" "tx_part t = tx_part s" "sp_readQueue t = []" "ring_ok (sp_readFifo t)" "fsize (sp_readFifo t) = fsize (sp_readFifo s)"
    "fifo_contents (sp_readFifo t) = rx_fold w (unat (fsize (sp_readFifo s))) (fifo_contents (sp_readFifo s)) (sp_readQueue s)"
    "\<forall>x \<in> set pk. fst x \<in> set (sp_readPool s @ sp_readQueue s)" "set (sp_readPool t) \<subseteq> set (sp_readPool s @ sp_readQueue s)"
proof -
  let ?qs = "sp_readQueue s"
  obtain f where f: "loop_opt (rx_push_body p) (False, w) = Some (\<exists>q \<in> set ?qs. gone w q,
      put_port p (s\<lparr>sp_readFifo := f, sp_readQueue := [], sp_readPool := sp_readPool s @ ?qs, sp_readStarted := sp_readStarted s - int (length ?qs)\<rparr>) w)"
    "ring_ok f" "fsize f = fsize (sp_readFifo s)" "fifo_contents f = rx_fold w (unat (fsize (sp_readFifo s))) (fifo_contents (sp_readFifo s)) ?qs"
    using rx_push_loop[OF assms(1) refl assms(3,4), of False] by auto
  let ?s = "s\<lparr>sp_readFifo := f, sp_readQueue := [], sp_readPool := sp_readPool s @ ?qs, sp_readStarted := sp_readStarted s - int (length ?qs)\<rparr>"
  let ?w = "put_port p ?s w"
  have r: "rx_port ?w p G ?s" using assms(2) by (intro rx_port_step[OF assms(2)]) (auto simp: rx_port_def)
  have part: "tx_part ?s = tx_part s" by (simp add: tx_part_def)
  show ?thesis
  proof (cases "(\<exists>q \<in> set ?qs. gone w q) \<or> sp_acm s = None")
    case True
    then have "UsbSerialRxPush K p w = Some ?w" using f(1) by (auto simp: UsbSerialRxPush_def)
    then show ?thesis using that[of ?w ?s "[]"] r part f by simp
  next
    case False
    then obtain a where a: "sp_acm ?s = Some a" by auto
    have "w_ports ?w p = Some ?s" by simp
    from StartRx_run[OF this r a, of K] obtain v t pk where v: "UsbSerialStartRx K p ?w = Some (sp_readStarted t, v)" "rx_sent p ?w ?s v t pk" "rx_port v p (G \<union> taken pk) t"
      by blast
    then have "UsbSerialRxPush K p w = Some v" using False f(1) by (auto simp: UsbSerialRxPush_def)
    moreover have "tx_part t = tx_part s" using v(2) part rx_rest_part[of t ?s] by (simp add: rx_sent_def)
    moreover have "sp_readQueue t = []" "sp_readFifo t = f" using v(2) rx_rest_fields(4,6)[of t ?s] by (simp_all add: rx_sent_def)
    ultimately show ?thesis using that[of v t pk] v(2,3) f(2,3,4) by (simp add: rx_sent_def)
  qed
qed

end
