(* ===== verification/Acm_Line.thy ===== *)
theory Acm_Line
  imports Acm_Receive
begin

text \<open>
  The serial line as a whole: calls of the client and completions of requests in any order.
\<close>

subsection \<open>The state of an open port\<close>

text \<open>Objects are in live blocks, and addresses of live blocks are below the next one: a block that a call allocates for itself is none of them.\<close>

definition heap_ok :: "'k acmw \<Rightarrow> ptr \<Rightarrow> UsbSerial \<Rightarrow> bool" where
  "heap_ok w p s \<longleftrightarrow> mem_ok (g_mem (w_g w)) \<and> p \<in> live (g_mem (w_g w)) \<and> (\<forall>a. sp_acm s = Some a \<longrightarrow> a \<in> live (g_mem (w_g w))) \<and>
     (\<forall>x. x \<notin> live (g_mem (w_g w)) \<longrightarrow> w_ports w x = None \<and> w_acms w x = None \<and> w_ctrls w x = None)"

text \<open>A ring has no block, or one of the size of the source.\<close>

definition ring_sized :: "DataFifo \<Rightarrow> bool" where
  "ring_sized f \<longleftrightarrow> fsize f \<in> {0, 8192}"

text \<open>\<open>F\<close> and \<open>G\<close> are the requests for writing and for reading that the kernel has.\<close>

definition line_ok :: "'k acmw \<Rightarrow> ptr \<Rightarrow> ptr set \<Rightarrow> ptr set \<Rightarrow> UsbSerial \<Rightarrow> bool" where
  "line_ok w p F G s \<longleftrightarrow> w_ports w p = Some s \<and> \<not> sp_lock s \<and> heap_ok w p s \<and> tx_port w p F s \<and> rx_port w p G s \<and> sp_readQueue s = [] \<and>
     ring_ok (sp_readFifo s) \<and> ring_sized (sp_writeFifo s) \<and> ring_sized (sp_readFifo s) \<and>
     (set (sp_writePool s) \<union> F) \<inter> (set (sp_readPool s) \<union> G) = {}"

definition tx_set :: "UsbSerial \<Rightarrow> ptr set \<Rightarrow> ptr set" where "tx_set s F = set (sp_writePool s) \<union> F"
definition rx_set :: "UsbSerial \<Rightarrow> ptr set \<Rightarrow> ptr set" where "rx_set s G = set (sp_readPool s) \<union> G"

lemma tx_port_lock [simp]: "tx_port w p F (s\<lparr>sp_lock := b\<rparr>) = tx_port w p F s"
  by (simp add: tx_port_def packet_def)

lemma rx_port_lock [simp]: "rx_port w p G (s\<lparr>sp_lock := b\<rparr>) = rx_port w p G s"
  by (simp add: rx_port_def)

lemma quiet_tx_port: "quiet w v \<Longrightarrow> tx_port w p F s \<Longrightarrow> tx_port v p F s"
  by (rule tx_port_step) (auto simp: tx_port_def)

lemma quiet_rx_port: "quiet w v \<Longrightarrow> rx_port w p G s \<Longrightarrow> rx_port v p G s"
  by (rule rx_port_step) (auto simp: rx_port_def)

lemma tx_port_part:
  assumes "tx_port w p F s" "tx_part t = tx_part s"
  shows "tx_port w p F t"
  using assms(1) unfolding tx_port_def packet_def tx_part_fields[OF assms(2)] by simp

lemma rx_port_rest:
  assumes "rx_port w p G s" "tx_rest t = tx_rest s"
  shows "rx_port w p G t"
  using assms(1) unfolding rx_port_def tx_rest_fields[OF assms(2)] by simp

lemma quiet_heap: "quiet w v \<Longrightarrow> sp_acm t = sp_acm s \<Longrightarrow> w_ports v = (w_ports w)(p \<mapsto> t) \<Longrightarrow> heap_ok w p s \<Longrightarrow> heap_ok v p t"
  by (auto simp: quiet_def heap_ok_def)

text \<open>The sets of requests do not change.\<close>

lemma tx_port_total:
  assumes "tx_port w p F s" "tx_port v p F' t" "sp_writeAllocated t = sp_writeAllocated s" "tx_set t F' \<subseteq> tx_set s F"
  shows "tx_set t F' = tx_set s F"
proof (rule card_subset_eq[OF _ assms(4)])
  have "card (tx_set s F) = card F + length (sp_writePool s)" "card (tx_set t F') = card F' + length (sp_writePool t)"
    using assms(1,2) by (simp_all add: tx_port_def tx_set_def card_Un_disjoint distinct_card)
  then show "card (tx_set t F') = card (tx_set s F)" using assms(1-3) by (simp add: tx_port_def)
qed (use assms(1) in \<open>simp add: tx_port_def tx_set_def\<close>)

lemma rx_port_total:
  assumes "rx_port w p G s" "rx_port v p G' t" "sp_readAllocated t = sp_readAllocated s" "sp_readQueue t = []" "sp_readQueue s = []" "rx_set t G' \<subseteq> rx_set s G"
  shows "rx_set t G' = rx_set s G"
proof (rule card_subset_eq[OF _ assms(6)])
  have "card (rx_set s G) = card G + length (sp_readPool s)" "card (rx_set t G') = card G' + length (sp_readPool t)"
    using assms by (simp_all add: rx_port_def rx_set_def card_Un_disjoint distinct_card)
  then show "card (rx_set t G') = card (rx_set s G)" using assms(1-5) by (simp add: rx_port_def)
qed (use assms(1) in \<open>simp add: rx_port_def rx_set_def\<close>)

subsection \<open>Completions\<close>

lemma count_read_quiet [simp]:
  "quiet w (count_read H r w)" "w_ports (count_read H r w) = w_ports w" "w_sent (count_read H r w) = w_sent w" "w_buf (count_read H r w) = w_buf w"
  "w_g (count_read H r w) = w_g w" "w_inFifo (count_read H r w) = w_inFifo w"
  by (simp_all add: count_read_def now_def quiet_def Let_def)

lemma ReadComplete_run:
  assumes "line_ok w p F G s" "q \<in> G" "get_req q w = Some r" "arrives (unat (fsize (sp_readFifo s))) r"
  obtains v t pk where "UsbSerialReadComplete H K q w = Some v" "line_ok v p F (G - {q} \<union> taken pk) t" "w_sent v = w_sent w @ pk" "tx_part t = tx_part s" "w_acms v = w_acms w"
    "fsize (sp_readFifo t) = fsize (sp_readFifo s)" "rx_set t (G - {q} \<union> taken pk) = rx_set s G" "\<forall>x \<in> set pk. fst x \<in> rx_set s G"
    "fifo_contents (sp_readFifo t) = (if w_inFifo w \<noteq> 0
       then rx_contents (unat (fsize (sp_readFifo s))) (fifo_contents (sp_readFifo s)) (received w r) else fifo_contents (sp_readFifo s))"
proof -
  have L: "w_ports w p = Some s" "\<not> sp_lock s" "heap_ok w p s" "tx_port w p F s" "rx_port w p G s" "sp_readQueue s = []" "ring_ok (sp_readFifo s)"
    using assms(1) by (simp_all add: line_ok_def)
  have ctx: "q_context (rl_req r) = Some p" using L(5) assms(2,3) unfolding rx_port_def req_ok_def by force
  let ?u0 = "count_read H (rl_req r) w"
  let ?s = "s\<lparr>sp_lock := True, sp_readQueue := [q]\<rparr>" and ?G = "G - {q}"
  let ?u = "put_port p ?s ?u0"
  have qu: "quiet w ?u" by simp
  have run: "UsbSerialReadComplete H K q w = Option.bind (UsbSerialRxPush K p ?u) (unlock_port p)"
    using assms(3) ctx L(1,2,6) by (simp add: UsbSerialReadComplete_def lock_port_def)
  have "card ?G + 1 = card G" using assms(2) L(5) card_Suc_Diff1[of G q] by (simp add: rx_port_def)
  then have rx: "rx_port ?u p ?G ?s"
    using L(5,6) assms(2) by (intro rx_port_step[OF L(5) qu]) (auto simp: rx_port_def)
  have ar: "\<forall>q \<in> set (sp_readQueue ?s). \<exists>r. get_req q ?u = Some r \<and> arrives (unat (fsize (sp_readFifo ?s))) r" using assms(3,4) by simp
  have us: "w_ports ?u p = Some ?s" "ring_ok (sp_readFifo ?s)" using L(7) by simp_all
  from RxPush_run[OF us(1) rx us(2) ar, of K] obtain v t pk where v: "UsbSerialRxPush K p ?u = Some v" "w_ports v = (w_ports ?u)(p \<mapsto> t)" "quiet ?u v" "w_sent v = w_sent ?u @ pk"
    "rx_port v p (?G \<union> taken pk) t" "tx_part t = tx_part ?s" "sp_readQueue t = []" "ring_ok (sp_readFifo t)" "fsize (sp_readFifo t) = fsize (sp_readFifo ?s)"
    "fifo_contents (sp_readFifo t) = rx_fold ?u (unat (fsize (sp_readFifo ?s))) (fifo_contents (sp_readFifo ?s)) (sp_readQueue ?s)"
    "\<forall>x \<in> set pk. fst x \<in> set (sp_readPool ?s @ sp_readQueue ?s)" "set (sp_readPool t) \<subseteq> set (sp_readPool ?s @ sp_readQueue ?s)" .
  let ?t = "t\<lparr>sp_lock := False\<rparr>"
  let ?v = "put_port p ?t v"
  have part: "tx_part t = tx_part (s\<lparr>sp_lock := True\<rparr>)" using v(6) by (simp add: tx_part_def)
  then have tp: "tx_part ?t = tx_part s" using L(2) by (cases s; cases t) (simp add: tx_part_def)
  have qv: "quiet w ?v" using quiet_trans[OF qu] v(3) by simp
  have sub: "rx_set ?t (?G \<union> taken pk) \<subseteq> rx_set s G"
    using v(11,12) assms(2) by (fastforce simp: rx_set_def taken_def)
  have rt: "rx_port ?v p (?G \<union> taken pk) ?t" using v(5) quiet_rx_port[of v ?v] by simp
  have set: "rx_set ?t (?G \<union> taken pk) = rx_set s G"
    using L(5,6) rt v(7) sub tx_part_fields(6)[OF tp] by (intro rx_port_total) auto
  show ?thesis
  proof (rule that[where v = ?v and t = ?t and pk = pk])
    show "UsbSerialReadComplete H K q w = Some ?v" using run v(1,2) by (simp add: unlock_port_def)
    have "tx_port ?v p F ?t" using tx_port_part[OF quiet_tx_port[OF qv L(4)] tp] .
    moreover have "(set (sp_writePool ?t) \<union> F) \<inter> (set (sp_readPool ?t) \<union> (?G \<union> taken pk)) = {}"
      using set assms(1) tx_part_fields(3)[OF tp] unfolding line_ok_def rx_set_def by simp
    ultimately show "line_ok ?v p F (?G \<union> taken pk) ?t"
      using assms(1) rt v(7,8,9) quiet_heap[OF qv tx_part_fields(1)[OF tp] _ L(3)] v(2) tx_part_fields(5)[OF tp] by (simp add: line_ok_def ring_sized_def)
    show "fifo_contents (sp_readFifo ?t) = (if w_inFifo w \<noteq> 0
       then rx_contents (unat (fsize (sp_readFifo s))) (fifo_contents (sp_readFifo s)) (received w r) else fifo_contents (sp_readFifo s))"
      using v(10) assms(3) by (simp add: received_def buf_bytes_def)
    show "w_acms ?v = w_acms w" using qv by (simp add: quiet_def)
  qed (use v set tp sub assms(2) in \<open>auto simp: rx_set_def\<close>)
qed

text \<open>Sending from a state under the lock, up to the release of the lock.\<close>

definition packets_ok :: "ptr set \<Rightarrow> nat \<Rightarrow> (ptr \<times> u8 list \<times> bool) list \<Rightarrow> bool" where
  "packets_ok W n pk \<longleftrightarrow> (\<forall>(q, bs, ok) \<in> set pk. q \<in> W \<and> bs \<noteq> [] \<and> length bs \<le> n)"

lemma tx_sent_packets: "tx_sent p w s v t pk \<Longrightarrow> packets_ok (set (sp_writePool s)) (packet w s) pk"
  by (simp add: tx_sent_def packets_ok_def)

lemma packets_okD: "packets_ok W n pk \<Longrightarrow> taken pk \<subseteq> W"
  by (auto simp: packets_ok_def taken_def)

lemma packets_ok_mono: "packets_ok W n pk \<Longrightarrow> W \<subseteq> V \<Longrightarrow> packets_ok V n pk"
  by (auto simp: packets_ok_def)

lemma sent_line:
  assumes "tx_port u p F m" "tx_sent p u m v t pk" "tx_port v p (F \<union> taken pk) t"
    and "rx_port u p G m" "heap_ok u p m" "sp_readQueue m = []" "ring_ok (sp_readFifo m)" "ring_sized (sp_writeFifo m)" "ring_sized (sp_readFifo m)"
    and "tx_set m F \<inter> rx_set m G = {}"
  shows "line_ok (put_port p (t\<lparr>sp_lock := False\<rparr>) v) p (F \<union> taken pk) G (t\<lparr>sp_lock := False\<rparr>)" "tx_set t (F \<union> taken pk) = tx_set m F"
proof -
  have r: "tx_rest t = tx_rest m" "quiet u v" "set (sp_writePool t) \<subseteq> set (sp_writePool m)" using assms(2) by (simp_all add: tx_sent_def)
  note f = tx_rest_fields[OF r(1)]
  have "tx_set t (F \<union> taken pk) \<subseteq> tx_set m F" using r(3) packets_okD[OF tx_sent_packets[OF assms(2)]] by (auto simp: tx_set_def)
  then show set: "tx_set t (F \<union> taken pk) = tx_set m F" using assms(1,3) f(8) by (intro tx_port_total)
  let ?t = "t\<lparr>sp_lock := False\<rparr>"
  let ?v = "put_port p ?t v"
  have qv: "quiet u ?v" using r(2) by simp
  have "rx_port ?v p G ?t" using rx_port_rest[OF quiet_rx_port[OF qv assms(4)] r(1)] by simp
  moreover have "tx_port ?v p (F \<union> taken pk) ?t" using quiet_tx_port[of v ?v] assms(3) by simp
  moreover have "heap_ok ?v p ?t" using quiet_heap[OF qv _ _ assms(5), of ?t] f(1) assms(2) by (simp add: tx_sent_def)
  ultimately show "line_ok ?v p (F \<union> taken pk) G ?t"
    using assms(2,6-10) set f by (simp add: line_ok_def tx_set_def rx_set_def tx_sent_def ring_sized_def)
qed

lemma maybe_tx:
  assumes "w_ports u p = Some m" "tx_port u p F m"
  obtains v t pk where "(if c then map_option snd (UsbSerialStartTx K (Some p) u) else Some u) = Some v" "tx_sent p u m v t pk" "tx_port v p (F \<union> taken pk) t"
    "c \<and> sp_acm m \<noteq> None \<longrightarrow> tx_idle (packet u m) t pk"
proof (cases c)
  case True
  from StartTx_run[OF assms, of K] obtain r v t pk where "UsbSerialStartTx K (Some p) u = Some (r, v)" "tx_sent p u m v t pk" "tx_port v p (F \<union> taken pk) t"
    "sp_acm m \<noteq> None \<longrightarrow> tx_idle (packet u m) t pk" .
  then show ?thesis using True that[of v t pk] by simp
next
  case False
  have "tx_sent p u m u m []" using assms(1) by (auto simp: tx_sent_def)
  then show ?thesis using assms(2) False that[of u m "[]"] by simp
qed

lemma WriteComplete_run:
  assumes "line_ok w p F G s" "q \<in> F" "get_req q w = Some r"
  obtains v t pk where "UsbSerialWriteComplete K q w = Some v" "line_ok v p (F - {q} \<union> taken pk) G t" "w_sent v = w_sent w @ pk"
    "payload pk @ fifo_contents (sp_writeFifo t) = fifo_contents (sp_writeFifo s)" "packets_ok (tx_set s F) (packet w s) pk"
    "tx_set t (F - {q} \<union> taken pk) = tx_set s F" "tx_rest t = tx_rest s" "fsize (sp_writeFifo t) = fsize (sp_writeFifo s)" "w_acms v = w_acms w"
    "q_status (rl_req r) = STATUS_COMPLETED \<and> sp_acm s \<noteq> None \<longrightarrow> tx_idle (packet w s) t pk"
proof -
  have L: "w_ports w p = Some s" "\<not> sp_lock s" "heap_ok w p s" "tx_port w p F s" "rx_port w p G s" "sp_readQueue s = []" "ring_ok (sp_readFifo s)"
    using assms(1) by (simp_all add: line_ok_def)
  have ctx: "q_context (rl_req r) = Some p" using L(4) assms(2,3) unfolding tx_port_def req_ok_def by force
  let ?s = "s\<lparr>sp_lock := True, sp_writePool := sp_writePool s @ [q], sp_writeStarted := sp_writeStarted s - 1\<rparr>" and ?F = "F - {q}"
  let ?u = "put_port p ?s w"
  have run: "UsbSerialWriteComplete K q w = do { w3 \<leftarrow> (if q_status (rl_req r) = STATUS_COMPLETED then map_option snd (UsbSerialStartTx K (Some p) ?u) else Some ?u); unlock_port p w3 }"
    using assms(3) ctx L(1,2) by (simp add: UsbSerialWriteComplete_def lock_port_def Let_def)
  have "card ?F + 1 = card F" using assms(2) L(4) card_Suc_Diff1[of F q] by (simp add: tx_port_def)
  then have tx: "tx_port ?u p ?F ?s" using L(4) assms(2) by (intro tx_port_step[OF L(4)]) (auto simp: tx_port_def)
  have rx: "rx_port ?u p G ?s" using L(5) by (auto simp: rx_port_def req_ok_def)
  have us: "w_ports ?u p = Some ?s" by simp
  have set: "tx_set ?s ?F = tx_set s F" using assms(2) by (auto simp: tx_set_def)
  from maybe_tx[OF us tx, of "q_status (rl_req r) = STATUS_COMPLETED" K] obtain v t pk where
    v: "(if q_status (rl_req r) = STATUS_COMPLETED then map_option snd (UsbSerialStartTx K (Some p) ?u) else Some ?u) = Some v"
     "tx_sent p ?u ?s v t pk" "tx_port v p (?F \<union> taken pk) t" "q_status (rl_req r) = STATUS_COMPLETED \<and> sp_acm ?s \<noteq> None \<longrightarrow> tx_idle (packet ?u ?s) t pk" .
  have "heap_ok ?u p ?s" using L(3) by (auto simp: heap_ok_def)
  moreover have "tx_set ?s ?F \<inter> rx_set ?s G = {}" using assms(1) unfolding set by (simp add: line_ok_def tx_set_def rx_set_def)
  ultimately have line: "line_ok (put_port p (t\<lparr>sp_lock := False\<rparr>) v) p (?F \<union> taken pk) G (t\<lparr>sp_lock := False\<rparr>)" "tx_set t (?F \<union> taken pk) = tx_set ?s ?F"
    using sent_line[OF tx v(2,3) rx] assms(1) by (simp_all add: line_ok_def)
  have t: "tx_rest t = tx_rest (s\<lparr>sp_lock := True\<rparr>)" using v(2) by (simp add: tx_sent_def tx_rest_def)
  have pk: "packets_ok (tx_set s F) (packet w s) pk"
    using packets_ok_mono[OF tx_sent_packets[OF v(2)], of "tx_set s F"] assms(2) by (auto simp: tx_set_def packet_def)
  show ?thesis
  proof (rule that[where v = "put_port p (t\<lparr>sp_lock := False\<rparr>) v" and t = "t\<lparr>sp_lock := False\<rparr>" and pk = pk])
    show "UsbSerialWriteComplete K q w = Some (put_port p (t\<lparr>sp_lock := False\<rparr>) v)" using run v(1,2) by (simp add: unlock_port_def tx_sent_def)
    show "tx_rest (t\<lparr>sp_lock := False\<rparr>) = tx_rest s" using t L(2) by (cases s; cases t) (simp add: tx_rest_def)
    show "q_status (rl_req r) = STATUS_COMPLETED \<and> sp_acm s \<noteq> None \<longrightarrow> tx_idle (packet w s) (t\<lparr>sp_lock := False\<rparr>) pk"
      using v(4) by (simp add: tx_idle_def packet_def)
    show "w_acms (put_port p (t\<lparr>sp_lock := False\<rparr>) v) = w_acms w" using v(2) by (simp add: tx_sent_def quiet_def)
  qed (use line set pk v(2) in \<open>simp_all add: tx_sent_def tx_set_def\<close>)
qed

subsection \<open>Calls\<close>

text \<open>A block that a call allocates and releases again.\<close>

lemma walloc_cases:
  assumes "mem_ok (g_mem (w_g w))"
  obtains m where "walloc K n w = (None, w\<lparr>w_g := (w_g w)\<lparr>g_mem := m\<rparr>\<rparr>)" "mem_ok m" "live m = live (g_mem (w_g w))" "\<not> fo_alloc K (nextAddr (g_mem (w_g w))) n"
  | b m where "walloc K n w = (Some b, w\<lparr>w_g := (w_g w)\<lparr>g_mem := m\<rparr>\<rparr>)" "mem_ok m" "live m = insert b (live (g_mem (w_g w)))" "b \<notin> live (g_mem (w_g w))"
proof (cases "fo_alloc K (nextAddr (g_mem (w_g w))) n")
  case True
  have "nextAddr (g_mem (w_g w)) \<notin> live (g_mem (w_g w))" using assms by (auto simp: mem_ok_def)
  then show ?thesis using True that(2)[of "nextAddr (g_mem (w_g w))"] assms
    by (auto simp: walloc_def OsalMemAlloc_def mem_ok_def less_Suc_eq)
next
  case False
  then show ?thesis using that(1) assms by (auto simp: walloc_def OsalMemAlloc_def mem_ok_def less_Suc_eq)
qed

lemma wfree_run:
  assumes "b \<in> live (g_mem (w_g v))" "w_acms v b = None" "w_ports v b = None" "w_ctrls v b = None"
  shows "wfree (Some b) v = Some (v\<lparr>w_g := (w_g v)\<lparr>g_mem := (g_mem (w_g v))\<lparr>live := live (g_mem (w_g v)) - {b}\<rparr>\<rparr>\<rparr>)"
proof -
  have "(w_acms v)(b := None) = w_acms v" "(w_ports v)(b := None) = w_ports v" "(w_ctrls v)(b := None) = w_ctrls v" using assms by (simp_all add: fun_upd_idem)
  then show ?thesis using assms(1) by (simp add: wfree_def OsalMemFree_def)
qed

abbreviation set_mem :: "usbmem \<Rightarrow> 'k acmw \<Rightarrow> 'k acmw" where
  "set_mem m w \<equiv> w\<lparr>w_g := (w_g w)\<lparr>g_mem := m\<rparr>\<rparr>"

lemma mem_ports [simp]: "tx_port (set_mem m w) p F s = tx_port w p F s" "rx_port (set_mem m w) p G s = rx_port w p G s" "packet (set_mem m w) s = packet w s"
  by (simp_all add: tx_port_def rx_port_def packet_def req_ok_def)

abbreviation drop_block :: "ptr \<Rightarrow> 'k acmw \<Rightarrow> 'k acmw" where
  "drop_block b v \<equiv> set_mem ((g_mem (w_g v))\<lparr>live := live (g_mem (w_g v)) - {b}\<rparr>) v"

lemma line_ok_drop:
  assumes "line_ok v p F G t" "w_acms v b = None" "w_ports v b = None" "w_ctrls v b = None"
  shows "line_ok (drop_block b v) p F G t"
proof -
  have "p \<noteq> b" "\<forall>a. sp_acm t = Some a \<longrightarrow> a \<noteq> b" using assms by (auto simp: line_ok_def tx_port_def)
  then show ?thesis using assms by (auto simp: line_ok_def heap_ok_def mem_ok_def)
qed

lemma unat_small:
  fixes n :: u32
  assumes "unat n \<le> 8192"
  shows "sint n = int (unat n)"
proof -
  have "int (unat n) \<le> 8192" using assms by linarith
  then have "uint n \<le> 8192" by (simp only: uint_nat)
  moreover have "- (2 ^ 31) \<le> uint n" by (rule order_trans[OF _ uint_ge_0]) simp
  ultimately have "signed_take_bit 31 (uint n) = uint n" by (intro signed_take_bit_int_eq_self) simp_all
  then show ?thesis unfolding sint_uint uint_nat by simp
qed

lemma Write_run:
  assumes "line_ok w p F G s" "he_readString H data = (Some tmp, data1)" "fo_alloc K (nextAddr (g_mem (w_g w))) (length (bytes_of (cstr tmp)) + 1)"
  obtains n v t pk where "UsbSerialWrite H K p data w = Some (RetVal (int n), data1, v)" "line_ok v p (F \<union> taken pk) G t" "w_sent v = w_sent w @ pk"
    "payload pk @ fifo_contents (sp_writeFifo t) = fifo_contents (sp_writeFifo s) @ take n (bytes_of (cstr tmp))" "packets_ok (tx_set s F) (packet w s) pk"
    "tx_set t (F \<union> taken pk) = tx_set s F" "tx_rest t = tx_rest s" "fsize (sp_writeFifo t) = fsize (sp_writeFifo s)"
    "n = min (unat (of_nat (length (bytes_of (cstr tmp))) :: u32)) (unat (fsize (sp_writeFifo s)) - length (fifo_contents (sp_writeFifo s)))"
    "live (g_mem (w_g v)) = live (g_mem (w_g w))" "w_acms v = w_acms w" "sp_acm s \<noteq> None \<longrightarrow> tx_idle (packet w s) t pk"
proof -
  let ?str = "bytes_of (cstr tmp)"
  have L: "w_ports w p = Some s" "\<not> sp_lock s" "heap_ok w p s" "tx_port w p F s" "rx_port w p G s" "sp_readQueue s = []" "ring_ok (sp_readFifo s)"
    using assms(1) by (simp_all add: line_ok_def)
  let ?w1 = "put_port p (s\<lparr>sp_lock := True\<rparr>) w"
  have "mem_ok (g_mem (w_g ?w1))" using L(3) by (simp add: heap_ok_def)
  then obtain b m where a: "walloc K (length ?str + 1) ?w1 = (Some b, set_mem m ?w1)" "mem_ok m" "live m = insert b (live (g_mem (w_g w)))" "b \<notin> live (g_mem (w_g w))"
    using assms(3) by (elim walloc_cases[where K = K and n = "length ?str + 1"]) auto
  have "ring_ok (sp_writeFifo s)" using L(4) by (simp add: tx_port_def)
  moreover have "unat (of_nat (length ?str) :: u32) \<le> length ?str" by (simp add: unat_of_nat)
  ultimately obtain k f where f: "DataFifoWrite (sp_writeFifo s) ?str (of_nat (length ?str)) = Some (k, f)" "ring_ok f" "fsize f = fsize (sp_writeFifo s)"
    "unat k = min (unat (of_nat (length ?str) :: u32)) (unat (fsize (sp_writeFifo s)) - length (fifo_contents (sp_writeFifo s)))"
    "fifo_contents f = fifo_contents (sp_writeFifo s) @ take (unat k) ?str" by (rule ring_write)
  let ?m = "s\<lparr>sp_lock := True, sp_writeFifo := f\<rparr>"
  let ?u = "w\<lparr>w_g := (w_g w)\<lparr>g_mem := m\<rparr>, w_ports := (w_ports w)(p \<mapsto> ?m)\<rparr>"
  have us: "w_ports ?u p = Some ?m" by simp
  have tx: "tx_port ?u p F ?m" using L(4) f(2) by (simp add: tx_port_def req_ok_def packet_def)
  have rx: "rx_port ?u p G ?m" using L(5) by (simp add: rx_port_def req_ok_def)
  from maybe_tx[OF us tx, of "sp_acm s \<noteq> None" K] obtain v t pk where
    v: "(if sp_acm s \<noteq> None then map_option snd (UsbSerialStartTx K (Some p) ?u) else Some ?u) = Some v" "tx_sent p ?u ?m v t pk" "tx_port v p (F \<union> taken pk) t"
    "sp_acm s \<noteq> None \<and> sp_acm ?m \<noteq> None \<longrightarrow> tx_idle (packet ?u ?m) t pk" .
  have "heap_ok ?u p ?m" using L(3) a by (auto simp: heap_ok_def)
  moreover have "tx_set ?m F \<inter> rx_set ?m G = {}" using assms(1) by (simp add: line_ok_def tx_set_def rx_set_def)
  ultimately have line: "line_ok (put_port p (t\<lparr>sp_lock := False\<rparr>) v) p (F \<union> taken pk) G (t\<lparr>sp_lock := False\<rparr>)" "tx_set t (F \<union> taken pk) = tx_set ?m F"
    using sent_line[OF tx v(2,3) rx] assms(1) f(3) by (simp_all add: line_ok_def ring_sized_def)
  let ?t = "t\<lparr>sp_lock := False\<rparr>"
  let ?v = "put_port p ?t v"
  have q: "w_acms v = w_acms w" "w_ctrls v = w_ctrls w" "w_ports v = (w_ports w)(p \<mapsto> t)" "g_mem (w_g v) = m" using v(2) by (auto simp: tx_sent_def quiet_def)
  have "p \<noteq> b" "w_acms w b = None" "w_ports w b = None" "w_ctrls w b = None" using L(3) a(4) by (auto simp: heap_ok_def)
  then have fr: "wfree (Some b) ?v = Some (drop_block b ?v)" "line_ok (drop_block b ?v) p (F \<union> taken pk) G ?t"
    using line_ok_drop[OF line(1), of b] wfree_run[of b ?v] q a(3) by simp_all
  have "tx_rest t = tx_rest (s\<lparr>sp_lock := True\<rparr>)" using v(2) by (simp add: tx_sent_def tx_rest_def)
  then have t: "tx_rest ?t = tx_rest s" using L(2) by (cases s; cases t) (simp add: tx_rest_def)
  have "unat k \<le> 8192" using f(4) assms(1) by (auto simp: line_ok_def ring_sized_def)
  then have k: "sint k = int (unat k)" by (rule unat_small)
  have "UsbSerialWrite H K p data w = do { w4 \<leftarrow> (if sp_acm s \<noteq> None then map_option snd (UsbSerialStartTx K (Some p) ?u) else Some ?u);
      w5 \<leftarrow> unlock_port p w4; w6 \<leftarrow> wfree (Some b) w5; Some (RetVal (sint k), data1, w6) }"
    using assms(2) L(1,2) a(1) f(1) by (simp add: UsbSerialWrite_def lock_port_def Let_def)
  then have "UsbSerialWrite H K p data w = Some (RetVal (int (unat k)), data1, drop_block b ?v)"
    unfolding v(1) k using q(3) fr(1) by (simp add: unlock_port_def)
  moreover have "packets_ok (tx_set s F) (packet w s) pk"
    using packets_ok_mono[OF tx_sent_packets[OF v(2)], of "tx_set s F"] by (auto simp: tx_set_def packet_def)
  moreover have "sp_acm s \<noteq> None \<longrightarrow> tx_idle (packet w s) ?t pk" using v(4) by (simp add: tx_idle_def packet_def)
  ultimately show ?thesis
    using that[where n = "unat k" and v = "drop_block b ?v" and t = ?t and pk = pk] fr(2) q(1,4) v(2) f(3,4,5) line(2) t a(3,4)
    by (simp add: tx_sent_def tx_set_def)
qed

text \<open>What a call of \<open>UsbSerialRead\<close> takes out of the ring: the bytes before the first zero, and that zero.\<close>

definition line_text :: "u8 list \<Rightarrow> u8 list" where
  "line_text c = takeWhile (\<lambda>b. b \<noteq> 0) c"

definition consumed :: "u8 list \<Rightarrow> nat" where
  "consumed c = (if length (line_text c) < length c then length (line_text c) + 1 else length c)"

lemma consumed_Cons [simp]: "consumed (b # c) = (if b = 0 then 1 else Suc (consumed c))"
  by (simp add: consumed_def line_text_def)

lemma read_loop_run:
  assumes "ring_ok f" "n = length (fifo_contents f)"
  shows "\<exists>g. serial_read_loop n i f = Some (if 0 < n \<and> i = 0 \<and> line_text (fifo_contents f) = [] then ReadZero else ReadDone, take (consumed (fifo_contents f)) (fifo_contents f), g) \<and>
    ring_ok g \<and> fsize g = fsize f \<and> fifo_contents g = drop (consumed (fifo_contents f)) (fifo_contents f)"
  using assms
proof (induction n arbitrary: i f)
  case 0
  then show ?case by (simp del: fifo_contents_length)
next
  case (Suc n)
  from ring_read[OF Suc.prems(1), of 1] obtain m g where g: "DataFifoRead f 1 = Some (m, take (unat m) (fifo_contents f), g)" "ring_ok g" "fsize g = fsize f"
    "unat m = min (unat (1 :: u32)) (length (fifo_contents f))" "fifo_contents g = drop (unat m) (fifo_contents f)" .
  obtain b c where c: "fifo_contents f = b # c" "length c = n" using Suc.prems(2) by (cases "fifo_contents f") (auto simp del: fifo_contents_length)
  have m: "unat m = 1" "m \<noteq> 0" using g(4) unfolding c(1) by auto
  show ?case
  proof (cases "b = 0")
    case True
    then show ?thesis using g m c by (simp add: line_text_def)
  next
    case False
    have gc: "fifo_contents g = c" using g(5) m c by simp
    have "n = length (fifo_contents g)" unfolding gc using c(2) by simp
    from Suc.IH[OF g(2) this, of "Suc i"] obtain h where h: "serial_read_loop n (Suc i) g = Some (ReadDone, take (consumed c) c, h)" "ring_ok h" "fsize h = fsize g"
      "fifo_contents h = drop (consumed c) c" unfolding gc by auto
    then show ?thesis using False g m c by (simp add: line_text_def)
  qed
qed

lemma chars_consumed: "chars_of (take (consumed c) c) = map (\<lambda>b. char_of (unat b)) (line_text c)"
  by (induction c) (simp_all add: chars_of_def line_text_def)

lemma maybe_rx:
  assumes "w_ports u p = Some m" "rx_port u p G m"
  obtains v t pk where "(if sp_acm m \<noteq> None then map_option snd (UsbSerialStartRx K p u) else Some u) = Some v" "rx_sent p u m v t pk" "rx_port v p (G \<union> taken pk) t"
proof (cases "sp_acm m")
  case (Some a)
  from StartRx_run[OF assms Some, of K] obtain v t pk where "UsbSerialStartRx K p u = Some (sp_readStarted t, v)" "rx_sent p u m v t pk" "rx_port v p (G \<union> taken pk) t" .
  then show ?thesis using Some that[of v t pk] by simp
next
  case None
  then show ?thesis using rx_sent_refl[OF assms(1)] assms(2) that[of u m "[]"] by simp
qed

lemma rx_sent_line:
  assumes "rx_port u p G m" "rx_sent p u m v t pk" "rx_port v p (G \<union> taken pk) t"
    and "tx_port u p F m" "heap_ok u p m" "sp_readQueue m = []" "ring_ok (sp_readFifo m)" "ring_sized (sp_writeFifo m)" "ring_sized (sp_readFifo m)"
    and "tx_set m F \<inter> rx_set m G = {}"
  shows "line_ok (put_port p (t\<lparr>sp_lock := False\<rparr>) v) p F (G \<union> taken pk) (t\<lparr>sp_lock := False\<rparr>)" "rx_set t (G \<union> taken pk) = rx_set m G"
proof -
  have r: "rx_rest t = rx_rest m" "quiet u v" "set (sp_readPool t) \<subseteq> set (sp_readPool m)" "taken pk \<subseteq> set (sp_readPool m)"
    using assms(2) by (auto simp: rx_sent_def taken_def)
  note f = rx_rest_fields[OF r(1)]
  have "rx_set t (G \<union> taken pk) \<subseteq> rx_set m G" using r(3,4) by (auto simp: rx_set_def)
  then show set: "rx_set t (G \<union> taken pk) = rx_set m G" using assms(1,3,6) f(4,7) by (intro rx_port_total) simp_all
  let ?t = "t\<lparr>sp_lock := False\<rparr>"
  let ?v = "put_port p ?t v"
  have qv: "quiet u ?v" using r(2) by simp
  have "tx_port ?v p F t" using tx_port_part[OF quiet_tx_port[OF qv assms(4)] rx_rest_part[OF r(1)]] .
  moreover have "rx_port ?v p (G \<union> taken pk) ?t" using quiet_rx_port[of v ?v] assms(3) by simp
  moreover have "heap_ok ?v p ?t" using quiet_heap[OF qv _ _ assms(5), of ?t] f(1) assms(2) by (simp add: rx_sent_def)
  ultimately show "line_ok ?v p F (G \<union> taken pk) ?t"
    using assms(2,6-10) set f by (simp add: line_ok_def tx_set_def rx_set_def rx_sent_def)
qed

definition read_reply :: "'b hdf_env \<Rightarrow> u8 list \<Rightarrow> 'b \<Rightarrow> ret \<times> 'b" where
  "read_reply H c reply = (if line_text c = [] then (HDF_SUCCESS, reply)
     else case he_writeString H (map (\<lambda>b. char_of (unat b)) (line_text c)) reply of (ok, b) \<Rightarrow> (if ok then HDF_SUCCESS else RetErr HDF_ERR_IO, b))"

lemma Read_empty:
  assumes "line_ok w p F G s" "fifo_contents (sp_readFifo s) = []"
  shows "UsbSerialRead H K p reply w = Some (HDF_SUCCESS, reply, w)"
proof -
  have L: "w_ports w p = Some s" "\<not> sp_lock s" using assms(1) by (simp_all add: line_ok_def)
  have e: "DataFifoIsEmpty (sp_readFifo s)" using assms(2) by (simp add: DataFifoIsEmpty_contents)
  have "s\<lparr>sp_lock := False\<rparr> = s" using L(2) by (cases s) simp
  then show ?thesis using e L by (simp add: UsbSerialRead_def lock_port_def unlock_port_def fun_upd_idem)
qed

lemma Read_nonempty:
  assumes "line_ok w p F G s" "fo_alloc K (nextAddr (g_mem (w_g w))) (unat (DataFifoLen (sp_readFifo s) + 1))" "fifo_contents (sp_readFifo s) = c" "c \<noteq> []"
  obtains ret reply' v t pk where "UsbSerialRead H K p reply w = Some (ret, reply', v)" "(ret, reply') = read_reply H c reply"
    "line_ok v p F (G \<union> taken pk) t" "w_sent v = w_sent w @ pk" "fifo_contents (sp_readFifo t) = drop (consumed c) c" "fsize (sp_readFifo t) = fsize (sp_readFifo s)"
    "tx_part t = tx_part s" "rx_set t (G \<union> taken pk) = rx_set s G" "\<forall>x \<in> set pk. fst x \<in> rx_set s G" "live (g_mem (w_g v)) = live (g_mem (w_g w))"
    "w_acms v = w_acms w"
proof -
  have L: "w_ports w p = Some s" "\<not> sp_lock s" "heap_ok w p s" "tx_port w p F s" "rx_port w p G s" "sp_readQueue s = []" "ring_ok (sp_readFifo s)"
    using assms(1) by (simp_all add: line_ok_def)
  have e: "\<not> DataFifoIsEmpty (sp_readFifo s)" using assms(3,4) by (simp add: DataFifoIsEmpty_contents)
  let ?n = "DataFifoLen (sp_readFifo s)"
  let ?w1 = "put_port p (s\<lparr>sp_lock := True\<rparr>) w"
  have "mem_ok (g_mem (w_g ?w1))" using L(3) by (simp add: heap_ok_def)
  then obtain b m where a: "walloc K (unat (?n + 1)) ?w1 = (Some b, set_mem m ?w1)" "mem_ok m" "live m = insert b (live (g_mem (w_g w)))" "b \<notin> live (g_mem (w_g w))"
    using assms(2) by (elim walloc_cases[where K = K and n = "unat (?n + 1)"]) auto
  have "unat ?n = length (fifo_contents (sp_readFifo s))" by simp
  from read_loop_run[OF L(7) this, of 0] obtain f where f: "serial_read_loop (unat ?n) 0 (sp_readFifo s) =
      Some (if 0 < unat ?n \<and> 0 = (0 :: nat) \<and> line_text c = [] then ReadZero else ReadDone, take (consumed c) c, f)"
    "ring_ok f" "fsize f = fsize (sp_readFifo s)" "fifo_contents f = drop (consumed c) c" unfolding assms(3) by blast
  have "length c = unat ?n" using assms(3) by auto
  then have n0: "0 < unat ?n" using assms(4) by (cases c) auto
  let ?m = "s\<lparr>sp_lock := True, sp_readFifo := f\<rparr>"
  let ?u = "w\<lparr>w_g := (w_g w)\<lparr>g_mem := m\<rparr>, w_ports := (w_ports w)(p \<mapsto> ?m)\<rparr>"
  have us: "w_ports ?u p = Some ?m" by simp
  have tx: "tx_port ?u p F ?m" using L(4) by (simp add: tx_port_def req_ok_def packet_def)
  have rx: "rx_port ?u p G ?m" using L(5) by (simp add: rx_port_def req_ok_def)
  from maybe_rx[OF us rx, of K] obtain v t pk where
    v: "(if sp_acm ?m \<noteq> None then map_option snd (UsbSerialStartRx K p ?u) else Some ?u) = Some v" "rx_sent p ?u ?m v t pk" "rx_port v p (G \<union> taken pk) t" .
  have "heap_ok ?u p ?m" using L(3) a by (auto simp: heap_ok_def)
  moreover have "tx_set ?m F \<inter> rx_set ?m G = {}" using assms(1) by (simp add: line_ok_def tx_set_def rx_set_def)
  ultimately have line: "line_ok (put_port p (t\<lparr>sp_lock := False\<rparr>) v) p F (G \<union> taken pk) (t\<lparr>sp_lock := False\<rparr>)" "rx_set t (G \<union> taken pk) = rx_set ?m G"
    using rx_sent_line[OF rx v(2,3) tx] assms(1) f(2,3) by (simp_all add: line_ok_def ring_sized_def)
  let ?t = "t\<lparr>sp_lock := False\<rparr>"
  let ?v = "put_port p ?t v"
  have q: "w_acms v = w_acms w" "w_ctrls v = w_ctrls w" "w_ports v = (w_ports w)(p \<mapsto> t)" "g_mem (w_g v) = m" using v(2) by (auto simp: rx_sent_def quiet_def)
  have "p \<noteq> b" "w_acms w b = None" "w_ports w b = None" "w_ctrls w b = None" using L(3) a(4) by (auto simp: heap_ok_def)
  then have fr: "wfree (Some b) v = Some (drop_block b v)" "line_ok (drop_block b ?v) p F (G \<union> taken pk) ?t"
    using line_ok_drop[OF line(1), of b] wfree_run[of b v] q a(3) by simp_all
  obtain ret reply' where rr: "read_reply H c reply = (ret, reply')" by fastforce
  have "UsbSerialRead H K p reply w = do { w4 \<leftarrow> (if sp_acm ?m \<noteq> None then map_option snd (UsbSerialStartRx K p ?u) else Some ?u);
      w5 \<leftarrow> wfree (Some b) w4; w6 \<leftarrow> unlock_port p w5; Some (ret, reply', w6) }"
    using L(1,2) e a(1) f(1) n0 rr
    by (cases "line_text c = []"; cases "sp_acm s") (auto simp: UsbSerialRead_def lock_port_def Let_def chars_consumed read_reply_def split: prod.splits)
  then have run: "UsbSerialRead H K p reply w = Some (ret, reply', put_port p ?t (drop_block b v))"
    unfolding v(1) using q(3) fr(1) by (simp add: unlock_port_def)
  have "put_port p ?t (drop_block b v) = drop_block b ?v" by simp
  have "tx_part ?t = tx_part s"
  proof -
    have "tx_part t = tx_part (s\<lparr>sp_lock := True\<rparr>)" using v(2) rx_rest_part[of t ?m] by (simp add: rx_sent_def tx_part_def)
    then show ?thesis using L(2) by (cases s; cases t) (simp add: tx_part_def)
  qed
  moreover have "sp_readFifo t = f" using v(2) rx_rest_fields(6)[of t ?m] by (simp add: rx_sent_def)
  ultimately show ?thesis
    using that[where ret = ret and reply' = reply' and v = "drop_block b ?v" and t = ?t and pk = pk] run rr fr(2) v(2) f(3,4) line(2) a(3,4) q(1,4)
    by (simp add: rx_sent_def rx_set_def)
qed

lemma line_ok_mem:
  assumes "line_ok w p F G s" "mem_ok m" "live m = live (g_mem (w_g w))"
  shows "line_ok (set_mem m w) p F G s"
  using assms by (simp add: line_ok_def heap_ok_def)

lemma Read_no_memory:
  assumes "line_ok w p F G s" "\<not> fo_alloc K (nextAddr (g_mem (w_g w))) (unat (DataFifoLen (sp_readFifo s) + 1))" "fifo_contents (sp_readFifo s) \<noteq> []"
  obtains v where "UsbSerialRead H K p reply w = Some (RetErr HDF_ERR_MALLOC_FAIL, reply, v)" "line_ok v p F G s" "w_sent v = w_sent w" "w_acms v = w_acms w"
proof -
  have L: "w_ports w p = Some s" "\<not> sp_lock s" "heap_ok w p s" using assms(1) by (simp_all add: line_ok_def)
  have e: "\<not> DataFifoIsEmpty (sp_readFifo s)" using assms(3) by (simp add: DataFifoIsEmpty_contents)
  let ?n = "unat (DataFifoLen (sp_readFifo s) + 1)"
  let ?w1 = "put_port p (s\<lparr>sp_lock := True\<rparr>) w"
  have "mem_ok (g_mem (w_g ?w1))" using L(3) by (simp add: heap_ok_def)
  then obtain m where a: "walloc K ?n ?w1 = (None, set_mem m ?w1)" "mem_ok m" "live m = live (g_mem (w_g w))"
    using assms(2) by (elim walloc_cases[where K = K and n = ?n]) (auto simp: walloc_def OsalMemAlloc_def)
  have s: "s\<lparr>sp_lock := False\<rparr> = s" using L(2) by (cases s) simp
  have "put_port p s (set_mem m w) = set_mem m w" using L(1) by (simp add: fun_upd_idem)
  then have "UsbSerialRead H K p reply w = Some (RetErr HDF_ERR_MALLOC_FAIL, reply, set_mem m w)"
    using e L a(1) s by (simp add: UsbSerialRead_def lock_port_def unlock_port_def Let_def fun_upd_idem)
  then show ?thesis using that[of "set_mem m w"] line_ok_mem[OF assms(1) a(2,3)] by simp
qed

text \<open>A call of \<open>UsbSerialRead\<close> in any of these cases.\<close>

lemma Read_run:
  assumes "line_ok w p F G s"
  obtains ret reply' v t pk where "UsbSerialRead H K p reply w = Some (ret, reply', v)" "line_ok v p F (G \<union> taken pk) t" "w_sent v = w_sent w @ pk"
    "tx_part t = tx_part s" "rx_set t (G \<union> taken pk) = rx_set s G" "\<forall>x \<in> set pk. fst x \<in> rx_set s G" "w_acms v = w_acms w"
proof (cases "fifo_contents (sp_readFifo s) = []")
  case True
  from Read_empty[OF assms this, of H K reply] show ?thesis using that[of HDF_SUCCESS reply w "[]" s] assms by simp
next
  case False
  note c = False
  show ?thesis
  proof (cases "fo_alloc K (nextAddr (g_mem (w_g w))) (unat (DataFifoLen (sp_readFifo s) + 1))")
    case True
    show ?thesis using Read_nonempty[OF assms True refl c, of H reply thesis] that by blast
  next
    case False
    from Read_no_memory[OF assms False c, of H reply] obtain v where
      "UsbSerialRead H K p reply w = Some (RetErr HDF_ERR_MALLOC_FAIL, reply, v)" "line_ok v p F G s" "w_sent v = w_sent w" "w_acms v = w_acms w" .
    then show ?thesis using that[of "RetErr HDF_ERR_MALLOC_FAIL" reply v "[]" s] by simp
  qed
qed

end
