(* ===== verification/Acm_Run.thy ===== *)
theory Acm_Run
  imports Acm_Line
begin

text \<open>
  Runs of the serial line: the client writes and reads, the kernel completes requests with any result, in any order.  The theorems
  state what the client and the host see.
\<close>

subsection \<open>Steps\<close>

text \<open>The kernel completes a request for writing, or fills the buffer of a request for reading; the polling thread then calls the callback.\<close>

definition tx_done :: "ptr \<Rightarrow> int \<Rightarrow> u32 \<Rightarrow> 'k acmw \<Rightarrow> 'k acmw option" where
  "tx_done q st n w = upd_req q (\<lambda>r. r\<lparr>q_status := st, q_actual := n\<rparr>) w"

definition rx_done :: "ptr \<Rightarrow> int \<Rightarrow> u8 list \<Rightarrow> 'k acmw \<Rightarrow> 'k acmw option" where
  "rx_done q st bs w =
     do { r \<leftarrow> get_req q w;
          if length bs \<le> unat (rl_bufLen r) \<and> length bs \<le> unat MAX_BUFLEN
          then upd_req q (\<lambda>r. r\<lparr>q_status := st, q_actual := of_nat (length bs)\<rparr>) (store_bytes (q_buf (rl_req r)) bs w) else None }"

text \<open>What was handed to the kernel between two states.\<close>

definition news :: "'k acmw \<Rightarrow> 'k acmw \<Rightarrow> (ptr \<times> u8 list \<times> bool) list" where
  "news w v = drop (length (w_sent w)) (w_sent v)"

inductive line_reach :: "'b hdf_env \<Rightarrow> 'k fn_os \<Rightarrow> ptr \<Rightarrow> 'k acmw \<Rightarrow> ptr set \<Rightarrow> ptr set \<Rightarrow> 'k acmw \<Rightarrow> ptr set \<Rightarrow> ptr set \<Rightarrow> u8 list \<Rightarrow> bool"
  for H K p w0 F0 G0 where
  start: "line_reach H K p w0 F0 G0 w0 F0 G0 []"
| wrote: "line_reach H K p w0 F0 G0 w F G acc \<Longrightarrow> he_readString H data = (Some tmp, data1) \<Longrightarrow> UsbSerialWrite H K p data w = Some (RetVal n, data2, v) \<Longrightarrow>
    line_reach H K p w0 F0 G0 v (F \<union> taken (news w v)) G (acc @ take (nat n) (bytes_of (cstr tmp)))"
| write_done: "line_reach H K p w0 F0 G0 w F G acc \<Longrightarrow> q \<in> F \<Longrightarrow> tx_done q st n w = Some u \<Longrightarrow> UsbSerialWriteComplete K q u = Some v \<Longrightarrow>
    line_reach H K p w0 F0 G0 v (F - {q} \<union> taken (news w v)) G acc"
| reads: "line_reach H K p w0 F0 G0 w F G acc \<Longrightarrow> UsbSerialRead H K p reply w = Some (ret, reply', v) \<Longrightarrow>
    line_reach H K p w0 F0 G0 v F (G \<union> taken (news w v)) acc"
| read_done: "line_reach H K p w0 F0 G0 w F G acc \<Longrightarrow> q \<in> G \<Longrightarrow> rx_done q st bs w = Some u \<Longrightarrow> UsbSerialReadComplete H K q u = Some v \<Longrightarrow>
    line_reach H K p w0 F0 G0 v F (G - {q} \<union> taken (news w v)) acc"

lemma news_append [simp]: "w_sent v = w_sent w @ pk \<Longrightarrow> news w v = pk"
  by (simp add: news_def)

text \<open>A change of a request that leaves its buffer and its owner alone keeps the state of the port.\<close>

lemma line_ok_upd:
  assumes "line_ok w p F G s" "get_req q w = Some r" "rl_bufLen r' = rl_bufLen r" "q_context (rl_req r') = q_context (rl_req r)"
  shows "line_ok (w\<lparr>w_g := put_freq q r' (w_g w)\<rparr>) p F G s"
proof -
  let ?w = "w\<lparr>w_g := put_freq q r' (w_g w)\<rparr>"
  have "req_ok ?w p n x = req_ok w p n x" for n x using assms(2-4) by (simp add: req_ok_def)
  moreover have "packet ?w s = packet w s" by (simp add: packet_def)
  moreover have "heap_ok ?w p s = heap_ok w p s" by (simp add: heap_ok_def)
  ultimately have "heap_ok ?w p s = heap_ok w p s" "tx_port ?w p F s = tx_port w p F s" "rx_port ?w p G s = rx_port w p G s"
    by (simp_all add: tx_port_def rx_port_def)
  then show ?thesis using assms(1) by (simp add: line_ok_def)
qed

lemma line_ok_store: "line_ok (store_bytes a bs w) p F G s = line_ok w p F G s"
proof -
  let ?w = "store_bytes a bs w"
  have "heap_ok ?w p s = heap_ok w p s" "tx_port ?w p F s = tx_port w p F s" "rx_port ?w p G s = rx_port w p G s"
    by (simp_all add: heap_ok_def tx_port_def rx_port_def req_ok_def packet_def store_bytes_def)
  then show ?thesis by (simp add: line_ok_def)
qed

lemma tx_done_run:
  assumes "line_ok w p F G s" "tx_done q st n w = Some u"
  shows "line_ok u p F G s" "w_sent u = w_sent w" "w_acms u = w_acms w" "\<exists>r. get_req q u = Some r \<and> q_status (rl_req r) = st"
proof -
  obtain r where r: "get_req q w = Some r" "u = w\<lparr>w_g := put_freq q (r\<lparr>rl_req := (rl_req r)\<lparr>q_status := st, q_actual := n\<rparr>\<rparr>) (w_g w)\<rparr>"
    using assms(2) by (auto simp: tx_done_def upd_req_def split: bind_splits)
  then show "line_ok u p F G s" using line_ok_upd[OF assms(1) r(1)] by simp
qed (use assms(2) in \<open>auto simp: tx_done_def upd_req_def packet_def split: bind_splits\<close>)

lemma rx_done_run:
  assumes "line_ok w p F G s" "rx_done q st bs w = Some u"
  obtains r where "line_ok u p F G s" "w_sent u = w_sent w" "packet u s = packet w s" "get_req q u = Some r" "q_status (rl_req r) = st"
    "received u r = bs" "arrives (unat (fsize (sp_readFifo s))) r" "w_inFifo u = w_inFifo w" "w_acms u = w_acms w"
proof -
  obtain r0 where r0: "get_req q w = Some r0" "length bs \<le> unat (rl_bufLen r0)" "length bs \<le> 2048"
    and u: "upd_req q (\<lambda>r. r\<lparr>q_status := st, q_actual := of_nat (length bs)\<rparr>) (store_bytes (q_buf (rl_req r0)) bs w) = Some u"
    using assms(2) by (auto simp: rx_done_def MAX_BUFLEN_def split: bind_splits if_splits)
  let ?r = "r0\<lparr>rl_req := (rl_req r0)\<lparr>q_status := st, q_actual := of_nat (length bs)\<rparr>\<rparr>"
  let ?w = "store_bytes (q_buf (rl_req r0)) bs w"
  have u': "u = ?w\<lparr>w_g := put_freq q ?r (w_g ?w)\<rparr>" using u r0(1) by (simp add: upd_req_def)
  have n: "unat (of_nat (length bs) :: u32) = length bs" using r0(3) by (simp add: unat_of_nat)
  have "line_ok u p F G s" unfolding u' using assms(1) r0(1) by (intro line_ok_upd[of _ _ _ _ _ _ r0]) (simp_all add: line_ok_store)
  moreover have "received u ?r = bs" using n buf_store[of "q_buf (rl_req r0)" bs w] by (simp add: received_def u' buf_bytes_def)
  moreover have "arrives (unat (fsize (sp_readFifo s))) ?r" using n r0(2,3) assms(1) by (auto simp: arrives_def line_ok_def ring_sized_def)
  ultimately show ?thesis using that[of ?r] by (simp add: u' packet_def store_bytes_def)
qed

subsection \<open>What a run keeps\<close>

text \<open>The packets that go to the host.\<close>

definition to_host :: "ptr set \<Rightarrow> (ptr \<times> u8 list \<times> bool) list \<Rightarrow> (ptr \<times> u8 list \<times> bool) list" where
  "to_host W pk = filter (\<lambda>x. fst x \<in> W) pk"

lemma to_host_append [simp]: "to_host W (xs @ ys) = to_host W xs @ to_host W ys"
  by (simp add: to_host_def)

lemma to_host_all: "packets_ok W n pk \<Longrightarrow> to_host W pk = pk"
  by (auto simp: to_host_def packets_ok_def filter_id_conv)

lemma to_host_none: "\<forall>x \<in> set pk. fst x \<in> V \<Longrightarrow> W \<inter> V = {} \<Longrightarrow> to_host W pk = []"
  by (auto simp: to_host_def filter_empty_conv)

lemma packets_ok_append [simp]: "packets_ok W n (xs @ ys) \<longleftrightarrow> packets_ok W n xs \<and> packets_ok W n ys"
  by (simp add: packets_ok_def ball_Un)

lemma packets_ok_Nil [simp]: "packets_ok W n []"
  by (simp add: packets_ok_def)

definition line_run :: "'k acmw \<Rightarrow> ptr \<Rightarrow> ptr set \<Rightarrow> ptr set \<Rightarrow> UsbSerial \<Rightarrow> 'k acmw \<Rightarrow> ptr set \<Rightarrow> ptr set \<Rightarrow> UsbSerial \<Rightarrow> u8 list \<Rightarrow> bool" where
  "line_run w0 p F0 G0 s0 w F G s acc \<longleftrightarrow> line_ok w p F G s \<and> tx_set s F = tx_set s0 F0 \<and> rx_set s G = rx_set s0 G0 \<and> packet w s = packet w0 s0 \<and>
     (\<exists>pk. w_sent w = w_sent w0 @ pk \<and> packets_ok (tx_set s0 F0) (packet w0 s0) (to_host (tx_set s0 F0) pk) \<and>
        fifo_contents (sp_writeFifo s0) @ acc = payload (to_host (tx_set s0 F0) pk) @ fifo_contents (sp_writeFifo s))"

lemma line_run_step:
  assumes "line_run w0 p F0 G0 s0 w F G s acc" "line_ok v p F' G' t" "w_sent v = w_sent w @ pk" "tx_set t F' = tx_set s F" "rx_set t G' = rx_set s G"
    and "sp_acm t = sp_acm s" "w_acms v = w_acms w" "packets_ok (tx_set s F) (packet w s) (to_host (tx_set s F) pk)"
    and "payload (to_host (tx_set s F) pk) @ fifo_contents (sp_writeFifo t) = fifo_contents (sp_writeFifo s) @ d"
  shows "line_run w0 p F0 G0 s0 v F' G' t (acc @ d)"
proof -
  obtain pk0 where r: "w_sent w = w_sent w0 @ pk0" "packets_ok (tx_set s0 F0) (packet w0 s0) (to_host (tx_set s0 F0) pk0)"
    "fifo_contents (sp_writeFifo s0) @ acc = payload (to_host (tx_set s0 F0) pk0) @ fifo_contents (sp_writeFifo s)"
    "tx_set s F = tx_set s0 F0" "packet w s = packet w0 s0" "rx_set s G = rx_set s0 G0" using assms(1) by (auto simp: line_run_def)
  have "packet v t = packet w s" using assms(6,7) by (simp add: packet_def)
  moreover have "fifo_contents (sp_writeFifo s0) @ acc @ d = payload (to_host (tx_set s0 F0) (pk0 @ pk)) @ fifo_contents (sp_writeFifo t)"
    using r(3,4) assms(9) by (metis append.assoc payload_simps(2) to_host_append)
  ultimately show ?thesis using r assms by (auto simp: line_run_def intro!: exI[of _ "pk0 @ pk"])
qed

text \<open>A call that returned a count had memory.\<close>

lemma Write_alloc:
  assumes "line_ok w p F G s" "he_readString H data = (Some tmp, data1)" "UsbSerialWrite H K p data w = Some (RetVal n, data2, v)"
  shows "fo_alloc K (nextAddr (g_mem (w_g w))) (length (bytes_of (cstr tmp)) + 1)"
proof (rule ccontr)
  assume "\<not> fo_alloc K (nextAddr (g_mem (w_g w))) (length (bytes_of (cstr tmp)) + 1)"
  then show False using assms
    by (auto simp: UsbSerialWrite_def lock_port_def line_ok_def walloc_def OsalMemAlloc_def Let_def split: bind_splits if_splits)
qed

lemma Write_read:
  assumes "line_ok w p F G s" "UsbSerialWrite H K p data w = Some (RetVal n, data2, v)"
  shows "\<exists>tmp data1. he_readString H data = (Some tmp, data1)"
  using assms by (cases "he_readString H data"; cases "fst (he_readString H data)") (auto simp: UsbSerialWrite_def lock_port_def line_ok_def)

lemma Write_returns:
  assumes "line_ok w p F G s"
  shows "\<exists>x. UsbSerialWrite H K p data w = Some x"
proof (cases "he_readString H data")
  case (Pair x data1)
  have L: "w_ports w p = Some s" "\<not> sp_lock s" using assms by (simp_all add: line_ok_def)
  show ?thesis
  proof (cases x)
    case None
    then show ?thesis using Pair L by (simp add: UsbSerialWrite_def lock_port_def)
  next
    case (Some tmp)
    show ?thesis
    proof (cases "fo_alloc K (nextAddr (g_mem (w_g w))) (length (bytes_of (cstr tmp)) + 1)")
      case True
      with Write_run[OF assms Pair[unfolded Some]] show ?thesis by metis
    next
      case False
      then show ?thesis using Pair Some L by (simp add: UsbSerialWrite_def lock_port_def walloc_def OsalMemAlloc_def Let_def)
    qed
  qed
qed

lemma line_disjoint: "line_ok w p F G s \<Longrightarrow> tx_set s F \<inter> rx_set s G = {}"
  by (simp add: line_ok_def tx_set_def rx_set_def)

text \<open>The four kinds of step.\<close>

lemma run_wrote:
  assumes s: "line_run w0 p F0 G0 s0 w F G s acc" and hyps: "he_readString H data = (Some tmp, data1)" "UsbSerialWrite H K p data w = Some (RetVal n, data2, v)"
  shows "\<exists>t. line_run w0 p F0 G0 s0 v (F \<union> taken (news w v)) G t (acc @ take (nat n) (bytes_of (cstr tmp)))"
proof -
  have ok: "line_ok w p F G s" using s by (simp add: line_run_def)
  have al: "fo_alloc K (nextAddr (g_mem (w_g w))) (length (bytes_of (cstr tmp)) + 1)" by (rule Write_alloc[OF ok hyps])
  from Write_run[OF ok hyps(1) al] obtain n' v' t pk where r: "UsbSerialWrite H K p data w = Some (RetVal (int n'), data1, v')"
    "line_ok v' p (F \<union> taken pk) G t" "w_sent v' = w_sent w @ pk"
    "payload pk @ fifo_contents (sp_writeFifo t) = fifo_contents (sp_writeFifo s) @ take n' (bytes_of (cstr tmp))" "packets_ok (tx_set s F) (packet w s) pk"
    "tx_set t (F \<union> taken pk) = tx_set s F" "tx_rest t = tx_rest s" "w_acms v' = w_acms w" .
  have e: "v' = v" "n = int n'" using r(1) hyps(2) by simp_all
  have "line_run w0 p F0 G0 s0 v (F \<union> taken pk) G t (acc @ take n' (bytes_of (cstr tmp)))"
    using r tx_rest_fields(1,3)[OF r(7)] to_host_all[OF r(5)] unfolding e
    by (intro line_run_step[OF s r(2)[unfolded e], where pk = pk]) (simp_all add: rx_set_def)
  then show ?thesis using r(3) unfolding e by auto
qed

lemma run_write_done:
  assumes s: "line_run w0 p F0 G0 s0 w F G s acc" and hyps: "q \<in> F" "tx_done q st n w = Some u" "UsbSerialWriteComplete K q u = Some v"
  shows "\<exists>t. line_run w0 p F0 G0 s0 v (F - {q} \<union> taken (news w v)) G t acc"
proof -
  have ok: "line_ok w p F G s" using s by (simp add: line_run_def)
  note d = tx_done_run[OF ok hyps(2)]
  obtain rq where rq: "get_req q u = Some rq" using d(4) by blast
  from WriteComplete_run[OF d(1) hyps(1) rq, of K] obtain v' t pk where r: "UsbSerialWriteComplete K q u = Some v'"
    "line_ok v' p (F - {q} \<union> taken pk) G t" "w_sent v' = w_sent u @ pk"
    "payload pk @ fifo_contents (sp_writeFifo t) = fifo_contents (sp_writeFifo s)" "packets_ok (tx_set s F) (packet u s) pk"
    "tx_set t (F - {q} \<union> taken pk) = tx_set s F" "tx_rest t = tx_rest s" "w_acms v' = w_acms u" .
  have e: "v' = v" using r(1) hyps(3) by simp
  have "packet u s = packet w s" using d(3) by (simp add: packet_def)
  then have "line_run w0 p F0 G0 s0 v (F - {q} \<union> taken pk) G t (acc @ [])"
    using r d tx_rest_fields(1,3)[OF r(7)] to_host_all[OF r(5)] unfolding e
    by (intro line_run_step[OF s r(2)[unfolded e], where pk = pk]) (simp_all add: rx_set_def)
  then show ?thesis using r(3) d(2) unfolding e by auto
qed

lemma run_reads:
  assumes s: "line_run w0 p F0 G0 s0 w F G s acc" and hyps: "UsbSerialRead H K p reply w = Some (ret, reply', v)"
  shows "\<exists>t. line_run w0 p F0 G0 s0 v F (G \<union> taken (news w v)) t acc"
proof -
  have ok: "line_ok w p F G s" using s by (simp add: line_run_def)
  from Read_run[OF ok, of H K reply] obtain ret1 reply1 v' t pk where r: "UsbSerialRead H K p reply w = Some (ret1, reply1, v')" "line_ok v' p F (G \<union> taken pk) t"
    "w_sent v' = w_sent w @ pk" "tx_part t = tx_part s" "rx_set t (G \<union> taken pk) = rx_set s G" "\<forall>x \<in> set pk. fst x \<in> rx_set s G" "w_acms v' = w_acms w" .
  have e: "v' = v" using r(1) hyps by simp
  have "line_run w0 p F0 G0 s0 v F (G \<union> taken pk) t (acc @ [])"
    using r tx_part_fields(1,3,5)[OF r(4)] to_host_none[OF r(6) line_disjoint[OF ok]] unfolding e
    by (intro line_run_step[OF s r(2)[unfolded e], where pk = pk]) (simp_all add: tx_set_def)
  then show ?thesis using r(3) unfolding e by auto
qed

lemma run_read_done:
  assumes s: "line_run w0 p F0 G0 s0 w F G s acc" and hyps: "q \<in> G" "rx_done q st bs w = Some u" "UsbSerialReadComplete H K q u = Some v"
  shows "\<exists>t. line_run w0 p F0 G0 s0 v F (G - {q} \<union> taken (news w v)) t acc"
proof -
  have ok: "line_ok w p F G s" using s by (simp add: line_run_def)
  from rx_done_run[OF ok hyps(2)] obtain rq where d: "line_ok u p F G s" "w_sent u = w_sent w" "get_req q u = Some rq"
    "arrives (unat (fsize (sp_readFifo s))) rq" "w_acms u = w_acms w" .
  from ReadComplete_run[OF d(1) hyps(1) d(3,4), of H K] obtain v' t pk where r: "UsbSerialReadComplete H K q u = Some v'"
    "line_ok v' p F (G - {q} \<union> taken pk) t" "w_sent v' = w_sent u @ pk" "tx_part t = tx_part s" "w_acms v' = w_acms u"
    "rx_set t (G - {q} \<union> taken pk) = rx_set s G" "\<forall>x \<in> set pk. fst x \<in> rx_set s G" .
  have e: "v' = v" using r(1) hyps(3) by simp
  have "line_run w0 p F0 G0 s0 v F (G - {q} \<union> taken pk) t (acc @ [])"
    using r d tx_part_fields(1,3,5)[OF r(4)] to_host_none[OF r(7) line_disjoint[OF ok]] unfolding e
    by (intro line_run_step[OF s r(2)[unfolded e], where pk = pk]) (simp_all add: tx_set_def)
  then show ?thesis using r(3) d(2) unfolding e by auto
qed

lemma line_reach_run:
  assumes "line_reach H K p w0 F0 G0 w F G acc" "line_ok w0 p F0 G0 s0"
  shows "\<exists>s. line_run w0 p F0 G0 s0 w F G s acc"
  using assms(1)
proof induction
  case start
  then show ?case using assms(2) by (auto simp: line_run_def to_host_def intro!: exI[of _ s0])
next
  case wrote
  then show ?case by (elim exE) (rule run_wrote[OF _ wrote.hyps(2,3)])
next
  case write_done
  then show ?case by (elim exE) (rule run_write_done[OF _ write_done.hyps(2,3,4)])
next
  case reads
  then show ?case by (elim exE) (rule run_reads[OF _ reads.hyps(2)])
next
  case read_done
  then show ?case by (elim exE) (rule run_read_done[OF _ read_done.hyps(2,3,4)])
qed

end
