(* ===== verification/Acm_Properties.thy ===== *)
theory Acm_Properties
  imports Acm_Run
begin

text \<open>
  What the serial line promises to its client and to the host.
\<close>

subsection \<open>An example\<close>

text \<open>
  A port at 1 with a device at 2, the request 3 for writing in its pool and the request 4 for reading with the kernel; the ring for
  reading holds the text ``hi'', a zero and ``x''.  The kernel accepts every packet.
\<close>

definition ex_env :: "string list hdf_env" where
  "ex_env = \<lparr>he_readString = (\<lambda>b. case b of [] \<Rightarrow> (None, []) | x # xs \<Rightarrow> (Some x, xs)), he_readBuffer = (\<lambda>b. (None, b)),
     he_writeString = (\<lambda>t b. (True, b @ [t])), he_writeBuffer = (\<lambda>t b. (True, b)), he_writeFloat = (\<lambda>x b. (True, b)),
     he_writeUint32 = (\<lambda>x b. (True, b)), he_mutexInit = (\<lambda>p. HDF_SUCCESS), he_setDesc = HDF_SUCCESS, he_checkDesc = (\<lambda>b. (True, b)),
     he_iface = True, he_udcName = None, he_default_udc = [], he_time = (\<lambda>n. (0, int n)), he_speed = (\<lambda>n a b. 0), he_scale = (\<lambda>x. x)\<rparr>"

definition ex_acm_os :: "unit fn_os" where
  "ex_acm_os = null_fn_os\<lparr>fo_endpoint_io := (\<lambda>r f d k. (0, k))\<rparr>"

definition ex_ring :: "u8 list \<Rightarrow> DataFifo" where
  "ex_ring bs = \<lparr>rdIdx = 0, wrIdx = of_nat (length bs), fsize = 8192, fdata = bs @ replicate 8192 0\<rparr>"

definition ex_request :: "ptr \<Rightarrow> ptr \<Rightarrow> ReqList" where
  "ex_request buf ctx = \<lparr>rl_req = \<lparr>q_obj = None, q_buf = buf, q_length = 0, q_type = REQUEST_TYPE_PIPE_WRITE, q_status = 0, q_actual = 0,
       q_complete = None, q_context = Some ctx\<rparr>, rl_entry = InHandle 9, rl_pipe = 1, rl_fd = 5, rl_buf = buf, rl_bufLen = 64, rl_handle = 9\<rparr>"

definition ex_port :: UsbSerial where
  "ex_port = zero_serial\<lparr>sp_acm := Some 2, sp_readStarted := 1, sp_readAllocated := 1, sp_readFifo := ex_ring [104, 105, 0, 120],
     sp_writePool := [3], sp_writeAllocated := 1, sp_writeFifo := ex_ring []\<rparr>"

definition ex_acm :: UsbAcmDevice where
  "ex_acm = zero_acm\<lparr>ac_dataInPipe := \<lparr>ap_id = 1, ap_maxPacketSize = 64\<rparr>, ac_dataOutPipe := \<lparr>ap_id = 2, ap_maxPacketSize = 64\<rparr>, ac_port := Some 1\<rparr>"

definition ex_world :: "unit acmw" where
  "ex_world = \<lparr>w_g = (null_gadget ())\<lparr>g_mem := \<lparr>nextAddr = 100, live = {1, 2}, g_usbRamTestFlag = False, g_usbRamTestHead = None\<rparr>,
       g_freqs := [3 \<mapsto> ex_request 30 1, 4 \<mapsto> ex_request 40 1]\<rparr>, w_buf = (\<lambda>a i. 0), w_acms = [2 \<mapsto> ex_acm], w_ports = [1 \<mapsto> ex_port], w_ctrls = Map.empty,
     w_service = Some 2, w_sent = [], w_clock = 0, w_inFifo = 1, w_isStartRead = False, w_isReadDone = False, w_readCnt = 0, w_readTimeStart = (0, 0),
     w_readTimeEnd = (0, 0), w_readSpeed = 0, w_isGetReadTimeStart = False, w_req = replicate 8 None, w_isWriteDone = False, w_writeCnt = 0,
     w_timeStart = (0, 0), w_timeEnd = (0, 0), w_speed = 0, w_isGetWriteTimeStart = False\<rparr>"

lemma ex_ring_ok: "ring_ok (ex_ring [])" "ring_ok (ex_ring [104, 105, 0, 120])"
  by (auto simp: ring_ok_def fifo_inv_def ex_ring_def DataFifoLen_def intro!: exI[of _ 13])

lemma ex_ring_contents [simp]: "fifo_contents (ex_ring []) = []" "fifo_contents (ex_ring [104, 105, 0, 120]) = [104, 105, 0, 120]"
  by (simp_all add: fifo_contents_def ex_ring_def DataFifoLen_def fifo_slot_def upt_conv_Cons)

lemma ex_line: "line_ok ex_world 1 {} {4} ex_port"
  using ex_ring_ok
  by (simp add: line_ok_def heap_ok_def tx_port_def rx_port_def req_ok_def mem_ok_def ring_sized_def ex_world_def ex_port_def ex_request_def zero_serial_def
    acm_consts packet_def ex_acm_def zero_acm_def null_gadget_def ex_ring_def)

subsection \<open>Sending\<close>

text \<open>
  C30. Bytes leave the serial line in the order in which they were written, none lost, none twice, none made up.  From any state of an open port, whatever
  calls of \<open>UsbSerialWrite\<close> and \<open>UsbSerialRead\<close> and completions of requests happen in whatever order, and whatever the kernel answers: what was in the
  ring at first and what the calls said they took is what was handed to the kernel in packets for the host, followed by what is still in the ring.
  Every packet has at least one byte and at most the packet size of the pipe, and the port stays in order: its requests are in the pools
  or with the kernel, the counters are right, and the lock is free.
\<close>

theorem UsbSerial_stream:
  assumes "line_reach H K p w0 F0 G0 w F G acc" "line_ok w0 p F0 G0 s0"
  shows "\<exists>s. line_ok w p F G s \<and> tx_set s F = tx_set s0 F0 \<and> rx_set s G = rx_set s0 G0 \<and>
    fifo_contents (sp_writeFifo s0) @ acc = payload (to_host (tx_set s0 F0) (news w0 w)) @ fifo_contents (sp_writeFifo s) \<and>
    packets_ok (tx_set s0 F0) (packet w0 s0) (to_host (tx_set s0 F0) (news w0 w))"
  using line_reach_run[OF assms] by (auto simp: line_run_def)

theorem UsbSerial_stream_witness:
  "\<exists>n v s. UsbSerialWrite ex_env ex_acm_os 1 [''hello''] ex_world = Some (RetVal n, [], v) \<and> line_ok v 1 (taken (news ex_world v)) {4} s \<and>
     take (nat n) (bytes_of ''hello'') = payload (to_host {3} (news ex_world v)) @ fifo_contents (sp_writeFifo s)"
proof -
  have rd: "he_readString ex_env [''hello''] = (Some ''hello'', [])" by (simp add: ex_env_def)
  have al: "fo_alloc ex_acm_os (nextAddr (g_mem (w_g ex_world))) (length (bytes_of (cstr ''hello'')) + 1)" by (simp add: ex_acm_os_def null_fn_os_def)
  obtain n v where wr: "UsbSerialWrite ex_env ex_acm_os 1 [''hello''] ex_world = Some (RetVal (int n), [], v)" using Write_run[OF ex_line rd al] by metis
  have re: "line_reach ex_env ex_acm_os 1 ex_world {} {4} v ({} \<union> taken (news ex_world v)) {4} ([] @ take (nat (int n)) (bytes_of (cstr ''hello'')))"
    by (rule line_reach.wrote[OF line_reach.start rd wr])
  have "tx_set ex_port {} = {3}" "cstr ''hello'' = ''hello''" by (simp_all add: tx_set_def ex_port_def cstr_def)
  then show ?thesis using UsbSerial_stream[OF re ex_line] wr by (auto simp: ex_port_def)
qed



text \<open>Bytes are not stuck: none wait in the ring, or a request is under way.\<close>

definition flows :: "ptr \<Rightarrow> ptr set \<Rightarrow> 'k acmw \<Rightarrow> bool" where
  "flows p F v \<longleftrightarrow> (\<exists>t. w_ports v p = Some t \<and> (fifo_contents (sp_writeFifo t) = [] \<or> F \<noteq> {}))"

definition accepted :: "(ptr \<times> u8 list \<times> bool) list \<Rightarrow> bool" where
  "accepted pk \<longleftrightarrow> (\<forall>x \<in> set pk. snd (snd x))"

lemma idle_flows:
  assumes "tx_idle n t pk" "line_ok v p F G t" "0 < n" "accepted pk" "tx_set t F \<noteq> {}"
  shows "flows p F v"
proof -
  have "F \<noteq> {}" if "sp_writeStarted t = QUEUE_SIZE" using that assms(2) by (auto simp: line_ok_def tx_port_def QUEUE_SIZE_def)
  moreover have "F \<noteq> {}" if "sp_writePool t = []" using that assms(5) by (simp add: tx_set_def)
  ultimately show ?thesis using assms(1-4) by (auto simp: flows_def tx_idle_def accepted_def line_ok_def)
qed

text \<open>
  C32. Sending never stalls.  On a connected port with at least one request for writing and a packet size above zero, after a call of
  \<open>UsbSerialWrite\<close> that took bytes, or after a packet was sent, the ring is empty or a request is with the kernel, so that its completion goes on with the rest; this
  holds whenever the kernel accepted the packets that were handed over.
\<close>

theorem UsbSerial_not_stuck:
  assumes "line_ok w p F G s" "sp_acm s \<noteq> None" "0 < packet w s" "tx_set s F \<noteq> {}"
  shows "(\<forall>q r v. q \<in> F \<and> get_req q w = Some r \<and> q_status (rl_req r) = STATUS_COMPLETED \<and> UsbSerialWriteComplete K q w = Some v \<and> accepted (news w v) \<longrightarrow>
      flows p (F - {q} \<union> taken (news w v)) v) \<and>
    (\<forall>data n data' v. UsbSerialWrite H K p data w = Some (RetVal n, data', v) \<and> accepted (news w v) \<longrightarrow> flows p (F \<union> taken (news w v)) v)"
proof (intro conjI allI impI)
  fix q r v
  assume a: "q \<in> F \<and> get_req q w = Some r \<and> q_status (rl_req r) = STATUS_COMPLETED \<and> UsbSerialWriteComplete K q w = Some v \<and> accepted (news w v)"
  then have q: "q \<in> F" "get_req q w = Some r" by simp_all
  from WriteComplete_run[OF assms(1) q, of K] obtain v' t pk where r: "UsbSerialWriteComplete K q w = Some v'" "line_ok v' p (F - {q} \<union> taken pk) G t"
    "w_sent v' = w_sent w @ pk" "tx_set t (F - {q} \<union> taken pk) = tx_set s F"
    "q_status (rl_req r) = STATUS_COMPLETED \<and> sp_acm s \<noteq> None \<longrightarrow> tx_idle (packet w s) t pk" .
  then show "flows p (F - {q} \<union> taken (news w v)) v" using a assms idle_flows[of "packet w s" t pk v p "F - {q} \<union> taken pk" G] by simp
next
  fix data n data' v
  assume a: "UsbSerialWrite H K p data w = Some (RetVal n, data', v) \<and> accepted (news w v)"
  then obtain tmp data1 where rd: "he_readString H data = (Some tmp, data1)" using assms(1) Write_read[of w p F G s H K data n data' v] by blast
  have al: "fo_alloc K (nextAddr (g_mem (w_g w))) (length (bytes_of (cstr tmp)) + 1)" using Write_alloc[OF assms(1) rd] a by blast
  from Write_run[OF assms(1) rd al] obtain n' v' t pk where r: "UsbSerialWrite H K p data w = Some (RetVal (int n'), data1, v')"
    "line_ok v' p (F \<union> taken pk) G t" "w_sent v' = w_sent w @ pk" "tx_set t (F \<union> taken pk) = tx_set s F" "sp_acm s \<noteq> None \<longrightarrow> tx_idle (packet w s) t pk" .
  then show "flows p (F \<union> taken (news w v)) v" using a assms idle_flows[of "packet w s" t pk v p "F \<union> taken pk" G] by simp
qed

theorem UsbSerial_not_stuck_witness:
  "\<exists>n v. UsbSerialWrite ex_env ex_acm_os 1 [''hello''] ex_world = Some (RetVal n, [], v) \<and> (accepted (news ex_world v) \<longrightarrow> flows 1 (taken (news ex_world v)) v)"
proof -
  have rd: "he_readString ex_env [''hello''] = (Some ''hello'', [])" by (simp add: ex_env_def)
  have al: "fo_alloc ex_acm_os (nextAddr (g_mem (w_g ex_world))) (length (bytes_of (cstr ''hello'')) + 1)" by (simp add: ex_acm_os_def null_fn_os_def)
  obtain n v where wr: "UsbSerialWrite ex_env ex_acm_os 1 [''hello''] ex_world = Some (RetVal (int n), [], v)" using Write_run[OF ex_line rd al] by metis
  have "sp_acm ex_port \<noteq> None" "0 < packet ex_world ex_port" "tx_set ex_port {} \<noteq> {}"
    by (simp_all add: ex_port_def ex_world_def ex_acm_def packet_def tx_set_def)
  from UsbSerial_not_stuck[OF ex_line this, of ex_acm_os ex_env] wr show ?thesis by auto
qed

subsection \<open>Receiving\<close>

text \<open>
  C33. \<open>UsbSerialRead\<close> delivers the received bytes in order, one zero-terminated text at a time: it hands the client the bytes of the ring before the first zero and
  takes these and the zero out of it, or all bytes when there is no zero.  A zero at the front gives no text.  An empty ring
  gives success and no text; without memory the ring stays as it is.  The ring for writing is not touched, and the block of the call is freed.
\<close>

theorem UsbSerialRead_delivers:
  assumes "line_ok w p F G s" "fifo_contents (sp_readFifo s) = c"
  shows "if c = [] then UsbSerialRead H K p reply w = Some (HDF_SUCCESS, reply, w)
    else if fo_alloc K (nextAddr (g_mem (w_g w))) (unat (DataFifoLen (sp_readFifo s) + 1))
    then \<exists>v t. UsbSerialRead H K p reply w = Some (fst (read_reply H c reply), snd (read_reply H c reply), v) \<and> w_ports v p = Some t \<and>
      fifo_contents (sp_readFifo t) = drop (consumed c) c \<and> sp_writeFifo t = sp_writeFifo s \<and> live (g_mem (w_g v)) = live (g_mem (w_g w))
    else \<exists>v. UsbSerialRead H K p reply w = Some (RetErr HDF_ERR_MALLOC_FAIL, reply, v) \<and> w_ports v p = Some s"
proof -
  consider "c = []" | "c \<noteq> []" "fo_alloc K (nextAddr (g_mem (w_g w))) (unat (DataFifoLen (sp_readFifo s) + 1))"
    | "c \<noteq> []" "\<not> fo_alloc K (nextAddr (g_mem (w_g w))) (unat (DataFifoLen (sp_readFifo s) + 1))" by blast
  then show ?thesis
  proof cases
    case 1
    then show ?thesis using Read_empty[OF assms(1)] assms(2) by simp
  next
    case 2
    from Read_nonempty[OF assms(1) 2(2) assms(2) 2(1), of H reply] obtain ret reply' v t pk where
      r: "UsbSerialRead H K p reply w = Some (ret, reply', v)" "(ret, reply') = read_reply H c reply" "line_ok v p F (G \<union> taken pk) t"
       "fifo_contents (sp_readFifo t) = drop (consumed c) c" "tx_part t = tx_part s" "live (g_mem (w_g v)) = live (g_mem (w_g w))" .
    have "w_ports v p = Some t" using r(3) by (simp add: line_ok_def)
    moreover have "sp_writeFifo t = sp_writeFifo s" by (rule tx_part_fields(5)[OF r(5)])
    ultimately show ?thesis using 2 r(1,4,6) unfolding r(2)[symmetric] by simp
  next
    case 3
    from Read_no_memory[OF assms(1) 3(2), of H reply] obtain v where
      "UsbSerialRead H K p reply w = Some (RetErr HDF_ERR_MALLOC_FAIL, reply, v)" "line_ok v p F G s" using 3(1) assms(2) by metis
    then show ?thesis using 3 by (simp add: line_ok_def)
  qed
qed

theorem UsbSerialRead_delivers_witness:
  "\<exists>v t. UsbSerialRead ex_env ex_acm_os 1 [] ex_world = Some (HDF_SUCCESS, [''hi''], v) \<and> w_ports v 1 = Some t \<and> fifo_contents (sp_readFifo t) = [120]"
proof -
  have c: "fifo_contents (sp_readFifo ex_port) = [104, 105, 0, 120]" by (simp add: ex_port_def)
  have "read_reply ex_env [104, 105, 0, 120] [] = (HDF_SUCCESS, [''hi''])" by (simp add: read_reply_def line_text_def ex_env_def char_of_def bit_0)
  moreover have "fo_alloc ex_acm_os (nextAddr (g_mem (w_g ex_world))) (unat (DataFifoLen (sp_readFifo ex_port) + 1))" by (simp add: ex_acm_os_def null_fn_os_def)
  ultimately show ?thesis using UsbSerialRead_delivers[OF ex_line c, of ex_env ex_acm_os "[]"] by auto
qed

text \<open>
  C34. A completed request for reading puts its bytes at the end of the ring, in order.  When the ring is full, as many of the oldest bytes as arrive are dropped
  first; when the ring has some room but not enough, the bytes that do not fit are lost.  During a measurement of the speed of reading nothing is stored.  The
  request goes back to the pool or to the kernel, and the ring for writing is not touched.
\<close>

theorem UsbSerialReadComplete_receives:
  assumes "line_ok w p F G s" "q \<in> G" "rx_done q st bs w = Some u"
  shows "\<exists>v t. UsbSerialReadComplete H K q u = Some v \<and> line_ok v p F (G - {q} \<union> taken (news u v)) t \<and> rx_set t (G - {q} \<union> taken (news u v)) = rx_set s G \<and>
    sp_writeFifo t = sp_writeFifo s \<and> fifo_contents (sp_readFifo t) =
      (if w_inFifo w \<noteq> 0 then rx_contents (unat (fsize (sp_readFifo s))) (fifo_contents (sp_readFifo s)) bs else fifo_contents (sp_readFifo s))"
proof -
  from rx_done_run[OF assms(1,3)] obtain r where d: "line_ok u p F G s" "get_req q u = Some r" "received u r = bs"
    "arrives (unat (fsize (sp_readFifo s))) r" "w_inFifo u = w_inFifo w" .
  from ReadComplete_run[OF d(1) assms(2) d(2,4), of H K] obtain v t pk where r: "UsbSerialReadComplete H K q u = Some v"
    "line_ok v p F (G - {q} \<union> taken pk) t" "w_sent v = w_sent u @ pk" "tx_part t = tx_part s" "rx_set t (G - {q} \<union> taken pk) = rx_set s G"
    "fifo_contents (sp_readFifo t) = (if w_inFifo u \<noteq> 0
       then rx_contents (unat (fsize (sp_readFifo s))) (fifo_contents (sp_readFifo s)) (received u r) else fifo_contents (sp_readFifo s))" .
  then show ?thesis using tx_part_fields(5)[OF r(4)] d(3,5) by auto
qed

theorem UsbSerialReadComplete_receives_witness:
  "\<exists>u v t. rx_done 4 0 [1, 2] ex_world = Some u \<and> UsbSerialReadComplete ex_env ex_acm_os 4 u = Some v \<and> w_ports v 1 = Some t \<and>
     fifo_contents (sp_readFifo t) = [104, 105, 0, 120, 1, 2]"
proof -
  obtain u where u: "rx_done 4 0 [1, 2] ex_world = Some u" by (simp add: rx_done_def upd_req_def ex_world_def ex_request_def MAX_BUFLEN_def store_bytes_def)
  have "w_inFifo ex_world \<noteq> 0" "unat (fsize (sp_readFifo ex_port)) = 8192" "fifo_contents (sp_readFifo ex_port) = [104, 105, 0, 120]"
    by (simp_all add: ex_world_def ex_port_def) (simp add: ex_ring_def)
  moreover have "rx_contents 8192 [104, 105, 0, 120] [1, 2] = [104, 105, 0, 120, 1, 2]" by (simp add: rx_contents_def)
  ultimately show ?thesis using UsbSerialReadComplete_receives[OF ex_line _ u, of ex_env ex_acm_os] u by (auto simp: line_ok_def)
qed

end
