(* ===== verification/Acm_Control.thy ===== *)
theory Acm_Control
  imports Acm_Properties
begin

text \<open>
  The control pipe and the notification pipe of the serial function, and the dispatch of commands.
\<close>

subsection \<open>Control requests\<close>

text \<open>The free control requests of the device: each has room for a line coding and belongs to the device.\<close>

definition ctrl_req_ok :: "'k acmw \<Rightarrow> ptr \<Rightarrow> ptr \<Rightarrow> bool" where
  "ctrl_req_ok w a q \<longleftrightarrow> (\<exists>r c ci. get_req q w = Some r \<and> q_context (rl_req r) = Some c \<and> w_ctrls w c = Some ci \<and> ci_acm ci = Some a \<and>
     sizeof_LineCoding \<le> unat (rl_bufLen r))"

definition ctrl_ok :: "'k acmw \<Rightarrow> ptr \<Rightarrow> UsbAcmDevice \<Rightarrow> bool" where
  "ctrl_ok w a d \<longleftrightarrow> w_acms w a = Some d \<and> (\<forall>q \<in> set (ac_ctrlPool d). ctrl_req_ok w a q)"

lemma coding_bytes_length [simp]: "length (coding_bytes c) = sizeof_LineCoding"
  by (simp add: coding_bytes_def le32_bytes_def sizeof_LineCoding_def)

lemma le32_roundtrip: "le32_of (le32_bytes x @ bs) = x"
proof (rule bit_word_eqI)
  fix n assume "n < LENGTH(32)"
  then consider "n < 8" | "8 \<le> n" "n < 16" | "16 \<le> n" "n < 24" | "24 \<le> n" "n < 32" by fastforce
  then show "bit (le32_of (le32_bytes x @ bs)) n = bit x n"
    by cases (auto simp: le32_of_def le32_bytes_def bit_or_iff bit_push_bit_iff bit_ucast_iff bit_drop_bit_eq)
qed

lemma coding_roundtrip: "coding_of (coding_bytes c) = c"
  using le32_roundtrip[of "dwDTERate c"] by (simp add: coding_of_def coding_bytes_def le32_bytes_def)

text \<open>A step that keeps the buffers, the owners and the contexts of the requests keeps the control requests in order.\<close>

definition ctrl_same :: "'k acmw \<Rightarrow> 'k acmw \<Rightarrow> bool" where
  "ctrl_same w v \<longleftrightarrow> (\<forall>q r. get_req q w = Some r \<longrightarrow> (\<exists>r'. get_req q v = Some r' \<and> rl_bufLen r' = rl_bufLen r \<and> q_context (rl_req r') = q_context (rl_req r))) \<and>
     (\<forall>c ci. w_ctrls w c = Some ci \<longrightarrow> (\<exists>ci'. w_ctrls v c = Some ci' \<and> ci_acm ci' = ci_acm ci))"

lemma ctrl_req_same: "ctrl_same w v \<Longrightarrow> ctrl_req_ok w a q \<Longrightarrow> ctrl_req_ok v a q"
  unfolding ctrl_same_def ctrl_req_ok_def by metis

text \<open>A request of the host: what \<open>setup_answer\<close> stores and answers is handed to the kernel with the first free control request.\<close>

lemma Setup_run:
  assumes "ctrl_ok w a d" "ac_ctrlPool d = q # qs"
    and "setup_answer a q st (put_acm a (d\<lparr>ac_ctrlPool := qs\<rparr>) w) = Some (n, put_acm a e (store_bytes b bs w))"
    and "get_req q w = Some r" "b = q_buf (rl_req r)" "n < 2 ^ 32" "q_context (rl_req r) = Some c" "w_ctrls w c = Some ci"
  obtains ok v r' where "AcmSetup K (Some a) (Some st) w = Some v" "w_sent v = w_sent w @ [(q, buf_bytes b n (store_bytes b bs w), ok)]"
    "w_acms v = (w_acms w)(a \<mapsto> e)" "ctrl_same w v" "w_ports v = w_ports w" "w_ctrls v = (w_ctrls w)(c \<mapsto> ci\<lparr>ci_request := cr_request st\<rparr>)"
    "get_req q v = Some r'" "rl_bufLen r' = rl_bufLen r" "q_context (rl_req r') = q_context (rl_req r)" "q_buf (rl_req r') = q_buf (rl_req r)"
proof -
  let ?w2 = "put_acm a e (store_bytes b bs w)"
  let ?r = "r\<lparr>rl_req := (rl_req r)\<lparr>q_length := of_nat n\<rparr>\<rparr>"
  let ?w3 = "(put_ctrl c (ci\<lparr>ci_request := cr_request st\<rparr>) ?w2)\<lparr>w_g := put_freq q ?r (w_g w)\<rparr>"
  have g: "get_req q ?w3 = Some ?r" by simp
  from submit_run[OF g, of K] obtain ret k where s: "acm_submit K q ?w3 = Some (ret, ?w3\<lparr>w_g := set_fkern k (w_g ?w3),
     w_sent := w_sent ?w3 @ [(q, buf_bytes (q_buf (rl_req ?r)) (unat (q_length (rl_req ?r))) ?w3, ret = HDF_SUCCESS)]\<rparr>)" (is "_ = Some (ret, ?v)") .
  have "unat (of_nat n :: u32) = n" using assms(6) by (simp add: unat_of_nat take_bit_nat_eq_self)
  then have b: "buf_bytes (q_buf (rl_req ?r)) (unat (q_length (rl_req ?r))) ?w3 = buf_bytes b n (store_bytes b bs w)" using assms(5) by (simp add: buf_bytes_def)
  have "w_acms w a = Some d" using assms(1) by (simp add: ctrl_ok_def)
  then have run: "AcmSetup K (Some a) (Some st) w = Some ?v"
    using assms(2-4,7,8) s by (simp add: AcmSetup_def AcmGetCtrlReq_def upd_req_def store_bytes_def)
  show ?thesis
    by (rule that[OF run, where ok = "ret = HDF_SUCCESS" and r' = ?r]) (use b assms in \<open>simp_all add: ctrl_same_def store_bytes_def\<close>)
qed

lemma ctrl_okE:
  assumes "ctrl_ok w a d" "ac_ctrlPool d = q # qs"
  obtains r c ci where "get_req q w = Some r" "q_context (rl_req r) = Some c" "w_ctrls w c = Some ci" "ci_acm ci = Some a" "sizeof_LineCoding \<le> unat (rl_bufLen r)"
  using assms by (auto simp: ctrl_ok_def ctrl_req_ok_def)

lemma store_nothing [simp]: "store_bytes b [] w = w"
  by (simp add: store_bytes_def)

lemma store_acm: "store_bytes b bs (put_acm a d w) = put_acm a d (store_bytes b bs w)"
  by (simp add: store_bytes_def cong: if_cong)

text \<open>\<open>SET_LINE_CODING\<close>: a request of seven bytes goes to the kernel, for the host to fill.\<close>

lemma Setup_set:
  assumes "ctrl_ok w a d" "ac_ctrlPool d = q # qs" "cr_request st = USB_DDK_CDC_REQ_SET_LINE_CODING" "unat (cr_length st) = sizeof_LineCoding"
  obtains x ok v r c ci where "AcmSetup K (Some a) (Some st) w = Some v" "w_sent v = w_sent w @ [(q, x, ok)]" "length x = sizeof_LineCoding"
    "w_acms v a = Some (d\<lparr>ac_ctrlPool := qs\<rparr>)" "ctrl_same w v" "get_req q v = Some r" "q_context (rl_req r) = Some c" "w_ctrls v c = Some ci"
    "ci_acm ci = Some a" "ci_request ci = USB_DDK_CDC_REQ_SET_LINE_CODING" "sizeof_LineCoding \<le> unat (rl_bufLen r)"
proof -
  from ctrl_okE[OF assms(1,2)] obtain r c ci where r: "get_req q w = Some r" "q_context (rl_req r) = Some c" "w_ctrls w c = Some ci" "ci_acm ci = Some a"
    "sizeof_LineCoding \<le> unat (rl_bufLen r)" .
  let ?e = "d\<lparr>ac_ctrlPool := qs\<rparr>"
  have sa: "setup_answer a q st (put_acm a ?e w) = Some (sizeof_LineCoding, put_acm a ?e (store_bytes (q_buf (rl_req r)) [] w))"
    using assms(3,4) by (simp add: setup_answer_def)
  have "sizeof_LineCoding < 2 ^ 32" by (simp add: sizeof_LineCoding_def)
  from Setup_run[OF assms(1,2) sa r(1) refl this r(2,3), of K] obtain ok v r' where
    v: "AcmSetup K (Some a) (Some st) w = Some v" "w_sent v = w_sent w @ [(q, buf_bytes (q_buf (rl_req r)) sizeof_LineCoding (store_bytes (q_buf (rl_req r)) [] w), ok)]"
    "w_acms v = (w_acms w)(a \<mapsto> ?e)" "ctrl_same w v" "w_ports v = w_ports w" "w_ctrls v = (w_ctrls w)(c \<mapsto> ci\<lparr>ci_request := cr_request st\<rparr>)"
    "get_req q v = Some r'" "rl_bufLen r' = rl_bufLen r" "q_context (rl_req r') = q_context (rl_req r)" "q_buf (rl_req r') = q_buf (rl_req r)" .
  show ?thesis by (rule that[OF v(1,2) _ _ v(4,7), where c = c and ci = "ci\<lparr>ci_request := cr_request st\<rparr>"]) (use v r assms(3) in \<open>simp_all add: buf_bytes_def\<close>)
qed

text \<open>The host has filled the request: the device takes the line coding over, and the request is free again.\<close>

lemma CtrlComplete_set:
  assumes "get_req q w = Some r" "q_context (rl_req r) = Some c" "w_ctrls w c = Some ci" "ci_acm ci = Some a" "ci_request ci = USB_DDK_CDC_REQ_SET_LINE_CODING"
    and "sizeof_LineCoding \<le> unat (rl_bufLen r)" "w_acms w a = Some d"
  obtains u v where "rx_done q STATUS_COMPLETED (coding_bytes lc) w = Some u"
    "AcmCtrlComplete (Some q) u = Some v" "w_acms v a = Some (d\<lparr>ac_lineCoding := lc, ac_ctrlPool := ac_ctrlPool d @ [q]\<rparr>)" "ctrl_same w v" "w_sent v = w_sent w"
proof -
  let ?r = "r\<lparr>rl_req := (rl_req r)\<lparr>q_status := STATUS_COMPLETED, q_actual := of_nat sizeof_LineCoding\<rparr>\<rparr>"
  let ?u = "(store_bytes (q_buf (rl_req r)) (coding_bytes lc) w)\<lparr>w_g := put_freq q ?r (w_g w)\<rparr>"
  have u: "rx_done q STATUS_COMPLETED (coding_bytes lc) w = Some ?u"
    using assms(1,6) by (simp add: rx_done_def upd_req_def MAX_BUFLEN_def) (simp add: sizeof_LineCoding_def)
  have n: "unat (of_nat sizeof_LineCoding :: u32) = sizeof_LineCoding" by (simp add: sizeof_LineCoding_def)
  have b: "buf_bytes (q_buf (rl_req r)) sizeof_LineCoding ?u = coding_bytes lc"
    using buf_store[of "q_buf (rl_req r)" "coding_bytes lc" w] by (simp add: buf_bytes_def)
  let ?v = "put_acm a (d\<lparr>ac_lineCoding := lc, ac_ctrlPool := ac_ctrlPool d @ [q]\<rparr>) ?u"
  have cu: "w_ctrls ?u c = Some ci" "w_acms ?u a = Some d" using assms(3,7) by (simp_all add: store_bytes_def)
  have "AcmCtrlComplete (Some q) ?u = Some ?v"
    using assms(2,4,5,6) n b cu by (simp add: AcmCtrlComplete_def Let_def coding_roundtrip)
  moreover have "ctrl_same w ?v" using assms(1) by (simp add: ctrl_same_def store_bytes_def)
  ultimately show ?thesis using that[OF u, of ?v] by simp
qed

text \<open>\<open>GET_LINE_CODING\<close>: the line coding of the device goes to the host.\<close>

lemma Setup_get:
  assumes "ctrl_ok w a d" "ac_ctrlPool d = q # qs" "cr_request st = USB_DDK_CDC_REQ_GET_LINE_CODING" "sizeof_LineCoding \<le> unat (cr_length st)"
    and "dwDTERate (ac_lineCoding d) \<noteq> 0"
  obtains ok v where "AcmSetup K (Some a) (Some st) w = Some v" "w_sent v = w_sent w @ [(q, coding_bytes (ac_lineCoding d), ok)]"
    "w_acms v a = Some (d\<lparr>ac_ctrlPool := qs\<rparr>)"
proof -
  from ctrl_okE[OF assms(1,2)] obtain r c ci where r: "get_req q w = Some r" "q_context (rl_req r) = Some c" "w_ctrls w c = Some ci" "ci_acm ci = Some a"
    "sizeof_LineCoding \<le> unat (rl_bufLen r)" .
  let ?e = "d\<lparr>ac_ctrlPool := qs\<rparr>" and ?b = "q_buf (rl_req r)" and ?bs = "coding_bytes (ac_lineCoding d)"
  have sa: "setup_answer a q st (put_acm a ?e w) = Some (sizeof_LineCoding, put_acm a ?e (store_bytes ?b ?bs w))"
    using assms(3-5) r(1,5) by (simp add: setup_answer_def store_req_def store_acm acm_consts min_def)
  have "sizeof_LineCoding < 2 ^ 32" by (simp add: sizeof_LineCoding_def)
  from Setup_run[OF assms(1,2) sa r(1) refl this r(2,3), of K] obtain ok v where
    v: "AcmSetup K (Some a) (Some st) w = Some v" "w_sent v = w_sent w @ [(q, buf_bytes ?b sizeof_LineCoding (store_bytes ?b ?bs w), ok)]" "w_acms v = (w_acms w)(a \<mapsto> ?e)" .
  moreover have "buf_bytes ?b sizeof_LineCoding (store_bytes ?b ?bs w) = ?bs" using buf_store[of ?b ?bs w] by simp
  ultimately show ?thesis using that[of v ok] by simp
qed


definition ex_ctrl_world :: "unit acmw" where
  "ex_ctrl_world = ex_world\<lparr>w_g := (w_g ex_world)\<lparr>g_freqs := [5 \<mapsto> ex_request 50 7]\<rparr>, w_ctrls := [7 \<mapsto> \<lparr>ci_request = 0, ci_acm = Some 2\<rparr>],
     w_acms := [2 \<mapsto> ex_acm\<lparr>ac_ctrlPool := [5]\<rparr>]\<rparr>"


subsection \<open>Notifications\<close>

text \<open>
  \<open>iface_index\<close> is the number of the control interface.  The notification request \<open>q\<close> is with the device or on its way to the host.  The invariant is independent of what the line does.
\<close>

definition iface_index :: "UsbAcmDevice \<Rightarrow> 'k gadget \<Rightarrow> u16 option" where
  "iface_index d g = do { e \<leftarrow> ai_fn (ac_ctrlIface d); im \<leftarrow> get_intf e g; Some (ucast (xi_index (im_info im))) }"

definition notify_ok :: "'k acmw \<Rightarrow> ptr \<Rightarrow> ptr \<Rightarrow> u16 \<Rightarrow> UsbAcmDevice \<Rightarrow> bool" where
  "notify_ok w a q idx d \<longleftrightarrow> w_acms w a = Some d \<and> \<not> ac_lock d \<and> ac_notifyReq d \<in> {None, Some q} \<and>
     (\<exists>r. get_req q w = Some r \<and> q_context (rl_req r) = Some a \<and> q_buf (rl_req r) \<noteq> 0 \<and> 10 \<le> unat (rl_bufLen r)) \<and>
     iface_index d (w_g w) = Some idx"

text \<open>What the host sees of a state.\<close>

definition state_message :: "ptr \<Rightarrow> u16 \<Rightarrow> u16 \<Rightarrow> bool \<Rightarrow> ptr \<times> u8 list \<times> bool" where
  "state_message q idx st ok = (q, notification_bytes USB_DDK_CDC_NOTIFY_SERIAL_STATE 0 idx (le16_bytes st), ok)"

lemma notification_length [simp]: "length (notification_bytes ty v i (le16_bytes st)) = 10"
  by (simp add: notification_bytes_def le16_bytes_def)

lemma le16_length [simp]: "length (le16_bytes st) = 2"
  by (simp add: le16_bytes_def)

lemma get_intf_freq [simp]: "get_intf e (put_freq q r g) = get_intf e g" "get_intf e (set_fkern k g) = get_intf e g"
  by (simp_all add: get_intf_def)

lemma iface_index_cong [simp]: "iface_index d (put_freq q r g) = iface_index d g" "iface_index d (set_fkern k g) = iface_index d g"
  "iface_index (d\<lparr>ac_notifyReq := x\<rparr>) g = iface_index d g" "iface_index (d\<lparr>ac_pending := b\<rparr>) g = iface_index d g" "iface_index (d\<lparr>ac_serialState := st\<rparr>) g = iface_index d g"
  by (simp_all add: iface_index_def)

lemma NotifySerialState_busy:
  assumes "notify_ok w a q idx d" "ac_notifyReq d = None"
  shows "AcmNotifySerialState K a w = Some (HDF_SUCCESS, put_acm a (d\<lparr>ac_pending := True\<rparr>) w)"
proof -
  have "w_acms w a = Some d" "\<not> ac_lock d" using assms(1) by (simp_all add: notify_ok_def)
  then show ?thesis using assms(2) by (cases d) (simp add: AcmNotifySerialState_def lock_acm_def unlock_acm_def)
qed

lemma NotifySerialState_idle:
  assumes "notify_ok w a q idx d" "ac_notifyReq d = Some q"
  obtains ret v d' where "AcmNotifySerialState K a w = Some (ret, v)" "notify_ok v a q idx d'" "ac_serialState d' = ac_serialState d"
    "w_sent v = w_sent w @ [state_message q idx (ac_serialState d) (ret = HDF_SUCCESS)]" "ret = HDF_SUCCESS \<longrightarrow> ac_notifyReq d' = None"
proof -
  obtain r e im where n: "w_acms w a = Some d" "\<not> ac_lock d" "get_req q w = Some r" "q_context (rl_req r) = Some a" "q_buf (rl_req r) \<noteq> 0" "10 \<le> unat (rl_bufLen r)"
    "ai_fn (ac_ctrlIface d) = Some e" "get_intf e (w_g w) = Some im" "idx = ucast (xi_index (im_info im))" 
    using assms(1) by (auto simp: notify_ok_def iface_index_def bind_eq_Some_conv)
  have ix: "iface_index d' (w_g v) = Some idx" if "ac_ctrlIface d' = ac_ctrlIface d" "get_intf e (w_g v) = get_intf e (w_g w)" for d' and v :: "'a acmw"
    using n that by (simp add: iface_index_def)
  let ?m = "notification_bytes USB_DDK_CDC_NOTIFY_SERIAL_STATE 0 idx (le16_bytes (ac_serialState d))"
  let ?d = "d\<lparr>ac_lock := True, ac_notifyReq := None, ac_pending := False\<rparr>"
  let ?r = "r\<lparr>rl_req := (rl_req r)\<lparr>q_length := 10\<rparr>\<rparr>"
  let ?w2 = "store_bytes (q_buf (rl_req r)) ?m ((put_acm a ?d w)\<lparr>w_g := put_freq q ?r (w_g w)\<rparr>)"
  have g: "get_req q ?w2 = Some ?r" by simp
  from submit_run[OF g, of K] obtain ret k where s: "acm_submit K q ?w2 = Some (ret, ?w2\<lparr>w_g := set_fkern k (w_g ?w2),
     w_sent := w_sent ?w2 @ [(q, buf_bytes (q_buf (rl_req ?r)) (unat (q_length (rl_req ?r))) ?w2, ret = HDF_SUCCESS)]\<rparr>)" (is "_ = Some (ret, ?v)") .
  have b: "buf_bytes (q_buf (rl_req r)) 10 ?w2 = ?m" using buf_store[of "q_buf (rl_req r)" ?m] by simp
  let ?e = "if ret \<noteq> HDF_SUCCESS then ?d\<lparr>ac_notifyReq := Some q\<rparr> else ?d"
  have "AcmSendNotifyRequest K a USB_DDK_CDC_NOTIFY_SERIAL_STATE 0 (le16_bytes (ac_serialState d)) (put_acm a (d\<lparr>ac_lock := True\<rparr>) w) =
      Some (ret, put_acm a ?e ?v)"
    using assms(2) n s by (simp add: AcmSendNotifyRequest_def upd_req_def store_req_def fun_upd_idem)
  then have run: "AcmNotifySerialState K a w = Some (ret, put_acm a (?e\<lparr>ac_lock := False\<rparr>) ?v)"
    using assms(2) n(1,2) by (simp add: AcmNotifySerialState_def lock_acm_def unlock_acm_def)
  show ?thesis
    by (rule that[OF run, where d' = "?e\<lparr>ac_lock := False\<rparr>"]) (use b n ix in \<open>simp_all add: notify_ok_def state_message_def\<close>)
qed

text \<open>The three calls that change the state of the line do so by a function on it and then notify.\<close>

definition line_changes :: "'k fn_os \<Rightarrow> ptr \<Rightarrow> 'k acmw \<Rightarrow> 'k acmw \<Rightarrow> bool" where
  "line_changes K a w v \<longleftrightarrow> AcmConnect K (Some a) w = Some v \<or> AcmDisconnect K (Some a) w = Some v \<or> (\<exists>n ret. AcmSendBreak K (Some a) n w = Some (ret, v))"

lemma line_changesE:
  assumes "line_changes K a w v" "w_acms w a = Some d"
  obtains st ret where "AcmNotifySerialState K a (put_acm a (d\<lparr>ac_serialState := st\<rparr>) w) = Some (ret, v)"
proof -
  have "\<exists>st ret. AcmNotifySerialState K a (put_acm a (d\<lparr>ac_serialState := st\<rparr>) w) = Some (ret, v)"
    using assms by (auto simp: line_changes_def AcmConnect_def AcmDisconnect_def AcmSendBreak_def Let_def; blast)
  then show ?thesis using that by blast
qed

text \<open>
  Runs in which the kernel accepts every notification: the line changes, or the notification that is on its way completes.
\<close>

inductive notify_reach :: "'k fn_os \<Rightarrow> ptr \<Rightarrow> ptr \<Rightarrow> 'k acmw \<Rightarrow> 'k acmw \<Rightarrow> bool" for K a q w0 where
  begins: "notify_reach K a q w0 w0"
| changes: "notify_reach K a q w0 w \<Longrightarrow> line_changes K a w v \<Longrightarrow> accepted (news w v) \<Longrightarrow> notify_reach K a q w0 v"
| completes: "notify_reach K a q w0 w \<Longrightarrow> w_acms w a = Some d \<Longrightarrow> ac_notifyReq d = None \<Longrightarrow> tx_done q PENDING_FLAG n w = Some u \<Longrightarrow>
    AcmNotifyComplete K q u = Some v \<Longrightarrow> accepted (news w v) \<Longrightarrow> notify_reach K a q w0 v"

text \<open>The host was told of a state: it is the one of the last message, or the first one when there was none.\<close>

definition told :: "'k acmw \<Rightarrow> u16 \<Rightarrow> ptr \<Rightarrow> u16 \<Rightarrow> u16 \<Rightarrow> 'k acmw \<Rightarrow> bool" where
  "told w0 st0 q idx st w \<longleftrightarrow> (if news w0 w = [] then st = st0 else last (news w0 w) = state_message q idx st True)"

definition notify_inv :: "'k acmw \<Rightarrow> u16 \<Rightarrow> ptr \<Rightarrow> ptr \<Rightarrow> u16 \<Rightarrow> 'k acmw \<Rightarrow> UsbAcmDevice \<Rightarrow> bool" where
  "notify_inv w0 st0 a q idx w d \<longleftrightarrow> notify_ok w a q idx d \<and> (\<exists>pk. w_sent w = w_sent w0 @ pk) \<and>
     (ac_notifyReq d = None \<and> ac_pending d \<or> told w0 st0 q idx (ac_serialState d) w)"

lemma notify_step:
  assumes "notify_ok w a q idx d" "w_sent w = w_sent w0 @ pk" "AcmNotifySerialState K a w = Some (ret, v)" "accepted (news w v)"
  shows "\<exists>d'. notify_inv w0 st0 a q idx v d'"
proof (cases "ac_notifyReq d")
  case None
  from NotifySerialState_busy[OF assms(1) this, of K] have v: "v = put_acm a (d\<lparr>ac_pending := True\<rparr>) w" using assms(3) by simp
  show ?thesis unfolding v using assms(1,2) None by (auto simp: notify_inv_def notify_ok_def)
next
  case (Some q')
  then have q: "ac_notifyReq d = Some q" using assms(1) by (auto simp: notify_ok_def)
  from NotifySerialState_idle[OF assms(1) q, of K] obtain ret' v' d' where r: "AcmNotifySerialState K a w = Some (ret', v')" "notify_ok v' a q idx d'"
    "ac_serialState d' = ac_serialState d" "w_sent v' = w_sent w @ [state_message q idx (ac_serialState d) (ret' = HDF_SUCCESS)]" .
  have v: "v' = v" using r(1) assms(3) by simp
  have "news w v = [state_message q idx (ac_serialState d) (ret' = HDF_SUCCESS)]" using r(4) unfolding v by simp
  then have "state_message q idx (ac_serialState d) (ret' = HDF_SUCCESS) = state_message q idx (ac_serialState d) True"
    using assms(4) by (simp add: accepted_def state_message_def)
  then show ?thesis using r(2,3,4) assms(2) unfolding v by (auto simp: notify_inv_def told_def news_def)
qed

lemma notify_ok_state: "notify_ok w a q idx d \<Longrightarrow> notify_ok (put_acm a (d\<lparr>ac_serialState := st\<rparr>) w) a q idx (d\<lparr>ac_serialState := st\<rparr>)"
  by (auto simp: notify_ok_def)

lemma notify_complete_step:
  assumes "notify_inv w0 st0 a q idx w d" "ac_notifyReq d = None" "tx_done q PENDING_FLAG n w = Some u" "AcmNotifyComplete K q u = Some v" "accepted (news w v)"
  shows "\<exists>d'. notify_inv w0 st0 a q idx v d'"
proof -
  obtain r pk where r: "w_acms w a = Some d" "\<not> ac_lock d" "get_req q w = Some r" "q_context (rl_req r) = Some a" "notify_ok w a q idx d" "w_sent w = w_sent w0 @ pk"
    using assms(1) by (auto simp: notify_inv_def notify_ok_def)
  let ?r = "r\<lparr>rl_req := (rl_req r)\<lparr>q_status := PENDING_FLAG, q_actual := n\<rparr>\<rparr>" and ?d = "d\<lparr>ac_notifyReq := Some q\<rparr>"
  have u: "u = w\<lparr>w_g := put_freq q ?r (w_g w)\<rparr>" using assms(3) r(3) by (simp add: tx_done_def upd_req_def)
  let ?u = "put_acm a ?d u"
  have d: "d\<lparr>ac_notifyReq := Some q, ac_lock := False\<rparr> = ?d" using r(2) by (cases d) simp
  have run: "AcmNotifyComplete K q u = (if ac_pending d then map_option snd (AcmNotifySerialState K a ?u) else Some ?u)"
    using r(1,2,4) by (simp add: AcmNotifyComplete_def u lock_acm_def unlock_acm_def d)
  have ok: "notify_ok ?u a q idx ?d" using r(5,3) by (auto simp: notify_ok_def u)
  have sent: "w_sent ?u = w_sent w0 @ pk" "news ?u v = news w v" "news w0 ?u = news w0 w" using r(6) by (simp_all add: u news_def)
  show ?thesis
  proof (cases "ac_pending d")
    case True
    then obtain ret where "AcmNotifySerialState K a ?u = Some (ret, v)"
      using run assms(4) by (cases "AcmNotifySerialState K a ?u") auto
    then show ?thesis using notify_step[OF ok sent(1)] assms(5) sent(2) by simp
  next
    case False
    then have "v = ?u" using run assms(4) by simp
    then show ?thesis using False ok sent assms(1) by (auto simp: notify_inv_def told_def)
  qed
qed

lemma notify_reach_inv:
  assumes "notify_reach K a q w0 w" "notify_ok w0 a q idx d0"
  shows "\<exists>d. notify_inv w0 (ac_serialState d0) a q idx w d"
  using assms(1)
proof induction
  case begins
  then show ?case using assms(2) by (auto simp: notify_inv_def told_def news_def)
next
  case (changes w v)
  then obtain d pk where d: "notify_ok w a q idx d" "w_sent w = w_sent w0 @ pk" by (auto simp: notify_inv_def)
  then have acm: "w_acms w a = Some d" by (simp add: notify_ok_def)
  from line_changesE[OF changes.hyps(2) acm] obtain st ret where st: "AcmNotifySerialState K a (put_acm a (d\<lparr>ac_serialState := st\<rparr>) w) = Some (ret, v)" .
  show ?case by (rule notify_step[OF notify_ok_state[OF d(1)] _ st]) (use d(2) changes.hyps(3) in \<open>simp_all add: news_def\<close>)
next
  case (completes w d n u v)
  then obtain d' where d': "notify_inv w0 (ac_serialState d0) a q idx w d'" by blast
  then have "d' = d" using completes.hyps(2) by (simp add: notify_inv_def notify_ok_def)
  then show ?case using notify_complete_step[OF d' _ completes.hyps(4,5,6)] completes.hyps(3) by simp
qed


definition ex_notify_acm :: UsbAcmDevice where
  "ex_notify_acm = ex_acm\<lparr>ac_ctrlIface := \<lparr>ai_fn = Some (8, 0), ai_handle = None\<rparr>, ac_notifyReq := Some 6\<rparr>"

definition ex_notify_world :: "unit acmw" where
  "ex_notify_world = ex_world\<lparr>w_g := (w_g ex_world)\<lparr>g_freqs := [6 \<mapsto> ex_request 60 2], g_intfs := [8 \<mapsto> [zero_interfaceMgr]]\<rparr>, w_acms := [2 \<mapsto> ex_notify_acm]\<rparr>"


subsection \<open>A failed write\<close>

text \<open>
  C37. A call of \<open>UsbSerialWrite\<close> whose message cannot be read fails with \<open>HDF_ERR_IO\<close> and keeps the lock of the port: afterwards no call of \<open>UsbSerialWrite\<close> or \<open>UsbSerialRead\<close> on this port
  returns, nor does the callback of any of its requests.  The same holds when there is no memory for the text.
\<close>

theorem UsbSerialWrite_keeps_lock:
  assumes "line_ok w p F G s"
    and "case fst (he_readString H data) of None \<Rightarrow> True | Some tmp \<Rightarrow> \<not> fo_alloc K (nextAddr (g_mem (w_g w))) (length (bytes_of (cstr tmp)) + 1)"
  shows "\<exists>v. UsbSerialWrite H K p data w = Some (RetErr HDF_ERR_IO, snd (he_readString H data), v) \<and>
    UsbSerialWrite H K p data' v = None \<and> UsbSerialRead H K p reply v = None \<and>
    (\<forall>q \<in> F. UsbSerialWriteComplete K q v = None) \<and> (\<forall>q \<in> G. UsbSerialReadComplete H K q v = None)"
proof -
  have L: "w_ports w p = Some s" "\<not> sp_lock s" "tx_port w p F s" "rx_port w p G s" using assms(1) by (simp_all add: line_ok_def)
  let ?s = "s\<lparr>sp_lock := True\<rparr>"
  obtain m where w: "UsbSerialWrite H K p data w = Some (RetErr HDF_ERR_IO, snd (he_readString H data), set_mem m (put_port p ?s w))" (is "_ = Some (_, _, ?v)")
  proof (cases "fst (he_readString H data)")
    case None
    have e: "set_mem (g_mem (w_g w)) (put_port p ?s w) = put_port p ?s w" by simp
    from None show ?thesis using L that[of "g_mem (w_g w)"] unfolding e by (cases "he_readString H data") (simp add: UsbSerialWrite_def lock_port_def)
  next
    case (Some tmp)
    then show ?thesis using L assms(2) that[of "(g_mem (w_g w))\<lparr>nextAddr := nextAddr (g_mem (w_g w)) + 1\<rparr>"]
      by (cases "he_readString H data") (simp add: UsbSerialWrite_def lock_port_def walloc_def OsalMemAlloc_def Let_def)
  qed
  have hang: "lock_port p (count_read H r ?v) = None" "lock_port p ?v = None" for r by (simp_all add: lock_port_def)
  have ctx: "\<exists>r. get_req q ?v = Some r \<and> q_context (rl_req r) = Some p" if "q \<in> F \<union> G" for q
  proof -
    have "\<exists>n. req_ok w p n q" using that L(3,4) by (auto simp: tx_port_def rx_port_def)
    then show ?thesis by (auto simp: req_ok_def)
  qed
  have "UsbSerialWriteComplete K q ?v = None" if q: "q \<in> F" for q
    using ctx[of q] q hang(2) by (auto simp: UsbSerialWriteComplete_def)
  moreover have "UsbSerialReadComplete H K q ?v = None" if q: "q \<in> G" for q
    using ctx[of q] q hang(1) by (auto simp: UsbSerialReadComplete_def)
  ultimately show ?thesis using w hang(2) by (auto simp: UsbSerialWrite_def UsbSerialRead_def)
qed

theorem UsbSerialWrite_keeps_lock_witness:
  "\<exists>v. UsbSerialWrite ex_env ex_acm_os 1 [] ex_world = Some (RetErr HDF_ERR_IO, [], v) \<and> UsbSerialRead ex_env ex_acm_os 1 [] v = None"
proof -
  have "case fst (he_readString ex_env []) of None \<Rightarrow> True | Some tmp \<Rightarrow> \<not> fo_alloc ex_acm_os (nextAddr (g_mem (w_g ex_world))) (length (bytes_of (cstr tmp)) + 1)"
    by (simp add: ex_env_def)
  moreover have "snd (he_readString ex_env []) = []" by (simp add: ex_env_def)
  ultimately show ?thesis using UsbSerialWrite_keeps_lock[OF ex_line, where H = ex_env and K = ex_acm_os and data = "[]" and data' = "[]" and reply = "[]"] by auto
qed

end
