(* ===== verification/Ecm_Notify.thy ===== *)
theory Ecm_Notify
  imports Ecm_Function Acm_Control
begin

text \<open>
  The notifications of the network function: a small state machine that tells the host first of the connection and then of its speed, over one request.
\<close>

subsection \<open>One notification\<close>

text \<open>
  The function at \<open>a\<close> with its request \<open>q\<close> for notifications, and the port that no client has opened.
\<close>

definition ecm_note :: "'k ecmw \<Rightarrow> ptr \<Rightarrow> ptr \<Rightarrow> u8 \<Rightarrow> UsbEcmDevice \<Rightarrow> bool" where
  "ecm_note w a q idx d \<longleftrightarrow> ew_ecms w a = Some d \<and> ed_notifyReq d \<in> {None, Some q} \<and> ed_ctrlId d = idx \<and>
     (\<exists>r. ecm_req q w = Some r \<and> q_context (rl_req r) = Some a \<and> q_buf (rl_req r) \<noteq> 0 \<and> 16 \<le> unat (rl_bufLen r))"

definition ecm_closed :: "'k ecmw \<Rightarrow> UsbEcmDevice \<Rightarrow> bool" where
  "ecm_closed w d \<longleftrightarrow> (\<exists>p s. ed_port d = Some p \<and> ew_ports w p = Some s \<and> ep_refCount s = 0 \<and> EcmLock \<notin> ep_locks s)"

text \<open>The two messages that the host can see.\<close>

datatype ecm_told = Connected | Speed

definition told_bytes :: "u8 \<Rightarrow> ecm_told \<Rightarrow> u8 list" where
  "told_bytes idx m =
     (case m of
        Connected \<Rightarrow> [0xA1, 0x00, 1, 0] @ le16_bytes (ucast idx) @ [0, 0]
      | Speed \<Rightarrow> [0xA1, 0x2A, 0, 0] @ le16_bytes (ucast idx) @ [8, 0] @ le32_bytes 9728000 @ le32_bytes 9728000)"

definition told_entry :: "ptr \<Rightarrow> u8 \<Rightarrow> bool \<Rightarrow> ecm_told \<Rightarrow> ptr \<times> u8 list \<times> bool" where
  "told_entry q idx ok m = (q, told_bytes idx m, ok)"

text \<open>What the state says comes next.\<close>

fun next_told :: "EcmNotifyState \<Rightarrow> (ecm_told \<times> EcmNotifyState) option" where
  "next_told ECM_NOTIFY_NONE = None"
| "next_told ECM_NOTIFY_CONNECT = Some (Connected, ECM_NOTIFY_SPEED)"
| "next_told ECM_NOTIFY_SPEED = Some (Speed, ECM_NOTIFY_NONE)"

lemma told_length: "length (told_bytes idx m) \<le> 16" "length (told_bytes idx m) < 2 ^ 32"
  by (cases m; simp add: told_bytes_def le32_bytes_def le16_bytes_def)+

lemma message_told: "ed_isOpen d \<Longrightarrow> ecm_message d = map_option (\<lambda>(m, st). (told_bytes (ed_ctrlId d) m, st)) (next_told (ed_notifyState d))"
  by (cases "ed_notifyState d")
    (simp_all add: ecm_message_def told_bytes_def notification_bytes_def USB_DDK_CDC_NOTIFY_NETWORK_CONNECTION_def USB_DDK_CDC_NOTIFY_SPEED_CHANGE_def EcmBitrate_def ECM_BIT_def
      le16_bytes_def le32_bytes_def)

lemma DoNotify_busy: "ew_ecms w a = Some d \<Longrightarrow> ed_notifyReq d = None \<Longrightarrow> EcmDoNotify K a w = Some w"
  by (simp add: EcmDoNotify_def)

lemma DoNotify_quiet:
  assumes "ecm_note w a q idx d" "ed_notifyReq d = Some q" "next_told (ed_notifyState d) = None"
  shows "EcmDoNotify K a w = Some (put_ecm a (d\<lparr>ed_isOpen := True\<rparr>) w)"
  using assms by (auto simp: EcmDoNotify_def ecm_note_def message_told)

lemma DoNotify_sends:
  assumes "ecm_note w a q idx d" "ed_notifyReq d = Some q" "next_told (ed_notifyState d) = Some (m, st)"
  obtains ret v where "EcmDoNotify K a w = Some v"
    "ecm_note v a q idx (d\<lparr>ed_isOpen := True, ed_notifyState := st, ed_notifyReq := (if ret_neg ret then Some q else None)\<rparr>)"
    "w_sent (ew_base v) = w_sent (ew_base w) @ [told_entry q idx (ret = HDF_SUCCESS) m]" "ew_ports v = ew_ports w"
proof -
  obtain r where r: "ew_ecms w a = Some d" "ecm_req q w = Some r" "q_context (rl_req r) = Some a" "q_buf (rl_req r) \<noteq> 0" "16 \<le> unat (rl_bufLen r)" "ed_ctrlId d = idx"
    using assms(1) by (auto simp: ecm_note_def)
  let ?bs = "told_bytes idx m" and ?d = "d\<lparr>ed_isOpen := True, ed_notifyState := st, ed_notifyReq := None\<rparr>"
  let ?r = "r\<lparr>rl_req := (rl_req r)\<lparr>q_length := of_nat (length ?bs)\<rparr>\<rparr>"
  let ?b = "(store_bytes (q_buf (rl_req r)) ?bs (ew_base w))\<lparr>w_g := put_freq q ?r (w_g (ew_base w))\<rparr>"
  have g: "get_req q ?b = Some ?r" by simp
  from submit_run[OF g, of K] obtain ret k where s: "acm_submit K q ?b = Some (ret, ?b\<lparr>w_g := set_fkern k (w_g ?b),
     w_sent := w_sent ?b @ [(q, buf_bytes (q_buf (rl_req ?r)) (unat (q_length (rl_req ?r))) ?b, ret = HDF_SUCCESS)]\<rparr>)" (is "_ = Some (ret, ?c)") .
  have n: "unat (of_nat (length ?bs) :: u32) = length ?bs" using told_length(2)[of idx m] by (simp add: unat_of_nat)
  have "buf_bytes (q_buf (rl_req r)) (length ?bs) ?b = ?bs" using buf_store[of "q_buf (rl_req r)" ?bs "ew_base w"] by (simp add: buf_bytes_def)
  then have sent: "w_sent ?c = w_sent (ew_base w) @ [told_entry q idx (ret = HDF_SUCCESS) m]" by (simp add: told_entry_def n)
  have msg: "ecm_message (d\<lparr>ed_isOpen := True\<rparr>) = Some (?bs, st)" using assms(3) r(6) by (simp add: message_told)
  let ?e = "if ret_neg ret then ?d\<lparr>ed_notifyReq := Some q\<rparr> else ?d"
  let ?w = "w\<lparr>ew_ecms := (ew_ecms w)(a \<mapsto> ?e), ew_base := ?c\<rparr>"
  have run: "EcmDoNotify K a w = Some (if ret_neg ret then put_ecm a (?d\<lparr>ed_notifyReq := Some q\<rparr>) (w\<lparr>ew_ecms := (ew_ecms w)(a \<mapsto> ?d), ew_base := ?c\<rparr>)
      else w\<lparr>ew_ecms := (ew_ecms w)(a \<mapsto> ?d), ew_base := ?c\<rparr>)"
    using r assms(2) msg s told_length(1)[of idx m]
    by (simp add: EcmDoNotify_def on_base_def on_base_ret_def store_req_def send_with_def upd_req_def)
  show ?thesis by (rule that[OF run, of ret]) (use assms(1) r(2-6) sent in \<open>auto simp: ecm_note_def\<close>)
qed

subsection \<open>Runs\<close>

text \<open>
  The device is enabled, or the notification that is on its way completes, in any order; the kernel accepts the notifications.
\<close>

inductive ecm_reach :: "'k fn_os \<Rightarrow> ptr \<Rightarrow> ptr \<Rightarrow> 'k ecmw \<Rightarrow> 'k ecmw \<Rightarrow> bool" for K a q w0 where
  begins: "ecm_reach K a q w0 w0"
| enables: "ecm_reach K a q w0 w \<Longrightarrow> EcmEnable K a w = Some (r, v) \<Longrightarrow> accepted (news (ew_base w) (ew_base v)) \<Longrightarrow> ecm_reach K a q w0 v"
| completes: "ecm_reach K a q w0 w \<Longrightarrow> ew_ecms w a = Some d \<Longrightarrow> ed_notifyReq d = None \<Longrightarrow> tx_done q 0 n (ew_base w) = Some b \<Longrightarrow>
    EcmNotifyComplete K q (w\<lparr>ew_base := b\<rparr>) = Some v \<Longrightarrow> accepted (news (ew_base w) (ew_base v)) \<Longrightarrow> ecm_reach K a q w0 v"

text \<open>A message about the speed directly follows one about the connection.\<close>

definition paired :: "ecm_told list \<Rightarrow> bool" where
  "paired ms \<longleftrightarrow> (\<forall>i<length ms. ms ! i = Speed \<longrightarrow> 0 < i \<and> ms ! (i - 1) = Connected)"

lemma paired_snoc: "paired ms \<Longrightarrow> (m = Speed \<longrightarrow> ms \<noteq> [] \<and> last ms = Connected) \<Longrightarrow> paired (ms @ [m])"
  by (auto simp: paired_def nth_append less_Suc_eq last_conv_nth)

text \<open>The state of the machine fits what the host was told: an idle machine has told everything.\<close>

definition told_state :: "UsbEcmDevice \<Rightarrow> ecm_told list \<Rightarrow> bool" where
  "told_state d ms \<longleftrightarrow>
     (case ed_notifyReq d of
        Some q \<Rightarrow> ed_notifyState d = ECM_NOTIFY_NONE \<and> (ms = [] \<or> last ms = Speed)
      | None \<Rightarrow> ms \<noteq> [] \<and> (ed_notifyState d = ECM_NOTIFY_SPEED \<longrightarrow> last ms = Connected) \<and> (ed_notifyState d = ECM_NOTIFY_NONE \<longrightarrow> last ms = Speed))"

definition ecm_inv :: "'k ecmw \<Rightarrow> ptr \<Rightarrow> ptr \<Rightarrow> u8 \<Rightarrow> 'k ecmw \<Rightarrow> UsbEcmDevice \<Rightarrow> ecm_told list \<Rightarrow> bool" where
  "ecm_inv w0 a q idx w d ms \<longleftrightarrow> ecm_note w a q idx d \<and> ecm_closed w d \<and>
     w_sent (ew_base w) = w_sent (ew_base w0) @ map (told_entry q idx True) ms \<and> paired ms \<and> told_state d ms"

text \<open>How many completions it takes until the machine is idle.\<close>

definition ecm_left :: "UsbEcmDevice \<Rightarrow> nat" where
  "ecm_left d = (if ed_notifyReq d \<noteq> None then 0 else case ed_notifyState d of ECM_NOTIFY_NONE \<Rightarrow> 1 | ECM_NOTIFY_SPEED \<Rightarrow> 2 | ECM_NOTIFY_CONNECT \<Rightarrow> 3)"

text \<open>A call of \<open>EcmDoNotify\<close> with an available request.\<close>

lemma DoNotify_step:
  assumes "ecm_note w a q idx d" "ed_notifyReq d = Some q" "w_sent (ew_base w) = w_sent (ew_base w0) @ map (told_entry q idx True) ms" "paired ms"
    and "ed_notifyState d = ECM_NOTIFY_SPEED \<longrightarrow> ms \<noteq> [] \<and> last ms = Connected" "ed_notifyState d = ECM_NOTIFY_NONE \<longrightarrow> ms = [] \<or> last ms = Speed"
  obtains v d' ms' where "EcmDoNotify K a w = Some v" "ecm_note v a q idx d'" "ew_ports v = ew_ports w" "ed_port d' = ed_port d"
    "accepted (news (ew_base w) (ew_base v)) \<longrightarrow>
       w_sent (ew_base v) = w_sent (ew_base w0) @ map (told_entry q idx True) ms' \<and> paired ms' \<and> told_state d' ms' \<and>
       ecm_left d' < ecm_left (d\<lparr>ed_notifyReq := None\<rparr>)"
proof (cases "next_told (ed_notifyState d)")
  case None
  then have st: "ed_notifyState d = ECM_NOTIFY_NONE" by (cases "ed_notifyState d") simp_all
  show ?thesis
    by (rule that[OF DoNotify_quiet[OF assms(1,2) None], of "d\<lparr>ed_isOpen := True\<rparr>" ms])
      (use assms st in \<open>auto simp: ecm_note_def told_state_def ecm_left_def\<close>)
next
  case (Some x)
  obtain m st where m: "next_told (ed_notifyState d) = Some (m, st)" using Some by (cases x) simp
  from DoNotify_sends[OF assms(1,2) m, of K] obtain ret v where v: "EcmDoNotify K a w = Some v"
    "ecm_note v a q idx (d\<lparr>ed_isOpen := True, ed_notifyState := st, ed_notifyReq := (if ret_neg ret then Some q else None)\<rparr>)"
    "w_sent (ew_base v) = w_sent (ew_base w) @ [told_entry q idx (ret = HDF_SUCCESS) m]" "ew_ports v = ew_ports w" .
  have ok: "ret = HDF_SUCCESS" if "accepted (news (ew_base w) (ew_base v))" using that v(3) by (simp add: accepted_def news_def told_entry_def)
  have p: "paired (ms @ [m])" using assms(4,5) m by (intro paired_snoc) (cases "ed_notifyState d"; simp)+
  show ?thesis
    by (rule that[OF v(1,2,4), of "ms @ [m]"])
      (use assms(3) p ok m v(3) in \<open>auto simp: told_state_def ecm_left_def elim!: next_told.elims\<close>)
qed

lemma Enable_step:
  assumes "ecm_inv w0 a q idx w d ms"
  obtains v d' ms' where "EcmEnable K a w = Some (HDF_SUCCESS, v)" "accepted (news (ew_base w) (ew_base v)) \<longrightarrow> ecm_inv w0 a q idx v d' ms'"
proof -
  note out = that
  obtain p s where s: "ed_port d = Some p" "ew_ports w p = Some s" "ep_refCount s = 0" "EcmLock \<notin> ep_locks s" using assms by (auto simp: ecm_inv_def ecm_closed_def)
  have d: "ew_ecms w a = Some d" "ed_notifyReq d \<in> {None, Some q}" using assms by (simp_all add: ecm_inv_def ecm_note_def)
  let ?s = "s\<lparr>ep_locks := insert EcmLock (ep_locks s), ep_ecm := Some a\<rparr>" and ?d = "d\<lparr>ed_notifyState := ECM_NOTIFY_CONNECT\<rparr>"
  let ?w = "put_ecm a ?d (put_eport p ?s w)"
  have run: "EcmEnable K a w = do { v \<leftarrow> EcmDoNotify K a ?w; v' \<leftarrow> ecm_give EcmLock p v; Some (HDF_SUCCESS, v') }"
    using s d(1) by (simp add: EcmEnable_def ecm_take_def EcmNotify_def Let_def)
  have n: "ecm_note ?w a q idx ?d" using assms by (auto simp: ecm_inv_def ecm_note_def)
  have sent: "w_sent (ew_base ?w) = w_sent (ew_base w0) @ map (told_entry q idx True) ms" "paired ms" using assms by (simp_all add: ecm_inv_def)
  have fin: thesis if x: "EcmDoNotify K a ?w = Some v" "ecm_note v a q idx d'" "ew_ports v = ew_ports ?w" "ed_port d' = Some p"
    "accepted (news (ew_base ?w) (ew_base v)) \<longrightarrow> w_sent (ew_base v) = w_sent (ew_base w0) @ map (told_entry q idx True) ms' \<and> paired ms' \<and> told_state d' ms'" for v d' ms'
  proof -
    let ?v = "put_eport p (?s\<lparr>ep_locks := ep_locks ?s - {EcmLock}\<rparr>) v"
    have r: "EcmEnable K a w = Some (HDF_SUCCESS, ?v)" using run x(1,3) by (simp add: ecm_give_def)
    show thesis by (rule out[OF r, of d' ms']) (use x s in \<open>auto simp: ecm_inv_def ecm_note_def ecm_closed_def\<close>)
  qed
  show thesis
  proof (cases "ed_notifyReq d")
    case None
    have "EcmDoNotify K a ?w = Some ?w" by (rule DoNotify_busy[of _ _ ?d]) (use None in simp_all)
    from fin[OF this n, of ms] show ?thesis using None assms s(1) by (auto simp: ecm_inv_def told_state_def)
  next
    case (Some q')
    then have q: "ed_notifyReq ?d = Some q" using d(2) by simp
    from DoNotify_step[OF n q sent, of K] obtain v d' ms' where "EcmDoNotify K a ?w = Some v" "ecm_note v a q idx d'" "ew_ports v = ew_ports ?w" "ed_port d' = ed_port ?d"
      "accepted (news (ew_base ?w) (ew_base v)) \<longrightarrow> w_sent (ew_base v) = w_sent (ew_base w0) @ map (told_entry q idx True) ms' \<and> paired ms' \<and> told_state d' ms' \<and>
         ecm_left d' < ecm_left (?d\<lparr>ed_notifyReq := None\<rparr>)" by auto
    then show ?thesis using fin[of v d' ms'] s(1) by simp
  qed
qed

lemma Complete_step:
  assumes "ecm_inv w0 a q idx w d ms" "ed_notifyReq d = None" "tx_done q 0 n (ew_base w) = Some b"
  obtains v d' ms' where "EcmNotifyComplete K q (w\<lparr>ew_base := b\<rparr>) = Some v"
    "accepted (news (ew_base w) (ew_base v)) \<longrightarrow> ecm_inv w0 a q idx v d' ms' \<and> ecm_left d' < ecm_left d"
proof -
  obtain r where r: "ew_ecms w a = Some d" "ecm_req q w = Some r" "q_context (rl_req r) = Some a" "q_buf (rl_req r) \<noteq> 0" "16 \<le> unat (rl_bufLen r)"
    using assms(1) by (auto simp: ecm_inv_def ecm_note_def)
  let ?r = "r\<lparr>rl_req := (rl_req r)\<lparr>q_status := 0, q_actual := n\<rparr>\<rparr>" and ?d = "d\<lparr>ed_notifyReq := Some q\<rparr>"
  have b: "b = (ew_base w)\<lparr>w_g := put_freq q ?r (w_g (ew_base w))\<rparr>" using assms(3) r(2) by (simp add: tx_done_def upd_req_def)
  let ?w = "put_ecm a ?d (w\<lparr>ew_base := b\<rparr>)"
  have run: "EcmNotifyComplete K q (w\<lparr>ew_base := b\<rparr>) = EcmDoNotify K a ?w" using r(1,3) by (simp add: EcmNotifyComplete_def b)
  have nt: "ecm_note ?w a q idx ?d" using assms(1) r by (auto simp: ecm_inv_def ecm_note_def b)
  have sent: "w_sent (ew_base ?w) = w_sent (ew_base w0) @ map (told_entry q idx True) ms" "paired ms" using assms(1) by (simp_all add: ecm_inv_def b)
  have st: "told_state d ms" "ecm_closed w d" using assms(1) by (simp_all add: ecm_inv_def)
  have "ed_notifyReq ?d = Some q" by simp
  from DoNotify_step[OF nt this sent, of K] st(1) assms(2) obtain v d' ms' where v: "EcmDoNotify K a ?w = Some v" "ecm_note v a q idx d'" "ew_ports v = ew_ports ?w"
    "ed_port d' = ed_port ?d" "accepted (news (ew_base ?w) (ew_base v)) \<longrightarrow> w_sent (ew_base v) = w_sent (ew_base w0) @ map (told_entry q idx True) ms' \<and> paired ms' \<and>
       told_state d' ms' \<and> ecm_left d' < ecm_left (?d\<lparr>ed_notifyReq := None\<rparr>)" by (auto simp: told_state_def)
  have "ecm_left (?d\<lparr>ed_notifyReq := None\<rparr>) = ecm_left d" using assms(2) by (simp add: ecm_left_def)
  moreover have "news (ew_base ?w) (ew_base v) = news (ew_base w) (ew_base v)" by (simp add: news_def b)
  ultimately show thesis using that[of v d' ms'] v run st(2) by (auto simp: ecm_inv_def ecm_closed_def)
qed

lemma ecm_reach_inv:
  assumes "ecm_reach K a q w0 w" "ecm_inv w0 a q idx w0 d0 []"
  shows "\<exists>d ms. ecm_inv w0 a q idx w d ms"
  using assms(1)
proof induction
  case begins
  show ?case using assms(2) by blast
next
  case (enables w r v)
  then obtain d ms where "ecm_inv w0 a q idx w d ms" by blast
  from Enable_step[OF this, of K] show ?case using enables.hyps(2,3) by (metis option.inject prod.inject)
next
  case (completes w d n b v)
  then obtain d1 ms where i: "ecm_inv w0 a q idx w d1 ms" by blast
  then have "d1 = d" using completes.hyps(2) by (simp add: ecm_inv_def ecm_note_def)
  with i have i: "ecm_inv w0 a q idx w d ms" by simp
  from Complete_step[OF i completes.hyps(3,4), of K] show ?case using completes.hyps(5,6) by (metis option.inject)
qed

subsection \<open>The property\<close>

text \<open>
  C40. The host learns of the connection and then of its speed.  Start with an idle function whose port is closed.  However often the device is enabled, and whenever notifications
  complete, as long as the kernel accepts them: the host sees only well-formed messages; every message about the speed directly follows one about the connection; and when the function is idle,
  the last message was about the speed.  Enabling always returns with success and gives the lock back; a completion returns, and at most three completions
  after the last enabling everything is told.
\<close>

theorem EcmNotify_tells:
  assumes "ecm_reach K a q w0 w" "ecm_note w0 a q idx d0" "ecm_closed w0 d0" "ed_notifyReq d0 = Some q" "ed_notifyState d0 = ECM_NOTIFY_NONE"
  shows "\<exists>d ms. ecm_note w a q idx d \<and> ecm_closed w d \<and> news (ew_base w0) (ew_base w) = map (told_entry q idx True) ms \<and> paired ms \<and> told_state d ms \<and>
    (\<exists>v. EcmEnable K a w = Some (HDF_SUCCESS, v)) \<and>
    (\<forall>n b. ed_notifyReq d = None \<and> tx_done q 0 n (ew_base w) = Some b \<longrightarrow>
       (\<exists>v. EcmNotifyComplete K q (w\<lparr>ew_base := b\<rparr>) = Some v \<and> (accepted (news (ew_base w) (ew_base v)) \<longrightarrow> (\<exists>d'. ew_ecms v a = Some d' \<and> ecm_left d' < ecm_left d))))"
proof -
  have "ecm_inv w0 a q idx w0 d0 []" using assms(2-5) by (simp add: ecm_inv_def paired_def told_state_def)
  from ecm_reach_inv[OF assms(1) this] obtain d ms where i: "ecm_inv w0 a q idx w d ms" by blast
  obtain v where "EcmEnable K a w = Some (HDF_SUCCESS, v)" using Enable_step[OF i, of K] by blast
  moreover have "\<exists>v. EcmNotifyComplete K q (w\<lparr>ew_base := b\<rparr>) = Some v \<and> (accepted (news (ew_base w) (ew_base v)) \<longrightarrow> (\<exists>d'. ew_ecms v a = Some d' \<and> ecm_left d' < ecm_left d))"
    if "ed_notifyReq d = None" "tx_done q 0 n (ew_base w) = Some b" for n b
    using Complete_step[OF i that, of K] by (metis ecm_inv_def ecm_note_def)
  moreover have "news (ew_base w0) (ew_base w) = map (told_entry q idx True) ms" using i by (simp add: ecm_inv_def news_def)
  ultimately show ?thesis using i by (intro exI[of _ d] exI[of _ ms]) (auto simp: ecm_inv_def)
qed

definition ex_ecm :: UsbEcmDevice where
  "ex_ecm = zero_ecmDevice\<lparr>ed_port := Some 71, ed_notifyReq := Some 6\<rparr>"

definition ex_ecm_world :: "unit ecmw" where
  "ex_ecm_world = \<lparr>ew_base = ex_world\<lparr>w_g := (w_g ex_world)\<lparr>g_freqs := [6 \<mapsto> ex_request 60 70]\<rparr>\<rparr>, ew_ecms = [70 \<mapsto> ex_ecm], ew_ports = [71 \<mapsto> zero_ecm], ew_service = Some 70\<rparr>"

theorem EcmNotify_tells_witness:
  "\<exists>v d ms. EcmEnable ex_acm_os 70 ex_ecm_world = Some (HDF_SUCCESS, v) \<and> ecm_note v 70 6 0 d \<and>
     news (ew_base ex_ecm_world) (ew_base v) = map (told_entry 6 0 True) ms \<and> paired ms \<and> told_state d ms"
proof -
  have ok: "ecm_note ex_ecm_world 70 6 0 ex_ecm" "ecm_closed ex_ecm_world ex_ecm" "ed_notifyReq ex_ecm = Some 6" "ed_notifyState ex_ecm = ECM_NOTIFY_NONE"
    by (simp_all add: ecm_note_def ecm_closed_def ex_ecm_world_def ex_ecm_def zero_ecmDevice_def zero_ecm_def ex_request_def)
  have "\<exists>v x. EcmEnable ex_acm_os 70 ex_ecm_world = Some (HDF_SUCCESS, v) \<and> w_sent (ew_base v) = w_sent (ew_base ex_ecm_world) @ [(6, x, True)]"
    by (simp add: EcmEnable_def ecm_take_def ecm_give_def EcmNotify_def EcmDoNotify_def ecm_message_def on_base_def on_base_ret_def store_req_def send_with_def upd_req_def
      notification_bytes_def store_bytes_def acm_submit_def UsbFnSubmitRequestAsync_def UsbFnIoMgrRequestSubmitAsync_def ReqToIoData_def UsbFnAdapterPipeIo_def ex_acm_os_def
      null_fn_os_def ex_ecm_world_def ex_ecm_def zero_ecmDevice_def zero_ecm_def ex_request_def ex_world_def null_gadget_def Let_def)
  then obtain v x where v: "EcmEnable ex_acm_os 70 ex_ecm_world = Some (HDF_SUCCESS, v)" "w_sent (ew_base v) = w_sent (ew_base ex_ecm_world) @ [(6, x, True)]" by blast
  have "accepted (news (ew_base ex_ecm_world) (ew_base v))" using v(2) by (simp add: accepted_def news_def)
  then have "ecm_reach ex_acm_os 70 6 ex_ecm_world v" using ecm_reach.enables[OF ecm_reach.begins v(1)] by simp
  from EcmNotify_tells[OF this ok] v(1) show ?thesis by blast
qed

end
