(* ===== verification/Ecm_View.thy ===== *)
theory Ecm_View
  imports Ecm_Notify
begin

text \<open>
  The port of the network function seen as a port of the serial function.  The two drivers move data in the same way but for their locks and a check of the status, so
  the loops of the network function simulate those of the serial function, and what was proved there carries over.
\<close>

subsection \<open>The view\<close>

definition serial_port :: "UsbEcm \<Rightarrow> UsbSerial" where
  "serial_port s = zero_serial\<lparr>sp_acm := ep_ecm s, sp_lock := EcmLock \<in> ep_locks s, sp_readPool := ep_readPool s, sp_readQueue := ep_readQueue s,
     sp_readStarted := ep_readStarted s, sp_readAllocated := ep_readAllocated s, sp_readFifo := ep_readFifo s, sp_readData := ep_readData s,
     sp_writePool := ep_writePool s, sp_writeStarted := ep_writeStarted s, sp_writeAllocated := ep_writeAllocated s, sp_writeFifo := ep_writeFifo s,
     sp_writeData := ep_writeData s, sp_writeBusy := ep_writeBusy s, sp_refCount := ep_refCount s\<rparr>"

definition serial_pipe :: "UsbEcmPipe \<Rightarrow> UsbAcmPipe" where
  "serial_pipe x = \<lparr>ap_id = ecp_id x, ap_maxPacketSize = ecp_maxPacketSize x\<rparr>"

definition serial_dev :: "UsbEcmDevice \<Rightarrow> UsbAcmDevice" where
  "serial_dev d = zero_acm\<lparr>ac_dataInPipe := serial_pipe (ed_dataInPipe d), ac_dataOutPipe := serial_pipe (ed_dataOutPipe d)\<rparr>"

text \<open>The flag \<open>i\<close> is the variable that keeps the serial function from storing what arrives.\<close>

definition as_serial :: "int \<Rightarrow> 'k ecmw \<Rightarrow> 'k acmw" where
  "as_serial i w = (ew_base w)\<lparr>w_acms := \<lambda>a. map_option serial_dev (ew_ecms w a), w_ports := \<lambda>p. map_option serial_port (ew_ports w p), w_inFifo := i, w_isStartRead := False\<rparr>"

lemma serial_port_fields [simp]:
  "sp_acm (serial_port s) = ep_ecm s" "sp_lock (serial_port s) \<longleftrightarrow> EcmLock \<in> ep_locks s" "sp_readPool (serial_port s) = ep_readPool s" "sp_readQueue (serial_port s) = ep_readQueue s"
  "sp_readStarted (serial_port s) = ep_readStarted s" "sp_readFifo (serial_port s) = ep_readFifo s" "sp_writePool (serial_port s) = ep_writePool s"
  "sp_writeStarted (serial_port s) = ep_writeStarted s" "sp_writeFifo (serial_port s) = ep_writeFifo s" "sp_writeBusy (serial_port s) = ep_writeBusy s"
  "sp_readAllocated (serial_port s) = ep_readAllocated s" "sp_writeAllocated (serial_port s) = ep_writeAllocated s"
  by (simp_all add: serial_port_def)

lemma serial_port_upd [simp]:
  "serial_port (s\<lparr>ep_readPool := x\<rparr>) = (serial_port s)\<lparr>sp_readPool := x\<rparr>"
  "serial_port (s\<lparr>ep_readQueue := x\<rparr>) = (serial_port s)\<lparr>sp_readQueue := x\<rparr>" "serial_port (s\<lparr>ep_readStarted := n\<rparr>) = (serial_port s)\<lparr>sp_readStarted := n\<rparr>"
  "serial_port (s\<lparr>ep_readFifo := f\<rparr>) = (serial_port s)\<lparr>sp_readFifo := f\<rparr>" "serial_port (s\<lparr>ep_writePool := x\<rparr>) = (serial_port s)\<lparr>sp_writePool := x\<rparr>"
  "serial_port (s\<lparr>ep_writeStarted := n\<rparr>) = (serial_port s)\<lparr>sp_writeStarted := n\<rparr>" "serial_port (s\<lparr>ep_writeFifo := f\<rparr>) = (serial_port s)\<lparr>sp_writeFifo := f\<rparr>"
  "serial_port (s\<lparr>ep_writeBusy := b\<rparr>) = (serial_port s)\<lparr>sp_writeBusy := b\<rparr>"
  by (simp_all add: serial_port_def)

lemma serial_port_locks: "serial_port (s\<lparr>ep_locks := L\<rparr>) = (serial_port s)\<lparr>sp_lock := EcmLock \<in> L\<rparr>"
  by (simp add: serial_port_def)

text \<open>The other locks are not seen.\<close>

lemma serial_port_other [simp]: "(EcmLock \<in> L) = (EcmLock \<in> ep_locks s) \<Longrightarrow> serial_port (s\<lparr>ep_locks := L\<rparr>) = serial_port s"
  by (simp add: serial_port_def)

lemma serial_dev_fields [simp]:
  "ap_maxPacketSize (ac_dataInPipe (serial_dev d)) = ecp_maxPacketSize (ed_dataInPipe d)" "ap_maxPacketSize (ac_dataOutPipe (serial_dev d)) = ecp_maxPacketSize (ed_dataOutPipe d)"
  by (simp_all add: serial_dev_def serial_pipe_def)

lemma as_serial_fields [simp]:
  "w_g (as_serial i w) = w_g (ew_base w)" "w_buf (as_serial i w) = w_buf (ew_base w)" "w_sent (as_serial i w) = w_sent (ew_base w)" "w_inFifo (as_serial i w) = i"
  "w_ports (as_serial i w) p = map_option serial_port (ew_ports w p)" "w_acms (as_serial i w) a = map_option serial_dev (ew_ecms w a)"
  "w_ctrls (as_serial i w) = w_ctrls (ew_base w)" "w_isStartRead (as_serial i w) = False"
  by (simp_all add: as_serial_def)

lemma as_serial_put: "as_serial i (put_eport p s w) = put_port p (serial_port s) (as_serial i w)"
  by (simp add: as_serial_def fun_eq_iff)

text \<open>Operations of the shared part do not see the view.\<close>

lemma view_store: "store_req q bs (as_serial i w) = map_option (as_serial i) (on_base (store_req q bs) w)"
  by (simp add: store_req_def on_base_def as_serial_def store_bytes_def split: Option.bind_split cong: if_cong)

lemma view_send: "send_with K q n (as_serial i w) = map_option (apsnd (as_serial i)) (on_base_ret (send_with K q n) w)"
  by (auto simp: send_with_def upd_req_def acm_submit_def on_base_ret_def as_serial_def buf_bytes_def split: Option.bind_splits)

lemma on_base_frame: "on_base f w = Some v \<Longrightarrow> ew_ports v = ew_ports w \<and> ew_ecms v = ew_ecms w"
  by (auto simp: on_base_def split: Option.bind_splits)

lemma on_base_ret_frame: "on_base_ret f w = Some (r, v) \<Longrightarrow> ew_ports v = ew_ports w \<and> ew_ecms v = ew_ecms w"
  by (auto simp: on_base_ret_def split: Option.bind_splits)

subsection \<open>Simulation\<close>

text \<open>A store of the network function whose port holds the locks \<open>L\<close>, seen as a store of the serial function.\<close>

definition viewed :: "int \<Rightarrow> ptr \<Rightarrow> ecm_lock set \<Rightarrow> 'k acmw \<Rightarrow> 'k ecmw \<Rightarrow> bool" where
  "viewed i p L u w \<longleftrightarrow> as_serial i w = u \<and> (\<exists>t. ew_ports w p = Some t \<and> ep_locks t = L)"

lemma loop_sim:
  assumes "loop_opt f x = Some y" "R x x'" and step: "\<And>x x' go y. R x x' \<Longrightarrow> f x = Some (go, y) \<Longrightarrow> \<exists>y'. g x' = Some (go, y') \<and> R y y'"
  shows "\<exists>y'. loop_opt g x' = Some y' \<and> R y y'"
proof -
  have "\<forall>x'. R x x' \<longrightarrow> (\<forall>x x' go y. R x x' \<longrightarrow> f x = Some (go, y) \<longrightarrow> (\<exists>y'. g x' = Some (go, y') \<and> R y y')) \<longrightarrow> (\<exists>y'. loop_opt g x' = Some y' \<and> R y y')"
  proof (rule loop_opt.raw_induct[OF _ assms(1)], intro allI impI)
    fix loop :: "('a \<Rightarrow> (bool \<times> 'a) option) \<Rightarrow> 'a \<Rightarrow> 'a option" and h x y x'
    assume IH: "\<And>h x y. loop h x = Some y \<Longrightarrow> \<forall>x'. R x x' \<longrightarrow> (\<forall>x x' go y. R x x' \<longrightarrow> h x = Some (go, y) \<longrightarrow> (\<exists>y'. g x' = Some (go, y') \<and> R y y')) \<longrightarrow> (\<exists>y'. loop_opt g x' = Some y' \<and> R y y')"
      and run: "do { (go, t) \<leftarrow> h x; if go then loop h t else Some t } = Some y" and r: "R x x'"
      and st: "\<forall>x x' go y. R x x' \<longrightarrow> h x = Some (go, y) \<longrightarrow> (\<exists>y'. g x' = Some (go, y') \<and> R y y')"
    obtain go t where t: "h x = Some (go, t)" "if go then loop h t = Some y else y = t" using run by (auto split: Option.bind_splits if_splits)
    obtain t' where t': "g x' = Some (go, t')" "R t t'" using st r t(1) by blast
    show "\<exists>y'. loop_opt g x' = Some y' \<and> R y y'"
      using t(2) t' IH[of h t y] st by (subst loop_opt.simps) (auto split: if_splits)
  qed
  then show ?thesis using assms(2) step by blast
qed

text \<open>Filling a request from the ring.\<close>

lemma sim_tx_fill:
  assumes "ew_ports w p = Some s" "ep_ecm s = Some a" "ew_ecms w a = Some d" "LockWriteFifo \<notin> ep_locks s"
    and "DataFifoRead (ep_writeFifo s) (ucast (ecp_maxPacketSize (ed_dataInPipe d))) = Some (len, bs, f)"
    and "store_req q bs (put_port p ((serial_port s)\<lparr>sp_writeFifo := f\<rparr>) (as_serial i w)) = Some u"
  obtains v where "ecm_tx_fill p q w = Some (len, v)" "as_serial i v = u" "ew_ports v p = Some (s\<lparr>ep_writeFifo := f\<rparr>)" "ew_ecms v = ew_ecms w"
proof -
  let ?s = "s\<lparr>ep_locks := insert LockWriteFifo (ep_locks s), ep_writeFifo := f\<rparr>"
  let ?w = "put_eport p ?s w"
  have "as_serial i ?w = put_port p ((serial_port s)\<lparr>sp_writeFifo := f\<rparr>) (as_serial i w)" by (simp add: as_serial_put)
  then have "map_option (as_serial i) (on_base (store_req q bs) ?w) = Some u" using assms(6) view_store[of q bs i ?w] by simp
  then obtain v where v: "on_base (store_req q bs) ?w = Some v" "as_serial i v = u" by auto
  have fr: "ew_ports v = ew_ports ?w" "ew_ecms v = ew_ecms w" using on_base_frame[OF v(1)] by simp_all
  let ?t = "s\<lparr>ep_writeFifo := f\<rparr>"
  have t: "?s\<lparr>ep_locks := ep_locks ?s - {LockWriteFifo}\<rparr> = ?t" using assms(4) by (cases s) auto
  have "ecm_tx_fill p q w = Some (len, put_eport p ?t v)"
    using assms(1-5) v(1) fr t by (simp add: ecm_tx_fill_def ecm_take_def ecm_give_def)
  moreover have "as_serial i (put_eport p ?t v) = u"
  proof -
    have "w_ports u p = Some (serial_port ?t)" using fr(1) by (simp add: v(2)[symmetric])
    then show ?thesis by (simp add: as_serial_put v(2) fun_upd_idem)
  qed
  ultimately show ?thesis using that fr(2) by simp
qed

lemma sim_tx_body:
  assumes "viewed i p L u w" "LockWriteFifo \<notin> L" "start_tx_body K p (r, u) = Some (go, (r', u'))"
  shows "\<exists>w'. ecm_tx_body K p w = Some (go, w') \<and> viewed i p L u' w'"
proof -
  obtain s where s: "ew_ports w p = Some s" "ep_locks s = L" "as_serial i w = u" using assms(1) by (auto simp: viewed_def)
  show ?thesis
  proof (cases "ep_writeBusy s \<or> ep_writePool s = [] \<or> ep_writeStarted s \<ge> QUEUE_SIZE")
    case True
    then have "ecm_tx_body K p w = Some (False, w)" "go = False" "u' = u" using s assms(3) by (auto simp: ecm_tx_body_def start_tx_body_def split: if_splits)
    then show ?thesis using assms(1) by simp
  next
    case False
    let ?q = "hd (ep_writePool s)" and ?su = "serial_port s"
    from False assms(3) s obtain a d len bs f u1 where a: "ep_ecm s = Some a" "ew_ecms w a = Some d"
      "DataFifoRead (ep_writeFifo s) (ucast (ecp_maxPacketSize (ed_dataInPipe d))) = Some (len, bs, f)"
      "store_req ?q bs (put_port p (?su\<lparr>sp_writeFifo := f\<rparr>) u) = Some u1"
      "(if len = 0 then Some (False, (r, u1))
        else let s2 = ?su\<lparr>sp_writeFifo := f, sp_writePool := tl (ep_writePool s)\<rparr> in
          do { (x, w3) \<leftarrow> send_with K ?q len (put_port p (s2\<lparr>sp_writeBusy := True\<rparr>) u1);
               s3 \<leftarrow> w_ports w3 p;
               let s4 = s3\<lparr>sp_writeBusy := False\<rparr> in
               if x \<noteq> HDF_SUCCESS then Some (False, (x, put_port p (s4\<lparr>sp_writePool := sp_writePool s4 @ [?q]\<rparr>) w3))
               else let s5 = s4\<lparr>sp_writeStarted := sp_writeStarted s4 + 1\<rparr> in Some (sp_acm s5 \<noteq> None, (x, put_port p s5 w3)) }) = Some (go, (r', u'))"
      by (auto simp: start_tx_body_def Let_def split: Option.bind_splits cong: if_cong)
    from sim_tx_fill[OF s(1) a(1,2) _ a(3), of ?q i u1] a(4) s(2,3) assms(2) obtain v where
      v: "ecm_tx_fill p ?q w = Some (len, v)" "as_serial i v = u1" "ew_ports v p = Some (s\<lparr>ep_writeFifo := f\<rparr>)" "ew_ecms v = ew_ecms w" by auto
    show ?thesis
    proof (cases "len = 0")
      case True
      then have "ecm_tx_body K p w = Some (False, v)" using False s(1) v(1) by (simp add: ecm_tx_body_def)
      then show ?thesis using True a(5) v(2,3) s(2) by (auto simp: viewed_def)
    next
      case n0: False
      let ?t = "s\<lparr>ep_writeFifo := f, ep_writePool := tl (ep_writePool s), ep_writeBusy := True\<rparr>"
      have "as_serial i (put_eport p ?t v) = put_port p (?su\<lparr>sp_writeFifo := f, sp_writePool := tl (ep_writePool s), sp_writeBusy := True\<rparr>) u1" by (simp add: as_serial_put v(2))
      then obtain x z where z: "on_base_ret (send_with K ?q len) (put_eport p ?t v) = Some (x, z)"
        using a(5) n0 view_send[of K ?q len i "put_eport p ?t v"] by (auto simp: Let_def split: Option.bind_splits)
      have zp: "ew_ports z p = Some ?t" using on_base_ret_frame[OF z] by simp
      have zu: "send_with K ?q len (put_port p (?su\<lparr>sp_writeFifo := f, sp_writePool := tl (ep_writePool s), sp_writeBusy := True\<rparr>) u1) = Some (x, as_serial i z)"
        using view_send[of K ?q len i "put_eport p ?t v"] z by (simp add: as_serial_put v(2))
      show ?thesis using False n0 s(1,2) v(1,3) z zp zu a(1,5) by (auto simp: ecm_tx_body_def Let_def viewed_def as_serial_put split: if_splits)
    qed
  qed
qed

lemma sim_StartTx:
  assumes "viewed i p L u w" "LockWriteFifo \<notin> L" "UsbSerialStartTx K (Some p) u = Some (r, u')"
  obtains w' where "UsbEcmStartTx K p w = Some (HDF_SUCCESS, w')" "viewed i p L u' w'"
proof -
  obtain s where s: "ew_ports w p = Some s" "as_serial i w = u" using assms(1) by (auto simp: viewed_def)
  show ?thesis
  proof (cases "ep_ecm s")
    case None
    then show ?thesis using that[of w] s assms by (auto simp: UsbEcmStartTx_def UsbSerialStartTx_def)
  next
    case (Some a)
    then have l: "loop_opt (start_tx_body K p) (RetErr HDF_FAILURE, u) = Some (r, u')" using assms(3) s by (auto simp: UsbSerialStartTx_def)
    have "\<exists>w'. loop_opt (ecm_tx_body K p) w = Some w' \<and> viewed i p L (snd (r, u')) w'"
      by (rule loop_sim[OF l, where R = "\<lambda>x. viewed i p L (snd x)"]) (use assms sim_tx_body in \<open>fastforce+\<close>)
    then show ?thesis using that Some s(1) by (auto simp: UsbEcmStartTx_def)
  qed
qed

subsection \<open>Receiving\<close>

lemma sim_rx_body:
  assumes "viewed i p L u w" "start_rx_body K p u = Some (go, u')"
  shows "\<exists>w'. ecm_rx_body K p w = Some (go, w') \<and> viewed i p L u' w'"
proof -
  obtain s where s: "ew_ports w p = Some s" "ep_locks s = L" "as_serial i w = u" using assms(1) by (auto simp: viewed_def)
  show ?thesis
  proof (cases "ep_readPool s = [] \<or> ep_readStarted s \<ge> QUEUE_SIZE")
    case True
    then have "ecm_rx_body K p w = Some (False, w)" "go = False" "u' = u" using s assms(2) by (auto simp: ecm_rx_body_def start_rx_body_def split: if_splits)
    then show ?thesis using assms(1) by simp
  next
    case False
    let ?q = "hd (ep_readPool s)" and ?t = "s\<lparr>ep_readPool := tl (ep_readPool s)\<rparr>"
    have u: "put_port p ((serial_port s)\<lparr>sp_readPool := tl (ep_readPool s)\<rparr>) u = as_serial i (put_eport p ?t w)" using s(3) by (simp add: as_serial_put)
    from False assms(2) s obtain a d where a: "ep_ecm s = Some a" "ew_ecms w a = Some d" by (auto simp: start_rx_body_def Let_def split: Option.bind_splits)
    let ?n = "ucast (ecp_maxPacketSize (ed_dataOutPipe d)) :: u32"
    obtain x z where z: "on_base_ret (send_with K ?q ?n) (put_eport p ?t w) = Some (x, z)"
      using False assms(2) s a view_send[of K ?q ?n i "put_eport p ?t w"] u by (auto simp: start_rx_body_def Let_def split: Option.bind_splits)
    have zp: "ew_ports z p = Some ?t" using on_base_ret_frame[OF z] by simp
    have zu: "send_with K ?q ?n (put_port p ((serial_port s)\<lparr>sp_readPool := tl (ep_readPool s)\<rparr>) u) = Some (x, as_serial i z)"
      using view_send[of K ?q ?n i "put_eport p ?t w"] z u by simp
    show ?thesis using False s a z zp zu assms(2) by (auto simp: ecm_rx_body_def start_rx_body_def Let_def viewed_def as_serial_put split: if_splits)
  qed
qed

lemma sim_StartRx:
  assumes "viewed i p L u w" "UsbSerialStartRx K p u = Some (n, u')"
  obtains w' where "UsbEcmStartRx K p w = Some (n, w')" "viewed i p L u' w'"
proof -
  have l: "loop_opt (start_rx_body K p) u = Some u'" using assms(2) by (auto simp: UsbSerialStartRx_def split: Option.bind_splits)
  have "\<exists>w'. loop_opt (ecm_rx_body K p) w = Some w' \<and> viewed i p L u' w'"
    by (rule loop_sim[OF l, where R = "viewed i p L"]) (use assms(1) sim_rx_body in blast)+
  then obtain w' where w: "loop_opt (ecm_rx_body K p) w = Some w'" "viewed i p L u' w'" by blast
  then show ?thesis using that[of w'] assms(2) l by (auto simp: UsbEcmStartRx_def UsbSerialStartRx_def viewed_def)
qed

text \<open>Bytes that arrive go into the ring when the request has the status 0, which the flag has to say.\<close>

lemma sim_rx_store:
  assumes "ew_ports w p = Some s" "LockReadFifo \<notin> ep_locks s" "q_status (rl_req r) = 0 \<longleftrightarrow> i \<noteq> 0" "rx_into_fifo (as_serial i w) r (ep_readFifo s) = Some f"
  shows "ecm_rx_store p r w = Some (put_eport p (s\<lparr>ep_readFifo := f\<rparr>) w)"
proof -
  have b: "buf_bytes a n (as_serial i w) = buf_bytes a n (ew_base w)" for a n by (simp add: buf_bytes_def)
  have "s\<lparr>ep_locks := insert LockReadFifo (ep_locks s) - {LockReadFifo}\<rparr> = s" using assms(2) by (cases s) auto
  then have t: "s\<lparr>ep_locks := insert LockReadFifo (ep_locks s) - {LockReadFifo}, ep_readFifo := f\<rparr> = s\<lparr>ep_readFifo := f\<rparr>" by metis
  show ?thesis
  proof (cases "q_actual (rl_req r) \<noteq> 0 \<and> i \<noteq> 0")
    case True
    then show ?thesis using assms t by (auto simp: ecm_rx_store_def rx_into_fifo_def ecm_take_def ecm_give_def Let_def b buf_bytes_def)
  next
    case False
    then have "f = ep_readFifo s" using assms(4) by (auto simp: rx_into_fifo_def Let_def split: if_splits)
    then show ?thesis using False assms(1,3) by (auto simp: ecm_rx_store_def Let_def fun_upd_idem)
  qed
qed

definition flagged :: "int \<Rightarrow> ptr \<Rightarrow> 'k ecmw \<Rightarrow> bool" where
  "flagged i p w \<longleftrightarrow> (\<forall>s q r. ew_ports w p = Some s \<and> q \<in> set (ep_readQueue s) \<and> ecm_req q w = Some r \<longrightarrow> (q_status (rl_req r) = 0 \<longleftrightarrow> i \<noteq> 0))"

lemma sim_push_body:
  assumes "viewed i p L u w" "flagged i p w" "LockReadFifo \<notin> L" "rx_push_body p (disc, u) = Some (go, (disc', u'))"
  shows "\<exists>w'. ecm_push_body p (disc, w) = Some (go, (disc', w')) \<and> viewed i p L u' w' \<and> flagged i p w'"
proof -
  obtain s where s: "ew_ports w p = Some s" "ep_locks s = L" "as_serial i w = u" using assms(1) by (auto simp: viewed_def)
  show ?thesis
  proof (cases "ep_readQueue s")
    case Nil
    then show ?thesis using s assms by (auto simp: ecm_push_body_def rx_push_body_def)
  next
    case (Cons q qs)
    from assms(4) s Cons obtain r f where r: "ecm_req q w = Some r" "rx_into_fifo (as_serial i w) r (ep_readFifo s) = Some f"
      "go" "disc' = (disc \<or> q_status (rl_req r) = STATUS_NO_DEVICE)"
      "u' = put_port p ((serial_port s)\<lparr>sp_readFifo := f, sp_readQueue := qs, sp_readPool := ep_readPool s @ [q], sp_readStarted := ep_readStarted s - 1\<rparr>) u"
      by (auto simp: rx_push_body_def split: Option.bind_splits)
    have "ecm_rx_store p r w = Some (put_eport p (s\<lparr>ep_readFifo := f\<rparr>) w)"
      using s r(1,2) Cons assms(2,3) by (intro sim_rx_store) (auto simp: flagged_def)
    then have "ecm_push_body p (disc, w) = Some (go, (disc', put_eport p (s\<lparr>ep_readFifo := f, ep_readQueue := qs, ep_readPool := ep_readPool s @ [q], ep_readStarted := ep_readStarted s - 1\<rparr>) w))"
      using s r Cons by (simp add: ecm_push_body_def)
    then show ?thesis using s r(5) assms(2) Cons by (auto simp: viewed_def flagged_def as_serial_put)
  qed
qed

lemma sim_RxPush:
  assumes "viewed i p L u w" "flagged i p w" "LockReadFifo \<notin> L" "UsbSerialRxPush K p u = Some u'"
  obtains w' where "UsbEcmRxPush K p w = Some w'" "viewed i p L u' w'"
proof -
  obtain disc u1 where l: "loop_opt (rx_push_body p) (False, u) = Some (disc, u1)" using assms(4) by (auto simp: UsbSerialRxPush_def split: Option.bind_splits)
  have "\<exists>y. loop_opt (ecm_push_body p) (False, w) = Some y \<and> (\<lambda>x y. fst x = fst y \<and> viewed i p L (snd x) (snd y) \<and> flagged i p (snd y)) (disc, u1) y"
    by (rule loop_sim[OF l, where R = "\<lambda>x y. fst x = fst y \<and> viewed i p L (snd x) (snd y) \<and> flagged i p (snd y)"])
      (use assms(1-3) sim_push_body in \<open>fastforce+\<close>)
  then obtain w1 where w1: "loop_opt (ecm_push_body p) (False, w) = Some (disc, w1)" "viewed i p L u1 w1" by auto
  obtain s where s: "ew_ports w1 p = Some s" "w_ports u1 p = Some (serial_port s)" using w1(2) by (auto simp: viewed_def)
  show ?thesis
  proof (cases "\<not> disc \<and> ep_ecm s \<noteq> None")
    case True
    then obtain n where n: "UsbSerialStartRx K p u1 = Some (n, u')" using assms(4) l s by (auto simp: UsbSerialRxPush_def split: if_splits)
    from sim_StartRx[OF w1(2) n] obtain w' where "UsbEcmStartRx K p w1 = Some (n, w')" "viewed i p L u' w'" .
    then show ?thesis using that[of w'] True w1(1) s(1) by (simp add: UsbEcmRxPush_def)
  next
    case False
    then show ?thesis using that[of w1] w1 s assms(4) l by (auto simp: UsbEcmRxPush_def UsbSerialRxPush_def split: if_splits)
  qed
qed

subsection \<open>Locks and completions\<close>

lemma sim_lock:
  assumes "viewed i p L u w" "EcmLock \<notin> L"
  obtains s where "ew_ports w p = Some s" "ep_locks s = L" "ecm_take EcmLock p w = Some (put_eport p (s\<lparr>ep_locks := insert EcmLock L\<rparr>) w)"
    "lock_port p u = Some (put_port p ((serial_port s)\<lparr>sp_lock := True\<rparr>) u)"
  using assms by (auto simp: viewed_def ecm_take_def lock_port_def)

lemma sim_put: "viewed i p L u w \<Longrightarrow> viewed i p (ep_locks t) (put_port p (serial_port t) u) (put_eport p t w)"
  by (auto simp: viewed_def as_serial_put)

lemma sim_unlock:
  assumes "viewed i p (insert EcmLock L) u w" "EcmLock \<notin> L" "unlock_port p u = Some u'"
  obtains w' where "ecm_give EcmLock p w = Some w'" "viewed i p L u' w'"
proof -
  obtain s where s: "ew_ports w p = Some s" "ep_locks s = insert EcmLock L" "as_serial i w = u" using assms(1) by (auto simp: viewed_def)
  have "w_ports u p = Some (serial_port s)" using s by (auto simp: s(3)[symmetric])
  then have "u' = put_port p (serial_port (s\<lparr>ep_locks := L\<rparr>)) u" using assms(2,3) by (simp add: unlock_port_def serial_port_locks)
  then show ?thesis using that[of "put_eport p (s\<lparr>ep_locks := L\<rparr>) w"] s(1,2) assms(2) sim_put[OF assms(1), of "s\<lparr>ep_locks := L\<rparr>"]
    by (simp add: ecm_give_def)
qed

lemma sim_WriteComplete:
  assumes "viewed i p L u w" "L \<inter> {EcmLock, LockWriteFifo} = {}" "get_req q u = Some r" "q_context (rl_req r) = Some p" "UsbSerialWriteComplete K q u = Some u'"
  obtains w' where "UsbEcmWriteComplete K q w = Some w'" "viewed i p L u' w'"
proof -
  have nl: "EcmLock \<notin> L" "LockWriteFifo \<notin> insert EcmLock L" using assms(2) by auto
  from sim_lock[OF assms(1) nl(1)] obtain s where s: "ew_ports w p = Some s" "ep_locks s = L"
    "ecm_take EcmLock p w = Some (put_eport p (s\<lparr>ep_locks := insert EcmLock L\<rparr>) w)" "lock_port p u = Some (put_port p ((serial_port s)\<lparr>sp_lock := True\<rparr>) u)" .
  let ?t = "s\<lparr>ep_locks := insert EcmLock L, ep_writePool := ep_writePool s @ [q], ep_writeStarted := ep_writeStarted s - 1\<rparr>"
  let ?u = "put_port p (serial_port ?t) u" and ?w = "put_eport p ?t w"
  have v: "viewed i p (insert EcmLock L) ?u ?w" using sim_put[OF assms(1), of ?t] by simp
  have qw: "ecm_req q w = Some r" using assms(1,3) by (auto simp: viewed_def)
  obtain u1 where u1: "(if q_status (rl_req r) = STATUS_COMPLETED then map_option snd (UsbSerialStartTx K (Some p) ?u) else Some ?u) = Some u1" "unlock_port p u1 = Some u'"
    using assms(3-5) s(4) by (auto simp: UsbSerialWriteComplete_def Let_def serial_port_locks split: Option.bind_splits cong: if_cong)
  obtain w1 where w1: "(if q_status (rl_req r) = STATUS_COMPLETED then map_option snd (UsbEcmStartTx K p ?w) else Some ?w) = Some w1" "viewed i p (insert EcmLock L) u1 w1"
  proof (cases "q_status (rl_req r) = STATUS_COMPLETED")
    case True
    then obtain x where "UsbSerialStartTx K (Some p) ?u = Some (x, u1)" using u1(1) by auto
    from sim_StartTx[OF v nl(2) this] that True show ?thesis by auto
  next
    case False
    then show ?thesis using that u1(1) v by simp
  qed
  from sim_unlock[OF w1(2) nl(1) u1(2)] obtain w' where "ecm_give EcmLock p w1 = Some w'" "viewed i p L u' w'" .
  then show ?thesis using that[of w'] qw assms(4) s(1,3) w1(1) by (simp add: UsbEcmWriteComplete_def Let_def cong: if_cong)
qed

lemma sim_ReadComplete:
  assumes "viewed i p L u w" "L \<inter> {EcmLock, LockReadFifo} = {}" "get_req q u = Some r" "q_context (rl_req r) = Some p" "q_status (rl_req r) = 0 \<longleftrightarrow> i \<noteq> 0"
    and "\<forall>s. ew_ports w p = Some s \<longrightarrow> ep_readQueue s = []" "UsbSerialReadComplete H K q u = Some u'"
  obtains w' where "UsbEcmReadComplete K q w = Some w'" "viewed i p L u' w'"
proof -
  have nl: "EcmLock \<notin> L" "LockReadFifo \<notin> insert EcmLock L" using assms(2) by auto
  from sim_lock[OF assms(1) nl(1)] obtain s where s: "ew_ports w p = Some s" "ep_locks s = L"
    "ecm_take EcmLock p w = Some (put_eport p (s\<lparr>ep_locks := insert EcmLock L\<rparr>) w)" "lock_port p u = Some (put_port p ((serial_port s)\<lparr>sp_lock := True\<rparr>) u)" .
  let ?t = "s\<lparr>ep_locks := insert EcmLock L, ep_readQueue := ep_readQueue s @ [q]\<rparr>"
  let ?u = "put_port p (serial_port ?t) u" and ?w = "put_eport p ?t w"
  have v: "viewed i p (insert EcmLock L) ?u ?w" using sim_put[OF assms(1), of ?t] by simp
  have qw: "ecm_req q w = Some r" "\<not> w_isStartRead u" using assms(1,3) by (auto simp: viewed_def)
  have fl: "flagged i p ?w" using assms(5,6) s(1) qw(1) by (auto simp: flagged_def)
  obtain u1 where u1: "UsbSerialRxPush K p ?u = Some u1" "unlock_port p u1 = Some u'"
    using assms(3,4,7) s(4) qw(2) by (auto simp: UsbSerialReadComplete_def count_read_def serial_port_locks split: Option.bind_splits)
  from sim_RxPush[OF v fl nl(2) u1(1)] obtain w1 where w1: "UsbEcmRxPush K p ?w = Some w1" "viewed i p (insert EcmLock L) u1 w1" .
  from sim_unlock[OF w1(2) nl(1) u1(2)] obtain w' where "ecm_give EcmLock p w1 = Some w'" "viewed i p L u' w'" .
  then show ?thesis using that[of w'] qw(1) assms(4) s(1,3) w1(1) by (simp add: UsbEcmReadComplete_def)
qed

end
