(* ===== verification/Ecm_Stream.thy ===== *)
theory Ecm_Stream
  imports Ecm_View
begin

text \<open>
  The data of the network function: calls of the client and completions of requests in any order.  The state of its port is that of a serial port
  (\<open>line_ok\<close>) under the view, with the locks of the port and of its rings free.
\<close>

subsection \<open>The state of an open port\<close>

definition net_ok :: "'k ecmw \<Rightarrow> ptr \<Rightarrow> ptr set \<Rightarrow> ptr set \<Rightarrow> UsbEcm \<Rightarrow> bool" where
  "net_ok w p F G s \<longleftrightarrow> ew_ports w p = Some s \<and> ep_locks s \<subseteq> {LockRW} \<and> line_ok (as_serial 1 w) p F G (serial_port s)"

lemma view_upd: "upd_req q f (as_serial i w) = map_option (as_serial i) (on_base (upd_req q f) w)"
  by (simp add: upd_req_def on_base_def as_serial_def split: Option.bind_split)

lemma flag_acms: "w_acms (as_serial i w) = w_acms (as_serial 1 w)"
  by (simp add: as_serial_def)

lemma flag_ports: "line_ok (as_serial i w) p F G s \<longleftrightarrow> line_ok (as_serial 1 w) p F G s" "packet (as_serial i w) s = packet (as_serial 1 w) s"
  by (simp_all add: line_ok_def Acm_Line.heap_ok_def tx_port_def rx_port_def Acm_Stream.req_ok_def packet_def flag_acms[of i])

lemma net_viewed: "net_ok w p F G s \<Longrightarrow> viewed i p (ep_locks s) (as_serial i w) w"
  by (simp add: net_ok_def viewed_def)

lemma viewed_net:
  assumes "viewed i p L u w" "L \<subseteq> {LockRW}" "line_ok u p F G t"
  obtains s where "net_ok w p F G s" "serial_port s = t" "as_serial i w = u"
proof -
  obtain s where s: "ew_ports w p = Some s" "ep_locks s = L" "as_serial i w = u" using assms(1) by (auto simp: viewed_def)
  have t: "t = serial_port s" using s assms(3) by (auto simp: line_ok_def s(3)[symmetric])
  have "line_ok (as_serial 1 w) p F G t" using assms(3) s(3) flag_ports(1)[of i w p F G t] by simp
  then have "net_ok w p F G s" using s assms(2) t by (simp add: net_ok_def)
  then show ?thesis using that t s(3) by simp
qed

subsection \<open>Writing\<close>

text \<open>How many bytes of a message fit into a ring.\<close>

definition room :: "DataFifo \<Rightarrow> nat" where
  "room f = unat (fsize f) - length (fifo_contents f)"

lemma fill_ring_run:
  assumes "ew_ports w p = Some s" "ring_ok (ep_writeFifo s)" "LockWriteFifo \<notin> ep_locks s"
  obtains f where "ecm_fill_ring p buf w = Some (put_eport p (s\<lparr>ep_writeFifo := f\<rparr>) w)" "ring_ok f" "fsize f = fsize (ep_writeFifo s)"
    "fifo_contents f = fifo_contents (ep_writeFifo s) @ take (min (unat (of_nat (length buf) :: u32)) (room (ep_writeFifo s))) buf"
proof (cases "buf = []")
  case True
  then show ?thesis using that[of "ep_writeFifo s"] assms by (simp add: ecm_fill_ring_def fun_upd_idem)
next
  case False
  let ?n = "of_nat (length buf) :: u32"
  have le: "unat ?n \<le> length buf" by (simp add: unat_of_nat)
  from ring_write[OF assms(2) le] obtain k f where f: "DataFifoWrite (ep_writeFifo s) buf ?n = Some (k, f)" "ring_ok f" "fsize f = fsize (ep_writeFifo s)"
    "unat k = min (unat ?n) (unat (fsize (ep_writeFifo s)) - length (fifo_contents (ep_writeFifo s)))" "fifo_contents f = fifo_contents (ep_writeFifo s) @ take (unat k) buf" .
  have "s\<lparr>ep_locks := insert LockWriteFifo (ep_locks s) - {LockWriteFifo}\<rparr> = s" using assms(3) by (cases s) auto
  then have "s\<lparr>ep_locks := insert LockWriteFifo (ep_locks s) - {LockWriteFifo}, ep_writeFifo := f\<rparr> = s\<lparr>ep_writeFifo := f\<rparr>" by metis
  then have "ecm_fill_ring p buf w = Some (put_eport p (s\<lparr>ep_writeFifo := f\<rparr>) w)"
    using False assms(1,3) f(1) by (simp add: ecm_fill_ring_def ecm_take_def ecm_give_def)
  then show ?thesis using that[of f] f(2-5) by (simp add: room_def)
qed

lemma sim_maybe_tx:
  assumes "viewed i p L u w" "LockWriteFifo \<notin> L" "(if c then map_option snd (UsbSerialStartTx K (Some p) u) else Some u) = Some u'"
  obtains w' where "(if c then map_option snd (UsbEcmStartTx K p w) else Some w) = Some w'" "viewed i p L u' w'"
proof (cases c)
  case True
  then obtain x where "UsbSerialStartTx K (Some p) u = Some (x, u')" using assms(3) by auto
  from sim_StartTx[OF assms(1,2) this] that True show ?thesis by auto
next
  case False
  then show ?thesis using that assms(1,3) by simp
qed

text \<open>The last part of a call that writes: packets are handed to the kernel and the lock is given back.\<close>

lemma net_send_tail:
  assumes "viewed 1 p (insert EcmLock L) u w" "L \<subseteq> {LockRW}" "w_ports u p = Some m" "tx_port u p F m" "rx_port u p G m" "heap_ok u p m"
    and "sp_readQueue m = []" "ring_ok (sp_readFifo m)" "ring_sized (sp_writeFifo m)" "ring_sized (sp_readFifo m)" "tx_set m F \<inter> rx_set m G = {}"
  obtains w1 v t pk where "(if sp_acm m \<noteq> None then map_option snd (UsbEcmStartTx K p w) else Some w) = Some w1" "ecm_give EcmLock p w1 = Some v"
    "net_ok v p (F \<union> taken pk) G t" "w_sent (ew_base v) = w_sent u @ pk" "payload pk @ fifo_contents (ep_writeFifo t) = fifo_contents (sp_writeFifo m)"
    "packets_ok (tx_set m F) (packet u m) pk" "tx_set (serial_port t) (F \<union> taken pk) = tx_set m F" "rx_set (serial_port t) G = rx_set m G" "ep_ecm t = sp_acm m"
    "w_acms (as_serial 1 v) = w_acms u" "sp_acm m \<noteq> None \<longrightarrow> tx_idle (packet u m) (serial_port t) pk"
proof -
  have nl: "EcmLock \<notin> L" "LockWriteFifo \<notin> insert EcmLock L" using assms(2) by auto
  from maybe_tx[OF assms(3,4), of "sp_acm m \<noteq> None" K] obtain u1 t pk where
    r: "(if sp_acm m \<noteq> None then map_option snd (UsbSerialStartTx K (Some p) u) else Some u) = Some u1" "tx_sent p u m u1 t pk" "tx_port u1 p (F \<union> taken pk) t"
      "sp_acm m \<noteq> None \<and> sp_acm m \<noteq> None \<longrightarrow> tx_idle (packet u m) t pk" .
  from sim_maybe_tx[OF assms(1) nl(2) r(1)] obtain w1 where w1: "(if sp_acm m \<noteq> None then map_option snd (UsbEcmStartTx K p w) else Some w) = Some w1"
    "viewed 1 p (insert EcmLock L) u1 w1" .
  let ?t = "t\<lparr>sp_lock := False\<rparr>"
  have line: "line_ok (put_port p ?t u1) p (F \<union> taken pk) G ?t" "tx_set t (F \<union> taken pk) = tx_set m F" by (rule sent_line[OF assms(4) r(2,3) assms(5-11)])+
  have "unlock_port p u1 = Some (put_port p ?t u1)" using r(2) by (simp add: unlock_port_def tx_sent_def)
  from sim_unlock[OF w1(2) nl(1) this] obtain v where v: "ecm_give EcmLock p w1 = Some v" "viewed 1 p L (put_port p ?t u1) v" .
  from viewed_net[OF v(2) assms(2) line(1)] obtain t' where t': "net_ok v p (F \<union> taken pk) G t'" "serial_port t' = ?t" "as_serial 1 v = put_port p ?t u1" .
  have tf: "ep_writeFifo t' = sp_writeFifo t" "ep_ecm t' = sp_acm t" using arg_cong[OF t'(2), of sp_writeFifo] arg_cong[OF t'(2), of sp_acm] by simp_all
  have m: "sp_acm t = sp_acm m" "sp_readPool t = sp_readPool m" using r(2) tx_rest_fields(1,3)[of t m] by (simp_all add: tx_sent_def)
  have snt: "w_sent (ew_base v) = w_sent u @ pk" using r(2) arg_cong[OF t'(3), of w_sent] by (simp add: tx_sent_def)
  have pks: "packets_ok (tx_set m F) (packet u m) pk" using packets_ok_mono[OF tx_sent_packets[OF r(2)], of "tx_set m F"] by (auto simp: tx_set_def)
  have acm: "w_acms (as_serial 1 v) = w_acms u" using r(2) unfolding t'(3) by (simp add: tx_sent_def quiet_def)
  have idle: "sp_acm m \<noteq> None \<longrightarrow> tx_idle (packet u m) (serial_port t') pk" using r(4) unfolding t'(2) by (simp add: tx_idle_def)
  show ?thesis using that[OF w1(1) v(1) t'(1) snt _ pks _ _ _ acm idle] r(2) tf m line(2) unfolding t'(2) by (simp add: tx_sent_def tx_set_def rx_set_def)
qed

lemma net_write:
  assumes "net_ok w p F G s" "he_readBuffer H data = (Some buf, data1)"
  obtains v t pk where "UsbEcmWrite H K p data w = Some (HDF_SUCCESS, data1, v)" "net_ok v p (F \<union> taken pk) G t" "w_sent (ew_base v) = w_sent (ew_base w) @ pk"
    "payload pk @ fifo_contents (ep_writeFifo t) = fifo_contents (ep_writeFifo s) @ take (min (unat (of_nat (length buf) :: u32)) (room (ep_writeFifo s))) buf"
    "packets_ok (tx_set (serial_port s) F) (packet (as_serial 1 w) (serial_port s)) pk" "tx_set (serial_port t) (F \<union> taken pk) = tx_set (serial_port s) F"
    "rx_set (serial_port t) G = rx_set (serial_port s) G" "ep_ecm t = ep_ecm s" "w_acms (as_serial 1 v) = w_acms (as_serial 1 w)"
    "ep_ecm s \<noteq> None \<longrightarrow> tx_idle (packet (as_serial 1 w) (serial_port s)) (serial_port t) pk"
proof -
  let ?L = "ep_locks s" and ?u = "as_serial 1 w" and ?p = "serial_port s"
  have N: "ew_ports w p = Some s" "?L \<subseteq> {LockRW}" "line_ok ?u p F G ?p" using assms(1) by (simp_all add: net_ok_def)
  have nl: "EcmLock \<notin> ?L" "LockWriteFifo \<notin> insert EcmLock ?L" using N(2) by auto
  have L: "heap_ok ?u p ?p" "tx_port ?u p F ?p" "rx_port ?u p G ?p" "ep_readQueue s = []" "ring_ok (ep_readFifo s)" "ring_ok (ep_writeFifo s)"
    using N(3) by (simp_all add: line_ok_def tx_port_def)
  let ?s1 = "s\<lparr>ep_locks := insert EcmLock ?L\<rparr>"
  have take: "ecm_take EcmLock p w = Some (put_eport p ?s1 w)" using N(1) nl(1) by (simp add: ecm_take_def)
  have s1: "ew_ports (put_eport p ?s1 w) p = Some ?s1" "ring_ok (ep_writeFifo ?s1)" "LockWriteFifo \<notin> ep_locks ?s1" using L(6) nl(2) by simp_all
  from fill_ring_run[OF s1, of buf] obtain f where f: "ecm_fill_ring p buf (put_eport p ?s1 w) = Some (put_eport p (?s1\<lparr>ep_writeFifo := f\<rparr>) (put_eport p ?s1 w))" "ring_ok f"
    "fsize f = fsize (ep_writeFifo ?s1)" "fifo_contents f = fifo_contents (ep_writeFifo ?s1) @ take (min (unat (of_nat (length buf) :: u32)) (room (ep_writeFifo ?s1))) buf" .
  let ?m = "?s1\<lparr>ep_writeFifo := f\<rparr>"
  let ?w = "put_eport p ?m w" and ?um = "put_port p (serial_port ?m) ?u"
  have vm: "viewed 1 p (insert EcmLock ?L) ?um ?w" using sim_put[OF net_viewed[OF assms(1), of 1], of ?m] by simp
  have prem: "w_ports ?um p = Some (serial_port ?m)" "tx_port ?um p F (serial_port ?m)" "rx_port ?um p G (serial_port ?m)" "heap_ok ?um p (serial_port ?m)"
    "sp_readQueue (serial_port ?m) = []" "ring_ok (sp_readFifo (serial_port ?m))" "ring_sized (sp_writeFifo (serial_port ?m))" "ring_sized (sp_readFifo (serial_port ?m))"
    "tx_set (serial_port ?m) F \<inter> rx_set (serial_port ?m) G = {}"
    using L f(2,3) N(3) by (auto simp: rx_port_def tx_port_def req_ok_def packet_def heap_ok_def line_ok_def ring_sized_def tx_set_def rx_set_def)
  from net_send_tail[OF vm N(2) prem, of K] obtain w1 v t pk where
    r: "(if sp_acm (serial_port ?m) \<noteq> None then map_option snd (UsbEcmStartTx K p ?w) else Some ?w) = Some w1" "ecm_give EcmLock p w1 = Some v" "net_ok v p (F \<union> taken pk) G t"
    "w_sent (ew_base v) = w_sent ?um @ pk" "payload pk @ fifo_contents (ep_writeFifo t) = fifo_contents (sp_writeFifo (serial_port ?m))"
    "packets_ok (tx_set (serial_port ?m) F) (packet ?um (serial_port ?m)) pk" "tx_set (serial_port t) (F \<union> taken pk) = tx_set (serial_port ?m) F"
    "rx_set (serial_port t) G = rx_set (serial_port ?m) G" "ep_ecm t = sp_acm (serial_port ?m)" "w_acms (as_serial 1 v) = w_acms ?um"
    "sp_acm (serial_port ?m) \<noteq> None \<longrightarrow> tx_idle (packet ?um (serial_port ?m)) (serial_port t) pk" .
  have run: "UsbEcmWrite H K p data w = Some (HDF_SUCCESS, data1, v)"
    using assms(2) take f(1) N(1) r(1,2) by (simp add: UsbEcmWrite_def cong: if_cong)
  have "packet ?um (serial_port ?m) = packet ?u ?p" "tx_set (serial_port ?m) F = tx_set ?p F" "rx_set (serial_port ?m) G = rx_set ?p G"
    by (simp_all add: packet_def tx_set_def rx_set_def)
  then show ?thesis using that[OF run r(3)] r(4-11) f(4) by simp
qed

subsection \<open>Reading\<close>

text \<open>The block that a call allocates for itself and releases again.\<close>

abbreviation set_emem :: "usbmem \<Rightarrow> 'k ecmw \<Rightarrow> 'k ecmw" where
  "set_emem m w \<equiv> w\<lparr>ew_base := set_mem m (ew_base w)\<rparr>"

lemma emem_put: "set_emem m (put_eport p s w) = put_eport p s (set_emem m w)"
  by simp

lemma view_mem: "as_serial i (set_emem m w) = set_mem m (as_serial i w)"
  by (simp add: as_serial_def)

lemma view_free: "wfree q (as_serial i w) = map_option (as_serial i) (ecm_free q w)"
  by (cases q) (auto simp: wfree_def ecm_free_def as_serial_def fun_eq_iff split: Option.bind_split)

lemma sim_free:
  assumes "viewed i p L u w" "wfree (Some b) u = Some u'" "b \<noteq> p"
  obtains w' where "ecm_free (Some b) w = Some w'" "viewed i p L u' w'"
proof -
  have "map_option (as_serial i) (ecm_free (Some b) w) = Some u'" using assms(1,2) view_free[of "Some b" i w] by (auto simp: viewed_def)
  then obtain w' where w: "ecm_free (Some b) w = Some w'" "as_serial i w' = u'" by auto
  then have "ew_ports w' p = ew_ports w p" using assms(3) by (auto simp: ecm_free_def split: Option.bind_splits)
  then show ?thesis using that[OF w(1)] w(2) assms(1) by (auto simp: viewed_def)
qed

lemma sim_maybe_rx:
  assumes "viewed i p L u w" "(if c then map_option snd (UsbSerialStartRx K p u) else Some u) = Some u'"
  obtains w' where "(if c then map_option snd (UsbEcmStartRx K p w) else Some w) = Some w'" "viewed i p L u' w'"
proof (cases c)
  case True
  then obtain x where "UsbSerialStartRx K p u = Some (x, u')" using assms(2) by auto
  from sim_StartRx[OF assms(1) this] that True show ?thesis by auto
next
  case False
  then show ?thesis using that assms by simp
qed

text \<open>What a client gets for the bytes of the ring.\<close>

definition net_reply :: "'b hdf_env \<Rightarrow> u8 list \<Rightarrow> 'b \<Rightarrow> ret \<times> 'b" where
  "net_reply H c reply = (case he_writeBuffer H c reply of (ok, b) \<Rightarrow> (if ok then HDF_SUCCESS else RetErr HDF_ERR_IO, b))"

lemma take2_run:
  assumes "ew_ports w p = Some s" "ep_locks s \<subseteq> {LockRW}"
  shows "ecm_take2 p w = Some (put_eport p (s\<lparr>ep_locks := insert LockReadFifo (insert EcmLock (ep_locks s))\<rparr>) w)"
    "ecm_give2 p (put_eport p (s\<lparr>ep_locks := insert LockReadFifo (insert EcmLock (ep_locks s))\<rparr>) v) = Some (put_eport p s v)"
proof -
  have "EcmLock \<notin> ep_locks s" "LockReadFifo \<notin> ep_locks s" using assms(2) by auto
  moreover from this have "s\<lparr>ep_locks := insert LockReadFifo (insert EcmLock (ep_locks s)) - {LockReadFifo} - {EcmLock}\<rparr> = s" by (cases s) auto
  ultimately show "ecm_take2 p w = Some (put_eport p (s\<lparr>ep_locks := insert LockReadFifo (insert EcmLock (ep_locks s))\<rparr>) w)"
    "ecm_give2 p (put_eport p (s\<lparr>ep_locks := insert LockReadFifo (insert EcmLock (ep_locks s))\<rparr>) v) = Some (put_eport p s v)"
    using assms(1) by (simp_all add: ecm_take2_def ecm_give2_def ecm_take_def ecm_give_def)
qed

lemma ecm_alloc_cases:
  assumes "mem_ok (g_mem (w_g (ew_base w)))"
  obtains m where "ecm_alloc K n w = (None, set_emem m w)" "mem_ok m" "live m = live (g_mem (w_g (ew_base w)))" "\<not> fo_alloc K (nextAddr (g_mem (w_g (ew_base w)))) n"
  | b m where "ecm_alloc K n w = (Some b, set_emem m w)" "mem_ok m" "live m = insert b (live (g_mem (w_g (ew_base w))))" "b \<notin> live (g_mem (w_g (ew_base w)))"
      "fo_alloc K (nextAddr (g_mem (w_g (ew_base w)))) n"
proof (rule walloc_cases[OF assms, of K n])
  fix b m
  assume a: "walloc K n (ew_base w) = (Some b, set_mem m (ew_base w))" "mem_ok m" "live m = insert b (live (g_mem (w_g (ew_base w))))" "b \<notin> live (g_mem (w_g (ew_base w)))"
  then have "fo_alloc K (nextAddr (g_mem (w_g (ew_base w)))) n" by (auto simp: walloc_def OsalMemAlloc_def split: if_splits)
  then show thesis using that(2)[of b m] a by (simp add: ecm_alloc_def)
qed (use that(1) in \<open>simp add: ecm_alloc_def\<close>)

lemma net_read_empty:
  assumes "net_ok w p F G s" "fifo_contents (ep_readFifo s) = []"
  shows "UsbEcmRead H K p reply w = Some (HDF_SUCCESS, reply, w)"
proof -
  have N: "ew_ports w p = Some s" "ep_locks s \<subseteq> {LockRW}" using assms(1) by (simp_all add: net_ok_def)
  have "DataFifoIsEmpty (ep_readFifo s)" using assms(2) by (simp add: DataFifoIsEmpty_contents)
  moreover have "put_eport p s w = w" using N(1) by (simp add: fun_upd_idem)
  ultimately show ?thesis using take2_run(1)[OF N] take2_run(2)[OF N, of w] by (simp add: UsbEcmRead_def)
qed

lemma net_read_no_memory:
  assumes "net_ok w p F G s" "\<not> fo_alloc K (nextAddr (g_mem (w_g (ew_base w)))) (unat (DataFifoLen (ep_readFifo s)) + 4)" "fifo_contents (ep_readFifo s) \<noteq> []"
  obtains m where "UsbEcmRead H K p reply w = Some (RetErr HDF_ERR_MALLOC_FAIL, reply, set_emem m w)" "net_ok (set_emem m w) p F G s"
proof -
  have N: "ew_ports w p = Some s" "ep_locks s \<subseteq> {LockRW}" "line_ok (as_serial 1 w) p F G (serial_port s)" using assms(1) by (simp_all add: net_ok_def)
  let ?w = "put_eport p (s\<lparr>ep_locks := insert LockReadFifo (insert EcmLock (ep_locks s))\<rparr>) w"
  have "mem_ok (g_mem (w_g (ew_base ?w)))" using N(3) by (simp add: line_ok_def heap_ok_def)
  then obtain m where m: "ecm_alloc K (unat (DataFifoLen (ep_readFifo s)) + 4) ?w = (None, set_emem m ?w)" "mem_ok m" "live m = live (g_mem (w_g (ew_base w)))"
    using assms(2) by (elim ecm_alloc_cases[where K = K and n = "unat (DataFifoLen (ep_readFifo s)) + 4"]) auto
  have e: "\<not> DataFifoIsEmpty (ep_readFifo s)" using assms(3) by (simp add: DataFifoIsEmpty_contents)
  have "put_eport p s (set_emem m w) = set_emem m w" using N(1) by (simp add: fun_upd_idem)
  then have "UsbEcmRead H K p reply w = Some (RetErr HDF_ERR_MALLOC_FAIL, reply, set_emem m w)"
    using take2_run(1)[OF N(1,2)] take2_run(2)[OF N(1,2), of "set_emem m w"] e m(1) unfolding emem_put by (simp add: UsbEcmRead_def Let_def)
  moreover have "net_ok (set_emem m w) p F G s" using N line_ok_mem[OF N(3) m(2)] m(3) by (simp add: net_ok_def view_mem)
  ultimately show ?thesis using that by blast
qed

text \<open>The last part of a call that reads: more requests are handed to the kernel, the block is released, and the lock is given back.\<close>

lemma net_read_tail:
  assumes "viewed 1 p (insert EcmLock L) u w" "L \<subseteq> {LockRW}" "w_ports u p = Some m" "rx_port u p G m" "tx_port u p F m" "heap_ok u p m"
    and "sp_readQueue m = []" "ring_ok (sp_readFifo m)" "ring_sized (sp_writeFifo m)" "ring_sized (sp_readFifo m)" "tx_set m F \<inter> rx_set m G = {}"
    and "b \<in> live (g_mem (w_g u))" "w_ports u b = None" "w_acms u b = None" "w_ctrls u b = None"
  obtains w1 w2 v t pk where "(if sp_acm m \<noteq> None then map_option snd (UsbEcmStartRx K p w) else Some w) = Some w1" "ecm_free (Some b) w1 = Some w2"
    "ecm_give EcmLock p w2 = Some v" "net_ok v p F (G \<union> taken pk) t" "w_sent (ew_base v) = w_sent u @ pk" "tx_part (serial_port t) = tx_part (m\<lparr>sp_lock := False\<rparr>)"
    "ep_readFifo t = sp_readFifo m" "rx_set (serial_port t) (G \<union> taken pk) = rx_set m G" "\<forall>x \<in> set pk. fst x \<in> rx_set m G" "w_acms (as_serial 1 v) = w_acms u"
    "live (g_mem (w_g (ew_base v))) = live (g_mem (w_g u)) - {b}"
proof -
  have nl: "EcmLock \<notin> L" using assms(2) by auto
  from maybe_rx[OF assms(3,4), of K] obtain u1 t pk where r: "(if sp_acm m \<noteq> None then map_option snd (UsbSerialStartRx K p u) else Some u) = Some u1"
    "rx_sent p u m u1 t pk" "rx_port u1 p (G \<union> taken pk) t" .
  let ?t = "t\<lparr>sp_lock := False\<rparr>"
  let ?v = "put_port p ?t u1"
  have line: "line_ok ?v p F (G \<union> taken pk) ?t" "rx_set t (G \<union> taken pk) = rx_set m G" by (rule rx_sent_line[OF assms(4) r(2,3) assms(5-11)])+
  have q: "w_acms u1 = w_acms u" "w_ctrls u1 = w_ctrls u" "w_ports u1 = (w_ports u)(p \<mapsto> t)" "g_mem (w_g u1) = g_mem (w_g u)" using r(2) by (auto simp: rx_sent_def quiet_def)
  have bp: "b \<noteq> p" using assms(3,13) by auto
  have fr: "wfree (Some b) u1 = Some (drop_block b u1)" using wfree_run[of b u1] q bp assms(12-15) by simp
  have ok: "line_ok (drop_block b ?v) p F (G \<union> taken pk) ?t" using line_ok_drop[OF line(1), of b] q bp assms(13-15) by simp
  from sim_maybe_rx[OF assms(1) r(1)] obtain w1 where w1: "(if sp_acm m \<noteq> None then map_option snd (UsbEcmStartRx K p w) else Some w) = Some w1"
    "viewed 1 p (insert EcmLock L) u1 w1" .
  from sim_free[OF w1(2) fr bp] obtain w2 where w2: "ecm_free (Some b) w1 = Some w2" "viewed 1 p (insert EcmLock L) (drop_block b u1) w2" .
  have "unlock_port p (drop_block b u1) = Some (drop_block b ?v)" using q(3) by (simp add: unlock_port_def)
  from sim_unlock[OF w2(2) nl this] obtain v where v: "ecm_give EcmLock p w2 = Some v" "viewed 1 p L (drop_block b ?v) v" .
  from viewed_net[OF v(2) assms(2) ok] obtain t' where t': "net_ok v p F (G \<union> taken pk) t'" "serial_port t' = ?t" "as_serial 1 v = drop_block b ?v" .
  have part: "tx_part t = tx_part m" "sp_readFifo t = sp_readFifo m" using r(2) rx_rest_part[of t m] rx_rest_fields(6)[of t m] by (simp_all add: rx_sent_def)
  then have p2: "tx_part ?t = tx_part (m\<lparr>sp_lock := False\<rparr>)" by (cases t; cases m) (simp add: tx_part_def)
  have f: "ep_readFifo t' = sp_readFifo t" using arg_cong[OF t'(2), of sp_readFifo] by simp
  have e: "w_sent (ew_base v) = w_sent u @ pk" "live (g_mem (w_g (ew_base v))) = live (g_mem (w_g u)) - {b}"
    using r(2) q(4) arg_cong[OF t'(3), of w_sent] arg_cong[OF t'(3), of w_g] by (simp_all add: rx_sent_def)
  have a: "w_acms (as_serial 1 v) = w_acms u" using q(1) unfolding t'(3) by simp
  have k: "\<forall>x \<in> set pk. fst x \<in> rx_set m G" using r(2) by (auto simp: rx_sent_def rx_set_def)
  show ?thesis using that[OF w1(1) w2(1) v(1) t'(1) e(1) _ _ _ k a e(2)] p2 f part(2) line(2) unfolding t'(2) by (simp add: rx_set_def)
qed

lemma net_read_nonempty:
  assumes "net_ok w p F G s" "fo_alloc K (nextAddr (g_mem (w_g (ew_base w)))) (unat (DataFifoLen (ep_readFifo s)) + 4)" "fifo_contents (ep_readFifo s) = c" "c \<noteq> []"
  obtains v t pk where "UsbEcmRead H K p reply w = Some (fst (net_reply H c reply), snd (net_reply H c reply), v)" "net_ok v p F (G \<union> taken pk) t"
    "w_sent (ew_base v) = w_sent (ew_base w) @ pk" "fifo_contents (ep_readFifo t) = []" "tx_part (serial_port t) = tx_part (serial_port s)"
    "rx_set (serial_port t) (G \<union> taken pk) = rx_set (serial_port s) G" "\<forall>x \<in> set pk. fst x \<in> rx_set (serial_port s) G"
    "live (g_mem (w_g (ew_base v))) = live (g_mem (w_g (ew_base w)))" "w_acms (as_serial 1 v) = w_acms (as_serial 1 w)"
proof -
  let ?L = "ep_locks s" and ?u = "as_serial 1 w" and ?p = "serial_port s" and ?n = "DataFifoLen (ep_readFifo s)"
  have N: "ew_ports w p = Some s" "?L \<subseteq> {LockRW}" "line_ok ?u p F G ?p" using assms(1) by (simp_all add: net_ok_def)
  have L: "heap_ok ?u p ?p" "tx_port ?u p F ?p" "rx_port ?u p G ?p" "ep_readQueue s = []" "ring_ok (ep_readFifo s)" using N(3) by (simp_all add: line_ok_def)
  have e: "\<not> DataFifoIsEmpty (ep_readFifo s)" using assms(3,4) by (simp add: DataFifoIsEmpty_contents)
  let ?s1 = "s\<lparr>ep_locks := insert LockReadFifo (insert EcmLock ?L)\<rparr>"
  have "mem_ok (g_mem (w_g (ew_base (put_eport p ?s1 w))))" using L(1) by (simp add: heap_ok_def)
  then obtain b m where a: "ecm_alloc K (unat ?n + 4) (put_eport p ?s1 w) = (Some b, set_emem m (put_eport p ?s1 w))" "mem_ok m"
    "live m = insert b (live (g_mem (w_g (ew_base w))))" "b \<notin> live (g_mem (w_g (ew_base w)))"
    using assms(2) by (elim ecm_alloc_cases[where K = K and n = "unat ?n + 4"]) auto
  have c: "length c = unat ?n" using assms(3) by auto
  from ring_read[OF L(5), of ?n] obtain k f where f: "DataFifoRead (ep_readFifo s) ?n = Some (k, take (unat k) c, f)" "ring_ok f" "fsize f = fsize (ep_readFifo s)"
    "unat k = length c" "fifo_contents f = []" unfolding assms(3) using c by auto
  have k: "k \<noteq> 0" "take (unat k) c = c" using f(4) assms(4) by auto
  let ?m = "s\<lparr>ep_locks := insert EcmLock ?L, ep_readFifo := f\<rparr>"
  let ?w = "put_eport p ?m (set_emem m w)" and ?um = "put_port p (serial_port ?m) (set_mem m ?u)"
  have "LockReadFifo \<notin> insert EcmLock ?L" using N(2) by auto
  then have "s\<lparr>ep_readFifo := f, ep_locks := insert EcmLock ?L - {LockReadFifo}\<rparr> = ?m" by (cases s) auto
  then have give: "ecm_give LockReadFifo p (put_eport p (?s1\<lparr>ep_readFifo := f\<rparr>) (set_emem m (put_eport p ?s1 w))) = Some ?w" by (simp add: ecm_give_def)
  have "as_serial 1 ?w = ?um" using as_serial_put[where i = 1 and p = p and s = ?m and w = "set_emem m w"] unfolding view_mem .
  then have vm: "viewed 1 p (insert EcmLock ?L) ?um ?w" by (simp add: viewed_def)
  have nb: "p \<noteq> b" "w_acms ?u b = None" "w_ports ?u b = None" "w_ctrls ?u b = None" using L(1) a(4) by (auto simp: heap_ok_def)
  have prem: "w_ports ?um p = Some (serial_port ?m)" "rx_port ?um p G (serial_port ?m)" "tx_port ?um p F (serial_port ?m)" "heap_ok ?um p (serial_port ?m)"
    "sp_readQueue (serial_port ?m) = []" "ring_ok (sp_readFifo (serial_port ?m))" "ring_sized (sp_writeFifo (serial_port ?m))" "ring_sized (sp_readFifo (serial_port ?m))"
    "tx_set (serial_port ?m) F \<inter> rx_set (serial_port ?m) G = {}" "b \<in> live (g_mem (w_g ?um))" "w_ports ?um b = None" "w_acms ?um b = None" "w_ctrls ?um b = None"
    using L f(2,3) a N(3) nb by (auto simp: rx_port_def tx_port_def req_ok_def packet_def heap_ok_def line_ok_def ring_sized_def tx_set_def rx_set_def)
  from net_read_tail[OF vm N(2) prem, of K] obtain w1 w2 v t pk where
    r: "(if sp_acm (serial_port ?m) \<noteq> None then map_option snd (UsbEcmStartRx K p ?w) else Some ?w) = Some w1" "ecm_free (Some b) w1 = Some w2" "ecm_give EcmLock p w2 = Some v"
    "net_ok v p F (G \<union> taken pk) t" "w_sent (ew_base v) = w_sent ?um @ pk" "tx_part (serial_port t) = tx_part ((serial_port ?m)\<lparr>sp_lock := False\<rparr>)"
    "ep_readFifo t = sp_readFifo (serial_port ?m)" "rx_set (serial_port t) (G \<union> taken pk) = rx_set (serial_port ?m) G" "\<forall>x \<in> set pk. fst x \<in> rx_set (serial_port ?m) G"
    "w_acms (as_serial 1 v) = w_acms ?um" "live (g_mem (w_g (ew_base v))) = live (g_mem (w_g ?um)) - {b}" .
  have run: "UsbEcmRead H K p reply w = Some (fst (net_reply H c reply), snd (net_reply H c reply), v)"
    using take2_run(1)[OF N(1,2)] e a(1) f(1) k give r(1-3) by (auto simp: UsbEcmRead_def Let_def net_reply_def split: prod.split)
  have "EcmLock \<notin> ?L" using N(2) by auto
  then have "tx_part ((serial_port ?m)\<lparr>sp_lock := False\<rparr>) = tx_part ?p" by (cases s) (simp add: tx_part_def serial_port_def)
  then show ?thesis using that[OF run r(4)] r(5-11) f(5) a(3,4) by (simp add: rx_set_def)
qed

end
