(* ===== verification/Ecm_Properties.thy ===== *)
theory Ecm_Properties
  imports Ecm_Stream
begin

text \<open>
  Runs of the network link: the client writes and reads, the kernel completes requests with any result, in any order; and what the link promises to its client and to the host.
\<close>

subsection \<open>Completions\<close>

lemma view_tx_done: "tx_done q st n (ew_base w) = Some b \<Longrightarrow> tx_done q st n (as_serial i w) = Some (as_serial i (w\<lparr>ew_base := b\<rparr>))"
  using view_upd[of q "\<lambda>r. r\<lparr>q_status := st, q_actual := n\<rparr>" i w] by (simp add: tx_done_def on_base_def)

lemma view_rx_done: "rx_done q st bs (ew_base w) = Some b \<Longrightarrow> rx_done q st bs (as_serial i w) = Some (as_serial i (w\<lparr>ew_base := b\<rparr>))"
  by (auto simp: rx_done_def upd_req_def as_serial_def store_bytes_def split: Option.bind_splits if_splits cong: if_cong)

lemma flag_run: "line_run (as_serial 1 w0) p F0 G0 s0 (as_serial i w) F G s acc \<longleftrightarrow> line_run (as_serial 1 w0) p F0 G0 s0 (as_serial 1 w) F G s acc"
  by (simp add: line_run_def flag_ports[of i])

lemma view_news [simp]: "news (as_serial i w) (as_serial j v) = news (ew_base w) (ew_base v)"
  by (simp add: news_def)

lemma rx_done_frame: "rx_done q st bs (ew_base w) = Some b \<Longrightarrow> \<exists>r. get_req q b = Some r \<and> q_status (rl_req r) = st"
  by (auto simp: rx_done_def upd_req_def split: Option.bind_splits if_splits)

lemma net_write_done:
  assumes "net_ok w p F G s" "q \<in> F" "tx_done q st n (ew_base w) = Some b"
  obtains v where "UsbEcmWriteComplete K q (w\<lparr>ew_base := b\<rparr>) = Some v" "viewed 1 p (ep_locks s) (as_serial 1 v) v"
    "UsbSerialWriteComplete K q (as_serial 1 (w\<lparr>ew_base := b\<rparr>)) = Some (as_serial 1 v)"
proof -
  let ?w = "w\<lparr>ew_base := b\<rparr>"
  have N: "ew_ports w p = Some s" "ep_locks s \<subseteq> {LockRW}" "line_ok (as_serial 1 w) p F G (serial_port s)" using assms(1) by (simp_all add: net_ok_def)
  note d = tx_done_run[OF N(3) view_tx_done[OF assms(3)]]
  obtain r where r: "get_req q (as_serial 1 ?w) = Some r" using d(4) by blast
  have ctx: "q_context (rl_req r) = Some p" using d(1) assms(2) r unfolding line_ok_def tx_port_def req_ok_def by force
  obtain u where u: "UsbSerialWriteComplete K q (as_serial 1 ?w) = Some u" using WriteComplete_run[OF d(1) assms(2) r, of K] by metis
  have "viewed 1 p (ep_locks s) (as_serial 1 ?w) ?w" using N(1) by (simp add: viewed_def)
  from sim_WriteComplete[OF this _ r ctx u] N(2) obtain v where v: "UsbEcmWriteComplete K q ?w = Some v" "viewed 1 p (ep_locks s) u v" by blast
  then have "u = as_serial 1 v" by (simp add: viewed_def)
  then show ?thesis using that v u by simp
qed

lemma net_read_done:
  assumes "net_ok w p F G s" "q \<in> G" "rx_done q st bs (ew_base w) = Some b"
  defines "i \<equiv> if st = 0 then 1 else 0"
  obtains v where "UsbEcmReadComplete K q (w\<lparr>ew_base := b\<rparr>) = Some v" "viewed i p (ep_locks s) (as_serial i v) v"
    "UsbSerialReadComplete H K q (as_serial i (w\<lparr>ew_base := b\<rparr>)) = Some (as_serial i v)"
proof -
  let ?w = "w\<lparr>ew_base := b\<rparr>"
  have N: "ew_ports w p = Some s" "ep_locks s \<subseteq> {LockRW}" "line_ok (as_serial i w) p F G (serial_port s)" using assms(1) flag_ports(1)[of i w p F G "serial_port s"] by (simp_all add: net_ok_def)
  from rx_done_run[OF N(3) view_rx_done[OF assms(3)]] obtain r where d: "line_ok (as_serial i ?w) p F G (serial_port s)" "get_req q (as_serial i ?w) = Some r" "q_status (rl_req r) = st"
    "arrives (unat (fsize (sp_readFifo (serial_port s)))) r" by metis
  have ctx: "q_context (rl_req r) = Some p" using d(1,2) assms(2) unfolding line_ok_def rx_port_def req_ok_def by force
  obtain u where u: "UsbSerialReadComplete H K q (as_serial i ?w) = Some u" using ReadComplete_run[OF d(1) assms(2) d(2,4), of H K] by metis
  have vw: "viewed i p (ep_locks s) (as_serial i ?w) ?w" using N(1) by (simp add: viewed_def)
  have fl: "q_status (rl_req r) = 0 \<longleftrightarrow> i \<noteq> 0" using d(3) by (simp add: i_def)
  have qe: "\<forall>s. ew_ports ?w p = Some s \<longrightarrow> ep_readQueue s = []" using N(1) d(1) by (auto simp: line_ok_def)
  from sim_ReadComplete[OF vw _ d(2) ctx fl qe u] N(2) obtain v where v: "UsbEcmReadComplete K q ?w = Some v" "viewed i p (ep_locks s) u v" by blast
  then have "u = as_serial i v" by (simp add: viewed_def)
  then show ?thesis using that v u by simp
qed

lemma net_read:
  assumes "net_ok w p F G s"
  obtains ret reply' v t pk where "UsbEcmRead H K p reply w = Some (ret, reply', v)" "net_ok v p F (G \<union> taken pk) t" "w_sent (ew_base v) = w_sent (ew_base w) @ pk"
    "tx_part (serial_port t) = tx_part (serial_port s)" "rx_set (serial_port t) (G \<union> taken pk) = rx_set (serial_port s) G" "\<forall>x \<in> set pk. fst x \<in> rx_set (serial_port s) G"
    "w_acms (as_serial 1 v) = w_acms (as_serial 1 w)"
proof (cases "fifo_contents (ep_readFifo s) = []")
  case True
  from net_read_empty[OF assms this, of H K reply] show ?thesis using that[of HDF_SUCCESS reply w "[]" s] assms by simp
next
  case c: False
  show ?thesis
  proof (cases "fo_alloc K (nextAddr (g_mem (w_g (ew_base w)))) (unat (DataFifoLen (ep_readFifo s)) + 4)")
    case True
    show ?thesis using net_read_nonempty[OF assms True refl c, of H reply thesis] that by blast
  next
    case False
    from net_read_no_memory[OF assms False c, of H reply] obtain m where
      "UsbEcmRead H K p reply w = Some (RetErr HDF_ERR_MALLOC_FAIL, reply, set_emem m w)" "net_ok (set_emem m w) p F G s" .
    moreover have "w_acms (as_serial 1 (set_emem m w)) = w_acms (as_serial 1 w)" by (simp add: view_mem)
    ultimately show ?thesis using that[of "RetErr HDF_ERR_MALLOC_FAIL" reply "set_emem m w" "[]" s] by simp
  qed
qed

text \<open>What a completed request for reading leaves in the ring.\<close>

lemma net_receives:
  assumes "net_ok w p F G s" "q \<in> G" "rx_done q st bs (ew_base w) = Some b"
  shows "\<exists>v t G'. UsbEcmReadComplete K q (w\<lparr>ew_base := b\<rparr>) = Some v \<and> net_ok v p F G' t \<and> rx_set (serial_port t) G' = rx_set (serial_port s) G \<and> ep_writeFifo t = ep_writeFifo s \<and>
    fifo_contents (ep_readFifo t) = (if st = 0 then rx_contents (unat (fsize (ep_readFifo s))) (fifo_contents (ep_readFifo s)) bs else fifo_contents (ep_readFifo s))"
proof -
  let ?w = "w\<lparr>ew_base := b\<rparr>" and ?i = "if st = 0 then 1 else 0 :: int"
  have N: "ep_locks s \<subseteq> {LockRW}" "line_ok (as_serial ?i w) p F G (serial_port s)" using assms(1) flag_ports(1)[of ?i w p F G "serial_port s"] by (simp_all add: net_ok_def)
  from rx_done_run[OF N(2) view_rx_done[OF assms(3)]] obtain r where d: "line_ok (as_serial ?i ?w) p F G (serial_port s)" "get_req q (as_serial ?i ?w) = Some r"
    "received (as_serial ?i ?w) r = bs" "arrives (unat (fsize (sp_readFifo (serial_port s)))) r" by metis
  fix H :: "unit hdf_env"
  from net_read_done[OF assms, of K H] obtain v where v: "UsbEcmReadComplete K q ?w = Some v" "viewed ?i p (ep_locks s) (as_serial ?i v) v"
    "UsbSerialReadComplete H K q (as_serial ?i ?w) = Some (as_serial ?i v)" .
  from ReadComplete_run[OF d(1) assms(2) d(2,4), of H K] obtain u t pk where r: "UsbSerialReadComplete H K q (as_serial ?i ?w) = Some u"
    "line_ok u p F (G - {q} \<union> taken pk) t" "tx_part t = tx_part (serial_port s)" "rx_set t (G - {q} \<union> taken pk) = rx_set (serial_port s) G"
    "fifo_contents (sp_readFifo t) = (if w_inFifo (as_serial ?i ?w) \<noteq> 0 then rx_contents (unat (fsize (sp_readFifo (serial_port s)))) (fifo_contents (sp_readFifo (serial_port s)))
       (received (as_serial ?i ?w) r) else fifo_contents (sp_readFifo (serial_port s)))" .
  have u: "line_ok (as_serial ?i v) p F (G - {q} \<union> taken pk) t" using r(1,2) v(3) by simp
  from viewed_net[OF v(2) N(1) u] obtain t' where t': "net_ok v p F (G - {q} \<union> taken pk) t'" "serial_port t' = t" .
  have "ep_writeFifo t' = ep_writeFifo s" "ep_readFifo t' = sp_readFifo t" using tx_part_fields(5)[OF r(3)] by (simp_all add: t'(2)[symmetric])
  then show ?thesis using v(1) t' r(4,5) d(3) by (intro exI[of _ v] exI[of _ t'] exI[of _ "G - {q} \<union> taken pk"]) auto
qed

subsection \<open>Runs\<close>

text \<open>The size of a message is a \<open>uint32_t\<close>; of a message, what fits goes into the ring.\<close>

inductive net_reach :: "'b hdf_env \<Rightarrow> 'k fn_os \<Rightarrow> ptr \<Rightarrow> 'k ecmw \<Rightarrow> ptr set \<Rightarrow> ptr set \<Rightarrow> 'k ecmw \<Rightarrow> ptr set \<Rightarrow> ptr set \<Rightarrow> u8 list \<Rightarrow> bool"
  for H K p w0 F0 G0 where
  start: "net_reach H K p w0 F0 G0 w0 F0 G0 []"
| wrote: "net_reach H K p w0 F0 G0 w F G acc \<Longrightarrow> he_readBuffer H data = (Some buf, data1) \<Longrightarrow> length buf < 2 ^ 32 \<Longrightarrow> ew_ports w p = Some s \<Longrightarrow>
    UsbEcmWrite H K p data w = Some (ret, data2, v) \<Longrightarrow>
    net_reach H K p w0 F0 G0 v (F \<union> taken (news (ew_base w) (ew_base v))) G (acc @ take (room (ep_writeFifo s)) buf)"
| write_done: "net_reach H K p w0 F0 G0 w F G acc \<Longrightarrow> q \<in> F \<Longrightarrow> tx_done q st n (ew_base w) = Some b \<Longrightarrow> UsbEcmWriteComplete K q (w\<lparr>ew_base := b\<rparr>) = Some v \<Longrightarrow>
    net_reach H K p w0 F0 G0 v (F - {q} \<union> taken (news (ew_base w) (ew_base v))) G acc"
| reads: "net_reach H K p w0 F0 G0 w F G acc \<Longrightarrow> UsbEcmRead H K p reply w = Some (ret, reply', v) \<Longrightarrow>
    net_reach H K p w0 F0 G0 v F (G \<union> taken (news (ew_base w) (ew_base v))) acc"
| read_done: "net_reach H K p w0 F0 G0 w F G acc \<Longrightarrow> q \<in> G \<Longrightarrow> rx_done q st bs (ew_base w) = Some b \<Longrightarrow> UsbEcmReadComplete K q (w\<lparr>ew_base := b\<rparr>) = Some v \<Longrightarrow>
    net_reach H K p w0 F0 G0 v F (G - {q} \<union> taken (news (ew_base w) (ew_base v))) acc"

definition net_run :: "'k ecmw \<Rightarrow> ptr \<Rightarrow> ptr set \<Rightarrow> ptr set \<Rightarrow> UsbEcm \<Rightarrow> 'k ecmw \<Rightarrow> ptr set \<Rightarrow> ptr set \<Rightarrow> UsbEcm \<Rightarrow> u8 list \<Rightarrow> bool" where
  "net_run w0 p F0 G0 s0 w F G s acc \<longleftrightarrow> net_ok w p F G s \<and> line_run (as_serial 1 w0) p F0 G0 (serial_port s0) (as_serial 1 w) F G (serial_port s) acc"

text \<open>A run that is known under the view.\<close>

lemma net_runI:
  assumes "viewed i p L (as_serial i v) v" "L \<subseteq> {LockRW}" "line_run (as_serial 1 w0) p F0 G0 (serial_port s0) (as_serial i v) F G t acc"
  shows "\<exists>s. net_run w0 p F0 G0 s0 v F G s acc"
proof -
  have "line_ok (as_serial i v) p F G t" using assms(3) by (simp add: line_run_def)
  from viewed_net[OF assms(1,2) this] obtain s where "net_ok v p F G s" "serial_port s = t" .
  then show ?thesis using assms(3) flag_run[of w0 p F0 G0 "serial_port s0" i v F G t acc] by (auto simp: net_run_def)
qed

lemma net_run_wrote:
  assumes "net_run w0 p F0 G0 s0 w F G s acc" "he_readBuffer H data = (Some buf, data1)" "length buf < 2 ^ 32" "UsbEcmWrite H K p data w = Some (ret, data2, v)"
  shows "\<exists>t. net_run w0 p F0 G0 s0 v (F \<union> taken (news (ew_base w) (ew_base v))) G t (acc @ take (room (ep_writeFifo s)) buf)"
proof -
  have ok: "net_ok w p F G s" and run: "line_run (as_serial 1 w0) p F0 G0 (serial_port s0) (as_serial 1 w) F G (serial_port s) acc" using assms(1) by (simp_all add: net_run_def)
  from net_write[OF ok assms(2), of K] obtain v' t pk where r: "UsbEcmWrite H K p data w = Some (HDF_SUCCESS, data1, v')" "net_ok v' p (F \<union> taken pk) G t"
    "w_sent (ew_base v') = w_sent (ew_base w) @ pk"
    "payload pk @ fifo_contents (ep_writeFifo t) = fifo_contents (ep_writeFifo s) @ take (min (unat (of_nat (length buf) :: u32)) (room (ep_writeFifo s))) buf"
    "packets_ok (tx_set (serial_port s) F) (packet (as_serial 1 w) (serial_port s)) pk" "tx_set (serial_port t) (F \<union> taken pk) = tx_set (serial_port s) F"
    "rx_set (serial_port t) G = rx_set (serial_port s) G" "ep_ecm t = ep_ecm s" "w_acms (as_serial 1 v') = w_acms (as_serial 1 w)" .
  have e: "v' = v" using r(1) assms(4) by simp
  have n: "unat (of_nat (length buf) :: u32) = length buf" using assms(3) by (simp add: unat_of_nat)
  have "take (min (length buf) (room (ep_writeFifo s))) buf = take (room (ep_writeFifo s)) buf" by (simp add: min_def)
  then have "line_run (as_serial 1 w0) p F0 G0 (serial_port s0) (as_serial 1 v) (F \<union> taken pk) G (serial_port t) (acc @ take (room (ep_writeFifo s)) buf)"
    using r(2-9) to_host_all[OF r(5)] unfolding e n by (intro line_run_step[OF run, where pk = pk]) (simp_all add: net_ok_def)
  then show ?thesis using r(2,3) unfolding e by (auto simp: net_run_def)
qed

lemma net_run_reads:
  assumes "net_run w0 p F0 G0 s0 w F G s acc" "UsbEcmRead H K p reply w = Some (ret, reply', v)"
  shows "\<exists>t. net_run w0 p F0 G0 s0 v F (G \<union> taken (news (ew_base w) (ew_base v))) t acc"
proof -
  have ok: "net_ok w p F G s" and run: "line_run (as_serial 1 w0) p F0 G0 (serial_port s0) (as_serial 1 w) F G (serial_port s) acc" using assms(1) by (simp_all add: net_run_def)
  from net_read[OF ok, of H K reply] obtain ret1 reply1 v' t pk where r: "UsbEcmRead H K p reply w = Some (ret1, reply1, v')" "net_ok v' p F (G \<union> taken pk) t"
    "w_sent (ew_base v') = w_sent (ew_base w) @ pk" "tx_part (serial_port t) = tx_part (serial_port s)"
    "rx_set (serial_port t) (G \<union> taken pk) = rx_set (serial_port s) G" "\<forall>x \<in> set pk. fst x \<in> rx_set (serial_port s) G" "w_acms (as_serial 1 v') = w_acms (as_serial 1 w)" .
  have e: "v' = v" using r(1) assms(2) by simp
  have dj: "tx_set (serial_port s) F \<inter> rx_set (serial_port s) G = {}" using ok line_disjoint[of "as_serial 1 w" p F G "serial_port s"] by (simp add: net_ok_def)
  have "line_run (as_serial 1 w0) p F0 G0 (serial_port s0) (as_serial 1 v) F (G \<union> taken pk) (serial_port t) (acc @ [])"
    using r(2-7) tx_part_fields(1,3,5)[OF r(4)] to_host_none[OF r(6) dj] unfolding e by (intro line_run_step[OF run, where pk = pk]) (simp_all add: net_ok_def tx_set_def)
  then show ?thesis using r(2,3) unfolding e by (auto simp: net_run_def)
qed

lemma net_reach_run:
  assumes "net_reach H K p w0 F0 G0 w F G acc" "net_ok w0 p F0 G0 s0"
  shows "\<exists>s. net_run w0 p F0 G0 s0 w F G s acc"
  using assms(1)
proof induction
  case start
  then show ?case using assms(2) by (auto simp: net_run_def line_run_def net_ok_def to_host_def intro!: exI[of _ s0])
next
  case (wrote w F G acc data buf data1 s ret data2 v)
  then obtain s' where s': "net_run w0 p F0 G0 s0 w F G s' acc" by blast
  then have "s' = s" using wrote.hyps(4) by (simp add: net_run_def net_ok_def)
  with s' have "net_run w0 p F0 G0 s0 w F G s acc" by simp
  from net_run_wrote[OF this wrote.hyps(2,3,5)] show ?case .
next
  case (write_done w F G acc q st n b v)
  then obtain s where s: "net_run w0 p F0 G0 s0 w F G s acc" by blast
  then have ok: "net_ok w p F G s" "ep_locks s \<subseteq> {LockRW}" and run: "line_run (as_serial 1 w0) p F0 G0 (serial_port s0) (as_serial 1 w) F G (serial_port s) acc"
    by (simp_all add: net_run_def net_ok_def)
  from net_write_done[OF ok(1) write_done.hyps(2,3), of K] write_done.hyps(4) have v: "viewed 1 p (ep_locks s) (as_serial 1 v) v"
    "UsbSerialWriteComplete K q (as_serial 1 (w\<lparr>ew_base := b\<rparr>)) = Some (as_serial 1 v)" by (metis option.inject)+
  from run_write_done[OF run write_done.hyps(2) view_tx_done[OF write_done.hyps(3)] v(2)] show ?case using net_runI[OF v(1) ok(2)] by fastforce
next
  case (reads w F G acc reply ret reply' v)
  then show ?case by (elim exE) (rule net_run_reads[OF _ reads.hyps(2)])
next
  case (read_done w F G acc q st bs b v)
  then obtain s where s: "net_run w0 p F0 G0 s0 w F G s acc" by blast
  let ?i = "if st = 0 then 1 else 0 :: int"
  have ok: "net_ok w p F G s" "ep_locks s \<subseteq> {LockRW}" and run: "line_run (as_serial 1 w0) p F0 G0 (serial_port s0) (as_serial ?i w) F G (serial_port s) acc"
    using s by (simp_all add: net_run_def net_ok_def flag_run[of _ _ _ _ _ ?i])
  from net_read_done[OF ok(1) read_done.hyps(2,3), of K H] read_done.hyps(4) have v: "viewed ?i p (ep_locks s) (as_serial ?i v) v"
    "UsbSerialReadComplete H K q (as_serial ?i (w\<lparr>ew_base := b\<rparr>)) = Some (as_serial ?i v)" by (metis option.inject)+
  from run_read_done[OF run read_done.hyps(2) view_rx_done[OF read_done.hyps(3)] v(2)] show ?case using net_runI[OF v(1) ok(2)] by fastforce
qed

subsection \<open>An example\<close>

text \<open>A port at 1 with a device at 2, as in the example of the serial function; the messages of the client have the bytes 1, 2, 3.\<close>

definition ex_net_env :: "string list hdf_env" where
  "ex_net_env = ex_env\<lparr>he_readBuffer := (\<lambda>b. (Some [1, 2, 3], b))\<rparr>"

definition ex_net_port :: UsbEcm where
  "ex_net_port = zero_ecm\<lparr>ep_ecm := Some 2, ep_readStarted := 1, ep_readAllocated := 1, ep_readFifo := ex_ring [104, 105, 0, 120],
     ep_writePool := [3], ep_writeAllocated := 1, ep_writeFifo := ex_ring []\<rparr>"

definition ex_net :: "unit ecmw" where
  "ex_net = \<lparr>ew_base = ex_world, ew_ecms = [2 \<mapsto> zero_ecmDevice\<lparr>ed_dataInPipe := \<lparr>ecp_id = 1, ecp_maxPacketSize = 64\<rparr>, ed_dataOutPipe := \<lparr>ecp_id = 2, ecp_maxPacketSize = 64\<rparr>, ed_port := Some 1\<rparr>],
     ew_ports = [1 \<mapsto> ex_net_port], ew_service = Some 2\<rparr>"

lemma ex_net_view: "serial_port ex_net_port = ex_port"
  by (simp add: serial_port_def ex_net_port_def zero_ecm_def ex_port_def zero_serial_def)

lemma ex_net_ok: "net_ok ex_net 1 {} {4} ex_net_port"
proof -
  have "line_ok (as_serial 1 ex_net) 1 {} {4} ex_port"
    using ex_ring_ok
    by (simp add: line_ok_def Acm_Line.heap_ok_def tx_port_def rx_port_def Acm_Stream.req_ok_def mem_ok_def ring_sized_def ex_net_def ex_net_view ex_world_def ex_request_def acm_consts packet_def
      null_gadget_def) (simp add: ex_port_def zero_serial_def ex_ring_def)
  then show ?thesis by (simp add: net_ok_def ex_net_view) (simp add: ex_net_def ex_net_port_def zero_ecm_def)
qed

subsection \<open>Sending\<close>

text \<open>No call hangs and none touches memory it may not.\<close>

definition net_returns :: "'b hdf_env \<Rightarrow> 'k fn_os \<Rightarrow> ptr \<Rightarrow> ptr set \<Rightarrow> ptr set \<Rightarrow> 'k ecmw \<Rightarrow> bool" where
  "net_returns H K p F G w \<longleftrightarrow> (\<forall>data. \<exists>x. UsbEcmWrite H K p data w = Some x) \<and> (\<forall>reply. \<exists>x. UsbEcmRead H K p reply w = Some x) \<and>
     (\<forall>q \<in> F. \<forall>st n b. tx_done q st n (ew_base w) = Some b \<longrightarrow> (\<exists>v. UsbEcmWriteComplete K q (w\<lparr>ew_base := b\<rparr>) = Some v)) \<and>
     (\<forall>q \<in> G. \<forall>st bs b. rx_done q st bs (ew_base w) = Some b \<longrightarrow> (\<exists>v. UsbEcmReadComplete K q (w\<lparr>ew_base := b\<rparr>) = Some v))"

lemma net_ok_returns:
  assumes "net_ok w p F G s"
  shows "net_returns H K p F G w"
  unfolding net_returns_def
proof (intro conjI ballI allI impI)
  show "\<exists>x. UsbEcmWrite H K p data w = Some x" for data
  proof (cases "he_readBuffer H data")
    case (Pair m data1)
    then show ?thesis using net_write[OF assms, of H data _ data1 K] by (cases m) (auto simp: UsbEcmWrite_def, metis)
  qed
  show "\<exists>x. UsbEcmRead H K p reply w = Some x" for reply using net_read[OF assms] by metis
  show "\<exists>v. UsbEcmWriteComplete K q (w\<lparr>ew_base := b\<rparr>) = Some v" if "q \<in> F" "tx_done q st n (ew_base w) = Some b" for q st n b
    using net_write_done[OF assms that] by metis
  show "\<exists>v. UsbEcmReadComplete K q (w\<lparr>ew_base := b\<rparr>) = Some v" if "q \<in> G" "rx_done q st bs (ew_base w) = Some b" for q st bs b
    using net_read_done[OF assms that] by metis
qed

text \<open>
  C38. Bytes leave the network link in the order in which they were written.  From any state of an open port, whatever calls of \<open>UsbEcmWrite\<close> and \<open>UsbEcmRead\<close> and
  completions of requests happen in whatever order, and whatever the kernel answers: what was in the ring at first and, of each message, the part that fitted into the ring at that time,
  is what was handed to the kernel in packets for the host, followed by what is still in the ring.  Every packet has at least one byte and at most the packet size of the pipe.  The port stays in order, with
  its locks free and its requests in the pools or with the kernel, and in the state that is reached every call and every completion returns.
\<close>

theorem UsbEcm_stream:
  assumes "net_reach H K p w0 F0 G0 w F G acc" "net_ok w0 p F0 G0 s0" "W = tx_set (serial_port s0) F0"
  shows "\<exists>s. net_ok w p F G s \<and> tx_set (serial_port s) F = W \<and> rx_set (serial_port s) G = rx_set (serial_port s0) G0 \<and>
    fifo_contents (ep_writeFifo s0) @ acc = payload (to_host W (news (ew_base w0) (ew_base w))) @ fifo_contents (ep_writeFifo s) \<and>
    packets_ok W (packet (as_serial 1 w0) (serial_port s0)) (to_host W (news (ew_base w0) (ew_base w))) \<and> net_returns H K p F G w"
proof -
  from net_reach_run[OF assms(1,2)] obtain s where s: "net_ok w p F G s" "line_run (as_serial 1 w0) p F0 G0 (serial_port s0) (as_serial 1 w) F G (serial_port s) acc"
    by (auto simp: net_run_def)
  from s(2) obtain pk where "w_sent (ew_base w) = w_sent (ew_base w0) @ pk" "packets_ok W (packet (as_serial 1 w0) (serial_port s0)) (to_host W pk)"
    "fifo_contents (ep_writeFifo s0) @ acc = payload (to_host W pk) @ fifo_contents (ep_writeFifo s)" "tx_set (serial_port s) F = W" "rx_set (serial_port s) G = rx_set (serial_port s0) G0"
    unfolding assms(3) by (auto simp: line_run_def)
  then show ?thesis using s(1) net_ok_returns[OF s(1)] by (intro exI[of _ s]) simp
qed

theorem UsbEcm_stream_witness:
  "\<exists>v s. UsbEcmWrite ex_net_env ex_acm_os 1 [] ex_net = Some (HDF_SUCCESS, [], v) \<and> net_ok v 1 (taken (news (ew_base ex_net) (ew_base v))) {4} s \<and>
     [1, 2, 3] = payload (to_host {3} (news (ew_base ex_net) (ew_base v))) @ fifo_contents (ep_writeFifo s)"
proof -
  have rd: "he_readBuffer ex_net_env [] = (Some [1, 2, 3], [])" by (simp add: ex_net_env_def)
  obtain v where wr: "UsbEcmWrite ex_net_env ex_acm_os 1 [] ex_net = Some (HDF_SUCCESS, [], v)" using net_write[OF ex_net_ok rd] by metis
  have pt: "ew_ports ex_net 1 = Some ex_net_port" by (simp add: ex_net_def)
  have "net_reach ex_net_env ex_acm_os 1 ex_net {} {4} v ({} \<union> taken (news (ew_base ex_net) (ew_base v))) {4} ([] @ take (room (ep_writeFifo ex_net_port)) [1, 2, 3])"
    by (rule net_reach.wrote[OF net_reach.start rd _ pt wr]) simp
  moreover have "room (ep_writeFifo ex_net_port) = 8192" "tx_set (serial_port ex_net_port) {} = {3}" "fifo_contents (ep_writeFifo ex_net_port) = []"
    by (simp_all add: room_def ex_net_port_def tx_set_def) (simp add: ex_ring_def)
  ultimately show ?thesis using UsbEcm_stream[OF _ ex_net_ok refl, of ex_net_env ex_acm_os v "taken (news (ew_base ex_net) (ew_base v))" "{4}" "[1, 2, 3]"] wr by auto
qed

subsection \<open>Receiving\<close>

text \<open>
  C39. \<open>UsbEcmRead\<close> hands the client everything that is in the ring, in order, and leaves the ring empty; an empty ring gives success and no bytes, and without memory the ring stays as
  it is.  A request for reading that completes with the status 0 puts its bytes at the end of the ring, in order: when the ring is full as many of the oldest bytes as arrive are dropped first, otherwise
  the bytes that do not fit are lost; with any other status nothing is stored.  The ring for writing is not touched, the block of a call is freed, and no request is lost.
\<close>

theorem UsbEcm_delivers:
  assumes "net_ok w p F G s" "fifo_contents (ep_readFifo s) = c"
  shows "(if c = [] then UsbEcmRead H K p reply w = Some (HDF_SUCCESS, reply, w)
     else if fo_alloc K (nextAddr (g_mem (w_g (ew_base w)))) (unat (DataFifoLen (ep_readFifo s)) + 4)
     then \<exists>v t. UsbEcmRead H K p reply w = Some (fst (net_reply H c reply), snd (net_reply H c reply), v) \<and> ew_ports v p = Some t \<and> fifo_contents (ep_readFifo t) = [] \<and>
       ep_writeFifo t = ep_writeFifo s \<and> live (g_mem (w_g (ew_base v))) = live (g_mem (w_g (ew_base w)))
     else \<exists>v. UsbEcmRead H K p reply w = Some (RetErr HDF_ERR_MALLOC_FAIL, reply, v) \<and> ew_ports v p = Some s) \<and>
   (\<forall>q \<in> G. \<forall>st bs b. rx_done q st bs (ew_base w) = Some b \<longrightarrow>
     (\<exists>v t G'. UsbEcmReadComplete K q (w\<lparr>ew_base := b\<rparr>) = Some v \<and> net_ok v p F G' t \<and> rx_set (serial_port t) G' = rx_set (serial_port s) G \<and> ep_writeFifo t = ep_writeFifo s \<and>
       fifo_contents (ep_readFifo t) = (if st = 0 then rx_contents (unat (fsize (ep_readFifo s))) c bs else c)))"
proof (intro conjI ballI allI impI, goal_cases)
  case 1
  consider "c = []" | "c \<noteq> []" "fo_alloc K (nextAddr (g_mem (w_g (ew_base w)))) (unat (DataFifoLen (ep_readFifo s)) + 4)"
    | "c \<noteq> []" "\<not> fo_alloc K (nextAddr (g_mem (w_g (ew_base w)))) (unat (DataFifoLen (ep_readFifo s)) + 4)" by blast
  then show ?case
  proof cases
    case 1
    then show ?thesis using net_read_empty[OF assms(1)] assms(2) by simp
  next
    case 2
    from net_read_nonempty[OF assms(1) 2(2) assms(2) 2(1), of H reply] obtain v t pk where
      r: "UsbEcmRead H K p reply w = Some (fst (net_reply H c reply), snd (net_reply H c reply), v)" "net_ok v p F (G \<union> taken pk) t" "fifo_contents (ep_readFifo t) = []"
        "tx_part (serial_port t) = tx_part (serial_port s)" "live (g_mem (w_g (ew_base v))) = live (g_mem (w_g (ew_base w)))" .
    then show ?thesis using 2 tx_part_fields(5)[OF r(4)] by (auto simp: net_ok_def)
  next
    case 3
    from net_read_no_memory[OF assms(1) 3(2), of H reply] obtain m where
      "UsbEcmRead H K p reply w = Some (RetErr HDF_ERR_MALLOC_FAIL, reply, set_emem m w)" "net_ok (set_emem m w) p F G s" using 3(1) assms(2) by blast
    then show ?thesis using 3 by (auto simp: net_ok_def)
  qed
next
  case (2 q st bs b)
  from net_receives[OF assms(1) this, of K] show ?case unfolding assms(2) .
qed

theorem UsbEcm_delivers_witness:
  "\<exists>v t. UsbEcmRead ex_net_env ex_acm_os 1 [] ex_net = Some (HDF_SUCCESS, [], v) \<and> ew_ports v 1 = Some t \<and> fifo_contents (ep_readFifo t) = []"
proof -
  have c: "fifo_contents (ep_readFifo ex_net_port) = [104, 105, 0, 120]" by (simp add: ex_net_port_def)
  have "net_reply ex_net_env [104, 105, 0, 120] [] = (HDF_SUCCESS, [])" by (simp add: net_reply_def ex_net_env_def ex_env_def)
  moreover have "fo_alloc ex_acm_os (nextAddr (g_mem (w_g (ew_base ex_net)))) (unat (DataFifoLen (ep_readFifo ex_net_port)) + 4)" by (simp add: ex_acm_os_def null_fn_os_def)
  ultimately show ?thesis using UsbEcm_delivers[OF ex_net_ok c, of ex_net_env ex_acm_os "[]"] by auto
qed

end
