(* ===== verification/Spec2Isabelle.thy ===== *)
theory Spec2Isabelle
  imports Usb_Fifo Usb_Descriptor_Release Usb_RawApi Usb_Requests Usb_Claims Usb_Transfer Usb_Device_Config Usb_Io
    Usbfn_Functionfs Usbfn_Events Usbfn_Hcs_Create Usbfn_Registry Ecm_Properties
begin

text \<open>
  Verification of the USB driver development kit of the peripheral drivers repository: the host
  side (\<open>src/usb/ddk/host\<close>), the device side (\<open>src/usb/ddk/device\<close>), the byte ring that the gadget
  functions share (\<open>src/usb/gadget/function/include/data_fifo.h\<close>), the serial function (\<open>src/usb/gadget/function/acm\<close>) and the
  network function (\<open>src/usb/gadget/function/ecm\<close>).

  \<^bold>\<open>The program.\<close>  On the host, a client claims interfaces of a device and exchanges requests with its pipes.
  The calls go through the interface pool (\<open>usb_interface_pool.c\<close>), which keeps one object per
  interface, alternate setting and pipe, built by the protocol layer (\<open>usb_protocol.c\<close>) from the configuration
  that the raw library (\<open>usb_raw_api_library.c\<close>) parses; the I/O manager (\<open>usb_io_manage.c\<close>) runs a
  thread that submits queued requests and a thread that reaps completed ones; the Linux adapter
  (\<open>linux_adapter.c\<close>) turns requests into URBs of the kernel.  On the device side, a client describes a device or names a node
  of the resource tree that describes it, which the configuration manager (\<open>usbfn_cfg_mgr.c\<close>) reads;
  the device manager (\<open>usbfn_dev_mgr.c\<close>) builds its table of interfaces and runs a thread that polls the endpoints; the
  I/O manager (\<open>usbfn_io_mgr.c\<close>) opens endpoint files and handles requests; the adapter (\<open>adapter_if.c\<close>) talks to
  the function file system; \<open>usbfn_sdk_if.c\<close> holds the checked entry points.  The serial function (\<open>cdcacm.c\<close>) is a client of the device side: it offers the host a modem
  with a control interface, notifications and two bulk pipes, and local programs a port that they open, write and read.
  The network function (\<open>cdcecm.c\<close>) is a second client with the same parts, which carries Ethernet frames and tells the host of the connection and its speed.

  \<^bold>\<open>How C becomes HOL.\<close>  A C function is a HOL function of the same name into \<open>option\<close>.  \<open>Some\<close> means that
  the function returns and that all its memory accesses are valid; \<open>None\<close> stands for undefined behaviour, for
  divergence, and for waiting forever.  A theorem that says \<open>\<dots> = Some \<dots>\<close> therefore includes memory safety and
  termination.  Return codes are the values of \<open>ret\<close> (\<open>Usb_Prelude\<close>).  Structs are records, heap objects
  live in a store with one heap per struct (\<open>'k host\<close> of \<open>Usb_State\<close>, \<open>'k gadget\<close> of \<open>Usbfn_State\<close>), and the set of
  live blocks is explicit (\<open>Usb_Mem\<close>), so that use after free, double free and leaks are visible.
  Machine integers keep their width.  Loops are recursive functions: structural ones where the C loop is bounded (a retry or
  a wait counts down the constant of the source), and \<open>partial_function (option)\<close> where the data of the
  device decides whether the loop ends (\<open>FindNextDescriptor_loop\<close>, \<open>ParseInterface_loop\<close>,
  \<open>ParseConfigurationDes_loop\<close>, \<open>OsReadDescriptors_loop\<close>), so that a loop that runs forever has the value \<open>None\<close>.  There is no
  fuel.

  \<^bold>\<open>Parameters.\<close>  Code outside the repository is an argument of the definitions: \<open>K\<close> holds the system
  calls (usbfs \<open>ioctl\<close>s, files, memory maps, the allocator's answer, threads); \<open>W\<close> is \<open>OsalSemWait\<close>, during which
  other threads run; \<open>H\<close> holds the driver framework that the two gadget functions use (messages, locks, time); \<open>E\<close> is what other threads do during a sleep.  What a theorem needs of them is a named hypothesis
  (\<open>usbfs_claims\<close>, \<open>closes\<close>, \<dots>) and its witness instantiates them with concrete functions.

  \<^bold>\<open>Concurrency.\<close>  Locks are left out on both sides of the development kit; the serial function keeps its two locks as
  flags and the network function the locks that are held of its four as a set, so that a lock taken twice or never given back is visible.  API calls and rounds of a thread's loop are atomic; the inductive relation
  \<open>io_reach\<close> (\<open>Usb_Io\<close>) interleaves them with the kernel in every order.

  \<^bold>\<open>Host side.\<close>
  \<^item> \<open>Usb_Prelude\<close>: machine integers, return codes, checked memory primitives, collections of simplification rules.
  \<^item> \<open>Usb_Fifo\<close>: the byte ring; the locale \<open>byte_queue\<close> states the contract of a bounded queue, is interpreted on the ring, and
    gives that the ring refines a queue across the wrap-around of its 32-bit counters.
  \<^item> \<open>Usb_Mem\<close>: allocation wrappers with the allocation tracker, which lists exactly the outstanding blocks.
  \<^item> \<open>Usb_Descriptor\<close>: the configuration parser.  \<open>Usb_Descriptor_Roundtrip\<close>, \<open>Usb_Descriptor_Config\<close> and
    \<open>Usb_Descriptor_Release\<close>: a wire format for configurations, the round trip of encoding and parsing, and the release of
    all memory.
  \<^item> \<open>Usb_State\<close>, \<open>Usb_Completion\<close>, \<open>Usb_Adapter\<close>, \<open>Usb_RawLib\<close>, \<open>Usb_RawApi\<close>, \<open>Usb_Pool\<close>, \<open>Usb_Protocol\<close>,
    \<open>Usb_PoolApi\<close>, \<open>Usb_Requests\<close>: the store and all operations of the host stack, one definition per C function, loops as
    auxiliary functions.
  \<^item> \<open>Usb_Claims\<close>: the mask of claimed interfaces refines the set that the kernel has granted (locale \<open>claim_table\<close>).
  \<^item> \<open>Usb_Transfer\<close>: bulk, control and synchronous transfers and cancellation, from submission to completion.
  \<^item> \<open>Usb_Device_Desc\<close>, \<open>Usb_Device_Config\<close>: opening a device is safe for every descriptor file and balanced by closing it;
    configurations are found by their value and read back whole.
  \<^item> \<open>Usb_Io\<close>: the two I/O threads: every submission is completed exactly once, no round faults, and
    a bounded number of rounds drains the queue.

  \<^bold>\<open>Device side.\<close>
  \<^item> \<open>Usbfn_State\<close>, \<open>Usbfn_Adapter\<close>, \<open>Usbfn_Configfs\<close>, \<open>Usbfn_Props\<close>, \<open>Usbfn_Io\<close>, \<open>Usbfn_Dev\<close>, \<open>Usbfn_Sdk\<close>: store and
    operations; the adapter is split into endpoint files and the configuration file system.
  \<^item> \<open>Usbfn_Hcs\<close>: the configuration manager (\<open>usbfn_cfg_mgr.c\<close>) that reads a device from the resource tree of the board into structs and releases it
    (its other half, the properties, is \<open>Usbfn_Props\<close>).  \<open>Usbfn_Hcs_Read\<close>, \<open>Usbfn_Hcs_Device\<close>: what the tree says of a device, declaratively, and that this is what is read;
    \<open>Usbfn_Hcs_Free\<close>: what a release gives back and what it forgets; \<open>Usbfn_Hcs_Bounds\<close>: when a descriptor fits its block; \<open>Usbfn_Hcs_Sample\<close>: a tree for the examples;
    \<open>Usbfn_Hcs_Create\<close>: the whole life of a device of the tree, through all managers.
  \<^item> \<open>Usbfn_Functionfs\<close>: the blocks written for a function have the layout that the function file system reads.
  \<^item> \<open>Usbfn_Table\<close>: the table of interfaces built by nested loops over static counters is the one computed from the description;
    renumbering of interfaces.
  \<^item> \<open>Usbfn_Open\<close>: opening an interface is safe whatever the kernel answers, and closing balances it.
  \<^item> \<open>Usbfn_Events\<close>: a round of the polling thread delivers every event to its addressee, in order, and nothing else.
  \<^item> \<open>Usbfn_Build\<close>, \<open>Usbfn_Tree\<close>: building a device in the configuration file system returns whatever the kernel answers, and
    with an obliging kernel writes exactly the tree of the description, in order.
  \<^item> \<open>Usbfn_Registry\<close>: the properties of an interface are a map from names to values (locale \<open>value_store\<close>).
  \<^item> \<open>Usbfn_Devices\<close>: the list of devices is a map from controllers to devices; creating adds an entry or changes
    nothing, and removing gives everything back.

  \<^bold>\<open>Serial function.\<close>
  \<^item> \<open>Acm_State\<close>, \<open>Acm_Serial\<close>, \<open>Acm_Port\<close>, \<open>Acm_Function\<close>: the store of the function around the store of the device side, and its
    operations.  Its \<open>while\<close> loops are \<open>loop_opt\<close> of their bodies.  A ghost list records what is handed to the kernel.
  \<^item> \<open>Acm_Stream\<close>, \<open>Acm_Receive\<close>, \<open>Acm_Line\<close>: each loop ends and keeps the invariant \<open>line_ok\<close> of an open port; the effect of every call.
  \<^item> \<open>Acm_Run\<close>, \<open>Acm_Properties\<close>: calls and completions in any order (\<open>line_reach\<close>): the stream to the host is in order and
    complete, nothing hangs or stalls, received bytes reach the client.
  \<^item> \<open>Acm_Control\<close>: line coding, notifications of the line state, and a write that fails.

  \<^bold>\<open>Network function.\<close>
  \<^item> \<open>Ecm_State\<close>, \<open>Ecm_Port\<close>, \<open>Ecm_Function\<close>: the store of the function, which extends the store of the serial function with heaps of its own, and its
    operations.
  \<^item> \<open>Ecm_View\<close>: the port of the network function seen as a port of the serial function; its loops and completions simulate those of the serial
    function, so that the invariant and the lemmas of \<open>Acm_Line\<close> and \<open>Acm_Run\<close> carry over.
  \<^item> \<open>Ecm_Stream\<close>, \<open>Ecm_Properties\<close>: writing and reading, and calls and completions in any order (\<open>net_reach\<close>): the stream to the host is in order, nothing hangs, received bytes
    reach the client.
  \<^item> \<open>Ecm_Notify\<close>: the state machine of the notifications (\<open>ecm_reach\<close>): the host hears of the connection and then of the speed, in a bounded number of completions.

  \<^bold>\<open>Not modelled.\<close>  The LiteOS variants of both adapters; registration with the device framework
  (\<open>usb_pnp_manager.c\<close>, \<open>DriverEntry\<close> tables); the module that starts the gadget functions
  and the host drivers, further clients of the two sides; binder dispatch (\<open>src/usb/hal\<close>); and the other peripherals of the repository, which do not interact with the USB stack.
\<close>

end
